(* ===== verification/PyFloat.thy ===== *)
theory PyFloat
  imports Prelude "HOL-Library.Log_Nat"
begin

text \<open>
  Python's \<open>float\<close>: IEEE 754 binary64. A finite value is its exact rational value; the
  negative zero, the infinities and the not-a-number value are separate constructors. Every
  arithmetic operation is the exact one followed by \<open>rnd\<close>, rounding to nearest, ties to
  even. \<open>float_repr\<close> is \<open>float.__repr__\<close> (the shortest decimal text that reads back),
  \<open>float_of_decimal\<close> is the correctly rounded reading of a decimal literal.
\<close>

section \<open>Decimal digits\<close>

definition digit_char :: "nat \<Rightarrow> char" where
  "digit_char d = char_of (48 + d)"

definition is_digit :: "char \<Rightarrow> bool" where
  "is_digit c \<longleftrightarrow> 48 \<le> (of_char c :: nat) \<and> of_char c \<le> (57 :: nat)"

definition digit_val :: "char \<Rightarrow> nat" where
  "digit_val c = of_char c - 48"

fun nat_str :: "nat \<Rightarrow> string" where
  "nat_str n = (if n < 10 then [digit_char n] else nat_str (n div 10) @ [digit_char (n mod 10)])"

declare nat_str.simps [simp del]

definition int_str :: "int \<Rightarrow> string" where
  "int_str i = (if i < 0 then CHR ''-'' # nat_str (nat (- i)) else nat_str (nat i))"

definition digits_val :: "string \<Rightarrow> nat" where
  "digits_val ds = foldl (\<lambda>n c. 10 * n + digit_val c) 0 ds"

lemma of_char_digit_char: "d < 10 \<Longrightarrow> of_char (digit_char d) = (48 + d :: nat)"
  by (simp add: digit_char_def)

lemma is_digit_digit_char [simp]: "d < 10 \<Longrightarrow> is_digit (digit_char d)"
  by (simp add: is_digit_def of_char_digit_char)

lemma digit_val_digit_char [simp]: "d < 10 \<Longrightarrow> digit_val (digit_char d) = d"
  by (simp add: digit_val_def of_char_digit_char)

lemma digits_val_Nil [simp]: "digits_val [] = 0"
  by (simp add: digits_val_def)

lemma digits_val_snoc [simp]: "digits_val (ds @ [c]) = 10 * digits_val ds + digit_val c"
  by (simp add: digits_val_def)

lemma digits_val_append: "digits_val (xs @ ys) = digits_val xs * 10 ^ length ys + digits_val ys"
  by (induction ys rule: rev_induct) (simp_all flip: append_assoc add: algebra_simps)

lemma digits_val_zeros [simp]: "digits_val (replicate n (CHR ''0'')) = 0"
  by (induction n) (simp_all add: digit_val_def flip: replicate_append_same)

lemma nat_str_digits: "c \<in> set (nat_str n) \<Longrightarrow> is_digit c"
  by (induction n rule: nat_str.induct) (subst (asm) (2) nat_str.simps, auto split: if_splits)

lemma nat_str_all_digits: "list_all is_digit (nat_str n)"
  by (simp add: list_all_iff nat_str_digits)

lemma nat_str_nonempty [simp]: "nat_str n \<noteq> []"
  by (subst nat_str.simps) simp

lemma digits_val_nat_str [simp]: "digits_val (nat_str n) = n"
proof (induction n rule: nat_str.induct)
  case (1 n)
  show ?case
  proof (cases "n < 10")
    case True
    then show ?thesis
      by (subst nat_str.simps) (simp add: digits_val_def)
  next
    case False
    then show ?thesis
      by (subst nat_str.simps) (simp add: 1)
  qed
qed

lemma nat_str_eq_iff [simp]: "nat_str m = nat_str n \<longleftrightarrow> m = n"
  by (metis digits_val_nat_str)

text \<open>A numeral of two or more digits has no leading zero.\<close>

lemma nat_str_hd_zero: "hd (nat_str n) = CHR ''0'' \<Longrightarrow> n = 0"
proof (induction n rule: nat_str.induct)
  case (1 n)
  show ?case
  proof (cases "n < 10")
    case True
    then have "digit_char n = CHR ''0''"
      using "1.prems" by (subst (asm) nat_str.simps) simp
    then have "of_char (digit_char n) = (of_char (CHR ''0'') :: nat)" by simp
    with True show ?thesis by (simp add: of_char_digit_char)
  next
    case False
    then have "hd (nat_str (n div 10)) = CHR ''0''"
      using "1.prems" by (subst (asm) nat_str.simps) simp
    with "1.IH" False show ?thesis by simp
  qed
qed

section \<open>Rounding to binary64\<close>

datatype pyfloat = Fin rat | NegZero | PosInf | NegInf | NaN

text \<open>Round to the nearest integer, ties to even.\<close>

definition round_half_even :: "rat \<Rightarrow> int" where
  "round_half_even x =
     (let f = floor x; d = x - of_int f
      in if d < 1 / 2 then f else if d > 1 / 2 then f + 1 else if even f then f else f + 1)"

lemma round_half_even_of_int [simp]: "round_half_even (of_int i) = i"
  by (simp add: round_half_even_def)

definition pow2 :: "int \<Rightarrow> rat" where
  "pow2 k = (if 0 \<le> k then 2 ^ nat k else 1 / 2 ^ nat (- k))"

definition pow10 :: "int \<Rightarrow> rat" where
  "pow10 k = (if 0 \<le> k then 10 ^ nat k else 1 / 10 ^ nat (- k))"

lemma pow2_powi: "pow2 k = 2 powi k"
  by (simp add: pow2_def power_int_def inverse_eq_divide power_one_over)

lemma pow10_powi: "pow10 k = 10 powi k"
  by (simp add: pow10_def power_int_def inverse_eq_divide power_one_over)

lemma pow2_pos [simp]: "0 < pow2 k"
  by (simp add: pow2_def)

lemma pow2_add: "pow2 (a + b) = pow2 a * pow2 b"
  by (simp add: pow2_powi power_int_add)

lemma pow2_mono: "a \<le> b \<Longrightarrow> pow2 a \<le> pow2 b"
  by (simp add: pow2_powi power_int_increasing)

lemma pow2_less: "pow2 a < pow2 b \<Longrightarrow> a < b"
  using pow2_mono [of b a] by (rule_tac ccontr) simp

lemma pow2_int: "0 \<le> k \<Longrightarrow> pow2 k = of_int (2 ^ nat k)"
  by (simp add: pow2_def)

lemma pow10_pos [simp]: "0 < pow10 k"
  by (simp add: pow10_def)

lemma pow10_add: "pow10 (a + b) = pow10 a * pow10 b"
  by (simp add: pow10_powi power_int_add)

text \<open>\<open>flog2 a\<close> is the exponent of the leading bit of a positive \<open>a\<close>: the bit lengths of
  numerator and denominator give it up to one.\<close>

definition flog2 :: "rat \<Rightarrow> int" where
  "flog2 a =
     (let (p, q) = quotient_of a; k = bitlen p - bitlen q
      in if pow2 k \<le> a then k else k - 1)"

lemma flog2_bounds:
  assumes "0 < a"
  shows "pow2 (flog2 a) \<le> a" and "a < pow2 (flog2 a + 1)"
proof -
  obtain p q where pq: "quotient_of a = (p, q)" by fastforce
  then have a: "a = of_int p / of_int q" and q: "0 < q"
    by (simp_all add: quotient_of_div quotient_of_denom_pos)
  have p: "0 < p" using assms a q by (simp add: zero_less_divide_iff)
  have bp: "bitlen p \<ge> 1" and bq: "bitlen q \<ge> 1"
    using p q by (auto simp: bitlen_alt_def)
  have pb: "pow2 (bitlen p - 1) \<le> of_int p" "of_int p < pow2 (bitlen p)"
    using bitlen_bounds [OF p] bp by (simp_all add: pow2_int del: of_int_power)
  have qb: "pow2 (bitlen q - 1) \<le> of_int q" "of_int q < pow2 (bitlen q)"
    using bitlen_bounds [OF q] bq by (simp_all add: pow2_int del: of_int_power)
  have lo: "pow2 (bitlen p - bitlen q - 1) \<le> a"
  proof -
    have "pow2 (bitlen p - bitlen q - 1) * of_int q \<le> pow2 (bitlen p - bitlen q - 1) * pow2 (bitlen q)"
      using qb(2) by (intro mult_left_mono) (auto intro: less_imp_le)
    also have "\<dots> = pow2 (bitlen p - 1)" by (simp flip: pow2_add)
    also have "\<dots> \<le> of_int p" by (rule pb(1))
    finally show ?thesis using q by (simp add: a pos_le_divide_eq)
  qed
  have hi: "a < pow2 (bitlen p - bitlen q + 1)"
  proof -
    have "of_int p < pow2 (bitlen p)" by (rule pb(2))
    also have "\<dots> = pow2 (bitlen p - bitlen q + 1) * pow2 (bitlen q - 1)" by (simp flip: pow2_add)
    also have "\<dots> \<le> pow2 (bitlen p - bitlen q + 1) * of_int q"
      using qb(1) by (intro mult_left_mono) (auto intro: less_imp_le)
    finally show ?thesis using q by (simp add: a pos_divide_less_eq)
  qed
  show "pow2 (flog2 a) \<le> a" "a < pow2 (flog2 a + 1)"
    using lo hi by (auto simp: flog2_def pq Let_def algebra_simps)
qed

text \<open>The exponent of the last place of the binary64 format at \<open>a\<close>, and rounding of a
  positive value to a multiple of it.\<close>

definition ulp_exp :: "rat \<Rightarrow> int" where
  "ulp_exp a = max (flog2 a - 52) (- 1074)"

definition rnd_abs :: "rat \<Rightarrow> rat" where
  "rnd_abs a = of_int (round_half_even (a / pow2 (ulp_exp a))) * pow2 (ulp_exp a)"

definition rnd :: "rat \<Rightarrow> pyfloat" where
  "rnd a =
     (if a = 0 then Fin 0
      else let r = rnd_abs \<bar>a\<bar>
           in if pow2 1024 \<le> r then (if 0 < a then PosInf else NegInf)
              else if r = 0 then (if 0 < a then Fin 0 else NegZero)
              else Fin (if 0 < a then r else - r))"

definition is_double :: "rat \<Rightarrow> bool" where
  "is_double r \<longleftrightarrow> rnd r = Fin r"

lemma round_half_even_le:
  assumes "x < of_int n"
  shows "round_half_even x \<le> n"
proof -
  have "floor x < n" using assms by linarith
  then show ?thesis by (auto simp: round_half_even_def Let_def)
qed

lemma round_half_even_nonneg: "0 \<le> x \<Longrightarrow> 0 \<le> round_half_even x"
proof -
  assume "0 \<le> x"
  then have "0 \<le> floor x" by simp
  then show ?thesis by (auto simp: round_half_even_def Let_def)
qed

lemma flog2_le: "0 < x \<Longrightarrow> x < pow2 (k + 1) \<Longrightarrow> flog2 x \<le> k"
proof -
  assume "0 < x" "x < pow2 (k + 1)"
  then have "pow2 (flog2 x) < pow2 (k + 1)"
    using flog2_bounds(1) [of x] by linarith
  then show ?thesis using pow2_less by force
qed

text \<open>A multiple of the last place is already representable.\<close>

lemma rnd_abs_exact:
  assumes x: "x = of_int m * pow2 u" and u: "ulp_exp x \<le> u"
  shows "rnd_abs x = x"
proof -
  have "pow2 u = pow2 (u - ulp_exp x) * pow2 (ulp_exp x)"
    by (simp flip: pow2_add)
  then have "x = of_int (m * 2 ^ nat (u - ulp_exp x)) * pow2 (ulp_exp x)"
    using u by (simp add: x [symmetric] pow2_int [of "u - ulp_exp x"]) (simp add: x)
  then have "x / pow2 (ulp_exp x) = of_int (m * 2 ^ nat (u - ulp_exp x))"
    by (metis less_irrefl nonzero_mult_div_cancel_right pow2_pos)
  then show ?thesis
    by (metis less_irrefl nonzero_eq_divide_eq pow2_pos rnd_abs_def round_half_even_of_int)
qed

lemma rnd_abs_form:
  assumes "0 < a" and "0 < rnd_abs a"
  obtains m u where "rnd_abs a = of_int m * pow2 u" and "ulp_exp (rnd_abs a) \<le> u" and "- 1074 \<le> u"
proof -
  define u where "u = ulp_exp a"
  define m where "m = round_half_even (a / pow2 u)"
  have r: "rnd_abs a = of_int m * pow2 u"
    by (simp add: rnd_abs_def m_def u_def)
  have u: "- 1074 \<le> u" "flog2 a - 52 \<le> u" by (simp_all add: u_def ulp_exp_def)
  have "a < pow2 (u + 53)"
    using flog2_bounds(2) [OF assms(1)] pow2_mono [of "flog2 a + 1" "u + 53"] u(2) by linarith
  then have "a / pow2 u < of_int (2 ^ 53)"
    by (simp add: pos_divide_less_eq pow2_add) (simp add: pow2_def mult.commute)
  then have m: "m \<le> 2 ^ 53"
    unfolding m_def by (rule round_half_even_le)
  show thesis
  proof (cases "m = 2 ^ 53")
    case True
    then have r': "rnd_abs a = of_int (2 ^ 52) * pow2 (u + 1)"
      by (simp add: r pow2_add) (simp add: pow2_def)
    have "rnd_abs a = pow2 (u + 53)"
      using True by (simp add: r pow2_add) (simp add: pow2_def)
    then have "flog2 (rnd_abs a) \<le> u + 53"
      using assms(2) pow2_add [of "u + 53" 1] by (intro flog2_le) (simp_all add: pow2_def)
    then have "ulp_exp (rnd_abs a) \<le> u + 1" using u by (simp add: ulp_exp_def)
    with r' u show ?thesis by (intro that [of "2 ^ 52" "u + 1"]) auto
  next
    case False
    with m have "of_int m < (of_int (2 ^ 53) :: rat)" by (simp only: of_int_less_iff)
    then have "rnd_abs a < of_int (2 ^ 53) * pow2 u"
      by (simp only: r mult_less_cancel_right_pos [OF pow2_pos])
    also have "of_int (2 ^ 53) * pow2 u = pow2 (u + 53)"
      by (simp add: pow2_add) (simp add: pow2_def)
    finally have "flog2 (rnd_abs a) \<le> u + 52"
      using assms(2) by (intro flog2_le) (simp_all add: algebra_simps)
    then have "ulp_exp (rnd_abs a) \<le> u" using u by (simp add: ulp_exp_def)
    with r u show ?thesis by (intro that [of m u]) auto
  qed
qed

lemma rnd_abs_idem: "0 < a \<Longrightarrow> 0 < rnd_abs a \<Longrightarrow> rnd_abs (rnd_abs a) = rnd_abs a"
  by (metis rnd_abs_exact rnd_abs_form)

lemma rnd_abs_nonneg: "0 \<le> a \<Longrightarrow> 0 \<le> rnd_abs a"
  by (simp add: rnd_abs_def round_half_even_nonneg less_imp_le)

text \<open>Rounding lands on representable values: rounding again changes nothing.\<close>

lemma rnd_idem: "rnd a = Fin r \<Longrightarrow> is_double r"
proof -
  assume r: "rnd a = Fin r"
  show ?thesis
  proof (cases "r = 0")
    case False
    with r have a: "a \<noteq> 0" by (auto simp: rnd_def)
    define s where "s = rnd_abs \<bar>a\<bar>"
    have s: "s \<noteq> 0" "s < pow2 1024" "r = (if 0 < a then s else - s)"
      using r False a by (auto simp: rnd_def Let_def s_def split: if_splits)
    have "0 < s" using s(1) rnd_abs_nonneg [of "\<bar>a\<bar>"] by (simp add: s_def)
    moreover have "rnd_abs s = s"
      using rnd_abs_idem [of "\<bar>a\<bar>"] a \<open>0 < s\<close> by (simp add: s_def)
    ultimately show ?thesis
      using s by (auto simp: is_double_def rnd_def Let_def)
  qed (simp add: is_double_def rnd_def)
qed

lemma is_double_minus: "is_double a \<Longrightarrow> is_double (- a)"
  by (auto simp: is_double_def rnd_def Let_def split: if_splits)

lemma is_double_0 [simp]: "is_double 0"
  by (simp add: is_double_def rnd_def)

text \<open>A representable value is an integer multiple of the smallest positive one.\<close>

lemma is_double_scaled:
  assumes "is_double r" and "0 < r"
  shows "\<exists>m. r * pow2 1074 = of_int m"
proof -
  have r: "rnd_abs r = r"
    using assms by (auto simp: is_double_def rnd_def Let_def split: if_splits)
  then obtain m u where mu: "r = of_int m * pow2 u" "- 1074 \<le> u"
    using rnd_abs_form [OF assms(2)] assms(2) by metis
  have "r * pow2 1074 = of_int m * pow2 (u + 1074)"
    by (simp add: mu(1) pow2_add)
  also have "\<dots> = of_int (m * 2 ^ nat (u + 1074))"
    using mu(2) by (simp add: pow2_int)
  finally show ?thesis by blast
qed

section \<open>Decimal text\<close>

text \<open>The correctly rounded value of a decimal literal \<open>\<plusminus>M \<times> 10^E\<close>.\<close>

definition fneg :: "pyfloat \<Rightarrow> pyfloat" where
  "fneg f = (case f of Fin r \<Rightarrow> if r = 0 then NegZero else Fin (- r)
     | NegZero \<Rightarrow> Fin 0 | PosInf \<Rightarrow> NegInf | NegInf \<Rightarrow> PosInf | NaN \<Rightarrow> NaN)"

definition float_of_decimal :: "bool \<Rightarrow> nat \<Rightarrow> int \<Rightarrow> pyfloat" where
  "float_of_decimal neg m e = (let f = rnd (of_nat m * pow10 e) in if neg then fneg f else f)"

text \<open>\<open>decpt a\<close>: the number of decimal digits of \<open>a\<close> before the point (zero or
  negative for small values).\<close>

definition decpt :: "rat \<Rightarrow> int" where
  "decpt a =
     (let (p, q) = quotient_of a;
          k = int (length (nat_str (nat p))) - int (length (nat_str (nat q)))
      in if pow10 k \<le> a then k + 1 else k)"

text \<open>The decimals with \<open>n\<close> significant digits next to \<open>a\<close>, the nearest first; the
  first that reads back as \<open>a\<close>, with \<open>n\<close> as small as possible. Seventeen digits are
  enough for every binary64 value; the exact expansion closes the search.\<close>

definition near_decimals :: "rat \<Rightarrow> nat \<Rightarrow> (nat \<times> int) list" where
  "near_decimals a n =
     (let e = decpt a - int n; x = a / pow10 e; c = round_half_even x; l = floor x;
          o' = (if c = l then l + 1 else l)
      in [(nat c, e), (nat o', e)])"

definition reads_back :: "rat \<Rightarrow> nat \<times> int \<Rightarrow> bool" where
  "reads_back a = (\<lambda>(m, e). rnd (of_nat m * pow10 e) = Fin a)"

definition shortest_decimal :: "rat \<Rightarrow> nat \<times> int" where
  "shortest_decimal a =
     (case find (reads_back a) (concat (map (near_decimals a) [1..<18])) of
        Some d \<Rightarrow> d
      | None \<Rightarrow> (nat (floor (a * pow10 1074)), - 1074))"

fun strip_zeros :: "string \<Rightarrow> string" where
  "strip_zeros [] = []"
| "strip_zeros (c # cs) =
     (let r = strip_zeros cs in if r = [] \<and> c = CHR ''0'' then [] else c # r)"

text \<open>Layout of \<open>float.__repr__\<close> for digits \<open>ds\<close> and decimal point position \<open>k\<close>:
  fixed notation for \<open>-4 < k \<le> 16\<close>, scientific otherwise with at least two exponent
  digits.\<close>

definition exp_str :: "int \<Rightarrow> string" where
  "exp_str x =
     (if x < 0 then ''-'' else ''+'') @
     (let d = nat_str (nat \<bar>x\<bar>) in if length d < 2 then CHR ''0'' # d else d)"

definition layout :: "string \<Rightarrow> int \<Rightarrow> string" where
  "layout ds k =
     (if - 4 < k \<and> k \<le> 16
      then if k \<le> 0 then ''0.'' @ replicate (nat (- k)) (CHR ''0'') @ ds
           else if int (length ds) \<le> k
                then ds @ replicate (nat k - length ds) (CHR ''0'') @ ''.0''
                else take (nat k) ds @ ''.'' @ drop (nat k) ds
      else take 1 ds @ (if length ds = 1 then [] else ''.'' @ drop 1 ds)
           @ ''e'' @ exp_str (k - 1))"

definition repr_pos :: "rat \<Rightarrow> string" where
  "repr_pos a =
     (let (m, e) = shortest_decimal a; s = nat_str m
      in layout (strip_zeros s) (int (length s) + e))"

definition float_repr :: "pyfloat \<Rightarrow> string" where
  "float_repr f =
     (case f of
        Fin r \<Rightarrow> if r = 0 then ''0.0'' else if r < 0 then CHR ''-'' # repr_pos (- r) else repr_pos r
      | NegZero \<Rightarrow> ''-0.0'' | PosInf \<Rightarrow> ''inf'' | NegInf \<Rightarrow> ''-inf'' | NaN \<Rightarrow> ''nan'')"

section \<open>Scanning decimal text\<close>

text \<open>The number token of the JSON grammar: an integer part without leading zeros, an
  optional fraction, an optional exponent. Python's scanner takes the longest match.\<close>

type_synonym num_token = "string \<times> string \<times> int option"

fun scan_int :: "string \<Rightarrow> (string \<times> string) option" where
  "scan_int [] = None"
| "scan_int (c # cs) =
     (if c = CHR ''0'' then Some ([c], cs)
      else if is_digit c then Some (c # takeWhile is_digit cs, dropWhile is_digit cs)
      else None)"

fun scan_frac :: "string \<Rightarrow> string \<times> string" where
  "scan_frac (p # d # cs) =
     (if p = CHR ''.'' \<and> is_digit d then (d # takeWhile is_digit cs, dropWhile is_digit cs)
      else ([], p # d # cs))"
| "scan_frac s = ([], s)"

definition scan_digits :: "string \<Rightarrow> (nat \<times> string) option" where
  "scan_digits s =
     (let ds = takeWhile is_digit s in if ds = [] then None else Some (digits_val ds, dropWhile is_digit s))"

fun scan_exp :: "string \<Rightarrow> int option \<times> string" where
  "scan_exp (c # cs) =
     (if c = CHR ''e'' \<or> c = CHR ''E'' then
        (case cs of
           [] \<Rightarrow> (None, c # cs)
         | g # gs \<Rightarrow>
             (if g = CHR ''+'' then
                (case scan_digits gs of Some (n, r) \<Rightarrow> (Some (int n), r) | None \<Rightarrow> (None, c # cs))
              else if g = CHR ''-'' then
                (case scan_digits gs of Some (n, r) \<Rightarrow> (Some (- int n), r) | None \<Rightarrow> (None, c # cs))
              else
                (case scan_digits cs of Some (n, r) \<Rightarrow> (Some (int n), r) | None \<Rightarrow> (None, c # cs))))
      else (None, c # cs))"
| "scan_exp [] = (None, [])"

definition scan_unsigned :: "string \<Rightarrow> (num_token \<times> string) option" where
  "scan_unsigned s =
     (case scan_int s of None \<Rightarrow> None
      | Some (ip, s1) \<Rightarrow>
          (let (fr, s2) = scan_frac s1; (ex, s3) = scan_exp s2 in Some ((ip, fr, ex), s3)))"

definition token_float :: "bool \<Rightarrow> num_token \<Rightarrow> pyfloat" where
  "token_float neg = (\<lambda>(ip, fr, ex).
     float_of_decimal neg (digits_val (ip @ fr)) ((case ex of None \<Rightarrow> 0 | Some x \<Rightarrow> x) - int (length fr)))"

text \<open>What may follow a number in JSON text without being read as part of it.\<close>

definition num_stop :: "string \<Rightarrow> bool" where
  "num_stop r \<longleftrightarrow> r = [] \<or> (\<not> is_digit (hd r) \<and> hd r \<notin> {CHR ''.'', CHR ''e'', CHR ''E''})"

lemma is_digit_simps [simp]:
  "is_digit (CHR ''0'')" "\<not> is_digit (CHR ''.'')" "\<not> is_digit (CHR ''e'')"
  "\<not> is_digit (CHR ''+'')" "\<not> is_digit (CHR ''-'')"
  by (simp_all add: is_digit_def)

lemma num_stop_dropWhile: "num_stop r \<Longrightarrow> dropWhile is_digit r = r"
  by (cases r) (auto simp: num_stop_def)

lemma num_stop_takeWhile: "num_stop r \<Longrightarrow> takeWhile is_digit r = []"
  by (cases r) (auto simp: num_stop_def)

lemma span_digits [simp]:
  "list_all is_digit ds \<Longrightarrow> takeWhile is_digit (ds @ r) = ds @ takeWhile is_digit r"
  "list_all is_digit ds \<Longrightarrow> dropWhile is_digit (ds @ r) = dropWhile is_digit r"
  by (induction ds) auto

lemma scan_exp_stop: "num_stop r \<Longrightarrow> scan_exp r = (None, r)"
  by (cases r) (auto simp: num_stop_def)

lemma scan_frac_no_point: "r = [] \<or> hd r \<noteq> CHR ''.'' \<Longrightarrow> scan_frac r = ([], r)"
  by (cases r rule: scan_frac.cases) auto

lemma scan_frac_stop: "num_stop r \<Longrightarrow> scan_frac r = ([], r)"
  by (rule scan_frac_no_point) (auto simp: num_stop_def)

lemma scan_frac_point:
  "list_all is_digit ds \<Longrightarrow> ds \<noteq> [] \<Longrightarrow>
   scan_frac (CHR ''.'' # ds @ r) = (ds @ takeWhile is_digit r, dropWhile is_digit r)"
  by (cases ds) auto

lemma scan_int_digits:
  "list_all is_digit ds \<Longrightarrow> ds \<noteq> [] \<Longrightarrow> hd ds \<noteq> CHR ''0'' \<Longrightarrow>
   scan_int (ds @ r) = Some (ds @ takeWhile is_digit r, dropWhile is_digit r)"
  by (cases ds) auto

lemma scan_exp_str:
  assumes "num_stop r"
  shows "scan_exp (CHR ''e'' # exp_str x @ r) = (Some x, r)"
proof -
  define d where "d = (let d = nat_str (nat \<bar>x\<bar>) in if length d < 2 then CHR ''0'' # d else d)"
  have dd: "list_all is_digit d" "d \<noteq> []"
    by (auto simp: d_def Let_def nat_str_all_digits)
  have "digits_val (CHR ''0'' # s) = digits_val s" for s
    using digits_val_append [of "[CHR ''0'']" s] by (simp add: digits_val_def digit_val_def)
  then have v: "digits_val d = nat \<bar>x\<bar>"
    by (simp add: d_def Let_def)
  have sd: "scan_digits (d @ r) = Some (nat \<bar>x\<bar>, r)"
    using dd assms by (simp add: scan_digits_def Let_def num_stop_takeWhile num_stop_dropWhile v)
  have e: "exp_str x = (if x < 0 then CHR ''-'' # d else CHR ''+'' # d)"
    by (simp add: exp_str_def d_def)
  show ?thesis using sd by (simp add: e)
qed

text \<open>Scanning the layout of \<open>ds\<close> with point position \<open>k\<close> gives back
  \<open>0.ds \<times> 10^k\<close>, as a token that is not an integer token.\<close>

definition token_value :: "num_token \<Rightarrow> rat" where
  "token_value = (\<lambda>(ip, fr, ex).
     of_nat (digits_val (ip @ fr)) * pow10 ((case ex of None \<Rightarrow> 0 | Some x \<Rightarrow> x) - int (length fr)))"

definition is_float_token :: "num_token \<Rightarrow> bool" where
  "is_float_token = (\<lambda>(ip, fr, ex). fr \<noteq> [] \<or> ex \<noteq> None)"

definition numeral_digits :: "string \<Rightarrow> bool" where
  "numeral_digits ds \<longleftrightarrow> list_all is_digit ds \<and> ds \<noteq> [] \<and> hd ds \<noteq> CHR ''0''"

lemma numeral_digitsD:
  assumes "numeral_digits ds"
  shows "list_all is_digit ds" "ds \<noteq> []" "hd ds \<noteq> CHR ''0''"
  using assms by (simp_all add: numeral_digits_def)

lemma scan_layout_small:
  assumes d: "numeral_digits ds" and "num_stop r" and "k \<le> 0"
  shows "scan_unsigned (''0.'' @ replicate (nat (- k)) (CHR ''0'') @ ds @ r) =
    Some ((''0'', replicate (nat (- k)) (CHR ''0'') @ ds, None), r)"
proof -
  note ds = numeral_digitsD [OF d]
  have "list_all is_digit (replicate (nat (- k)) (CHR ''0'') @ ds)"
    using ds(1) by (auto simp: list_all_iff)
  then show ?thesis
    using scan_frac_point [of "replicate (nat (- k)) (CHR ''0'') @ ds" r] assms ds(2)
    by (simp add: scan_unsigned_def num_stop_takeWhile num_stop_dropWhile scan_exp_stop)
qed

lemma scan_layout_integral:
  assumes d: "numeral_digits ds" and "num_stop r"
  shows "scan_unsigned (ds @ replicate n (CHR ''0'') @ ''.0'' @ r) =
    Some ((ds @ replicate n (CHR ''0''), ''0'', None), r)"
proof -
  note ds = numeral_digitsD [OF d]
  have "scan_int ((ds @ replicate n (CHR ''0'')) @ ''.0'' @ r) =
      Some (ds @ replicate n (CHR ''0''), ''.0'' @ r)"
    using ds by (subst scan_int_digits) (auto simp: list_all_iff)
  moreover have "scan_frac (''.0'' @ r) = (''0'', r)"
    using assms by (simp add: num_stop_takeWhile num_stop_dropWhile)
  ultimately show ?thesis
    using assms by (simp add: scan_unsigned_def scan_exp_stop)
qed

lemma scan_layout_split:
  assumes d: "numeral_digits ds" and "num_stop r" and "0 < n" and "n < length ds"
  shows "scan_unsigned (take n ds @ ''.'' @ drop n ds @ r) = Some ((take n ds, drop n ds, None), r)"
proof -
  note ds = numeral_digitsD [OF d]
  have dg: "list_all is_digit (take n ds)" "list_all is_digit (drop n ds)"
    using ds(1) by (metis append_take_drop_id list_all_append)+
  have "scan_int (take n ds @ ''.'' @ drop n ds @ r) = Some (take n ds, ''.'' @ drop n ds @ r)"
    using ds assms dg by (subst scan_int_digits) auto
  moreover have "scan_frac (''.'' @ drop n ds @ r) = (drop n ds, r)"
    using scan_frac_point [of "drop n ds" r] dg assms
    by (simp add: num_stop_takeWhile num_stop_dropWhile)
  ultimately show ?thesis
    using assms by (simp add: scan_unsigned_def scan_exp_stop)
qed

lemma scan_layout_scientific:
  assumes d: "numeral_digits ds" and "num_stop r"
  shows "scan_unsigned (take 1 ds @ (if length ds = 1 then [] else ''.'' @ drop 1 ds)
      @ ''e'' @ exp_str x @ r) = Some ((take 1 ds, drop 1 ds, Some x), r)"
proof -
  note ds = numeral_digitsD [OF d]
  obtain c cs where c: "ds = c # cs" using ds(2) by (cases ds) auto
  then have dg: "is_digit c" "list_all is_digit cs" "c \<noteq> CHR ''0''" using ds by auto
  show ?thesis
  proof (cases "cs = []")
    case True
    with dg c assms show ?thesis
      by (simp add: scan_unsigned_def scan_frac_no_point scan_exp_str del: scan_exp.simps)
  next
    case False
    then have "scan_frac (CHR ''.'' # cs @ ''e'' @ exp_str x @ r) = (cs, ''e'' @ exp_str x @ r)"
      using scan_frac_point [of cs "''e'' @ exp_str x @ r"] dg by simp
    with False dg c assms show ?thesis
      by (simp add: scan_unsigned_def scan_exp_str del: scan_exp.simps)
  qed
qed

lemma scan_layout:
  assumes d: "numeral_digits ds" and r: "num_stop r"
  shows "\<exists>t. scan_unsigned (layout ds k @ r) = Some (t, r) \<and> is_float_token t \<and>
    token_value t = of_nat (digits_val ds) * pow10 (k - int (length ds))"
proof (cases "- 4 < k \<and> k \<le> 16")
  case True
  note ds = numeral_digitsD [OF d]
  consider "k \<le> 0" | "0 < k" "int (length ds) \<le> k" | "0 < k" "k < int (length ds)" by linarith
  then show ?thesis
  proof cases
    case 1
    have "digits_val (CHR ''0'' # replicate n (CHR ''0'') @ ds) = digits_val ds" for n
      using digits_val_append [of "replicate (Suc n) (CHR ''0'')" ds] by (simp del: replicate_Suc)
         (simp add: digits_val_def digit_val_def)
    with 1 True show ?thesis
      using scan_layout_small [OF d r 1]
      by (intro exI [of _ "(''0'', replicate (nat (- k)) (CHR ''0'') @ ds, None)"])
        (simp add: layout_def is_float_token_def token_value_def ds(2) algebra_simps)
  next
    case 2
    define n where "n = nat k - length ds"
    have e: "k - int (length ds) = int n" using 2 by (simp add: n_def)
    have "digits_val ((ds @ replicate n (CHR ''0'')) @ ''0'') = digits_val ds * 10 ^ Suc n"
      unfolding digits_val_append by simp (simp add: digits_val_def digit_val_def)
    then show ?thesis
      using scan_layout_integral [OF d r, of n] 2 True
      by (intro exI [of _ "(ds @ replicate n (CHR ''0''), ''0'', None)"])
        (simp add: layout_def is_float_token_def token_value_def e n_def [symmetric] pow10_def)
  next
    case 3
    then have "nat k < length ds" "0 < nat k" by auto
    then show ?thesis
      using scan_layout_split [OF d r, of "nat k"] 3 True
      by (intro exI [of _ "(take (nat k) ds, drop (nat k) ds, None)"])
        (simp add: layout_def is_float_token_def token_value_def)
  qed
next
  case False
  note ds = numeral_digitsD [OF d]
  have "k - 1 - int (length (drop 1 ds)) = k - int (length ds)"
    using ds(2) by (cases ds) auto
  moreover have "layout ds k = take 1 ds @ (if length ds = 1 then [] else ''.'' @ drop 1 ds)
      @ ''e'' @ exp_str (k - 1)"
    using False by (simp only: layout_def if_not_P if_False)
  ultimately show ?thesis
    using scan_layout_scientific [OF d r, of "k - 1"]
    by (intro exI [of _ "(take 1 ds, drop 1 ds, Some (k - 1))"])
      (simp add: is_float_token_def token_value_def)
qed

lemma token_float_pos: "token_float False t = rnd (token_value t)"
  by (cases t) (simp add: token_float_def token_value_def float_of_decimal_def)

lemma strip_zeros_append: "strip_zeros s @ replicate (length s - length (strip_zeros s)) (CHR ''0'') = s"
proof (induction s)
  case (Cons c s)
  have "length (strip_zeros s) \<le> length s"
    using arg_cong [OF Cons, of length] by simp
  with Cons show ?case by (auto simp: Let_def Suc_diff_le)
qed simp

lemma strip_zeros_numeral:
  assumes "0 < m"
  shows "numeral_digits (strip_zeros (nat_str m))"
proof -
  define s where "s = nat_str m"
  define z where "z = strip_zeros s"
  have sz: "s = z @ replicate (length s - length z) (CHR ''0'')"
    by (simp add: z_def strip_zeros_append)
  have "digits_val s = m" by (simp add: s_def)
  then have "z \<noteq> []" using assms by (subst (asm) sz) auto
  moreover have "list_all is_digit z"
    using nat_str_all_digits [of m] by (subst (asm) s_def [symmetric], subst (asm) sz) simp
  moreover have "hd z \<noteq> CHR ''0''"
  proof
    assume "hd z = CHR ''0''"
    then have "hd s = CHR ''0''" using \<open>z \<noteq> []\<close> by (subst sz) simp
    then show False using nat_str_hd_zero [of m] assms by (simp add: s_def)
  qed
  ultimately show ?thesis by (simp add: numeral_digits_def z_def s_def)
qed

lemma strip_zeros_value:
  "of_nat (digits_val (strip_zeros s)) * pow10 (k - int (length (strip_zeros s))) =
   of_nat (digits_val s) * pow10 (k - int (length s))"
proof -
  define z where "z = strip_zeros s"
  define n where "n = length s - length z"
  have sz: "s = z @ replicate n (CHR ''0'')"
    by (simp add: z_def n_def strip_zeros_append)
  have v: "digits_val s = digits_val z * 10 ^ n"
    by (subst sz) (simp add: digits_val_append)
  have l: "length s = length z + n"
    by (subst sz) simp
  have "pow10 (k - int (length z)) = 10 ^ n * pow10 (k - int (length s))"
    using pow10_add [of "int n" "k - int (length s)"] by (simp add: l pow10_def [of "int n"])
  then show ?thesis by (simp add: v flip: z_def)
qed

lemma pow10_split: "pow10 (int n) = pow2 (int n) * of_int (5 ^ n)"
  by (simp add: pow10_def pow2_def flip: power_mult_distrib)

text \<open>The text of a finite value reads back as that value.\<close>

lemma shortest_decimal_reads_back:
  assumes "is_double a" and "0 < a"
  shows "reads_back a (shortest_decimal a)"
proof (cases "find (reads_back a) (concat (map (near_decimals a) [1..<18]))")
  case None
  obtain m where m: "a * pow2 1074 = of_int m"
    using is_double_scaled [OF assms] by blast
  obtain f where p: "pow10 1074 = pow2 1074 * of_int f"
    using pow10_split [of 1074] unfolding of_nat_numeral by blast
  then have "a * pow10 1074 = (a * pow2 1074) * of_int f"
    by (simp only: mult.assoc)
  then have i: "a * pow10 1074 = of_int (m * f)"
    by (simp only: m of_int_mult)
  then have "0 < m * f"
    using assms(2) pow10_pos [of 1074] by (metis mult_pos_pos of_int_0_less_iff)
  then have "of_nat (nat (floor (a * pow10 1074))) = a * pow10 1074"
    unfolding i floor_of_int by (metis of_int_of_nat_eq int_nat_eq order_less_imp_le)
  moreover have "pow10 1074 * pow10 (- 1074) = 1"
    using pow10_add [of 1074 "- 1074"] by (simp add: pow10_def [of 0])
  ultimately show ?thesis
    using None assms(1)
    by (simp add: shortest_decimal_def reads_back_def is_double_def mult.assoc)
next
  case (Some d)
  then have "reads_back a d" by (auto simp: find_Some_iff)
  with Some show ?thesis by (simp add: shortest_decimal_def)
qed

lemma repr_pos_scan:
  assumes a: "is_double a" "0 < a" and r: "num_stop r"
  shows "\<exists>t. scan_unsigned (repr_pos a @ r) = Some (t, r) \<and> is_float_token t \<and>
    token_float False t = Fin a"
proof -
  obtain m e where me: "shortest_decimal a = (m, e)" by fastforce
  have rb: "rnd (of_nat m * pow10 e) = Fin a"
    using shortest_decimal_reads_back [OF a] by (simp add: me reads_back_def)
  have "0 < m"
    using rb a(2) by (cases "m = 0") (auto simp: rnd_def)
  define s where "s = nat_str m"
  have "\<exists>t. scan_unsigned (layout (strip_zeros s) (int (length s) + e) @ r) = Some (t, r) \<and>
    is_float_token t \<and> token_value t = of_nat (digits_val (strip_zeros s)) *
      pow10 ((int (length s) + e) - int (length (strip_zeros s)))"
    using strip_zeros_numeral [OF \<open>0 < m\<close>] r unfolding s_def by (rule scan_layout)
  then show ?thesis
    unfolding strip_zeros_value
    using rb by (auto simp: repr_pos_def me Let_def token_float_pos s_def)
qed

lemma repr_pos_first_digit:
  assumes "is_double a" "0 < a"
  shows "\<exists>c cs. repr_pos a = c # cs \<and> is_digit c"
proof -
  have "num_stop []" by (simp add: num_stop_def)
  from repr_pos_scan [OF assms this] obtain t where "scan_unsigned (repr_pos a) = Some (t, [])"
    by auto
  then show ?thesis
    by (cases "repr_pos a") (auto simp: scan_unsigned_def split: if_splits option.splits)
qed

section \<open>Arithmetic\<close>

definition fadd :: "rat \<Rightarrow> rat \<Rightarrow> pyfloat" where "fadd a b = rnd (a + b)"
definition fmul :: "rat \<Rightarrow> rat \<Rightarrow> pyfloat" where "fmul a b = rnd (a * b)"
definition fdiv :: "rat \<Rightarrow> rat \<Rightarrow> pyfloat" where "fdiv a b = rnd (a / b)"

end
