(* ===== verification/PyJson.thy ===== *)
theory PyJson
  imports PyFloat "HOL-Library.AList"
begin

text \<open>
  The values the sources work on: what \<open>json.loads\<close> returns and \<open>json.dumps\<close> accepts.
  A \<open>dict\<close> is an association list in insertion order with distinct keys. A \<open>str\<close> is
  a list of code points U+0000 to U+00FF. Reading operations follow the interpreter: a
  missing key, a wrong receiver or an unhashable member raise.
\<close>

datatype json =
    JNull
  | JBool bool
  | JInt int
  | JFloat pyfloat
  | JStr string
  | JList "json list"
  | JObj "(string \<times> json) list"

type_synonym obj = "(string \<times> json) list"

section \<open>Dictionaries\<close>

text \<open>\<open>d[k] = v\<close> keeps the position of an existing key and appends a new one.\<close>

definition dict_set :: "string \<Rightarrow> json \<Rightarrow> obj \<Rightarrow> obj" where
  "dict_set k v d = AList.update k v d"

definition dict_update :: "obj \<Rightarrow> obj \<Rightarrow> obj" where
  "dict_update d new = fold (\<lambda>(k, v). dict_set k v) new d"

definition dict_pop :: "string \<Rightarrow> obj \<Rightarrow> obj" where
  "dict_pop k d = filter (\<lambda>(k', v). k' \<noteq> k) d"

definition dict_keys_ok :: "obj \<Rightarrow> bool" where
  "dict_keys_ok d \<longleftrightarrow> distinct (map fst d)"

lemma dict_set_Nil [simp]: "dict_set k v [] = [(k, v)]"
  by (simp add: dict_set_def)

lemma dict_set_Cons [simp]:
  "dict_set k v ((k', v') # d) = (if k' = k then (k, v) # d else (k', v') # dict_set k v d)"
  by (simp add: dict_set_def)

lemma map_of_dict_set [simp]: "map_of (dict_set k v d) = (map_of d)(k \<mapsto> v)"
  by (simp add: dict_set_def update_conv' fun_eq_iff)

lemma dict_set_keys_ok [simp]: "dict_keys_ok d \<Longrightarrow> dict_keys_ok (dict_set k v d)"
  by (simp add: dict_set_def dict_keys_ok_def distinct_update)

lemma fst_set_dict_set: "fst ` set (dict_set k v d) = insert k (fst ` set d)"
  by (simp add: dict_set_def dom_update)

lemma dict_set_new: "k \<notin> fst ` set d \<Longrightarrow> dict_set k v d = d @ [(k, v)]"
  by (induction d) auto

lemma map_of_dict_pop: "map_of (dict_pop k d) = (map_of d)(k := None)"
  by (induction d) (auto simp: dict_pop_def fun_eq_iff)

lemma dict_pop_keys_ok [simp]: "dict_keys_ok d \<Longrightarrow> dict_keys_ok (dict_pop k d)"
  by (simp add: dict_pop_def dict_keys_ok_def distinct_map_filter)

lemma map_of_dict_update:
  "dict_keys_ok new \<Longrightarrow> map_of (dict_update d new) = map_of d ++ map_of new"
  unfolding dict_update_def dict_keys_ok_def
proof (induction new arbitrary: d)
  case (Cons p new)
  obtain k v where p: "p = (k, v)" by fastforce
  with Cons have "map_of new k = None" by (auto simp: map_of_eq_None_iff)
  with Cons p show ?case by (auto simp: fun_eq_iff map_add_def split: option.splits)
qed simp

lemma dict_update_keys_ok: "dict_keys_ok d \<Longrightarrow> dict_keys_ok (dict_update d new)"
  unfolding dict_update_def by (induction new arbitrary: d) (auto simp: case_prod_beta)

section \<open>Well-formed values\<close>

text \<open>The values a Python program can hold: distinct keys in every dictionary.\<close>

fun wf_json :: "json \<Rightarrow> bool" where
  "wf_json (JList xs) = list_all wf_json xs"
| "wf_json (JObj d) = (dict_keys_ok d \<and> list_all (\<lambda>(k, v). wf_json v) d)"
| "wf_json (JFloat (Fin r)) = is_double r"
| "wf_json _ = True"

section \<open>Truth, equality, hashing, text\<close>

definition float_truthy :: "pyfloat \<Rightarrow> bool" where
  "float_truthy f \<longleftrightarrow> f \<noteq> Fin 0 \<and> f \<noteq> NegZero"

fun truthy :: "json \<Rightarrow> bool" where
  "truthy JNull = False"
| "truthy (JBool b) = b"
| "truthy (JInt i) = (i \<noteq> 0)"
| "truthy (JFloat f) = float_truthy f"
| "truthy (JStr s) = (s \<noteq> [])"
| "truthy (JList xs) = (xs \<noteq> [])"
| "truthy (JObj d) = (d \<noteq> [])"

text \<open>\<open>==\<close>: booleans are the integers 0 and 1, integers and floats compare by value,
  lists elementwise, dictionaries without regard to order.\<close>

fun num_val :: "json \<Rightarrow> rat option" where
  "num_val (JBool b) = Some (if b then 1 else 0)"
| "num_val (JInt i) = Some (of_int i)"
| "num_val (JFloat (Fin r)) = Some r"
| "num_val (JFloat NegZero) = Some 0"
| "num_val _ = None"

fun py_eq :: "json \<Rightarrow> json \<Rightarrow> bool"
  and py_eq_list :: "json list \<Rightarrow> json list \<Rightarrow> bool"
  and py_sub_dict :: "obj \<Rightarrow> obj \<Rightarrow> bool" where
  "py_eq JNull w = (w = JNull)"
| "py_eq (JStr s) w = (w = JStr s)"
| "py_eq (JList xs) w = (case w of JList ys \<Rightarrow> py_eq_list xs ys | _ \<Rightarrow> False)"
| "py_eq (JObj d) w =
     (case w of JObj e \<Rightarrow> length d = length e \<and> py_sub_dict d e | _ \<Rightarrow> False)"
| "py_eq (JFloat PosInf) w = (w = JFloat PosInf)"
| "py_eq (JFloat NegInf) w = (w = JFloat NegInf)"
| "py_eq (JFloat NaN) w = False"
| "py_eq v w = (num_val v = num_val w)"
| "py_eq_list [] ys = (ys = [])"
| "py_eq_list (x # xs) ys = (case ys of [] \<Rightarrow> False | y # ys' \<Rightarrow> py_eq x y \<and> py_eq_list xs ys')"
| "py_sub_dict [] e = True"
| "py_sub_dict ((k, v) # d) e =
     ((case map_of e k of None \<Rightarrow> False | Some w \<Rightarrow> py_eq v w) \<and> py_sub_dict d e)"

text \<open>Comparison with a string literal or \<open>None\<close> is plain equality, on either side.\<close>

lemma py_eq_JStr [simp]: "py_eq v (JStr s) = (v = JStr s)"
proof (cases v)
  case (JFloat f)
  then show ?thesis by (cases f) auto
qed auto

lemma py_eq_JNull [simp]: "py_eq v JNull = (v = JNull)"
proof (cases v)
  case (JFloat f)
  then show ?thesis by (cases f) auto
qed auto

text \<open>\<open>str(x)\<close> and \<open>repr(x)\<close>, with the interpreter's quoting of strings: single
  quotes unless the text has one and no double quote; control and non-printable characters
  escaped.\<close>

definition hex_digit :: "nat \<Rightarrow> char" where
  "hex_digit d = (if d < 10 then char_of (48 + d) else char_of (87 + d))"

definition hex2 :: "nat \<Rightarrow> string" where
  "hex2 n = [hex_digit (n div 16 mod 16), hex_digit (n mod 16)]"

definition py_printable :: "char \<Rightarrow> bool" where
  "py_printable c =
     (let n = of_char c :: nat in (32 \<le> n \<and> n \<le> 126) \<or> (161 \<le> n \<and> n \<noteq> 173))"

definition repr_char :: "char \<Rightarrow> char \<Rightarrow> string" where
  "repr_char q c =
     (if c = q \<or> c = CHR 0x5C then [CHR 0x5C, c]
      else if c = CHR 0x0A then [CHR 0x5C, CHR ''n'']
      else if c = CHR 0x0D then [CHR 0x5C, CHR ''r'']
      else if c = CHR 0x09 then [CHR 0x5C, CHR ''t'']
      else if py_printable c then [c]
      else [CHR 0x5C, CHR ''x''] @ hex2 (of_char c))"

definition repr_str :: "string \<Rightarrow> string" where
  "repr_str s =
     (let q = (if CHR 0x27 \<in> set s \<and> CHR 0x22 \<notin> set s then CHR 0x22 else CHR 0x27)
      in [q] @ concat (map (repr_char q) s) @ [q])"

fun py_repr :: "json \<Rightarrow> string" where
  "py_repr JNull = ''None''"
| "py_repr (JBool b) = (if b then ''True'' else ''False'')"
| "py_repr (JInt i) = int_str i"
| "py_repr (JFloat f) = float_repr f"
| "py_repr (JStr s) = repr_str s"
| "py_repr (JList xs) = ''['' @ join '', '' (map py_repr xs) @ '']''"
| "py_repr (JObj d) = ''{'' @ join '', '' (map (\<lambda>(k, v). repr_str k @ '': '' @ py_repr v) d) @ ''}''"

definition py_str :: "json \<Rightarrow> string" where
  "py_str v = (case v of JStr s \<Rightarrow> s | _ \<Rightarrow> py_repr v)"

lemma py_str_simps [simp]: "py_str (JStr s) = s" "py_str (JInt i) = int_str i"
  by (simp_all add: py_str_def)

text \<open>\<open>str.lower()\<close> on code points up to U+00FF.\<close>

definition lower_char :: "char \<Rightarrow> char" where
  "lower_char c =
     (let n = of_char c :: nat
      in if (65 \<le> n \<and> n \<le> 90) \<or> (192 \<le> n \<and> n \<le> 222 \<and> n \<noteq> 215) then char_of (n + 32) else c)"

definition str_lower :: "string \<Rightarrow> string" where
  "str_lower s = map lower_char s"

section \<open>Reading operations\<close>

fun type_name :: "json \<Rightarrow> string" where
  "type_name JNull = ''NoneType''"
| "type_name (JBool b) = ''bool''"
| "type_name (JInt i) = ''int''"
| "type_name (JFloat f) = ''float''"
| "type_name (JStr s) = ''str''"
| "type_name (JList xs) = ''list''"
| "type_name (JObj d) = ''dict''"

definition no_attr :: "json \<Rightarrow> string \<Rightarrow> py_error" where
  "no_attr v a =
     AttributeError (repr_str (type_name v) @ '' object has no attribute '' @ repr_str a)"

text \<open>\<open>v.get(k, d)\<close> and \<open>v.get(k)\<close>.\<close>

definition py_get_or :: "json \<Rightarrow> string \<Rightarrow> json \<Rightarrow> json res" where
  "py_get_or v k d =
     (case v of JObj m \<Rightarrow> Inr (case map_of m k of Some x \<Rightarrow> x | None \<Rightarrow> d)
      | _ \<Rightarrow> Inl (no_attr v ''get''))"

abbreviation py_get :: "json \<Rightarrow> string \<Rightarrow> json res" where
  "py_get v k \<equiv> py_get_or v k JNull"

text \<open>\<open>v["k"]\<close> with a string key.\<close>

definition py_item :: "json \<Rightarrow> string \<Rightarrow> json res" where
  "py_item v k =
     (case v of
        JObj m \<Rightarrow> (case map_of m k of Some x \<Rightarrow> Inr x | None \<Rightarrow> Inl (KeyError k))
      | JList _ \<Rightarrow> Inl (TypeError ''list indices must be integers or slices, not str'')
      | JStr _ \<Rightarrow> Inl (TypeError (''string indices must be integers, not '' @ repr_str ''str''))
      | _ \<Rightarrow> Inl (TypeError (repr_str (type_name v) @ '' object is not subscriptable'')))"

text \<open>The position a possibly negative index names in a sequence of the given length.\<close>

definition seq_pos :: "nat \<Rightarrow> int \<Rightarrow> nat option" where
  "seq_pos len i =
     (if i < - int len \<or> int len \<le> i then None
      else Some (if i < 0 then len - nat (- i) else nat i))"

text \<open>\<open>v[i]\<close> with an integer; negative indices count from the end.\<close>

definition py_index :: "json \<Rightarrow> int \<Rightarrow> json res" where
  "py_index v i =
     (case v of
        JList xs \<Rightarrow>
          (case seq_pos (length xs) i of
             Some k \<Rightarrow> Inr (xs ! k)
           | None \<Rightarrow> Inl (IndexError ''list index out of range''))
      | JStr s \<Rightarrow>
          (case seq_pos (length s) i of
             Some k \<Rightarrow> Inr (JStr [s ! k])
           | None \<Rightarrow> Inl (IndexError ''string index out of range''))
      | JObj m \<Rightarrow> Inl (KeyError (int_str i))
      | _ \<Rightarrow> Inl (TypeError (repr_str (type_name v) @ '' object is not subscriptable'')))"

text \<open>\<open>for x in v\<close>: the elements of a list, the keys of a dictionary, the characters of a
  string.\<close>

definition py_iter :: "json \<Rightarrow> json list res" where
  "py_iter v =
     (case v of
        JList xs \<Rightarrow> Inr xs
      | JObj m \<Rightarrow> Inr (map (JStr \<circ> fst) m)
      | JStr s \<Rightarrow> Inr (map (\<lambda>c. JStr [c]) s)
      | _ \<Rightarrow> Inl (TypeError (repr_str (type_name v) @ '' object is not iterable'')))"

definition py_len :: "json \<Rightarrow> int res" where
  "py_len v =
     (case v of
        JList xs \<Rightarrow> Inr (int (length xs))
      | JObj m \<Rightarrow> Inr (int (length m))
      | JStr s \<Rightarrow> Inr (int (length s))
      | _ \<Rightarrow> Inl (TypeError (''object of type '' @ repr_str (type_name v) @ '' has no len()'')))"

text \<open>Membership in a set: the member must be hashable.\<close>

definition hashable :: "json \<Rightarrow> bool" where
  "hashable v \<longleftrightarrow> (case v of JList _ \<Rightarrow> False | JObj _ \<Rightarrow> False | _ \<Rightarrow> True)"

definition unhashable :: "json \<Rightarrow> py_error" where
  "unhashable v = TypeError (''unhashable type: '' @ repr_str (type_name v))"

definition py_in_set :: "json \<Rightarrow> json list \<Rightarrow> bool res" where
  "py_in_set v s =
     (if hashable v then Inr (list_ex (\<lambda>x. py_eq x v) s) else Inl (unhashable v))"

definition py_in_strs :: "json \<Rightarrow> string list \<Rightarrow> bool res" where
  "py_in_strs v ss = py_in_set v (map JStr ss)"

text \<open>\<open>set(v)\<close>: every element must be hashable.\<close>

definition py_set :: "json \<Rightarrow> json list res" where
  "py_set v = bindR (py_iter v) (mapR (\<lambda>x. if hashable x then Inr x else Inl (unhashable x)))"

definition as_str :: "json \<Rightarrow> string res" where
  "as_str v = (case v of JStr s \<Rightarrow> Inr s
     | _ \<Rightarrow> Inl (TypeError (''expected str, got '' @ type_name v)))"

fun is_str :: "json \<Rightarrow> bool" where "is_str (JStr s) = True" | "is_str _ = False"
fun is_dict :: "json \<Rightarrow> bool" where "is_dict (JObj d) = True" | "is_dict _ = False"
fun is_list :: "json \<Rightarrow> bool" where "is_list (JList d) = True" | "is_list _ = False"

text \<open>\<open>isinstance(x, int)\<close>: a \<open>bool\<close> is an \<open>int\<close>.\<close>

fun is_int :: "json \<Rightarrow> bool" where
  "is_int (JInt i) = True" | "is_int (JBool b) = True" | "is_int _ = False"

text \<open>The value of an \<open>int\<close>; a \<open>bool\<close> is one.\<close>

fun int_val :: "json \<Rightarrow> int option" where
  "int_val (JInt i) = Some i"
| "int_val (JBool b) = Some (if b then 1 else 0)"
| "int_val _ = None"

text \<open>\<open>int(v)\<close> of an integer; parsing text and truncating floats are outside the model.\<close>

definition py_int :: "json \<Rightarrow> int res" where
  "py_int v =
     (case v of
        JInt i \<Rightarrow> Inr i
      | JBool b \<Rightarrow> Inr (if b then 1 else 0)
      | JFloat _ \<Rightarrow> Inl (OutsideModel ''int() of a float'')
      | JStr _ \<Rightarrow> Inl (OutsideModel ''int() of a string'')
      | _ \<Rightarrow> Inl (TypeError (''int() argument must be a string, a bytes-like object or a real number, not '' @
                repr_str (type_name v))))"

section \<open>Facts about reading\<close>

text \<open>The value of a field, or a default.\<close>

definition field_or :: "obj \<Rightarrow> string \<Rightarrow> json \<Rightarrow> json" where
  "field_or m k d = (case map_of m k of Some v \<Rightarrow> v | None \<Rightarrow> d)"

lemma py_get_or_field: "py_get_or (JObj m) k d = Inr (field_or m k d)"
  by (simp add: field_or_def py_get_or_def)

lemma field_or_JStr: "field_or d k JNull = JStr s \<longleftrightarrow> map_of d k = Some (JStr s)"
  by (simp add: field_or_def split: option.splits)

lemma field_or_JBool: "field_or d k JNull = JBool b \<longleftrightarrow> map_of d k = Some (JBool b)"
  by (simp add: field_or_def split: option.splits)

lemma py_get_or_JObj [simp]:
  "py_get_or (JObj m) k d = Inr (case map_of m k of Some x \<Rightarrow> x | None \<Rightarrow> d)"
  by (simp add: py_get_or_def)

lemma py_get_or_eq_Inr [result_inv]:
  "py_get_or v k d = Inr x \<longleftrightarrow>
     (\<exists>m. v = JObj m \<and> x = (case map_of m k of Some y \<Rightarrow> y | None \<Rightarrow> d))"
  by (cases v) (auto simp: py_get_or_def)

lemma py_item_JObj [simp]:
  "py_item (JObj m) k = (case map_of m k of Some x \<Rightarrow> Inr x | None \<Rightarrow> Inl (KeyError k))"
  by (simp add: py_item_def)

lemma py_item_eq_Inr [result_inv]:
  "py_item v k = Inr x \<longleftrightarrow> (\<exists>m. v = JObj m \<and> map_of m k = Some x)"
  by (cases v) (auto simp: py_item_def split: option.splits)

lemma py_iter_JList [simp]: "py_iter (JList xs) = Inr xs"
  by (simp add: py_iter_def)

lemma py_len_simps [simp]: "py_len (JList xs) = Inr (int (length xs))"
  "py_len (JObj d) = Inr (int (length d))" "py_len (JStr s) = Inr (int (length s))"
  by (simp_all add: py_len_def)

lemma hashable_simps [simp]: "hashable JNull" "hashable (JBool b)" "hashable (JInt i)"
  "hashable (JFloat f)" "hashable (JStr s)" "\<not> hashable (JList xs)" "\<not> hashable (JObj d)"
  by (simp_all add: hashable_def)

lemma py_in_strs_eq_Inr [result_inv]:
  "py_in_strs v ss = Inr b \<longleftrightarrow> hashable v \<and> b = (v \<in> JStr ` set ss)"
  by (auto simp: py_in_strs_def py_in_set_def list_ex_iff)

lemma py_in_strs_JStr [simp]: "py_in_strs (JStr s) ss = Inr (s \<in> set ss)"
  by (auto simp: py_in_strs_def py_in_set_def list_ex_iff)

lemma as_str_JStr [simp]: "as_str (JStr s) = Inr s"
  by (simp add: as_str_def)

lemma as_str_eq_Inr [result_inv]: "as_str v = Inr s \<longleftrightarrow> v = JStr s"
  by (cases v) (auto simp: as_str_def)

end
