(* ===== verification/JsonText.thy ===== *)
theory JsonText
  imports PyJson
begin

text \<open>
  The JSON text the sources write and read: \<open>json.dumps\<close> in its three layouts (compact
  with sorted keys for hashing, two-space indentation with sorted keys for files, the default
  layout for socket frames), \<open>json.loads\<close>, and UTF-8 at the file boundary. The main facts:
  reading what was written gives the value back with its keys sorted, hence the canonical text
  of two values is equal exactly when their key-sorted forms are.
\<close>

section \<open>Bytes and UTF-8\<close>

text \<open>A byte is one of the 256 values of \<^typ>\<open>char\<close>.\<close>

type_synonym bytes = string

definition utf8_char :: "char \<Rightarrow> bytes" where
  "utf8_char c =
     (let n = of_char c :: nat
      in if n < 128 then [c] else [char_of (192 + n div 64), char_of (128 + n mod 64)])"

definition utf8_encode :: "string \<Rightarrow> bytes" where
  "utf8_encode s = concat (map utf8_char s)"

fun utf8_decode :: "bytes \<Rightarrow> string res" where
  "utf8_decode [] = Inr []"
| "utf8_decode (b # bs) =
     (let n = of_char b :: nat
      in if n < 128 then bindR (utf8_decode bs) (\<lambda>s. Inr (b # s))
         else if n = 194 \<or> n = 195 then
           (case bs of
              [] \<Rightarrow> Inl UnicodeDecodeError
            | b2 # bs' \<Rightarrow>
                (let m = of_char b2 :: nat
                 in if 128 \<le> m \<and> m < 192
                    then bindR (utf8_decode bs') (\<lambda>s. Inr (char_of ((n - 192) * 64 + (m - 128)) # s))
                    else Inl UnicodeDecodeError))
         else if 196 \<le> n \<and> n \<le> 244 then Inl (OutsideModel ''code point above U+00FF'')
         else Inl UnicodeDecodeError)"

lemma utf8_decode_char: "utf8_decode (utf8_char c @ bs) = bindR (utf8_decode bs) (\<lambda>s. Inr (c # s))"
proof (cases "(of_char c :: nat) < 128")
  case True
  then show ?thesis by (simp add: utf8_char_def Let_def)
next
  case False
  define n where "n = (of_char c :: nat)"
  have n: "128 \<le> n" "n < 256" using False nat_of_char_less_256 [of c] by (simp_all add: n_def)
  then have d: "n div 64 = 2 \<or> n div 64 = 3" by auto
  have "of_char (char_of (192 + n div 64) :: char) = (192 + n div 64 :: nat)"
    and "of_char (char_of (128 + n mod 64) :: char) = (128 + n mod 64 :: nat)"
    using d by auto
  moreover have "char_of n = c" by (simp add: n_def)
  moreover have "n div 64 * 64 + n mod 64 = n" by simp
  ultimately show ?thesis
    using n d by (auto simp: utf8_char_def Let_def n_def [symmetric])
qed

lemma utf8_roundtrip [simp]: "utf8_decode (utf8_encode s) = Inr s"
  by (induction s) (simp_all add: utf8_encode_def utf8_decode_char)

lemma utf8_encode_append: "utf8_encode (s @ t) = utf8_encode s @ utf8_encode t"
  by (simp add: utf8_encode_def)

lemma utf8_encode_inj: "utf8_encode s = utf8_encode t \<Longrightarrow> s = t"
  by (metis utf8_roundtrip sum.inject(2))

section \<open>Writing\<close>

text \<open>\<open>sort_keys=True\<close>, at every level.\<close>

fun sort_keys :: "json \<Rightarrow> json" where
  "sort_keys (JList xs) = JList (map sort_keys xs)"
| "sort_keys (JObj d) = JObj (sort_key fst (map (\<lambda>(k, v). (k, sort_keys v)) d))"
| "sort_keys v = v"

record dump_style =
  item_sep :: string
  key_sep :: string
  indent :: "nat option"

definition compact_style :: dump_style where
  "compact_style = \<lparr>item_sep = '','', key_sep = '':'', indent = None\<rparr>"

definition pretty_style :: dump_style where
  "pretty_style = \<lparr>item_sep = '','', key_sep = '': '', indent = Some 2\<rparr>"

definition default_style :: dump_style where
  "default_style = \<lparr>item_sep = '', '', key_sep = '': '', indent = None\<rparr>"

text \<open>String escapes with \<open>ensure_ascii\<close>.\<close>

definition esc_char :: "char \<Rightarrow> string" where
  "esc_char c =
     (if c = CHR 0x22 \<or> c = CHR 0x5C then [CHR 0x5C, c]
      else if c = CHR 0x0A then [CHR 0x5C, CHR ''n'']
      else if c = CHR 0x0D then [CHR 0x5C, CHR ''r'']
      else if c = CHR 0x09 then [CHR 0x5C, CHR ''t'']
      else if c = CHR 0x0C then [CHR 0x5C, CHR ''f'']
      else if c = CHR 0x08 then [CHR 0x5C, CHR ''b'']
      else if 32 \<le> (of_char c :: nat) \<and> of_char c \<le> (126 :: nat) then [c]
      else [CHR 0x5C, CHR ''u'', CHR ''0'', CHR ''0''] @ hex2 (of_char c))"

definition json_str :: "string \<Rightarrow> string" where
  "json_str s = CHR 0x22 # concat (map esc_char s) @ [CHR 0x22]"

definition json_float :: "pyfloat \<Rightarrow> string" where
  "json_float f = (case f of PosInf \<Rightarrow> ''Infinity'' | NegInf \<Rightarrow> ''-Infinity'' | NaN \<Rightarrow> ''NaN''
     | _ \<Rightarrow> float_repr f)"

definition newline :: "dump_style \<Rightarrow> nat \<Rightarrow> string" where
  "newline st l = (case indent st of None \<Rightarrow> [] | Some k \<Rightarrow> CHR 0x0A # replicate (k * l) (CHR '' ''))"

fun render :: "dump_style \<Rightarrow> nat \<Rightarrow> json \<Rightarrow> string" where
  "render st l JNull = ''null''"
| "render st l (JBool b) = (if b then ''true'' else ''false'')"
| "render st l (JInt i) = int_str i"
| "render st l (JFloat f) = json_float f"
| "render st l (JStr s) = json_str s"
| "render st l (JList xs) =
     (if xs = [] then ''[]''
      else ''['' @ newline st (Suc l)
           @ join (item_sep st @ newline st (Suc l)) (map (render st (Suc l)) xs)
           @ newline st l @ '']'')"
| "render st l (JObj d) =
     (if d = [] then ''{}''
      else ''{'' @ newline st (Suc l)
           @ join (item_sep st @ newline st (Suc l))
               (map (\<lambda>(k, v). json_str k @ key_sep st @ render st (Suc l) v) d)
           @ newline st l @ ''}'')"

text \<open>\<open>json.dumps(v, sort_keys=True, separators=(",", ":"))\<close>,
  \<open>json.dumps(v, indent=2, sort_keys=True)\<close> and \<open>json.dumps(v)\<close>.\<close>

definition dumps_canonical :: "json \<Rightarrow> string" where
  "dumps_canonical v = render compact_style 0 (sort_keys v)"

definition dumps_pretty :: "json \<Rightarrow> string" where
  "dumps_pretty v = render pretty_style 0 (sort_keys v)"

definition dumps_default :: "json \<Rightarrow> string" where
  "dumps_default v = render default_style 0 v"

section \<open>Reading\<close>

definition is_ws :: "char \<Rightarrow> bool" where
  "is_ws c \<longleftrightarrow> c = CHR '' '' \<or> c = CHR 0x09 \<or> c = CHR 0x0A \<or> c = CHR 0x0D"

definition skip_ws :: "string \<Rightarrow> string" where
  "skip_ws s = dropWhile is_ws s"

definition hex_val :: "char \<Rightarrow> nat option" where
  "hex_val c =
     (let n = of_char c :: nat
      in if 48 \<le> n \<and> n \<le> 57 then Some (n - 48)
         else if 97 \<le> n \<and> n \<le> 102 then Some (n - 87)
         else if 65 \<le> n \<and> n \<le> 70 then Some (n - 55)
         else None)"

definition unescape :: "char \<Rightarrow> char option" where
  "unescape c =
     (if c = CHR 0x22 \<or> c = CHR 0x5C \<or> c = CHR ''/'' then Some c
      else if c = CHR ''b'' then Some (CHR 0x08)
      else if c = CHR ''f'' then Some (CHR 0x0C)
      else if c = CHR ''n'' then Some (CHR 0x0A)
      else if c = CHR ''r'' then Some (CHR 0x0D)
      else if c = CHR ''t'' then Some (CHR 0x09)
      else None)"

text \<open>The characters of a string literal after its opening quote.\<close>

fun scan_str :: "string \<Rightarrow> (string \<times> string) res" where
  "scan_str [] = Inl (JSONDecodeError ''Unterminated string'')"
| "scan_str (c # cs) =
     (if c = CHR 0x22 then Inr ([], cs)
      else if c = CHR 0x5C then
        (case cs of
           [] \<Rightarrow> Inl (JSONDecodeError ''Unterminated string'')
         | e # r \<Rightarrow>
             (if e = CHR ''u'' then
                (case r of
                   h1 # h2 # h3 # h4 # r' \<Rightarrow>
                     (case (hex_val h1, hex_val h2, hex_val h3, hex_val h4) of
                        (Some a, Some b, Some x, Some y) \<Rightarrow>
                          (if a = 0 \<and> b = 0
                           then bindR (scan_str r') (\<lambda>(s, q). Inr (char_of (16 * x + y) # s, q))
                           else Inl (OutsideModel ''code point above U+00FF''))
                      | _ \<Rightarrow> Inl (JSONDecodeError ''Invalid unicode escape''))
                 | _ \<Rightarrow> Inl (JSONDecodeError ''Invalid unicode escape''))
              else
                (case unescape e of
                   None \<Rightarrow> Inl (JSONDecodeError ''Invalid escape'')
                 | Some u \<Rightarrow> bindR (scan_str r) (\<lambda>(s, q). Inr (u # s, q)))))
      else if (of_char c :: nat) < 32 then Inl (JSONDecodeError ''Invalid control character'')
      else bindR (scan_str cs) (\<lambda>(s, q). Inr (c # s, q)))"

definition token_json :: "bool \<Rightarrow> num_token \<Rightarrow> json" where
  "token_json neg t =
     (if is_float_token t then JFloat (token_float neg t)
      else JInt (if neg then - int (digits_val (fst t)) else int (digits_val (fst t))))"

definition scan_number :: "string \<Rightarrow> (json \<times> string) option" where
  "scan_number s =
     (case s of
        [] \<Rightarrow> None
      | c # cs \<Rightarrow>
          (if c = CHR ''-''
           then map_option (\<lambda>(t, r). (token_json True t, r)) (scan_unsigned cs)
           else map_option (\<lambda>(t, r). (token_json False t, r)) (scan_unsigned s)))"

definition scan_scalar :: "string \<Rightarrow> (json \<times> string) res" where
  "scan_scalar s =
     (if starts_with ''null'' s then Inr (JNull, drop 4 s)
      else if starts_with ''true'' s then Inr (JBool True, drop 4 s)
      else if starts_with ''false'' s then Inr (JBool False, drop 5 s)
      else case scan_number s of
             Some p \<Rightarrow> Inr p
           | None \<Rightarrow>
               if starts_with ''NaN'' s then Inr (JFloat NaN, drop 3 s)
               else if starts_with ''Infinity'' s then Inr (JFloat PosInf, drop 8 s)
               else if starts_with ''-Infinity'' s then Inr (JFloat NegInf, drop 9 s)
               else Inl (JSONDecodeError ''Expecting value''))"

text \<open>The scanner: a value, the elements of an array after its bracket, the members of an
  object after its brace. The first argument bounds the number of calls; \<open>scan_fuel\<close> below
  shows that \<open>2 * length s + 1\<close> calls are always enough.\<close>

fun scan_value :: "nat \<Rightarrow> string \<Rightarrow> (json \<times> string) res"
  and scan_elements :: "nat \<Rightarrow> string \<Rightarrow> (json list \<times> string) res"
  and scan_members :: "nat \<Rightarrow> string \<Rightarrow> (obj \<times> string) res" where
  "scan_value 0 s = Inl (JSONDecodeError ''out of fuel'')"
| "scan_value (Suc n) s =
     (case s of
        [] \<Rightarrow> Inl (JSONDecodeError ''Expecting value'')
      | c # cs \<Rightarrow>
          (if c = CHR 0x22 then bindR (scan_str cs) (\<lambda>(x, r). Inr (JStr x, r))
           else if c = CHR ''['' then
             (case skip_ws cs of
                [] \<Rightarrow> Inl (JSONDecodeError ''Expecting value'')
              | d # r \<Rightarrow> if d = CHR '']'' then Inr (JList [], r)
                        else bindR (scan_elements n (d # r)) (\<lambda>(xs, q). Inr (JList xs, q)))
           else if c = CHR ''{'' then
             (case skip_ws cs of
                [] \<Rightarrow> Inl (JSONDecodeError ''Expecting property name'')
              | d # r \<Rightarrow> if d = CHR ''}'' then Inr (JObj [], r)
                        else bindR (scan_members n (d # r)) (\<lambda>(ms, q). Inr (JObj (dict_update [] ms), q)))
           else scan_scalar s))"
| "scan_elements 0 s = Inl (JSONDecodeError ''out of fuel'')"
| "scan_elements (Suc n) s =
     bindR (scan_value n s) (\<lambda>(v, r).
       case skip_ws r of
         [] \<Rightarrow> Inl (JSONDecodeError ''Expecting delimiter'')
       | d # r' \<Rightarrow>
           if d = CHR '']'' then Inr ([v], r')
           else if d = CHR '','' then
             bindR (scan_elements n (skip_ws r')) (\<lambda>(vs, q). Inr (v # vs, q))
           else Inl (JSONDecodeError ''Expecting delimiter''))"
| "scan_members 0 s = Inl (JSONDecodeError ''out of fuel'')"
| "scan_members (Suc n) s =
     (case s of
        [] \<Rightarrow> Inl (JSONDecodeError ''Expecting property name'')
      | c # cs \<Rightarrow>
          if c \<noteq> CHR 0x22 then Inl (JSONDecodeError ''Expecting property name'')
          else bindR (scan_str cs) (\<lambda>(k, r).
            case skip_ws r of
              [] \<Rightarrow> Inl (JSONDecodeError ''Expecting colon'')
            | d # r' \<Rightarrow>
                if d \<noteq> CHR '':'' then Inl (JSONDecodeError ''Expecting colon'')
                else bindR (scan_value n (skip_ws r')) (\<lambda>(v, q).
                  case skip_ws q of
                    [] \<Rightarrow> Inl (JSONDecodeError ''Expecting delimiter'')
                  | d' # q' \<Rightarrow>
                      if d' = CHR ''}'' then Inr ([(k, v)], q')
                      else if d' = CHR '','' then
                        bindR (scan_members n (skip_ws q')) (\<lambda>(ms, q''). Inr ((k, v) # ms, q''))
                      else Inl (JSONDecodeError ''Expecting delimiter''))))"

declare scan_value.simps(2) [simp del] scan_elements.simps(2) [simp del] scan_members.simps(2) [simp del]

definition json_loads :: "string \<Rightarrow> json res" where
  "json_loads s =
     bindR (scan_value (2 * length s + 1) (skip_ws s)) (\<lambda>(v, r).
       if skip_ws r = [] then Inr v else Inl (JSONDecodeError ''Extra data''))"

section \<open>Fuel\<close>

lemma skip_ws_length: "length (skip_ws s) \<le> length s"
  by (simp add: skip_ws_def length_dropWhile_le)

lemma skip_ws_Cons_length: "skip_ws s = c # r \<Longrightarrow> length r < length s"
  using skip_ws_length [of s] by simp

lemma scan_str_length: "scan_str s = Inr (x, r) \<Longrightarrow> length r < length s"
proof (induction s arbitrary: x r rule: measure_induct_rule [of length])
  case (less s)
  have IH: "length r < length t" if "scan_str t = Inr (x, r)" "length t < length s" for t x r
    using less.IH that by blast
  show ?case
  proof (cases s)
    case (Cons c cs)
    show ?thesis
      using less.prems unfolding Cons
      by (auto simp: bindR_eq_Inr split: if_splits list.splits option.splits prod.splits)
        (drule IH; simp add: Cons)+
  qed (use less.prems in simp)
qed

lemma scan_int_length: "scan_int s = Some (ip, r) \<Longrightarrow> length r < length s"
  by (cases s) (auto simp: less_Suc_eq_le length_dropWhile_le split: if_splits)

lemma scan_frac_length: "scan_frac s = (fr, r) \<Longrightarrow> length r \<le> length s"
  by (cases s rule: scan_frac.cases) (auto simp: le_Suc_eq length_dropWhile_le le_SucI split: if_splits)

lemma scan_digits_length: "scan_digits s = Some (n, r) \<Longrightarrow> length r \<le> length s"
  by (auto simp: scan_digits_def Let_def length_dropWhile_le split: if_splits)

lemma scan_exp_length: "scan_exp s = (ex, r) \<Longrightarrow> length r \<le> length s"
proof (cases s)
  case (Cons c cs)
  assume "scan_exp s = (ex, r)"
  with Cons show ?thesis
    by (auto split: if_splits list.splits option.splits prod.splits dest!: scan_digits_length)
qed auto

lemma scan_unsigned_length: "scan_unsigned s = Some (t, r) \<Longrightarrow> length r < length s"
  by (auto simp: scan_unsigned_def split: option.splits prod.splits
      dest!: scan_int_length scan_frac_length scan_exp_length)

lemma scan_number_length: "scan_number s = Some (v, r) \<Longrightarrow> length r < length s"
  by (auto simp: scan_number_def split: list.splits if_splits dest!: scan_unsigned_length)

lemma scan_scalar_length: "scan_scalar s = Inr (v, r) \<Longrightarrow> length r < length s"
  by (auto simp: scan_scalar_def starts_with_iff split: if_splits option.splits dest!: scan_number_length)

lemma scan_elements_SucD:
  "scan_elements (Suc n) s = Inr (vs, r) \<Longrightarrow>
   \<exists>w q d q'. scan_value n s = Inr (w, q) \<and> skip_ws q = d # q' \<and>
     (r = q' \<or> (\<exists>us. scan_elements n (skip_ws q') = Inr (us, r)))"
  by (clarsimp simp: scan_elements.simps bindR_eq_Inr)
    (auto simp: bindR_eq_Inr split: list.splits if_splits)

lemma scan_members_SucD:
  "scan_members (Suc n) s = Inr (ms, r) \<Longrightarrow>
   \<exists>c cs k q d q' w p d' p'. s = c # cs \<and> scan_str cs = Inr (k, q) \<and> skip_ws q = d # q' \<and>
     scan_value n (skip_ws q') = Inr (w, p) \<and> skip_ws p = d' # p' \<and>
     (r = p' \<or> (\<exists>us. scan_members n (skip_ws p') = Inr (us, r)))"
  apply (cases s; clarsimp simp: scan_members.simps bindR_eq_Inr split: if_splits)
  subgoal for cs k q
    apply (cases "skip_ws q"; clarsimp simp: bindR_eq_Inr split: if_splits)
    subgoal for q' w p
      by (cases "skip_ws p"; clarsimp simp: bindR_eq_Inr split: if_splits)
    done
  done

text \<open>Every successful scan consumes at least one character.\<close>

lemma scan_length:
  "scan_value n s = Inr (v, r) \<Longrightarrow> length r < length s"
  "scan_elements n s = Inr (vs, r) \<Longrightarrow> length r < length s"
  "scan_members n s = Inr (ms, r) \<Longrightarrow> length r < length s"
proof (induction n arbitrary: s v vs ms r)
  case (Suc n)
  { case 1
    then show ?case
      using scan_scalar_length [of s v r]
      by (auto simp: scan_value.simps bindR_eq_Inr split: list.splits if_splits prod.splits
          dest!: skip_ws_Cons_length scan_str_length Suc.IH) }
  { case 2
    from scan_elements_SucD [OF this] obtain w q d q' where
      q: "scan_value n s = Inr (w, q)" "skip_ws q = d # q'"
      and r: "r = q' \<or> (\<exists>us. scan_elements n (skip_ws q') = Inr (us, r))" by blast
    have "length r \<le> length q'"
      using r Suc.IH(2) [of "skip_ws q'" _ r] skip_ws_length [of q'] by (meson le_trans less_imp_le order_refl)
    with Suc.IH(1) [OF q(1)] skip_ws_Cons_length [OF q(2)] show ?case by linarith }
  { case 3
    from scan_members_SucD [OF this] obtain c cs k q d q' w p d' p' where
      s: "s = c # cs" "scan_str cs = Inr (k, q)" "skip_ws q = d # q'"
         "scan_value n (skip_ws q') = Inr (w, p)" "skip_ws p = d' # p'"
      and r: "r = p' \<or> (\<exists>us. scan_members n (skip_ws p') = Inr (us, r))" by blast
    have "length r \<le> length p'"
      using r Suc.IH(3) [of "skip_ws p'" _ r] skip_ws_length [of p'] by (meson le_trans less_imp_le order_refl)
    with scan_str_length [OF s(2)] skip_ws_Cons_length [OF s(3)] Suc.IH(1) [OF s(4)]
      skip_ws_length [of q'] skip_ws_Cons_length [OF s(5)] s(1) show ?case by simp }
qed auto

text \<open>Enough fuel: any two bounds above twice the length give the same result.\<close>

lemma scan_fuel_step:
  "2 * length s < n \<Longrightarrow> scan_value (Suc n) s = scan_value n s"
  "2 * length s + 1 < n \<Longrightarrow> scan_elements (Suc n) s = scan_elements n s"
  "2 * length s + 1 < n \<Longrightarrow> scan_members (Suc n) s = scan_members n s"
proof (induction n arbitrary: s)
  case (Suc n)
  { case 1
    show ?case
    proof (cases s)
      case (Cons c cs)
      have e: "scan_elements (Suc n) (d # r) = scan_elements n (d # r)"
        and m: "scan_members (Suc n) (d # r) = scan_members n (d # r)"
        if "skip_ws cs = d # r" for d r
        using Suc.IH(2,3) [of "d # r"] 1 Cons skip_ws_length [of cs] that by auto
      show ?thesis
        unfolding Cons scan_value.simps(2) list.case
        by (auto split: list.split simp: e m)
    qed (simp add: scan_value.simps) }
  { case 2
    have "scan_value (Suc n) s = scan_value n s" using Suc.IH(1) 2 by simp
    moreover have "scan_elements (Suc n) (skip_ws r') = scan_elements n (skip_ws r')"
      if "scan_value n s = Inr (v, r)" "skip_ws r = d # r'" for v r d r'
      using Suc.IH(2) [of "skip_ws r'"] 2 scan_length(1) [OF that(1)]
        skip_ws_Cons_length [OF that(2)] skip_ws_length [of r'] by simp
    ultimately show ?case
      unfolding scan_elements.simps(2) [of "Suc n" s] scan_elements.simps(2) [of n s]
      by (intro bindR_cong) (auto split: list.split) }
  { case 3
    show ?case
    proof (cases s)
      case (Cons c cs)
      have v: "scan_value (Suc n) (skip_ws r') = scan_value n (skip_ws r')"
        if "scan_str cs = Inr (k, r)" "skip_ws r = d # r'" for k r d r'
        using Suc.IH(1) [of "skip_ws r'"] 3 Cons scan_str_length [OF that(1)]
          skip_ws_Cons_length [OF that(2)] skip_ws_length [of r'] by simp
      have m: "scan_members (Suc n) (skip_ws q') = scan_members n (skip_ws q')"
        if "scan_str cs = Inr (k, r)" "skip_ws r = d # r'" "scan_value n (skip_ws r') = Inr (w, q)"
          "skip_ws q = d' # q'" for k r d r' w q d' q'
        using Suc.IH(3) [of "skip_ws q'"] 3 Cons scan_str_length [OF that(1)]
          skip_ws_Cons_length [OF that(2)] skip_ws_length [of r'] scan_length(1) [OF that(3)]
          skip_ws_Cons_length [OF that(4)] skip_ws_length [of q'] by simp
      show ?thesis
        unfolding scan_members.simps(2) [of "Suc n" s] scan_members.simps(2) [of n s]
        unfolding Cons list.case
        by (auto intro!: bindR_cong split: list.split simp: v m)
    qed (simp add: scan_members.simps) }
qed auto

lemma scan_fuel: "2 * length s < n \<Longrightarrow> n \<le> m \<Longrightarrow> scan_value m s = scan_value n s"
  by (induction m) (auto simp: le_Suc_eq scan_fuel_step)

section \<open>Reading back what was written\<close>

lemma hex_val_hex_digit [simp]: "d < 16 \<Longrightarrow> hex_val (hex_digit d) = Some d"
  by (auto simp: hex_val_def hex_digit_def Let_def)

lemma scan_str_esc: "scan_str (esc_char c @ t) = bindR (scan_str t) (\<lambda>(s, q). Inr (c # s, q))"
proof (cases "32 \<le> (of_char c :: nat) \<and> of_char c \<le> (126 :: nat)")
  case True
  then show ?thesis
    by (auto simp: esc_char_def unescape_def)
next
  case False
  have "(of_char c :: nat) div 16 < 16" by (rule less_mult_imp_div_less) simp
  then have "16 * (of_char c div 16 mod 16) + of_char c mod 16 = (of_char c :: nat)" by simp
  moreover have "hex_val (CHR ''0'') = Some 0" by (simp add: hex_val_def)
  ultimately show ?thesis
    using False by (simp add: esc_char_def unescape_def hex2_def)
qed

lemma scan_str_json_str: "scan_str (concat (map esc_char s) @ CHR 0x22 # r) = Inr (s, r)"
  by (induction s) (simp_all add: scan_str_esc del: scan_str.simps(2), simp)

lemma scan_unsigned_nat:
  assumes "num_stop r"
  shows "scan_unsigned (nat_str n @ r) = Some ((nat_str n, [], None), r)"
proof (cases "n = 0")
  case True
  then have "nat_str n = ''0''" by (subst nat_str.simps) (simp, code_simp)
  with assms show ?thesis
    by (simp add: scan_unsigned_def scan_frac_stop scan_exp_stop del: scan_frac.simps)
next
  case False
  then have "scan_int (nat_str n @ r) = Some (nat_str n, r)"
    using scan_int_digits [of "nat_str n" r] nat_str_all_digits [of n] nat_str_hd_zero [of n] assms
    by (auto simp: num_stop_takeWhile num_stop_dropWhile)
  with assms show ?thesis
    by (simp add: scan_unsigned_def scan_frac_stop scan_exp_stop del: scan_frac.simps)
qed

lemma nat_str_Cons: obtains c cs where "nat_str n = c # cs" "is_digit c"
  using nat_str_all_digits [of n] by (cases "nat_str n") auto

lemma scan_number_digit:
  "is_digit c \<Longrightarrow> scan_number (c # cs) = map_option (\<lambda>(t, r). (token_json False t, r)) (scan_unsigned (c # cs))"
  by (auto simp: scan_number_def)

lemma scan_scalar_number:
  assumes "scan_number s = Some p" and "s = c # cs" and "is_digit c \<or> c = CHR ''-''"
  shows "scan_scalar s = Inr p"
proof -
  have "c \<noteq> CHR ''n''" "c \<noteq> CHR ''t''" "c \<noteq> CHR ''f''"
    using assms(3) by (auto simp: is_digit_def)
  with assms show ?thesis by (simp add: scan_scalar_def)
qed

lemma scan_scalar_int:
  assumes "num_stop r"
  shows "scan_scalar (int_str i @ r) = Inr (JInt i, r)"
proof -
  obtain c cs where n: "nat_str (nat \<bar>i\<bar>) = c # cs" "is_digit c" by (rule nat_str_Cons)
  note u = scan_unsigned_nat [OF assms, of "nat \<bar>i\<bar>"]
  have "digits_val (c # cs) = nat \<bar>i\<bar>" by (metis n(1) digits_val_nat_str)
  then show ?thesis
    using u n by (cases "i < 0")
      (auto intro!: scan_scalar_number simp: int_str_def scan_number_def token_json_def is_float_token_def)
qed

lemma scan_scalar_float:
  assumes "wf_json (JFloat f)" and r: "num_stop r"
  shows "scan_scalar (json_float f @ r) = Inr (JFloat f, r)"
proof -
  have pos: "scan_scalar (repr_pos a @ r) = Inr (JFloat (Fin a), r)"
    and neg: "scan_scalar (CHR ''-'' # repr_pos a @ r) = Inr (JFloat (Fin (- a)), r)"
    if a: "is_double a" "0 < a" for a
  proof -
    obtain c cs where c: "repr_pos a = c # cs" "is_digit c"
      using repr_pos_first_digit [OF a] by blast
    obtain t where t: "scan_unsigned (repr_pos a @ r) = Some (t, r)" "is_float_token t"
      "token_float False t = Fin a" using repr_pos_scan [OF a r] by blast
    have "token_float True t = Fin (- a)"
      using t(3) a(2) by (cases t) (simp add: token_float_def float_of_decimal_def fneg_def)
    with c t show "scan_scalar (repr_pos a @ r) = Inr (JFloat (Fin a), r)"
      and "scan_scalar (CHR ''-'' # repr_pos a @ r) = Inr (JFloat (Fin (- a)), r)"
      by (auto intro!: scan_scalar_number simp: scan_number_def token_json_def)
  qed
  have zero: "scan_unsigned (''0.0'' @ r) = Some ((''0'', ''0'', None), r)"
    using r by (simp add: scan_unsigned_def num_stop_takeWhile num_stop_dropWhile scan_exp_stop)
  have zero_val: "digits_val ''00'' = 0" by (simp add: digits_val_def digit_val_def)
  show ?thesis
  proof (cases f)
    case (Fin a)
    consider "a = 0" | "0 < a" | "a < 0" by linarith
    then show ?thesis
    proof cases
      case 1
      with Fin zero zero_val show ?thesis
        by (auto intro!: scan_scalar_number simp: json_float_def float_repr_def scan_number_def
            token_json_def is_float_token_def token_float_def float_of_decimal_def rnd_def)
    next
      case 2
      with Fin pos assms(1) show ?thesis by (simp add: json_float_def float_repr_def)
    next
      case 3
      then have "is_double (- a)" using assms(1) Fin is_double_minus by simp
      with 3 Fin neg [of "- a"] show ?thesis by (simp add: json_float_def float_repr_def)
    qed
  next
    case NegZero
    with zero zero_val show ?thesis
      by (auto intro!: scan_scalar_number simp: json_float_def float_repr_def scan_number_def
          token_json_def is_float_token_def token_float_def float_of_decimal_def rnd_def fneg_def)
  qed (simp_all add: json_float_def scan_scalar_def scan_number_def scan_unsigned_def is_digit_def)
qed

text \<open>A layout separates items and keys by a comma or colon and white space only.\<close>

definition valid_style :: "dump_style \<Rightarrow> bool" where
  "valid_style st \<longleftrightarrow>
     (\<exists>w. item_sep st = CHR '','' # w \<and> list_all is_ws w) \<and>
     (\<exists>w. key_sep st = CHR '':'' # w \<and> list_all is_ws w)"

lemma valid_styles [simp]:
  "valid_style compact_style" "valid_style pretty_style" "valid_style default_style"
  by (simp_all add: valid_style_def compact_style_def pretty_style_def default_style_def is_ws_def)

lemma skip_ws_append: "list_all is_ws w \<Longrightarrow> skip_ws (w @ s) = skip_ws s"
  by (induction w) (auto simp: skip_ws_def)

lemma skip_ws_Cons [simp]: "\<not> is_ws c \<Longrightarrow> skip_ws (c # s) = c # s"
  by (simp add: skip_ws_def)

lemma is_ws_simps [simp]: "\<not> is_ws (CHR '','')" "\<not> is_ws (CHR '']'')" "\<not> is_ws (CHR ''}'')"
  "\<not> is_ws (CHR '':'')" "\<not> is_ws (CHR 0x22)" "\<not> is_ws (CHR ''['')" "\<not> is_ws (CHR ''{'')"
  by (simp_all add: is_ws_def)

lemma newline_ws: "list_all is_ws (newline st l)"
  by (auto simp: newline_def is_ws_def list_all_iff split: option.splits)

lemma skip_newline [simp]: "skip_ws (newline st l @ s) = skip_ws s"
  by (simp add: skip_ws_append newline_ws)

lemma num_stop_newline: "num_stop s \<Longrightarrow> num_stop (newline st l @ s)"
  by (auto simp: newline_def num_stop_def is_digit_def split: option.splits)

lemma num_stop_Cons [simp]: "num_stop (CHR '','' # s)" "num_stop (CHR '']'' # s)"
  "num_stop (CHR ''}'' # s)" "num_stop (CHR 0x0A # s)"
  by (simp_all add: num_stop_def is_digit_def)

definition value_start :: "string \<Rightarrow> bool" where
  "value_start s \<longleftrightarrow> (\<exists>c cs. s = c # cs \<and> \<not> is_ws c \<and> c \<noteq> CHR '']'' \<and> c \<noteq> CHR ''}'')"

lemma value_start_append: "value_start s \<Longrightarrow> value_start (s @ t)"
  by (auto simp: value_start_def)

lemma value_start_skip_ws: "value_start s \<Longrightarrow> skip_ws s = s"
  by (auto simp: value_start_def)

lemma digit_start: "is_digit c \<Longrightarrow> value_start (c # cs)"
  by (auto simp: value_start_def is_digit_def is_ws_def)

lemma value_start_render: "wf_json v \<Longrightarrow> value_start (render st l v)"
proof (cases v)
  case (JInt i)
  obtain c cs where "nat_str (nat \<bar>i\<bar>) = c # cs" "is_digit c" by (rule nat_str_Cons)
  with JInt show ?thesis
    by (auto simp: int_str_def digit_start) (simp add: value_start_def is_ws_def)
next
  case (JFloat f)
  assume "wf_json v"
  show ?thesis
  proof (cases f)
    case (Fin a)
    then have "is_double a" using \<open>wf_json v\<close> JFloat by simp
    show ?thesis
      using JFloat Fin repr_pos_first_digit [of a] repr_pos_first_digit [of "- a"]
        \<open>is_double a\<close> is_double_minus [of a]
      by (cases "0 < a"; cases "a = 0")
        (auto simp: json_float_def float_repr_def digit_start value_start_def is_ws_def is_digit_def)
  qed (auto simp: JFloat json_float_def float_repr_def value_start_def is_ws_def)
qed (auto simp: value_start_def is_ws_def json_str_def)

lemma dict_update_distinct: "dict_keys_ok ms \<Longrightarrow> dict_update [] ms = ms"
proof -
  have "dict_update acc ms = acc @ ms" if "distinct (map fst (acc @ ms))" for acc
    using that
  proof (induction ms arbitrary: acc)
    case (Cons p ms)
    then have "dict_set (fst p) (snd p) acc = acc @ [p]" by (subst dict_set_new) auto
    with Cons.IH [of "acc @ [p]"] Cons.prems show ?case
      by (simp add: dict_update_def case_prod_beta)
  qed (simp add: dict_update_def)
  from this [of "[]"] show "dict_keys_ok ms \<Longrightarrow> dict_update [] ms = ms"
    by (simp add: dict_keys_ok_def)
qed

text \<open>The texts of the elements of a list, as the scanner meets them.\<close>

definition scans :: "dump_style \<Rightarrow> json \<Rightarrow> bool" where
  "scans st v \<longleftrightarrow> (\<forall>l n r. num_stop r \<longrightarrow> 2 * length (render st l v @ r) < n \<longrightarrow>
     scan_value n (render st l v @ r) = Inr (v, r))"

lemma scansD:
  "scans st v \<Longrightarrow> num_stop r \<Longrightarrow> 2 * length (render st l v @ r) < n \<Longrightarrow>
   scan_value n (render st l v @ r) = Inr (v, r)"
  by (simp add: scans_def)

lemma scan_elements_join:
  assumes "valid_style st"
  shows "xs \<noteq> [] \<Longrightarrow> (\<forall>x\<in>set xs. scans st x \<and> wf_json x) \<Longrightarrow>
    2 * length (join (item_sep st @ newline st l) (map (render st l) xs) @ newline st k @ '']'' @ r) + 1 < n \<Longrightarrow>
    scan_elements n (join (item_sep st @ newline st l) (map (render st l) xs) @ newline st k @ '']'' @ r)
      = Inr (xs, r)"
proof (induction xs arbitrary: n)
  case (Cons x xs)
  obtain w where w: "item_sep st = CHR '','' # w" "list_all is_ws w"
    using assms by (auto simp: valid_style_def)
  obtain m where n: "n = Suc m" using Cons.prems(3) by (cases n) auto
  define tail where
    "tail = (if xs = [] then [] else item_sep st @ newline st l @ join (item_sep st @ newline st l) (map (render st l) xs))
       @ newline st k @ '']'' @ r"
  have eqn: "join (item_sep st @ newline st l) (map (render st l) (x # xs)) @ newline st k @ '']'' @ r
      = render st l x @ tail"
    by (cases xs) (simp_all add: tail_def)
  have stop: "num_stop tail"
    by (auto simp: tail_def w num_stop_newline)
  have v: "scan_value m (render st l x @ tail) = Inr (x, tail)"
    using Cons.prems(2,3) stop unfolding eqn n by (intro scansD) auto
  show ?case
  proof (cases "xs = []")
    case True
    then have "skip_ws tail = CHR '']'' # r" by (simp add: tail_def)
    then show ?thesis using v True unfolding eqn n by (simp add: scan_elements.simps)
  next
    case False
    define rest where "rest = join (item_sep st @ newline st l) (map (render st l) xs) @ newline st k @ '']'' @ r"
    have "value_start rest"
      using False Cons.prems(2) value_start_render [of _ st l]
      by (cases xs; cases "tl xs") (auto simp: rest_def join_Cons intro: value_start_append)
    then have sk: "skip_ws (w @ newline st l @ rest) = rest"
      using w(2) by (simp add: skip_ws_append value_start_skip_ws)
    have tl: "tail = CHR '','' # w @ newline st l @ rest"
      using False by (simp add: tail_def rest_def w)
    have "scan_elements m rest = Inr (xs, r)"
      unfolding rest_def using False Cons.prems
      by (intro Cons.IH) (auto simp: join_Cons w n)
    then show ?thesis using v sk unfolding eqn n tl by (simp add: scan_elements.simps)
  qed
qed simp

lemma scan_members_join:
  assumes "valid_style st"
  shows "d \<noteq> [] \<Longrightarrow> (\<forall>(k, x)\<in>set d. scans st x \<and> wf_json x) \<Longrightarrow>
    2 * length (join (item_sep st @ newline st l)
        (map (\<lambda>(k, v). json_str k @ key_sep st @ render st l v) d) @ newline st j @ ''}'' @ r) + 1 < n \<Longrightarrow>
    scan_members n (join (item_sep st @ newline st l)
        (map (\<lambda>(k, v). json_str k @ key_sep st @ render st l v) d) @ newline st j @ ''}'' @ r)
      = Inr (d, r)"
proof (induction d arbitrary: n)
  case (Cons p d)
  obtain k x where p: "p = (k, x)" by fastforce
  obtain w where w: "item_sep st = CHR '','' # w" "list_all is_ws w"
    using assms by (auto simp: valid_style_def)
  obtain u where u: "key_sep st = CHR '':'' # u" "list_all is_ws u"
    using assms by (auto simp: valid_style_def)
  obtain m where n: "n = Suc m" using Cons.prems(3) by (cases n) auto
  let ?items = "\<lambda>d. join (item_sep st @ newline st l) (map (\<lambda>(k, v). json_str k @ key_sep st @ render st l v) d)"
  define tail where
    "tail = (if d = [] then [] else item_sep st @ newline st l @ ?items d) @ newline st j @ ''}'' @ r"
  have eqn: "?items (p # d) @ newline st j @ ''}'' @ r
      = CHR 0x22 # concat (map esc_char k) @ CHR 0x22 # CHR '':'' # u @ render st l x @ tail"
    by (cases d) (simp_all add: tail_def p json_str_def u)
  have stop: "num_stop tail"
    by (auto simp: tail_def w num_stop_newline)
  have v: "scan_value m (render st l x @ tail) = Inr (x, tail)"
    using Cons.prems(2,3) stop p unfolding eqn n by (intro scansD) auto
  have ku: "skip_ws (u @ render st l x @ tail) = render st l x @ tail"
    using u(2) Cons.prems(2) p
    by (simp add: skip_ws_append value_start_skip_ws value_start_append value_start_render)
  show ?case
  proof (cases "d = []")
    case True
    then have "skip_ws tail = CHR ''}'' # r" by (simp add: tail_def)
    then show ?thesis using v ku True p unfolding eqn n
      by (simp add: scan_members.simps scan_str_json_str)
  next
    case False
    define rest where "rest = ?items d @ newline st j @ ''}'' @ r"
    have "value_start rest"
      using False by (cases d; cases "tl d")
        (auto simp: rest_def json_str_def value_start_def join_Cons split: prod.splits)
    then have sk: "skip_ws (w @ newline st l @ rest) = rest"
      using w(2) by (simp add: skip_ws_append value_start_skip_ws)
    have tl: "tail = CHR '','' # w @ newline st l @ rest"
      using False by (simp add: tail_def rest_def w)
    have "scan_members m rest = Inr (d, r)"
      unfolding rest_def using False Cons.prems
      by (intro Cons.IH) (auto simp: join_Cons w n)
    then show ?thesis using v ku sk p unfolding eqn n tl
      by (simp add: scan_members.simps scan_str_json_str)
  qed
qed simp

lemma scan_scalar_start:
  "scan_scalar [] \<noteq> Inr p" "scan_scalar (CHR 0x22 # cs) \<noteq> Inr p"
  "scan_scalar (CHR ''['' # cs) \<noteq> Inr p" "scan_scalar (CHR ''{'' # cs) \<noteq> Inr p"
  by (simp_all add: scan_scalar_def scan_number_def scan_unsigned_def is_digit_def)

lemma scan_value_scalar:
  "0 < n \<Longrightarrow> c \<noteq> CHR 0x22 \<Longrightarrow> c \<noteq> CHR ''['' \<Longrightarrow> c \<noteq> CHR ''{'' \<Longrightarrow>
   scan_value n (c # cs) = scan_scalar (c # cs)"
  by (cases n) (auto simp: scan_value.simps)

lemma scans_wf:
  assumes st: "valid_style st"
  shows "wf_json v \<Longrightarrow> scans st v"
proof (induction v)
  case (JList xs)
  have el: "\<forall>x\<in>set xs. scans st x \<and> wf_json x" using JList by (auto simp: list_all_iff)
  show ?case
    unfolding scans_def
  proof (intro allI impI)
    fix l n r
    assume n: "2 * length (render st l (JList xs) @ r) < n"
    show "scan_value n (render st l (JList xs) @ r) = Inr (JList xs, r)"
    proof (cases "xs = []")
      case True
      with n show ?thesis by (cases n) (auto simp: scan_value.simps)
    next
      case False
      obtain m where m: "n = Suc m" using n by (cases n) auto
      define body where
        "body = join (item_sep st @ newline st (Suc l)) (map (render st (Suc l)) xs) @ newline st l @ '']'' @ r"
      have "scan_elements m body = Inr (xs, r)"
        unfolding body_def using False n m by (intro scan_elements_join [OF st _ el]) auto
      moreover have "value_start body"
        using False el value_start_render [of _ st "Suc l"]
        by (cases xs; cases "tl xs") (auto simp: body_def join_Cons intro: value_start_append)
      moreover have "render st l (JList xs) @ r = CHR ''['' # newline st (Suc l) @ body"
        using False by (simp add: body_def)
      ultimately show ?thesis
        by (auto simp: m scan_value.simps value_start_def)
    qed
  qed
next
  case (JObj d)
  have el: "\<forall>(k, x)\<in>set d. scans st x \<and> wf_json x"
    using JObj by (fastforce simp: list_all_iff)
  show ?case
    unfolding scans_def
  proof (intro allI impI)
    fix l n r
    assume n: "2 * length (render st l (JObj d) @ r) < n"
    show "scan_value n (render st l (JObj d) @ r) = Inr (JObj d, r)"
    proof (cases "d = []")
      case True
      with n show ?thesis by (cases n) (auto simp: scan_value.simps)
    next
      case False
      obtain m where m: "n = Suc m" using n by (cases n) auto
      define body where
        "body = join (item_sep st @ newline st (Suc l))
           (map (\<lambda>(k, v). json_str k @ key_sep st @ render st (Suc l) v) d) @ newline st l @ ''}'' @ r"
      have "scan_members m body = Inr (d, r)"
        unfolding body_def using False n m by (intro scan_members_join [OF st _ el]) auto
      moreover have "value_start body"
        using False by (cases d; cases "tl d")
          (auto simp: body_def json_str_def value_start_def join_Cons split: prod.splits)
      moreover have "render st l (JObj d) @ r = CHR ''{'' # newline st (Suc l) @ body"
        using False by (simp add: body_def)
      moreover have "dict_update [] d = d" using JObj.prems by (simp add: dict_update_distinct)
      ultimately show ?thesis
        by (auto simp: m scan_value.simps value_start_def)
    qed
  qed
next
  case (JStr s)
  show ?case
    unfolding scans_def
  proof (intro allI impI)
    fix l n r
    assume "2 * length (render st l (JStr s) @ r) < n"
    then show "scan_value n (render st l (JStr s) @ r) = Inr (JStr s, r)"
      by (cases n) (auto simp: scan_value.simps json_str_def scan_str_json_str)
  qed
next
  case (JInt i)
  show ?case
    unfolding scans_def
  proof (intro allI impI)
    fix l n r
    assume n: "2 * length (render st l (JInt i) @ r) < n" and r: "num_stop r"
    obtain c cs where "nat_str (nat \<bar>i\<bar>) = c # cs" "is_digit c" by (rule nat_str_Cons)
    then have "\<exists>c cs. int_str i @ r = c # cs \<and> (is_digit c \<or> c = CHR ''-'')"
      by (auto simp: int_str_def)
    then show "scan_value n (render st l (JInt i) @ r) = Inr (JInt i, r)"
      using n scan_scalar_int [OF r, of i]
      by (cases n) (auto simp: scan_value.simps is_digit_def)
  qed
next
  case (JFloat f)
  show ?case
    unfolding scans_def
  proof (intro allI impI)
    fix l n r
    assume n: "2 * length (render st l (JFloat f) @ r) < n" and r: "num_stop r"
    have "scan_scalar (json_float f @ r) = Inr (JFloat f, r)"
      using JFloat r by (rule scan_scalar_float)
    moreover have "\<exists>c cs. json_float f @ r = c # cs \<and> c \<noteq> CHR 0x22 \<and> c \<noteq> CHR ''['' \<and> c \<noteq> CHR ''{''"
      using calculation scan_scalar_start by (cases "json_float f @ r") fastforce+
    ultimately show "scan_value n (render st l (JFloat f) @ r) = Inr (JFloat f, r)"
      using n by (cases n) (auto simp: scan_value.simps)
  qed
qed (auto simp: scans_def scan_value_scalar scan_scalar_def)

text \<open>Reading a document that was written in any of the layouts, followed by white space.\<close>

lemma loads_render:
  assumes "valid_style st" and v: "wf_json v" and w: "list_all is_ws w"
  shows "json_loads (render st 0 v @ w) = Inr v"
proof -
  have "num_stop w"
    using w by (cases w) (auto simp: num_stop_def is_ws_def is_digit_def)
  moreover have "skip_ws (render st 0 v @ w) = render st 0 v @ w"
    using v by (intro value_start_skip_ws value_start_append value_start_render)
  moreover have "skip_ws w = []" using w skip_ws_append [of w "[]"] by (simp add: skip_ws_def)
  ultimately show ?thesis
    using scansD [OF scans_wf [OF assms(1) v], of w 0] by (simp add: json_loads_def)
qed

section \<open>Sorted keys and canonical text\<close>

lemma map_of_sort_key: "distinct (map fst d) \<Longrightarrow> map_of (sort_key fst d) = map_of d"
  by (subst map_of_inject_set) (simp_all add: distinct_map)

lemma sort_keys_JObj_keys: "map fst (map (\<lambda>(k, v). (k, f v)) d) = map fst d"
  by (simp add: comp_def case_prod_beta)

lemma map_of_sort_keys:
  assumes "dict_keys_ok d"
  shows "map_of (sort_key fst (map (\<lambda>(k, v). (k, sort_keys v)) d)) k = map_option sort_keys (map_of d k)"
proof -
  have "distinct (map fst (map (\<lambda>(k, v). (k, sort_keys v)) d))"
    using assms by (simp only: sort_keys_JObj_keys dict_keys_ok_def)
  then have "map_of (sort_key fst (map (\<lambda>(k, v). (k, sort_keys v)) d)) = map_of (map (\<lambda>(k, v). (k, sort_keys v)) d)"
    by (rule map_of_sort_key)
  then show ?thesis by (simp add: map_of_map)
qed

lemma distinct_sort_key_fst: "distinct (map fst (sort_key fst d)) = distinct (map fst d)"
  by (rule mset_eq_imp_distinct_iff) simp

lemma wf_sort_keys [simp]: "wf_json v \<Longrightarrow> wf_json (sort_keys v)"
proof (induction v)
  case (JObj d)
  then show ?case
    by (auto simp: list_all_iff dict_keys_ok_def distinct_sort_key_fst sort_keys_JObj_keys
        simp del: map_map)
next
  case (JFloat f)
  then show ?case by simp
qed (auto simp: list_all_iff)

lemma sort_keys_idem: "wf_json v \<Longrightarrow> sort_keys (sort_keys v) = sort_keys v"
proof (induction v)
  case (JObj d)
  define e where "e = sort_key fst (map (\<lambda>(k, v). (k, sort_keys v)) d)"
  have set_e: "set e = (\<lambda>(k, v). (k, sort_keys v)) ` set d" by (simp add: e_def)
  have "map (\<lambda>(k, v). (k, sort_keys v)) e = map (\<lambda>p. p) e"
  proof (rule map_cong [OF refl])
    fix p assume "p \<in> set e"
    then obtain k v where "(k, v) \<in> set d" "p = (k, sort_keys v)" by (auto simp: set_e)
    with JObj show "(case p of (k, v) \<Rightarrow> (k, sort_keys v)) = p"
      by (fastforce simp: list_all_iff)
  qed
  moreover have "sort_key fst e = e"
    unfolding e_def using JObj.prems
    by (intro sort_key_mset_unique)
      (simp_all add: dict_keys_ok_def distinct_sort_key_fst sort_keys_JObj_keys del: map_map)
  ultimately show ?case by (simp add: e_def [symmetric])
qed (auto simp: list_all_iff)

text \<open>Reading a file written by \<open>write_json\<close>.\<close>

lemma loads_pretty: "wf_json v \<Longrightarrow> json_loads (dumps_pretty v @ [CHR 0x0A]) = Inr (sort_keys v)"
  unfolding dumps_pretty_def by (rule loads_render) (simp_all add: is_ws_def)

lemma loads_canonical: "wf_json v \<Longrightarrow> json_loads (dumps_canonical v) = Inr (sort_keys v)"
  using loads_render [of compact_style "sort_keys v" "[]"] by (simp add: dumps_canonical_def)

lemma loads_default: "wf_json v \<Longrightarrow> json_loads (dumps_default v) = Inr v"
  using loads_render [of default_style v "[]"] by (simp add: dumps_default_def)

lemma dumps_canonical_sort_keys [simp]:
  "wf_json v \<Longrightarrow> dumps_canonical (sort_keys v) = dumps_canonical v"
  by (simp add: dumps_canonical_def sort_keys_idem)

text \<open>The canonical text is equal exactly when the values agree up to key order.\<close>

lemma dumps_canonical_eq_iff:
  assumes "wf_json v" and "wf_json w"
  shows "dumps_canonical v = dumps_canonical w \<longleftrightarrow> sort_keys v = sort_keys w"
proof
  assume "dumps_canonical v = dumps_canonical w"
  then show "sort_keys v = sort_keys w"
    using loads_canonical [OF assms(1)] loads_canonical [OF assms(2)] by simp
qed (simp add: dumps_canonical_def)

section \<open>A sorted dictionary as a value\<close>

text \<open>From here on the sorted form of a dictionary is used through its lookups.\<close>

definition sorted_obj :: "obj \<Rightarrow> obj" where
  "sorted_obj d = sort_key fst (map (\<lambda>(k, v). (k, sort_keys v)) d)"

lemma sort_keys_JObj: "sort_keys (JObj d) = JObj (sorted_obj d)"
  by (simp add: sorted_obj_def)

declare sort_keys.simps(2) [simp del]
declare sort_keys_JObj [simp]

lemma map_of_sorted_obj [simp]:
  "wf_json (JObj d) \<Longrightarrow> map_of (sorted_obj d) k = map_option sort_keys (map_of d k)"
  unfolding sorted_obj_def by (rule map_of_sort_keys) simp

lemma wf_sorted_obj [simp]: "wf_json (JObj d) \<Longrightarrow> wf_json (JObj (sorted_obj d))"
  using wf_sort_keys [of "JObj d"] by (simp del: wf_json.simps)

lemma length_sorted_obj [simp]: "length (sorted_obj d) = length d"
  by (simp add: sorted_obj_def)

lemma sorted_obj_Nil [simp]: "sorted_obj d = [] \<longleftrightarrow> d = []"
  by (metis length_0_conv length_sorted_obj)

lemma fst_set_sorted_obj [simp]: "fst ` set (sorted_obj d) = fst ` set d"
  by (force simp: sorted_obj_def)

lemma set_sorted_obj: "set (sorted_obj d) = (\<lambda>(k, v). (k, sort_keys v)) ` set d"
  by (simp add: sorted_obj_def)

lemma field_or_sorted_obj:
  "wf_json (JObj d) \<Longrightarrow> field_or (sorted_obj d) k (sort_keys e) = sort_keys (field_or d k e)"
  by (simp add: field_or_def split: option.split)

text \<open>Sorting keys changes neither the kind of a value nor its truth, nor any scalar.\<close>

lemma sort_keys_scalar [simp]:
  "sort_keys v = JStr s \<longleftrightarrow> v = JStr s" "sort_keys v = JBool b \<longleftrightarrow> v = JBool b"
  "sort_keys v = JInt i \<longleftrightarrow> v = JInt i" "sort_keys v = JNull \<longleftrightarrow> v = JNull"
  "sort_keys v = JFloat f \<longleftrightarrow> v = JFloat f"
  by (cases v; simp)+

lemma truthy_sort_keys [simp]: "truthy (sort_keys v) = truthy v"
  by (cases v) auto

lemma hashable_sort_keys [simp]: "hashable (sort_keys v) = hashable v"
  by (cases v) auto

section \<open>Reading does not depend on key order\<close>

named_theorems sort_invariant \<open>operations that commute with sorting keys\<close>

lemma type_name_sort_keys [simp]: "type_name (sort_keys v) = type_name v"
  by (cases v) auto

lemma sort_keys_hashable: "hashable v \<Longrightarrow> sort_keys v = v"
  by (cases v) auto

lemma no_attr_sort_keys [simp]: "no_attr (sort_keys v) a = no_attr v a"
  by (simp add: no_attr_def)

lemma unhashable_sort_keys [simp]: "unhashable (sort_keys v) = unhashable v"
  by (simp add: unhashable_def)

lemma py_item_sort_keys [sort_invariant]:
  "wf_json v \<Longrightarrow> py_item (sort_keys v) k = map_sum id sort_keys (py_item v k)"
  by (cases v) (auto simp: py_item_def split: option.split simp del: wf_json.simps)

lemma py_get_or_sort_keys [sort_invariant]:
  "wf_json v \<Longrightarrow> py_get_or (sort_keys v) k (sort_keys d) = map_sum id sort_keys (py_get_or v k d)"
  by (cases v) (auto simp: py_get_or_def no_attr_def split: option.split simp del: wf_json.simps)

lemma py_get_sort_keys [sort_invariant]: "wf_json v \<Longrightarrow> py_get (sort_keys v) k = map_sum id sort_keys (py_get v k)"
  using py_get_or_sort_keys [of v k JNull] by simp

lemma wf_py_item: "wf_json v \<Longrightarrow> py_item v k = Inr x \<Longrightarrow> wf_json x"
  by (auto simp: py_item_eq_Inr list_all_iff dest!: map_of_SomeD)

lemma wf_field_or: "wf_json (JObj m) \<Longrightarrow> wf_json d \<Longrightarrow> wf_json (field_or m k d)"
  by (auto simp: field_or_def list_all_iff split: option.splits dest!: map_of_SomeD)

lemma py_in_set_sort_keys [sort_invariant]: "py_in_set (sort_keys v) xs = py_in_set v xs"
  by (simp add: py_in_set_def sort_keys_hashable)

lemma num_val_sort_keys [simp]: "num_val (sort_keys v) = num_val v"
  by (cases v) auto

lemma py_sub_dict_iff:
  "py_sub_dict d e \<longleftrightarrow> (\<forall>p\<in>set d. \<exists>w. map_of e (fst p) = Some w \<and> py_eq (snd p) w)"
  by (induction d) (auto split: option.splits)

lemma py_eq_sort_keys_mutual:
  "wf_json v \<Longrightarrow> wf_json w \<Longrightarrow> py_eq (sort_keys v) (sort_keys w) = py_eq v w"
  "list_all wf_json xs \<Longrightarrow> list_all wf_json ys \<Longrightarrow> py_eq_list (map sort_keys xs) (map sort_keys ys) = py_eq_list xs ys"
  "list_all (wf_json \<circ> snd) d \<Longrightarrow> wf_json (JObj e) \<Longrightarrow>
    (\<forall>p\<in>set d. \<exists>w. map_of e (fst p) = Some w \<and> py_eq (sort_keys (snd p)) (sort_keys w)) = py_sub_dict d e"
proof (induction v w and xs ys and d e rule: py_eq_py_eq_list_py_sub_dict.induct)
  case (3 xs w)
  then show ?case by (cases w) auto
next
  case (4 d w)
  show ?case
  proof (cases w)
    case (JObj e)
    have "list_all (wf_json \<circ> snd) d" using 4 by (auto simp: list_all_iff)
    with 4 JObj have IH: "(\<forall>p\<in>set d. \<exists>w. map_of e (fst p) = Some w \<and> py_eq (sort_keys (snd p)) (sort_keys w)) = py_sub_dict d e"
      by blast
    have "map_of (sorted_obj e) k = map_option sort_keys (map_of e k)" for k
      using 4 JObj by simp
    then have "py_sub_dict (sorted_obj d) (sorted_obj e) =
        (\<forall>p\<in>set d. \<exists>w. map_of e (fst p) = Some w \<and> py_eq (sort_keys (snd p)) (sort_keys w))"
      unfolding py_sub_dict_iff set_sorted_obj by (auto split: prod.splits) fastforce+
    with IH JObj show ?thesis by simp
  qed auto
next
  case (12 k v d e)
  show ?case
  proof (cases "map_of e k")
    case (Some w)
    then have "wf_json w" using wf_field_or [of e JNull k] 12 by (simp add: field_or_def)
    with Some 12 show ?thesis by auto
  qed simp
next
  case (10 x xs ys)
  then show ?case by (cases ys) auto
qed (auto split: list.splits)

lemma py_eq_sort_keys [sort_invariant]: "wf_json v \<Longrightarrow> wf_json w \<Longrightarrow> py_eq (sort_keys v) (sort_keys w) = py_eq v w"
  by (rule py_eq_sort_keys_mutual)

end
