(* ===== verification/Sha256.thy ===== *)
theory Sha256
  imports JsonText "HOL-Library.Word"
begin

text \<open>
  \<open>hashlib.sha256\<close> (FIPS 180-4) over byte strings, \<open>hexdigest\<close>, the streaming hasher
  object, and \<open>int.to_bytes(n, byteorder="big")\<close>. The rest of the development uses the
  digest only as a function of the bytes that were hashed.
\<close>

unbundle bit_operations_syntax

type_synonym u32 = "32 word"

definition rotr :: "nat \<Rightarrow> u32 \<Rightarrow> u32" where
  "rotr n x = drop_bit n x OR push_bit (32 - n) x"

definition sha_k :: "u32 list" where
  "sha_k =
    [0x428A2F98, 0x71374491, 0xB5C0FBCF, 0xE9B5DBA5, 0x3956C25B, 0x59F111F1,
     0x923F82A4, 0xAB1C5ED5, 0xD807AA98, 0x12835B01, 0x243185BE, 0x550C7DC3,
     0x72BE5D74, 0x80DEB1FE, 0x9BDC06A7, 0xC19BF174, 0xE49B69C1, 0xEFBE4786,
     0x0FC19DC6, 0x240CA1CC, 0x2DE92C6F, 0x4A7484AA, 0x5CB0A9DC, 0x76F988DA,
     0x983E5152, 0xA831C66D, 0xB00327C8, 0xBF597FC7, 0xC6E00BF3, 0xD5A79147,
     0x06CA6351, 0x14292967, 0x27B70A85, 0x2E1B2138, 0x4D2C6DFC, 0x53380D13,
     0x650A7354, 0x766A0ABB, 0x81C2C92E, 0x92722C85, 0xA2BFE8A1, 0xA81A664B,
     0xC24B8B70, 0xC76C51A3, 0xD192E819, 0xD6990624, 0xF40E3585, 0x106AA070,
     0x19A4C116, 0x1E376C08, 0x2748774C, 0x34B0BCB5, 0x391C0CB3, 0x4ED8AA4A,
     0x5B9CCA4F, 0x682E6FF3, 0x748F82EE, 0x78A5636F, 0x84C87814, 0x8CC70208,
     0x90BEFFFA, 0xA4506CEB, 0xBEF9A3F7, 0xC67178F2]"

definition sha_init :: "u32 list" where
  "sha_init =
    [0x6A09E667, 0xBB67AE85, 0x3C6EF372, 0xA54FF53A, 0x510E527F, 0x9B05688C,
     0x1F83D9AB, 0x5BE0CD19]"

definition be_bytes :: "nat \<Rightarrow> nat \<Rightarrow> bytes" where
  "be_bytes n v = map (\<lambda>i. char_of (v div 256 ^ (n - 1 - i))) [0..<n]"

definition sha_pad :: "bytes \<Rightarrow> bytes" where
  "sha_pad m =
     m @ [CHR 0x80] @ replicate ((119 - length m mod 64) mod 64) (CHR 0x00) @ be_bytes 8 (8 * length m)"

fun chunks :: "nat \<Rightarrow> 'a list \<Rightarrow> 'a list list" where
  "chunks n xs = (if n = 0 \<or> xs = [] then [] else take n xs # chunks n (drop n xs))"

declare chunks.simps [simp del]

definition be_word :: "bytes \<Rightarrow> u32" where
  "be_word bs = of_nat (foldl (\<lambda>n b. 256 * n + of_char b) 0 bs)"

definition small_sigma0 :: "u32 \<Rightarrow> u32" where
  "small_sigma0 x = rotr 7 x XOR rotr 18 x XOR drop_bit 3 x"

definition small_sigma1 :: "u32 \<Rightarrow> u32" where
  "small_sigma1 x = rotr 17 x XOR rotr 19 x XOR drop_bit 10 x"

definition big_sigma0 :: "u32 \<Rightarrow> u32" where
  "big_sigma0 x = rotr 2 x XOR rotr 13 x XOR rotr 22 x"

definition big_sigma1 :: "u32 \<Rightarrow> u32" where
  "big_sigma1 x = rotr 6 x XOR rotr 11 x XOR rotr 25 x"

fun sha_extend :: "nat \<Rightarrow> u32 list \<Rightarrow> u32 list" where
  "sha_extend 0 w = w"
| "sha_extend (Suc k) w =
     (let t = length w
      in sha_extend k (w @ [small_sigma1 (w ! (t - 2)) + w ! (t - 7) + small_sigma0 (w ! (t - 15)) + w ! (t - 16)]))"

definition sha_schedule :: "bytes \<Rightarrow> u32 list" where
  "sha_schedule block = sha_extend 48 (map be_word (chunks 4 block))"

type_synonym sha_state = "u32 \<times> u32 \<times> u32 \<times> u32 \<times> u32 \<times> u32 \<times> u32 \<times> u32"

definition sha_round :: "u32 \<times> u32 \<Rightarrow> sha_state \<Rightarrow> sha_state" where
  "sha_round = (\<lambda>(k, w) (a, b, c, d, e, f, g, h).
     let t1 = h + big_sigma1 e + ((e AND f) XOR (NOT e AND g)) + k + w;
         t2 = big_sigma0 a + ((a AND b) XOR (a AND c) XOR (b AND c))
     in (t1 + t2, a, b, c, d + t1, e, f, g))"

definition sha_block :: "bytes \<Rightarrow> sha_state \<Rightarrow> sha_state" where
  "sha_block block = (\<lambda>(a, b, c, d, e, f, g, h).
     case fold sha_round (zip sha_k (sha_schedule block)) (a, b, c, d, e, f, g, h) of
       (a', b', c', d', e', f', g', h') \<Rightarrow>
         (a + a', b + b', c + c', d + d', e + e', f + f', g + g', h + h'))"

definition sha_start :: sha_state where
  "sha_start = (sha_init ! 0, sha_init ! 1, sha_init ! 2, sha_init ! 3,
     sha_init ! 4, sha_init ! 5, sha_init ! 6, sha_init ! 7)"

definition sha256 :: "bytes \<Rightarrow> bytes" where
  "sha256 m =
     (case fold sha_block (chunks 64 (sha_pad m)) sha_start of
        (a, b, c, d, e, f, g, h) \<Rightarrow> concat (map (\<lambda>x. be_bytes 4 (unat x)) [a, b, c, d, e, f, g, h]))"

definition hexdigest :: "bytes \<Rightarrow> string" where
  "hexdigest bs = concat (map (\<lambda>b. hex2 (of_char b)) bs)"

text \<open>The streaming hasher: \<open>update\<close> feeds more bytes, \<open>hexdigest\<close> is the digest of
  everything fed so far.\<close>

type_synonym hasher = bytes

definition hasher_new :: hasher where "hasher_new = []"

definition hasher_update :: "hasher \<Rightarrow> bytes \<Rightarrow> hasher" where
  "hasher_update h bs = h @ bs"

definition hasher_hexdigest :: "hasher \<Rightarrow> string" where
  "hasher_hexdigest h = hexdigest (sha256 h)"

text \<open>\<open>int.to_bytes(n, byteorder="big")\<close>.\<close>

definition to_bytes :: "nat \<Rightarrow> int \<Rightarrow> bytes res" where
  "to_bytes n i =
     (if i < 0 then Inl (OverflowError ''negative int to unsigned'')
      else if 256 ^ n \<le> i then Inl (OverflowError ''int too big to convert'')
      else Inr (be_bytes n (nat i)))"

section \<open>Shape of digests\<close>

lemma length_be_bytes [simp]: "length (be_bytes n v) = n"
  by (simp add: be_bytes_def)

lemma length_sha256 [simp]: "length (sha256 m) = 32"
  by (simp add: sha256_def split: prod.split)

definition is_hex :: "char \<Rightarrow> bool" where
  "is_hex c \<longleftrightarrow> (48 \<le> (of_char c :: nat) \<and> of_char c \<le> (57 :: nat)) \<or>
     (97 \<le> (of_char c :: nat) \<and> of_char c \<le> (102 :: nat))"

lemma is_hex_hex_digit: "d < 16 \<Longrightarrow> is_hex (hex_digit d)"
  by (auto simp: is_hex_def hex_digit_def)

lemma hexdigest_hex: "list_all is_hex (hexdigest bs)"
  by (induction bs) (auto simp: hexdigest_def hex2_def is_hex_hex_digit)

lemma length_hexdigest: "length (hexdigest bs) = 2 * length bs"
  by (induction bs) (auto simp: hexdigest_def hex2_def)

lemma hasher_update_append: "hasher_update (hasher_update h a) b = hasher_update h (a @ b)"
  by (simp add: hasher_update_def)

text \<open>Fixed-width big-endian encoding is injective on its range.\<close>

definition be_val :: "bytes \<Rightarrow> nat" where
  "be_val bs = foldl (\<lambda>n b. 256 * n + of_char b) 0 bs"

lemma be_val_snoc: "be_val (bs @ [b]) = 256 * be_val bs + of_char b"
  by (simp add: be_val_def)

lemma be_bytes_Suc: "be_bytes (Suc n) v = be_bytes n (v div 256) @ [char_of v]"
proof -
  have "v div 256 ^ (n - i) = v div 256 div 256 ^ (n - 1 - i)" if "i < n" for i
  proof -
    have "n - i = Suc (n - 1 - i)" using that by simp
    then show ?thesis by (simp add: div_mult2_eq)
  qed
  then show ?thesis by (simp add: be_bytes_def)
qed

lemma be_val_be_bytes: "v < 256 ^ n \<Longrightarrow> be_val (be_bytes n v) = v"
proof (induction n arbitrary: v)
  case (Suc n)
  then have "v div 256 < 256 ^ n" by (simp add: less_mult_imp_div_less mult.commute)
  with Suc.IH show ?case by (simp add: be_bytes_Suc be_val_snoc)
qed (simp add: be_val_def be_bytes_def)

lemma to_bytes_inj: "to_bytes n i = Inr bs \<Longrightarrow> to_bytes n j = Inr bs \<Longrightarrow> i = j"
proof -
  assume i: "to_bytes n i = Inr bs" and j: "to_bytes n j = Inr bs"
  then have b: "0 \<le> i" "i < 256 ^ n" "0 \<le> j" "j < 256 ^ n" "be_bytes n (nat i) = be_bytes n (nat j)"
    by (auto simp: to_bytes_def split: if_splits)
  then have "nat i < 256 ^ n" "nat j < 256 ^ n"
    by (simp_all add: nat_less_iff)
  then have "nat i = nat j" using b(5) by (metis be_val_be_bytes)
  with b show "i = j" by simp
qed

lemma to_bytes_length: "to_bytes n i = Inr bs \<Longrightarrow> length bs = n"
  by (auto simp: to_bytes_def split: if_splits)

end
