(* ===== verification/PyPath.thy ===== *)
theory PyPath
  imports Sha256 "HOL-Library.Sublist"
begin

text \<open>
  \<open>pathlib.PurePosixPath\<close> (parsing, joining, printing) and the file system the sources
  read and write: a map from paths to regular files and directories, threaded through every
  operation, also when it raises. Paths are compared lexically; symbolic links and aliasing
  through \<open>..\<close> are not represented. The interface \<open>byte_store\<close> states what the
  artifact code relies on: a written file reads back, and writing it changes no other file.
\<close>

section \<open>Paths\<close>

record pypath =
  anchor :: string
  parts :: "string list"

fun split_slash :: "string \<Rightarrow> string list" where
  "split_slash [] = [[]]"
| "split_slash (c # cs) =
     (if c = CHR ''/'' then [] # split_slash cs
      else case split_slash cs of [] \<Rightarrow> [[c]] | w # ws \<Rightarrow> (c # w) # ws)"

definition path_root :: "string \<Rightarrow> string" where
  "path_root s =
     (if starts_with ''///'' s then ''/'' else if starts_with ''//'' s then ''//''
      else if starts_with ''/'' s then ''/'' else [])"

text \<open>\<open>Path(s)\<close>: empty and \<open>.\<close> components disappear.\<close>

definition Path :: "string \<Rightarrow> pypath" where
  "Path s = \<lparr>anchor = path_root s, parts = filter (\<lambda>p. p \<noteq> [] \<and> p \<noteq> ''.'') (split_slash s)\<rparr>"

definition is_absolute :: "pypath \<Rightarrow> bool" where
  "is_absolute p \<longleftrightarrow> anchor p \<noteq> []"

definition as_posix :: "pypath \<Rightarrow> string" where
  "as_posix p = (let s = anchor p @ join ''/'' (parts p) in if s = [] then ''.'' else s)"

definition path_name :: "pypath \<Rightarrow> string" where
  "path_name p = (if parts p = [] then [] else last (parts p))"

text \<open>\<open>a / b\<close>: an absolute right operand replaces the left one.\<close>

definition path_join :: "pypath \<Rightarrow> pypath \<Rightarrow> pypath" where
  "path_join a b = (if is_absolute b then b else \<lparr>anchor = anchor a, parts = parts a @ parts b\<rparr>)"

definition path_sub :: "pypath \<Rightarrow> string \<Rightarrow> pypath" where
  "path_sub a s = path_join a (Path s)"

definition path_parent :: "pypath \<Rightarrow> pypath" where
  "path_parent p = p\<lparr>parts := butlast (parts p)\<rparr>"

text \<open>\<open>p.relative_to(q)\<close>.\<close>

definition relative_to :: "pypath \<Rightarrow> pypath \<Rightarrow> pypath res" where
  "relative_to p q =
     (if anchor p = anchor q \<and> prefix (parts q) (parts p)
      then Inr \<lparr>anchor = [], parts = drop (length (parts q)) (parts p)\<rparr>
      else Inl (ValueError (repr_str (as_posix p) @ '' is not in the subpath of '' @ repr_str (as_posix q))))"

definition below :: "pypath \<Rightarrow> pypath \<Rightarrow> bool" where
  "below d p \<longleftrightarrow> anchor p = anchor d \<and> prefix (parts d) (parts p)"

lemma below_refl [simp]: "below d d"
  by (simp add: below_def)

lemma below_join: "anchor b = [] \<Longrightarrow> below a (path_join a b)"
  by (simp add: below_def path_join_def is_absolute_def)

lemma below_trans: "below a b \<Longrightarrow> below b c \<Longrightarrow> below a c"
  by (auto simp: below_def intro: prefix_order.trans)

lemma split_slash_no_slash: "p \<in> set (split_slash s) \<Longrightarrow> CHR ''/'' \<notin> set p"
  by (induction s arbitrary: p) (auto split: if_splits list.splits)

lemma split_slash_nonempty [simp]: "split_slash s \<noteq> []"
  by (induction s) (auto split: list.splits)

lemma split_slash_append:
  "CHR ''/'' \<notin> set p \<Longrightarrow> split_slash (p @ CHR ''/'' # s) = p # split_slash s"
  by (induction p) auto

lemma split_slash_plain: "CHR ''/'' \<notin> set p \<Longrightarrow> split_slash p = [p]"
  by (induction p) auto

text \<open>Well-formed component lists, and the printed form reads back.\<close>

definition parts_ok :: "string list \<Rightarrow> bool" where
  "parts_ok ps \<longleftrightarrow> (\<forall>p\<in>set ps. p \<noteq> [] \<and> p \<noteq> ''.'' \<and> CHR ''/'' \<notin> set p)"

lemma parts_ok_Path [simp]: "parts_ok (parts (Path s))"
  by (auto simp: parts_ok_def Path_def dest: split_slash_no_slash)

lemma split_slash_join:
  "\<forall>p\<in>set ps. CHR ''/'' \<notin> set p \<Longrightarrow> ps \<noteq> [] \<Longrightarrow> split_slash (join ''/'' ps) = ps"
  by (induction "''/'' :: string" ps rule: join.induct) (auto simp: split_slash_plain split_slash_append)

lemma Path_join:
  assumes "parts_ok ps" and "ps \<noteq> []"
  shows "Path (join ''/'' ps) = \<lparr>anchor = [], parts = ps\<rparr>"
proof -
  obtain p qs where p: "ps = p # qs" using assms(2) by (cases ps) auto
  obtain c cs where c: "p = c # cs" "c \<noteq> CHR ''/''"
    using assms(1) p by (cases p) (auto simp: parts_ok_def)
  have "filter (\<lambda>p. p \<noteq> [] \<and> p \<noteq> ''.'') ps = ps"
    using assms(1) by (intro filter_True) (auto simp: parts_ok_def)
  moreover have "split_slash (join ''/'' ps) = ps"
    using assms by (intro split_slash_join) (auto simp: parts_ok_def)
  moreover have "path_root (join ''/'' ps) = []"
    by (cases qs) (auto simp: path_root_def p c)
  ultimately show ?thesis by (simp add: Path_def)
qed

lemma Path_as_posix: "anchor p = [] \<Longrightarrow> parts_ok (parts p) \<Longrightarrow> parts p \<noteq> [] \<Longrightarrow> Path (as_posix p) = p"
proof -
  assume p: "anchor p = []" "parts_ok (parts p)" "parts p \<noteq> []"
  then have "join ''/'' (parts p) \<noteq> []"
    by (cases "parts p" rule: remdups_adj.cases) (auto simp: parts_ok_def)
  with p show ?thesis by (simp add: as_posix_def Path_join)
qed

section \<open>The file system\<close>

datatype fnode = FFile bytes | FDir

type_synonym fs = "pypath \<Rightarrow> fnode option"

type_synonym 'a io = "fs \<Rightarrow> 'a res \<times> fs"

definition bindIO :: "'a io \<Rightarrow> ('a \<Rightarrow> 'b io) \<Rightarrow> 'b io" where
  "bindIO m f = (\<lambda>s. case m s of (Inl e, s') \<Rightarrow> (Inl e, s') | (Inr x, s') \<Rightarrow> f x s')"

definition liftR :: "'a res \<Rightarrow> 'a io" where
  "liftR r = (\<lambda>s. (r, s))"

definition returnIO :: "'a \<Rightarrow> 'a io" where
  "returnIO x = liftR (Inr x)"

definition raiseIO :: "py_error \<Rightarrow> 'a io" where
  "raiseIO e = liftR (Inl e)"

lemma liftR_simps [simp]: "liftR r s = (r, s)"
  by (simp add: liftR_def)

lemma returnIO_simps [simp]: "returnIO x s = (Inr x, s)"
  by (simp add: returnIO_def)

lemma raiseIO_simps [simp]: "raiseIO e s = (Inl e, s)"
  by (simp add: raiseIO_def)

lemma bindIO_Inr: "m s = (Inr x, s') \<Longrightarrow> bindIO m f s = f x s'"
  by (simp add: bindIO_def)

lemma bindIO_Inl: "m s = (Inl e, s') \<Longrightarrow> bindIO m f s = (Inl e, s')"
  by (simp add: bindIO_def)

lemma bindIO_liftR: "bindIO (liftR r) f s = (case r of Inl e \<Rightarrow> (Inl e, s) | Inr x \<Rightarrow> f x s)"
  by (simp add: bindIO_def split: sum.split)

lemma bindIO_eq_Inr [result_inv]:
  "bindIO m f s = (Inr y, t) \<longleftrightarrow> (\<exists>x s'. m s = (Inr x, s') \<and> f x s' = (Inr y, t))"
  by (auto simp: bindIO_def split: prod.splits sum.splits)

lemma bindIO_eq_Inl [result_simps]:
  "bindIO m f s = (Inl e, t) \<longleftrightarrow> m s = (Inl e, t) \<or> (\<exists>x s'. m s = (Inr x, s') \<and> f x s' = (Inl e, t))"
  by (auto simp: bindIO_def split: prod.splits sum.splits)

lemma bindIO_assoc: "bindIO (bindIO m f) g = bindIO m (\<lambda>x. bindIO (f x) g)"
  by (auto simp: bindIO_def fun_eq_iff split: prod.splits sum.splits)

fun mapIO :: "('a \<Rightarrow> 'b io) \<Rightarrow> 'a list \<Rightarrow> 'b list io" where
  "mapIO f [] = returnIO []"
| "mapIO f (x # xs) = bindIO (f x) (\<lambda>y. bindIO (mapIO f xs) (\<lambda>ys. returnIO (y # ys)))"

text \<open>Node at a path: the empty relative path and the roots are directories.\<close>

definition node_at :: "fs \<Rightarrow> pypath \<Rightarrow> fnode option" where
  "node_at s p = (if parts p = [] then Some FDir else s p)"

definition path_exists :: "fs \<Rightarrow> pypath \<Rightarrow> bool" where
  "path_exists s p \<longleftrightarrow> node_at s p \<noteq> None"

definition read_bytes :: "fs \<Rightarrow> pypath \<Rightarrow> bytes res" where
  "read_bytes s p =
     (case node_at s p of
        None \<Rightarrow> Inl (FileNotFoundError (as_posix p))
      | Some FDir \<Rightarrow> Inl (IsADirectoryError (as_posix p))
      | Some (FFile b) \<Rightarrow> Inr b)"

text \<open>The path and its ancestors, outermost first, as \<open>mkdir(parents=True)\<close> visits them.\<close>

definition path_prefixes :: "pypath \<Rightarrow> pypath list" where
  "path_prefixes p = map (\<lambda>ps. p\<lparr>parts := ps\<rparr>) (tl (prefixes (parts p)))"

fun make_dirs :: "pypath list \<Rightarrow> unit io" where
  "make_dirs [] s = (Inr (), s)"
| "make_dirs (p # ps) s =
     (case node_at s p of
        Some (FFile b) \<Rightarrow> (Inl (if ps = [] then FileExistsError (as_posix p) else NotADirectoryError (as_posix p)), s)
      | _ \<Rightarrow> make_dirs ps (s(p \<mapsto> FDir)))"

definition mkdir_parents :: "pypath \<Rightarrow> unit io" where
  "mkdir_parents p = make_dirs (path_prefixes p)"

text \<open>Opening for writing truncates or creates the file; its directory must exist.\<close>

definition write_bytes :: "pypath \<Rightarrow> bytes \<Rightarrow> unit io" where
  "write_bytes p b = (\<lambda>s.
     case node_at s (path_parent p) of
       None \<Rightarrow> (Inl (FileNotFoundError (as_posix p)), s)
     | Some (FFile _) \<Rightarrow> (Inl (NotADirectoryError (as_posix p)), s)
     | Some FDir \<Rightarrow>
         (if node_at s p = Some FDir then (Inl (IsADirectoryError (as_posix p)), s)
          else (Inr (), s(p \<mapsto> FFile b))))"

definition write_with_parents :: "pypath \<Rightarrow> bytes \<Rightarrow> unit io" where
  "write_with_parents p b = bindIO (mkdir_parents (path_parent p)) (\<lambda>_. write_bytes p b)"

definition read_file :: "pypath \<Rightarrow> bytes io" where
  "read_file p = (\<lambda>s. (read_bytes s p, s))"

definition exists_io :: "pypath \<Rightarrow> bool io" where
  "exists_io p = (\<lambda>s. (Inr (path_exists s p), s))"

text \<open>\<open>shutil.rmtree\<close> empties the directory and then removes it, which fails for the working directory and for a root.\<close>

definition rmtree :: "pypath \<Rightarrow> unit io" where
  "rmtree d = (\<lambda>s.
     case node_at s d of
       None \<Rightarrow> (Inl (FileNotFoundError (as_posix d)), s)
     | Some (FFile _) \<Rightarrow> (Inl (NotADirectoryError (as_posix d)), s)
     | Some FDir \<Rightarrow>
         (if parts d = [] then Inl (OSError (as_posix d)) else Inr (), (\<lambda>p. if below d p then None else s p)))"

section \<open>Reading after writing\<close>

lemma node_at_update: "parts p \<noteq> [] \<Longrightarrow> node_at (s(p \<mapsto> n)) q = (if q = p then Some n else node_at s q)"
  by (simp add: node_at_def)

lemma node_at_dir_update: "node_at (s(p \<mapsto> FDir)) q = (if q = p then Some FDir else node_at s q)"
  by (simp add: node_at_def)

lemma make_dirs_node:
  "make_dirs ps s = (Inr u, s') \<Longrightarrow> node_at s' q = (if q \<in> set ps then Some FDir else node_at s q)"
  by (induction ps arbitrary: s)
    (auto simp: node_at_dir_update split: option.splits fnode.splits if_splits)

lemma make_dirs_Cons:
  assumes "make_dirs (p # ps) s = (r, s')"
  obtains (blocked) b where "node_at s p = Some (FFile b)" and "s' = s" and "\<exists>e. r = Inl e"
    | (step) t where "make_dirs ps t = (r, s')" and "\<And>b. node_at s p \<noteq> Some (FFile b)"
        and "\<And>q. node_at t q = (if q = p then Some FDir else node_at s q)"
  using assms by (cases "node_at s p" rule: option.exhaust; cases "the (node_at s p)")
    (auto intro: that(1) that(2) [OF _ _ node_at_dir_update])

lemma make_dirs_no_file:
  "make_dirs ps s = (Inr u, s') \<Longrightarrow> q \<in> set ps \<Longrightarrow> node_at s q \<noteq> Some (FFile b)"
proof (induction ps arbitrary: s)
  case (Cons p ps)
  from Cons.prems(1) show ?case
  proof (cases rule: make_dirs_Cons)
    case (step t)
    then show ?thesis using Cons.IH [of t] Cons.prems(2) by (cases "q = p") auto
  qed simp
qed simp

lemmas make_dirs_ok = make_dirs_node make_dirs_no_file

lemma make_dirs_err:
  "make_dirs ps s = (Inl e, s') \<Longrightarrow> node_at s q = Some (FFile b) \<Longrightarrow> node_at s' q = Some (FFile b)"
proof (induction ps arbitrary: s)
  case (Cons p ps)
  from Cons.prems(1) show ?case
  proof (cases rule: make_dirs_Cons)
    case (step t)
    then show ?thesis using Cons.IH [of t] Cons.prems(2) by (cases "q = p") auto
  qed (use Cons.prems in simp)
qed simp

lemma write_bytes_ok:
  assumes "write_bytes p b s = (Inr u, s')"
  shows "s' = s(p \<mapsto> FFile b)" and "parts p \<noteq> []"
  using assms by (auto simp: write_bytes_def node_at_def split: option.splits fnode.splits if_splits)

lemma write_with_parents_ok:
  assumes "write_with_parents p b s = (Inr u, s')"
  shows "node_at s' p = Some (FFile b)"
    and "q \<noteq> p \<Longrightarrow> node_at s q = Some (FFile c) \<Longrightarrow> node_at s' q = Some (FFile c)"
    and "q \<noteq> p \<Longrightarrow> node_at s' q = Some (FFile c) \<Longrightarrow> node_at s q = Some (FFile c)"
proof -
  obtain t where t: "make_dirs (path_prefixes (path_parent p)) s = (Inr (), t)" "write_bytes p b t = (Inr u, s')"
    using assms by (auto simp: write_with_parents_def mkdir_parents_def bindIO_eq_Inr)
  note w = write_bytes_ok [OF t(2)]
  show "node_at s' p = Some (FFile b)" using w by (simp add: node_at_update)
  show "q \<noteq> p \<Longrightarrow> node_at s q = Some (FFile c) \<Longrightarrow> node_at s' q = Some (FFile c)"
    using w make_dirs_ok [OF t(1), of q] by (auto simp: node_at_update split: if_splits)
  show "q \<noteq> p \<Longrightarrow> node_at s' q = Some (FFile c) \<Longrightarrow> node_at s q = Some (FFile c)"
    using w make_dirs_ok [OF t(1), of q] by (auto simp: node_at_update split: if_splits)
qed

lemma read_bytes_iff: "read_bytes s p = Inr b \<longleftrightarrow> node_at s p = Some (FFile b)"
  by (auto simp: read_bytes_def split: option.splits fnode.splits)

text \<open>The interface the artifact and package code relies on, and what follows from it: the
  contents of the files written by a sequence of writes to distinct paths.\<close>

locale byte_store =
  fixes reads :: "'s \<Rightarrow> 'p \<Rightarrow> bytes res"
    and writes :: "'p \<Rightarrow> bytes \<Rightarrow> 's \<Rightarrow> unit res \<times> 's"
  assumes read_written: "writes p b s = (Inr (), s') \<Longrightarrow> reads s' p = Inr b"
    and read_kept: "writes p b s = (Inr (), s') \<Longrightarrow> q \<noteq> p \<Longrightarrow> reads s q = Inr c \<Longrightarrow> reads s' q = Inr c"
    and read_old: "writes p b s = (Inr (), s') \<Longrightarrow> q \<noteq> p \<Longrightarrow> reads s' q = Inr c \<Longrightarrow> reads s q = Inr c"
begin

fun write_all :: "('p \<times> bytes) list \<Rightarrow> 's \<Rightarrow> unit res \<times> 's" where
  "write_all [] s = (Inr (), s)"
| "write_all ((p, b) # ws) s =
     (case writes p b s of (Inl e, t) \<Rightarrow> (Inl e, t) | (Inr _, t) \<Rightarrow> write_all ws t)"

lemma write_all_kept:
  "write_all ws s = (Inr (), s') \<Longrightarrow> q \<notin> fst ` set ws \<Longrightarrow> reads s q = Inr c \<Longrightarrow> reads s' q = Inr c"
proof (induction ws arbitrary: s)
  case (Cons w ws)
  obtain p b where w: "w = (p, b)" by fastforce
  obtain t where t: "writes p b s = (Inr (), t)" "write_all ws t = (Inr (), s')"
    using Cons.prems(1) w by (auto split: prod.splits sum.splits)
  have "reads t q = Inr c" using Cons.prems w by (intro read_kept [OF t(1)]) auto
  with Cons.IH [OF t(2)] Cons.prems(2) show ?case by simp
qed simp

lemma write_all_read:
  "write_all ws s = (Inr (), s') \<Longrightarrow> distinct (map fst ws) \<Longrightarrow> (p, b) \<in> set ws \<Longrightarrow> reads s' p = Inr b"
proof (induction ws arbitrary: s)
  case (Cons w ws)
  obtain p' b' where w: "w = (p', b')" by fastforce
  obtain t where t: "writes p' b' s = (Inr (), t)" "write_all ws t = (Inr (), s')"
    using Cons.prems(1) w by (auto split: prod.splits sum.splits)
  show ?case
  proof (cases "(p, b) = w")
    case True
    have "reads t p = Inr b" using True w read_written [OF t(1)] by simp
    moreover have "p \<notin> fst ` set ws" using Cons.prems(2) True w by auto
    ultimately show ?thesis using write_all_kept [OF t(2)] by blast
  next
    case False
    with Cons.IH [OF t(2)] Cons.prems show ?thesis by simp
  qed
qed simp

end

interpretation fs_store: byte_store read_bytes write_with_parents
  by unfold_locales (auto simp: read_bytes_iff dest: write_with_parents_ok)

section \<open>The contents of the file system\<close>

text \<open>The abstract view: which path holds which bytes. Making directories does not change it, also
  when it fails half-way; writing a file updates it at one path.\<close>

definition files :: "fs \<Rightarrow> pypath \<rightharpoonup> bytes" where
  "files s q = (case node_at s q of Some (FFile b) \<Rightarrow> Some b | _ \<Rightarrow> None)"

lemma files_eq_Some: "files s q = Some b \<longleftrightarrow> read_bytes s q = Inr b"
  by (auto simp: files_def read_bytes_iff split: option.splits fnode.splits)

lemma files_make_dirs: "make_dirs ps s = (r, s') \<Longrightarrow> files s' = files s"
proof (induction ps arbitrary: s)
  case (Cons p ps)
  from Cons.prems show ?case
  proof (cases rule: make_dirs_Cons)
    case (step t)
    have "files t q = files s q" for q
      using step(2,3) by (auto simp: files_def split: option.splits fnode.splits)
    then show ?thesis using Cons.IH [OF step(1)] by auto
  qed simp
qed simp

lemma files_write_bytes:
  "write_bytes p b s = (r, s') \<Longrightarrow> files s' = (case r of Inl _ \<Rightarrow> files s | Inr _ \<Rightarrow> (files s)(p \<mapsto> b))"
proof (cases r)
  case (Inl e)
  assume "write_bytes p b s = (r, s')"
  with Inl show ?thesis by (auto simp: write_bytes_def split: option.splits fnode.splits if_splits)
next
  case (Inr u)
  assume "write_bytes p b s = (r, s')"
  with Inr have "s' = s(p \<mapsto> FFile b)" "parts p \<noteq> []" using write_bytes_ok by auto
  then have "files s' q = ((files s)(p \<mapsto> b)) q" for q by (auto simp: files_def node_at_update)
  with Inr show ?thesis by auto
qed

lemma files_write_with_parents:
  "write_with_parents p b s = (r, s') \<Longrightarrow> files s' = (case r of Inl _ \<Rightarrow> files s | Inr _ \<Rightarrow> (files s)(p \<mapsto> b))"
  by (auto simp: write_with_parents_def mkdir_parents_def bindIO_def split: prod.splits sum.splits
      dest!: files_make_dirs files_write_bytes)

lemma files_rmtree:
  "rmtree d s = (Inr u, s') \<Longrightarrow> files s' q = (if below d q then None else files s q)"
  by (auto simp: rmtree_def files_def node_at_def split: option.splits fnode.splits if_splits)

end
