(* ===== verification/GraphCore.thy ===== *)
theory GraphCore
  imports PyPath
begin

text \<open>
  The shared helpers of the Agent Memory Graph harness
  (\<^verbatim>\<open>examples/agent-memory-graph/local_agent.py\<close>, first part): constants, hashing of bytes,
  JSON and files, content-addressed and safe paths, the canonical graph hash and its root
  signature, the byte tokenizer and its hashes, the deterministic embedding, prompt
  reconstruction, graph nodes and artifact records.
\<close>

section \<open>Constants\<close>

definition GRAPH_VERSION :: string where "GRAPH_VERSION = ''0.1''"
definition CREATED_AT :: string where "CREATED_AT = ''2026-06-19T00:00:00Z''"
definition AGENT_ID :: string where "AGENT_ID = ''agent:local-reference''"
definition USER_ID :: string where "USER_ID = ''user:local-reference''"
definition TOOL_ID :: string where "TOOL_ID = ''tool:local-fs''"
definition MODEL_ID :: string where "MODEL_ID = ''deterministic-local-agent-v0''"
definition RUNTIME_ID :: string where "RUNTIME_ID = ''examples/agent-memory-graph''"
definition TOKENIZER_HASH :: string where
  "TOKENIZER_HASH = ''sha256:'' @ hexdigest (sha256 ''permeant-local-byte-tokenizer-v0'')"
definition EMBEDDING_MODEL :: string where "EMBEDDING_MODEL = ''deterministic-local-byte-embedding-v0''"
definition EMBEDDING_DIM :: nat where "EMBEDDING_DIM = 8"
definition VECTOR_STORE_REF :: string where "VECTOR_STORE_REF = ''vector:local-reference:session''"
definition ARTIFACT_STORE_VERSION :: string where "ARTIFACT_STORE_VERSION = ''content-addressed-v0''"
definition RESTORE_POLICY_VERSION :: string where "RESTORE_POLICY_VERSION = ''workspace-relative-v0''"
definition SECURITY_POLICY_VERSION :: string where
  "SECURITY_POLICY_VERSION = ''agent-graph-security-policy-v0''"
definition ROOT_SIGNATURE_ALGORITHM :: string where
  "ROOT_SIGNATURE_ALGORITHM = ''sha256-local-root-signature-v0''"
definition TRUSTED_SIGNER_ID :: string where "TRUSTED_SIGNER_ID = ''signer:local-reference''"
definition ALLOWED_TARGET_RUNTIMES :: "string list" where "ALLOWED_TARGET_RUNTIMES = [RUNTIME_ID]"
definition ALLOWED_TOOL_NAMES :: "string list" where
  "ALLOWED_TOOL_NAMES = [''fs.write_file'', ''aws.ec2.describe_instances'', ''aws.ec2.run_instances'']"
definition ALLOWED_ARTIFACT_PATH_PREFIXES :: "string list" where
  "ALLOWED_ARTIFACT_PATH_PREFIXES = [''reports/'']"
definition FORBIDDEN_SECRET_KEYS :: "string list" where
  "FORBIDDEN_SECRET_KEYS = [''secret_value'', ''raw_secret'', ''raw_credential'', ''private_key'',
     ''access_token'', ''refresh_token'', ''api_key'', ''password'']"
definition STREAM_CHUNK_SIZE :: nat where "STREAM_CHUNK_SIZE = 1024 * 1024"
definition PENDING_TOOL_STATUSES :: "string list" where
  "PENDING_TOOL_STATUSES = [''not_started'', ''in_progress'', ''failed'', ''needs_user'']"
definition MANUAL_RESUME_POLICIES :: "string list" where
  "MANUAL_RESUME_POLICIES = [''ask_user'', ''rebind'', ''compensate'']"
definition POST_MIGRATION_CREATED_AT :: string where
  "POST_MIGRATION_CREATED_AT = ''2026-06-20T00:00:00Z''"

section \<open>Data classes\<close>

record local_session =
  messages :: "json list"
  artifact_path :: string
  artifact_bytes :: bytes
  deterministic_response :: string

record artifact_export_policy =
  exclude_paths :: "string list"
  redact_paths :: "string list"

definition disposition_for :: "artifact_export_policy \<Rightarrow> string \<Rightarrow> string" where
  "disposition_for pol path =
     (if path \<in> set (exclude_paths pol) then ''excluded''
      else if path \<in> set (redact_paths pol) then ''redacted''
      else ''packaged'')"

record artifact_record =
  ar_path :: string
  content_hash :: string
  size_bytes :: int
  media_type :: string
  disposition :: string
  blob_path :: "string option"
  restore_policy :: string
  target_path :: string
  rebind_required :: bool

section \<open>Hashing\<close>

definition sha256_bytes :: "bytes \<Rightarrow> string" where
  "sha256_bytes data = ''sha256:'' @ hexdigest (sha256 data)"

definition sha256_json :: "json \<Rightarrow> string" where
  "sha256_json v = sha256_bytes (utf8_encode (dumps_canonical v))"

definition sha256_hex :: "bytes \<Rightarrow> string" where
  "sha256_hex data = hexdigest (sha256 data)"

text \<open>\<open>while chunk := handle.read(n)\<close>: the bytes left in the file, the hasher, the size.\<close>

function hash_stream :: "nat \<Rightarrow> bytes \<Rightarrow> hasher \<Rightarrow> int \<Rightarrow> hasher \<times> int" where
  "hash_stream n rest h sz =
     (let chunk = take n rest
      in if chunk = [] then (h, sz)
         else hash_stream n (drop n rest) (hasher_update h chunk) (sz + int (length chunk)))"
  by pat_completeness auto
termination
  by (relation "measure (\<lambda>(n, rest, h, sz). length rest)") auto

declare hash_stream.simps [simp del]

definition file_sha256_and_size :: "pypath \<Rightarrow> (string \<times> int) io" where
  "file_sha256_and_size p =
     bindIO (read_file p) (\<lambda>data.
       let (h, sz) = hash_stream STREAM_CHUNK_SIZE data hasher_new 0
       in returnIO (''sha256:'' @ hasher_hexdigest h, sz))"

text \<open>The copy loop also writes each chunk; the last component is what was written so far.\<close>

function copy_stream :: "nat \<Rightarrow> bytes \<Rightarrow> hasher \<Rightarrow> int \<Rightarrow> bytes \<Rightarrow> hasher \<times> int \<times> bytes" where
  "copy_stream n rest h sz out =
     (let chunk = take n rest
      in if chunk = [] then (h, sz, out)
         else copy_stream n (drop n rest) (hasher_update h chunk) (sz + int (length chunk)) (out @ chunk))"
  by pat_completeness auto
termination
  by (relation "measure (\<lambda>(n, rest, h, sz, out). length rest)") auto

declare copy_stream.simps [simp del]

text \<open>Both files are opened before the loop; opening the target truncates it, also when it is
  the source.\<close>

definition copy_file_streaming_with_hash :: "pypath \<Rightarrow> pypath \<Rightarrow> (string \<times> int) io" where
  "copy_file_streaming_with_hash source target =
     bindIO (mkdir_parents (path_parent target)) (\<lambda>_.
     bindIO (read_file source) (\<lambda>_.
     bindIO (write_bytes target []) (\<lambda>_.
     bindIO (read_file source) (\<lambda>data.
       let (h, sz, out) = copy_stream STREAM_CHUNK_SIZE data hasher_new 0 []
       in bindIO (write_bytes target out) (\<lambda>_.
            returnIO (''sha256:'' @ hasher_hexdigest h, sz))))))"

definition write_json :: "pypath \<Rightarrow> json \<Rightarrow> unit io" where
  "write_json p v =
     write_with_parents p (utf8_encode (dumps_pretty v @ [CHR 0x0A]))"

definition read_json :: "pypath \<Rightarrow> json io" where
  "read_json p = bindIO (read_file p) (\<lambda>b. liftR (bindR (utf8_decode b) json_loads))"

section \<open>Paths\<close>

definition content_addressed_blob_path :: "string \<Rightarrow> string \<Rightarrow> string" where
  "content_addressed_blob_path chash logical_path =
     (let digest = removeprefix ''sha256:'' chash
      in ''artifacts/sha256/'' @ take 2 digest @ ''/'' @ digest @ ''/'' @ path_name (Path logical_path))"

definition safe_relative_path :: "json \<Rightarrow> string \<Rightarrow> pypath res" where
  "safe_relative_path v label =
     bindR (as_str v) (\<lambda>path.
       let relative = Path path
       in if is_absolute relative \<or> ''..'' \<in> set (parts relative)
          then Inl (ImportVerificationError (''unsafe '' @ label @ '': '' @ path))
          else if parts relative = [] then Inl (ImportVerificationError (''empty '' @ label))
          else Inr relative)"

definition safe_workspace_relative_path :: "json \<Rightarrow> pypath res" where
  "safe_workspace_relative_path v = safe_relative_path v ''artifact restore path''"

definition safe_package_relative_path :: "json \<Rightarrow> pypath res" where
  "safe_package_relative_path v = safe_relative_path v ''package path''"

definition path_allowed_by_prefix :: "json \<Rightarrow> bool res" where
  "path_allowed_by_prefix v =
     bindR (safe_workspace_relative_path v) (\<lambda>p.
       Inr (list_ex (\<lambda>pre. starts_with pre (as_posix p)) ALLOWED_ARTIFACT_PATH_PREFIXES))"

section \<open>Canonical graph hash and root signature\<close>

definition canonical_graph_hash :: "json \<Rightarrow> string res" where
  "canonical_graph_hash graph =
     (case graph of
        JObj d \<Rightarrow> Inr (sha256_json (JObj (dict_pop ''graph_hash'' d)))
      | JList _ \<Rightarrow> Inl (TypeError ''pop expected at most 1 argument, got 2'')
      | v \<Rightarrow> Inl (no_attr v ''pop''))"

definition graph_root_signature :: "json \<Rightarrow> json \<Rightarrow> string" where
  "graph_root_signature graph_hash signer_id =
     sha256_json (JObj
       [(''algorithm'', JStr ROOT_SIGNATURE_ALGORITHM),
        (''graph_hash'', graph_hash),
        (''policy_version'', JStr SECURITY_POLICY_VERSION),
        (''signer_id'', signer_id)])"

section \<open>Tokens\<close>

definition tokenize_prompt :: "string \<Rightarrow> int list" where
  "tokenize_prompt prompt = map (\<lambda>b. int (of_char b)) (utf8_encode prompt)"

definition token_hash :: "int list \<Rightarrow> string res" where
  "token_hash ids =
     bindR (foldR (\<lambda>t h. bindR (to_bytes 2 t) (\<lambda>b. Inr (hasher_update h b))) ids hasher_new)
       (\<lambda>h. Inr (''sha256:'' @ hasher_hexdigest h))"

definition simulated_kv_hash :: "int list \<Rightarrow> string res" where
  "simulated_kv_hash ids =
     bindR (foldR (\<lambda>(i, t) h.
         bindR (to_bytes 4 (int i)) (\<lambda>p. bindR (to_bytes 2 t) (\<lambda>b.
           Inr (hasher_update (hasher_update h p) b))))
       (enum_from 0 ids) (hasher_update hasher_new (''permeant-local-kv-v0'' @ [CHR 0x00])))
     (\<lambda>h. Inr (''sha256:'' @ hasher_hexdigest h))"

definition deterministic_continue :: "string \<Rightarrow> string \<Rightarrow> string" where
  "deterministic_continue prompt artifact_hash =
     (let digest = hexdigest (sha256 (utf8_encode (prompt @ [CHR 0x0A] @ artifact_hash)))
      in ''Deterministic continuation: report verified with digest '' @ take 16 digest @ ''.'')"

section \<open>The deterministic embedding\<close>

text \<open>Binary64 arithmetic on the non-negative values that occur; a sum of \<open>n\<close> terms below one
  cannot overflow for any text shorter than \<open>2^1000\<close> bytes. The square root is the correctly
  rounded one.\<close>

definition rfl :: "rat \<Rightarrow> rat" where
  "rfl x = (case rnd x of Fin r \<Rightarrow> r | _ \<Rightarrow> 0)"

definition flit :: "rat \<Rightarrow> json" where
  "flit x = JFloat (Fin (rfl x))"

fun isqrt :: "nat \<Rightarrow> nat" where
  "isqrt n = (if n = 0 then 0
     else let r = 2 * isqrt (n div 4) in if (r + 1) ^ 2 \<le> n then r + 1 else r)"

declare isqrt.simps [simp del]

definition fsqrt :: "rat \<Rightarrow> rat" where
  "fsqrt x =
     (if x \<le> 0 then 0
      else let u = flog2 x div 2 - 52; y = x / pow2 (2 * u); m = isqrt (nat (floor y));
               c = (of_nat m + 1 / 2) ^ 2
           in of_nat (if c < y \<or> (c = y \<and> odd m) then m + 1 else m) * pow2 u)"

definition round8 :: "rat \<Rightarrow> rat" where
  "round8 x = rfl (of_int (round_half_even (x * 100000000)) / 100000000)"

definition fsum :: "rat list \<Rightarrow> rat" where
  "fsum xs = foldl (\<lambda>a x. rfl (a + x)) 0 xs"

definition add_byte :: "nat \<Rightarrow> nat \<times> char \<Rightarrow> rat list \<Rightarrow> rat list" where
  "add_byte dm = (\<lambda>(i, b) buckets.
     buckets[i mod dm := rfl (buckets ! (i mod dm) + rfl (of_nat (of_char b mod 31) / 31))])"

definition deterministic_embedding :: "string \<Rightarrow> rat list" where
  "deterministic_embedding txt =
     (let buckets = fold (add_byte EMBEDDING_DIM) (enum_from 0 (utf8_encode txt)) (replicate EMBEDDING_DIM 0);
          magnitude = fsqrt (fsum (map (\<lambda>v. rfl (v * v)) buckets))
      in if magnitude = 0 then buckets
         else map (\<lambda>v. round8 (rfl (v / magnitude))) buckets)"

definition embedding_json :: "rat list \<Rightarrow> json" where
  "embedding_json v = JList (map (\<lambda>x. JFloat (Fin x)) v)"

definition embedding_hash :: "rat list \<Rightarrow> string" where
  "embedding_hash v = sha256_json (embedding_json (map round8 v))"

definition cosine_similarity :: "rat list \<Rightarrow> rat list \<Rightarrow> rat" where
  "cosine_similarity l r = fsum (map (\<lambda>(a, b). rfl (a * b)) (zip l r))"

section \<open>Prompts\<close>

text \<open>All lines are built first; joining then needs every line to be a string.\<close>

definition message_lines :: "json \<Rightarrow> json list res" where
  "message_lines m =
     bindR (py_item m ''role'') (\<lambda>role.
     bindR (py_item m ''content'') (\<lambda>content.
       Inr [JStr (''<'' @ py_str role @ ''>''), content, JStr (''</'' @ py_str role @ ''>'')]))"

definition reconstruct_prompt_from_messages :: "json list \<Rightarrow> string res" where
  "reconstruct_prompt_from_messages msgs =
     bindR (mapR message_lines msgs) (\<lambda>ls.
     bindR (mapR as_str (concat ls)) (\<lambda>ss. Inr (join [CHR 0x0A] ss @ [CHR 0x0A])))"

definition graph_messages :: "json \<Rightarrow> json list res" where
  "graph_messages graph =
     bindR (py_item graph ''nodes'') (\<lambda>nodes.
     bindR (py_iter nodes) (\<lambda>ns.
     bindR (mapR (\<lambda>node.
         bindR (py_get node ''type'') (\<lambda>t.
           if py_eq t (JStr ''message'') then
             bindR (py_item node ''role'') (\<lambda>role.
             bindR (py_item node ''content'') (\<lambda>content.
               Inr [JObj [(''role'', role), (''content'', content)]]))
           else Inr [])) ns)
       (\<lambda>mss. Inr (concat mss))))"

definition reconstruct_prompt :: "json \<Rightarrow> string res" where
  "reconstruct_prompt graph = bindR (graph_messages graph) reconstruct_prompt_from_messages"

section \<open>Nodes\<close>

definition provenance :: json where
  "provenance = JObj [(''runtime'', JStr RUNTIME_ID), (''captured_at'', JStr CREATED_AT),
     (''adapter'', JStr ''local_agent.py'')]"

definition base_node :: "string \<Rightarrow> string \<Rightarrow> obj \<Rightarrow> json" where
  "base_node node_id node_type payload =
     JObj (dict_update
       [(''id'', JStr node_id), (''type'', JStr node_type), (''created_at'', JStr CREATED_AT),
        (''content_hash'', JStr (sha256_json (JObj payload))), (''provenance'', provenance)]
       payload)"

definition node_meta_keys :: "string list" where
  "node_meta_keys = [''id'', ''type'', ''created_at'', ''content_hash'', ''provenance'']"

definition node_content_payload :: "obj \<Rightarrow> obj" where
  "node_content_payload node = filter (\<lambda>(k, v). k \<notin> set node_meta_keys) node"

definition refresh_node_content_hash :: "obj \<Rightarrow> obj" where
  "refresh_node_content_hash node =
     dict_set ''content_hash'' (JStr (sha256_json (JObj (node_content_payload node)))) node"

definition build_artifact_record_from_bytes ::
    "string \<Rightarrow> bytes \<Rightarrow> artifact_export_policy \<Rightarrow> artifact_record" where
  "build_artifact_record_from_bytes path data policy =
     (let artifact_hash = sha256_bytes data; disp = disposition_for policy path
      in \<lparr>ar_path = path, content_hash = artifact_hash, size_bytes = int (length data),
          media_type = ''application/json'', disposition = disp,
          blob_path = (if disp = ''packaged'' then Some (content_addressed_blob_path artifact_hash path) else None),
          restore_policy = (if disp = ''packaged'' then ''required'' else ''external_rebind''),
          target_path = path,
          rebind_required = (disp \<noteq> ''packaged'')\<rparr>)"

definition build_artifact_record :: "local_session \<Rightarrow> artifact_export_policy \<Rightarrow> artifact_record" where
  "build_artifact_record session policy =
     build_artifact_record_from_bytes (artifact_path session) (artifact_bytes session) policy"

text \<open>\<open>[node for node in graph.get("nodes", []) if node.get("type") == kind]\<close>.\<close>

definition nodes_of_type :: "string \<Rightarrow> json \<Rightarrow> json list res" where
  "nodes_of_type kind graph =
     bindR (py_get_or graph ''nodes'' (JList [])) (\<lambda>nodes.
     bindR (py_iter nodes)
       (filterR (\<lambda>node. bindR (py_get node ''type'') (\<lambda>t. Inr (py_eq t (JStr kind))))))"

definition tool_call_nodes :: "json \<Rightarrow> json list res" where
  "tool_call_nodes graph = nodes_of_type ''tool_call'' graph"

definition memory_nodes :: "json \<Rightarrow> json list res" where
  "memory_nodes graph = nodes_of_type ''memory'' graph"

definition retrieval_nodes :: "json \<Rightarrow> json list res" where
  "retrieval_nodes graph = nodes_of_type ''retrieval'' graph"

definition credential_ref_nodes :: "json \<Rightarrow> json list res" where
  "credential_ref_nodes graph = nodes_of_type ''credential_ref'' graph"

definition artifact_nodes :: "json \<Rightarrow> json list res" where
  "artifact_nodes graph = nodes_of_type ''artifact'' graph"

section \<open>Streaming equals hashing the whole file\<close>

lemma hash_stream_eq: "0 < n \<Longrightarrow> hash_stream n rest h sz = (h @ rest, sz + int (length rest))"
proof (induction n rest h sz rule: hash_stream.induct)
  case (1 n rest h sz)
  show ?case
  proof (cases "rest = []")
    case True
    then show ?thesis by (subst hash_stream.simps) simp
  next
    case False
    with "1.prems" have "take n rest \<noteq> []" by simp
    then show ?thesis
      using "1.IH" [OF refl _ "1.prems"] by (subst hash_stream.simps) (simp add: hasher_update_def Let_def)
  qed
qed

lemma copy_stream_eq:
  "0 < n \<Longrightarrow> copy_stream n rest h sz out = (h @ rest, sz + int (length rest), out @ rest)"
proof (induction n rest h sz out rule: copy_stream.induct)
  case (1 n rest h sz out)
  show ?case
  proof (cases "rest = []")
    case True
    then show ?thesis by (subst copy_stream.simps) simp
  next
    case False
    with "1.prems" have "take n rest \<noteq> []" by simp
    then show ?thesis
      using "1.IH" [OF refl _ "1.prems"] by (subst copy_stream.simps) (simp add: hasher_update_def Let_def)
  qed
qed

lemma STREAM_CHUNK_SIZE_pos [simp]: "0 < STREAM_CHUNK_SIZE"
  by (simp add: STREAM_CHUNK_SIZE_def)

lemma file_sha256_and_size_eq:
  "file_sha256_and_size p s =
     (case read_bytes s p of Inl e \<Rightarrow> (Inl e, s) | Inr b \<Rightarrow> (Inr (sha256_bytes b, int (length b)), s))"
  by (simp add: file_sha256_and_size_def read_file_def bindIO_def hash_stream_eq hasher_new_def
      hasher_hexdigest_def sha256_bytes_def split: sum.split)

lemma file_sha256_and_size_state: "snd (file_sha256_and_size p s) = s"
  by (simp add: file_sha256_and_size_eq split: sum.split)

lemma copy_file_ok:
  assumes "copy_file_streaming_with_hash source target s = (Inr (h, n), s')" and "source \<noteq> target"
  shows "\<exists>b. read_bytes s source = Inr b \<and> read_bytes s' target = Inr b \<and> h = sha256_bytes b \<and> n = int (length b)"
    and "q \<noteq> target \<Longrightarrow> read_bytes s q = Inr c \<Longrightarrow> read_bytes s' q = Inr c"
    and "q \<noteq> target \<Longrightarrow> read_bytes s' q = Inr c \<Longrightarrow> read_bytes s q = Inr c"
proof -
  obtain t1 t2 b0 b where t1: "make_dirs (path_prefixes (path_parent target)) s = (Inr (), t1)"
    and b0: "read_bytes t1 source = Inr b0"
    and t2: "write_bytes target [] t1 = (Inr (), t2)"
    and b: "read_bytes t2 source = Inr b"
    and s': "write_bytes target b t2 = (Inr (), s')"
    and r: "h = sha256_bytes b" "n = int (length b)"
    using assms(1)
    by (auto simp: copy_file_streaming_with_hash_def mkdir_parents_def read_file_def bindIO_eq_Inr
        copy_stream_eq hasher_new_def hasher_hexdigest_def sha256_bytes_def)
  note w2 = write_bytes_ok [OF t2] and w' = write_bytes_ok [OF s']
  have "b0 = b" using b0 b w2 assms(2) by (simp add: read_bytes_iff node_at_update)
  have src: "read_bytes s source = Inr b"
    using b0 make_dirs_node [OF t1, of source] by (auto simp: read_bytes_iff \<open>b0 = b\<close> split: if_splits)
  moreover have "read_bytes s' target = Inr b" using w' by (simp add: read_bytes_iff node_at_update)
  ultimately show "\<exists>b. read_bytes s source = Inr b \<and> read_bytes s' target = Inr b \<and> h = sha256_bytes b \<and> n = int (length b)"
    using r by blast
  show "q \<noteq> target \<Longrightarrow> read_bytes s q = Inr c \<Longrightarrow> read_bytes s' q = Inr c"
    and "q \<noteq> target \<Longrightarrow> read_bytes s' q = Inr c \<Longrightarrow> read_bytes s q = Inr c"
    using w2 w' make_dirs_ok [OF t1, of q]
    by (auto simp: read_bytes_iff node_at_update split: if_splits)
qed

section \<open>Files holding JSON\<close>

lemma read_json_write_json:
  assumes "write_json p v s = (Inr u, s')" and "wf_json v"
  shows "read_json p s' = (Inr (sort_keys v), s')"
proof -
  have "read_bytes s' p = Inr (utf8_encode (dumps_pretty v @ [CHR 0x0A]))"
    using assms(1) unfolding write_json_def by (cases u) (rule fs_store.read_written, simp)
  then show ?thesis
    using assms(2) by (simp add: read_json_def read_file_def bindIO_def loads_pretty)
qed

lemma read_json_state: "read_json p s = (r, s') \<Longrightarrow> s' = s"
  by (auto simp: read_json_def read_file_def bindIO_def split: sum.splits)

section \<open>Safe paths stay inside\<close>

lemma safe_relative_path_ok:
  assumes "safe_relative_path v label = Inr p"
  shows "\<exists>s. v = JStr s \<and> p = Path s" and "anchor p = []" and "''..'' \<notin> set (parts p)"
    and "parts p \<noteq> []" and "parts_ok (parts p)" and "below d (path_join d p)"
  using assms
  by (auto simp: safe_relative_path_def bindR_eq_Inr as_str_eq_Inr Let_def is_absolute_def below_join
      split: if_splits)

lemma path_allowed_by_prefix_ok:
  "path_allowed_by_prefix v = Inr True \<Longrightarrow>
   \<exists>p r. safe_workspace_relative_path v = Inr p \<and> as_posix p = ''reports/'' @ r"
  by (auto simp: path_allowed_by_prefix_def bindR_eq_Inr ALLOWED_ARTIFACT_PATH_PREFIXES_def starts_with_iff)

section \<open>What a digest binds\<close>

definition sha_collision :: "bytes \<Rightarrow> bytes \<Rightarrow> bool" where
  "sha_collision a b \<longleftrightarrow> a \<noteq> b \<and> sha256 a = sha256 b"

lemma hex_digit_inj: "d < 16 \<Longrightarrow> e < 16 \<Longrightarrow> hex_digit d = hex_digit e \<Longrightarrow> d = e"
  by (metis hex_val_hex_digit option.inject)

lemma hex2_inj:
  assumes "m < 256" and "n < 256" and "hex2 m = hex2 n"
  shows "m = n"
proof -
  have lt: "m div 16 < 16" "n div 16 < 16" using assms by auto
  have "hex_digit (m div 16 mod 16) = hex_digit (n div 16 mod 16)" "hex_digit (m mod 16) = hex_digit (n mod 16)"
    using assms(3) by (simp_all add: hex2_def)
  then have "m div 16 mod 16 = n div 16 mod 16" "m mod 16 = n mod 16"
    by (auto intro: hex_digit_inj)
  then show ?thesis using lt by (metis div_mult_mod_eq mod_less)
qed

lemma hexdigest_inj: "hexdigest a = hexdigest b \<Longrightarrow> a = b"
proof (induction a arbitrary: b)
  case Nil
  then show ?case by (cases b) (auto simp: hexdigest_def hex2_def)
next
  case (Cons x a)
  then obtain y b' where b: "b = y # b'" by (cases b) (auto simp: hexdigest_def hex2_def)
  with Cons.prems have "hex2 (of_char x) = hex2 (of_char y)" "hexdigest a = hexdigest b'"
    by (auto simp: hexdigest_def hex2_def)
  then show ?case using Cons.IH b hex2_inj [of "of_char x" "of_char y"] by simp
qed

lemma sha256_bytes_eq_iff: "sha256_bytes a = sha256_bytes b \<longleftrightarrow> sha256 a = sha256 b"
  by (auto simp: sha256_bytes_def dest: hexdigest_inj)

text \<open>An encoding that determines the value up to \<open>norm\<close>: equal digests mean equal values, or
  exhibit a SHA-256 collision.\<close>

locale digest_binding =
  fixes valid :: "'a \<Rightarrow> bool" and enc :: "'a \<Rightarrow> bytes" and norm :: "'a \<Rightarrow> 'b"
  assumes enc_determines: "valid x \<Longrightarrow> valid y \<Longrightarrow> enc x = enc y \<Longrightarrow> norm x = norm y"
    and enc_norm: "valid x \<Longrightarrow> valid y \<Longrightarrow> norm x = norm y \<Longrightarrow> enc x = enc y"
begin

lemma digest_binds:
  assumes "valid x" and "valid y" and "sha256_bytes (enc x) = sha256_bytes (enc y)"
  shows "norm x = norm y \<or> sha_collision (enc x) (enc y)"
  using assms(3) enc_determines [OF assms(1,2)] unfolding sha256_bytes_eq_iff sha_collision_def by blast

lemma digest_invariant:
  "valid x \<Longrightarrow> valid y \<Longrightarrow> norm x = norm y \<Longrightarrow> sha256_bytes (enc x) = sha256_bytes (enc y)"
  using enc_norm by metis

end

interpretation json_digest: digest_binding wf_json "\<lambda>v. utf8_encode (dumps_canonical v)" sort_keys
proof unfold_locales
  fix v w
  assume vw: "wf_json v" "wf_json w"
  show "utf8_encode (dumps_canonical v) = utf8_encode (dumps_canonical w) \<Longrightarrow> sort_keys v = sort_keys w"
    by (drule utf8_encode_inj) (simp only: dumps_canonical_eq_iff [OF vw])
  show "sort_keys v = sort_keys w \<Longrightarrow> utf8_encode (dumps_canonical v) = utf8_encode (dumps_canonical w)"
    by (simp only: dumps_canonical_eq_iff [OF vw, symmetric])
qed

lemma sha256_json_binds:
  "wf_json v \<Longrightarrow> wf_json w \<Longrightarrow> sha256_json v = sha256_json w \<Longrightarrow>
   sort_keys v = sort_keys w \<or> sha_collision (utf8_encode (dumps_canonical v)) (utf8_encode (dumps_canonical w))"
  unfolding sha256_json_def by (rule json_digest.digest_binds)

lemma sha256_json_sort_keys [simp]: "wf_json v \<Longrightarrow> sha256_json (sort_keys v) = sha256_json v"
  by (simp add: sha256_json_def)

section \<open>The canonical graph hash\<close>

lemma canonical_graph_hash_JObj [simp]:
  "canonical_graph_hash (JObj d) = Inr (sha256_json (JObj (dict_pop ''graph_hash'' d)))"
  by (simp add: canonical_graph_hash_def)

lemma canonical_graph_hash_eq_Inr:
  "canonical_graph_hash g = Inr h \<longleftrightarrow> (\<exists>d. g = JObj d \<and> h = sha256_json (JObj (dict_pop ''graph_hash'' d)))"
  by (cases g) (auto simp: canonical_graph_hash_def)

lemma wf_dict_pop: "wf_json (JObj d) \<Longrightarrow> wf_json (JObj (dict_pop k d))"
  by (auto simp: dict_pop_def list_all_iff dict_keys_ok_def distinct_map_filter)

lemma wf_dict_set: "wf_json (JObj d) \<Longrightarrow> wf_json v \<Longrightarrow> wf_json (JObj (dict_set k v d))"
  by (induction d) (auto simp: dict_keys_ok_def fst_set_dict_set image_iff)

lemma wf_dict_update:
  "wf_json (JObj d) \<Longrightarrow> list_all (\<lambda>(k, v). wf_json v) new \<Longrightarrow> wf_json (JObj (dict_update d new))"
  unfolding dict_update_def
  by (induction new arbitrary: d) (auto simp: wf_dict_set simp del: wf_json.simps)

lemma dict_pop_set_same [simp]: "dict_pop k (dict_set k v d) = dict_pop k d"
  by (induction d) (auto simp: dict_pop_def)

lemma sorted_obj_dict_pop: "sorted_obj (dict_pop k d) = dict_pop k (sorted_obj d)"
proof -
  have "(\<lambda>(k', v). k' \<noteq> k) \<circ> (\<lambda>(k, v). (k, sort_keys v)) = (\<lambda>(k', v). k' \<noteq> k)"
    by (auto simp: fun_eq_iff)
  then show ?thesis by (simp add: dict_pop_def sorted_obj_def filter_sort filter_map)
qed

text \<open>Writing the graph to a file (which sorts its keys) or setting its own hash field leaves the
  canonical hash unchanged.\<close>

lemma canonical_graph_hash_sort_keys:
  assumes "wf_json g"
  shows "canonical_graph_hash (sort_keys g) = canonical_graph_hash g"
proof (cases g)
  case (JObj d)
  have "wf_json (JObj (dict_pop ''graph_hash'' d))" using assms JObj wf_dict_pop by blast
  then show ?thesis
    using sha256_json_sort_keys [of "JObj (dict_pop ''graph_hash'' d)"]
    by (simp add: JObj sorted_obj_dict_pop del: sha256_json_sort_keys)
qed (auto simp: canonical_graph_hash_def)

lemma canonical_graph_hash_set_hash [simp]:
  "canonical_graph_hash (JObj (dict_set ''graph_hash'' v d)) = canonical_graph_hash (JObj d)"
  by simp

section \<open>Token hashes\<close>

lemma concat_fixed_width_inj:
  assumes "\<forall>x\<in>set xs \<union> set ys. length (f x) = n" and "0 < n" and "inj_on f (set xs \<union> set ys)"
    and "concat (map f xs) = concat (map f ys)"
  shows "xs = ys"
  using assms
proof (induction xs arbitrary: ys)
  case Nil
  then show ?case by (cases ys) auto
next
  case (Cons x xs)
  from Cons.prems obtain y ys' where ys: "ys = y # ys'" by (cases ys) auto
  have l: "length (f x) = length (f y)" using Cons.prems(1) ys by simp
  then have "f x = f y" and r: "concat (map f xs) = concat (map f ys')"
    using Cons.prems(4) ys by auto
  have "x = y" by (rule inj_onD [OF Cons.prems(3) \<open>f x = f y\<close>]) (simp_all add: ys)
  moreover have "xs = ys'"
    using Cons.prems ys r by (intro Cons.IH) (auto intro: inj_on_subset)
  ultimately show ?case by (simp add: ys)
qed

definition tokens_in_range :: "nat \<Rightarrow> int list \<Rightarrow> bool" where
  "tokens_in_range n ids \<longleftrightarrow> (\<forall>t\<in>set ids. 0 \<le> t \<and> t < 256 ^ n)"

definition token_bytes :: "nat \<Rightarrow> int list \<Rightarrow> bytes" where
  "token_bytes n ids = concat (map (\<lambda>t. be_bytes n (nat t)) ids)"

lemma be_bytes_inj_on: "inj_on (\<lambda>t. be_bytes n (nat t)) {t. 0 \<le> t \<and> t < 256 ^ n}"
proof (rule inj_onI)
  fix x y assume "x \<in> {t. 0 \<le> t \<and> t < 256 ^ n}" "y \<in> {t. 0 \<le> t \<and> t < 256 ^ n}"
    and "be_bytes n (nat x) = be_bytes n (nat y)"
  then show "x = y" using to_bytes_inj [of n x "be_bytes n (nat x)" y] by (simp add: to_bytes_def)
qed

lemma token_bytes_inj:
  assumes "0 < n" and "tokens_in_range n xs" and "tokens_in_range n ys" and "token_bytes n xs = token_bytes n ys"
  shows "xs = ys"
  using assms(4) unfolding token_bytes_def
  by (rule concat_fixed_width_inj [where n = n, rotated 3])
    (use assms in \<open>auto simp: tokens_in_range_def intro: inj_on_subset [OF be_bytes_inj_on]\<close>)

lemma fold_token_bytes:
  "tokens_in_range n ids \<Longrightarrow>
   foldR (\<lambda>t h. bindR (to_bytes n t) (\<lambda>b. Inr (hasher_update h b))) ids h = Inr (h @ token_bytes n ids)"
  by (induction ids arbitrary: h) (auto simp: tokens_in_range_def token_bytes_def to_bytes_def hasher_update_def)

lemma token_hash_eq: "tokens_in_range 2 ids \<Longrightarrow> token_hash ids = Inr (sha256_bytes (token_bytes 2 ids))"
  by (simp add: token_hash_def fold_token_bytes hasher_new_def hasher_hexdigest_def sha256_bytes_def)

lemma fold_token_bytes_range:
  "foldR (\<lambda>t h. bindR (to_bytes n t) (\<lambda>b. Inr (hasher_update h b))) ids h = Inr h' \<Longrightarrow> tokens_in_range n ids"
  by (induction ids arbitrary: h)
    (auto simp: tokens_in_range_def bindR_eq_Inr to_bytes_def split: if_splits)

lemma token_hash_eq_Inr:
  "token_hash ids = Inr h \<longleftrightarrow> tokens_in_range 2 ids \<and> h = sha256_bytes (token_bytes 2 ids)"
proof
  assume h: "token_hash ids = Inr h"
  then have "tokens_in_range 2 ids"
    by (auto simp: token_hash_def bindR_eq_Inr dest: fold_token_bytes_range)
  with h show "tokens_in_range 2 ids \<and> h = sha256_bytes (token_bytes 2 ids)" by (simp add: token_hash_eq)
qed (simp add: token_hash_eq)

interpretation token_digest: digest_binding "tokens_in_range 2" "token_bytes 2" "\<lambda>ids. ids"
  by unfold_locales (rule token_bytes_inj [of 2], simp_all)

lemma tokenize_in_range [simp]: "tokens_in_range 2 (tokenize_prompt p)"
proof -
  have "int (of_char b) < 65536" for b :: char
    using nat_of_char_less_256 [of b] by (simp del: nat_of_char_less_256)
  then show ?thesis by (auto simp: tokens_in_range_def tokenize_prompt_def)
qed

lemma tokenize_prompt_inj: "tokenize_prompt p = tokenize_prompt q \<Longrightarrow> p = q"
proof -
  have "inj (\<lambda>b. int (of_char b :: nat))" by (rule injI) simp
  then show "tokenize_prompt p = tokenize_prompt q \<Longrightarrow> p = q"
    by (auto simp: tokenize_prompt_def inj_map_eq_map intro: utf8_encode_inj)
qed

definition kv_bytes :: "int list \<Rightarrow> bytes" where
  "kv_bytes ids = (''permeant-local-kv-v0'' @ [CHR 0x00]) @
     concat (map (\<lambda>(i, t). be_bytes 4 i @ be_bytes 2 (nat t)) (enum_from 0 ids))"

lemma fold_kv_bytes:
  assumes "tokens_in_range 2 ids" and "k + length ids \<le> 256 ^ 4"
  shows "foldR (\<lambda>(i, t) h. bindR (to_bytes 4 (int i)) (\<lambda>p. bindR (to_bytes 2 t) (\<lambda>b.
           Inr (hasher_update (hasher_update h p) b)))) (enum_from k ids) h
         = Inr (h @ concat (map (\<lambda>(i, t). be_bytes 4 i @ be_bytes 2 (nat t)) (enum_from k ids)))"
  using assms
proof (induction ids arbitrary: k h)
  case (Cons t ids)
  have "tokens_in_range 2 ids" "0 \<le> t" "t < 65536"
    using Cons.prems(1) by (simp_all add: tokens_in_range_def)
  moreover have "int k < 4294967296" using Cons.prems(2) by simp
  ultimately show ?case
    using Cons.IH [of "Suc k"] Cons.prems(2) by (simp add: to_bytes_def hasher_update_def)
qed simp

lemma simulated_kv_hash_eq:
  "tokens_in_range 2 ids \<Longrightarrow> length ids \<le> 256 ^ 4 \<Longrightarrow> simulated_kv_hash ids = Inr (sha256_bytes (kv_bytes ids))"
  unfolding simulated_kv_hash_def
  by (subst fold_kv_bytes) (simp_all add: kv_bytes_def hasher_new_def hasher_update_def hasher_hexdigest_def sha256_bytes_def)

section \<open>Embeddings are lists of binary64 values\<close>

lemma is_double_rfl [simp]: "is_double (rfl x)"
  by (auto simp: rfl_def split: pyfloat.split dest: rnd_idem)

lemma wf_flit [simp]: "wf_json (flit x)"
  by (simp add: flit_def)

lemma is_double_round8 [simp]: "is_double (round8 x)"
  by (simp add: round8_def)

lemma add_byte_doubles: "list_all is_double bs \<Longrightarrow> list_all is_double (add_byte dm p bs)"
  by (auto simp: add_byte_def list_all_iff split: prod.split dest!: set_update_subset_insert [THEN subsetD])

lemma embedding_doubles: "list_all is_double (deterministic_embedding txt)"
proof -
  have "list_all is_double (fold (add_byte EMBEDDING_DIM) ps bs)" if "list_all is_double bs" for ps bs
    using that by (induction ps arbitrary: bs) (auto simp: add_byte_doubles)
  from this [of "replicate EMBEDDING_DIM 0"] show ?thesis
    by (auto simp: deterministic_embedding_def Let_def list_all_iff)
qed

lemma length_embedding [simp]: "length (deterministic_embedding txt) = EMBEDDING_DIM"
proof -
  have "length (add_byte dm p bs) = length bs" for dm p bs by (simp add: add_byte_def split: prod.split)
  then have "length (fold (add_byte dm) ps bs) = length bs" for dm ps bs
    by (induction ps arbitrary: bs) auto
  then show ?thesis by (simp add: deterministic_embedding_def Let_def)
qed

lemma wf_embedding_json: "list_all is_double v \<Longrightarrow> wf_json (embedding_json v)"
  by (auto simp: embedding_json_def list_all_iff)

section \<open>Copying, seen through the contents\<close>

lemma files_copy_frame:
  assumes "copy_file_streaming_with_hash source target s = (r, s')" and "q \<noteq> target"
  shows "files s' q = files s q"
  using assms
  by (auto simp: copy_file_streaming_with_hash_def mkdir_parents_def read_file_def bindIO_def copy_stream_eq
      split: prod.splits sum.splits if_splits dest!: files_make_dirs files_write_bytes)

lemma files_copy:
  assumes "copy_file_streaming_with_hash source target s = (Inr (h, n), s')" and "source \<noteq> target"
  shows "\<exists>b. files s source = Some b \<and> files s' = (files s)(target \<mapsto> b) \<and> h = sha256_bytes b \<and> n = int (length b)"
proof -
  obtain b where b: "read_bytes s source = Inr b" "read_bytes s' target = Inr b" "h = sha256_bytes b" "n = int (length b)"
    using copy_file_ok(1) [OF assms] by blast
  then have "files s' q = ((files s)(target \<mapsto> b)) q" for q
    using files_copy_frame [OF assms(1), of q] by (cases "q = target") (auto simp: files_eq_Some)
  with b show ?thesis by (auto simp: files_eq_Some)
qed

section \<open>Values that certify themselves\<close>

text \<open>\<open>graph["graph_hash"] = canonical_graph_hash(graph)\<close>.\<close>

definition hash_graph :: "obj \<Rightarrow> obj" where
  "hash_graph d = dict_set ''graph_hash'' (JStr (sha256_json (JObj (dict_pop ''graph_hash'' d)))) d"

definition graph_hash_valid :: "json \<Rightarrow> bool" where
  "graph_hash_valid g \<longleftrightarrow>
     (\<exists>d h. g = JObj d \<and> canonical_graph_hash g = Inr h \<and> map_of d ''graph_hash'' = Some (JStr h))"

lemma hash_graph_valid: "graph_hash_valid (JObj (hash_graph d))"
  by (simp add: graph_hash_valid_def hash_graph_def)

text \<open>A dictionary sealed with a digest of itself, and the check of the seal. The contract: sealing
  establishes the check, and the check does not depend on key order. Then a sealed value written to
  disk as JSON checks when it is read back.\<close>

locale self_certifying =
  fixes seal :: "obj \<Rightarrow> obj" and check :: "json \<Rightarrow> bool"
  assumes seal_wf: "wf_json (JObj d) \<Longrightarrow> wf_json (JObj (seal d))"
    and seal_checks: "wf_json (JObj d) \<Longrightarrow> check (JObj (seal d))"
    and check_sorted: "wf_json (JObj d) \<Longrightarrow> check (JObj (sorted_obj d)) = check (JObj d)"
begin

lemma survives_disk:
  assumes "write_json p (JObj (seal d)) s = (Inr u, s')" and "wf_json (JObj d)"
  shows "read_json p s' = (Inr (JObj (sorted_obj (seal d))), s')" and "check (JObj (sorted_obj (seal d)))"
  using read_json_write_json [OF assms(1) seal_wf [OF assms(2)]] check_sorted [OF seal_wf [OF assms(2)]]
    seal_checks [OF assms(2)] by simp_all

end

interpretation hashed_graph: self_certifying hash_graph graph_hash_valid
proof unfold_locales
  fix d assume wf: "wf_json (JObj d)"
  then show "wf_json (JObj (hash_graph d))" unfolding hash_graph_def by (intro wf_dict_set) simp_all
  show "graph_hash_valid (JObj (hash_graph d))" by (rule hash_graph_valid)
  show "graph_hash_valid (JObj (sorted_obj d)) = graph_hash_valid (JObj d)"
    using canonical_graph_hash_sort_keys [OF wf] map_of_sorted_obj [OF wf]
    by (auto simp: graph_hash_valid_def simp del: canonical_graph_hash_JObj)
qed

section \<open>What json.loads returns is a Python value\<close>

lemma token_float_double: "token_float neg t = Fin r \<Longrightarrow> is_double r"
  by (cases t)
    (auto simp: token_float_def float_of_decimal_def Let_def fneg_def dest!: rnd_idem
      intro: rnd_idem is_double_minus split: if_splits pyfloat.splits)

lemma scan_scalar_wf: "scan_scalar s = Inr (v, r) \<Longrightarrow> wf_json v"
proof -
  have "wf_json (token_json neg t)" for neg t
    using token_float_double [of neg t] by (cases "token_float neg t") (auto simp: token_json_def)
  then show "scan_scalar s = Inr (v, r) \<Longrightarrow> wf_json v"
    by (auto simp: scan_scalar_def scan_number_def split: if_splits option.splits list.splits)
qed

lemma scan_elements_parts:
  assumes "scan_elements (Suc n) s = Inr (vs, r)"
  obtains v q where "scan_value n s = Inr (v, q)" "vs = [v]"
    | v q us q' where "scan_value n s = Inr (v, q)" "scan_elements n q' = Inr (us, r)" "vs = v # us"
proof -
  from assms obtain v q where v: "scan_value n s = Inr (v, q)" by (auto simp: scan_elements.simps bindR_eq_Inr)
  with assms that show thesis
    by (cases "skip_ws q") (auto simp: scan_elements.simps bindR_eq_Inr split: if_splits)
qed

lemma scan_members_parts:
  assumes "scan_members (Suc n) s = Inr (ms, r)"
  obtains k v q p where "scan_value n p = Inr (v, q)" "ms = [(k, v)]"
    | k v q p us q' where "scan_value n p = Inr (v, q)" "scan_members n q' = Inr (us, r)" "ms = (k, v) # us"
proof -
  from assms obtain c cs k q where s: "s = c # cs" "c = CHR 0x22" "scan_str cs = Inr (k, q)"
    by (cases s) (auto simp: scan_members.simps bindR_eq_Inr split: if_splits)
  from assms s obtain d q' where d: "skip_ws q = d # q'" "d = CHR '':''"
    by (cases "skip_ws q") (auto simp: scan_members.simps bindR_eq_Inr split: if_splits)
  from assms s d obtain v t where v: "scan_value n (skip_ws q') = Inr (v, t)"
    by (auto simp: scan_members.simps bindR_eq_Inr)
  with assms s d that show thesis
    by (cases "skip_ws t") (auto simp: scan_members.simps bindR_eq_Inr split: if_splits)
qed

lemma scan_wf:
  "scan_value n s = Inr (v, r) \<Longrightarrow> wf_json v"
  "scan_elements n s = Inr (vs, r) \<Longrightarrow> list_all wf_json vs"
  "scan_members n s = Inr (ms, r) \<Longrightarrow> list_all (\<lambda>(k, v). wf_json v) ms"
proof (induction n arbitrary: s v vs ms r)
  case (Suc n)
  have nil: "wf_json (JObj [])" by (simp add: dict_keys_ok_def)
  { case 1
    then show ?case
      using nil Suc.IH(2) Suc.IH(3) wf_dict_update [of "[]"]
      by (auto simp: scan_value.simps bindR_eq_Inr dict_keys_ok_def split: list.splits if_splits dest: scan_scalar_wf simp del: wf_json.simps(2))
  next
    case 2
    then show ?case by (cases rule: scan_elements_parts) (auto dest: Suc.IH(1) Suc.IH(2))
  next
    case 3
    then show ?case by (cases rule: scan_members_parts) (auto dest: Suc.IH(1) Suc.IH(3)) }
qed simp_all

lemma loads_wf: "json_loads s = Inr v \<Longrightarrow> wf_json v"
  by (auto simp: json_loads_def bindR_eq_Inr split: if_splits dest: scan_wf(1))

lemma read_json_wf: "read_json p s = (Inr v, s') \<Longrightarrow> wf_json v"
  by (auto simp: read_json_def bindIO_eq_Inr bindR_eq_Inr dest: loads_wf)

end
