(* ===== verification/ToolReplay.thy ===== *)
theory ToolReplay
  imports GraphCore
begin

text \<open>
  Replay safety of tool calls (\<^verbatim>\<open>local_agent.py\<close>: \<open>audit_tool_replay_safety\<close>,
  \<open>reject_unsafe_tool_replay\<close>). The audit gives every tool-call node of a graph an action;
  the import refuses a graph with an unsafe entry. The abstract policy \<open>replay_decision\<close>
  states the decision as a table over the four fields; the code's chain of dictionary updates
  is shown to implement it.
\<close>

section \<open>The audit\<close>

text \<open>\<open>entry.update({"action": a, "safe_to_import": s, "reason": r})\<close>.\<close>

definition update_verdict :: "string \<Rightarrow> bool \<Rightarrow> string \<Rightarrow> obj \<Rightarrow> obj" where
  "update_verdict action safe reason entry =
     dict_update entry [(''action'', JStr action), (''safe_to_import'', JBool safe), (''reason'', JStr reason)]"

definition new_audit_entry :: "json \<Rightarrow> json \<Rightarrow> json \<Rightarrow> json \<Rightarrow> json \<Rightarrow> json \<Rightarrow> obj" where
  "new_audit_entry node_id name side_effect status resume_policy approval_state =
     [(''node_id'', node_id), (''name'', name), (''side_effect'', side_effect), (''status'', status),
      (''resume_policy'', resume_policy), (''approval_state'', approval_state),
      (''action'', JStr ''manual_review''), (''safe_to_import'', JBool True),
      (''reason'', JStr ''manual review required before tool resume'')]"

text \<open>The \<open>if status in ... elif ...\<close> chain.\<close>

definition classify_tool_call :: "json \<Rightarrow> json \<Rightarrow> json \<Rightarrow> obj \<Rightarrow> obj res" where
  "classify_tool_call side_effect status resume_policy entry =
     bindR (py_in_strs status [''completed'', ''cancelled'']) (\<lambda>finished.
     if finished then
       (let entry1 = update_verdict ''no_replay'' True
              (''tool call is '' @ py_str status @ '' and must not be replayed'') entry
        in bindR (py_in_strs side_effect [''external_write'', ''unknown'']) (\<lambda>writes.
           Inr (if writes \<and> py_eq resume_policy (JStr ''retry_safe'')
                then update_verdict ''reject'' False
                       ''completed side-effecting tool call cannot be marked retry_safe'' entry1
                else entry1)))
     else
       bindR (py_in_strs side_effect [''none'', ''read_only'']) (\<lambda>harmless.
       if harmless \<and> py_eq resume_policy (JStr ''retry_safe'') then
         Inr (update_verdict ''retry_allowed'' True
                ''pending non-mutating tool call is marked retry_safe'' entry)
       else
         bindR (py_in_strs side_effect [''external_write'', ''unknown'']) (\<lambda>writes.
         if writes then
           bindR (py_in_strs resume_policy MANUAL_RESUME_POLICIES) (\<lambda>manual.
           Inr (if manual
                then update_verdict
                       (if py_eq resume_policy (JStr ''ask_user'') then ''requires_user''
                        else py_str resume_policy @ ''_required'') True
                       ''side-effecting tool call requires explicit resume policy before activation'' entry
                else update_verdict ''reject'' False
                       ''pending side-effecting tool call is not safe to replay automatically'' entry))
         else
           bindR (py_in_strs status PENDING_TOOL_STATUSES) (\<lambda>pending.
           Inr (if pending
                then update_verdict ''manual_review'' True
                       ''pending tool call requires explicit operator review'' entry
                else entry)))))"

definition deny_unapproved :: "json \<Rightarrow> json \<Rightarrow> obj \<Rightarrow> obj res" where
  "deny_unapproved approval_state status entry =
     bindR (py_in_strs approval_state [''denied'', ''expired'']) (\<lambda>refused.
     if refused then
       bindR (py_in_strs status PENDING_TOOL_STATUSES) (\<lambda>pending.
       Inr (if pending
            then update_verdict ''reject'' False
                   (''pending tool call approval is '' @ py_str approval_state) entry
            else entry))
     else Inr entry)"

definition audit_tool_call :: "json \<Rightarrow> json \<Rightarrow> obj res" where
  "audit_tool_call graph node =
     bindR (py_get_or node ''side_effect'' (JStr ''unknown'')) (\<lambda>side_effect.
     bindR (py_get_or node ''status'' (JStr ''needs_user'')) (\<lambda>status.
     bindR (py_get_or graph ''policies'' (JObj [])) (\<lambda>policies.
     bindR (py_get_or policies ''default_replay_policy'' (JStr ''ask_user'')) (\<lambda>default_policy.
     bindR (py_get_or node ''resume_policy'' default_policy) (\<lambda>resume_policy.
     bindR (py_get_or node ''approval_state'' (JStr ''not_required'')) (\<lambda>approval_state.
     bindR (py_item node ''id'') (\<lambda>node_id.
     bindR (py_get node ''name'') (\<lambda>name.
     bindR (classify_tool_call side_effect status resume_policy
              (new_audit_entry node_id name side_effect status resume_policy approval_state))
       (deny_unapproved approval_state status)))))))))"

definition audit_tool_replay_safety :: "json \<Rightarrow> obj list res" where
  "audit_tool_replay_safety graph = bindR (tool_call_nodes graph) (mapR (audit_tool_call graph))"

definition entry_unsafe :: "obj \<Rightarrow> bool res" where
  "entry_unsafe entry = bindR (py_item (JObj entry) ''safe_to_import'') (\<lambda>s. Inr (\<not> truthy s))"

definition reject_unsafe_tool_replay :: "obj list \<Rightarrow> unit res" where
  "reject_unsafe_tool_replay audit =
     bindR (filterR entry_unsafe audit) (\<lambda>unsafe.
     if unsafe \<noteq> [] then
       bindR (mapR (\<lambda>entry.
           bindR (py_item (JObj entry) ''node_id'') (\<lambda>i.
           bindR (py_item (JObj entry) ''reason'') (\<lambda>r. Inr (py_str i @ '': '' @ py_str r)))) unsafe)
         (\<lambda>summary. Inl (ImportVerificationError (''unsafe tool replay policy: '' @ join '', '' summary)))
     else Inr ())"

section \<open>The policy the audit implements\<close>

datatype decision = NoReplay | RetryAllowed | RequiresUser | OperatorStep string | ManualReview | Reject

fun decision_action :: "decision \<Rightarrow> string" where
  "decision_action NoReplay = ''no_replay''"
| "decision_action RetryAllowed = ''retry_allowed''"
| "decision_action RequiresUser = ''requires_user''"
| "decision_action (OperatorStep p) = p @ ''_required''"
| "decision_action ManualReview = ''manual_review''"
| "decision_action Reject = ''reject''"

definition finished_status :: "json \<Rightarrow> bool" where
  "finished_status status \<longleftrightarrow> status \<in> {JStr ''completed'', JStr ''cancelled''}"

definition pending_status :: "json \<Rightarrow> bool" where
  "pending_status status \<longleftrightarrow> status \<in> JStr ` set PENDING_TOOL_STATUSES"

definition mutating :: "json \<Rightarrow> bool" where
  "mutating side_effect \<longleftrightarrow> side_effect \<in> {JStr ''external_write'', JStr ''unknown''}"

definition non_mutating :: "json \<Rightarrow> bool" where
  "non_mutating side_effect \<longleftrightarrow> side_effect \<in> {JStr ''none'', JStr ''read_only''}"

definition replay_decision :: "json \<Rightarrow> json \<Rightarrow> json \<Rightarrow> json \<Rightarrow> decision" where
  "replay_decision side_effect status resume_policy approval_state =
     (if approval_state \<in> {JStr ''denied'', JStr ''expired''} \<and> pending_status status then Reject
      else if finished_status status then
        (if mutating side_effect \<and> resume_policy = JStr ''retry_safe'' then Reject else NoReplay)
      else if non_mutating side_effect \<and> resume_policy = JStr ''retry_safe'' then RetryAllowed
      else if mutating side_effect then
        (case resume_policy of
           JStr p \<Rightarrow> if p = ''ask_user'' then RequiresUser
                     else if p \<in> {''rebind'', ''compensate''} then OperatorStep p else Reject
         | _ \<Rightarrow> Reject)
      else ManualReview)"

text \<open>The entry the audit produces carries the node's identity, the four fields, and the action
  and safety of the decision.\<close>

definition entry_decides :: "obj \<Rightarrow> decision \<Rightarrow> bool" where
  "entry_decides entry d \<longleftrightarrow>
     map_of entry ''action'' = Some (JStr (decision_action d)) \<and>
     map_of entry ''safe_to_import'' = Some (JBool (d \<noteq> Reject)) \<and>
     (\<exists>r. map_of entry ''reason'' = Some (JStr r))"

lemma map_of_update_verdict [simp]:
  "map_of (update_verdict a s r e) =
     (map_of e)(''action'' \<mapsto> JStr a, ''safe_to_import'' \<mapsto> JBool s, ''reason'' \<mapsto> JStr r)"
  by (simp add: update_verdict_def dict_update_def)

lemma membership_tests:
  "py_in_strs st [''completed'', ''cancelled''] = Inr b \<longleftrightarrow> hashable st \<and> b = finished_status st"
  "py_in_strs se [''external_write'', ''unknown''] = Inr b \<longleftrightarrow> hashable se \<and> b = mutating se"
  "py_in_strs se [''none'', ''read_only''] = Inr b \<longleftrightarrow> hashable se \<and> b = non_mutating se"
  "py_in_strs st PENDING_TOOL_STATUSES = Inr b \<longleftrightarrow> hashable st \<and> b = pending_status st"
  "py_in_strs rp MANUAL_RESUME_POLICIES = Inr b \<longleftrightarrow>
     hashable rp \<and> b = (rp \<in> {JStr ''ask_user'', JStr ''rebind'', JStr ''compensate''})"
  by (auto simp: py_in_strs_eq_Inr finished_status_def mutating_def non_mutating_def pending_status_def
      MANUAL_RESUME_POLICIES_def)

lemma non_mutating_excl: "non_mutating se \<Longrightarrow> \<not> mutating se"
  by (auto simp: non_mutating_def mutating_def)

text \<open>Where the chain returns, it has written the verdict of the decision; the entry is otherwise
  unchanged.\<close>

definition writes_verdict :: "obj \<Rightarrow> obj \<Rightarrow> decision \<Rightarrow> bool" where
  "writes_verdict e e' d \<longleftrightarrow>
     entry_decides e' d \<and> (\<forall>k. k \<notin> {''action'', ''safe_to_import'', ''reason''} \<longrightarrow> map_of e' k = map_of e k)"

lemma writes_verdictI:
  "a = decision_action d \<Longrightarrow> s = (d \<noteq> Reject) \<Longrightarrow> writes_verdict e (update_verdict a s r e) d"
  by (simp add: writes_verdict_def entry_decides_def)

lemma writes_verdict_trans: "writes_verdict e e1 d1 \<Longrightarrow> writes_verdict e1 e2 d2 \<Longrightarrow> writes_verdict e e2 d2"
  by (auto simp: writes_verdict_def)

lemma classify_finished:
  assumes "classify_tool_call se st rp e = Inr e'" and "finished_status st"
  shows "writes_verdict e e' (if mutating se \<and> rp = JStr ''retry_safe'' then Reject else NoReplay)"
proof -
  define r where "r = ''tool call is '' @ py_str st @ '' and must not be replayed''"
  have st: "py_in_strs st [''completed'', ''cancelled''] = Inr True"
    using assms by (auto simp: classify_tool_call_def bindR_eq_Inr membership_tests)
  then have "bindR (py_in_strs se [''external_write'', ''unknown'']) (\<lambda>writes.
      Inr (if writes \<and> rp = JStr ''retry_safe''
           then update_verdict ''reject'' False ''completed side-effecting tool call cannot be marked retry_safe''
                  (update_verdict ''no_replay'' True r e)
           else update_verdict ''no_replay'' True r e)) = Inr e'"
    using assms(1) unfolding classify_tool_call_def r_def Let_def
    by (simp only: st bindR_simps if_True py_eq_JStr)
  then have e': "e' = (if mutating se \<and> rp = JStr ''retry_safe''
           then update_verdict ''reject'' False ''completed side-effecting tool call cannot be marked retry_safe''
                  (update_verdict ''no_replay'' True r e)
           else update_verdict ''no_replay'' True r e)"
    by (auto simp: bindR_eq_Inr membership_tests)
  have n: "writes_verdict e (update_verdict ''no_replay'' True r e) NoReplay"
    by (rule writes_verdictI) simp_all
  moreover have "writes_verdict e (update_verdict ''reject'' False r' (update_verdict ''no_replay'' True r e)) Reject" for r'
    by (rule writes_verdict_trans [OF n writes_verdictI]) simp_all
  ultimately show ?thesis by (simp add: e')
qed

lemma classify_pending:
  assumes "classify_tool_call se st rp e = Inr e'" and "\<not> finished_status st"
    and "entry_decides e ManualReview"
  shows "writes_verdict e e' (replay_decision se st rp JNull)"
proof -
  have st: "py_in_strs st [''completed'', ''cancelled''] = Inr False"
    using assms by (auto simp: classify_tool_call_def bindR_eq_Inr membership_tests)
  have se: "py_in_strs se [''none'', ''read_only''] = Inr (non_mutating se)"
      "py_in_strs se [''external_write'', ''unknown''] = Inr (mutating se)"
    using assms(1) st by (auto simp: classify_tool_call_def bindR_eq_Inr membership_tests)
  consider (retry) "non_mutating se" "rp = JStr ''retry_safe''"
    | (mut) "\<not> (non_mutating se \<and> rp = JStr ''retry_safe'')" "mutating se"
    | (review) "\<not> (non_mutating se \<and> rp = JStr ''retry_safe'')" "\<not> mutating se"
    by blast
  then show ?thesis
  proof cases
    case retry
    then have "e' = update_verdict ''retry_allowed'' True ''pending non-mutating tool call is marked retry_safe'' e"
      using assms(1) by (simp add: classify_tool_call_def st se)
    with retry assms(2) show ?thesis
      by (simp add: replay_decision_def writes_verdictI)
  next
    case mut
    have rp: "py_in_strs rp MANUAL_RESUME_POLICIES = Inr (rp \<in> {JStr ''ask_user'', JStr ''rebind'', JStr ''compensate''})"
      using assms(1) mut by (auto simp: classify_tool_call_def st se bindR_eq_Inr membership_tests)
    have d: "replay_decision se st rp JNull =
        (case rp of JStr p \<Rightarrow> if p = ''ask_user'' then RequiresUser
                     else if p \<in> {''rebind'', ''compensate''} then OperatorStep p else Reject
         | _ \<Rightarrow> Reject)"
      using mut assms(2) by (auto simp: replay_decision_def)
    have e': "e' = (if rp \<in> {JStr ''ask_user'', JStr ''rebind'', JStr ''compensate''}
        then update_verdict (if rp = JStr ''ask_user'' then ''requires_user'' else py_str rp @ ''_required'') True
               ''side-effecting tool call requires explicit resume policy before activation'' e
        else update_verdict ''reject'' False
               ''pending side-effecting tool call is not safe to replay automatically'' e)"
      using assms(1) mut unfolding classify_tool_call_def
      by (simp only: st se rp bindR_simps if_True if_False py_eq_JStr simp_thms sum.inject)
    show ?thesis
    proof (cases "rp \<in> {JStr ''ask_user'', JStr ''rebind'', JStr ''compensate''}")
      case True
      then show ?thesis unfolding d e' by (auto intro!: writes_verdictI)
    next
      case False
      then have "replay_decision se st rp JNull = Reject" unfolding d by (cases rp) auto
      with False show ?thesis unfolding e' by (simp add: writes_verdictI)
    qed
  next
    case review
    then have "writes_verdict e e' ManualReview"
      using assms(1,3) by (auto simp: classify_tool_call_def st se bindR_eq_Inr membership_tests
          writes_verdict_def entry_decides_def split: if_splits)
    then show ?thesis using review assms(2) by (auto simp: replay_decision_def)
  qed
qed

lemma classify_refines:
  assumes "classify_tool_call se st rp e = Inr e'" and "entry_decides e ManualReview"
  shows "writes_verdict e e' (replay_decision se st rp JNull)"
proof (cases "finished_status st")
  case True
  then show ?thesis using classify_finished [OF assms(1)] by (simp add: replay_decision_def)
qed (rule classify_pending [OF assms(1) _ assms(2)])

lemma deny_refines:
  assumes "deny_unapproved ap st e = Inr e'" and "entry_decides e (replay_decision se st rp JNull)"
  shows "writes_verdict e e' (replay_decision se st rp ap)"
proof (cases "ap \<in> {JStr ''denied'', JStr ''expired''} \<and> pending_status st")
  case True
  then have "replay_decision se st rp ap = Reject" by (simp add: replay_decision_def)
  moreover have "e' = update_verdict ''reject'' False (''pending tool call approval is '' @ py_str ap) e"
    using True assms(1) by (auto simp: deny_unapproved_def bindR_eq_Inr membership_tests)
  ultimately show ?thesis by (simp add: writes_verdictI)
next
  case False
  with assms(1) have "e' = e"
    by (auto simp: deny_unapproved_def bindR_eq_Inr py_in_strs_eq_Inr pending_status_def split: if_splits)
  moreover have "replay_decision se st rp ap = replay_decision se st rp JNull"
    using False unfolding replay_decision_def by (simp only: if_False) simp
  ultimately show ?thesis using assms(2) by (simp add: writes_verdict_def)
qed

text \<open>The decision of one node, with the defaults of the source for absent fields.\<close>

definition resume_policy_of :: "obj \<Rightarrow> obj \<Rightarrow> json" where
  "resume_policy_of graph node =
     field_or node ''resume_policy''
       (field_or (case map_of graph ''policies'' of Some (JObj p) \<Rightarrow> p | _ \<Rightarrow> [])
         ''default_replay_policy'' (JStr ''ask_user''))"

definition node_decision :: "obj \<Rightarrow> obj \<Rightarrow> decision" where
  "node_decision graph node =
     replay_decision (field_or node ''side_effect'' (JStr ''unknown''))
       (field_or node ''status'' (JStr ''needs_user'')) (resume_policy_of graph node)
       (field_or node ''approval_state'' (JStr ''not_required''))"

lemma audit_tool_call_refines:
  assumes "audit_tool_call (JObj g) (JObj n) = Inr e"
  shows "entry_decides e (node_decision g n)" and "map_of e ''node_id'' = map_of n ''id''"
    and "map_of e ''name'' = Some (field_or n ''name'' JNull)" and "\<exists>v. map_of n ''id'' = Some v"
proof -
  define se st rp ap where "se = field_or n ''side_effect'' (JStr ''unknown'')"
    and "st = field_or n ''status'' (JStr ''needs_user'')" and "rp = resume_policy_of g n"
    and "ap = field_or n ''approval_state'' (JStr ''not_required'')"
  from assms obtain p where p: "field_or g ''policies'' (JObj []) = JObj p"
    by (auto simp: audit_tool_call_def bindR_eq_Inr py_get_or_eq_Inr field_or_def)
  then have rp: "field_or n ''resume_policy'' (field_or p ''default_replay_policy'' (JStr ''ask_user'')) = rp"
    unfolding rp_def resume_policy_of_def by (auto simp: field_or_def split: option.splits)
  from assms obtain nid e1 where nid: "map_of n ''id'' = Some nid"
    and c: "classify_tool_call se st rp (new_audit_entry nid (field_or n ''name'' JNull) se st rp ap) = Inr e1"
    and d: "deny_unapproved ap st e1 = Inr e"
    unfolding audit_tool_call_def py_get_or_field bindR_simps se_def [symmetric] st_def [symmetric]
      ap_def [symmetric] p rp bindR_eq_Inr py_item_eq_Inr by auto
  have w: "writes_verdict (new_audit_entry nid (field_or n ''name'' JNull) se st rp ap) e1 (replay_decision se st rp JNull)"
    by (rule classify_refines [OF c]) (simp add: entry_decides_def new_audit_entry_def)
  then have "writes_verdict e1 e (replay_decision se st rp ap)"
    by (intro deny_refines [OF d]) (simp add: writes_verdict_def)
  with w have "writes_verdict (new_audit_entry nid (field_or n ''name'' JNull) se st rp ap) e (replay_decision se st rp ap)"
    by (rule writes_verdict_trans)
  then show "entry_decides e (node_decision g n)" "map_of e ''node_id'' = map_of n ''id''"
    "map_of e ''name'' = Some (field_or n ''name'' JNull)"
    by (simp_all add: writes_verdict_def node_decision_def se_def st_def rp_def ap_def nid new_audit_entry_def)
  show "\<exists>v. map_of n ''id'' = Some v" using nid by blast
qed

section \<open>The audit of a graph\<close>

text \<open>C4: Where the audit returns, it has exactly one entry per tool-call node, in graph order, and
  the entry's action and safety flag are those of the abstract replay policy on the node's side
  effect, status, resume policy (own, or the graph's default) and approval state.\<close>

theorem audit_refines_policy:
  assumes "audit_tool_replay_safety (JObj g) = Inr audit"
  shows "\<exists>calls. tool_call_nodes (JObj g) = Inr (map JObj calls) \<and>
    list_all2 (\<lambda>n e. entry_decides e (node_decision g n) \<and> map_of e ''node_id'' = map_of n ''id'') calls audit"
proof -
  obtain ns where ns: "tool_call_nodes (JObj g) = Inr ns"
    and a: "list_all2 (\<lambda>n e. audit_tool_call (JObj g) n = Inr e) ns audit"
    using assms by (auto simp: audit_tool_replay_safety_def bindR_eq_Inr mapR_eq_Inr)
  define objs where "objs = map (\<lambda>n. case n of JObj m \<Rightarrow> m | _ \<Rightarrow> []) ns"
  have "ns = map JObj objs \<and>
      list_all2 (\<lambda>n e. entry_decides e (node_decision g n) \<and> map_of e ''node_id'' = map_of n ''id'') objs audit"
    using a unfolding objs_def
  proof (induction rule: list_all2_induct)
    case (Cons n ns e es)
    then obtain m where "n = JObj m" by (auto simp: audit_tool_call_def bindR_eq_Inr py_get_or_eq_Inr)
    with Cons audit_tool_call_refines(1,2) [of g m e] show ?case by simp
  qed simp
  with ns show ?thesis by blast
qed

lemma entry_unsafe_decides [simp]: "entry_decides e d \<Longrightarrow> entry_unsafe e = Inr (d = Reject)"
  by (auto simp: entry_unsafe_def entry_decides_def)

lemma filterR_decides:
  "list_all2 (\<lambda>n e. entry_decides e (f n) \<and> R n e) ns es \<Longrightarrow>
   \<exists>u. filterR entry_unsafe es = Inr u \<and> set u \<subseteq> set es \<and> (u = [] \<longleftrightarrow> (\<forall>n\<in>set ns. f n \<noteq> Reject))"
  by (induction rule: list_all2_induct) (auto split: if_splits)

text \<open>The summary of the unsafe entries can always be printed.\<close>

lemma summary_printable:
  "\<forall>e\<in>set u. (\<exists>i. map_of e ''node_id'' = Some i) \<and> (\<exists>r. map_of e ''reason'' = Some r) \<Longrightarrow>
   \<exists>ss. mapR (\<lambda>entry. bindR (py_item (JObj entry) ''node_id'') (\<lambda>i.
          bindR (py_item (JObj entry) ''reason'') (\<lambda>r. Inr (py_str i @ '': '' @ py_str r)))) u = Inr ss"
  by (induction u) auto

lemma replay_gate_decides:
  assumes "audit_tool_replay_safety (JObj g) = Inr audit" and "tool_call_nodes (JObj g) = Inr (map JObj calls)"
  shows "if \<forall>n\<in>set calls. node_decision g n \<noteq> Reject then reject_unsafe_tool_replay audit = Inr ()
         else \<exists>m. reject_unsafe_tool_replay audit = Inl (ImportVerificationError m)"
proof -
  have a: "list_all2 (\<lambda>n e. audit_tool_call (JObj g) n = Inr e) (map JObj calls) audit"
    using assms by (simp add: audit_tool_replay_safety_def mapR_eq_Inr)
  then have r: "list_all2 (\<lambda>n e. entry_decides e (node_decision g n) \<and>
      (\<exists>i. map_of e ''node_id'' = Some i)) calls audit"
    unfolding list_all2_map1 by (rule list_all2_mono) (use audit_tool_call_refines in fastforce)
  from filterR_decides [OF r] obtain u where u: "filterR entry_unsafe audit = Inr u" "set u \<subseteq> set audit"
    "u = [] \<longleftrightarrow> (\<forall>n\<in>set calls. node_decision g n \<noteq> Reject)" by blast
  have "\<forall>e\<in>set audit. (\<exists>i. map_of e ''node_id'' = Some i) \<and> (\<exists>r. map_of e ''reason'' = Some r)"
    using r by (induction rule: list_all2_induct) (auto simp: entry_decides_def)
  with u(2) obtain ss where "mapR (\<lambda>entry. bindR (py_item (JObj entry) ''node_id'') (\<lambda>i.
          bindR (py_item (JObj entry) ''reason'') (\<lambda>r. Inr (py_str i @ '': '' @ py_str r)))) u = Inr ss"
    using summary_printable [of u] by blast
  with u show ?thesis by (auto simp: reject_unsafe_tool_replay_def)
qed

text \<open>C5: The replay gate of the import. For a graph whose audit returns, the gate lets the import
  go on exactly when the abstract policy rejects no tool call of the graph; otherwise it raises
  \<open>ImportVerificationError\<close>, and no other exception.\<close>

theorem replay_gate:
  assumes "audit_tool_replay_safety (JObj g) = Inr audit" and "tool_call_nodes (JObj g) = Inr (map JObj calls)"
  shows "if \<forall>n\<in>set calls. node_decision g n \<noteq> Reject then reject_unsafe_tool_replay audit = Inr ()
         else \<exists>m. reject_unsafe_tool_replay audit = Inl (ImportVerificationError m)"
  by (rule replay_gate_decides [OF assms])

text \<open>What the policy forbids, read off the table: a mutating call (or one of unknown effect) is
  never marked for automatic retry, and a finished call is never replayed.\<close>

lemma retry_only_harmless:
  "node_decision g n = RetryAllowed \<Longrightarrow>
     non_mutating (field_or n ''side_effect'' (JStr ''unknown'')) \<and>
     \<not> finished_status (field_or n ''status'' (JStr ''needs_user'')) \<and>
     resume_policy_of g n = JStr ''retry_safe''"
  by (auto simp: node_decision_def replay_decision_def split: if_splits json.splits)

lemma finished_never_replayed:
  "finished_status (field_or n ''status'' (JStr ''needs_user'')) \<Longrightarrow> node_decision g n \<in> {NoReplay, Reject}"
  by (auto simp: node_decision_def replay_decision_def)

definition sample_calls_graph :: obj where
  "sample_calls_graph =
     [(''policies'', JObj [(''default_replay_policy'', JStr ''ask_user'')]),
      (''nodes'', JList
        [JObj [(''id'', JStr ''m1''), (''type'', JStr ''message'')],
         JObj [(''id'', JStr ''t1''), (''type'', JStr ''tool_call''), (''name'', JStr ''fs.write_file''),
               (''side_effect'', JStr ''external_write''), (''status'', JStr ''completed'')],
         JObj [(''id'', JStr ''t2''), (''type'', JStr ''tool_call''), (''side_effect'', JStr ''external_write''),
               (''status'', JStr ''in_progress''), (''resume_policy'', JStr ''retry_safe'')]])]"

definition sample_calls :: "obj list" where
  "sample_calls =
     [[(''id'', JStr ''t1''), (''type'', JStr ''tool_call''), (''name'', JStr ''fs.write_file''),
       (''side_effect'', JStr ''external_write''), (''status'', JStr ''completed'')],
      [(''id'', JStr ''t2''), (''type'', JStr ''tool_call''), (''side_effect'', JStr ''external_write''),
       (''status'', JStr ''in_progress''), (''resume_policy'', JStr ''retry_safe'')]]"

lemma sample_tool_calls: "tool_call_nodes (JObj sample_calls_graph) = Inr (map JObj sample_calls)"
  by (simp add: sample_calls_graph_def sample_calls_def tool_call_nodes_def nodes_of_type_def)

lemma sample_audit:
  "\<exists>e1 e2. audit_tool_replay_safety (JObj sample_calls_graph) = Inr [e1, e2] \<and>
    map_of e1 ''action'' = Some (JStr ''no_replay'') \<and> map_of e2 ''action'' = Some (JStr ''reject'')"
  by (simp add: audit_tool_replay_safety_def sample_tool_calls)
    (simp add: sample_calls_def sample_calls_graph_def audit_tool_call_def classify_tool_call_def
      deny_unapproved_def Let_def MANUAL_RESUME_POLICIES_def)

text \<open>Witness for C1 and C2: a completed write and an interrupted write marked retry_safe.\<close>

theorem audit_refines_policy_witness:
  "\<exists>audit calls. audit_tool_replay_safety (JObj sample_calls_graph) = Inr audit \<and>
    tool_call_nodes (JObj sample_calls_graph) = Inr (map JObj calls) \<and>
    list_all2 (\<lambda>n e. entry_decides e (node_decision sample_calls_graph n) \<and>
      map_of e ''node_id'' = map_of n ''id'') calls audit"
  using sample_audit audit_refines_policy by blast

theorem replay_gate_witness:
  "\<exists>audit m. audit_tool_replay_safety (JObj sample_calls_graph) = Inr audit \<and>
    reject_unsafe_tool_replay audit = Inl (ImportVerificationError m)"
proof -
  obtain audit where a: "audit_tool_replay_safety (JObj sample_calls_graph) = Inr audit"
    using sample_audit by blast
  have "\<not> (\<forall>n\<in>set sample_calls. node_decision sample_calls_graph n \<noteq> Reject)"
    by (simp add: sample_calls_def node_decision_def replay_decision_def resume_policy_of_def field_or_def
        finished_status_def mutating_def non_mutating_def)
  with replay_gate [OF a sample_tool_calls] a show ?thesis by auto
qed

end
