(* ===== verification/VectorMemory.thy ===== *)
theory VectorMemory
  imports GraphCore "HOL-Library.Product_Lexorder"
begin

text \<open>
  Vector memory (\<^verbatim>\<open>local_agent.py\<close>: \<open>build_vector_snapshot\<close>,
  \<open>validate_vector_memory\<close>, \<open>vector_retrieval_payload\<close>): the snapshot exported with a
  graph, its ranking, and its verification on import against a recomputed snapshot.
\<close>

section \<open>The snapshot\<close>

record vector_record =
  vr_node_id :: json
  vr_embedding :: "rat list"
  vr_text_hash :: json

definition vector_record_json :: "vector_record \<Rightarrow> json" where
  "vector_record_json r = JObj
     [(''node_id'', vr_node_id r), (''embedding'', embedding_json (vr_embedding r)),
      (''embedding_hash'', JStr (embedding_hash (vr_embedding r))), (''text_hash'', vr_text_hash r)]"

text \<open>\<open>" ".join(str(value) for value in [...] if value)\<close>.\<close>

definition memory_text :: "json \<Rightarrow> string res" where
  "memory_text node =
     bindR (mapR (py_get node) [''subject'', ''predicate'', ''object'']) (\<lambda>vs.
       Inr (join '' '' (map py_str (filter truthy vs))))"

definition memory_vector_record :: "json \<Rightarrow> vector_record list res" where
  "memory_vector_record node =
     bindR (py_get node ''embedding_model'') (\<lambda>m.
     if \<not> py_eq m (JStr EMBEDDING_MODEL) then Inr []
     else
       bindR (memory_text node) (\<lambda>txt.
       bindR (py_item node ''id'') (\<lambda>i.
       bindR (py_get node ''text_hash'') (\<lambda>th.
         Inr [\<lparr>vr_node_id = i, vr_embedding = deterministic_embedding txt, vr_text_hash = th\<rparr>]))))"

definition vector_records :: "json \<Rightarrow> vector_record list res" where
  "vector_records graph =
     bindR (memory_nodes graph) (\<lambda>ns. bindR (mapR memory_vector_record ns) (\<lambda>rs. Inr (concat rs)))"

definition scored :: "rat list \<Rightarrow> vector_record \<Rightarrow> json \<times> rat" where
  "scored q r = (vr_node_id r, round8 (cosine_similarity q (vr_embedding r)))"

text \<open>\<open>sorted(..., key=lambda item: (-item["score"], item["node_id"]))\<close>. Identifiers are
  compared as strings; a list of at least two results with another identifier is outside the
  model.\<close>

definition result_key :: "json \<times> rat \<Rightarrow> rat \<times> string" where
  "result_key p = (- snd p, case fst p of JStr s \<Rightarrow> s | _ \<Rightarrow> [])"

definition sort_results :: "(json \<times> rat) list \<Rightarrow> (json \<times> rat) list res" where
  "sort_results rs =
     (if length rs \<le> 1 \<or> list_all (is_str \<circ> fst) rs then Inr (sort_key result_key rs)
      else Inl (OutsideModel ''ordering node ids that are not strings''))"

definition ranked_results :: "(json \<times> rat) list \<Rightarrow> json" where
  "ranked_results rs =
     JList (map (\<lambda>(rank, i, score).
        JObj [(''node_id'', i), (''rank'', JInt (int rank)), (''score'', JFloat (Fin score))]) (enum_from 1 rs))"

record vector_snapshot =
  vs_query_text :: string
  vs_records :: "vector_record list"
  vs_expected_results :: json

definition compute_vector_snapshot :: "json \<Rightarrow> json \<Rightarrow> vector_snapshot res" where
  "compute_vector_snapshot graph query_text =
     (case query_text of
        JStr q \<Rightarrow>
          bindR (vector_records graph) (\<lambda>rs.
          bindR (sort_results (map (scored (deterministic_embedding q)) rs)) (\<lambda>results.
            Inr \<lparr>vs_query_text = q, vs_records = rs, vs_expected_results = ranked_results results\<rparr>))
      | v \<Rightarrow> Inl (no_attr v ''encode''))"

definition vector_snapshot_json :: "vector_snapshot \<Rightarrow> json" where
  "vector_snapshot_json s = JObj
     [(''mode'', JStr ''snapshot''), (''vector_store_ref'', JStr VECTOR_STORE_REF),
      (''embedding_model'', JStr EMBEDDING_MODEL), (''embedding_dim'', JInt (int EMBEDDING_DIM)),
      (''distance_metric'', JStr ''cosine''), (''query_text'', JStr (vs_query_text s)),
      (''query_hash'', JStr (sha256_bytes (utf8_encode (vs_query_text s)))),
      (''query_embedding_hash'', JStr (embedding_hash (deterministic_embedding (vs_query_text s)))),
      (''records'', JList (map vector_record_json (vs_records s))),
      (''expected_results'', vs_expected_results s)]"

definition build_vector_snapshot :: "json \<Rightarrow> json \<Rightarrow> json res" where
  "build_vector_snapshot graph query_text =
     bindR (compute_vector_snapshot graph query_text) (\<lambda>s. Inr (vector_snapshot_json s))"

section \<open>Verification\<close>

text \<open>A dictionary keyed by arbitrary hashable values: the last entry of an equal key.\<close>

definition keyed :: "('a \<Rightarrow> json res) \<Rightarrow> 'a list \<Rightarrow> (json \<times> 'a) list res" where
  "keyed f xs = mapR (\<lambda>x. bindR (f x) (\<lambda>k. if hashable k then Inr (k, x) else Inl (unhashable k))) xs"

definition keyed_get :: "(json \<times> 'a) list \<Rightarrow> json \<Rightarrow> 'a option res" where
  "keyed_get d k =
     (if hashable k then Inr (map_option snd (find (\<lambda>(k', _). py_eq k' k) (rev d))) else Inl (unhashable k))"

definition check_vector_record ::
    "(json \<times> vector_record) list \<Rightarrow> (json \<times> json) list \<Rightarrow> json \<Rightarrow> unit res" where
  "check_vector_record expected_records expected_memory_nodes rec =
     bindR (py_get rec ''node_id'') (\<lambda>rid.
     bindR (keyed_get expected_records rid) (\<lambda>er.
     case er of
       None \<Rightarrow> Inl (ImportVerificationError (''vector snapshot references unknown memory node: '' @ py_str rid))
     | Some e \<Rightarrow>
         bindR (py_item rec ''node_id'') (\<lambda>k.
         bindR (keyed_get expected_memory_nodes k) (\<lambda>mn.
         case mn of
           None \<Rightarrow> Inl (KeyError (py_str k))
         | Some m \<Rightarrow>
             bindR (py_get m ''embedding_hash'') (\<lambda>mh.
             if \<not> py_eq mh (JStr (embedding_hash (vr_embedding e)))
             then Inl (ImportVerificationError (''memory node embedding hash mismatch for '' @ py_str rid))
             else
               bindR (py_get rec ''embedding_hash'') (\<lambda>rh.
               if \<not> py_eq rh (JStr (embedding_hash (vr_embedding e)))
               then Inl (ImportVerificationError (''vector embedding hash mismatch for '' @ py_str rid))
               else Inr ()))))))"

definition retrieval_result :: "json \<Rightarrow> json res" where
  "retrieval_result r =
     bindR (py_item r ''node_id'') (\<lambda>i. bindR (py_item r ''rank'') (\<lambda>k. bindR (py_get r ''score'') (\<lambda>sc.
       Inr (JObj [(''node_id'', i), (''rank'', k), (''score'', sc)]))))"

definition check_retrieval :: "json \<Rightarrow> json \<Rightarrow> unit res" where
  "check_retrieval expected_results node =
     bindR (py_get node ''retrieval_kind'') (\<lambda>kind.
     if \<not> py_eq kind (JStr ''vector'') then Inr ()
     else
       bindR (py_get_or node ''results'' (JList [])) (\<lambda>rs.
       bindR (py_iter rs) (\<lambda>xs.
       bindR (mapR retrieval_result xs) (\<lambda>results.
       if \<not> py_eq (JList results) expected_results then
         bindR (py_item node ''id'') (\<lambda>i.
           Inl (ImportVerificationError (''retrieval node '' @ py_str i @ '' does not match vector snapshot results'')))
       else Inr ()))))"

definition verify_vector_snapshot :: "json \<Rightarrow> json \<Rightarrow> json res" where
  "verify_vector_snapshot graph vm =
     bindR (py_item vm ''query_text'') (\<lambda>q.
     bindR (compute_vector_snapshot graph q) (\<lambda>expected.
     bindR (memory_nodes graph) (\<lambda>ns.
     bindR (keyed (\<lambda>n. py_item n ''id'') ns) (\<lambda>expected_memory_nodes.
     bindR (keyed (\<lambda>r. Inr (vr_node_id r)) (vs_records expected)) (\<lambda>expected_records.
     bindR (py_get_or vm ''records'' (JList [])) (\<lambda>records.
     bindR (py_iter records) (\<lambda>recs.
     bindR (iterR (check_vector_record expected_records expected_memory_nodes) recs) (\<lambda>_.
     bindR (py_get vm ''expected_results'') (\<lambda>er.
     if \<not> py_eq er (vs_expected_results expected)
     then Inl (ImportVerificationError ''vector retrieval results mismatch'')
     else
       bindR (retrieval_nodes graph) (\<lambda>rns.
       bindR (iterR (check_retrieval (vs_expected_results expected)) rns) (\<lambda>_.
       bindR (mapR (\<lambda>k. bindR (py_item vm k) (\<lambda>v. Inr (k, v)))
           [''vector_store_ref'', ''embedding_model'', ''embedding_dim'', ''query_hash'', ''expected_results''])
         (\<lambda>fields. Inr (JObj ((''status'', JStr ''verified'') # fields))))))))))))))"

definition validate_vector_memory :: "json \<Rightarrow> json \<Rightarrow> json res" where
  "validate_vector_memory graph manifest =
     bindR (py_get manifest ''vector_memory'') (\<lambda>vm.
     if \<not> truthy vm then Inr (JObj [(''status'', JStr ''not_present'')])
     else
       bindR (py_get vm ''mode'') (\<lambda>mode.
       if py_eq mode (JStr ''external_rebind'') then
         bindR (py_get vm ''rebind_required'') (\<lambda>rr.
         if rr \<noteq> JBool True
         then Inl (ImportVerificationError ''external vector memory must be explicitly marked rebind_required'')
         else
           bindR (py_get vm ''vector_store_ref'') (\<lambda>vsr.
           bindR (py_get vm ''embedding_model'') (\<lambda>em.
             Inr (JObj [(''status'', JStr ''rebind_required''), (''vector_store_ref'', vsr), (''embedding_model'', em)]))))
       else if \<not> py_eq mode (JStr ''snapshot'')
       then Inl (ImportVerificationError (''unsupported vector memory mode: '' @ py_str mode))
       else
         bindR (py_get vm ''embedding_model'') (\<lambda>em.
         if \<not> py_eq em (JStr EMBEDDING_MODEL)
         then Inl (ImportVerificationError ''vector memory embedding model mismatch'')
         else
           bindR (py_get vm ''embedding_dim'') (\<lambda>ed.
           if \<not> py_eq ed (JInt (int EMBEDDING_DIM))
           then Inl (ImportVerificationError ''vector memory embedding dimension mismatch'')
           else
             bindR (py_get vm ''distance_metric'') (\<lambda>dmet.
             if \<not> py_eq dmet (JStr ''cosine'')
             then Inl (ImportVerificationError ''vector memory distance metric mismatch'')
             else verify_vector_snapshot graph vm)))))"

section \<open>The retrieval node of the reference session\<close>

definition vector_retrieval_payload :: "string \<Rightarrow> obj" where
  "vector_retrieval_payload query_text =
     (let memory_text = ''artifact:report status complete'';
          score = JFloat (Fin (round8 (cosine_similarity (deterministic_embedding query_text)
                    (deterministic_embedding memory_text))))
      in [(''actor_id'', JStr AGENT_ID), (''memory_scope'', JStr ''thread''), (''memory_tier'', JStr ''recall''),
          (''sensitivity'', JStr ''internal''), (''retention'', JStr ''session''),
          (''redaction_state'', JStr ''none''),
          (''query_hash'', JStr (sha256_bytes (utf8_encode query_text))),
          (''retrieval_kind'', JStr ''vector''), (''planner_profile'', JStr ''continuity_aware''),
          (''policy_profile'', JStr ''autonomous_agent''), (''scorer_kind'', JStr ''semantic''),
          (''selected_channels'', JList [JStr ''semantic'']),
          (''candidate_sources'', JList [JStr ''semantic_neighbor'']),
          (''planner_stages'', JList [JStr ''embed_query'', JStr ''score_snapshot'', JStr ''rank_results'']),
          (''graph_expansion_max_hops'', JInt 0), (''historical_mode'', JStr ''current_only''),
          (''results'', JList [JObj
            [(''node_id'', JStr ''memory:report-fact''), (''rank'', JInt 1), (''score'', score),
             (''score_kind'', JStr ''cosine''),
             (''score_breakdown'', JList [JObj
                [(''name'', JStr ''semantic''), (''value'', score), (''weight'', flit 1)]]),
             (''candidate_source'', JStr ''semantic_neighbor''),
             (''snippet_hash'', JStr (sha256_bytes (utf8_encode memory_text)))]]),
          (''selection_policy'', JStr ''top_vector_score'')])"

section \<open>The ranking\<close>

lemma sort_results_eq_Inr:
  "sort_results rs = Inr ss \<longleftrightarrow> ss = sort_key result_key rs \<and> (length rs \<le> 1 \<or> list_all (is_str \<circ> fst) rs)"
  by (auto simp: sort_results_def)

text \<open>Scores do not increase along the ranking; equal scores are ordered by identifier.\<close>

definition ranked :: "(json \<times> rat) list \<Rightarrow> bool" where
  "ranked rs \<longleftrightarrow> sorted_wrt (\<lambda>a b. snd b < snd a \<or> (snd a = snd b \<and> snd (result_key a) \<le> snd (result_key b))) rs"

lemma ranked_sort: "ranked (sort_key result_key rs)"
proof -
  have "sorted_wrt (\<lambda>a b. result_key a \<le> result_key b) (sort_key result_key rs)"
    using sorted_sort_key [of result_key rs] by (simp add: sorted_map)
  then show ?thesis
    unfolding ranked_def by (rule sorted_wrt_mono_rel [rotated]) (auto simp: result_key_def less_eq_prod_def)
qed

lemma py_eq_refl_list: "list_all (\<lambda>x. py_eq x x) xs \<Longrightarrow> py_eq_list xs xs"
  by (induction xs) auto

lemma py_eq_ranked:
  assumes "\<And>p. p \<in> set rs \<Longrightarrow> py_eq (fst p) (fst p)"
  shows "py_eq (ranked_results rs) (ranked_results rs)"
proof -
  have "py_eq i i" if "(k, i, sc) \<in> set (enum_from 1 rs)" for k i sc
    using assms [of "(i, sc)"] that by (auto simp: enum_from_def dest: set_zip_rightD)
  then show ?thesis unfolding ranked_results_def by (auto intro!: py_eq_refl_list simp: list_all_iff)
qed

text \<open>The exported ranking. The expected results of a snapshot are the scored records, each
  exactly once, numbered from one, in an order in which scores do not increase and ties are
  resolved by node identifier.\<close>

theorem snapshot_ranking:
  assumes "compute_vector_snapshot graph (JStr q) = Inr s"
  shows "\<exists>rs. vs_expected_results s = ranked_results rs \<and> ranked rs \<and>
    mset rs = mset (map (scored (deterministic_embedding q)) (vs_records s))"
proof -
  obtain rs where "s = \<lparr>vs_query_text = q, vs_records = rs, vs_expected_results =
      ranked_results (sort_key result_key (map (scored (deterministic_embedding q)) rs))\<rparr>"
    using assms by (auto simp: compute_vector_snapshot_def bindR_eq_Inr sort_results_eq_Inr)
  then show ?thesis using ranked_sort by (intro exI conjI) (rule refl | simp)+
qed

section \<open>What verification establishes\<close>

lemma keyed_eq_Inr:
  "keyed f xs = Inr d \<longleftrightarrow> list_all2 (\<lambda>x p. \<exists>k. f x = Inr k \<and> hashable k \<and> p = (k, x)) xs d"
  unfolding keyed_def mapR_eq_Inr
  by (rule arg_cong [where f = "\<lambda>P. list_all2 P xs d"]) (auto simp: bindR_eq_Inr fun_eq_iff)

lemma keyed_map: "keyed (\<lambda>x. Inr (h x)) xs = Inr d \<Longrightarrow> d = map (\<lambda>x. (h x, x)) xs"
  unfolding keyed_eq_Inr by (induction rule: list_all2_induct) auto

lemma keyed_get_Some: "keyed_get d k = Inr (Some x) \<Longrightarrow> \<exists>k'. (k', x) \<in> set d \<and> py_eq k' k"
  by (fastforce simp: keyed_get_def split: if_splits dest: find_SomeD)

text \<open>The verdict "verified" comes only from the recomputation.\<close>

lemma validate_verified:
  assumes "validate_vector_memory graph manifest = Inr (JObj r)" and "map_of r ''status'' = Some (JStr ''verified'')"
  shows "\<exists>m vm. manifest = JObj m \<and> map_of m ''vector_memory'' = Some (JObj vm) \<and>
    verify_vector_snapshot graph (JObj vm) = Inr (JObj r)"
proof -
  obtain m where m: "manifest = JObj m"
    using assms(1) by (auto simp: validate_vector_memory_def bindR_eq_Inr py_get_or_eq_Inr)
  define vm where "vm = field_or m ''vector_memory'' JNull"
  have t: "truthy vm"
    using assms by (auto simp: validate_vector_memory_def m py_get_or_field vm_def simp del: py_get_or_JObj split: if_splits)
  obtain d where d: "vm = JObj d"
    using assms(1) t
    by (auto simp: validate_vector_memory_def m py_get_or_field vm_def [symmetric] bindR_eq_Inr
        py_get_or_eq_Inr simp del: py_get_or_JObj)
  have "verify_vector_snapshot graph vm = Inr (JObj r)"
    using assms t unfolding validate_vector_memory_def m d py_get_or_field bindR_simps vm_def [symmetric]
    by (auto simp only: bindR_eq_Inr if_raise_eq_Inr json.inject map_of.simps if_True simp_thms d
        py_get_or_field bindR_simps list.inject split: if_splits) simp
  then show ?thesis using m d t by (auto simp: vm_def field_or_def split: option.splits)
qed

definition record_matches :: "vector_snapshot \<Rightarrow> json \<Rightarrow> bool" where
  "record_matches s rec \<longleftrightarrow>
     (\<exists>m e. rec = JObj m \<and> e \<in> set (vs_records s) \<and> py_eq (vr_node_id e) (field_or m ''node_id'' JNull) \<and>
        map_of m ''embedding_hash'' = Some (JStr (embedding_hash (vr_embedding e))))"

definition retrieval_matches :: "vector_snapshot \<Rightarrow> json \<Rightarrow> bool" where
  "retrieval_matches s node \<longleftrightarrow>
     (\<exists>m. node = JObj m \<and> (map_of m ''retrieval_kind'' = Some (JStr ''vector'') \<longrightarrow>
        (\<exists>xs rs. py_iter (field_or m ''results'' (JList [])) = Inr xs \<and> mapR retrieval_result xs = Inr rs \<and>
           py_eq (JList rs) (vs_expected_results s))))"

lemma check_vector_record_ok:
  assumes "check_vector_record (map (\<lambda>r. (vr_node_id r, r)) (vs_records s)) mns rec = Inr ()"
  shows "record_matches s rec"
proof -
  obtain m e where "rec = JObj m" and g: "keyed_get (map (\<lambda>r. (vr_node_id r, r)) (vs_records s)) (field_or m ''node_id'' JNull) = Inr (Some e)"
    and h: "field_or m ''embedding_hash'' JNull = JStr (embedding_hash (vr_embedding e))"
    using assms
    by (auto simp: check_vector_record_def bindR_eq_Inr py_get_or_eq_Inr field_or_def split: option.splits if_splits)
  then show ?thesis using keyed_get_Some [OF g] unfolding record_matches_def
    by (intro exI [of _ m] exI [of _ e]) (auto simp: field_or_def split: option.splits)
qed

lemma check_retrieval_ok: "check_retrieval (vs_expected_results s) node = Inr () \<Longrightarrow> retrieval_matches s node"
  by (auto simp: check_retrieval_def retrieval_matches_def bindR_eq_Inr py_get_or_eq_Inr field_or_def split: if_splits)

text \<open>C28: Soundness of vector verification. When the manifest's vector memory is reported
  "verified", the snapshot was recomputed from the graph and the recorded query, the manifest's
  expected results equal the recomputed ones, every record names a memory node of the graph and
  carries the digest of its recomputed embedding, and every vector retrieval node of the graph
  lists exactly the recomputed results.\<close>

theorem vector_memory_sound:
  assumes "validate_vector_memory graph (JObj m) = Inr (JObj r)" and "map_of r ''status'' = Some (JStr ''verified'')"
  shows "\<exists>vm q s. map_of m ''vector_memory'' = Some (JObj vm) \<and> map_of vm ''query_text'' = Some q \<and>
    compute_vector_snapshot graph q = Inr s \<and>
    py_eq (field_or vm ''expected_results'' JNull) (vs_expected_results s) \<and>
    (\<exists>recs. py_iter (field_or vm ''records'' (JList [])) = Inr recs \<and> list_all (record_matches s) recs) \<and>
    (\<exists>rns. retrieval_nodes graph = Inr rns \<and> list_all (retrieval_matches s) rns)"
proof -
  obtain vm where vm: "map_of m ''vector_memory'' = Some (JObj vm)" and v: "verify_vector_snapshot graph (JObj vm) = Inr (JObj r)"
    using validate_verified [OF assms] by auto
  from v obtain q s recs rns d1 d2 u1 u2 where
    q: "map_of vm ''query_text'' = Some q" "compute_vector_snapshot graph q = Inr s"
    and d2: "keyed (\<lambda>r. Inr (vr_node_id r)) (vs_records s) = Inr d2"
    and recs: "py_iter (field_or vm ''records'' (JList [])) = Inr recs"
    and c: "iterR (check_vector_record d2 d1) recs = Inr u1"
    and e: "py_eq (field_or vm ''expected_results'' JNull) (vs_expected_results s)"
    and rns: "retrieval_nodes graph = Inr rns" "iterR (check_retrieval (vs_expected_results s)) rns = Inr u2"
    unfolding verify_vector_snapshot_def py_get_or_field bindR_simps bindR_eq_Inr py_item_eq_Inr if_raise_eq_Inr not_not
    by (elim exE conjE) (rule that, simp_all)
  have "list_all (record_matches s) recs"
    using c keyed_map [OF d2] by (auto simp: iterR_eq_Inr list_all_iff intro: check_vector_record_ok)
  moreover have "list_all (retrieval_matches s) rns"
    using rns(2) by (auto simp: iterR_eq_Inr list_all_iff intro: check_retrieval_ok)
  ultimately show ?thesis using vm q recs rns e by blast
qed

section \<open>A snapshot of the graph verifies\<close>

text \<open>The memory nodes an exporter writes: distinct string identifiers, and the embedding digest
  of the node's text on every node of the embedding model.\<close>

definition memory_node_ok :: "json \<Rightarrow> bool" where
  "memory_node_ok n \<longleftrightarrow>
     (\<exists>m i. n = JObj m \<and> map_of m ''id'' = Some (JStr i) \<and>
        (\<forall>t. memory_text n = Inr t \<longrightarrow> map_of m ''embedding_model'' = Some (JStr EMBEDDING_MODEL) \<longrightarrow>
           map_of m ''embedding_hash'' = Some (JStr (embedding_hash (deterministic_embedding t)))))"

definition node_ids :: "json list \<Rightarrow> json list" where
  "node_ids ns = map (\<lambda>n. case n of JObj m \<Rightarrow> field_or m ''id'' JNull | _ \<Rightarrow> JNull) ns"

lemma keyed_ids:
  "list_all memory_node_ok ns \<Longrightarrow> keyed (\<lambda>n. py_item n ''id'') ns = Inr (zip (node_ids ns) ns)"
  by (induction ns) (auto simp: keyed_def node_ids_def memory_node_ok_def field_or_def)

lemma keyed_get_distinct:
  "distinct (map fst d) \<Longrightarrow> (JStr i, x) \<in> set d \<Longrightarrow> keyed_get d (JStr i) = Inr (Some x)"
proof -
  assume d: "distinct (map fst d)" and i: "(JStr i, x) \<in> set d"
  have "find (\<lambda>(k', _). k' = JStr i) ys = Some (JStr i, x)" if "distinct (map fst ys)" "(JStr i, x) \<in> set ys" for ys :: "(json \<times> 'a) list"
    using that by (induction ys) (auto simp: image_iff)
  from this [of "rev d"] d i show ?thesis by (simp add: keyed_get_def rev_map [symmetric])
qed

lemma memory_vector_record_eq:
  "memory_vector_record n = Inr rs \<Longrightarrow> r \<in> set rs \<Longrightarrow>
   \<exists>m t. n = JObj m \<and> memory_text n = Inr t \<and> map_of m ''embedding_model'' = Some (JStr EMBEDDING_MODEL) \<and>
     map_of m ''id'' = Some (vr_node_id r) \<and> vr_embedding r = deterministic_embedding t"
  by (auto simp: memory_vector_record_def bindR_eq_Inr py_get_or_eq_Inr py_item_eq_Inr split: if_splits option.splits)

lemma records_distinct:
  assumes "mapR memory_vector_record ns = Inr rss" and "list_all memory_node_ok ns" and "distinct (node_ids ns)"
  shows "distinct (map vr_node_id (concat rss))"
    and "vr_node_id ` set (concat rss) \<subseteq> set (node_ids ns)"
proof -
  have "distinct (map vr_node_id (concat rss)) \<and> vr_node_id ` set (concat rss) \<subseteq> set (node_ids ns)"
    using assms
  proof (induction ns arbitrary: rss)
    case (Cons n ns)
    then obtain r rss' where r: "rss = r # rss'" "memory_vector_record n = Inr r" "mapR memory_vector_record ns = Inr rss'"
      by (auto simp: bindR_eq_Inr)
    then have IH: "distinct (map vr_node_id (concat rss')) \<and> vr_node_id ` set (concat rss') \<subseteq> set (node_ids ns)"
      using Cons by (simp add: node_ids_def)
    have "length r \<le> 1" using r(2) by (auto simp: memory_vector_record_def bindR_eq_Inr split: if_splits)
    moreover have "vr_node_id x = hd (node_ids (n # ns))" if "x \<in> set r" for x
      using memory_vector_record_eq [OF r(2) that] by (auto simp: node_ids_def field_or_def)
    ultimately show ?case
      using IH Cons.prems(3) by (cases r) (auto simp: r(1) node_ids_def)
  qed (simp add: node_ids_def)
  then show "distinct (map vr_node_id (concat rss))" "vr_node_id ` set (concat rss) \<subseteq> set (node_ids ns)" by auto
qed

text \<open>A stored record that repeats a computed one passes the record check.\<close>

lemma check_vector_record_complete:
  assumes ns: "memory_nodes graph = Inr ns" "list_all memory_node_ok ns" "distinct (node_ids ns)"
    and rs: "vector_records graph = Inr rs" and e: "e \<in> set rs"
    and m: "map_of m ''node_id'' = Some (vr_node_id e)"
      "map_of m ''embedding_hash'' = Some (JStr (embedding_hash (vr_embedding e)))"
  shows "check_vector_record (map (\<lambda>r. (vr_node_id r, r)) rs) (zip (node_ids ns) ns) (JObj m) = Inr ()"
proof -
  obtain rss where rss: "mapR memory_vector_record ns = Inr rss" "rs = concat rss"
    using ns(1) rs by (auto simp: vector_records_def bindR_eq_Inr)
  from e rss(2) obtain r where "r \<in> set rss" "e \<in> set r" by auto
  with mapR_source [OF rss(1)] obtain n where n: "n \<in> set ns" "memory_vector_record n = Inr r"
    by blast
  obtain d t where d: "n = JObj d" "memory_text n = Inr t" "map_of d ''embedding_model'' = Some (JStr EMBEDDING_MODEL)"
    "map_of d ''id'' = Some (vr_node_id e)" "vr_embedding e = deterministic_embedding t"
    using memory_vector_record_eq [OF n(2) \<open>e \<in> set r\<close>] by blast
  have ok: "memory_node_ok n" using ns(2) n(1) by (simp add: list_all_iff)
  then obtain i where i: "vr_node_id e = JStr i"
    and h: "map_of d ''embedding_hash'' = Some (JStr (embedding_hash (vr_embedding e)))"
    using d by (auto simp: memory_node_ok_def)
  have "keyed_get (map (\<lambda>r. (vr_node_id r, r)) rs) (JStr i) = Inr (Some e)"
  proof (rule keyed_get_distinct)
    show "distinct (map fst (map (\<lambda>r. (vr_node_id r, r)) rs))"
      using records_distinct(1) [OF rss(1) ns(2,3)] rss(2) by (simp add: comp_def)
    show "(JStr i, e) \<in> set (map (\<lambda>r. (vr_node_id r, r)) rs)" using e i by force
  qed
  moreover have "keyed_get (zip (node_ids ns) ns) (JStr i) = Inr (Some n)"
  proof (rule keyed_get_distinct)
    show "distinct (map fst (zip (node_ids ns) ns))" using ns(3) by (simp add: node_ids_def)
    show "(JStr i, n) \<in> set (zip (node_ids ns) ns)"
      using n(1) d(1,4) i unfolding node_ids_def zip_map1 zip_same_conv_map by (force simp: field_or_def)
  qed
  ultimately show ?thesis by (simp add: check_vector_record_def m i h d(1))
qed

text \<open>The fields of a manifest entry that make it a faithful copy of the snapshot, in whatever
  key order it was stored.\<close>

definition snapshot_entry :: "vector_snapshot \<Rightarrow> obj \<Rightarrow> bool" where
  "snapshot_entry s vm \<longleftrightarrow>
     map_of vm ''mode'' = Some (JStr ''snapshot'') \<and> map_of vm ''embedding_model'' = Some (JStr EMBEDDING_MODEL) \<and>
     map_of vm ''embedding_dim'' = Some (JInt (int EMBEDDING_DIM)) \<and> map_of vm ''distance_metric'' = Some (JStr ''cosine'') \<and>
     map_of vm ''query_text'' = Some (JStr (vs_query_text s)) \<and> map_of vm ''expected_results'' = Some (vs_expected_results s) \<and>
     (\<exists>v. map_of vm ''vector_store_ref'' = Some v) \<and> (\<exists>v. map_of vm ''query_hash'' = Some v) \<and>
     (\<exists>recs. map_of vm ''records'' = Some (JList (map JObj recs)) \<and>
        list_all2 (\<lambda>e m. map_of m ''node_id'' = Some (vr_node_id e) \<and>
          map_of m ''embedding_hash'' = Some (JStr (embedding_hash (vr_embedding e)))) (vs_records s) recs)"

lemma snapshot_json_entry: "snapshot_entry s vm" if "vector_snapshot_json s = JObj vm"
proof -
  let ?f = "\<lambda>r. [(''node_id'', vr_node_id r), (''embedding'', embedding_json (vr_embedding r)),
      (''embedding_hash'', JStr (embedding_hash (vr_embedding r))), (''text_hash'', vr_text_hash r)]"
  have "map vector_record_json rs = map JObj (map ?f rs)" for rs by (simp add: vector_record_json_def)
  then show ?thesis using that
    by (auto simp: snapshot_entry_def vector_snapshot_json_def list_all2_map2 intro!: exI [of _ "map ?f (vs_records s)"] list_all2_refl)
qed

lemma sorted_results_strings:
  assumes "vector_records graph = Inr rs" and "memory_nodes graph = Inr ns" "list_all memory_node_ok ns"
  shows "list_all (is_str \<circ> fst) (map (scored q) rs)"
proof -
  have "is_str (vr_node_id e)" if "e \<in> set rs" for e
  proof -
    obtain rss where rss: "mapR memory_vector_record ns = Inr rss" "rs = concat rss"
      using assms(1,2) by (auto simp: vector_records_def bindR_eq_Inr)
    from that rss(2) obtain r where "r \<in> set rss" "e \<in> set r" by auto
    with mapR_source [OF rss(1)] obtain n where n: "n \<in> set ns" "memory_vector_record n = Inr r"
      by blast
    have "memory_node_ok n" using assms(3) n(1) by (simp add: list_all_iff)
    with memory_vector_record_eq [OF n(2) \<open>e \<in> set r\<close>] show ?thesis
      by (auto simp: memory_node_ok_def)
  qed
  then show ?thesis by (auto simp: list_all_iff scored_def)
qed

lemma check_retrieval_complete: "retrieval_matches s n \<Longrightarrow> check_retrieval (vs_expected_results s) n = Inr ()"
  by (auto simp: retrieval_matches_def check_retrieval_def py_get_or_field field_or_def split: option.splits
      simp del: py_get_or_JObj)

lemma snapshot_verifies:
  assumes s: "compute_vector_snapshot graph (JStr q) = Inr s" and vm: "snapshot_entry s vm"
    and m: "map_of m ''vector_memory'' = Some (JObj vm)"
    and ns: "memory_nodes graph = Inr ns" "list_all memory_node_ok ns" "distinct (node_ids ns)"
    and rns: "retrieval_nodes graph = Inr rns" "list_all (retrieval_matches s) rns"
  shows "\<exists>r. validate_vector_memory graph (JObj m) = Inr (JObj ((''status'', JStr ''verified'') # r))"
proof -
  obtain rs results where rs: "vector_records graph = Inr rs" "vs_records s = rs" "vs_query_text s = q"
    and res: "vs_expected_results s = ranked_results results" "set results = set (map (scored (deterministic_embedding q)) rs)"
    using s by (auto simp: compute_vector_snapshot_def bindR_eq_Inr sort_results_eq_Inr)
  have "py_eq (fst p) (fst p)" if "p \<in> set results" for p
  proof -
    have "is_str (fst p)"
      using sorted_results_strings [OF rs(1) ns(1,2), of "deterministic_embedding q"] that res(2) by (auto simp: list_all_iff)
    then show ?thesis by (cases "fst p") auto
  qed
  then have eq: "py_eq (vs_expected_results s) (vs_expected_results s)" using res(1) py_eq_ranked by metis
  obtain recs where recs: "map_of vm ''records'' = Some (JList (map JObj recs))"
    "list_all2 (\<lambda>e m. map_of m ''node_id'' = Some (vr_node_id e) \<and>
          map_of m ''embedding_hash'' = Some (JStr (embedding_hash (vr_embedding e)))) rs recs"
    using vm rs(2) by (auto simp: snapshot_entry_def)
  have "\<forall>r\<in>set (map JObj recs). check_vector_record (map (\<lambda>r. (vr_node_id r, r)) rs) (zip (node_ids ns) ns) r = Inr ()"
    using recs(2) check_vector_record_complete [OF ns rs(1)]
    by (fastforce simp: list_all2_conv_all_nth in_set_conv_nth)
  then have c: "iterR (check_vector_record (map (\<lambda>r. (vr_node_id r, r)) rs) (zip (node_ids ns) ns)) (map JObj recs) = Inr ()"
    by (simp only: iterR_eq_Inr)
  have r: "iterR (check_retrieval (vs_expected_results s)) rns = Inr ()"
    using rns(2) by (simp add: iterR_eq_Inr list_all_iff check_retrieval_complete)
  have k: "keyed (\<lambda>r. Inr (vr_node_id r)) rs = Inr (map (\<lambda>r. (vr_node_id r, r)) rs)"
  proof -
    have "hashable (vr_node_id e)" if "e \<in> set rs" for e
      using sorted_results_strings [OF rs(1) ns(1,2), of "[]"] that by (cases "vr_node_id e") (auto simp: list_all_iff scored_def)
    then show ?thesis by (induction rs) (auto simp: keyed_def)
  qed
  have "vm \<noteq> []" using recs(1) by auto
  then show ?thesis
    using vm m s rs recs(1) c r eq ns(1) rns(1) keyed_ids [OF ns(2)] k
    by (simp add: snapshot_entry_def validate_vector_memory_def verify_vector_snapshot_def)
      (elim exE conjE, simp)
qed

text \<open>Completeness of vector verification (with soundness, the round trip of a snapshot). A
  manifest entry that carries the snapshot computed from the graph, in any key order, is reported
  "verified", provided the graph's memory nodes have distinct identifiers and their own embedding
  digests and its vector retrieval nodes list the snapshot's results.\<close>

theorem vector_memory_complete:
  assumes s: "compute_vector_snapshot graph (JStr q) = Inr s" and vm: "snapshot_entry s vm"
    and m: "map_of m ''vector_memory'' = Some (JObj vm)"
    and ns: "memory_nodes graph = Inr ns" "list_all memory_node_ok ns" "distinct (node_ids ns)"
    and rns: "retrieval_nodes graph = Inr rns" "list_all (retrieval_matches s) rns"
  shows "\<exists>r. validate_vector_memory graph (JObj m) = Inr (JObj ((''status'', JStr ''verified'') # r))"
  by (rule snapshot_verifies [OF assms])

end
