(* ===== verification/Security.thy ===== *)
theory Security
  imports GraphCore
begin

text \<open>
  The security attestation of an exported graph and its validation on import
  (\<^verbatim>\<open>local_agent.py\<close>: \<open>find_forbidden_secret_material\<close>,
  \<open>build_security_attestation\<close>, \<open>validate_security_policy\<close>).
\<close>

section \<open>Secret material\<close>

function find_forbidden_secret_material :: "json \<Rightarrow> string \<Rightarrow> string list" where
  "find_forbidden_secret_material (JObj d) path =
     concat (map (\<lambda>(key, child).
       (let child_path = path @ ''.'' @ key
        in (if str_lower key \<in> set FORBIDDEN_SECRET_KEYS then [child_path] else []) @
           find_forbidden_secret_material child child_path)) d)"
| "find_forbidden_secret_material (JList xs) path =
     concat (map (\<lambda>(i, child).
       find_forbidden_secret_material child (path @ ''['' @ nat_str i @ '']'')) (enum_from 0 xs))"
| "find_forbidden_secret_material JNull path = []"
| "find_forbidden_secret_material (JBool b) path = []"
| "find_forbidden_secret_material (JInt i) path = []"
| "find_forbidden_secret_material (JFloat f) path = []"
| "find_forbidden_secret_material (JStr s) path = []"
  by pat_completeness auto
termination
proof (relation "measure (size \<circ> fst)")
  fix d :: obj and x y path child_path and key :: string and child
  assume "x \<in> set d" "(key, child) = x"
  then have "size_prod (\<lambda>_. 0) size (key, child) \<le> size_list (size_prod (\<lambda>_. 0) size) d"
    using size_list_estimation' [of x d "size_prod (\<lambda>_. 0) size x" "size_prod (\<lambda>_. 0) size"] by simp
  then show "((child, child_path), JObj d, path) \<in> measure (size \<circ> fst)" by simp
next
  fix xs :: "json list" and path x and i :: nat and child
  assume "x \<in> set (enum_from 0 xs)" "(i, child) = x"
  then have "child \<in> set xs" by (auto simp: enum_from_def dest: set_zip_rightD)
  then have "size child \<le> size_list size xs" by (induction xs) auto
  then show "((child, path @ ''['' @ nat_str i @ '']''), JList xs, path) \<in> measure (size \<circ> fst)" by simp
qed simp

text \<open>No dictionary anywhere in the value has a key from the list, in any letter case.\<close>

fun secret_free :: "json \<Rightarrow> bool" where
  "secret_free (JObj d) =
     list_all (\<lambda>(k, v). str_lower k \<notin> set FORBIDDEN_SECRET_KEYS \<and> secret_free v) d"
| "secret_free (JList xs) = list_all secret_free xs"
| "secret_free _ = True"

section \<open>Attestation\<close>

text \<open>\<open>build_security_attestation\<close>; \<open>sorted\<close> of the two frozen sets is written through
  \<open>sort\<close>.\<close>

definition policy_hooks :: json where
  "policy_hooks = JObj
     [(''allowed_target_runtimes'', JList (map JStr (sort ALLOWED_TARGET_RUNTIMES))),
      (''allowed_tools'', JList (map JStr (sort ALLOWED_TOOL_NAMES))),
      (''allowed_artifact_path_prefixes'', JList (map JStr ALLOWED_ARTIFACT_PATH_PREFIXES)),
      (''credential_policy'', JStr ''rebind_only''),
      (''secret_material_policy'', JStr ''reject_raw_secret_keys'')]"

definition build_security_attestation :: "json \<Rightarrow> json res" where
  "build_security_attestation graph =
     bindR (py_item graph ''graph_hash'') (\<lambda>h.
     bindR (py_item graph ''graph_id'') (\<lambda>gid.
       Inr (JObj
         [(''policy_version'', JStr SECURITY_POLICY_VERSION),
          (''signature_algorithm'', JStr ROOT_SIGNATURE_ALGORITHM),
          (''signer_id'', JStr TRUSTED_SIGNER_ID),
          (''graph_root_signature'', JStr (graph_root_signature h (JStr TRUSTED_SIGNER_ID))),
          (''trusted_signer_ids'', JList [JStr TRUSTED_SIGNER_ID]),
          (''provenance_chain'', JList [JObj
             [(''graph_id'', gid), (''event'', JStr ''exported''), (''created_at'', JStr CREATED_AT),
              (''graph_hash'', h), (''signer_id'', JStr TRUSTED_SIGNER_ID)]]),
          (''policy_hooks'', policy_hooks)])))"

section \<open>Validation\<close>

definition check_signature :: "json \<Rightarrow> json \<Rightarrow> json res" where
  "check_signature graph security =
     bindR (py_get security ''policy_version'') (\<lambda>pv.
     if \<not> py_eq pv (JStr SECURITY_POLICY_VERSION)
     then Inl (ImportVerificationError ''unsupported security policy version'')
     else
       bindR (py_get security ''signature_algorithm'') (\<lambda>sa.
       if \<not> py_eq sa (JStr ROOT_SIGNATURE_ALGORITHM)
       then Inl (ImportVerificationError ''unsupported graph root signature algorithm'')
       else
         bindR (py_get security ''signer_id'') (\<lambda>signer_id.
         bindR (py_get_or security ''trusted_signer_ids'' (JList [])) (\<lambda>ts.
         bindR (py_set ts) (\<lambda>trusted.
         bindR (py_in_set signer_id trusted) (\<lambda>ok.
         if \<not> ok then Inl (ImportVerificationError ''graph root signer is not trusted'')
         else
           bindR (py_item graph ''graph_hash'') (\<lambda>gh.
           bindR (py_get security ''graph_root_signature'') (\<lambda>sg.
           if \<not> py_eq sg (JStr (graph_root_signature gh signer_id))
           then Inl (ImportVerificationError ''graph root signature mismatch'')
           else Inr signer_id))))))))"

definition check_allowlists :: "json \<Rightarrow> json \<Rightarrow> json \<Rightarrow> unit res" where
  "check_allowlists graph security target_runtime =
     bindR (py_get_or security ''policy_hooks'' (JObj [])) (\<lambda>hooks.
     bindR (py_get_or hooks ''allowed_target_runtimes'' (JList [])) (\<lambda>atr.
     bindR (py_set atr) (\<lambda>allowed_targets.
     bindR (py_in_set target_runtime allowed_targets) (\<lambda>ok.
     if \<not> ok
     then Inl (ImportVerificationError (''target runtime is not allowed by security policy: '' @ py_str target_runtime))
     else
       bindR (py_get_or hooks ''allowed_tools'' (JList [])) (\<lambda>atl.
       bindR (py_set atl) (\<lambda>allowed_tools.
       bindR (tool_call_nodes graph)
         (iterR (\<lambda>node.
            bindR (py_get node ''name'') (\<lambda>name.
            bindR (py_in_set name allowed_tools) (\<lambda>ok.
            if \<not> ok then Inl (ImportVerificationError (''tool is not allowed by security policy: '' @ py_str name))
            else Inr ()))))))))))"

definition check_artifact_entry_path :: "json \<Rightarrow> unit res" where
  "check_artifact_entry_path artifact =
     bindR (py_get_or artifact ''path'' (JStr [])) (\<lambda>p.
     bindR (path_allowed_by_prefix p) (\<lambda>ok.
     if \<not> ok then
       bindR (py_get artifact ''path'') (\<lambda>q.
         Inl (ImportVerificationError (''artifact path is not allowed by security policy: '' @ py_str q)))
     else
       bindR (py_get_or artifact ''target_path'' p) (\<lambda>tp.
       bindR (path_allowed_by_prefix tp) (\<lambda>ok.
       if \<not> ok
       then Inl (ImportVerificationError (''artifact target path is not allowed by security policy: '' @ py_str tp))
       else Inr ()))))"

definition check_artifact_node_path :: "json \<Rightarrow> unit res" where
  "check_artifact_node_path node =
     bindR (py_get node ''path'') (\<lambda>p.
     if \<not> truthy p then Inr ()
     else
       bindR (path_allowed_by_prefix p) (\<lambda>ok.
       if \<not> ok
       then Inl (ImportVerificationError (''artifact node path is not allowed by security policy: '' @ py_str p))
       else Inr ()))"

definition check_artifact_paths :: "json \<Rightarrow> json \<Rightarrow> unit res" where
  "check_artifact_paths graph manifest =
     bindR (py_get_or manifest ''artifacts'' (JList [])) (\<lambda>arts.
     bindR (py_iter arts) (\<lambda>as.
     bindR (iterR check_artifact_entry_path as) (\<lambda>_.
     bindR (artifact_nodes graph) (iterR check_artifact_node_path))))"

definition credential_error :: "string \<Rightarrow> json \<Rightarrow> 'a res" where
  "credential_error msg node =
     bindR (py_item node ''id'') (\<lambda>i. Inl (ImportVerificationError (msg @ py_str i)))"

definition check_credential_ref :: "json \<Rightarrow> unit res" where
  "check_credential_ref node =
     bindR (py_get node ''redaction_state'') (\<lambda>rs.
     if \<not> py_eq rs (JStr ''external_only'')
     then credential_error ''credential reference must be external_only: '' node
     else
       bindR (py_get node ''required'') (\<lambda>rq.
       if rq \<noteq> JBool True
       then credential_error ''credential reference must require target rebind: '' node
       else
         bindR (py_get node ''binding'') (\<lambda>b.
         if \<not> truthy b
         then credential_error ''credential reference must include a rebind hint: '' node
         else Inr ())))"

definition check_provenance_chain :: "json \<Rightarrow> json \<Rightarrow> json res" where
  "check_provenance_chain graph security =
     bindR (py_get_or security ''provenance_chain'' (JList [])) (\<lambda>chain.
     if \<not> truthy chain then Inl (ImportVerificationError ''missing provenance chain'')
     else
       bindR (py_index chain (- 1)) (\<lambda>latest.
       bindR (py_get latest ''graph_id'') (\<lambda>lid.
       bindR (py_get graph ''graph_id'') (\<lambda>gid.
       bindR (py_get latest ''graph_hash'') (\<lambda>lh.
       bindR (py_get graph ''graph_hash'') (\<lambda>gh.
       if \<not> py_eq lid gid \<or> \<not> py_eq lh gh
       then Inl (ImportVerificationError ''provenance chain does not match graph root'')
       else Inr chain))))))"

definition validate_security_policy :: "json \<Rightarrow> json \<Rightarrow> json \<Rightarrow> json res" where
  "validate_security_policy graph manifest target_runtime =
     bindR (py_get manifest ''security'') (\<lambda>security.
     if \<not> truthy security then Inl (ImportVerificationError ''missing security attestation'')
     else
       bindR (check_signature graph security) (\<lambda>signer_id.
       bindR (check_allowlists graph security target_runtime) (\<lambda>_.
       bindR (check_artifact_paths graph manifest) (\<lambda>_.
       let secret_findings = find_forbidden_secret_material graph ''$'' @ find_forbidden_secret_material manifest ''$''
       in if secret_findings \<noteq> []
          then Inl (ImportVerificationError (''raw secret material is not allowed: '' @ join '', '' secret_findings))
          else
            bindR (credential_ref_nodes graph) (\<lambda>crs.
            bindR (iterR check_credential_ref crs) (\<lambda>_.
            bindR (check_provenance_chain graph security) (\<lambda>chain.
            bindR (py_len chain) (\<lambda>n.
              Inr (JObj
                [(''status'', JStr ''verified''), (''policy_version'', JStr SECURITY_POLICY_VERSION),
                 (''signer_id'', signer_id), (''target_runtime'', target_runtime),
                 (''provenance_events'', JInt n)])))))))))"

section \<open>Secret search is exact\<close>

lemma list_all_enum_from: "(\<forall>p\<in>set (enum_from k xs). P (snd p)) \<longleftrightarrow> list_all P xs"
  by (induction xs arbitrary: k) auto

lemma find_forbidden_exact: "find_forbidden_secret_material v path = [] \<longleftrightarrow> secret_free v"
proof (induction v path rule: find_forbidden_secret_material.induct)
  case (1 d path)
  then show ?case by (auto simp: Let_def list_all_iff)
next
  case (2 xs path)
  then have "(\<forall>p\<in>set (enum_from 0 xs). find_forbidden_secret_material (snd p) (path @ ''['' @ nat_str (fst p) @ '']'') = [])
      \<longleftrightarrow> (\<forall>p\<in>set (enum_from 0 xs). secret_free (snd p))" by fastforce
  then show ?case by (simp add: list_all_enum_from split_beta)
qed simp_all

section \<open>What an accepted import satisfies\<close>

definition allowed_path :: "json \<Rightarrow> bool" where
  "allowed_path v \<longleftrightarrow>
     (\<exists>s r. v = JStr s \<and> as_posix (Path s) = ''reports/'' @ r \<and> anchor (Path s) = [] \<and> ''..'' \<notin> set (parts (Path s)))"

lemma path_allowed_iff: "path_allowed_by_prefix v = Inr True \<longleftrightarrow> allowed_path v"
proof -
  have "parts (Path s) \<noteq> []" if "as_posix (Path s) = ''reports/'' @ r" "anchor (Path s) = []" for s r
    using that by (auto simp: as_posix_def split: if_splits)
  then show ?thesis
    by (auto simp: path_allowed_by_prefix_def safe_workspace_relative_path_def safe_relative_path_def bindR_eq_Inr
        as_str_eq_Inr Let_def is_absolute_def ALLOWED_ARTIFACT_PATH_PREFIXES_def allowed_path_def starts_with_iff
        split: if_splits)
qed

definition in_allowlist :: "json \<Rightarrow> obj \<Rightarrow> string \<Rightarrow> bool" where
  "in_allowlist v d k \<longleftrightarrow>
     (\<exists>xs. py_set (field_or d k (JList [])) = Inr xs \<and> (\<exists>x\<in>set xs. py_eq x v))"

lemma py_in_set_True: "py_in_set v xs = Inr True \<longleftrightarrow> hashable v \<and> (\<exists>x\<in>set xs. py_eq x v)"
  by (auto simp: py_in_set_def list_ex_iff)

definition signed_by :: "obj \<Rightarrow> obj \<Rightarrow> json \<Rightarrow> bool" where
  "signed_by g sec signer \<longleftrightarrow>
     map_of sec ''policy_version'' = Some (JStr SECURITY_POLICY_VERSION) \<and>
     map_of sec ''signature_algorithm'' = Some (JStr ROOT_SIGNATURE_ALGORITHM) \<and>
     field_or sec ''signer_id'' JNull = signer \<and> hashable signer \<and> in_allowlist signer sec ''trusted_signer_ids'' \<and>
     (\<exists>h. map_of g ''graph_hash'' = Some h \<and>
        map_of sec ''graph_root_signature'' = Some (JStr (graph_root_signature h signer)))"

lemma check_signature_iff:
  "check_signature (JObj g) (JObj sec) = Inr signer \<longleftrightarrow> signed_by g sec signer"
  unfolding check_signature_def py_get_or_field bindR_simps signed_by_def in_allowlist_def
  by (auto simp: guard_eq_Inr bindR_eq_Inr if_raise_eq_Inr py_item_eq_Inr field_or_JStr py_in_set_True
      simp del: py_item_JObj)

definition tool_allowed :: "obj \<Rightarrow> json \<Rightarrow> bool" where
  "tool_allowed hooks node \<longleftrightarrow>
     (\<exists>n. node = JObj n \<and> hashable (field_or n ''name'' JNull) \<and>
        in_allowlist (field_or n ''name'' JNull) hooks ''allowed_tools'')"

lemma check_tool_iff:
  assumes "py_set (field_or hooks ''allowed_tools'' (JList [])) = Inr xs"
  shows "bindR (py_get node ''name'') (\<lambda>name. bindR (py_in_set name xs) (\<lambda>ok.
      if \<not> ok then Inl (ImportVerificationError (msg @ py_str name)) else Inr ())) = Inr () \<longleftrightarrow> tool_allowed hooks node"
proof (cases node)
  case (JObj n)
  show ?thesis
    unfolding JObj py_get_or_field bindR_simps guard_eq_Inr py_in_set_True tool_allowed_def in_allowlist_def assms
    by auto
qed (simp_all add: py_get_or_def tool_allowed_def)

definition allowlists_ok :: "json \<Rightarrow> obj \<Rightarrow> json \<Rightarrow> bool" where
  "allowlists_ok g hooks target \<longleftrightarrow>
     hashable target \<and> in_allowlist target hooks ''allowed_target_runtimes'' \<and>
     (\<exists>xs. py_set (field_or hooks ''allowed_tools'' (JList [])) = Inr xs) \<and>
     (\<exists>calls. tool_call_nodes g = Inr calls \<and> list_all (tool_allowed hooks) calls)"

lemma check_allowlists_iff:
  assumes "field_or sec ''policy_hooks'' (JObj []) = JObj hooks"
  shows "check_allowlists g (JObj sec) target = Inr () \<longleftrightarrow> allowlists_ok g hooks target"
proof (cases "py_set (field_or hooks ''allowed_tools'' (JList []))")
  case (Inr xs)
  show ?thesis
    unfolding allowlists_ok_def check_allowlists_def py_get_or_field assms bindR_simps Inr bindR_eq_Inr [of "py_set v" for v]
      bindR_eq_Inr [of "tool_call_nodes v" for v] guard_eq_Inr py_in_set_True iterR_eq_Inr check_tool_iff [OF Inr] list_all_iff
      in_allowlist_def [of target]
    by auto
qed (auto simp: allowlists_ok_def check_allowlists_def py_get_or_field assms bindR_eq_Inr if_raise_eq_Inr simp del: py_get_or_JObj)

definition entry_paths_allowed :: "json \<Rightarrow> bool" where
  "entry_paths_allowed a \<longleftrightarrow>
     (\<exists>d p. a = JObj d \<and> map_of d ''path'' = Some p \<and> allowed_path p \<and> allowed_path (field_or d ''target_path'' p))"

lemma not_allowed_empty [simp]: "\<not> allowed_path (JStr [])"
  by (simp add: allowed_path_def Path_def as_posix_def path_root_def)

lemma check_artifact_entry_path_iff: "check_artifact_entry_path a = Inr () \<longleftrightarrow> entry_paths_allowed a"
proof (cases a)
  case (JObj d)
  show ?thesis
    unfolding check_artifact_entry_path_def JObj py_get_or_field bindR_simps entry_paths_allowed_def
    by (auto simp: bindR_eq_Inr path_allowed_iff field_or_def split: if_splits option.splits)
qed (auto simp: check_artifact_entry_path_def entry_paths_allowed_def py_get_or_def)

definition node_path_allowed :: "json \<Rightarrow> bool" where
  "node_path_allowed n \<longleftrightarrow>
     (\<exists>d. n = JObj d \<and> (truthy (field_or d ''path'' JNull) \<longrightarrow> allowed_path (field_or d ''path'' JNull)))"

lemma check_artifact_node_path_iff: "check_artifact_node_path n = Inr () \<longleftrightarrow> node_path_allowed n"
proof (cases n)
  case (JObj d)
  show ?thesis
    unfolding check_artifact_node_path_def JObj py_get_or_field bindR_simps node_path_allowed_def
    by (auto simp: bindR_eq_Inr path_allowed_iff split: if_splits)
qed (auto simp: check_artifact_node_path_def node_path_allowed_def py_get_or_def)

definition credential_rebind_only :: "json \<Rightarrow> bool" where
  "credential_rebind_only n \<longleftrightarrow>
     (\<exists>d. n = JObj d \<and> map_of d ''redaction_state'' = Some (JStr ''external_only'') \<and>
        map_of d ''required'' = Some (JBool True) \<and> truthy (field_or d ''binding'' JNull))"

lemma credential_error_not_Inr [simp]: "credential_error msg n \<noteq> Inr x"
  by (auto simp: credential_error_def bindR_eq_Inr)

lemma check_credential_ref_iff: "check_credential_ref n = Inr () \<longleftrightarrow> credential_rebind_only n"
proof (cases n)
  case (JObj d)
  show ?thesis
    unfolding check_credential_ref_def JObj py_get_or_field bindR_simps credential_rebind_only_def
    by (auto simp: field_or_JStr field_or_JBool split: if_splits)
qed (auto simp: check_credential_ref_def credential_rebind_only_def py_get_or_def)

definition chain_ends_at :: "obj \<Rightarrow> json \<Rightarrow> bool" where
  "chain_ends_at g chain \<longleftrightarrow>
     (\<exists>xs d. chain = JList xs \<and> xs \<noteq> [] \<and> last xs = JObj d \<and>
        py_eq (field_or d ''graph_id'' JNull) (field_or g ''graph_id'' JNull) \<and>
        py_eq (field_or d ''graph_hash'' JNull) (field_or g ''graph_hash'' JNull))"

lemma py_index_last: "xs \<noteq> [] \<Longrightarrow> py_index (JList xs) (- 1) = Inr (last xs)"
  by (cases xs) (simp_all add: py_index_def seq_pos_def last_conv_nth)

lemma check_provenance_chain_iff:
  "check_provenance_chain (JObj g) (JObj sec) = Inr chain \<longleftrightarrow>
   chain = field_or sec ''provenance_chain'' (JList []) \<and> chain_ends_at g chain"
proof -
  define c where "c = field_or sec ''provenance_chain'' (JList [])"
  show ?thesis
  proof (cases c)
    case (JList xs)
    show ?thesis
      unfolding check_provenance_chain_def py_get_or_field bindR_simps c_def [symmetric] chain_ends_at_def JList
      by (cases "xs = []")
        (auto simp: py_index_last bindR_eq_Inr py_get_or_eq_Inr field_or_def split: if_splits)
  qed (auto simp: check_provenance_chain_def py_get_or_field c_def [symmetric] chain_ends_at_def py_index_def seq_pos_def
      bindR_eq_Inr py_get_or_eq_Inr Let_def simp del: py_get_or_JObj split: if_splits)
qed

text \<open>Everything the policy promises of an accepted graph and manifest.\<close>

definition paths_ok :: "json \<Rightarrow> obj \<Rightarrow> bool" where
  "paths_ok g m \<longleftrightarrow>
     (\<exists>as. py_iter (field_or m ''artifacts'' (JList [])) = Inr as \<and> list_all entry_paths_allowed as) \<and>
     (\<exists>ans. artifact_nodes g = Inr ans \<and> list_all node_path_allowed ans)"

definition credentials_ok :: "json \<Rightarrow> bool" where
  "credentials_ok g \<longleftrightarrow> (\<exists>crs. credential_ref_nodes g = Inr crs \<and> list_all credential_rebind_only crs)"

definition security_satisfied :: "obj \<Rightarrow> obj \<Rightarrow> json \<Rightarrow> bool" where
  "security_satisfied g m target \<longleftrightarrow>
     (\<exists>sec signer hooks. map_of m ''security'' = Some (JObj sec) \<and> signed_by g sec signer \<and>
        field_or sec ''policy_hooks'' (JObj []) = JObj hooks \<and> allowlists_ok (JObj g) hooks target \<and>
        paths_ok (JObj g) m \<and> secret_free (JObj g) \<and> secret_free (JObj m) \<and> credentials_ok (JObj g) \<and>
        chain_ends_at g (field_or sec ''provenance_chain'' (JList [])))"

lemma check_artifact_paths_iff: "check_artifact_paths g (JObj m) = Inr () \<longleftrightarrow> paths_ok g m"
  unfolding paths_ok_def check_artifact_paths_def py_get_or_field bindR_simps list_all_iff
  by (auto simp: bindR_eq_Inr iterR_eq_Inr check_artifact_entry_path_iff check_artifact_node_path_iff)

lemma security_attestation_is_dict:
  "check_signature g sec = Inr signer \<Longrightarrow> \<exists>d. sec = JObj d"
  by (auto simp: check_signature_def bindR_eq_Inr py_get_or_eq_Inr)

lemma policy_hooks_is_dict:
  "check_allowlists g (JObj sec) target = Inr () \<Longrightarrow> \<exists>d. field_or sec ''policy_hooks'' (JObj []) = JObj d"
  by (auto simp: check_allowlists_def bindR_eq_Inr py_get_or_eq_Inr field_or_def)

lemma security_gate_iff:
  "(\<exists>r. validate_security_policy (JObj g) (JObj m) target = Inr r) \<longleftrightarrow> security_satisfied g m target"
proof
  assume "\<exists>r. validate_security_policy (JObj g) (JObj m) target = Inr r"
  then obtain signer chain crs u1 u2 u3 where s: "truthy (field_or m ''security'' JNull)"
    "check_signature (JObj g) (field_or m ''security'' JNull) = Inr signer"
    "check_allowlists (JObj g) (field_or m ''security'' JNull) target = Inr u1"
    "check_artifact_paths (JObj g) (JObj m) = Inr u2"
    "find_forbidden_secret_material (JObj g) ''$'' = []" "find_forbidden_secret_material (JObj m) ''$'' = []"
    "credential_ref_nodes (JObj g) = Inr crs" "iterR check_credential_ref crs = Inr u3"
    "check_provenance_chain (JObj g) (field_or m ''security'' JNull) = Inr chain"
    unfolding validate_security_policy_def py_get_or_field bindR_simps bindR_eq_Inr if_raise_eq_Inr Let_def
    by (elim exE conjE) (rule that; simp)
  obtain sec where sec: "field_or m ''security'' JNull = JObj sec" using security_attestation_is_dict [OF s(2)] by auto
  obtain hooks where hooks: "field_or sec ''policy_hooks'' (JObj []) = JObj hooks"
    using policy_hooks_is_dict [of "JObj g" sec target] s(3) sec by auto
  have sec': "map_of m ''security'' = Some (JObj sec)" "sec \<noteq> []"
    using sec s(1) by (auto simp: field_or_def split: option.splits)
  have "signed_by g sec signer" using s(2) sec by (simp add: check_signature_iff)
  moreover have "check_allowlists (JObj g) (JObj sec) target = Inr ()" using s(3) sec by simp
  note this [unfolded check_allowlists_iff [OF hooks]]
  moreover have "check_artifact_paths (JObj g) (JObj m) = Inr ()" using s(4) by simp
  note this [unfolded check_artifact_paths_iff]
  moreover have "secret_free (JObj g)" "secret_free (JObj m)" using s(5,6) by (simp_all only: find_forbidden_exact)
  moreover have "credentials_ok (JObj g)"
    using s(7,8) by (simp add: credentials_ok_def iterR_eq_Inr list_all_iff check_credential_ref_iff)
  moreover have "chain_ends_at g (field_or sec ''provenance_chain'' (JList []))"
    using s(9) sec by (auto simp: check_provenance_chain_iff)
  ultimately show "security_satisfied g m target"
    unfolding security_satisfied_def using sec' hooks by blast
next
  assume "security_satisfied g m target"
  then obtain sec signer hooks where s: "map_of m ''security'' = Some (JObj sec)" "signed_by g sec signer"
    "field_or sec ''policy_hooks'' (JObj []) = JObj hooks" and a: "allowlists_ok (JObj g) hooks target"
    and p: "paths_ok (JObj g) m" and f: "secret_free (JObj g)" "secret_free (JObj m)" and c: "credentials_ok (JObj g)"
    and ch: "chain_ends_at g (field_or sec ''provenance_chain'' (JList []))"
    unfolding security_satisfied_def by blast
  note a = a [folded check_allowlists_iff [OF s(3)]] and p = p [folded check_artifact_paths_iff]
  obtain crs where crs: "credential_ref_nodes (JObj g) = Inr crs" "iterR check_credential_ref crs = Inr ()"
    using c by (auto simp: credentials_ok_def iterR_eq_Inr list_all_iff check_credential_ref_iff)
  have "sec \<noteq> []" using s(2) by (auto simp: signed_by_def)
  obtain n where n: "py_len (field_or sec ''provenance_chain'' (JList [])) = Inr n"
    using ch by (auto simp: chain_ends_at_def)
  have "check_provenance_chain (JObj g) (JObj sec) = Inr (field_or sec ''provenance_chain'' (JList []))"
    using ch by (simp add: check_provenance_chain_iff)
  moreover have "check_signature (JObj g) (JObj sec) = Inr signer" using s(2) by (simp add: check_signature_iff)
  ultimately show "\<exists>r. validate_security_policy (JObj g) (JObj m) target = Inr r"
    unfolding validate_security_policy_def
    using s(1) \<open>sec \<noteq> []\<close> a p f crs n by (simp add: find_forbidden_exact del: secret_free.simps find_forbidden_secret_material.simps)
qed

text \<open>C6: The security gate is exactly its policy. The validation accepts if and only if the
  attestation is signed over the graph's hash by one of its trusted signers, the target runtime and
  every tool of the graph are on its allowlists, every artifact path of the manifest and of the
  graph is a relative path below reports/ with no parent step, no dictionary of graph or manifest
  has a secret key, every credential reference is external, required and has a rebind hint, and the
  provenance chain ends at this graph's identifier and hash.\<close>

theorem security_gate_exact:
  "(\<exists>r. validate_security_policy (JObj g) (JObj m) target = Inr r) \<longleftrightarrow> security_satisfied g m target"
  by (rule security_gate_iff)

section \<open>An attested graph passes\<close>

lemma sort_strings_members: "set (map JStr (sort ss)) = JStr ` set ss"
  by simp

lemma py_set_strs [simp]: "py_set (JList (map JStr ss)) = Inr (map JStr ss)"
  by (induction ss) (simp_all add: py_set_def)

lemma attested_allowlists:
  "in_allowlist (JStr RUNTIME_ID) hooks ''allowed_target_runtimes''"
  "in_allowlist (JStr t) hooks ''allowed_tools'' \<longleftrightarrow> t \<in> set ALLOWED_TOOL_NAMES"
  if "policy_hooks = JObj hooks"
  using that py_set_strs [of "sort ALLOWED_TARGET_RUNTIMES"] py_set_strs [of "sort ALLOWED_TOOL_NAMES"]
  by (auto simp: in_allowlist_def policy_hooks_def field_or_def ALLOWED_TARGET_RUNTIMES_def
      simp del: py_set_strs)

end
