(* ===== verification/GraphBuild.thy ===== *)
theory GraphBuild
  imports ToolReplay VectorMemory Security
begin

text \<open>
  Construction of the exported graph and its manifest (\<^verbatim>\<open>local_agent.py\<close>:
  \<open>run_reference_session\<close>, \<open>artifact_node_payload\<close>, \<open>build_graph\<close>,
  \<open>manifest_artifact\<close>, \<open>artifact_policy_entries\<close>, \<open>build_manifest\<close>). One
  definition per node literal of the source, composed in the source's order.
\<close>

section \<open>The reference session\<close>

definition reference_artifact_payload :: json where
  "reference_artifact_payload =
     JObj [(''status'', JStr ''complete''), (''title'', JStr ''Agent Memory Graph local export''),
     (''findings'', JList [JStr ''conversation state is reconstructable'', JStr ''tool output artifacts are content-addressed'', JStr ''continuation is deterministic after import''])]"

definition reference_messages :: "string \<Rightarrow> json list" where
  "reference_messages ahash =
     [JObj [(''role'', JStr ''system''), (''content'', JStr ''You are the PermeantOS local reference agent.'')],
     JObj [(''role'', JStr ''user''),
     (''content'', JStr ''Create a short migration report and remember its artifact.'')], JObj [(''role'',
     JStr ''assistant''), (''content'', JStr ''I will write a deterministic report artifact.'')], JObj [(''role'',
     JStr ''tool''), (''content'', JStr (''fs.write_file wrote '' @ ''reports/result.json'' @ '' with '' @ ahash @
     ''.''))], JObj [(''role'', JStr ''assistant''),
     (''content'', JStr ''The report artifact is complete and ready for migration.'')]]"

definition reference_artifact_bytes :: bytes where
  "reference_artifact_bytes = utf8_encode (dumps_pretty reference_artifact_payload @ [CHR 0x0A])"

definition run_reference_session :: "local_session res" where
  "run_reference_session =
     (let artifact_hash = sha256_bytes reference_artifact_bytes;
          msgs = reference_messages artifact_hash
      in bindR (reconstruct_prompt_from_messages msgs) (\<lambda>prompt.
           Inr \<lparr>messages = msgs, artifact_path = ''reports/result.json'', artifact_bytes = reference_artifact_bytes,
                deterministic_response = deterministic_continue prompt artifact_hash\<rparr>))"

section \<open>The graph\<close>

definition artifact_node_payload :: "artifact_record \<Rightarrow> obj" where
  "artifact_node_payload rec =
     (let payload =
        [(''actor_id'', JStr TOOL_ID), (''memory_scope'', JStr ''thread''), (''memory_tier'', JStr ''archival''),
         (''sensitivity'', JStr ''internal''), (''retention'', JStr ''durable''),
         (''redaction_state'', JStr ''none''), (''artifact_kind'', JStr ''file''), (''path'', JStr (ar_path rec)),
         (''uri'', JStr (''artifact://local/'' @ ar_path rec)),
         (''sha256'', JStr (removeprefix ''sha256:'' (content_hash rec))), (''size_bytes'', JInt (size_bytes rec)),
         (''media_type'', JStr (media_type rec)), (''root_ref'', JStr ''artifact-root:local-export''),
         (''restore_policy'', JStr ''required'')]
      in if disposition rec \<noteq> ''packaged'' then
           dict_update payload
             [(''redaction_state'', JStr (if disposition rec = ''redacted'' then ''redacted'' else ''external_only'')),
              (''artifact_kind'', JStr ''external''),
              (''uri'', JStr (''artifact://'' @ disposition rec @ ''/'' @ ar_path rec)),
              (''restore_policy'', JStr ''external_rebind''), (''rebind_required'', JBool True),
              (''packaging'', JStr (disposition rec))]
         else payload)"

definition event_start_node :: json where
  "event_start_node =
     base_node ''event:start:local'' ''event''
       [(''actor_id'', JStr USER_ID), (''event_kind'', JStr ''user_input''), (''memory_scope'', JStr ''thread''),
       (''memory_tier'', JStr ''active_context''), (''sensitivity'', JStr ''internal''),
       (''retention'', JStr ''session''), (''redaction_state'', JStr ''none'')]"

definition write_report_call_node :: "string \<Rightarrow> string \<Rightarrow> json" where
  "write_report_call_node path chash =
     base_node ''tool:call:write-report'' ''tool_call''
       [(''actor_id'', JStr AGENT_ID), (''memory_scope'', JStr ''thread''), (''memory_tier'', JStr ''working''),
       (''sensitivity'', JStr ''internal''), (''retention'', JStr ''durable''), (''redaction_state'', JStr ''none''),
       (''name'', JStr ''fs.write_file''), (''provider'', JStr ''local-reference''),
       (''call_id'', JStr ''call:write-report''), (''arguments_hash'', JStr (sha256_json
       (JObj [(''path'', JStr path), (''content_sha256'', JStr chash)]))), (''input_schema_hash'', JStr (sha256_json
       (JObj [(''path'', JStr ''string''), (''content'', JStr ''string'')]))),
       (''idempotency_key'', JStr ''local-reference-write-report''), (''side_effect'', JStr ''external_write''),
       (''status'', JStr ''completed''), (''resume_policy'', JStr ''never_retry''),
       (''approval_state'', JStr ''approved''), (''external_resource_ids'', JList [JStr (''file:'' @ path)])]"

definition write_report_result_node :: "string \<Rightarrow> string \<Rightarrow> json" where
  "write_report_result_node path chash =
     base_node ''tool:result:write-report'' ''tool_result''
       [(''actor_id'', JStr TOOL_ID), (''memory_scope'', JStr ''thread''), (''memory_tier'', JStr ''working''),
       (''sensitivity'', JStr ''internal''), (''retention'', JStr ''durable''), (''redaction_state'', JStr ''none''),
       (''result_hash'', JStr (sha256_json (JObj [(''path'', JStr path), (''sha256'', JStr chash)]))),
       (''output_schema_hash'', JStr (sha256_json (JObj [(''path'', JStr ''string''),
       (''sha256'', JStr ''string'')]))), (''is_error'', JBool False), (''resource_refs'', JList [JStr (''artifact:''
       @ path)]), (''status'', JStr ''completed'')]"

definition report_fact_node :: json where
  "report_fact_node =
     base_node ''memory:report-fact'' ''memory''
       [(''actor_id'', JStr AGENT_ID), (''memory_scope'', JStr ''thread''), (''memory_tier'', JStr ''recall''),
       (''sensitivity'', JStr ''internal''), (''retention'', JStr ''durable''), (''redaction_state'', JStr ''none''),
       (''quality_state'', JStr ''verified''), (''historical_state'', JStr ''current''),
       (''trust_level'', JStr ''derived''), (''valid_at'', JStr CREATED_AT), (''confidence'', flit 1),
       (''memory_kind'', JStr ''semantic''), (''text_hash'', JStr (sha256_bytes ''report artifact is complete'')),
       (''subject'', JStr ''artifact:report''), (''predicate'', JStr ''status''), (''object'', JStr ''complete''),
       (''namespace'', JList [JStr ''local-reference'', JStr ''facts'']), (''key'', JStr ''report-status''),
       (''embedding_model'', JStr EMBEDDING_MODEL), (''embedding_dim'', JInt (int EMBEDDING_DIM)),
       (''embedding_hash'', JStr (embedding_hash (deterministic_embedding ''artifact:report status complete''))),
       (''distance_metric'', JStr ''cosine''), (''vector_store_ref'', JStr VECTOR_STORE_REF),
       (''episode'', JObj [(''schema_version'', JStr ''local-reference-v0''),
       (''episode_id'', JStr ''episode:local-export''), (''continuity_state'', JStr ''open''),
       (''actor_ids'', JList [JStr AGENT_ID, JStr USER_ID]), (''started_at'', JStr CREATED_AT),
       (''boundary_labels'', JList [JStr ''task'', JStr ''session'']),
       (''causal_record_ids'', JList [JStr ''tool:call:write-report'']),
       (''related_record_ids'', JList [JStr ''artifact:report'']), (''salience'', JObj [(''reuse'', flit (5 / 10)),
       (''novelty'', flit (5 / 10)), (''unresolved'', flit (1 / 10))])]),
       (''conflict'', JObj [(''review_state'', JStr ''none''), (''conflicting_node_ids'', JList []),
       (''drift_score'', flit 0)]),
       (''lineage_links'', JList [JObj [(''node_id'', JStr ''tool:result:write-report''),
       (''relation'', JStr ''derived_from'')]])]"

definition prompt_checkpoint_node :: "string \<Rightarrow> json" where
  "prompt_checkpoint_node prompt =
     base_node ''checkpoint:prompt'' ''checkpoint''
       [(''actor_id'', JStr AGENT_ID), (''memory_scope'', JStr ''thread''), (''memory_tier'', JStr ''external''),
       (''sensitivity'', JStr ''internal''), (''retention'', JStr ''durable''), (''redaction_state'', JStr ''none''),
       (''checkpoint_kind'', JStr ''session''), (''state_hash'', JStr (sha256_bytes (utf8_encode prompt))),
       (''resume_ref'', JStr ''local-reference-session'')]"

definition prompt_kv_span_node :: "string \<Rightarrow> string \<Rightarrow> json" where
  "prompt_kv_span_node prompt thash =
     base_node ''kv:span:prompt'' ''kv_span''
       [(''actor_id'', JStr AGENT_ID), (''memory_scope'', JStr ''thread''),
       (''memory_tier'', JStr ''active_context''), (''sensitivity'', JStr ''internal''),
       (''retention'', JStr ''session''), (''redaction_state'', JStr ''none''), (''token_start'', JInt 0),
       (''token_end'', JInt (int (length (tokenize_prompt prompt)))), (''cache_ref'', JStr ''kv:simulated:prompt''),
       (''tokenizer_hash'', JStr TOKENIZER_HASH), (''block_hashes'', JList [JStr thash])]"

definition local_filesystem_credential_node :: json where
  "local_filesystem_credential_node =
     base_node ''credential:local-filesystem'' ''credential_ref''
       [(''actor_id'', JStr TOOL_ID), (''memory_scope'', JStr ''external''), (''memory_tier'', JStr ''external''),
       (''sensitivity'', JStr ''secret''), (''retention'', JStr ''delete_on_import''),
       (''redaction_state'', JStr ''external_only''), (''capability'', JStr ''local.filesystem.write''),
       (''binding'', JStr ''target runtime must authorize reports/ artifact writes''), (''required'', JBool True)]"

definition reference_edges :: "json list" where
  "reference_edges =
     [JObj [(''from'', JStr ''turn:assistant:3''), (''to'', JStr ''tool:call:write-report''),
     (''type'', JStr ''caused'')], JObj [(''from'', JStr ''tool:call:write-report''),
     (''to'', JStr ''tool:result:write-report''), (''type'', JStr ''produced'')], JObj [(''from'',
     JStr ''tool:call:write-report''), (''to'', JStr ''artifact:report''), (''type'', JStr ''produced'')],
     JObj [(''from'', JStr ''tool:result:write-report''), (''to'', JStr ''memory:report-fact''),
     (''type'', JStr ''produced'')], JObj [(''from'', JStr ''retrieval:report-memory''),
     (''to'', JStr ''memory:report-fact''), (''type'', JStr ''retrieved'')], JObj [(''from'',
     JStr ''checkpoint:prompt''), (''to'', JStr ''turn:user:2''), (''type'', JStr ''checkpointed'')],
     JObj [(''from'', JStr ''kv:span:prompt''), (''to'', JStr ''checkpoint:prompt''),
     (''type'', JStr ''references'')], JObj [(''from'', JStr ''credential:local-filesystem''),
     (''to'', JStr ''tool:call:write-report''), (''type'', JStr ''approves'')]]"

definition reference_graph_fields :: "json list \<Rightarrow> json list \<Rightarrow> string \<Rightarrow> string \<Rightarrow> obj" where
  "reference_graph_fields nodes edges prompt thash =
     [(''graph_id'', JStr ''graph:local-reference:0001''), (''graph_version'', JStr GRAPH_VERSION),
     (''created_at'', JStr CREATED_AT), (''agent'', JObj [(''id'', JStr AGENT_ID), (''runtime'', JStr RUNTIME_ID),
     (''model'', JStr MODEL_ID), (''runtime_version'', JStr ''0.1.0'')]),
     (''participants'', JList [JObj [(''id'', JStr AGENT_ID), (''kind'', JStr ''agent''),
     (''name'', JStr ''Local reference agent''), (''model'', JStr MODEL_ID)], JObj [(''id'', JStr USER_ID),
     (''kind'', JStr ''user''), (''name'', JStr ''Local reference user'')], JObj [(''id'', JStr TOOL_ID),
     (''kind'', JStr ''tool''), (''provider'', JStr ''local-reference'')], JObj [(''id'',
     JStr ''runtime:local-reference''), (''kind'', JStr ''runtime''), (''provider'', JStr ''local-reference'')]]),
     (''lineage'', JList [JObj [(''graph_id'', JStr ''graph:local-reference:0001''), (''event'', JStr ''exported''),
     (''created_at'', JStr CREATED_AT)]]), (''policies'', JObj [(''default_replay_policy'', JStr ''ask_user''),
     (''redaction_policy'', JStr ''required''), (''retention_policy'', JStr ''durable''),
     (''required_approval_for_side_effects'', JBool True)]), (''nodes'', JList nodes), (''edges'', JList edges),
     (''kv_spans'', JList [JObj [(''node_id'', JStr ''checkpoint:prompt''), (''token_start'', JInt 0),
     (''token_end'', JInt (int (length (tokenize_prompt prompt)))), (''cache_ref'', JStr ''kv:simulated:prompt''),
     (''tokenizer_hash'', JStr TOKENIZER_HASH), (''block_hashes'', JList [JStr thash])]]), (''graph_hash'', JStr [])]"

text \<open>One message node with its identifier; \<open>index\<close> counts from one.\<close>

definition message_node :: "nat \<times> json \<Rightarrow> (string \<times> json) res" where
  "message_node = (\<lambda>(index, message).
     bindR (py_item message ''role'') (\<lambda>role.
     bindR (py_item message ''content'') (\<lambda>content.
       let node_id = ''turn:'' @ py_str role @ '':'' @ nat_str index;
           actor_id = (if py_eq role (JStr ''tool'') then TOOL_ID
                       else if py_eq role (JStr ''user'') then USER_ID else AGENT_ID)
       in Inr (node_id, base_node node_id ''message''
            [(''actor_id'', JStr actor_id), (''memory_scope'', JStr ''thread''),
             (''memory_tier'', JStr ''active_context''), (''sensitivity'', JStr ''internal''),
             (''retention'', JStr ''session''), (''redaction_state'', JStr ''none''),
             (''role'', role), (''content'', content)]))))"

definition edge :: "string \<Rightarrow> string \<Rightarrow> string \<Rightarrow> json" where
  "edge src dst kind = JObj [(''from'', JStr src), (''to'', JStr dst), (''type'', JStr kind)]"

fun chain_edges :: "string \<Rightarrow> string list \<Rightarrow> json list" where
  "chain_edges previous [] = []"
| "chain_edges previous (node_id # ids) = edge previous node_id ''caused'' # chain_edges node_id ids"

definition fixed_nodes :: "string \<Rightarrow> artifact_record \<Rightarrow> string \<Rightarrow> string \<Rightarrow> json list" where
  "fixed_nodes path rec prompt thash =
     [write_report_call_node path (content_hash rec), write_report_result_node path (content_hash rec),
      base_node ''artifact:report'' ''artifact'' (artifact_node_payload rec), report_fact_node,
      prompt_checkpoint_node prompt,
      base_node ''retrieval:report-memory'' ''retrieval'' (vector_retrieval_payload ''report artifact complete''),
      prompt_kv_span_node prompt thash, local_filesystem_credential_node]"

definition build_graph :: "local_session \<Rightarrow> artifact_record \<Rightarrow> string \<Rightarrow> obj res" where
  "build_graph session rec prompt =
     bindR (mapR message_node (enum_from 1 (messages session))) (\<lambda>msgs.
     bindR (token_hash (tokenize_prompt prompt)) (\<lambda>thash.
       let nodes = event_start_node # map snd msgs @ fixed_nodes (artifact_path session) rec prompt thash;
           edges = chain_edges ''event:start:local'' (map fst msgs) @ reference_edges;
           graph = reference_graph_fields nodes edges prompt thash
       in bindR (canonical_graph_hash (JObj graph)) (\<lambda>h. Inr (dict_set ''graph_hash'' (JStr h) graph))))"

section \<open>The manifest\<close>

definition manifest_artifact :: "artifact_record \<Rightarrow> obj" where
  "manifest_artifact rec =
     (let artifact =
        [(''path'', JStr (ar_path rec)), (''sha256'', JStr (content_hash rec)), (''size_bytes'', JInt (size_bytes rec)),
         (''media_type'', JStr (media_type rec)), (''restore_policy'', JStr (restore_policy rec)),
         (''target_path'', JStr (target_path rec)), (''packaging'', JStr (disposition rec))];
          artifact1 = (case blob_path rec of Some b \<Rightarrow> dict_set ''blob_path'' (JStr b) artifact | None \<Rightarrow> artifact)
      in if rebind_required rec then dict_set ''rebind_required'' (JBool True) artifact1 else artifact1)"

definition artifact_policy_entries :: "artifact_record \<Rightarrow> string \<Rightarrow> json list" where
  "artifact_policy_entries rec disp =
     (if disposition rec \<noteq> disp then []
      else [JObj [(''path'', JStr (ar_path rec)), (''reason'', JStr ''export_policy'')]])"

definition manifest_fields ::
    "local_session \<Rightarrow> artifact_record \<Rightarrow> string \<Rightarrow> json \<Rightarrow> json \<Rightarrow> string \<Rightarrow> string \<Rightarrow> json \<Rightarrow> obj list \<Rightarrow> json \<Rightarrow> obj" where
  "manifest_fields session rec prompt ghash kv_spans thash kvh vector_snapshot audit security =
     [(''manifest_version'', JStr ''0.1''), (''created_at'', JStr CREATED_AT),
      (''graph_path'', JStr ''graph.json''), (''graph_hash'', ghash),
      (''artifact_store'', JObj [(''version'', JStr ARTIFACT_STORE_VERSION), (''layout'', JStr ''sha256-prefix''),
      (''root'', JStr ''artifacts/sha256'')]),
      (''restore_policy'', JObj [(''version'', JStr RESTORE_POLICY_VERSION),
      (''target_root'', JStr ''workspace''), (''path_mapping'', JStr ''preserve-relative-path''),
      (''on_hash_mismatch'', JStr ''fail''), (''on_missing_required'', JStr ''fail''),
      (''on_unresolved_external'', JStr ''require_explicit_rebind'')]),
      (''prompt'', JObj [(''reconstruction'', JStr ''permeant-local-reference-template-v0''),
      (''byte_hash'', JStr (sha256_bytes (utf8_encode prompt))), (''token_hash'', JStr thash),
      (''tokenizer_hash'', JStr TOKENIZER_HASH), (''token_count'', JInt (int (length (tokenize_prompt
      prompt))))]), (''kv'', JObj [(''mode'', JStr ''simulated''), (''cache_ref'', JStr ''kv:simulated:prompt''),
      (''kv_hash'', JStr kvh)]), (''kv_spans'', kv_spans), (''vector_memory'', vector_snapshot),
      (''side_effect_audit'', JList (map JObj audit)),
      (''artifact_policy'', JObj [(''version'', JStr ''artifact-export-policy-v0''),
      (''excluded_artifacts'', JList (artifact_policy_entries rec ''excluded'')),
      (''redacted_artifacts'', JList (artifact_policy_entries rec ''redacted''))]), (''security'', security),
      (''artifacts'', JList [JObj (manifest_artifact rec)]),
      (''deterministic_next_response'', JStr (deterministic_response session))]"

definition build_manifest :: "obj \<Rightarrow> local_session \<Rightarrow> string \<Rightarrow> artifact_record \<Rightarrow> obj res" where
  "build_manifest graph session prompt rec =
     bindR (build_vector_snapshot (JObj graph) (JStr ''report artifact complete'')) (\<lambda>vector_snapshot.
     bindR (py_item (JObj graph) ''graph_hash'') (\<lambda>ghash.
     bindR (token_hash (tokenize_prompt prompt)) (\<lambda>thash.
     bindR (simulated_kv_hash (tokenize_prompt prompt)) (\<lambda>kvh.
     bindR (py_item (JObj graph) ''kv_spans'') (\<lambda>kv_spans.
     bindR (audit_tool_replay_safety (JObj graph)) (\<lambda>audit.
     bindR (build_security_attestation (JObj graph)) (\<lambda>security.
       Inr (manifest_fields session rec prompt ghash kv_spans thash kvh vector_snapshot audit security))))))))"

end
