(* ===== verification/ComplexAgent.thy ===== *)
theory ComplexAgent
  imports GraphBuild
begin

text \<open>
  The complex continuity agent (\<^verbatim>\<open>local_agent.py\<close>: \<open>complex_artifact_payloads\<close>,
  \<open>run_complex_session\<close>, \<open>extend_graph_for_complex_agent\<close>) and the two exporters
  \<open>export_session\<close>, \<open>export_complex_session\<close>, which write the package to disk.
\<close>

section \<open>Literals\<close>

definition complex_json_payloads :: "(string \<times> json) list" where
  "complex_json_payloads =
     [(''reports/result.json'', JObj [(''status'', JStr ''complete''),
     (''title'', JStr ''Complex Agent Memory Graph migration report''),
     (''findings'', JList [JStr ''workspace state is restorable'', JStr ''retrieval memory survives export/import'', JStr ''pending work is policy-gated'', JStr ''graph/KV binding can attach to a live migration''])]),
     (''reports/research/plan.json'', JObj [(''plan_id'', JStr ''plan:complex-agent-migration''),
     (''steps'', JList [JObj [(''id'', JStr ''step:collect''), (''status'', JStr ''complete'')], JObj [(''id'',
     JStr ''step:compare''), (''status'', JStr ''complete'')], JObj [(''id'', JStr ''step:publish''),
     (''status'', JStr ''needs_user'')]]),
     (''decision'', JStr ''migrate live state after graph/KV evidence aligns'')]),
     (''reports/audit/retrieval.json'', JObj [(''query'', JStr ''which evidence proves the agent can continue after migration''),
     (''selected_memory'', JStr ''memory:complex-fidelity''), (''score'', flit (9875 / 10000)),
     (''policy'', JStr ''continuity_aware'')])]"

definition complex_notes :: string where
  "complex_notes = join [CHR 0x0A]
     [''# Complex Agent Continuity Notes'', [], ''- Maintains a working plan with completed and pending steps.'',
     ''- Carries retrieval memory and artifact references.'',
     ''- Requires explicit operator approval before external publish actions.'', []]"

definition complex_messages :: "string \<Rightarrow> json list" where
  "complex_messages ahash =
     [JObj [(''role'', JStr ''system''),
     (''content'', JStr ''You are the PermeantOS complex migration validation agent.'')], JObj [(''role'',
     JStr ''user''),
     (''content'', JStr ''Investigate whether a live agent can move with working memory, artifacts, and pending work.'')],
     JObj [(''role'', JStr ''assistant''),
     (''content'', JStr ''I will gather evidence, write artifacts, retain retrieval memory, and preserve a gated publish action.'')],
     JObj [(''role'', JStr ''tool''), (''content'', JStr (''fs.write_file wrote reports/result.json with '' @ ahash @
     ''.''))], JObj [(''role'', JStr ''assistant''),
     (''content'', JStr ''The primary report is complete. I will also create a migration plan and retrieval audit.'')],
     JObj [(''role'', JStr ''tool''),
     (''content'', JStr ''fs.write_file wrote reports/research/plan.json and reports/audit/retrieval.json.'')],
     JObj [(''role'', JStr ''assistant''),
     (''content'', JStr ''The agent now has completed artifacts, semantic memory, and one pending publish action requiring approval.'')],
     JObj [(''role'', JStr ''user''),
     (''content'', JStr ''Move now, but do not replay unsafe external writes after import.'')], JObj [(''role'',
     JStr ''assistant''),
     (''content'', JStr ''Ready to migrate. Completed writes are preserved, read-only checks may retry, and publish remains gated.'')]]"

definition write_plan_call_node :: json where
  "write_plan_call_node =
     base_node ''tool:call:write-plan'' ''tool_call''
       [(''actor_id'', JStr AGENT_ID), (''memory_scope'', JStr ''thread''), (''memory_tier'', JStr ''working''),
       (''sensitivity'', JStr ''internal''), (''retention'', JStr ''durable''), (''redaction_state'', JStr ''none''),
       (''name'', JStr ''fs.write_file''), (''provider'', JStr ''local-reference''),
       (''call_id'', JStr ''call:write-plan''), (''arguments_hash'', JStr (sha256_json
       (JObj [(''path'', JStr ''reports/research/plan.json'')]))), (''input_schema_hash'', JStr (sha256_json
       (JObj [(''path'', JStr ''string''), (''content'', JStr ''string'')]))),
       (''idempotency_key'', JStr ''complex-write-plan''), (''side_effect'', JStr ''external_write''),
       (''status'', JStr ''completed''), (''resume_policy'', JStr ''never_retry''),
       (''approval_state'', JStr ''approved''),
       (''external_resource_ids'', JList [JStr ''file:reports/research/plan.json''])]"

definition read_aws_quota_node :: json where
  "read_aws_quota_node =
     base_node ''tool:call:read-aws-quota'' ''tool_call''
       [(''actor_id'', JStr AGENT_ID), (''memory_scope'', JStr ''thread''), (''memory_tier'', JStr ''working''),
       (''sensitivity'', JStr ''internal''), (''retention'', JStr ''session''), (''redaction_state'', JStr ''none''),
       (''name'', JStr ''aws.ec2.describe_instances''), (''provider'', JStr ''aws''),
       (''call_id'', JStr ''call:read-aws-quota''), (''arguments_hash'', JStr (sha256_json
       (JObj [(''filters'', JList [JStr ''Project=permeant-os''])]))), (''input_schema_hash'', JStr (sha256_json
       (JObj [(''filters'', JStr ''array'')]))), (''idempotency_key'', JStr ''complex-read-aws''),
       (''side_effect'', JStr ''read_only''), (''status'', JStr ''not_started''),
       (''resume_policy'', JStr ''retry_safe''), (''approval_state'', JStr ''not_required'')]"

definition publish_release_node :: json where
  "publish_release_node =
     base_node ''tool:call:publish-release'' ''tool_call''
       [(''actor_id'', JStr AGENT_ID), (''memory_scope'', JStr ''thread''), (''memory_tier'', JStr ''working''),
       (''sensitivity'', JStr ''internal''), (''retention'', JStr ''durable''), (''redaction_state'', JStr ''none''),
       (''name'', JStr ''fs.write_file''), (''provider'', JStr ''local-reference''),
       (''call_id'', JStr ''call:publish-release''), (''arguments_hash'', JStr (sha256_json
       (JObj [(''path'', JStr ''reports/publish/announcement.md'')]))), (''input_schema_hash'', JStr (sha256_json
       (JObj [(''path'', JStr ''string''), (''content'', JStr ''string'')]))),
       (''idempotency_key'', JStr ''complex-publish-release''), (''side_effect'', JStr ''external_write''),
       (''status'', JStr ''needs_user''), (''resume_policy'', JStr ''ask_user''),
       (''approval_state'', JStr ''pending''),
       (''external_resource_ids'', JList [JStr ''file:reports/publish/announcement.md''])]"

definition complex_fidelity_node :: json where
  "complex_fidelity_node =
     base_node ''memory:complex-fidelity'' ''memory''
       [(''actor_id'', JStr AGENT_ID), (''memory_scope'', JStr ''thread''), (''memory_tier'', JStr ''recall''),
       (''sensitivity'', JStr ''internal''), (''retention'', JStr ''durable''), (''redaction_state'', JStr ''none''),
       (''quality_state'', JStr ''verified''), (''historical_state'', JStr ''current''),
       (''trust_level'', JStr ''derived''), (''valid_at'', JStr CREATED_AT), (''confidence'', flit (99 / 100)),
       (''memory_kind'', JStr ''semantic''), (''text_hash'', JStr (sha256_bytes
       ''complex agent migration preserves exact continuation'')), (''subject'', JStr ''migration:e2e''),
       (''predicate'', JStr ''continuation''), (''object'', JStr ''exact-16-token-fidelity''),
       (''namespace'', JList [JStr ''complex-agent'', JStr ''evidence'']), (''key'', JStr ''continuation-fidelity''),
       (''embedding_model'', JStr EMBEDDING_MODEL), (''embedding_dim'', JInt (int EMBEDDING_DIM)),
       (''embedding_hash'', JStr (embedding_hash (deterministic_embedding
       ''migration:e2e continuation exact-16-token-fidelity''))), (''distance_metric'', JStr ''cosine''),
       (''vector_store_ref'', JStr VECTOR_STORE_REF),
       (''episode'', JObj [(''schema_version'', JStr ''complex-agent-v0''),
       (''episode_id'', JStr ''episode:complex-agent''), (''continuity_state'', JStr ''open''),
       (''actor_ids'', JList [JStr AGENT_ID, JStr USER_ID, JStr ''operator:release-manager'']),
       (''started_at'', JStr CREATED_AT),
       (''boundary_labels'', JList [JStr ''migration'', JStr ''release'', JStr ''validation'']),
       (''causal_record_ids'', JList [JStr ''tool:call:write-report'', JStr ''tool:call:write-plan'']),
       (''related_record_ids'', JList [JStr ''artifact:report'', JStr ''artifact:plan'', JStr ''artifact:retrieval-audit'']),
       (''salience'', JObj [(''reuse'', flit (9 / 10)), (''novelty'', flit (7 / 10)), (''unresolved'', flit (4 /
       10))])]), (''conflict'', JObj [(''review_state'', JStr ''none''), (''conflicting_node_ids'', JList []),
       (''drift_score'', flit 0)]), (''lineage_links'', JList [JObj [(''node_id'', JStr ''tool:call:write-plan''),
       (''relation'', JStr ''derived_from'')]])]"

definition complex_evidence_node :: json where
  "complex_evidence_node =
     base_node ''retrieval:complex-evidence'' ''retrieval'' (dict_update (vector_retrieval_payload ''which evidence proves the agent can continue after migration'')
       [(''results'', JList [JObj [(''node_id'', JStr ''memory:complex-fidelity''), (''rank'', JInt 1),
       (''score'', flit (9875 / 10000)), (''score_kind'', JStr ''cosine''),
       (''score_breakdown'', JList [JObj [(''name'', JStr ''semantic''), (''value'', flit (82 / 100)),
       (''weight'', flit (7 / 10))], JObj [(''name'', JStr ''recency''), (''value'', flit (95 / 100)),
       (''weight'', flit (2 / 10))], JObj [(''name'', JStr ''trust''), (''value'', flit (99 / 100)),
       (''weight'', flit (1 / 10))]]), (''candidate_source'', JStr ''semantic_neighbor''),
       (''snippet_hash'', JStr (sha256_bytes ''exact continuation after migration''))]]),
       (''selection_policy'', JStr ''continuity_high_confidence'')])"

definition pending_release_node :: json where
  "pending_release_node =
     base_node ''event:pending-release'' ''event''
       [(''actor_id'', JStr ''operator:release-manager''), (''event_kind'', JStr ''approval_required''),
       (''memory_scope'', JStr ''thread''), (''memory_tier'', JStr ''working''),
       (''sensitivity'', JStr ''internal''), (''retention'', JStr ''session''), (''redaction_state'', JStr ''none'')]"

definition complex_edges :: "json list" where
  "complex_edges =
     [JObj [(''from'', JStr ''turn:assistant:5''), (''to'', JStr ''tool:call:write-plan''),
     (''type'', JStr ''caused'')], JObj [(''from'', JStr ''tool:call:write-plan''), (''to'', JStr ''artifact:plan''),
     (''type'', JStr ''produced'')], JObj [(''from'', JStr ''tool:call:write-plan''),
     (''to'', JStr ''artifact:retrieval-audit''), (''type'', JStr ''produced'')], JObj [(''from'',
     JStr ''tool:call:write-plan''), (''to'', JStr ''artifact:context-notes''), (''type'', JStr ''produced'')],
     JObj [(''from'', JStr ''artifact:plan''), (''to'', JStr ''memory:complex-fidelity''),
     (''type'', JStr ''produced'')], JObj [(''from'', JStr ''retrieval:complex-evidence''),
     (''to'', JStr ''memory:complex-fidelity''), (''type'', JStr ''retrieved'')], JObj [(''from'',
     JStr ''event:pending-release''), (''to'', JStr ''tool:call:publish-release''), (''type'', JStr ''caused'')],
     JObj [(''from'', JStr ''tool:call:read-aws-quota''), (''to'', JStr ''memory:complex-fidelity''),
     (''type'', JStr ''references'')]]"

section \<open>Session\<close>

definition complex_artifact_payloads :: "(string \<times> bytes) list" where
  "complex_artifact_payloads =
     map (\<lambda>(path, payload). (path, utf8_encode (dumps_pretty payload @ [CHR 0x0A]))) complex_json_payloads @
     [(''reports/context/notes.md'', utf8_encode complex_notes)]"

definition run_complex_session :: "local_session res" where
  "run_complex_session =
     (case map_of (rev complex_artifact_payloads) ''reports/result.json'' of
        None \<Rightarrow> Inl (KeyError ''reports/result.json'')
      | Some data \<Rightarrow>
          (let artifact_hash = sha256_bytes data; msgs = complex_messages artifact_hash
           in bindR (reconstruct_prompt_from_messages msgs) (\<lambda>prompt.
                Inr \<lparr>messages = msgs, artifact_path = ''reports/result.json'', artifact_bytes = data,
                     deterministic_response = deterministic_continue prompt artifact_hash\<rparr>)))"

section \<open>Mutating a dictionary in place\<close>

text \<open>\<open>graph[k].append(v)\<close> and \<open>graph[k].extend(vs)\<close>, and \<open>graph[k][j] = v\<close>.\<close>

definition extend_list_field :: "string \<Rightarrow> json list \<Rightarrow> obj \<Rightarrow> obj res" where
  "extend_list_field k vs d =
     bindR (py_item (JObj d) k) (\<lambda>v.
       case v of JList xs \<Rightarrow> Inr (dict_set k (JList (xs @ vs)) d) | _ \<Rightarrow> Inl (no_attr v ''append''))"

definition set_in_field :: "string \<Rightarrow> string \<Rightarrow> json \<Rightarrow> obj \<Rightarrow> obj res" where
  "set_in_field k j v d =
     bindR (py_item (JObj d) k) (\<lambda>w.
       case w of JObj e \<Rightarrow> Inr (dict_set k (JObj (dict_set j v e)) d)
       | _ \<Rightarrow> Inl (TypeError (repr_str (type_name w) @ '' object does not support item assignment'')))"

text \<open>The loop that overwrites the results of every vector retrieval node.\<close>

definition set_retrieval_results :: "json \<Rightarrow> json \<Rightarrow> json res" where
  "set_retrieval_results results node =
     bindR (py_get node ''type'') (\<lambda>t.
     if \<not> py_eq t (JStr ''retrieval'') then Inr node
     else
       bindR (py_get node ''retrieval_kind'') (\<lambda>k.
       if py_eq k (JStr ''vector'')
       then (case node of JObj d \<Rightarrow> Inr (JObj (dict_set ''results'' results d)) | _ \<Rightarrow> Inr node)
       else Inr node))"

definition update_nodes :: "(json \<Rightarrow> json res) \<Rightarrow> obj \<Rightarrow> obj res" where
  "update_nodes f d =
     bindR (py_get_or (JObj d) ''nodes'' (JList [])) (\<lambda>ns.
     bindR (py_iter ns) (\<lambda>xs.
     bindR (mapR f xs) (\<lambda>ys.
       Inr (if map_of d ''nodes'' = None then d else dict_set ''nodes'' (JList ys) d))))"

definition find_record :: "string \<Rightarrow> artifact_record list \<Rightarrow> artifact_record res" where
  "find_record path recs =
     (case find (\<lambda>r. ar_path r = path) (rev recs) of Some r \<Rightarrow> Inr r | None \<Rightarrow> Inl (KeyError path))"

definition complex_nodes :: "artifact_record list \<Rightarrow> json list res" where
  "complex_nodes extra =
     bindR (find_record ''reports/research/plan.json'' extra) (\<lambda>plan.
     bindR (find_record ''reports/audit/retrieval.json'' extra) (\<lambda>retrieval.
     bindR (find_record ''reports/context/notes.md'' extra) (\<lambda>notes.
       Inr [write_plan_call_node, read_aws_quota_node, publish_release_node, complex_fidelity_node,
            complex_evidence_node, pending_release_node,
            base_node ''artifact:plan'' ''artifact'' (artifact_node_payload plan),
            base_node ''artifact:retrieval-audit'' ''artifact'' (artifact_node_payload retrieval),
            base_node ''artifact:context-notes'' ''artifact'' (artifact_node_payload notes)])))"

definition extend_graph_for_complex_agent :: "obj \<Rightarrow> artifact_record list \<Rightarrow> obj res" where
  "extend_graph_for_complex_agent graph recs =
     bindR (set_in_field ''agent'' ''id'' (JStr ''agent:complex-continuity'')
              (dict_set ''graph_id'' (JStr ''graph:complex-agent:0001'') graph)) (\<lambda>g1.
     bindR (extend_list_field ''participants''
              [JObj [(''id'', JStr ''operator:release-manager''), (''kind'', JStr ''user''),
                     (''name'', JStr ''Release manager'')]] g1) (\<lambda>g2.
     bindR (extend_list_field ''lineage''
              [JObj [(''graph_id'', JStr ''graph:complex-agent:0001''),
                     (''event'', JStr ''validated_for_real_runtime_e2e''), (''created_at'', JStr CREATED_AT)]] g2) (\<lambda>g3.
     bindR (set_in_field ''policies'' ''required_approval_for_publish'' (JBool True) g3) (\<lambda>g4.
     bindR (complex_nodes (tl recs)) (\<lambda>nodes.
     bindR (extend_list_field ''nodes'' nodes g4) (\<lambda>g5.
     bindR (extend_list_field ''edges'' complex_edges g5) (\<lambda>g6.
     bindR (compute_vector_snapshot (JObj g6) (JStr ''report artifact complete'')) (\<lambda>snapshot.
     bindR (update_nodes (set_retrieval_results (vs_expected_results snapshot)) g6) (\<lambda>g7.
     bindR (canonical_graph_hash (JObj g7)) (\<lambda>h.
       Inr (dict_set ''graph_hash'' (JStr h) g7)))))))))))"

section \<open>Exporters\<close>

definition default_policy :: artifact_export_policy where
  "default_policy = \<lparr>exclude_paths = [], redact_paths = []\<rparr>"

definition reference_package :: "artifact_export_policy \<Rightarrow> (local_session \<times> artifact_record \<times> obj \<times> obj) res" where
  "reference_package policy =
     bindR run_reference_session (\<lambda>session.
     bindR (reconstruct_prompt_from_messages (messages session)) (\<lambda>prompt.
     let rec = build_artifact_record session policy
     in bindR (build_graph session rec prompt) (\<lambda>graph.
        bindR (build_manifest graph session prompt rec) (\<lambda>manifest.
          Inr (session, rec, graph, manifest)))))"

definition clear_dir :: "pypath \<Rightarrow> unit io" where
  "clear_dir d = bindIO (exists_io d) (\<lambda>e. if e then rmtree d else returnIO ())"

definition write_blob :: "pypath \<Rightarrow> artifact_record \<times> bytes \<Rightarrow> unit io" where
  "write_blob output_dir = (\<lambda>(rec, data).
     case blob_path rec of
       None \<Rightarrow> returnIO ()
     | Some b \<Rightarrow> write_with_parents (path_sub output_dir b) data)"

definition write_package :: "pypath \<Rightarrow> (artifact_record \<times> bytes) list \<Rightarrow> obj \<Rightarrow> obj \<Rightarrow> unit io" where
  "write_package output_dir blobs graph manifest =
     bindIO (clear_dir output_dir) (\<lambda>_.
     bindIO (mapIO (write_blob output_dir) blobs) (\<lambda>_.
     bindIO (write_json (path_sub output_dir ''graph.json'') (JObj graph)) (\<lambda>_.
       write_json (path_sub output_dir ''manifest.json'') (JObj manifest))))"

definition export_session :: "pypath \<Rightarrow> artifact_export_policy \<Rightarrow> obj io" where
  "export_session output_dir policy =
     bindIO (liftR (reference_package policy)) (\<lambda>(session, rec, graph, manifest).
     bindIO (write_package output_dir [(rec, artifact_bytes session)] graph manifest) (\<lambda>_.
       returnIO manifest))"

definition complexity_summary :: "obj \<Rightarrow> nat \<Rightarrow> obj res" where
  "complexity_summary graph artifact_count =
     bindR (py_item (JObj graph) ''nodes'') (\<lambda>ns. bindR (py_len ns) (\<lambda>node_count.
     bindR (py_item (JObj graph) ''edges'') (\<lambda>es. bindR (py_len es) (\<lambda>edge_count.
     bindR (tool_call_nodes (JObj graph)) (\<lambda>tcs.
     bindR (memory_nodes (JObj graph)) (\<lambda>ms.
     bindR (retrieval_nodes (JObj graph)) (\<lambda>rs.
     bindR (filterR (\<lambda>n. bindR (py_get n ''status'') (\<lambda>s. py_in_strs s PENDING_TOOL_STATUSES)) tcs) (\<lambda>pending.
       Inr [(''profile'', JStr ''complex-agent-continuity-v0''), (''node_count'', JInt node_count),
            (''edge_count'', JInt edge_count), (''artifact_count'', JInt (int artifact_count)),
            (''tool_call_count'', JInt (int (length tcs))), (''memory_count'', JInt (int (length ms))),
            (''retrieval_count'', JInt (int (length rs))),
            (''pending_tool_call_count'', JInt (int (length pending)))]))))))))"

definition complex_manifest :: "obj \<Rightarrow> artifact_record list \<Rightarrow> obj \<Rightarrow> obj res" where
  "complex_manifest graph recs manifest =
     bindR (audit_tool_replay_safety (JObj graph)) (\<lambda>audit.
     bindR (build_vector_snapshot (JObj graph) (JStr ''report artifact complete'')) (\<lambda>snapshot.
     bindR (build_security_attestation (JObj graph)) (\<lambda>security.
     bindR (complexity_summary graph (length recs)) (\<lambda>complexity.
       Inr (dict_update manifest
         [(''artifacts'', JList (map (JObj \<circ> manifest_artifact) recs)),
          (''side_effect_audit'', JList (map JObj audit)), (''vector_memory'', snapshot),
          (''security'', security), (''complexity'', JObj complexity)])))))"

definition complex_package :: "artifact_export_policy \<Rightarrow> (artifact_record list \<times> obj \<times> obj) res" where
  "complex_package policy =
     bindR run_complex_session (\<lambda>session.
     bindR (reconstruct_prompt_from_messages (messages session)) (\<lambda>prompt.
     let recs = map (\<lambda>(path, data). build_artifact_record_from_bytes path data policy) complex_artifact_payloads
     in bindR (build_graph session (hd recs) prompt) (\<lambda>g0.
        bindR (extend_graph_for_complex_agent g0 recs) (\<lambda>graph.
        bindR (build_manifest graph session prompt (hd recs)) (\<lambda>m0.
        bindR (complex_manifest graph recs m0) (\<lambda>manifest.
          Inr (recs, graph, manifest)))))))"

definition export_complex_session :: "pypath \<Rightarrow> artifact_export_policy \<Rightarrow> obj io" where
  "export_complex_session output_dir policy =
     bindIO (liftR (complex_package policy)) (\<lambda>(recs, graph, manifest).
     bindIO (write_package output_dir (zip recs (map snd complex_artifact_payloads)) graph manifest) (\<lambda>_.
       returnIO manifest))"

end
