(* ===== verification/ImportSession.thy ===== *)
theory ImportSession
  imports ComplexAgent
begin

text \<open>
  Importing a package (\<^verbatim>\<open>local_agent.py\<close>: \<open>verify_graph\<close>,
  \<open>validate_artifact_manifest_entry\<close>, \<open>verify_artifacts\<close>, \<open>restore_artifacts\<close>,
  \<open>import_session\<close>). Every operation threads the file system; the verification phase only
  reads it.
\<close>

section \<open>Graph and artifact verification\<close>

definition verify_graph :: "json \<Rightarrow> json \<Rightarrow> unit res" where
  "verify_graph graph expected_hash =
     bindR (canonical_graph_hash graph) (\<lambda>actual_hash.
     if \<not> py_eq (JStr actual_hash) expected_hash
     then Inl (ImportVerificationError
            (''graph hash mismatch: expected '' @ py_str expected_hash @ '', got '' @ actual_hash))
     else
       bindR (py_get graph ''graph_hash'') (\<lambda>field.
       if \<not> py_eq field expected_hash
       then Inl (ImportVerificationError ''graph hash field does not match manifest'')
       else Inr ()))"

text \<open>\<open>raise ImportVerificationError(f"...{artifact['path']}")\<close>.\<close>

definition path_error :: "string \<Rightarrow> json \<Rightarrow> 'a res" where
  "path_error msg artifact =
     bindR (py_item artifact ''path'') (\<lambda>p. Inl (ImportVerificationError (msg @ py_str p)))"

definition unknown_path_error :: "string \<Rightarrow> json \<Rightarrow> 'a res" where
  "unknown_path_error msg artifact =
     bindR (py_get_or artifact ''path'' (JStr ''<unknown>'')) (\<lambda>p. Inl (ImportVerificationError (msg @ py_str p)))"

definition validate_artifact_manifest_entry :: "json \<Rightarrow> unit res" where
  "validate_artifact_manifest_entry artifact =
     bindR (py_get_or artifact ''restore_policy'' (JStr ''required'')) (\<lambda>policy.
     bindR (py_get artifact ''blob_path'') (\<lambda>bp.
     bindR (py_get artifact ''sha256'') (\<lambda>sh.
     if \<not> truthy sh then unknown_path_error ''artifact is missing sha256 evidence: '' artifact
     else if py_eq policy (JStr ''external_rebind'') then
       (if truthy bp then path_error ''external rebind artifact must not include a blob path: '' artifact
        else
          bindR (py_get artifact ''rebind_required'') (\<lambda>rr.
          if rr \<noteq> JBool True
          then path_error ''external artifact must be explicitly marked rebindable: '' artifact
          else Inr ()))
     else if \<not> truthy bp then unknown_path_error ''unresolved artifact is not explicitly rebindable: '' artifact
     else Inr ())))"

definition verify_packaged_artifact :: "pypath \<Rightarrow> json \<Rightarrow> json io" where
  "verify_packaged_artifact package_dir artifact =
     bindIO (liftR (py_item artifact ''blob_path'')) (\<lambda>bp.
     bindIO (liftR (safe_package_relative_path bp)) (\<lambda>rel.
     let blob = path_join package_dir rel
     in bindIO (exists_io blob) (\<lambda>present.
        if \<not> present then raiseIO (ImportVerificationError (''missing artifact blob: '' @ py_str bp))
        else
          bindIO (file_sha256_and_size blob) (\<lambda>(actual_hash, actual_size).
          bindIO (liftR (py_item artifact ''sha256'')) (\<lambda>expected.
          if \<not> py_eq (JStr actual_hash) expected then
            bindIO (liftR (py_item artifact ''path'')) (\<lambda>p.
              raiseIO (ImportVerificationError
                (''artifact hash mismatch for '' @ py_str p @ '': expected '' @ py_str expected @ '', got '' @ actual_hash)))
          else
            bindIO (liftR (py_item artifact ''size_bytes'')) (\<lambda>sz.
            if \<not> py_eq (JInt actual_size) sz
            then liftR (path_error ''artifact size mismatch for '' artifact)
            else
              bindIO (liftR (py_item artifact ''path'')) (\<lambda>p.
                returnIO (JObj [(''path'', p), (''blob_path'', bp), (''sha256'', JStr actual_hash)]))))))))"

definition verify_artifact :: "pypath \<Rightarrow> json \<Rightarrow> json io" where
  "verify_artifact package_dir artifact =
     bindIO (liftR (validate_artifact_manifest_entry artifact)) (\<lambda>_.
     bindIO (liftR (py_get artifact ''restore_policy'')) (\<lambda>policy.
     if py_eq policy (JStr ''external_rebind'') then
       bindIO (liftR (py_item artifact ''path'')) (\<lambda>p.
       bindIO (liftR (py_get artifact ''sha256'')) (\<lambda>sh.
         returnIO (JObj [(''path'', p), (''sha256'', sh), (''status'', JStr ''rebind_required''),
                         (''policy'', JStr ''external_rebind'')])))
     else verify_packaged_artifact package_dir artifact))"

definition manifest_artifacts :: "json \<Rightarrow> json list res" where
  "manifest_artifacts manifest = bindR (py_item manifest ''artifacts'') py_iter"

definition verify_artifacts :: "pypath \<Rightarrow> json \<Rightarrow> json list io" where
  "verify_artifacts package_dir manifest =
     bindIO (liftR (manifest_artifacts manifest)) (mapIO (verify_artifact package_dir))"

section \<open>Restoration\<close>

text \<open>From the second hash check on: quarantine, refuse, or copy into the workspace.\<close>

definition restore_checked :: "pypath \<Rightarrow> pypath \<Rightarrow> pypath \<Rightarrow> json \<Rightarrow> json \<Rightarrow> json \<Rightarrow> json io" where
  "restore_checked workspace_dir source target_relative policy artifact p =
     (let target = path_join workspace_dir target_relative;
          quarantine = path_join (path_sub workspace_dir ''.permeantos-quarantine'') target_relative
      in bindIO (file_sha256_and_size source) (\<lambda>(actual_hash, actual_size).
         bindIO (liftR (py_item artifact ''sha256'')) (\<lambda>expected.
         if \<not> py_eq (JStr actual_hash) expected then
           (if py_eq policy (JStr ''quarantine_on_mismatch'') then
              bindIO (copy_file_streaming_with_hash source quarantine) (\<lambda>(qh, qs).
                returnIO (JObj [(''path'', p), (''target_path'', JStr (as_posix quarantine)),
                  (''status'', JStr ''quarantined''), (''policy'', policy), (''sha256'', JStr qh),
                  (''size_bytes'', JInt qs)]))
            else raiseIO (ImportVerificationError
                   (''artifact hash mismatch while restoring '' @ py_str p @ '': expected '' @ py_str expected @
                    '', got '' @ actual_hash)))
         else
           bindIO (copy_file_streaming_with_hash source target) (\<lambda>(rh, rs).
             returnIO (JObj [(''path'', p), (''target_path'', JStr (as_posix target_relative)),
               (''status'', JStr ''restored''), (''policy'', policy), (''sha256'', JStr rh),
               (''size_bytes'', JInt rs)])))))"

definition restore_packaged_artifact :: "pypath \<Rightarrow> pypath \<Rightarrow> json \<Rightarrow> json \<Rightarrow> json io" where
  "restore_packaged_artifact package_dir workspace_dir policy artifact =
     bindIO (liftR (py_item artifact ''blob_path'')) (\<lambda>bp.
     bindIO (liftR (safe_package_relative_path bp)) (\<lambda>rel.
     bindIO (liftR (py_item artifact ''path'')) (\<lambda>p.
     bindIO (liftR (py_get_or artifact ''target_path'' p)) (\<lambda>tp.
     bindIO (liftR (safe_workspace_relative_path tp)) (\<lambda>target_relative.
       restore_checked workspace_dir (path_join package_dir rel) target_relative policy artifact p)))))"

definition restore_artifact :: "pypath \<Rightarrow> pypath \<Rightarrow> json \<Rightarrow> json io" where
  "restore_artifact package_dir workspace_dir artifact =
     bindIO (liftR (py_get_or artifact ''restore_policy'' (JStr ''required''))) (\<lambda>policy.
     if py_eq policy (JStr ''external_rebind'') then
       bindIO (liftR (py_item artifact ''path'')) (\<lambda>p.
       bindIO (liftR (py_get artifact ''sha256'')) (\<lambda>sh.
         returnIO (JObj [(''path'', p), (''status'', JStr ''rebind_required''), (''policy'', policy), (''sha256'', sh)])))
     else restore_packaged_artifact package_dir workspace_dir policy artifact)"

definition restore_artifacts :: "pypath \<Rightarrow> json \<Rightarrow> pypath \<Rightarrow> json list io" where
  "restore_artifacts package_dir manifest workspace_dir =
     bindIO (liftR (manifest_artifacts manifest)) (mapIO (restore_artifact package_dir workspace_dir))"

section \<open>The import\<close>

record import_result =
  ir_graph_hash :: json
  ir_artifact_hashes :: obj
  ir_artifact_store :: json
  ir_verified_artifacts :: "json list"
  ir_restored_workspace :: string
  ir_restore_report :: "json list"
  ir_security :: json
  ir_side_effect_audit :: "obj list"
  ir_vector_memory :: json
  ir_prompt_byte_hash :: string
  ir_prompt_token_hash :: string
  ir_kv_hash :: string
  ir_deterministic_next_response :: string

text \<open>The policy and replay gates, before any artifact is looked at.\<close>

definition check_package :: "json \<Rightarrow> json \<Rightarrow> json \<Rightarrow> (json \<times> obj list \<times> json) res" where
  "check_package graph manifest target_runtime =
     bindR (py_item manifest ''graph_hash'') (\<lambda>expected_hash.
     bindR (verify_graph graph expected_hash) (\<lambda>_.
     bindR (validate_security_policy graph manifest target_runtime) (\<lambda>security_report.
     bindR (audit_tool_replay_safety graph) (\<lambda>audit.
     bindR (reject_unsafe_tool_replay audit) (\<lambda>_.
     bindR (validate_vector_memory graph manifest) (\<lambda>vector_report.
       Inr (security_report, audit, vector_report)))))))"

text \<open>The continuation checks, after restoration: prompt bytes, tokens, simulated KV state and the
  deterministic next response.\<close>

definition check_continuation :: "json \<Rightarrow> json \<Rightarrow> (string \<times> string \<times> string \<times> string) res" where
  "check_continuation graph manifest =
     bindR (reconstruct_prompt graph) (\<lambda>prompt.
     let tokens = tokenize_prompt prompt; byte_hash = sha256_bytes (utf8_encode prompt)
     in bindR (token_hash tokens) (\<lambda>thash.
        bindR (simulated_kv_hash tokens) (\<lambda>kvh.
        bindR (py_item manifest ''prompt'') (\<lambda>mp.
        bindR (py_item mp ''byte_hash'') (\<lambda>mb.
        if \<not> py_eq (JStr byte_hash) mb then Inl (ImportVerificationError ''prompt byte hash mismatch'')
        else
          bindR (py_item mp ''token_hash'') (\<lambda>mt.
          if \<not> py_eq (JStr thash) mt then Inl (ImportVerificationError ''prompt token hash mismatch'')
          else
            bindR (py_item manifest ''kv'') (\<lambda>mk.
            bindR (py_item mk ''kv_hash'') (\<lambda>mkh.
            if \<not> py_eq (JStr kvh) mkh then Inl (ImportVerificationError ''simulated KV hash mismatch'')
            else
              bindR (py_item manifest ''artifacts'') (\<lambda>arts.
              bindR (py_index arts 0) (\<lambda>art.
              bindR (py_item art ''sha256'') (\<lambda>ah.
              let continuation = deterministic_continue prompt (py_str ah)
              in bindR (py_item manifest ''deterministic_next_response'') (\<lambda>mr.
                 if \<not> py_eq (JStr continuation) mr
                 then Inl (ImportVerificationError ''deterministic continuation mismatch'')
                 else Inr (byte_hash, thash, kvh, continuation)))))))))))))"

definition artifact_hash_entry :: "json \<Rightarrow> (string \<times> json) res" where
  "artifact_hash_entry artifact =
     bindR (py_item artifact ''path'') (\<lambda>p.
     bindR (py_item artifact ''sha256'') (\<lambda>sh.
       case p of JStr s \<Rightarrow> Inr (s, sh) | _ \<Rightarrow> Inl (OutsideModel ''artifact path that is not a string'')))"

definition import_session :: "pypath \<Rightarrow> pypath option \<Rightarrow> json \<Rightarrow> import_result io" where
  "import_session package_dir workspace target_runtime =
     bindIO (read_json (path_sub package_dir ''manifest.json'')) (\<lambda>manifest.
     bindIO (liftR (bindR (py_item manifest ''graph_path'') safe_package_relative_path)) (\<lambda>graph_path.
     bindIO (read_json (path_join package_dir graph_path)) (\<lambda>graph.
     bindIO (liftR (check_package graph manifest target_runtime)) (\<lambda>(security_report, audit, vector_report).
     bindIO (verify_artifacts package_dir manifest) (\<lambda>verified.
     let workspace_dir = (case workspace of Some w \<Rightarrow> w | None \<Rightarrow> path_sub package_dir ''restored-workspace'')
     in bindIO (restore_artifacts package_dir manifest workspace_dir) (\<lambda>restore_report.
        bindIO (liftR (check_continuation graph manifest)) (\<lambda>(byte_hash, thash, kvh, continuation).
        bindIO (liftR (py_item graph ''graph_hash'')) (\<lambda>gh.
        bindIO (liftR (bindR (manifest_artifacts manifest) (mapR artifact_hash_entry))) (\<lambda>hashes.
        bindIO (liftR (py_item manifest ''artifact_store'')) (\<lambda>store.
          returnIO \<lparr>ir_graph_hash = gh, ir_artifact_hashes = dict_update [] hashes, ir_artifact_store = store,
            ir_verified_artifacts = verified, ir_restored_workspace = as_posix workspace_dir,
            ir_restore_report = restore_report, ir_security = security_report, ir_side_effect_audit = audit,
            ir_vector_memory = vector_report, ir_prompt_byte_hash = byte_hash, ir_prompt_token_hash = thash,
            ir_kv_hash = kvh, ir_deterministic_next_response = continuation\<rparr>))))))))))"

section \<open>Verification reads, restoration writes below the workspace\<close>

text \<open>An operation that never changes the file system.\<close>

definition pure_io :: "'a io \<Rightarrow> bool" where
  "pure_io m \<longleftrightarrow> (\<forall>s. snd (m s) = s)"

text \<open>An operation whose effect on file contents, returning or raising, is confined below a
  directory.\<close>

definition confined :: "pypath \<Rightarrow> 'a io \<Rightarrow> bool" where
  "confined d m \<longleftrightarrow> (\<forall>s q. \<not> below d q \<longrightarrow> files (snd (m s)) q = files s q)"

named_theorems io_frame \<open>pure and confined operations\<close>

lemma pure_liftR [io_frame]: "pure_io (liftR r)"
  by (simp add: pure_io_def)

lemma pure_returnIO [io_frame]: "pure_io (returnIO x)"
  by (simp add: pure_io_def)

lemma pure_raiseIO [io_frame]: "pure_io (raiseIO e)"
  by (simp add: pure_io_def)

lemma pure_bindIO [io_frame]: "pure_io m \<Longrightarrow> (\<And>x. pure_io (f x)) \<Longrightarrow> pure_io (bindIO m f)"
  unfolding pure_io_def bindIO_def by (auto split: prod.splits sum.splits) (metis snd_conv)+

lemma pure_exists [io_frame]: "pure_io (exists_io p)"
  by (simp add: pure_io_def exists_io_def)

lemma pure_file_sha [io_frame]: "pure_io (file_sha256_and_size p)"
  by (simp add: pure_io_def file_sha256_and_size_state)

lemma pure_read_json [io_frame]: "pure_io (read_json p)"
  unfolding pure_io_def using read_json_state by (metis prod.collapse)

lemma pure_mapIO [io_frame]: "(\<And>x. pure_io (f x)) \<Longrightarrow> pure_io (mapIO f xs)"
  by (induction xs) (auto intro: io_frame)

lemma pure_if [io_frame]: "(b \<Longrightarrow> pure_io m) \<Longrightarrow> (\<not> b \<Longrightarrow> pure_io n) \<Longrightarrow> pure_io (if b then m else n)"
  by simp

lemma pure_case_prod [io_frame]: "(\<And>x y. pure_io (f x y)) \<Longrightarrow> pure_io (case p of (x, y) \<Rightarrow> f x y)"
  by (cases p) simp

lemma pure_verify_packaged: "pure_io (verify_packaged_artifact pkg a)"
  unfolding verify_packaged_artifact_def Let_def by (intro io_frame)

lemma pure_verify_artifacts: "pure_io (verify_artifacts pkg m)"
  unfolding verify_artifacts_def verify_artifact_def by (intro io_frame pure_verify_packaged)

lemma pure_state: "pure_io m \<Longrightarrow> m s = (r, s') \<Longrightarrow> s' = s"
  unfolding pure_io_def by (metis snd_conv)

lemma confined_pure: "pure_io m \<Longrightarrow> confined d m"
  by (simp add: pure_io_def confined_def)

lemma confined_simps [simp]: "confined d (liftR r)" "confined d (returnIO x)" "confined d (raiseIO e)"
  by (simp_all add: confined_pure io_frame)

lemma confined_bindIO: "confined d m \<Longrightarrow> (\<And>x. confined d (f x)) \<Longrightarrow> confined d (bindIO m f)"
  unfolding confined_def bindIO_def by (auto split: prod.splits sum.splits) (metis snd_conv)+

text \<open>The continuation of a pure step may use what the step returned.\<close>

lemma confined_liftR: "(\<And>x. r = Inr x \<Longrightarrow> confined d (f x)) \<Longrightarrow> confined d (bindIO (liftR r) f)"
  by (cases r) (auto simp: confined_def bindIO_def)

lemma confined_copy: "below d t \<Longrightarrow> confined d (copy_file_streaming_with_hash src t)"
  unfolding confined_def by (metis files_copy_frame prod.collapse)

lemma confined_mapIO: "(\<And>x. confined d (f x)) \<Longrightarrow> confined d (mapIO f xs)"
  by (induction xs) (simp_all add: confined_pure io_frame confined_bindIO)

lemma below_quarantine:
  "anchor t = [] \<Longrightarrow> below w (path_join (path_sub w ''.permeantos-quarantine'') t)"
  by (auto simp: below_def path_join_def path_sub_def is_absolute_def Path_def path_root_def prefix_def)

lemma confined_restore_checked:
  assumes "anchor t = []"
  shows "confined w (restore_checked w src t pol a p)"
proof -
  have "confined w (copy_file_streaming_with_hash src (path_join w t))"
    "confined w (copy_file_streaming_with_hash src (path_join (path_sub w ''.permeantos-quarantine'') t))"
    using assms by (simp_all add: confined_copy below_join below_quarantine)
  then show ?thesis
    unfolding restore_checked_def Let_def
    by (auto intro!: confined_bindIO confined_pure [OF pure_file_sha] split: prod.split)
qed

lemma confined_restore_packaged: "confined w (restore_packaged_artifact pkg w pol a)"
  unfolding restore_packaged_artifact_def
  by (intro confined_liftR confined_restore_checked)
    (simp add: safe_workspace_relative_path_def safe_relative_path_ok)

lemma confined_restore_artifacts: "confined w (restore_artifacts pkg m w)"
  unfolding restore_artifacts_def restore_artifact_def
  by (intro confined_liftR confined_mapIO) (auto intro!: confined_liftR confined_restore_packaged)

section \<open>What an import does to the file system\<close>

definition import_workspace :: "pypath \<Rightarrow> pypath option \<Rightarrow> pypath" where
  "import_workspace package_dir workspace =
     (case workspace of Some w \<Rightarrow> w | None \<Rightarrow> path_sub package_dir ''restored-workspace'')"

text \<open>The gates of an import at a state: manifest and graph read, the policy gates passed, every
  artifact blob verified.\<close>

definition gates_passed :: "pypath \<Rightarrow> json \<Rightarrow> fs \<Rightarrow> json \<Rightarrow> json \<Rightarrow> bool" where
  "gates_passed pkg target s manifest graph \<longleftrightarrow>
     read_json (path_sub pkg ''manifest.json'') s = (Inr manifest, s) \<and>
     (\<exists>gp. bindR (py_item manifest ''graph_path'') safe_package_relative_path = Inr gp \<and>
        read_json (path_join pkg gp) s = (Inr graph, s)) \<and>
     (\<exists>x. check_package graph manifest target = Inr x) \<and>
     (\<exists>v. verify_artifacts pkg manifest s = (Inr v, s))"

lemma import_cases:
  assumes "import_session pkg w target s = (r, s')"
  obtains (rejected) e where "r = Inl e" and "s' = s"
    | (passed) manifest graph r1 where "gates_passed pkg target s manifest graph"
        and "restore_artifacts pkg manifest (import_workspace pkg w) s = (r1, s')"
        and "\<And>res. r = Inr res \<Longrightarrow> \<exists>rep c. r1 = Inr rep \<and> ir_restore_report res = rep \<and>
              check_continuation graph manifest = Inr c"
proof (cases "\<exists>manifest graph. gates_passed pkg target s manifest graph")
  case False
  define rj va where "rj = (\<lambda>p. fst (read_json p s))" and "va = (\<lambda>m. fst (verify_artifacts pkg m s))"
  have st: "read_json p s = (rj p, s)" "verify_artifacts pkg m s = (va m, s)" for p m
    using pure_read_json pure_verify_artifacts unfolding pure_io_def rj_def va_def by (metis prod.collapse)+
  from False have "\<exists>e. r = Inl e \<and> s' = s"
    using assms unfolding import_session_def gates_passed_def st bindIO_def
    by (auto simp: st split: sum.splits)
  then show ?thesis using that(1) by blast
next
  case True
  then obtain manifest graph where g: "gates_passed pkg target s manifest graph" by blast
  then obtain gp x v where rd: "read_json (path_sub pkg ''manifest.json'') s = (Inr manifest, s)"
    "bindR (py_item manifest ''graph_path'') safe_package_relative_path = Inr gp"
    "read_json (path_join pkg gp) s = (Inr graph, s)" "check_package graph manifest target = Inr x"
    "verify_artifacts pkg manifest s = (Inr v, s)"
    unfolding gates_passed_def by blast
  obtain r1 s1 where r1: "restore_artifacts pkg manifest (import_workspace pkg w) s = (r1, s1)" by fastforce
  have "s' = s1 \<and> (\<forall>res. r = Inr res \<longrightarrow> (\<exists>rep c. r1 = Inr rep \<and> ir_restore_report res = rep \<and>
      check_continuation graph manifest = Inr c))"
    using assms r1 rd unfolding import_session_def import_workspace_def Let_def
    by (auto simp: bindIO_def split: prod.splits sum.splits)
  then show ?thesis using that(2) [OF g] r1 by blast
qed

text \<open>C2: Nothing is written before everything is verified. If an import, returning or raising,
  changed the file system in any way, then the manifest and graph were read, the graph hash, the
  security policy, the replay gate and the vector memory were accepted, and every artifact blob
  matched its manifest entry, all in the state before the import.\<close>

theorem no_write_before_verification:
  assumes "import_session pkg w target s = (r, s')" and "s' \<noteq> s"
  shows "\<exists>manifest graph. gates_passed pkg target s manifest graph"
  using assms(1) by (cases rule: import_cases) (use assms(2) in auto)

text \<open>C3: Confinement. Whatever the package says, an import, returning or raising, creates, changes
  or removes the contents of no file outside its workspace directory.\<close>

theorem import_confined:
  assumes "import_session pkg w target s = (r, s')" and "\<not> below (import_workspace pkg w) q"
  shows "files s' q = files s q"
  using assms(1)
proof (cases rule: import_cases)
  case (passed manifest graph r1)
  then show ?thesis
    using confined_restore_artifacts [of "import_workspace pkg w" pkg manifest] assms(2)
    unfolding confined_def by (metis snd_conv)
qed simp

section \<open>Restored artifacts are the verified ones\<close>

definition external :: "json \<Rightarrow> bool" where
  "external a \<longleftrightarrow> (\<exists>d. a = JObj d \<and> map_of d ''restore_policy'' = Some (JStr ''external_rebind''))"

definition blob_rel :: "json \<Rightarrow> pypath res" where
  "blob_rel a = bindR (py_item a ''blob_path'') safe_package_relative_path"

definition target_rel :: "json \<Rightarrow> pypath res" where
  "target_rel a =
     bindR (py_item a ''path'') (\<lambda>p. bindR (py_get_or a ''target_path'' p) safe_workspace_relative_path)"

definition verified_blob :: "pypath \<Rightarrow> fs \<Rightarrow> json \<Rightarrow> bytes \<Rightarrow> bool" where
  "verified_blob pkg s a b \<longleftrightarrow>
     (\<exists>rel. blob_rel a = Inr rel \<and> files s (path_join pkg rel) = Some b) \<and>
     py_item a ''sha256'' = Inr (JStr (sha256_bytes b)) \<and>
     (\<exists>sz. py_item a ''size_bytes'' = Inr sz \<and> py_eq (JInt (int (length b))) sz)"

lemma file_sha_Inr: "file_sha256_and_size p s = (Inr (h, n), s') \<longleftrightarrow>
   s' = s \<and> (\<exists>b. files s p = Some b \<and> h = sha256_bytes b \<and> n = int (length b))"
  by (auto simp: file_sha256_and_size_eq files_eq_Some split: sum.splits)

lemma liftR_eq [simp]: "liftR r s = (x, t) \<longleftrightarrow> r = x \<and> t = s"
  by auto

lemma verify_packaged_ok:
  assumes "verify_packaged_artifact pkg a s = (Inr v, s')"
  shows "\<exists>b. verified_blob pkg s a b"
proof -
  obtain bp rel h n ex sz p where "py_item a ''blob_path'' = Inr bp" "safe_package_relative_path bp = Inr rel"
    "file_sha256_and_size (path_join pkg rel) s = (Inr (h, n), s')" "py_item a ''sha256'' = Inr ex" "ex = JStr h"
    "py_item a ''size_bytes'' = Inr sz" "py_eq (JInt n) sz"
    using assms unfolding verify_packaged_artifact_def Let_def exists_io_def
    by (auto simp: bindIO_eq_Inr path_error_def bindR_eq_Inr split: if_splits prod.splits)
  then show ?thesis by (auto simp: verified_blob_def blob_rel_def file_sha_Inr)
qed

lemma verify_artifact_ok:
  assumes "verify_artifact pkg a s = (Inr v, s')"
  shows "external a \<or> (\<exists>b. verified_blob pkg s a b)"
proof -
  obtain d where d: "a = JObj d"
    using assms by (auto simp: verify_artifact_def validate_artifact_manifest_entry_def bindIO_eq_Inr bindR_eq_Inr py_get_or_eq_Inr)
  show ?thesis
  proof (cases "external a")
    case False
    then have "field_or d ''restore_policy'' JNull \<noteq> JStr ''external_rebind''"
      by (auto simp: external_def d field_or_def split: option.splits)
    then have "verify_packaged_artifact pkg a s = (Inr v, s')"
      using assms unfolding verify_artifact_def d py_get_or_field
      by (auto simp: bindIO_eq_Inr)
    then show ?thesis using verify_packaged_ok by blast
  qed simp
qed

lemma verify_artifacts_ok:
  assumes "verify_artifacts pkg m s = (Inr v, s')"
  shows "\<exists>as. manifest_artifacts m = Inr as \<and> (\<forall>a\<in>set as. external a \<or> (\<exists>b. verified_blob pkg s a b))"
proof -
  obtain as where as: "manifest_artifacts m = Inr as" "mapIO (verify_artifact pkg) as s = (Inr v, s')"
    using assms by (auto simp: verify_artifacts_def bindIO_eq_Inr)
  have p: "pure_io (verify_artifact pkg a)" for a
    unfolding verify_artifact_def by (intro io_frame pure_verify_packaged)
  have "\<forall>a\<in>set as. external a \<or> (\<exists>b. verified_blob pkg s a b)" using as(2)
  proof (induction as arbitrary: v)
    case (Cons a as)
    obtain y s1 ys where y: "verify_artifact pkg a s = (Inr y, s1)" "mapIO (verify_artifact pkg) as s1 = (Inr ys, s')"
      using Cons.prems by (auto simp: bindIO_eq_Inr)
    have "s1 = s" by (rule pure_state [OF p y(1)])
    with Cons.IH y verify_artifact_ok [OF y(1)] show ?case by simp
  qed simp
  with as show ?thesis by blast
qed

text \<open>Restoring one verified artifact writes exactly its bytes to its target.\<close>

lemma restore_artifact_ok:
  assumes "restore_artifact pkg w a s = (Inr rep, s')" and "\<not> external a" and "verified_blob pkg s a b"
    and rel: "blob_rel a = Inr rel" and "\<not> below w (path_join pkg rel)"
  shows "\<exists>t. target_rel a = Inr t \<and> files s' = (files s)(path_join w t \<mapsto> b)"
    and "\<exists>d. rep = JObj d \<and> map_of d ''status'' = Some (JStr ''restored'')"
proof -
  have sh: "py_item a ''sha256'' = Inr (JStr (sha256_bytes b))" and b: "files s (path_join pkg rel) = Some b"
    using assms(3) rel by (auto simp: verified_blob_def)
  obtain d where d: "a = JObj d" using sh by (auto simp: py_item_eq_Inr)
  have "field_or d ''restore_policy'' (JStr ''required'') \<noteq> JStr ''external_rebind''"
    using assms(2) by (auto simp: external_def d field_or_def split: option.splits)
  then obtain pol where "restore_packaged_artifact pkg w pol a s = (Inr rep, s')"
    using assms(1) unfolding restore_artifact_def d py_get_or_field by (auto simp: bindIO_eq_Inr)
  then obtain bp rel' p tp t where "py_item a ''blob_path'' = Inr bp" "safe_package_relative_path bp = Inr rel'"
    and t: "py_item a ''path'' = Inr p" "py_get_or a ''target_path'' p = Inr tp" "safe_workspace_relative_path tp = Inr t"
    and c: "restore_checked w (path_join pkg rel') t pol a p s = (Inr rep, s')"
    unfolding restore_packaged_artifact_def by (auto simp: bindIO_eq_Inr)
  with rel have "rel' = rel" by (simp add: blob_rel_def)
  have at: "anchor t = []" using t(3) by (simp add: safe_workspace_relative_path_def safe_relative_path_ok)
  then have ne: "path_join pkg rel \<noteq> path_join w t" using assms(5) below_join by metis
  obtain rh rs where cp: "copy_file_streaming_with_hash (path_join pkg rel) (path_join w t) s = (Inr (rh, rs), s')"
    and rep: "rep = JObj [(''path'', p), (''target_path'', JStr (as_posix t)),
               (''status'', JStr ''restored''), (''policy'', pol), (''sha256'', JStr rh), (''size_bytes'', JInt rs)]"
    using c b sh unfolding restore_checked_def \<open>rel' = rel\<close>
    by (auto simp: bindIO_eq_Inr Let_def file_sha_Inr split: if_splits prod.splits)
  have "target_rel a = Inr t" using t by (simp add: target_rel_def)
  with files_copy [OF cp ne] b show "\<exists>t. target_rel a = Inr t \<and> files s' = (files s)(path_join w t \<mapsto> b)" by auto
  show "\<exists>d. rep = JObj d \<and> map_of d ''status'' = Some (JStr ''restored'')" using rep by simp
qed

text \<open>An external entry leaves the file system alone.\<close>

lemma restore_external:
  assumes "restore_artifact pkg w a s = (Inr rep, s')" and "external a"
  shows "s' = s" and "\<exists>d. rep = JObj d \<and> map_of d ''status'' = Some (JStr ''rebind_required'')"
  using assms by (auto simp: restore_artifact_def external_def bindIO_eq_Inr)

definition target_path_of :: "pypath \<Rightarrow> json \<Rightarrow> pypath option" where
  "target_path_of w a =
     (if external a then None else case target_rel a of Inr t \<Rightarrow> Some (path_join w t) | Inl _ \<Rightarrow> None)"

definition blob_outside :: "pypath \<Rightarrow> pypath \<Rightarrow> json \<Rightarrow> bool" where
  "blob_outside pkg w a \<longleftrightarrow> (\<forall>rel. blob_rel a = Inr rel \<longrightarrow> \<not> below w (path_join pkg rel))"

lemma target_below: "target_path_of w a = Some p \<Longrightarrow> below w p"
  by (auto simp: target_path_of_def target_rel_def bindR_eq_Inr safe_workspace_relative_path_def
      safe_relative_path_ok split: if_splits sum.splits)

lemma restore_list_ok:
  assumes "mapIO (restore_artifact pkg w) as s = (Inr reps, s')"
    and "\<forall>a\<in>set as. external a \<or> (\<exists>b. verified_blob pkg s a b)" and "\<forall>a\<in>set as. blob_outside pkg w a"
    and "distinct (List.map_filter (target_path_of w) as)"
  shows "(\<forall>a\<in>set as. external a \<or> (\<exists>b t. verified_blob pkg s a b \<and> target_rel a = Inr t \<and> files s' (path_join w t) = Some b)) \<and>
    list_all2 (\<lambda>a rep. \<exists>d. rep = JObj d \<and> map_of d ''status'' =
       Some (JStr (if external a then ''rebind_required'' else ''restored''))) as reps \<and>
    (\<forall>q. q \<notin> set (List.map_filter (target_path_of w) as) \<longrightarrow> files s' q = files s q)"
  using assms
proof (induction as arbitrary: s reps)
  case (Cons a as)
  obtain rep s1 reps' where r: "restore_artifact pkg w a s = (Inr rep, s1)" "mapIO (restore_artifact pkg w) as s1 = (Inr reps', s')"
    "reps = rep # reps'"
    using Cons.prems(1) by (auto simp: bindIO_eq_Inr)
  show ?case
  proof (cases "external a")
    case True
    with restore_external [OF r(1)] have "s1 = s" "\<exists>d. rep = JObj d \<and> map_of d ''status'' = Some (JStr ''rebind_required'')" by auto
    with True Cons r show ?thesis by (simp add: List.map_filter_simps target_path_of_def)
  next
    case False
    then obtain b rel where b: "verified_blob pkg s a b" "blob_rel a = Inr rel"
      using Cons.prems(2) by (auto simp: verified_blob_def)
    with Cons.prems(3) have "\<not> below w (path_join pkg rel)" by (simp add: blob_outside_def)
    from restore_artifact_ok [OF r(1) False b this] obtain t where
      t: "target_rel a = Inr t" "files s1 = (files s)(path_join w t \<mapsto> b)"
      and rep: "\<exists>d. rep = JObj d \<and> map_of d ''status'' = Some (JStr ''restored'')" by blast
    have tp: "target_path_of w a = Some (path_join w t)" using False t(1) by (simp add: target_path_of_def)
    have v: "verified_blob pkg s1 x c \<longleftrightarrow> verified_blob pkg s x c" if "x \<in> set as" for x c
      using Cons.prems(3) that t(2) target_below [OF tp]
      by (auto simp: verified_blob_def blob_outside_def split: if_splits) metis+
    have "\<forall>a\<in>set as. external a \<or> (\<exists>b. verified_blob pkg s1 a b)" using Cons.prems(2) v by auto
    then have IH: "(\<forall>a\<in>set as. external a \<or> (\<exists>b t. verified_blob pkg s1 a b \<and> target_rel a = Inr t \<and> files s' (path_join w t) = Some b)) \<and>
      list_all2 (\<lambda>a rep. \<exists>d. rep = JObj d \<and> map_of d ''status'' =
       Some (JStr (if external a then ''rebind_required'' else ''restored''))) as reps' \<and>
      (\<forall>q. q \<notin> set (List.map_filter (target_path_of w) as) \<longrightarrow> files s' q = files s1 q)"
      using Cons.prems(3,4) by (intro Cons.IH [OF r(2)]) (auto simp: List.map_filter_simps split: option.splits)
    have nt: "path_join w t \<notin> set (List.map_filter (target_path_of w) as)"
      using Cons.prems(4) tp by (simp add: List.map_filter_simps)
    then have "files s' (path_join w t) = Some b" using IH t(2) by simp
    with IH v b(1) t rep False tp show ?thesis by (auto simp: r(3) List.map_filter_simps)
  qed
qed (simp add: List.map_filter_simps)

text \<open>A successful import restores exactly the verified bytes. If the package's blobs lie outside
  the workspace and no two packaged artifacts share a target, then after the import every artifact
  entry of the manifest is either an external one, reported "rebind_required", or is reported
  "restored" and its workspace file holds bytes whose SHA-256 and length are the manifest's. In
  particular no artifact is quarantined, and no other file changed.\<close>

theorem import_restores_artifacts:
  assumes "import_session pkg w target s = (Inr res, s')"
    and "gates_passed pkg target s manifest graph" and "manifest_artifacts manifest = Inr as"
    and "list_all (blob_outside pkg (import_workspace pkg w)) as"
    and "distinct (List.map_filter (target_path_of (import_workspace pkg w)) as)"
  shows "list_all (\<lambda>a. external a \<or> (\<exists>b t. verified_blob pkg s a b \<and> target_rel a = Inr t \<and>
           files s' (path_join (import_workspace pkg w) t) = Some b)) as \<and>
    list_all2 (\<lambda>a rep. \<exists>d. rep = JObj d \<and> map_of d ''status'' =
           Some (JStr (if external a then ''rebind_required'' else ''restored''))) as (ir_restore_report res) \<and>
    (\<forall>q. q \<notin> set (List.map_filter (target_path_of (import_workspace pkg w)) as) \<longrightarrow> files s' q = files s q)"
proof -
  from assms(1) obtain manifest' graph' rep where g: "gates_passed pkg target s manifest' graph'"
    and r: "restore_artifacts pkg manifest' (import_workspace pkg w) s = (Inr rep, s')" "ir_restore_report res = rep"
    by (cases rule: import_cases) auto
  have m: "manifest' = manifest" using g assms(2) by (auto simp: gates_passed_def)
  obtain v where "verify_artifacts pkg manifest s = (Inr v, s)" using assms(2) by (auto simp: gates_passed_def)
  then have "\<forall>a\<in>set as. external a \<or> (\<exists>b. verified_blob pkg s a b)"
    using verify_artifacts_ok assms(3) by fastforce
  moreover have "mapIO (restore_artifact pkg (import_workspace pkg w)) as s = (Inr rep, s')"
    using r(1) assms(3) by (auto simp: restore_artifacts_def m bindIO_eq_Inr)
  ultimately have *: "(\<forall>a\<in>set as. external a \<or> (\<exists>b t. verified_blob pkg s a b \<and> target_rel a = Inr t \<and> files s' (path_join (import_workspace pkg w) t) = Some b)) \<and>
    list_all2 (\<lambda>a rep. \<exists>d. rep = JObj d \<and> map_of d ''status'' =
       Some (JStr (if external a then ''rebind_required'' else ''restored''))) as rep \<and>
    (\<forall>q. q \<notin> set (List.map_filter (target_path_of (import_workspace pkg w)) as) \<longrightarrow> files s' q = files s q)"
    using assms(4,5) by (intro restore_list_ok) (auto simp: list_all_iff)
  with r(2) show ?thesis by (simp add: list_all_iff)
qed

end
