(* ===== verification/KeyOrder.thy ===== *)
theory KeyOrder
  imports ImportSession
begin

text \<open>
  The importer reads the JSON files the exporter wrote with sorted keys. This theory shows that its
  gates do not see the difference: each check gives on the sorted graph and manifest what it gives
  on the dictionaries the exporter held in memory, as long as the fields it reads are scalars.
\<close>

section \<open>Scalar fields\<close>

text \<open>Equal lookups are all an operation can see of a dictionary it only subscripts.\<close>

lemma same_lookup: "map_of d k = map_of e k \<Longrightarrow> py_item (JObj d) k = py_item (JObj e) k"
  "map_of d k = map_of e k \<Longrightarrow> py_get_or (JObj d) k v = py_get_or (JObj e) k v"
  by simp_all

definition scalar_fields :: "string list \<Rightarrow> obj \<Rightarrow> bool" where
  "scalar_fields ks d \<longleftrightarrow> (\<forall>k\<in>set ks. \<forall>v. map_of d k = Some v \<longrightarrow> hashable v)"

lemma scalar_lookup:
  assumes "wf_json (JObj d)" and "scalar_fields ks d" and "k \<in> set ks"
  shows "map_of (sorted_obj d) k = map_of d k"
  using assms by (cases "map_of d k") (auto simp: scalar_fields_def sort_keys_hashable simp del: wf_json.simps)

lemma scalar_item:
  assumes "wf_json (JObj d)" and "scalar_fields ks d" and "k \<in> set ks"
  shows "py_item (JObj (sorted_obj d)) k = py_item (JObj d) k"
    and "py_get_or (JObj (sorted_obj d)) k v = py_get_or (JObj d) k v"
  using same_lookup [OF scalar_lookup [OF assms]] by blast+

definition flat :: "json \<Rightarrow> bool" where
  "flat a \<longleftrightarrow> (\<exists>d. a = JObj d \<and> (\<forall>v\<in>ran (map_of d). hashable v))"

lemma flat_lookup: "wf_json (JObj d) \<Longrightarrow> flat (JObj d) \<Longrightarrow> map_of (sorted_obj d) = map_of d"
  by (rule ext) (auto simp: flat_def ran_def sort_keys_hashable option.map_sel simp del: wf_json.simps
      split: option.splits intro!: option.map_ident_strong)

lemma flat_item:
  assumes "wf_json a" and "flat a"
  shows "py_item (sort_keys a) = py_item a" and "py_get_or (sort_keys a) = py_get_or a"
proof -
  obtain d where d: "a = JObj d" using assms(2) by (auto simp: flat_def)
  show "py_item (sort_keys a) = py_item a" "py_get_or (sort_keys a) = py_get_or a"
    using flat_lookup assms unfolding d sort_keys_JObj by (auto simp: fun_eq_iff simp del: wf_json.simps)
qed

section \<open>Nodes\<close>

definition graph_nodes :: "obj \<Rightarrow> json list \<Rightarrow> bool" where
  "graph_nodes g ns \<longleftrightarrow> map_of g ''nodes'' = Some (JList ns) \<and> wf_json (JObj g)"

lemma graph_nodes_wf: "graph_nodes g ns \<Longrightarrow> n \<in> set ns \<Longrightarrow> wf_json n"
  using wf_py_item [of "JObj g" "''nodes''" "JList ns"]
  by (auto simp: graph_nodes_def list_all_iff simp del: wf_json.simps(2))

lemma filterR_sort:
  assumes "\<And>x. x \<in> set xs \<Longrightarrow> f (sort_keys x) = f x"
  shows "filterR f (map sort_keys xs) = map_sum id (map sort_keys) (filterR f xs)"
  using assms
proof (induction xs)
  case (Cons x xs)
  have "filterR f (map sort_keys xs) = map_sum id (map sort_keys) (filterR f xs)"
    by (intro Cons.IH) (use Cons.prems in simp)
  moreover have "f (sort_keys x) = f x" using Cons.prems by simp
  ultimately show ?case by (cases "f x"; cases "filterR f xs") (auto simp: bindR_def)
qed simp

lemma nodes_of_type_sorted:
  assumes "graph_nodes g ns"
  shows "nodes_of_type kind (JObj (sorted_obj g)) = map_sum id (map sort_keys) (nodes_of_type kind (JObj g))"
proof -
  let ?f = "\<lambda>node. bindR (py_get node ''type'') (\<lambda>t. Inr (py_eq t (JStr kind)))"
  have "?f (sort_keys n) = ?f n" if "n \<in> set ns" for n
    using graph_nodes_wf [OF assms that] py_get_sort_keys [of n "''type''"]
    by (cases "py_get n ''type''") auto
  then have "filterR ?f (map sort_keys ns) = map_sum id (map sort_keys) (filterR ?f ns)"
    by (rule filterR_sort)
  then show ?thesis
    using assms by (simp add: nodes_of_type_def graph_nodes_def del: wf_json.simps)
qed

lemma nodes_of_type_member:
  "graph_nodes g ns \<Longrightarrow> nodes_of_type kind (JObj g) = Inr xs \<Longrightarrow> x \<in> set xs \<Longrightarrow> x \<in> set ns"
  by (auto simp: nodes_of_type_def graph_nodes_def filterR_eq_Inr)


text \<open>The nodes of a kind are dictionaries; mapping or iterating an operation that reads only scalar
  fields over them gives the same on the sorted graph.\<close>

lemma nodes_of_type_dicts:
  assumes "graph_nodes g ns" and "nodes_of_type kind (JObj g) = Inr xs"
  obtains ds where "xs = map JObj ds" and "\<And>d. d \<in> set ds \<Longrightarrow> wf_json (JObj d)"
    and "nodes_of_type kind (JObj (sorted_obj g)) = Inr (map (JObj \<circ> sorted_obj) ds)"
proof -
  have "\<exists>d. x = JObj d" if "x \<in> set xs" for x
    using assms that by (auto simp: nodes_of_type_def graph_nodes_def filterR_eq_Inr bindR_eq_Inr py_get_or_eq_Inr)
  then have xs: "xs = map JObj (map (\<lambda>x. case x of JObj d \<Rightarrow> d | _ \<Rightarrow> []) xs)" (is "xs = map JObj ?ds")
    by (fastforce intro!: map_idI [symmetric])
  show thesis
  proof (rule that [OF xs])
    fix d assume "d \<in> set ?ds"
    then have "JObj d \<in> set xs" by (subst xs) auto
    then show "wf_json (JObj d)" using graph_nodes_wf [OF assms(1)] nodes_of_type_member [OF assms] by blast
  next
    show "nodes_of_type kind (JObj (sorted_obj g)) = Inr (map (JObj \<circ> sorted_obj) ?ds)"
      unfolding nodes_of_type_sorted [OF assms(1)] assms(2) by (subst xs) (simp add: comp_def)
  qed
qed

lemma mapR_dicts_cong:
  "(\<And>d. d \<in> set ds \<Longrightarrow> f (JObj (sorted_obj d)) = f' (JObj d)) \<Longrightarrow>
   mapR f (map (JObj \<circ> sorted_obj) ds) = mapR f' (map JObj ds)"
  by (induction ds) auto

section \<open>The replay audit\<close>

definition tool_call_keys :: "string list" where
  "tool_call_keys = [''side_effect'', ''status'', ''resume_policy'', ''approval_state'', ''id'', ''name'']"

lemma audit_tool_call_sorted:
  assumes "wf_json (JObj g)" and "map_of g ''policies'' = Some (JObj p)" and "scalar_fields [''default_replay_policy''] p"
    and "wf_json (JObj n)" and "scalar_fields tool_call_keys n"
  shows "audit_tool_call (JObj (sorted_obj g)) (JObj (sorted_obj n)) = audit_tool_call (JObj g) (JObj n)"
proof -
  have "wf_json (JObj p)" using wf_field_or [OF assms(1), of JNull "''policies''"] assms(2) by (simp add: field_or_def)
  then have p: "py_get_or (JObj (sorted_obj p)) ''default_replay_policy'' v = py_get_or (JObj p) ''default_replay_policy'' v" for v
    by (intro scalar_item(2) [OF _ assms(3)]) simp_all
  have g: "py_get_or (JObj (sorted_obj g)) ''policies'' v = Inr (JObj (sorted_obj p))"
    "py_get_or (JObj g) ''policies'' v = Inr (JObj p)" for v
    using assms(1,2) by (simp_all del: wf_json.simps)
  note n = scalar_item [OF assms(4,5)]
  show ?thesis
    unfolding audit_tool_call_def g bindR_simps p by (simp add: n tool_call_keys_def del: py_item_JObj py_get_or_JObj)
qed

lemma audit_sorted:
  assumes "graph_nodes g ns" and "map_of g ''policies'' = Some (JObj p)" and "scalar_fields [''default_replay_policy''] p"
    and "tool_call_nodes (JObj g) = Inr (map JObj calls)" and "list_all (scalar_fields tool_call_keys) calls"
  shows "audit_tool_replay_safety (JObj (sorted_obj g)) = audit_tool_replay_safety (JObj g)"
proof -
  from assms(4) obtain ds where ds: "map JObj calls = map JObj ds" "\<And>d. d \<in> set ds \<Longrightarrow> wf_json (JObj d)"
    "tool_call_nodes (JObj (sorted_obj g)) = Inr (map (JObj \<circ> sorted_obj) ds)"
    unfolding tool_call_nodes_def by (rule nodes_of_type_dicts [OF assms(1)]) blast
  then have "calls = ds" by (simp add: inj_map_eq_map inj_on_def)
  with assms ds show ?thesis
    by (auto simp: audit_tool_replay_safety_def graph_nodes_def list_all_iff
        intro!: mapR_dicts_cong audit_tool_call_sorted simp del: wf_json.simps)
qed

section \<open>Messages\<close>

definition message_keys :: "string list" where
  "message_keys = [''type'', ''role'', ''content'']"

lemma reconstruct_prompt_sorted:
  assumes "graph_nodes g (map JObj ns)" and "list_all (scalar_fields message_keys) ns"
  shows "reconstruct_prompt (JObj (sorted_obj g)) = reconstruct_prompt (JObj g)"
proof -
  let ?f = "\<lambda>node. bindR (py_get node ''type'') (\<lambda>t.
           if py_eq t (JStr ''message'') then
             bindR (py_item node ''role'') (\<lambda>role.
             bindR (py_item node ''content'') (\<lambda>content.
               Inr [JObj [(''role'', role), (''content'', content)]]))
           else Inr [])"
  have w: "wf_json (JObj n)" if "n \<in> set ns" for n
    using graph_nodes_wf [OF assms(1), of "JObj n"] that by simp
  have "?f (JObj (sorted_obj n)) = ?f (JObj n)" if "n \<in> set ns" for n
  proof -
    have "scalar_fields message_keys n" using assms(2) that by (simp add: list_all_iff)
    note n = scalar_item [OF w [OF that] this]
    show ?thesis by (simp add: n message_keys_def cong: if_cong del: py_item_JObj py_get_or_JObj)
  qed
  then have "mapR ?f (map (JObj \<circ> sorted_obj) ns) = mapR ?f (map JObj ns)" by (rule mapR_dicts_cong)
  moreover have "py_item (JObj (sorted_obj g)) ''nodes'' = Inr (JList (map (JObj \<circ> sorted_obj) ns))"
    "py_item (JObj g) ''nodes'' = Inr (JList (map JObj ns))"
    using assms(1) by (simp_all add: graph_nodes_def comp_def del: wf_json.simps)
  ultimately show ?thesis by (simp add: reconstruct_prompt_def graph_messages_def del: py_item_JObj)
qed

section \<open>Vector memory\<close>

definition memory_keys :: "string list" where
  "memory_keys = [''embedding_model'', ''subject'', ''predicate'', ''object'', ''id'', ''text_hash'', ''embedding_hash'']"

lemma memory_record_sorted:
  assumes "wf_json (JObj n)" and "scalar_fields memory_keys n"
  shows "memory_text (JObj (sorted_obj n)) = memory_text (JObj n)"
    and "memory_vector_record (JObj (sorted_obj n)) = memory_vector_record (JObj n)"
    and "memory_node_ok (JObj (sorted_obj n)) = memory_node_ok (JObj n)"
proof -
  note n = scalar_item [OF assms] and l = scalar_lookup [OF assms]
  show t: "memory_text (JObj (sorted_obj n)) = memory_text (JObj n)"
    by (simp add: memory_text_def n memory_keys_def del: py_item_JObj py_get_or_JObj)
  then show "memory_vector_record (JObj (sorted_obj n)) = memory_vector_record (JObj n)"
    by (simp add: memory_vector_record_def n memory_keys_def cong: if_cong del: py_item_JObj py_get_or_JObj)
  show "memory_node_ok (JObj (sorted_obj n)) = memory_node_ok (JObj n)"
    by (simp add: memory_node_ok_def t l memory_keys_def)
qed

lemma snapshot_sorted:
  assumes "graph_nodes g ns" and "memory_nodes (JObj g) = Inr (map JObj ms)" and "list_all (scalar_fields memory_keys) ms"
  shows "compute_vector_snapshot (JObj (sorted_obj g)) q = compute_vector_snapshot (JObj g) q"
    and "memory_nodes (JObj (sorted_obj g)) = Inr (map (JObj \<circ> sorted_obj) ms)"
    and "list_all memory_node_ok (map (JObj \<circ> sorted_obj) ms) = list_all memory_node_ok (map JObj ms)"
    and "node_ids (map (JObj \<circ> sorted_obj) ms) = node_ids (map JObj ms)"
proof -
  from assms(2) obtain ds where ds: "map JObj ms = map JObj ds" "\<And>d. d \<in> set ds \<Longrightarrow> wf_json (JObj d)"
    and m: "memory_nodes (JObj (sorted_obj g)) = Inr (map (JObj \<circ> sorted_obj) ds)"
    unfolding memory_nodes_def by (rule nodes_of_type_dicts [OF assms(1)]) blast
  then have "ds = ms" by (simp add: inj_map_eq_map inj_on_def)
  with m show "memory_nodes (JObj (sorted_obj g)) = Inr (map (JObj \<circ> sorted_obj) ms)" by simp
  note r = memory_record_sorted [OF ds(2), unfolded \<open>ds = ms\<close>]
  have "mapR memory_vector_record (map (JObj \<circ> sorted_obj) ms) = mapR memory_vector_record (map JObj ms)"
    using assms(3) by (intro mapR_dicts_cong r) (auto simp: list_all_iff)
  then have "vector_records (JObj (sorted_obj g)) = vector_records (JObj g)"
    using m assms(2) by (simp add: vector_records_def \<open>ds = ms\<close>)
  then show "compute_vector_snapshot (JObj (sorted_obj g)) q = compute_vector_snapshot (JObj g) q"
    by (cases q) (simp_all add: compute_vector_snapshot_def)
  show "list_all memory_node_ok (map (JObj \<circ> sorted_obj) ms) = list_all memory_node_ok (map JObj ms)"
    using r(3) assms(3) by (auto simp: list_all_iff)
  have "field_or (sorted_obj d) ''id'' JNull = field_or d ''id'' JNull" if "d \<in> set ms" for d
    using scalar_lookup [OF ds(2) [unfolded \<open>ds = ms\<close>, OF that], of memory_keys "''id''"] assms(3) that
    by (auto simp: field_or_def list_all_iff memory_keys_def)
  then show "node_ids (map (JObj \<circ> sorted_obj) ms) = node_ids (map JObj ms)" by (simp add: node_ids_def)
qed


lemma iterR_dicts_cong:
  "(\<And>d. d \<in> set ds \<Longrightarrow> f (JObj (sorted_obj d)) = f' (JObj d)) \<Longrightarrow>
   iterR f (map (JObj \<circ> sorted_obj) ds) = iterR f' (map JObj ds)"
  by (induction ds) auto

text \<open>Retrieval nodes: their results are dictionaries with scalar fields.\<close>

definition result_keys :: "string list" where
  "result_keys = [''node_id'', ''rank'', ''score'']"

definition retrieval_plain :: "obj \<Rightarrow> bool" where
  "retrieval_plain n \<longleftrightarrow>
     (\<exists>rs. map_of n ''results'' = Some (JList (map JObj rs)) \<and> list_all (scalar_fields result_keys) rs)"

lemma retrieval_matches_sorted:
  assumes "wf_json (JObj n)" and "retrieval_plain n" and "retrieval_matches s (JObj n)"
  shows "retrieval_matches s (JObj (sorted_obj n))"
proof -
  obtain rs where rs: "map_of n ''results'' = Some (JList (map JObj rs))" "list_all (scalar_fields result_keys) rs"
    using assms(2) by (auto simp: retrieval_plain_def)
  have w: "wf_json (JObj r)" if "r \<in> set rs" for r
    using wf_field_or [OF assms(1), of JNull "''results''"] rs(1) that by (auto simp: field_or_def list_all_iff)
  have "retrieval_result (JObj (sorted_obj r)) = retrieval_result (JObj r)" if "r \<in> set rs" for r
  proof -
    note n = scalar_item [OF w [OF that], of result_keys]
    show ?thesis using rs(2) that
      by (auto simp: retrieval_result_def n result_keys_def list_all_iff simp del: py_item_JObj py_get_or_JObj)
  qed
  then have "mapR retrieval_result (map (JObj \<circ> sorted_obj) rs) = mapR retrieval_result (map JObj rs)"
    by (rule mapR_dicts_cong)
  then show ?thesis
    using assms(1,3) rs(1) by (auto simp: retrieval_matches_def field_or_def comp_def simp del: wf_json.simps)
qed

section \<open>The security policy\<close>

lemma secret_free_sorted: "secret_free (sort_keys v) = secret_free v"
proof (induction v)
  case (JObj d)
  then show ?case by (auto simp: list_all_iff set_sorted_obj split: prod.splits)
qed (auto simp: list_all_iff)

lemma py_set_sorted:
  assumes "py_set v = Inr xs"
  obtains ys where "py_set (sort_keys v) = Inr ys" and "set ys = set xs"
proof -
  let ?f = "\<lambda>x. if hashable x then Inr x else Inl (unhashable x)"
  have l: "mapR ?f ys = Inr zs \<longleftrightarrow> zs = ys \<and> list_all hashable ys" for ys zs
    by (induction ys arbitrary: zs) (auto simp: bindR_eq_Inr)
  show thesis
  proof (cases v)
    case (JList ys)
    with assms have "xs = ys" "list_all hashable ys" by (auto simp: py_set_def l)
    then have "map sort_keys ys = xs" by (auto simp: list_all_iff sort_keys_hashable intro!: map_idI)
    then show thesis using that [of xs] JList \<open>list_all hashable ys\<close> \<open>xs = ys\<close> by (simp add: py_set_def l)
  next
    case (JObj d)
    have k: "mapR ?f (map (JStr \<circ> fst) e) = Inr (map (JStr \<circ> fst) e)" for e :: obj
      by (simp add: l list_all_iff)
    from JObj assms have "xs = map (JStr \<circ> fst) d" by (simp add: py_set_def py_iter_def k)
    moreover have "py_set (sort_keys v) = Inr (map (JStr \<circ> fst) (sorted_obj d))"
      using JObj by (simp add: py_set_def py_iter_def k)
    moreover have "set (map (JStr \<circ> fst) (sorted_obj d)) = set (map (JStr \<circ> fst) d)"
      by (simp only: set_map image_comp [symmetric] fst_set_sorted_obj)
    ultimately show thesis using that by metis
  qed (use assms that in \<open>auto simp: py_set_def py_iter_def\<close>)
qed

lemma in_allowlist_sorted:
  assumes "wf_json (JObj d)" and "in_allowlist v d k"
  shows "in_allowlist v (sorted_obj d) k"
proof -
  obtain xs where xs: "py_set (field_or d k (JList [])) = Inr xs" "\<exists>x\<in>set xs. py_eq x v"
    using assms(2) by (auto simp: in_allowlist_def)
  from xs(1) obtain ys where "py_set (sort_keys (field_or d k (JList []))) = Inr ys" "set ys = set xs"
    by (rule py_set_sorted)
  then show ?thesis
    using xs(2) field_or_sorted_obj [OF assms(1), of k "JList []"] by (auto simp: in_allowlist_def)
qed

lemma wf_field: "wf_json (JObj d) \<Longrightarrow> map_of d k = Some v \<Longrightarrow> wf_json v"
  using wf_py_item [of "JObj d" k v] by (simp del: wf_json.simps)

lemma signed_by_sorted:
  assumes "wf_json (JObj g)" "wf_json (JObj sec)" and "signed_by g sec signer" and "map_of g ''graph_hash'' = Some (JStr h)"
  shows "signed_by (sorted_obj g) (sorted_obj sec) signer"
proof -
  have "hashable signer" "field_or sec ''signer_id'' JNull = signer" using assms(3) by (auto simp: signed_by_def)
  then have "field_or (sorted_obj sec) ''signer_id'' JNull = signer"
    using field_or_sorted_obj [OF assms(2), of "''signer_id''" JNull] by (simp add: sort_keys_hashable)
  then show ?thesis
    using assms in_allowlist_sorted [OF assms(2)] by (auto simp: signed_by_def simp del: wf_json.simps)
qed

lemma nodes_sorted_all:
  assumes "graph_nodes g ns" and "nodes_of_type kind (JObj g) = Inr xs" "list_all P xs"
    and "\<And>x. wf_json x \<Longrightarrow> P x \<Longrightarrow> P (sort_keys x)"
  shows "\<exists>ys. nodes_of_type kind (JObj (sorted_obj g)) = Inr ys \<and> list_all P ys"
proof -
  have "list_all P (map sort_keys xs)"
    using assms(3,4) graph_nodes_wf [OF assms(1) nodes_of_type_member [OF assms(1,2)]] by (auto simp: list_all_iff)
  then show ?thesis using nodes_of_type_sorted [OF assms(1)] assms(2) by simp
qed

lemma tool_allowed_sorted:
  assumes "wf_json (JObj hooks)" and "wf_json x" and "tool_allowed hooks x"
  shows "tool_allowed (sorted_obj hooks) (sort_keys x)"
proof -
  obtain n where n: "x = JObj n" "hashable (field_or n ''name'' JNull)"
    "in_allowlist (field_or n ''name'' JNull) hooks ''allowed_tools''"
    using assms(3) by (auto simp: tool_allowed_def)
  have "field_or (sorted_obj n) ''name'' JNull = field_or n ''name'' JNull"
    using field_or_sorted_obj [of n "''name''" JNull] assms(2) n by (simp add: sort_keys_hashable del: wf_json.simps)
  then show ?thesis using n in_allowlist_sorted [OF assms(1)] by (simp add: tool_allowed_def)
qed

lemma allowlists_sorted:
  assumes "graph_nodes g ns" and "wf_json (JObj hooks)" and "allowlists_ok (JObj g) hooks target"
  shows "allowlists_ok (JObj (sorted_obj g)) (sorted_obj hooks) target"
proof -
  obtain xs calls where a: "hashable target" "in_allowlist target hooks ''allowed_target_runtimes''"
    and xs: "py_set (field_or hooks ''allowed_tools'' (JList [])) = Inr xs"
    and c: "tool_call_nodes (JObj g) = Inr calls" "list_all (tool_allowed hooks) calls"
    using assms(3) by (auto simp: allowlists_ok_def)
  from xs obtain ys where "py_set (sort_keys (field_or hooks ''allowed_tools'' (JList []))) = Inr ys"
    by (rule py_set_sorted)
  then have "py_set (field_or (sorted_obj hooks) ''allowed_tools'' (JList [])) = Inr ys"
    using field_or_sorted_obj [OF assms(2), of "''allowed_tools''" "JList []"] by simp
  moreover have "list_all (tool_allowed (sorted_obj hooks)) (map sort_keys calls)"
    using c(2) tool_allowed_sorted [OF assms(2)]
      graph_nodes_wf [OF assms(1) nodes_of_type_member [OF assms(1) c(1) [unfolded tool_call_nodes_def]]]
    by (auto simp: list_all_iff)
  moreover have "tool_call_nodes (JObj (sorted_obj g)) = Inr (map sort_keys calls)"
    using c(1) nodes_of_type_sorted [OF assms(1)] by (simp add: tool_call_nodes_def)
  ultimately show ?thesis using a in_allowlist_sorted [OF assms(2)] by (auto simp: allowlists_ok_def)
qed

lemma allowed_path_sorted [simp]: "allowed_path (sort_keys v) = allowed_path v"
  by (cases v) (auto simp: allowed_path_def)

lemma entry_paths_sorted:
  assumes "wf_json a" and "entry_paths_allowed a"
  shows "entry_paths_allowed (sort_keys a)"
proof -
  obtain d p where a: "a = JObj d" "map_of d ''path'' = Some p" "allowed_path p" "allowed_path (field_or d ''target_path'' p)"
    using assms(2) by (auto simp: entry_paths_allowed_def)
  then show ?thesis
    using assms(1) field_or_sorted_obj [of d "''target_path''" p]
    by (simp add: entry_paths_allowed_def del: wf_json.simps)
qed

lemma node_path_sorted:
  assumes "wf_json a" and "node_path_allowed a"
  shows "node_path_allowed (sort_keys a)"
proof -
  obtain d where a: "a = JObj d" "truthy (field_or d ''path'' JNull) \<longrightarrow> allowed_path (field_or d ''path'' JNull)"
    using assms(2) by (auto simp: node_path_allowed_def)
  then show ?thesis
    using assms(1) field_or_sorted_obj [of d "''path''" JNull] by (simp add: node_path_allowed_def del: wf_json.simps)
qed

lemma credential_sorted: "wf_json a \<Longrightarrow> credential_rebind_only a \<Longrightarrow> credential_rebind_only (sort_keys a)"
  using field_or_sorted_obj [of _ "''binding''" JNull]
  by (auto simp: credential_rebind_only_def simp del: wf_json.simps)

lemma paths_sorted:
  assumes "graph_nodes g ns" and "wf_json (JObj m)" and "map_of m ''artifacts'' = Some (JList as)" and "paths_ok (JObj g) m"
  shows "paths_ok (JObj (sorted_obj g)) (sorted_obj m)"
proof -
  obtain ans where a: "list_all entry_paths_allowed as" "artifact_nodes (JObj g) = Inr ans" "list_all node_path_allowed ans"
    using assms(3,4) by (auto simp: paths_ok_def field_or_def)
  have "list_all wf_json as" using wf_field [OF assms(2,3)] by simp
  then have "list_all entry_paths_allowed (map sort_keys as)"
    using a(1) entry_paths_sorted by (auto simp: list_all_iff)
  then show ?thesis
    using nodes_sorted_all [OF assms(1) a(2) [unfolded artifact_nodes_def] a(3)] node_path_sorted assms(2,3)
    by (auto simp: paths_ok_def field_or_def artifact_nodes_def simp del: wf_json.simps)
qed

lemma chain_sorted:
  assumes "wf_json (JObj g)" "wf_json c" and "chain_ends_at g c"
  shows "chain_ends_at (sorted_obj g) (sort_keys c)"
proof -
  obtain xs d where x: "c = JList xs" "xs \<noteq> []" "last xs = JObj d"
    "py_eq (field_or d ''graph_id'' JNull) (field_or g ''graph_id'' JNull)"
    "py_eq (field_or d ''graph_hash'' JNull) (field_or g ''graph_hash'' JNull)"
    using assms(3) by (auto simp: chain_ends_at_def)
  have w: "wf_json (JObj d)" using assms(2) x last_in_set [OF x(2)] by (auto simp: list_all_iff simp del: wf_json.simps(2))
  have "field_or (sorted_obj e) k JNull = sort_keys (field_or e k JNull)" if "wf_json (JObj e)" for e k
    using field_or_sorted_obj [OF that, of k JNull] by simp
  note f = this [OF w] this [OF assms(1)]
  have n: "wf_json JNull" by simp
  show ?thesis
    using x py_eq_sort_keys [OF wf_field_or [OF w n] wf_field_or [OF assms(1) n]]
    by (auto simp: chain_ends_at_def last_map f)
qed

lemma security_satisfied_sorted:
  assumes g: "graph_nodes g ns" and m: "wf_json (JObj m)" and "map_of m ''artifacts'' = Some (JList as)"
    and h: "map_of g ''graph_hash'' = Some (JStr h)" and s: "security_satisfied g m target"
  shows "security_satisfied (sorted_obj g) (sorted_obj m) target"
proof -
  obtain sec signer hooks where sec: "map_of m ''security'' = Some (JObj sec)" "signed_by g sec signer"
    "field_or sec ''policy_hooks'' (JObj []) = JObj hooks" and a: "allowlists_ok (JObj g) hooks target"
    and p: "paths_ok (JObj g) m" and f: "secret_free (JObj g)" "secret_free (JObj m)" and c: "credentials_ok (JObj g)"
    and ch: "chain_ends_at g (field_or sec ''provenance_chain'' (JList []))"
    using s unfolding security_satisfied_def by blast
  have wg: "wf_json (JObj g)" using g by (simp add: graph_nodes_def)
  note ws = wf_field [OF m sec(1)]
  have wh: "wf_json (JObj hooks)" and wc: "wf_json (field_or sec ''provenance_chain'' (JList []))"
    using wf_field_or [OF ws, of "JObj []" "''policy_hooks''"] wf_field_or [OF ws, of "JList []"] sec(3)
    by (simp_all add: dict_keys_ok_def)
  have "field_or (sorted_obj sec) ''policy_hooks'' (JObj []) = JObj (sorted_obj hooks)"
    using field_or_sorted_obj [OF ws, of "''policy_hooks''" "JObj []"] sec(3) by (simp add: sorted_obj_def)
  moreover have "chain_ends_at (sorted_obj g) (field_or (sorted_obj sec) ''provenance_chain'' (JList []))"
    using chain_sorted [OF wg wc ch] field_or_sorted_obj [OF ws, of "''provenance_chain''" "JList []"] by simp
  moreover have "credentials_ok (JObj (sorted_obj g))"
    using c nodes_sorted_all [OF g, of "''credential_ref''" _ credential_rebind_only] credential_sorted
    by (auto simp: credentials_ok_def credential_ref_nodes_def)
  moreover have "map_of (sorted_obj m) ''security'' = Some (JObj (sorted_obj sec))" using m sec(1) by (simp del: wf_json.simps)
  moreover have "secret_free (JObj (sorted_obj g))" "secret_free (JObj (sorted_obj m))"
    using f secret_free_sorted [of "JObj g"] secret_free_sorted [of "JObj m"] by (simp_all del: secret_free.simps)
  ultimately show ?thesis
    unfolding security_satisfied_def
    using signed_by_sorted [OF wg ws sec(2) h] allowlists_sorted [OF g wh a] paths_sorted [OF g m assms(3) p] by blast
qed


section \<open>The snapshot in the manifest\<close>

lemma ranked_results_sorted:
  assumes "\<And>p. p \<in> set rs \<Longrightarrow> hashable (fst p)"
  shows "sort_keys (ranked_results rs) = ranked_results rs"
proof -
  have "sort_keys (JObj [(''node_id'', i), (''rank'', JInt k), (''score'', JFloat f)]) =
      JObj [(''node_id'', i), (''rank'', JInt k), (''score'', JFloat f)]" if "hashable i" for i k f
    using that by (simp add: sorted_obj_def sort_keys_hashable)
  moreover have "hashable (fst (snd x))" if "x \<in> set (enum_from 1 rs)" for x
    using assms that by (cases x) (auto simp: enum_from_def dest!: set_zip_rightD)
  ultimately show ?thesis
    unfolding ranked_results_def sort_keys.simps(1) map_map
    by (intro arg_cong [where f = JList] map_cong refl) (simp add: split_beta del: sort_keys_JObj)
qed

lemma snapshot_entry_sorted:
  assumes "wf_json (JObj vm)" and "snapshot_entry s vm" and "sort_keys (vs_expected_results s) = vs_expected_results s"
    and "\<And>r. r \<in> set (vs_records s) \<Longrightarrow> hashable (vr_node_id r)"
  shows "snapshot_entry s (sorted_obj vm)"
proof -
  obtain recs where recs: "map_of vm ''records'' = Some (JList (map JObj recs))"
    and l: "list_all2 (\<lambda>e m. map_of m ''node_id'' = Some (vr_node_id e) \<and>
          map_of m ''embedding_hash'' = Some (JStr (embedding_hash (vr_embedding e)))) (vs_records s) recs"
    using assms(2) by (auto simp: snapshot_entry_def)
  have w: "wf_json (JObj r)" if "r \<in> set recs" for r
    using wf_field [OF assms(1) recs] that by (auto simp: list_all_iff)
  have "list_all2 (\<lambda>e m. map_of m ''node_id'' = Some (vr_node_id e) \<and>
          map_of m ''embedding_hash'' = Some (JStr (embedding_hash (vr_embedding e)))) (vs_records s) (map sorted_obj recs)"
    using l w assms(4) unfolding list_all2_map2
    by (auto simp: list_all2_conv_all_nth sort_keys_hashable simp del: wf_json.simps)
  moreover have "map_of (sorted_obj vm) ''records'' = Some (JList (map JObj (map sorted_obj recs)))"
    using assms(1) recs by (simp add: comp_def del: wf_json.simps)
  ultimately have "\<exists>recs. map_of (sorted_obj vm) ''records'' = Some (JList (map JObj recs)) \<and>
        list_all2 (\<lambda>e m. map_of m ''node_id'' = Some (vr_node_id e) \<and>
          map_of m ''embedding_hash'' = Some (JStr (embedding_hash (vr_embedding e)))) (vs_records s) recs" by blast
  then show ?thesis using assms(1-3) by (auto simp: snapshot_entry_def simp del: wf_json.simps)
qed

section \<open>A package that passes in memory passes from disk\<close>

text \<open>What an exporter establishes of the graph and manifest it holds, beyond the security policy.\<close>

definition replayable :: "obj \<Rightarrow> bool" where
  "replayable g \<longleftrightarrow>
     (\<exists>p calls audit. map_of g ''policies'' = Some (JObj p) \<and> scalar_fields [''default_replay_policy''] p \<and>
        tool_call_nodes (JObj g) = Inr (map JObj calls) \<and> list_all (scalar_fields tool_call_keys) calls \<and>
        audit_tool_replay_safety (JObj g) = Inr audit \<and> reject_unsafe_tool_replay audit = Inr ())"

definition remembered :: "obj \<Rightarrow> obj \<Rightarrow> bool" where
  "remembered g m \<longleftrightarrow>
     (\<exists>ms rns q s vm. memory_nodes (JObj g) = Inr (map JObj ms) \<and> list_all (scalar_fields memory_keys) ms \<and>
        list_all memory_node_ok (map JObj ms) \<and> distinct (node_ids (map JObj ms)) \<and>
        retrieval_nodes (JObj g) = Inr (map JObj rns) \<and> list_all retrieval_plain rns \<and>
        compute_vector_snapshot (JObj g) (JStr q) = Inr s \<and> list_all (retrieval_matches s) (map JObj rns) \<and>
        map_of m ''vector_memory'' = Some (JObj vm) \<and> snapshot_entry s vm)"

definition gates_ready :: "obj \<Rightarrow> obj \<Rightarrow> bool" where
  "gates_ready g m \<longleftrightarrow>
     (\<exists>ns h as. graph_nodes g ns \<and> wf_json (JObj m) \<and> map_of m ''artifacts'' = Some (JList as) \<and>
        map_of g ''graph_hash'' = Some (JStr h) \<and> map_of m ''graph_hash'' = Some (JStr h) \<and>
        canonical_graph_hash (JObj g) = Inr h \<and> security_satisfied g m (JStr RUNTIME_ID)) \<and>
     replayable g \<and> remembered g m"

lemma remembered_sorted:
  assumes g: "graph_nodes g ns" and m: "wf_json (JObj m)" and r: "remembered g m"
  shows "\<exists>rep. validate_vector_memory (JObj (sorted_obj g)) (JObj (sorted_obj m)) = Inr rep"
proof -
  obtain ms rns q s vm where ms: "memory_nodes (JObj g) = Inr (map JObj ms)" "list_all (scalar_fields memory_keys) ms"
      "list_all memory_node_ok (map JObj ms)" "distinct (node_ids (map JObj ms))"
    and rn: "retrieval_nodes (JObj g) = Inr (map JObj rns)" "list_all retrieval_plain rns"
    and s: "compute_vector_snapshot (JObj g) (JStr q) = Inr s" "list_all (retrieval_matches s) (map JObj rns)"
    and vm: "map_of m ''vector_memory'' = Some (JObj vm)" "snapshot_entry s vm"
    using r unfolding remembered_def by blast
  note o = snapshot_sorted [OF g ms(1,2)]
  obtain rs where rs: "vector_records (JObj g) = Inr rs" "vs_records s = rs"
    and er: "vs_expected_results s = ranked_results (sort_key result_key (map (scored (deterministic_embedding q)) rs))"
    using s(1) by (auto simp: compute_vector_snapshot_def bindR_eq_Inr sort_results_eq_Inr)
  have h: "hashable (vr_node_id x)" if "x \<in> set rs" for x
    using sorted_results_strings [OF rs(1) ms(1,3), of "[]"] that
    by (cases "vr_node_id x") (auto simp: list_all_iff scored_def)
  have "sort_keys (vs_expected_results s) = vs_expected_results s"
    unfolding er using h by (intro ranked_results_sorted) (auto simp: scored_def)
  then have e: "snapshot_entry s (sorted_obj vm)"
    using wf_field [OF m vm(1)] vm(2) h rs(2) by (intro snapshot_entry_sorted) auto
  from rn(1) obtain ds where ds: "map JObj rns = map JObj ds" "\<And>d. d \<in> set ds \<Longrightarrow> wf_json (JObj d)"
    and rs': "retrieval_nodes (JObj (sorted_obj g)) = Inr (map (JObj \<circ> sorted_obj) ds)"
    unfolding retrieval_nodes_def by (rule nodes_of_type_dicts [OF g]) blast
  from ds(1) have "ds = rns" by (simp add: inj_map_eq_map inj_on_def)
  have "list_all (retrieval_matches s) (map (JObj \<circ> sorted_obj) ds)"
    using s(2) rn(2) ds(2) retrieval_matches_sorted unfolding \<open>ds = rns\<close> by (auto simp: list_all_iff)
  then have "\<exists>r. validate_vector_memory (JObj (sorted_obj g)) (JObj (sorted_obj m)) = Inr (JObj ((''status'', JStr ''verified'') # r))"
    using ms(3,4) m vm(1) o
    by (intro snapshot_verifies [OF s(1) [folded o(1)] e _ o(2) _ _ rs']) (simp_all del: wf_json.simps)
  then show ?thesis by blast
qed

lemma check_package_sorted:
  assumes "gates_ready g m"
  shows "\<exists>x. check_package (JObj (sorted_obj g)) (JObj (sorted_obj m)) (JStr RUNTIME_ID) = Inr x"
proof -
  obtain ns h as where g: "graph_nodes g ns" and m: "wf_json (JObj m)" and as: "map_of m ''artifacts'' = Some (JList as)"
    and h: "map_of g ''graph_hash'' = Some (JStr h)" "map_of m ''graph_hash'' = Some (JStr h)"
      "canonical_graph_hash (JObj g) = Inr h" and s: "security_satisfied g m (JStr RUNTIME_ID)"
    and rp: "replayable g" and rm: "remembered g m"
    using assms unfolding gates_ready_def by blast
  have wg: "wf_json (JObj g)" using g by (simp add: graph_nodes_def)
  have ch: "canonical_graph_hash (JObj (sorted_obj g)) = Inr h"
    using canonical_graph_hash_sort_keys [OF wg] h(3) by (simp del: canonical_graph_hash_JObj)
  have hs: "map_of (sorted_obj g) ''graph_hash'' = Some (JStr h)" "map_of (sorted_obj m) ''graph_hash'' = Some (JStr h)"
    using wg m h(1,2) by (simp_all del: wf_json.simps)
  have "verify_graph (JObj (sorted_obj g)) (JStr h) = Inr ()" by (simp add: verify_graph_def ch hs(1) del: canonical_graph_hash_JObj)
  moreover obtain sr where "validate_security_policy (JObj (sorted_obj g)) (JObj (sorted_obj m)) (JStr RUNTIME_ID) = Inr sr"
    using security_gate_iff security_satisfied_sorted [OF g m as h(1) s] by blast
  moreover obtain audit where "audit_tool_replay_safety (JObj (sorted_obj g)) = Inr audit" "reject_unsafe_tool_replay audit = Inr ()"
    using rp audit_sorted [OF g] unfolding replayable_def by metis
  moreover obtain vr where "validate_vector_memory (JObj (sorted_obj g)) (JObj (sorted_obj m)) = Inr vr"
    using remembered_sorted [OF g m rm] by blast
  ultimately show ?thesis using hs(2) by (simp add: check_package_def)
qed

end
