(* ===== verification/RoundTrip.thy ===== *)
theory RoundTrip
  imports KeyOrder
begin

text \<open>
  A package written by an exporter is accepted by the importer: the composition of
  \<open>export_session\<close> and \<open>export_complex_session\<close> with \<open>import_session\<close> over the file
  system. The directory part says when writes and copies succeed; the rest follows a package through
  disk to the restored workspace.
\<close>

section \<open>When writing succeeds\<close>

definition above :: "pypath \<Rightarrow> pypath \<Rightarrow> bool" where
  "above q p \<longleftrightarrow> anchor q = anchor p \<and> strict_prefix (parts q) (parts p)"

lemma above_prefixes: "parts q \<noteq> [] \<Longrightarrow> q \<in> set (path_prefixes (path_parent p)) \<longleftrightarrow> above q p"
proof -
  assume q: "parts q \<noteq> []"
  have "set (tl (prefixes xs)) = {ys. prefix ys xs \<and> ys \<noteq> []}" for xs :: "string list"
    by (cases xs) (auto simp: prefix_Cons image_iff)
  then have "q \<in> set (path_prefixes (path_parent p)) \<longleftrightarrow>
      (\<exists>ys. q = (path_parent p)\<lparr>parts := ys\<rparr> \<and> prefix ys (butlast (parts p)) \<and> ys \<noteq> [])"
    by (auto simp: path_prefixes_def path_parent_def)
  also have "\<dots> \<longleftrightarrow> anchor q = anchor p \<and> prefix (parts q) (butlast (parts p))"
    using q by (cases q; cases p) (auto simp: path_parent_def)
  also have "prefix (parts q) (butlast (parts p)) \<longleftrightarrow> strict_prefix (parts q) (parts p)"
  proof (cases "parts p = []")
    case False
    have "strict_prefix ys xs \<longleftrightarrow> prefix ys (butlast xs)" if "xs \<noteq> []" for ys xs :: "string list"
      using that by (metis append_butlast_last_id prefix_snoc strict_prefix_def prefix_order.le_less not_Cons_self2 append_self_conv prefix_length_le length_append_singleton Suc_n_not_le_n)
    with False show ?thesis by simp
  qed (use q in simp)
  finally show ?thesis by (simp add: above_def)
qed

lemma above_trans: "above a b \<Longrightarrow> above b c \<Longrightarrow> above a c"
  by (auto simp: above_def)

lemma above_below: "above a b \<Longrightarrow> below b c \<Longrightarrow> above a c"
  by (auto simp: above_def below_def intro: prefix_order.less_le_trans)

lemma below_above: "below a b \<Longrightarrow> above b c \<Longrightarrow> above a c"
  by (auto simp: above_def below_def intro: prefix_order.le_less_trans)

lemma above_not_refl [simp]: "\<not> above a a"
  by (simp add: above_def)

lemma above_cases: "above q p \<Longrightarrow> below d p \<Longrightarrow> below d q \<or> above q d"
  unfolding above_def below_def by (metis prefix_same_cases prefix_order.le_less)

text \<open>No regular file is in the way of a path.\<close>

definition unblocked :: "fs \<Rightarrow> pypath \<Rightarrow> bool" where
  "unblocked s p \<longleftrightarrow> (\<forall>q b. above q p \<longrightarrow> node_at s q \<noteq> Some (FFile b))"

lemma make_dirs_possible:
  "(\<And>q b. q \<in> set ps \<Longrightarrow> node_at s q \<noteq> Some (FFile b)) \<Longrightarrow> \<exists>s'. make_dirs ps s = (Inr (), s')"
proof (induction ps arbitrary: s)
  case (Cons p ps)
  have "make_dirs (p # ps) s = make_dirs ps (s(p \<mapsto> FDir))"
    using Cons.prems [of p] by (auto split: option.splits fnode.splits)
  moreover have "\<exists>s'. make_dirs ps (s(p \<mapsto> FDir)) = (Inr (), s')"
    using Cons.prems by (intro Cons.IH) (auto simp: node_at_dir_update simp del: fun_upd_apply split: if_splits)
  ultimately show ?case by simp
qed simp

lemma prefixes_no_root: "q \<in> set (path_prefixes p) \<Longrightarrow> parts q \<noteq> []"
  by (cases "parts p") (auto simp: path_prefixes_def)

lemma mkdir_parent_possible:
  assumes "unblocked s p"
  obtains t where "mkdir_parents (path_parent p) s = (Inr (), t)"
    and "\<And>q. node_at t q = (if above q p then Some FDir else node_at s q)"
proof -
  have "\<exists>t. make_dirs (path_prefixes (path_parent p)) s = (Inr (), t)"
    using assms above_prefixes [of _ p] prefixes_no_root by (intro make_dirs_possible) (auto simp: unblocked_def)
  then obtain t where t: "make_dirs (path_prefixes (path_parent p)) s = (Inr (), t)" by blast
  have "node_at t q = (if above q p then Some FDir else node_at s q)" for q
    using make_dirs_node [OF t, of q] above_prefixes [of q p] prefixes_no_root [of q "path_parent p"]
    by (cases "parts q = []") (auto simp: node_at_def)
  then show thesis using that t by (simp add: mkdir_parents_def)
qed

lemma parent_above: "parts p \<noteq> [] \<Longrightarrow> above (path_parent p) p"
  by (cases "parts p" rule: rev_cases) (auto simp: above_def path_parent_def strict_prefix_def)

lemma write_possible:
  assumes "unblocked s p" and "parts p \<noteq> []" and "node_at s p \<noteq> Some FDir"
  obtains s' where "write_with_parents p b s = (Inr (), s')"
    and "\<And>q. node_at s' q = (if q = p then Some (FFile b) else if above q p then Some FDir else node_at s q)"
proof -
  obtain t where t: "mkdir_parents (path_parent p) s = (Inr (), t)"
    "\<And>q. node_at t q = (if above q p then Some FDir else node_at s q)"
    using mkdir_parent_possible [OF assms(1)] by blast
  have "write_bytes p b t = (Inr (), t(p \<mapsto> FFile b))"
    using t(2) [of "path_parent p"] t(2) [of p] parent_above [OF assms(2)] assms(3) by (simp add: write_bytes_def)
  then show thesis
    using that [of "t(p \<mapsto> FFile b)"] t assms(2)
    by (auto simp: write_with_parents_def bindIO_def node_at_update)
qed

text \<open>What a successful write tells of the states around it.\<close>

lemma write_node:
  assumes "write_with_parents p b s = (Inr u, s')"
  shows "node_at s' q = (if q = p then Some (FFile b) else if above q p then Some FDir else node_at s q)"
    and "unblocked s p" and "parts p \<noteq> []"
proof -
  obtain t where t: "make_dirs (path_prefixes (path_parent p)) s = (Inr (), t)" "write_bytes p b t = (Inr u, s')"
    using assms by (auto simp: write_with_parents_def mkdir_parents_def bindIO_eq_Inr)
  note w = write_bytes_ok [OF t(2)]
  show "parts p \<noteq> []" by (rule w)
  show "unblocked s p"
    using make_dirs_no_file [OF t(1)] above_prefixes [of _ p] unfolding unblocked_def by (metis fnode.distinct(1) node_at_def option.inject)
  have "node_at t q = (if above q p then Some FDir else node_at s q)"
    using make_dirs_node [OF t(1), of q] above_prefixes [of q p] prefixes_no_root [of q "path_parent p"]
    by (cases "parts q = []") (auto simp: node_at_def)
  then show "node_at s' q = (if q = p then Some (FFile b) else if above q p then Some FDir else node_at s q)"
    using w by (auto simp: node_at_update)
qed

lemma copy_possible:
  assumes "files s source = Some b" and "source \<noteq> target"
    and "unblocked s target" and "parts target \<noteq> []" and "node_at s target \<noteq> Some FDir"
  obtains s' where "copy_file_streaming_with_hash source target s = (Inr (sha256_bytes b, int (length b)), s')"
    and "\<And>q. node_at s' q = (if q = target then Some (FFile b) else if above q target then Some FDir else node_at s q)"
proof -
  obtain t where t: "mkdir_parents (path_parent target) s = (Inr (), t)"
    "\<And>q. node_at t q = (if above q target then Some FDir else node_at s q)"
    using mkdir_parent_possible [OF assms(3)] by blast
  have src: "node_at s source = Some (FFile b)" using assms(1) by (simp add: files_eq_Some read_bytes_iff)
  then have na: "\<not> above source target" using assms(3) by (auto simp: unblocked_def)
  have r: "read_bytes t source = Inr b" using t(2) [of source] src na by (simp add: read_bytes_iff)
  have p: "node_at t (path_parent target) = Some FDir" "node_at t target \<noteq> Some FDir"
    using t(2) [of "path_parent target"] t(2) [of target] parent_above [OF assms(4)] assms(5) by simp_all
  let ?t1 = "t(target \<mapsto> FFile [])" and ?s' = "t(target \<mapsto> FFile b)"
  have w1: "write_bytes target [] t = (Inr (), ?t1)" using p by (simp add: write_bytes_def)
  have r1: "read_bytes ?t1 source = Inr b" using r assms(2,4) by (simp add: read_bytes_iff node_at_update)
  have "path_parent target \<noteq> target" using parent_above [OF assms(4)] by auto
  then have w2: "write_bytes target b ?t1 = (Inr (), ?s')"
    using p(1) assms(4) by (simp add: write_bytes_def node_at_update)
  have "copy_file_streaming_with_hash source target s = (Inr (sha256_bytes b, int (length b)), ?s')"
    unfolding copy_file_streaming_with_hash_def
    by (simp add: bindIO_def t(1) read_file_def r w1 r1 copy_stream_eq w2 hasher_new_def hasher_hexdigest_def sha256_bytes_def)
  then show thesis using that [of ?s'] t(2) assms(4) by (simp add: node_at_update)
qed


section \<open>The package directory after an export\<close>

text \<open>A tree: the parent of whatever exists is a directory.\<close>

definition fs_tree :: "fs \<Rightarrow> bool" where
  "fs_tree s \<longleftrightarrow> (\<forall>p. node_at s p \<noteq> None \<longrightarrow> node_at s (path_parent p) = Some FDir)"

lemma fs_tree_empty [simp]: "fs_tree Map.empty"
  by (auto simp: fs_tree_def node_at_def path_parent_def)

lemma fs_tree_above: "fs_tree s \<Longrightarrow> node_at s p \<noteq> None \<Longrightarrow> above q p \<Longrightarrow> node_at s q = Some FDir"
proof (induction "length (parts p)" arbitrary: p rule: less_induct)
  case less
  then have ne: "parts p \<noteq> []" by (auto simp: above_def)
  have d: "node_at s (path_parent p) = Some FDir" using less.prems by (simp add: fs_tree_def)
  show ?case
  proof (cases "q = path_parent p")
    case False
    have "above q (path_parent p)"
      using less.prems(3) ne False
      by (cases "parts p" rule: rev_cases; cases p; cases q) (auto simp: above_def path_parent_def strict_prefix_def)
    then show ?thesis using less.prems(1) d ne by (intro less.hyps [of "path_parent p"]) (auto simp: path_parent_def)
  qed (use d in simp)
qed

definition empty_dir :: "fs \<Rightarrow> pypath \<Rightarrow> bool" where
  "empty_dir s d \<longleftrightarrow> (\<forall>q. below d q \<longrightarrow> parts q \<noteq> [] \<longrightarrow> node_at s q = None)"

lemma below_above_eq: "below d q \<longleftrightarrow> q = d \<or> above d q"
  by (cases d; cases q) (auto simp: below_def above_def)

lemma clear_dir_empties:
  assumes "fs_tree s" and "clear_dir d s = (Inr u, s')"
  shows "empty_dir s' d" and "\<not> below d q \<Longrightarrow> node_at s' q = node_at s q"
proof -
  show "empty_dir s' d"
  proof (cases "path_exists s d")
    case True
    then have "rmtree d s = (Inr u, s')" using assms(2) by (simp add: clear_dir_def exists_io_def bindIO_def)
    then show ?thesis
      by (auto simp: rmtree_def empty_dir_def node_at_def split: option.splits fnode.splits if_splits)
  next
    case False
    then have "s' = s" "node_at s d = None" using assms(2) by (auto simp: clear_dir_def exists_io_def bindIO_def path_exists_def)
    then have "node_at s q = None" if "below d q" for q
      using fs_tree_above [OF assms(1), of q d] that by (cases "node_at s q") (auto simp: below_above_eq)
    with \<open>s' = s\<close> show ?thesis by (simp add: empty_dir_def)
  qed
  show "\<not> below d q \<Longrightarrow> node_at s' q = node_at s q"
    using assms(2)
    by (auto simp: clear_dir_def exists_io_def bindIO_def rmtree_def node_at_def split: option.splits fnode.splits if_splits)
qed

lemma clear_dir_possible:
  assumes "\<And>b. node_at s d \<noteq> Some (FFile b)" and "parts d \<noteq> []"
  obtains s' where "clear_dir d s = (Inr (), s')"
proof (cases "node_at s d")
  case None
  then show thesis using that [of s] by (simp add: clear_dir_def exists_io_def bindIO_def path_exists_def)
next
  case (Some n)
  with assms have "n = FDir" by (cases n) auto
  with Some assms(2) show thesis using that by (simp add: clear_dir_def exists_io_def bindIO_def path_exists_def rmtree_def)
qed

text \<open>Writing a list of files: the contents, and what is left alone. The workspace of an import
  stays empty as long as nothing is written below it.\<close>

definition free_dir :: "fs \<Rightarrow> pypath \<Rightarrow> bool" where
  "free_dir s d \<longleftrightarrow> (\<forall>q. below d q \<longrightarrow> node_at s q = None)"

lemma free_dir_write:
  assumes "write_with_parents p b s = (Inr u, s')" and "free_dir s d" and "\<not> below d p"
  shows "free_dir s' d"
proof -
  have "node_at s' q = None" if "below d q" for q
  proof -
    have "q \<noteq> p" "\<not> above q p" using assms(3) that by (auto simp: below_above_eq dest: above_trans)
    then show ?thesis using write_node(1) [OF assms(1), of q] assms(2) that by (simp add: free_dir_def)
  qed
  then show ?thesis by (simp add: free_dir_def)
qed

definition blob_writes :: "pypath \<Rightarrow> (artifact_record \<times> bytes) list \<Rightarrow> (pypath \<times> bytes) list" where
  "blob_writes d blobs =
     List.map_filter (\<lambda>(r, b). map_option (\<lambda>p. (path_sub d p, b)) (blob_path r)) blobs"

lemma blob_writes_simps [simp]:
  "blob_writes d [] = []"
  "blob_writes d ((r, b) # bs) =
     (case blob_path r of None \<Rightarrow> [] | Some p \<Rightarrow> [(path_sub d p, b)]) @ blob_writes d bs"
  by (simp_all add: blob_writes_def List.map_filter_simps split: option.split)

definition package_writes :: "pypath \<Rightarrow> (artifact_record \<times> bytes) list \<Rightarrow> obj \<Rightarrow> obj \<Rightarrow> (pypath \<times> bytes) list" where
  "package_writes d blobs g m = blob_writes d blobs @
     [(path_sub d ''graph.json'', utf8_encode (dumps_pretty (JObj g) @ [CHR 0x0A])),
      (path_sub d ''manifest.json'', utf8_encode (dumps_pretty (JObj m) @ [CHR 0x0A]))]"

lemma write_all_append:
  "fs_store.write_all (ws @ vs) s =
     (case fs_store.write_all ws s of (Inl e, t) \<Rightarrow> (Inl e, t) | (Inr _, t) \<Rightarrow> fs_store.write_all vs t)"
  by (induction ws s rule: fs_store.write_all.induct) (auto split: prod.splits sum.splits)

lemma mapIO_write_blobs:
  "bindIO (mapIO (write_blob d) blobs) (\<lambda>_. k) s =
     (case fs_store.write_all (blob_writes d blobs) s of (Inl e, t) \<Rightarrow> (Inl e, t) | (Inr _, t) \<Rightarrow> k t)"
proof (induction blobs arbitrary: s)
  case (Cons x blobs)
  obtain r b where x: "x = (r, b)" by fastforce
  have "bindIO (mapIO (write_blob d) (x # blobs)) (\<lambda>_. k) s =
      (case write_blob d (r, b) s of (Inl e, t) \<Rightarrow> (Inl e, t) | (Inr _, t) \<Rightarrow> bindIO (mapIO (write_blob d) blobs) (\<lambda>_. k) t)"
    by (auto simp: x bindIO_def split: prod.splits sum.splits)
  then show ?case
    unfolding x Cons.IH
    by (cases "blob_path r") (auto simp: write_blob_def write_all_append split: prod.split sum.split)
qed (simp add: bindIO_def)

lemma write_package_writes:
  "write_package d blobs g m s =
     (case clear_dir d s of (Inl e, t) \<Rightarrow> (Inl e, t) | (Inr _, t) \<Rightarrow> fs_store.write_all (package_writes d blobs g m) t)"
  unfolding write_package_def bindIO_def [of "clear_dir d"] mapIO_write_blobs package_writes_def write_all_append
  by (auto simp: bindIO_def write_json_def split: prod.splits sum.splits)

lemma write_all_free:
  "fs_store.write_all ws s = (Inr (), s') \<Longrightarrow> free_dir s d \<Longrightarrow> \<forall>p\<in>fst ` set ws. \<not> below d p \<Longrightarrow> free_dir s' d"
proof (induction ws arbitrary: s)
  case (Cons w ws)
  obtain p b where w: "w = (p, b)" by fastforce
  obtain t where t: "write_with_parents p b s = (Inr (), t)" "fs_store.write_all ws t = (Inr (), s')"
    using Cons.prems(1) w by (auto split: prod.splits sum.splits)
  show ?case using Cons.prems w by (intro Cons.IH [OF t(2)] free_dir_write [OF t(1)]) auto
qed simp

lemma write_all_last_above:
  assumes "fs_store.write_all (ws @ [(p, b)]) s = (Inr (), s')"
  shows "unblocked s' p" and "node_at s' p = Some (FFile b)"
proof -
  obtain t where t: "write_with_parents p b t = (Inr (), s')"
    using assms by (auto simp: write_all_append split: prod.splits sum.splits)
  show "node_at s' p = Some (FFile b)" using write_node(1) [OF t] by simp
  show "unblocked s' p" using write_node(1) [OF t] by (auto simp: unblocked_def)
qed


section \<open>Artifact entries\<close>

text \<open>A content-addressed blob path has five components, all of them safe.\<close>

lemma hex_component:
  assumes "list_all is_hex d" and "d \<noteq> []"
  shows "d \<noteq> ''.''" and "d \<noteq> ''..''" and "CHR ''/'' \<notin> set d"
  using assms by (auto simp: is_hex_def list_all_iff)

definition blob_parts :: "bytes \<Rightarrow> string \<Rightarrow> string list" where
  "blob_parts data path =
     [''artifacts'', ''sha256'', take 2 (hexdigest (sha256 data)), hexdigest (sha256 data), path_name (Path path)]"

lemma blob_parts_ok:
  assumes "parts (Path path) \<noteq> []" and "''..'' \<notin> set (parts (Path path))"
  shows "parts_ok (blob_parts data path)" and "''..'' \<notin> set (blob_parts data path)"
proof -
  let ?d = "hexdigest (sha256 data)"
  have l: "length ?d = 64" by (simp add: length_hexdigest)
  have ne: "?d \<noteq> []" "take 2 ?d \<noteq> []" using l by auto
  have "list_all is_hex (take 2 ?d)" using hexdigest_hex [of "sha256 data"] by (auto simp: list_all_iff dest: in_set_takeD)
  note h = hex_component [OF hexdigest_hex ne(1)] hex_component [OF this ne(2)]
  have n: "path_name (Path path) \<in> set (parts (Path path))" using assms(1) by (simp add: path_name_def)
  then have "path_name (Path path) \<noteq> ''..''" using assms(2) by metis
  with h show "''..'' \<notin> set (blob_parts data path)" by (auto simp: blob_parts_def)
  have "path_name (Path path) \<noteq> [] \<and> path_name (Path path) \<noteq> ''.'' \<and> CHR ''/'' \<notin> set (path_name (Path path))"
    using n parts_ok_Path [of path] unfolding parts_ok_def by blast
  with h ne show "parts_ok (blob_parts data path)" by (simp add: parts_ok_def blob_parts_def)
qed

lemma Path_blob:
  assumes "parts (Path path) \<noteq> []" and "''..'' \<notin> set (parts (Path path))"
  shows "Path (content_addressed_blob_path (sha256_bytes data) path) = \<lparr>anchor = [], parts = blob_parts data path\<rparr>"
proof -
  have "content_addressed_blob_path (sha256_bytes data) path = join ''/'' (blob_parts data path)"
    by (simp add: content_addressed_blob_path_def sha256_bytes_def blob_parts_def removeprefix_def Let_def)
  then show ?thesis
    using Path_join [OF blob_parts_ok(1) [OF assms]] by (simp add: blob_parts_def)
qed

lemma safe_package_blob:
  assumes "parts (Path path) \<noteq> []" and "''..'' \<notin> set (parts (Path path))"
  shows "safe_package_relative_path (JStr (content_addressed_blob_path (sha256_bytes data) path)) =
    Inr (Path (content_addressed_blob_path (sha256_bytes data) path))"
  using blob_parts_ok(2) [OF assms, of data]
  by (simp add: safe_package_relative_path_def safe_relative_path_def Path_blob [OF assms] is_absolute_def blob_parts_def)

lemma allowed_path_parts:
  assumes "allowed_path (JStr path)"
  shows "parts (Path path) \<noteq> []" and "''..'' \<notin> set (parts (Path path))" and "anchor (Path path) = []"
    and "safe_workspace_relative_path (JStr path) = Inr (Path path)"
proof -
  have "path_allowed_by_prefix (JStr path) = Inr True" using assms path_allowed_iff by simp
  then obtain p where "safe_workspace_relative_path (JStr path) = Inr p" by (auto simp: path_allowed_by_prefix_def bindR_eq_Inr)
  with safe_relative_path_ok [of "JStr path" _ p]
  show "parts (Path path) \<noteq> []" "''..'' \<notin> set (parts (Path path))" "anchor (Path path) = []"
    "safe_workspace_relative_path (JStr path) = Inr (Path path)"
    by (auto simp: safe_workspace_relative_path_def)
qed

text \<open>The manifest entry of a record built from its bytes.\<close>

definition built_from :: "bytes \<Rightarrow> artifact_record \<Rightarrow> bool" where
  "built_from data r \<longleftrightarrow> (\<exists>policy. r = build_artifact_record_from_bytes (ar_path r) data policy) \<and> allowed_path (JStr (ar_path r))"

lemma built_fields:
  assumes "built_from data r"
  shows "content_hash r = sha256_bytes data" "size_bytes r = int (length data)" "target_path r = ar_path r"
    "disposition r = ''packaged'' \<longleftrightarrow> blob_path r \<noteq> None" "rebind_required r \<longleftrightarrow> blob_path r = None"
    "restore_policy r = (if blob_path r = None then ''external_rebind'' else ''required'')"
    "blob_path r = Some b \<Longrightarrow> b = content_addressed_blob_path (sha256_bytes data) (ar_path r)"
proof -
  obtain path policy where r: "r = build_artifact_record_from_bytes path data policy" using assms by (auto simp: built_from_def)
  show "content_hash r = sha256_bytes data" "size_bytes r = int (length data)" "target_path r = ar_path r"
    "disposition r = ''packaged'' \<longleftrightarrow> blob_path r \<noteq> None" "rebind_required r \<longleftrightarrow> blob_path r = None"
    "restore_policy r = (if blob_path r = None then ''external_rebind'' else ''required'')"
    "blob_path r = Some b \<Longrightarrow> b = content_addressed_blob_path (sha256_bytes data) (ar_path r)"
    by (simp_all add: r build_artifact_record_from_bytes_def Let_def split: if_splits)
qed

lemma entry_fields:
  "map_of (manifest_artifact r) ''path'' = Some (JStr (ar_path r))"
  "map_of (manifest_artifact r) ''sha256'' = Some (JStr (content_hash r))"
  "map_of (manifest_artifact r) ''size_bytes'' = Some (JInt (size_bytes r))"
  "map_of (manifest_artifact r) ''restore_policy'' = Some (JStr (restore_policy r))"
  "map_of (manifest_artifact r) ''target_path'' = Some (JStr (target_path r))"
  "map_of (manifest_artifact r) ''blob_path'' = map_option JStr (blob_path r)"
  "map_of (manifest_artifact r) ''rebind_required'' = (if rebind_required r then Some (JBool True) else None)"
  by (auto simp: manifest_artifact_def Let_def split: option.splits)

lemma entry_flat: "wf_json (JObj (manifest_artifact r))" "flat (JObj (manifest_artifact r))"
proof -
  show "wf_json (JObj (manifest_artifact r))"
    by (auto simp: manifest_artifact_def Let_def dict_keys_ok_def split: option.split)
  show "flat (JObj (manifest_artifact r))"
    by (auto simp: flat_def ran_def manifest_artifact_def Let_def split: option.splits if_splits)
qed

lemma artifact_ops_flat:
  assumes "wf_json a" and "flat a"
  shows "verify_artifact pkg (sort_keys a) = verify_artifact pkg a"
    and "restore_artifact pkg w (sort_keys a) = restore_artifact pkg w a"
    and "artifact_hash_entry (sort_keys a) = artifact_hash_entry a"
  unfolding verify_artifact_def restore_artifact_def verify_packaged_artifact_def restore_packaged_artifact_def
    restore_checked_def validate_artifact_manifest_entry_def path_error_def unknown_path_error_def artifact_hash_entry_def
    flat_item [OF assms] by (rule refl)+

lemma verify_entry:
  assumes b: "built_from data r" and f: "\<And>p. blob_path r = Some p \<Longrightarrow> files s (path_sub pkg p) = Some data"
  shows "\<exists>v. verify_artifact pkg (JObj (manifest_artifact r)) s = (Inr v, s)"
proof (cases "blob_path r")
  case None
  then show ?thesis
    using built_fields [OF b] by (simp add: verify_artifact_def validate_artifact_manifest_entry_def entry_fields bindIO_def sha256_bytes_def)
next
  case (Some p)
  have a: "allowed_path (JStr (ar_path r))" using b by (simp add: built_from_def)
  note p = built_fields(7) [OF b Some]
  have "safe_package_relative_path (JStr p) = Inr (Path p)"
    unfolding p by (rule safe_package_blob [OF allowed_path_parts(1,2) [OF a]])
  moreover have "p \<noteq> []" unfolding p by (simp add: content_addressed_blob_path_def Let_def)
  moreover have fp: "files s (path_join pkg (Path p)) = Some data" using f [OF Some] by (simp add: path_sub_def)
  moreover have "path_exists s (path_join pkg (Path p))" using fp by (auto simp: path_exists_def files_def split: option.splits)
  moreover have "file_sha256_and_size (path_join pkg (Path p)) s = (Inr (sha256_bytes data, int (length data)), s)"
    using fp by (simp add: file_sha_Inr)
  ultimately show ?thesis
    using Some built_fields(1-6) [OF b]
    by (simp add: verify_artifact_def validate_artifact_manifest_entry_def verify_packaged_artifact_def entry_fields
        bindIO_def sha256_bytes_def exists_io_def Let_def)
qed

section \<open>Restoring into an empty workspace\<close>

definition apart :: "pypath \<Rightarrow> pypath \<Rightarrow> bool" where
  "apart p q \<longleftrightarrow> \<not> below p q \<and> \<not> below q p"

text \<open>The workspace holds the restored files and the directories above them, and nothing else.\<close>

definition laid_out :: "pypath \<Rightarrow> pypath set \<Rightarrow> fs \<Rightarrow> bool" where
  "laid_out w T s \<longleftrightarrow> unblocked s w \<and>
     (\<forall>q. below w q \<longrightarrow> (\<forall>b. node_at s q = Some (FFile b) \<longrightarrow> q \<in> T) \<and>
        (node_at s q = Some FDir \<longrightarrow> (\<exists>t\<in>T. above q t)))"

lemma laid_out_free: "free_dir s w \<Longrightarrow> unblocked s w \<Longrightarrow> laid_out w {} s"
  by (simp add: laid_out_def free_dir_def)

lemma laid_out_target:
  assumes "laid_out w T s" and "below w t" and "\<And>t'. t' \<in> T \<Longrightarrow> apart t t'"
  shows "unblocked s t" and "node_at s t \<noteq> Some FDir"
proof -
  show "node_at s t \<noteq> Some FDir"
    using assms unfolding laid_out_def apart_def below_above_eq by blast
  have "node_at s q \<noteq> Some (FFile b)" if "above q t" for q b
  proof (cases "below w q")
    case True
    then show ?thesis using assms that unfolding laid_out_def apart_def below_above_eq by blast
  next
    case False
    then have "above q w" using above_cases [OF that assms(2)] by blast
    then show ?thesis using assms(1) by (auto simp: laid_out_def unblocked_def)
  qed
  then show "unblocked s t" by (simp add: unblocked_def)
qed

lemma laid_out_copied:
  assumes "laid_out w T s" and "below w t"
    and n: "\<And>q. node_at s' q = (if q = t then Some (FFile b) else if above q t then Some FDir else node_at s q)"
  shows "laid_out w (insert t T) s'"
proof -
  have "unblocked s' w"
    using assms(1,2) n unfolding laid_out_def unblocked_def
    by (metis above_below above_not_refl fnode.distinct(1) option.inject)
  then show ?thesis
    using assms(1) unfolding laid_out_def n by (auto split: if_splits)
qed

lemma restore_entry:
  assumes b: "built_from data r" and p: "blob_path r = Some p" and f: "files s (path_sub pkg p) = Some data"
    and l: "laid_out w T s" and a: "\<And>t. t \<in> T \<Longrightarrow> apart (path_sub w (ar_path r)) t" and ne: "\<not> below w (path_sub pkg p)"
  obtains rep s' where "restore_artifact pkg w (JObj (manifest_artifact r)) s = (Inr rep, s')"
    and "files s' = (files s)(path_sub w (ar_path r) \<mapsto> data)" and "laid_out w (insert (path_sub w (ar_path r)) T) s'"
proof -
  have al: "allowed_path (JStr (ar_path r))" using b by (simp add: built_from_def)
  note ap = allowed_path_parts [OF al]
  let ?t = "path_sub w (ar_path r)" and ?src = "path_sub pkg p"
  have bt: "below w ?t" using ap(3) by (simp add: path_sub_def below_join)
  have nt: "?src \<noteq> ?t" using bt ne by auto
  have pt: "parts ?t \<noteq> []" using ap(1,3) by (simp add: path_sub_def path_join_def is_absolute_def)
  note u = laid_out_target [OF l bt a]
  obtain s' where c: "copy_file_streaming_with_hash ?src ?t s = (Inr (sha256_bytes data, int (length data)), s')"
    and n: "\<And>q. node_at s' q = (if q = ?t then Some (FFile data) else if above q ?t then Some FDir else node_at s q)"
    using copy_possible [OF f nt u(1) pt u(2)] by blast
  have "safe_package_relative_path (JStr p) = Inr (Path p)"
    unfolding built_fields(7) [OF b p] by (rule safe_package_blob [OF ap(1,2)])
  moreover have "file_sha256_and_size ?src s = (Inr (sha256_bytes data, int (length data)), s)" using f by (simp add: file_sha_Inr)
  ultimately obtain rep where "restore_artifact pkg w (JObj (manifest_artifact r)) s = (Inr rep, s')"
    using c p built_fields(1-6) [OF b] ap(4)
    by (simp add: restore_artifact_def restore_packaged_artifact_def restore_checked_def entry_fields bindIO_def Let_def path_sub_def)
  moreover have "files s' = (files s)(?t \<mapsto> data)" using files_copy [OF c nt] f by auto
  ultimately show thesis using that laid_out_copied [OF l bt n] by blast
qed

text \<open>The targets of the packaged records.\<close>

definition targets :: "pypath \<Rightarrow> (artifact_record \<times> bytes) list \<Rightarrow> (pypath \<times> bytes) list" where
  "targets w blobs = map (\<lambda>(r, d). (path_sub w (ar_path r), d)) (filter (\<lambda>(r, d). blob_path r \<noteq> None) blobs)"

definition blobs_present :: "pypath \<Rightarrow> (artifact_record \<times> bytes) list \<Rightarrow> fs \<Rightarrow> bool" where
  "blobs_present pkg blobs s \<longleftrightarrow> (\<forall>(r, d)\<in>set blobs. \<forall>p. blob_path r = Some p \<longrightarrow> files s (path_sub pkg p) = Some d)"

abbreviation entries :: "(artifact_record \<times> bytes) list \<Rightarrow> json list" where
  "entries blobs \<equiv> map (\<lambda>(r, d). JObj (manifest_artifact r)) blobs"

lemma restore_entries:
  assumes "list_all (\<lambda>(r, d). built_from d r) blobs" and "blobs_present pkg blobs s"
    and "\<forall>(r, d)\<in>set blobs. \<forall>p. blob_path r = Some p \<longrightarrow> \<not> below w (path_sub pkg p)"
    and "laid_out w T s" and "sorted_wrt apart (map fst (targets w blobs))"
    and "\<forall>t\<in>fst ` set (targets w blobs). \<forall>t'\<in>T. apart t t'"
  shows "\<exists>reps s'. mapIO (restore_artifact pkg w) (entries blobs) s = (Inr reps, s') \<and>
     (\<forall>(t, d)\<in>set (targets w blobs). files s' t = Some d) \<and>
     (\<forall>q. q \<notin> fst ` set (targets w blobs) \<longrightarrow> files s' q = files s q) \<and> laid_out w (T \<union> fst ` set (targets w blobs)) s'"
  using assms
proof (induction blobs arbitrary: s T)
  case (Cons x blobs)
  obtain r d where x: "x = (r, d)" by fastforce
  have b: "built_from d r" "list_all (\<lambda>(r, d). built_from d r) blobs" using Cons.prems(1) x by simp_all
  show ?case
  proof (cases "blob_path r")
    case None
    then obtain rep where "restore_artifact pkg w (JObj (manifest_artifact r)) s = (Inr rep, s)"
      using built_fields(1-6) [OF b(1)] by (simp add: restore_artifact_def entry_fields bindIO_def)
    moreover have "targets w (x # blobs) = targets w blobs" using None x by (simp add: targets_def)
    moreover have "\<exists>reps s'. mapIO (restore_artifact pkg w) (entries blobs) s = (Inr reps, s') \<and>
       (\<forall>(t, d)\<in>set (targets w blobs). files s' t = Some d) \<and>
       (\<forall>q. q \<notin> fst ` set (targets w blobs) \<longrightarrow> files s' q = files s q) \<and> laid_out w (T \<union> fst ` set (targets w blobs)) s'"
      using Cons.prems b calculation(2) by (intro Cons.IH) (auto simp: blobs_present_def)
    ultimately show ?thesis using x by (auto simp: bindIO_def split: prod.splits sum.splits)
  next
    case (Some p)
    let ?t = "path_sub w (ar_path r)"
    have tg: "targets w (x # blobs) = (?t, d) # targets w blobs" using Some x by (simp add: targets_def)
    have "files s (path_sub pkg p) = Some d" "\<not> below w (path_sub pkg p)"
      using Cons.prems(2,3) Some x by (auto simp: blobs_present_def)
    from restore_entry [OF b(1) Some this(1) Cons.prems(4) _ this(2)] Cons.prems(6)
    obtain rep s1 where s1: "restore_artifact pkg w (JObj (manifest_artifact r)) s = (Inr rep, s1)"
      "files s1 = (files s)(?t \<mapsto> d)" "laid_out w (insert ?t T) s1" by (auto simp: tg)
    have bt: "below w ?t" using b(1) allowed_path_parts(3) by (simp add: built_from_def path_sub_def below_join)
    have "blobs_present pkg blobs s1"
      using Cons.prems(2,3) s1(2) bt x by (fastforce simp: blobs_present_def)
    then have "\<exists>reps s'. mapIO (restore_artifact pkg w) (entries blobs) s1 = (Inr reps, s') \<and>
       (\<forall>(t, d)\<in>set (targets w blobs). files s' t = Some d) \<and>
       (\<forall>q. q \<notin> fst ` set (targets w blobs) \<longrightarrow> files s' q = files s1 q) \<and>
       laid_out w (insert ?t T \<union> fst ` set (targets w blobs)) s'"
      using Cons.prems(3,5,6) b s1(3) by (intro Cons.IH [where T = "insert ?t T"]) (auto simp: tg apart_def)
    then obtain reps s' where r': "mapIO (restore_artifact pkg w) (entries blobs) s1 = (Inr reps, s')"
      "\<forall>(t, d)\<in>set (targets w blobs). files s' t = Some d"
      "\<forall>q. q \<notin> fst ` set (targets w blobs) \<longrightarrow> files s' q = files s1 q"
      "laid_out w (insert ?t T \<union> fst ` set (targets w blobs)) s'" by blast
    have "?t \<notin> fst ` set (targets w blobs)" using Cons.prems(5) by (auto simp: tg apart_def)
    then have "files s' ?t = Some d" using r'(3) s1(2) by simp
    moreover have "mapIO (restore_artifact pkg w) (entries (x # blobs)) s = (Inr (rep # reps), s')"
      using s1(1) r'(1) x by (simp add: bindIO_def)
    ultimately show ?thesis using r' s1(2) by (intro exI [of _ "rep # reps"] exI [of _ s']) (auto simp: tg)
  qed
qed (simp add: targets_def)

section \<open>A written package imports\<close>

text \<open>The continuation evidence an exporter puts in the manifest.\<close>

definition continuation_ready :: "obj \<Rightarrow> obj \<Rightarrow> string \<Rightarrow> string \<Rightarrow> bool" where
  "continuation_ready g m prompt ah \<longleftrightarrow>
     (\<exists>ns thash kvh mp mk a as. graph_nodes g (map JObj ns) \<and> list_all (scalar_fields message_keys) ns \<and>
        reconstruct_prompt (JObj g) = Inr prompt \<and> token_hash (tokenize_prompt prompt) = Inr thash \<and>
        simulated_kv_hash (tokenize_prompt prompt) = Inr kvh \<and>
        map_of m ''prompt'' = Some (JObj mp) \<and> map_of mp ''byte_hash'' = Some (JStr (sha256_bytes (utf8_encode prompt))) \<and>
        map_of mp ''token_hash'' = Some (JStr thash) \<and>
        map_of m ''kv'' = Some (JObj mk) \<and> map_of mk ''kv_hash'' = Some (JStr kvh) \<and>
        map_of m ''artifacts'' = Some (JList (JObj a # as)) \<and> map_of a ''sha256'' = Some (JStr ah) \<and>
        map_of m ''deterministic_next_response'' = Some (JStr (deterministic_continue prompt ah)))"

lemma check_continuation_sorted:
  assumes c: "continuation_ready g m prompt ah" and m: "wf_json (JObj m)"
  shows "\<exists>bh th kh. check_continuation (JObj (sorted_obj g)) (JObj (sorted_obj m)) =
    Inr (bh, th, kh, deterministic_continue prompt ah)"
proof -
  from c obtain ns thash kvh mp mk a as where g: "graph_nodes g (map JObj ns)" "list_all (scalar_fields message_keys) ns"
    and t: "reconstruct_prompt (JObj g) = Inr prompt" "token_hash (tokenize_prompt prompt) = Inr thash"
      "simulated_kv_hash (tokenize_prompt prompt) = Inr kvh"
    and f: "map_of m ''prompt'' = Some (JObj mp)" "map_of mp ''byte_hash'' = Some (JStr (sha256_bytes (utf8_encode prompt)))"
      "map_of mp ''token_hash'' = Some (JStr thash)" "map_of m ''kv'' = Some (JObj mk)" "map_of mk ''kv_hash'' = Some (JStr kvh)"
      "map_of m ''artifacts'' = Some (JList (JObj a # as))" "map_of a ''sha256'' = Some (JStr ah)"
      "map_of m ''deterministic_next_response'' = Some (JStr (deterministic_continue prompt ah))"
    unfolding continuation_ready_def by blast
  have w: "wf_json (JObj mp)" "wf_json (JObj mk)" "wf_json (JObj a)"
    using wf_field [OF m f(1)] wf_field [OF m f(4)] wf_field [OF m f(6)] by simp_all
  have p: "reconstruct_prompt (JObj (sorted_obj g)) = Inr prompt" using reconstruct_prompt_sorted [OF g] t(1) by simp
  show ?thesis
    unfolding check_continuation_def p using m w f t(2,3) by (simp add: py_index_def seq_pos_def del: wf_json.simps)
qed

definition package_ready :: "(artifact_record \<times> bytes) list \<Rightarrow> obj \<Rightarrow> obj \<Rightarrow> string \<Rightarrow> bool" where
  "package_ready blobs g m prompt \<longleftrightarrow>
     gates_ready g m \<and> list_all (\<lambda>(r, d). built_from d r) blobs \<and> blobs \<noteq> [] \<and>
     continuation_ready g m prompt (content_hash (fst (hd blobs))) \<and>
     map_of m ''graph_path'' = Some (JStr ''graph.json'') \<and> map_of m ''artifacts'' = Some (JList (entries blobs)) \<and>
     map_of m ''artifact_store'' \<noteq> None \<and> distinct (map (path_name \<circ> Path \<circ> ar_path \<circ> fst) blobs) \<and>
     sorted_wrt (\<lambda>a b. apart (Path (ar_path (fst a))) (Path (ar_path (fst b)))) blobs"

text \<open>Blob paths are pairwise different, and different from the two JSON files.\<close>

lemma path_sub_inj: "anchor (Path a) = [] \<Longrightarrow> anchor (Path b) = [] \<Longrightarrow> path_sub d a = path_sub d b \<longleftrightarrow> Path a = Path b"
  by (cases "Path a"; cases "Path b") (simp add: path_sub_def path_join_def is_absolute_def)

lemma blob_Path:
  assumes "built_from d r" and "blob_path r = Some p"
  shows "Path p = \<lparr>anchor = [], parts = blob_parts d (ar_path r)\<rparr>"
  using built_fields(7) [OF assms] Path_blob allowed_path_parts assms(1) by (simp add: built_from_def)

lemma json_Path: "Path ''graph.json'' = \<lparr>anchor = [], parts = [''graph.json'']\<rparr>"
  "Path ''manifest.json'' = \<lparr>anchor = [], parts = [''manifest.json'']\<rparr>"
  "Path ''restored-workspace'' = \<lparr>anchor = [], parts = [''restored-workspace'']\<rparr>"
  by (simp_all add: Path_def path_root_def)

lemma blob_writes_distinct:
  assumes "list_all (\<lambda>(r, d). built_from d r) blobs" and "distinct (map (path_name \<circ> Path \<circ> ar_path \<circ> fst) blobs)"
  shows "distinct (map fst (blob_writes pkg blobs))"
    and "p \<in> fst ` set (blob_writes pkg blobs) \<Longrightarrow> \<exists>(r, d)\<in>set blobs. p = path_join pkg \<lparr>anchor = [], parts = blob_parts d (ar_path r)\<rparr>"
proof -
  show mem: "p \<in> fst ` set (blob_writes pkg blobs) \<Longrightarrow> \<exists>(r, d)\<in>set blobs. p = path_join pkg \<lparr>anchor = [], parts = blob_parts d (ar_path r)\<rparr>" for p
    using assms(1) by (fastforce simp: blob_writes_def map_filter_def list_all_iff path_sub_def blob_Path)
  show "distinct (map fst (blob_writes pkg blobs))"
    using assms
  proof (induction blobs)
    case (Cons x blobs)
    obtain r d where x: "x = (r, d)" by fastforce
    show ?case
    proof (cases "blob_path r")
      case (Some p)
      have "path_sub pkg p \<notin> fst ` set (blob_writes pkg blobs)"
      proof
        assume "path_sub pkg p \<in> fst ` set (blob_writes pkg blobs)"
        then obtain r' d' where "(r', d') \<in> set blobs" "path_sub pkg p = path_join pkg \<lparr>anchor = [], parts = blob_parts d' (ar_path r')\<rparr>"
          using Cons.prems(1) by (fastforce simp: blob_writes_def map_filter_def list_all_iff path_sub_def blob_Path)
        moreover have "Path p = \<lparr>anchor = [], parts = blob_parts d (ar_path r)\<rparr>"
          using blob_Path [OF _ Some] Cons.prems(1) x by simp
        ultimately have "path_name (Path (ar_path r)) = path_name (Path (ar_path r'))"
          by (simp add: path_sub_def path_join_def is_absolute_def blob_parts_def)
        with Cons.prems(2) \<open>(r', d') \<in> set blobs\<close> x show False by force
      qed
      with Cons x Some show ?thesis by auto
    qed (use Cons x in auto)
  qed simp
qed

lemma package_writes_distinct:
  assumes "package_ready blobs g m prompt"
  shows "distinct (map fst (package_writes pkg blobs g m))"
    and "\<forall>p\<in>fst ` set (package_writes pkg blobs g m). \<not> below (path_sub pkg ''restored-workspace'') p"
proof -
  have b: "list_all (\<lambda>(r, d). built_from d r) blobs" "distinct (map (path_name \<circ> Path \<circ> ar_path \<circ> fst) blobs)"
    using assms by (auto simp: package_ready_def)
  note d = blob_writes_distinct [OF b]
  have "path_sub pkg ''graph.json'' \<notin> fst ` set (blob_writes pkg blobs)" "path_sub pkg ''manifest.json'' \<notin> fst ` set (blob_writes pkg blobs)"
    using d(2) by (fastforce simp: path_sub_def path_join_def is_absolute_def json_Path blob_parts_def)+
  with d(1) show "distinct (map fst (package_writes pkg blobs g m))"
    by (simp add: package_writes_def path_sub_def path_join_def is_absolute_def json_Path)
  show "\<forall>p\<in>fst ` set (package_writes pkg blobs g m). \<not> below (path_sub pkg ''restored-workspace'') p"
    using d(2) by (fastforce simp: package_writes_def path_sub_def path_join_def is_absolute_def json_Path blob_parts_def below_def)
qed

lemma read_json_bytes:
  "files s p = Some (utf8_encode (dumps_pretty v @ [CHR 0x0A])) \<Longrightarrow> wf_json v \<Longrightarrow> read_json p s = (Inr (sort_keys v), s)"
  by (simp add: read_json_def read_file_def bindIO_def files_eq_Some loads_pretty)

lemma mapIO_sorted_entries:
  "mapIO (verify_artifact pkg) (map sort_keys (entries blobs)) = mapIO (verify_artifact pkg) (entries blobs)"
  "mapIO (restore_artifact pkg w) (map sort_keys (entries blobs)) = mapIO (restore_artifact pkg w) (entries blobs)"
  "mapR artifact_hash_entry (map sort_keys (entries blobs)) = mapR artifact_hash_entry (entries blobs)"
  by (induction blobs) (auto simp: artifact_ops_flat [OF entry_flat] simp del: sort_keys_JObj)

lemma verify_entries:
  "list_all (\<lambda>(r, d). built_from d r) blobs \<Longrightarrow> blobs_present pkg blobs s \<Longrightarrow>
   \<exists>v. mapIO (verify_artifact pkg) (entries blobs) s = (Inr v, s)"
proof (induction blobs)
  case (Cons x blobs)
  obtain r d where x: "x = (r, d)" by fastforce
  have "blobs_present pkg blobs s" "\<And>p. blob_path r = Some p \<Longrightarrow> files s (path_sub pkg p) = Some d"
    using Cons.prems(2) x by (auto simp: blobs_present_def)
  with Cons x verify_entry [of d r s pkg] show ?case by (auto simp: bindIO_def)
qed simp

lemma hash_entries: "\<exists>hs. mapR artifact_hash_entry (entries blobs) = Inr hs"
  by (induction blobs) (auto simp: artifact_hash_entry_def entry_fields)

text \<open>The state a package import needs: the package's files, and an unused workspace.\<close>

definition package_on_disk :: "pypath \<Rightarrow> (artifact_record \<times> bytes) list \<Rightarrow> obj \<Rightarrow> obj \<Rightarrow> fs \<Rightarrow> bool" where
  "package_on_disk pkg blobs g m s \<longleftrightarrow>
     files s (path_sub pkg ''graph.json'') = Some (utf8_encode (dumps_pretty (JObj g) @ [CHR 0x0A])) \<and>
     files s (path_sub pkg ''manifest.json'') = Some (utf8_encode (dumps_pretty (JObj m) @ [CHR 0x0A])) \<and>
     blobs_present pkg blobs s"

lemma targets_apart:
  assumes "list_all (\<lambda>(r, d). built_from d r) blobs"
    and "sorted_wrt (\<lambda>a b. apart (Path (ar_path (fst a))) (Path (ar_path (fst b)))) blobs"
  shows "sorted_wrt apart (map fst (targets w blobs))"
proof -
  have a: "anchor (Path (ar_path r)) = []" if "(r, d) \<in> set blobs" for r d
    using assms(1) that allowed_path_parts(3) by (fastforce simp: list_all_iff built_from_def)
  have "apart (path_sub w p) (path_sub w q)" if "apart (Path p) (Path q)" "anchor (Path p) = []" "anchor (Path q) = []" for p q
    using that by (auto simp: apart_def below_def path_sub_def path_join_def is_absolute_def)
  then have "sorted_wrt (\<lambda>x y. apart (path_sub w (ar_path (fst x))) (path_sub w (ar_path (fst y)))) blobs"
    using assms(2) a by (auto intro!: sorted_wrt_mono_rel [OF _ assms(2)])
  then have "sorted_wrt (\<lambda>x y. apart (path_sub w (ar_path (fst x))) (path_sub w (ar_path (fst y)))) (filter (\<lambda>(r, d). blob_path r \<noteq> None) blobs)"
    by (rule sorted_wrt_filter)
  then show ?thesis by (simp add: targets_def sorted_wrt_map case_prod_beta)
qed

lemma import_workspace_case:
  "(case workspace of Some w \<Rightarrow> w | None \<Rightarrow> path_sub package_dir ''restored-workspace'') = import_workspace package_dir workspace"
  by (simp add: import_workspace_def)

lemma package_imports:
  assumes r: "package_ready blobs g m prompt" and d: "package_on_disk pkg blobs g m s"
    and w: "w = import_workspace pkg ws" "free_dir s w" "unblocked s w"
  shows "\<exists>res s'. import_session pkg ws (JStr RUNTIME_ID) s = (Inr res, s') \<and>
     map_of g ''graph_hash'' = Some (ir_graph_hash res) \<and>
     ir_deterministic_next_response res = deterministic_continue prompt (content_hash (fst (hd blobs))) \<and>
     ir_restored_workspace res = as_posix w \<and>
     (\<forall>(t, b)\<in>set (targets w blobs). files s' t = Some b) \<and>
     (\<forall>q. q \<notin> fst ` set (targets w blobs) \<longrightarrow> files s' q = files s q) \<and> laid_out w (fst ` set (targets w blobs)) s'"
proof -
  have gr: "gates_ready g m" and b: "list_all (\<lambda>(r, d). built_from d r) blobs"
    and c: "continuation_ready g m prompt (content_hash (fst (hd blobs)))"
    and gp: "map_of m ''graph_path'' = Some (JStr ''graph.json'')" and as: "map_of m ''artifacts'' = Some (JList (entries blobs))"
    and st: "map_of m ''artifact_store'' \<noteq> None"
    and ap: "sorted_wrt (\<lambda>a b. apart (Path (ar_path (fst a))) (Path (ar_path (fst b)))) blobs"
    using r unfolding package_ready_def by blast+
  obtain h where wg: "wf_json (JObj g)" and wm: "wf_json (JObj m)" and h: "map_of g ''graph_hash'' = Some (JStr h)"
    using gr unfolding gates_ready_def graph_nodes_def by blast
  have bp: "blobs_present pkg blobs s" using d by (simp add: package_on_disk_def)
  have rm: "read_json (path_sub pkg ''manifest.json'') s = (Inr (JObj (sorted_obj m)), s)"
    and rg: "read_json (path_join pkg (Path ''graph.json'')) s = (Inr (JObj (sorted_obj g)), s)"
    using d read_json_bytes [OF _ wm] read_json_bytes [OF _ wg] unfolding package_on_disk_def path_sub_def by simp_all
  have gpath: "bindR (py_item (JObj (sorted_obj m)) ''graph_path'') safe_package_relative_path = Inr (Path ''graph.json'')"
    using wm gp by (simp add: safe_package_relative_path_def safe_relative_path_def is_absolute_def json_Path del: wf_json.simps)
  have arts: "manifest_artifacts (JObj (sorted_obj m)) = Inr (map sort_keys (entries blobs))"
    using wm as by (simp add: manifest_artifacts_def del: wf_json.simps)
  obtain x where cp: "check_package (JObj (sorted_obj g)) (JObj (sorted_obj m)) (JStr RUNTIME_ID) = Inr x"
    using check_package_sorted [OF gr] by blast
  obtain v where vf: "verify_artifacts pkg (JObj (sorted_obj m)) s = (Inr v, s)"
    using verify_entries [OF b bp] by (auto simp: verify_artifacts_def arts bindIO_def mapIO_sorted_entries simp del: map_map)
  have nb: "\<forall>(r, d)\<in>set blobs. \<forall>p. blob_path r = Some p \<longrightarrow> \<not> below w (path_sub pkg p)"
    using bp w(2) by (fastforce simp: blobs_present_def free_dir_def files_def)
  obtain reps s' where rs: "restore_artifacts pkg (JObj (sorted_obj m)) w s = (Inr reps, s')"
    and fs: "\<forall>(t, d)\<in>set (targets w blobs). files s' t = Some d" "\<forall>q. q \<notin> fst ` set (targets w blobs) \<longrightarrow> files s' q = files s q"
      "laid_out w (fst ` set (targets w blobs)) s'"
    using restore_entries [OF b bp nb laid_out_free [OF w(2,3)] targets_apart [OF b ap]]
    by (auto simp: restore_artifacts_def arts bindIO_def mapIO_sorted_entries simp del: map_map)
  obtain bh th kh where cc: "check_continuation (JObj (sorted_obj g)) (JObj (sorted_obj m)) =
      Inr (bh, th, kh, deterministic_continue prompt (content_hash (fst (hd blobs))))"
    using check_continuation_sorted [OF c wm] by blast
  obtain hs where hs: "bindR (manifest_artifacts (JObj (sorted_obj m))) (mapR artifact_hash_entry) = Inr hs"
    using hash_entries [of blobs] by (auto simp: arts mapIO_sorted_entries simp del: map_map)
  obtain store where store: "py_item (JObj (sorted_obj m)) ''artifact_store'' = Inr store"
    using st wm by (auto simp del: wf_json.simps)
  have gh: "py_item (JObj (sorted_obj g)) ''graph_hash'' = Inr (JStr h)" using h wg by (simp del: wf_json.simps)
  show ?thesis
    unfolding import_session_def import_workspace_case w(1) [symmetric] Let_def
    using fs h by (cases x) (simp add: bindIO_def rm gpath rg cp vf rs cc gh hs store del: py_item_JObj)
qed

text \<open>The directory written by \<open>write_package\<close> is such a state, with its default workspace.\<close>

lemma package_written:
  assumes "fs_tree s" and "write_package pkg blobs g m s = (Inr u, s')" and r: "package_ready blobs g m prompt"
  shows "package_on_disk pkg blobs g m s'" and "free_dir s' (import_workspace pkg None)" and "unblocked s' (import_workspace pkg None)"
proof -
  let ?w = "path_sub pkg ''restored-workspace''"
  obtain t where t: "clear_dir pkg s = (Inr (), t)" "fs_store.write_all (package_writes pkg blobs g m) t = (Inr (), s')"
    using assms(2) by (auto simp: write_package_writes split: prod.splits sum.splits)
  note pd = package_writes_distinct [OF r, of pkg]
  have files: "(p, b) \<in> set (package_writes pkg blobs g m) \<Longrightarrow> files s' p = Some b" for p b
    using fs_store.write_all_read [OF t(2) pd(1)] by (simp add: files_eq_Some)
  have "(path_sub pkg p, b) \<in> set (blob_writes pkg blobs)" if "(r, b) \<in> set blobs" "blob_path r = Some p" for r b p
    using that by (force simp: blob_writes_def map_filter_def)
  then have "blobs_present pkg blobs s'" using files by (auto simp: blobs_present_def package_writes_def)
  then show "package_on_disk pkg blobs g m s'" using files by (simp add: package_on_disk_def package_writes_def)
  have "free_dir t ?w"
    using clear_dir_empties(1) [OF assms(1) t(1)]
    by (auto simp: free_dir_def empty_dir_def below_def path_sub_def path_join_def is_absolute_def json_Path prefix_def)
  then show "free_dir s' (import_workspace pkg None)"
    using write_all_free [OF t(2)] pd(2) by (simp add: import_workspace_def)
  have "package_writes pkg blobs g m = (blob_writes pkg blobs @
      [(path_sub pkg ''graph.json'', utf8_encode (dumps_pretty (JObj g) @ [CHR 0x0A]))]) @
      [(path_sub pkg ''manifest.json'', utf8_encode (dumps_pretty (JObj m) @ [CHR 0x0A]))]"
    by (simp add: package_writes_def)
  from write_all_last_above(1) [OF t(2) [unfolded this]] have "unblocked s' (path_sub pkg ''manifest.json'')" .
  moreover have "strict_prefix xs (ys @ [z]) \<longleftrightarrow> prefix xs ys" for xs ys and z :: string
    by (auto simp: strict_prefix_def dest: prefix_length_le)
  ultimately show "unblocked s' (import_workspace pkg None)"
    by (simp add: unblocked_def import_workspace_def above_def path_sub_def path_join_def is_absolute_def json_Path)
qed

end
