(* ===== verification/ExportedPackages.thy ===== *)
theory ExportedPackages
  imports RoundTrip
begin

text \<open>
  The packages the two exporters build satisfy what the importer checks. Each node literal of the
  sources is shown well-behaved once; the graph-level conditions follow from its nodes.
\<close>

section \<open>Nodes\<close>

definition safe_call :: "obj \<Rightarrow> bool" where
  "safe_call d \<longleftrightarrow> (\<exists>se st rp ap i n.
     map_of d ''side_effect'' = Some (JStr se) \<and> map_of d ''status'' = Some (JStr st) \<and>
     map_of d ''resume_policy'' = Some (JStr rp) \<and> map_of d ''approval_state'' = Some (JStr ap) \<and>
     map_of d ''id'' = Some (JStr i) \<and> map_of d ''name'' = Some (JStr n) \<and> n \<in> set ALLOWED_TOOL_NAMES \<and>
     replay_decision (JStr se) (JStr st) (JStr rp) (JStr ap) \<noteq> Reject)"

definition node_type :: "json \<Rightarrow> string" where
  "node_type n = (case n of JObj d \<Rightarrow> (case map_of d ''type'' of Some (JStr t) \<Rightarrow> t | _ \<Rightarrow> []) | _ \<Rightarrow> [])"

definition well_node :: "json \<Rightarrow> bool" where
  "well_node n \<longleftrightarrow> (\<exists>d t. n = JObj d \<and> wf_json n \<and> secret_free n \<and> map_of d ''type'' = Some (JStr t) \<and>
     scalar_fields message_keys d \<and>
     (t = ''tool_call'' \<longrightarrow> safe_call d) \<and>
     (t = ''memory'' \<longrightarrow> scalar_fields memory_keys d \<and> memory_node_ok n) \<and>
     (t = ''retrieval'' \<longrightarrow> retrieval_plain d) \<and>
     (t = ''artifact'' \<longrightarrow> node_path_allowed n) \<and>
     (t = ''credential_ref'' \<longrightarrow> credential_rebind_only n))"

lemma well_node_dict: "well_node n \<Longrightarrow> \<exists>d. n = JObj d \<and> map_of d ''type'' = Some (JStr (node_type n))"
  by (auto simp: well_node_def node_type_def)

lemma well_node_kinds:
  assumes "well_node (JObj d)"
  shows "node_type (JObj d) = ''tool_call'' \<Longrightarrow> safe_call d"
    and "node_type (JObj d) = ''memory'' \<Longrightarrow> scalar_fields memory_keys d \<and> memory_node_ok (JObj d)"
    and "node_type (JObj d) = ''retrieval'' \<Longrightarrow> retrieval_plain d"
    and "node_type (JObj d) = ''artifact'' \<Longrightarrow> node_path_allowed (JObj d)"
    and "node_type (JObj d) = ''credential_ref'' \<Longrightarrow> credential_rebind_only (JObj d)"
    and "scalar_fields message_keys d"
  using assms by (auto simp: well_node_def node_type_def)

lemma nodes_of_type_well:
  assumes "map_of g ''nodes'' = Some (JList ns)" and "list_all well_node ns"
  shows "nodes_of_type kind (JObj g) = Inr (filter (\<lambda>n. node_type n = kind) ns)"
proof -
  have "filterR (\<lambda>node. bindR (py_get node ''type'') (\<lambda>t. Inr (py_eq t (JStr kind)))) ns =
      Inr (filter (\<lambda>n. node_type n = kind) ns)"
    using assms(2) by (induction ns) (auto dest!: well_node_dict)
  then show ?thesis using assms(1) by (simp add: nodes_of_type_def)
qed

text \<open>Literal nodes.\<close>

definition node_dict :: "string \<Rightarrow> string \<Rightarrow> obj \<Rightarrow> obj" where
  "node_dict i t p = dict_update
     [(''id'', JStr i), (''type'', JStr t), (''created_at'', JStr CREATED_AT),
      (''content_hash'', JStr (sha256_json (JObj p))), (''provenance'', provenance)] p"

lemma base_node_dict: "base_node i t p = JObj (node_dict i t p)"
  by (simp add: base_node_def node_dict_def)

lemma map_of_node_dict:
  "distinct (map fst p) \<Longrightarrow> map_of (node_dict i t p) k =
     (case map_of p k of Some v \<Rightarrow> Some v | None \<Rightarrow>
        map_of [(''id'', JStr i), (''type'', JStr t), (''created_at'', JStr CREATED_AT),
          (''content_hash'', JStr (sha256_json (JObj p))), (''provenance'', provenance)] k)"
  by (simp add: node_dict_def map_of_dict_update dict_keys_ok_def map_add_def split: option.split)

lemma wf_node_dict: "list_all (\<lambda>(k, v). wf_json v) p \<Longrightarrow> wf_json (JObj (node_dict i t p))"
  unfolding node_dict_def by (intro wf_dict_update) (simp_all add: dict_keys_ok_def provenance_def)

lemma secret_free_dict_set:
  "secret_free (JObj d) \<Longrightarrow> str_lower k \<notin> set FORBIDDEN_SECRET_KEYS \<Longrightarrow> secret_free v \<Longrightarrow> secret_free (JObj (dict_set k v d))"
  by (induction d) auto

lemma secret_free_dict_update:
  "secret_free (JObj d) \<Longrightarrow> secret_free (JObj new) \<Longrightarrow> secret_free (JObj (dict_update d new))"
  unfolding dict_update_def
proof (induction new arbitrary: d)
  case (Cons x new)
  obtain k v where x: "x = (k, v)" by fastforce
  have "secret_free (JObj new)" "str_lower k \<notin> set FORBIDDEN_SECRET_KEYS" "secret_free v" using Cons.prems(2) x by simp_all
  with Cons.IH [OF secret_free_dict_set [OF Cons.prems(1)]] show ?case by (simp add: x del: secret_free.simps)
qed simp

text \<open>The keys of the literals, none of them secret.\<close>

lemma plain_keys:
  "str_lower ''action'' \<notin> set FORBIDDEN_SECRET_KEYS"
  "str_lower ''active_instances'' \<notin> set FORBIDDEN_SECRET_KEYS"
  "str_lower ''activity_continued'' \<notin> set FORBIDDEN_SECRET_KEYS"
  "str_lower ''actor_id'' \<notin> set FORBIDDEN_SECRET_KEYS"
  "str_lower ''actor_ids'' \<notin> set FORBIDDEN_SECRET_KEYS"
  "str_lower ''adapter'' \<notin> set FORBIDDEN_SECRET_KEYS"
  "str_lower ''agent'' \<notin> set FORBIDDEN_SECRET_KEYS"
  "str_lower ''algorithm'' \<notin> set FORBIDDEN_SECRET_KEYS"
  "str_lower ''allowed_artifact_path_prefixes'' \<notin> set FORBIDDEN_SECRET_KEYS"
  "str_lower ''allowed_target_runtimes'' \<notin> set FORBIDDEN_SECRET_KEYS"
  "str_lower ''allowed_tools'' \<notin> set FORBIDDEN_SECRET_KEYS"
  "str_lower ''approval_state'' \<notin> set FORBIDDEN_SECRET_KEYS"
  "str_lower ''arguments_hash'' \<notin> set FORBIDDEN_SECRET_KEYS"
  "str_lower ''artifact_count'' \<notin> set FORBIDDEN_SECRET_KEYS"
  "str_lower ''artifact_hash'' \<notin> set FORBIDDEN_SECRET_KEYS"
  "str_lower ''artifact_kind'' \<notin> set FORBIDDEN_SECRET_KEYS"
  "str_lower ''artifact_policy'' \<notin> set FORBIDDEN_SECRET_KEYS"
  "str_lower ''artifact_store'' \<notin> set FORBIDDEN_SECRET_KEYS"
  "str_lower ''artifacts'' \<notin> set FORBIDDEN_SECRET_KEYS"
  "str_lower ''binding'' \<notin> set FORBIDDEN_SECRET_KEYS"
  "str_lower ''block_hashes'' \<notin> set FORBIDDEN_SECRET_KEYS"
  "str_lower ''blocked_tools'' \<notin> set FORBIDDEN_SECRET_KEYS"
  "str_lower ''boundary_labels'' \<notin> set FORBIDDEN_SECRET_KEYS"
  "str_lower ''byte_hash'' \<notin> set FORBIDDEN_SECRET_KEYS"
  "str_lower ''cache_ref'' \<notin> set FORBIDDEN_SECRET_KEYS"
  "str_lower ''call_id'' \<notin> set FORBIDDEN_SECRET_KEYS"
  "str_lower ''candidate_source'' \<notin> set FORBIDDEN_SECRET_KEYS"
  "str_lower ''candidate_sources'' \<notin> set FORBIDDEN_SECRET_KEYS"
  "str_lower ''capability'' \<notin> set FORBIDDEN_SECRET_KEYS"
  "str_lower ''captured_at'' \<notin> set FORBIDDEN_SECRET_KEYS"
  "str_lower ''causal_record_ids'' \<notin> set FORBIDDEN_SECRET_KEYS"
  "str_lower ''checkpoint_kind'' \<notin> set FORBIDDEN_SECRET_KEYS"
  "str_lower ''complexity'' \<notin> set FORBIDDEN_SECRET_KEYS"
  "str_lower ''confidence'' \<notin> set FORBIDDEN_SECRET_KEYS"
  "str_lower ''conflict'' \<notin> set FORBIDDEN_SECRET_KEYS"
  "str_lower ''conflicting_node_ids'' \<notin> set FORBIDDEN_SECRET_KEYS"
  "str_lower ''content'' \<notin> set FORBIDDEN_SECRET_KEYS"
  "str_lower ''content_hash'' \<notin> set FORBIDDEN_SECRET_KEYS"
  "str_lower ''content_sha256'' \<notin> set FORBIDDEN_SECRET_KEYS"
  "str_lower ''continuity_state'' \<notin> set FORBIDDEN_SECRET_KEYS"
  "str_lower ''created_at'' \<notin> set FORBIDDEN_SECRET_KEYS"
  "str_lower ''credential_policy'' \<notin> set FORBIDDEN_SECRET_KEYS"
  "str_lower ''decision'' \<notin> set FORBIDDEN_SECRET_KEYS"
  "str_lower ''default_replay_policy'' \<notin> set FORBIDDEN_SECRET_KEYS"
  "str_lower ''deterministic_next_response'' \<notin> set FORBIDDEN_SECRET_KEYS"
  "str_lower ''distance_metric'' \<notin> set FORBIDDEN_SECRET_KEYS"
  "str_lower ''drift_score'' \<notin> set FORBIDDEN_SECRET_KEYS"
  "str_lower ''edge_count'' \<notin> set FORBIDDEN_SECRET_KEYS"
  "str_lower ''edges'' \<notin> set FORBIDDEN_SECRET_KEYS"
  "str_lower ''embedding'' \<notin> set FORBIDDEN_SECRET_KEYS"
  "str_lower ''embedding_dim'' \<notin> set FORBIDDEN_SECRET_KEYS"
  "str_lower ''embedding_hash'' \<notin> set FORBIDDEN_SECRET_KEYS"
  "str_lower ''embedding_model'' \<notin> set FORBIDDEN_SECRET_KEYS"
  "str_lower ''episode'' \<notin> set FORBIDDEN_SECRET_KEYS"
  "str_lower ''episode_id'' \<notin> set FORBIDDEN_SECRET_KEYS"
  "str_lower ''event'' \<notin> set FORBIDDEN_SECRET_KEYS"
  "str_lower ''event_kind'' \<notin> set FORBIDDEN_SECRET_KEYS"
  "str_lower ''excluded_artifacts'' \<notin> set FORBIDDEN_SECRET_KEYS"
  "str_lower ''executed_tools'' \<notin> set FORBIDDEN_SECRET_KEYS"
  "str_lower ''expected_results'' \<notin> set FORBIDDEN_SECRET_KEYS"
  "str_lower ''external_resource_ids'' \<notin> set FORBIDDEN_SECRET_KEYS"
  "str_lower ''filters'' \<notin> set FORBIDDEN_SECRET_KEYS"
  "str_lower ''findings'' \<notin> set FORBIDDEN_SECRET_KEYS"
  "str_lower ''from'' \<notin> set FORBIDDEN_SECRET_KEYS"
  "str_lower ''graph_expansion_max_hops'' \<notin> set FORBIDDEN_SECRET_KEYS"
  "str_lower ''graph_hash'' \<notin> set FORBIDDEN_SECRET_KEYS"
  "str_lower ''graph_id'' \<notin> set FORBIDDEN_SECRET_KEYS"
  "str_lower ''graph_path'' \<notin> set FORBIDDEN_SECRET_KEYS"
  "str_lower ''graph_root_signature'' \<notin> set FORBIDDEN_SECRET_KEYS"
  "str_lower ''graph_version'' \<notin> set FORBIDDEN_SECRET_KEYS"
  "str_lower ''historical_mode'' \<notin> set FORBIDDEN_SECRET_KEYS"
  "str_lower ''historical_state'' \<notin> set FORBIDDEN_SECRET_KEYS"
  "str_lower ''id'' \<notin> set FORBIDDEN_SECRET_KEYS"
  "str_lower ''idempotency_key'' \<notin> set FORBIDDEN_SECRET_KEYS"
  "str_lower ''input_schema_hash'' \<notin> set FORBIDDEN_SECRET_KEYS"
  "str_lower ''is_error'' \<notin> set FORBIDDEN_SECRET_KEYS"
  "str_lower ''key'' \<notin> set FORBIDDEN_SECRET_KEYS"
  "str_lower ''key_pairs'' \<notin> set FORBIDDEN_SECRET_KEYS"
  "str_lower ''kind'' \<notin> set FORBIDDEN_SECRET_KEYS"
  "str_lower ''kv'' \<notin> set FORBIDDEN_SECRET_KEYS"
  "str_lower ''kv_hash'' \<notin> set FORBIDDEN_SECRET_KEYS"
  "str_lower ''kv_spans'' \<notin> set FORBIDDEN_SECRET_KEYS"
  "str_lower ''layout'' \<notin> set FORBIDDEN_SECRET_KEYS"
  "str_lower ''lineage'' \<notin> set FORBIDDEN_SECRET_KEYS"
  "str_lower ''lineage_links'' \<notin> set FORBIDDEN_SECRET_KEYS"
  "str_lower ''manifest_version'' \<notin> set FORBIDDEN_SECRET_KEYS"
  "str_lower ''media_type'' \<notin> set FORBIDDEN_SECRET_KEYS"
  "str_lower ''memory_count'' \<notin> set FORBIDDEN_SECRET_KEYS"
  "str_lower ''memory_kind'' \<notin> set FORBIDDEN_SECRET_KEYS"
  "str_lower ''memory_scope'' \<notin> set FORBIDDEN_SECRET_KEYS"
  "str_lower ''memory_tier'' \<notin> set FORBIDDEN_SECRET_KEYS"
  "str_lower ''migration_phase'' \<notin> set FORBIDDEN_SECRET_KEYS"
  "str_lower ''mode'' \<notin> set FORBIDDEN_SECRET_KEYS"
  "str_lower ''model'' \<notin> set FORBIDDEN_SECRET_KEYS"
  "str_lower ''name'' \<notin> set FORBIDDEN_SECRET_KEYS"
  "str_lower ''namespace'' \<notin> set FORBIDDEN_SECRET_KEYS"
  "str_lower ''node_count'' \<notin> set FORBIDDEN_SECRET_KEYS"
  "str_lower ''node_id'' \<notin> set FORBIDDEN_SECRET_KEYS"
  "str_lower ''nodes'' \<notin> set FORBIDDEN_SECRET_KEYS"
  "str_lower ''novelty'' \<notin> set FORBIDDEN_SECRET_KEYS"
  "str_lower ''object'' \<notin> set FORBIDDEN_SECRET_KEYS"
  "str_lower ''on_hash_mismatch'' \<notin> set FORBIDDEN_SECRET_KEYS"
  "str_lower ''on_missing_required'' \<notin> set FORBIDDEN_SECRET_KEYS"
  "str_lower ''on_unresolved_external'' \<notin> set FORBIDDEN_SECRET_KEYS"
  "str_lower ''operation'' \<notin> set FORBIDDEN_SECRET_KEYS"
  "str_lower ''origin_post_graph_hash'' \<notin> set FORBIDDEN_SECRET_KEYS"
  "str_lower ''origin_pre_graph_hash'' \<notin> set FORBIDDEN_SECRET_KEYS"
  "str_lower ''origin_written_artifacts'' \<notin> set FORBIDDEN_SECRET_KEYS"
  "str_lower ''output_schema_hash'' \<notin> set FORBIDDEN_SECRET_KEYS"
  "str_lower ''packaging'' \<notin> set FORBIDDEN_SECRET_KEYS"
  "str_lower ''participants'' \<notin> set FORBIDDEN_SECRET_KEYS"
  "str_lower ''path'' \<notin> set FORBIDDEN_SECRET_KEYS"
  "str_lower ''path_mapping'' \<notin> set FORBIDDEN_SECRET_KEYS"
  "str_lower ''pending_tool_call_count'' \<notin> set FORBIDDEN_SECRET_KEYS"
  "str_lower ''plan_id'' \<notin> set FORBIDDEN_SECRET_KEYS"
  "str_lower ''planner_profile'' \<notin> set FORBIDDEN_SECRET_KEYS"
  "str_lower ''planner_stages'' \<notin> set FORBIDDEN_SECRET_KEYS"
  "str_lower ''policies'' \<notin> set FORBIDDEN_SECRET_KEYS"
  "str_lower ''policy'' \<notin> set FORBIDDEN_SECRET_KEYS"
  "str_lower ''policy_hooks'' \<notin> set FORBIDDEN_SECRET_KEYS"
  "str_lower ''policy_profile'' \<notin> set FORBIDDEN_SECRET_KEYS"
  "str_lower ''policy_version'' \<notin> set FORBIDDEN_SECRET_KEYS"
  "str_lower ''post_resume_graph_hash'' \<notin> set FORBIDDEN_SECRET_KEYS"
  "str_lower ''pre_resume_graph_hash'' \<notin> set FORBIDDEN_SECRET_KEYS"
  "str_lower ''predicate'' \<notin> set FORBIDDEN_SECRET_KEYS"
  "str_lower ''profile'' \<notin> set FORBIDDEN_SECRET_KEYS"
  "str_lower ''prompt'' \<notin> set FORBIDDEN_SECRET_KEYS"
  "str_lower ''prompt_token_hash'' \<notin> set FORBIDDEN_SECRET_KEYS"
  "str_lower ''proof_hash'' \<notin> set FORBIDDEN_SECRET_KEYS"
  "str_lower ''provenance'' \<notin> set FORBIDDEN_SECRET_KEYS"
  "str_lower ''provenance_chain'' \<notin> set FORBIDDEN_SECRET_KEYS"
  "str_lower ''provenance_events'' \<notin> set FORBIDDEN_SECRET_KEYS"
  "str_lower ''provider'' \<notin> set FORBIDDEN_SECRET_KEYS"
  "str_lower ''publish_approved'' \<notin> set FORBIDDEN_SECRET_KEYS"
  "str_lower ''quality_state'' \<notin> set FORBIDDEN_SECRET_KEYS"
  "str_lower ''query'' \<notin> set FORBIDDEN_SECRET_KEYS"
  "str_lower ''query_embedding_hash'' \<notin> set FORBIDDEN_SECRET_KEYS"
  "str_lower ''query_hash'' \<notin> set FORBIDDEN_SECRET_KEYS"
  "str_lower ''query_text'' \<notin> set FORBIDDEN_SECRET_KEYS"
  "str_lower ''rank'' \<notin> set FORBIDDEN_SECRET_KEYS"
  "str_lower ''reason'' \<notin> set FORBIDDEN_SECRET_KEYS"
  "str_lower ''rebind_required'' \<notin> set FORBIDDEN_SECRET_KEYS"
  "str_lower ''reconstruction'' \<notin> set FORBIDDEN_SECRET_KEYS"
  "str_lower ''records'' \<notin> set FORBIDDEN_SECRET_KEYS"
  "str_lower ''redacted_artifacts'' \<notin> set FORBIDDEN_SECRET_KEYS"
  "str_lower ''redaction_policy'' \<notin> set FORBIDDEN_SECRET_KEYS"
  "str_lower ''redaction_state'' \<notin> set FORBIDDEN_SECRET_KEYS"
  "str_lower ''related_record_ids'' \<notin> set FORBIDDEN_SECRET_KEYS"
  "str_lower ''relation'' \<notin> set FORBIDDEN_SECRET_KEYS"
  "str_lower ''required'' \<notin> set FORBIDDEN_SECRET_KEYS"
  "str_lower ''required_approval_for_side_effects'' \<notin> set FORBIDDEN_SECRET_KEYS"
  "str_lower ''resource_refs'' \<notin> set FORBIDDEN_SECRET_KEYS"
  "str_lower ''restore_policy'' \<notin> set FORBIDDEN_SECRET_KEYS"
  "str_lower ''result'' \<notin> set FORBIDDEN_SECRET_KEYS"
  "str_lower ''result_hash'' \<notin> set FORBIDDEN_SECRET_KEYS"
  "str_lower ''results'' \<notin> set FORBIDDEN_SECRET_KEYS"
  "str_lower ''resume_policy'' \<notin> set FORBIDDEN_SECRET_KEYS"
  "str_lower ''resume_ref'' \<notin> set FORBIDDEN_SECRET_KEYS"
  "str_lower ''resumed_graph_path'' \<notin> set FORBIDDEN_SECRET_KEYS"
  "str_lower ''retention'' \<notin> set FORBIDDEN_SECRET_KEYS"
  "str_lower ''retention_policy'' \<notin> set FORBIDDEN_SECRET_KEYS"
  "str_lower ''retrieval_count'' \<notin> set FORBIDDEN_SECRET_KEYS"
  "str_lower ''retrieval_kind'' \<notin> set FORBIDDEN_SECRET_KEYS"
  "str_lower ''returned_graph_path'' \<notin> set FORBIDDEN_SECRET_KEYS"
  "str_lower ''reuse'' \<notin> set FORBIDDEN_SECRET_KEYS"
  "str_lower ''review_state'' \<notin> set FORBIDDEN_SECRET_KEYS"
  "str_lower ''role'' \<notin> set FORBIDDEN_SECRET_KEYS"
  "str_lower ''root'' \<notin> set FORBIDDEN_SECRET_KEYS"
  "str_lower ''root_ref'' \<notin> set FORBIDDEN_SECRET_KEYS"
  "str_lower ''round_trip_continued'' \<notin> set FORBIDDEN_SECRET_KEYS"
  "str_lower ''runtime'' \<notin> set FORBIDDEN_SECRET_KEYS"
  "str_lower ''runtime_version'' \<notin> set FORBIDDEN_SECRET_KEYS"
  "str_lower ''safe_to_import'' \<notin> set FORBIDDEN_SECRET_KEYS"
  "str_lower ''salience'' \<notin> set FORBIDDEN_SECRET_KEYS"
  "str_lower ''schema_version'' \<notin> set FORBIDDEN_SECRET_KEYS"
  "str_lower ''score'' \<notin> set FORBIDDEN_SECRET_KEYS"
  "str_lower ''score_breakdown'' \<notin> set FORBIDDEN_SECRET_KEYS"
  "str_lower ''score_kind'' \<notin> set FORBIDDEN_SECRET_KEYS"
  "str_lower ''scorer_kind'' \<notin> set FORBIDDEN_SECRET_KEYS"
  "str_lower ''secret_material_policy'' \<notin> set FORBIDDEN_SECRET_KEYS"
  "str_lower ''security'' \<notin> set FORBIDDEN_SECRET_KEYS"
  "str_lower ''security_groups'' \<notin> set FORBIDDEN_SECRET_KEYS"
  "str_lower ''selected_channels'' \<notin> set FORBIDDEN_SECRET_KEYS"
  "str_lower ''selected_memory'' \<notin> set FORBIDDEN_SECRET_KEYS"
  "str_lower ''selection_policy'' \<notin> set FORBIDDEN_SECRET_KEYS"
  "str_lower ''sensitivity'' \<notin> set FORBIDDEN_SECRET_KEYS"
  "str_lower ''sha256'' \<notin> set FORBIDDEN_SECRET_KEYS"
  "str_lower ''side_effect'' \<notin> set FORBIDDEN_SECRET_KEYS"
  "str_lower ''side_effect_audit'' \<notin> set FORBIDDEN_SECRET_KEYS"
  "str_lower ''signature_algorithm'' \<notin> set FORBIDDEN_SECRET_KEYS"
  "str_lower ''signer_id'' \<notin> set FORBIDDEN_SECRET_KEYS"
  "str_lower ''size_bytes'' \<notin> set FORBIDDEN_SECRET_KEYS"
  "str_lower ''snippet_hash'' \<notin> set FORBIDDEN_SECRET_KEYS"
  "str_lower ''started_at'' \<notin> set FORBIDDEN_SECRET_KEYS"
  "str_lower ''state_hash'' \<notin> set FORBIDDEN_SECRET_KEYS"
  "str_lower ''status'' \<notin> set FORBIDDEN_SECRET_KEYS"
  "str_lower ''steps'' \<notin> set FORBIDDEN_SECRET_KEYS"
  "str_lower ''stopped_instances'' \<notin> set FORBIDDEN_SECRET_KEYS"
  "str_lower ''subject'' \<notin> set FORBIDDEN_SECRET_KEYS"
  "str_lower ''target_artifact_hash'' \<notin> set FORBIDDEN_SECRET_KEYS"
  "str_lower ''target_path'' \<notin> set FORBIDDEN_SECRET_KEYS"
  "str_lower ''target_post_graph_hash'' \<notin> set FORBIDDEN_SECRET_KEYS"
  "str_lower ''target_proof_hash'' \<notin> set FORBIDDEN_SECRET_KEYS"
  "str_lower ''target_root'' \<notin> set FORBIDDEN_SECRET_KEYS"
  "str_lower ''target_runtime'' \<notin> set FORBIDDEN_SECRET_KEYS"
  "str_lower ''text_hash'' \<notin> set FORBIDDEN_SECRET_KEYS"
  "str_lower ''title'' \<notin> set FORBIDDEN_SECRET_KEYS"
  "str_lower ''to'' \<notin> set FORBIDDEN_SECRET_KEYS"
  "str_lower ''token_count'' \<notin> set FORBIDDEN_SECRET_KEYS"
  "str_lower ''token_end'' \<notin> set FORBIDDEN_SECRET_KEYS"
  "str_lower ''token_hash'' \<notin> set FORBIDDEN_SECRET_KEYS"
  "str_lower ''token_start'' \<notin> set FORBIDDEN_SECRET_KEYS"
  "str_lower ''tokenizer_hash'' \<notin> set FORBIDDEN_SECRET_KEYS"
  "str_lower ''tool_call_count'' \<notin> set FORBIDDEN_SECRET_KEYS"
  "str_lower ''trust_level'' \<notin> set FORBIDDEN_SECRET_KEYS"
  "str_lower ''trusted_signer_ids'' \<notin> set FORBIDDEN_SECRET_KEYS"
  "str_lower ''type'' \<notin> set FORBIDDEN_SECRET_KEYS"
  "str_lower ''unresolved'' \<notin> set FORBIDDEN_SECRET_KEYS"
  "str_lower ''uri'' \<notin> set FORBIDDEN_SECRET_KEYS"
  "str_lower ''valid_at'' \<notin> set FORBIDDEN_SECRET_KEYS"
  "str_lower ''value'' \<notin> set FORBIDDEN_SECRET_KEYS"
  "str_lower ''vector_memory'' \<notin> set FORBIDDEN_SECRET_KEYS"
  "str_lower ''vector_store_ref'' \<notin> set FORBIDDEN_SECRET_KEYS"
  "str_lower ''version'' \<notin> set FORBIDDEN_SECRET_KEYS"
  "str_lower ''weight'' \<notin> set FORBIDDEN_SECRET_KEYS"
  "str_lower ''written_artifacts'' \<notin> set FORBIDDEN_SECRET_KEYS"
  "str_lower ''blob_path'' \<notin> set FORBIDDEN_SECRET_KEYS"
  "str_lower ''required_approval_for_publish'' \<notin> set FORBIDDEN_SECRET_KEYS"
  "str_lower ''resume_report_path'' \<notin> set FORBIDDEN_SECRET_KEYS"
  "str_lower ''roundtrip_report_path'' \<notin> set FORBIDDEN_SECRET_KEYS"
  by (simp_all add: str_lower_def lower_char_def FORBIDDEN_SECRET_KEYS_def)

lemma secret_free_node_dict: "secret_free (JObj p) \<Longrightarrow> secret_free (JObj (node_dict i t p))"
  unfolding node_dict_def by (rule secret_free_dict_update) (simp_all add: plain_keys provenance_def)

lemma well_base_node:
  assumes p: "distinct (map fst p)" "list_all (\<lambda>(k, v). wf_json v) p" "secret_free (JObj p)"
    and m: "map_of p ''id'' = None" "map_of p ''type'' = None" and "scalar_fields [''role'', ''content''] p"
    and "t = ''tool_call'' \<Longrightarrow> safe_call ((''id'', JStr i) # p)"
    and "t = ''memory'' \<Longrightarrow> scalar_fields memory_keys p \<and> memory_node_ok (JObj ((''id'', JStr i) # p))"
    and "t = ''retrieval'' \<Longrightarrow> retrieval_plain p" and "t = ''artifact'' \<Longrightarrow> node_path_allowed (JObj p)"
    and "t = ''credential_ref'' \<Longrightarrow> credential_rebind_only (JObj p)"
  shows "well_node (base_node i t p)"
proof -
  note l = map_of_node_dict [OF p(1)]
  have s: "map_of (node_dict i t p) k = map_of ((''id'', JStr i) # p) k" if "k \<notin> {''type'', ''created_at'', ''content_hash'', ''provenance''}" for k
    using that m by (auto simp: l split: option.split)
  have f: "field_or (node_dict i t p) k d = field_or ((''id'', JStr i) # p) k d" if "k \<notin> {''type'', ''created_at'', ''content_hash'', ''provenance''}" for k d
    using s [OF that] by (simp add: field_or_def)
  show ?thesis
    unfolding well_node_def base_node_dict
  proof (intro exI conjI impI)
    show "wf_json (JObj (node_dict i t p))" using p(2) by (rule wf_node_dict)
    show "secret_free (JObj (node_dict i t p))" using p(3) by (rule secret_free_node_dict)
    show "map_of (node_dict i t p) ''type'' = Some (JStr t)" using m by (simp add: l)
    show "scalar_fields message_keys (node_dict i t p)"
      using assms(6) m by (auto simp: scalar_fields_def message_keys_def l split: option.splits)
    show "safe_call (node_dict i t p)" if "t = ''tool_call''"
      using assms(7) [OF that] unfolding safe_call_def by (simp add: s)
    show "retrieval_plain (node_dict i t p)" if "t = ''retrieval''"
      using assms(9) [OF that] unfolding retrieval_plain_def by (simp add: s)
    show "node_path_allowed (JObj (node_dict i t p))" if "t = ''artifact''"
      using assms(10) [OF that] unfolding node_path_allowed_def by (simp add: f) (simp add: field_or_def)
    show "credential_rebind_only (JObj (node_dict i t p))" if "t = ''credential_ref''"
      using assms(11) [OF that] unfolding credential_rebind_only_def by (simp add: f s) (simp add: field_or_def)
    show "scalar_fields memory_keys (node_dict i t p)" if "t = ''memory''"
      using assms(8) [OF that] unfolding scalar_fields_def by (auto simp: memory_keys_def s split: if_splits)
    show "memory_node_ok (JObj (node_dict i t p))" if "t = ''memory''"
    proof -
      have "memory_text (JObj (node_dict i t p)) = memory_text (JObj ((''id'', JStr i) # p))"
        unfolding memory_text_def by (simp add: py_get_or_field f del: py_get_or_JObj)
      with assms(8) [OF that] show ?thesis unfolding memory_node_ok_def by (simp add: s)
    qed
  qed simp
qed


section \<open>The literal nodes of the reference session\<close>

lemma memory_node_okI:
  assumes "map_of m ''id'' = Some (JStr i)" and "memory_text (JObj m) = Inr t"
    and "map_of m ''embedding_hash'' = Some (JStr (embedding_hash (deterministic_embedding t)))"
  shows "memory_node_ok (JObj m)"
  using assms by (simp add: memory_node_ok_def)

lemma secret_free_flit [simp]: "secret_free (flit x)"
  by (simp add: flit_def)

lemma well_event_start: "well_node event_start_node"
  unfolding event_start_node_def by (rule well_base_node) (simp_all add: plain_keys scalar_fields_def)

lemma well_write_report_call: "well_node (write_report_call_node path h)"
  unfolding write_report_call_node_def
  by (rule well_base_node)
    (simp_all add: plain_keys scalar_fields_def safe_call_def ALLOWED_TOOL_NAMES_def replay_decision_def
      finished_status_def mutating_def non_mutating_def pending_status_def)

lemma well_write_report_result: "well_node (write_report_result_node path h)"
  unfolding write_report_result_node_def by (rule well_base_node) (simp_all add: plain_keys scalar_fields_def)

lemma well_report_fact: "well_node report_fact_node"
  unfolding report_fact_node_def
  by (rule well_base_node)
    (simp_all add: plain_keys scalar_fields_def memory_keys_def memory_node_ok_def memory_text_def dict_keys_ok_def)

lemma well_prompt_checkpoint: "well_node (prompt_checkpoint_node prompt)"
  unfolding prompt_checkpoint_node_def by (rule well_base_node) (simp_all add: plain_keys scalar_fields_def)

lemma well_prompt_kv_span: "well_node (prompt_kv_span_node prompt h)"
  unfolding prompt_kv_span_node_def by (rule well_base_node) (simp_all add: plain_keys scalar_fields_def)

lemma well_credential: "well_node local_filesystem_credential_node"
  unfolding local_filesystem_credential_node_def
  by (rule well_base_node) (simp_all add: plain_keys scalar_fields_def credential_rebind_only_def field_or_def)


lemma well_artifact:
  assumes "built_from data r"
  shows "well_node (base_node i ''artifact'' (artifact_node_payload r))"
proof -
  have a: "allowed_path (JStr (ar_path r))" using assms by (simp add: built_from_def)
  show ?thesis
    by (cases "disposition r = ''packaged''"; rule well_base_node)
      (simp_all add: artifact_node_payload_def Let_def dict_update_def plain_keys scalar_fields_def node_path_allowed_def
        field_or_def a)
qed

lemma retrieval_plain_single:
  "map_of n ''results'' = Some (JList [JObj r]) \<Longrightarrow> scalar_fields result_keys r \<Longrightarrow> retrieval_plain n"
  unfolding retrieval_plain_def by (intro exI [of _ "[r]"]) simp

lemma retrieval_payload_results:
  "\<exists>r. map_of (vector_retrieval_payload q) ''results'' = Some (JList [JObj r]) \<and> scalar_fields result_keys r"
  by (simp add: vector_retrieval_payload_def Let_def scalar_fields_def result_keys_def)

lemma well_retrieval: "well_node (base_node i ''retrieval'' (vector_retrieval_payload q))"
proof (rule well_base_node)
  show "retrieval_plain (vector_retrieval_payload q)"
    using retrieval_payload_results retrieval_plain_single by blast
qed (simp_all add: vector_retrieval_payload_def Let_def plain_keys scalar_fields_def dict_keys_ok_def)

lemma well_message:
  assumes "message_node (k, JObj [(''role'', JStr role), (''content'', JStr content)]) = Inr (i, n)"
  shows "well_node n" and "node_type n = ''message''"
proof -
  obtain actor where n: "n = base_node i ''message''
      [(''actor_id'', JStr actor), (''memory_scope'', JStr ''thread''),
       (''memory_tier'', JStr ''active_context''), (''sensitivity'', JStr ''internal''),
       (''retention'', JStr ''session''), (''redaction_state'', JStr ''none''),
       (''role'', JStr role), (''content'', JStr content)]"
    using assms by (auto simp: message_node_def Let_def)
  show "well_node n" unfolding n by (rule well_base_node) (simp_all add: plain_keys scalar_fields_def)
  show "node_type n = ''message''" unfolding n by (simp add: node_type_def base_node_dict map_of_node_dict)
qed

section \<open>Well-formed values without secret keys\<close>

definition clean :: "json \<Rightarrow> bool" where
  "clean v \<longleftrightarrow> wf_json v \<and> secret_free v"

lemma clean_scalar [simp]: "clean JNull" "clean (JBool b)" "clean (JInt i)" "clean (JStr s)"
  "is_double r \<Longrightarrow> clean (JFloat (Fin r))" "clean (flit x)"
  by (simp_all add: clean_def)

lemma clean_JList: "clean (JList xs) \<longleftrightarrow> list_all clean xs"
  by (auto simp: clean_def list_all_iff)

lemma clean_JObj:
  "clean (JObj d) \<longleftrightarrow> dict_keys_ok d \<and> list_all (\<lambda>(k, v). str_lower k \<notin> set FORBIDDEN_SECRET_KEYS \<and> clean v) d"
  by (auto simp: clean_def list_all_iff)

lemma clean_field: "clean (JObj d) \<Longrightarrow> map_of d k = Some v \<Longrightarrow> clean v"
  by (auto simp: clean_JObj list_all_iff dest!: map_of_SomeD)

lemma clean_field_or: "clean (JObj d) \<Longrightarrow> clean e \<Longrightarrow> clean (field_or d k e)"
  by (auto simp: field_or_def clean_field split: option.split)

lemma clean_dict_set: "clean (JObj d) \<Longrightarrow> str_lower k \<notin> set FORBIDDEN_SECRET_KEYS \<Longrightarrow> clean v \<Longrightarrow> clean (JObj (dict_set k v d))"
  by (simp add: clean_def wf_dict_set secret_free_dict_set del: wf_json.simps secret_free.simps)

lemma clean_dict_update: "clean (JObj d) \<Longrightarrow> clean (JObj e) \<Longrightarrow> clean (JObj (dict_update d e))"
  using wf_dict_update [of d e] secret_free_dict_update [of d e] by (simp add: clean_def)

lemma well_clean: "well_node n \<Longrightarrow> clean n"
  by (auto simp: well_node_def clean_def)

lemmas clean_simps = clean_JObj clean_JList dict_keys_ok_def plain_keys

lemma clean_update_verdict: "clean (JObj e) \<Longrightarrow> clean (JObj (update_verdict a b r e))"
  unfolding update_verdict_def by (rule clean_dict_update) (simp_all add: clean_simps)

lemma clean_audit:
  assumes "safe_call d" and "map_of g ''policies'' = Some (JObj p)"
  shows "\<exists>e. audit_tool_call (JObj g) (JObj d) = Inr e \<and> clean (JObj e)"
proof -
  obtain se st rp ap i n where d: "map_of d ''side_effect'' = Some (JStr se)" "map_of d ''status'' = Some (JStr st)"
    "map_of d ''resume_policy'' = Some (JStr rp)" "map_of d ''approval_state'' = Some (JStr ap)"
    "map_of d ''id'' = Some (JStr i)" "map_of d ''name'' = Some (JStr n)"
    using assms(1) by (auto simp: safe_call_def)
  let ?e = "new_audit_entry (JStr i) (JStr n) (JStr se) (JStr st) (JStr rp) (JStr ap)"
  have e: "clean (JObj ?e)" by (simp add: new_audit_entry_def clean_simps)
  have "\<exists>e'. classify_tool_call (JStr se) (JStr st) (JStr rp) e = Inr e' \<and> clean (JObj e')" if "clean (JObj e)" for e
    using that by (simp add: classify_tool_call_def Let_def clean_update_verdict)
  with e obtain e1 where e1: "classify_tool_call (JStr se) (JStr st) (JStr rp) ?e = Inr e1" "clean (JObj e1)" by blast
  have "\<exists>e'. deny_unapproved (JStr ap) (JStr st) e1 = Inr e' \<and> clean (JObj e')"
    using e1(2) by (simp add: deny_unapproved_def clean_update_verdict)
  then show ?thesis using d e1(1) assms(2) by (simp add: audit_tool_call_def)
qed

section \<open>The replay audit of the exported graphs\<close>

lemma well_calls:
  assumes "list_all well_node ns"
  obtains ds where "filter (\<lambda>n. node_type n = kind) ns = map JObj ds"
    and "\<And>d. d \<in> set ds \<Longrightarrow> well_node (JObj d) \<and> node_type (JObj d) = kind"
proof -
  define ds where "ds = map (\<lambda>n. case n of JObj d \<Rightarrow> d | _ \<Rightarrow> []) (filter (\<lambda>n. node_type n = kind) ns)"
  have f: "map JObj ds = filter (\<lambda>n. node_type n = kind) ns"
    unfolding ds_def map_map using assms by (intro map_idI) (auto simp: list_all_iff dest!: well_node_dict)
  have "JObj d \<in> set (filter (\<lambda>n. node_type n = kind) ns)" if "d \<in> set ds" for d
    unfolding f [symmetric] using that by simp
  then show thesis using that [of ds] f assms by (auto simp: list_all_iff)
qed

lemma audit_ready:
  assumes ns: "map_of g ''nodes'' = Some (JList ns)" "list_all well_node ns"
    and p: "map_of g ''policies'' = Some (JObj p)" "scalar_fields [''default_replay_policy''] p"
  shows "replayable g" and "\<exists>audit. audit_tool_replay_safety (JObj g) = Inr audit \<and> list_all (\<lambda>e. clean (JObj e)) audit"
proof -
  obtain ds where ds: "filter (\<lambda>n. node_type n = ''tool_call'') ns = map JObj ds"
    and w: "\<And>d. d \<in> set ds \<Longrightarrow> well_node (JObj d) \<and> node_type (JObj d) = ''tool_call''"
    by (rule well_calls [OF ns(2)]) blast
  have tc: "tool_call_nodes (JObj g) = Inr (map JObj ds)"
    using nodes_of_type_well [OF ns] ds by (simp add: tool_call_nodes_def)
  have sc: "safe_call d" if "d \<in> set ds" for d using w [OF that] by (auto simp: well_node_def node_type_def)
  have "\<exists>audit. mapR (audit_tool_call (JObj g)) (map JObj ds) = Inr audit \<and> list_all (\<lambda>e. clean (JObj e)) audit"
    using sc
  proof (induction ds)
    case (Cons d ds)
    then obtain audit where "mapR (audit_tool_call (JObj g)) (map JObj ds) = Inr audit" "list_all (\<lambda>e. clean (JObj e)) audit" by auto
    moreover obtain e where "audit_tool_call (JObj g) (JObj d) = Inr e" "clean (JObj e)"
      using clean_audit [OF Cons.prems p(1), of d] by auto
    ultimately show ?case by simp
  qed simp
  then obtain audit where a: "audit_tool_replay_safety (JObj g) = Inr audit" "list_all (\<lambda>e. clean (JObj e)) audit"
    by (auto simp: audit_tool_replay_safety_def tc)
  then show "\<exists>audit. audit_tool_replay_safety (JObj g) = Inr audit \<and> list_all (\<lambda>e. clean (JObj e)) audit" by blast
  have "node_decision g d \<noteq> Reject" if "d \<in> set ds" for d
    using sc [OF that] by (auto simp: safe_call_def node_decision_def resume_policy_of_def field_or_def)
  then have "reject_unsafe_tool_replay audit = Inr ()" using replay_gate_decides [OF a(1) tc] by simp
  moreover have "scalar_fields tool_call_keys d" if "d \<in> set ds" for d
    using sc [OF that] by (auto simp: safe_call_def scalar_fields_def tool_call_keys_def)
  ultimately show "replayable g"
    unfolding replayable_def using p a tc by (auto simp: list_all_iff)
qed

section \<open>Their vector memory\<close>

lemma memory_record_exists:
  assumes "well_node n" and "node_type n = ''memory''"
  shows "\<exists>rs. memory_vector_record n = Inr rs \<and> list_all (\<lambda>r. clean (vr_node_id r) \<and> clean (vr_text_hash r) \<and>
     list_all is_double (vr_embedding r)) rs"
proof -
  obtain d i where d: "n = JObj d" "map_of d ''id'' = Some (JStr i)" "clean (JObj d)"
    using assms well_clean [OF assms(1)] by (auto simp: well_node_def node_type_def memory_node_ok_def)
  then obtain t where t: "memory_text (JObj d) = Inr t" by (auto simp: memory_text_def)
  have "clean (case map_of d ''text_hash'' of None \<Rightarrow> JNull | Some x \<Rightarrow> x)"
    using clean_field [OF d(3)] by (simp split: option.split)
  then show ?thesis using d t by (simp add: memory_vector_record_def embedding_doubles)
qed

lemma snapshot_exists:
  assumes ns: "map_of g ''nodes'' = Some (JList ns)" "list_all well_node ns"
  shows "\<exists>s. compute_vector_snapshot (JObj g) (JStr q) = Inr s \<and> vs_query_text s = q \<and> clean (vector_snapshot_json s)"
proof -
  let ?ms = "filter (\<lambda>n. node_type n = ''memory'') ns"
  have mn: "memory_nodes (JObj g) = Inr ?ms" using nodes_of_type_well [OF ns] by (simp add: memory_nodes_def)
  have ok: "list_all memory_node_ok ?ms" using ns(2) by (auto simp: list_all_iff well_node_def node_type_def)
  have "\<exists>rss. mapR memory_vector_record ?ms = Inr rss \<and> list_all (\<lambda>r. clean (vr_node_id r) \<and> clean (vr_text_hash r) \<and>
     list_all is_double (vr_embedding r)) (concat rss)"
    using ns(2)
  proof (induction ns)
    case (Cons n ns)
    then show ?case using memory_record_exists [of n] by (fastforce simp: bindR_eq_Inr)
  qed simp
  then obtain rs where rs: "vector_records (JObj g) = Inr rs"
    and c: "list_all (\<lambda>r. clean (vr_node_id r) \<and> clean (vr_text_hash r) \<and> list_all is_double (vr_embedding r)) rs"
    by (auto simp: vector_records_def mn)
  let ?r = "sort_key result_key (map (scored (deterministic_embedding q)) rs)"
  have "sort_results (map (scored (deterministic_embedding q)) rs) = Inr ?r"
    using sorted_results_strings [OF rs mn ok] by (simp add: sort_results_eq_Inr)
  then have s: "compute_vector_snapshot (JObj g) (JStr q) =
      Inr \<lparr>vs_query_text = q, vs_records = rs, vs_expected_results = ranked_results ?r\<rparr>"
    by (simp add: compute_vector_snapshot_def rs)
  have "clean (vector_record_json r)" if "r \<in> set rs" for r
    using c that wf_embedding_json [of "vr_embedding r"]
    by (auto simp: vector_record_json_def clean_simps list_all_iff embedding_json_def)
  moreover have "clean i" if "(k, i, sc) \<in> set (enum_from 1 ?r)" for k i sc
    using that c by (auto simp: enum_from_def scored_def list_all_iff dest!: set_zip_rightD)
  moreover have "is_double sc" if "(k, i, sc) \<in> set (enum_from 1 ?r)" for k i sc
    using that by (auto simp: enum_from_def scored_def dest!: set_zip_rightD)
  ultimately have "clean (vector_snapshot_json \<lparr>vs_query_text = q, vs_records = rs, vs_expected_results = ranked_results ?r\<rparr>)"
    by (fastforce simp: vector_snapshot_json_def ranked_results_def clean_simps list_all_iff split: prod.split)
  with s show ?thesis by simp
qed

lemma remembered_ready:
  assumes ns: "map_of g ''nodes'' = Some (JList ns)" "list_all well_node ns"
    and "distinct (node_ids (filter (\<lambda>n. node_type n = ''memory'') ns))"
    and s: "compute_vector_snapshot (JObj g) (JStr q) = Inr s" "\<And>n. n \<in> set ns \<Longrightarrow> node_type n = ''retrieval'' \<Longrightarrow> retrieval_matches s n"
    and m: "map_of m ''vector_memory'' = Some (vector_snapshot_json s)"
  shows "remembered g m"
proof -
  obtain ms where ms: "filter (\<lambda>n. node_type n = ''memory'') ns = map JObj ms"
    and w: "\<And>d. d \<in> set ms \<Longrightarrow> well_node (JObj d) \<and> node_type (JObj d) = ''memory''"
    by (rule well_calls [OF ns(2)]) blast
  obtain rns where rns: "filter (\<lambda>n. node_type n = ''retrieval'') ns = map JObj rns"
    and wr: "\<And>d. d \<in> set rns \<Longrightarrow> well_node (JObj d) \<and> node_type (JObj d) = ''retrieval''"
    by (rule well_calls [OF ns(2)]) blast
  obtain vm where vm: "vector_snapshot_json s = JObj vm" by (simp add: vector_snapshot_json_def)
  have "list_all (scalar_fields memory_keys) ms" "list_all memory_node_ok (map JObj ms)" "list_all retrieval_plain rns"
    using w wr well_node_kinds by (auto simp: list_all_iff)
  moreover have "list_all (retrieval_matches s) (map JObj rns)"
    using s(2) unfolding rns [symmetric] by (auto simp: list_all_iff)
  moreover have "memory_nodes (JObj g) = Inr (map JObj ms)" "retrieval_nodes (JObj g) = Inr (map JObj rns)"
    using nodes_of_type_well [OF ns] ms rns by (simp_all add: memory_nodes_def retrieval_nodes_def)
  ultimately show ?thesis
    unfolding remembered_def using assms(3) ms s(1) m vm snapshot_json_entry [OF vm] by metis
qed

section \<open>Their security attestation\<close>

lemma security_ready:
  assumes g: "clean (JObj g)" "map_of g ''nodes'' = Some (JList ns)" "list_all well_node ns"
      "map_of g ''graph_hash'' = Some (JStr h)" "map_of g ''graph_id'' = Some (JStr gid)"
    and m: "clean (JObj m)" "build_security_attestation (JObj g) = Inr sec" "map_of m ''security'' = Some sec"
      "map_of m ''artifacts'' = Some (JList (entries blobs))" "list_all (\<lambda>(r, d). built_from d r) blobs"
  shows "security_satisfied g m (JStr RUNTIME_ID)"
proof -
  obtain hooks where hooks: "policy_hooks = JObj hooks" by (simp add: policy_hooks_def)
  define d where "d = [(''policy_version'', JStr SECURITY_POLICY_VERSION), (''signature_algorithm'', JStr ROOT_SIGNATURE_ALGORITHM),
      (''signer_id'', JStr TRUSTED_SIGNER_ID), (''graph_root_signature'', JStr (graph_root_signature (JStr h) (JStr TRUSTED_SIGNER_ID))),
      (''trusted_signer_ids'', JList [JStr TRUSTED_SIGNER_ID]),
      (''provenance_chain'', JList [JObj [(''graph_id'', JStr gid), (''event'', JStr ''exported''), (''created_at'', JStr CREATED_AT),
         (''graph_hash'', JStr h), (''signer_id'', JStr TRUSTED_SIGNER_ID)]]), (''policy_hooks'', policy_hooks)]"
  have sec: "sec = JObj d" using m(2) g(4,5) by (simp add: build_security_attestation_def d_def)
  have "py_set (JList [JStr TRUSTED_SIGNER_ID]) = Inr [JStr TRUSTED_SIGNER_ID]" by (simp add: py_set_def)
  then have "signed_by g d (JStr TRUSTED_SIGNER_ID)"
    using g(4) by (simp add: d_def signed_by_def in_allowlist_def field_or_def)
  moreover have "field_or d ''policy_hooks'' (JObj []) = JObj hooks" by (simp add: d_def field_or_def hooks)
  moreover have "allowlists_ok (JObj g) hooks (JStr RUNTIME_ID)"
  proof -
    have "tool_allowed hooks n" if "n \<in> set ns" "node_type n = ''tool_call''" for n
      using that g(3) attested_allowlists(2) [OF hooks]
      by (auto simp: list_all_iff well_node_def node_type_def safe_call_def tool_allowed_def field_or_def)
    moreover have "\<exists>xs. py_set (field_or hooks ''allowed_tools'' (JList [])) = Inr xs"
      using hooks py_set_strs [of "sort ALLOWED_TOOL_NAMES"] by (auto simp: policy_hooks_def field_or_def simp del: py_set_strs)
    ultimately show ?thesis
      using nodes_of_type_well [OF g(2,3)] attested_allowlists(1) [OF hooks]
      by (auto simp: allowlists_ok_def tool_call_nodes_def list_all_iff)
  qed
  moreover have "paths_ok (JObj g) m"
  proof -
    have "list_all entry_paths_allowed (entries blobs)"
      using m(5) built_fields(3) by (fastforce simp: list_all_iff entry_paths_allowed_def entry_fields field_or_def built_from_def)
    moreover have "list_all node_path_allowed (filter (\<lambda>n. node_type n = ''artifact'') ns)"
      using g(3) by (auto simp: list_all_iff well_node_def node_type_def)
    ultimately show ?thesis using nodes_of_type_well [OF g(2,3)] m(4) by (auto simp: paths_ok_def field_or_def artifact_nodes_def)
  qed
  moreover have "credentials_ok (JObj g)"
    using nodes_of_type_well [OF g(2,3)] g(3)
    by (auto simp: credentials_ok_def credential_ref_nodes_def list_all_iff well_node_def node_type_def)
  moreover have "chain_ends_at g (field_or d ''provenance_chain'' (JList []))"
    using g(4,5) by (simp add: chain_ends_at_def d_def field_or_def)
  moreover have "secret_free (JObj g)" "secret_free (JObj m)" using g(1) m(1) by (simp_all add: clean_def)
  ultimately show ?thesis
    unfolding security_satisfied_def using m(3) sec by blast
qed

end
