(* ===== verification/PackageRoundTrip.thy ===== *)
theory PackageRoundTrip
  imports ExportedPackages
begin

text \<open>
  The end-to-end theorems: what \<open>export_session\<close> and \<open>export_complex_session\<close> write,
  \<open>import_session\<close> accepts and restores, from any file system and under any export policy.
\<close>

section \<open>Prompts of plain messages\<close>

definition message :: "string \<times> string \<Rightarrow> json" where
  "message = (\<lambda>(r, c). JObj [(''role'', JStr r), (''content'', JStr c)])"

definition prompt_text :: "(string \<times> string) list \<Rightarrow> string" where
  "prompt_text rcs = join [CHR 0x0A] (concat (map (\<lambda>(r, c). [''<'' @ r @ ''>'', c, ''</'' @ r @ ''>'']) rcs)) @ [CHR 0x0A]"

lemma reconstruct_plain: "reconstruct_prompt_from_messages (map message rcs) = Inr (prompt_text rcs)"
proof -
  have "mapR message_lines (map message rcs) =
      Inr (map (\<lambda>(r, c). map JStr [''<'' @ r @ ''>'', c, ''</'' @ r @ ''>'']) rcs)"
    by (induction rcs) (auto simp: message_lines_def message_def)
  moreover have "mapR as_str (concat (map (\<lambda>(r, c). map JStr [''<'' @ r @ ''>'', c, ''</'' @ r @ ''>'']) rcs)) =
      Inr (concat (map (\<lambda>(r, c). [''<'' @ r @ ''>'', c, ''</'' @ r @ ''>'']) rcs))"
    by (induction rcs) auto
  ultimately show ?thesis by (simp add: reconstruct_prompt_from_messages_def prompt_text_def)
qed

lemma length_join: "length (join sep xs) \<le> sum_list (map length xs) + length sep * length xs"
  by (induction sep xs rule: join.induct) auto

lemma length_utf8: "length (utf8_encode s) \<le> 2 * length s"
  by (induction s) (auto simp: utf8_encode_def utf8_char_def Let_def)

lemma prompt_tokens_bound:
  "length (tokenize_prompt (prompt_text rcs)) \<le> 2 * (sum_list (map (\<lambda>(r, c). 2 * length r + length c + 8) rcs) + 1)"
proof -
  have "sum_list (map length (concat (map (\<lambda>(r, c). [''<'' @ r @ ''>'', c, ''</'' @ r @ ''>'']) rcs))) +
      length (concat (map (\<lambda>(r, c). [''<'' @ r @ ''>'', c, ''</'' @ r @ ''>'']) rcs)) =
      sum_list (map (\<lambda>(r, c). 2 * length r + length c + 8) rcs)"
    by (induction rcs) auto
  then have "length (prompt_text rcs) \<le> sum_list (map (\<lambda>(r, c). 2 * length r + length c + 8) rcs) + 1"
    using length_join [of "[CHR 0x0A]" "concat (map (\<lambda>(r, c). [''<'' @ r @ ''>'', c, ''</'' @ r @ ''>'']) rcs)"]
    by (simp add: prompt_text_def)
  then show ?thesis using length_utf8 [of "prompt_text rcs"] by (simp add: tokenize_prompt_def)
qed

section \<open>Message nodes\<close>

lemma message_nodes_exist:
  "\<exists>ps. mapR message_node (enum_from k (map message rcs)) = Inr ps \<and> list_all (\<lambda>p. well_node (snd p)) ps \<and>
     list_all (\<lambda>p. node_type (snd p) = ''message'') ps \<and>
     map (\<lambda>p. case snd p of JObj d \<Rightarrow> (map_of d ''role'', map_of d ''content'') | _ \<Rightarrow> (None, None)) ps =
       map (\<lambda>(r, c). (Some (JStr r), Some (JStr c))) rcs"
proof (induction rcs arbitrary: k)
  case (Cons x rcs)
  obtain r c where x: "x = (r, c)" by fastforce
  obtain ps where ps: "mapR message_node (enum_from (Suc k) (map message rcs)) = Inr ps" "list_all (\<lambda>p. well_node (snd p)) ps"
    "list_all (\<lambda>p. node_type (snd p) = ''message'') ps"
    "map (\<lambda>p. case snd p of JObj d \<Rightarrow> (map_of d ''role'', map_of d ''content'') | _ \<Rightarrow> (None, None)) ps =
       map (\<lambda>(r, c). (Some (JStr r), Some (JStr c))) rcs"
    using Cons.IH by blast
  obtain i n where n: "message_node (k, JObj [(''role'', JStr r), (''content'', JStr c)]) = Inr (i, n)"
    by (auto simp: message_node_def Let_def)
  have "(case n of JObj d \<Rightarrow> (map_of d ''role'', map_of d ''content'') | _ \<Rightarrow> (None, None)) = (Some (JStr r), Some (JStr c))"
    using n by (auto simp: message_node_def Let_def base_node_dict map_of_node_dict)
  then show ?case
    using ps n well_message [OF n] by (simp add: x message_def)
qed simp

text \<open>The messages of a graph are those of its message nodes, in order.\<close>

definition said :: "json \<Rightarrow> json option \<times> json option" where
  "said n = (case n of JObj d \<Rightarrow> (map_of d ''role'', map_of d ''content'') | _ \<Rightarrow> (None, None))"

lemma graph_messages_well:
  assumes "map_of g ''nodes'' = Some (JList ns)" and "list_all well_node ns"
    and "map said (filter (\<lambda>n. node_type n = ''message'') ns) = map (\<lambda>(r, c). (Some (JStr r), Some (JStr c))) rcs"
  shows "reconstruct_prompt (JObj g) = Inr (prompt_text rcs)"
proof -
  let ?f = "\<lambda>node. bindR (py_get node ''type'') (\<lambda>t.
           if py_eq t (JStr ''message'') then
             bindR (py_item node ''role'') (\<lambda>role.
             bindR (py_item node ''content'') (\<lambda>content.
               Inr [JObj [(''role'', role), (''content'', content)]]))
           else Inr [])"
  have "\<exists>mss. mapR ?f ns = Inr mss \<and> concat mss = map message rcs"
    using assms(2,3)
  proof (induction ns arbitrary: rcs)
    case (Cons n ns)
    obtain d where d: "n = JObj d" "map_of d ''type'' = Some (JStr (node_type n))"
      using Cons.prems(1) well_node_dict [of n] by auto
    show ?case
    proof (cases "node_type n = ''message''")
      case True
      then obtain r c rcs' where rc: "rcs = (r, c) # rcs'" "map_of d ''role'' = Some (JStr r)" "map_of d ''content'' = Some (JStr c)"
        using Cons.prems(2) d(1) by (cases rcs) (auto simp: said_def)
      then obtain mss where "mapR ?f ns = Inr mss" "concat mss = map message rcs'"
        using Cons.IH [of rcs'] Cons.prems True by auto
      then show ?thesis using d True rc by (simp add: message_def)
    next
      case False
      then obtain mss where "mapR ?f ns = Inr mss" "concat mss = map message rcs"
        using Cons.IH [of rcs] Cons.prems by auto
      then show ?thesis using d False by simp
    qed
  qed simp
  then have "graph_messages (JObj g) = Inr (map message rcs)" using assms(1) by (auto simp: graph_messages_def)
  then show ?thesis by (simp add: reconstruct_prompt_def reconstruct_plain)
qed

section \<open>From graph and manifest to an importable package\<close>

definition graph_ready :: "obj \<Rightarrow> json list \<Rightarrow> string \<Rightarrow> (string \<times> string) list \<Rightarrow> vector_snapshot \<Rightarrow> bool" where
  "graph_ready g ns h rcs s \<longleftrightarrow>
     clean (JObj g) \<and> map_of g ''nodes'' = Some (JList ns) \<and> list_all well_node ns \<and>
     map_of g ''graph_hash'' = Some (JStr h) \<and> canonical_graph_hash (JObj g) = Inr h \<and>
     (\<exists>gid. map_of g ''graph_id'' = Some (JStr gid)) \<and>
     (\<exists>p. map_of g ''policies'' = Some (JObj p) \<and> scalar_fields [''default_replay_policy''] p) \<and>
     map said (filter (\<lambda>n. node_type n = ''message'') ns) = map (\<lambda>(r, c). (Some (JStr r), Some (JStr c))) rcs \<and>
     length (tokenize_prompt (prompt_text rcs)) \<le> 256 ^ 4 \<and>
     distinct (node_ids (filter (\<lambda>n. node_type n = ''memory'') ns)) \<and>
     compute_vector_snapshot (JObj g) (JStr ''report artifact complete'') = Inr s \<and>
     (\<forall>n\<in>set ns. node_type n = ''retrieval'' \<longrightarrow> retrieval_matches s n)"

definition manifest_ready :: "obj \<Rightarrow> obj \<Rightarrow> string \<Rightarrow> string \<Rightarrow> vector_snapshot \<Rightarrow> (artifact_record \<times> bytes) list \<Rightarrow> bool" where
  "manifest_ready g m h prompt s blobs \<longleftrightarrow>
     clean (JObj m) \<and> map_of m ''graph_hash'' = Some (JStr h) \<and> map_of m ''graph_path'' = Some (JStr ''graph.json'') \<and>
     map_of m ''artifact_store'' \<noteq> None \<and> map_of m ''vector_memory'' = Some (vector_snapshot_json s) \<and>
     (\<exists>sec. build_security_attestation (JObj g) = Inr sec \<and> map_of m ''security'' = Some sec) \<and>
     map_of m ''artifacts'' = Some (JList (entries blobs)) \<and>
     (\<exists>mp th. map_of m ''prompt'' = Some (JObj mp) \<and> map_of mp ''byte_hash'' = Some (JStr (sha256_bytes (utf8_encode prompt))) \<and>
        token_hash (tokenize_prompt prompt) = Inr th \<and> map_of mp ''token_hash'' = Some (JStr th)) \<and>
     (\<exists>mk kh. map_of m ''kv'' = Some (JObj mk) \<and> simulated_kv_hash (tokenize_prompt prompt) = Inr kh \<and>
        map_of mk ''kv_hash'' = Some (JStr kh)) \<and>
     map_of m ''deterministic_next_response'' = Some (JStr (deterministic_continue prompt (content_hash (fst (hd blobs)))))"

definition blobs_ready :: "(artifact_record \<times> bytes) list \<Rightarrow> bool" where
  "blobs_ready blobs \<longleftrightarrow> blobs \<noteq> [] \<and> list_all (\<lambda>(r, d). built_from d r) blobs \<and>
     distinct (map (path_name \<circ> Path \<circ> ar_path \<circ> fst) blobs) \<and>
     sorted_wrt (\<lambda>a b. apart (Path (ar_path (fst a))) (Path (ar_path (fst b)))) blobs"

lemma package_readyI:
  assumes g: "graph_ready g ns h rcs s" and m: "manifest_ready g m h (prompt_text rcs) s blobs" and b: "blobs_ready blobs"
  shows "package_ready blobs g m (prompt_text rcs)"
proof -
  have gc: "clean (JObj g)" and ns: "map_of g ''nodes'' = Some (JList ns)" "list_all well_node ns"
    and h: "map_of g ''graph_hash'' = Some (JStr h)" "canonical_graph_hash (JObj g) = Inr h"
    and sd: "map said (filter (\<lambda>n. node_type n = ''message'') ns) = map (\<lambda>(r, c). (Some (JStr r), Some (JStr c))) rcs"
    and dm: "distinct (node_ids (filter (\<lambda>n. node_type n = ''memory'') ns))"
    and s: "compute_vector_snapshot (JObj g) (JStr ''report artifact complete'') = Inr s"
      "\<And>n. n \<in> set ns \<Longrightarrow> node_type n = ''retrieval'' \<Longrightarrow> retrieval_matches s n"
    using g unfolding graph_ready_def by blast+
  obtain gid p where gid: "map_of g ''graph_id'' = Some (JStr gid)"
    and p: "map_of g ''policies'' = Some (JObj p)" "scalar_fields [''default_replay_policy''] p"
    using g unfolding graph_ready_def by blast
  have mc: "clean (JObj m)" and mh: "map_of m ''graph_hash'' = Some (JStr h)" and vm: "map_of m ''vector_memory'' = Some (vector_snapshot_json s)"
    and as: "map_of m ''artifacts'' = Some (JList (entries blobs))"
    using m unfolding manifest_ready_def by blast+
  obtain sec where sec: "build_security_attestation (JObj g) = Inr sec" "map_of m ''security'' = Some sec"
    using m unfolding manifest_ready_def by blast
  have bb: "list_all (\<lambda>(r, d). built_from d r) blobs" and ne: "blobs \<noteq> []" using b by (simp_all add: blobs_ready_def)
  have gn: "graph_nodes g ns" "wf_json (JObj m)" using gc mc ns(1) by (simp_all add: graph_nodes_def clean_def)
  have "gates_ready g m"
    unfolding gates_ready_def
    using gn as h mh security_ready [OF gc ns h(1) gid mc sec as bb] audit_ready(1) [OF ns p] remembered_ready [OF ns dm s vm] by blast
  moreover have "continuation_ready g m (prompt_text rcs) (content_hash (fst (hd blobs)))"
  proof -
    obtain ds where ds: "ns = map JObj ds"
    proof -
      have "ns = map JObj (map (\<lambda>n. case n of JObj d \<Rightarrow> d | _ \<Rightarrow> []) ns)"
        using ns(2) by (auto simp: list_all_iff dest!: well_node_dict intro!: map_idI [symmetric])
      then show thesis using that by blast
    qed
    have sc: "list_all (scalar_fields message_keys) ds"
      using ns(2) well_node_kinds(6) unfolding ds by (auto simp: list_all_iff)
    obtain rec bs where hd: "blobs = (rec, snd (hd blobs)) # bs" using ne by (cases blobs) auto
    then have "entries blobs = JObj (manifest_artifact rec) # entries bs" "content_hash (fst (hd blobs)) = content_hash rec"
      by (metis (no_types, lifting) list.simps(9) prod.case, metis fst_conv list.sel(1))
    then show ?thesis
      unfolding continuation_ready_def
      using gn(1) ds sc graph_messages_well [OF ns sd] m as entry_fields(2) [of rec]
      unfolding manifest_ready_def by (metis (no_types, lifting))
  qed
  ultimately show ?thesis
    unfolding package_ready_def using m b unfolding manifest_ready_def blobs_ready_def by blast
qed

section \<open>The reference package\<close>

definition plain_pairs :: "json list \<Rightarrow> (string \<times> string) list" where
  "plain_pairs msgs = map (\<lambda>m. case m of JObj d \<Rightarrow> (py_str (field_or d ''role'' JNull), py_str (field_or d ''content'' JNull)) | _ \<Rightarrow> ([], [])) msgs"

lemma length_sha256_bytes [simp]: "length (sha256_bytes b) = 71"
  by (simp add: sha256_bytes_def length_hexdigest)

lemma reference_messages_plain:
  "map message (plain_pairs (reference_messages h)) = reference_messages h"
  "length h = 71 \<Longrightarrow> length (tokenize_prompt (prompt_text (plain_pairs (reference_messages h)))) \<le> 256 ^ 4"
proof -
  show "map message (plain_pairs (reference_messages h)) = reference_messages h"
    by (simp add: reference_messages_def plain_pairs_def message_def field_or_def)
  assume "length h = 71"
  then have "sum_list (map (\<lambda>(r, c). 2 * length r + length c + 8) (plain_pairs (reference_messages h))) \<le> 1000"
    by (simp add: reference_messages_def plain_pairs_def field_or_def)
  then show "length (tokenize_prompt (prompt_text (plain_pairs (reference_messages h)))) \<le> 256 ^ 4"
    using prompt_tokens_bound [of "plain_pairs (reference_messages h)"] by simp
qed

lemma clean_chain_edges: "list_all clean (chain_edges p ids)"
  by (induction p ids rule: chain_edges.induct) (simp_all add: edge_def clean_simps plain_keys)

lemma clean_reference_edges: "list_all clean reference_edges"
  unfolding reference_edges_def by (simp add: clean_simps plain_keys)

lemma clean_reference_graph:
  "list_all clean ns \<Longrightarrow> list_all clean es \<Longrightarrow> clean (JObj (reference_graph_fields ns es prompt th))"
  unfolding reference_graph_fields_def by (simp add: clean_simps plain_keys)

text \<open>The nodes after the messages, by kind.\<close>

lemma fixed_nodes_well: "built_from d r \<Longrightarrow> list_all well_node (fixed_nodes path r prompt th)"
  unfolding fixed_nodes_def
  using well_write_report_call well_write_report_result well_artifact well_report_fact well_prompt_checkpoint
    well_retrieval well_prompt_kv_span well_credential by simp

lemma node_type_base: "distinct (map fst p) \<Longrightarrow> map_of p ''type'' = None \<Longrightarrow> node_type (base_node i t p) = t"
  by (simp add: node_type_def base_node_dict map_of_node_dict)

lemma fixed_node_types:
  "node_type event_start_node = ''event''" "node_type (write_report_call_node path h) = ''tool_call''"
  "node_type (write_report_result_node path h) = ''tool_result''" "node_type report_fact_node = ''memory''"
  "node_type (prompt_checkpoint_node prompt) = ''checkpoint''" "node_type (prompt_kv_span_node prompt h) = ''kv_span''"
  "node_type local_filesystem_credential_node = ''credential_ref''"
  "node_type (base_node i ''retrieval'' (vector_retrieval_payload q)) = ''retrieval''"
  "node_type (base_node i ''artifact'' (artifact_node_payload r)) = ''artifact''"
proof -
  show "node_type (base_node i ''artifact'' (artifact_node_payload r)) = ''artifact''"
    by (cases "disposition r = ''packaged''"; rule node_type_base)
      (simp_all add: artifact_node_payload_def Let_def dict_update_def)
qed (simp_all add: event_start_node_def write_report_call_node_def write_report_result_node_def report_fact_node_def
    prompt_checkpoint_node_def prompt_kv_span_node_def local_filesystem_credential_node_def vector_retrieval_payload_def
    Let_def node_type_base)

lemma said_pair: "(\<lambda>p. case snd p of JObj d \<Rightarrow> (map_of d ''role'', map_of d ''content'') | _ \<Rightarrow> (None, None)) = said \<circ> snd"
  by (auto simp: said_def fun_eq_iff split: json.split)

lemma report_fact_record:
  "\<exists>th. memory_vector_record report_fact_node =
     Inr [\<lparr>vr_node_id = JStr ''memory:report-fact'',
           vr_embedding = deterministic_embedding ''artifact:report status complete'', vr_text_hash = th\<rparr>]"
proof -
  have "memory_text report_fact_node = Inr ''artifact:report status complete''"
    unfolding report_fact_node_def base_node_dict by (simp add: memory_text_def map_of_node_dict)
  moreover have "py_get report_fact_node ''embedding_model'' = Inr (JStr EMBEDDING_MODEL)"
    "py_item report_fact_node ''id'' = Inr (JStr ''memory:report-fact'')" "\<exists>v. py_get report_fact_node ''text_hash'' = Inr v"
    unfolding report_fact_node_def base_node_dict by (simp_all add: map_of_node_dict)
  ultimately show ?thesis by (auto simp: memory_vector_record_def)
qed

lemma reference_retrieval_matches:
  assumes "memory_nodes (JObj g) = Inr [report_fact_node]"
    and "compute_vector_snapshot (JObj g) (JStr q) = Inr s"
  shows "retrieval_matches s (base_node i ''retrieval'' (vector_retrieval_payload q))"
proof -
  let ?sc = "JFloat (Fin (round8 (cosine_similarity (deterministic_embedding q)
      (deterministic_embedding ''artifact:report status complete''))))"
  have "vs_expected_results s = JList [JObj [(''node_id'', JStr ''memory:report-fact''), (''rank'', JInt 1), (''score'', ?sc)]]"
    using assms report_fact_record
    by (auto simp: compute_vector_snapshot_def vector_records_def sort_results_def scored_def ranked_results_def)
  moreover have "\<exists>x. map_of (vector_retrieval_payload q) ''results'' = Some (JList [JObj x]) \<and> map_of x ''node_id'' = Some (JStr ''memory:report-fact'') \<and>
      map_of x ''rank'' = Some (JInt 1) \<and> map_of x ''score'' = Some ?sc"
    by (simp add: vector_retrieval_payload_def Let_def)
  then obtain x where x: "map_of (vector_retrieval_payload q) ''results'' = Some (JList [JObj x])"
    "map_of x ''node_id'' = Some (JStr ''memory:report-fact'')" "map_of x ''rank'' = Some (JInt 1)" "map_of x ''score'' = Some ?sc" by blast
  moreover have "distinct (map fst (vector_retrieval_payload q))" by (simp add: vector_retrieval_payload_def Let_def)
  ultimately show ?thesis
    unfolding retrieval_matches_def base_node_dict
    by (intro exI [of _ "node_dict i ''retrieval'' (vector_retrieval_payload q)"])
      (simp add: map_of_node_dict field_or_def retrieval_result_def)
qed

text \<open>What \<open>build_graph\<close> makes of a session of plain messages.\<close>

definition session_nodes :: "json list \<Rightarrow> string \<Rightarrow> artifact_record \<Rightarrow> string \<Rightarrow> string \<Rightarrow> json list" where
  "session_nodes ms path r prompt th = event_start_node # ms @ fixed_nodes path r prompt th"

lemma build_graph_plain:
  assumes "messages session = map message rcs" and "built_from d r"
  obtains ms es th where "build_graph session r (prompt_text rcs) =
      Inr (hash_graph (reference_graph_fields (session_nodes ms (artifact_path session) r (prompt_text rcs) th) es (prompt_text rcs) th))"
    and "list_all well_node ms" and "list_all (\<lambda>n. node_type n = ''message'') ms"
    and "map said ms = map (\<lambda>(r, c). (Some (JStr r), Some (JStr c))) rcs" and "list_all clean es"
    and "token_hash (tokenize_prompt (prompt_text rcs)) = Inr th"
proof -
  obtain ps where ps: "mapR message_node (enum_from 1 (map message rcs)) = Inr ps" "list_all (\<lambda>p. well_node (snd p)) ps"
    "list_all (\<lambda>p. node_type (snd p) = ''message'') ps" "map (said \<circ> snd) ps = map (\<lambda>(r, c). (Some (JStr r), Some (JStr c))) rcs"
    using message_nodes_exist [of 1 rcs] unfolding said_pair by blast
  obtain th where th: "token_hash (tokenize_prompt (prompt_text rcs)) = Inr th" by (simp add: token_hash_eq)
  show thesis
  proof (rule that [of "map snd ps" th "chain_edges ''event:start:local'' (map fst ps) @ reference_edges"])
    show "build_graph session r (prompt_text rcs) =
      Inr (hash_graph (reference_graph_fields (session_nodes (map snd ps) (artifact_path session) r (prompt_text rcs) th)
        (chain_edges ''event:start:local'' (map fst ps) @ reference_edges) (prompt_text rcs) th))"
      using ps(1) th assms(1) by (simp add: build_graph_def Let_def session_nodes_def hash_graph_def)
  qed (use ps th clean_chain_edges clean_reference_edges in \<open>auto simp: list_all_iff\<close>)
qed

lemma session_nodes_facts:
  assumes "list_all well_node ms" and "list_all (\<lambda>n. node_type n = ''message'') ms" and "built_from d r"
  shows "list_all well_node (session_nodes ms path r prompt th)"
    and "filter (\<lambda>n. node_type n = ''message'') (session_nodes ms path r prompt th) = ms"
    and "filter (\<lambda>n. node_type n = ''memory'') (session_nodes ms path r prompt th) = [report_fact_node]"
    and "filter (\<lambda>n. node_type n = ''retrieval'') (session_nodes ms path r prompt th) =
           [base_node ''retrieval:report-memory'' ''retrieval'' (vector_retrieval_payload ''report artifact complete'')]"
proof -
  have f: "filter (\<lambda>n. node_type n = k) ms = (if k = ''message'' then ms else [])" for k
    using assms(2) by (auto simp: list_all_iff filter_empty_conv)
  show "list_all well_node (session_nodes ms path r prompt th)"
    using assms(1) fixed_nodes_well [OF assms(3)] well_event_start by (simp add: session_nodes_def)
  show "filter (\<lambda>n. node_type n = ''message'') (session_nodes ms path r prompt th) = ms"
    "filter (\<lambda>n. node_type n = ''memory'') (session_nodes ms path r prompt th) = [report_fact_node]"
    "filter (\<lambda>n. node_type n = ''retrieval'') (session_nodes ms path r prompt th) =
           [base_node ''retrieval:report-memory'' ''retrieval'' (vector_retrieval_payload ''report artifact complete'')]"
    by (simp_all add: session_nodes_def fixed_nodes_def fixed_node_types f)
qed

lemma hash_graph_facts:
  "k \<noteq> ''graph_hash'' \<Longrightarrow> map_of (hash_graph d) k = map_of d k"
  "clean (JObj d) \<Longrightarrow> clean (JObj (hash_graph d))"
  "\<exists>h. map_of (hash_graph d) ''graph_hash'' = Some (JStr h) \<and> canonical_graph_hash (JObj (hash_graph d)) = Inr h"
proof -
  show "clean (JObj d) \<Longrightarrow> clean (JObj (hash_graph d))"
    unfolding hash_graph_def by (rule clean_dict_set) (simp_all add: plain_keys)
qed (simp_all add: hash_graph_def)

lemma reference_graph_lookups:
  "map_of (reference_graph_fields ns es prompt th) ''nodes'' = Some (JList ns)"
  "map_of (reference_graph_fields ns es prompt th) ''graph_id'' = Some (JStr ''graph:local-reference:0001'')"
  "\<exists>p. map_of (reference_graph_fields ns es prompt th) ''policies'' = Some (JObj p) \<and> scalar_fields [''default_replay_policy''] p"
  "\<exists>v. map_of (reference_graph_fields ns es prompt th) ''kv_spans'' = Some v"
  "\<exists>p. map_of (reference_graph_fields ns es prompt th) ''agent'' = Some (JObj p)"
  "\<exists>xs. map_of (reference_graph_fields ns es prompt th) ''participants'' = Some (JList xs)"
  "\<exists>xs. map_of (reference_graph_fields ns es prompt th) ''lineage'' = Some (JList xs)"
  "map_of (reference_graph_fields ns es prompt th) ''edges'' = Some (JList es)"
  unfolding reference_graph_fields_def by (simp_all add: scalar_fields_def)

lemma memory_id_single: "distinct (node_ids [n])"
  by (simp add: node_ids_def)

text \<open>A graph of the reference fields is ready, also with further nodes of other types in front.\<close>

lemma extended_graph_ready:
  fixes path th :: string
  assumes ms: "list_all well_node ms" "list_all (\<lambda>n. node_type n = ''message'') ms"
      "map said ms = map (\<lambda>(r, c). (Some (JStr r), Some (JStr c))) rcs" and es: "list_all clean es"
    and b: "built_from d r" and len: "length (tokenize_prompt (prompt_text rcs)) \<le> 256 ^ 4"
    and xs: "list_all well_node xs" "list_all (\<lambda>n. node_type n \<notin> {''message'', ''memory'', ''retrieval''}) xs"
  defines "ns \<equiv> xs @ session_nodes ms path r (prompt_text rcs) th"
  defines "g \<equiv> hash_graph (reference_graph_fields ns es (prompt_text rcs) th)"
  shows "\<exists>h s. graph_ready g ns h rcs s"
proof -
  note sn = session_nodes_facts [OF ms(1,2) b, of path "prompt_text rcs" th]
  have w: "list_all well_node ns" using sn(1) xs(1) by (simp add: ns_def)
  have "filter (\<lambda>n. node_type n = k) xs = []" if "k \<in> {''message'', ''memory'', ''retrieval''}" for k
    using xs(2) that by (auto simp: list_all_iff filter_empty_conv)
  then have f: "filter (\<lambda>n. node_type n = k) ns = filter (\<lambda>n. node_type n = k) (session_nodes ms path r (prompt_text rcs) th)"
    if "k \<in> {''message'', ''memory'', ''retrieval''}" for k using that by (simp add: ns_def)
  have "list_all clean ns" using w well_clean by (auto simp: list_all_iff)
  then have c: "clean (JObj g)" unfolding g_def by (intro hash_graph_facts(2) clean_reference_graph es)
  have ns: "map_of g ''nodes'' = Some (JList ns)" by (simp add: g_def hash_graph_facts(1) reference_graph_lookups)
  obtain h where h: "map_of g ''graph_hash'' = Some (JStr h)" "canonical_graph_hash (JObj g) = Inr h"
    using hash_graph_facts(3) unfolding g_def by blast
  obtain s where s: "compute_vector_snapshot (JObj g) (JStr ''report artifact complete'') = Inr s"
    using snapshot_exists [OF ns w] by blast
  have mn: "memory_nodes (JObj g) = Inr [report_fact_node]"
    using nodes_of_type_well [OF ns w] f [of "''memory''"] sn(3) by (simp add: memory_nodes_def)
  have "retrieval_matches s n" if "n \<in> set ns" "node_type n = ''retrieval''" for n
  proof -
    have "n \<in> set (filter (\<lambda>n. node_type n = ''retrieval'') ns)" using that by simp
    then have "n \<in> {base_node ''retrieval:report-memory'' ''retrieval'' (vector_retrieval_payload ''report artifact complete'')}"
      using f [of "''retrieval''"] sn(4) by simp
    then show ?thesis using reference_retrieval_matches [OF mn s] by simp
  qed
  then have "graph_ready g ns h rcs s"
    unfolding graph_ready_def
    using c ns w h s ms(3) len f [of "''message''"] f [of "''memory''"] sn(2,3) memory_id_single [of report_fact_node]
    by (simp add: g_def hash_graph_facts(1) reference_graph_lookups)
  then show ?thesis by blast
qed

lemma reference_graph_ready:
  assumes "messages session = map message rcs" and "built_from d r" and "length (tokenize_prompt (prompt_text rcs)) \<le> 256 ^ 4"
  obtains g ns h s v where "build_graph session r (prompt_text rcs) = Inr g" and "graph_ready g ns h rcs s"
    and "map_of g ''kv_spans'' = Some v"
proof -
  obtain ms es th where g: "build_graph session r (prompt_text rcs) =
      Inr (hash_graph (reference_graph_fields (session_nodes ms (artifact_path session) r (prompt_text rcs) th) es (prompt_text rcs) th))"
    and ms: "list_all well_node ms" "list_all (\<lambda>n. node_type n = ''message'') ms"
      "map said ms = map (\<lambda>(r, c). (Some (JStr r), Some (JStr c))) rcs" and es: "list_all clean es"
    using build_graph_plain [OF assms(1,2)] by blast
  let ?g = "hash_graph (reference_graph_fields (session_nodes ms (artifact_path session) r (prompt_text rcs) th) es (prompt_text rcs) th)"
  obtain ns h s where "graph_ready ?g ns h rcs s"
    using extended_graph_ready [OF ms es assms(2,3), of "[]" "artifact_path session" th] by auto
  moreover obtain v where "map_of ?g ''kv_spans'' = Some v"
    using reference_graph_lookups(4) by (fastforce simp: hash_graph_facts(1))
  ultimately show thesis by (rule that [OF g])
qed

text \<open>The manifest of a ready graph.\<close>

lemma clean_entry: "clean (JObj (manifest_artifact r))"
  unfolding clean_def
proof
  show "wf_json (JObj (manifest_artifact r))" by (rule entry_flat)
  show "secret_free (JObj (manifest_artifact r))"
    by (auto simp: manifest_artifact_def Let_def plain_keys split: option.split)
qed

lemma attestation_exists:
  assumes "map_of g ''graph_hash'' = Some (JStr h)" and "map_of g ''graph_id'' = Some (JStr gid)"
  shows "\<exists>sec. build_security_attestation (JObj g) = Inr sec \<and> clean sec"
  using assms by (simp add: build_security_attestation_def policy_hooks_def clean_simps list_all_iff)

lemma clean_manifest_fields:
  assumes "clean ghash" and "clean kv" and "clean vs" and "list_all (\<lambda>e. clean (JObj e)) audit" and "clean sec"
  shows "clean (JObj (manifest_fields session r prompt ghash kv th kvh vs audit sec))"
  using assms clean_entry unfolding manifest_fields_def artifact_policy_entries_def
  by (simp add: clean_JObj [of "_ # _"] clean_JList dict_keys_ok_def plain_keys list_all_iff)

lemma manifest_lookups:
  fixes session r prompt ghash kv th kvh vs audit sec
  defines "m \<equiv> manifest_fields session r prompt ghash kv th kvh vs audit sec"
  shows "map_of m ''graph_hash'' = Some ghash" "map_of m ''graph_path'' = Some (JStr ''graph.json'')"
    "\<exists>v. map_of m ''artifact_store'' = Some v" "map_of m ''vector_memory'' = Some vs" "map_of m ''security'' = Some sec"
    "map_of m ''artifacts'' = Some (JList [JObj (manifest_artifact r)])"
    "\<exists>mp. map_of m ''prompt'' = Some (JObj mp) \<and> map_of mp ''byte_hash'' = Some (JStr (sha256_bytes (utf8_encode prompt))) \<and>
       map_of mp ''token_hash'' = Some (JStr th)"
    "\<exists>mk. map_of m ''kv'' = Some (JObj mk) \<and> map_of mk ''kv_hash'' = Some (JStr kvh)"
    "map_of m ''deterministic_next_response'' = Some (JStr (deterministic_response session))"
  unfolding m_def manifest_fields_def by simp_all

lemma build_manifest_ready:
  assumes g: "graph_ready g ns h rcs s" and kv: "map_of g ''kv_spans'' = Some v" and b: "built_from d r"
    and resp: "deterministic_response session = deterministic_continue (prompt_text rcs) (content_hash r)"
  shows "\<exists>m. build_manifest g session (prompt_text rcs) r = Inr m \<and> manifest_ready g m h (prompt_text rcs) s [(r, d)]"
proof -
  have c: "clean (JObj g)" and ns: "map_of g ''nodes'' = Some (JList ns)" "list_all well_node ns"
    and h: "map_of g ''graph_hash'' = Some (JStr h)" and s: "compute_vector_snapshot (JObj g) (JStr ''report artifact complete'') = Inr s"
    and lt: "length (tokenize_prompt (prompt_text rcs)) \<le> 256 ^ 4"
    using g unfolding graph_ready_def by blast+
  obtain gid p where gid: "map_of g ''graph_id'' = Some (JStr gid)" and p: "map_of g ''policies'' = Some (JObj p)" "scalar_fields [''default_replay_policy''] p"
    using g unfolding graph_ready_def by blast
  obtain audit where au: "audit_tool_replay_safety (JObj g) = Inr audit" "list_all (\<lambda>e. clean (JObj e)) audit"
    using audit_ready(2) [OF ns p] by blast
  obtain sec where sec: "build_security_attestation (JObj g) = Inr sec" "clean sec" using attestation_exists [OF h gid] by blast
  obtain th where th: "token_hash (tokenize_prompt (prompt_text rcs)) = Inr th" by (simp add: token_hash_eq)
  obtain kvh where kvh: "simulated_kv_hash (tokenize_prompt (prompt_text rcs)) = Inr kvh" using lt by (simp add: simulated_kv_hash_eq)
  have vs: "clean (vector_snapshot_json s)" using snapshot_exists [OF ns, of "''report artifact complete''"] s by auto
  let ?m = "manifest_fields session r (prompt_text rcs) (JStr h) v th kvh (vector_snapshot_json s) audit sec"
  note l = manifest_lookups [of session r "prompt_text rcs" "JStr h" v th kvh "vector_snapshot_json s" audit sec]
  have "build_manifest g session (prompt_text rcs) r = Inr ?m"
    by (simp add: build_manifest_def build_vector_snapshot_def s h th kvh kv au(1) sec(1))
  moreover have "clean (JObj ?m)" using clean_field [OF c kv] vs au(2) sec(2) by (intro clean_manifest_fields) simp_all
  ultimately show ?thesis
    unfolding manifest_ready_def using l sec(1) th kvh resp by auto
qed

section \<open>Writing a ready package succeeds\<close>

lemma write_all_possible:
  assumes "laid_out w T s" and "\<forall>p\<in>fst ` set ws. below w p \<and> parts p \<noteq> [] \<and> (\<forall>t\<in>T. apart p t)"
    and "sorted_wrt apart (map fst ws)"
  shows "\<exists>s'. fs_store.write_all ws s = (Inr (), s')"
  using assms
proof (induction ws arbitrary: s T)
  case (Cons x ws)
  obtain p b where x: "x = (p, b)" by fastforce
  have bp: "below w p" "parts p \<noteq> []" "\<And>t. t \<in> T \<Longrightarrow> apart p t" using Cons.prems(2) x by auto
  note u = laid_out_target [OF Cons.prems(1) bp(1,3)]
  obtain s1 where s1: "write_with_parents p b s = (Inr (), s1)"
    "\<And>q. node_at s1 q = (if q = p then Some (FFile b) else if above q p then Some FDir else node_at s q)"
    using write_possible [OF u(1) bp(2) u(2)] by blast
  have "\<exists>s'. fs_store.write_all ws s1 = (Inr (), s')"
    using Cons.prems(2,3) x by (intro Cons.IH [OF laid_out_copied [OF Cons.prems(1) bp(1) s1(2)]]) (auto simp: apart_def)
  then show ?case using s1(1) x by simp
qed simp

lemma below_package: "\<lbrakk>anchor b = []; parts b \<noteq> []\<rbrakk> \<Longrightarrow> below pkg (path_join pkg b) \<and> parts (path_join pkg b) \<noteq> []"
  by (simp add: below_def path_join_def is_absolute_def)

lemma package_writes_apart:
  assumes r: "package_ready blobs g m prompt"
  shows "sorted_wrt apart (map fst (package_writes pkg blobs g m))"
    and "\<forall>p\<in>fst ` set (package_writes pkg blobs g m). below pkg p \<and> parts p \<noteq> []"
proof -
  have b: "list_all (\<lambda>(r, d). built_from d r) blobs" "distinct (map (path_name \<circ> Path \<circ> ar_path \<circ> fst) blobs)"
    using r by (auto simp: package_ready_def)
  note d = blob_writes_distinct(1) [OF b, of pkg] blob_writes_distinct(2) [OF b, of _ pkg]
  have blob: "\<exists>a c e f n. p = path_join pkg \<lparr>anchor = [], parts = [''artifacts'', a, c, e, n]\<rparr>"
    if "p \<in> fst ` set (blob_writes pkg blobs)" for p
    using d(2) [OF that] by (auto simp: blob_parts_def)
  have ab: "apart p q" if "p \<in> fst ` set (blob_writes pkg blobs)" "q \<in> fst ` set (blob_writes pkg blobs)" "p \<noteq> q" for p q
    using blob [OF that(1)] blob [OF that(2)] that(3)
    by (auto simp: apart_def below_def path_join_def is_absolute_def prefix_def)
  have "apart p (path_sub pkg ''graph.json'')" "apart p (path_sub pkg ''manifest.json'')"
    if "p \<in> fst ` set (blob_writes pkg blobs)" for p
    using blob [OF that] by (auto simp: apart_def below_def path_sub_def path_join_def is_absolute_def json_Path)
  moreover have "apart (path_sub pkg ''graph.json'') (path_sub pkg ''manifest.json'')"
    by (simp add: apart_def below_def path_sub_def path_join_def is_absolute_def json_Path)
  moreover have "sorted_wrt apart ps" if "distinct ps" "\<And>p q. p \<in> set ps \<Longrightarrow> q \<in> set ps \<Longrightarrow> p \<noteq> q \<Longrightarrow> apart p q" for ps
    using that by (induction ps) auto
  moreover from this [OF d(1)] ab have "sorted_wrt apart (map fst (blob_writes pkg blobs))" by simp
  ultimately show "sorted_wrt apart (map fst (package_writes pkg blobs g m))"
    by (simp add: package_writes_def sorted_wrt_append)
  show "\<forall>p\<in>fst ` set (package_writes pkg blobs g m). below pkg p \<and> parts p \<noteq> []"
  proof
    fix p assume "p \<in> fst ` set (package_writes pkg blobs g m)"
    then consider "p \<in> fst ` set (blob_writes pkg blobs)" | "p = path_sub pkg ''graph.json''" | "p = path_sub pkg ''manifest.json''"
      by (auto simp: package_writes_def)
    then show "below pkg p \<and> parts p \<noteq> []"
      using blob [of p] by cases (auto simp: path_sub_def json_Path below_def path_join_def is_absolute_def)
  qed
qed

definition writable_dir :: "fs \<Rightarrow> pypath \<Rightarrow> bool" where
  "writable_dir s d \<longleftrightarrow> parts d \<noteq> [] \<and> unblocked s d \<and> (\<forall>b. node_at s d \<noteq> Some (FFile b))"

lemma write_package_possible:
  assumes "fs_tree s" and "writable_dir s pkg" and r: "package_ready blobs g m prompt"
  shows "\<exists>s'. write_package pkg blobs g m s = (Inr (), s')"
proof -
  obtain t where t: "clear_dir pkg s = (Inr (), t)"
    using clear_dir_possible [of s pkg] assms(2) by (auto simp: writable_dir_def)
  note c = clear_dir_empties [OF assms(1) t]
  have "free_dir t pkg"
    using c(1) assms(2) by (auto simp: free_dir_def empty_dir_def writable_dir_def below_def)
  moreover have "unblocked t pkg"
  proof -
    have "\<not> below pkg q" if "above q pkg" for q using that by (auto simp: below_above_eq dest: above_trans)
    then show ?thesis using c(2) assms(2) by (auto simp: unblocked_def writable_dir_def)
  qed
  ultimately have "laid_out pkg {} t" by (rule laid_out_free)
  then have "\<exists>s'. fs_store.write_all (package_writes pkg blobs g m) t = (Inr (), s')"
    using package_writes_apart [OF r, of pkg] by (intro write_all_possible) auto
  then show ?thesis using t by (auto simp: write_package_writes)
qed

section \<open>Reference round trip\<close>

lemma result_path: "allowed_path (JStr ''reports/result.json'')" "path_name (Path ''reports/result.json'') = ''result.json''"
  by (simp_all add: allowed_path_def Path_def path_root_def as_posix_def path_name_def)

lemma reference_package_ready:
  "\<exists>session r g m prompt. reference_package policy = Inr (session, r, g, m) \<and>
     artifact_bytes session = reference_artifact_bytes \<and>
     r = build_artifact_record_from_bytes ''reports/result.json'' reference_artifact_bytes policy \<and>
     package_ready [(r, reference_artifact_bytes)] g m prompt"
proof -
  let ?h = "sha256_bytes reference_artifact_bytes"
  let ?rcs = "plain_pairs (reference_messages ?h)"
  note pm = reference_messages_plain(1) [of ?h] and len = reference_messages_plain(2) [of ?h, OF length_sha256_bytes]
  have rp: "reconstruct_prompt_from_messages (reference_messages ?h) = Inr (prompt_text ?rcs)"
    using reconstruct_plain [of ?rcs] pm by simp
  define session where "session = \<lparr>messages = reference_messages ?h, artifact_path = ''reports/result.json'',
      artifact_bytes = reference_artifact_bytes, deterministic_response = deterministic_continue (prompt_text ?rcs) ?h\<rparr>"
  define r where "r = build_artifact_record_from_bytes ''reports/result.json'' reference_artifact_bytes policy"
  have se: "run_reference_session = Inr session" by (simp add: run_reference_session_def rp session_def Let_def)
  have rr: "build_artifact_record session policy = r" by (simp add: build_artifact_record_def session_def r_def)
  have ap: "ar_path r = ''reports/result.json''" "content_hash r = ?h"
    by (simp_all add: r_def build_artifact_record_from_bytes_def Let_def)
  have b: "built_from reference_artifact_bytes r" unfolding built_from_def ap(1) using result_path(1) by (auto simp: r_def)
  have ms: "messages session = map message ?rcs" using pm by (simp add: session_def)
  obtain g ns h s v where g: "build_graph session r (prompt_text ?rcs) = Inr g" "graph_ready g ns h ?rcs s" "map_of g ''kv_spans'' = Some v"
    by (rule reference_graph_ready [OF ms b len])
  obtain m where m: "build_manifest g session (prompt_text ?rcs) r = Inr m" "manifest_ready g m h (prompt_text ?rcs) s [(r, reference_artifact_bytes)]"
    using build_manifest_ready [OF g(2,3) b, of session] ap(2) by (auto simp: session_def)
  have "blobs_ready [(r, reference_artifact_bytes)]" using b by (simp add: blobs_ready_def)
  then have "package_ready [(r, reference_artifact_bytes)] g m (prompt_text ?rcs)" by (rule package_readyI [OF g(2) m(2)])
  moreover have "reference_package policy = Inr (session, r, g, m)"
    using rp g(1) m(1) unfolding reference_package_def se rr by (simp add: session_def Let_def) (simp add: session_def [symmetric] rr)
  ultimately show ?thesis using r_def by (intro exI conjI) (auto simp: session_def)
qed

lemma export_session_eq:
  "reference_package policy = Inr (session, r, g, m) \<Longrightarrow>
   export_session pkg policy s = bindIO (write_package pkg [(r, artifact_bytes session)] g m) (\<lambda>_. returnIO m) s"
  by (simp add: export_session_def bindIO_liftR)

lemma disposition_blob:
  "blob_path (build_artifact_record_from_bytes path data policy) =
     (if disposition_for policy path = ''packaged'' then Some (content_addressed_blob_path (sha256_bytes data) path) else None)"
  "ar_path (build_artifact_record_from_bytes path data policy) = path"
  by (simp_all add: build_artifact_record_from_bytes_def Let_def)

lemma package_ready_manifest:
  assumes "package_ready blobs g m prompt"
  shows "map_of m ''graph_hash'' = map_of g ''graph_hash''"
    and "map_of m ''deterministic_next_response'' = Some (JStr (deterministic_continue prompt (content_hash (fst (hd blobs)))))"
  using assms unfolding package_ready_def gates_ready_def continuation_ready_def by (metis, blast)

text \<open>C1: Exporting the reference session and importing the package is a round trip. From any file
  system that is a tree, under any export policy: if the export returns, the import of the
  directory it wrote succeeds, reports the exported graph hash and the exported next response, and
  restores the artifact's bytes under the workspace when the policy packages them; when it excludes
  or redacts them, no file changes.\<close>

theorem export_import_roundtrip:
  assumes "fs_tree s" and "export_session pkg policy s = (Inr m, s')"
  shows "\<exists>res s''. import_session pkg None (JStr RUNTIME_ID) s' = (Inr res, s'') \<and>
    map_of m ''graph_hash'' = Some (ir_graph_hash res) \<and>
    map_of m ''deterministic_next_response'' = Some (JStr (ir_deterministic_next_response res)) \<and>
    files s'' = (if disposition_for policy ''reports/result.json'' = ''packaged''
      then (files s')(path_sub (import_workspace pkg None) ''reports/result.json'' \<mapsto> reference_artifact_bytes)
      else files s')"
proof -
  obtain session r g m0 prompt where p: "reference_package policy = Inr (session, r, g, m0)"
    "artifact_bytes session = reference_artifact_bytes"
    "r = build_artifact_record_from_bytes ''reports/result.json'' reference_artifact_bytes policy"
    "package_ready [(r, reference_artifact_bytes)] g m0 prompt"
    using reference_package_ready [of policy] by (elim exE conjE) (rule that)
  obtain u where w: "write_package pkg [(r, reference_artifact_bytes)] g m0 s = (Inr u, s')" and m: "m = m0"
    using assms(2) unfolding export_session_eq [OF p(1)] p(2) bindIO_eq_Inr by (elim exE conjE) (rule that, simp_all)
  note pw = package_written [OF assms(1) w p(4)]
  obtain res s'' where i: "import_session pkg None (JStr RUNTIME_ID) s' = (Inr res, s'')"
    "map_of g ''graph_hash'' = Some (ir_graph_hash res)"
    "ir_deterministic_next_response res = deterministic_continue prompt (content_hash r)"
    and t: "\<forall>(t, b)\<in>set (targets (import_workspace pkg None) [(r, reference_artifact_bytes)]). files s'' t = Some b"
      "\<forall>q. q \<notin> fst ` set (targets (import_workspace pkg None) [(r, reference_artifact_bytes)]) \<longrightarrow> files s'' q = files s' q"
    using package_imports [OF p(4) pw(1) refl pw(2,3)] unfolding list.sel fst_conv by (elim exE conjE) (rule that)
  have "files s'' = (if disposition_for policy ''reports/result.json'' = ''packaged''
      then (files s')(path_sub (import_workspace pkg None) ''reports/result.json'' \<mapsto> reference_artifact_bytes)
      else files s')"
    using t by (auto simp: targets_def p(3) disposition_blob fun_eq_iff split: if_splits)
  then show ?thesis using i package_ready_manifest [OF p(4)] m by auto
qed

text \<open>C35: The export itself succeeds whenever its directory can be made anew: no regular file is at that
  path or above it, and it is not the working directory itself or a root, which cannot be removed.\<close>

theorem export_session_succeeds:
  assumes "fs_tree s" and "writable_dir s pkg"
  shows "\<exists>m s'. export_session pkg policy s = (Inr m, s')"
proof -
  obtain session r g m prompt where p: "reference_package policy = Inr (session, r, g, m)"
    "artifact_bytes session = reference_artifact_bytes" "package_ready [(r, reference_artifact_bytes)] g m prompt"
    using reference_package_ready [of policy] by (elim exE conjE) (rule that)
  show ?thesis
    using write_package_possible [OF assms p(3)] unfolding export_session_eq [OF p(1)] p(2) by (auto simp: bindIO_def)
qed

text \<open>A concrete place: the directory \<open>out\<close> of an empty file system.\<close>

lemma out_writable: "writable_dir Map.empty (Path ''out'')"
  by (simp add: writable_dir_def unblocked_def node_at_def Path_def path_root_def)

theorem export_session_succeeds_witness:
  "\<exists>m s'. fs_tree Map.empty \<and> writable_dir Map.empty (Path ''out'') \<and>
    export_session (Path ''out'') default_policy Map.empty = (Inr m, s')"
  using export_session_succeeds [OF fs_tree_empty out_writable, of default_policy] out_writable by auto

lemma reference_export: "\<exists>m s'. export_session (Path ''out'') default_policy Map.empty = (Inr m, s')"
proof -
  obtain session r g m prompt where p: "reference_package default_policy = Inr (session, r, g, m)"
    "artifact_bytes session = reference_artifact_bytes" "package_ready [(r, reference_artifact_bytes)] g m prompt"
    using reference_package_ready [of default_policy] by (elim exE conjE) (rule that)
  show ?thesis
    using write_package_possible [OF fs_tree_empty out_writable p(3)] unfolding export_session_eq [OF p(1)] p(2)
    by (auto simp: bindIO_def)
qed

lemma default_packages [simp]: "disposition_for default_policy p = ''packaged''"
  by (simp add: disposition_for_def default_policy_def)

theorem export_import_roundtrip_witness:
  "\<exists>m s' res s''. export_session (Path ''out'') default_policy Map.empty = (Inr m, s') \<and>
    import_session (Path ''out'') None (JStr RUNTIME_ID) s' = (Inr res, s'') \<and>
    map_of m ''graph_hash'' = Some (ir_graph_hash res) \<and>
    files s'' (path_sub (import_workspace (Path ''out'') None) ''reports/result.json'') = Some reference_artifact_bytes"
proof -
  obtain m s' where e: "export_session (Path ''out'') default_policy Map.empty = (Inr m, s')"
    using reference_export by blast
  from export_import_roundtrip [OF fs_tree_empty e] e show ?thesis by fastforce
qed

end
