(* ===== verification/Resume.thy ===== *)
theory Resume
  imports ImportSession
begin

text \<open>
  Resuming an imported agent and returning home (\<^verbatim>\<open>local_agent.py\<close>:
  \<open>node_by_id\<close>, \<open>append_post_migration_node\<close>, \<open>mark_tool_call_completed\<close>,
  \<open>resume_imported_agent\<close>, \<open>verify_resume_report_proof\<close>,
  \<open>return_home_after_target_resume\<close>). The graph dictionary the source mutates in place is
  threaded through the steps.
\<close>

section \<open>Literals\<close>

definition simulated_quota_result :: obj where
  "simulated_quota_result =
     [(''provider'', JStr ''aws''), (''operation'', JStr ''ec2.describe_instances''),
     (''filters'', JList [JStr ''Project=permeant-os'']), (''active_instances'', JInt 0),
     (''stopped_instances'', JInt 0), (''security_groups'', JInt 0), (''key_pairs'', JInt 0),
     (''result'', JStr ''clean'')]"

definition quota_result_payload :: "string \<Rightarrow> obj" where
  "quota_result_payload qh =
     [(''actor_id'', JStr TOOL_ID), (''memory_scope'', JStr ''thread''), (''memory_tier'', JStr ''working''),
     (''sensitivity'', JStr ''internal''), (''retention'', JStr ''session''), (''redaction_state'', JStr ''none''),
     (''result_hash'', JStr qh), (''output_schema_hash'', JStr (sha256_json
     (JObj [(''active_instances'', JStr ''integer''), (''result'', JStr ''string'')]))), (''is_error'', JBool False),
     (''resource_refs'', JList []), (''status'', JStr ''completed'')]"

definition resume_event_payload :: obj where
  "resume_event_payload =
     [(''actor_id'', JStr AGENT_ID), (''event_kind'', JStr ''agent_resumed_after_import''),
     (''memory_scope'', JStr ''thread''), (''memory_tier'', JStr ''working''), (''sensitivity'', JStr ''internal''),
     (''retention'', JStr ''durable''), (''redaction_state'', JStr ''none'')]"

definition publish_result_payload :: "string \<Rightarrow> obj" where
  "publish_result_payload h =
     [(''actor_id'', JStr TOOL_ID), (''memory_scope'', JStr ''thread''), (''memory_tier'', JStr ''working''),
     (''sensitivity'', JStr ''internal''), (''retention'', JStr ''durable''), (''redaction_state'', JStr ''none''),
     (''result_hash'', JStr (sha256_json (JObj [(''path'', JStr ''reports/publish/announcement.md''),
     (''sha256'', JStr h)]))), (''output_schema_hash'', JStr (sha256_json (JObj [(''path'', JStr ''string''),
     (''sha256'', JStr ''string'')]))), (''is_error'', JBool False), (''resource_refs'', JList [JStr (''artifact:'' @
     ''reports/publish/announcement.md'')]), (''status'', JStr ''completed'')]"

definition announcement_artifact_payload :: "string \<Rightarrow> int \<Rightarrow> obj" where
  "announcement_artifact_payload h sz =
     [(''actor_id'', JStr TOOL_ID), (''memory_scope'', JStr ''thread''), (''memory_tier'', JStr ''archival''),
     (''sensitivity'', JStr ''internal''), (''retention'', JStr ''durable''), (''redaction_state'', JStr ''none''),
     (''artifact_kind'', JStr ''file''), (''path'', JStr ''reports/publish/announcement.md''),
     (''uri'', JStr (''artifact://local/'' @ ''reports/publish/announcement.md'')), (''sha256'', JStr (removeprefix
     ''sha256:'' h)), (''size_bytes'', JInt sz), (''media_type'', JStr ''text/markdown''),
     (''root_ref'', JStr ''post-migration-workspace''), (''restore_policy'', JStr ''required'')]"

definition activity_continued_payload :: obj where
  "activity_continued_payload =
     [(''actor_id'', JStr AGENT_ID), (''memory_scope'', JStr ''thread''), (''memory_tier'', JStr ''recall''),
     (''sensitivity'', JStr ''internal''), (''retention'', JStr ''durable''), (''redaction_state'', JStr ''none''),
     (''quality_state'', JStr ''verified''), (''historical_state'', JStr ''current''),
     (''trust_level'', JStr ''verified''), (''valid_at'', JStr POST_MIGRATION_CREATED_AT), (''confidence'', flit 1),
     (''memory_kind'', JStr ''episodic''), (''text_hash'', JStr (sha256_bytes
     ''agent resumed after migration and completed approved publish'')),
     (''subject'', JStr ''agent:complex-continuity''), (''predicate'', JStr ''post_migration_activity''),
     (''object'', JStr ''completed_safe_retry_and_approved_publish''),
     (''namespace'', JList [JStr ''complex-agent'', JStr ''post-migration'']),
     (''key'', JStr ''agent-activity-continued''), (''embedding_model'', JStr EMBEDDING_MODEL),
     (''embedding_dim'', JInt (int EMBEDDING_DIM)), (''embedding_hash'', JStr (embedding_hash
     (deterministic_embedding
     ''agent:complex-continuity post_migration_activity completed_safe_retry_and_approved_publish''))),
     (''distance_metric'', JStr ''cosine''), (''vector_store_ref'', JStr VECTOR_STORE_REF),
     (''episode'', JObj [(''schema_version'', JStr ''complex-agent-v0''),
     (''episode_id'', JStr ''episode:complex-agent:post-import''), (''continuity_state'', JStr ''continued''),
     (''actor_ids'', JList [JStr AGENT_ID, JStr TOOL_ID, JStr ''operator:release-manager'']),
     (''started_at'', JStr POST_MIGRATION_CREATED_AT),
     (''boundary_labels'', JList [JStr ''post_import_resume'', JStr ''tool_execution'', JStr ''artifact_write'']),
     (''causal_record_ids'', JList [JStr ''tool:call:read-aws-quota'', JStr ''tool:call:publish-release'']),
     (''related_record_ids'', JList [JStr ''artifact:publish-announcement:post-import'']),
     (''salience'', JObj [(''reuse'', flit 1), (''novelty'', flit (8 / 10)), (''unresolved'', flit 0)])]),
     (''conflict'', JObj [(''review_state'', JStr ''none''), (''conflicting_node_ids'', JList []),
     (''drift_score'', flit 0)]),
     (''lineage_links'', JList [JObj [(''node_id'', JStr ''tool:result:publish-release:post-import''),
     (''relation'', JStr ''derived_from'')]])]"

definition publish_edges :: "json list" where
  "publish_edges =
     [JObj [(''from'', JStr ''tool:call:publish-release''),
     (''to'', JStr ''tool:result:publish-release:post-import''), (''type'', JStr ''produced'')], JObj [(''from'',
     JStr ''tool:call:publish-release''), (''to'', JStr ''artifact:publish-announcement:post-import''),
     (''type'', JStr ''produced'')], JObj [(''from'', JStr ''artifact:publish-announcement:post-import''),
     (''to'', JStr ''memory:agent-activity-continued:post-import''), (''type'', JStr ''produced'')]]"

definition continuation_artifact_payload :: "string \<Rightarrow> int \<Rightarrow> obj" where
  "continuation_artifact_payload h sz =
     [(''actor_id'', JStr TOOL_ID), (''memory_scope'', JStr ''thread''), (''memory_tier'', JStr ''archival''),
     (''sensitivity'', JStr ''internal''), (''retention'', JStr ''durable''), (''redaction_state'', JStr ''none''),
     (''artifact_kind'', JStr ''file''), (''path'', JStr ''reports/roundtrip/origin-continuation.md''),
     (''uri'', JStr (''artifact://origin/'' @ ''reports/roundtrip/origin-continuation.md'')),
     (''sha256'', JStr (removeprefix ''sha256:'' h)), (''size_bytes'', JInt sz),
     (''media_type'', JStr ''text/markdown''), (''root_ref'', JStr ''origin-roundtrip-workspace''),
     (''restore_policy'', JStr ''required'')]"

definition returned_home_payload :: "string \<Rightarrow> string \<Rightarrow> obj" where
  "returned_home_payload ph ah =
     [(''actor_id'', JStr AGENT_ID), (''memory_scope'', JStr ''thread''), (''memory_tier'', JStr ''recall''),
     (''sensitivity'', JStr ''internal''), (''retention'', JStr ''durable''), (''redaction_state'', JStr ''none''),
     (''quality_state'', JStr ''verified''), (''historical_state'', JStr ''current''),
     (''trust_level'', JStr ''verified''), (''valid_at'', JStr POST_MIGRATION_CREATED_AT), (''confidence'', flit 1),
     (''memory_kind'', JStr ''episodic''), (''text_hash'', JStr (sha256_bytes
     ''agent returned home after AWS continuation'')), (''subject'', JStr ''agent:complex-continuity''),
     (''predicate'', JStr ''roundtrip_continuation''),
     (''object'', JStr ''aws_work_verified_and_origin_work_completed''),
     (''namespace'', JList [JStr ''complex-agent'', JStr ''roundtrip'']),
     (''key'', JStr ''agent-roundtrip-returned-home''), (''embedding_model'', JStr EMBEDDING_MODEL),
     (''embedding_dim'', JInt (int EMBEDDING_DIM)), (''embedding_hash'', JStr (embedding_hash
     (deterministic_embedding (''agent returned home after AWS continuation '' @ ph @ '' '' @ ah)))),
     (''distance_metric'', JStr ''cosine''), (''vector_store_ref'', JStr VECTOR_STORE_REF),
     (''episode'', JObj [(''schema_version'', JStr ''complex-agent-v0''),
     (''episode_id'', JStr ''episode:complex-agent:roundtrip-origin-return''),
     (''continuity_state'', JStr ''returned_home''), (''actor_ids'', JList [JStr AGENT_ID, JStr TOOL_ID,
     JStr ''origin:local-runtime'']), (''started_at'', JStr POST_MIGRATION_CREATED_AT),
     (''boundary_labels'', JList [JStr ''origin_return'', JStr ''remote_artifact_verification'', JStr ''artifact_write'']),
     (''causal_record_ids'', JList [JStr ''memory:agent-activity-continued:post-import'', JStr ''artifact:publish-announcement:post-import'', JStr ''artifact:origin-roundtrip-continuation'']),
     (''related_record_ids'', JList [JStr ''artifact:origin-roundtrip-continuation'']),
     (''salience'', JObj [(''reuse'', flit 1), (''novelty'', flit 1), (''unresolved'', flit 0)])]),
     (''conflict'', JObj [(''review_state'', JStr ''none''), (''conflicting_node_ids'', JList []),
     (''drift_score'', flit 0)]),
     (''lineage_links'', JList [JObj [(''node_id'', JStr ''artifact:publish-announcement:post-import''),
     (''relation'', JStr ''derived_from'')], JObj [(''node_id'', JStr ''artifact:origin-roundtrip-continuation''),
     (''relation'', JStr ''produced'')]])]"

definition origin_return_event_payload :: obj where
  "origin_return_event_payload =
     [(''actor_id'', JStr AGENT_ID), (''event_kind'', JStr ''agent_returned_to_origin_after_remote_work''),
     (''memory_scope'', JStr ''thread''), (''memory_tier'', JStr ''working''), (''sensitivity'', JStr ''internal''),
     (''retention'', JStr ''durable''), (''redaction_state'', JStr ''none'')]"

definition return_home_edges :: "json list" where
  "return_home_edges =
     [JObj [(''from'', JStr ''memory:agent-activity-continued:post-import''),
     (''to'', JStr ''memory:agent-roundtrip-returned-home''), (''type'', JStr ''caused'')], JObj [(''from'',
     JStr ''artifact:publish-announcement:post-import''), (''to'', JStr ''artifact:origin-roundtrip-continuation''),
     (''type'', JStr ''referenced'')], JObj [(''from'', JStr ''artifact:origin-roundtrip-continuation''),
     (''to'', JStr ''memory:agent-roundtrip-returned-home''), (''type'', JStr ''produced'')], JObj [(''from'',
     JStr ''memory:agent-roundtrip-returned-home''), (''to'', JStr ''event:roundtrip-origin-return''),
     (''type'', JStr ''produced'')]]"

definition publish_announcement_content :: "import_result \<Rightarrow> json \<Rightarrow> string" where
  "publish_announcement_content r pre_hash =
     join [CHR 0x0A]
       [''# PermeantOS Agent Activity Continuation Proof'', [],
       ''The imported agent resumed after migration, retried safe read-only work,'',
       ''received explicit publish approval, and wrote this post-migration artifact.'', [],
       (''- pre-resume graph hash: `'' @ (py_str pre_hash) @ ''`''), (''- prompt token hash: `'' @
       (ir_prompt_token_hash r) @ ''`''), (''- simulated KV hash: `'' @ (ir_kv_hash r) @ ''`''),
       ''- safe read-only quota check: `completed`'', ''- approved publish write: `completed`'', []]"

definition return_home_continuation_content :: "string \<Rightarrow> string \<Rightarrow> json \<Rightarrow> string" where
  "return_home_continuation_content ph ah gh =
     join [CHR 0x0A]
       [''# PermeantOS Round-Trip Continuation Proof'', [],
       ''The origin imported the AWS-updated Agent Memory Graph, verified the'',
       ''remote post-migration work evidence, and continued from the returned state.'', [],
       (''- target post-resume graph hash: `'' @ (py_str gh) @ ''`''), (''- target proof hash: `'' @ ph @ ''`''),
       (''- target artifact hash: `'' @ ah @ ''`''), ''- origin continuation: `completed`'', []]"

section \<open>Updating the imported graph\<close>

text \<open>The scan of \<open>node_by_id\<close>: the position of the first node with the identifier.\<close>

fun find_node :: "string \<Rightarrow> nat \<Rightarrow> json list \<Rightarrow> (nat \<times> json) option res" where
  "find_node node_id i [] = Inr None"
| "find_node node_id i (node # ns) =
     bindR (py_get node ''id'') (\<lambda>v.
       if py_eq v (JStr node_id) then Inr (Some (i, node)) else find_node node_id (Suc i) ns)"

definition node_by_id :: "obj \<Rightarrow> string \<Rightarrow> (nat \<times> json) res" where
  "node_by_id graph node_id =
     bindR (py_get_or (JObj graph) ''nodes'' (JList [])) (\<lambda>nodes.
     bindR (py_iter nodes) (\<lambda>ns.
     bindR (find_node node_id 0 ns) (\<lambda>r.
       case r of Some x \<Rightarrow> Inr x | None \<Rightarrow> Inl (ImportVerificationError (''missing graph node: '' @ node_id)))))"

definition post_migration_node :: "string \<Rightarrow> string \<Rightarrow> obj \<Rightarrow> obj" where
  "post_migration_node node_id node_type payload =
     dict_update
       [(''id'', JStr node_id), (''type'', JStr node_type), (''created_at'', JStr POST_MIGRATION_CREATED_AT),
        (''content_hash'', JStr (sha256_json (JObj payload))),
        (''provenance'', JObj [(''runtime'', JStr RUNTIME_ID), (''captured_at'', JStr POST_MIGRATION_CREATED_AT),
           (''adapter'', JStr ''local_agent.py''), (''migration_phase'', JStr ''post_import_resume'')])]
       payload"

definition append_post_migration_node :: "string \<Rightarrow> string \<Rightarrow> obj \<Rightarrow> obj \<Rightarrow> obj res" where
  "append_post_migration_node node_id node_type payload graph =
     extend_list_field ''nodes'' [JObj (post_migration_node node_id node_type payload)] graph"

definition mark_tool_call_completed :: "string \<Rightarrow> string \<Rightarrow> obj \<Rightarrow> obj res" where
  "mark_tool_call_completed node_id approval_state graph =
     bindR (node_by_id graph node_id) (\<lambda>(i, node).
     case node of
       JObj d \<Rightarrow>
         (if \<not> py_eq (field_or d ''type'' JNull) (JStr ''tool_call'')
          then Inl (ImportVerificationError (''node is not a tool_call: '' @ node_id))
          else
            let d' = refresh_node_content_hash (dict_set ''approval_state'' (JStr approval_state)
                       (dict_set ''status'' (JStr ''completed'') d))
            in bindR (py_get_or (JObj graph) ''nodes'' (JList [])) (\<lambda>nodes.
                 case nodes of
                   JList ns \<Rightarrow> Inr (dict_set ''nodes'' (JList (ns[i := JObj d'])) graph)
                 | _ \<Rightarrow> Inr graph))
     | _ \<Rightarrow> Inl (no_attr node ''get''))"

text \<open>The final lineage entry, the source graph reference, and the new graph hash.\<close>

definition seal_graph :: "string \<Rightarrow> string \<Rightarrow> json \<Rightarrow> obj \<Rightarrow> obj res" where
  "seal_graph event source_field source_hash graph =
     bindR (py_item (JObj graph) ''graph_id'') (\<lambda>gid.
     bindR (extend_list_field ''lineage''
              [JObj [(''graph_id'', gid), (''event'', JStr event), (''created_at'', JStr POST_MIGRATION_CREATED_AT)]]
              graph) (\<lambda>g1.
     let g2 = dict_set source_field source_hash g1
     in bindR (canonical_graph_hash (JObj g2)) (\<lambda>h. Inr (dict_set ''graph_hash'' (JStr h) g2))))"

section \<open>Resuming\<close>

text \<open>The read-only quota check is retried.\<close>

definition run_quota_check :: "obj \<Rightarrow> (obj \<times> string) res" where
  "run_quota_check graph =
     bindR (node_by_id graph ''tool:call:read-aws-quota'') (\<lambda>(i, read_tool).
     bindR (py_get read_tool ''side_effect'') (\<lambda>se.
     bindR (py_get read_tool ''resume_policy'') (\<lambda>rp.
     if \<not> py_eq se (JStr ''read_only'') \<or> \<not> py_eq rp (JStr ''retry_safe'')
     then Inl (ImportVerificationError ''read-only quota tool is not retry-safe'')
     else
       bindR (mark_tool_call_completed ''tool:call:read-aws-quota'' ''not_required'' graph) (\<lambda>g1.
       let qh = sha256_json (JObj simulated_quota_result)
       in bindR (append_post_migration_node ''tool:result:read-aws-quota:post-import'' ''tool_result''
                   (quota_result_payload qh) g1) (\<lambda>g2.
          bindR (extend_list_field ''edges''
                   [edge ''tool:call:read-aws-quota'' ''tool:result:read-aws-quota:post-import'' ''produced''] g2) (\<lambda>g3.
            Inr (g3, qh)))))))"

definition quota_execution :: "string \<Rightarrow> json" where
  "quota_execution qh = JObj
     [(''node_id'', JStr ''tool:call:read-aws-quota''), (''name'', JStr ''aws.ec2.describe_instances''),
      (''side_effect'', JStr ''read_only''), (''status'', JStr ''completed''), (''result_hash'', JStr qh)]"

definition record_publication :: "string \<Rightarrow> int \<Rightarrow> obj \<Rightarrow> obj res" where
  "record_publication h sz graph =
     bindR (append_post_migration_node ''tool:result:publish-release:post-import'' ''tool_result''
              (publish_result_payload h) graph) (\<lambda>g1.
     bindR (append_post_migration_node ''artifact:publish-announcement:post-import'' ''artifact''
              (announcement_artifact_payload h sz) g1) (\<lambda>g2.
     bindR (append_post_migration_node ''memory:agent-activity-continued:post-import'' ''memory''
              activity_continued_payload g2) (\<lambda>g3.
       extend_list_field ''edges'' publish_edges g3)))"

definition publish_execution :: "string \<Rightarrow> json" where
  "publish_execution h = JObj
     [(''node_id'', JStr ''tool:call:publish-release''), (''name'', JStr ''fs.write_file''),
      (''side_effect'', JStr ''external_write''), (''status'', JStr ''completed''),
      (''approval_state'', JStr ''approved''), (''artifact_hash'', JStr h)]"

text \<open>The publish step: executed tools, blocked tools, written artifacts and the new graph.\<close>

definition run_publish ::
    "pypath \<Rightarrow> import_result \<Rightarrow> json \<Rightarrow> bool \<Rightarrow> obj \<Rightarrow> (obj \<times> json list \<times> json list \<times> json list) io" where
  "run_publish workspace r pre_hash approve graph =
     bindIO (liftR (node_by_id graph ''tool:call:publish-release'')) (\<lambda>(i, publish_tool).
     if approve then
       bindIO (liftR (py_get publish_tool ''side_effect'')) (\<lambda>se.
       bindIO (liftR (py_get publish_tool ''resume_policy'')) (\<lambda>rp.
       if \<not> py_eq se (JStr ''external_write'') \<or> \<not> py_eq rp (JStr ''ask_user'')
       then raiseIO (ImportVerificationError ''publish tool is not gated by explicit user approval'')
       else
         bindIO (liftR (mark_tool_call_completed ''tool:call:publish-release'' ''approved'' graph)) (\<lambda>g1.
         bindIO (liftR (safe_workspace_relative_path (JStr ''reports/publish/announcement.md''))) (\<lambda>rel.
         let target = path_join workspace rel
         in bindIO (write_with_parents target (utf8_encode (publish_announcement_content r pre_hash))) (\<lambda>_.
            bindIO (file_sha256_and_size target) (\<lambda>(h, sz).
            bindIO (liftR (record_publication h sz g1)) (\<lambda>g2.
              returnIO (g2, [publish_execution h], [],
                [JObj [(''path'', JStr ''reports/publish/announcement.md''), (''sha256'', JStr h),
                       (''size_bytes'', JInt sz)]]))))))))
     else
       bindIO (liftR (py_get publish_tool ''status'')) (\<lambda>st.
       bindIO (liftR (py_get publish_tool ''approval_state'')) (\<lambda>ap.
         returnIO (graph, [], [JObj
           [(''node_id'', JStr ''tool:call:publish-release''), (''name'', JStr ''fs.write_file''),
            (''side_effect'', JStr ''external_write''), (''status'', st), (''approval_state'', ap),
            (''reason'', JStr ''explicit publish approval was not supplied'')]], []))))"

text \<open>\<open>report["proof_hash"] = sha256_json({... if key != "proof_hash"})\<close>.\<close>

definition report_proof :: "obj \<Rightarrow> string" where
  "report_proof report = sha256_json (JObj (filter (\<lambda>(k, v). k \<noteq> ''proof_hash'') report))"

definition seal_report :: "obj \<Rightarrow> obj" where
  "seal_report report = dict_set ''proof_hash'' (JStr (report_proof report)) report"

definition resume_report ::
    "bool \<Rightarrow> json \<Rightarrow> json \<Rightarrow> import_result \<Rightarrow> json list \<Rightarrow> json list \<Rightarrow> json list \<Rightarrow> string \<Rightarrow> obj" where
  "resume_report approve pre_hash post_hash r executed blocked written graph_path =
     [(''status'', JStr (if executed \<noteq> [] then ''continued'' else ''not_continued'')),
      (''activity_continued'', JBool (executed \<noteq> [])), (''publish_approved'', JBool approve),
      (''pre_resume_graph_hash'', pre_hash), (''post_resume_graph_hash'', post_hash),
      (''prompt_token_hash'', JStr (ir_prompt_token_hash r)), (''kv_hash'', JStr (ir_kv_hash r)),
      (''executed_tools'', JList executed), (''blocked_tools'', JList blocked),
      (''written_artifacts'', JList written), (''resumed_graph_path'', JStr graph_path),
      (''proof_hash'', JStr [])]"

definition as_obj :: "json \<Rightarrow> obj res" where
  "as_obj v = (case v of JObj d \<Rightarrow> Inr d | _ \<Rightarrow> Inl (TypeError (''expected dict, got '' @ type_name v)))"

definition resume_imported_agent :: "pypath \<Rightarrow> pypath option \<Rightarrow> bool \<Rightarrow> obj io" where
  "resume_imported_agent package_dir workspace_dir approve_publish =
     bindIO (import_session package_dir workspace_dir (JStr RUNTIME_ID)) (\<lambda>r.
     bindIO (read_json (path_sub package_dir ''manifest.json'')) (\<lambda>manifest.
     bindIO (liftR (bindR (py_item manifest ''graph_path'') safe_package_relative_path)) (\<lambda>graph_path.
     bindIO (read_json (path_join package_dir graph_path)) (\<lambda>graph.
     let workspace = Path (ir_restored_workspace r)
     in bindIO (liftR (as_obj graph)) (\<lambda>g0.
        bindIO (liftR (py_item (JObj g0) ''graph_hash'')) (\<lambda>pre_hash.
        bindIO (liftR (run_quota_check g0)) (\<lambda>(g1, qh).
        bindIO (run_publish workspace r pre_hash approve_publish g1) (\<lambda>(g2, executed, blocked, written).
        bindIO (liftR (append_post_migration_node ''event:post-migration-agent-resume'' ''event'' resume_event_payload g2)) (\<lambda>g3.
        bindIO (liftR (seal_graph ''post_migration_agent_resume'' ''source_graph_id'' pre_hash g3)) (\<lambda>g4.
        let resume_dir = path_sub (path_sub workspace ''reports'') ''resume'';
            resumed_graph_path = path_sub resume_dir ''resumed-graph.json'';
            resume_report_path = path_sub resume_dir ''resume-report.json''
        in bindIO (write_json resumed_graph_path (JObj g4)) (\<lambda>_.
           bindIO (liftR (py_item (JObj g4) ''graph_hash'')) (\<lambda>post_hash.
           bindIO (liftR (relative_to resumed_graph_path workspace)) (\<lambda>rel_graph.
           let report = seal_report (resume_report approve_publish pre_hash post_hash r
                          (quota_execution qh # executed) blocked written (as_posix rel_graph))
           in bindIO (write_json resume_report_path (JObj report)) (\<lambda>_.
              bindIO (liftR (relative_to resume_report_path workspace)) (\<lambda>rel_report.
                returnIO (dict_set ''resume_report_path'' (JStr (as_posix rel_report)) report))))))))))))))))"

definition verify_resume_report_proof :: "json \<Rightarrow> unit res" where
  "verify_resume_report_proof report =
     (case report of
        JObj d \<Rightarrow>
          (if \<not> py_eq (field_or d ''proof_hash'' JNull) (JStr (report_proof d))
           then Inl (ImportVerificationError ''target resume report proof hash mismatch'') else Inr ())
      | v \<Rightarrow> Inl (no_attr v ''items''))"

section \<open>Returning home\<close>

definition check_target_lineage :: "json \<Rightarrow> json \<Rightarrow> json \<Rightarrow> unit res" where
  "check_target_lineage manifest target_graph target_report =
     bindR (py_get target_report ''status'') (\<lambda>st.
     bindR (py_get target_report ''activity_continued'') (\<lambda>ac.
     if \<not> py_eq st (JStr ''continued'') \<or> ac \<noteq> JBool True
     then Inl (ImportVerificationError ''target resume report did not record continued activity'')
     else
       bindR (py_get target_report ''pre_resume_graph_hash'') (\<lambda>pre.
       bindR (py_item manifest ''graph_hash'') (\<lambda>mh.
       if \<not> py_eq pre mh
       then Inl (ImportVerificationError ''target resume report does not descend from the original graph'')
       else
         bindR (py_get target_graph ''graph_hash'') (\<lambda>gh.
         bindR (canonical_graph_hash target_graph) (\<lambda>ch.
         if \<not> py_eq gh (JStr ch)
         then Inl (ImportVerificationError ''target resumed graph hash is invalid'')
         else
           bindR (py_get target_report ''post_resume_graph_hash'') (\<lambda>post.
           bindR (py_item target_graph ''graph_hash'') (\<lambda>gh2.
           if \<not> py_eq post gh2
           then Inl (ImportVerificationError ''target resume report does not match target resumed graph'')
           else Inr ()))))))))"

text \<open>The written artifact the target reports: its entry and its hash.\<close>

definition check_target_artifact :: "obj \<Rightarrow> json \<Rightarrow> (json \<times> string) res" where
  "check_target_artifact target_graph target_report =
     bindR (py_get target_report ''written_artifacts'') (\<lambda>wa.
     case wa of
       JList (target_artifact # _) \<Rightarrow>
         bindR (py_get target_artifact ''sha256'') (\<lambda>h.
         case h of
           JStr ah \<Rightarrow>
             (if \<not> starts_with ''sha256:'' ah
              then Inl (ImportVerificationError ''target written artifact hash is invalid'')
              else
                bindR (node_by_id target_graph ''artifact:publish-announcement:post-import'') (\<lambda>(i, node).
                bindR (py_get node ''sha256'') (\<lambda>nh.
                if \<not> py_eq nh (JStr (removeprefix ''sha256:'' ah))
                then Inl (ImportVerificationError ''target graph artifact node does not match target report'')
                else Inr (target_artifact, ah))))
         | _ \<Rightarrow> Inl (ImportVerificationError ''target written artifact hash is invalid''))
     | _ \<Rightarrow> Inl (ImportVerificationError ''target resume report does not include written artifact evidence''))"

definition check_target_bytes :: "pypath option \<Rightarrow> json \<Rightarrow> string \<Rightarrow> unit io" where
  "check_target_bytes target_artifact_path target_artifact ah =
     (case target_artifact_path of
        None \<Rightarrow> returnIO ()
      | Some p \<Rightarrow>
          bindIO (file_sha256_and_size p) (\<lambda>(actual_hash, actual_size).
          if actual_hash \<noteq> ah
          then raiseIO (ImportVerificationError ''target artifact bytes do not match target report hash'')
          else
            bindIO (liftR (bindR (py_get_or target_artifact ''size_bytes'' (JInt (- 1))) py_int)) (\<lambda>sz.
            if sz \<noteq> actual_size
            then raiseIO (ImportVerificationError ''target artifact size does not match target report'')
            else returnIO ())))"

definition record_return :: "string \<Rightarrow> int \<Rightarrow> string \<Rightarrow> string \<Rightarrow> obj \<Rightarrow> obj res" where
  "record_return h sz ph ah graph =
     bindR (append_post_migration_node ''artifact:origin-roundtrip-continuation'' ''artifact''
              (continuation_artifact_payload h sz) graph) (\<lambda>g1.
     bindR (append_post_migration_node ''memory:agent-roundtrip-returned-home'' ''memory''
              (returned_home_payload ph ah) g1) (\<lambda>g2.
     bindR (append_post_migration_node ''event:roundtrip-origin-return'' ''event'' origin_return_event_payload g2) (\<lambda>g3.
       extend_list_field ''edges'' return_home_edges g3)))"

definition roundtrip_report ::
    "json \<Rightarrow> json \<Rightarrow> json \<Rightarrow> json \<Rightarrow> string \<Rightarrow> import_result \<Rightarrow> string \<Rightarrow> int \<Rightarrow> string \<Rightarrow> obj" where
  "roundtrip_report origin_hash target_hash post_hash proof ah r h sz graph_path =
     [(''status'', JStr ''round_trip_continued''), (''round_trip_continued'', JBool True),
      (''origin_pre_graph_hash'', origin_hash), (''target_post_graph_hash'', target_hash),
      (''origin_post_graph_hash'', post_hash), (''target_proof_hash'', proof), (''target_artifact_hash'', JStr ah),
      (''prompt_token_hash'', JStr (ir_prompt_token_hash r)), (''kv_hash'', JStr (ir_kv_hash r)),
      (''origin_written_artifacts'', JList [JObj [(''path'', JStr ''reports/roundtrip/origin-continuation.md''),
         (''sha256'', JStr h), (''size_bytes'', JInt sz)]]),
      (''returned_graph_path'', JStr graph_path), (''proof_hash'', JStr [])]"

definition return_home_after_target_resume ::
    "pypath \<Rightarrow> pypath \<Rightarrow> pypath \<Rightarrow> pypath option \<Rightarrow> pypath option \<Rightarrow> obj io" where
  "return_home_after_target_resume original_package_dir target_graph_path target_report_path workspace_dir target_artifact_path =
     (let workspace = (case workspace_dir of Some w \<Rightarrow> w
                       | None \<Rightarrow> path_sub original_package_dir ''roundtrip-origin-workspace'')
      in bindIO (mkdir_parents workspace) (\<lambda>_.
         bindIO (import_session original_package_dir (Some (path_sub workspace ''origin-import'')) (JStr RUNTIME_ID)) (\<lambda>r.
         bindIO (read_json (path_sub original_package_dir ''manifest.json'')) (\<lambda>manifest.
         bindIO (read_json target_graph_path) (\<lambda>target_graph.
         bindIO (read_json target_report_path) (\<lambda>target_report.
         bindIO (liftR (verify_resume_report_proof target_report)) (\<lambda>_.
         bindIO (liftR (check_target_lineage manifest target_graph target_report)) (\<lambda>_.
         bindIO (liftR (as_obj target_graph)) (\<lambda>g0.
         bindIO (liftR (check_target_artifact g0 target_report)) (\<lambda>(target_artifact, ah).
         bindIO (check_target_bytes target_artifact_path target_artifact ah) (\<lambda>_.
         bindIO (liftR (py_item (JObj g0) ''graph_hash'')) (\<lambda>target_hash.
         bindIO (liftR (py_item target_report ''proof_hash'')) (\<lambda>proof.
         bindIO (liftR (safe_workspace_relative_path (JStr ''reports/roundtrip/origin-continuation.md''))) (\<lambda>rel.
         let target = path_join workspace rel
         in bindIO (write_with_parents target
                      (utf8_encode (return_home_continuation_content (py_str proof) ah target_hash))) (\<lambda>_.
            bindIO (file_sha256_and_size target) (\<lambda>(h, sz).
            bindIO (liftR (record_return h sz (py_str proof) ah g0)) (\<lambda>g1.
            bindIO (liftR (seal_graph ''roundtrip_origin_return'' ''roundtrip_source_graph_id'' target_hash g1)) (\<lambda>g2.
            let dir = path_sub (path_sub workspace ''reports'') ''roundtrip'';
                returned_graph_path = path_sub dir ''returned-home-graph.json'';
                roundtrip_report_path = path_sub dir ''roundtrip-report.json''
            in bindIO (write_json returned_graph_path (JObj g2)) (\<lambda>_.
               bindIO (liftR (py_item manifest ''graph_hash'')) (\<lambda>origin_hash.
               bindIO (liftR (py_item (JObj g2) ''graph_hash'')) (\<lambda>post_hash.
               bindIO (liftR (relative_to returned_graph_path workspace)) (\<lambda>rel_graph.
               let report = seal_report (roundtrip_report origin_hash target_hash post_hash proof ah r h sz (as_posix rel_graph))
               in bindIO (write_json roundtrip_report_path (JObj report)) (\<lambda>_.
                  bindIO (liftR (relative_to roundtrip_report_path workspace)) (\<lambda>rel_report.
                    returnIO (dict_set ''roundtrip_report_path'' (JStr (as_posix rel_report)) report)))))))))))))))))))))))))"

section \<open>Content hashes\<close>

text \<open>The documented meaning of a node's \<open>content_hash\<close>: the digest of its payload.\<close>

definition content_hash_ok :: "json \<Rightarrow> bool" where
  "content_hash_ok n \<longleftrightarrow>
     (\<exists>d. n = JObj d \<and> map_of d ''content_hash'' = Some (JStr (sha256_json (JObj (node_content_payload d)))))"

lemma node_content_payload_set_meta:
  "k \<in> set node_meta_keys \<Longrightarrow> node_content_payload (dict_set k v d) = node_content_payload d"
  unfolding node_content_payload_def by (induction d) (auto split: if_splits)

lemma refresh_content_hash_ok: "content_hash_ok (JObj (refresh_node_content_hash d))"
  unfolding content_hash_ok_def refresh_node_content_hash_def
  by (simp add: node_content_payload_set_meta node_meta_keys_def)

lemma dict_update_fresh:
  "distinct (map fst new) \<Longrightarrow> fst ` set new \<inter> fst ` set d = {} \<Longrightarrow> dict_update d new = d @ new"
  unfolding dict_update_def
proof (induction new arbitrary: d)
  case (Cons p new)
  obtain k v where p: "p = (k, v)" by fastforce
  have "dict_set k v d = d @ [(k, v)]" using Cons.prems p by (intro dict_set_new) auto
  with Cons.IH [of "d @ [(k, v)]"] Cons.prems p show ?case by auto
qed simp

lemma stamped_content_hash_ok:
  assumes "map fst meta = node_meta_keys" and "map_of meta ''content_hash'' = Some (JStr (sha256_json (JObj payload)))"
    and "distinct (map fst payload)" and "set (map fst payload) \<inter> set node_meta_keys = {}"
  shows "content_hash_ok (JObj (dict_update meta payload))"
proof -
  have "fst ` set meta = set node_meta_keys" using assms(1) by (metis list.set_map)
  then have e: "dict_update meta payload = meta @ payload"
    using assms(3,4) by (intro dict_update_fresh) auto
  have "filter (\<lambda>(k, v). k \<notin> set node_meta_keys) meta = []"
    using \<open>fst ` set meta = set node_meta_keys\<close> by (auto simp: filter_empty_conv) (metis fst_conv image_eqI)
  moreover have "filter (\<lambda>(k, v). k \<notin> set node_meta_keys) payload = payload"
    using assms(4) by (intro filter_True) force
  ultimately have "node_content_payload (meta @ payload) = payload" by (simp add: node_content_payload_def)
  then show ?thesis using assms(2) by (simp add: content_hash_ok_def e map_add_def)
qed

lemma base_node_content_hash_ok:
  "distinct (map fst payload) \<Longrightarrow> set (map fst payload) \<inter> set node_meta_keys = {} \<Longrightarrow>
   content_hash_ok (base_node i t payload)"
  unfolding base_node_def by (rule stamped_content_hash_ok) (simp_all add: node_meta_keys_def)

lemma post_migration_content_hash_ok:
  "distinct (map fst payload) \<Longrightarrow> set (map fst payload) \<inter> set node_meta_keys = {} \<Longrightarrow>
   content_hash_ok (JObj (post_migration_node i t payload))"
  unfolding post_migration_node_def by (rule stamped_content_hash_ok) (simp_all add: node_meta_keys_def)

section \<open>Marking a call completed\<close>

lemma find_node_Some:
  "find_node i k ns = Inr (Some (j, n)) \<Longrightarrow>
   k \<le> j \<and> j < k + length ns \<and> ns ! (j - k) = n \<and> (\<exists>d. n = JObj d \<and> map_of d ''id'' = Some (JStr i)) \<and>
   (\<forall>l<j - k. \<exists>d. ns ! l = JObj d \<and> map_of d ''id'' \<noteq> Some (JStr i))"
proof (induction ns arbitrary: k)
  case (Cons m ns)
  then obtain d where d: "m = JObj d" by (auto simp: bindR_eq_Inr py_get_or_eq_Inr)
  show ?case
  proof (cases "map_of d ''id'' = Some (JStr i)")
    case True
    with Cons.prems d show ?thesis by auto
  next
    case False
    then have "find_node i (Suc k) ns = Inr (Some (j, n))"
      using Cons.prems d by (auto simp: field_or_def split: option.splits if_splits)
    from Cons.IH [OF this] False d show ?thesis
      by (auto simp: nth_Cons Suc_diff_Suc less_Suc_eq_0_disj split: nat.split) (metis Suc_diff_le diff_Suc_Suc nth_Cons_Suc)+
  qed
qed simp

text \<open>Completing a tool call. The step succeeds only on a tool-call node; it sets status and
  approval of the first node with that identifier, refreshes that node's content hash, and leaves
  every other node and every other field of the graph as it was. The replay policy then never
  retries the call again.\<close>

theorem mark_completed_spec:
  assumes "mark_tool_call_completed i ap g = Inr g'" and "map_of g ''nodes'' = Some (JList ns)"
  shows "\<exists>j d d'. j < length ns \<and> ns ! j = JObj d \<and> map_of d ''id'' = Some (JStr i) \<and>
    map_of d ''type'' = Some (JStr ''tool_call'') \<and>
    g' = dict_set ''nodes'' (JList (ns[j := JObj d'])) g \<and> content_hash_ok (JObj d') \<and>
    map_of d' ''status'' = Some (JStr ''completed'') \<and> map_of d' ''approval_state'' = Some (JStr ap) \<and>
    node_decision g' d' \<in> {NoReplay, Reject}"
proof -
  obtain j n where fj: "find_node i 0 ns = Inr (Some (j, n))"
    using assms unfolding mark_tool_call_completed_def node_by_id_def
    by (auto simp: bindR_eq_Inr split: option.splits)
  then have nb: "node_by_id g i = Inr (j, n)" using assms(2) by (simp add: node_by_id_def)
  obtain d where d: "n = JObj d" "map_of d ''id'' = Some (JStr i)" "j < length ns" "ns ! j = n"
    using find_node_Some [OF fj] by auto
  define d' where "d' = refresh_node_content_hash (dict_set ''approval_state'' (JStr ap)
                       (dict_set ''status'' (JStr ''completed'') d))"
  have "field_or d ''type'' JNull = JStr ''tool_call''" and g': "g' = dict_set ''nodes'' (JList (ns[j := JObj d'])) g"
    using assms unfolding mark_tool_call_completed_def nb d(1) bindR_simps prod.case json.case py_eq_JStr d'_def [symmetric] Let_def
    by (auto split: if_splits)
  then have t: "map_of d ''type'' = Some (JStr ''tool_call'')" by (simp add: field_or_JStr)
  have "map_of d' ''status'' = Some (JStr ''completed'')" "map_of d' ''approval_state'' = Some (JStr ap)"
    unfolding d'_def refresh_node_content_hash_def by simp_all
  moreover have "node_decision g' d' \<in> {NoReplay, Reject}"
    by (rule finished_never_replayed) (simp add: field_or_def calculation(1) finished_status_def)
  moreover have "content_hash_ok (JObj d')" unfolding d'_def by (rule refresh_content_hash_ok)
  ultimately show ?thesis using d t g' by blast
qed

section \<open>Reports carry their own proof\<close>

lemma filter_dict_set_same: "filter (\<lambda>(k, v). k \<noteq> key) (dict_set key w d) = filter (\<lambda>(k, v). k \<noteq> key) d"
  by (induction d) (auto split: if_splits)

lemma report_proof_seal [simp]: "report_proof (dict_set ''proof_hash'' v d) = report_proof d"
  by (simp add: report_proof_def filter_dict_set_same)

lemma report_proof_sorted:
  assumes "wf_json (JObj d)"
  shows "report_proof (sorted_obj d) = report_proof d"
  using sha256_json_sort_keys [OF wf_dict_pop [OF assms, of "''proof_hash''"]]
  by (simp add: report_proof_def dict_pop_def [symmetric] sorted_obj_dict_pop)

text \<open>The proof of a report survives the disk. A report sealed with its proof hash, written as
  JSON and read back, passes the proof check of the returning origin.\<close>

theorem sealed_report_verifies_from_disk:
  assumes "write_json p (JObj (seal_report d)) s = (Inr u, s')" and "wf_json (JObj d)"
  shows "\<exists>rep. read_json p s' = (Inr rep, s') \<and> verify_resume_report_proof rep = Inr ()"
proof -
  have wf: "wf_json (JObj (seal_report d))"
    unfolding seal_report_def using assms(2) by (intro wf_dict_set) simp_all
  have "report_proof (sorted_obj (seal_report d)) = report_proof d"
    using report_proof_sorted [OF wf] by (simp add: seal_report_def)
  moreover have "map_of (sorted_obj (seal_report d)) ''proof_hash'' = Some (JStr (report_proof d))"
    using map_of_sorted_obj [OF wf] by (simp add: seal_report_def)
  ultimately show ?thesis
    using read_json_write_json [OF assms(1) wf] by (simp add: verify_resume_report_proof_def field_or_def)
qed

section \<open>Sealed graphs\<close>

lemma extend_list_field_Inr:
  "extend_list_field k vs d = Inr d' \<longleftrightarrow> (\<exists>xs. map_of d k = Some (JList xs) \<and> d' = dict_set k (JList (xs @ vs)) d)"
proof (cases "map_of d k")
  case (Some v)
  then show ?thesis by (cases v) (auto simp: extend_list_field_def)
qed (simp add: extend_list_field_def)

lemma wf_extend_list_field:
  "extend_list_field k vs d = Inr d' \<Longrightarrow> wf_json (JObj d) \<Longrightarrow> list_all wf_json vs \<Longrightarrow> wf_json (JObj d')"
  unfolding extend_list_field_Inr
  by (auto simp del: wf_json.simps(2) intro!: wf_dict_set) (auto simp: list_all_iff dest!: map_of_SomeD)

lemma seal_graph_hash:
  assumes "seal_graph ev sf sh g = Inr g'"
  shows "\<exists>h. map_of g' ''graph_hash'' = Some (JStr h) \<and> canonical_graph_hash (JObj g') = Inr h"
  using assms by (auto simp: seal_graph_def bindR_eq_Inr Let_def canonical_graph_hash_eq_Inr)

text \<open>A sealed graph verifies after a trip through the disk: written as JSON and read back, it
  passes the graph verification of the import against the hash it carries.\<close>

theorem sealed_graph_verifies_from_disk:
  assumes "seal_graph ev sf sh g = Inr g'" and "write_json p (JObj g') s = (Inr u, s')" and "wf_json (JObj g')"
  shows "\<exists>h g''. map_of g' ''graph_hash'' = Some (JStr h) \<and> read_json p s' = (Inr g'', s') \<and>
    verify_graph g'' (JStr h) = Inr ()"
proof -
  obtain h where h: "map_of g' ''graph_hash'' = Some (JStr h)" "canonical_graph_hash (JObj g') = Inr h"
    using seal_graph_hash [OF assms(1)] by blast
  have "canonical_graph_hash (JObj (sorted_obj g')) = Inr h"
    using canonical_graph_hash_sort_keys [OF assms(3)] h(2) by simp
  then have "verify_graph (JObj (sorted_obj g')) (JStr h) = Inr ()"
    using h(1) map_of_sorted_obj [OF assms(3)] by (simp add: verify_graph_def del: canonical_graph_hash_JObj)
  then show ?thesis using h(1) read_json_write_json [OF assms(2,3)] by auto
qed

section \<open>Updates keep a Python value\<close>

lemma py_iter_wf: "py_iter v = Inr xs \<Longrightarrow> wf_json v \<Longrightarrow> list_all wf_json xs"
  by (cases v) (auto simp: py_iter_def list_all_iff)

lemma find_node_mem: "find_node n i ns = Inr (Some (j, node)) \<Longrightarrow> node \<in> set ns"
  by (induction ns arbitrary: i) (auto simp: bindR_eq_Inr split: if_splits)

lemma node_by_id_wf:
  assumes "node_by_id g n = Inr (i, node)" and "wf_json (JObj g)"
  shows "wf_json node"
proof -
  obtain nodes ns where n: "py_get_or (JObj g) ''nodes'' (JList []) = Inr nodes" "py_iter nodes = Inr ns"
      "find_node n 0 ns = Inr (Some (i, node))"
    using assms(1) unfolding node_by_id_def bindR_eq_Inr by (auto split: option.splits)
  have "wf_json nodes" using n(1) wf_field_or [OF assms(2), of "JList []" "''nodes''"] by (simp add: py_get_or_field del: py_get_or_JObj)
  then have "list_all wf_json ns" using py_iter_wf [OF n(2)] by blast
  with find_node_mem [OF n(3)] show ?thesis by (simp add: list_all_iff)
qed

lemma refresh_wf: "wf_json (JObj d) \<Longrightarrow> wf_json (JObj (refresh_node_content_hash d))"
  unfolding refresh_node_content_hash_def by (rule wf_dict_set) simp_all

lemma mark_completed_wf:
  assumes "mark_tool_call_completed n ap g = Inr g'" and "wf_json (JObj g)"
  shows "wf_json (JObj g')"
proof -
  obtain i node where n: "node_by_id g n = Inr (i, node)" using assms(1) by (auto simp: mark_tool_call_completed_def bindR_eq_Inr)
  have w: "wf_json node" using node_by_id_wf [OF n assms(2)] .
  obtain d where d: "node = JObj d" using assms(1) n by (cases node) (auto simp: mark_tool_call_completed_def)
  define d' where "d' = refresh_node_content_hash (dict_set ''approval_state'' (JStr ap) (dict_set ''status'' (JStr ''completed'') d))"
  have wd: "wf_json (JObj d')" unfolding d'_def using w d by (intro refresh_wf wf_dict_set) simp_all
  have nodes: "wf_json (field_or g ''nodes'' (JList []))" using wf_field_or [OF assms(2), of "JList []"] by simp
  have "g' = g \<or> (\<exists>ns. field_or g ''nodes'' (JList []) = JList ns \<and> g' = dict_set ''nodes'' (JList (ns[i := JObj d'])) g)"
    using assms(1) n d unfolding mark_tool_call_completed_def d'_def
    by (auto simp: Let_def py_get_or_field simp del: py_get_or_JObj split: if_splits json.splits)
  then show ?thesis
  proof
    assume "\<exists>ns. field_or g ''nodes'' (JList []) = JList ns \<and> g' = dict_set ''nodes'' (JList (ns[i := JObj d'])) g"
    then obtain ns where g': "field_or g ''nodes'' (JList []) = JList ns" "g' = dict_set ''nodes'' (JList (ns[i := JObj d'])) g" by blast
    have "list_all wf_json (ns[i := JObj d'])"
      using nodes wd set_update_subset_insert [of ns i "JObj d'"] unfolding g'(1) by (auto simp: list_all_iff simp del: wf_json.simps(2))
    then show ?thesis unfolding g'(2) using assms(2) by (intro wf_dict_set) simp_all
  qed (use assms(2) in simp)
qed

lemma post_migration_node_wf: "list_all (\<lambda>(k, v). wf_json v) p \<Longrightarrow> wf_json (JObj (post_migration_node i t p))"
  unfolding post_migration_node_def by (rule wf_dict_update) (simp_all add: dict_keys_ok_def)

lemma append_node_wf:
  "append_post_migration_node i t p g = Inr g' \<Longrightarrow> wf_json (JObj g) \<Longrightarrow> list_all (\<lambda>(k, v). wf_json v) p \<Longrightarrow> wf_json (JObj g')"
  unfolding append_post_migration_node_def by (rule wf_extend_list_field) (auto simp: post_migration_node_wf simp del: wf_json.simps)

lemma run_quota_check_wf:
  assumes "run_quota_check g = Inr (g', qh)" and "wf_json (JObj g)"
  shows "wf_json (JObj g')"
proof -
  obtain g1 g2 where g: "mark_tool_call_completed ''tool:call:read-aws-quota'' ''not_required'' g = Inr g1"
      "append_post_migration_node ''tool:result:read-aws-quota:post-import'' ''tool_result'' (quota_result_payload qh) g1 = Inr g2"
      "extend_list_field ''edges'' [edge ''tool:call:read-aws-quota'' ''tool:result:read-aws-quota:post-import'' ''produced''] g2 = Inr g'"
    using assms(1) by (auto simp: run_quota_check_def bindR_eq_Inr Let_def split: if_splits)
  have "wf_json (JObj g2)"
    using append_node_wf [OF g(2) mark_completed_wf [OF g(1) assms(2)]] by (simp add: quota_result_payload_def)
  then show ?thesis by (rule wf_extend_list_field [OF g(3)]) (simp add: edge_def dict_keys_ok_def)
qed

lemma py_get_wf: "py_get v k = Inr x \<Longrightarrow> wf_json v \<Longrightarrow> wf_json x"
proof (cases v)
  case (JObj d)
  assume "py_get v k = Inr x" "wf_json v"
  then show ?thesis using wf_field_or [of d JNull k] by (simp add: JObj py_get_or_field del: py_get_or_JObj)
qed (simp_all add: py_get_or_def)

lemma run_publish_wf:
  assumes "run_publish ws r ph ap g s = (Inr (g', ex, bl, wr), s')" and "wf_json (JObj g)"
  shows "list_all wf_json ex \<and> list_all wf_json bl \<and> list_all wf_json wr"
proof (cases ap)
  case True
  then show ?thesis
    using assms(1) by (auto simp: run_publish_def bindIO_eq_Inr publish_execution_def dict_keys_ok_def Let_def split: prod.splits if_splits)
next
  case False
  then obtain i node st a where n: "node_by_id g ''tool:call:publish-release'' = Inr (i, node)" "py_get node ''status'' = Inr st"
      "py_get node ''approval_state'' = Inr a"
    and e: "ex = []" "wr = []" "bl = [JObj [(''node_id'', JStr ''tool:call:publish-release''), (''name'', JStr ''fs.write_file''),
            (''side_effect'', JStr ''external_write''), (''status'', st), (''approval_state'', a),
            (''reason'', JStr ''explicit publish approval was not supplied'')]]"
    using assms(1) by (auto simp: run_publish_def bindIO_eq_Inr split: prod.splits)
  note w = node_by_id_wf [OF n(1) assms(2)]
  show ?thesis using py_get_wf [OF n(2) w] py_get_wf [OF n(3) w] e by (simp add: dict_keys_ok_def)
qed

section \<open>The publish gate\<close>

lemma run_publish_unapproved:
  assumes "run_publish ws r ph False g s = (Inr (g', ex, bl, wr), s')"
  shows "s' = s" "g' = g" "ex = []" "wr = []"
    "\<exists>d st ap. bl = [JObj d] \<and> map_of d ''node_id'' = Some (JStr ''tool:call:publish-release'') \<and>
       map_of d ''status'' = Some st \<and> map_of d ''approval_state'' = Some ap"
  using assms by (auto simp: run_publish_def bindIO_eq_Inr split: prod.splits)

lemma files_write_json: "write_json p v s = (Inr u, s') \<Longrightarrow> q \<noteq> p \<Longrightarrow> files s' q = files s q"
  unfolding write_json_def by (drule files_write_with_parents) simp

definition resume_dir :: "pypath \<Rightarrow> pypath" where
  "resume_dir ws = path_sub (path_sub ws ''reports'') ''resume''"

text \<open>What a successful resume has done.\<close>

lemma resume_parts:
  assumes "resume_imported_agent pkg w approve s = (Inr rep, s')"
  obtains r s1 m gp g0 ph g1 qh g2 ex bl wr s4 g4 s5 post rg rr u1 u2 where
    "import_session pkg w (JStr RUNTIME_ID) s = (Inr r, s1)"
    "read_json (path_sub pkg ''manifest.json'') s1 = (Inr m, s1)" "read_json (path_join pkg gp) s1 = (Inr (JObj g0), s1)"
    "map_of g0 ''graph_hash'' = Some ph" "run_quota_check g0 = Inr (g1, qh)"
    "run_publish (Path (ir_restored_workspace r)) r ph approve g1 s1 = (Inr (g2, ex, bl, wr), s4)"
    "write_json (path_sub (resume_dir (Path (ir_restored_workspace r))) ''resumed-graph.json'') (JObj g4) s4 = (Inr u1, s5)"
    "map_of g4 ''graph_hash'' = Some (JStr post)"
    "write_json (path_sub (resume_dir (Path (ir_restored_workspace r))) ''resume-report.json'')
      (JObj (seal_report (resume_report approve ph (JStr post) r (quota_execution qh # ex) bl wr rg))) s5 = (Inr u2, s')"
    "rep = dict_set ''resume_report_path'' (JStr rr)
      (seal_report (resume_report approve ph (JStr post) r (quota_execution qh # ex) bl wr rg))"
proof -
  from assms obtain r s1 m s2 gp g s3 g0 ph g1 qh g2 ex bl wr s4 g3 g4 s5 post rg rr u1 u2 where
    i: "import_session pkg w (JStr RUNTIME_ID) s = (Inr r, s1)"
    and rd: "read_json (path_sub pkg ''manifest.json'') s1 = (Inr m, s2)" "read_json (path_join pkg gp) s2 = (Inr g, s3)"
    and g: "as_obj g = Inr g0" "py_item (JObj g0) ''graph_hash'' = Inr ph" "run_quota_check g0 = Inr (g1, qh)"
    and p: "run_publish (Path (ir_restored_workspace r)) r ph approve g1 s3 = (Inr (g2, ex, bl, wr), s4)"
    and sg: "seal_graph ''post_migration_agent_resume'' ''source_graph_id'' ph g3 = Inr g4"
    and w1: "write_json (path_sub (resume_dir (Path (ir_restored_workspace r))) ''resumed-graph.json'') (JObj g4) s4 = (Inr u1, s5)"
    and ps: "py_item (JObj g4) ''graph_hash'' = Inr post"
    and w2: "write_json (path_sub (resume_dir (Path (ir_restored_workspace r))) ''resume-report.json'')
      (JObj (seal_report (resume_report approve ph post r (quota_execution qh # ex) bl wr (as_posix rg)))) s5 = (Inr u2, s')"
    and rep: "rep = dict_set ''resume_report_path'' (JStr (as_posix rr))
      (seal_report (resume_report approve ph post r (quota_execution qh # ex) bl wr (as_posix rg)))"
    unfolding resume_imported_agent_def Let_def resume_dir_def [symmetric]
    by (clarsimp simp: bindIO_eq_Inr split: prod.splits)
  have st: "s2 = s1" "s3 = s1" using read_json_state [OF rd(1)] read_json_state [OF rd(2)] by simp_all
  have "g = JObj g0" using g(1) by (cases g) (auto simp: as_obj_def)
  moreover have "map_of g0 ''graph_hash'' = Some ph" using g(2) by (auto split: option.splits)
  moreover obtain h where "map_of g4 ''graph_hash'' = Some (JStr h)" "post = JStr h"
    using seal_graph_hash [OF sg] ps by (auto split: option.splits)
  ultimately show thesis using that i rd g(3) p w1 w2 rep unfolding st by blast
qed


text \<open>Without explicit approval the resumed agent does not publish. A resume run without
  approval reports the read-only quota check as its only execution, the publish call as blocked and
  no written artifact; and, compared with the state right after the import, only the two resume
  report files changed.\<close>

theorem resume_without_approval:
  assumes "resume_imported_agent pkg w False s = (Inr rep, s')"
  shows "\<exists>qh d r s1. map_of rep ''executed_tools'' = Some (JList [quota_execution qh]) \<and>
    map_of rep ''blocked_tools'' = Some (JList [JObj d]) \<and>
    map_of d ''node_id'' = Some (JStr ''tool:call:publish-release'') \<and>
    map_of rep ''written_artifacts'' = Some (JList []) \<and> map_of rep ''publish_approved'' = Some (JBool False) \<and>
    import_session pkg w (JStr RUNTIME_ID) s = (Inr r, s1) \<and>
    (\<forall>q. q \<notin> {path_sub (resume_dir (Path (ir_restored_workspace r))) ''resumed-graph.json'',
               path_sub (resume_dir (Path (ir_restored_workspace r))) ''resume-report.json''} \<longrightarrow>
       files s' q = files s1 q)"
proof -
  obtain r s1 ph g1 qh g2 ex bl wr s4 g4 s5 post rg rr u1 u2 where
    i: "import_session pkg w (JStr RUNTIME_ID) s = (Inr r, s1)"
    and p: "run_publish (Path (ir_restored_workspace r)) r ph False g1 s1 = (Inr (g2, ex, bl, wr), s4)"
    and w1: "write_json (path_sub (resume_dir (Path (ir_restored_workspace r))) ''resumed-graph.json'') (JObj g4) s4 = (Inr u1, s5)"
    and w2: "write_json (path_sub (resume_dir (Path (ir_restored_workspace r))) ''resume-report.json'')
      (JObj (seal_report (resume_report False ph (JStr post) r (quota_execution qh # ex) bl wr rg))) s5 = (Inr u2, s')"
    and rep: "rep = dict_set ''resume_report_path'' (JStr rr)
      (seal_report (resume_report False ph (JStr post) r (quota_execution qh # ex) bl wr rg))"
    by (rule resume_parts [OF assms])
  note pub = run_publish_unapproved [OF p]
  have "s4 = s1" using pub(1) .
  obtain d where d: "bl = [JObj d]" "map_of d ''node_id'' = Some (JStr ''tool:call:publish-release'')" using pub(5) by blast
  have "files s' q = files s1 q" if "q \<noteq> path_sub (resume_dir (Path (ir_restored_workspace r))) ''resumed-graph.json''"
      "q \<noteq> path_sub (resume_dir (Path (ir_restored_workspace r))) ''resume-report.json''" for q
    using files_write_json [OF w1 that(1)] files_write_json [OF w2 that(2)] \<open>s4 = s1\<close> by simp
  then show ?thesis
    using i d(2) by (intro exI [of _ qh] exI [of _ d] exI [of _ r] exI [of _ s1])
      (simp add: rep seal_report_def resume_report_def pub(3,4) d(1))
qed

section \<open>The returned report\<close>

text \<open>A field added to a sealed report is outside its proof.\<close>

lemma added_field_breaks_proof:
  assumes wf: "wf_json (JObj d)" and k: "map_of d k = None" "k \<noteq> ''proof_hash''" and v: "wf_json v"
  defines "e \<equiv> dict_set k v (seal_report d)"
  shows "verify_resume_report_proof (JObj e) = Inl (ImportVerificationError ''target resume report proof hash mismatch'') \<or>
    sha_collision (utf8_encode (dumps_canonical (JObj (dict_pop ''proof_hash'' e)))) (utf8_encode (dumps_canonical (JObj (dict_pop ''proof_hash'' d))))"
proof (cases "report_proof e = report_proof d")
  case False
  have "map_of e ''proof_hash'' = Some (JStr (report_proof d))" using k(2) by (simp add: e_def seal_report_def)
  then show ?thesis using False by (simp add: verify_resume_report_proof_def field_or_def)
next
  case True
  have we: "wf_json (JObj e)" unfolding e_def seal_report_def using wf v by (intro wf_dict_set) simp_all
  let ?f = "\<lambda>x. JObj (dict_pop ''proof_hash'' x)"
  have "sha256_json (?f e) = sha256_json (?f d)" using True by (simp add: report_proof_def dict_pop_def)
  from sha256_json_binds [OF wf_dict_pop [OF we] wf_dict_pop [OF wf] this]
  show ?thesis
  proof
    assume "sort_keys (?f e) = sort_keys (?f d)"
    then have "map_option sort_keys (map_of (dict_pop ''proof_hash'' e) k) = map_option sort_keys (map_of (dict_pop ''proof_hash'' d) k)"
      using map_of_sorted_obj [OF wf_dict_pop [OF we]] map_of_sorted_obj [OF wf_dict_pop [OF wf]] by (metis json.inject(6) sort_keys_JObj)
    then show ?thesis using k by (simp add: map_of_dict_pop e_def)
  qed blast
qed

lemma dict_pop_added: "map_of d k = None \<Longrightarrow> dict_pop k (dict_set k v d) = d"
  by (induction d) (auto simp: dict_pop_def filter_id_conv dest: map_of_SomeD split: if_splits)

lemma dict_pop_commute: "dict_pop j (dict_pop k d) = dict_pop k (dict_pop j d)"
  by (simp add: dict_pop_def conj_commute case_prod_beta)

lemma resume_report_keys [simp]: "map_of (resume_report ap ph post r ex bl wr rg) ''resume_report_path'' = None"
  by (simp add: resume_report_def)

lemma resume_report_wf:
  "wf_json ph \<Longrightarrow> list_all wf_json ex \<Longrightarrow> list_all wf_json bl \<Longrightarrow> list_all wf_json wr \<Longrightarrow>
   wf_json (JObj (resume_report ap ph (JStr post) r (quota_execution qh # ex) bl wr rg))"
  by (simp add: resume_report_def quota_execution_def dict_keys_ok_def)

text \<open>C36: The report that \<open>resume_imported_agent\<close> returns is not the report it wrote. The file, which lacks the report's own path,
  passes the proof check of the returning origin; the returned dictionary fails it with the check's own error, since the path added after
  sealing is outside the proof, unless the serialisations with and without the path are two inputs with one SHA-256 digest.\<close>

theorem returned_report_fails_proof:
  assumes "resume_imported_agent pkg w approve s = (Inr rep, s')"
  shows "(\<exists>r s1. import_session pkg w (JStr RUNTIME_ID) s = (Inr r, s1) \<and>
      read_json (path_sub (resume_dir (Path (ir_restored_workspace r))) ''resume-report.json'') s' =
        (Inr (sort_keys (JObj (dict_pop ''resume_report_path'' rep))), s')) \<and>
    verify_resume_report_proof (sort_keys (JObj (dict_pop ''resume_report_path'' rep))) = Inr () \<and>
    (verify_resume_report_proof (JObj rep) = Inl (ImportVerificationError ''target resume report proof hash mismatch'') \<or>
     sha_collision (utf8_encode (dumps_canonical (JObj (dict_pop ''proof_hash'' rep))))
       (utf8_encode (dumps_canonical (JObj (dict_pop ''resume_report_path'' (dict_pop ''proof_hash'' rep))))))"
proof (rule resume_parts [OF assms])
  fix r s1 m gp g0 ph g1 qh g2 ex bl wr s4 g4 s5 post rg rr u1 u2
  assume i: "import_session pkg w (JStr RUNTIME_ID) s = (Inr r, s1)"
    and g: "read_json (path_join pkg gp) s1 = (Inr (JObj g0), s1)" "map_of g0 ''graph_hash'' = Some ph" "run_quota_check g0 = Inr (g1, qh)"
    and p: "run_publish (Path (ir_restored_workspace r)) r ph approve g1 s1 = (Inr (g2, ex, bl, wr), s4)"
    and w2: "write_json (path_sub (resume_dir (Path (ir_restored_workspace r))) ''resume-report.json'')
      (JObj (seal_report (resume_report approve ph (JStr post) r (quota_execution qh # ex) bl wr rg))) s5 = (Inr u2, s')"
    and rep: "rep = dict_set ''resume_report_path'' (JStr rr)
      (seal_report (resume_report approve ph (JStr post) r (quota_execution qh # ex) bl wr rg))"
  let ?d = "resume_report approve ph (JStr post) r (quota_execution qh # ex) bl wr rg"
  have w0: "wf_json (JObj g0)" using read_json_wf [OF g(1)] .
  have "wf_json ph" using wf_field_or [OF w0, of JNull "''graph_hash''"] g(2) by (simp add: field_or_def)
  then have wf: "wf_json (JObj ?d)"
    using run_publish_wf [OF p run_quota_check_wf [OF g(3) w0]] by (intro resume_report_wf) simp_all
  have nk: "map_of (seal_report ?d) ''resume_report_path'' = None" by (simp add: seal_report_def)
  have pop: "dict_pop ''resume_report_path'' rep = seal_report ?d" unfolding rep by (rule dict_pop_added [OF nk])
  have ws: "wf_json (JObj (seal_report ?d))" unfolding seal_report_def using wf by (intro wf_dict_set) simp_all
  have disk: "read_json (path_sub (resume_dir (Path (ir_restored_workspace r))) ''resume-report.json'') s' =
      (Inr (sort_keys (JObj (seal_report ?d))), s')"
    using read_json_write_json [OF w2 ws] by simp
  have "verify_resume_report_proof (sort_keys (JObj (seal_report ?d))) = Inr ()"
    using sealed_report_verifies_from_disk [OF w2 wf] disk by auto
  moreover have "dict_pop ''proof_hash'' ?d = dict_pop ''resume_report_path'' (dict_pop ''proof_hash'' rep)"
    unfolding dict_pop_commute [of "''resume_report_path''"] pop by (simp add: seal_report_def)
  moreover have "verify_resume_report_proof (JObj rep) = Inl (ImportVerificationError ''target resume report proof hash mismatch'') \<or>
      sha_collision (utf8_encode (dumps_canonical (JObj (dict_pop ''proof_hash'' rep)))) (utf8_encode (dumps_canonical (JObj (dict_pop ''proof_hash'' ?d))))"
    using added_field_breaks_proof [OF wf resume_report_keys, of "JStr rr"] by (simp add: rep)
  ultimately show ?thesis using i disk unfolding pop by (metis (no_types))
qed

section \<open>Returning home accepts only descended work\<close>

definition home_workspace :: "pypath \<Rightarrow> pypath option \<Rightarrow> pypath" where
  "home_workspace pkg ws = (case ws of Some w \<Rightarrow> w | None \<Rightarrow> path_sub pkg ''roundtrip-origin-workspace'')"

text \<open>What the origin has checked, in the state after its own import, when it returns home: the target's report carries a valid
  proof, records continued activity from the hash of the exported manifest, and names the canonical
  hash of the returned graph; the returned graph's announcement node and, where the bytes are given,
  the file itself agree with the artifact hash in the report.\<close>

theorem return_home_sound:
  assumes "return_home_after_target_resume pkg tg tr ws ta s = (Inr rep, s')"
  shows "\<exists>s0 r s1 manifest g d ah e. mkdir_parents (home_workspace pkg ws) s = (Inr (), s0) \<and>
    import_session pkg (Some (path_sub (home_workspace pkg ws) ''origin-import'')) (JStr RUNTIME_ID) s0 = (Inr r, s1) \<and>
    read_json tg s1 = (Inr (JObj g), s1) \<and> read_json tr s1 = (Inr (JObj d), s1) \<and>
    read_json (path_sub pkg ''manifest.json'') s1 = (Inr manifest, s1) \<and>
    verify_resume_report_proof (JObj d) = Inr () \<and>
    map_of d ''status'' = Some (JStr ''continued'') \<and> map_of d ''activity_continued'' = Some (JBool True) \<and>
    (\<exists>mh. py_item manifest ''graph_hash'' = Inr mh \<and> py_eq (field_or d ''pre_resume_graph_hash'' JNull) mh) \<and>
    (\<exists>ch. canonical_graph_hash (JObj g) = Inr ch \<and> map_of g ''graph_hash'' = Some (JStr ch) \<and>
       map_of d ''post_resume_graph_hash'' = Some (JStr ch)) \<and>
    (\<exists>rest. map_of d ''written_artifacts'' = Some (JList (JObj e # rest))) \<and> map_of e ''sha256'' = Some (JStr ah) \<and>
    (\<exists>i n. node_by_id g ''artifact:publish-announcement:post-import'' = Inr (i, JObj n) \<and>
       map_of n ''sha256'' = Some (JStr (removeprefix ''sha256:'' ah))) \<and>
    (\<forall>p. ta = Some p \<longrightarrow> (\<exists>b. files s1 p = Some b \<and> ah = sha256_bytes b))"
proof -
  from assms obtain s0 r s1 manifest s2 graph s3 report s4 g0 art ah s5 u u1 u2 where
    im: "mkdir_parents (home_workspace pkg ws) s = (Inr (), s0)"
      "import_session pkg (Some (path_sub (home_workspace pkg ws) ''origin-import'')) (JStr RUNTIME_ID) s0 = (Inr r, s1)"
    and rd: "read_json (path_sub pkg ''manifest.json'') s1 = (Inr manifest, s2)" "read_json tg s2 = (Inr graph, s3)"
      "read_json tr s3 = (Inr report, s4)"
    and v: "verify_resume_report_proof report = Inr u" "check_target_lineage manifest graph report = Inr u1"
      "as_obj graph = Inr g0" "check_target_artifact g0 report = Inr (art, ah)"
    and b: "check_target_bytes ta art ah s4 = (Inr u2, s5)"
    unfolding return_home_after_target_resume_def Let_def home_workspace_def [symmetric]
    by (clarsimp simp: bindIO_eq_Inr split: prod.splits)
  have st: "s2 = s1" "s3 = s1" "s4 = s1" using rd read_json_state by blast+
  have g: "graph = JObj g0" using v(3) by (auto simp: as_obj_def split: json.splits)
  obtain d where d: "report = JObj d" using v(1) by (auto simp: verify_resume_report_proof_def split: json.splits)
  have l: "map_of d ''status'' = Some (JStr ''continued'') \<and> map_of d ''activity_continued'' = Some (JBool True) \<and>
    (\<exists>mh. py_item manifest ''graph_hash'' = Inr mh \<and> py_eq (field_or d ''pre_resume_graph_hash'' JNull) mh) \<and>
    (\<exists>ch. canonical_graph_hash (JObj g0) = Inr ch \<and> map_of g0 ''graph_hash'' = Some (JStr ch) \<and>
       map_of d ''post_resume_graph_hash'' = Some (JStr ch))"
    using v(2) unfolding check_target_lineage_def g d py_get_or_field bindR_simps bindR_eq_Inr if_raise_eq_Inr
    by (auto simp: field_or_JStr field_or_JBool py_item_eq_Inr simp del: py_item_JObj)
  note va = v(4) [unfolded check_target_artifact_def d py_get_or_field bindR_simps]
  obtain x rest where x: "field_or d ''written_artifacts'' JNull = JList (x # rest)"
    using va by (auto split: json.splits list.splits)
  obtain e where e: "x = JObj e" using va x by (auto simp: bindR_eq_Inr py_get_or_eq_Inr)
  obtain h where h: "field_or e ''sha256'' JNull = JStr h"
    using va unfolding x e json.case list.case py_get_or_field bindR_simps by (auto split: json.splits)
  have "bindR (node_by_id g0 ''artifact:publish-announcement:post-import'') (\<lambda>(i, node).
      bindR (py_get node ''sha256'') (\<lambda>nh.
        if \<not> py_eq nh (JStr (removeprefix ''sha256:'' h))
        then Inl (ImportVerificationError ''target graph artifact node does not match target report'')
        else Inr (x, h))) = Inr (art, ah)"
    using va unfolding x e json.case list.case py_get_or_field bindR_simps h by (simp split: if_splits)
  then obtain i node where n0: "node_by_id g0 ''artifact:publish-announcement:post-import'' = Inr (i, node)"
    and n1: "bindR (py_get node ''sha256'') (\<lambda>nh.
        if \<not> py_eq nh (JStr (removeprefix ''sha256:'' h))
        then Inl (ImportVerificationError ''target graph artifact node does not match target report'')
        else Inr (x, h)) = Inr (art, ah)"
    by (cases "node_by_id g0 ''artifact:publish-announcement:post-import''") (simp_all split: prod.splits)
  obtain n where "node = JObj n" using n1 unfolding bindR_eq_Inr py_get_or_eq_Inr by blast
  note n1 = n1 [unfolded this py_get_or_field bindR_simps if_raise_eq_Inr not_not py_eq_JStr]
  have n: "node_by_id g0 ''artifact:publish-announcement:post-import'' = Inr (i, JObj n)" "art = x" "ah = h"
    "field_or n ''sha256'' JNull = JStr (removeprefix ''sha256:'' h)"
    using n0 n1 \<open>node = JObj n\<close> by simp_all
  have a: "art = JObj e" "map_of d ''written_artifacts'' = Some (JList (art # rest))"
    "map_of e ''sha256'' = Some (JStr ah)" "node_by_id g0 ''artifact:publish-announcement:post-import'' = Inr (i, JObj n)"
    "map_of n ''sha256'' = Some (JStr (removeprefix ''sha256:'' ah))"
    using x e h n by (auto simp: field_or_def split: option.splits)
  have "\<exists>b. files s1 p = Some b \<and> ah = sha256_bytes b" if "ta = Some p" for p
    using b that st unfolding check_target_bytes_def
    by (auto simp: bindIO_eq_Inr file_sha_Inr split: if_splits prod.splits)
  then show ?thesis using im rd v(1) l a unfolding st g d
    by (intro exI [of _ s0] exI [of _ r] exI [of _ s1] exI [of _ manifest] exI [of _ g0] exI [of _ d] exI [of _ ah] exI [of _ e])
      (simp del: canonical_graph_hash_JObj)
qed

end
