(* ===== verification/FrameworkAdapters.thy ===== *)
theory FrameworkAdapters
  imports GraphCore
begin

text \<open>
  The framework conformance adapters
  (\<^verbatim>\<open>examples/agent-memory-graph/framework_adapters.py\<close>): the adapter table, the two
  reference graphs, the capability manifest and compatibility matrix, conformance validation, and
  the export and import of adapter packages. The module repeats the hashing and JSON helpers of
  \<^verbatim>\<open>local_agent.py\<close>; the definitions of \<open>GraphCore\<close> are used for both.
\<close>

section \<open>Adapters\<close>

definition FA_GRAPH_VERSION :: string where "FA_GRAPH_VERSION = ''0.1''"
definition FA_CREATED_AT :: string where "FA_CREATED_AT = ''2026-06-20T00:00:00Z''"
definition SCHEMA_ID :: string where
  "SCHEMA_ID = ''https://www.permeantos.org/schemas/agent-memory-graph-v0.schema.json''"

record adapter_definition =
  adapter_id :: string
  runtime :: string
  runtime_family :: string
  model :: string
  description :: string
  export_modes :: "string list"
  import_modes :: "string list"
  graph_features :: "string list"
  limitations :: "string list"

definition langgraph_durable_state_adapter :: adapter_definition where
  "langgraph_durable_state_adapter = \<lparr>
     adapter_id = ''langgraph_durable_state'', runtime = ''langgraph-style-durable-state'', runtime_family =
     ''durable_state_graph'', model = ''framework-managed'', description =
     ''Maps thread state, checkpoints, tasks, and long-term stores to Agent Memory Graph v0.'', export_modes =
     [''snapshot'', ''checkpoint''], import_modes = [''resume_from_checkpoint'', ''rebind_store''], graph_features =
     [''messages'', ''tasks'', ''checkpoints'', ''semantic_memories'', ''retrievals'', ''trace_spans''], limitations
     = [''Dependency-free conformance mapping; it does not call LangGraph APIs.'',
     ''External stores are represented by stable references and must be rebound by a live adapter.'']\<rparr>"

definition mcp_resource_session_adapter :: adapter_definition where
  "mcp_resource_session_adapter = \<lparr>
     adapter_id = ''mcp_resource_session'', runtime = ''mcp-backed-tool-session'', runtime_family =
     ''tool_resource_session'', model = ''framework-managed'', description =
     ''Maps MCP-style tool calls, tool results, resource links, and capability references to Agent Memory Graph v0.'',
     export_modes = [''snapshot'', ''capability_rebind''], import_modes = [''resume_read_only_tools'',
     ''rebind_capabilities''], graph_features = [''messages'', ''tool_calls'', ''tool_results'', ''credential_refs'',
     ''artifacts'', ''trace_spans''], limitations =
     [''Dependency-free conformance mapping; it does not connect to an MCP transport.'',
     ''Capabilities are represented as rebindable references and never include secret values.'']\<rparr>"

definition ADAPTERS :: "(string \<times> adapter_definition) list" where
  "ADAPTERS = [(''langgraph_durable_state'', langgraph_durable_state_adapter),
     (''mcp_resource_session'', mcp_resource_session_adapter)]"

definition fa_provenance :: "adapter_definition \<Rightarrow> json" where
  "fa_provenance adapter = JObj
     [(''runtime'', JStr (runtime adapter)), (''captured_at'', JStr FA_CREATED_AT),
      (''adapter'', JStr (''framework_adapters.py:'' @ adapter_id adapter))]"

definition fa_base_node :: "adapter_definition \<Rightarrow> string \<Rightarrow> string \<Rightarrow> obj \<Rightarrow> json" where
  "fa_base_node adapter node_id node_type payload =
     JObj (dict_update
       [(''id'', JStr node_id), (''type'', JStr node_type), (''created_at'', JStr FA_CREATED_AT),
        (''content_hash'', JStr (sha256_json (JObj payload))), (''provenance'', fa_provenance adapter)]
       payload)"

definition strs :: "string list \<Rightarrow> json" where
  "strs ss = JList (map JStr ss)"

definition capability_entry :: "adapter_definition \<Rightarrow> json" where
  "capability_entry adapter = JObj
     [(''adapter_id'', JStr (adapter_id adapter)), (''runtime'', JStr (runtime adapter)),
      (''runtime_family'', JStr (runtime_family adapter)), (''description'', JStr (description adapter)),
      (''export_modes'', strs (export_modes adapter)), (''import_modes'', strs (import_modes adapter)),
      (''graph_features'', strs (graph_features adapter)), (''limitations'', strs (limitations adapter))]"

definition adapter_capability_manifest :: json where
  "adapter_capability_manifest = JObj
     [(''manifest_version'', JStr ''adapter-capabilities-v0''), (''schema'', JStr SCHEMA_ID),
      (''created_at'', JStr FA_CREATED_AT), (''adapters'', JList (map (capability_entry \<circ> snd) ADAPTERS))]"

definition all_features :: "string list" where
  "all_features = sort (remdups (concat (map (graph_features \<circ> snd) ADAPTERS)))"

definition compatibility_matrix :: "json list" where
  "compatibility_matrix =
     map (\<lambda>(_, adapter). JObj
       [(''adapter_id'', JStr (adapter_id adapter)), (''runtime'', JStr (runtime adapter)),
        (''runtime_family'', JStr (runtime_family adapter)),
        (''features'', JObj (map (\<lambda>f. (f, JBool (f \<in> set (graph_features adapter)))) all_features)),
        (''export_modes'', strs (export_modes adapter)), (''import_modes'', strs (import_modes adapter))]) ADAPTERS"

section \<open>The reference graphs\<close>

definition lg_participants :: "adapter_definition \<Rightarrow> json list" where
  "lg_participants adapter =
     [JObj [(''id'', JStr ''agent:langgraph-reference''), (''kind'', JStr ''agent''),
     (''name'', JStr ''LangGraph style agent''), (''model'', JStr (model adapter))], JObj [(''id'',
     JStr ''user:operator''), (''kind'', JStr ''user''), (''name'', JStr ''Operator'')], JObj [(''id'',
     JStr ''runtime:langgraph-store''), (''kind'', JStr ''runtime''), (''provider'', JStr ''durable-state-graph'')]]"

definition lg_event_start_node :: "adapter_definition \<Rightarrow> json" where
  "lg_event_start_node adapter = fa_base_node adapter ''event:langgraph-start'' ''event''
     [(''actor_id'', JStr ''runtime:langgraph-store''), (''event_kind'', JStr ''runtime''),
     (''memory_scope'', JStr ''thread''), (''memory_tier'', JStr ''active_context''),
     (''sensitivity'', JStr ''internal''), (''retention'', JStr ''session''), (''redaction_state'', JStr ''none''),
     (''extensions'', JObj [(''org.permeantos.adapter.thread_id'', JStr ''thread:lg-reference'')])]"

definition lg_user_turn_node :: "adapter_definition \<Rightarrow> json" where
  "lg_user_turn_node adapter = fa_base_node adapter ''turn:user:langgraph-1'' ''message''
     [(''actor_id'', JStr ''user:operator''), (''role'', JStr ''user''),
     (''content'', JStr ''Continue the migration checklist from durable state.''),
     (''memory_scope'', JStr ''thread''), (''memory_tier'', JStr ''active_context''),
     (''sensitivity'', JStr ''internal''), (''retention'', JStr ''session''), (''redaction_state'', JStr ''none'')]"

definition lg_assistant_turn_node :: "adapter_definition \<Rightarrow> json" where
  "lg_assistant_turn_node adapter = fa_base_node adapter ''turn:assistant:langgraph-1'' ''message''
     [(''actor_id'', JStr ''agent:langgraph-reference''), (''role'', JStr ''assistant''),
     (''content'', JStr ''I will resume from the checkpoint and preserve the open task.''),
     (''memory_scope'', JStr ''thread''), (''memory_tier'', JStr ''active_context''),
     (''sensitivity'', JStr ''internal''), (''retention'', JStr ''session''), (''redaction_state'', JStr ''none'')]"

definition lg_task_open_checklist_node :: "adapter_definition \<Rightarrow> json" where
  "lg_task_open_checklist_node adapter = fa_base_node adapter ''task:langgraph-open-checklist'' ''task''
     [(''actor_id'', JStr ''agent:langgraph-reference''), (''memory_scope'', JStr ''thread''),
     (''memory_tier'', JStr ''working''), (''sensitivity'', JStr ''internal''), (''retention'', JStr ''durable''),
     (''redaction_state'', JStr ''none''), (''status'', JStr ''in_progress''),
     (''resume_policy'', JStr ''retry_safe''), (''items'', JList [JObj [(''text'', JStr ''Validate imported graph''),
     (''status'', JStr ''completed'')], JObj [(''text'', JStr ''Resume pending framework node''),
     (''status'', JStr ''in_progress'')]])]"

definition lg_memory_user_preference_node :: "adapter_definition \<Rightarrow> json" where
  "lg_memory_user_preference_node adapter = fa_base_node adapter ''memory:langgraph-user-preference'' ''memory''
     [(''actor_id'', JStr ''agent:langgraph-reference''), (''memory_scope'', JStr ''user''),
     (''memory_tier'', JStr ''recall''), (''sensitivity'', JStr ''internal''), (''retention'', JStr ''durable''),
     (''redaction_state'', JStr ''none''), (''memory_kind'', JStr ''semantic''),
     (''quality_state'', JStr ''verified''), (''historical_state'', JStr ''current''),
     (''trust_level'', JStr ''derived''), (''subject'', JStr ''user''), (''predicate'', JStr ''prefers''),
     (''object'', JStr ''explicit validation before merge''),
     (''namespace'', JList [JStr ''memories'', JStr ''user'']), (''key'', JStr ''merge-validation-preference''),
     (''text_hash'', JStr (sha256_bytes ''user prefers explicit validation before merge'')),
     (''embedding_model'', JStr ''adapter-managed''), (''embedding_dim'', JInt 1),
     (''embedding_hash'', JStr (sha256_json (JList [flit 1]))), (''distance_metric'', JStr ''unknown''),
     (''vector_store_ref'', JStr ''store:langgraph:long-term-memory'')]"

definition lg_retrieval_memory_node :: "adapter_definition \<Rightarrow> json" where
  "lg_retrieval_memory_node adapter = fa_base_node adapter ''retrieval:langgraph-memory'' ''retrieval''
     [(''actor_id'', JStr ''agent:langgraph-reference''), (''memory_scope'', JStr ''thread''),
     (''memory_tier'', JStr ''recall''), (''sensitivity'', JStr ''internal''), (''retention'', JStr ''session''),
     (''redaction_state'', JStr ''none''), (''query_hash'', JStr (sha256_bytes ''merge validation preference'')),
     (''retrieval_kind'', JStr ''hybrid''), (''planner_profile'', JStr ''adapter_defined''),
     (''policy_profile'', JStr ''assistant''), (''scorer_kind'', JStr ''adapter_defined''),
     (''selected_channels'', JList [JStr ''semantic'', JStr ''metadata'']),
     (''candidate_sources'', JList [JStr ''semantic_neighbor'', JStr ''adapter_defined'']),
     (''planner_stages'', JList [JStr ''load_thread_checkpoint'', JStr ''query_long_term_store'']),
     (''graph_expansion_max_hops'', JInt 1), (''historical_mode'', JStr ''current_only''),
     (''results'', JList [JObj [(''node_id'', JStr ''memory:langgraph-user-preference''), (''rank'', JInt 1),
     (''score'', flit 1), (''score_kind'', JStr ''adapter_defined''),
     (''score_breakdown'', JList [JObj [(''name'', JStr ''semantic''), (''value'', flit 1), (''weight'', flit 1)]]),
     (''candidate_source'', JStr ''semantic_neighbor'')]]),
     (''selection_policy'', JStr ''framework_store_top_result'')]"

definition lg_checkpoint_thread_node :: "adapter_definition \<Rightarrow> json" where
  "lg_checkpoint_thread_node adapter = fa_base_node adapter ''checkpoint:langgraph-thread'' ''checkpoint''
     [(''actor_id'', JStr ''runtime:langgraph-store''), (''memory_scope'', JStr ''thread''),
     (''memory_tier'', JStr ''external''), (''sensitivity'', JStr ''internal''), (''retention'', JStr ''durable''),
     (''redaction_state'', JStr ''none''), (''checkpoint_kind'', JStr ''workflow''),
     (''state_hash'', JStr (sha256_bytes ''langgraph-thread-state-v0'')),
     (''resume_ref'', JStr ''checkpoint:langgraph:thread:lg-reference'')]"

definition lg_trace_node_node :: "adapter_definition \<Rightarrow> json" where
  "lg_trace_node_node adapter = fa_base_node adapter ''trace:langgraph-node'' ''trace_span''
     [(''actor_id'', JStr ''runtime:langgraph-store''), (''memory_scope'', JStr ''thread''),
     (''memory_tier'', JStr ''working''), (''sensitivity'', JStr ''internal''), (''retention'', JStr ''session''),
     (''redaction_state'', JStr ''none''), (''trace_id'', JStr ''trace-langgraph-reference''),
     (''span_id'', JStr ''span-node-resume''), (''span_kind'', JStr ''orchestration''),
     (''started_at'', JStr FA_CREATED_AT), (''ended_at'', JStr FA_CREATED_AT)]"

definition lg_edges :: "json list" where
  "lg_edges =
     [JObj [(''from'', JStr ''event:langgraph-start''), (''to'', JStr ''turn:user:langgraph-1''),
     (''type'', JStr ''caused'')], JObj [(''from'', JStr ''turn:user:langgraph-1''),
     (''to'', JStr ''turn:assistant:langgraph-1''), (''type'', JStr ''caused'')], JObj [(''from'',
     JStr ''turn:assistant:langgraph-1''), (''to'', JStr ''task:langgraph-open-checklist''),
     (''type'', JStr ''produced'')], JObj [(''from'', JStr ''retrieval:langgraph-memory''),
     (''to'', JStr ''memory:langgraph-user-preference''), (''type'', JStr ''retrieved'')], JObj [(''from'',
     JStr ''checkpoint:langgraph-thread''), (''to'', JStr ''task:langgraph-open-checklist''),
     (''type'', JStr ''checkpointed'')], JObj [(''from'', JStr ''trace:langgraph-node''),
     (''to'', JStr ''checkpoint:langgraph-thread''), (''type'', JStr ''references'')]]"

definition mcp_participants :: "adapter_definition \<Rightarrow> json list" where
  "mcp_participants adapter =
     [JObj [(''id'', JStr ''agent:mcp-reference''), (''kind'', JStr ''agent''), (''name'', JStr ''MCP style agent''),
     (''model'', JStr (model adapter))], JObj [(''id'', JStr ''user:operator''), (''kind'', JStr ''user''),
     (''name'', JStr ''Operator'')], JObj [(''id'', JStr ''tool:mcp-files''), (''kind'', JStr ''tool''),
     (''provider'', JStr ''mcp.filesystem'')], JObj [(''id'', JStr ''runtime:mcp-session''),
     (''kind'', JStr ''runtime''), (''provider'', JStr ''mcp'')]]"

definition mcp_user_turn_node :: "adapter_definition \<Rightarrow> json" where
  "mcp_user_turn_node adapter = fa_base_node adapter ''turn:user:mcp-1'' ''message''
     [(''actor_id'', JStr ''user:operator''), (''role'', JStr ''user''),
     (''content'', JStr ''List the project manifest through the MCP resource server.''),
     (''memory_scope'', JStr ''thread''), (''memory_tier'', JStr ''active_context''),
     (''sensitivity'', JStr ''internal''), (''retention'', JStr ''session''), (''redaction_state'', JStr ''none'')]"

definition mcp_tool_call_list_node :: "adapter_definition \<Rightarrow> json" where
  "mcp_tool_call_list_node adapter = fa_base_node adapter ''tool:call:mcp-list'' ''tool_call''
     [(''actor_id'', JStr ''agent:mcp-reference''), (''memory_scope'', JStr ''thread''),
     (''memory_tier'', JStr ''working''), (''sensitivity'', JStr ''internal''), (''retention'', JStr ''session''),
     (''redaction_state'', JStr ''none''), (''name'', JStr ''resources/read''),
     (''provider'', JStr ''mcp.filesystem''), (''call_id'', JStr ''call:mcp:list-project-manifest''),
     (''arguments_hash'', JStr (sha256_json (JObj [(''uri'', JStr ''file://workspace/Cargo.toml'')]))),
     (''input_schema_hash'', JStr (sha256_json (JObj [(''uri'', JStr ''string'')]))),
     (''side_effect'', JStr ''read_only''), (''status'', JStr ''completed''),
     (''resume_policy'', JStr ''never_retry''), (''approval_state'', JStr ''not_required'')]"

definition mcp_tool_result_list_node :: "adapter_definition \<Rightarrow> json" where
  "mcp_tool_result_list_node adapter = fa_base_node adapter ''tool:result:mcp-list'' ''tool_result''
     [(''actor_id'', JStr ''tool:mcp-files''), (''memory_scope'', JStr ''thread''),
     (''memory_tier'', JStr ''working''), (''sensitivity'', JStr ''internal''), (''retention'', JStr ''session''),
     (''redaction_state'', JStr ''none''), (''status'', JStr ''completed''), (''result_hash'', JStr (sha256_bytes
     ''workspace Cargo manifest resource metadata'')), (''output_schema_hash'', JStr (sha256_json
     (JObj [(''contents'', JStr ''array'')]))), (''is_error'', JBool False),
     (''resource_refs'', JList [JStr ''file://workspace/Cargo.toml''])]"

definition mcp_artifact_cargo_manifest_node :: "adapter_definition \<Rightarrow> json" where
  "mcp_artifact_cargo_manifest_node adapter = fa_base_node adapter ''artifact:mcp-cargo-manifest'' ''artifact''
     [(''actor_id'', JStr ''tool:mcp-files''), (''memory_scope'', JStr ''thread''),
     (''memory_tier'', JStr ''external''), (''sensitivity'', JStr ''internal''), (''retention'', JStr ''session''),
     (''redaction_state'', JStr ''external_only''), (''artifact_kind'', JStr ''external''),
     (''path'', JStr ''Cargo.toml''), (''uri'', JStr ''file://workspace/Cargo.toml''),
     (''content_ref'', JStr ''mcp-resource:file://workspace/Cargo.toml''), (''root_ref'', JStr ''workspace''),
     (''restore_policy'', JStr ''external_rebind'')]"

definition mcp_credential_filesystem_node :: "adapter_definition \<Rightarrow> json" where
  "mcp_credential_filesystem_node adapter = fa_base_node adapter ''credential:mcp-filesystem'' ''credential_ref''
     [(''actor_id'', JStr ''runtime:mcp-session''), (''memory_scope'', JStr ''external''),
     (''memory_tier'', JStr ''external''), (''sensitivity'', JStr ''secret''),
     (''retention'', JStr ''delete_on_import''), (''redaction_state'', JStr ''external_only''),
     (''capability'', JStr ''mcp.filesystem.read''),
     (''binding'', JStr ''target must authorize workspace filesystem read resource''), (''required'', JBool True)]"

definition mcp_checkpoint_session_node :: "adapter_definition \<Rightarrow> json" where
  "mcp_checkpoint_session_node adapter = fa_base_node adapter ''checkpoint:mcp-session'' ''checkpoint''
     [(''actor_id'', JStr ''runtime:mcp-session''), (''memory_scope'', JStr ''thread''),
     (''memory_tier'', JStr ''external''), (''sensitivity'', JStr ''internal''), (''retention'', JStr ''session''),
     (''redaction_state'', JStr ''external_only''), (''checkpoint_kind'', JStr ''session''),
     (''state_hash'', JStr (sha256_bytes ''mcp-session-resource-state-v0'')),
     (''resume_ref'', JStr ''mcp-session:reference'')]"

definition mcp_trace_tool_call_node :: "adapter_definition \<Rightarrow> json" where
  "mcp_trace_tool_call_node adapter = fa_base_node adapter ''trace:mcp-tool-call'' ''trace_span''
     [(''actor_id'', JStr ''runtime:mcp-session''), (''memory_scope'', JStr ''thread''),
     (''memory_tier'', JStr ''working''), (''sensitivity'', JStr ''internal''), (''retention'', JStr ''session''),
     (''redaction_state'', JStr ''none''), (''trace_id'', JStr ''trace-mcp-reference''),
     (''span_id'', JStr ''span-tool-call''), (''span_kind'', JStr ''tool''), (''started_at'', JStr FA_CREATED_AT),
     (''ended_at'', JStr FA_CREATED_AT)]"

definition mcp_edges :: "json list" where
  "mcp_edges =
     [JObj [(''from'', JStr ''turn:user:mcp-1''), (''to'', JStr ''tool:call:mcp-list''),
     (''type'', JStr ''caused'')], JObj [(''from'', JStr ''tool:call:mcp-list''),
     (''to'', JStr ''tool:result:mcp-list''), (''type'', JStr ''produced'')], JObj [(''from'',
     JStr ''tool:result:mcp-list''), (''to'', JStr ''artifact:mcp-cargo-manifest''), (''type'', JStr ''produced'')],
     JObj [(''from'', JStr ''credential:mcp-filesystem''), (''to'', JStr ''tool:call:mcp-list''),
     (''type'', JStr ''approves'')], JObj [(''from'', JStr ''checkpoint:mcp-session''),
     (''to'', JStr ''tool:call:mcp-list''), (''type'', JStr ''checkpointed'')], JObj [(''from'',
     JStr ''trace:mcp-tool-call''), (''to'', JStr ''tool:call:mcp-list''), (''type'', JStr ''references'')]]"

definition build_graph_envelope ::
    "adapter_definition \<Rightarrow> string \<Rightarrow> string \<Rightarrow> json list \<Rightarrow> json list \<Rightarrow> json list \<Rightarrow> obj" where
  "build_graph_envelope adapter graph_id agent_id participants nodes edges = hash_graph
     [(''graph_id'', JStr graph_id), (''graph_version'', JStr FA_GRAPH_VERSION),
     (''created_at'', JStr FA_CREATED_AT), (''agent'', JObj [(''id'', JStr agent_id), (''runtime'', JStr (runtime
     adapter)), (''model'', JStr (model adapter)),
     (''extensions'', JObj [(''org.permeantos.adapter.id'', JStr (adapter_id adapter))])]),
     (''participants'', JList participants), (''policies'', JObj [(''redaction_policy'', JStr ''required''),
     (''retention_policy'', JStr ''durable''), (''required_approval_for_side_effects'', JBool True),
     (''default_replay_policy'', JStr ''ask_user''),
     (''extensions'', JObj [(''org.permeantos.adapter.credential_policy'', JStr ''rebind_on_import''),
     (''org.permeantos.adapter.artifact_policy'', JStr ''rebind_external_artifacts'')])]), (''nodes'', JList nodes),
     (''edges'', JList edges), (''kv_spans'', JList []),
     (''extensions'', JObj [(''org.permeantos.adapter.id'', JStr (adapter_id adapter)),
     (''org.permeantos.adapter.runtime_family'', JStr (runtime_family adapter))])]"

definition lg_nodes :: "adapter_definition \<Rightarrow> json list" where
  "lg_nodes adapter = [lg_event_start_node adapter, lg_user_turn_node adapter, lg_assistant_turn_node adapter, lg_task_open_checklist_node adapter, lg_memory_user_preference_node adapter, lg_retrieval_memory_node adapter, lg_checkpoint_thread_node adapter, lg_trace_node_node adapter]"

definition mcp_nodes :: "adapter_definition \<Rightarrow> json list" where
  "mcp_nodes adapter = [mcp_user_turn_node adapter, mcp_tool_call_list_node adapter, mcp_tool_result_list_node adapter, mcp_artifact_cargo_manifest_node adapter, mcp_credential_filesystem_node adapter, mcp_checkpoint_session_node adapter, mcp_trace_tool_call_node adapter]"

definition build_langgraph_style_graph :: "adapter_definition \<Rightarrow> obj" where
  "build_langgraph_style_graph adapter =
     build_graph_envelope adapter ''graph:langgraph-reference:0001'' ''agent:langgraph-reference''
       (lg_participants adapter) (lg_nodes adapter) lg_edges"

definition build_mcp_resource_session_graph :: "adapter_definition \<Rightarrow> obj" where
  "build_mcp_resource_session_graph adapter =
     build_graph_envelope adapter ''graph:mcp-resource-session:0001'' ''agent:mcp-reference''
       (mcp_participants adapter) (mcp_nodes adapter) mcp_edges"

definition fa_build_graph :: "string \<Rightarrow> obj res" where
  "fa_build_graph aid =
     (case map_of ADAPTERS aid of
        None \<Rightarrow> Inl (AdapterConformanceError (''unknown adapter: '' @ aid))
      | Some adapter \<Rightarrow>
          if aid = ''langgraph_durable_state'' then Inr (build_langgraph_style_graph adapter)
          else if aid = ''mcp_resource_session'' then Inr (build_mcp_resource_session_graph adapter)
          else Inl (AdapterConformanceError (''adapter has no graph builder: '' @ aid)))"

section \<open>Conformance\<close>

text \<open>\<open>{x["id"] for x in graph.get(k, [])}\<close>.\<close>

definition id_set :: "json \<Rightarrow> string \<Rightarrow> json list res" where
  "id_set graph k =
     bindR (py_get_or graph k (JList [])) (\<lambda>xs.
     bindR (py_iter xs) (mapR (\<lambda>x.
       bindR (py_item x ''id'') (\<lambda>i. if hashable i then Inr i else Inl (unhashable i)))))"

definition check_actor :: "json list \<Rightarrow> json \<Rightarrow> unit res" where
  "check_actor participant_ids node =
     bindR (py_get node ''actor_id'') (\<lambda>actor.
     if \<not> truthy actor then Inr ()
     else
       bindR (py_in_set actor participant_ids) (\<lambda>known.
       if known then Inr ()
       else
         bindR (py_item node ''id'') (\<lambda>i.
           Inl (AdapterConformanceError (''node '' @ py_str i @ '' references unknown actor '' @ py_str actor)))))"

definition check_edge :: "json list \<Rightarrow> json \<Rightarrow> unit res" where
  "check_edge node_ids e =
     bindR (py_item e ''from'') (\<lambda>src.
     bindR (py_in_set src node_ids) (\<lambda>known_src.
     bindR (if known_src then bindR (py_item e ''to'') (\<lambda>dst. py_in_set dst node_ids) else Inr False) (\<lambda>ok.
     if ok then Inr ()
     else
       bindR (py_item e ''to'') (\<lambda>dst.
         Inl (AdapterConformanceError (''edge references unknown node: '' @ py_str src @ '' -> '' @ py_str dst))))))"

text \<open>\<open>{entry["adapter_id"]: entry for ...}.get(adapter_id)\<close>: the last entry of an equal key.\<close>

definition adapter_lookup :: "json \<Rightarrow> json \<Rightarrow> json option res" where
  "adapter_lookup manifest aid =
     bindR (py_get_or manifest ''adapters'' (JList [])) (\<lambda>es.
     bindR (py_iter es) (\<lambda>entries.
     bindR (mapR (\<lambda>e. bindR (py_item e ''adapter_id'') (\<lambda>k.
              if hashable k then Inr (k, e) else Inl (unhashable k))) entries) (\<lambda>d.
     if hashable aid then Inr (map_option snd (find (\<lambda>(k, _). py_eq k aid) (rev d)))
     else Inl (unhashable aid))))"

definition check_references :: "json \<Rightarrow> unit res" where
  "check_references graph =
     bindR (id_set graph ''nodes'') (\<lambda>node_ids.
     bindR (id_set graph ''participants'') (\<lambda>participant_ids.
     bindR (py_get_or graph ''agent'' (JObj [])) (\<lambda>agent.
     bindR (py_get agent ''id'') (\<lambda>agent_id.
     bindR (py_in_set agent_id participant_ids) (\<lambda>known.
     if \<not> known then Inl (AdapterConformanceError ''agent participant is missing'')
     else
       bindR (py_get_or graph ''nodes'' (JList [])) (\<lambda>ns.
       bindR (py_iter ns) (\<lambda>nodes.
       bindR (iterR (check_actor participant_ids) nodes) (\<lambda>_.
       bindR (py_get_or graph ''edges'' (JList [])) (\<lambda>es.
       bindR (py_iter es) (iterR (check_edge node_ids)))))))))))"

definition validate_graph_conformance :: "json \<Rightarrow> json \<Rightarrow> unit res" where
  "validate_graph_conformance graph adapter_manifest =
     bindR (py_get graph ''graph_hash'') (\<lambda>gh.
     bindR (canonical_graph_hash graph) (\<lambda>ch.
     if \<not> py_eq gh (JStr ch) then Inl (AdapterConformanceError ''graph hash mismatch'')
     else
       bindR (py_get_or graph ''extensions'' (JObj [])) (\<lambda>ext.
       bindR (py_get ext ''org.permeantos.adapter.id'') (\<lambda>aid.
       bindR (adapter_lookup adapter_manifest aid) (\<lambda>entry.
       case entry of
         None \<Rightarrow> Inl (AdapterConformanceError (''adapter manifest is missing adapter: '' @ py_str aid))
       | Some e \<Rightarrow>
           bindR (py_get_or graph ''agent'' (JObj [])) (\<lambda>agent.
           bindR (py_get agent ''runtime'') (\<lambda>rt.
           bindR (py_get e ''runtime'') (\<lambda>ert.
           if \<not> py_eq rt ert then Inl (AdapterConformanceError ''graph runtime does not match adapter manifest'')
           else check_references graph))))))))"

section \<open>Packages\<close>

definition export_adapter_package :: "string \<Rightarrow> pypath \<Rightarrow> (obj \<times> json) io" where
  "export_adapter_package aid package_dir =
     bindIO (liftR (fa_build_graph aid)) (\<lambda>graph.
     bindIO (write_json (path_sub package_dir ''graph.json'') (JObj graph)) (\<lambda>_.
     bindIO (write_json (path_sub package_dir ''adapter-manifest.json'') adapter_capability_manifest) (\<lambda>_.
       returnIO (graph, adapter_capability_manifest))))"

definition export_all_conformance_packages :: "pypath \<Rightarrow> (string \<times> obj \<times> json) list io" where
  "export_all_conformance_packages root_dir =
     mapIO (\<lambda>(aid, _). bindIO (export_adapter_package aid (path_sub root_dir aid)) (\<lambda>r. returnIO (aid, r))) ADAPTERS"

definition import_adapter_package :: "pypath \<Rightarrow> json io" where
  "import_adapter_package package_dir =
     bindIO (read_json (path_sub package_dir ''graph.json'')) (\<lambda>graph.
     bindIO (read_json (path_sub package_dir ''adapter-manifest.json'')) (\<lambda>manifest.
     bindIO (liftR (validate_graph_conformance graph manifest)) (\<lambda>_.
     bindIO (liftR (bindR (py_item graph ''extensions'') (\<lambda>e. py_item e ''org.permeantos.adapter.id''))) (\<lambda>aid.
     bindIO (liftR (bindR (py_item graph ''agent'') (\<lambda>a. py_item a ''runtime''))) (\<lambda>rt.
     bindIO (liftR (py_item graph ''graph_hash'')) (\<lambda>gh.
     bindIO (liftR (bindR (py_item graph ''nodes'') py_len)) (\<lambda>nc.
     bindIO (liftR (bindR (py_item graph ''edges'') py_len)) (\<lambda>ec.
       returnIO (JObj [(''status'', JStr ''verified''), (''adapter_id'', aid), (''runtime'', rt),
         (''graph_hash'', gh), (''node_count'', JInt nc), (''edge_count'', JInt ec)])))))))))"

section \<open>Conformance is referential integrity\<close>

definition list_field :: "obj \<Rightarrow> string \<Rightarrow> json list" where
  "list_field d k = (case map_of d k of Some (JList xs) \<Rightarrow> xs | _ \<Rightarrow> [])"

definition lists_ok :: "obj \<Rightarrow> bool" where
  "lists_ok g \<longleftrightarrow> (\<forall>k\<in>{''nodes'', ''participants'', ''edges''}. \<exists>xs. map_of g k = Some (JList xs))"

definition item :: "json \<Rightarrow> string \<Rightarrow> json" where
  "item x k = (case x of JObj d \<Rightarrow> field_or d k JNull | _ \<Rightarrow> JNull)"

text \<open>Every element is a dictionary with a hashable identifier.\<close>

definition has_id :: "json \<Rightarrow> bool" where
  "has_id x \<longleftrightarrow> (\<exists>d i. x = JObj d \<and> map_of d ''id'' = Some i \<and> hashable i)"

definition known :: "json list \<Rightarrow> json \<Rightarrow> bool" where
  "known xs v \<longleftrightarrow> hashable v \<and> (\<exists>x\<in>set xs. py_eq (item x ''id'') v)"

definition edge_known :: "json list \<Rightarrow> json \<Rightarrow> bool" where
  "edge_known ns e \<longleftrightarrow>
     (\<exists>d src dst. e = JObj d \<and> map_of d ''from'' = Some src \<and> map_of d ''to'' = Some dst \<and> known ns src \<and> known ns dst)"

definition actor_known :: "json list \<Rightarrow> json \<Rightarrow> bool" where
  "actor_known ps n \<longleftrightarrow> (truthy (item n ''actor_id'') \<longrightarrow> known ps (item n ''actor_id''))"

definition references_ok :: "obj \<Rightarrow> bool" where
  "references_ok g \<longleftrightarrow>
     list_all has_id (list_field g ''nodes'') \<and> list_all has_id (list_field g ''participants'') \<and>
     (\<exists>a. field_or g ''agent'' (JObj []) = JObj a \<and> known (list_field g ''participants'') (field_or a ''id'' JNull)) \<and>
     list_all (actor_known (list_field g ''participants'')) (list_field g ''nodes'') \<and>
     list_all (edge_known (list_field g ''nodes'')) (list_field g ''edges'')"

lemma mapR_ids:
  "mapR (\<lambda>x. bindR (py_item x ''id'') (\<lambda>i. if hashable i then Inr i else Inl (unhashable i))) xs = Inr is \<longleftrightarrow>
   list_all has_id xs \<and> is = map (\<lambda>x. item x ''id'') xs"
proof (induction xs arbitrary: "is")
  case (Cons x xs)
  have "bindR (py_item x ''id'') (\<lambda>i. if hashable i then Inr i else Inl (unhashable i)) = Inr j \<longleftrightarrow>
      has_id x \<and> j = item x ''id''" for j
    by (auto simp: bindR_eq_Inr py_item_eq_Inr has_id_def item_def field_or_def split: json.splits if_splits)
  with Cons.IH show ?case by (auto simp: bindR_eq_Inr)
qed auto

lemma id_set_iff:
  assumes "map_of g k = Some (JList xs)"
  shows "id_set (JObj g) k = Inr is \<longleftrightarrow> list_all has_id xs \<and> is = map (\<lambda>x. item x ''id'') xs"
  using assms mapR_ids by (simp add: id_set_def)

lemma py_in_known: "py_in_set v (map (\<lambda>x. item x ''id'') xs) = Inr True \<longleftrightarrow> known xs v"
  by (auto simp: py_in_set_def known_def list_ex_iff)

lemma check_actor_iff:
  assumes "has_id n"
  shows "check_actor (map (\<lambda>x. item x ''id'') ps) n = Inr () \<longleftrightarrow> actor_known ps n"
proof -
  obtain d where d: "n = JObj d" using assms by (auto simp: has_id_def)
  show ?thesis
    unfolding check_actor_def actor_known_def d py_get_or_field bindR_simps item_def json.case
    using py_in_known [of "field_or d ''actor_id'' JNull" ps]
    by (auto simp: bindR_eq_Inr item_def split: if_splits)
qed

lemma check_edge_iff:
  "check_edge (map (\<lambda>x. item x ''id'') ns) e = Inr () \<longleftrightarrow> edge_known ns e"
proof -
  have "check_edge (map (\<lambda>x. item x ''id'') ns) e = Inr () \<longleftrightarrow>
    (\<exists>src dst. py_item e ''from'' = Inr src \<and> py_item e ''to'' = Inr dst \<and>
       py_in_set src (map (\<lambda>x. item x ''id'') ns) = Inr True \<and> py_in_set dst (map (\<lambda>x. item x ''id'') ns) = Inr True)"
    unfolding check_edge_def by (auto simp: bindR_eq_Inr split: if_splits)
  then show ?thesis unfolding py_in_known edge_known_def by (auto simp: py_item_eq_Inr)
qed

lemma check_references_iff:
  assumes "lists_ok g"
  shows "check_references (JObj g) = Inr () \<longleftrightarrow> references_ok g"
proof -
  obtain ns ps es where l: "map_of g ''nodes'' = Some (JList ns)" "map_of g ''participants'' = Some (JList ps)"
    "map_of g ''edges'' = Some (JList es)" using assms by (auto simp: lists_ok_def)
  have "check_references (JObj g) = Inr () \<longleftrightarrow>
    list_all has_id ns \<and> list_all has_id ps \<and>
    (\<exists>a. field_or g ''agent'' (JObj []) = JObj a \<and> known ps (field_or a ''id'' JNull)) \<and>
    list_all (\<lambda>n. check_actor (map (\<lambda>x. item x ''id'') ps) n = Inr ()) ns \<and>
    list_all (\<lambda>e. check_edge (map (\<lambda>x. item x ''id'') ns) e = Inr ()) es"
    unfolding check_references_def bindR_eq_Inr [of "id_set v k" for v k] id_set_iff [OF l(1)] id_set_iff [OF l(2)]
    by (auto simp: l guard_eq_Inr bindR_eq_Inr py_get_or_eq_Inr py_in_known iterR_eq_Inr list_all_iff field_or_def)
  then show ?thesis
    unfolding references_ok_def list_field_def l option.case json.case list_all_iff check_edge_iff
    using check_actor_iff [of _ ps] by (auto simp: list_all_iff)
qed

definition conforms :: "obj \<Rightarrow> json \<Rightarrow> bool" where
  "conforms g manifest \<longleftrightarrow>
     graph_hash_valid (JObj g) \<and> references_ok g \<and>
     (\<exists>ext e a. field_or g ''extensions'' (JObj []) = JObj ext \<and>
        adapter_lookup manifest (field_or ext ''org.permeantos.adapter.id'' JNull) = Inr (Some (JObj e)) \<and>
        field_or g ''agent'' (JObj []) = JObj a \<and>
        py_eq (field_or a ''runtime'' JNull) (field_or e ''runtime'' JNull))"

lemma conformance_iff:
  assumes "lists_ok g"
  shows "validate_graph_conformance (JObj g) manifest = Inr () \<longleftrightarrow> conforms g manifest"
proof -
  define A E where "A = field_or g ''agent'' (JObj [])" and "E = field_or g ''extensions'' (JObj [])"
  have rt: "bindR (py_get A ''runtime'') (\<lambda>rt. bindR (py_get e ''runtime'') (\<lambda>ert.
        if \<not> py_eq rt ert then Inl err else check_references (JObj g))) = Inr () \<longleftrightarrow>
      (\<exists>a d. A = JObj a \<and> e = JObj d \<and> py_eq (field_or a ''runtime'' JNull) (field_or d ''runtime'' JNull) \<and>
         check_references (JObj g) = Inr ())" for e err
    unfolding bindR_eq_Inr py_get_or_eq_Inr if_raise_eq_Inr field_or_def by auto
  have ext: "bindR (py_get E k) f = Inr () \<longleftrightarrow> (\<exists>x. E = JObj x \<and> f (field_or x k JNull) = Inr ())"
    for k and f :: "json \<Rightarrow> unit res"
    unfolding bindR_eq_Inr py_get_or_eq_Inr field_or_def by auto
  have entry: "bindR l (case_option (Inl err) f) = Inr () \<longleftrightarrow> (\<exists>e. l = Inr (Some e) \<and> f e = Inr ())"
    for l :: "json option res" and err and f :: "json \<Rightarrow> unit res"
    unfolding bindR_eq_Inr by (auto split: option.splits)
  have h: "graph_hash_valid (JObj g) \<longleftrightarrow> field_or g ''graph_hash'' JNull = JStr (sha256_json (JObj (dict_pop ''graph_hash'' g)))"
    by (auto simp: graph_hash_valid_def field_or_JStr)
  show ?thesis
    unfolding validate_graph_conformance_def py_get_or_field bindR_simps canonical_graph_hash_JObj
      A_def [symmetric] E_def [symmetric] if_raise_eq_Inr not_not py_eq_JStr ext entry rt conforms_def h
      check_references_iff [OF assms]
    by blast
qed

text \<open>C30: Conformance validation is referential integrity. A graph whose nodes, participants and
  edges are lists is accepted exactly when its hash field is its canonical hash, its adapter is in
  the capability manifest with the graph's runtime, its agent and every acting node's actor are
  participants, and both ends of every edge are nodes of the graph.\<close>

theorem conformance_exact:
  assumes "lists_ok g"
  shows "validate_graph_conformance (JObj g) manifest = Inr () \<longleftrightarrow> conforms g manifest"
  by (rule conformance_iff [OF assms])

section \<open>An exported adapter package imports\<close>

text \<open>Sorting the keys, as writing to disk does, does not affect conformance.\<close>

lemma list_field_sorted: "wf_json (JObj g) \<Longrightarrow> list_field (sorted_obj g) k = map sort_keys (list_field g k)"
  by (auto simp: list_field_def split: option.splits json.splits simp del: wf_json.simps)

lemma lists_ok_sorted: "wf_json (JObj g) \<Longrightarrow> lists_ok g \<Longrightarrow> lists_ok (sorted_obj g)"
  by (auto simp: lists_ok_def simp del: wf_json.simps)

lemma item_sorted: "wf_json x \<Longrightarrow> item (sort_keys x) k = sort_keys (item x k)"
  using field_or_sorted_obj [of _ k JNull] by (cases x) (auto simp: item_def simp del: wf_json.simps)

lemma wf_list_field: "wf_json (JObj g) \<Longrightarrow> x \<in> set (list_field g k) \<Longrightarrow> wf_json x"
  using wf_field_or [of g JNull k]
  by (auto simp: list_field_def field_or_def list_all_iff split: option.splits json.splits simp del: wf_json.simps(2))

lemma wf_item: "wf_json x \<Longrightarrow> wf_json (item x k)"
  by (cases x) (auto simp: item_def intro!: wf_field_or simp del: wf_json.simps(2))

lemma known_sorted:
  assumes "\<And>x. x \<in> set xs \<Longrightarrow> wf_json x" and "wf_json v" and "known xs v"
  shows "known (map sort_keys xs) (sort_keys v)"
  using assms by (auto simp: known_def item_sorted wf_item py_eq_sort_keys)

lemma has_id_sorted: "wf_json x \<Longrightarrow> has_id x \<Longrightarrow> has_id (sort_keys x)"
  by (auto simp: has_id_def simp del: wf_json.simps)

lemma actor_known_sorted:
  "(\<And>x. x \<in> set ps \<Longrightarrow> wf_json x) \<Longrightarrow> wf_json n \<Longrightarrow> actor_known ps n \<Longrightarrow> actor_known (map sort_keys ps) (sort_keys n)"
  by (auto simp: actor_known_def item_sorted intro!: known_sorted wf_item)

lemma edge_known_sorted:
  assumes "\<And>x. x \<in> set ns \<Longrightarrow> wf_json x" and "wf_json e" and "edge_known ns e"
  shows "edge_known (map sort_keys ns) (sort_keys e)"
proof -
  obtain d src dst where e: "e = JObj d" "map_of d ''from'' = Some src" "map_of d ''to'' = Some dst"
    "known ns src" "known ns dst" using assms(3) by (auto simp: edge_known_def)
  have "wf_json src" "wf_json dst"
    using wf_field_or [of d JNull "''from''"] wf_field_or [of d JNull "''to''"] assms(2) e by (simp_all add: field_or_def)
  then have "known (map sort_keys ns) (sort_keys src)" "known (map sort_keys ns) (sort_keys dst)"
    using e(4,5) assms(1) known_sorted by blast+
  then show ?thesis using e assms(2) by (auto simp: edge_known_def simp del: wf_json.simps)
qed

lemma references_ok_sorted:
  assumes wf: "wf_json (JObj g)" and r: "references_ok g"
  shows "references_ok (sorted_obj g)"
proof -
  note w = wf_list_field [OF wf]
  obtain a where a: "field_or g ''agent'' (JObj []) = JObj a" "known (list_field g ''participants'') (field_or a ''id'' JNull)"
    using r by (auto simp: references_ok_def)
  have wa: "wf_json (JObj a)" using wf_field_or [OF wf, of "JObj []" "''agent''"] a(1) by (simp add: dict_keys_ok_def)
  have "known (map sort_keys (list_field g ''participants'')) (sort_keys (field_or a ''id'' JNull))"
    using wa by (intro known_sorted [OF w _ a(2)] wf_field_or) simp_all
  then have "known (list_field (sorted_obj g) ''participants'') (field_or (sorted_obj a) ''id'' JNull)"
    using field_or_sorted_obj [OF wa, of "''id''" JNull] by (simp add: list_field_sorted [OF wf])
  moreover have "field_or (sorted_obj g) ''agent'' (JObj []) = JObj (sorted_obj a)"
    using field_or_sorted_obj [OF wf, of "''agent''" "JObj []"] a(1) by (simp add: sorted_obj_def)
  moreover have "list_all has_id (list_field (sorted_obj g) k)" if "list_all has_id (list_field g k)" for k
    using that w by (auto simp: list_field_sorted [OF wf] list_all_iff has_id_sorted)
  moreover have "list_all (actor_known (list_field (sorted_obj g) ''participants'')) (list_field (sorted_obj g) ''nodes'')"
    using r w by (auto simp: references_ok_def list_field_sorted [OF wf] list_all_iff intro!: actor_known_sorted)
  moreover have "list_all (edge_known (list_field (sorted_obj g) ''nodes'')) (list_field (sorted_obj g) ''edges'')"
    using r w by (auto simp: references_ok_def list_field_sorted [OF wf] list_all_iff intro!: edge_known_sorted)
  ultimately show ?thesis using r unfolding references_ok_def by blast
qed

lemma fa_base_node_item:
  "distinct (map fst payload) \<Longrightarrow> item (fa_base_node adapter i t payload) k =
     (case map_of payload k of Some v \<Rightarrow> v | None \<Rightarrow>
        field_or [(''id'', JStr i), (''type'', JStr t), (''created_at'', JStr FA_CREATED_AT),
          (''content_hash'', JStr (sha256_json (JObj payload))), (''provenance'', fa_provenance adapter)] k JNull)"
  by (simp add: fa_base_node_def item_def field_or_def map_of_dict_update dict_keys_ok_def map_add_def split: option.split)

lemma wf_fa_base_node:
  "list_all (\<lambda>(k, v). wf_json v) payload \<Longrightarrow> wf_json (fa_base_node adapter i t payload)"
  unfolding fa_base_node_def
  by (intro wf_dict_update) (simp_all add: dict_keys_ok_def fa_provenance_def)

lemma has_id_fa_base_node:
  "distinct (map fst payload) \<Longrightarrow> map_of payload ''id'' = None \<Longrightarrow> has_id (fa_base_node adapter i t payload)"
  by (simp add: has_id_def fa_base_node_def map_of_dict_update dict_keys_ok_def map_add_def)

lemmas lg_node_defs = lg_event_start_node_def lg_user_turn_node_def lg_assistant_turn_node_def
  lg_task_open_checklist_node_def lg_memory_user_preference_node_def lg_retrieval_memory_node_def
  lg_checkpoint_thread_node_def lg_trace_node_node_def

lemmas mcp_node_defs = mcp_user_turn_node_def mcp_tool_call_list_node_def mcp_tool_result_list_node_def
  mcp_artifact_cargo_manifest_node_def mcp_credential_filesystem_node_def mcp_checkpoint_session_node_def
  mcp_trace_tool_call_node_def

lemma lg_nodes_wf: "list_all wf_json (lg_nodes a)"
  unfolding lg_nodes_def lg_node_defs by (simp add: wf_fa_base_node dict_keys_ok_def)

lemma mcp_nodes_wf: "list_all wf_json (mcp_nodes a)"
  unfolding mcp_nodes_def mcp_node_defs by (simp add: wf_fa_base_node dict_keys_ok_def)

lemma lg_nodes_ids: "list_all has_id (lg_nodes a)"
  "map (\<lambda>n. item n ''id'') (lg_nodes a) = map JStr [''event:langgraph-start'', ''turn:user:langgraph-1'',
     ''turn:assistant:langgraph-1'', ''task:langgraph-open-checklist'', ''memory:langgraph-user-preference'',
     ''retrieval:langgraph-memory'', ''checkpoint:langgraph-thread'', ''trace:langgraph-node'']"
  "set (map (\<lambda>n. item n ''actor_id'') (lg_nodes a)) \<subseteq>
     {JStr ''runtime:langgraph-store'', JStr ''user:operator'', JStr ''agent:langgraph-reference''}"
  unfolding lg_nodes_def lg_node_defs by (simp_all add: has_id_fa_base_node fa_base_node_item field_or_def)

lemma mcp_nodes_ids: "list_all has_id (mcp_nodes a)"
  "map (\<lambda>n. item n ''id'') (mcp_nodes a) = map JStr [''turn:user:mcp-1'', ''tool:call:mcp-list'',
     ''tool:result:mcp-list'', ''artifact:mcp-cargo-manifest'', ''credential:mcp-filesystem'',
     ''checkpoint:mcp-session'', ''trace:mcp-tool-call'']"
  "set (map (\<lambda>n. item n ''actor_id'') (mcp_nodes a)) \<subseteq>
     {JStr ''user:operator'', JStr ''agent:mcp-reference'', JStr ''tool:mcp-files'', JStr ''runtime:mcp-session''}"
  unfolding mcp_nodes_def mcp_node_defs by (simp_all add: has_id_fa_base_node fa_base_node_item field_or_def)

lemma known_ids: "known xs v \<longleftrightarrow> hashable v \<and> (\<exists>i\<in>set (map (\<lambda>x. item x ''id'') xs). py_eq i v)"
  by (simp add: known_def)

text \<open>The envelope, seen through its fields.\<close>

lemma envelope_fields:
  assumes "g = build_graph_envelope a gid agent ps ns es"
  shows "map_of g ''nodes'' = Some (JList ns)" "map_of g ''participants'' = Some (JList ps)"
    "map_of g ''edges'' = Some (JList es)" "field_or g ''extensions'' (JObj []) =
      JObj [(''org.permeantos.adapter.id'', JStr (adapter_id a)), (''org.permeantos.adapter.runtime_family'', JStr (runtime_family a))]"
    "\<exists>d. field_or g ''agent'' (JObj []) = JObj d \<and> map_of d ''id'' = Some (JStr agent) \<and>
       map_of d ''runtime'' = Some (JStr (runtime a))"
  unfolding assms build_graph_envelope_def hash_graph_def by (simp_all add: field_or_def)

lemma wf_envelope:
  "list_all wf_json ps \<Longrightarrow> list_all wf_json ns \<Longrightarrow> list_all wf_json es \<Longrightarrow>
   wf_json (JObj (build_graph_envelope a gid agent ps ns es))"
  unfolding build_graph_envelope_def
  by (rule hashed_graph.seal_wf) (simp add: dict_keys_ok_def)

lemma envelope_references:
  assumes "list_all has_id ns" and "list_all has_id ps"
    and "known ps (JStr agent)" and "list_all (actor_known ps) ns" and "list_all (edge_known ns) es"
  shows "references_ok (build_graph_envelope a gid agent ps ns es)"
proof -
  note f = envelope_fields [OF refl, of a gid agent ps ns es]
  from f(5) show ?thesis
    unfolding references_ok_def list_field_def f(1-3) using assms by (auto simp: field_or_def)
qed

lemma lg_references: "references_ok (build_langgraph_style_graph a)"
proof -
  have p: "map (\<lambda>x. item x ''id'') (lg_participants a) =
      map JStr [''agent:langgraph-reference'', ''user:operator'', ''runtime:langgraph-store'']"
    by (simp add: lg_participants_def item_def field_or_def)
  have "list_all (actor_known (lg_participants a)) (lg_nodes a)"
    using lg_nodes_ids(3) [of a] unfolding actor_known_def known_ids p list_all_iff by fastforce
  moreover have "list_all (edge_known (lg_nodes a)) lg_edges"
    unfolding lg_edges_def by (simp add: edge_known_def known_ids lg_nodes_ids(2) del: set_map)
  moreover have "list_all has_id (lg_participants a)" by (simp add: lg_participants_def has_id_def)
  moreover have "known (lg_participants a) (JStr ''agent:langgraph-reference'')" unfolding known_ids p by simp
  ultimately show ?thesis
    unfolding build_langgraph_style_graph_def using lg_nodes_ids(1) by (intro envelope_references)
qed

lemma mcp_references: "references_ok (build_mcp_resource_session_graph a)"
proof -
  have p: "map (\<lambda>x. item x ''id'') (mcp_participants a) =
      map JStr [''agent:mcp-reference'', ''user:operator'', ''tool:mcp-files'', ''runtime:mcp-session'']"
    by (simp add: mcp_participants_def item_def field_or_def)
  have "list_all (actor_known (mcp_participants a)) (mcp_nodes a)"
    using mcp_nodes_ids(3) [of a] unfolding actor_known_def known_ids p list_all_iff by fastforce
  moreover have "list_all (edge_known (mcp_nodes a)) mcp_edges"
    unfolding mcp_edges_def by (simp add: edge_known_def known_ids mcp_nodes_ids(2) del: set_map)
  moreover have "list_all has_id (mcp_participants a)" by (simp add: mcp_participants_def has_id_def)
  moreover have "known (mcp_participants a) (JStr ''agent:mcp-reference'')" unfolding known_ids p by simp
  ultimately show ?thesis
    unfolding build_mcp_resource_session_graph_def using mcp_nodes_ids(1) by (intro envelope_references)
qed

lemma wf_adapter_graphs: "wf_json (JObj (build_langgraph_style_graph a))" "wf_json (JObj (build_mcp_resource_session_graph a))"
  unfolding build_langgraph_style_graph_def build_mcp_resource_session_graph_def
  by (intro wf_envelope lg_nodes_wf mcp_nodes_wf;
      simp add: lg_participants_def mcp_participants_def lg_edges_def mcp_edges_def dict_keys_ok_def)+

lemma wf_strs [simp]: "wf_json (strs ss)"
  by (simp add: strs_def list_all_iff)

lemma wf_capability_entry [simp]: "wf_json (capability_entry a)"
  by (simp add: capability_entry_def dict_keys_ok_def)

lemma wf_capability_manifest: "wf_json adapter_capability_manifest"
  by (simp add: adapter_capability_manifest_def dict_keys_ok_def list_all_iff)

lemma adapter_ids:
  "adapter_id langgraph_durable_state_adapter = ''langgraph_durable_state''"
  "adapter_id mcp_resource_session_adapter = ''mcp_resource_session''"
  by (simp_all add: langgraph_durable_state_adapter_def mcp_resource_session_adapter_def)

text \<open>Every adapter of the table is found under its own identifier, with its runtime, in the
  manifest read back from disk.\<close>

lemma capability_lookup:
  assumes "(k, a) \<in> set ADAPTERS"
  shows "\<exists>e. adapter_lookup (sort_keys adapter_capability_manifest) (JStr (adapter_id a)) = Inr (Some (JObj e)) \<and>
    map_of e ''runtime'' = Some (JStr (runtime a))"
proof -
  define E where "E = (\<lambda>a. case capability_entry a of JObj d \<Rightarrow> sorted_obj d | _ \<Rightarrow> [])"
  have e: "sort_keys (capability_entry b) = JObj (E b)" for b by (simp add: E_def capability_entry_def)
  have l: "map_of (E b) ''adapter_id'' = Some (JStr (adapter_id b))" "map_of (E b) ''runtime'' = Some (JStr (runtime b))" for b
    using wf_capability_entry [of b] unfolding E_def capability_entry_def json.case
    by (simp_all del: wf_json.simps)
  have "py_get_or (sort_keys adapter_capability_manifest) ''adapters'' (JList []) =
      Inr (JList [JObj (E langgraph_durable_state_adapter), JObj (E mcp_resource_session_adapter)])"
    using py_get_or_sort_keys [OF wf_capability_manifest, of "''adapters''" "JList []"]
    by (simp add: adapter_capability_manifest_def ADAPTERS_def e)
  then have "adapter_lookup (sort_keys adapter_capability_manifest) (JStr i) =
      Inr (if i = adapter_id mcp_resource_session_adapter then Some (JObj (E mcp_resource_session_adapter))
           else if i = adapter_id langgraph_durable_state_adapter then Some (JObj (E langgraph_durable_state_adapter)) else None)" for i
    by (auto simp: adapter_lookup_def l)
  moreover have "a = mcp_resource_session_adapter \<or> (a = langgraph_durable_state_adapter \<and> adapter_id a \<noteq> adapter_id mcp_resource_session_adapter)"
    using assms unfolding ADAPTERS_def
    by (auto simp: adapter_ids)
  ultimately show ?thesis using l(2) by fastforce
qed

lemma conforms_sorted:
  assumes wf: "wf_json (JObj g)" and r: "references_ok g" and h: "graph_hash_valid (JObj g)"
    and e: "field_or g ''extensions'' (JObj []) = JObj ext" "map_of ext ''org.permeantos.adapter.id'' = Some (JStr (adapter_id a))"
    and ag: "field_or g ''agent'' (JObj []) = JObj d" "map_of d ''runtime'' = Some (JStr (runtime a))"
    and a: "(k, a) \<in> set ADAPTERS"
  shows "conforms (sorted_obj g) (sort_keys adapter_capability_manifest)"
proof -
  have s: "field_or (sorted_obj g) k (JObj []) = sort_keys (field_or g k (JObj []))" for k
    using field_or_sorted_obj [OF wf, of k "JObj []"] by (simp add: sorted_obj_def)
  have w: "wf_json (JObj ext)" "wf_json (JObj d)"
    using wf_field_or [OF wf, of "JObj []"] e(1) ag(1) by (metis wf_json.simps(2) dict_keys_ok_def distinct.simps(1) list.map(1) list.pred_inject(1))+
  have "field_or (sorted_obj ext) ''org.permeantos.adapter.id'' JNull = JStr (adapter_id a)"
    "field_or (sorted_obj d) ''runtime'' JNull = JStr (runtime a)"
    using w e(2) ag(2) by (simp_all add: field_or_def del: wf_json.simps)
  moreover have "graph_hash_valid (JObj (sorted_obj g))" using hashed_graph.check_sorted [OF wf] h by simp
  ultimately show ?thesis
    unfolding conforms_def s e(1) ag(1) using references_ok_sorted [OF wf r] capability_lookup [OF a]
    by (auto simp: field_or_def)
qed

text \<open>The graph of each adapter of the table, through what validation reads of it.\<close>

lemma adapter_graph_facts:
  assumes "fa_build_graph k = Inr g"
  obtains a ext d ns es where "(k, a) \<in> set ADAPTERS" "k = adapter_id a" "wf_json (JObj g)" "references_ok g"
    "graph_hash_valid (JObj g)" "lists_ok g" "map_of g ''nodes'' = Some (JList ns)" "map_of g ''edges'' = Some (JList es)"
    "map_of g ''extensions'' = Some (JObj ext)"
    "map_of ext ''org.permeantos.adapter.id'' = Some (JStr (adapter_id a))"
    "map_of g ''agent'' = Some (JObj d)" "map_of d ''runtime'' = Some (JStr (runtime a))"
proof -
  have "\<exists>a gid agent ps ns es. (k, a) \<in> set ADAPTERS \<and> k = adapter_id a \<and> g = build_graph_envelope a gid agent ps ns es \<and>
      wf_json (JObj g) \<and> references_ok g"
  proof -
    have "(k = ''langgraph_durable_state'' \<and> g = build_langgraph_style_graph langgraph_durable_state_adapter) \<or>
        (k = ''mcp_resource_session'' \<and> g = build_mcp_resource_session_graph mcp_resource_session_adapter)"
      using assms by (auto simp: fa_build_graph_def ADAPTERS_def split: if_splits)
    then show ?thesis
    proof (elim disjE conjE)
      assume g: "k = ''langgraph_durable_state''" "g = build_langgraph_style_graph langgraph_durable_state_adapter"
      show ?thesis
        using lg_references wf_adapter_graphs(1) unfolding g
        by (intro exI [of _ langgraph_durable_state_adapter], unfold build_langgraph_style_graph_def)
          (simp add: ADAPTERS_def adapter_ids del: wf_json.simps, blast)
    next
      assume g: "k = ''mcp_resource_session''" "g = build_mcp_resource_session_graph mcp_resource_session_adapter"
      show ?thesis
        using mcp_references wf_adapter_graphs(2) unfolding g
        by (intro exI [of _ mcp_resource_session_adapter], unfold build_mcp_resource_session_graph_def)
          (simp add: ADAPTERS_def adapter_ids del: wf_json.simps, blast)
    qed
  qed
  then obtain a gid agent ps ns es where a: "(k, a) \<in> set ADAPTERS" "k = adapter_id a"
    and g: "g = build_graph_envelope a gid agent ps ns es" "wf_json (JObj g)" "references_ok g" by blast
  have h: "graph_hash_valid (JObj g)" unfolding g(1) build_graph_envelope_def by (rule hash_graph_valid)
  note f = envelope_fields [OF g(1)]
  have "lists_ok g" using f(1-3) by (simp add: lists_ok_def)
  moreover have "\<exists>d. map_of g ''agent'' = Some (JObj d) \<and> map_of d ''runtime'' = Some (JStr (runtime a))"
    unfolding g(1) build_graph_envelope_def hash_graph_def by simp
  moreover have "\<exists>ext. map_of g ''extensions'' = Some (JObj ext) \<and>
      map_of ext ''org.permeantos.adapter.id'' = Some (JStr (adapter_id a))"
    unfolding g(1) build_graph_envelope_def hash_graph_def by simp
  ultimately show thesis using that [OF a g(2,3) h _ f(1,3)] by blast
qed

lemma package_paths_differ: "path_sub p ''graph.json'' \<noteq> path_sub p ''adapter-manifest.json''"
  by (simp add: path_sub_def path_join_def is_absolute_def Path_def path_root_def)

text \<open>C29: Round trip of adapter packages. Every package the exporter writes for an adapter of the
  table is accepted by the importer reading it back, which reports the adapter, the runtime and the
  hash of the exported graph.\<close>

theorem adapter_package_roundtrip:
  assumes "export_adapter_package k pkg s = (Inr (g, m), s')"
  shows "\<exists>r. import_adapter_package pkg s' = (Inr (JObj r), s') \<and>
    map_of r ''status'' = Some (JStr ''verified'') \<and> map_of r ''adapter_id'' = Some (JStr k) \<and>
    map_of r ''graph_hash'' = map_of g ''graph_hash'' \<and> map_of g ''graph_hash'' \<noteq> None"
proof -
  from assms obtain s1 u1 u2 where b: "fa_build_graph k = Inr g"
    and w1: "write_json (path_sub pkg ''graph.json'') (JObj g) s = (Inr u1, s1)"
    and w2: "write_json (path_sub pkg ''adapter-manifest.json'') adapter_capability_manifest s1 = (Inr u2, s')"
    by (auto simp: export_adapter_package_def bindIO_eq_Inr)
  from b obtain a ext d ns es where f: "(k, a) \<in> set ADAPTERS" "k = adapter_id a" "wf_json (JObj g)" "references_ok g"
    "graph_hash_valid (JObj g)" "lists_ok g" "map_of g ''nodes'' = Some (JList ns)" "map_of g ''edges'' = Some (JList es)"
    "map_of g ''extensions'' = Some (JObj ext)" "map_of ext ''org.permeantos.adapter.id'' = Some (JStr (adapter_id a))"
    "map_of g ''agent'' = Some (JObj d)" "map_of d ''runtime'' = Some (JStr (runtime a))"
    by (rule adapter_graph_facts)
  obtain h where h: "map_of g ''graph_hash'' = Some (JStr h)" using f(5) by (auto simp: graph_hash_valid_def)
  have w: "wf_json (JObj ext)" "wf_json (JObj d)"
    using wf_field_or [OF f(3), of JNull "''extensions''"] wf_field_or [OF f(3), of JNull "''agent''"] f(9,11)
    by (simp_all add: field_or_def)
  have "read_bytes s1 (path_sub pkg ''graph.json'') = Inr (utf8_encode (dumps_pretty (JObj g) @ [CHR 0x0A]))"
    using w1 unfolding write_json_def by (cases u1) (rule fs_store.read_written, simp)
  then have "read_bytes s' (path_sub pkg ''graph.json'') = Inr (utf8_encode (dumps_pretty (JObj g) @ [CHR 0x0A]))"
    using w2 unfolding write_json_def by (cases u2) (rule fs_store.read_kept [OF _ package_paths_differ], simp_all)
  then have r1: "read_json (path_sub pkg ''graph.json'') s' = (Inr (JObj (sorted_obj g)), s')"
    using f(3) by (simp add: read_json_def read_file_def bindIO_def loads_pretty del: wf_json.simps)
  have r2: "read_json (path_sub pkg ''adapter-manifest.json'') s' = (Inr (sort_keys adapter_capability_manifest), s')"
    by (rule read_json_write_json [OF w2 wf_capability_manifest])
  have "conforms (sorted_obj g) (sort_keys adapter_capability_manifest)"
    using f by (intro conforms_sorted) (simp_all add: field_or_def del: wf_json.simps)
  then have "validate_graph_conformance (JObj (sorted_obj g)) (sort_keys adapter_capability_manifest) = Inr ()"
    using conformance_iff [OF lists_ok_sorted [OF f(3,6)]] by simp
  then show ?thesis
    using f(2,3,7-12) w h
    by (simp add: import_adapter_package_def bindIO_def r1 r2 del: wf_json.simps)
qed

end
