(* ===== verification/ReferencePackage.thy ===== *)
theory ReferencePackage
  imports PackageRoundTrip Resume FrameworkAdapters
begin

text \<open>The reference package at work. The package the example agent exports into the directory
  \<open>out\<close> of an empty file system, and its import, are the concrete run on which the theorems on vector
  memory, import and resume are exercised: every hypothesis they make holds there.\<close>

section \<open>Export and import of the reference package\<close>

abbreviation out_dir :: pypath where "out_dir \<equiv> Path ''out''"

abbreviation out_workspace :: pypath where "out_workspace \<equiv> import_workspace out_dir None"

definition reference_record :: artifact_record where
  "reference_record = build_artifact_record_from_bytes ''reports/result.json'' reference_artifact_bytes default_policy"

lemma reference_record_fields:
  "blob_path reference_record = Some (content_addressed_blob_path (sha256_bytes reference_artifact_bytes) ''reports/result.json'')"
  "ar_path reference_record = ''reports/result.json''"
  by (simp_all add: reference_record_def disposition_blob)

lemma reference_import:
  "\<exists>g m prompt s res s'. package_ready [(reference_record, reference_artifact_bytes)] g m prompt \<and>
     package_on_disk out_dir [(reference_record, reference_artifact_bytes)] g m s \<and> free_dir s out_workspace \<and>
     import_session out_dir None (JStr RUNTIME_ID) s = (Inr res, s') \<and>
     files s' (path_sub out_workspace ''reports/result.json'') = Some reference_artifact_bytes"
proof -
  obtain session g m prompt where p: "reference_package default_policy = Inr (session, reference_record, g, m)"
    "artifact_bytes session = reference_artifact_bytes" "package_ready [(reference_record, reference_artifact_bytes)] g m prompt"
    using reference_package_ready [of default_policy] unfolding reference_record_def [symmetric] by blast
  obtain s where s: "write_package out_dir [(reference_record, reference_artifact_bytes)] g m Map.empty = (Inr (), s)"
    using write_package_possible [OF fs_tree_empty out_writable p(3)] by blast
  note pw = package_written [OF fs_tree_empty s p(3)]
  obtain res s' where i: "import_session out_dir None (JStr RUNTIME_ID) s = (Inr res, s')"
    and t: "\<forall>(t, b)\<in>set (targets out_workspace [(reference_record, reference_artifact_bytes)]). files s' t = Some b"
    using package_imports [OF p(3) pw(1) refl pw(2,3)] by blast
  have "files s' (path_sub out_workspace ''reports/result.json'') = Some reference_artifact_bytes"
    using t by (simp add: targets_def reference_record_fields)
  with p(3) pw(1,2) i show ?thesis by blast
qed

lemma workspace_file: "below out_workspace (path_sub out_workspace ''reports/result.json'')"
  by (simp add: below_def path_sub_def path_join_def Path_def path_root_def is_absolute_def)

section \<open>The import theorems on it\<close>

theorem no_write_before_verification_witness:
  "\<exists>s res s' manifest graph. import_session out_dir None (JStr RUNTIME_ID) s = (Inr res, s') \<and> s' \<noteq> s \<and>
     gates_passed out_dir (JStr RUNTIME_ID) s manifest graph"
proof -
  obtain s res s' where i: "free_dir s out_workspace" "import_session out_dir None (JStr RUNTIME_ID) s = (Inr res, s')"
    "files s' (path_sub out_workspace ''reports/result.json'') = Some reference_artifact_bytes"
    using reference_import by (elim exE conjE) (rule that)
  have "s' \<noteq> s" using i(1,3) workspace_file by (auto simp: free_dir_def files_def)
  with no_write_before_verification [OF i(2) this] i(2) show ?thesis by blast
qed

theorem import_confined_witness:
  "\<exists>s res s'. import_session out_dir None (JStr RUNTIME_ID) s = (Inr res, s') \<and>
     files s' (path_sub out_dir ''manifest.json'') = files s (path_sub out_dir ''manifest.json'')"
proof -
  obtain s res s' where i: "import_session out_dir None (JStr RUNTIME_ID) s = (Inr res, s')"
    using reference_import by (elim exE conjE) (rule that)
  have "\<not> below out_workspace (path_sub out_dir ''manifest.json'')"
    by (simp add: import_workspace_def below_def path_sub_def path_join_def Path_def path_root_def is_absolute_def)
  from import_confined [OF i this] i show ?thesis by blast
qed

lemma reference_gates:
  "\<exists>m g s res s'. import_session out_dir None (JStr RUNTIME_ID) s = (Inr res, s') \<and>
     gates_passed out_dir (JStr RUNTIME_ID) s (JObj (sorted_obj m)) g \<and>
     manifest_artifacts (JObj (sorted_obj m)) = Inr [sort_keys (JObj (manifest_artifact reference_record))]"
proof -
  obtain g m prompt s res s' where r: "package_ready [(reference_record, reference_artifact_bytes)] g m prompt"
    and d: "package_on_disk out_dir [(reference_record, reference_artifact_bytes)] g m s"
    and i: "import_session out_dir None (JStr RUNTIME_ID) s = (Inr res, s')" "s' \<noteq> s"
    using reference_import workspace_file by (elim exE conjE) (rule that, auto simp: free_dir_def files_def)
  have wm: "wf_json (JObj m)" using r unfolding package_ready_def gates_ready_def by blast
  have as: "map_of m ''artifacts'' = Some (JList [JObj (manifest_artifact reference_record)])"
    using r by (simp add: package_ready_def)
  have "read_json (path_sub out_dir ''manifest.json'') s = (Inr (JObj (sorted_obj m)), s)"
    using d read_json_bytes [OF _ wm] by (simp add: package_on_disk_def)
  moreover obtain manifest graph where g: "gates_passed out_dir (JStr RUNTIME_ID) s manifest graph"
    using i by (cases rule: import_cases) auto
  ultimately have "manifest = JObj (sorted_obj m)" by (simp add: gates_passed_def)
  moreover have "manifest_artifacts (JObj (sorted_obj m)) = Inr [sort_keys (JObj (manifest_artifact reference_record))]"
    using wm as by (simp add: manifest_artifacts_def del: wf_json.simps)
  ultimately show ?thesis using i(1) g by blast
qed

lemma reference_entry:
  "blob_outside out_dir out_workspace (sort_keys (JObj (manifest_artifact reference_record)))"
  "\<not> external (sort_keys (JObj (manifest_artifact reference_record)))"
  "target_path_of out_workspace (sort_keys (JObj (manifest_artifact reference_record))) =
     Some (path_sub out_workspace ''reports/result.json'')"
proof -
  let ?e = "manifest_artifact reference_record"
  note f = flat_item [OF entry_flat, of reference_record] and wf = entry_flat(1) [of reference_record]
  have b: "built_from reference_artifact_bytes reference_record"
    unfolding built_from_def reference_record_fields(2) using result_path(1) by (auto simp: reference_record_def)
  note ap = allowed_path_parts [OF result_path(1)]
  show ne: "\<not> external (sort_keys (JObj ?e))"
    using map_of_sorted_obj [OF wf, of "''restore_policy''"] built_fields(6) [OF b]
    by (simp add: external_def entry_fields reference_record_fields)
  have "target_rel (sort_keys (JObj ?e)) = Inr (Path ''reports/result.json'')"
    unfolding target_rel_def f using ap(4) built_fields(3) [OF b]
    by (simp add: entry_fields reference_record_fields)
  with ne show "target_path_of out_workspace (sort_keys (JObj ?e)) = Some (path_sub out_workspace ''reports/result.json'')"
    by (simp add: target_path_of_def path_sub_def del: sort_keys_JObj)
  have "blob_rel (sort_keys (JObj ?e)) = Inr \<lparr>anchor = [], parts = blob_parts reference_artifact_bytes ''reports/result.json''\<rparr>"
    unfolding blob_rel_def f using safe_package_blob [OF ap(1,2)] blob_Path [OF b reference_record_fields(1)]
    by (simp add: entry_fields reference_record_fields)
  then show "blob_outside out_dir out_workspace (sort_keys (JObj ?e))"
    by (auto simp: blob_outside_def import_workspace_def below_def path_sub_def path_join_def is_absolute_def json_Path blob_parts_def
        simp del: sort_keys_JObj)
qed

theorem import_restores_artifacts_witness:
  "\<exists>s res s' a. import_session out_dir None (JStr RUNTIME_ID) s = (Inr res, s') \<and>
     (\<exists>b t. verified_blob out_dir s a b \<and> target_rel a = Inr t \<and> files s' (path_join out_workspace t) = Some b)"
proof -
  obtain m g s res s' where i: "import_session out_dir None (JStr RUNTIME_ID) s = (Inr res, s')"
    "gates_passed out_dir (JStr RUNTIME_ID) s (JObj (sorted_obj m)) g"
    "manifest_artifacts (JObj (sorted_obj m)) = Inr [sort_keys (JObj (manifest_artifact reference_record))]"
    using reference_gates by (elim exE conjE) (rule that)
  have "\<exists>b t. verified_blob out_dir s (sort_keys (JObj (manifest_artifact reference_record))) b \<and>
      target_rel (sort_keys (JObj (manifest_artifact reference_record))) = Inr t \<and> files s' (path_join out_workspace t) = Some b"
    using import_restores_artifacts [OF i] reference_entry by (auto simp: List.map_filter_simps simp del: sort_keys_JObj)
  with i(1) show ?thesis by blast
qed

section \<open>Vector memory on it\<close>

lemma reference_memory:
  "\<exists>g m ms rns q s vm. memory_nodes (JObj g) = Inr ms \<and> list_all memory_node_ok ms \<and> distinct (node_ids ms) \<and>
     retrieval_nodes (JObj g) = Inr rns \<and> compute_vector_snapshot (JObj g) (JStr q) = Inr s \<and>
     list_all (retrieval_matches s) rns \<and> map_of m ''vector_memory'' = Some (JObj vm) \<and> snapshot_entry s vm"
proof -
  obtain g m prompt where "package_ready [(reference_record, reference_artifact_bytes)] g m prompt"
    using reference_import by (elim exE conjE) (rule that)
  then have "remembered g m" by (simp add: package_ready_def gates_ready_def)
  then show ?thesis unfolding remembered_def by blast
qed

theorem snapshot_ranking_witness:
  "\<exists>g q s rs. compute_vector_snapshot (JObj g) (JStr q) = Inr s \<and> vs_expected_results s = ranked_results rs \<and> ranked rs \<and>
     mset rs = mset (map (scored (deterministic_embedding q)) (vs_records s))"
proof -
  obtain g q s where s: "compute_vector_snapshot (JObj g) (JStr q) = Inr s"
    using reference_memory by (elim exE conjE) (rule that)
  from snapshot_ranking [OF s] s show ?thesis by blast
qed

theorem vector_memory_complete_witness:
  "\<exists>g m r. validate_vector_memory (JObj g) (JObj m) = Inr (JObj ((''status'', JStr ''verified'') # r))"
proof -
  obtain g m ms rns q s vm where h: "memory_nodes (JObj g) = Inr ms" "list_all memory_node_ok ms" "distinct (node_ids ms)"
    "retrieval_nodes (JObj g) = Inr rns" "compute_vector_snapshot (JObj g) (JStr q) = Inr s"
    "list_all (retrieval_matches s) rns" "map_of m ''vector_memory'' = Some (JObj vm)" "snapshot_entry s vm"
    using reference_memory by (elim exE conjE) (rule that)
  from vector_memory_complete [OF h(5,8,7,1-3,4,6)] show ?thesis by blast
qed

theorem vector_memory_sound_witness:
  "\<exists>g m r vm q s. validate_vector_memory (JObj g) (JObj m) = Inr (JObj r) \<and>
     map_of m ''vector_memory'' = Some (JObj vm) \<and> map_of vm ''query_text'' = Some q \<and>
     compute_vector_snapshot (JObj g) q = Inr s \<and> py_eq (field_or vm ''expected_results'' JNull) (vs_expected_results s)"
proof -
  obtain g m ms rns q s vm where h: "memory_nodes (JObj g) = Inr ms" "list_all memory_node_ok ms" "distinct (node_ids ms)"
    "retrieval_nodes (JObj g) = Inr rns" "compute_vector_snapshot (JObj g) (JStr q) = Inr s"
    "list_all (retrieval_matches s) rns" "map_of m ''vector_memory'' = Some (JObj vm)" "snapshot_entry s vm"
    using reference_memory by (elim exE conjE) (rule that)
  obtain r where r: "validate_vector_memory (JObj g) (JObj m) = Inr (JObj ((''status'', JStr ''verified'') # r))"
    using snapshot_verifies [OF h(5,8,7,1-3,4,6)] by blast
  obtain vm' q' s' where "map_of m ''vector_memory'' = Some (JObj vm')" "map_of vm' ''query_text'' = Some q'"
    "compute_vector_snapshot (JObj g) q' = Inr s'" "py_eq (field_or vm' ''expected_results'' JNull) (vs_expected_results s')"
    using vector_memory_sound [OF r] by auto
  with r show ?thesis by blast
qed

section \<open>Resume and adapter packages\<close>

lemma json_writable: "parts p \<noteq> [] \<Longrightarrow> \<exists>s. write_json p v Map.empty = (Inr (), s)"
  by (rule write_possible [of Map.empty p "utf8_encode (dumps_pretty v @ [CHR 0x0A])"])
    (auto simp: unblocked_def node_at_def write_json_def)

definition small_report :: obj where
  "small_report = [(''status'', JStr ''continued''), (''activity_continued'', JBool True)]"

lemma small_report_wf: "wf_json (JObj small_report)"
  by (simp add: small_report_def dict_keys_ok_def)

lemma report_parts: "parts (Path ''resume-report.json'') \<noteq> []"
  by (simp add: Path_def path_root_def)

theorem sealed_report_verifies_from_disk_witness:
  "\<exists>s rep. write_json (Path ''resume-report.json'') (JObj (seal_report small_report)) Map.empty = (Inr (), s) \<and>
     read_json (Path ''resume-report.json'') s = (Inr rep, s) \<and> verify_resume_report_proof rep = Inr ()"
proof -
  obtain s where w: "write_json (Path ''resume-report.json'') (JObj (seal_report small_report)) Map.empty = (Inr (), s)"
    using json_writable [OF report_parts] by blast
  with sealed_report_verifies_from_disk [OF w small_report_wf] show ?thesis by blast
qed

definition small_graph :: obj where
  "small_graph = [(''graph_id'', JStr ''graph:1''), (''lineage'', JList []),
     (''nodes'', JList [JObj [(''id'', JStr ''tool:call:1''), (''type'', JStr ''tool_call''), (''status'', JStr ''pending'')]])]"

theorem sealed_graph_verifies_from_disk_witness:
  "\<exists>g s h g'. seal_graph ''resumed'' ''source_graph_hash'' JNull small_graph = Inr g \<and>
     write_json (Path ''resume-report.json'') (JObj g) Map.empty = (Inr (), s) \<and>
     map_of g ''graph_hash'' = Some (JStr h) \<and> read_json (Path ''resume-report.json'') s = (Inr g', s) \<and>
     verify_graph g' (JStr h) = Inr ()"
proof -
  obtain g where g: "seal_graph ''resumed'' ''source_graph_hash'' JNull small_graph = Inr g" and wf: "wf_json (JObj g)"
    by (simp add: seal_graph_def small_graph_def extend_list_field_def dict_keys_ok_def)
  obtain s where w: "write_json (Path ''resume-report.json'') (JObj g) Map.empty = (Inr (), s)"
    using json_writable [OF report_parts] by blast
  from sealed_graph_verifies_from_disk [OF g w wf] g w show ?thesis by blast
qed

theorem mark_completed_spec_witness:
  "\<exists>g (j::nat) d'. mark_tool_call_completed ''tool:call:1'' ''approved'' small_graph = Inr g \<and> j < 1 \<and>
     content_hash_ok (JObj d') \<and> map_of d' ''status'' = Some (JStr ''completed'') \<and> node_decision g d' \<in> {NoReplay, Reject}"
proof -
  obtain g where g: "mark_tool_call_completed ''tool:call:1'' ''approved'' small_graph = Inr g"
    by (simp add: mark_tool_call_completed_def small_graph_def node_by_id_def field_or_def Let_def)
  have n: "map_of small_graph ''nodes'' =
      Some (JList [JObj [(''id'', JStr ''tool:call:1''), (''type'', JStr ''tool_call''), (''status'', JStr ''pending'')]])"
    by (simp add: small_graph_def)
  obtain j d d' where "j < length [JObj [(''id'', JStr ''tool:call:1''), (''type'', JStr ''tool_call''), (''status'', JStr ''pending'')]]"
    "content_hash_ok (JObj d')" "map_of d' ''status'' = Some (JStr ''completed'')" "node_decision g d' \<in> {NoReplay, Reject}"
    using mark_completed_spec [OF g n] by (elim exE conjE) (rule that)
  with g show ?thesis by (intro exI [of _ g] exI [of _ j] exI [of _ d'] conjI) simp_all
qed

theorem conformance_exact_witness:
  "\<exists>g. lists_ok g \<and> conforms g (sort_keys adapter_capability_manifest) \<and>
     validate_graph_conformance (JObj g) (sort_keys adapter_capability_manifest) = Inr ()"
proof -
  obtain g where g: "fa_build_graph ''mcp_resource_session'' = Inr g" by (simp add: fa_build_graph_def ADAPTERS_def)
  from g obtain a ext d where f: "(''mcp_resource_session'', a) \<in> set ADAPTERS" "wf_json (JObj g)" "references_ok g"
    "graph_hash_valid (JObj g)" "lists_ok g" "map_of g ''extensions'' = Some (JObj ext)"
    "map_of ext ''org.permeantos.adapter.id'' = Some (JStr (adapter_id a))"
    "map_of g ''agent'' = Some (JObj d)" "map_of d ''runtime'' = Some (JStr (runtime a))"
    by (rule adapter_graph_facts)
  have c: "conforms (sorted_obj g) (sort_keys adapter_capability_manifest)"
    using f by (intro conforms_sorted) (simp_all add: field_or_def del: wf_json.simps)
  have l: "lists_ok (sorted_obj g)" by (rule lists_ok_sorted [OF f(2,5)])
  from conformance_exact [OF l] c l show ?thesis by blast
qed

lemma adapter_exports: "\<exists>g m s. export_adapter_package ''mcp_resource_session'' out_dir Map.empty = (Inr (g, m), s)"
proof -
  obtain g where g: "fa_build_graph ''mcp_resource_session'' = Inr g" by (simp add: fa_build_graph_def ADAPTERS_def)
  let ?ws = "[(path_sub out_dir ''graph.json'', utf8_encode (dumps_pretty (JObj g) @ [CHR 0x0A])),
    (path_sub out_dir ''adapter-manifest.json'', utf8_encode (dumps_pretty adapter_capability_manifest @ [CHR 0x0A]))]"
  have "laid_out out_dir {} Map.empty" by (rule laid_out_free) (simp_all add: free_dir_def unblocked_def node_at_def Path_def path_root_def below_def)
  then have "\<exists>s. fs_store.write_all ?ws Map.empty = (Inr (), s)"
    by (rule write_all_possible) (auto simp: apart_def below_def path_sub_def path_join_def is_absolute_def Path_def path_root_def)
  then show ?thesis using g by (auto simp: export_adapter_package_def bindIO_def write_json_def split: prod.splits sum.splits)
qed

theorem adapter_package_roundtrip_witness:
  "\<exists>g m s r. export_adapter_package ''mcp_resource_session'' out_dir Map.empty = (Inr (g, m), s) \<and>
     import_adapter_package out_dir s = (Inr (JObj r), s) \<and> map_of r ''status'' = Some (JStr ''verified'')"
proof -
  obtain g m s where e: "export_adapter_package ''mcp_resource_session'' out_dir Map.empty = (Inr (g, m), s)"
    using adapter_exports by blast
  with adapter_package_roundtrip [OF e] show ?thesis by blast
qed

section \<open>A resumable package\<close>

text \<open>The two tool calls that a resume looks for, in front of the nodes of the reference session.\<close>

lemma well_resume_calls: "list_all well_node [read_aws_quota_node, publish_release_node]"
  unfolding read_aws_quota_node_def publish_release_node_def
  by (simp, intro conjI; rule well_base_node)
    (simp_all add: plain_keys scalar_fields_def safe_call_def ALLOWED_TOOL_NAMES_def replay_decision_def
      finished_status_def mutating_def non_mutating_def pending_status_def)

lemma resume_call_types: "node_type read_aws_quota_node = ''tool_call''" "node_type publish_release_node = ''tool_call''"
  by (simp_all add: read_aws_quota_node_def publish_release_node_def node_type_base)

definition resume_ready :: "obj \<Rightarrow> bool" where
  "resume_ready g \<longleftrightarrow> wf_json (JObj g) \<and>
     (\<exists>q p ns. map_of g ''nodes'' = Some (JList (JObj q # JObj p # ns)) \<and>
        map_of q ''id'' = Some (JStr ''tool:call:read-aws-quota'') \<and> map_of q ''type'' = Some (JStr ''tool_call'') \<and>
        map_of q ''side_effect'' = Some (JStr ''read_only'') \<and> map_of q ''resume_policy'' = Some (JStr ''retry_safe'') \<and>
        map_of p ''id'' = Some (JStr ''tool:call:publish-release'')) \<and>
     (\<exists>es. map_of g ''edges'' = Some (JList es)) \<and> (\<exists>ls. map_of g ''lineage'' = Some (JList ls)) \<and>
     (\<exists>i. map_of g ''graph_id'' = Some (JStr i)) \<and> (\<exists>h. map_of g ''graph_hash'' = Some (JStr h))"

lemma resumable_package:
  "\<exists>g m prompt. package_ready [(reference_record, reference_artifact_bytes)] g m prompt \<and> resume_ready g"
proof -
  let ?h = "sha256_bytes reference_artifact_bytes"
  let ?rcs = "plain_pairs (reference_messages ?h)"
  note pm = reference_messages_plain(1) [of ?h] and len = reference_messages_plain(2) [of ?h, OF length_sha256_bytes]
  define session where "session = \<lparr>messages = reference_messages ?h, artifact_path = ''reports/result.json'',
      artifact_bytes = reference_artifact_bytes, deterministic_response = deterministic_continue (prompt_text ?rcs) ?h\<rparr>"
  have ch: "content_hash reference_record = ?h"
    by (simp add: reference_record_def build_artifact_record_from_bytes_def Let_def)
  have b: "built_from reference_artifact_bytes reference_record"
    unfolding built_from_def reference_record_fields(2) using result_path(1) by (auto simp: reference_record_def)
  have sm: "messages session = map message ?rcs" using pm by (simp add: session_def)
  obtain ms es where ms: "list_all well_node ms" "list_all (\<lambda>n. node_type n = ''message'') ms"
      "map said ms = map (\<lambda>(r, c). (Some (JStr r), Some (JStr c))) ?rcs" and es: "list_all clean es"
    using build_graph_plain [OF sm b] by blast
  define th where "th = sha256_bytes []"
  define ns where "ns = session_nodes ms ''reports/result.json'' reference_record (prompt_text ?rcs) th"
  define d where "d = reference_graph_fields ([read_aws_quota_node, publish_release_node] @ ns) es (prompt_text ?rcs) th"
  obtain hh s where g: "graph_ready (hash_graph d) ([read_aws_quota_node, publish_release_node] @ ns) hh ?rcs s"
    using extended_graph_ready [OF ms es b len well_resume_calls, of "''reports/result.json''" th]
    by (auto simp: resume_call_types d_def ns_def)
  note l = hash_graph_facts(1) [of _ d] and f = reference_graph_lookups
  obtain v where v: "map_of (hash_graph d) ''kv_spans'' = Some v" using f(4) [of "[read_aws_quota_node, publish_release_node] @ ns" es "prompt_text ?rcs" th]
    unfolding d_def [symmetric] by (auto simp: l)
  obtain m where m: "manifest_ready (hash_graph d) m hh (prompt_text ?rcs) s [(reference_record, reference_artifact_bytes)]"
    using build_manifest_ready [OF g v b, of session] ch by (auto simp: session_def)
  have "blobs_ready [(reference_record, reference_artifact_bytes)]" using b by (simp add: blobs_ready_def)
  then have p: "package_ready [(reference_record, reference_artifact_bytes)] (hash_graph d) m (prompt_text ?rcs)" by (rule package_readyI [OF g m])
  have nodes: "map_of (hash_graph d) ''nodes'' = Some (JList (read_aws_quota_node # publish_release_node # ns))" by (subst l) (simp_all add: d_def f)
  have "wf_json (JObj (hash_graph d))" using g by (simp add: graph_ready_def clean_def)
  moreover have "\<exists>q p. read_aws_quota_node = JObj q \<and> publish_release_node = JObj p \<and> map_of q ''id'' = Some (JStr ''tool:call:read-aws-quota'') \<and>
      map_of q ''type'' = Some (JStr ''tool_call'') \<and> map_of q ''side_effect'' = Some (JStr ''read_only'') \<and>
      map_of q ''resume_policy'' = Some (JStr ''retry_safe'') \<and> map_of p ''id'' = Some (JStr ''tool:call:publish-release'')"
    unfolding read_aws_quota_node_def publish_release_node_def base_node_dict by (simp add: map_of_node_dict)
  moreover have "\<exists>es. map_of (hash_graph d) ''edges'' = Some (JList es)" "\<exists>ls. map_of (hash_graph d) ''lineage'' = Some (JList ls)"
    "\<exists>i. map_of (hash_graph d) ''graph_id'' = Some (JStr i)" "\<exists>h. map_of (hash_graph d) ''graph_hash'' = Some (JStr h)"
    using hash_graph_facts(3) [of d] f(2) [of "[read_aws_quota_node, publish_release_node] @ ns" es "prompt_text ?rcs" th]
      f(7,8) [of "[read_aws_quota_node, publish_release_node] @ ns" es "prompt_text ?rcs" th]
    unfolding d_def [symmetric] by (auto simp: l)
  ultimately have "resume_ready (hash_graph d)" using nodes unfolding resume_ready_def by force
  with p show ?thesis by blast
qed

lemma resume_ready_sorted: "resume_ready g \<Longrightarrow> resume_ready (sorted_obj g)"
proof -
  assume r: "resume_ready g"
  then have wf: "wf_json (JObj g)" by (simp add: resume_ready_def)
  obtain q p ns where n: "map_of g ''nodes'' = Some (JList (JObj q # JObj p # ns))"
    and f: "map_of q ''id'' = Some (JStr ''tool:call:read-aws-quota'')" "map_of q ''type'' = Some (JStr ''tool_call'')"
      "map_of q ''side_effect'' = Some (JStr ''read_only'')" "map_of q ''resume_policy'' = Some (JStr ''retry_safe'')"
      "map_of p ''id'' = Some (JStr ''tool:call:publish-release'')"
    using r by (auto simp: resume_ready_def)
  have "wf_json (JList (JObj q # JObj p # ns))" using wf_field_or [OF wf, of JNull "''nodes''"] n by (simp add: field_or_def)
  then have w: "wf_json (JObj q)" "wf_json (JObj p)" by simp_all
  have "\<exists>ns. map_of (sorted_obj g) ''nodes'' = Some (JList (JObj (sorted_obj q) # JObj (sorted_obj p) # ns))"
    using n map_of_sorted_obj [OF wf] by simp
  moreover have "wf_json (JObj (sorted_obj g))" using wf_sort_keys [OF wf] by (simp del: wf_json.simps)
  ultimately show ?thesis
    using r map_of_sorted_obj [OF wf] f map_of_sorted_obj [OF w(1)] map_of_sorted_obj [OF w(2)]
    unfolding resume_ready_def by fastforce
qed

lemma quota_check_runs:
  assumes "resume_ready g"
  shows "\<exists>g' qh. run_quota_check g = Inr (g', qh) \<and>
    (\<exists>q p ns. map_of g' ''nodes'' = Some (JList (JObj q # JObj p # ns)) \<and> map_of q ''id'' = Some (JStr ''tool:call:read-aws-quota'') \<and>
       map_of p ''id'' = Some (JStr ''tool:call:publish-release'')) \<and>
    (\<forall>k. k \<notin> {''nodes'', ''edges''} \<longrightarrow> map_of g' k = map_of g k)"
proof -
  obtain q p ns es where n: "map_of g ''nodes'' = Some (JList (JObj q # JObj p # ns))" and e: "map_of g ''edges'' = Some (JList es)"
    and f: "map_of q ''id'' = Some (JStr ''tool:call:read-aws-quota'')" "map_of q ''type'' = Some (JStr ''tool_call'')"
      "map_of q ''side_effect'' = Some (JStr ''read_only'')" "map_of q ''resume_policy'' = Some (JStr ''retry_safe'')"
      "map_of p ''id'' = Some (JStr ''tool:call:publish-release'')"
    using assms by (auto simp: resume_ready_def)
  have b: "node_by_id g ''tool:call:read-aws-quota'' = Inr (0, JObj q)" using n f(1) by (simp add: node_by_id_def)
  define d where "d = refresh_node_content_hash (dict_set ''approval_state'' (JStr ''not_required'') (dict_set ''status'' (JStr ''completed'') q))"
  have m: "mark_tool_call_completed ''tool:call:read-aws-quota'' ''not_required'' g = Inr (dict_set ''nodes'' (JList (JObj d # JObj p # ns)) g)"
    using n f(2) by (simp add: mark_tool_call_completed_def b field_or_def Let_def d_def)
  have "map_of d ''id'' = Some (JStr ''tool:call:read-aws-quota'')" using f(1) by (simp add: d_def refresh_node_content_hash_def)
  then show ?thesis
    using n e f m b
    by (simp add: run_quota_check_def append_post_migration_node_def extend_list_field_def Let_def)
qed


text \<open>The graph that a resume without approval writes.\<close>

lemma graph_resumes:
  assumes "resume_ready g"
  shows "\<exists>ph g1 qh bl g3 g4 post. py_item (JObj g) ''graph_hash'' = Inr ph \<and> run_quota_check g = Inr (g1, qh) \<and>
    (\<forall>ws r s. run_publish ws r ph False g1 s = (Inr (g1, [], bl, []), s)) \<and>
    append_post_migration_node ''event:post-migration-agent-resume'' ''event'' resume_event_payload g1 = Inr g3 \<and>
    seal_graph ''post_migration_agent_resume'' ''source_graph_id'' ph g3 = Inr g4 \<and> py_item (JObj g4) ''graph_hash'' = Inr post"
proof -
  obtain g1 qh q p ns where g1: "run_quota_check g = Inr (g1, qh)" and n: "map_of g1 ''nodes'' = Some (JList (JObj q # JObj p # ns))"
      "map_of q ''id'' = Some (JStr ''tool:call:read-aws-quota'')" "map_of p ''id'' = Some (JStr ''tool:call:publish-release'')"
    and k: "\<And>k. k \<notin> {''nodes'', ''edges''} \<Longrightarrow> map_of g1 k = map_of g k"
    using quota_check_runs [OF assms] by (elim exE conjE) (rule that, blast+)
  obtain h i ls where f: "map_of g ''graph_hash'' = Some (JStr h)" "map_of g ''graph_id'' = Some (JStr i)" "map_of g ''lineage'' = Some (JList ls)"
    using assms by (auto simp: resume_ready_def)
  obtain bl where "run_publish ws r ph False g1 s = (Inr (g1, [], bl, []), s)" for ws r ph s
  proof -
    have "node_by_id g1 ''tool:call:publish-release'' = Inr (1, JObj p)" using n by (simp add: node_by_id_def)
    then show thesis by (intro that) (simp add: run_publish_def bindIO_def)
  qed
  then show ?thesis
    using g1 n(1) f k
    by (simp add: append_post_migration_node_def extend_list_field_def seal_graph_def Let_def)
qed


lemma out_paths:
  "Path (as_posix out_workspace) = out_workspace"
  "out_workspace = \<lparr>anchor = [], parts = [''out'', ''restored-workspace'']\<rparr>"
  by (simp_all add: import_workspace_def path_sub_def path_join_def Path_def path_root_def is_absolute_def as_posix_def)

lemma resume_writes:
  assumes "laid_out out_workspace {path_sub out_workspace ''reports/result.json''} s"
  shows "\<exists>t. write_json (path_sub (resume_dir out_workspace) ''resumed-graph.json'') g s = (Inr (), t) \<and>
    (\<exists>t'. write_json (path_sub (resume_dir out_workspace) ''resume-report.json'') v t = (Inr (), t'))"
proof -
  let ?ws = "[(path_sub (resume_dir out_workspace) ''resumed-graph.json'', utf8_encode (dumps_pretty g @ [CHR 0x0A])),
    (path_sub (resume_dir out_workspace) ''resume-report.json'', utf8_encode (dumps_pretty v @ [CHR 0x0A]))]"
  have "\<exists>t'. fs_store.write_all ?ws s = (Inr (), t')"
    by (rule write_all_possible [OF assms], unfold out_paths(2))
      (simp_all add: apart_def below_def resume_dir_def path_sub_def path_join_def is_absolute_def Path_def path_root_def)
  then show ?thesis by (auto simp: write_json_def split: prod.splits sum.splits)
qed

lemma resumable_run: "\<exists>s rep s'. resume_imported_agent out_dir None False s = (Inr rep, s')"
proof -
  obtain g m prompt where p: "package_ready [(reference_record, reference_artifact_bytes)] g m prompt" and g: "resume_ready g"
    using resumable_package by blast
  obtain s where s: "write_package out_dir [(reference_record, reference_artifact_bytes)] g m Map.empty = (Inr (), s)"
    using write_package_possible [OF fs_tree_empty out_writable p] by blast
  note pw = package_written [OF fs_tree_empty s p]
  have tg: "targets out_workspace [(reference_record, reference_artifact_bytes)] = [(path_sub out_workspace ''reports/result.json'', reference_artifact_bytes)]"
    by (simp add: targets_def reference_record_fields)
  obtain r s1 where i: "import_session out_dir None (JStr RUNTIME_ID) s = (Inr r, s1)" "ir_restored_workspace r = as_posix out_workspace"
    and k: "\<And>q. q \<noteq> path_sub out_workspace ''reports/result.json'' \<Longrightarrow> files s1 q = files s q"
    and l: "laid_out out_workspace {path_sub out_workspace ''reports/result.json''} s1"
    using package_imports [OF p pw(1) refl pw(2,3)] unfolding tg by auto
  have wm: "wf_json (JObj m)" and gp: "map_of m ''graph_path'' = Some (JStr ''graph.json'')"
    using p unfolding package_ready_def gates_ready_def graph_nodes_def by blast+
  have wg: "wf_json (JObj g)" using g by (simp add: resume_ready_def)
  have "path_sub out_dir f \<noteq> path_sub out_workspace ''reports/result.json''" if "f \<in> {''manifest.json'', ''graph.json''}" for f
    unfolding out_paths(2) using that by (auto simp: path_sub_def path_join_def is_absolute_def Path_def path_root_def)
  then have rd: "read_json (path_sub out_dir ''manifest.json'') s1 = (Inr (JObj (sorted_obj m)), s1)"
    "read_json (path_join out_dir (Path ''graph.json'')) s1 = (Inr (JObj (sorted_obj g)), s1)"
    using pw(1) k read_json_bytes [OF _ wm, of s1] read_json_bytes [OF _ wg, of s1] unfolding package_on_disk_def path_sub_def by simp_all
  have gpath: "bindR (py_item (JObj (sorted_obj m)) ''graph_path'') safe_package_relative_path = Inr (Path ''graph.json'')"
    using wm gp by (simp add: safe_package_relative_path_def safe_relative_path_def is_absolute_def json_Path del: wf_json.simps)
  obtain ph g1 qh bl g3 g4 post where st: "py_item (JObj (sorted_obj g)) ''graph_hash'' = Inr ph" "run_quota_check (sorted_obj g) = Inr (g1, qh)"
      "\<And>ws r s. run_publish ws r ph False g1 s = (Inr (g1, [], bl, []), s)"
      "append_post_migration_node ''event:post-migration-agent-resume'' ''event'' resume_event_payload g1 = Inr g3"
      "seal_graph ''post_migration_agent_resume'' ''source_graph_id'' ph g3 = Inr g4" "py_item (JObj g4) ''graph_hash'' = Inr post"
    using graph_resumes [OF resume_ready_sorted [OF g]] by (elim exE conjE) (rule that, blast+)
  have rel: "relative_to (path_sub (resume_dir out_workspace) f) out_workspace = Inr (path_sub (path_sub (Path ''reports'') ''resume'') f)"
    if "f \<in> {''resumed-graph.json'', ''resume-report.json''}" for f
    unfolding out_paths(2) using that by (auto simp: relative_to_def resume_dir_def path_sub_def path_join_def is_absolute_def Path_def path_root_def)
  let ?rep = "seal_report (resume_report False ph post r (quota_execution qh # []) bl [] (as_posix (path_sub (path_sub (Path ''reports'') ''resume'') ''resumed-graph.json'')))"
  obtain t t' where w: "write_json (path_sub (resume_dir out_workspace) ''resumed-graph.json'') (JObj g4) s1 = (Inr (), t)"
      "write_json (path_sub (resume_dir out_workspace) ''resume-report.json'') (JObj ?rep) t = (Inr (), t')"
    using resume_writes [OF l, of "JObj g4" "JObj ?rep"] by blast
  have "\<exists>rep s'. resume_imported_agent out_dir None False s = (Inr rep, s')"
    unfolding resume_imported_agent_def Let_def resume_dir_def [symmetric]
    by (simp add: bindIO_def i rd gpath as_obj_def st rel w out_paths(1) del: py_item_JObj)
  then show ?thesis by blast
qed

theorem returned_report_fails_proof_witness:
  "\<exists>s rep s' r s1 d. resume_imported_agent out_dir None False s = (Inr rep, s') \<and>
     import_session out_dir None (JStr RUNTIME_ID) s = (Inr r, s1) \<and>
     read_json (path_sub (resume_dir (Path (ir_restored_workspace r))) ''resume-report.json'') s' = (Inr d, s') \<and>
     verify_resume_report_proof d = Inr () \<and>
     (verify_resume_report_proof (JObj rep) = Inl (ImportVerificationError ''target resume report proof hash mismatch'') \<or>
      sha_collision (utf8_encode (dumps_canonical (JObj (dict_pop ''proof_hash'' rep))))
        (utf8_encode (dumps_canonical (JObj (dict_pop ''resume_report_path'' (dict_pop ''proof_hash'' rep))))))"
proof -
  obtain s rep s' where r: "resume_imported_agent out_dir None False s = (Inr rep, s')" using resumable_run by blast
  from returned_report_fails_proof [OF r] r show ?thesis by blast
qed

end
