(* ===== verification/AdapterUtils.thy ===== *)
theory AdapterUtils
  imports GraphCore
begin

text \<open>
  The payload normalisation the runtime adapters share
  (\<^verbatim>\<open>adapters/runtime_adapter_utils.py\<close>): JSON requests, shape inference and flattening of
  nested tensor data, the extractor payload and the injector response.
\<close>

definition adapter_error :: "string \<Rightarrow> 'a res" where
  "adapter_error msg = Inl (AdapterError msg)"

section \<open>JSON requests\<close>

text \<open>\<open>str.strip()\<close> on code points up to U+00FF.\<close>

definition py_space :: "char \<Rightarrow> bool" where
  "py_space c = (let n = of_char c :: nat in (9 \<le> n \<and> n \<le> 13) \<or> (28 \<le> n \<and> n \<le> 32) \<or> n = 133 \<or> n = 160)"

definition py_strip :: "string \<Rightarrow> string" where
  "py_strip s = rev (dropWhile py_space (rev (dropWhile py_space s)))"

text \<open>\<open>except json.JSONDecodeError as exc: raise AdapterError(pre + str(exc))\<close>.\<close>

definition wrap_decode_error :: "string \<Rightarrow> 'a res \<Rightarrow> 'a res" where
  "wrap_decode_error pre m =
     (case m of Inl (JSONDecodeError exc) \<Rightarrow> adapter_error (pre @ exc) | _ \<Rightarrow> m)"

definition load_json_stdin :: "string \<Rightarrow> json res" where
  "load_json_stdin stdin =
     (let raw = py_strip stdin
      in if raw = [] then adapter_error ''empty JSON request on stdin''
         else wrap_decode_error ''invalid JSON request: '' (json_loads raw))"

definition load_json_file :: "string \<Rightarrow> json io" where
  "load_json_file path = (\<lambda>s.
     case read_bytes s (Path path) of
       Inl (FileNotFoundError _) \<Rightarrow> (adapter_error (''fixture file not found: '' @ path), s)
     | Inl e \<Rightarrow> (Inl e, s)
     | Inr data \<Rightarrow>
         (bindR (utf8_decode data) (\<lambda>t.
            wrap_decode_error (''invalid JSON fixture at '' @ path @ '': '') (json_loads t)), s))"

definition dump_json_stdout :: "json \<Rightarrow> string" where
  "dump_json_stdout payload = dumps_default payload"

section \<open>Tensor data\<close>

fun infer_shape :: "json \<Rightarrow> int list res" where
  "infer_shape (JList []) = Inr [0]"
| "infer_shape (JList (x # xs)) =
     bindR (mapR infer_shape (x # xs)) (\<lambda>child_shapes.
       if \<exists>shape\<in>set (tl child_shapes). shape \<noteq> hd child_shapes
       then adapter_error ''tensor data has a ragged nested shape''
       else Inr (int (length (x # xs)) # hd child_shapes))"
| "infer_shape _ = Inr []"

text \<open>\<open>float(x)\<close> of an \<open>int\<close>, a \<open>bool\<close> or a \<open>float\<close>.\<close>

definition float_of_int :: "int \<Rightarrow> pyfloat res" where
  "float_of_int i =
     (case rnd (of_int i) of
        Fin r \<Rightarrow> Inr (Fin r)
      | _ \<Rightarrow> Inl (OverflowError ''int too large to convert to float''))"

fun flatten_numeric :: "json \<Rightarrow> pyfloat list res" where
  "flatten_numeric (JInt i) = bindR (float_of_int i) (\<lambda>f. Inr [f])"
| "flatten_numeric (JBool b) = Inr [Fin (if b then 1 else 0)]"
| "flatten_numeric (JFloat f) = Inr [f]"
| "flatten_numeric (JList xs) = bindR (mapR flatten_numeric xs) (\<lambda>fss. Inr (concat fss))"
| "flatten_numeric _ = adapter_error ''tensor data must be numeric or nested numeric lists''"

section \<open>Extractor payloads\<close>

definition tensor_label :: "nat \<Rightarrow> string" where
  "tensor_label idx = ''tensor '' @ nat_str idx"

text \<open>\<open>except AdapterError as exc: raise AdapterError(pre + str(exc))\<close>.\<close>

definition wrap_adapter_error :: "string \<Rightarrow> 'a res \<Rightarrow> 'a res" where
  "wrap_adapter_error pre m =
     (case m of Inl (AdapterError exc) \<Rightarrow> adapter_error (pre @ exc) | _ \<Rightarrow> m)"

definition normalize_tensor :: "nat \<times> json \<Rightarrow> json res" where
  "normalize_tensor = (\<lambda>(idx, tensor).
     if \<not> is_dict tensor then adapter_error (tensor_label idx @ '' must be an object'')
     else
       bindR (py_get tensor ''name'') (\<lambda>name.
       bindR (py_get tensor ''shape'') (\<lambda>shape.
       bindR (py_get tensor ''data'') (\<lambda>data.
       if \<not> (is_str name \<and> truthy name)
       then adapter_error (tensor_label idx @ '' is missing a valid '' @ repr_str ''name'')
       else
         bindR (if shape = JNull then bindR (infer_shape data) (\<lambda>sh. Inr (JList (map JInt sh))) else Inr shape) (\<lambda>shape.
         if \<not> (case shape of JList xs \<Rightarrow> list_all is_int xs | _ \<Rightarrow> False)
         then adapter_error (tensor_label idx @ '' has an invalid '' @ repr_str ''shape'')
         else
           bindR (wrap_adapter_error (tensor_label idx @ '' has invalid '' @ repr_str ''data'' @ '': '')
                    (flatten_numeric data)) (\<lambda>flat_data.
           if \<not> is_list data then adapter_error (tensor_label idx @ '' has invalid '' @ repr_str ''data'')
           else Inr (JObj [(''name'', name), (''shape'', shape), (''data'', JList (map JFloat flat_data))])))))))"

definition normalize_extractor_payload :: "json \<Rightarrow> json res" where
  "normalize_extractor_payload payload =
     (let payload = (if is_list payload then JObj [(''tensors'', payload)] else payload) in
      if \<not> is_dict payload then adapter_error ''extractor payload must be an object or tensor list''
      else
        bindR (py_get payload ''tensors'') (\<lambda>tensors.
        case tensors of
          JList ts \<Rightarrow>
            bindR (mapR normalize_tensor (enum_from 0 ts)) (\<lambda>normalized.
            bindR (py_get payload ''agent_graph_span_metadata'') (\<lambda>meta.
            if meta = JNull then Inr (JObj [(''tensors'', JList normalized)])
            else if \<not> is_dict meta then adapter_error ''agent_graph_span_metadata must be an object when present''
            else Inr (JObj [(''tensors'', JList normalized), (''agent_graph_span_metadata'', meta)])))
        | _ \<Rightarrow> adapter_error (''extractor payload must contain a '' @ repr_str ''tensors'' @ '' list'')))"

section \<open>Injector responses\<close>

definition injector_error_field :: "obj \<Rightarrow> obj res" where
  "injector_error_field d =
     (case map_of d ''error'' of
        None \<Rightarrow> Inr []
      | Some v \<Rightarrow>
          if v \<noteq> JNull \<and> \<not> is_str v
          then adapter_error (''injector response field '' @ repr_str ''error'' @ '' must be a string when present'')
          else Inr [(''error'', v)])"

definition injector_missing_field :: "obj \<Rightarrow> obj res" where
  "injector_missing_field d =
     (case map_of d ''missing_hashes'' of
        None \<Rightarrow> Inr []
      | Some v \<Rightarrow>
          if \<not> (case v of JList xs \<Rightarrow> list_all is_str xs | _ \<Rightarrow> False)
          then adapter_error (''injector response field '' @ repr_str ''missing_hashes'' @
                 '' must be a string list when present'')
          else Inr [(''missing_hashes'', v)])"

definition normalize_injector_response :: "json \<Rightarrow> json res" where
  "normalize_injector_response payload =
     (case payload of
        JNull \<Rightarrow> Inr (JObj [(''success'', JBool True)])
      | JObj d \<Rightarrow>
          (case field_or d ''success'' (JBool True) of
             JBool b \<Rightarrow>
               bindR (injector_error_field d) (\<lambda>err.
               bindR (injector_missing_field d) (\<lambda>missing.
                 Inr (JObj ((''success'', JBool b) # err @ missing))))
           | _ \<Rightarrow> adapter_error (''injector response field '' @ repr_str ''success'' @ '' must be a boolean when present''))
      | _ \<Rightarrow> adapter_error ''injector response must be a JSON object'')"

section \<open>Shapes describe the data\<close>

text \<open>A nested list of exactly the given dimensions.\<close>

fun has_shape :: "json \<Rightarrow> int list \<Rightarrow> bool" where
  "has_shape (JList xs) (n # ns) = (int (length xs) = n \<and> (xs \<noteq> [] \<longrightarrow> list_all (\<lambda>x. has_shape x ns) xs) \<and> (xs = [] \<longrightarrow> ns = []))"
| "has_shape (JList xs) [] = False"
| "has_shape _ sh = (sh = [])"

lemma adapter_error_neq [simp]: "adapter_error msg \<noteq> Inr x" "Inr x \<noteq> adapter_error msg"
  by (simp_all add: adapter_error_def)

lemma infer_shape_iff: "infer_shape v = Inr sh \<longleftrightarrow> has_shape v sh"
proof (induction v arbitrary: sh)
  case (JList xs)
  show ?case
  proof (cases xs)
    case Nil
    then show ?thesis by (cases sh) auto
  next
    case (Cons x ys)
    have IH: "infer_shape y = Inr s \<longleftrightarrow> has_shape y s" if "y \<in> set xs" for y s
      using JList that by blast
    have m: "mapR infer_shape zs = Inr (replicate (length zs) s) \<longleftrightarrow> list_all (\<lambda>z. has_shape z s) zs"
      if "set zs \<subseteq> set xs" for zs s
      using that IH by (induction zs) (auto simp: bindR_eq_Inr)
    have r: "mapR infer_shape ys = Inr cs \<and> (\<forall>c\<in>set cs. c = s) \<longleftrightarrow> mapR infer_shape ys = Inr cs \<and> cs = replicate (length ys) s" for cs s
      using mapR_length [of infer_shape ys cs] by (auto intro: replicate_eqI)
    have "infer_shape (JList xs) = bindR (infer_shape x) (\<lambda>s. bindR (mapR infer_shape ys) (\<lambda>cs.
        if \<exists>c\<in>set cs. c \<noteq> s then adapter_error ''tensor data has a ragged nested shape''
        else Inr (int (length xs) # s)))"
      by (simp add: Cons bindR_assoc cong: if_cong)
    then have "infer_shape (JList xs) = Inr sh \<longleftrightarrow>
        (\<exists>s cs. sh = int (length xs) # s \<and> infer_shape x = Inr s \<and> mapR infer_shape ys = Inr cs \<and> (\<forall>c\<in>set cs. c = s))"
      by (auto simp: bindR_eq_Inr simp del: infer_shape.simps)
    then have "infer_shape (JList xs) = Inr sh \<longleftrightarrow>
        (\<exists>s. sh = int (length xs) # s \<and> has_shape x s \<and> list_all (\<lambda>z. has_shape z s) ys)"
      using r m [of ys] IH [of x] Cons by auto
    then show ?thesis using Cons by (cases sh) auto
  qed
qed (simp_all add: eq_commute [of "[]"])

lemma flatten_length: "has_shape v sh \<Longrightarrow> flatten_numeric v = Inr fs \<Longrightarrow> int (length fs) = prod_list sh"
proof (induction v arbitrary: sh fs)
  case (JList xs)
  obtain n ns where sh: "sh = n # ns" using JList.prems(1) by (cases sh) auto
  obtain fss where fss: "mapR flatten_numeric xs = Inr fss" and fs: "fs = concat fss"
    using JList.prems(2) by (auto simp: bindR_eq_Inr)
  have len: "length fss = length xs" using fss by (rule mapR_length)
  have "int (length f) = prod_list ns" if f: "f \<in> set fss" for f
  proof -
    obtain x where x: "x \<in> set xs" "flatten_numeric x = Inr f" using mapR_source [OF fss f] by blast
    have "has_shape x ns" using JList.prems(1) x(1) by (auto simp: sh list_all_iff)
    with JList.IH x show ?thesis by blast
  qed
  then have "int (sum_list (map length fss)) = int (length fss) * prod_list ns"
    by (induction fss) (auto simp: algebra_simps)
  moreover have "int (length xs) = n" using JList.prems(1) by (simp add: sh)
  ultimately show ?case by (simp add: fs len sh length_concat)
qed (auto simp: bindR_eq_Inr)

text \<open>Inferred shapes are exact: shape inference succeeds precisely on regular nested lists, and then
  flattening the same data, when it succeeds, yields as many numbers as the shape counts.\<close>

theorem inferred_shape_exact:
  "(infer_shape v = Inr sh \<longleftrightarrow> has_shape v sh) \<and>
   (infer_shape v = Inr sh \<and> flatten_numeric v = Inr fs \<longrightarrow> int (length fs) = prod_list sh)"
  using infer_shape_iff flatten_length by blast

theorem inferred_shape_exact_witness:
  "infer_shape (JList [JList [JInt 1, JInt 2, JInt 3], JList [JInt 4, JInt 5, JBool True]]) = Inr [2, 3] \<and>
   int (length [Fin 1, Fin 0]) = prod_list [2]"
proof -
  have f: "flatten_numeric (JList [JBool True, JFloat (Fin 0)]) = Inr [Fin 1, Fin 0]"
    "infer_shape (JList [JBool True, JFloat (Fin 0)]) = Inr [2]" by simp_all
  have "infer_shape (JList [JList [JInt 1, JInt 2, JInt 3], JList [JInt 4, JInt 5, JBool True]]) = Inr [2, 3]"
    by simp
  with f inferred_shape_exact [of "JList [JBool True, JFloat (Fin 0)]" "[2]" "[Fin 1, Fin 0]"] show ?thesis by simp
qed

section \<open>Normal forms\<close>

text \<open>A normalised tensor: a name, a shape of integers and flat floating-point data.\<close>

definition normal_tensor :: "json \<Rightarrow> bool" where
  "normal_tensor t \<longleftrightarrow>
     (\<exists>n sh fs. t = JObj [(''name'', JStr n), (''shape'', JList sh), (''data'', JList (map JFloat fs))] \<and>
        n \<noteq> [] \<and> list_all is_int sh)"

lemma flatten_floats [simp]: "mapR flatten_numeric (map JFloat fs) = Inr (map (\<lambda>f. [f]) fs)"
  by (induction fs) auto

lemma wrap_adapter_error_Inr [simp]: "wrap_adapter_error pre (Inr x) = Inr x"
  "wrap_adapter_error pre m = Inr x \<longleftrightarrow> m = Inr x"
  by (auto simp: wrap_adapter_error_def split: sum.splits py_error.splits)

lemma normalize_tensor_normal: "normalize_tensor (i, t) = Inr u \<Longrightarrow> normal_tensor u"
proof -
  assume n: "normalize_tensor (i, t) = Inr u"
  then obtain d where t: "t = JObj d" by (cases t) (auto simp: normalize_tensor_def)
  from n obtain name sh fs where "is_str name \<and> truthy name"
      "case sh of JList xs \<Rightarrow> list_all is_int xs | _ \<Rightarrow> False"
      "u = JObj [(''name'', name), (''shape'', sh), (''data'', JList (map JFloat fs))]"
    unfolding normalize_tensor_def t
    by (auto simp: py_get_or_field bindR_eq_Inr simp del: py_get_or_JObj is_str.simps split: if_splits)
  then show "normal_tensor u"
    by (cases name; cases sh) (auto simp: normal_tensor_def)
qed

lemma normalize_normal_tensor: "normal_tensor t \<Longrightarrow> normalize_tensor (i, t) = Inr t"
  by (auto simp: normal_tensor_def normalize_tensor_def concat_map_singleton)

lemma normalize_normal_tensors: "list_all normal_tensor ts \<Longrightarrow> mapR normalize_tensor (enum_from k ts) = Inr ts"
  by (induction ts arbitrary: k) (auto simp: normalize_normal_tensor)

lemma normalize_tensors_normal: "mapR normalize_tensor (enum_from k ts) = Inr us \<Longrightarrow> list_all normal_tensor us"
  by (induction ts arbitrary: k us) (auto simp: bindR_eq_Inr dest: normalize_tensor_normal)

definition normal_extractor_payload :: "json \<Rightarrow> bool" where
  "normal_extractor_payload p \<longleftrightarrow>
     (\<exists>ts meta. list_all normal_tensor ts \<and>
        (p = JObj [(''tensors'', JList ts)] \<or>
         p = JObj [(''tensors'', JList ts), (''agent_graph_span_metadata'', JObj meta)]))"

lemma normalize_extractor_dict:
  assumes "normalize_extractor_payload (JObj d) = Inr q"
  shows "normal_extractor_payload q"
proof -
  obtain ts where ts: "field_or d ''tensors'' JNull = JList ts"
    using assms by (cases "field_or d ''tensors'' JNull")
      (auto simp: normalize_extractor_payload_def py_get_or_field simp del: py_get_or_JObj)
  obtain us where us: "mapR normalize_tensor (enum_from 0 ts) = Inr us"
    and q: "(let meta = field_or d ''agent_graph_span_metadata'' JNull
        in if meta = JNull then Inr (JObj [(''tensors'', JList us)])
           else if \<not> is_dict meta then adapter_error ''agent_graph_span_metadata must be an object when present''
           else Inr (JObj [(''tensors'', JList us), (''agent_graph_span_metadata'', meta)])) = Inr q"
    using assms unfolding normalize_extractor_payload_def
    by (auto simp: py_get_or_field ts bindR_eq_Inr Let_def simp del: py_get_or_JObj)
  have "list_all normal_tensor us" using us by (rule normalize_tensors_normal)
  then show ?thesis
    using q unfolding normal_extractor_payload_def
    by (cases "field_or d ''agent_graph_span_metadata'' JNull") (auto simp: Let_def)
qed

lemma normalize_extractor_normal:
  "normalize_extractor_payload p = Inr q \<Longrightarrow> normal_extractor_payload q"
proof (cases p)
  case (JList ts)
  assume "normalize_extractor_payload p = Inr q"
  then have "normalize_extractor_payload (JObj [(''tensors'', JList ts)]) = Inr q"
    by (simp add: JList normalize_extractor_payload_def)
  then show ?thesis by (rule normalize_extractor_dict)
qed (auto simp: normalize_extractor_payload_def [of JNull] normalize_extractor_payload_def [of "JBool _"]
     normalize_extractor_payload_def [of "JInt _"] normalize_extractor_payload_def [of "JFloat _"]
     normalize_extractor_payload_def [of "JStr _"] dest: normalize_extractor_dict)

lemma normalize_normal_extractor: "normal_extractor_payload q \<Longrightarrow> normalize_extractor_payload q = Inr q"
  by (auto simp: normal_extractor_payload_def normalize_extractor_payload_def normalize_normal_tensors)

text \<open>C40: Normalising an extractor payload establishes the normal form (every tensor named, with an integer
  shape and flat floats), and a second normalisation changes nothing.\<close>

theorem extractor_normal_form:
  assumes "normalize_extractor_payload p = Inr q"
  shows "normal_extractor_payload q \<and> normalize_extractor_payload q = Inr q"
  using normalize_extractor_normal [OF assms] normalize_normal_extractor by blast

theorem extractor_normal_form_witness:
  "normal_extractor_payload (JObj [(''tensors'', JList [JObj [(''name'', JStr ''k''), (''shape'', JList [JInt 2]),
     (''data'', JList [JFloat (Fin 1), JFloat (Fin 0)])]])])"
proof -
  have "normalize_extractor_payload (JList [JObj [(''name'', JStr ''k''), (''data'', JList [JBool True, JBool False])]]) =
      Inr (JObj [(''tensors'', JList [JObj [(''name'', JStr ''k''), (''shape'', JList [JInt 2]),
        (''data'', JList [JFloat (Fin 1), JFloat (Fin 0)])]])])"
    by (simp add: normalize_extractor_payload_def normalize_tensor_def)
  from extractor_normal_form [OF this] show ?thesis by simp
qed

text \<open>An injector response normalises to a \<open>success\<close> flag followed by the fields the response had;
  the flag is the response's own, \<open>True\<close> when it had none, and normalising again changes nothing.\<close>

theorem injector_normal_form:
  assumes "normalize_injector_response p = Inr q"
  shows "normalize_injector_response q = Inr q \<and>
    (\<exists>b rest. q = JObj ((''success'', JBool b) # rest) \<and>
       (p = JNull \<and> b \<and> rest = [] \<or> (\<exists>d. p = JObj d \<and> field_or d ''success'' (JBool True) = JBool b)))"
proof (cases p)
  case JNull
  with assms show ?thesis
    by (auto simp: normalize_injector_response_def field_or_def injector_error_field_def injector_missing_field_def)
next
  case (JObj d)
  then obtain b where b: "field_or d ''success'' (JBool True) = JBool b"
    using assms by (auto simp: normalize_injector_response_def split: json.splits)
  then obtain err missing where e: "injector_error_field d = Inr err" and m: "injector_missing_field d = Inr missing"
    and q: "q = JObj ((''success'', JBool b) # err @ missing)"
    using assms JObj by (auto simp: normalize_injector_response_def bindR_eq_Inr)
  have e': "err = [] \<or> (\<exists>v. err = [(''error'', v)] \<and> (v = JNull \<or> is_str v))"
    using e by (auto simp: injector_error_field_def split: option.splits if_splits)
  have m': "missing = [] \<or> (\<exists>xs. missing = [(''missing_hashes'', JList xs)] \<and> list_all is_str xs)"
    using m by (auto simp: injector_missing_field_def split: option.splits if_splits json.splits)
  have "normalize_injector_response q = Inr q"
    using e' m' by (auto simp: q normalize_injector_response_def field_or_def injector_error_field_def injector_missing_field_def)
  with b q JObj show ?thesis by blast
qed (use assms in \<open>auto simp: normalize_injector_response_def\<close>)

theorem injector_normal_form_witness:
  "normalize_injector_response (JObj [(''success'', JBool False), (''error'', JStr ''oom'')]) =
     Inr (JObj [(''success'', JBool False), (''error'', JStr ''oom'')])"
proof -
  have "normalize_injector_response (JObj [(''error'', JStr ''oom''), (''success'', JBool False)]) =
     Inr (JObj [(''success'', JBool False), (''error'', JStr ''oom'')])"
    by (simp add: normalize_injector_response_def field_or_def injector_error_field_def injector_missing_field_def)
  from injector_normal_form [OF this] show ?thesis by simp
qed

end
