(* ===== verification/KvLayout.thy ===== *)
theory KvLayout
  imports AdapterUtils
begin

text \<open>
  The KV-cache part of \<^verbatim>\<open>adapters/vllm_live_runtime_registry.py\<close>: views of a prepared layer, the four
  combined layouts and the separate layouts of a target cache, the loops that write a layer into a
  cache, and the slot probe that samples the written cells. A cache is a nested list without shared
  rows; objects with a \<open>shape\<close> attribute (tensors of an inference library) are not represented.
  A writing loop returns the cache it leaves behind together with its outcome, so that a loop that
  raises half-way keeps the cells it has written.
\<close>

section \<open>Cells of a mutable cache\<close>

text \<open>\<open>range(n)\<close>.\<close>

definition range_list :: "int \<Rightarrow> int list" where
  "range_list n = map int [0..<nat n]"

text \<open>\<open>v[i][j]...\<close> and \<open>v[i][j]... = x\<close> on nested lists.\<close>

fun nested_get :: "json \<Rightarrow> int list \<Rightarrow> json res" where
  "nested_get v [] = Inr v"
| "nested_get v (i # is) = bindR (py_index v i) (\<lambda>w. nested_get w is)"

definition list_assign :: "json \<Rightarrow> int \<Rightarrow> json \<Rightarrow> json res" where
  "list_assign v i x =
     (case v of
        JList xs \<Rightarrow>
          (case seq_pos (length xs) i of
             Some k \<Rightarrow> Inr (JList (xs[k := x]))
           | None \<Rightarrow> Inl (IndexError ''list assignment index out of range''))
      | JObj _ \<Rightarrow> Inl (OutsideModel ''dictionary with an integer key'')
      | _ \<Rightarrow> Inl (TypeError (repr_str (type_name v) @ '' object does not support item assignment'')))"

fun nested_set :: "json \<Rightarrow> int list \<Rightarrow> json \<Rightarrow> json res" where
  "nested_set v [] x = Inr x"
| "nested_set v [i] x = list_assign v i x"
| "nested_set v (i # j # is) x =
     bindR (py_index v i) (\<lambda>w. bindR (nested_set w (j # is) x) (list_assign v i))"

definition assign :: "int list \<Rightarrow> json \<Rightarrow> (json, unit) st" where
  "assign is x cache = (case nested_set cache is x of Inl e \<Rightarrow> (Inl e, cache) | Inr c \<Rightarrow> (Inr (), c))"

section \<open>Shapes and scalars\<close>

text \<open>The loop of \<open>_shape_of_storage\<close>: at an empty list the cursor becomes the empty list again,
  so the loop never ends.\<close>

partial_function (option) shape_loop :: "int list \<Rightarrow> json \<Rightarrow> int list option" where
  "shape_loop dims cursor =
     (case cursor of
        JList xs \<Rightarrow> shape_loop (dims @ [int (length xs)]) (case xs of [] \<Rightarrow> JList [] | x # _ \<Rightarrow> x)
      | _ \<Rightarrow> Some dims)"

fun shape_of_storage :: "json \<Rightarrow> int list res" where
  "shape_of_storage (JList []) = Inl Diverges"
| "shape_of_storage (JList (x # xs)) = bindR (shape_of_storage x) (\<lambda>ds. Inr (int (length (x # xs)) # ds))"
| "shape_of_storage _ = Inr []"

text \<open>\<open>float(v)\<close>; numbers written as text are outside the model.\<close>

definition py_float :: "json \<Rightarrow> pyfloat res" where
  "py_float v =
     (case v of
        JInt i \<Rightarrow> float_of_int i
      | JBool b \<Rightarrow> Inr (Fin (if b then 1 else 0))
      | JFloat f \<Rightarrow> Inr f
      | JStr _ \<Rightarrow> Inl (OutsideModel ''float() of a string'')
      | _ \<Rightarrow> Inl (TypeError (''float() argument must be a string or a real number, not '' @ repr_str (type_name v))))"

definition scalar :: "json \<Rightarrow> pyfloat res" where
  "scalar v = py_float v"

text \<open>\<open>walk\<close> of \<open>_preview_flat_values\<close>: leaves that are not numbers are skipped
  (so are text leaves, which Python would try to parse).\<close>

fun preview_walk :: "nat \<Rightarrow> json \<Rightarrow> pyfloat list \<Rightarrow> pyfloat list"
  and preview_walks :: "nat \<Rightarrow> json list \<Rightarrow> pyfloat list \<Rightarrow> pyfloat list" where
  "preview_walk limit node acc =
     (if limit \<le> length acc then acc
      else case node of
        JList xs \<Rightarrow> preview_walks limit xs acc
      | _ \<Rightarrow> (case py_float node of Inr f \<Rightarrow> acc @ [f] | Inl _ \<Rightarrow> acc))"
| "preview_walks limit [] acc = acc"
| "preview_walks limit (x # xs) acc =
     (let acc' = preview_walk limit x acc in if limit \<le> length acc' then acc' else preview_walks limit xs acc')"

definition preview_flat_values :: "json \<Rightarrow> nat \<Rightarrow> pyfloat list" where
  "preview_flat_values v limit = (if v = JNull \<or> limit = 0 then [] else preview_walk limit v [])"

section \<open>Views of a prepared layer\<close>

record layer_view =
  key_source :: json
  value_source :: json
  block_size :: int
  kv_heads :: int
  head_dim :: int
  is_flat :: bool

text \<open>\<open>len(v[0]...) if v and v[0] ... else 0\<close>.\<close>

definition first_len :: "json \<Rightarrow> int res" where
  "first_len v = (if truthy v then bindR (py_index v 0) py_len else Inr 0)"

definition second_len :: "json \<Rightarrow> int res" where
  "second_len v =
     (if truthy v then bindR (py_index v 0) (\<lambda>w. if truthy w then bindR (py_index w 0) py_len else Inr 0)
      else Inr 0)"

definition four_dims :: "json \<Rightarrow> bool" where
  "four_dims v \<longleftrightarrow> (case v of JList xs \<Rightarrow> length xs = 4 | _ \<Rightarrow> False)"

definition layer_block_views :: "json \<Rightarrow> layer_view res" where
  "layer_block_views layer =
     bindR (py_get layer ''key_blocks'') (\<lambda>kb.
     bindR (py_get layer ''value_blocks'') (\<lambda>vb.
     if kb \<noteq> JNull \<and> vb \<noteq> JNull then
       bindR (second_len vb) (\<lambda>bs.
       bindR (first_len kb) (\<lambda>kh.
       bindR (second_len kb) (\<lambda>hd.
         Inr \<lparr>key_source = kb, value_source = vb, block_size = bs, kv_heads = kh, head_dim = hd, is_flat = False\<rparr>)))
     else
       bindR (py_get layer ''key_tensor'') (\<lambda>kt.
       bindR (py_get layer ''value_tensor'') (\<lambda>vt.
       if \<not> is_dict kt \<or> \<not> is_dict vt
       then Inl (RuntimeError ''prepared payload layer must expose key/value blocks or key_tensor/value_tensor'')
       else
         bindR (py_get kt ''shape'') (\<lambda>ks.
         bindR (py_get vt ''shape'') (\<lambda>vs.
         bindR (py_get kt ''data'') (\<lambda>kd.
         bindR (py_get vt ''data'') (\<lambda>vd.
         if \<not> four_dims ks \<or> \<not> four_dims vs \<or> \<not> is_list kd \<or> \<not> is_list vd
         then Inl (RuntimeError ''prepared key/value tensor payloads must include flat data with 4D shapes'')
         else
           bindR (bindR (py_index ks 3) py_int) (\<lambda>bs.
           bindR (bindR (py_index ks 1) py_int) (\<lambda>kh.
           bindR (bindR (py_index ks 2) py_int) (\<lambda>hd.
             Inr \<lparr>key_source = kt, value_source = vt, block_size = bs, kv_heads = kh, head_dim = hd,
                  is_flat = True\<rparr>)))))))))))"

text \<open>\<open>(((b * shape[1] + i) * shape[2] + j) * shape[3]) + k\<close>.\<close>

definition flat_offset :: "json \<Rightarrow> int \<Rightarrow> int \<Rightarrow> int \<Rightarrow> int \<Rightarrow> int res" where
  "flat_offset shape b i j k =
     bindR (bindR (py_index shape 1) py_int) (\<lambda>s1.
     bindR (bindR (py_index shape 2) py_int) (\<lambda>s2.
     bindR (bindR (py_index shape 3) py_int) (\<lambda>s3.
       Inr (((b * s1 + i) * s2 + j) * s3 + k))))"

definition flat_key_value :: "json \<Rightarrow> json \<Rightarrow> int \<Rightarrow> int \<Rightarrow> int \<Rightarrow> int \<Rightarrow> (json \<times> json) res" where
  "flat_key_value key_tensor value_tensor block_index head_index dim_index token_index =
     bindR (py_item key_tensor ''shape'') (\<lambda>key_shape.
     bindR (py_item value_tensor ''shape'') (\<lambda>value_shape.
     bindR (py_item key_tensor ''data'') (\<lambda>key_data.
     bindR (py_item value_tensor ''data'') (\<lambda>value_data.
     bindR (flat_offset key_shape block_index head_index dim_index token_index) (\<lambda>key_offset.
     bindR (flat_offset value_shape block_index head_index token_index dim_index) (\<lambda>value_offset.
     bindR (py_index key_data key_offset) (\<lambda>k.
     bindR (py_index value_data value_offset) (\<lambda>v. Inr (k, v)))))))))"

text \<open>The key and the value of one slot, before any conversion; the branch on \<open>is_flat\<close> that every
  loop repeats.\<close>

definition slot_source :: "layer_view \<Rightarrow> int \<Rightarrow> int \<Rightarrow> int \<Rightarrow> int \<Rightarrow> (json \<times> json) res" where
  "slot_source lv block_index head_index dim_index token_index =
     (if is_flat lv
      then flat_key_value (key_source lv) (value_source lv) block_index head_index dim_index token_index
      else
        bindR (nested_get (key_source lv) [block_index, head_index, dim_index, token_index]) (\<lambda>k.
        bindR (nested_get (value_source lv) [block_index, head_index, token_index, dim_index]) (\<lambda>v.
          Inr (k, v))))"

definition source_value :: "layer_view \<Rightarrow> int \<Rightarrow> int \<Rightarrow> int \<Rightarrow> int \<Rightarrow> (pyfloat \<times> pyfloat) res" where
  "source_value lv block_index head_index dim_index token_index =
     bindR (slot_source lv block_index head_index dim_index token_index) (\<lambda>(k, v).
     bindR (py_float k) (\<lambda>k'. bindR (py_float v) (\<lambda>v'. Inr (k', v'))))"

definition source_block_count :: "layer_view \<Rightarrow> int res" where
  "source_block_count lv =
     (if is_flat lv
      then bindR (bindR (py_item (key_source lv) ''shape'') (\<lambda>s. py_index s 0)) py_int
      else py_len (key_source lv))"

definition target_block_id :: "int \<Rightarrow> int list option \<Rightarrow> int res" where
  "target_block_id logical_block_index target_block_ids =
     (case target_block_ids of
        None \<Rightarrow> Inr logical_block_index
      | Some ids \<Rightarrow>
          (case seq_pos (length ids) logical_block_index of
             Some k \<Rightarrow> Inr (ids ! k)
           | None \<Rightarrow> Inl (IndexError ''list index out of range'')))"

section \<open>Combined layouts\<close>

datatype cache_layout =
    Unsupported "int list"
  | CombinedTokenHeadDim int
  | CombinedHeadTokenDim int
  | CombinedSplitTokenHeadDim int int
  | CombinedSplitHeadTokenDim int int

definition py_mod :: "int \<Rightarrow> int \<Rightarrow> int res" where
  "py_mod a b = (if b = 0 then Inl (ZeroDivisionError ''integer modulo by zero'') else Inr (a mod b))"

text \<open>\<open>a and b and block_size % s == 0\<close>: the remainder is only taken when the rest holds.\<close>

definition divides_if :: "bool \<Rightarrow> int \<Rightarrow> int \<Rightarrow> bool res" where
  "divides_if c n s = (if c then bindR (py_mod n s) (\<lambda>r. Inr (r = 0)) else Inr False)"

definition combined_layout :: "int list \<Rightarrow> int \<Rightarrow> int \<Rightarrow> int \<Rightarrow> cache_layout res" where
  "combined_layout shape bs kh hdim =
     (case shape of
        [s0, s1, s2, s3, s4] \<Rightarrow>
          if s1 \<noteq> 2 then Inr (Unsupported shape)
          else if s2 = bs \<and> s3 = kh \<and> s4 = hdim then Inr (CombinedTokenHeadDim bs)
          else if s2 = kh \<and> s3 = bs \<and> s4 = hdim then Inr (CombinedHeadTokenDim bs)
          else bindR (divides_if (s3 = kh \<and> s4 = hdim) bs s2) (\<lambda>split_token.
            if split_token then Inr (CombinedSplitTokenHeadDim s2 (bs div s2))
            else bindR (divides_if (s2 = kh \<and> s4 = hdim) bs s3) (\<lambda>split_head.
              if split_head then Inr (CombinedSplitHeadTokenDim s3 (bs div s3))
              else Inr (Unsupported shape)))
      | _ \<Rightarrow> Inr (Unsupported shape))"

definition ints_json :: "int list \<Rightarrow> json" where
  "ints_json is = JList (map JInt is)"

fun layout_json :: "cache_layout \<Rightarrow> json" where
  "layout_json (Unsupported shape) = JObj [(''kind'', JStr ''unsupported''), (''shape'', ints_json shape)]"
| "layout_json (CombinedTokenHeadDim n) =
     JObj [(''kind'', JStr ''combined_token_head_dim''), (''tokens_per_target_block'', JInt n)]"
| "layout_json (CombinedHeadTokenDim n) =
     JObj [(''kind'', JStr ''combined_head_token_dim''), (''tokens_per_target_block'', JInt n)]"
| "layout_json (CombinedSplitTokenHeadDim n m) =
     JObj [(''kind'', JStr ''combined_split_token_head_dim''), (''tokens_per_target_block'', JInt n),
       (''target_blocks_per_source_block'', JInt m)]"
| "layout_json (CombinedSplitHeadTokenDim n m) =
     JObj [(''kind'', JStr ''combined_split_head_token_dim''), (''tokens_per_target_block'', JInt n),
       (''target_blocks_per_source_block'', JInt m)]"

text \<open>\<open>int(layout.get(...) or 1)\<close>.\<close>

definition or_one :: "int \<Rightarrow> int" where
  "or_one n = (if n = 0 then 1 else n)"

fun target_blocks_per_source_block :: "cache_layout \<Rightarrow> int" where
  "target_blocks_per_source_block (CombinedSplitTokenHeadDim n m) = or_one m"
| "target_blocks_per_source_block (CombinedSplitHeadTokenDim n m) = or_one m"
| "target_blocks_per_source_block _ = 1"

text \<open>The logical target block and the token position in it.\<close>

fun logical_position :: "cache_layout \<Rightarrow> int \<Rightarrow> int \<Rightarrow> int \<times> int" where
  "logical_position (CombinedSplitTokenHeadDim n m) block_index token_index =
     (block_index * or_one m + token_index div or_one n, token_index mod or_one n)"
| "logical_position (CombinedSplitHeadTokenDim n m) block_index token_index =
     (block_index * or_one m + token_index div or_one n, token_index mod or_one n)"
| "logical_position _ block_index token_index = (block_index, token_index)"

definition combined_target_indices ::
    "cache_layout \<Rightarrow> int \<Rightarrow> int \<Rightarrow> int \<Rightarrow> int \<Rightarrow> int list option \<Rightarrow> (int list \<times> int list) res" where
  "combined_target_indices lay block_index token_index head_index dim_index target_block_ids =
     (let (logical, tok) = logical_position lay block_index token_index
      in bindR (target_block_id logical target_block_ids) (\<lambda>blk.
         let token_first = Inr ([blk, 0, tok, head_index, dim_index], [blk, 1, tok, head_index, dim_index]);
             head_first = Inr ([blk, 0, head_index, tok, dim_index], [blk, 1, head_index, tok, dim_index])
         in case lay of
              CombinedTokenHeadDim _ \<Rightarrow> token_first
            | CombinedSplitTokenHeadDim _ _ \<Rightarrow> token_first
            | CombinedHeadTokenDim _ \<Rightarrow> head_first
            | CombinedSplitHeadTokenDim _ _ \<Rightarrow> head_first
            | Unsupported _ \<Rightarrow>
                Inl (RuntimeError (''unsupported combined kv_cache layout sample '' @ py_repr (layout_json lay)))))"

definition combined_target_block_count :: "json \<Rightarrow> json \<Rightarrow> int res" where
  "combined_target_block_count cache layer =
     bindR (shape_of_storage cache) (\<lambda>shape.
     bindR (layer_block_views layer) (\<lambda>lv.
     bindR (source_block_count lv) (\<lambda>n.
     bindR (combined_layout shape (block_size lv) (kv_heads lv) (head_dim lv)) (\<lambda>layout.
       Inr (n * target_blocks_per_source_block layout)))))"

section \<open>Writing a layer into a combined cache\<close>

definition put_pair :: "int list \<Rightarrow> int list \<Rightarrow> json \<times> json \<Rightarrow> (json, unit) st" where
  "put_pair kidx vidx = (\<lambda>(k, v). bindS (assign kidx k) (\<lambda>_. assign vidx v))"

definition write_token_head_dim :: "layer_view \<Rightarrow> int \<Rightarrow> int list option \<Rightarrow> (json, unit) st" where
  "write_token_head_dim lv n ids =
     forS (range_list n) (\<lambda>b.
     forS (range_list (block_size lv)) (\<lambda>t.
     forS (range_list (kv_heads lv)) (\<lambda>h.
     forS (range_list (head_dim lv)) (\<lambda>d.
       bindS (liftS (slot_source lv b h d t)) (\<lambda>kv.
       bindS (liftS (target_block_id b ids)) (\<lambda>blk.
         put_pair [blk, 0, t, h, d] [blk, 1, t, h, d] kv))))))"

definition write_head_token_dim :: "layer_view \<Rightarrow> int \<Rightarrow> int list option \<Rightarrow> (json, unit) st" where
  "write_head_token_dim lv n ids =
     forS (range_list n) (\<lambda>b.
     forS (range_list (kv_heads lv)) (\<lambda>h.
     forS (range_list (block_size lv)) (\<lambda>t.
     forS (range_list (head_dim lv)) (\<lambda>d.
       bindS (liftS (slot_source lv b h d t)) (\<lambda>kv.
       bindS (liftS (target_block_id b ids)) (\<lambda>blk.
         put_pair [blk, 0, h, t, d] [blk, 1, h, t, d] kv))))))"

definition write_split_token_head_dim :: "int \<Rightarrow> layer_view \<Rightarrow> int \<Rightarrow> int list option \<Rightarrow> (json, unit) st" where
  "write_split_token_head_dim per_block lv n ids =
     forS (range_list n) (\<lambda>b.
     forS (range_list (block_size lv)) (\<lambda>t.
       bindS (liftS (target_block_id (b * (block_size lv div per_block) + t div per_block) ids)) (\<lambda>blk.
       forS (range_list (kv_heads lv)) (\<lambda>h.
       forS (range_list (head_dim lv)) (\<lambda>d.
         bindS (liftS (slot_source lv b h d t)) (\<lambda>kv.
           put_pair [blk, 0, t mod per_block, h, d] [blk, 1, t mod per_block, h, d] kv))))))"

definition write_split_head_token_dim :: "int \<Rightarrow> layer_view \<Rightarrow> int \<Rightarrow> int list option \<Rightarrow> (json, unit) st" where
  "write_split_head_token_dim per_block lv n ids =
     forS (range_list n) (\<lambda>b.
     forS (range_list (block_size lv)) (\<lambda>t.
       bindS (liftS (target_block_id (b * (block_size lv div per_block) + t div per_block) ids)) (\<lambda>blk.
       forS (range_list (kv_heads lv)) (\<lambda>h.
       forS (range_list (head_dim lv)) (\<lambda>d.
         bindS (liftS (slot_source lv b h d t)) (\<lambda>kv.
           put_pair [blk, 0, h, t mod per_block, d] [blk, 1, h, t mod per_block, d] kv))))))"

definition unsupported_layout_error :: "int list \<Rightarrow> layer_view \<Rightarrow> py_error" where
  "unsupported_layout_error shape lv =
     RuntimeError (''unsupported combined kv_cache layout '' @ py_repr (ints_json shape) @
       '' for source block_size='' @ int_str (block_size lv) @ '', kv_heads='' @ int_str (kv_heads lv) @
       '', head_dim='' @ int_str (head_dim lv))"

definition write_combined_cache :: "json \<Rightarrow> int list option \<Rightarrow> (json, unit) st" where
  "write_combined_cache layer ids cache =
     bindS (liftS (shape_of_storage cache)) (\<lambda>shape.
     bindS (liftS (layer_block_views layer)) (\<lambda>lv.
     bindS (liftS (source_block_count lv)) (\<lambda>n.
       case shape of
         [s0, s1, s2, s3, s4] \<Rightarrow>
           if s1 \<noteq> 2
           then liftS (Inl (RuntimeError (''unsupported combined kv_cache shape '' @ py_repr (ints_json shape))))
           else if s2 = block_size lv \<and> s3 = kv_heads lv \<and> s4 = head_dim lv
           then write_token_head_dim lv n ids
           else if s2 = kv_heads lv \<and> s3 = block_size lv \<and> s4 = head_dim lv
           then write_head_token_dim lv n ids
           else
             bindS (liftS (divides_if (s3 = kv_heads lv \<and> s4 = head_dim lv) (block_size lv) s2)) (\<lambda>split_token.
             if split_token then write_split_token_head_dim s2 lv n ids
             else
               bindS (liftS (divides_if (s2 = kv_heads lv \<and> s4 = head_dim lv) (block_size lv) s3)) (\<lambda>split_head.
               if split_head then write_split_head_token_dim s3 lv n ids
               else liftS (Inl (unsupported_layout_error shape lv))))
       | _ \<Rightarrow> liftS (Inl (RuntimeError (''unsupported combined kv_cache shape '' @ py_repr (ints_json shape))))))) cache"

section \<open>Writing a layer into separate caches\<close>

text \<open>The key or the value of one slot; the flat form reads both.\<close>

definition slot_key :: "layer_view \<Rightarrow> int \<Rightarrow> int \<Rightarrow> int \<Rightarrow> int \<Rightarrow> json res" where
  "slot_key lv b h d t =
     (if is_flat lv then bindR (flat_key_value (key_source lv) (value_source lv) b h d t) (\<lambda>(k, v). Inr k)
      else nested_get (key_source lv) [b, h, d, t])"

definition slot_val :: "layer_view \<Rightarrow> int \<Rightarrow> int \<Rightarrow> int \<Rightarrow> int \<Rightarrow> json res" where
  "slot_val lv b h d t =
     (if is_flat lv then bindR (flat_key_value (key_source lv) (value_source lv) b h d t) (\<lambda>(k, v). Inr v)
      else nested_get (value_source lv) [b, h, t, d])"

text \<open>\<open>shape == [int(shape[0]), a, b, c]\<close>; reading the first dimension of an empty shape raises.\<close>

definition shape_is :: "int list \<Rightarrow> int \<Rightarrow> int \<Rightarrow> int \<Rightarrow> bool res" where
  "shape_is shape a b c =
     (case shape of [] \<Rightarrow> Inl (IndexError ''list index out of range'') | s0 # _ \<Rightarrow> Inr (shape = [s0, a, b, c]))"

definition write_key_cache :: "layer_view \<Rightarrow> int list \<Rightarrow> (json, unit) st" where
  "write_key_cache lv shape =
     bindS (liftS (shape_is shape (kv_heads lv) (head_dim lv) (block_size lv))) (\<lambda>head_major.
     if head_major then
       forS (range_list (hd shape)) (\<lambda>b. forS (range_list (kv_heads lv)) (\<lambda>h.
       forS (range_list (head_dim lv)) (\<lambda>d. forS (range_list (block_size lv)) (\<lambda>t.
         bindS (liftS (slot_key lv b h d t)) (assign [b, h, d, t])))))
     else
       bindS (liftS (shape_is shape (block_size lv) (kv_heads lv) (head_dim lv))) (\<lambda>token_major.
       if token_major then
         forS (range_list (hd shape)) (\<lambda>b. forS (range_list (block_size lv)) (\<lambda>t.
         forS (range_list (kv_heads lv)) (\<lambda>h. forS (range_list (head_dim lv)) (\<lambda>d.
           bindS (liftS (slot_key lv b h d t)) (assign [b, t, h, d])))))
       else liftS (Inl (RuntimeError (''unsupported key cache layout '' @ py_repr (ints_json shape))))))"

definition write_value_cache :: "layer_view \<Rightarrow> int list \<Rightarrow> (json, unit) st" where
  "write_value_cache lv shape =
     bindS (liftS (shape_is shape (kv_heads lv) (block_size lv) (head_dim lv))) (\<lambda>head_major.
     if head_major then
       forS (range_list (hd shape)) (\<lambda>b. forS (range_list (kv_heads lv)) (\<lambda>h.
       forS (range_list (block_size lv)) (\<lambda>t. forS (range_list (head_dim lv)) (\<lambda>d.
         bindS (liftS (slot_val lv b h d t)) (assign [b, h, t, d])))))
     else
       bindS (liftS (shape_is shape (block_size lv) (kv_heads lv) (head_dim lv))) (\<lambda>token_major.
       if token_major then
         forS (range_list (hd shape)) (\<lambda>b. forS (range_list (block_size lv)) (\<lambda>t.
         forS (range_list (kv_heads lv)) (\<lambda>h. forS (range_list (head_dim lv)) (\<lambda>d.
           bindS (liftS (slot_val lv b h d t)) (assign [b, t, h, d])))))
       else liftS (Inl (RuntimeError (''unsupported value cache layout '' @ py_repr (ints_json shape))))))"

text \<open>A pair of caches is a dictionary with \<open>key\<close> and \<open>value\<close> or a sequence of two.\<close>

definition split_pair :: "json \<Rightarrow> (json \<times> json) res" where
  "split_pair cache =
     bindR (case cache of
              JObj d \<Rightarrow> Inr (field_or d ''key'' JNull, field_or d ''value'' JNull)
            | JList [k, v] \<Rightarrow> Inr (k, v)
            | _ \<Rightarrow> Inl (RuntimeError ''separate kv cache must be a 2-tuple/list or dict with key/value entries''))
       (\<lambda>(k, v). if k = JNull \<or> v = JNull
          then Inl (RuntimeError ''separate kv cache pair is missing key/value storage'') else Inr (k, v))"

definition join_pair :: "json \<Rightarrow> json \<Rightarrow> json \<Rightarrow> json" where
  "join_pair cache k v =
     (case cache of
        JObj d \<Rightarrow> JObj (dict_set ''value'' v (dict_set ''key'' k d))
      | _ \<Rightarrow> JList [k, v])"

definition write_separate_cache :: "json \<Rightarrow> (json, unit) st" where
  "write_separate_cache layer cache =
     (case bindR (split_pair cache) (\<lambda>(k, v).
           bindR (layer_block_views layer) (\<lambda>lv.
           bindR (shape_of_storage k) (\<lambda>ks.
           bindR (shape_of_storage v) (\<lambda>vs. Inr (k, v, lv, ks, vs))))) of
        Inl e \<Rightarrow> (Inl e, cache)
      | Inr (k, v, lv, ks, vs) \<Rightarrow>
          (case write_key_cache lv ks k of
             (Inl e, k') \<Rightarrow> (Inl e, join_pair cache k' v)
           | (Inr _, k') \<Rightarrow>
               (case write_value_cache lv vs v of (r, v') \<Rightarrow> (r, join_pair cache k' v'))))"

section \<open>The slot probe\<close>

record sample_point =
  block_index :: int
  token_index :: int
  head_index :: int
  dim_index :: int

definition sample_candidates :: "int \<Rightarrow> int \<Rightarrow> int \<Rightarrow> int \<Rightarrow> sample_point list" where
  "sample_candidates n bs kh hdim =
     [\<lparr>block_index = 0, token_index = 0, head_index = 0, dim_index = 0\<rparr>,
      \<lparr>block_index = 0, token_index = min (bs - 1) 1, head_index = min (kh - 1) 1, dim_index = min (hdim - 1) 1\<rparr>,
      \<lparr>block_index = max (n - 1) 0, token_index = max (bs - 1) 0, head_index = max (kh - 1) 0,
       dim_index = max (hdim - 1) 0\<rparr>]"

text \<open>The loop skips points already seen and stops once it has \<open>limit\<close> of them.\<close>

fun pick_points :: "int \<Rightarrow> sample_point list \<Rightarrow> sample_point list \<Rightarrow> sample_point list" where
  "pick_points limit points [] = points"
| "pick_points limit points (c # cs) =
     (if c \<in> set points then pick_points limit points cs
      else let points' = points @ [c]
           in if limit \<le> int (length points') then points' else pick_points limit points' cs)"

definition sample_points :: "int \<Rightarrow> int \<Rightarrow> int \<Rightarrow> int \<Rightarrow> int \<Rightarrow> sample_point list" where
  "sample_points limit n bs kh hdim = pick_points limit [] (sample_candidates n bs kh hdim)"

definition value_at :: "json \<Rightarrow> int list \<Rightarrow> pyfloat res" where
  "value_at v is = bindR (nested_get v is) scalar"

text \<open>\<open>abs(a - b)\<close> and \<open>x <= 1e-6\<close> in binary64.\<close>

fun finite_val :: "pyfloat \<Rightarrow> rat option" where
  "finite_val (Fin r) = Some r"
| "finite_val NegZero = Some 0"
| "finite_val _ = None"

definition abs_diff :: "pyfloat \<Rightarrow> pyfloat \<Rightarrow> pyfloat" where
  "abs_diff a b =
     (case (finite_val a, finite_val b) of
        (Some x, Some y) \<Rightarrow> rnd \<bar>x - y\<bar>
      | _ \<Rightarrow> if a = NaN \<or> b = NaN \<or> a = b then NaN else PosInf)"

definition within_tolerance :: "pyfloat \<Rightarrow> bool" where
  "within_tolerance f \<longleftrightarrow>
     (case f of Fin r \<Rightarrow> r \<le> rfl (1 / 1000000) | NegZero \<Rightarrow> True | NegInf \<Rightarrow> True | _ \<Rightarrow> False)"

record slot_sample =
  ss_point :: sample_point
  target_key_indices :: "int list"
  target_value_indices :: "int list"
  ss_source_key :: pyfloat
  ss_target_key :: pyfloat
  ss_source_value :: pyfloat
  ss_target_value :: pyfloat

definition key_delta :: "slot_sample \<Rightarrow> pyfloat" where
  "key_delta s = abs_diff (ss_source_key s) (ss_target_key s)"

definition value_delta :: "slot_sample \<Rightarrow> pyfloat" where
  "value_delta s = abs_diff (ss_source_value s) (ss_target_value s)"

definition key_matches :: "slot_sample \<Rightarrow> bool" where
  "key_matches s \<longleftrightarrow> within_tolerance (key_delta s)"

definition value_matches :: "slot_sample \<Rightarrow> bool" where
  "value_matches s \<longleftrightarrow> within_tolerance (value_delta s)"

definition point_json :: "sample_point \<Rightarrow> json" where
  "point_json p = JObj
     [(''block_index'', JInt (block_index p)), (''token_index'', JInt (token_index p)),
      (''head_index'', JInt (head_index p)), (''dim_index'', JInt (dim_index p))]"

definition sample_json :: "slot_sample \<Rightarrow> json" where
  "sample_json s = JObj
     [(''source'', point_json (ss_point s)),
      (''target_key_indices'', ints_json (target_key_indices s)),
      (''target_value_indices'', ints_json (target_value_indices s)),
      (''source_key'', JFloat (ss_source_key s)), (''target_key'', JFloat (ss_target_key s)),
      (''source_value'', JFloat (ss_source_value s)), (''target_value'', JFloat (ss_target_value s)),
      (''key_delta'', JFloat (key_delta s)), (''value_delta'', JFloat (value_delta s)),
      (''key_matches'', JBool (key_matches s)), (''value_matches'', JBool (value_matches s))]"

definition probe_point :: "json \<Rightarrow> layer_view \<Rightarrow> cache_layout \<Rightarrow> int list option \<Rightarrow> sample_point \<Rightarrow> slot_sample res" where
  "probe_point cache lv lay ids p =
     bindR (source_value lv (block_index p) (head_index p) (dim_index p) (token_index p)) (\<lambda>(sk, sv).
     bindR (combined_target_indices lay (block_index p) (token_index p) (head_index p) (dim_index p) ids) (\<lambda>(kidx, vidx).
     bindR (value_at cache kidx) (\<lambda>tk.
     bindR (value_at cache vidx) (\<lambda>tv.
       Inr \<lparr>ss_point = p, target_key_indices = kidx, target_value_indices = vidx,
            ss_source_key = sk, ss_target_key = tk, ss_source_value = sv, ss_target_value = tv\<rparr>))))"

definition all_samples_match :: "slot_sample list \<Rightarrow> bool" where
  "all_samples_match samples \<longleftrightarrow> list_all (\<lambda>s. key_matches s \<and> value_matches s) samples"

definition combined_samples :: "int \<Rightarrow> json \<Rightarrow> json \<Rightarrow> int list option \<Rightarrow> (cache_layout \<times> slot_sample list) res" where
  "combined_samples limit cache layer ids =
     bindR (shape_of_storage cache) (\<lambda>shape.
     bindR (layer_block_views layer) (\<lambda>lv.
     bindR (source_block_count lv) (\<lambda>n.
     bindR (combined_layout shape (block_size lv) (kv_heads lv) (head_dim lv)) (\<lambda>lay.
     bindR (mapR (probe_point cache lv lay ids) (sample_points limit n (block_size lv) (kv_heads lv) (head_dim lv)))
       (\<lambda>samples. Inr (lay, samples))))))"

definition combined_slot_samples :: "int \<Rightarrow> json \<Rightarrow> json \<Rightarrow> int list option \<Rightarrow> json res" where
  "combined_slot_samples limit cache layer ids =
     bindR (combined_samples limit cache layer ids) (\<lambda>(lay, samples).
       Inr (JObj
        [(''layout'', layout_json lay), (''samples'', JList (map sample_json samples)),
         (''all_samples_match'', JBool (all_samples_match samples))]))"

section \<open>Summaries\<close>

definition floats_json :: "pyfloat list \<Rightarrow> json" where
  "floats_json fs = JList (map JFloat fs)"

text \<open>\<open>[float(item) for item in tensor["data"][:8]]\<close>.\<close>

definition flat_preview :: "json \<Rightarrow> json res" where
  "flat_preview tensor =
     bindR (py_item tensor ''data'') (\<lambda>data.
     bindR (py_iter data) (\<lambda>xs. bindR (mapR py_float (take 8 xs)) (\<lambda>fs. Inr (floats_json fs))))"

definition source_preview :: "layer_view \<Rightarrow> json \<Rightarrow> json res" where
  "source_preview lv src = (if is_flat lv then flat_preview src else Inr (floats_json (preview_flat_values src 8)))"

definition source_shape :: "layer_view \<Rightarrow> json \<Rightarrow> json res" where
  "source_shape lv src =
     (if is_flat lv then py_get src ''shape'' else bindR (shape_of_storage src) (\<lambda>s. Inr (ints_json s)))"

definition prepared_layer_summary :: "json \<Rightarrow> json res" where
  "prepared_layer_summary layer =
     bindR (layer_block_views layer) (\<lambda>lv.
     bindR (source_block_count lv) (\<lambda>n.
     bindR (source_preview lv (key_source lv)) (\<lambda>kp.
     bindR (source_preview lv (value_source lv)) (\<lambda>vp.
     bindR (source_shape lv (key_source lv)) (\<lambda>ks.
     bindR (source_shape lv (value_source lv)) (\<lambda>vs.
       Inr (JObj
        [(''block_count'', JInt n), (''block_size'', JInt (block_size lv)), (''kv_heads'', JInt (kv_heads lv)),
         (''head_dim'', JInt (head_dim lv)), (''key_shape'', ks), (''value_shape'', vs),
         (''key_preview'', kp), (''value_preview'', vp)])))))))"

definition pair_summary :: "string \<Rightarrow> json \<Rightarrow> json \<Rightarrow> json res" where
  "pair_summary kind k v =
     bindR (shape_of_storage k) (\<lambda>ks.
     bindR (shape_of_storage v) (\<lambda>vs.
       Inr (JObj
        [(''kind'', JStr kind), (''key_shape'', ints_json ks), (''value_shape'', ints_json vs),
         (''key_preview'', floats_json (preview_flat_values k 8)),
         (''value_preview'', floats_json (preview_flat_values v 8))])))"

definition cache_storage_summary :: "json \<Rightarrow> json res" where
  "cache_storage_summary cache =
     (case cache of
        JObj d \<Rightarrow> pair_summary ''dict'' (field_or d ''key'' JNull) (field_or d ''value'' JNull)
      | JList [k, v] \<Rightarrow> pair_summary ''pair'' k v
      | _ \<Rightarrow>
          bindR (shape_of_storage cache) (\<lambda>shape.
            Inr (JObj [(''kind'', JStr ''tensor''), (''shape'', ints_json shape),
              (''preview'', floats_json (preview_flat_values cache 8))])))"

end
