(* ===== verification/KvWrite.thy ===== *)
theory KvWrite
  imports KvLayout
begin

text \<open>
  What the cache writers of \<open>KvLayout\<close> do: the shape loop and the inputs on which it does not end,
  nested lists as an indexed store, the four combined layouts as injective placements of the source
  slots, the cells a write sets and leaves alone, and the slot probe that reads them back.
\<close>

section \<open>The shape loop\<close>

lemma shape_loop_sound:
  assumes "shape_loop dims v = Some ds"
  shows "\<exists>es. shape_of_storage v = Inr es \<and> ds = dims @ es"
proof (rule shape_loop.raw_induct [OF _ assms])
  fix loop dims cursor ds
  assume IH: "\<And>dims v ds. loop dims v = Some ds \<Longrightarrow> \<exists>es. shape_of_storage v = Inr es \<and> ds = dims @ es"
    and step: "(case cursor of
        JList xs \<Rightarrow> loop (dims @ [int (length xs)]) (case xs of [] \<Rightarrow> JList [] | x # _ \<Rightarrow> x)
      | _ \<Rightarrow> Some dims) = Some ds"
  show "\<exists>es. shape_of_storage cursor = Inr es \<and> ds = dims @ es"
  proof (cases cursor)
    case (JList xs)
    then show ?thesis using step by (cases xs) (auto dest!: IH)
  qed (use step in auto)
qed

lemma shape_loop_complete: "shape_of_storage v = Inr es \<Longrightarrow> shape_loop dims v = Some (dims @ es)"
proof (induction v arbitrary: dims es rule: shape_of_storage.induct)
  case (2 x xs)
  then obtain ds where "shape_of_storage x = Inr ds" "es = int (length (x # xs)) # ds"
    by (auto simp: bindR_eq_Inr)
  with "2.IH" show ?case by (subst shape_loop.simps) simp
qed (subst shape_loop.simps, simp)+

lemma shape_loop_eq:
  "shape_loop [] v = (case shape_of_storage v of Inr ds \<Rightarrow> Some ds | Inl e \<Rightarrow> None)"
proof (cases "shape_of_storage v")
  case (Inl e)
  then show ?thesis using shape_loop_sound [of "[]" v] by (cases "shape_loop [] v") auto
qed (use shape_loop_complete [of v _ "[]"] in auto)

text \<open>The first element of the first element and so on, as long as there is one.\<close>

fun leftmost :: "json \<Rightarrow> json" where
  "leftmost (JList (x # xs)) = leftmost x"
| "leftmost v = v"

lemma shape_of_storage_ends: "(\<exists>ds. shape_of_storage v = Inr ds) \<longleftrightarrow> leftmost v \<noteq> JList []"
  by (induction v rule: leftmost.induct) (auto simp: bindR_eq_Inr)

lemma shape_of_storage_err: "shape_of_storage v = Inl e \<Longrightarrow> e = Diverges"
  by (induction v rule: leftmost.induct) (auto simp: bindR_eq_Inl)

lemma shape_of_storage_pos: "shape_of_storage v = Inr ds \<Longrightarrow> d \<in> set ds \<Longrightarrow> 0 < d"
  by (induction v arbitrary: ds rule: leftmost.induct) (auto simp: bindR_eq_Inr)

text \<open>C33: The shape loop returns exactly when the leftmost leaf of the storage is not an empty list, and it
  then returns the positive leading dimensions; on a storage that starts with an empty list it runs
  forever.\<close>

theorem shape_loop_termination:
  "(shape_loop [] v = None \<longleftrightarrow> leftmost v = JList []) \<and>
   (shape_of_storage v = Inl Diverges \<longleftrightarrow> leftmost v = JList []) \<and>
   (\<forall>ds. shape_loop [] v = Some ds \<longleftrightarrow> shape_of_storage v = Inr ds) \<and>
   shape_loop [] (JList []) = None"
  using shape_of_storage_ends [of v] shape_of_storage_err [of v]
  by (auto simp: shape_loop_eq split: sum.split)

section \<open>Nested lists as an indexed store\<close>

text \<open>A regular nested list of the given dimensions; leaves are arbitrary.\<close>

fun arr :: "int list \<Rightarrow> json \<Rightarrow> bool" where
  "arr [] v = True"
| "arr (n # ns) v = (case v of JList xs \<Rightarrow> int (length xs) = n \<and> list_all (arr ns) xs | _ \<Rightarrow> False)"

definition in_range :: "int list \<Rightarrow> int list \<Rightarrow> bool" where
  "in_range ns is \<longleftrightarrow> list_all2 (\<lambda>i n. 0 \<le> i \<and> i < n) is ns"

lemma in_range_Nil [simp]: "in_range [] is \<longleftrightarrow> is = []"
  by (simp add: in_range_def)

lemma in_range_Cons [simp]: "in_range (n # ns) is \<longleftrightarrow> (\<exists>i js. is = i # js \<and> 0 \<le> i \<and> i < n \<and> in_range ns js)"
  by (auto simp: in_range_def list_all2_Cons2)

lemma py_index_nonneg:
  "0 \<le> i \<Longrightarrow> i < int (length xs) \<Longrightarrow> py_index (JList xs) i = Inr (xs ! nat i)"
  by (simp add: py_index_def seq_pos_def)

lemma list_assign_nonneg:
  "0 \<le> i \<Longrightarrow> i < int (length xs) \<Longrightarrow> list_assign (JList xs) i x = Inr (JList (xs[nat i := x]))"
  by (simp add: list_assign_def seq_pos_def)

lemma nested_get_total: "arr ns v \<Longrightarrow> in_range ns is \<Longrightarrow> \<exists>x. nested_get v is = Inr x"
proof (induction ns arbitrary: v "is")
  case (Cons n ns)
  then obtain xs i js where v: "v = JList xs" "int (length xs) = n" "list_all (arr ns) xs"
    and i: "is = i # js" "0 \<le> i" "i < n" "in_range ns js"
    by (auto split: json.splits)
  have "arr ns (xs ! nat i)" using v i by (auto simp: list_all_iff)
  with Cons.IH i(4) obtain x where "nested_get (xs ! nat i) js = Inr x" by blast
  with v i show ?case by (auto simp: py_index_nonneg)
qed simp

lemma nested_set_Cons:
  assumes "0 \<le> i" and "i < int (length xs)"
  shows "nested_set (JList xs) (i # is) x =
    bindR (nested_set (xs ! nat i) is x) (\<lambda>w. Inr (JList (xs[nat i := w])))"
  using assms by (cases "is") (auto simp: list_assign_nonneg py_index_nonneg bindR_def split: sum.split)

lemma nested_set_ok:
  assumes "arr ns v" and "in_range ns is"
  shows "\<exists>v'. nested_set v is x = Inr v' \<and> arr ns v' \<and> nested_get v' is = Inr x \<and>
    (\<forall>js. in_range ns js \<longrightarrow> js \<noteq> is \<longrightarrow> nested_get v' js = nested_get v js)"
  using assms
proof (induction ns arbitrary: v "is")
  case (Cons n ns)
  then obtain xs i js where v: "v = JList xs" "int (length xs) = n" "list_all (arr ns) xs"
    and i: "is = i # js" "0 \<le> i" "i < n" "in_range ns js"
    by (auto split: json.splits)
  have "arr ns (xs ! nat i)" using v i by (auto simp: list_all_iff)
  with Cons.IH i(4) obtain w where w: "nested_set (xs ! nat i) js x = Inr w" "arr ns w" "nested_get w js = Inr x"
    "\<And>ks. in_range ns ks \<Longrightarrow> ks \<noteq> js \<Longrightarrow> nested_get w ks = nested_get (xs ! nat i) ks"
    by blast
  have set_: "nested_set v is x = Inr (JList (xs[nat i := w]))"
    using v i w(1) by (simp add: nested_set_Cons)
  have "arr (n # ns) (JList (xs[nat i := w]))"
    using v w(2) by (auto simp: list_all_iff dest!: set_update_subset_insert [THEN subsetD])
  moreover have "nested_get (JList (xs[nat i := w])) is = Inr x"
    using v i w(3) by (simp add: py_index_nonneg)
  moreover have "nested_get (JList (xs[nat i := w])) ks = nested_get v ks"
    if r: "in_range (n # ns) ks" and ne: "ks \<noteq> is" for ks
  proof -
    obtain k ls where k: "ks = k # ls" "0 \<le> k" "k < n" "in_range ns ls" using r by auto
    show ?thesis
    proof (cases "k = i")
      case True
      then have "ls \<noteq> js" using ne k i by simp
      then show ?thesis using k v True w(4) by (simp add: py_index_nonneg)
    next
      case False
      then have "nat i \<noteq> nat k" using k i by simp
      then show ?thesis using k v by (simp add: py_index_nonneg)
    qed
  qed
  ultimately show ?case using set_ by blast
qed simp

text \<open>The contract of a store addressed by index: a write inside the domain succeeds, keeps the
  store's invariant, is read back and leaves every other cell alone. Clients write batches.\<close>

locale indexed_store =
  fixes inv :: "'s \<Rightarrow> bool" and dom :: "'i \<Rightarrow> bool" and get :: "'s \<Rightarrow> 'i \<Rightarrow> 'v res"
    and put :: "'i \<Rightarrow> 'v \<Rightarrow> ('s, unit) st"
  assumes put_ok: "inv s \<Longrightarrow> dom i \<Longrightarrow> \<exists>s'. put i x s = (Inr (), s') \<and> inv s' \<and> get s' i = Inr x \<and>
      (\<forall>j. dom j \<longrightarrow> j \<noteq> i \<longrightarrow> get s' j = get s j)"
begin

lemma put_batch:
  assumes "inv s" and "\<And>i x. (i, x) \<in> set ps \<Longrightarrow> dom i" and "distinct (map fst ps)"
  shows "\<exists>s'. forS ps (\<lambda>(i, x). put i x) s = (Inr (), s') \<and> inv s' \<and>
    (\<forall>(i, x)\<in>set ps. get s' i = Inr x) \<and> (\<forall>j. dom j \<longrightarrow> j \<notin> fst ` set ps \<longrightarrow> get s' j = get s j)"
  using assms
proof (induction ps arbitrary: s)
  case (Cons p ps)
  obtain i x where p: "p = (i, x)" by fastforce
  then have di: "dom i" and i: "i \<notin> fst ` set ps" using Cons.prems by auto
  obtain s1 where s1: "put i x s = (Inr (), s1)" "inv s1" "get s1 i = Inr x"
    "\<And>j. dom j \<Longrightarrow> j \<noteq> i \<Longrightarrow> get s1 j = get s j"
    using put_ok [OF Cons.prems(1) di] by blast
  obtain s' where s': "forS ps (\<lambda>(i, x). put i x) s1 = (Inr (), s')" "inv s'"
    "\<forall>(i, x)\<in>set ps. get s' i = Inr x" "\<And>j. dom j \<Longrightarrow> j \<notin> fst ` set ps \<Longrightarrow> get s' j = get s1 j"
    using Cons.IH [OF s1(2)] Cons.prems by auto
  have "forS (p # ps) (\<lambda>(i, x). put i x) s = (Inr (), s')"
    using s1(1) s'(1) by (simp add: p bindS_def)
  moreover have "get s' i = Inr x" using s'(4) [OF di i] s1(3) by simp
  ultimately show ?case using s' s1(4) by (auto simp: p)
qed simp

end

interpretation nested: indexed_store "arr ns" "in_range ns" nested_get assign
proof unfold_locales
  fix s "is" x
  assume "arr ns s" "in_range ns is"
  from nested_set_ok [OF this, of x]
  show "\<exists>s'. assign is x s = (Inr (), s') \<and> arr ns s' \<and> nested_get s' is = Inr x \<and>
      (\<forall>j. in_range ns j \<longrightarrow> j \<noteq> is \<longrightarrow> nested_get s' j = nested_get s j)"
    by (auto simp: assign_def)
qed

section \<open>Where a layout puts a slot\<close>

type_synonym slot = "int \<times> int \<times> int \<times> int"

text \<open>A slot is a block, head, dimension and token of the source.\<close>

definition in_space :: "layer_view \<Rightarrow> int \<Rightarrow> slot \<Rightarrow> bool" where
  "in_space lv n = (\<lambda>(b, h, d, t). 0 \<le> b \<and> b < n \<and> 0 \<le> h \<and> h < kv_heads lv \<and>
     0 \<le> d \<and> d < head_dim lv \<and> 0 \<le> t \<and> t < block_size lv)"

fun supported :: "cache_layout \<Rightarrow> bool" where
  "supported (Unsupported _) = False"
| "supported _ = True"

fun token_first :: "cache_layout \<Rightarrow> bool" where
  "token_first (CombinedTokenHeadDim _) = True"
| "token_first (CombinedSplitTokenHeadDim _ _) = True"
| "token_first _ = False"

definition place :: "cache_layout \<Rightarrow> int \<Rightarrow> int \<Rightarrow> int \<Rightarrow> int \<Rightarrow> int \<Rightarrow> int list" where
  "place lay blk c tok h d = (if token_first lay then [blk, c, tok, h, d] else [blk, c, h, tok, d])"

lemma place_inject: "place lay blk c tok h d = place lay blk' c' tok' h' d' \<longleftrightarrow>
    blk = blk' \<and> c = c' \<and> tok = tok' \<and> h = h' \<and> d = d'"
  by (auto simp: place_def)

lemma combined_target_indices_place:
  assumes "supported lay" and "logical_position lay b t = (lg, tok)" and "target_block_id lg ids = Inr blk"
  shows "combined_target_indices lay b t h d ids = Inr (place lay blk 0 tok h d, place lay blk 1 tok h d)"
  using assms by (cases lay) (auto simp: combined_target_indices_def place_def Let_def)

text \<open>The layout fits the cache: its dimensions, and the tokens of a source block fill whole target
  blocks.\<close>

fun fits :: "cache_layout \<Rightarrow> layer_view \<Rightarrow> int list \<Rightarrow> bool" where
  "fits (Unsupported _) lv shape = False"
| "fits (CombinedTokenHeadDim n) lv shape \<longleftrightarrow>
     n = block_size lv \<and> (\<exists>s0. shape = [s0, 2, block_size lv, kv_heads lv, head_dim lv])"
| "fits (CombinedHeadTokenDim n) lv shape \<longleftrightarrow>
     n = block_size lv \<and> (\<exists>s0. shape = [s0, 2, kv_heads lv, block_size lv, head_dim lv])"
| "fits (CombinedSplitTokenHeadDim p m) lv shape \<longleftrightarrow>
     0 < p \<and> block_size lv = m * p \<and> (\<exists>s0. shape = [s0, 2, p, kv_heads lv, head_dim lv])"
| "fits (CombinedSplitHeadTokenDim p m) lv shape \<longleftrightarrow>
     0 < p \<and> block_size lv = m * p \<and> (\<exists>s0. shape = [s0, 2, kv_heads lv, p, head_dim lv])"

lemma divides_if_True: "divides_if c n s = Inr True \<Longrightarrow> c \<and> s \<noteq> 0 \<and> n = n div s * s"
  by (auto simp: divides_if_def py_mod_def bindR_eq_Inr split: if_splits)

lemma combined_layout_cases:
  assumes "combined_layout shape (block_size lv) (kv_heads lv) (head_dim lv) = Inr lay" and "supported lay"
    and pos: "\<And>s. s \<in> set shape \<Longrightarrow> 0 < s"
  shows "fits lay lv shape"
proof -
  obtain s0 s1 s2 s3 s4 where sh: "shape = [s0, s1, s2, s3, s4]" "s1 = 2"
    using assms(1,2) by (auto simp: combined_layout_def split: list.splits if_splits)
  then have p: "0 < s2" "0 < s3" using pos by auto
  show ?thesis
    using assms(1,2) p unfolding combined_layout_def sh
    by (auto simp: bindR_eq_Inr split: if_splits dest!: divides_if_True)
qed

lemma split_block:
  fixes m p t :: int
  assumes "0 < p" and "0 \<le> t" and "t < m * p"
  shows "0 < m" and "0 \<le> t div p" and "t div p < m" and "or_one m = m" and "or_one p = p"
proof -
  have "0 < m * p" using assms by linarith
  then show m: "0 < m" using assms(1) by (simp add: zero_less_mult_iff)
  show "0 \<le> t div p" using assms by (simp add: pos_imp_zdiv_nonneg_iff)
  show "t div p < m"
  proof (rule ccontr)
    assume "\<not> t div p < m"
    then have "m * p \<le> t div p * p" using assms(1) by (intro mult_right_mono) auto
    also have "\<dots> \<le> t" using pos_mod_sign [OF assms(1), of t] div_mult_mod_eq [of t p] by linarith
    finally show False using assms(3) by simp
  qed
  show "or_one m = m" "or_one p = p" using m assms(1) by (auto simp: or_one_def)
qed

lemma logical_position_ok:
  assumes "fits lay lv shape" and "0 \<le> b" "b < n" "0 \<le> t" "t < block_size lv"
    and "logical_position lay b t = (lg, tok)"
  shows "0 \<le> lg" and "lg < n * target_blocks_per_source_block lay" and "0 \<le> tok"
    and "h \<ge> 0 \<Longrightarrow> h < kv_heads lv \<Longrightarrow> d \<ge> 0 \<Longrightarrow> d < head_dim lv \<Longrightarrow> c = 0 \<or> c = 1 \<Longrightarrow> 0 \<le> blk \<Longrightarrow> blk < hd shape \<Longrightarrow>
      in_range shape (place lay blk c tok h d)"
proof -
  have split: "0 \<le> b * m + t div p \<and> b * m + t div p < n * m \<and> 0 \<le> t mod p \<and> t mod p < p \<and> or_one m = m \<and> or_one p = p"
    if "0 < p" "block_size lv = m * p" for m p
  proof -
    have t: "t < m * p" using that(2) assms(5) by simp
    note tm = split_block [OF that(1) assms(4) t]
    note m = tm(1)
    have "(b + 1) * m \<le> n * m" using assms(3) m by (intro mult_right_mono) auto
    with tm have "b * m + t div p < n * m" by (simp add: algebra_simps)
    with tm m assms(2) that(1) show ?thesis by auto
  qed
  show "0 \<le> lg" "lg < n * target_blocks_per_source_block lay" "0 \<le> tok"
    using assms split by (cases lay; fastforce simp: or_one_def)+
  show "h \<ge> 0 \<Longrightarrow> h < kv_heads lv \<Longrightarrow> d \<ge> 0 \<Longrightarrow> d < head_dim lv \<Longrightarrow> c = 0 \<or> c = 1 \<Longrightarrow> 0 \<le> blk \<Longrightarrow> blk < hd shape \<Longrightarrow>
      in_range shape (place lay blk c tok h d)"
    using assms split by (cases lay; fastforce simp: place_def)
qed

lemma logical_position_inj:
  assumes "fits lay lv shape" and "0 \<le> t" "t < block_size lv" and "0 \<le> t'" "t' < block_size lv"
    and "logical_position lay b t = logical_position lay b' t'"
  shows "b = b' \<and> t = t'"
proof -
  have split: "b = b' \<and> t = t'"
    if "0 < p" "block_size lv = m * p" "b * or_one m + t div or_one p = b' * or_one m + t' div or_one p"
      "t mod or_one p = t' mod or_one p" for m p
  proof -
    have t: "t < m * p" "t' < m * p" using that(2) assms(3,5) by simp_all
    note tm = split_block [OF that(1) assms(2) t(1)] split_block [OF that(1) assms(4) t(2)]
    note m = tm(1) and o = tm(4,5)
    have "(b * m + t div p) div m = b" "(b' * m + t' div p) div m = b'" using tm m by (auto simp: div_pos_pos_trivial)
    then have b: "b = b'" using that(3) o by simp
    then have "t div p = t' div p" using that(3) o by simp
    with b that(4) o show ?thesis by (metis div_mult_mod_eq)
  qed
  show ?thesis using assms(1,6) split by (cases lay) fastforce+
qed

section \<open>The loops as batches of assignments\<close>

lemma bindS_Inr [simp]: "bindS (liftS (Inr x)) f = f x"
  by (simp add: bindS_def liftS_def fun_eq_iff)

lemma forS_cong: "(\<And>x. x \<in> set xs \<Longrightarrow> f x = g x) \<Longrightarrow> forS xs f = forS xs g"
proof
  fix s
  show "(\<And>x. x \<in> set xs \<Longrightarrow> f x = g x) \<Longrightarrow> forS xs f s = forS xs g s"
    by (induction xs arbitrary: s) (auto simp: bindS_def split: prod.split sum.split)
qed

lemma forS_append: "forS (xs @ ys) f s = bindS (forS xs f) (\<lambda>_. forS ys f) s"
  by (induction xs arbitrary: s) (auto simp: bindS_def split: prod.split sum.split)

lemma forS_concat: "forS (concat (map g xs)) f = forS xs (\<lambda>x. forS (g x) f)"
proof
  show "forS (concat (map g xs)) f s = forS xs (\<lambda>x. forS (g x) f) s" for s
    by (induction xs arbitrary: s) (auto simp: forS_append bindS_def split: prod.split sum.split)
qed

lemma forS_map: "forS (map g xs) f = forS xs (\<lambda>x. f (g x))"
proof
  show "forS (map g xs) f s = forS xs (\<lambda>x. f (g x)) s" for s
    by (induction xs arbitrary: s) (auto simp: bindS_def split: prod.split sum.split)
qed

lemma set_range_list [simp]: "x \<in> set (range_list n) \<longleftrightarrow> 0 \<le> x \<and> x < n"
  by (auto simp: range_list_def image_iff intro: bexI [of _ "nat x"])

lemma distinct_range_list [simp]: "distinct (range_list n)"
  by (simp add: range_list_def distinct_map)

text \<open>The two assignments a slot causes.\<close>

definition cells :: "cache_layout \<Rightarrow> int list option \<Rightarrow> layer_view \<Rightarrow> slot \<Rightarrow> (int list \<times> json) list" where
  "cells lay ids lv = (\<lambda>(b, h, d, t).
     case (combined_target_indices lay b t h d ids, slot_source lv b h d t) of
       (Inr (ki, vi), Inr (k, v)) \<Rightarrow> [(ki, k), (vi, v)]
     | _ \<Rightarrow> [])"

definition assign_cell :: "int list \<times> json \<Rightarrow> (json, unit) st" where
  "assign_cell = (\<lambda>(i, x). assign i x)"

definition slots_tok :: "layer_view \<Rightarrow> int \<Rightarrow> slot list" where
  "slots_tok lv n = concat (map (\<lambda>b. concat (map (\<lambda>t. concat (map (\<lambda>h.
     map (\<lambda>d. (b, h, d, t)) (range_list (head_dim lv))) (range_list (kv_heads lv)))) (range_list (block_size lv)))) (range_list n))"

definition slots_head :: "layer_view \<Rightarrow> int \<Rightarrow> slot list" where
  "slots_head lv n = concat (map (\<lambda>b. concat (map (\<lambda>h. concat (map (\<lambda>t.
     map (\<lambda>d. (b, h, d, t)) (range_list (head_dim lv))) (range_list (block_size lv)))) (range_list (kv_heads lv)))) (range_list n))"

lemma set_slots: "set (slots_tok lv n) = {p. in_space lv n p}" "set (slots_head lv n) = {p. in_space lv n p}"
  by (auto simp: slots_tok_def slots_head_def in_space_def image_iff)

lemma distinct_concat_map:
  assumes "distinct xs" and "\<And>x. x \<in> set xs \<Longrightarrow> distinct (f x)"
    and "\<And>x y. x \<in> set xs \<Longrightarrow> y \<in> set xs \<Longrightarrow> x \<noteq> y \<Longrightarrow> set (f x) \<inter> set (f y) = {}"
  shows "distinct (concat (map f xs))"
  using assms
proof (induction xs)
  case (Cons x xs)
  have "distinct (concat (map f xs))" using Cons by simp
  moreover have "set (f x) \<inter> set (f y) = {}" if "y \<in> set xs" for y
    using Cons.prems(1) that by (intro Cons.prems(3)) auto
  ultimately show ?case using Cons.prems(2) [of x] by auto
qed simp

lemma distinct_slots: "distinct (slots_tok lv n)" "distinct (slots_head lv n)"
  unfolding slots_tok_def slots_head_def
  by (intro distinct_concat_map distinct_range_list; auto simp: distinct_map inj_on_def)+

text \<open>Every slot of the source can be read, and the target blocks of the layout exist, are inside the
  cache and are pairwise different.\<close>

definition source_total :: "layer_view \<Rightarrow> int \<Rightarrow> bool" where
  "source_total lv n \<longleftrightarrow> (\<forall>b h d t. in_space lv n (b, h, d, t) \<longrightarrow> (\<exists>kv. slot_source lv b h d t = Inr kv))"

definition blocks_ok :: "int list option \<Rightarrow> int \<Rightarrow> int \<Rightarrow> bool" where
  "blocks_ok ids cnt s0 \<longleftrightarrow>
     (\<forall>j. 0 \<le> j \<and> j < cnt \<longrightarrow> (\<exists>blk. target_block_id j ids = Inr blk \<and> 0 \<le> blk \<and> blk < s0)) \<and>
     (\<forall>j k. 0 \<le> j \<and> j < cnt \<and> 0 \<le> k \<and> k < cnt \<and> target_block_id j ids = target_block_id k ids \<longrightarrow> j = k)"

lemma cell_step:
  assumes "combined_target_indices lay b t h d ids = Inr (ki, vi)" and "slot_source lv b h d t = Inr kv"
  shows "forS (cells lay ids lv (b, h, d, t)) assign_cell = put_pair ki vi kv"
  using assms by (auto simp: cells_def assign_cell_def put_pair_def fun_eq_iff bindS_def split: prod.split sum.split)

lemmas slots_loops = forS_concat forS_map slots_tok_def slots_head_def

lemma write_token_head_dim_cells:
  assumes "source_total lv n" and "\<And>b. 0 \<le> b \<Longrightarrow> b < n \<Longrightarrow> \<exists>blk. target_block_id b ids = Inr blk"
  shows "write_token_head_dim lv n ids = forS (concat (map (cells (CombinedTokenHeadDim m) ids lv) (slots_tok lv n))) assign_cell"
  unfolding write_token_head_dim_def slots_loops
proof (intro forS_cong)
  fix b t h d
  assume "b \<in> set (range_list n)" "t \<in> set (range_list (block_size lv))" "h \<in> set (range_list (kv_heads lv))"
    "d \<in> set (range_list (head_dim lv))"
  then obtain kv blk where "slot_source lv b h d t = Inr kv" "target_block_id b ids = Inr blk"
    using assms by (force simp: source_total_def in_space_def)
  then show "bindS (liftS (slot_source lv b h d t)) (\<lambda>kv. bindS (liftS (target_block_id b ids)) (\<lambda>blk.
         put_pair [blk, 0, t, h, d] [blk, 1, t, h, d] kv)) = forS (cells (CombinedTokenHeadDim m) ids lv (b, h, d, t)) assign_cell"
    by (simp add: cell_step [where ki = "[blk, 0, t, h, d]" and vi = "[blk, 1, t, h, d]"] combined_target_indices_def)
qed

lemma write_head_token_dim_cells:
  assumes "source_total lv n" and "\<And>b. 0 \<le> b \<Longrightarrow> b < n \<Longrightarrow> \<exists>blk. target_block_id b ids = Inr blk"
  shows "write_head_token_dim lv n ids = forS (concat (map (cells (CombinedHeadTokenDim m) ids lv) (slots_head lv n))) assign_cell"
  unfolding write_head_token_dim_def slots_loops
proof (intro forS_cong)
  fix b t h d
  assume "b \<in> set (range_list n)" "t \<in> set (range_list (block_size lv))" "h \<in> set (range_list (kv_heads lv))"
    "d \<in> set (range_list (head_dim lv))"
  then obtain kv blk where "slot_source lv b h d t = Inr kv" "target_block_id b ids = Inr blk"
    using assms by (force simp: source_total_def in_space_def)
  then show "bindS (liftS (slot_source lv b h d t)) (\<lambda>kv. bindS (liftS (target_block_id b ids)) (\<lambda>blk.
         put_pair [blk, 0, h, t, d] [blk, 1, h, t, d] kv)) = forS (cells (CombinedHeadTokenDim m) ids lv (b, h, d, t)) assign_cell"
    by (simp add: cell_step [where ki = "[blk, 0, h, t, d]" and vi = "[blk, 1, h, t, d]"] combined_target_indices_def)
qed

text \<open>The split layouts look the target block up once per token.\<close>

lemma split_cells:
  assumes "source_total lv n" and "0 < p" and m: "block_size lv = m * p"
    and "\<And>j. 0 \<le> j \<Longrightarrow> j < n * m \<Longrightarrow> \<exists>blk. target_block_id j ids = Inr blk"
    and lay: "lay = (if tokf then CombinedSplitTokenHeadDim p m else CombinedSplitHeadTokenDim p m)"
    and "b \<in> set (range_list n)" "t \<in> set (range_list (block_size lv))"
  shows "bindS (liftS (target_block_id (b * (block_size lv div p) + t div p) ids)) (\<lambda>blk.
       forS (range_list (kv_heads lv)) (\<lambda>h. forS (range_list (head_dim lv)) (\<lambda>d.
         bindS (liftS (slot_source lv b h d t)) (\<lambda>kv.
           put_pair (place lay blk 0 (t mod p) h d) (place lay blk 1 (t mod p) h d) kv))))
    = forS (range_list (kv_heads lv)) (\<lambda>h. forS (range_list (head_dim lv)) (\<lambda>d.
        forS (cells lay ids lv (b, h, d, t)) assign_cell))"
proof -
  have rng: "0 \<le> b" "b < n" "0 \<le> t" "t < block_size lv" using assms(6,7) by auto
  then have t: "t < m * p" using m by simp
  note sb = split_block [OF assms(2) rng(3) t]
  define lg where "lg = b * m + t div p"
  have pos: "logical_position lay b t = (lg, t mod p)" using sb by (simp add: lay lg_def)
  have "fits lay lv (if tokf then [1, 2, p, kv_heads lv, head_dim lv] else [1, 2, kv_heads lv, p, head_dim lv])"
    using assms(2) m by (simp add: lay)
  from logical_position_ok(1,2) [OF this rng pos] have "0 \<le> lg" "lg < n * m"
    using sb by (simp_all add: lay split: if_splits)
  then obtain blk where blk: "target_block_id lg ids = Inr blk" using assms(4) by blast
  have "block_size lv div p = m" using assms(2) m by simp
  then have "target_block_id (b * (block_size lv div p) + t div p) ids = Inr blk" using blk by (simp add: lg_def)
  then show ?thesis
  proof (simp, intro forS_cong)
    fix h d
    assume "h \<in> set (range_list (kv_heads lv))" "d \<in> set (range_list (head_dim lv))"
    then obtain kv where kv: "slot_source lv b h d t = Inr kv"
      using assms(1) rng by (force simp: source_total_def in_space_def)
    have "supported lay" by (simp add: lay)
    from cell_step [OF combined_target_indices_place [OF this pos blk] kv]
    show "bindS (liftS (slot_source lv b h d t)) (\<lambda>kv.
           put_pair (place lay blk 0 (t mod p) h d) (place lay blk 1 (t mod p) h d) kv) =
         forS (cells lay ids lv (b, h, d, t)) assign_cell"
      by (simp add: kv)
  qed
qed

lemma write_split_token_head_dim_cells:
  assumes "source_total lv n" and "0 < p" and "block_size lv = m * p"
    and "\<And>j. 0 \<le> j \<Longrightarrow> j < n * m \<Longrightarrow> \<exists>blk. target_block_id j ids = Inr blk"
  shows "write_split_token_head_dim p lv n ids =
    forS (concat (map (cells (CombinedSplitTokenHeadDim p m) ids lv) (slots_tok lv n))) assign_cell"
  unfolding write_split_token_head_dim_def slots_loops
  using split_cells [OF assms refl, where tokf = True] by (intro forS_cong) (simp add: place_def)

lemma write_split_head_token_dim_cells:
  assumes "source_total lv n" and "0 < p" and "block_size lv = m * p"
    and "\<And>j. 0 \<le> j \<Longrightarrow> j < n * m \<Longrightarrow> \<exists>blk. target_block_id j ids = Inr blk"
  shows "write_split_head_token_dim p lv n ids =
    forS (concat (map (cells (CombinedSplitHeadTokenDim p m) ids lv) (slots_tok lv n))) assign_cell"
  unfolding write_split_head_token_dim_def slots_loops
  using split_cells [OF assms refl, where tokf = False] by (intro forS_cong) (simp add: place_def)

section \<open>A write sets the cells of its slots and nothing else\<close>

lemma cells_ok:
  assumes "fits lay lv shape" and "source_total lv n" and "blocks_ok ids (n * target_blocks_per_source_block lay) (hd shape)"
    and sp: "in_space lv n (b, h, d, t)"
  obtains blk lg tok k v where "logical_position lay b t = (lg, tok)" "target_block_id lg ids = Inr blk"
    "0 \<le> lg" "lg < n * target_blocks_per_source_block lay"
    "combined_target_indices lay b t h d ids = Inr (place lay blk 0 tok h d, place lay blk 1 tok h d)"
    "slot_source lv b h d t = Inr (k, v)"
    "cells lay ids lv (b, h, d, t) = [(place lay blk 0 tok h d, k), (place lay blk 1 tok h d, v)]"
    "in_range shape (place lay blk 0 tok h d)" "in_range shape (place lay blk 1 tok h d)"
proof -
  have rng: "0 \<le> b" "b < n" "0 \<le> t" "t < block_size lv" and hd_: "0 \<le> h" "h < kv_heads lv" "0 \<le> d" "d < head_dim lv"
    using sp by (auto simp: in_space_def)
  obtain lg tok where pos: "logical_position lay b t = (lg, tok)" by fastforce
  note lg = logical_position_ok [OF assms(1) rng pos]
  obtain blk where blk: "target_block_id lg ids = Inr blk" "0 \<le> blk" "blk < hd shape"
    using assms(3) lg(1,2) by (auto simp: blocks_ok_def)
  obtain k v where kv: "slot_source lv b h d t = Inr (k, v)" using assms(2) sp by (force simp: source_total_def)
  have sup: "supported lay" using assms(1) by (cases lay) auto
  note ct = combined_target_indices_place [OF sup pos blk(1), of h d]
  have "cells lay ids lv (b, h, d, t) = [(place lay blk 0 tok h d, k), (place lay blk 1 tok h d, v)]"
    by (simp add: cells_def ct kv)
  then show thesis
    using that [OF pos blk(1) lg(1,2) ct kv] lg(4) [OF hd_ _ blk(2,3)] by blast
qed

text \<open>The indices a slot is written to.\<close>

definition slot_cells :: "cache_layout \<Rightarrow> int list option \<Rightarrow> layer_view \<Rightarrow> slot \<Rightarrow> int list set" where
  "slot_cells lay ids lv p = fst ` set (cells lay ids lv p)"

lemma slot_cells_disjoint:
  assumes "fits lay lv shape" and "source_total lv n" and bl: "blocks_ok ids (n * target_blocks_per_source_block lay) (hd shape)"
    and p: "in_space lv n p" and q: "in_space lv n q" and "slot_cells lay ids lv p \<inter> slot_cells lay ids lv q \<noteq> {}"
  shows "p = q"
proof -
  obtain b h d t b' h' d' t' where pq: "p = (b, h, d, t)" "q = (b', h', d', t')" by (cases p, cases q) auto
  obtain blk lg tok where 1: "logical_position lay b t = (lg, tok)" "target_block_id lg ids = Inr blk"
    "0 \<le> lg" "lg < n * target_blocks_per_source_block lay"
    "slot_cells lay ids lv p = {place lay blk 0 tok h d, place lay blk 1 tok h d}"
    by (rule cells_ok [OF assms(1-3) p [unfolded pq]]) (simp add: slot_cells_def pq)
  obtain blk' lg' tok' where 2: "logical_position lay b' t' = (lg', tok')" "target_block_id lg' ids = Inr blk'"
    "0 \<le> lg'" "lg' < n * target_blocks_per_source_block lay"
    "slot_cells lay ids lv q = {place lay blk' 0 tok' h' d', place lay blk' 1 tok' h' d'}"
    by (rule cells_ok [OF assms(1-3) q [unfolded pq]]) (simp add: slot_cells_def pq)
  have e: "blk = blk'" "tok = tok'" "h = h'" "d = d'"
    using assms(6) unfolding 1(5) 2(5) by (auto simp: place_inject)
  have "lg = lg'" using bl 1(2-4) 2(2-4) e(1) unfolding blocks_ok_def by metis
  with 1(1) 2(1) e(2) have "logical_position lay b t = logical_position lay b' t'" by simp
  then have "b = b' \<and> t = t'"
    using logical_position_inj [OF assms(1)] p q by (auto simp: pq in_space_def)
  with e show ?thesis by (simp add: pq)
qed

definition holds_layer :: "json \<Rightarrow> cache_layout \<Rightarrow> int list option \<Rightarrow> layer_view \<Rightarrow> int \<Rightarrow> bool" where
  "holds_layer cache lay ids lv n \<longleftrightarrow>
     (\<forall>b h d t. in_space lv n (b, h, d, t) \<longrightarrow>
        (\<exists>ki vi k v. combined_target_indices lay b t h d ids = Inr (ki, vi) \<and>
           slot_source lv b h d t = Inr (k, v) \<and> nested_get cache ki = Inr k \<and> nested_get cache vi = Inr v))"

definition untouched :: "cache_layout \<Rightarrow> int list option \<Rightarrow> layer_view \<Rightarrow> int \<Rightarrow> int list \<Rightarrow> bool" where
  "untouched lay ids lv n is \<longleftrightarrow> (\<forall>p. in_space lv n p \<longrightarrow> is \<notin> slot_cells lay ids lv p)"

lemma batch_of_slots:
  assumes ft: "fits lay lv shape" and st: "source_total lv n"
    and bl: "blocks_ok ids (n * target_blocks_per_source_block lay) (hd shape)"
    and ar: "arr shape cache" and sl: "set slots = {p. in_space lv n p}" "distinct slots"
  shows "\<exists>cache'. forS (concat (map (cells lay ids lv) slots)) assign_cell cache = (Inr (), cache') \<and> arr shape cache' \<and>
    holds_layer cache' lay ids lv n \<and>
    (\<forall>is. in_range shape is \<longrightarrow> untouched lay ids lv n is \<longrightarrow> nested_get cache' is = nested_get cache is)"
proof -
  let ?ps = "concat (map (cells lay ids lv) slots)"
  have rng: "in_range shape i" if i: "(i, x) \<in> set ?ps" for i x
  proof -
    obtain b h d t where p: "in_space lv n (b, h, d, t)" "(i, x) \<in> set (cells lay ids lv (b, h, d, t))"
      using i sl(1) by auto
    show ?thesis by (rule cells_ok [OF ft st bl p(1)]) (use p(2) in auto)
  qed
  have dist: "distinct (map fst ?ps)"
    unfolding map_concat map_map
  proof (rule distinct_concat_map [OF sl(2)])
    fix p assume p: "p \<in> set slots"
    obtain b h d t where p': "p = (b, h, d, t)" by (rule prod_cases4)
    then have sp: "in_space lv n (b, h, d, t)" using p sl(1) by blast
    show "distinct ((map fst \<circ> cells lay ids lv) p)"
      by (rule cells_ok [OF ft st bl sp]) (simp add: p' place_inject)
    fix q assume q: "q \<in> set slots" "p \<noteq> q"
    show "set ((map fst \<circ> cells lay ids lv) p) \<inter> set ((map fst \<circ> cells lay ids lv) q) = {}"
      using slot_cells_disjoint [OF ft st bl, of p q] p q sl(1) by (auto simp: slot_cells_def)
  qed
  obtain cache' where c: "forS ?ps (\<lambda>(i, x). assign i x) cache = (Inr (), cache')" "arr shape cache'"
    "\<forall>(i, x)\<in>set ?ps. nested_get cache' i = Inr x"
    "\<forall>j. in_range shape j \<longrightarrow> j \<notin> fst ` set ?ps \<longrightarrow> nested_get cache' j = nested_get cache j"
    using nested.put_batch [OF ar _ dist] rng by blast
  have "holds_layer cache' lay ids lv n"
    unfolding holds_layer_def
  proof (intro allI impI)
    fix b h d t assume p: "in_space lv n (b, h, d, t)"
    then have sub: "set (cells lay ids lv (b, h, d, t)) \<subseteq> set ?ps" using sl(1) by auto
    show "\<exists>ki vi k v. combined_target_indices lay b t h d ids = Inr (ki, vi) \<and>
       slot_source lv b h d t = Inr (k, v) \<and> nested_get cache' ki = Inr k \<and> nested_get cache' vi = Inr v"
      by (rule cells_ok [OF ft st bl p]) (use c(3) sub in auto)
  qed
  moreover have "j \<notin> fst ` set ?ps" if "untouched lay ids lv n j" for j
    using that sl(1) by (force simp: untouched_def slot_cells_def)
  ultimately show ?thesis using c(1,2,4) by (auto simp: assign_cell_def)
qed

lemma write_combined_by_layout:
  assumes "shape_of_storage cache = Inr shape" and "layer_block_views layer = Inr lv" and "source_block_count lv = Inr n"
    and "combined_layout shape (block_size lv) (kv_heads lv) (head_dim lv) = Inr lay" and "supported lay"
  shows "write_combined_cache layer ids cache =
    (case lay of
       CombinedTokenHeadDim _ \<Rightarrow> write_token_head_dim lv n ids cache
     | CombinedHeadTokenDim _ \<Rightarrow> write_head_token_dim lv n ids cache
     | CombinedSplitTokenHeadDim p _ \<Rightarrow> write_split_token_head_dim p lv n ids cache
     | CombinedSplitHeadTokenDim p _ \<Rightarrow> write_split_head_token_dim p lv n ids cache)"
proof -
  obtain s0 s1 s2 s3 s4 where sh: "shape = [s0, s1, s2, s3, s4]" "s1 = 2"
    using assms(4,5) by (auto simp: combined_layout_def split: list.splits if_splits)
  have w: "write_combined_cache layer ids cache =
     (if s2 = block_size lv \<and> s3 = kv_heads lv \<and> s4 = head_dim lv then write_token_head_dim lv n ids
      else if s2 = kv_heads lv \<and> s3 = block_size lv \<and> s4 = head_dim lv then write_head_token_dim lv n ids
      else bindS (liftS (divides_if (s3 = kv_heads lv \<and> s4 = head_dim lv) (block_size lv) s2)) (\<lambda>split_token.
        if split_token then write_split_token_head_dim s2 lv n ids
        else bindS (liftS (divides_if (s2 = kv_heads lv \<and> s4 = head_dim lv) (block_size lv) s3)) (\<lambda>split_head.
          if split_head then write_split_head_token_dim s3 lv n ids
          else liftS (Inl (unsupported_layout_error [s0, 2, s2, s3, s4] lv))))) cache"
    using sh(2) by (simp add: write_combined_cache_def assms(1) [unfolded sh(1)] assms(2,3) cong: if_cong)
  have l: "(if s2 = block_size lv \<and> s3 = kv_heads lv \<and> s4 = head_dim lv then Inr (CombinedTokenHeadDim (block_size lv))
      else if s2 = kv_heads lv \<and> s3 = block_size lv \<and> s4 = head_dim lv then Inr (CombinedHeadTokenDim (block_size lv))
      else bindR (divides_if (s3 = kv_heads lv \<and> s4 = head_dim lv) (block_size lv) s2) (\<lambda>split_token.
            if split_token then Inr (CombinedSplitTokenHeadDim s2 (block_size lv div s2))
            else bindR (divides_if (s2 = kv_heads lv \<and> s4 = head_dim lv) (block_size lv) s3) (\<lambda>split_head.
              if split_head then Inr (CombinedSplitHeadTokenDim s3 (block_size lv div s3))
              else Inr (Unsupported shape)))) = Inr lay"
    using assms(4) unfolding combined_layout_def sh by simp
  consider (tok) "s2 = block_size lv \<and> s3 = kv_heads lv \<and> s4 = head_dim lv"
    | (head) "\<not> (s2 = block_size lv \<and> s3 = kv_heads lv \<and> s4 = head_dim lv)" "s2 = kv_heads lv \<and> s3 = block_size lv \<and> s4 = head_dim lv"
    | (split) "\<not> (s2 = block_size lv \<and> s3 = kv_heads lv \<and> s4 = head_dim lv)" "\<not> (s2 = kv_heads lv \<and> s3 = block_size lv \<and> s4 = head_dim lv)"
    by blast
  then show ?thesis
  proof cases
    case tok
    then show ?thesis unfolding w using l by (simp only: if_True simp_thms sum.inject) auto
  next
    case head
    show ?thesis unfolding w using l unfolding if_not_P [OF head(1)] if_P [OF head(2)] by auto
  next
    case split
    show ?thesis
      unfolding w using l assms(5) unfolding if_not_P [OF split(1)] if_not_P [OF split(2)]
      by (auto simp: bindR_eq_Inr split: if_splits)
  qed
qed

lemma write_combined_ok:
  assumes sh: "shape_of_storage cache = Inr shape" and ar: "arr shape cache"
    and lv: "layer_block_views layer = Inr lv" and n: "source_block_count lv = Inr n"
    and lay: "combined_layout shape (block_size lv) (kv_heads lv) (head_dim lv) = Inr lay" and sup: "supported lay"
    and st: "source_total lv n" and bl: "blocks_ok ids (n * target_blocks_per_source_block lay) (hd shape)"
  shows "\<exists>cache'. write_combined_cache layer ids cache = (Inr (), cache') \<and> arr shape cache' \<and>
    holds_layer cache' lay ids lv n \<and>
    (\<forall>is. in_range shape is \<longrightarrow> untouched lay ids lv n is \<longrightarrow> nested_get cache' is = nested_get cache is)"
proof -
  have ft: "fits lay lv shape"
    using combined_layout_cases [OF lay sup] shape_of_storage_pos [OF sh] by blast
  note batch = batch_of_slots [OF ft st bl ar]
  note w = write_combined_by_layout [OF sh lv n lay sup, of ids]
  have blk: "\<exists>blk. target_block_id j ids = Inr blk" if "0 \<le> j" "j < n * target_blocks_per_source_block lay" for j
    using bl that by (auto simp: blocks_ok_def)
  show ?thesis
  proof (cases lay)
    case (CombinedTokenHeadDim m)
    then show ?thesis using w batch [OF set_slots(1) distinct_slots(1)] write_token_head_dim_cells [OF st, of ids m] blk by simp
  next
    case (CombinedHeadTokenDim m)
    then show ?thesis using w batch [OF set_slots(2) distinct_slots(2)] write_head_token_dim_cells [OF st, of ids m] blk by simp
  next
    case (CombinedSplitTokenHeadDim p m)
    with ft have "0 < p" "block_size lv = m * p" by simp_all
    note cells = write_split_token_head_dim_cells [OF st this]
    have "\<exists>blk. target_block_id j ids = Inr blk" if "0 \<le> j" "j < n * m" for j
      using blk [of j] that CombinedSplitTokenHeadDim by (cases "m = 0") (simp_all add: or_one_def)
    then show ?thesis using w batch [OF set_slots(1) distinct_slots(1)] cells [of ids] CombinedSplitTokenHeadDim by simp
  next
    case (CombinedSplitHeadTokenDim p m)
    with ft have "0 < p" "block_size lv = m * p" by simp_all
    note cells = write_split_head_token_dim_cells [OF st this]
    have "\<exists>blk. target_block_id j ids = Inr blk" if "0 \<le> j" "j < n * m" for j
      using blk [of j] that CombinedSplitHeadTokenDim by (cases "m = 0") (simp_all add: or_one_def)
    then show ?thesis using w batch [OF set_slots(1) distinct_slots(1)] cells [of ids] CombinedSplitHeadTokenDim by simp
  qed (use sup in simp)
qed

text \<open>C9: Writing a layer into a combined cache: whenever the layout is one of the four supported ones, every
  source slot can be read and the target blocks are inside the cache and pairwise different, the write
  succeeds, keeps the cache's shape, puts the key and the value of every slot where
  \<open>_combined_target_indices\<close> says, and changes no other cell.\<close>

theorem write_combined_places:
  assumes "shape_of_storage cache = Inr shape" and "arr shape cache"
    and "layer_block_views layer = Inr lv" and "source_block_count lv = Inr n"
    and "combined_layout shape (block_size lv) (kv_heads lv) (head_dim lv) = Inr lay" and "supported lay"
    and "source_total lv n" and "blocks_ok ids (n * target_blocks_per_source_block lay) (hd shape)"
  shows "\<exists>cache'. write_combined_cache layer ids cache = (Inr (), cache') \<and> arr shape cache' \<and>
    holds_layer cache' lay ids lv n \<and>
    (\<forall>is. in_range shape is \<longrightarrow> untouched lay ids lv n is \<longrightarrow> nested_get cache' is = nested_get cache is)"
  using assms by (rule write_combined_ok)

section \<open>Flat tensors\<close>

text \<open>A flat tensor of four dimensions: its shape and as much data as the shape counts.\<close>

definition flat_tensor :: "json \<Rightarrow> int \<Rightarrow> int \<Rightarrow> int \<Rightarrow> int \<Rightarrow> json list \<Rightarrow> bool" where
  "flat_tensor v n a b c data \<longleftrightarrow>
     (\<exists>d. v = JObj d \<and> map_of d ''shape'' = Some (ints_json [n, a, b, c]) \<and> map_of d ''data'' = Some (JList data) \<and>
        int (length data) = n * a * b * c)"

lemma radix_step:
  fixes i j a b :: int
  assumes "0 \<le> i" "i < a" "0 \<le> j" "j < b"
  shows "0 \<le> i * b + j" and "i * b + j < a * b"
proof -
  show "0 \<le> i * b + j" using assms by simp
  have "(i + 1) * b \<le> a * b" using assms by (intro mult_right_mono) auto
  then show "i * b + j < a * b" using assms by (simp add: algebra_simps)
qed

lemma radix_inj:
  fixes i j i' j' b :: int
  assumes "0 \<le> j" "j < b" "0 \<le> j'" "j' < b" and "i * b + j = i' * b + j'"
  shows "i = i' \<and> j = j'"
proof -
  have "(i * b + j) div b = i" "(i' * b + j') div b = i'" using assms(1-4) by (auto simp: div_pos_pos_trivial)
  then have "i = i'" using assms(5) by metis
  with assms(5) show ?thesis by simp
qed

lemma flat_offset_eq: "flat_offset (ints_json [n, s1, s2, s3]) b i j k = Inr (((b * s1 + i) * s2 + j) * s3 + k)"
  by (simp add: flat_offset_def ints_json_def py_index_def seq_pos_def py_int_def numeral_eq_Suc)

lemma flat_key_value_eq:
  assumes kt: "flat_tensor kt n kh hdim bs kd" and vt: "flat_tensor vt n kh bs hdim vd"
    and rng: "0 \<le> b" "b < n" "0 \<le> h" "h < kh" "0 \<le> d" "d < hdim" "0 \<le> t" "t < bs"
  shows "nat (((b * kh + h) * hdim + d) * bs + t) < length kd" and "nat (((b * kh + h) * bs + t) * hdim + d) < length vd"
    and "flat_key_value kt vt b h d t =
      Inr (kd ! nat (((b * kh + h) * hdim + d) * bs + t), vd ! nat (((b * kh + h) * bs + t) * hdim + d))"
proof -
  note 1 = radix_step [OF rng(1-4)]
  note 2 = radix_step [OF 1 rng(5,6)] radix_step [OF 1 rng(7,8)]
  note ko = radix_step [OF 2(1,2) rng(7,8)] and vo = radix_step [OF 2(3,4) rng(5,6)]
  obtain kf vf where k: "kt = JObj kf" "map_of kf ''shape'' = Some (ints_json [n, kh, hdim, bs])" "map_of kf ''data'' = Some (JList kd)"
      "int (length kd) = n * kh * hdim * bs"
    and v: "vt = JObj vf" "map_of vf ''shape'' = Some (ints_json [n, kh, bs, hdim])" "map_of vf ''data'' = Some (JList vd)"
      "int (length vd) = n * kh * bs * hdim"
    using kt vt by (auto simp: flat_tensor_def)
  show "nat (((b * kh + h) * hdim + d) * bs + t) < length kd" "nat (((b * kh + h) * bs + t) * hdim + d) < length vd"
    using ko vo k(4) v(4) by linarith+
  show "flat_key_value kt vt b h d t =
      Inr (kd ! nat (((b * kh + h) * hdim + d) * bs + t), vd ! nat (((b * kh + h) * bs + t) * hdim + d))"
    using ko vo k(4) v(4)
    by (simp add: flat_key_value_def k(1-3) v(1-3) flat_offset_eq py_index_nonneg)
qed

text \<open>C32: Reading a flat layer stays inside its data and different slots read different positions: for
  tensors whose data is as long as their shapes count, \<open>_flat_key_value\<close> returns on every slot, the
  two offsets are below the data's length, and the offsets are injective.\<close>

theorem flat_reads_in_bounds:
  assumes "flat_tensor kt n kh hdim bs kd" and "flat_tensor vt n kh bs hdim vd"
    and "0 \<le> b" "b < n" "0 \<le> h" "h < kh" "0 \<le> d" "d < hdim" "0 \<le> t" "t < bs"
    and "0 \<le> b'" "b' < n" "0 \<le> h'" "h' < kh" "0 \<le> d'" "d' < hdim" "0 \<le> t'" "t' < bs"
  shows "(\<exists>i j. i < length kd \<and> j < length vd \<and> flat_key_value kt vt b h d t = Inr (kd ! i, vd ! j) \<and>
            flat_offset (ints_json [n, kh, hdim, bs]) b h d t = Inr (int i) \<and>
            flat_offset (ints_json [n, kh, bs, hdim]) b h t d = Inr (int j)) \<and>
    (flat_offset (ints_json [n, kh, hdim, bs]) b h d t = flat_offset (ints_json [n, kh, hdim, bs]) b' h' d' t' \<longrightarrow>
       (b, h, d, t) = (b', h', d', t')) \<and>
    (flat_offset (ints_json [n, kh, bs, hdim]) b h t d = flat_offset (ints_json [n, kh, bs, hdim]) b' h' t' d' \<longrightarrow>
       (b, h, d, t) = (b', h', d', t'))"
proof -
  note fk = flat_key_value_eq [OF assms(1-10)]
  have nn: "0 \<le> ((b * kh + h) * hdim + d) * bs + t" "0 \<le> ((b * kh + h) * bs + t) * hdim + d"
    using assms by simp_all
  have ki: "(b, h, d, t) = (b', h', d', t')"
    if e: "((b * kh + h) * hdim + d) * bs + t = ((b' * kh + h') * hdim + d') * bs + t'"
    using radix_inj [OF _ _ _ _ e] radix_inj [of d hdim d' "b * kh + h" "b' * kh + h'"] radix_inj [of h kh h' b b'] assms by auto
  have vi: "(b, h, d, t) = (b', h', d', t')"
    if e: "((b * kh + h) * bs + t) * hdim + d = ((b' * kh + h') * bs + t') * hdim + d'"
    using radix_inj [OF _ _ _ _ e] radix_inj [of t bs t' "b * kh + h" "b' * kh + h'"] radix_inj [of h kh h' b b'] assms by auto
  show ?thesis using fk nn ki vi by (auto simp: flat_offset_eq intro!: exI)
qed

lemma flat_source_total:
  assumes "is_flat lv" and "flat_tensor (key_source lv) n (kv_heads lv) (head_dim lv) (block_size lv) kd"
    and "flat_tensor (value_source lv) n (kv_heads lv) (block_size lv) (head_dim lv) vd"
  shows "source_total lv n" and "source_block_count lv = Inr n"
  using assms flat_key_value_eq(3) [OF assms(2,3)]
  by (auto simp: source_total_def in_space_def slot_source_def source_block_count_def flat_tensor_def ints_json_def
      py_index_def seq_pos_def py_int_def)

section \<open>The slot probe confirms a write\<close>

lemma pick_points_subset: "set (pick_points limit ps cs) \<subseteq> set ps \<union> set cs"
  by (induction limit ps cs rule: pick_points.induct) (auto simp: Let_def)

lemma pick_points_extends: "\<exists>qs. pick_points limit ps cs = ps @ qs"
  by (induction limit ps cs rule: pick_points.induct) (auto simp: Let_def)

definition point_slot :: "sample_point \<Rightarrow> slot" where
  "point_slot p = (block_index p, head_index p, dim_index p, token_index p)"

lemma sample_points_in_space:
  assumes "0 < n" "0 < block_size lv" "0 < kv_heads lv" "0 < head_dim lv"
    and "p \<in> set (sample_points limit n (block_size lv) (kv_heads lv) (head_dim lv))"
  shows "in_space lv n (point_slot p)"
proof -
  have "p \<in> set (sample_candidates n (block_size lv) (kv_heads lv) (head_dim lv))"
    using assms(5) pick_points_subset [of limit "[]"] by (auto simp: sample_points_def)
  then show ?thesis using assms(1-4) by (auto simp: sample_candidates_def in_space_def point_slot_def)
qed

lemma sample_points_nonempty: "sample_points limit n bs kh hdim \<noteq> []"
  by (auto simp: sample_points_def sample_candidates_def Let_def
      dest!: arg_cong [of _ "[]" length] simp: pick_points_extends
      split: if_splits)

lemma leaf_shape:
  assumes "arr shape c" and "\<And>s. s \<in> set shape \<Longrightarrow> 0 < s"
    and "nested_get c (replicate (length shape) 0) = Inr x" and "\<not> is_list x"
  shows "shape_of_storage c = Inr shape"
  using assms
proof (induction shape arbitrary: c)
  case Nil
  then show ?case by (cases c) auto
next
  case (Cons s shape)
  then obtain xs where c: "c = JList xs" "int (length xs) = s" "list_all (arr shape) xs" by (auto split: json.splits)
  moreover have "0 < s" using Cons.prems(2) by simp
  ultimately obtain y ys where xs: "xs = y # ys" by (cases xs) auto
  have "nested_get y (replicate (length shape) 0) = Inr x"
    using Cons.prems(3) by (simp add: c(1) xs py_index_nonneg)
  moreover have "arr shape y" using c(3) xs by simp
  ultimately have "shape_of_storage y = Inr shape" using Cons by auto
  then show ?case using c(2) by (simp add: c(1) xs)
qed

lemma shape_leaf:
  "shape_of_storage c = Inr shape \<Longrightarrow> \<exists>x. nested_get c (replicate (length shape) 0) = Inr x \<and> \<not> is_list x"
proof (induction c arbitrary: shape rule: shape_of_storage.induct)
  case (2 x xs)
  then obtain ds where "shape_of_storage x = Inr ds" "shape = int (length (x # xs)) # ds" by (auto simp: bindR_eq_Inr)
  with "2.IH" show ?case by (force simp: py_index_nonneg)
qed auto

text \<open>Every slot holds finite numbers.\<close>

definition source_finite :: "layer_view \<Rightarrow> int \<Rightarrow> bool" where
  "source_finite lv n \<longleftrightarrow>
     (\<forall>b h d t. in_space lv n (b, h, d, t) \<longrightarrow>
        (\<exists>k v kf vf. slot_source lv b h d t = Inr (k, v) \<and> py_float k = Inr kf \<and> py_float v = Inr vf \<and>
           finite_val kf \<noteq> None \<and> finite_val vf \<noteq> None))"

lemma tolerance_nonneg: "0 \<le> rfl (1 / 1000000)"
proof -
  have "0 \<le> rnd_abs (1 / 1000000)" by (rule rnd_abs_nonneg) simp
  then show ?thesis by (auto simp: rfl_def rnd_def Let_def)
qed

lemma rnd_zero [simp]: "rnd 0 = Fin 0"
  by (simp add: rnd_def)

lemma same_float_matches: "finite_val f \<noteq> None \<Longrightarrow> within_tolerance (abs_diff f f)"
  using tolerance_nonneg by (auto simp: abs_diff_def within_tolerance_def)

lemma probe_confirms:
  assumes "holds_layer cache lay ids lv n" and "source_finite lv n" and "in_space lv n (point_slot p)"
  shows "\<exists>s. probe_point cache lv lay ids p = Inr s \<and> ss_point s = p \<and> key_matches s \<and> value_matches s"
proof -
  obtain ki vi k v where h: "combined_target_indices lay (block_index p) (token_index p) (head_index p) (dim_index p) ids = Inr (ki, vi)"
    "slot_source lv (block_index p) (head_index p) (dim_index p) (token_index p) = Inr (k, v)"
    "nested_get cache ki = Inr k" "nested_get cache vi = Inr v"
    using assms(1,3) unfolding holds_layer_def point_slot_def by blast
  obtain kf vf where f: "py_float k = Inr kf" "py_float v = Inr vf" "finite_val kf \<noteq> None" "finite_val vf \<noteq> None"
    using assms(2,3) h(2) unfolding source_finite_def point_slot_def by fastforce
  show ?thesis
    using h f same_float_matches
    by (simp add: probe_point_def source_value_def value_at_def scalar_def key_matches_def value_matches_def
        key_delta_def value_delta_def)
qed

lemma in_range_zeros: "(\<And>s. s \<in> set shape \<Longrightarrow> 0 < s) \<Longrightarrow> in_range shape (replicate (length shape) 0)"
  by (induction shape) auto

lemma finite_leaf: "py_float k = Inr f \<Longrightarrow> \<not> is_list k"
  by (cases k) (auto simp: py_float_def)

lemma written_shape:
  assumes sh: "shape_of_storage cache = Inr shape" and "arr shape cache'" and hl: "holds_layer cache' lay ids lv n"
    and fr: "\<forall>is. in_range shape is \<longrightarrow> untouched lay ids lv n is \<longrightarrow> nested_get cache' is = nested_get cache is"
    and "source_finite lv n" and ft: "fits lay lv shape" and st: "source_total lv n"
    and bl: "blocks_ok ids (n * target_blocks_per_source_block lay) (hd shape)"
  shows "shape_of_storage cache' = Inr shape"
proof -
  note pos = shape_of_storage_pos [OF sh]
  let ?z = "replicate (length shape) (0 :: int)"
  have zr: "in_range shape ?z" using in_range_zeros pos by blast
  have "\<exists>x. nested_get cache' ?z = Inr x \<and> \<not> is_list x"
  proof (cases "untouched lay ids lv n ?z")
    case True
    then show ?thesis using fr zr shape_leaf [OF sh] by auto
  next
    case False
    then obtain b h d t where p: "in_space lv n (b, h, d, t)" "?z \<in> slot_cells lay ids lv (b, h, d, t)"
      by (auto simp: untouched_def)
    obtain ki vi k v where h: "combined_target_indices lay b t h d ids = Inr (ki, vi)" "slot_source lv b h d t = Inr (k, v)"
      "nested_get cache' ki = Inr k" "nested_get cache' vi = Inr v"
      using hl p(1) unfolding holds_layer_def by blast
    have "?z = ki \<or> ?z = vi" using p(2) h by (auto simp: slot_cells_def cells_def)
    moreover have "\<not> is_list k" "\<not> is_list v"
      using assms(5) p(1) h(2) unfolding source_finite_def by (fastforce dest: finite_leaf)+
    ultimately show ?thesis using h by auto
  qed
  then show ?thesis using leaf_shape [OF assms(2)] pos by blast
qed

lemma write_then_probe:
  assumes sh: "shape_of_storage cache = Inr shape" and ar: "arr shape cache"
    and lv: "layer_block_views layer = Inr lv" and n: "source_block_count lv = Inr n"
    and lay: "combined_layout shape (block_size lv) (kv_heads lv) (head_dim lv) = Inr lay" and sup: "supported lay"
    and fin: "source_finite lv n" and bl: "blocks_ok ids (n * target_blocks_per_source_block lay) (hd shape)"
    and pos: "0 < n" "0 < block_size lv"
  shows "\<exists>cache' samples. write_combined_cache layer ids cache = (Inr (), cache') \<and>
    combined_samples limit cache' layer ids = Inr (lay, samples) \<and> samples \<noteq> [] \<and> all_samples_match samples"
proof -
  have st: "source_total lv n" using fin unfolding source_finite_def source_total_def by blast
  note sp = shape_of_storage_pos [OF sh]
  have ft: "fits lay lv shape" using combined_layout_cases [OF lay sup] sp by blast
  then have dims: "0 < kv_heads lv" "0 < head_dim lv" using sp by (cases lay; auto)+
  obtain cache' where c: "write_combined_cache layer ids cache = (Inr (), cache')" "arr shape cache'"
    "holds_layer cache' lay ids lv n"
    "\<forall>is. in_range shape is \<longrightarrow> untouched lay ids lv n is \<longrightarrow> nested_get cache' is = nested_get cache is"
    using write_combined_ok [OF sh ar lv n lay sup st bl] by blast
  have sh': "shape_of_storage cache' = Inr shape" by (rule written_shape [OF sh c(2-4) fin ft st bl])
  let ?pts = "sample_points limit n (block_size lv) (kv_heads lv) (head_dim lv)"
  have "\<exists>ss. mapR (probe_point cache' lv lay ids) ps = Inr ss \<and> length ss = length ps \<and> all_samples_match ss"
    if "set ps \<subseteq> set ?pts" for ps
    using that
  proof (induction ps)
    case (Cons p ps)
    then have "in_space lv n (point_slot p)" using sample_points_in_space [OF pos dims, of p limit] by auto
    from probe_confirms [OF c(3) fin this] Cons show ?case by (force simp: all_samples_match_def)
  qed (simp add: all_samples_match_def)
  then obtain ss where "mapR (probe_point cache' lv lay ids) ?pts = Inr ss" "length ss = length ?pts" "all_samples_match ss"
    by blast
  moreover have "ss \<noteq> []" using calculation(2) sample_points_nonempty [of limit n] by auto
  ultimately show ?thesis
    using c(1) by (simp add: combined_samples_def sh' lv n lay)
qed

text \<open>After a write of finite numbers the slot probe, run on the cache the write left behind, takes at
  least one sample and reports that all of them match.\<close>

theorem probe_after_write:
  assumes sh: "shape_of_storage cache = Inr shape" and ar: "arr shape cache"
    and lv: "layer_block_views layer = Inr lv" and n: "source_block_count lv = Inr n"
    and lay: "combined_layout shape (block_size lv) (kv_heads lv) (head_dim lv) = Inr lay" and sup: "supported lay"
    and fin: "source_finite lv n" and bl: "blocks_ok ids (n * target_blocks_per_source_block lay) (hd shape)"
    and pos: "0 < n" "0 < block_size lv"
  shows "\<exists>cache' samples. write_combined_cache layer ids cache = (Inr (), cache') \<and>
    combined_samples limit cache' layer ids = Inr (lay, samples) \<and> samples \<noteq> [] \<and> all_samples_match samples"
  using assms by (rule write_then_probe)

section \<open>Block ids\<close>

text \<open>Block ids a pool hands out, in range and pairwise different, are good targets; so is the identity
  when the cache has enough blocks.\<close>

lemma target_block_id_Some: "0 \<le> j \<Longrightarrow> j < int (length ids) \<Longrightarrow> target_block_id j (Some ids) = Inr (ids ! nat j)"
  by (simp add: target_block_id_def seq_pos_def)

lemma blocks_ok_ids:
  assumes "distinct ids" and "\<And>i. i \<in> set ids \<Longrightarrow> 0 \<le> i \<and> i < s0" and "cnt \<le> int (length ids)"
  shows "blocks_ok (Some ids) cnt s0"
  unfolding blocks_ok_def
proof (intro conjI allI impI)
  fix j assume "0 \<le> j \<and> j < cnt"
  then have "target_block_id j (Some ids) = Inr (ids ! nat j)" and "nat j < length ids"
    using assms(3) by (simp add: target_block_id_Some, linarith)
  then have "target_block_id j (Some ids) = Inr (ids ! nat j)" "ids ! nat j \<in> set ids" by simp_all
  with assms(2) show "\<exists>blk. target_block_id j (Some ids) = Inr blk \<and> 0 \<le> blk \<and> blk < s0" by blast
next
  fix j k assume jk: "0 \<le> j \<and> j < cnt \<and> 0 \<le> k \<and> k < cnt \<and> target_block_id j (Some ids) = target_block_id k (Some ids)"
  then have "ids ! nat j = ids ! nat k"
    using assms(3) target_block_id_Some [of j ids] target_block_id_Some [of k ids] by auto
  moreover have "nat j < length ids" "nat k < length ids" using assms(3) jk by linarith+
  ultimately have "nat j = nat k" using assms(1) by (simp add: nth_eq_iff_index_eq)
  then show "j = k" using jk by linarith
qed

lemma blocks_ok_None: "cnt \<le> s0 \<Longrightarrow> blocks_ok None cnt s0"
  by (auto simp: blocks_ok_def target_block_id_def)

section \<open>A worked cache\<close>

text \<open>One source block of two tokens, one head and one dimension, written into a cache of two blocks of
  one token each, in reverse block order.\<close>

definition sample_layer :: json where
  "sample_layer = JObj [(''layer_index'', JInt 0),
     (''key_tensor'', JObj [(''shape'', ints_json [1, 1, 1, 2]), (''data'', JList [JFloat (Fin 1), JFloat (Fin 2)])]),
     (''value_tensor'', JObj [(''shape'', ints_json [1, 1, 2, 1]), (''data'', JList [JFloat (Fin 3), JFloat (Fin 4)])])]"

definition sample_cache :: json where
  "sample_cache =
     (let z = JList [JList [JList [JFloat (Fin 0)]]] in JList [JList [z, z], JList [z, z]])"

definition sample_view :: layer_view where
  "sample_view =
     \<lparr>key_source = JObj [(''shape'', ints_json [1, 1, 1, 2]), (''data'', JList [JFloat (Fin 1), JFloat (Fin 2)])],
      value_source = JObj [(''shape'', ints_json [1, 1, 2, 1]), (''data'', JList [JFloat (Fin 3), JFloat (Fin 4)])],
      block_size = 2, kv_heads = 1, head_dim = 1, is_flat = True\<rparr>"

lemma sample_facts:
  "shape_of_storage sample_cache = Inr [2, 2, 1, 1, 1]" "arr [2, 2, 1, 1, 1] sample_cache"
  "layer_block_views sample_layer = Inr sample_view" "source_block_count sample_view = Inr 1"
  "combined_layout [2, 2, 1, 1, 1] (block_size sample_view) (kv_heads sample_view) (head_dim sample_view) =
     Inr (CombinedSplitTokenHeadDim 1 2)"
  "block_size sample_view = 2" "kv_heads sample_view = 1" "head_dim sample_view = 1"
  by (simp_all add: sample_cache_def sample_layer_def sample_view_def layer_block_views_def four_dims_def ints_json_def
      py_index_def seq_pos_def py_int_def source_block_count_def combined_layout_def divides_if_def py_mod_def Let_def)

lemma sample_tensors:
  "flat_tensor (key_source sample_view) 1 1 1 2 [JFloat (Fin 1), JFloat (Fin 2)]"
  "flat_tensor (value_source sample_view) 1 1 2 1 [JFloat (Fin 3), JFloat (Fin 4)]"
  by (simp_all add: flat_tensor_def sample_view_def ints_json_def)

lemma sample_blocks: "blocks_ok (Some [1, 0]) 2 2"
  by (rule blocks_ok_ids) auto

lemma sample_total: "source_total sample_view 1"
  using flat_source_total(1) [of sample_view 1] sample_tensors by (simp add: sample_view_def)

lemma sample_finite: "source_finite sample_view 1"
proof -
  have fl: "is_flat sample_view" by (simp add: sample_view_def)
  have "\<exists>k v kf vf. slot_source sample_view b h d t = Inr (k, v) \<and> py_float k = Inr kf \<and> py_float v = Inr vf \<and>
      finite_val kf \<noteq> None \<and> finite_val vf \<noteq> None" if sp: "in_space sample_view 1 (b, h, d, t)" for b h d t
  proof -
    have bhd: "b = 0" "h = 0" "d = 0" and t: "t = 0 \<or> t = 1" using sp by (auto simp: in_space_def sample_facts)
    have "flat_key_value (key_source sample_view) (value_source sample_view) 0 0 0 0 = Inr (JFloat (Fin 1), JFloat (Fin 3))"
      "flat_key_value (key_source sample_view) (value_source sample_view) 0 0 0 1 = Inr (JFloat (Fin 2), JFloat (Fin 4))"
      using flat_key_value_eq(3) [OF sample_tensors, of 0 0 0] by simp_all
    with t show ?thesis by (auto simp: bhd slot_source_def fl py_float_def)
  qed
  then show ?thesis unfolding source_finite_def by blast
qed

theorem write_combined_places_witness:
  "\<exists>cache'. write_combined_cache sample_layer (Some [1, 0]) sample_cache = (Inr (), cache') \<and>
     holds_layer cache' (CombinedSplitTokenHeadDim 1 2) (Some [1, 0]) sample_view 1"
proof -
  have "blocks_ok (Some [1, 0]) (1 * target_blocks_per_source_block (CombinedSplitTokenHeadDim 1 2)) (hd [2, 2, 1, 1, 1])"
    using sample_blocks by (simp add: or_one_def)
  from write_combined_places [OF sample_facts(1-5) _ sample_total this] show ?thesis by auto
qed

theorem probe_after_write_witness:
  "\<exists>cache' samples. write_combined_cache sample_layer (Some [1, 0]) sample_cache = (Inr (), cache') \<and>
     combined_samples 4 cache' sample_layer (Some [1, 0]) = Inr (CombinedSplitTokenHeadDim 1 2, samples) \<and>
     samples \<noteq> [] \<and> all_samples_match samples"
proof -
  have "blocks_ok (Some [1, 0]) (1 * target_blocks_per_source_block (CombinedSplitTokenHeadDim 1 2)) (hd [2, 2, 1, 1, 1])"
    using sample_blocks by (simp add: or_one_def)
  from probe_after_write [OF sample_facts(1-5) _ sample_finite this, of 4] show ?thesis
    by (simp add: sample_facts)
qed

theorem flat_reads_in_bounds_witness:
  "\<exists>i j. i < length [JFloat (Fin 1), JFloat (Fin 2)] \<and> j < length [JFloat (Fin 3), JFloat (Fin 4)] \<and>
     flat_key_value (key_source sample_view) (value_source sample_view) 0 0 0 1 =
       Inr ([JFloat (Fin 1), JFloat (Fin 2)] ! i, [JFloat (Fin 3), JFloat (Fin 4)] ! j)"
  using flat_reads_in_bounds [OF sample_tensors, of 0 0 0 1 0 0 0 0] by auto

end
