(* ===== verification/VllmRegistry.thy ===== *)
theory VllmRegistry
  imports KvWrite
begin

text \<open>
  The live registration hook of \<^verbatim>\<open>adapters/vllm_live_runtime_registry.py\<close>: the registered hashes (the
  module's set, the state file and the runtime's own attribute), the layer map of a runtime, direct
  registration into its KV caches, verification, and the hook that dispatches on the payload. The
  runtime's own methods and the block pool of the inference engine are code outside the repository:
  they are arguments.
\<close>

section \<open>State\<close>

text \<open>The attribute \<open>registered_hashes\<close> of a runtime object: absent, a set, a list, or something else.\<close>

datatype hashes_attr = NoHashes | HashSet "string list" | HashList "json list" | OtherHashes

text \<open>What the hook reads of a runtime object: \<open>kv_caches\<close> (or what \<open>get_kv_caches()\<close> returns),
  \<open>permeant_layer_map\<close> with its keys and values as they come, and the registered hashes.\<close>

record runtime =
  rt_kv_caches :: "obj option"
  rt_get_kv_caches :: "obj option"
  permeant_layer_map :: "(json \<times> json) list"
  rt_hashes :: hashes_attr

record registry =
  reg_hashes :: "string list"
  reg_fs :: fs
  reg_runtime :: runtime

text \<open>The environment of the hook: the state file, whether the block pool is used, the sample limit, and
  the block pool itself (it returns block ids or fails with an exception text).\<close>

record hook_env =
  state_file :: "pypath option"
  allocate_block_pool :: bool
  slot_sample_limit :: int
  block_pool :: "int \<Rightarrow> string + int list"

definition on_fs :: "'a io \<Rightarrow> (registry, 'a) st" where
  "on_fs m s = (case m (reg_fs s) of (r, f) \<Rightarrow> (r, s\<lparr>reg_fs := f\<rparr>))"

section \<open>Registered hashes\<close>

definition set_add :: "'a \<Rightarrow> 'a list \<Rightarrow> 'a list" where
  "set_add x xs = (if x \<in> set xs then xs else xs @ [x])"

text \<open>The strings of a list, as a set.\<close>

definition str_items :: "json list \<Rightarrow> string list" where
  "str_items xs = remdups (concat (map (\<lambda>v. case v of JStr s \<Rightarrow> [s] | _ \<Rightarrow> []) xs))"

definition load_state_hashes :: "hook_env \<Rightarrow> string list io" where
  "load_state_hashes env =
     (case state_file env of
        None \<Rightarrow> returnIO []
      | Some p \<Rightarrow>
          bindIO (exists_io p) (\<lambda>ex.
          if \<not> ex then returnIO []
          else
            bindIO (read_json p) (\<lambda>payload.
            bindIO (liftR (py_get_or payload ''registered_hashes'' (JList []))) (\<lambda>hashes.
              case hashes of JList xs \<Rightarrow> returnIO (str_items xs) | _ \<Rightarrow> returnIO []))))"

definition state_text :: "string list \<Rightarrow> string" where
  "state_text hashes = render pretty_style 0 (JObj [(''registered_hashes'', JList (map JStr (sort hashes)))])"

definition store_hash :: "hook_env \<Rightarrow> string \<Rightarrow> (registry, unit) st" where
  "store_hash env h s =
     (let s1 = s\<lparr>reg_hashes := set_add h (reg_hashes s)\<rparr> in
      case state_file env of
        None \<Rightarrow> (Inr (), s1)
      | Some p \<Rightarrow>
          bindS (on_fs (load_state_hashes env)) (\<lambda>existing.
            on_fs (write_with_parents p (utf8_encode (state_text (set_add h existing))))) s1)"

definition note_runtime_hash :: "string \<Rightarrow> runtime \<Rightarrow> runtime" where
  "note_runtime_hash h rt =
     (case rt_hashes rt of
        NoHashes \<Rightarrow> rt\<lparr>rt_hashes := HashSet [h]\<rparr>
      | HashSet hs \<Rightarrow> rt\<lparr>rt_hashes := HashSet (set_add h hs)\<rparr>
      | HashList vs \<Rightarrow> rt\<lparr>rt_hashes := HashList (if JStr h \<in> set vs then vs else vs @ [JStr h])\<rparr>
      | OtherHashes \<Rightarrow> rt)"

definition normalize_result :: "json \<Rightarrow> json res" where
  "normalize_result r =
     (case r of
        JNull \<Rightarrow> Inr (JObj [(''success'', JBool True)])
      | JBool b \<Rightarrow> Inr (JObj [(''success'', JBool b)])
      | JObj d \<Rightarrow>
          if field_or d ''success'' JNull = JNull then Inr (JObj (dict_set ''success'' (JBool True) d))
          else Inr (JObj d)
      | _ \<Rightarrow> Inl (TypeError (''runtime hook returned unsupported result type: '' @ type_name r)))"

text \<open>\<open>[h for h in block_hashes if h not in available]\<close> and the verdict on it.\<close>

definition missing_verdict :: "json list \<Rightarrow> json" where
  "missing_verdict missing =
     (if missing = [] then JObj [(''success'', JBool True)]
      else JObj [(''success'', JBool False), (''missing_hashes'', JList missing)])"

definition not_in_set :: "string list \<Rightarrow> json \<Rightarrow> bool res" where
  "not_in_set available v = bindR (py_in_strs v available) (\<lambda>b. Inr (\<not> b))"

definition verify_from_state :: "hook_env \<Rightarrow> json \<Rightarrow> (registry, json) st" where
  "verify_from_state env block_hashes s =
     bindS (on_fs (load_state_hashes env)) (\<lambda>loaded.
       liftS (bindR (py_iter block_hashes) (\<lambda>hs.
         bindR (filterR (not_in_set (reg_hashes s @ loaded)) hs) (\<lambda>missing. Inr (missing_verdict missing))))) s"

text \<open>\<open>None\<close> when the runtime keeps no set or list of hashes.\<close>

definition direct_verify_runtime :: "runtime \<Rightarrow> json \<Rightarrow> json option res" where
  "direct_verify_runtime rt block_hashes =
     (case rt_hashes rt of
        HashSet hs \<Rightarrow>
          bindR (py_iter block_hashes) (\<lambda>bs.
          bindR (filterR (not_in_set hs) bs) (\<lambda>missing. Inr (Some (missing_verdict missing))))
      | HashList vs \<Rightarrow>
          bindR (py_iter block_hashes) (\<lambda>bs.
            Inr (Some (missing_verdict (filter (\<lambda>b. \<not> list_ex (\<lambda>v. py_eq v b) vs) bs))))
      | _ \<Rightarrow> Inr None)"

section \<open>Layer maps\<close>

text \<open>\<open>lit(\d+)(?:sep|$)\<close> at the start of a text, for the first of the literals that fits; the final
  \<open>$\<close> also matches before a last newline.\<close>

fun layer_digits :: "char \<Rightarrow> string list \<Rightarrow> string \<Rightarrow> int option" where
  "layer_digits sep [] s = None"
| "layer_digits sep (lit # lits) s =
     (let r = drop (length lit) s; ds = takeWhile is_digit r; rest = dropWhile is_digit r
      in if starts_with lit s \<and> ds \<noteq> [] \<and> (rest = [] \<or> rest = [CHR 0x0A] \<or> hd rest = sep)
         then Some (int (digits_val ds)) else layer_digits sep lits s)"

text \<open>\<open>re.search\<close> of \<open>(?:^|sep)lit(\d+)(?:sep|$)\<close>: the first position that matches.\<close>

fun layer_search :: "char \<Rightarrow> string list \<Rightarrow> bool \<Rightarrow> string \<Rightarrow> int option" where
  "layer_search sep lits start [] = (if start then layer_digits sep lits [] else None)"
| "layer_search sep lits start (c # cs) =
     (case (if start then layer_digits sep lits (c # cs) else None) of
        Some n \<Rightarrow> Some n
      | None \<Rightarrow>
          (case (if c = sep then layer_digits sep lits cs else None) of
             Some n \<Rightarrow> Some n
           | None \<Rightarrow> layer_search sep lits False cs))"

definition LAYER_PATTERNS :: "(char \<times> string list) list" where
  "LAYER_PATTERNS =
     [(CHR ''.'', [''layers.'', ''layer.'']), (CHR ''_'', [''layer_'']), (CHR ''.'', [''layer.''])]"

fun first_match :: "(char \<times> string list) list \<Rightarrow> string \<Rightarrow> int option" where
  "first_match [] name = None"
| "first_match ((sep, lits) # ps) name =
     (case layer_search sep lits True name of Some n \<Rightarrow> Some n | None \<Rightarrow> first_match ps name)"

definition layer_index_from_name :: "string \<Rightarrow> int option" where
  "layer_index_from_name name = first_match LAYER_PATTERNS name"

definition get_kv_caches :: "runtime \<Rightarrow> obj res" where
  "get_kv_caches rt =
     (case (case rt_kv_caches rt of Some d \<Rightarrow> Some d | None \<Rightarrow> rt_get_kv_caches rt) of
        Some (p # ps) \<Rightarrow> Inr (p # ps)
      | _ \<Rightarrow> Inl (RuntimeError ''runtime object does not expose a non-empty kv_caches mapping''))"

text \<open>\<open>normalized[key] = value\<close> for the integer keys with text values.\<close>

definition configured_layer_map :: "(json \<times> json) list \<Rightarrow> (int \<times> string) list" where
  "configured_layer_map cfg =
     fold (\<lambda>(k, v) m. case (int_val k, v) of (Some i, JStr s) \<Rightarrow> AList.update i s m | _ \<Rightarrow> m) cfg []"

definition inferred_layer_map :: "string list \<Rightarrow> (int \<times> string) list" where
  "inferred_layer_map names =
     fold (\<lambda>name m. case layer_index_from_name name of
         None \<Rightarrow> m
       | Some i \<Rightarrow> (case map_of m i of None \<Rightarrow> m @ [(i, name)] | Some _ \<Rightarrow> m)) names []"

definition get_layer_map :: "runtime \<Rightarrow> obj \<Rightarrow> (int \<times> string) list res" where
  "get_layer_map rt kv_caches =
     (let configured = configured_layer_map (permeant_layer_map rt);
          inferred = inferred_layer_map (map fst kv_caches)
      in if configured \<noteq> [] then Inr configured
         else if inferred \<noteq> [] then Inr inferred
         else Inl (RuntimeError ''unable to infer layer-name mapping from runtime kv_caches''))"

section \<open>Direct registration\<close>

definition allocate_target_block_ids :: "hook_env \<Rightarrow> int \<Rightarrow> int list option \<times> json" where
  "allocate_target_block_ids env n =
     (if \<not> allocate_block_pool env then (None, JObj [(''mode'', JStr ''sequential_disabled'')])
      else case block_pool env n of
        Inr block_ids \<Rightarrow>
          (Some block_ids,
           JObj [(''mode'', JStr ''vllm_block_pool''), (''target_block_count'', JInt n),
             (''target_block_ids'', ints_json block_ids)])
      | Inl exc \<Rightarrow>
          (None,
           JObj [(''mode'', JStr ''sequential_fallback''), (''target_block_count'', JInt n), (''error'', JStr exc)]))"

text \<open>The block ids for the whole payload come from its first layer, when that layer is mapped to a
  combined cache.\<close>

definition plan_target_blocks ::
    "hook_env \<Rightarrow> obj \<Rightarrow> (int \<times> string) list \<Rightarrow> json \<Rightarrow> (int list option \<times> json) res" where
  "plan_target_blocks env caches layer_map layers =
     (let none = (None, JObj [(''mode'', JStr ''not_allocated'')]) in
      if \<not> truthy layers then Inr none
      else
        bindR (py_index layers 0) (\<lambda>first_layer.
        case (case first_layer of JObj d \<Rightarrow> int_val (field_or d ''layer_index'' JNull) | _ \<Rightarrow> None) of
          None \<Rightarrow> Inr none
        | Some i \<Rightarrow>
            (case map_of layer_map i of
               None \<Rightarrow> Inr none
             | Some name \<Rightarrow>
                 bindR (py_item (JObj caches) name) (\<lambda>first_cache.
                 bindR (shape_of_storage first_cache) (\<lambda>shape.
                 if length shape = 5 then
                   bindR (combined_target_block_count first_cache first_layer) (\<lambda>n.
                     Inr (allocate_target_block_ids env n))
                 else Inr none)))))"

text \<open>One layer: the caches as they are left, and the layer's name and summary.\<close>

definition write_layer_cache ::
    "hook_env \<Rightarrow> int list option \<Rightarrow> json \<Rightarrow> (json, json) st" where
  "write_layer_cache env ids layer cache =
     bindS (liftS (shape_of_storage cache)) (\<lambda>shape.
     if length shape = 5 then
       bindS (write_combined_cache layer ids) (\<lambda>_ c. (combined_slot_samples (slot_sample_limit env) c layer ids, c))
     else
       bindS (write_separate_cache layer) (\<lambda>_.
         liftS (Inr (JObj [(''layout'', JObj [(''kind'', JStr ''separate'')]), (''samples'', JList []),
           (''all_samples_match'', JNull)])))) cache"

definition register_layer ::
    "hook_env \<Rightarrow> int list option \<Rightarrow> (int \<times> string) list \<Rightarrow> json \<Rightarrow> (obj, string \<times> json) st" where
  "register_layer env ids layer_map layer caches =
     (case bindR (py_get layer ''layer_index'') (\<lambda>index.
            case int_val index of
              None \<Rightarrow> Inl (RuntimeError ''prepared payload layer_index must be an int'')
            | Some i \<Rightarrow>
                (case map_of layer_map i of
                   None \<Rightarrow> Inl (RuntimeError (''runtime layer map is missing layer_index '' @ py_str index))
                 | Some name \<Rightarrow> bindR (py_item (JObj caches) name) (\<lambda>cache. Inr (index, name, cache)))) of
        Inl e \<Rightarrow> (Inl e, caches)
      | Inr (index, name, cache) \<Rightarrow>
          (case write_layer_cache env ids layer cache of
             (r, cache') \<Rightarrow>
               (bindR r (\<lambda>probe.
                bindR (prepared_layer_summary layer) (\<lambda>source.
                bindR (cache_storage_summary cache') (\<lambda>target.
                  Inr (name, JObj [(''layer_index'', index), (''layer_name'', JStr name), (''source'', source),
                    (''target'', target), (''slot_probe'', probe)])))),
                dict_set name cache' caches)))"

fun register_layers ::
    "hook_env \<Rightarrow> int list option \<Rightarrow> (int \<times> string) list \<Rightarrow> json list \<Rightarrow> (obj, (string \<times> json) list) st" where
  "register_layers env ids layer_map [] caches = (Inr [], caches)"
| "register_layers env ids layer_map (layer # layers) caches =
     bindS (register_layer env ids layer_map layer) (\<lambda>r.
     bindS (register_layers env ids layer_map layers) (\<lambda>rs. liftS (Inr (r # rs)))) caches"

definition set_caches :: "obj \<Rightarrow> runtime \<Rightarrow> runtime" where
  "set_caches caches rt =
     (case rt_kv_caches rt of
        Some _ \<Rightarrow> rt\<lparr>rt_kv_caches := Some caches\<rparr>
      | None \<Rightarrow> rt\<lparr>rt_get_kv_caches := Some caches\<rparr>)"

definition direct_register_into_kv_caches :: "hook_env \<Rightarrow> obj \<Rightarrow> (runtime, json) st" where
  "direct_register_into_kv_caches env payload rt =
     (case bindR (get_kv_caches rt) (\<lambda>caches.
            bindR (get_layer_map rt caches) (\<lambda>layer_map.
            bindR (plan_target_blocks env caches layer_map (field_or payload ''layers'' (JList []))) (\<lambda>(ids, allocation).
            bindR (py_iter (field_or payload ''layers'' (JList []))) (\<lambda>layers.
              Inr (caches, layer_map, ids, allocation, layers))))) of
        Inl e \<Rightarrow> (Inl e, rt)
      | Inr (caches, layer_map, ids, allocation, layers) \<Rightarrow>
          (case register_layers env ids layer_map layers caches of
             (r, caches') \<Rightarrow>
               (bindR r (\<lambda>written.
                  Inr (JObj [(''success'', JBool True),
                    (''written_layers'', JList (map (JStr \<circ> fst) written)),
                    (''written_layer_summaries'', JList (map snd written)),
                    (''target_block_allocation'', allocation)])),
                set_caches caches' rt)))"

section \<open>The hook\<close>

text \<open>A method of the runtime object, if it has one: it sees the payload and the request and may change
  the runtime.\<close>

type_synonym runtime_method = "(obj \<Rightarrow> json \<Rightarrow> (runtime, json) st) option"

record runtime_methods =
  register_method :: runtime_method
  verify_method :: runtime_method
  reverse_export_method :: runtime_method

definition on_runtime :: "(runtime, 'a) st \<Rightarrow> (registry, 'a) st" where
  "on_runtime m s = (case m (reg_runtime s) of (r, rt) \<Rightarrow> (r, s\<lparr>reg_runtime := rt\<rparr>))"

definition call_method :: "(obj \<Rightarrow> json \<Rightarrow> (runtime, json) st) \<Rightarrow> obj \<Rightarrow> json \<Rightarrow> (registry, json) st" where
  "call_method m payload request = bindS (on_runtime (m payload request)) (\<lambda>r. liftS (normalize_result r))"

definition record_hash :: "hook_env \<Rightarrow> obj \<Rightarrow> (registry, unit) st" where
  "record_hash env payload =
     (case field_or payload ''hash'' JNull of
        JStr (c # cs) \<Rightarrow>
          bindS (store_hash env (c # cs)) (\<lambda>_ s.
            (Inr (), s\<lparr>reg_runtime := note_runtime_hash (c # cs) (reg_runtime s)\<rparr>))
      | _ \<Rightarrow> liftS (Inr ()))"

definition hook_register :: "hook_env \<Rightarrow> runtime_methods \<Rightarrow> obj \<Rightarrow> json \<Rightarrow> (registry, json) st" where
  "hook_register env ms payload request =
     bindS (case register_method ms of
              Some m \<Rightarrow> call_method m payload request
            | None \<Rightarrow> on_runtime (direct_register_into_kv_caches env payload)) (\<lambda>result.
     bindS (liftS (py_get result ''success'')) (\<lambda>ok.
       if truthy ok then bindS (record_hash env payload) (\<lambda>_. liftS (Inr result))
       else liftS (Inr result)))"

definition hook_verify :: "hook_env \<Rightarrow> runtime_methods \<Rightarrow> obj \<Rightarrow> json \<Rightarrow> (registry, json) st" where
  "hook_verify env ms payload request =
     (case verify_method ms of
        Some m \<Rightarrow> call_method m payload request
      | None \<Rightarrow> (\<lambda>s.
          bindS (liftS (direct_verify_runtime (reg_runtime s) (field_or payload ''block_hashes'' (JList [])))) (\<lambda>direct.
            case direct of
              Some r \<Rightarrow> liftS (Inr r)
            | None \<Rightarrow> verify_from_state env (field_or payload ''block_hashes'' (JList []))) s))"

definition runtime_hook :: "hook_env \<Rightarrow> runtime_methods \<Rightarrow> obj \<Rightarrow> json \<Rightarrow> (registry, json) st" where
  "runtime_hook env ms payload request =
     (if map_of payload ''layers'' \<noteq> None then hook_register env ms payload request
      else if map_of payload ''block_hashes'' \<noteq> None then hook_verify env ms payload request
      else if field_or payload ''action'' JNull = JStr ''export_reverse_runtime_state'' then
        (case reverse_export_method ms of
           Some m \<Rightarrow> call_method m payload request
         | None \<Rightarrow> liftS (Inr (JObj [(''success'', JBool False),
             (''error'', JStr ''runtime does not expose export_reverse_runtime_state'')])))
      else liftS (Inl (RuntimeError ''unsupported payload for live target-runtime registration'')))"

section \<open>Verification lists exactly the missing hashes\<close>

lemma set_set_add [simp]: "set (set_add x xs) = insert x (set xs)"
  by (auto simp: set_add_def)

lemma not_in_set_JStr [simp]: "not_in_set avail (JStr h) = Inr (h \<notin> set avail)"
  by (simp add: not_in_set_def)

lemma filterR_strs: "filterR (not_in_set avail) (map JStr hs) = Inr (map JStr (filter (\<lambda>h. h \<notin> set avail) hs))"
  by (induction hs) auto

lemma load_state_hashes_fs: "load_state_hashes env f = (r, f') \<Longrightarrow> f' = f"
  by (auto simp: load_state_hashes_def bindIO_def exists_io_def returnIO_def liftR_def
      split: option.splits if_splits sum.splits json.splits prod.splits dest!: read_json_state)

lemma direct_verify_strs:
  "direct_verify_runtime rt (JList (map JStr hs)) =
     (case rt_hashes rt of
        HashSet ks \<Rightarrow> Inr (Some (missing_verdict (map JStr (filter (\<lambda>h. h \<notin> set ks) hs))))
      | HashList vs \<Rightarrow> Inr (Some (missing_verdict (map JStr (filter (\<lambda>h. JStr h \<notin> set vs) hs))))
      | _ \<Rightarrow> Inr None)"
proof -
  have "filter (\<lambda>b. \<not> list_ex (\<lambda>v. py_eq v b) vs) (map JStr hs) = map JStr (filter (\<lambda>h. JStr h \<notin> set vs) hs)" for vs
    by (induction hs) (auto simp: list_ex_iff)
  then show ?thesis
    by (simp add: direct_verify_runtime_def filterR_strs split: hashes_attr.split)
qed

lemma missing_verdict_success: "missing_verdict (map JStr hs) = JObj [(''success'', JBool True)] \<longleftrightarrow> hs = []"
  by (simp add: missing_verdict_def)

text \<open>Verification from the recorded state answers with exactly the hashes that neither the module's set
  nor the state file knows, in the order they were asked for, and changes nothing; it reports success
  just when there are none.\<close>

theorem verify_from_state_exact:
  assumes "load_state_hashes env (reg_fs s) = (Inr loaded, f)"
  shows "verify_from_state env (JList (map JStr hs)) s =
      (Inr (missing_verdict (map JStr (filter (\<lambda>h. h \<notin> set (reg_hashes s) \<union> set loaded) hs))), s) \<and>
    (fst (verify_from_state env (JList (map JStr hs)) s) = Inr (JObj [(''success'', JBool True)]) \<longleftrightarrow>
       set hs \<subseteq> set (reg_hashes s) \<union> set loaded)"
proof -
  have "f = reg_fs s" using load_state_hashes_fs [OF assms] .
  then have e: "verify_from_state env (JList (map JStr hs)) s =
      (Inr (missing_verdict (map JStr (filter (\<lambda>h. h \<notin> set (reg_hashes s) \<union> set loaded) hs))), s)"
    using assms by (simp add: verify_from_state_def bindS_def on_fs_def liftS_def filterR_strs)
  show ?thesis
    unfolding e fst_conv sum.inject missing_verdict_success by (auto simp: filter_empty_conv)
qed

definition sample_env :: hook_env where
  "sample_env = \<lparr>state_file = Some (Path ''/state/hashes.json''), allocate_block_pool = True, slot_sample_limit = 4,
     block_pool = (\<lambda>n. Inr (map int [0..<nat n]))\<rparr>"

definition sample_registry :: registry where
  "sample_registry = \<lparr>reg_hashes = [''h1''], reg_fs = Map.empty,
     reg_runtime = \<lparr>rt_kv_caches = Some [(''model.layers.0.attn'', sample_cache)], rt_get_kv_caches = None,
       permeant_layer_map = [], rt_hashes = NoHashes\<rparr>\<rparr>"

lemma sample_state_load: "load_state_hashes sample_env (reg_fs sample_registry) = (Inr [], reg_fs sample_registry)"
  by (simp add: load_state_hashes_def sample_env_def sample_registry_def bindIO_def exists_io_def path_exists_def
      node_at_def Path_def path_root_def)

theorem verify_from_state_exact_witness:
  "verify_from_state sample_env (JList (map JStr [''h2'', ''h1''])) sample_registry =
     (Inr (JObj [(''success'', JBool False), (''missing_hashes'', JList [JStr ''h2''])]), sample_registry)"
  using verify_from_state_exact [OF sample_state_load, of "[''h2'', ''h1'']"]
  by (simp add: sample_registry_def missing_verdict_def)

section \<open>The state file\<close>

lemma str_items_strs [simp]: "str_items (map JStr hs) = remdups hs"
proof -
  have "concat (map (\<lambda>v. case v of JStr s \<Rightarrow> [s] | _ \<Rightarrow> []) (map JStr hs)) = hs" by (induction hs) auto
  then show ?thesis by (simp add: str_items_def)
qed

lemma load_state_text:
  assumes "state_file env = Some p" and "read_bytes f p = Inr (utf8_encode (state_text hs))"
  shows "load_state_hashes env f = (Inr (remdups (sort hs)), f)"
proof -
  have "wf_json (JObj [(''registered_hashes'', JList (map JStr (sort hs)))])"
    by (simp add: dict_keys_ok_def list_all_iff)
  then have "json_loads (state_text hs) = Inr (JObj [(''registered_hashes'', JList (map JStr (sort hs)))])"
    using loads_render [of pretty_style _ "[]"] by (simp add: state_text_def del: render.simps)
  moreover have "path_exists f p" using assms(2) by (auto simp: path_exists_def read_bytes_iff)
  ultimately show ?thesis
    using assms by (simp add: load_state_hashes_def bindIO_def exists_io_def read_json_def read_file_def)
qed

text \<open>Recording a hash is durable: after a successful \<open>_store_hash\<close> with a state file, the file holds the
  hashes it held before and the new one, so a process that starts with an empty set still verifies
  them.\<close>

theorem store_hash_durable:
  assumes "state_file env = Some p" and "store_hash env h s = (Inr (), s')"
  shows "\<exists>old new. load_state_hashes env (reg_fs s) = (Inr old, reg_fs s) \<and>
    load_state_hashes env (reg_fs s') = (Inr new, reg_fs s') \<and> set new = insert h (set old) \<and>
    verify_from_state env (JList (map JStr (h # old))) (s'\<lparr>reg_hashes := []\<rparr>) =
      (Inr (JObj [(''success'', JBool True)]), s'\<lparr>reg_hashes := []\<rparr>)"
proof -
  let ?s1 = "s\<lparr>reg_hashes := set_add h (reg_hashes s)\<rparr>"
  obtain r f where l: "load_state_hashes env (reg_fs s) = (r, f)" by fastforce
  then have f: "f = reg_fs s" by (rule load_state_hashes_fs)
  obtain old where r: "r = Inr old" using assms l by (cases r) (auto simp: store_hash_def bindS_def on_fs_def Let_def)
  obtain f' where w: "write_with_parents p (utf8_encode (state_text (set_add h old))) (reg_fs s) = (Inr (), f')"
    and s': "reg_fs s' = f'"
    using assms l r f by (auto simp: store_hash_def bindS_def on_fs_def Let_def split: prod.splits)
  note new = load_state_text [OF assms(1) fs_store.read_written [OF w]]
  have v: "load_state_hashes env (reg_fs (s'\<lparr>reg_hashes := []\<rparr>)) = (Inr (remdups (sort (set_add h old))), f')"
    using new s' by simp
  from f l r new s' show ?thesis
    unfolding verify_from_state_def bindS_def on_fs_def v
    by (auto simp: liftS_def filterR_strs missing_verdict_def filter_empty_conv simp flip: list.map(2)
        intro!: exI [of _ old])
qed

lemma sample_store: "\<exists>s'. store_hash sample_env ''h2'' sample_registry = (Inr (), s')"
proof -
  have "\<exists>f. write_with_parents (Path ''/state/hashes.json'') b Map.empty = (Inr (), f)" for b
    by (simp add: write_with_parents_def mkdir_parents_def Path_def path_root_def path_parent_def path_prefixes_def
        bindIO_def write_bytes_def node_at_def)
  then obtain f where "write_with_parents (Path ''/state/hashes.json'') (utf8_encode (state_text [''h2''])) Map.empty = (Inr (), f)"
    by blast
  then show ?thesis
    using sample_state_load
    by (simp add: store_hash_def sample_env_def sample_registry_def bindS_def on_fs_def set_add_def Let_def)
qed

theorem store_hash_durable_witness:
  "\<exists>s' new. store_hash sample_env ''h2'' sample_registry = (Inr (), s') \<and>
     load_state_hashes sample_env (reg_fs s') = (Inr new, reg_fs s') \<and> set new = {''h2''}"
proof -
  obtain s' where s': "store_hash sample_env ''h2'' sample_registry = (Inr (), s')" using sample_store by blast
  have "state_file sample_env = Some (Path ''/state/hashes.json'')" by (simp add: sample_env_def)
  from store_hash_durable [OF this s'] s' sample_state_load show ?thesis by auto
qed

section \<open>Registered hashes stay registered\<close>

text \<open>What a component promises that only ever adds to what it knows, and what its clients get from it
  over any number of steps.\<close>

locale growing_knowledge =
  fixes knows :: "'s \<Rightarrow> 'h set" and step :: "'s \<Rightarrow> 's \<Rightarrow> bool" and steady :: "'s \<Rightarrow> bool"
  assumes step_keeps: "step s t \<Longrightarrow> steady s \<Longrightarrow> knows s \<subseteq> knows t"
    and step_steady: "step s t \<Longrightarrow> steady s \<Longrightarrow> steady t"
begin

lemma steps_keep: "step\<^sup>*\<^sup>* s t \<Longrightarrow> steady s \<Longrightarrow> knows s \<subseteq> knows t \<and> steady t"
  by (induction rule: rtranclp_induct) (use step_keeps step_steady in blast)+

end

definition no_methods :: runtime_methods where
  "no_methods = \<lparr>register_method = None, verify_method = None, reverse_export_method = None\<rparr>"

text \<open>One call of the hook on a runtime without methods of its own, whatever the payload and the outcome.\<close>

inductive hook_step :: "hook_env \<Rightarrow> registry \<Rightarrow> registry \<Rightarrow> bool" for env where
  call: "runtime_hook env no_methods payload request s = (r, t) \<Longrightarrow> hook_step env s t"

inductive_simps hook_step_iff: "hook_step env s t"

text \<open>The hashes the runtime object itself lists.\<close>

definition runtime_knows :: "registry \<Rightarrow> string set" where
  "runtime_knows s =
     (case rt_hashes (reg_runtime s) of
        HashSet hs \<Rightarrow> set hs
      | HashList vs \<Rightarrow> {h. JStr h \<in> set vs}
      | _ \<Rightarrow> {})"

definition keeps_list :: "registry \<Rightarrow> bool" where
  "keeps_list s \<longleftrightarrow> (\<exists>hs. rt_hashes (reg_runtime s) = HashSet hs) \<or> (\<exists>vs. rt_hashes (reg_runtime s) = HashList vs)"

lemma direct_register_hashes:
  "direct_register_into_kv_caches env payload rt = (r, rt') \<Longrightarrow> rt_hashes rt' = rt_hashes rt"
  by (auto simp: direct_register_into_kv_caches_def set_caches_def split: sum.splits prod.splits option.splits)

lemma store_hash_state:
  "store_hash env h s = (r, s') \<Longrightarrow> reg_runtime s' = reg_runtime s \<and> reg_hashes s' = set_add h (reg_hashes s)"
  by (auto simp: store_hash_def Let_def bindS_def on_fs_def split: option.splits prod.splits sum.splits)

lemma runtime_knows_note:
  assumes "reg_runtime t = note_runtime_hash h (reg_runtime s)" and "rt_hashes (reg_runtime s) \<noteq> OtherHashes"
  shows "runtime_knows t = insert h (runtime_knows s)" and "keeps_list t"
  using assms by (auto simp: runtime_knows_def note_runtime_hash_def keeps_list_def split: hashes_attr.splits)

lemma runtime_knows_cong: "rt_hashes (reg_runtime s) = rt_hashes (reg_runtime t) \<Longrightarrow> runtime_knows s = runtime_knows t"
  by (simp add: runtime_knows_def)

lemma keeps_list_cong: "rt_hashes (reg_runtime s) = rt_hashes (reg_runtime t) \<Longrightarrow> keeps_list s = keeps_list t"
  by (simp add: keeps_list_def)

lemma keeps_list_not_other: "keeps_list s \<Longrightarrow> rt_hashes (reg_runtime s) \<noteq> OtherHashes"
  by (auto simp: keeps_list_def)

lemma record_hash_cases:
  assumes "record_hash env payload s = (r, t)"
  shows "rt_hashes (reg_runtime t) = rt_hashes (reg_runtime s) \<and> reg_hashes s = reg_hashes t \<or>
    (\<exists>h. field_or payload ''hash'' JNull = JStr h \<and> reg_hashes t = set_add h (reg_hashes s) \<and>
       (rt_hashes (reg_runtime t) = rt_hashes (reg_runtime s) \<and> r \<noteq> Inr () \<or>
        reg_runtime t = note_runtime_hash h (reg_runtime s)))"
  using assms
  by (auto simp: record_hash_def bindS_def liftS_def split: json.splits list.splits prod.splits sum.splits
      dest!: store_hash_state)

lemma hook_register_cases:
  assumes "hook_register env no_methods payload request s = (r, t)"
  shows "(\<exists>e. r = Inl e) \<and> rt_hashes (reg_runtime t) = rt_hashes (reg_runtime s) \<and> reg_hashes t = reg_hashes s \<or>
    (\<exists>s1 q. rt_hashes (reg_runtime s1) = rt_hashes (reg_runtime s) \<and> reg_hashes s1 = reg_hashes s \<and>
       record_hash env payload s1 = (q, t) \<and> (\<forall>res. r = Inr res \<longrightarrow> q = Inr ()))"
proof -
  obtain q rt where d: "direct_register_into_kv_caches env payload (reg_runtime s) = (q, rt)" by fastforce
  note h = direct_register_hashes [OF d]
  show ?thesis
  proof (cases q)
    case (Inl e)
    then show ?thesis using assms d h
      by (auto simp: hook_register_def no_methods_def bindS_def on_runtime_def)
  next
    case (Inr res)
    have "\<exists>ws ls al. res = JObj [(''success'', JBool True), (''written_layers'', ws),
        (''written_layer_summaries'', ls), (''target_block_allocation'', al)]"
      using d Inr unfolding direct_register_into_kv_caches_def
      by (auto simp: bindR_eq_Inr split: sum.splits prod.splits)
    then obtain kvs where res: "res = JObj ((''success'', JBool True) # kvs)" by blast
    let ?s1 = "s\<lparr>reg_runtime := rt\<rparr>"
    obtain q' t' where rh: "record_hash env payload ?s1 = (q', t')" by fastforce
    have "(r, t) = (case q' of Inl e \<Rightarrow> (Inl e, t') | Inr _ \<Rightarrow> (Inr res, t'))"
      using assms by (simp add: hook_register_def no_methods_def bindS_def on_runtime_def d Inr res liftS_def rh split: sum.splits)
    then have "t' = t" "\<forall>x. r = Inr x \<longrightarrow> q' = Inr ()" by (auto split: sum.splits)
    with rh h show ?thesis by (intro disjI2 exI [of _ ?s1] exI [of _ q']) simp
  qed
qed

lemma verify_from_state_registry: "verify_from_state env v s = (r, t) \<Longrightarrow> t = s"
  by (auto simp: verify_from_state_def bindS_def on_fs_def liftS_def split: sum.splits prod.splits
      dest!: load_state_hashes_fs)

lemma hook_verify_registry: "hook_verify env no_methods payload request s = (r, t) \<Longrightarrow> t = s"
  by (auto simp: hook_verify_def no_methods_def bindS_def liftS_def split: sum.splits option.splits
      dest: verify_from_state_registry)

lemma hook_step_keeps:
  assumes "hook_step env s t" and kl: "keeps_list s"
  shows "runtime_knows s \<subseteq> runtime_knows t \<and> keeps_list t"
proof -
  obtain payload request r where c: "runtime_hook env no_methods payload request s = (r, t)"
    using assms(1) by (auto simp: hook_step_iff)
  show ?thesis
  proof (cases "map_of payload ''layers'' = None")
    case True
    then have "t = s"
      using c by (auto simp: runtime_hook_def liftS_def no_methods_def hook_verify_registry [unfolded no_methods_def] split: if_splits)
    then show ?thesis using kl by simp
  next
    case False
    then have "hook_register env no_methods payload request s = (r, t)" using c by (simp add: runtime_hook_def)
    from hook_register_cases [OF this] consider "rt_hashes (reg_runtime t) = rt_hashes (reg_runtime s)"
      | s1 q where "rt_hashes (reg_runtime s1) = rt_hashes (reg_runtime s)" "record_hash env payload s1 = (q, t)"
      by blast
    then show ?thesis
    proof cases
      case 1
      then show ?thesis using kl runtime_knows_cong keeps_list_cong by blast
    next
      case (2 s1 q)
      have no: "rt_hashes (reg_runtime s1) \<noteq> OtherHashes" using keeps_list_not_other [OF kl] 2(1) by simp
      from record_hash_cases [OF 2(2)] consider "rt_hashes (reg_runtime t) = rt_hashes (reg_runtime s1)"
        | h where "reg_runtime t = note_runtime_hash h (reg_runtime s1)" by blast
      then show ?thesis
      proof cases
        case 1
        with 2(1) have "rt_hashes (reg_runtime t) = rt_hashes (reg_runtime s)" by simp
        then show ?thesis using kl runtime_knows_cong keeps_list_cong by blast
      next
        case (2 h)
        then show ?thesis
          using runtime_knows_note [OF _ no] runtime_knows_cong [of s1 s]
            \<open>rt_hashes (reg_runtime s1) = rt_hashes (reg_runtime s)\<close> by auto
      qed
    qed
  qed
qed

interpretation hook_knowledge: growing_knowledge runtime_knows "hook_step env" keeps_list
  by unfold_locales (use hook_step_keeps in blast)+

lemma verify_known:
  assumes "keeps_list s" and "h \<in> runtime_knows s"
  shows "runtime_hook env no_methods [(''block_hashes'', JList [JStr h])] request s =
    (Inr (JObj [(''success'', JBool True)]), s)"
proof -
  have "direct_verify_runtime (reg_runtime s) (JList (map JStr [h])) = Inr (Some (JObj [(''success'', JBool True)]))"
    using assms unfolding direct_verify_strs
    by (auto simp: keeps_list_def runtime_knows_def missing_verdict_def)
  then show ?thesis
    by (simp add: runtime_hook_def hook_verify_def no_methods_def field_or_def liftS_def)
qed

lemma registered_known:
  assumes "runtime_hook env no_methods payload request s = (Inr res, s1)" and "map_of payload ''layers'' \<noteq> None"
    and hash: "map_of payload ''hash'' = Some (JStr h)" "h \<noteq> []" and no: "rt_hashes (reg_runtime s) \<noteq> OtherHashes"
  shows "h \<in> runtime_knows s1 \<and> keeps_list s1"
proof -
  have "hook_register env no_methods payload request s = (Inr res, s1)" using assms(1,2) by (simp add: runtime_hook_def)
  from hook_register_cases [OF this] obtain s0 where s0: "rt_hashes (reg_runtime s0) = rt_hashes (reg_runtime s)"
    "record_hash env payload s0 = (Inr (), s1)" by auto
  obtain c cs where h: "h = c # cs" using hash(2) by (cases h) auto
  have n: "reg_runtime s1 = note_runtime_hash h (reg_runtime s0)"
    using s0(2) hash(1)
    by (auto simp: record_hash_def field_or_def h bindS_def split: prod.splits sum.splits dest!: store_hash_state)
  have no0: "rt_hashes (reg_runtime s0) \<noteq> OtherHashes" using no s0(1) by simp
  then show ?thesis using runtime_knows_note [OF n no0] by auto
qed

text \<open>A registered block stays verifiable: once the hook has registered a payload with a hash, then after any
  further sequence of hook calls, whatever they do and whether they fail, asking for the hash reports
  success.\<close>

theorem registered_hash_verifies:
  assumes "runtime_hook env no_methods payload request s = (Inr res, s1)" and "map_of payload ''layers'' \<noteq> None"
    and hash: "map_of payload ''hash'' = Some (JStr h)" "h \<noteq> []" and no: "rt_hashes (reg_runtime s) \<noteq> OtherHashes"
    and steps: "(hook_step env)\<^sup>*\<^sup>* s1 s2"
  shows "runtime_hook env no_methods [(''block_hashes'', JList [JStr h])] request' s2 =
    (Inr (JObj [(''success'', JBool True)]), s2)"
  using hook_knowledge.steps_keep [OF steps] registered_known [OF assms(1,2) hash no] by (intro verify_known) auto

definition sample_payload :: obj where
  "sample_payload = [(''layers'', JList [sample_layer]), (''hash'', JStr ''h2'')]"

lemma sample_written:
  "write_combined_cache sample_layer (Some [0, 1]) sample_cache = (Inr (), JList
     [JList [JList [JList [JList [JFloat (Fin 1)]]], JList [JList [JList [JFloat (Fin 3)]]]],
      JList [JList [JList [JList [JFloat (Fin 2)]]], JList [JList [JList [JFloat (Fin 4)]]]]])"
    (is "_ = (Inr (), ?c)")
  by code_simp

lemma sample_probe:
  "\<exists>probe c. write_layer_cache (sample_env\<lparr>state_file := None\<rparr>) (Some [0, 1]) sample_layer sample_cache = (Inr probe, c) \<and>
     cache_storage_summary c = Inr (JObj
       [(''kind'', JStr ''pair''), (''key_shape'', ints_json [2, 1, 1, 1]), (''value_shape'', ints_json [2, 1, 1, 1]),
        (''key_preview'', floats_json [Fin 1, Fin 3]), (''value_preview'', floats_json [Fin 2, Fin 4])])"
proof -
  have "blocks_ok (Some [0, 1]) (1 * target_blocks_per_source_block (CombinedSplitTokenHeadDim 1 2)) (hd [2, 2, 1, 1, 1])"
    by (rule blocks_ok_ids) (auto simp: or_one_def)
  from write_then_probe [OF sample_facts(1-5) _ sample_finite this, of 4] obtain ss where
    "combined_samples 4 (snd (write_combined_cache sample_layer (Some [0, 1]) sample_cache)) sample_layer (Some [0, 1]) =
      Inr (CombinedSplitTokenHeadDim 1 2, ss)" by (auto simp: sample_facts)
  then show ?thesis
    by (simp add: write_layer_cache_def sample_facts bindS_def sample_written combined_slot_samples_def sample_env_def
        cache_storage_summary_def pair_summary_def preview_flat_values_def py_float_def)
qed

lemma sample_plan:
  "plan_target_blocks (sample_env\<lparr>state_file := None\<rparr>) [(''model.layers.0.attn'', sample_cache)]
     [(0, ''model.layers.0.attn'')] (JList [sample_layer]) =
   Inr (Some [0, 1], JObj [(''mode'', JStr ''vllm_block_pool''), (''target_block_count'', JInt 2),
     (''target_block_ids'', ints_json [0, 1])])"
  by code_simp

lemma sample_registration:
  "\<exists>res s1. runtime_hook (sample_env\<lparr>state_file := None\<rparr>) no_methods sample_payload JNull sample_registry = (Inr res, s1)"
proof -
  have m: "get_layer_map (reg_runtime sample_registry) [(''model.layers.0.attn'', sample_cache)] =
      Inr [(0, ''model.layers.0.attn'')]"
    by code_simp
  obtain probe c where p: "write_layer_cache (sample_env\<lparr>state_file := None\<rparr>) (Some [0, 1]) sample_layer sample_cache = (Inr probe, c)"
    and c: "\<exists>t. cache_storage_summary c = Inr t" using sample_probe by blast
  have s: "\<exists>src. prepared_layer_summary sample_layer = Inr src"
    using sample_facts(3,4) by (simp add: prepared_layer_summary_def source_preview_def source_shape_def sample_view_def
        flat_preview_def py_float_def)
  have k: "get_kv_caches (reg_runtime sample_registry) = Inr [(''model.layers.0.attn'', sample_cache)]"
    by (simp add: get_kv_caches_def sample_registry_def)
  have l: "field_or sample_payload ''layers'' (JList []) = JList [sample_layer]"
    by (simp add: sample_payload_def field_or_def)
  have i: "py_get sample_layer ''layer_index'' = Inr (JInt 0)" by (simp add: sample_layer_def)
  have "\<exists>res rt. direct_register_into_kv_caches (sample_env\<lparr>state_file := None\<rparr>) sample_payload (reg_runtime sample_registry) =
      (Inr (JObj ((''success'', JBool True) # res)), rt)"
    using c s by (auto simp: direct_register_into_kv_caches_def k m l sample_plan register_layer_def i p bindS_def liftS_def)
  then show ?thesis
    by (auto simp: runtime_hook_def hook_register_def no_methods_def on_runtime_def bindS_def liftS_def record_hash_def
        store_hash_def sample_env_def sample_payload_def field_or_def Let_def)
qed

theorem registered_hash_verifies_witness:
  "\<exists>res s1. runtime_hook (sample_env\<lparr>state_file := None\<rparr>) no_methods sample_payload JNull sample_registry = (Inr res, s1) \<and>
     runtime_hook (sample_env\<lparr>state_file := None\<rparr>) no_methods [(''block_hashes'', JList [JStr ''h2''])] JNull s1 =
       (Inr (JObj [(''success'', JBool True)]), s1)"
proof -
  obtain res s1 where r: "runtime_hook (sample_env\<lparr>state_file := None\<rparr>) no_methods sample_payload JNull sample_registry = (Inr res, s1)"
    using sample_registration by blast
  have p: "map_of sample_payload ''layers'' \<noteq> None" "map_of sample_payload ''hash'' = Some (JStr ''h2'')"
    by (simp_all add: sample_payload_def)
  show ?thesis
    using r registered_hash_verifies [OF r p _ _ rtranclp.rtrancl_refl] by (auto simp: sample_registry_def)
qed

end
