(* ===== verification/PyText.thy ===== *)
theory PyText
  imports AdapterUtils
begin

text \<open>
  Text operations of the Python standard library that the runtime bridges use: \<open>str.split\<close> with a
  one-character separator and \<open>int()\<close> of a text.
\<close>

fun split_on :: "char \<Rightarrow> string \<Rightarrow> string list" where
  "split_on sep [] = [[]]"
| "split_on sep (c # cs) =
     (if c = sep then [] # split_on sep cs
      else case split_on sep cs of [] \<Rightarrow> [[c]] | w # ws \<Rightarrow> (c # w) # ws)"

lemma split_on_nonempty [simp]: "split_on sep s \<noteq> []"
  by (induction s) (auto split: list.splits)

lemma split_on_append: "sep \<notin> set p \<Longrightarrow> split_on sep (p @ sep # s) = p # split_on sep s"
  by (induction p) auto

lemma split_on_plain: "sep \<notin> set p \<Longrightarrow> split_on sep p = [p]"
  by (induction p) auto

text \<open>The digits of an integer literal: single underscores may stand between digits.\<close>

fun literal_digits :: "bool \<Rightarrow> string \<Rightarrow> string option" where
  "literal_digits after [] = (if after then Some [] else None)"
| "literal_digits after (c # cs) =
     (if is_digit c then map_option (\<lambda>ds. c # ds) (literal_digits True cs)
      else if c = CHR ''_'' \<and> after then
        (case cs of [] \<Rightarrow> None | d # _ \<Rightarrow> if is_digit d then literal_digits False cs else None)
      else None)"

text \<open>\<open>int(s)\<close>: surrounding white space, a sign, decimal digits; the interpreter refuses more than 4300
  digits.\<close>

definition int_of_text :: "string \<Rightarrow> int res" where
  "int_of_text s =
     (let t = py_strip s;
          neg = starts_with ''-'' t;
          body = (if starts_with ''-'' t \<or> starts_with ''+'' t then tl t else t)
      in case literal_digits False body of
           None \<Rightarrow> Inl (ValueError (''invalid literal for int() with base 10: '' @ repr_str s))
         | Some ds \<Rightarrow>
             if 4300 < length ds
             then Inl (ValueError (''Exceeds the limit (4300 digits) for integer string conversion: value has '' @
                         nat_str (length ds) @ '' digits; use sys.set_int_max_str_digits() to increase the limit''))
             else Inr (if neg then - int (digits_val ds) else int (digits_val ds)))"

text \<open>\<open>int(v)\<close> of a JSON value; truncation of floats is outside the model.\<close>

definition int_of :: "json \<Rightarrow> int res" where
  "int_of v = (case v of JStr s \<Rightarrow> int_of_text s | _ \<Rightarrow> py_int v)"

lemma int_of_JInt [simp]: "int_of (JInt i) = Inr i"
  by (simp add: int_of_def py_int_def)

lemma literal_digits_all: "list_all is_digit ds \<Longrightarrow> ds \<noteq> [] \<Longrightarrow> literal_digits a ds = Some ds"
proof -
  have "list_all is_digit ds \<Longrightarrow> literal_digits True ds = Some ds" for ds by (induction ds) auto
  then show "list_all is_digit ds \<Longrightarrow> ds \<noteq> [] \<Longrightarrow> literal_digits a ds = Some ds" by (cases ds) auto
qed

end
