(* ===== verification/VllmBridge.thy ===== *)
theory VllmBridge
  imports VllmRegistry PyText
begin

text \<open>
  The vLLM-side injector of \<^verbatim>\<open>adapters/vllm_runtime_bridge.py\<close>: it recognises a request, groups the canonical
  tensors by layer, cuts each into the blocks a paged KV cache stores, keeps the prepared block in a
  state directory and hands it to the runtime hook. The hook named by the environment is an argument;
  with the hook of \<^verbatim>\<open>adapters/vllm_live_runtime_registry.py\<close> the two components compose.
\<close>

section \<open>Requests\<close>

definition request_kind :: "obj \<Rightarrow> string res" where
  "request_kind request =
     (case (map_of request ''kind'', map_of request ''action'') of
        (Some (JStr k), _) \<Rightarrow> Inr k
      | (_, Some (JStr a)) \<Rightarrow> Inr a
      | _ \<Rightarrow>
          if map_of request ''inject_block'' \<noteq> None then Inr ''inject_block''
          else if map_of request ''verify_continuation'' \<noteq> None then Inr ''verify_continuation''
          else if map_of request ''tensors'' \<noteq> None \<and> map_of request ''hash'' \<noteq> None then Inr ''inject_block''
          else if map_of request ''block_hashes'' \<noteq> None then Inr ''verify_continuation''
          else adapter_error ''unable to determine injector request kind'')"

definition payload_for_kind :: "obj \<Rightarrow> string \<Rightarrow> obj" where
  "payload_for_kind request kind = (case field_or request kind JNull of JObj d \<Rightarrow> d | _ \<Rightarrow> request)"

text \<open>\<open>payload.get(a) or payload.get(b)\<close>.\<close>

definition first_truthy :: "obj \<Rightarrow> string \<Rightarrow> string \<Rightarrow> json" where
  "first_truthy d a b = (if truthy (field_or d a JNull) then field_or d a JNull else field_or d b JNull)"

section \<open>Layers\<close>

type_synonym layer_group = "(int \<times> obj) list"

text \<open>\<open>grouped.setdefault(i, {})[part] = tensor\<close>.\<close>

definition put_tensor :: "int \<Rightarrow> string \<Rightarrow> json \<Rightarrow> layer_group \<Rightarrow> layer_group" where
  "put_tensor i part tensor g =
     AList.update i (dict_set part tensor (case map_of g i of Some d \<Rightarrow> d | None \<Rightarrow> [])) g"

definition group_tensor :: "json \<Rightarrow> layer_group \<Rightarrow> layer_group res" where
  "group_tensor tensor g =
     bindR (py_get tensor ''name'') (\<lambda>name.
     case name of
       JStr s \<Rightarrow>
         (case split_on (CHR ''.'') s of
            [a, i, part] \<Rightarrow>
              if a \<noteq> ''layer'' \<or> part \<notin> {''key'', ''value''}
              then adapter_error (''unexpected tensor name '' @ [CHR 0x27] @ s @ [CHR 0x27])
              else bindR (int_of_text i) (\<lambda>layer_index. Inr (put_tensor layer_index part tensor g))
          | _ \<Rightarrow> adapter_error (''unexpected tensor name '' @ [CHR 0x27] @ s @ [CHR 0x27]))
     | _ \<Rightarrow> adapter_error ''injector tensor name must be a string'')"

definition group_layers :: "json list \<Rightarrow> layer_group res" where
  "group_layers tensors = foldR group_tensor tensors []"

text \<open>\<open>range(n)\<close> slices of a flat list.\<close>

fun slices :: "nat \<Rightarrow> nat \<Rightarrow> 'a list \<Rightarrow> 'a list list" where
  "slices 0 d xs = []"
| "slices (Suc n) d xs = take d xs # slices n d (drop d xs)"

definition rebuild :: "int \<Rightarrow> int \<Rightarrow> int \<Rightarrow> json list \<Rightarrow> json" where
  "rebuild s h d xs =
     JList (map (\<lambda>row. JList (map JList (slices (nat h) (nat d) row))) (slices (nat s) (nat h * nat d) xs))"

definition canonical_tensor_data :: "obj \<Rightarrow> json res" where
  "canonical_tensor_data tensor =
     (let label = ''tensor '' @ py_str (field_or tensor ''name'' JNull) in
      case field_or tensor ''data'' JNull of
        JList xs \<Rightarrow>
          (case field_or tensor ''shape'' JNull of
             JList [s, h, d] \<Rightarrow>
               (case (int_val s, int_val h, int_val d) of
                  (Some s', Some h', Some d') \<Rightarrow>
                    if int (length xs) \<noteq> s' * h' * d'
                    then adapter_error (label @ '' flat payload length '' @ nat_str (length xs) @
                           '' does not match shape '' @ py_str (JList [s, h, d]))
                    else Inr (rebuild s' h' d' xs)
                | _ \<Rightarrow>
                    bindR (shape_of_storage (JList xs)) (\<lambda>shape.
                    if length shape \<noteq> 3
                    then adapter_error (label @ '' must be canonical [seq, kv_heads, head_dim], got '' @ py_str (ints_json shape))
                    else Inr (JList xs)))
           | _ \<Rightarrow>
               bindR (shape_of_storage (JList xs)) (\<lambda>shape.
               if length shape \<noteq> 3
               then adapter_error (label @ '' must be canonical [seq, kv_heads, head_dim], got '' @ py_str (ints_json shape))
               else Inr (JList xs)))
      | _ \<Rightarrow> adapter_error (label @ '' must contain a list payload''))"

section \<open>Blocks\<close>

text \<open>\<open>max(1, math.ceil(seq_len / block_size))\<close>. The division is exact here; the interpreter divides
  floats, which gives the same ceiling for every sequence that fits in memory.\<close>

definition block_count :: "int \<Rightarrow> int \<Rightarrow> int res" where
  "block_count seq_len bsize =
     (if bsize = 0 then Inl (ZeroDivisionError ''division by zero'') else Inr (max 1 (- ((- seq_len) div bsize))))"

text \<open>A fresh nested list of zeros of the given dimensions.\<close>

fun zeros :: "int list \<Rightarrow> json" where
  "zeros [] = JFloat (Fin 0)"
| "zeros (n # ns) = JList (replicate (nat n) (zeros ns))"

definition fill_key_blocks :: "json \<Rightarrow> int \<Rightarrow> int \<Rightarrow> int \<Rightarrow> int \<Rightarrow> (json, unit) st" where
  "fill_key_blocks data bsize seq_len kh hdim =
     forS (range_list seq_len) (\<lambda>s.
     forS (range_list kh) (\<lambda>h.
     forS (range_list hdim) (\<lambda>d.
       bindS (liftS (nested_get data [s, h, d])) (assign [s div bsize, h, d, s mod bsize]))))"

definition fill_value_blocks :: "json \<Rightarrow> int \<Rightarrow> int \<Rightarrow> int \<Rightarrow> int \<Rightarrow> (json, unit) st" where
  "fill_value_blocks data bsize seq_len kh hdim =
     forS (range_list seq_len) (\<lambda>s.
     forS (range_list kh) (\<lambda>h.
     forS (range_list hdim) (\<lambda>d.
       bindS (liftS (nested_get data [s, h, d])) (assign [s div bsize, h, s mod bsize, d]))))"

definition key_to_blocks :: "json \<Rightarrow> int \<Rightarrow> json res" where
  "key_to_blocks data bsize =
     bindR (py_len data) (\<lambda>seq_len.
     bindR (first_len data) (\<lambda>kh.
     bindR (second_len data) (\<lambda>hdim.
     bindR (block_count seq_len bsize) (\<lambda>n.
       case fill_key_blocks data bsize seq_len kh hdim (zeros [n, kh, hdim, bsize]) of
         (Inl e, _) \<Rightarrow> Inl e | (Inr _, blocks) \<Rightarrow> Inr blocks))))"

definition value_to_blocks :: "json \<Rightarrow> int \<Rightarrow> json res" where
  "value_to_blocks data bsize =
     bindR (py_len data) (\<lambda>seq_len.
     bindR (first_len data) (\<lambda>kh.
     bindR (second_len data) (\<lambda>hdim.
     bindR (block_count seq_len bsize) (\<lambda>n.
       case fill_value_blocks data bsize seq_len kh hdim (zeros [n, kh, bsize, hdim]) of
         (Inl e, _) \<Rightarrow> Inl e | (Inr _, blocks) \<Rightarrow> Inr blocks))))"

section \<open>The prepared block\<close>

definition preblocked_layer :: "int \<Rightarrow> json \<Rightarrow> json \<Rightarrow> json" where
  "preblocked_layer i k v =
     JObj [(''layer_index'', JInt i), (''shape_mode'', JStr ''preblocked''), (''key_tensor'', k), (''value_tensor'', v)]"

definition prepare_layer :: "int \<Rightarrow> int \<times> obj \<Rightarrow> json res" where
  "prepare_layer bsize = (\<lambda>(i, layer).
     case (map_of layer ''key'', map_of layer ''value'') of
       (Some (JObj k), Some (JObj v)) \<Rightarrow>
         if four_dims (field_or k ''shape'' JNull) \<and> four_dims (field_or v ''shape'' JNull)
         then Inr (preblocked_layer i (JObj k) (JObj v))
         else
           bindR (canonical_tensor_data k) (\<lambda>key_data.
           bindR (canonical_tensor_data v) (\<lambda>value_data.
           bindR (py_len key_data) (\<lambda>seq_len.
           bindR (first_len key_data) (\<lambda>kh.
           bindR (second_len key_data) (\<lambda>hdim.
           bindR (key_to_blocks key_data bsize) (\<lambda>kb.
           bindR (value_to_blocks value_data bsize) (\<lambda>vb.
             Inr (JObj [(''layer_index'', JInt i), (''seq_len'', JInt seq_len), (''kv_heads'', JInt kh),
               (''head_dim'', JInt hdim), (''key_blocks'', kb), (''value_blocks'', vb)]))))))))
     | _ \<Rightarrow> adapter_error (''layer '' @ int_str i @ '' is missing key/value tensors''))"

text \<open>The bridge's environment: the block size and the state directory, as set.\<close>

record bridge_env =
  block_size_var :: "string option"
  state_dir_var :: "string option"

definition request_block_size :: "bridge_env \<Rightarrow> obj \<Rightarrow> int res" where
  "request_block_size env payload =
     (if truthy (field_or payload ''block_size'' JNull) then int_of (field_or payload ''block_size'' JNull)
      else case block_size_var env of Some (c # cs) \<Rightarrow> int_of_text (c # cs) | _ \<Rightarrow> Inr 256)"

definition prepare_injected_block_state :: "bridge_env \<Rightarrow> obj \<Rightarrow> obj res" where
  "prepare_injected_block_state env request =
     (let payload = payload_for_kind request ''inject_block'' in
      case first_truthy payload ''hash'' ''block_hash'' of
        JStr (c # cs) \<Rightarrow>
          (case field_or payload ''tensors'' JNull of
             JList (t # ts) \<Rightarrow>
               bindR (request_block_size env payload) (\<lambda>bsize.
               bindR (group_layers (t # ts)) (\<lambda>grouped.
               bindR (mapR (prepare_layer bsize) (sort_key fst grouped)) (\<lambda>layers.
                 Inr [(''hash'', JStr (c # cs)), (''block_size'', JInt bsize),
                   (''layer_count'', JInt (int (length layers))), (''layers'', JList layers)])))
           | _ \<Rightarrow> adapter_error (''inject_block request must include a non-empty '' @ repr_str ''tensors'' @ '' list''))
      | _ \<Rightarrow> adapter_error (''inject_block request must include a non-empty '' @ repr_str ''hash''))"

definition persist_prepared_block :: "bridge_env \<Rightarrow> obj \<Rightarrow> unit io" where
  "persist_prepared_block env state =
     (case state_dir_var env of
        Some (c # cs) \<Rightarrow>
          bindIO (mkdir_parents (Path (c # cs))) (\<lambda>_.
          bindIO (liftR (bindR (py_item (JObj state) ''hash'') as_str)) (\<lambda>h.
            write_bytes (path_sub (Path (c # cs)) (h @ ''.json'')) (utf8_encode (render pretty_style 0 (JObj state)))))
      | _ \<Rightarrow> returnIO ())"

section \<open>Verification and dispatch\<close>

text \<open>\<open>item in {p.stem for p in dir.glob("*.json")}\<close>: an entry of the directory with that name and the
  suffix; a file called \<open>.json\<close> is its own stem.\<close>

definition entry_of :: "pypath \<Rightarrow> string \<Rightarrow> pypath" where
  "entry_of dir name = dir\<lparr>parts := parts dir @ [name]\<rparr>"

definition stem_listed :: "fs \<Rightarrow> pypath \<Rightarrow> string \<Rightarrow> bool" where
  "stem_listed f dir h \<longleftrightarrow>
     h \<noteq> [] \<and> CHR ''/'' \<notin> set h \<and> path_exists f (entry_of dir (h @ ''.json'')) \<or>
     h = ''.json'' \<and> path_exists f (entry_of dir ''.json'')"

definition requested_hashes :: "obj \<Rightarrow> json" where
  "requested_hashes payload = first_truthy payload ''block_hashes'' ''expected_hashes''"

definition verify_hashes_from_state_dir :: "bridge_env \<Rightarrow> obj \<Rightarrow> json io" where
  "verify_hashes_from_state_dir env request f =
     (case requested_hashes (payload_for_kind request ''verify_continuation'') of
        JList hs \<Rightarrow>
          if \<not> list_all is_str hs
          then (adapter_error (''verify_continuation requires a string list in '' @ repr_str ''block_hashes''), f)
          else (case state_dir_var env of
             Some (c # cs) \<Rightarrow>
               (Inr (missing_verdict (filter (\<lambda>v. case v of JStr h \<Rightarrow> \<not> stem_listed f (Path (c # cs)) h | _ \<Rightarrow> True) hs)), f)
           | _ \<Rightarrow> (Inr (JObj [(''success'', JBool True)]), f))
      | _ \<Rightarrow> (adapter_error (''verify_continuation requires a string list in '' @ repr_str ''block_hashes''), f))"

text \<open>A runtime hook sees the prepared state or the verification payload, and the request.\<close>

type_synonym bridge_hook = "obj \<Rightarrow> json \<Rightarrow> (registry, json) st"

definition injector_hook :: "bridge_env \<Rightarrow> bridge_hook option \<Rightarrow> obj \<Rightarrow> (registry, json) st" where
  "injector_hook env hook request =
     bindS (liftS (request_kind request)) (\<lambda>kind.
     if kind = ''inject_block'' then
       bindS (liftS (prepare_injected_block_state env request)) (\<lambda>prepared.
       bindS (on_fs (persist_prepared_block env prepared)) (\<lambda>_.
       case hook of
         Some f \<Rightarrow> bindS (f prepared (JObj request)) (\<lambda>r. liftS (normalize_injector_response r))
       | None \<Rightarrow> liftS (Inr (JObj [(''success'', JBool True)]))))
     else if kind = ''verify_continuation'' then
       (let payload = payload_for_kind request ''verify_continuation'';
            hashes = requested_hashes payload
        in case hook of
             Some f \<Rightarrow>
               bindS (f (if is_list hashes then [(''block_hashes'', hashes)] else payload) (JObj request)) (\<lambda>r.
                 liftS (normalize_injector_response r))
           | None \<Rightarrow>
               bindS (on_fs (verify_hashes_from_state_dir env request)) (\<lambda>r. liftS (normalize_injector_response r)))
     else liftS (adapter_error (''unsupported injector request kind '' @ [CHR 0x27] @ kind @ [CHR 0x27])))"

section \<open>Flat tensors are rebuilt in row-major order\<close>

lemma length_slices [simp]: "length (slices n d xs) = n"
  by (induction n arbitrary: xs) auto

lemma slices_nth: "i < n \<Longrightarrow> slices n d xs ! i = take d (drop (i * d) xs)"
proof (induction n arbitrary: i xs)
  case (Suc n)
  then show ?case by (cases i) (auto simp: drop_drop ac_simps)
qed simp

lemma arr_3I:
  assumes "int (length rows) = s" and "\<And>i. i < length rows \<Longrightarrow> \<exists>hs. rows ! i = JList hs \<and> int (length hs) = h \<and>
      (\<forall>j < length hs. \<exists>xs. hs ! j = JList xs \<and> int (length xs) = d)"
  shows "arr [s, h, d] (JList rows)"
  using assms by (fastforce simp: list_all_iff in_set_conv_nth)

lemma rebuild_row_major:
  assumes "0 \<le> s" "0 \<le> h" "0 \<le> d" and len: "int (length xs) = s * h * d"
  shows "arr [s, h, d] (rebuild s h d xs)"
    and "\<lbrakk>0 \<le> i; i < s; 0 \<le> j; j < h; 0 \<le> k; k < d\<rbrakk> \<Longrightarrow>
      nested_get (rebuild s h d xs) [i, j, k] = Inr (xs ! nat ((i * h + j) * d + k))"
proof -
  obtain s' h' d' where n: "s = int s'" "h = int h'" "d = int d'" using assms(1-3) by (metis nonneg_int_cases)
  have len': "length xs = s' * h' * d'" using len n by (metis of_nat_eq_iff of_nat_mult)
  have row: "length (take (h' * d') (drop (i * (h' * d')) xs)) = h' * d'" if "i < s'" for i
  proof -
    have "Suc i * (h' * d') \<le> s' * (h' * d')" using that by (intro mult_right_mono) auto
    then show ?thesis using len' by (simp add: algebra_simps)
  qed
  have cell: "length (take d' (drop (j * d') r)) = d'" if "j < h'" "length r = h' * d'" for j and r :: "json list"
  proof -
    have "Suc j * d' \<le> h' * d'" using that(1) by (intro mult_right_mono) auto
    then show ?thesis using that(2) by (simp add: algebra_simps)
  qed
  show "arr [s, h, d] (rebuild s h d xs)"
    unfolding rebuild_def n by (intro arr_3I) (auto simp: slices_nth row cell simp del: length_take length_drop)
  assume "0 \<le> i" "i < s" "0 \<le> j" "j < h" "0 \<le> k" "k < d"
  then obtain i' j' k' where m: "i = int i'" "j = int j'" "k = int k'" "i' < s'" "j' < h'" "k' < d'"
    using n by (metis nonneg_int_cases of_nat_less_iff)
  have r: "length (take (h' * d') (drop (i' * (h' * d')) xs)) = h' * d'" by (rule row [OF m(4)])
  have "Suc j' * d' \<le> h' * d'" using m(5) by (intro mult_right_mono) auto
  then have p: "j' * d' + k' < h' * d'" using m(6) by simp
  have "nat ((i * h + j) * d + k) = i' * (h' * d') + (j' * d' + k')"
    unfolding m n by (simp add: algebra_simps flip: of_nat_mult of_nat_add)
  moreover have "i' * (h' * d') + (j' * d' + k') < length xs"
  proof -
    have "Suc i' * (h' * d') \<le> s' * (h' * d')" using m(4) by (intro mult_right_mono) auto
    then show ?thesis using p len' by (simp add: algebra_simps)
  qed
  ultimately show "nested_get (rebuild s h d xs) [i, j, k] = Inr (xs ! nat ((i * h + j) * d + k))"
    using m r p cell [OF m(5) r] unfolding rebuild_def n
    by (simp add: py_index_nonneg slices_nth add.assoc)
qed

section \<open>Cutting a tensor into blocks\<close>

lemma arr_zeros: "list_all (\<lambda>n. 0 \<le> n) ns \<Longrightarrow> arr ns (zeros ns)"
  by (induction ns) (auto simp: list_all_iff)

lemma nested_get_zeros: "in_range ns is \<Longrightarrow> nested_get (zeros ns) is = Inr (JFloat (Fin 0))"
  by (induction ns arbitrary: "is") (auto simp: py_index_nonneg)

text \<open>Three nested loops that copy a tensor cell by cell to different places.\<close>

definition tensor_cells :: "json \<Rightarrow> (int \<Rightarrow> int \<Rightarrow> int \<Rightarrow> int list) \<Rightarrow> int \<Rightarrow> int \<Rightarrow> int \<Rightarrow> (int list \<times> json) list" where
  "tensor_cells data idx s h d =
     concat (map (\<lambda>i. concat (map (\<lambda>j. map (\<lambda>k.
       (idx i j k, case nested_get data [i, j, k] of Inr x \<Rightarrow> x | Inl _ \<Rightarrow> JNull)) (range_list d)) (range_list h))) (range_list s))"

lemma copy_cells:
  assumes c: "arr ns c" and data: "arr [s, h, d] data"
    and rng: "\<And>i j k. in_range [s, h, d] [i, j, k] \<Longrightarrow> in_range ns (idx i j k)"
    and inj: "\<And>i j k i' j' k'. \<lbrakk>in_range [s, h, d] [i, j, k]; in_range [s, h, d] [i', j', k']; idx i j k = idx i' j' k'\<rbrakk> \<Longrightarrow>
        i = i' \<and> j = j' \<and> k = k'"
  shows "\<exists>c'. forS (range_list s) (\<lambda>i. forS (range_list h) (\<lambda>j. forS (range_list d) (\<lambda>k.
       bindS (liftS (nested_get data [i, j, k])) (assign (idx i j k))))) c = (Inr (), c') \<and> arr ns c' \<and>
    (\<forall>i j k. in_range [s, h, d] [i, j, k] \<longrightarrow> nested_get c' (idx i j k) = nested_get data [i, j, k]) \<and>
    (\<forall>js. in_range ns js \<longrightarrow> (\<forall>i j k. in_range [s, h, d] [i, j, k] \<longrightarrow> js \<noteq> idx i j k) \<longrightarrow> nested_get c' js = nested_get c js)"
proof -
  let ?ps = "tensor_cells data idx s h d"
  have mem: "(p, x) \<in> set ?ps \<longleftrightarrow> (\<exists>i j k. in_range [s, h, d] [i, j, k] \<and> p = idx i j k \<and> nested_get data [i, j, k] = Inr x)" for p x
  proof
    assume "(p, x) \<in> set ?ps"
    then obtain i j k where r: "in_range [s, h, d] [i, j, k]" and p: "p = idx i j k"
      and x: "x = (case nested_get data [i, j, k] of Inr x \<Rightarrow> x | Inl _ \<Rightarrow> JNull)"
      by (auto simp: tensor_cells_def)
    with nested_get_total [OF data r] show "\<exists>i j k. in_range [s, h, d] [i, j, k] \<and> p = idx i j k \<and> nested_get data [i, j, k] = Inr x"
      by (intro exI [of _ i] exI [of _ j] exI [of _ k]) (auto simp del: nested_get.simps)
  next
    assume "\<exists>i j k. in_range [s, h, d] [i, j, k] \<and> p = idx i j k \<and> nested_get data [i, j, k] = Inr x"
    then show "(p, x) \<in> set ?ps" by (force simp: tensor_cells_def simp del: nested_get.simps)
  qed
  have dist: "distinct (map fst ?ps)"
    unfolding tensor_cells_def map_concat map_map
    by (intro distinct_concat_map distinct_range_list)
      (auto simp: distinct_map map_concat comp_def inj_on_def in_range_Cons intro!: distinct_concat_map dest!: inj [rotated -1])
  have loops: "forS (range_list s) (\<lambda>i. forS (range_list h) (\<lambda>j. forS (range_list d) (\<lambda>k.
       bindS (liftS (nested_get data [i, j, k])) (assign (idx i j k))))) = forS ?ps (\<lambda>(i, x). assign i x)"
    unfolding tensor_cells_def forS_concat forS_map
  proof (intro forS_cong)
    fix i j k assume "i \<in> set (range_list s)" "j \<in> set (range_list h)" "k \<in> set (range_list d)"
    then have "\<exists>x. nested_get data [i, j, k] = Inr x" by (intro nested_get_total [OF data]) auto
    then show "bindS (liftS (nested_get data [i, j, k])) (assign (idx i j k)) =
        (case (idx i j k, case nested_get data [i, j, k] of Inr x \<Rightarrow> x | Inl _ \<Rightarrow> JNull) of (i, x) \<Rightarrow> assign i x)"
      by (auto simp del: nested_get.simps)
  qed
  have dom: "in_range ns p" if px: "(p, x) \<in> set ?ps" for p x
  proof -
    obtain i j k where "in_range [s, h, d] [i, j, k]" "p = idx i j k" using mem px by blast
    then show ?thesis using rng by blast
  qed
  obtain c' where c': "forS ?ps (\<lambda>(i, x). assign i x) c = (Inr (), c')" "arr ns c'"
    "\<forall>(i, x)\<in>set ?ps. nested_get c' i = Inr x" "\<forall>j. in_range ns j \<longrightarrow> j \<notin> fst ` set ?ps \<longrightarrow> nested_get c' j = nested_get c j"
    using nested.put_batch [OF c _ dist] dom by blast
  have "nested_get c' (idx i j k) = nested_get data [i, j, k]" if r: "in_range [s, h, d] [i, j, k]" for i j k
  proof -
    obtain x where x: "nested_get data [i, j, k] = Inr x" using nested_get_total [OF data r] by blast
    then have "(idx i j k, x) \<in> set ?ps" using mem r by blast
    with c'(3) x show ?thesis by auto
  qed
  moreover have "nested_get c' js = nested_get c js"
    if "in_range ns js" "\<forall>i j k. in_range [s, h, d] [i, j, k] \<longrightarrow> js \<noteq> idx i j k" for js
  proof -
    have "js \<notin> fst ` set ?ps"
    proof
      assume "js \<in> fst ` set ?ps"
      then obtain x where "(js, x) \<in> set ?ps" by auto
      then show False using mem that(2) by blast
    qed
    then show ?thesis using c'(4) that(1) by blast
  qed
  ultimately show ?thesis unfolding loops using c'(1,2) by blast
qed

text \<open>What the canonical tensor holds at a token position; past its end, the padding.\<close>

definition tensor_token :: "json \<Rightarrow> int \<Rightarrow> int \<Rightarrow> int \<Rightarrow> int \<Rightarrow> json res" where
  "tensor_token data s i h d = (if i < s then nested_get data [i, h, d] else Inr (JFloat (Fin 0)))"

lemma tensor_lens:
  assumes "arr (s # h # d # ns) data" and "0 < s" "0 < h"
  shows "py_len data = Inr s" "first_len data = Inr h" "second_len data = Inr d" "data \<noteq> JNull"
proof -
  obtain rows where r: "data = JList rows" "int (length rows) = s" "list_all (arr (h # d # ns)) rows"
    using assms(1) by (auto split: json.splits)
  then obtain row rest where rows: "rows = row # rest" using assms(2) by (cases rows) auto
  obtain cs where c: "row = JList cs" "int (length cs) = h" "list_all (arr (d # ns)) cs"
    using r(3) rows by (auto split: json.splits)
  then obtain x xs where cs: "cs = x # xs" using assms(3) by (cases cs) auto
  obtain ys where "x = JList ys" "int (length ys) = d" using c(3) cs by (auto split: json.splits)
  then show "py_len data = Inr s" "first_len data = Inr h" "second_len data = Inr d" "data \<noteq> JNull"
    using r(1,2) rows c cs by (simp_all add: first_len_def second_len_def py_index_def seq_pos_def)
qed

lemma block_count_pos:
  assumes "0 < s" and "0 < bs"
  obtains n where "block_count s bs = Inr n" "1 \<le> n" "s \<le> n * bs" "(n - 1) * bs < s"
proof -
  define n where "n = - ((- s) div bs)"
  have e: "s = n * bs - (- s) mod bs"
    unfolding n_def using div_mult_mod_eq [of "- s" bs] by linarith
  have m: "0 \<le> (- s) mod bs" "(- s) mod bs < bs" using assms(2) by simp_all
  have le: "s \<le> n * bs" and lt: "(n - 1) * bs < s" using e m by (linarith, simp add: algebra_simps)
  then have "0 < n * bs" using assms(1) by linarith
  then have n1: "1 \<le> n" using assms(2) by (simp add: zero_less_mult_iff)
  moreover have "block_count s bs = Inr n" using assms(2) n1 by (simp add: block_count_def n_def)
  ultimately show thesis using that le lt by blast
qed

text \<open>A position is its block and its offset.\<close>

lemma position_split:
  fixes i bs :: int
  assumes "0 < bs"
  shows "(i div bs = b \<and> i mod bs = t) \<longleftrightarrow> (i = b * bs + t \<and> 0 \<le> t \<and> t < bs)"
  using assms by (auto simp: div_pos_pos_trivial mod_pos_pos_trivial)

text \<open>Key blocks keep the tokens in the last dimension, value blocks in the third.\<close>

definition block_index :: "bool \<Rightarrow> int \<Rightarrow> int \<Rightarrow> int \<Rightarrow> int \<Rightarrow> int list" where
  "block_index key b h d t = (if key then [b, h, d, t] else [b, h, t, d])"

lemma block_index_inject [simp]: "block_index key b h d t = block_index key b' h' d' t' \<longleftrightarrow> b = b' \<and> h = h' \<and> d = d' \<and> t = t'"
  by (auto simp: block_index_def)

lemma block_index_range [simp]: "in_range (block_index key n h d bs) (block_index key b h' d' t) \<longleftrightarrow>
    0 \<le> b \<and> b < n \<and> 0 \<le> h' \<and> h' < h \<and> 0 \<le> d' \<and> d' < d \<and> 0 \<le> t \<and> t < bs"
  by (auto simp: block_index_def)

lemma block_index_cases: "in_range (block_index key n h d bs) is \<Longrightarrow> \<exists>b h' d' t. is = block_index key b h' d' t"
  by (auto simp: block_index_def split: if_splits)

lemma blocks_copied:
  assumes data: "arr [s, h, d] data" and pos: "0 < s" "0 < h" "0 \<le> d" "0 < bs" and n: "1 \<le> n" "s \<le> n * bs"
  shows "\<exists>c. forS (range_list s) (\<lambda>i. forS (range_list h) (\<lambda>j. forS (range_list d) (\<lambda>k.
       bindS (liftS (nested_get data [i, j, k])) (assign (block_index key (i div bs) j k (i mod bs)))))) (zeros (block_index key n h d bs)) =
       (Inr (), c) \<and> arr (block_index key n h d bs) c \<and>
    (\<forall>b h' d' t. in_range (block_index key n h d bs) (block_index key b h' d' t) \<longrightarrow>
       nested_get c (block_index key b h' d' t) = tensor_token data s (b * bs + t) h' d')"
proof -
  have split: "0 \<le> i div bs" "i div bs < n" "0 \<le> i mod bs" "i mod bs < bs" if "0 \<le> i" "i < s" for i
  proof -
    show "0 \<le> i div bs" "0 \<le> i mod bs" "i mod bs < bs" using that pos(4) by (simp_all add: pos_imp_zdiv_nonneg_iff)
    have "i div bs * bs \<le> i" using pos(4) by (simp add: minus_mod_eq_div_mult [symmetric])
    also have "\<dots> < n * bs" using that n(2) by linarith
    finally show "i div bs < n" using pos(4) by simp
  qed
  let ?ns = "block_index key n h d bs" and ?ix = "\<lambda>i j k. block_index key (i div bs) j k (i mod bs)"
  have z: "arr ?ns (zeros ?ns)" using pos n(1) by (intro arr_zeros) (auto simp: block_index_def)
  have same: "i = i'" if "i div bs = i' div bs" "i mod bs = i' mod bs" for i i'
    using that by (metis div_mult_mod_eq)
  have rng: "in_range ?ns (?ix i j k)" if "in_range [s, h, d] [i, j, k]" for i j k
    using that split by simp
  have inj: "i = i' \<and> j = j' \<and> k = k'" if "?ix i j k = ?ix i' j' k'" for i j k i' j' k'
    using that same [of i i'] by simp
  obtain c where c: "forS (range_list s) (\<lambda>i. forS (range_list h) (\<lambda>j. forS (range_list d) (\<lambda>k.
       bindS (liftS (nested_get data [i, j, k])) (assign (?ix i j k))))) (zeros ?ns) = (Inr (), c)" "arr ?ns c"
    "\<And>i j k. in_range [s, h, d] [i, j, k] \<Longrightarrow> nested_get c (?ix i j k) = nested_get data [i, j, k]"
    "\<And>js. in_range ?ns js \<Longrightarrow> (\<And>i j k. in_range [s, h, d] [i, j, k] \<Longrightarrow> js \<noteq> ?ix i j k) \<Longrightarrow> nested_get c js = nested_get (zeros ?ns) js"
    using copy_cells [OF z data, of ?ix, OF rng inj] by blast
  have "nested_get c (block_index key b h' d' t) = tensor_token data s (b * bs + t) h' d'"
    if r: "in_range ?ns (block_index key b h' d' t)" for b h' d' t
  proof (cases "b * bs + t < s")
    case True
    have "in_range [s, h, d] [b * bs + t, h', d']" using True r pos(4) by simp
    moreover have "?ix (b * bs + t) h' d' = block_index key b h' d' t"
      using r position_split [OF pos(4), of "b * bs + t" b t] by auto
    ultimately show ?thesis using c(3) True unfolding tensor_token_def by metis
  next
    case False
    have "block_index key b h' d' t \<noteq> ?ix i j k" if "in_range [s, h, d] [i, j, k]" for i j k
      using that False position_split [OF pos(4), of i b t] by auto
    then have "nested_get c (block_index key b h' d' t) = nested_get (zeros ?ns) (block_index key b h' d' t)" by (rule c(4) [OF r])
    then show ?thesis using nested_get_zeros [OF r] False by (simp add: tensor_token_def)
  qed
  with c(1,2) show ?thesis by blast
qed

lemma blocks_of_tensor:
  assumes data: "arr [s, h, d] data" and pos: "0 < s" "0 < h" "0 \<le> d" "0 < bs"
    and n: "block_count s bs = Inr n" "1 \<le> n" "s \<le> n * bs"
  shows "\<exists>kb. key_to_blocks data bs = Inr kb \<and> arr [n, h, d, bs] kb \<and>
      (\<forall>b h' d' t. in_range [n, h, d, bs] [b, h', d', t] \<longrightarrow> nested_get kb [b, h', d', t] = tensor_token data s (b * bs + t) h' d')"
    and "\<exists>vb. value_to_blocks data bs = Inr vb \<and> arr [n, h, bs, d] vb \<and>
      (\<forall>b h' d' t. in_range [n, h, d, bs] [b, h', d', t] \<longrightarrow> nested_get vb [b, h', t, d'] = tensor_token data s (b * bs + t) h' d')"
proof -
  note lens = tensor_lens [OF data pos(1,2)] and copied = blocks_copied [OF data pos n(2,3)]
  show "\<exists>kb. key_to_blocks data bs = Inr kb \<and> arr [n, h, d, bs] kb \<and>
      (\<forall>b h' d' t. in_range [n, h, d, bs] [b, h', d', t] \<longrightarrow> nested_get kb [b, h', d', t] = tensor_token data s (b * bs + t) h' d')"
    using copied [of True] unfolding key_to_blocks_def fill_key_blocks_def lens n(1) bindR_simps block_index_def if_True by auto
  show "\<exists>vb. value_to_blocks data bs = Inr vb \<and> arr [n, h, bs, d] vb \<and>
      (\<forall>b h' d' t. in_range [n, h, d, bs] [b, h', d', t] \<longrightarrow> nested_get vb [b, h', t, d'] = tensor_token data s (b * bs + t) h' d')"
    using copied [of False] unfolding value_to_blocks_def fill_value_blocks_def lens n(1) bindR_simps block_index_def if_False by auto
qed

text \<open>Cutting into blocks loses nothing and adds only padding. A canonical tensor of any positive length
  becomes the least number of blocks that holds it; the cell of block \<open>b\<close> and offset \<open>t\<close> holds token
  \<open>b * block_size + t\<close> of every head and dimension, for keys in the order head, dimension, token and for
  values in the order head, token, dimension; offsets past the last token hold 0.0.\<close>

theorem blocks_hold_tokens:
  assumes "arr [s, h, d] data" and "0 < s" "0 < h" "0 \<le> d" "0 < bs"
  shows "\<exists>n kb vb. key_to_blocks data bs = Inr kb \<and> value_to_blocks data bs = Inr vb \<and>
    (n - 1) * bs < s \<and> s \<le> n * bs \<and> arr [n, h, d, bs] kb \<and> arr [n, h, bs, d] vb \<and>
    (\<forall>b h' d' t. in_range [n, h, d, bs] [b, h', d', t] \<longrightarrow>
       nested_get kb [b, h', d', t] = tensor_token data s (b * bs + t) h' d' \<and>
       nested_get vb [b, h', t, d'] = tensor_token data s (b * bs + t) h' d')"
proof -
  obtain n where n: "block_count s bs = Inr n" "1 \<le> n" "s \<le> n * bs" "(n - 1) * bs < s"
    using block_count_pos [OF assms(2,5)] by blast
  from blocks_of_tensor [OF assms n(1-3)] n(3,4) show ?thesis by blast
qed

definition small_tensor :: json where
  "small_tensor = JList [JList [JList [JInt 1]], JList [JList [JInt 2]], JList [JList [JInt 3]]]"

theorem blocks_hold_tokens_witness:
  "arr [3, 1, 1] small_tensor \<and> (\<exists>n kb vb. key_to_blocks small_tensor 2 = Inr kb \<and> value_to_blocks small_tensor 2 = Inr vb \<and>
     (n - 1) * 2 < 3 \<and> 3 \<le> n * 2 \<and> arr [n, 1, 1, 2] kb \<and> arr [n, 1, 2, 1] vb)"
proof -
  have a: "arr [3, 1, 1] small_tensor" by (simp add: small_tensor_def)
  from blocks_hold_tokens [OF a, of 2] a show ?thesis by auto
qed

section \<open>From canonical tensors to cache cells\<close>

text \<open>A flat canonical tensor: its shape and the data in row-major order.\<close>

definition canonical_tensor :: "obj \<Rightarrow> int \<Rightarrow> int \<Rightarrow> int \<Rightarrow> json list \<Rightarrow> bool" where
  "canonical_tensor t s h d xs \<longleftrightarrow>
     map_of t ''shape'' = Some (ints_json [s, h, d]) \<and> map_of t ''data'' = Some (JList xs) \<and> int (length xs) = s * h * d"

lemma canonical_tensor_rebuilt: "canonical_tensor t s h d xs \<Longrightarrow> canonical_tensor_data t = Inr (rebuild s h d xs)"
  by (simp add: canonical_tensor_def canonical_tensor_data_def field_or_def ints_json_def)

lemma canonical_not_preblocked: "canonical_tensor t s h d xs \<Longrightarrow> \<not> four_dims (field_or t ''shape'' JNull)"
  by (simp add: canonical_tensor_def four_dims_def field_or_def ints_json_def)

lemma prepared_layer_view:
  assumes k: "canonical_tensor kt s h d ks" and v: "canonical_tensor vt s h d vs" and pos: "0 < s" "0 < h" "0 < d" "0 < bs"
  obtains layer lv n where "prepare_layer bs (i, [(''key'', JObj kt), (''value'', JObj vt)]) = Inr layer"
    "layer_block_views layer = Inr lv" "block_size lv = bs" "kv_heads lv = h" "head_dim lv = d"
    "block_count s bs = Inr n" "source_block_count lv = Inr n" "s \<le> n * bs"
    "\<And>b h' d' t. in_space lv n (b, h', d', t) \<Longrightarrow> \<exists>x y. slot_source lv b h' d' t = Inr (x, y) \<and>
       tensor_token (rebuild s h d ks) s (b * bs + t) h' d' = Inr x \<and> tensor_token (rebuild s h d vs) s (b * bs + t) h' d' = Inr y"
proof -
  have len: "int (length ks) = s * h * d" "int (length vs) = s * h * d" using k v by (simp_all add: canonical_tensor_def)
  have ka: "arr [s, h, d] (rebuild s h d ks)" and va: "arr [s, h, d] (rebuild s h d vs)"
    using len pos by (auto intro: rebuild_row_major(1) simp del: arr.simps)
  obtain n where n: "block_count s bs = Inr n" "1 \<le> n" "s \<le> n * bs" using block_count_pos [OF pos(1,4)] by blast
  have d0: "0 \<le> d" using pos(3) by simp
  obtain kb where kb: "key_to_blocks (rebuild s h d ks) bs = Inr kb" "arr [n, h, d, bs] kb"
    "\<And>b h' d' t. in_range [n, h, d, bs] [b, h', d', t] \<Longrightarrow> nested_get kb [b, h', d', t] = tensor_token (rebuild s h d ks) s (b * bs + t) h' d'"
    using blocks_of_tensor(1) [OF ka pos(1,2) d0 pos(4) n] by blast
  obtain vb where vb: "value_to_blocks (rebuild s h d vs) bs = Inr vb" "arr [n, h, bs, d] vb"
    "\<And>b h' d' t. in_range [n, h, d, bs] [b, h', d', t] \<Longrightarrow> nested_get vb [b, h', t, d'] = tensor_token (rebuild s h d vs) s (b * bs + t) h' d'"
    using blocks_of_tensor(2) [OF va pos(1,2) d0 pos(4) n] by blast
  have lens: "first_len kb = Inr h" "second_len kb = Inr d" "second_len vb = Inr bs" "py_len kb = Inr n" "kb \<noteq> JNull" "vb \<noteq> JNull"
    using tensor_lens [OF kb(2)] tensor_lens [OF vb(2)] pos n(2) by auto
  define layer where "layer = JObj [(''layer_index'', JInt i), (''seq_len'', JInt s), (''kv_heads'', JInt h),
               (''head_dim'', JInt d), (''key_blocks'', kb), (''value_blocks'', vb)]"
  define lv where "lv = \<lparr>key_source = kb, value_source = vb, block_size = bs, kv_heads = h, head_dim = d, is_flat = False\<rparr>"
  have "prepare_layer bs (i, [(''key'', JObj kt), (''value'', JObj vt)]) = Inr layer"
    using canonical_not_preblocked [OF k] canonical_tensor_rebuilt [OF k] canonical_tensor_rebuilt [OF v]
      tensor_lens [OF ka pos(1,2)] kb(1) vb(1)
    by (simp add: prepare_layer_def layer_def)
  moreover have "layer_block_views layer = Inr lv"
    using lens by (simp add: layer_block_views_def layer_def lv_def)
  moreover have "source_block_count lv = Inr n" using lens by (simp add: source_block_count_def lv_def)
  moreover have "\<exists>x y. slot_source lv b h' d' t = Inr (x, y) \<and>
       tensor_token (rebuild s h d ks) s (b * bs + t) h' d' = Inr x \<and> tensor_token (rebuild s h d vs) s (b * bs + t) h' d' = Inr y"
    if "in_space lv n (b, h', d', t)" for b h' d' t
  proof -
    have r: "in_range [n, h, d, bs] [b, h', d', t]" "in_range [n, h, bs, d] [b, h', t, d']" using that by (auto simp: in_space_def lv_def)
    obtain x y where xy: "nested_get kb [b, h', d', t] = Inr x" "nested_get vb [b, h', t, d'] = Inr y"
      using nested_get_total [OF kb(2) r(1)] nested_get_total [OF vb(2) r(2)] by blast
    then have "slot_source lv b h' d' t = Inr (x, y)" by (simp add: slot_source_def lv_def del: nested_get.simps)
    with xy kb(3) [OF r(1)] vb(3) [OF r(1)] show ?thesis by metis
  qed
  ultimately show thesis using that n(1,3) by (simp add: lv_def)
qed


text \<open>C8: The bridge and the registry compose. A layer prepared from flat canonical key and value tensors and
  written into a combined cache of a supported layout puts token \<open>p\<close>, head \<open>h\<close>, dimension \<open>d\<close> of the two
  tensors into the cells the layout assigns to block \<open>p div block_size\<close> and offset \<open>p mod block_size\<close>,
  for every token of the sequence.\<close>

theorem canonical_tokens_reach_cache:
  assumes k: "canonical_tensor kt s h d ks" and v: "canonical_tensor vt s h d vs" and pos: "0 < s" "0 < h" "0 < d" "0 < bs"
    and sh: "shape_of_storage cache = Inr shape" "arr shape cache"
    and lay: "combined_layout shape bs h d = Inr lay" "supported lay"
    and bl: "blocks_ok ids ((s + bs - 1) div bs * target_blocks_per_source_block lay) (hd shape)"
  shows "\<exists>layer cache'. prepare_layer bs (i, [(''key'', JObj kt), (''value'', JObj vt)]) = Inr layer \<and>
    write_combined_cache layer ids cache = (Inr (), cache') \<and>
    (\<forall>p h' d'. in_range [s, h, d] [p, h', d'] \<longrightarrow>
       (\<exists>ki vi. combined_target_indices lay (p div bs) (p mod bs) h' d' ids = Inr (ki, vi) \<and>
          nested_get cache' ki = Inr (ks ! nat ((p * h + h') * d + d')) \<and>
          nested_get cache' vi = Inr (vs ! nat ((p * h + h') * d + d'))))"
proof -
  obtain layer lv n where l: "prepare_layer bs (i, [(''key'', JObj kt), (''value'', JObj vt)]) = Inr layer"
    "layer_block_views layer = Inr lv" "block_size lv = bs" "kv_heads lv = h" "head_dim lv = d"
    "block_count s bs = Inr n" "source_block_count lv = Inr n" "s \<le> n * bs"
    and slot: "\<And>b h' d' t. in_space lv n (b, h', d', t) \<Longrightarrow> \<exists>x y. slot_source lv b h' d' t = Inr (x, y) \<and>
       tensor_token (rebuild s h d ks) s (b * bs + t) h' d' = Inr x \<and> tensor_token (rebuild s h d vs) s (b * bs + t) h' d' = Inr y"
    using prepared_layer_view [OF k v pos] by metis
  have n: "n = (s + bs - 1) div bs"
  proof -
    obtain n' where n': "block_count s bs = Inr n'" "s \<le> n' * bs" "(n' - 1) * bs < s" using block_count_pos [OF pos(1,4)] by blast
    have "(s + bs - 1) div bs = n'"
      using n'(2,3) pos(4) by (intro int_div_pos_eq [where r = "s + bs - 1 - n' * bs"]) (simp_all add: algebra_simps)
    then show ?thesis using n'(1) l(6) by simp
  qed
  have st: "source_total lv n" using slot by (fastforce simp: source_total_def)
  obtain cache' where c: "write_combined_cache layer ids cache = (Inr (), cache')" "holds_layer cache' lay ids lv n"
    using write_combined_ok [OF sh l(2,7) _ lay(2) st, of ids] lay(1) bl by (auto simp: l(3-5) n)
  have len: "int (length ks) = s * h * d" "int (length vs) = s * h * d" using k v by (simp_all add: canonical_tensor_def)
  have "\<exists>ki vi. combined_target_indices lay (p div bs) (p mod bs) h' d' ids = Inr (ki, vi) \<and>
          nested_get cache' ki = Inr (ks ! nat ((p * h + h') * d + d')) \<and>
          nested_get cache' vi = Inr (vs ! nat ((p * h + h') * d + d'))" if r: "in_range [s, h, d] [p, h', d']" for p h' d'
  proof -
    have pr: "0 \<le> p" "p < s" "0 \<le> h'" "h' < h" "0 \<le> d'" "d' < d" using r by simp_all
    have "p div bs * bs < n * bs" using pr(2) l(8) pos_mod_sign [OF pos(4), of p] unfolding minus_mod_eq_div_mult [symmetric] by linarith
    then have sp: "in_space lv n (p div bs, h', d', p mod bs)"
      using pr pos(4) by (simp add: in_space_def l(3-5) pos_imp_zdiv_nonneg_iff)
    have e: "p div bs * bs + p mod bs = p" by simp
    obtain ki vi x y where h: "combined_target_indices lay (p div bs) (p mod bs) h' d' ids = Inr (ki, vi)"
      "slot_source lv (p div bs) h' d' (p mod bs) = Inr (x, y)" "nested_get cache' ki = Inr x" "nested_get cache' vi = Inr y"
      using c(2) sp unfolding holds_layer_def by blast
    have "tensor_token (rebuild s h d ks) s p h' d' = Inr x" "tensor_token (rebuild s h d vs) s p h' d' = Inr y"
      using slot [OF sp] h(2) unfolding e by auto
    then have "x = ks ! nat ((p * h + h') * d + d')" "y = vs ! nat ((p * h + h') * d + d')"
      using rebuild_row_major(2) [OF _ _ _ len(1) pr] rebuild_row_major(2) [OF _ _ _ len(2) pr] pos pr(2)
      by (simp_all add: tensor_token_def del: nested_get.simps)
    with h show ?thesis by blast
  qed
  with l(1) c(1) show ?thesis by blast
qed

definition flat_pair :: "json list \<Rightarrow> obj" where
  "flat_pair xs = [(''shape'', ints_json [2, 1, 1]), (''data'', JList xs)]"

theorem canonical_tokens_reach_cache_witness:
  "\<exists>layer cache' ki vi. prepare_layer 2 (0, [(''key'', JObj (flat_pair [JInt 5, JInt 6])), (''value'', JObj (flat_pair [JInt 7, JInt 8]))]) = Inr layer \<and>
    write_combined_cache layer (Some [1, 0]) sample_cache = (Inr (), cache') \<and>
    combined_target_indices (CombinedSplitTokenHeadDim 1 2) 0 1 0 0 (Some [1, 0]) = Inr (ki, vi) \<and>
    nested_get cache' ki = Inr (JInt 6) \<and> nested_get cache' vi = Inr (JInt 8)"
proof -
  have t: "canonical_tensor (flat_pair [JInt 5, JInt 6]) 2 1 1 [JInt 5, JInt 6]" "canonical_tensor (flat_pair [JInt 7, JInt 8]) 2 1 1 [JInt 7, JInt 8]"
    by (simp_all add: canonical_tensor_def flat_pair_def)
  have "blocks_ok (Some [1, 0]) ((2 + 2 - 1) div 2 * target_blocks_per_source_block (CombinedSplitTokenHeadDim 1 2)) (hd [2, 2, 1, 1, 1])"
    by (rule blocks_ok_ids) (auto simp: or_one_def)
  moreover have "combined_layout [2, 2, 1, 1, 1] 2 1 1 = Inr (CombinedSplitTokenHeadDim 1 2)" by code_simp
  ultimately have "\<exists>layer cache'. prepare_layer 2 (0, [(''key'', JObj (flat_pair [JInt 5, JInt 6])), (''value'', JObj (flat_pair [JInt 7, JInt 8]))]) = Inr layer \<and>
    write_combined_cache layer (Some [1, 0]) sample_cache = (Inr (), cache') \<and>
    (\<forall>p h' d'. in_range [2, 1, 1] [p, h', d'] \<longrightarrow>
       (\<exists>ki vi. combined_target_indices (CombinedSplitTokenHeadDim 1 2) (p div 2) (p mod 2) h' d' (Some [1, 0]) = Inr (ki, vi) \<and>
          nested_get cache' ki = Inr ([JInt 5, JInt 6] ! nat ((p * 1 + h') * 1 + d')) \<and>
          nested_get cache' vi = Inr ([JInt 7, JInt 8] ! nat ((p * 1 + h') * 1 + d'))))"
    using canonical_tokens_reach_cache [OF t, of 2 sample_cache "[2, 2, 1, 1, 1]"] sample_facts(1,2) by simp
  then obtain layer cache' where "prepare_layer 2 (0, [(''key'', JObj (flat_pair [JInt 5, JInt 6])), (''value'', JObj (flat_pair [JInt 7, JInt 8]))]) = Inr layer"
    "write_combined_cache layer (Some [1, 0]) sample_cache = (Inr (), cache')"
    and *: "\<And>p h' d'. in_range [2, 1, 1] [p, h', d'] \<Longrightarrow>
       (\<exists>ki vi. combined_target_indices (CombinedSplitTokenHeadDim 1 2) (p div 2) (p mod 2) h' d' (Some [1, 0]) = Inr (ki, vi) \<and>
          nested_get cache' ki = Inr ([JInt 5, JInt 6] ! nat ((p * 1 + h') * 1 + d')) \<and>
          nested_get cache' vi = Inr ([JInt 7, JInt 8] ! nat ((p * 1 + h') * 1 + d')))" by blast
  with * [of 1 0 0] show ?thesis by auto
qed

section \<open>One prepared layer per layer index\<close>

text \<open>The layer index a tensor name spells.\<close>

definition tensor_layer :: "json \<Rightarrow> int option" where
  "tensor_layer tensor =
     (case tensor of
        JObj t \<Rightarrow>
          (case field_or t ''name'' JNull of
             JStr name \<Rightarrow> (case split_on (CHR ''.'') name of [a, i, part] \<Rightarrow>
               (case int_of_text i of Inr n \<Rightarrow> Some n | Inl _ \<Rightarrow> None) | _ \<Rightarrow> None)
           | _ \<Rightarrow> None)
      | _ \<Rightarrow> None)"

lemma group_tensor_keys:
  assumes "group_tensor t g = Inr g'"
  obtains i where "tensor_layer t = Some i" "fst ` set g' = insert i (fst ` set g)" "distinct (map fst g) \<Longrightarrow> distinct (map fst g')"
proof -
  obtain d where t: "t = JObj d" using assms by (cases t) (auto simp: group_tensor_def py_get_or_def)
  note u = group_tensor_def t py_get_or_field bindR_simps
  obtain name where name: "field_or d ''name'' JNull = JStr name"
    using assms unfolding u by (cases "field_or d ''name'' JNull") simp_all
  obtain i part n where s: "split_on (CHR ''.'') name = [''layer'', i, part]" "int_of_text i = Inr n" "g' = put_tensor n part t g"
    using assms unfolding u name json.case by (auto simp: bindR_eq_Inr t split: list.splits if_splits)
  show thesis
    by (rule that [of n]) (use s in \<open>auto simp: tensor_layer_def t name put_tensor_def dom_update distinct_update\<close>)
qed

lemma group_layers_keys:
  assumes "foldR group_tensor ts g = Inr g'" and "distinct (map fst g)"
  shows "distinct (map fst g') \<and> fst ` set g' = fst ` set g \<union> {i. \<exists>t\<in>set ts. tensor_layer t = Some i}"
  using assms
proof (induction ts arbitrary: g)
  case (Cons t ts)
  then obtain g1 where g1: "group_tensor t g = Inr g1" "foldR group_tensor ts g1 = Inr g'" by (auto simp: bindR_eq_Inr)
  obtain i where i: "tensor_layer t = Some i" "fst ` set g1 = insert i (fst ` set g)" "distinct (map fst g1)"
    using group_tensor_keys [OF g1(1)] Cons.prems(2) by metis
  from Cons.IH [OF g1(2) i(3)] i(1,2) show ?case by auto
qed simp

definition layer_index_of :: "json \<Rightarrow> int option" where
  "layer_index_of layer = (case layer of JObj d \<Rightarrow> int_val (field_or d ''layer_index'' JNull) | _ \<Rightarrow> None)"

lemma prepare_layer_index: "prepare_layer bs (i, kv) = Inr layer \<Longrightarrow> layer_index_of layer = Some i"
  unfolding prepare_layer_def
  by (auto simp: bindR_eq_Inr layer_index_of_def field_or_def preblocked_layer_def split: option.splits json.splits if_splits)

text \<open>A prepared block lists one entry per layer index that the tensor names mention, each once and in
  increasing order, whatever the order of the tensors; \<open>layer_count\<close> counts them.\<close>

theorem prepared_layers_ordered:
  assumes "prepare_injected_block_state env request = Inr st"
    and "map_of (payload_for_kind request ''inject_block'') ''tensors'' = Some (JList ts)"
  shows "\<exists>layers is. map_of st ''layers'' = Some (JList layers) \<and> map_of st ''layer_count'' = Some (JInt (int (length layers))) \<and>
    map layer_index_of layers = map Some is \<and> sorted_wrt (<) is \<and> set is = {i. \<exists>t\<in>set ts. tensor_layer t = Some i}"
proof -
  let ?p = "payload_for_kind request ''inject_block''"
  have f: "field_or ?p ''tensors'' JNull = JList ts" using assms(2) by (simp add: field_or_def)
  obtain c cs where h: "first_truthy ?p ''hash'' ''block_hash'' = JStr (c # cs)"
    using assms(1) unfolding prepare_injected_block_state_def Let_def by (auto split: json.splits list.splits)
  obtain t ts' where ts: "ts = t # ts'"
    using assms(1) unfolding prepare_injected_block_state_def Let_def h f by (cases ts) auto
  obtain bs g layers where g: "group_layers ts = Inr g" "mapR (prepare_layer bs) (sort_key fst g) = Inr layers"
    and st: "map_of st ''layers'' = Some (JList layers)" "map_of st ''layer_count'' = Some (JInt (int (length layers)))"
    using assms(1) unfolding prepare_injected_block_state_def Let_def h f ts json.case list.case by (auto simp: bindR_eq_Inr)
  note keys = group_layers_keys [OF g(1) [unfolded group_layers_def]]
  have "map layer_index_of layers = map (Some \<circ> fst) (sort_key fst g)"
    using g(2) unfolding mapR_eq_Inr
    by (induction rule: list_all2_induct) (auto dest: prepare_layer_index simp: split_paired_all)
  moreover have "sorted_wrt (<) (map fst (sort_key fst g))"
  proof -
    have "distinct (map fst (sort_key fst g))" using keys by (simp add: distinct_map)
    then show ?thesis by (simp add: strict_sorted_iff)
  qed
  moreover have "set (map fst (sort_key fst g)) = {i. \<exists>t\<in>set ts. tensor_layer t = Some i}" using keys by simp
  ultimately show ?thesis using st by (intro exI [of _ layers] exI [of _ "map fst (sort_key fst g)"]) simp
qed

definition sample_tensor :: "string \<Rightarrow> json list \<Rightarrow> json" where
  "sample_tensor name xs = JObj ((''name'', JStr name) # flat_pair xs)"

definition sample_request :: obj where
  "sample_request = [(''hash'', JStr ''abc''), (''block_size'', JInt 2),
     (''tensors'', JList [sample_tensor ''layer.0.key'' [JInt 5, JInt 6], sample_tensor ''layer.0.value'' [JInt 7, JInt 8]])]"

definition sample_prepared :: obj where
  "sample_prepared = [(''hash'', JStr ''abc''), (''block_size'', JInt 2), (''layer_count'', JInt 1),
     (''layers'', JList [JObj [(''layer_index'', JInt 0), (''seq_len'', JInt 2), (''kv_heads'', JInt 1), (''head_dim'', JInt 1),
        (''key_blocks'', JList [JList [JList [JList [JInt 5, JInt 6]]]]),
        (''value_blocks'', JList [JList [JList [JList [JInt 7], JList [JInt 8]]]])]])]"

lemma sample_prepares:
  "prepare_injected_block_state \<lparr>block_size_var = None, state_dir_var = d\<rparr> sample_request = Inr sample_prepared"
proof -
  have "int_of_text ''0'' = Inr 0" "split_on (CHR ''.'') ''layer.0.key'' = [''layer'', ''0'', ''key'']"
    "split_on (CHR ''.'') ''layer.0.value'' = [''layer'', ''0'', ''value'']" by code_simp+
  then have "group_layers [sample_tensor ''layer.0.key'' [JInt 5, JInt 6], sample_tensor ''layer.0.value'' [JInt 7, JInt 8]] =
      Inr [(0, [(''key'', sample_tensor ''layer.0.key'' [JInt 5, JInt 6]), (''value'', sample_tensor ''layer.0.value'' [JInt 7, JInt 8])])]"
    by (simp add: group_layers_def group_tensor_def sample_tensor_def put_tensor_def)
  moreover have "prepare_layer 2 (0, [(''key'', sample_tensor ''layer.0.key'' [JInt 5, JInt 6]), (''value'', sample_tensor ''layer.0.value'' [JInt 7, JInt 8])]) =
      Inr (JObj [(''layer_index'', JInt 0), (''seq_len'', JInt 2), (''kv_heads'', JInt 1), (''head_dim'', JInt 1),
        (''key_blocks'', JList [JList [JList [JList [JInt 5, JInt 6]]]]),
        (''value_blocks'', JList [JList [JList [JList [JInt 7], JList [JInt 8]]]])])"
    by code_simp
  ultimately show ?thesis
    by (simp add: prepare_injected_block_state_def sample_request_def payload_for_kind_def first_truthy_def field_or_def
        request_block_size_def sample_prepared_def)
qed

theorem prepared_layers_ordered_witness:
  "\<exists>st layers is. prepare_injected_block_state \<lparr>block_size_var = None, state_dir_var = None\<rparr> sample_request = Inr st \<and>
     map_of st ''layers'' = Some (JList layers) \<and> map layer_index_of layers = map Some is \<and> sorted_wrt (<) is"
proof -
  have "map_of (payload_for_kind sample_request ''inject_block'') ''tensors'' =
      Some (JList [sample_tensor ''layer.0.key'' [JInt 5, JInt 6], sample_tensor ''layer.0.value'' [JInt 7, JInt 8]])"
    by (simp add: payload_for_kind_def field_or_def sample_request_def)
  from prepared_layers_ordered [OF sample_prepares [of None] this] sample_prepares [of None] show ?thesis by blast
qed

section \<open>An injected block verifies\<close>

lemma normalize_missing_verdict:
  "normalize_injector_response (missing_verdict (map JStr hs)) = Inr (missing_verdict (map JStr hs))"
  by (auto simp: normalize_injector_response_def missing_verdict_def field_or_def injector_error_field_def
      injector_missing_field_def list_all_iff)

lemma plain_entry:
  assumes "CHR ''/'' \<notin> set n" "n \<noteq> []" "n \<noteq> ''.''"
  shows "path_sub d n = entry_of d n"
proof -
  have "path_root n = []" using assms by (cases n) (auto simp: path_root_def)
  then have "Path n = \<lparr>anchor = [], parts = [n]\<rparr>" using assms by (simp add: Path_def split_slash_plain)
  then show ?thesis by (simp add: path_sub_def path_join_def is_absolute_def entry_of_def)
qed

lemma persisted_listed:
  assumes "persist_prepared_block env st f = (Inr (), f')" and "state_dir_var env = Some dir" "dir \<noteq> []"
    and "map_of st ''hash'' = Some (JStr h)" and h: "h \<noteq> []" "CHR ''/'' \<notin> set h"
  shows "stem_listed f' (Path dir) h"
proof -
  obtain c cs where d: "dir = c # cs" using assms(3) by (cases dir) auto
  obtain f1 where w: "write_bytes (path_sub (Path dir) (h @ ''.json'')) (utf8_encode (render pretty_style 0 (JObj st))) f1 = (Inr (), f')"
    using assms(1,2,4) by (auto simp: persist_prepared_block_def d bindIO_eq_Inr)
  have "h @ ''.json'' \<noteq> ''.''" using h(1) by (cases h) auto
  then have "path_sub (Path dir) (h @ ''.json'') = entry_of (Path dir) (h @ ''.json'')" using h by (intro plain_entry) auto
  with write_bytes_ok [OF w] h show ?thesis by (simp add: stem_listed_def path_exists_def node_at_def entry_of_def)
qed

text \<open>Verification without a runtime hook asks the state directory: it reports exactly the hashes that have
  no file there, in the order they were asked for, and changes nothing; and the hash of a block that was
  injected, if it is a plain file name, has one.\<close>

theorem state_dir_verification:
  assumes dir: "state_dir_var env = Some dir" "dir \<noteq> []"
    and inj: "injector_hook env None request s = (Inr r, s')" "request_kind request = Inr ''inject_block''"
      "first_truthy (payload_for_kind request ''inject_block'') ''hash'' ''block_hash'' = JStr h" "CHR ''/'' \<notin> set h"
    and hs: "hs \<noteq> []"
  shows "injector_hook env None [(''block_hashes'', JList (map JStr hs))] s' =
      (Inr (missing_verdict (map JStr (filter (\<lambda>x. \<not> stem_listed (reg_fs s') (Path dir) x) hs))), s') \<and>
    stem_listed (reg_fs s') (Path dir) h"
proof -
  obtain c cs where d: "dir = c # cs" using dir(2) by (cases dir) auto
  obtain st u where st: "prepare_injected_block_state env request = Inr st"
    and w: "persist_prepared_block env st (reg_fs s) = (Inr u, reg_fs s')"
    using inj(1,2) by (auto simp: injector_hook_def bindS_def liftS_def on_fs_def split: sum.splits prod.splits)
  have "h \<noteq> [] \<and> map_of st ''hash'' = Some (JStr h)"
    using st inj(3) unfolding prepare_injected_block_state_def Let_def
    by (cases h) (auto simp: bindR_eq_Inr split: json.splits list.splits)
  with persisted_listed [OF w [unfolded unit_eq [of u]] dir _ _ inj(4)] have "stem_listed (reg_fs s') (Path dir) h" by simp
  moreover have "filter (\<lambda>v. case v of JStr h \<Rightarrow> \<not> stem_listed f p h | _ \<Rightarrow> True) (map JStr hs) =
      map JStr (filter (\<lambda>x. \<not> stem_listed f p x) hs)" for f p
    by (induction hs) auto
  ultimately show ?thesis
    using hs dir d normalize_missing_verdict
    by (simp add: injector_hook_def request_kind_def bindS_def liftS_def on_fs_def verify_hashes_from_state_dir_def
        requested_hashes_def first_truthy_def payload_for_kind_def field_or_def list_all_iff)
qed

definition disk_registry :: registry where
  "disk_registry = \<lparr>reg_hashes = [], reg_fs = Map.empty,
     reg_runtime = \<lparr>rt_kv_caches = None, rt_get_kv_caches = None, permeant_layer_map = [], rt_hashes = NoHashes\<rparr>\<rparr>"

lemma sample_persists:
  "\<exists>f. persist_prepared_block \<lparr>block_size_var = None, state_dir_var = Some ''/state''\<rparr> sample_prepared Map.empty = (Inr (), f)"
proof -
  have "\<exists>f. write_bytes (path_sub (Path ''/state'') ''abc.json'') b (Map.empty(Path ''/state'' \<mapsto> FDir)) = (Inr (), f)" for b
    by (simp add: write_bytes_def path_sub_def path_join_def Path_def path_root_def is_absolute_def path_parent_def node_at_def)
  moreover have "mkdir_parents (Path ''/state'') Map.empty = (Inr (), Map.empty(Path ''/state'' \<mapsto> FDir))"
    by (simp add: mkdir_parents_def path_prefixes_def Path_def path_root_def node_at_def)
  moreover have "map_of sample_prepared ''hash'' = Some (JStr ''abc'')" by (simp add: sample_prepared_def)
  ultimately show ?thesis by (simp add: persist_prepared_block_def bindIO_def)
qed

theorem state_dir_verification_witness:
  "\<exists>r s. injector_hook \<lparr>block_size_var = None, state_dir_var = Some ''/state''\<rparr> None sample_request disk_registry = (Inr r, s) \<and>
     stem_listed (reg_fs s) (Path ''/state'') ''abc''"
proof -
  let ?env = "\<lparr>block_size_var = None, state_dir_var = Some ''/state''\<rparr>"
  obtain f where f: "persist_prepared_block ?env sample_prepared Map.empty = (Inr (), f)" using sample_persists by blast
  have k: "request_kind sample_request = Inr ''inject_block''" by (simp add: request_kind_def sample_request_def)
  have h: "first_truthy (payload_for_kind sample_request ''inject_block'') ''hash'' ''block_hash'' = JStr ''abc''"
    by (simp add: first_truthy_def payload_for_kind_def field_or_def sample_request_def)
  have i: "injector_hook ?env None sample_request disk_registry = (Inr (JObj [(''success'', JBool True)]), disk_registry\<lparr>reg_fs := f\<rparr>)"
    using f by (simp add: injector_hook_def k sample_prepares bindS_def liftS_def on_fs_def disk_registry_def)
  from state_dir_verification [OF _ _ i k h, of "''/state''" "[''abc'']"] i show ?thesis by simp
qed

section \<open>Injection through the live registry\<close>

text \<open>One call of the injector whose runtime hook is the live registry.\<close>

inductive bridge_step :: "bridge_env \<Rightarrow> hook_env \<Rightarrow> registry \<Rightarrow> registry \<Rightarrow> bool" for env henv where
  call: "injector_hook env (Some (runtime_hook henv no_methods)) request s = (r, t) \<Longrightarrow> bridge_step env henv s t"

inductive_simps bridge_step_iff: "bridge_step env henv s t"

lemma injector_hook_cases:
  assumes "injector_hook env (Some hook) request s = (r, t)"
  shows "t = s \<or> (\<exists>f. t = s\<lparr>reg_fs := f\<rparr>) \<or> (\<exists>f payload q. hook payload (JObj request) (s\<lparr>reg_fs := f\<rparr>) = (q, t))"
proof -
  note u = injector_hook_def bindS_def liftS_def on_fs_def Let_def
  consider e where "request_kind request = Inl e" | "request_kind request = Inr ''inject_block''"
    | "request_kind request = Inr ''verify_continuation''"
    | k where "request_kind request = Inr k" "k \<noteq> ''inject_block''" "k \<noteq> ''verify_continuation''"
    by (cases "request_kind request") blast+
  then show ?thesis
  proof cases
    case 2
    show ?thesis
    proof (cases "prepare_injected_block_state env request")
      case (Inr st)
      obtain pr f where f: "persist_prepared_block env st (reg_fs s) = (pr, f)" by fastforce
      obtain q t' where h: "hook st (JObj request) (s\<lparr>reg_fs := f\<rparr>) = (q, t')" by fastforce
      have "pr = Inr () \<longrightarrow> t = t'" "(\<exists>e. pr = Inl e) \<longrightarrow> t = s\<lparr>reg_fs := f\<rparr>"
        using assms by (auto simp: u 2 Inr f h split: sum.splits)
      then show ?thesis using h by (cases pr) auto
    qed (use assms 2 in \<open>simp add: u\<close>)
  next
    case 3
    let ?p = "payload_for_kind request ''verify_continuation''"
    let ?v = "if is_list (requested_hashes ?p) then [(''block_hashes'', requested_hashes ?p)] else ?p"
    obtain q t' where h: "hook ?v (JObj request) s = (q, t')" by fastforce
    have "t = t'" using assms unfolding u 3 by (simp add: h [simplified] split: sum.splits)
    moreover have "s = s\<lparr>reg_fs := reg_fs s\<rparr>" by simp
    ultimately show ?thesis using h by metis
  qed (use assms in \<open>simp_all add: u\<close>)
qed

lemma bridge_step_keeps:
  assumes "bridge_step env henv s t" and kl: "keeps_list s"
  shows "runtime_knows s \<subseteq> runtime_knows t \<and> keeps_list t"
proof -
  obtain request r where "injector_hook env (Some (runtime_hook henv no_methods)) request s = (r, t)"
    using assms(1) by (auto simp: bridge_step_iff)
  from injector_hook_cases [OF this] consider "t = s" | f where "t = s\<lparr>reg_fs := f\<rparr>"
    | f payload q where "runtime_hook henv no_methods payload (JObj request) (s\<lparr>reg_fs := f\<rparr>) = (q, t)" by blast
  then show ?thesis
  proof cases
    case (3 f payload q)
    then have "hook_step henv (s\<lparr>reg_fs := f\<rparr>) t" by (rule hook_step.call)
    from hook_step_keeps [OF this] kl show ?thesis by (simp add: keeps_list_def runtime_knows_def)
  qed (use kl in \<open>simp_all add: keeps_list_def runtime_knows_def\<close>)
qed

interpretation bridge_knowledge: growing_knowledge runtime_knows "bridge_step env henv" keeps_list
  by unfold_locales (use bridge_step_keeps in blast)+

lemma prepared_fields:
  assumes "prepare_injected_block_state env request = Inr st"
    and "first_truthy (payload_for_kind request ''inject_block'') ''hash'' ''block_hash'' = JStr h"
  shows "h \<noteq> []" "map_of st ''hash'' = Some (JStr h)" "map_of st ''layers'' \<noteq> None"
  using assms unfolding prepare_injected_block_state_def Let_def
  by (cases h; auto simp: bindR_eq_Inr split: json.splits list.splits)+

text \<open>A block injected through the live registry stays verifiable: after a successful injection, any number
  of further injector calls, failed ones included, leave the continuation check on its hash successful.\<close>

theorem injected_block_stays_verified:
  assumes inj: "injector_hook env (Some (runtime_hook henv no_methods)) request s = (Inr r, s1)"
      "request_kind request = Inr ''inject_block''"
      "first_truthy (payload_for_kind request ''inject_block'') ''hash'' ''block_hash'' = JStr h"
    and no: "rt_hashes (reg_runtime s) \<noteq> OtherHashes" and steps: "(bridge_step env henv)\<^sup>*\<^sup>* s1 s2"
  shows "injector_hook env (Some (runtime_hook henv no_methods)) [(''block_hashes'', JList [JStr h])] s2 =
    (Inr (JObj [(''success'', JBool True)]), s2)"
proof -
  obtain st f res where st: "prepare_injected_block_state env request = Inr st"
    and hk: "runtime_hook henv no_methods st (JObj request) (s\<lparr>reg_fs := f\<rparr>) = (Inr res, s1)"
    using inj(1,2) by (auto simp: injector_hook_def bindS_def liftS_def on_fs_def split: sum.splits prod.splits)
  note p = prepared_fields [OF st inj(3)]
  have "h \<in> runtime_knows s1 \<and> keeps_list s1" using registered_known [OF hk p(3,2,1)] no by simp
  with bridge_knowledge.steps_keep [OF steps] have "h \<in> runtime_knows s2" "keeps_list s2" by auto
  from verify_known [OF this(2,1)] show ?thesis
    by (simp add: injector_hook_def request_kind_def bindS_def liftS_def payload_for_kind_def requested_hashes_def first_truthy_def
        field_or_def normalize_injector_response_def injector_error_field_def injector_missing_field_def Let_def)
qed

definition dict_registry :: registry where
  "dict_registry = \<lparr>reg_hashes = [], reg_fs = Map.empty,
     reg_runtime = \<lparr>rt_kv_caches = Some [(''model.layers.0.attn'', JObj [(''key'', JList [JList [JList [JList [JNull, JNull]]]]),
         (''value'', JList [JList [JList [JList [JNull], JList [JNull]]]])])], rt_get_kv_caches = None,
       permeant_layer_map = [], rt_hashes = NoHashes\<rparr>\<rparr>"

definition plain_request :: obj where
  "plain_request = [(''hash'', JStr ''abc''), (''block_size'', JInt 2),
     (''tensors'', JList [sample_tensor ''layer.0.key'' [JStr ''k0'', JStr ''k1''], sample_tensor ''layer.0.value'' [JStr ''v0'', JStr ''v1'']])]"

lemma plain_injection:
  "fst (injector_hook \<lparr>block_size_var = None, state_dir_var = None\<rparr>
     (Some (runtime_hook \<lparr>state_file = None, allocate_block_pool = False, slot_sample_limit = 4, block_pool = (\<lambda>n. Inl [])\<rparr> no_methods))
     plain_request dict_registry) = Inr (JObj [(''success'', JBool True)])"
  by code_simp

theorem injected_block_stays_verified_witness:
  "\<exists>env henv s. fst (injector_hook env (Some (runtime_hook henv no_methods)) [(''block_hashes'', JList [JStr ''abc''])] s) =
     Inr (JObj [(''success'', JBool True)])"
proof -
  let ?env = "\<lparr>block_size_var = None, state_dir_var = None\<rparr>"
    and ?henv = "\<lparr>state_file = None, allocate_block_pool = False, slot_sample_limit = 4, block_pool = (\<lambda>n. Inl [])\<rparr>"
  obtain s1 where i: "injector_hook ?env (Some (runtime_hook ?henv no_methods)) plain_request dict_registry =
      (Inr (JObj [(''success'', JBool True)]), s1)"
    using plain_injection by (metis prod.collapse)
  have "request_kind plain_request = Inr ''inject_block''" by (simp add: request_kind_def plain_request_def)
  moreover have "first_truthy (payload_for_kind plain_request ''inject_block'') ''hash'' ''block_hash'' = JStr ''abc''"
    by (simp add: first_truthy_def payload_for_kind_def field_or_def plain_request_def)
  moreover have "rt_hashes (reg_runtime dict_registry) \<noteq> OtherHashes" by (simp add: dict_registry_def)
  ultimately have "injector_hook ?env (Some (runtime_hook ?henv no_methods)) [(''block_hashes'', JList [JStr ''abc''])] s1 =
      (Inr (JObj [(''success'', JBool True)]), s1)"
    using injected_block_stays_verified [OF i _ _ _ rtranclp.rtrancl_refl] by blast
  then show ?thesis by (intro exI [of _ ?env] exI [of _ ?henv] exI [of _ s1]) simp
qed

end
