(* ===== verification/SpanMetadata.thy ===== *)
theory SpanMetadata
  imports GraphCore
begin

text \<open>
  Prompt-bound span metadata of the runtime adapters
  (\<^verbatim>\<open>adapters/agent_graph_span_metadata.py\<close>): the record that ties a prefilled prompt to the
  KV spans of a checkpoint, and the check a target runtime runs on it before it trusts the spans.
  Arguments the functions test with \<open>isinstance\<close> are arbitrary values here, an optional
  argument is an \<open>option\<close>.
\<close>

section \<open>Hashes\<close>

text \<open>\<open>re.compile(r"^sha256:[0-9a-f]{64}$").match\<close>: without \<open>re.MULTILINE\<close> the final
  \<open>$\<close> also matches before a newline that ends the text.\<close>

definition SHA256_RE :: "string \<Rightarrow> bool" where
  "SHA256_RE s \<longleftrightarrow>
     starts_with ''sha256:'' s \<and>
     (let h = drop 7 s
      in 64 \<le> length h \<and> list_all is_hex (take 64 h) \<and> (drop 64 h = [] \<or> drop 64 h = [CHR 0x0A]))"

definition span_error :: "string \<Rightarrow> 'a res" where
  "span_error msg = Inl (AgentGraphSpanMetadataError msg)"

text \<open>The loop tests each token before it feeds its four bytes to the hasher.\<close>

definition span_token_hash :: "int list \<Rightarrow> string res" where
  "span_token_hash token_ids =
     bindR (foldR (\<lambda>t h.
         if t < 0 then span_error ''token ids must be non-negative''
         else bindR (to_bytes 4 t) (\<lambda>b. Inr (hasher_update h b))) token_ids hasher_new)
       (\<lambda>h. Inr (''sha256:'' @ hasher_hexdigest h))"

definition ensure_sha256 :: "string \<Rightarrow> json \<Rightarrow> string res" where
  "ensure_sha256 name v =
     (case v of
        JStr s \<Rightarrow> if SHA256_RE s then Inr s else span_error (name @ '' must be a sha256: hash'')
      | _ \<Rightarrow> span_error (name @ '' must be a sha256: hash''))"

text \<open>\<open>isinstance(v, str) and v\<close>.\<close>

definition nonempty_str :: "json \<Rightarrow> bool" where
  "nonempty_str v \<longleftrightarrow> (case v of JStr s \<Rightarrow> s \<noteq> [] | _ \<Rightarrow> False)"

section \<open>Building\<close>

definition block_hash_label :: "nat \<Rightarrow> nat \<Rightarrow> string" where
  "block_hash_label i k = ''kv_spans['' @ nat_str i @ ''].block_hashes['' @ nat_str k @ '']''"

definition ensure_block_hashes :: "nat \<Rightarrow> json list \<Rightarrow> unit res" where
  "ensure_block_hashes i hashes =
     iterR (\<lambda>(k, h). bindR (ensure_sha256 (block_hash_label i k) h) (\<lambda>_. Inr ())) (enum_from 0 hashes)"

text \<open>\<open>block_hashes or [token_hash(token_ids)]\<close>.\<close>

definition default_block_hashes :: "json list option \<Rightarrow> int list \<Rightarrow> json list res" where
  "default_block_hashes block_hashes token_ids =
     (case block_hashes of
        Some (h # hs) \<Rightarrow> Inr (h # hs)
      | _ \<Rightarrow> bindR (span_token_hash token_ids) (\<lambda>h. Inr [JStr h]))"

definition span_metadata ::
    "string \<Rightarrow> string \<Rightarrow> nat \<Rightarrow> json \<Rightarrow> json \<Rightarrow> json \<Rightarrow> json \<Rightarrow> json \<Rightarrow> json list \<Rightarrow> json" where
  "span_metadata byte_hash th token_count tokenizer_hash model_id runtime cache_ref node_id hashes =
     JObj
      [(''version'', JStr ''0.1''),
       (''source_runtime'', runtime),
       (''model_id'', model_id),
       (''prompt'', JObj
         [(''byte_hash'', JStr byte_hash),
          (''token_hash'', JStr th),
          (''token_count'', JInt (int token_count)),
          (''tokenizer_hash'', tokenizer_hash)]),
       (''kv_spans'', JList [JObj
         [(''node_id'', node_id),
          (''token_start'', JInt 0),
          (''token_end'', JInt (int token_count)),
          (''cache_ref'', cache_ref),
          (''tokenizer_hash'', tokenizer_hash),
          (''block_hashes'', JList hashes)]]),
       (''binding'', JObj
         [(''prompt_used_for_prefill'', JBool True),
          (''same_prompt_required_on_target'', JBool True)])]"

definition build_prompt_span_metadata ::
    "json \<Rightarrow> int list \<Rightarrow> json \<Rightarrow> json \<Rightarrow> json \<Rightarrow> json \<Rightarrow> json \<Rightarrow> json list option \<Rightarrow> json res" where
  "build_prompt_span_metadata prompt token_ids tokenizer_hash model_id runtime cache_ref node_id block_hashes =
     (if \<not> nonempty_str prompt then span_error ''prompt must be a non-empty string''
      else if token_ids = [] then span_error ''token_ids must not be empty''
      else if \<not> nonempty_str model_id then span_error ''model_id must be a non-empty string''
      else if \<not> nonempty_str runtime then span_error ''runtime must be a non-empty string''
      else
        bindR (ensure_sha256 ''tokenizer_hash'' tokenizer_hash) (\<lambda>_.
        bindR (default_block_hashes block_hashes token_ids) (\<lambda>hashes.
        bindR (ensure_block_hashes 0 hashes) (\<lambda>_.
        bindR (as_str prompt) (\<lambda>p.
        bindR (span_token_hash token_ids) (\<lambda>th.
          Inr (span_metadata (sha256_bytes (utf8_encode p)) th (length token_ids)
                 tokenizer_hash model_id runtime cache_ref node_id hashes)))))))"

section \<open>Validating\<close>

text \<open>The prompt object: its byte hash, token hash, tokenizer hash and token count.\<close>

definition check_prompt :: "json \<Rightarrow> (string \<times> string \<times> string \<times> json) res" where
  "check_prompt metadata =
     bindR (py_get metadata ''prompt'') (\<lambda>prompt.
     if \<not> is_dict prompt then span_error ''agent_graph_span_metadata.prompt must be an object''
     else
       bindR (bindR (py_get prompt ''byte_hash'') (ensure_sha256 ''prompt.byte_hash'')) (\<lambda>byte_hash.
       bindR (bindR (py_get prompt ''token_hash'') (ensure_sha256 ''prompt.token_hash'')) (\<lambda>th.
       bindR (bindR (py_get prompt ''tokenizer_hash'') (ensure_sha256 ''prompt.tokenizer_hash'')) (\<lambda>tokenizer_hash.
       bindR (py_get prompt ''token_count'') (\<lambda>token_count.
         case int_val token_count of
           Some n \<Rightarrow>
             if n \<le> 0 then span_error ''prompt.token_count must be a positive integer''
             else Inr (byte_hash, th, tokenizer_hash, token_count)
         | None \<Rightarrow> span_error ''prompt.token_count must be a positive integer'')))))"

text \<open>What the target knows of its own prompt; every part is optional.\<close>

record target_view =
  expected_prompt :: "string option"
  expected_token_count :: "int option"
  expected_token_ids :: "json option"
  expected_tokenizer_hash :: "json option"

definition check_token_ids :: "json \<Rightarrow> string \<Rightarrow> json \<Rightarrow> unit res" where
  "check_token_ids ids th token_count =
     (case ids of
        JList vs \<Rightarrow>
          if \<not> list_all is_int vs then span_error ''target prompt token ids must be an integer list''
          else if \<not> py_eq (JInt (int (length vs))) token_count
          then span_error ''target prompt token ids length does not match graph span metadata''
          else bindR (span_token_hash (map (\<lambda>v. the (int_val v)) vs)) (\<lambda>h.
            if h \<noteq> th then span_error ''target prompt token hash does not match graph span metadata''
            else Inr ())
      | _ \<Rightarrow> span_error ''target prompt token ids must be an integer list'')"

definition check_target_view :: "target_view \<Rightarrow> string \<times> string \<times> string \<times> json \<Rightarrow> unit res" where
  "check_target_view tv = (\<lambda>(byte_hash, th, tokenizer_hash, token_count).
     if (case expected_prompt tv of Some p \<Rightarrow> sha256_bytes (utf8_encode p) \<noteq> byte_hash | None \<Rightarrow> False)
     then span_error ''target prompt does not match graph span prompt byte hash''
     else if (case expected_token_count tv of Some n \<Rightarrow> \<not> py_eq (JInt n) token_count | None \<Rightarrow> False)
     then span_error ''target prompt token count does not match graph span metadata''
     else
       bindR (case expected_token_ids tv of Some ids \<Rightarrow> check_token_ids ids th token_count | None \<Rightarrow> Inr ()) (\<lambda>_.
       case expected_tokenizer_hash tv of
         Some v \<Rightarrow>
           bindR (ensure_sha256 ''target tokenizer_hash'' v) (\<lambda>h.
             if h \<noteq> tokenizer_hash then span_error ''target tokenizer hash does not match graph span metadata''
             else Inr ())
       | None \<Rightarrow> Inr ()))"

text \<open>One KV span; the result is its cache reference.\<close>

definition check_kv_span :: "string \<Rightarrow> json \<Rightarrow> nat \<times> json \<Rightarrow> string res" where
  "check_kv_span tokenizer_hash token_count = (\<lambda>(i, span).
     let label = ''kv_spans['' @ nat_str i @ '']'' in
     if \<not> is_dict span then span_error (label @ '' must be an object'')
     else
       bindR (py_get span ''node_id'') (\<lambda>node_id.
       if \<not> nonempty_str node_id then span_error (label @ ''.node_id must not be empty'')
       else
         bindR (py_get span ''cache_ref'') (\<lambda>cache_ref.
         if \<not> nonempty_str cache_ref then span_error (label @ ''.cache_ref must not be empty'')
         else
           bindR (py_get span ''token_start'') (\<lambda>token_start.
           bindR (py_get span ''token_end'') (\<lambda>token_end.
           if \<not> py_eq token_start (JInt 0) \<or> \<not> py_eq token_end token_count
           then span_error (label @ '' must cover the full prompt token range'')
           else
             bindR (py_get span ''tokenizer_hash'') (\<lambda>h.
             if \<not> py_eq h (JStr tokenizer_hash)
             then span_error (label @ ''.tokenizer_hash must match prompt.tokenizer_hash'')
             else
               bindR (py_get span ''block_hashes'') (\<lambda>hashes.
               case hashes of
                 JList (b # bs) \<Rightarrow> bindR (ensure_block_hashes i (b # bs)) (\<lambda>_. as_str cache_ref)
               | _ \<Rightarrow> span_error (label @ ''.block_hashes must be a non-empty list''))))))))"

definition check_kv_spans :: "json \<Rightarrow> string \<Rightarrow> json \<Rightarrow> string list res" where
  "check_kv_spans metadata tokenizer_hash token_count =
     bindR (py_get metadata ''kv_spans'') (\<lambda>spans.
     case spans of
       JList (s # ss) \<Rightarrow> mapR (check_kv_span tokenizer_hash token_count) (enum_from 0 (s # ss))
     | _ \<Rightarrow> span_error ''agent_graph_span_metadata.kv_spans must be a non-empty list'')"

definition check_header :: "json \<Rightarrow> unit res" where
  "check_header metadata =
     (if \<not> is_dict metadata then span_error ''agent_graph_span_metadata must be an object''
      else
        bindR (py_get metadata ''version'') (\<lambda>version.
        if \<not> py_eq version (JStr ''0.1'')
        then span_error ''agent_graph_span_metadata.version must be 0.1''
        else
          bindR (py_get metadata ''source_runtime'') (\<lambda>runtime.
          if \<not> nonempty_str runtime then span_error ''source_runtime must be a non-empty string''
          else
            bindR (py_get metadata ''model_id'') (\<lambda>model_id.
            if \<not> nonempty_str model_id then span_error ''model_id must be a non-empty string''
            else Inr ()))))"

definition target_view_given :: "target_view \<Rightarrow> bool" where
  "target_view_given tv \<longleftrightarrow>
     expected_prompt tv \<noteq> None \<or> expected_token_count tv \<noteq> None \<or>
     expected_token_ids tv \<noteq> None \<or> expected_tokenizer_hash tv \<noteq> None"

definition span_verdict :: "string \<Rightarrow> string \<Rightarrow> string \<Rightarrow> json \<Rightarrow> string list \<Rightarrow> bool \<Rightarrow> json" where
  "span_verdict byte_hash th tokenizer_hash token_count refs given =
     JObj
      [(''success'', JBool True),
       (''prompt_byte_hash'', JStr byte_hash),
       (''prompt_token_hash'', JStr th),
       (''tokenizer_hash'', JStr tokenizer_hash),
       (''token_count'', token_count),
       (''kv_span_count'', JInt (int (length refs))),
       (''cache_refs'', JList (map JStr (sort (remdups refs)))),
       (''target_tokenizer_view_verified'', JBool given)]"

definition validate_prompt_span_metadata :: "json \<Rightarrow> target_view \<Rightarrow> json res" where
  "validate_prompt_span_metadata metadata tv =
     bindR (check_header metadata) (\<lambda>_.
     bindR (check_prompt metadata) (\<lambda>(byte_hash, th, tokenizer_hash, token_count).
     bindR (check_target_view tv (byte_hash, th, tokenizer_hash, token_count)) (\<lambda>_.
     bindR (check_kv_spans metadata tokenizer_hash token_count) (\<lambda>refs.
       Inr (span_verdict byte_hash th tokenizer_hash token_count refs (target_view_given tv))))))"

section \<open>Hash fields\<close>

lemma SHA256_RE_digest [simp]: "SHA256_RE (sha256_bytes b)"
proof -
  have "list_all is_hex (take 64 (hexdigest (sha256 b)))"
    using hexdigest_hex [of "sha256 b"] by (auto simp: list_all_iff dest: in_set_takeD)
  then show ?thesis
    by (simp add: SHA256_RE_def sha256_bytes_def length_hexdigest)
qed

lemma ensure_sha256_eq_Inr [result_inv]:
  "ensure_sha256 name v = Inr s \<longleftrightarrow> v = JStr s \<and> SHA256_RE s"
  by (cases v) (auto simp: ensure_sha256_def span_error_def)

lemma span_error_neq [simp]: "span_error msg \<noteq> Inr x" "Inr x \<noteq> span_error msg"
  by (simp_all add: span_error_def)

lemma nonempty_str_iff: "nonempty_str v \<longleftrightarrow> (\<exists>s. v = JStr s \<and> s \<noteq> [])"
  by (cases v) (auto simp: nonempty_str_def)

lemma iterR_enum_eq_Inr:
  assumes "\<And>k x. (\<exists>y. f k x = Inr y) \<longleftrightarrow> P x"
  shows "iterR (\<lambda>(k, x). bindR (f k x) (\<lambda>_. Inr ())) (enum_from n xs) = Inr u \<longleftrightarrow> (\<forall>x\<in>set xs. P x)"
  using assms by (induction xs arbitrary: n) (auto simp: bindR_eq_Inr)

definition all_hashes :: "json list \<Rightarrow> bool" where
  "all_hashes hs \<longleftrightarrow> (\<forall>h\<in>set hs. \<exists>s. h = JStr s \<and> SHA256_RE s)"

lemma ensure_block_hashes_eq_Inr [result_inv]: "ensure_block_hashes i hs = Inr u \<longleftrightarrow> all_hashes hs"
  unfolding ensure_block_hashes_def all_hashes_def
  by (rule iterR_enum_eq_Inr) (simp add: ensure_sha256_eq_Inr)

lemma span_fold:
  "foldR (\<lambda>t h. if t < 0 then span_error msg else bindR (to_bytes 4 t) (\<lambda>b. Inr (hasher_update h b))) ids h = Inr h'
   \<longleftrightarrow> tokens_in_range 4 ids \<and> h' = h @ token_bytes 4 ids"
  by (induction ids arbitrary: h)
    (auto simp: bindR_eq_Inr tokens_in_range_def token_bytes_def to_bytes_def hasher_update_def)

lemma span_token_hash_eq_Inr [result_inv]:
  "span_token_hash ids = Inr h \<longleftrightarrow> tokens_in_range 4 ids \<and> h = sha256_bytes (token_bytes 4 ids)"
  by (auto simp: span_token_hash_def bindR_eq_Inr span_fold hasher_new_def hasher_hexdigest_def sha256_bytes_def)

interpretation span_digest: digest_binding "tokens_in_range 4" "token_bytes 4" "\<lambda>ids. ids"
  by unfold_locales (rule token_bytes_inj [of 4], simp_all)

interpretation text_digest: digest_binding "\<lambda>_. True" utf8_encode "\<lambda>s. s"
  by unfold_locales (auto dest: utf8_encode_inj)

section \<open>What validation accepts\<close>

definition kv_span_ok :: "string \<Rightarrow> json \<Rightarrow> json \<Rightarrow> string \<Rightarrow> bool" where
  "kv_span_ok tokenizer_hash token_count sp ref \<longleftrightarrow>
     (\<exists>d n bs. sp = JObj d \<and> map_of d ''node_id'' = Some (JStr n) \<and> n \<noteq> [] \<and>
        map_of d ''cache_ref'' = Some (JStr ref) \<and> ref \<noteq> [] \<and>
        py_eq (field_or d ''token_start'' JNull) (JInt 0) \<and>
        py_eq (field_or d ''token_end'' JNull) token_count \<and>
        map_of d ''tokenizer_hash'' = Some (JStr tokenizer_hash) \<and>
        map_of d ''block_hashes'' = Some (JList bs) \<and> bs \<noteq> [] \<and> all_hashes bs)"

definition prompt_ok :: "obj \<Rightarrow> string \<Rightarrow> string \<Rightarrow> string \<Rightarrow> json \<Rightarrow> bool" where
  "prompt_ok d byte_hash th tokenizer_hash token_count \<longleftrightarrow>
     (\<exists>p n. map_of d ''prompt'' = Some (JObj p) \<and>
        map_of p ''byte_hash'' = Some (JStr byte_hash) \<and> SHA256_RE byte_hash \<and>
        map_of p ''token_hash'' = Some (JStr th) \<and> SHA256_RE th \<and>
        map_of p ''tokenizer_hash'' = Some (JStr tokenizer_hash) \<and> SHA256_RE tokenizer_hash \<and>
        map_of p ''token_count'' = Some token_count \<and> int_val token_count = Some n \<and> 0 < n)"

definition header_ok :: "obj \<Rightarrow> bool" where
  "header_ok d \<longleftrightarrow> map_of d ''version'' = Some (JStr ''0.1'') \<and>
     (\<exists>r. map_of d ''source_runtime'' = Some (JStr r) \<and> r \<noteq> []) \<and>
     (\<exists>m. map_of d ''model_id'' = Some (JStr m) \<and> m \<noteq> [])"

definition target_agrees :: "target_view \<Rightarrow> string \<Rightarrow> string \<Rightarrow> string \<Rightarrow> json \<Rightarrow> bool" where
  "target_agrees tv byte_hash th tokenizer_hash token_count \<longleftrightarrow>
     (\<forall>p. expected_prompt tv = Some p \<longrightarrow> sha256_bytes (utf8_encode p) = byte_hash) \<and>
     (\<forall>n. expected_token_count tv = Some n \<longrightarrow> py_eq (JInt n) token_count) \<and>
     (\<forall>v. expected_token_ids tv = Some v \<longrightarrow>
        (\<exists>vs. v = JList vs \<and> list_all is_int vs \<and> py_eq (JInt (int (length vs))) token_count \<and>
           tokens_in_range 4 (map (\<lambda>v. the (int_val v)) vs) \<and>
           th = sha256_bytes (token_bytes 4 (map (\<lambda>v. the (int_val v)) vs)))) \<and>
     (\<forall>v. expected_tokenizer_hash tv = Some v \<longrightarrow> v = JStr tokenizer_hash \<and> SHA256_RE tokenizer_hash)"

lemma field_or_str [simp]: "(\<exists>s. field_or d k JNull = JStr s \<and> P s) \<longleftrightarrow> (\<exists>s. map_of d k = Some (JStr s) \<and> P s)"
  by (simp add: field_or_JStr)

lemma check_kv_span_eq_Inr: "check_kv_span tkh tc (i, sp) = Inr ref \<longleftrightarrow> kv_span_ok tkh tc sp ref"
proof (cases sp)
  case (JObj d)
  have blocks: "(case v of JList (b # bs) \<Rightarrow> bindR (ensure_block_hashes i (b # bs)) (\<lambda>_. m) | _ \<Rightarrow> span_error msg) = Inr ref
      \<longleftrightarrow> (\<exists>bs. v = JList bs \<and> bs \<noteq> [] \<and> all_hashes bs) \<and> m = Inr ref" for v m msg
    by (auto simp: bindR_eq_Inr ensure_block_hashes_eq_Inr split: json.splits list.splits)
  have fld: "field_or d k JNull = JList bs \<longleftrightarrow> map_of d k = Some (JList bs)" for k bs
    by (simp add: field_or_def split: option.splits)
  show ?thesis
    unfolding check_kv_span_def kv_span_ok_def JObj
    by (simp only: split Let_def is_dict.simps simp_thms if_False py_get_or_field bindR_simps)
      (auto simp: nonempty_str_iff field_or_JStr fld blocks as_str_eq_Inr)
qed (auto simp: check_kv_span_def kv_span_ok_def Let_def)

lemma check_kv_spans_eq_Inr:
  "check_kv_spans (JObj d) tkh tc = Inr refs \<longleftrightarrow>
   (\<exists>spans. map_of d ''kv_spans'' = Some (JList spans) \<and> spans \<noteq> [] \<and> list_all2 (kv_span_ok tkh tc) spans refs)"
proof -
  have m: "mapR (check_kv_span tkh tc) (enum_from n ss) = Inr refs \<longleftrightarrow> list_all2 (kv_span_ok tkh tc) ss refs" for n ss
    by (induction ss arbitrary: n refs) (auto simp: bindR_eq_Inr check_kv_span_eq_Inr list_all2_Cons1)
  have c: "(case v of JList (s # ss) \<Rightarrow> mapR (check_kv_span tkh tc) (enum_from 0 (s # ss)) | _ \<Rightarrow> span_error msg) = Inr refs
      \<longleftrightarrow> (\<exists>ss. v = JList ss \<and> ss \<noteq> [] \<and> list_all2 (kv_span_ok tkh tc) ss refs)" for v msg
    by (simp add: m split: json.split list.split del: enum_from_Cons mapR.simps)
  show ?thesis
    unfolding check_kv_spans_def py_get_or_field bindR_simps c
    by (simp add: field_or_def split: option.split)
qed

lemma check_prompt_eq_Inr:
  "check_prompt (JObj d) = Inr (bh, th, tkh, tc) \<longleftrightarrow> prompt_ok d bh th tkh tc"
proof (cases "field_or d ''prompt'' JNull")
  case (JObj p)
  then have d: "map_of d ''prompt'' = Some (JObj p)" by (simp add: field_or_def split: option.splits)
  have cnt: "int_val (field_or p ''token_count'' JNull) = Some n \<longleftrightarrow>
      (\<exists>c. map_of p ''token_count'' = Some c \<and> int_val c = Some n)" for n
    by (simp add: field_or_def split: option.split)
  show ?thesis
    unfolding check_prompt_def py_get_or_field bindR_simps JObj
    by (auto simp: bindR_eq_Inr ensure_sha256_eq_Inr field_or_JStr prompt_ok_def d cnt field_or_def
        simp del: py_get_or_JObj split: option.splits if_splits)
qed (auto simp: check_prompt_def prompt_ok_def field_or_def simp del: py_get_or_JObj py_get_or_JObj simp add: py_get_or_field split: option.splits)

lemma check_header_eq_Inr: "check_header m = Inr u \<longleftrightarrow> (\<exists>d. m = JObj d \<and> header_ok d)"
proof (cases m)
  case (JObj d)
  show ?thesis
    unfolding check_header_def JObj py_get_or_field
    by (auto simp: header_ok_def nonempty_str_iff field_or_JStr simp del: py_get_or_JObj)
qed (auto simp: check_header_def)

lemma check_token_ids_eq_Inr:
  "check_token_ids v th tc = Inr u \<longleftrightarrow>
   (\<exists>vs. v = JList vs \<and> list_all is_int vs \<and> py_eq (JInt (int (length vs))) tc \<and>
      tokens_in_range 4 (map (\<lambda>v. the (int_val v)) vs) \<and>
      th = sha256_bytes (token_bytes 4 (map (\<lambda>v. the (int_val v)) vs)))"
  by (cases v) (auto simp: check_token_ids_def bindR_eq_Inr span_token_hash_eq_Inr)

lemma check_target_view_eq_Inr:
  "check_target_view tv (bh, th, tkh, tc) = Inr u \<longleftrightarrow> target_agrees tv bh th tkh tc"
  unfolding check_target_view_def target_agrees_def
  by (auto simp: bindR_eq_Inr check_token_ids_eq_Inr ensure_sha256_eq_Inr split: option.splits)

lemma validate_eq_Inr:
  "validate_prompt_span_metadata m tv = Inr r \<longleftrightarrow>
   (\<exists>d bh th tkh tc spans refs. m = JObj d \<and> header_ok d \<and> prompt_ok d bh th tkh tc \<and>
      target_agrees tv bh th tkh tc \<and>
      map_of d ''kv_spans'' = Some (JList spans) \<and> spans \<noteq> [] \<and> list_all2 (kv_span_ok tkh tc) spans refs \<and>
      r = span_verdict bh th tkh tc refs (target_view_given tv))"
  unfolding validate_prompt_span_metadata_def
  by (auto simp: bindR_eq_Inr check_header_eq_Inr check_prompt_eq_Inr check_target_view_eq_Inr check_kv_spans_eq_Inr
      split: prod.splits; metis)

section \<open>What building produces\<close>

lemma default_block_hashes_eq_Inr:
  "default_block_hashes bhs ids = Inr hs \<Longrightarrow> hs \<noteq> []"
  by (auto simp: default_block_hashes_def bindR_eq_Inr split: option.splits list.splits)

lemma build_eq_Inr:
  "build_prompt_span_metadata (JStr p) ids tkh model runtime cache_ref node_id bhs = Inr m \<Longrightarrow>
   \<exists>t hs. p \<noteq> [] \<and> ids \<noteq> [] \<and> nonempty_str model \<and> nonempty_str runtime \<and> tkh = JStr t \<and> SHA256_RE t \<and>
     hs \<noteq> [] \<and> all_hashes hs \<and> tokens_in_range 4 ids \<and>
     m = span_metadata (sha256_bytes (utf8_encode p)) (sha256_bytes (token_bytes 4 ids)) (length ids)
           tkh model runtime cache_ref node_id hs"
  by (auto simp: build_prompt_span_metadata_def bindR_eq_Inr ensure_sha256_eq_Inr ensure_block_hashes_eq_Inr
      span_token_hash_eq_Inr nonempty_str_iff dest!: default_block_hashes_eq_Inr split: if_splits)

lemma span_metadata_parts:
  assumes m: "span_metadata bh th n (JStr t) model runtime (JStr c) (JStr nid) hs = JObj d"
    and ok: "nonempty_str model" "nonempty_str runtime" "SHA256_RE t" "SHA256_RE bh" "SHA256_RE th" "0 < n"
      "c \<noteq> []" "nid \<noteq> []" "hs \<noteq> []" "all_hashes hs"
  shows "header_ok d" and "prompt_ok d bh th t (JInt (int n))"
    and "\<exists>sp. map_of d ''kv_spans'' = Some (JList [sp]) \<and> kv_span_ok t (JInt (int n)) sp c"
proof -
  note d = m [symmetric, unfolded span_metadata_def, THEN json.inject(6) [THEN iffD1]]
  show "header_ok d" using ok by (simp add: d header_ok_def nonempty_str_iff)
  show "prompt_ok d bh th t (JInt (int n))" using ok by (simp add: d prompt_ok_def)
  show "\<exists>sp. map_of d ''kv_spans'' = Some (JList [sp]) \<and> kv_span_ok t (JInt (int n)) sp c"
    using ok by (simp add: d kv_span_ok_def field_or_def)
qed

lemma build_default:
  assumes "p \<noteq> []" "ids \<noteq> []" "nonempty_str model" "nonempty_str runtime" "SHA256_RE t" "tokens_in_range 4 ids"
  shows "build_prompt_span_metadata (JStr p) ids (JStr t) model runtime cache_ref node_id None =
    Inr (span_metadata (sha256_bytes (utf8_encode p)) (sha256_bytes (token_bytes 4 ids)) (length ids)
           (JStr t) model runtime cache_ref node_id [JStr (sha256_bytes (token_bytes 4 ids))])"
proof -
  have h: "span_token_hash ids = Inr (sha256_bytes (token_bytes 4 ids))"
    using assms by (simp add: span_token_hash_eq_Inr)
  have "ensure_block_hashes 0 [JStr (sha256_bytes (token_bytes 4 ids))] = Inr ()"
    by (simp add: ensure_block_hashes_eq_Inr all_hashes_def)
  moreover have "ensure_sha256 name (JStr t) = Inr t" for name
    using assms by (simp add: ensure_sha256_eq_Inr)
  ultimately show ?thesis
    using assms by (simp add: build_prompt_span_metadata_def default_block_hashes_def h nonempty_str_def)
qed

lemma build_validates:
  assumes "build_prompt_span_metadata (JStr p) ids (JStr t) model runtime (JStr c) (JStr nid) bhs = Inr m"
    and "c \<noteq> []" and "nid \<noteq> []"
  shows "validate_prompt_span_metadata m
     \<lparr>expected_prompt = Some p, expected_token_count = Some (int (length ids)),
      expected_token_ids = Some (JList (map JInt ids)), expected_tokenizer_hash = Some (JStr t)\<rparr>
   = Inr (span_verdict (sha256_bytes (utf8_encode p)) (sha256_bytes (token_bytes 4 ids)) t
       (JInt (int (length ids))) [c] True)"
    (is "validate_prompt_span_metadata m ?tv = Inr (span_verdict ?bh ?th t ?n [c] True)")
proof -
  obtain hs where b: "p \<noteq> []" "ids \<noteq> []" "nonempty_str model" "nonempty_str runtime" "SHA256_RE t"
    "hs \<noteq> []" "all_hashes hs" "tokens_in_range 4 ids"
    and m: "m = span_metadata ?bh ?th (length ids) (JStr t) model runtime (JStr c) (JStr nid) hs"
    using build_eq_Inr [OF assms(1)] by auto
  obtain d where d: "span_metadata ?bh ?th (length ids) (JStr t) model runtime (JStr c) (JStr nid) hs = JObj d"
    by (simp add: span_metadata_def)
  note parts = span_metadata_parts [OF d b(3,4,5) SHA256_RE_digest SHA256_RE_digest _ assms(2,3) b(6,7)]
  have "map (\<lambda>v. the (int_val v)) (map JInt ids) = ids" by (simp add: comp_def)
  then have "target_agrees ?tv ?bh ?th t ?n"
    using b by (simp add: target_agrees_def list_all_iff comp_def)
  moreover have "target_view_given ?tv" by (simp add: target_view_given_def)
  ultimately show ?thesis
    unfolding validate_eq_Inr m d using parts b(2) by fastforce
qed

text \<open>Metadata built for a prompt is accepted by a target that runs the same prompt, tokens and
  tokenizer, and the verdict reports the prompt's own hashes, the token count and the cache
  reference. (Building does not look at the node id and the cache reference; validation needs them
  non-empty.)\<close>

theorem span_metadata_roundtrip:
  assumes "build_prompt_span_metadata (JStr p) ids (JStr t) model runtime (JStr c) (JStr nid) bhs = Inr m"
    and "c \<noteq> []" and "nid \<noteq> []"
  shows "validate_prompt_span_metadata m
     \<lparr>expected_prompt = Some p, expected_token_count = Some (int (length ids)),
      expected_token_ids = Some (JList (map JInt ids)), expected_tokenizer_hash = Some (JStr t)\<rparr>
   = Inr (span_verdict (sha256_bytes (utf8_encode p)) (sha256_bytes (token_bytes 4 ids)) t
       (JInt (int (length ids))) [c] True)"
  using assms by (rule build_validates)

definition sample_span :: "json res" where
  "sample_span = build_prompt_span_metadata (JStr ''hi'') [104, 105] (JStr (sha256_bytes [])) (JStr ''m'')
     (JStr ''vllm'') (JStr ''kv:live-prefill:prompt'') (JStr ''checkpoint:prompt'') None"

lemma sample_span_built: "\<exists>m. sample_span = Inr m"
  unfolding sample_span_def
  by (subst build_default) (simp_all add: nonempty_str_def tokens_in_range_def)

definition sample_target :: target_view where
  "sample_target = \<lparr>expected_prompt = Some ''hi'', expected_token_count = Some 2,
     expected_token_ids = Some (JList [JInt 104, JInt 105]), expected_tokenizer_hash = Some (JStr (sha256_bytes []))\<rparr>"

theorem span_metadata_roundtrip_witness:
  "\<exists>m v. sample_span = Inr m \<and> validate_prompt_span_metadata m sample_target = Inr v"
proof -
  obtain m where m: "sample_span = Inr m" using sample_span_built by blast
  show ?thesis
    using m span_metadata_roundtrip [OF m [unfolded sample_span_def]] by (auto simp: sample_target_def)
qed

lemma metadata_binds:
  assumes "build_prompt_span_metadata (JStr p) ids (JStr t) model runtime cache_ref node_id bhs = Inr m"
    and "validate_prompt_span_metadata m tv = Inr r"
    and "expected_prompt tv = Some p'" and "expected_token_ids tv = Some (JList (map JInt ids'))"
    and "expected_tokenizer_hash tv = Some (JStr t')"
  shows "t' = t \<and> (p' = p \<or> sha_collision (utf8_encode p') (utf8_encode p)) \<and>
    (ids' = ids \<or> sha_collision (token_bytes 4 ids') (token_bytes 4 ids))"
proof -
  obtain hs where r: "tokens_in_range 4 ids"
    and m: "m = span_metadata (sha256_bytes (utf8_encode p)) (sha256_bytes (token_bytes 4 ids)) (length ids)
       (JStr t) model runtime cache_ref node_id hs"
    using build_eq_Inr [OF assms(1)] by auto
  obtain d bh th tkh tc where d: "m = JObj d" and pr: "prompt_ok d bh th tkh tc" and ta: "target_agrees tv bh th tkh tc"
    using assms(2) unfolding validate_eq_Inr by blast
  have f: "bh = sha256_bytes (utf8_encode p)" "th = sha256_bytes (token_bytes 4 ids)" "tkh = t"
    using pr d [unfolded m span_metadata_def, THEN json.inject(6) [THEN iffD1], symmetric]
    by (auto simp: prompt_ok_def)
  have "map (\<lambda>v. the (int_val v)) (map JInt ids') = ids'" by (simp add: comp_def)
  then have t: "sha256_bytes (utf8_encode p') = sha256_bytes (utf8_encode p)" "tokens_in_range 4 ids'"
    "sha256_bytes (token_bytes 4 ids') = sha256_bytes (token_bytes 4 ids)" "t' = t"
    using ta assms(3-5) by (simp_all add: target_agrees_def f)
  show ?thesis
    using text_digest.digest_binds [OF TrueI TrueI t(1)] span_digest.digest_binds [OF t(2) r t(3)] t(4) by blast
qed

text \<open>C7: The metadata binds: a target that validates it against its own prompt, token ids and tokenizer
  uses exactly the tokenizer the metadata was built for, and runs exactly its prompt and its token ids, unless those very
  texts, or those very token strings, are two different inputs with one SHA-256 digest.\<close>

theorem span_metadata_binds:
  assumes "build_prompt_span_metadata (JStr p) ids (JStr t) model runtime cache_ref node_id bhs = Inr m"
    and "validate_prompt_span_metadata m tv = Inr r"
    and "expected_prompt tv = Some p'" and "expected_token_ids tv = Some (JList (map JInt ids'))"
    and "expected_tokenizer_hash tv = Some (JStr t')"
  shows "t' = t \<and> (p' = p \<or> sha_collision (utf8_encode p') (utf8_encode p)) \<and>
    (ids' = ids \<or> sha_collision (token_bytes 4 ids') (token_bytes 4 ids))"
  by (rule metadata_binds [OF assms])

theorem span_metadata_binds_witness:
  "\<exists>m v p' ids' t'. sample_span = Inr m \<and> validate_prompt_span_metadata m sample_target = Inr v \<and>
     expected_prompt sample_target = Some p' \<and> expected_token_ids sample_target = Some (JList (map JInt ids')) \<and>
     expected_tokenizer_hash sample_target = Some (JStr t') \<and> p' = ''hi'' \<and> ids' = [104, 105] \<and> t' = sha256_bytes []"
proof -
  obtain m where m: "sample_span = Inr m" using sample_span_built by blast
  then obtain v where "validate_prompt_span_metadata m sample_target = Inr v"
    using build_validates [OF m [unfolded sample_span_def]] by (auto simp: sample_target_def)
  then show ?thesis
    using m span_metadata_binds [OF m [unfolded sample_span_def], of sample_target v "''hi''" "[104, 105]" "sha256_bytes []"]
    by (auto simp: sample_target_def sha_collision_def)
qed

text \<open>Validation rejects with the module's own exception, on every input; the one other way to fail
  is a target token id that does not fit four bytes.\<close>

definition span_failure :: "py_error \<Rightarrow> bool" where
  "span_failure e \<longleftrightarrow> (\<exists>msg. e = AgentGraphSpanMetadataError msg) \<or> e = OverflowError ''int too big to convert''"

definition fails_ok :: "'a res \<Rightarrow> bool" where
  "fails_ok m \<longleftrightarrow> (\<forall>e. m = Inl e \<longrightarrow> span_failure e)"

lemma fails_ok_intros [intro!, simp]: "fails_ok (Inr x)" "fails_ok (span_error msg)"
  by (simp_all add: fails_ok_def span_error_def span_failure_def)

lemma fails_ok_bind: "fails_ok m \<Longrightarrow> (\<And>x. m = Inr x \<Longrightarrow> fails_ok (f x)) \<Longrightarrow> fails_ok (bindR m f)"
  by (auto simp: fails_ok_def bindR_eq_Inl)

lemma fails_ok_if: "(c \<Longrightarrow> fails_ok a) \<Longrightarrow> (\<not> c \<Longrightarrow> fails_ok b) \<Longrightarrow> fails_ok (if c then a else b)"
  by simp

lemma fails_ok_get: "is_dict v \<Longrightarrow> fails_ok (py_get_or v k d)"
  by (cases v) auto

lemma fails_ok_ensure [simp]: "fails_ok (ensure_sha256 name v)"
  by (auto simp: ensure_sha256_def split: json.split)

lemma fails_ok_iterR: "(\<And>x. x \<in> set xs \<Longrightarrow> fails_ok (f x)) \<Longrightarrow> fails_ok (iterR f xs)"
  by (induction xs) (auto intro!: fails_ok_bind)

lemma fails_ok_mapR: "(\<And>x. x \<in> set xs \<Longrightarrow> fails_ok (f x)) \<Longrightarrow> fails_ok (mapR f xs)"
  by (induction xs) (auto intro!: fails_ok_bind)

lemma fails_ok_hash [simp]: "fails_ok (span_token_hash ids)"
proof -
  have "fails_ok (foldR (\<lambda>t h. if t < 0 then span_error msg else bindR (to_bytes 4 t) (\<lambda>b. Inr (hasher_update h b))) ids h)" for msg h
    by (induction ids arbitrary: h)
      (auto intro!: fails_ok_bind simp: to_bytes_def fails_ok_def span_failure_def span_error_def split: if_splits)
  then show ?thesis unfolding span_token_hash_def by (intro fails_ok_bind) auto
qed

lemma fails_ok_blocks [simp]: "fails_ok (ensure_block_hashes i hs)"
  by (auto simp: ensure_block_hashes_def intro!: fails_ok_iterR fails_ok_bind)

lemma fails_ok_kv_span: "fails_ok (check_kv_span tkh tc (i, sp))"
  unfolding check_kv_span_def Let_def split
  by (intro fails_ok_if fails_ok_bind fails_ok_intros fails_ok_get)
    (auto split: json.split list.split intro!: fails_ok_bind simp: nonempty_str_iff)

lemma fails_ok_target: "fails_ok (check_target_view tv (bh, th, tkh, tc))"
  unfolding check_target_view_def split
  by (intro fails_ok_if fails_ok_bind fails_ok_intros)
    (auto split: option.split json.split simp: check_token_ids_def intro!: fails_ok_bind)

lemma fails_ok_prompt: "is_dict m \<Longrightarrow> fails_ok (check_prompt m)"
  unfolding check_prompt_def
  by (intro fails_ok_bind fails_ok_get fails_ok_if fails_ok_intros) (auto intro!: fails_ok_bind fails_ok_get split: option.split)

text \<open>Rejection is orderly: whatever the metadata and the target view are, a failed validation raises
  \<open>AgentGraphSpanMetadataError\<close>; the one other exception that can escape is the \<open>OverflowError\<close> of
  \<open>int.to_bytes(4)\<close> on a target token id that does not fit in four bytes.\<close>

theorem span_metadata_rejection:
  "validate_prompt_span_metadata m tv = Inl e \<Longrightarrow> span_failure e"
proof -
  have h: "fails_ok (check_header m)"
    unfolding check_header_def by (intro fails_ok_if fails_ok_bind fails_ok_intros fails_ok_get) auto
  have s: "fails_ok (check_kv_spans m tkh tc)" if "is_dict m" for tkh tc
    unfolding check_kv_spans_def using that
    by (auto split: json.split list.split intro!: fails_ok_bind fails_ok_get fails_ok_mapR simp: fails_ok_kv_span
        simp del: mapR.simps enum_from_Cons)
  have "fails_ok (validate_prompt_span_metadata m tv)"
    unfolding validate_prompt_span_metadata_def
    by (auto intro!: fails_ok_bind h fails_ok_prompt fails_ok_target s simp: check_header_eq_Inr)
  then show "validate_prompt_span_metadata m tv = Inl e \<Longrightarrow> span_failure e" by (simp add: fails_ok_def)
qed

theorem span_metadata_rejection_witness:
  "\<exists>e. validate_prompt_span_metadata (JObj [(''version'', JStr ''0.2'')]) sample_target = Inl e \<and> span_failure e"
proof -
  have "validate_prompt_span_metadata (JObj [(''version'', JStr ''0.2'')]) sample_target =
      Inl (AgentGraphSpanMetadataError ''agent_graph_span_metadata.version must be 0.1'')"
    by (simp add: validate_prompt_span_metadata_def check_header_def span_error_def)
  with span_metadata_rejection [OF this] show ?thesis by blast
qed

text \<open>C27: Validation accepts exactly the metadata whose fields satisfy the declarative description, and the
  verdict it returns is read off them.\<close>

theorem span_metadata_exact:
  "validate_prompt_span_metadata m tv = Inr r \<longleftrightarrow>
   (\<exists>d bh th tkh tc spans refs. m = JObj d \<and> header_ok d \<and> prompt_ok d bh th tkh tc \<and>
      target_agrees tv bh th tkh tc \<and>
      map_of d ''kv_spans'' = Some (JList spans) \<and> spans \<noteq> [] \<and> list_all2 (kv_span_ok tkh tc) spans refs \<and>
      r = span_verdict bh th tkh tc refs (target_view_given tv))"
  by (rule validate_eq_Inr)

end
