(* ===== verification/VllmSpool.thy ===== *)
theory VllmSpool
  imports VllmBridge SpanMetadata
begin

text \<open>
  The target-side hand-over of prepared blocks: the HTTP receiver of
  \<^verbatim>\<open>adapters/vllm_runtime_receiver.py\<close> with its acknowledgement file, the spool of
  \<^verbatim>\<open>adapters/vllm_directory_consumer.py\<close> and the import worker of \<^verbatim>\<open>adapters/vllm_import_worker.py\<close>,
  which checks agent-graph span metadata before a payload reaches the runtime. Hooks are arguments;
  sockets, the HTTP framing of \<open>http.server\<close> and the clock are not represented.
\<close>

section \<open>Acknowledged hashes\<close>

definition ack_file :: "pypath \<Rightarrow> pypath" where
  "ack_file state_dir = path_sub state_dir ''acked.json''"

definition load_acknowledged :: "pypath \<Rightarrow> string list io" where
  "load_acknowledged state_dir f =
     (if \<not> path_exists f (ack_file state_dir) then (Inr [], f)
      else case read_json (ack_file state_dir) f of
        (Inl (JSONDecodeError _), f') \<Rightarrow> (Inr [], f')
      | (Inl e, f') \<Rightarrow> (Inl e, f')
      | (Inr (JList xs), f') \<Rightarrow> (Inr (str_items xs), f')
      | (Inr _, f') \<Rightarrow> (Inr [], f'))"

text \<open>\<open>json.dumps(v, indent=2)\<close> written as UTF-8.\<close>

definition write_dump :: "pypath \<Rightarrow> json \<Rightarrow> unit io" where
  "write_dump p v = write_bytes p (utf8_encode (render pretty_style 0 v))"

definition save_acknowledged :: "pypath \<Rightarrow> string list \<Rightarrow> unit io" where
  "save_acknowledged state_dir hashes = write_dump (ack_file state_dir) (JList (map JStr (sort hashes)))"

section \<open>The receiver\<close>

type_synonym consumer = "obj \<Rightarrow> (registry, json) st"

definition call_consumer :: "consumer option \<Rightarrow> obj \<Rightarrow> (registry, obj) st" where
  "call_consumer hook payload =
     (case hook of
        None \<Rightarrow> liftS (Inr [(''success'', JBool True)])
      | Some h \<Rightarrow>
          bindS (h payload) (\<lambda>result.
          case result of
            JNull \<Rightarrow> liftS (Inr [(''success'', JBool True)])
          | JObj d \<Rightarrow> liftS (Inr d)
          | _ \<Rightarrow> liftS (adapter_error ''consumer hook must return a dict or None'')))"

definition succeeded :: "obj \<Rightarrow> bool" where
  "succeeded result \<longleftrightarrow> truthy (field_or result ''success'' (JBool True))"

definition receiver_inject :: "pypath \<Rightarrow> consumer option \<Rightarrow> obj \<Rightarrow> (registry, json) st" where
  "receiver_inject state_dir hook payload =
     (case field_or payload ''hash'' JNull of
        JStr (c # cs) \<Rightarrow>
          bindS (on_fs (mkdir_parents state_dir)) (\<lambda>_.
          bindS (on_fs (write_dump (path_sub state_dir ((c # cs) @ ''.json'')) (JObj payload))) (\<lambda>_.
          bindS (call_consumer hook payload) (\<lambda>result.
          if succeeded result then
            bindS (on_fs (load_acknowledged state_dir)) (\<lambda>hashes.
            bindS (on_fs (save_acknowledged state_dir (set_add (c # cs) hashes))) (\<lambda>_.
              liftS (Inr (JObj result))))
          else liftS (Inr (JObj result)))))
      | _ \<Rightarrow> liftS (adapter_error (''inject_block payload requires a non-empty '' @ repr_str ''hash'')))"

definition receiver_verify :: "pypath \<Rightarrow> consumer option \<Rightarrow> obj \<Rightarrow> (registry, json) st" where
  "receiver_verify state_dir hook payload =
     (case field_or payload ''block_hashes'' JNull of
        JList hs \<Rightarrow>
          if \<not> list_all is_str hs
          then liftS (adapter_error (''verify_continuation payload requires string list '' @ repr_str ''block_hashes''))
          else
            bindS (on_fs (load_acknowledged state_dir)) (\<lambda>acknowledged.
            let missing = filter (\<lambda>v. v \<notin> JStr ` set acknowledged) hs in
            if missing \<noteq> [] then liftS (Inr (JObj [(''success'', JBool False), (''missing_hashes'', JList missing)]))
            else
              bindS (call_consumer hook payload) (\<lambda>result.
                liftS (Inr (JObj (if succeeded result then dict_update [(''success'', JBool True)] result else result)))))
      | _ \<Rightarrow> liftS (adapter_error (''verify_continuation payload requires string list '' @ repr_str ''block_hashes'')))"

definition receiver_export :: "consumer option \<Rightarrow> obj \<Rightarrow> (registry, json) st" where
  "receiver_export hook payload =
     bindS (call_consumer hook (dict_update [(''action'', JStr ''export_reverse_runtime_state'')] payload)) (\<lambda>result.
       liftS (Inr (JObj (if succeeded result then dict_update [(''success'', JBool True)] result else result))))"

text \<open>A request as the handler sees it, and its answer: a status with a JSON body, or status 500 with the
  text of an exception.\<close>

record http_request =
  url_path :: string
  authorization :: "string option"
  content_length :: "string option"
  rest :: bytes

datatype reply = Reply nat json | ServerError py_error

definition read_request :: "http_request \<Rightarrow> obj res" where
  "read_request q =
     bindR (int_of_text (case content_length q of Some n \<Rightarrow> n | None \<Rightarrow> ''0'')) (\<lambda>n.
     bindR (utf8_decode (if n < 0 then rest q else take (nat n) (rest q))) (\<lambda>raw.
     bindR (if raw = [] then Inr (JObj []) else json_loads raw) (\<lambda>payload.
       case payload of JObj d \<Rightarrow> Inr d | _ \<Rightarrow> adapter_error ''request body must be a JSON object'')))"

definition authorized :: "string option \<Rightarrow> http_request \<Rightarrow> bool" where
  "authorized token q \<longleftrightarrow>
     (case token of
        Some (c # cs) \<Rightarrow> (case authorization q of Some h \<Rightarrow> h | None \<Rightarrow> []) = ''Bearer '' @ (c # cs)
      | _ \<Rightarrow> True)"

definition error_reply :: "string \<Rightarrow> json" where
  "error_reply msg = JObj [(''success'', JBool False), (''error'', JStr msg)]"

definition answer :: "json res \<Rightarrow> reply" where
  "answer r =
     (case r of
        Inr response \<Rightarrow> Reply 200 response
      | Inl (AdapterError exc) \<Rightarrow> Reply 400 (error_reply exc)
      | Inl (JSONDecodeError exc) \<Rightarrow> Reply 400 (error_reply (''invalid JSON: '' @ exc))
      | Inl e \<Rightarrow> ServerError e)"

definition do_POST :: "pypath \<Rightarrow> string option \<Rightarrow> consumer option \<Rightarrow> http_request \<Rightarrow> registry \<Rightarrow> reply \<times> registry" where
  "do_POST state_dir token hook q s =
     (if \<not> authorized token q then (Reply 401 (error_reply ''unauthorized''), s)
      else case read_request q of
        Inl e \<Rightarrow> (answer (Inl e), s)
      | Inr payload \<Rightarrow>
          if url_path q = ''/inject_block'' then map_prod answer id (receiver_inject state_dir hook payload s)
          else if url_path q = ''/verify_continuation'' then map_prod answer id (receiver_verify state_dir hook payload s)
          else if url_path q = ''/export_reverse_runtime_state'' then map_prod answer id (receiver_export hook payload s)
          else (Reply 404 (error_reply ''not found''), s))"

section \<open>The directory consumer\<close>

definition tensor_summary :: "obj \<Rightarrow> string \<Rightarrow> obj" where
  "tensor_summary layer part =
     (case field_or layer (part @ ''_tensor'') JNull of
        JObj t \<Rightarrow>
          [(part @ ''_tensor_name'', field_or t ''name'' JNull), (part @ ''_tensor_shape'', field_or t ''shape'' JNull)]
      | _ \<Rightarrow> [])"

definition layer_record :: "string \<Rightarrow> json \<Rightarrow> json res" where
  "layer_record block_hash layer =
     (case layer of
        JObj d \<Rightarrow>
          Inr (JObj ([(''layer_index'', field_or d ''layer_index'' JNull),
              (''shape_mode'', field_or d ''shape_mode'' (JStr ''canonical'')),
              (''seq_len'', field_or d ''seq_len'' JNull), (''kv_heads'', field_or d ''kv_heads'' JNull),
              (''head_dim'', field_or d ''head_dim'' JNull),
              (''key_blocks_path'', JStr (block_hash @ ''.json'')), (''value_blocks_path'', JStr (block_hash @ ''.json''))] @
            tensor_summary d ''key'' @ tensor_summary d ''value''))
      | _ \<Rightarrow> Inl (no_attr layer ''get''))"

definition consume :: "string option \<Rightarrow> obj \<Rightarrow> json io" where
  "consume import_dir_var payload =
     (case field_or payload ''hash'' JNull of
        JStr (c # cs) \<Rightarrow>
          (case import_dir_var of
             Some (e # es) \<Rightarrow>
               bindIO (mkdir_parents (Path (e # es))) (\<lambda>_.
               bindIO (liftR (bindR (py_iter (field_or payload ''layers'' (JList []))) (mapR (layer_record (c # cs))))) (\<lambda>layers.
               bindIO (write_dump (path_sub (Path (e # es)) ((c # cs) @ ''.json'')) (JObj payload)) (\<lambda>_.
               bindIO (write_dump (path_sub (Path (e # es)) ((c # cs) @ ''.ready.json''))
                 (JObj [(''hash'', JStr (c # cs)), (''block_size'', field_or payload ''block_size'' JNull),
                   (''layer_count'', field_or payload ''layer_count'' JNull), (''layers'', JList layers)])) (\<lambda>_.
                 returnIO (JObj [(''success'', JBool True)])))))
           | _ \<Rightarrow> liftR (adapter_error ''Set PERMEANT_VLLM_IMPORT_DIR for vllm_directory_consumer''))
      | _ \<Rightarrow> returnIO (error_reply ''payload hash missing''))"

section \<open>The import worker\<close>

definition load_object :: "pypath \<Rightarrow> obj io" where
  "load_object p =
     bindIO (read_json p) (\<lambda>payload.
     case payload of JObj d \<Rightarrow> returnIO d | _ \<Rightarrow> liftR (adapter_error (as_posix p @ '' did not contain a JSON object'')))"

text \<open>\<open>with_suffix(".processed.json")\<close> of a path whose name ends in \<open>.json\<close>.\<close>

definition marker_path :: "pypath \<Rightarrow> pypath" where
  "marker_path p = p\<lparr>parts := butlast (parts p) @ [take (length (path_name p) - 5) (path_name p) @ ''.processed.json'']\<rparr>"

definition record_processed :: "json \<Rightarrow> pypath \<Rightarrow> json \<Rightarrow> obj \<Rightarrow> unit io" where
  "record_processed now ready_path payload_hash result =
     write_dump (marker_path ready_path)
       (JObj [(''hash'', payload_hash), (''processed_at_epoch_s'', now), (''result'', JObj result)])"

definition full_payload_path :: "pypath \<Rightarrow> obj \<Rightarrow> pypath io" where
  "full_payload_path import_dir ready f =
     (case field_or ready ''hash'' JNull of
        JStr (c # cs) \<Rightarrow>
          (let p = path_sub import_dir ((c # cs) @ ''.json'') in
           if path_exists f p then (Inr p, f)
           else (adapter_error (''staged payload missing for hash '' @ (c # cs)), f))
      | _ \<Rightarrow> (adapter_error (''ready descriptor is missing a valid '' @ repr_str ''hash''), f))"

text \<open>A field of the prompt view, or where it is absent or null, a fallback.\<close>

definition or_else :: "json \<Rightarrow> json \<Rightarrow> json" where
  "or_else v w = (if v = JNull then w else v)"

definition tokenization_field :: "obj \<Rightarrow> string \<Rightarrow> json" where
  "tokenization_field payload k =
     (case field_or payload ''prompt_tokenization'' JNull of JObj t \<Rightarrow> field_or t k JNull | _ \<Rightarrow> JNull)"

definition target_prompt_view :: "obj \<Rightarrow> target_view res" where
  "target_prompt_view payload =
     (let view = (case field_or payload ''target_prompt'' JNull of JObj d \<Rightarrow> d | _ \<Rightarrow> []);
          prompt_text = or_else (field_or view ''text'' JNull) (field_or payload ''prompt'' JNull);
          token_ids = or_else (field_or view ''token_ids'' JNull) (field_or payload ''prompt_token_ids'' JNull);
          count0 = or_else (field_or view ''token_count'' JNull) (tokenization_field payload ''token_count'');
          token_count = (case token_ids of JList vs \<Rightarrow> or_else count0 (JInt (int (length vs))) | _ \<Rightarrow> count0);
          tokenizer_hash = or_else (field_or view ''tokenizer_hash'' JNull) (tokenization_field payload ''tokenizer_hash'')
      in if prompt_text \<noteq> JNull \<and> \<not> is_str prompt_text
         then adapter_error ''target prompt text must be a string when present''
         else if token_ids \<noteq> JNull \<and> (case token_ids of JList vs \<Rightarrow> \<not> list_all is_int vs | _ \<Rightarrow> True)
         then adapter_error ''target prompt token_ids must be an integer list when present''
         else if token_count \<noteq> JNull \<and> (case int_val token_count of Some n \<Rightarrow> n \<le> 0 | None \<Rightarrow> True)
         then adapter_error ''target prompt token_count must be a positive integer when present''
         else if tokenizer_hash \<noteq> JNull \<and> \<not> is_str tokenizer_hash
         then adapter_error ''target prompt tokenizer_hash must be a string when present''
         else Inr \<lparr>expected_prompt = (case prompt_text of JStr p \<Rightarrow> Some p | _ \<Rightarrow> None),
           expected_token_count = int_val token_count,
           expected_token_ids = (if token_ids = JNull then None else Some token_ids),
           expected_tokenizer_hash = (if tokenizer_hash = JNull then None else Some tokenizer_hash)\<rparr>)"

definition wrap_span_error :: "'a res \<Rightarrow> 'a res" where
  "wrap_span_error m =
     (case m of
        Inl (AgentGraphSpanMetadataError exc) \<Rightarrow> adapter_error (''invalid agent graph span metadata: '' @ exc)
      | _ \<Rightarrow> m)"

definition span_validation :: "obj \<Rightarrow> json option res" where
  "span_validation payload =
     (case map_of payload ''agent_graph_span_metadata'' of
        None \<Rightarrow> Inr None
      | Some metadata \<Rightarrow>
          bindR (wrap_span_error (bindR (target_prompt_view payload) (validate_prompt_span_metadata metadata))) (\<lambda>v.
            Inr (Some v)))"

text \<open>What happens to the hook's result: it must be a dictionary or nothing, gets the validation added, and is
  recorded in the marker file.\<close>

definition finish_one :: "json \<Rightarrow> pypath \<Rightarrow> obj \<Rightarrow> json option \<Rightarrow> json \<Rightarrow> (registry, obj) st" where
  "finish_one now ready_path ready validation r =
     bindS (liftS (case r of JNull \<Rightarrow> Inr [(''success'', JBool True)] | JObj d \<Rightarrow> Inr d
                   | _ \<Rightarrow> adapter_error ''runtime hook must return a dict or None'')) (\<lambda>d.
     let result = (case validation of Some v \<Rightarrow> dict_set ''agent_graph_span_validation'' v d | None \<Rightarrow> d) in
     bindS (liftS (py_item (JObj ready) ''hash'')) (\<lambda>h.
     bindS (on_fs (record_processed now ready_path h result)) (\<lambda>_. liftS (Inr result))))"

definition consume_one :: "json \<Rightarrow> pypath \<Rightarrow> pypath \<Rightarrow> consumer \<Rightarrow> (registry, obj) st" where
  "consume_one now import_dir ready_path hook =
     bindS (on_fs (load_object ready_path)) (\<lambda>ready.
     bindS (on_fs (full_payload_path import_dir ready)) (\<lambda>payload_path.
     bindS (on_fs (load_object payload_path)) (\<lambda>full.
     bindS (liftS (span_validation full)) (\<lambda>validation.
     bindS (hook full) (finish_one now ready_path ready validation)))))"

text \<open>One pass over the ready descriptors, given their sorted names; the count of those processed.\<close>

fun run_once :: "json \<Rightarrow> pypath \<Rightarrow> consumer \<Rightarrow> string list \<Rightarrow> (registry, nat) st" where
  "run_once now import_dir hook [] s = (Inr 0, s)"
| "run_once now import_dir hook (name # names) s =
     (if path_exists (reg_fs s) (marker_path (entry_of import_dir name)) then run_once now import_dir hook names s
      else bindS (consume_one now import_dir (entry_of import_dir name) hook) (\<lambda>_.
           bindS (run_once now import_dir hook names) (\<lambda>n. liftS (Inr (Suc n)))) s)"

section \<open>Requests without effect\<close>

lemma on_fs_pure: "(\<And>f r f'. m f = (r, f') \<Longrightarrow> f' = f) \<Longrightarrow> on_fs m s = (r, t) \<Longrightarrow> t = s"
  by (auto simp: on_fs_def split: prod.splits)

text \<open>C34: A request changes something only if it is authorised, its body is a JSON object and its path is one
  of the three routes; an injection in addition needs a non-empty hash, which the other two routes do not. Everything
  else is refused with status 401, 400, 404 or 500 and leaves the files and the runtime as they are.\<close>

theorem refused_requests_change_nothing:
  "authorized token q \<and>
   (\<exists>payload. read_request q = Inr payload \<and>
      (url_path q = ''/inject_block'' \<and> (\<exists>c cs. map_of payload ''hash'' = Some (JStr (c # cs))) \<or>
       url_path q \<in> {''/verify_continuation'', ''/export_reverse_runtime_state''})) \<or>
   (\<exists>st body. do_POST state_dir token hook q s = (Reply st body, s) \<and> st \<in> {400, 401, 404}) \<or>
   (\<exists>e. do_POST state_dir token hook q s = (ServerError e, s))"
proof (cases "authorized token q")
  case True
  show ?thesis
  proof (cases "read_request q")
    case (Inl e)
    then show ?thesis using True by (cases e) (simp_all add: do_POST_def answer_def)
  next
    case (Inr payload)
    show ?thesis
    proof (cases "url_path q = ''/inject_block''")
      case inj: True
      have "(\<exists>c cs. field_or payload ''hash'' JNull = JStr (c # cs)) \<or>
          receiver_inject state_dir hook payload s = (adapter_error (''inject_block payload requires a non-empty '' @ repr_str ''hash''), s)"
        by (cases "field_or payload ''hash'' JNull") (auto simp: receiver_inject_def liftS_def split: list.split)
      then show ?thesis using True Inr inj by (auto simp: do_POST_def answer_def adapter_error_def field_or_JStr)
    qed (use True Inr in \<open>auto simp: do_POST_def\<close>)
  qed
qed (simp add: do_POST_def)

section \<open>Acknowledgements accumulate\<close>

definition acked :: "pypath \<Rightarrow> registry \<Rightarrow> string set" where
  "acked state_dir s = (case fst (load_acknowledged state_dir (reg_fs s)) of Inr hs \<Rightarrow> set hs | Inl _ \<Rightarrow> {})"

text \<open>What the file of acknowledgements says depends on that file only.\<close>

lemma read_json_eq: "read_json p f = (bindR (read_bytes f p) (\<lambda>b. bindR (utf8_decode b) json_loads), f)"
  by (simp add: read_json_def read_file_def bindIO_def bindR_def split: sum.split)

lemma load_acknowledged_eq:
  "load_acknowledged d f =
     ((if \<not> path_exists f (ack_file d) then Inr []
       else case fst (read_json (ack_file d) f) of
         Inl (JSONDecodeError _) \<Rightarrow> Inr [] | Inl e \<Rightarrow> Inl e | Inr (JList xs) \<Rightarrow> Inr (str_items xs) | Inr _ \<Rightarrow> Inr []), f)"
proof -
  obtain r where r: "read_json (ack_file d) f = (r, f)" by (simp add: read_json_eq)
  show ?thesis
  proof (cases r)
    case (Inl e)
    then show ?thesis by (cases e) (simp_all add: load_acknowledged_def r)
  next
    case (Inr v)
    then show ?thesis by (cases v) (simp_all add: load_acknowledged_def r)
  qed
qed

lemma load_acknowledged_pure: "load_acknowledged d f = (r, f') \<Longrightarrow> f' = f"
  by (simp add: load_acknowledged_eq)

lemma load_acknowledged_cong:
  assumes "node_at f (ack_file d) = node_at g (ack_file d)"
  shows "fst (load_acknowledged d f) = fst (load_acknowledged d g)"
  using assms unfolding load_acknowledged_eq path_exists_def read_json_eq read_bytes_def by simp

lemma acked_cong: "node_at (reg_fs s) (ack_file d) = node_at (reg_fs t) (ack_file d) \<Longrightarrow> acked d s = acked d t"
  using load_acknowledged_cong [of "reg_fs s" d "reg_fs t"] by (simp add: acked_def)

lemma ack_file_parts: "parts (ack_file d) = parts d @ [''acked.json'']" "anchor (ack_file d) = anchor d"
  by (simp_all add: ack_file_def path_sub_def path_join_def Path_def path_root_def is_absolute_def)

lemma make_dirs_other: "make_dirs ps f = (r, f') \<Longrightarrow> q \<notin> set ps \<Longrightarrow> node_at f' q = node_at f q"
proof (induction ps arbitrary: f)
  case (Cons p ps)
  from Cons.prems(1) show ?case
  proof (cases rule: make_dirs_Cons)
    case (step t)
    then show ?thesis using Cons.IH [of t] Cons.prems(2) by auto
  qed simp
qed simp

lemma mkdir_keeps_ack:
  assumes "mkdir_parents d f = (r, f')"
  shows "node_at f' (ack_file d) = node_at f (ack_file d)"
proof (rule make_dirs_other [OF assms [unfolded mkdir_parents_def]])
  show "ack_file d \<notin> set (path_prefixes d)"
  proof
    assume "ack_file d \<in> set (path_prefixes d)"
    then obtain ps where "ps \<in> set (tl (prefixes (parts d)))" "ack_file d = d\<lparr>parts := ps\<rparr>" by (auto simp: path_prefixes_def)
    then have "prefix ps (parts d)" "ps = parts d @ [''acked.json'']"
      using list.set_sel(2) [of "prefixes (parts d)" ps] ack_file_parts(1) [of d] by auto
    then show False using prefix_length_le by fastforce
  qed
qed

lemma write_dump_other: "write_dump p v f = (r, f') \<Longrightarrow> q \<noteq> p \<Longrightarrow> node_at f' q = node_at f q"
  by (auto simp: write_dump_def write_bytes_def node_at_def split: option.splits fnode.splits if_splits)

lemma write_dump_node:
  assumes "write_dump p v f = (Inr u, f')"
  shows "node_at f' p = Some (FFile (utf8_encode (render pretty_style 0 v)))"
  using write_bytes_ok [OF assms [unfolded write_dump_def]] by (simp add: node_at_update)

lemma read_dump:
  assumes "node_at f p = Some (FFile (utf8_encode (render pretty_style 0 v)))" and "wf_json v"
  shows "read_json p f = (Inr v, f)"
  using assms loads_render [of pretty_style v "[]"] by (simp add: read_json_eq read_bytes_def)

lemma write_dump_ok: "write_dump p v f = (Inr u, f') \<Longrightarrow> wf_json v \<Longrightarrow> read_json p f' = (Inr v, f')"
  by (rule read_dump [OF write_dump_node])

lemma write_dump_exists: "write_dump p v f = (Inr u, f') \<Longrightarrow> path_exists f' p"
  using write_dump_node by (simp add: path_exists_def)

lemma save_acknowledged_loads:
  assumes "save_acknowledged d hs f = (Inr u, f')"
  shows "load_acknowledged d f' = (Inr (remdups (sort hs)), f')"
proof -
  have "read_json (ack_file d) f' = (Inr (JList (map JStr (sort hs))), f')"
    using assms unfolding save_acknowledged_def by (rule write_dump_ok) (simp add: list_all_iff)
  moreover have "path_exists f' (ack_file d)" using assms unfolding save_acknowledged_def by (rule write_dump_exists)
  moreover have "str_items (map JStr xs) = remdups xs" for xs
    unfolding str_items_def by (simp add: comp_def)
  ultimately show ?thesis by (simp add: load_acknowledged_def)
qed

text \<open>A consumer that leaves the acknowledgement file alone.\<close>

definition quiet :: "pypath \<Rightarrow> consumer option \<Rightarrow> bool" where
  "quiet d hook \<longleftrightarrow> (\<forall>h p s r t. hook = Some h \<longrightarrow> h p s = (r, t) \<longrightarrow>
     node_at (reg_fs t) (ack_file d) = node_at (reg_fs s) (ack_file d))"

lemma call_consumer_quiet:
  assumes "quiet d hook" and "call_consumer hook p s = (r, t)"
  shows "node_at (reg_fs t) (ack_file d) = node_at (reg_fs s) (ack_file d)"
proof (cases hook)
  case (Some h)
  obtain q u where hs: "h p s = (q, u)" by fastforce
  then have "t = u" using assms(2) Some by (auto simp: call_consumer_def bindS_def liftS_def split: sum.splits json.splits)
  then show ?thesis using assms(1) hs Some by (auto simp: quiet_def)
qed (use assms in \<open>simp add: call_consumer_def liftS_def\<close>)

lemma receiver_inject_cases:
  assumes "receiver_inject d hook payload s = (r, t)" and "map_of payload ''hash'' = Some (JStr h)" "h \<noteq> []"
  obtains (dir) e where "r = Inl e" "mkdir_parents d (reg_fs s) = (Inl e, reg_fs t)"
    | (staged) f e where "r = Inl e" "mkdir_parents d (reg_fs s) = (Inr (), f)"
        "write_dump (path_sub d (h @ ''.json'')) (JObj payload) f = (Inl e, reg_fs t)"
    | (consumed) f f1 c u where "mkdir_parents d (reg_fs s) = (Inr (), f)"
        "write_dump (path_sub d (h @ ''.json'')) (JObj payload) f = (Inr (), f1)"
        "call_consumer hook payload (s\<lparr>reg_fs := f1\<rparr>) = (c, u)"
        "case c of Inl e \<Rightarrow> r = Inl e \<and> t = u
         | Inr result \<Rightarrow>
             if succeeded result then
               (case load_acknowledged d (reg_fs u) of
                  (Inl e, _) \<Rightarrow> r = Inl e \<and> t = u
                | (Inr hs, _) \<Rightarrow>
                    (case save_acknowledged d (set_add h hs) (reg_fs u) of
                       (Inl e, f2) \<Rightarrow> r = Inl e \<and> t = u\<lparr>reg_fs := f2\<rparr>
                     | (Inr _, f2) \<Rightarrow> r = Inr (JObj result) \<and> t = u\<lparr>reg_fs := f2\<rparr>))
             else r = Inr (JObj result) \<and> t = u"
proof -
  obtain ch cs where h: "h = ch # cs" using assms(3) by (cases h) auto
  note a = assms(1) [unfolded receiver_inject_def field_or_def assms(2) option.case json.case h list.case, folded h]
  obtain r0 f where f: "mkdir_parents d (reg_fs s) = (r0, f)" by fastforce
  show thesis
  proof (cases r0)
    case (Inl e)
    then show thesis using a f by (intro dir) (auto simp: bindS_def on_fs_def)
  next
    case (Inr u0)
    obtain r1 f1 where f1: "write_dump (path_sub d (h @ ''.json'')) (JObj payload) f = (r1, f1)" by fastforce
    show thesis
    proof (cases r1)
      case r1: (Inl e)
      then show thesis using a f f1 Inr by (intro staged) (auto simp: bindS_def on_fs_def)
    next
      case r1: (Inr u1)
      obtain c u where c: "call_consumer hook payload (s\<lparr>reg_fs := f1\<rparr>) = (c, u)" by fastforce
      obtain q where l: "load_acknowledged d (reg_fs u) = (q, reg_fs u)" by (simp add: load_acknowledged_eq)
      show thesis
      proof (rule consumed [of f f1 c u])
        show "case c of Inl e \<Rightarrow> r = Inl e \<and> t = u
         | Inr result \<Rightarrow>
             if succeeded result then
               (case load_acknowledged d (reg_fs u) of
                  (Inl e, _) \<Rightarrow> r = Inl e \<and> t = u
                | (Inr hs, _) \<Rightarrow>
                    (case save_acknowledged d (set_add h hs) (reg_fs u) of
                       (Inl e, f2) \<Rightarrow> r = Inl e \<and> t = u\<lparr>reg_fs := f2\<rparr>
                     | (Inr _, f2) \<Rightarrow> r = Inr (JObj result) \<and> t = u\<lparr>reg_fs := f2\<rparr>))
             else r = Inr (JObj result) \<and> t = u"
          using a f f1 r1 Inr c l by (auto simp: bindS_def on_fs_def liftS_def split: sum.splits prod.splits)
      qed (use f f1 r1 Inr c in auto)
    qed
  qed
qed

lemma receiver_inject_acks:
  assumes "receiver_inject d hook payload s = (r, t)" and h: "map_of payload ''hash'' = Some (JStr h)" "h \<noteq> []"
    and q: "quiet d hook" and ne: "path_sub d (h @ ''.json'') \<noteq> ack_file d"
  shows "acked d s \<subseteq> acked d t" and "r = Inr (JObj result) \<Longrightarrow> succeeded result \<Longrightarrow> h \<in> acked d t"
proof -
  have *: "acked d s \<subseteq> acked d t \<and> (\<forall>result. r = Inr (JObj result) \<longrightarrow> succeeded result \<longrightarrow> h \<in> acked d t)"
    using assms(1) h
  proof (cases rule: receiver_inject_cases)
    case (dir e)
    then show ?thesis using acked_cong [of s d t] mkdir_keeps_ack by auto
  next
    case (staged f e)
    then show ?thesis using acked_cong [of s d t] mkdir_keeps_ack write_dump_other ne by (metis Inl_Inr_False order_refl)
  next
    case (consumed f f1 c u)
    have n: "node_at (reg_fs u) (ack_file d) = node_at (reg_fs s) (ack_file d)"
      using call_consumer_quiet [OF q consumed(3)] mkdir_keeps_ack [OF consumed(1)] write_dump_other [OF consumed(2)] ne by simp
    then have su: "acked d s = acked d u" using acked_cong [of s d u] by simp
    show ?thesis
    proof (cases c)
      case (Inr result)
      show ?thesis
      proof (cases "succeeded result")
        case True
        obtain q1 where l: "load_acknowledged d (reg_fs u) = (q1, reg_fs u)" by (simp add: load_acknowledged_eq)
        show ?thesis
        proof (cases q1)
          case q1: (Inr hs)
          obtain q2 f2 where sv: "save_acknowledged d (set_add h hs) (reg_fs u) = (q2, f2)" by fastforce
          have hs: "acked d u = set hs" by (simp add: acked_def l q1)
          show ?thesis
          proof (cases q2)
            case (Inl e)
            then have "f2 = reg_fs u" using sv by (auto simp: save_acknowledged_def write_dump_def write_bytes_def split: option.splits fnode.splits if_splits)
            then show ?thesis using consumed(4) Inr True l q1 sv Inl su by simp
          next
            case q2: (Inr u2)
            then have "t = u\<lparr>reg_fs := f2\<rparr>" using consumed(4) Inr True l q1 sv by simp
            then have "acked d t = insert h (set hs)" using save_acknowledged_loads [OF sv [unfolded q2]] by (simp add: acked_def)
            then show ?thesis using su hs by auto
          qed
        qed (use consumed(4) Inr True l su in simp)
      qed (use consumed(4) Inr su in simp)
    qed (use consumed(4) su in simp)
  qed
  then show "acked d s \<subseteq> acked d t" "r = Inr (JObj result) \<Longrightarrow> succeeded result \<Longrightarrow> h \<in> acked d t" by auto
qed

text \<open>One request to the receiver whose payload, if it has a hash, is not stored under the name of the
  acknowledgement file.\<close>

inductive receiver_step :: "pypath \<Rightarrow> string option \<Rightarrow> consumer option \<Rightarrow> registry \<Rightarrow> registry \<Rightarrow> bool" for d token hook where
  post: "do_POST d token hook q s = (rep, t) \<Longrightarrow>
    (\<And>payload h. read_request q = Inr payload \<Longrightarrow> map_of payload ''hash'' = Some (JStr h) \<Longrightarrow> path_sub d (h @ ''.json'') \<noteq> ack_file d) \<Longrightarrow>
    receiver_step d token hook s t"

inductive_cases receiver_stepE: "receiver_step d token hook s t"

lemma receiver_verify_quiet:
  assumes "receiver_verify d hook payload s = (r, t)" and "quiet d hook"
  shows "acked d s = acked d t"
proof -
  obtain q where l: "load_acknowledged d (reg_fs s) = (q, reg_fs s)" by (simp add: load_acknowledged_eq)
  obtain c u where c: "call_consumer hook payload s = (c, u)" by fastforce
  have "acked d s = acked d u" using call_consumer_quiet [OF assms(2) c] by (intro acked_cong) simp
  moreover have "t = s \<or> t = u"
    using assms(1) unfolding receiver_verify_def
    by (auto simp: bindS_def on_fs_def liftS_def l c Let_def split: json.splits if_splits sum.splits)
  ultimately show ?thesis by auto
qed

lemma receiver_export_quiet:
  assumes "receiver_export hook payload s = (r, t)" and "quiet d hook"
  shows "acked d s = acked d t"
proof -
  obtain c u where c: "call_consumer hook (dict_update [(''action'', JStr ''export_reverse_runtime_state'')] payload) s = (c, u)" by fastforce
  then have "t = u" using assms(1) by (auto simp: receiver_export_def bindS_def liftS_def split: sum.splits)
  then show ?thesis using call_consumer_quiet [OF assms(2) c] by (intro acked_cong) simp
qed

lemma receiver_step_keeps:
  assumes "receiver_step d token hook s t" and q: "quiet d hook"
  shows "acked d s \<subseteq> acked d t"
proof -
  obtain req rep where 1: "do_POST d token hook req s = (rep, t)"
    "\<And>payload h. read_request req = Inr payload \<Longrightarrow> map_of payload ''hash'' = Some (JStr h) \<Longrightarrow> path_sub d (h @ ''.json'') \<noteq> ack_file d"
    using assms(1) by (rule receiver_stepE) blast
  show ?thesis
  proof (cases "authorized token req")
    case True
    show ?thesis
    proof (cases "read_request req")
      case (Inr payload)
      consider (inj) "url_path req = ''/inject_block''" | (ver) "url_path req = ''/verify_continuation''"
        | (exp) "url_path req = ''/export_reverse_runtime_state''" | (other) "t = s"
        using 1(1) True Inr by (auto simp: do_POST_def split: if_splits)
      then show ?thesis
      proof cases
        case inj
        then obtain r where r: "receiver_inject d hook payload s = (r, t)" using 1(1) True Inr by (auto simp: do_POST_def map_prod_def split: prod.splits)
        show ?thesis
        proof (cases "\<exists>h. map_of payload ''hash'' = Some (JStr h) \<and> h \<noteq> []")
          case True
          then show ?thesis using receiver_inject_acks(1) [OF r _ _ q] 1(2) [OF Inr] by blast
        next
          case False
          then have "t = s" using r by (auto simp: receiver_inject_def liftS_def field_or_def split: json.splits list.splits option.splits)
          then show ?thesis by simp
        qed
      next
        case ver
        then obtain r where "receiver_verify d hook payload s = (r, t)" using 1(1) True Inr by (auto simp: do_POST_def map_prod_def split: prod.splits)
        from receiver_verify_quiet [OF this q] show ?thesis by simp
      next
        case exp
        then obtain r where "receiver_export hook payload s = (r, t)" using 1(1) True Inr by (auto simp: do_POST_def map_prod_def split: prod.splits)
        from receiver_export_quiet [OF this q] show ?thesis by simp
      qed simp
    qed (use 1 True in \<open>simp add: do_POST_def\<close>)
  qed (use 1 in \<open>simp add: do_POST_def\<close>)
qed

interpretation ack_knowledge: growing_knowledge "acked d" "receiver_step d token hook" "\<lambda>_. quiet d hook"
  by unfold_locales (use receiver_step_keeps in blast)+

lemma verify_acked:
  assumes "h \<in> acked d s"
  shows "receiver_verify d None [(''block_hashes'', JList [JStr h])] s = (Inr (JObj [(''success'', JBool True)]), s)"
proof -
  obtain hs where "load_acknowledged d (reg_fs s) = (Inr hs, reg_fs s)" "h \<in> set hs"
    using assms by (auto simp: acked_def load_acknowledged_eq split: sum.splits)
  then show ?thesis
    by (simp add: receiver_verify_def field_or_def bindS_def on_fs_def liftS_def call_consumer_def succeeded_def dict_update_def)
qed

text \<open>An acknowledged block stays acknowledged. Once an injection was answered with a successful result, then
  after any further requests, refused and failing ones included, the continuation check finds its hash;
  provided the consumer leaves the acknowledgement file alone and no block is stored under its name.\<close>

theorem acknowledged_block_stays:
  assumes "receiver_inject d hook payload s = (Inr (JObj result), s1)" and "succeeded result"
    and "map_of payload ''hash'' = Some (JStr h)" "h \<noteq> []"
    and "quiet d hook" and "path_sub d (h @ ''.json'') \<noteq> ack_file d"
    and "(receiver_step d token hook)\<^sup>*\<^sup>* s1 s2"
  shows "receiver_verify d None [(''block_hashes'', JList [JStr h])] s2 = (Inr (JObj [(''success'', JBool True)]), s2)"
  using receiver_inject_acks(2) [OF assms(1,3-6) refl assms(2)] ack_knowledge.steps_keep [OF assms(7,5)]
  by (intro verify_acked) auto

text \<open>The proviso is needed: a block whose hash is \<open>acked\<close> is stored in the acknowledgement file itself, and
  afterwards every earlier acknowledgement is gone.\<close>

theorem block_named_acked_forgets:
  assumes "receiver_inject d None payload s = (Inr r, t)" and "map_of payload ''hash'' = Some (JStr ''acked'')"
    and "wf_json (JObj payload)"
  shows "acked d t = {''acked''}"
proof (cases rule: receiver_inject_cases [OF assms(1,2) list.distinct(2), case_names dir staged consumed])
  case (consumed f f1 c u)
  have p: "path_sub d (''acked'' @ ''.json'') = ack_file d" by (simp add: ack_file_def)
  have c: "c = Inr [(''success'', JBool True)]" "u = s\<lparr>reg_fs := f1\<rparr>"
    using consumed(3) by (simp_all add: call_consumer_def liftS_def)
  have l: "load_acknowledged d f1 = (Inr [], f1)"
    using write_dump_ok [OF consumed(2) assms(3)] unfolding p by (simp add: load_acknowledged_eq)
  obtain u2 f2 where "save_acknowledged d [''acked''] f1 = (Inr u2, f2)" "t = s\<lparr>reg_fs := f2\<rparr>"
    using consumed(4) c l by (cases "save_acknowledged d [''acked''] f1"; cases "fst (save_acknowledged d [''acked''] f1)")
      (auto simp: succeeded_def field_or_def set_add_def)
  then show ?thesis using save_acknowledged_loads [of d "[''acked'']" f1 u2 f2] by (simp add: acked_def)
qed simp_all

definition sample_block :: obj where
  "sample_block = [(''hash'', JStr ''abc''), (''layers'', JList [])]"

lemma receiver_sample:
  "fst (receiver_inject (Path ''/state'') None sample_block disk_registry) = Inr (JObj [(''success'', JBool True)])"
  by code_simp

lemma receiver_sample_acked:
  "fst (receiver_inject (Path ''/state'') None [(''hash'', JStr ''acked'')] disk_registry) = Inr (JObj [(''success'', JBool True)])"
  by code_simp

theorem acknowledged_block_stays_witness:
  "\<exists>s1. receiver_inject (Path ''/state'') None sample_block disk_registry = (Inr (JObj [(''success'', JBool True)]), s1) \<and>
     receiver_verify (Path ''/state'') None [(''block_hashes'', JList [JStr ''abc''])] s1 = (Inr (JObj [(''success'', JBool True)]), s1)"
proof -
  obtain s1 where i: "receiver_inject (Path ''/state'') None sample_block disk_registry = (Inr (JObj [(''success'', JBool True)]), s1)"
    using receiver_sample by (metis prod.collapse)
  have n: "path_sub (Path ''/state'') (''abc'' @ ''.json'') \<noteq> ack_file (Path ''/state'')"
    by (simp add: ack_file_def path_sub_def path_join_def is_absolute_def Path_def path_root_def)
  have "map_of sample_block ''hash'' = Some (JStr ''abc'')" "succeeded [(''success'', JBool True)]" "quiet (Path ''/state'') None"
    by (simp_all add: sample_block_def succeeded_def field_or_def quiet_def)
  then show ?thesis
    using acknowledged_block_stays [OF i _ _ _ _ n rtranclp.rtrancl_refl] i by simp
qed

theorem block_named_acked_forgets_witness:
  "\<exists>r t. receiver_inject (Path ''/state'') None [(''hash'', JStr ''acked'')] disk_registry = (Inr r, t) \<and>
     acked (Path ''/state'') t = {''acked''}"
proof -
  obtain t where i: "receiver_inject (Path ''/state'') None [(''hash'', JStr ''acked'')] disk_registry = (Inr (JObj [(''success'', JBool True)]), t)"
    using receiver_sample_acked by (metis prod.collapse)
  from block_named_acked_forgets [OF i] i show ?thesis by (simp add: dict_keys_ok_def)
qed

section \<open>The worker hands over only checked payloads\<close>

lemma load_object_pure: "load_object p f = (r, f') \<Longrightarrow> f' = f"
  by (auto simp: load_object_def read_json_eq bindIO_def split: sum.splits json.splits)

lemma full_payload_path_pure: "full_payload_path d rd f = (r, f') \<Longrightarrow> f' = f"
  by (auto simp: full_payload_path_def Let_def split: json.splits list.splits if_splits)

lemma bindS_on_fs_pure:
  assumes "\<And>r f'. m (reg_fs s) = (r, f') \<Longrightarrow> f' = reg_fs s"
  shows "bindS (on_fs m) k s = (case fst (m (reg_fs s)) of Inl e \<Rightarrow> (Inl e, s) | Inr x \<Rightarrow> k x s)"
proof -
  obtain r where "m (reg_fs s) = (r, reg_fs s)" using assms by (metis prod.collapse)
  then show ?thesis by (simp add: bindS_def on_fs_def split: sum.split)
qed

definition staged :: "pypath \<Rightarrow> pypath \<Rightarrow> fs \<Rightarrow> obj \<Rightarrow> obj \<Rightarrow> bool" where
  "staged d ready f rd full \<longleftrightarrow>
     (\<exists>p. load_object ready f = (Inr rd, f) \<and> full_payload_path d rd f = (Inr p, f) \<and> load_object p f = (Inr full, f))"

lemma consume_one_eq:
  "consume_one now d ready hook s =
     (case fst (load_object ready (reg_fs s)) of Inl e \<Rightarrow> (Inl e, s) | Inr rd \<Rightarrow>
      case fst (full_payload_path d rd (reg_fs s)) of Inl e \<Rightarrow> (Inl e, s) | Inr p \<Rightarrow>
      case fst (load_object p (reg_fs s)) of Inl e \<Rightarrow> (Inl e, s) | Inr full \<Rightarrow>
      case span_validation full of Inl e \<Rightarrow> (Inl e, s) | Inr v \<Rightarrow>
        bindS (hook full) (finish_one now ready rd v) s)"
  unfolding consume_one_def
  by (simp add: bindS_on_fs_pure load_object_pure full_payload_path_pure cong: sum.case_cong)
    (simp add: bindS_def liftS_def split: sum.split)

lemma consume_one_cases:
  assumes "consume_one now d ready hook s = (r, t)"
  obtains (refused) e where "r = Inl e" "t = s"
    | (handed) rd full v where "staged d ready (reg_fs s) rd full" "span_validation full = Inr v"
        "bindS (hook full) (finish_one now ready rd v) s = (r, t)"
proof -
  have st: "load_object p f = (q, f)" if "fst (load_object p f) = q" for p f q
    using that load_object_pure by (metis prod.collapse)
  have sp: "full_payload_path d rd f = (q, f)" if "fst (full_payload_path d rd f) = q" for rd f q
    using that full_payload_path_pure by (metis prod.collapse)
  show thesis
  proof (cases "\<exists>rd p full v. fst (load_object ready (reg_fs s)) = Inr rd \<and> fst (full_payload_path d rd (reg_fs s)) = Inr p \<and>
      fst (load_object p (reg_fs s)) = Inr full \<and> span_validation full = Inr v")
    case True
    then obtain rd p full v where c: "fst (load_object ready (reg_fs s)) = Inr rd" "fst (full_payload_path d rd (reg_fs s)) = Inr p"
      "fst (load_object p (reg_fs s)) = Inr full" "span_validation full = Inr v" by blast
    show thesis
    proof (rule handed)
      show "staged d ready (reg_fs s) rd full" unfolding staged_def using st [OF c(1)] sp [OF c(2)] st [OF c(3)] by blast
      show "bindS (hook full) (finish_one now ready rd v) s = (r, t)" using assms by (simp add: consume_one_eq c)
    qed (rule c(4))
  next
    case False
    then have "\<exists>e. r = Inl e \<and> t = s" using assms unfolding consume_one_eq by (auto split: sum.splits) metis+
    then show thesis using refused by blast
  qed
qed

text \<open>When the worker reports a payload as processed, or changes anything, that payload was staged under the
  ready descriptor's hash, and its span metadata, if it carries any, has been validated against the
  payload's own target prompt; the verdict is part of the result.\<close>

theorem worker_checks_metadata:
  assumes "consume_one now d ready hook s = (r, t)" and "t \<noteq> s \<or> (\<exists>res. r = Inr res)"
  shows "\<exists>rd full v. staged d ready (reg_fs s) rd full \<and> span_validation full = Inr v \<and>
    (\<forall>m res. map_of full ''agent_graph_span_metadata'' = Some m \<longrightarrow> r = Inr res \<longrightarrow>
       (\<exists>tv w. target_prompt_view full = Inr tv \<and> validate_prompt_span_metadata m tv = Inr w \<and>
          map_of res ''agent_graph_span_validation'' = Some w))"
  using assms(1)
proof (cases rule: consume_one_cases)
  case (handed rd full v)
  have "\<exists>tv w. target_prompt_view full = Inr tv \<and> validate_prompt_span_metadata m tv = Inr w \<and>
          map_of res ''agent_graph_span_validation'' = Some w"
    if m: "map_of full ''agent_graph_span_metadata'' = Some m" and res: "r = Inr res" for m res
  proof -
    obtain w where w: "v = Some w" "wrap_span_error (bindR (target_prompt_view full) (validate_prompt_span_metadata m)) = Inr w"
      using handed(2) m by (auto simp: span_validation_def bindR_eq_Inr)
    then have "bindR (target_prompt_view full) (validate_prompt_span_metadata m) = Inr w"
      by (auto simp: wrap_span_error_def adapter_error_def split: sum.splits py_error.splits)
    moreover have "map_of res ''agent_graph_span_validation'' = Some w"
      using handed(3) res w(1) unfolding finish_one_def Let_def
      by (auto simp: bindS_def liftS_def split: sum.splits prod.splits json.splits)
    ultimately show ?thesis by (auto simp: bindR_eq_Inr)
  qed
  with handed(1,2) show ?thesis by blast
qed (use assms(2) in auto)




section \<open>A pass leaves nothing to do\<close>

text \<open>A hook that removes no file.\<close>

definition keeps_files :: "consumer \<Rightarrow> bool" where
  "keeps_files hook \<longleftrightarrow> (\<forall>p s r t q. hook p s = (r, t) \<longrightarrow> path_exists (reg_fs s) q \<longrightarrow> path_exists (reg_fs t) q)"

lemma write_dump_keeps: "write_dump p v f = (r, f') \<Longrightarrow> path_exists f q \<Longrightarrow> path_exists f' q"
  by (auto simp: write_dump_def write_bytes_def path_exists_def node_at_def split: option.splits fnode.splits if_splits)

lemma finish_one_cases:
  assumes "finish_one now ready rd v x u = (r, t)"
  obtains (refused) e where "r = Inl e" "t = u"
    | (recorded) h w f g where "record_processed now ready h w (reg_fs u) = (f, g)" "t = u\<lparr>reg_fs := g\<rparr>"
        "r = bindR f (\<lambda>_. Inr w)"
proof -
  define d where "d = (case x of JNull \<Rightarrow> Inr [(''success'', JBool True)] | JObj d \<Rightarrow> Inr d
    | _ \<Rightarrow> adapter_error ''runtime hook must return a dict or None'')"
  note eq = assms [unfolded finish_one_def Let_def bindS_liftS, folded d_def]
  show thesis
  proof (cases d)
    case (Inr y)
    let ?w = "case v of Some v \<Rightarrow> dict_set ''agent_graph_span_validation'' v y | None \<Rightarrow> y"
    show thesis
    proof (cases "py_item (JObj rd) ''hash''")
      case h: (Inr h)
      obtain f g where fg: "record_processed now ready h ?w (reg_fs u) = (f, g)" by fastforce
      show thesis
        by (rule recorded [OF fg]; use eq Inr h fg in \<open>cases f; simp add: bindS_def on_fs_def liftS_def del: py_item_JObj\<close>)
    qed (use eq Inr refused in \<open>auto simp del: py_item_JObj\<close>)
  qed (use eq refused in auto)
qed

lemma finish_one_files:
  assumes "finish_one now ready rd v x u = (r, t)"
  shows "path_exists (reg_fs u) q \<Longrightarrow> path_exists (reg_fs t) q" and "r = Inr res \<Longrightarrow> path_exists (reg_fs t) (marker_path ready)"
proof -
  from assms have "(path_exists (reg_fs u) q \<longrightarrow> path_exists (reg_fs t) q) \<and> (r = Inr res \<longrightarrow> path_exists (reg_fs t) (marker_path ready))"
  proof (cases rule: finish_one_cases)
    case (recorded h w f g)
    then show ?thesis
      using write_dump_keeps [OF recorded(1) [unfolded record_processed_def]] write_dump_exists [of "marker_path ready"]
      by (auto simp: record_processed_def bindR_eq_Inr)
  qed auto
  then show "path_exists (reg_fs u) q \<Longrightarrow> path_exists (reg_fs t) q" "r = Inr res \<Longrightarrow> path_exists (reg_fs t) (marker_path ready)" by auto
qed

lemma consume_one_files:
  assumes "consume_one now d ready hook s = (r, t)" and "keeps_files hook"
  shows "path_exists (reg_fs s) q \<Longrightarrow> path_exists (reg_fs t) q" and "r = Inr res \<Longrightarrow> path_exists (reg_fs t) (marker_path ready)"
proof -
  have "(path_exists (reg_fs s) q \<longrightarrow> path_exists (reg_fs t) q) \<and> (r = Inr res \<longrightarrow> path_exists (reg_fs t) (marker_path ready))"
    using assms(1)
  proof (cases rule: consume_one_cases)
    case (handed rd full v)
    obtain x u where h: "hook full s = (x, u)" by fastforce
    then have k: "path_exists (reg_fs s) q \<Longrightarrow> path_exists (reg_fs u) q" using assms(2) by (auto simp: keeps_files_def)
    show ?thesis
    proof (cases x)
      case (Inr y)
      then have "finish_one now ready rd v y u = (r, t)" using handed(3) h by (simp add: bindS_def)
      from finish_one_files [OF this] k show ?thesis by blast
    qed (use handed(3) h k in \<open>auto simp: bindS_def\<close>)
  qed auto
  then show "path_exists (reg_fs s) q \<Longrightarrow> path_exists (reg_fs t) q" "r = Inr res \<Longrightarrow> path_exists (reg_fs t) (marker_path ready)" by auto
qed

lemma run_once_files:
  assumes "run_once now d hook names s = (Inr n, t)" and "keeps_files hook"
  shows "(\<forall>q. path_exists (reg_fs s) q \<longrightarrow> path_exists (reg_fs t) q) \<and>
    (\<forall>name\<in>set names. path_exists (reg_fs t) (marker_path (entry_of d name)))"
  using assms(1)
proof (induction names arbitrary: s n)
  case (Cons name names)
  show ?case
  proof (cases "path_exists (reg_fs s) (marker_path (entry_of d name))")
    case True
    then show ?thesis using Cons.IH [of s n] Cons.prems by auto
  next
    case False
    then obtain res u m where c: "consume_one now d (entry_of d name) hook s = (Inr res, u)" "run_once now d hook names u = (Inr m, t)"
      using Cons.prems by (auto simp: bindS_def liftS_def split: prod.splits sum.splits)
    show ?thesis using consume_one_files [OF c(1) assms(2)] Cons.IH [OF c(2)] by auto
  qed
qed simp

lemma run_once_done:
  "(\<And>name. name \<in> set names \<Longrightarrow> path_exists (reg_fs s) (marker_path (entry_of d name))) \<Longrightarrow> run_once now d hook names s = (Inr 0, s)"
  by (induction names) auto

text \<open>Each descriptor is processed once: after a pass that did not fail, every descriptor it saw has its marker,
  so a second pass over the same directory processes nothing and calls no hook.\<close>

theorem second_pass_idle:
  assumes "run_once now d hook names s = (Inr n, t)" and "keeps_files hook"
  shows "(\<forall>name\<in>set names. path_exists (reg_fs t) (marker_path (entry_of d name))) \<and>
    run_once now' d hook' names t = (Inr 0, t)"
  using run_once_files [OF assms] by (auto intro: run_once_done)

section \<open>From the receiver to the runtime\<close>

lemma layer_record_wf:
  assumes "wf_json layer" and "layer_record h layer = Inr r"
  shows "wf_json r"
proof -
  obtain d where d: "layer = JObj d" using assms(2) by (cases layer) (auto simp: layer_record_def)
  have f: "wf_json (field_or d k v)" if "wf_json v" for k v using wf_field_or [OF assms(1) [unfolded d] that] .
  have t: "tensor_summary d part = [] \<or> (\<exists>a b. wf_json a \<and> wf_json b \<and>
      tensor_summary d part = [(part @ ''_tensor_name'', a), (part @ ''_tensor_shape'', b)])" for part
  proof (cases "field_or d (part @ ''_tensor'') JNull")
    case (JObj t)
    then have "wf_json (JObj t)" using f [of JNull "part @ ''_tensor''"] by simp
    from wf_field_or [OF this] show ?thesis by (simp add: tensor_summary_def JObj)
  qed (simp_all add: tensor_summary_def)
  show ?thesis
    using assms(2) f t [of "''key''"] t [of "''value''"]
    by (auto simp: layer_record_def d dict_keys_ok_def)
qed

lemma consumed_staged:
  assumes c: "consume (Some dir) payload f = (Inr res, f')" and dir: "dir \<noteq> []" and wf: "wf_json (JObj payload)"
    and h: "map_of payload ''hash'' = Some (JStr h)" "h \<noteq> []" "CHR ''/'' \<notin> set h"
  shows "res = JObj [(''success'', JBool True)] \<and> (\<exists>rd. map_of rd ''hash'' = Some (JStr h) \<and> wf_json (JObj rd) \<and>
    node_at f' (entry_of (Path dir) (h @ ''.ready.json'')) = Some (FFile (utf8_encode (render pretty_style 0 (JObj rd)))) \<and>
    node_at f' (entry_of (Path dir) (h @ ''.json'')) = Some (FFile (utf8_encode (render pretty_style 0 (JObj payload)))))"
proof -
  obtain c1 cs where h': "h = c1 # cs" using h(2) by (cases h) auto
  obtain e es where d': "dir = e # es" using dir by (cases dir) auto
  have e: "path_sub (Path dir) (h @ ''.json'') = entry_of (Path dir) (h @ ''.json'')"
    "path_sub (Path dir) (h @ ''.ready.json'') = entry_of (Path dir) (h @ ''.ready.json'')"
    using h by (intro plain_entry; auto simp: h')+
  obtain f0 ls rs f1 u1 u2 where ls: "py_iter (field_or payload ''layers'' (JList [])) = Inr ls" "mapR (layer_record h) ls = Inr rs"
    and w1: "write_dump (entry_of (Path dir) (h @ ''.json'')) (JObj payload) f0 = (Inr u1, f1)"
    and w2: "write_dump (entry_of (Path dir) (h @ ''.ready.json''))
       (JObj [(''hash'', JStr h), (''block_size'', field_or payload ''block_size'' JNull),
         (''layer_count'', field_or payload ''layer_count'' JNull), (''layers'', JList rs)]) f1 = (Inr u2, f')"
    and res: "res = JObj [(''success'', JBool True)]"
    using c h(1) unfolding consume_def field_or_def [of payload "''hash''"] h' d'
    by (auto simp: bindIO_eq_Inr bindR_eq_Inr e [unfolded h' d', simplified])
  have lw: "list_all wf_json ls"
    using wf_field_or [OF wf, of "JList []" "''layers''"] ls(1)
    by (cases "field_or payload ''layers'' (JList [])") (auto simp: py_iter_def list_all_iff)
  have "wf_json r" if "r \<in> set rs" for r
    using mapR_source [OF ls(2) that] lw layer_record_wf by (auto simp: list_all_iff)
  then have "wf_json (JObj [(''hash'', JStr h), (''block_size'', field_or payload ''block_size'' JNull),
         (''layer_count'', field_or payload ''layer_count'' JNull), (''layers'', JList rs)])"
    using wf_field_or [OF wf, of JNull] by (simp add: dict_keys_ok_def list_all_iff)
  moreover have "entry_of (Path dir) (h @ ''.json'') \<noteq> entry_of (Path dir) (h @ ''.ready.json'')"
    by (auto simp: entry_of_def dest!: arg_cong [where f = parts])
  ultimately show ?thesis
    using res write_dump_node [OF w1] write_dump_node [OF w2] write_dump_other [OF w2]
    by (intro conjI exI [of _ "[(''hash'', JStr h), (''block_size'', field_or payload ''block_size'' JNull),
         (''layer_count'', field_or payload ''layer_count'' JNull), (''layers'', JList rs)]"]) auto
qed

text \<open>C10: The spool carries payloads unchanged. A block that the receiver accepted through the directory consumer, and whose
  hash has no slash and is not \<open>acked\<close>, is what the import worker validates and hands to the runtime hook: the very
  payload of the request, after its trip through the staged files, whatever happened to the acknowledgement
  file. The staged file of a hash with a slash is in another directory than the worker's, and that of \<open>acked\<close> can be the
  acknowledgement file itself.\<close>

theorem spool_delivers_payload:
  assumes inj: "receiver_inject sd (Some (\<lambda>p. on_fs (consume (Some dir) p))) payload s = (Inr r, t)"
    and wf: "wf_json (JObj payload)" and dir: "dir \<noteq> []"
    and h: "map_of payload ''hash'' = Some (JStr h)" "h \<noteq> []" "CHR ''/'' \<notin> set h" "h \<noteq> ''acked''"
  shows "\<exists>rd. map_of rd ''hash'' = Some (JStr h) \<and>
    consume_one now (Path dir) (entry_of (Path dir) (h @ ''.ready.json'')) hook t =
      bindS (liftS (span_validation payload)) (\<lambda>v.
      bindS (hook payload) (finish_one now (entry_of (Path dir) (h @ ''.ready.json'')) rd v)) t"
proof (cases rule: receiver_inject_cases [OF inj h(1,2), case_names dir staged consumed])
  case (consumed f f1 c u)
  obtain res f2 where cs: "consume (Some dir) payload f1 = (Inr res, f2)" and u: "u = s\<lparr>reg_fs := f2\<rparr>" and c: "\<exists>d. c = Inr d"
    using consumed(3,4) by (cases "consume (Some dir) payload f1"; cases "fst (consume (Some dir) payload f1)")
      (auto simp: call_consumer_def bindS_def on_fs_def liftS_def adapter_error_def split: json.splits)
  let ?n = "entry_of (Path dir) (h @ ''.ready.json'')" and ?p = "entry_of (Path dir) (h @ ''.json'')"
  obtain rd where rd: "map_of rd ''hash'' = Some (JStr h)" "wf_json (JObj rd)"
      "node_at f2 ?n = Some (FFile (utf8_encode (render pretty_style 0 (JObj rd))))"
      "node_at f2 ?p = Some (FFile (utf8_encode (render pretty_style 0 (JObj payload))))"
    using consumed_staged [OF cs dir wf h(1-3)] by blast
  have ne: "?n \<noteq> ack_file sd" "?p \<noteq> ack_file sd"
    using h(4) ack_file_parts [of sd] by (auto simp: entry_of_def dest!: arg_cong [where f = parts])
  have keep: "node_at (reg_fs t) q = node_at f2 q" if q: "q \<noteq> ack_file sd" for q
  proof -
    obtain d where d: "c = Inr d" using c by blast
    show ?thesis
    proof (cases "succeeded d")
      case True
      with consumed(4) d u obtain hs f3 x f4 where "load_acknowledged sd f2 = (Inr hs, f3)"
        "save_acknowledged sd (set_add h hs) f2 = (x, f4)" "t = s\<lparr>reg_fs := f4\<rparr>"
        by (cases "load_acknowledged sd f2"; cases "fst (load_acknowledged sd f2)")
          (auto split: prod.splits sum.splits)
      then show ?thesis using write_dump_other [of "ack_file sd" _ f2 x f4 q] q by (auto simp: save_acknowledged_def)
    qed (use consumed(4) d u in simp)
  qed
  note r1 = read_dump [OF _ rd(2)] and r2 = read_dump [OF _ wf]
  have l: "load_object ?n (reg_fs t) = (Inr rd, reg_fs t)" "load_object ?p (reg_fs t) = (Inr payload, reg_fs t)"
    using keep [OF ne(1)] keep [OF ne(2)] rd(3,4) r1 [of "reg_fs t" ?n] r2 [of "reg_fs t" ?p] by (simp_all add: load_object_def bindIO_def)
  obtain c1 cs1 where h': "h = c1 # cs1" using h(2) by (cases h) auto
  have "path_sub (Path dir) (h @ ''.json'') = ?p" using h by (intro plain_entry) (auto simp: h')
  moreover have "path_exists (reg_fs t) ?p" using keep [OF ne(2)] rd(4) by (simp add: path_exists_def)
  ultimately have p: "full_payload_path (Path dir) rd (reg_fs t) = (Inr ?p, reg_fs t)"
    using rd(1) unfolding h' by (simp add: full_payload_path_def field_or_def)
  show ?thesis
    using rd(1) by (intro exI [of _ rd]) (simp add: consume_one_eq l p bindS_def liftS_def split: sum.split)
qed simp_all

section \<open>A payload on the spool\<close>

text \<open>A payload with span metadata, staged by hand with its descriptor, and a hook that accepts it.\<close>

definition accept_all :: consumer where
  "accept_all payload s = (Inr JNull, s)"

definition sample_descriptor :: obj where
  "sample_descriptor = [(''hash'', JStr ''abc''), (''layer_count'', JInt 0)]"

definition sample_full :: "json \<Rightarrow> obj" where
  "sample_full m =
     [(''hash'', JStr ''abc''),
      (''target_prompt'', JObj [(''text'', JStr ''hi''), (''token_ids'', JList [JInt 104, JInt 105]), (''tokenizer_hash'', JStr (sha256_bytes []))]),
      (''agent_graph_span_metadata'', m)]"

definition spool_dir :: pypath where
  "spool_dir = \<lparr>anchor = ''/'', parts = [''state'']\<rparr>"

definition sample_ready :: pypath where
  "sample_ready = entry_of spool_dir ''abc.ready.json''"

definition sample_spool :: "json \<Rightarrow> registry" where
  "sample_spool m = disk_registry\<lparr>reg_fs := [spool_dir \<mapsto> FDir,
     sample_ready \<mapsto> FFile (utf8_encode (render pretty_style 0 (JObj sample_descriptor))),
     entry_of spool_dir ''abc.json'' \<mapsto> FFile (utf8_encode (render pretty_style 0 (JObj (sample_full m))))]\<rparr>"

lemma sample_span_wf: "sample_span = Inr m \<Longrightarrow> wf_json m"
  unfolding sample_span_def
  by (subst (asm) build_default)
    (simp_all add: nonempty_str_def tokens_in_range_def, auto simp: span_metadata_def dict_keys_ok_def)

lemma sample_staged:
  assumes "sample_span = Inr m"
  shows "staged spool_dir sample_ready (reg_fs (sample_spool m)) sample_descriptor (sample_full m)"
proof -
  let ?f = "reg_fs (sample_spool m)" and ?p = "entry_of spool_dir ''abc.json''"
  have wf: "wf_json (JObj sample_descriptor)" "wf_json (JObj (sample_full m))"
    using sample_span_wf [OF assms] by (auto simp: sample_descriptor_def sample_full_def dict_keys_ok_def)
  have nodes: "node_at ?f sample_ready = Some (FFile (utf8_encode (render pretty_style 0 (JObj sample_descriptor))))"
    "node_at ?f ?p = Some (FFile (utf8_encode (render pretty_style 0 (JObj (sample_full m)))))"
    by (simp_all add: sample_spool_def node_at_def sample_ready_def entry_of_def spool_dir_def)
  have p: "path_sub spool_dir ''abc.json'' = ?p" by (rule plain_entry) simp_all
  have "load_object sample_ready ?f = (Inr sample_descriptor, ?f)" "load_object ?p ?f = (Inr (sample_full m), ?f)"
    using read_dump [OF nodes(1) wf(1)] read_dump [OF nodes(2) wf(2)] by (simp_all add: load_object_def bindIO_def)
  moreover have "full_payload_path spool_dir sample_descriptor ?f = (Inr ?p, ?f)"
    using p nodes(2) by (simp add: full_payload_path_def sample_descriptor_def field_or_def path_exists_def)
  ultimately show ?thesis unfolding staged_def by blast
qed

lemma sample_validation:
  assumes "sample_span = Inr m"
  shows "\<exists>w. span_validation (sample_full m) = Inr (Some w)"
proof -
  have "target_prompt_view (sample_full m) = Inr sample_target"
    by (simp add: target_prompt_view_def sample_full_def field_or_def or_else_def tokenization_field_def Let_def sample_target_def)
  moreover obtain v where "validate_prompt_span_metadata m sample_target = Inr v"
    using build_validates [OF assms [unfolded sample_span_def]] by (auto simp: sample_target_def)
  ultimately show ?thesis by (simp add: span_validation_def sample_full_def wrap_span_error_def)
qed

lemma consume_staged:
  assumes "staged d ready (reg_fs s) rd full" and "span_validation full = Inr v"
  shows "consume_one now d ready hook s = bindS (hook full) (finish_one now ready rd v) s"
  using assms by (auto simp: consume_one_eq staged_def)

lemma sample_processed:
  assumes "sample_span = Inr m"
  shows "\<exists>res t. consume_one (JInt 0) spool_dir sample_ready accept_all (sample_spool m) = (Inr res, t)"
proof -
  obtain w where w: "span_validation (sample_full m) = Inr (Some w)" using sample_validation [OF assms] by blast
  have "\<exists>f. write_dump (marker_path sample_ready) v (reg_fs (sample_spool m)) = (Inr (), f)" for v
    by (simp add: write_dump_def write_bytes_def marker_path_def sample_ready_def entry_of_def spool_dir_def sample_spool_def
        node_at_def path_parent_def path_name_def)
  then obtain f where f: "record_processed (JInt 0) sample_ready (JStr ''abc'')
      (dict_set ''agent_graph_span_validation'' w [(''success'', JBool True)]) (reg_fs (sample_spool m)) = (Inr (), f)"
    unfolding record_processed_def by blast
  show ?thesis
    unfolding consume_staged [OF sample_staged [OF assms] w]
    using f by (simp add: bindS_def accept_all_def finish_one_def Let_def liftS_def on_fs_def sample_descriptor_def)
qed

theorem worker_checks_metadata_witness:
  "\<exists>m res t v. sample_span = Inr m \<and> consume_one (JInt 0) spool_dir sample_ready accept_all (sample_spool m) = (Inr res, t) \<and>
     map_of res ''agent_graph_span_validation'' = Some v"
proof -
  obtain m where m: "sample_span = Inr m" using sample_span_built by blast
  obtain res t where c: "consume_one (JInt 0) spool_dir sample_ready accept_all (sample_spool m) = (Inr res, t)"
    using sample_processed [OF m] by blast
  from worker_checks_metadata [OF c] obtain rd full where full: "staged spool_dir sample_ready (reg_fs (sample_spool m)) rd full"
    "\<And>m'. map_of full ''agent_graph_span_metadata'' = Some m' \<Longrightarrow> \<exists>w. map_of res ''agent_graph_span_validation'' = Some w" by blast
  have "full = sample_full m" using full(1) sample_staged [OF m] by (auto simp: staged_def)
  with full(2) [of m] m c show ?thesis by (auto simp: sample_full_def)
qed


theorem second_pass_idle_witness:
  "\<exists>m n t. sample_span = Inr m \<and> run_once (JInt 0) spool_dir accept_all [''abc.ready.json''] (sample_spool m) = (Inr n, t) \<and>
     run_once (JInt 1) spool_dir accept_all [''abc.ready.json''] t = (Inr 0, t)"
proof -
  obtain m where m: "sample_span = Inr m" using sample_span_built by blast
  obtain res t where c: "consume_one (JInt 0) spool_dir sample_ready accept_all (sample_spool m) = (Inr res, t)"
    using sample_processed [OF m] by blast
  have "\<not> path_exists (reg_fs (sample_spool m)) (marker_path sample_ready)"
    by (simp add: path_exists_def node_at_def sample_spool_def marker_path_def sample_ready_def entry_of_def spool_dir_def path_name_def
        disk_registry_def)
  then have r: "run_once (JInt 0) spool_dir accept_all [''abc.ready.json''] (sample_spool m) = (Inr 1, t)"
    using c by (simp add: sample_ready_def bindS_def liftS_def)
  have "keeps_files accept_all" by (simp add: keeps_files_def accept_all_def)
  from second_pass_idle [OF r this] m r show ?thesis by blast
qed

lemma spooled_sample:
  "fst (receiver_inject (Path ''/state'') (Some (\<lambda>p. on_fs (consume (Some ''/state'') p))) sample_block disk_registry) =
     Inr (JObj [(''success'', JBool True)])"
  by code_simp

theorem spool_delivers_payload_witness:
  "\<exists>t rd. receiver_inject (Path ''/state'') (Some (\<lambda>p. on_fs (consume (Some ''/state'') p))) sample_block disk_registry =
       (Inr (JObj [(''success'', JBool True)]), t) \<and>
     consume_one (JInt 0) (Path ''/state'') (entry_of (Path ''/state'') (''abc'' @ ''.ready.json'')) accept_all t =
       bindS (liftS (span_validation sample_block)) (\<lambda>v.
       bindS (accept_all sample_block) (finish_one (JInt 0) (entry_of (Path ''/state'') (''abc'' @ ''.ready.json'')) rd v)) t"
proof -
  obtain t where i: "receiver_inject (Path ''/state'') (Some (\<lambda>p. on_fs (consume (Some ''/state'') p))) sample_block disk_registry =
      (Inr (JObj [(''success'', JBool True)]), t)"
    using spooled_sample by (metis prod.collapse)
  have h: "wf_json (JObj sample_block)" "map_of sample_block ''hash'' = Some (JStr ''abc'')"
    by (simp_all add: sample_block_def dict_keys_ok_def)
  from spool_delivers_payload [OF i h(1) _ h(2), of "JInt 0" accept_all] i show ?thesis by auto
qed

end
