(* ===== verification/WsTransport.thy ===== *)
theory WsTransport
  imports Sha256
begin

unbundle bit_operations_syntax

text \<open>
  The byte framing of \<^verbatim>\<open>adapters/production_transport_proxy.py\<close>. The reading end of a socket is the list of
  the byte strings that its \<open>recv\<close> calls find, in order: a call returns at most as many bytes as it asks
  for from the first of them and the empty string when none is left, so every way the network may cut or
  join a stream is one such list. The writing end is the concatenation of what was sent. Random masking
  keys are an argument. The TLS contexts, the listeners and the threads are not represented.
\<close>

section \<open>Sockets\<close>

type_synonym segments = "bytes list"

definition sock_recv :: "nat \<Rightarrow> segments \<Rightarrow> bytes \<times> segments" where
  "sock_recv n segs =
     (case segs of
        [] \<Rightarrow> ([], [])
      | seg # rest \<Rightarrow> (take n seg, if n < length seg then drop n seg # rest else rest))"

function recv_exact :: "nat \<Rightarrow> (segments, bytes) st" where
  "recv_exact remaining segs =
     (if remaining = 0 then (Inr [], segs)
      else
        (case sock_recv remaining segs of (chunk, rest) \<Rightarrow>
          if chunk = [] then (Inl (EOFError ''socket closed while reading''), rest)
          else
            (case recv_exact (remaining - length chunk) rest of
               (Inl e, s) \<Rightarrow> (Inl e, s)
             | (Inr tail, s) \<Rightarrow> (Inr (chunk @ tail), s))))"
  by pat_completeness auto
termination
  by (relation "measure fst") (auto simp: sock_recv_def split: list.splits if_splits)

declare recv_exact.simps [simp del]

section \<open>Frames\<close>

text \<open>\<open>struct.pack("!H", n)\<close> and \<open>struct.pack("!Q", n)\<close>.\<close>

definition pack_be :: "nat \<Rightarrow> nat \<Rightarrow> bytes res" where
  "pack_be width n =
     (if n < 256 ^ width then Inr (be_bytes width n) else Inl (StructError ''argument out of range''))"

definition byte :: "nat \<Rightarrow> char" where
  "byte n = char_of n"

definition xor_mask :: "bytes \<Rightarrow> bytes \<Rightarrow> bytes" where
  "xor_mask masking_key payload =
     map (\<lambda>(index, b). char_of ((of_char b :: nat) XOR of_char (masking_key ! (index mod 4)))) (enumerate 0 payload)"

definition frame_length :: "bool \<Rightarrow> nat \<Rightarrow> bytes res" where
  "frame_length msk len =
     (let mask_bit = (if msk then 0x80 else 0) in
      if len < 126 then Inr [byte (mask_bit OR len)]
      else if len \<le> 0xFFFF then bindR (pack_be 2 len) (\<lambda>b. Inr (byte (mask_bit OR 126) # b))
      else bindR (pack_be 8 len) (\<lambda>b. Inr (byte (mask_bit OR 127) # b)))"

definition send_ws_frame :: "bytes \<Rightarrow> bytes \<Rightarrow> bool \<Rightarrow> bytes res" where
  "send_ws_frame urandom payload msk =
     bindR (frame_length msk (length payload)) (\<lambda>len.
       Inr (byte 0x82 # len @ (if msk then urandom @ xor_mask urandom payload else payload)))"

definition extended_length :: "nat \<Rightarrow> (segments, nat) st" where
  "extended_length len =
     (if len = 126 then bindS (recv_exact 2) (\<lambda>b. liftS (Inr (be_val b)))
      else if len = 127 then bindS (recv_exact 8) (\<lambda>b. liftS (Inr (be_val b)))
      else liftS (Inr len))"

definition recv_ws_frame :: "bool \<Rightarrow> (segments, bytes) st" where
  "recv_ws_frame expect_masked =
     bindS (recv_exact 2) (\<lambda>head.
     let first = of_char (head ! 0) :: nat;
         second = of_char (head ! 1) :: nat;
         opcode = first AND 0x0F;
         masked = (second AND 0x80 \<noteq> 0)
     in if opcode = 0x8 then liftS (Inl (EOFError ''WebSocket close frame received''))
        else if opcode \<noteq> 0x2 then liftS (Inl (ValueError (''unsupported WebSocket opcode: '' @ nat_str opcode)))
        else if masked \<noteq> expect_masked then liftS (Inl (ValueError ''unexpected WebSocket mask state''))
        else
          bindS (extended_length (second AND 0x7F)) (\<lambda>len.
          bindS (if masked then recv_exact 4 else liftS (Inr [])) (\<lambda>masking_key.
          bindS (recv_exact len) (\<lambda>payload.
            liftS (Inr (if masked then xor_mask masking_key payload else payload))))))"

section \<open>Pipes\<close>

text \<open>The pipe from the local stream: one frame per chunk, with the masking keys in the order they are drawn.
  The outcome is the bytes sent and the exception that ended the loop, if any.\<close>

definition BUFFER_SIZE :: nat where
  "BUFFER_SIZE = 64 * 1024"

function pipe_tcp_to_ws :: "(nat \<Rightarrow> bytes) \<Rightarrow> bool \<Rightarrow> segments \<Rightarrow> bytes \<times> py_error option" where
  "pipe_tcp_to_ws keys msk source =
     (case sock_recv BUFFER_SIZE source of (chunk, rest) \<Rightarrow>
        if chunk = [] then ([], None)
        else
          (case send_ws_frame (keys 0) chunk msk of
             Inl e \<Rightarrow> ([], Some e)
           | Inr frame \<Rightarrow>
               (case pipe_tcp_to_ws (\<lambda>i. keys (Suc i)) msk rest of (out, e) \<Rightarrow> (frame @ out, e))))"
  by pat_completeness auto
termination
  by (relation "measure (\<lambda>(_, _, s). length (concat s))")
    (auto simp: sock_recv_def split: list.splits if_splits)

declare pipe_tcp_to_ws.simps [simp del]

text \<open>The pipe towards the local stream ends with the exception that a frame raises: every frame consumes
  at least its two header bytes.\<close>

lemma recv_exact_ok:
  "recv_exact n segs = (Inr b, rest) \<Longrightarrow> length b = n \<and> concat segs = b @ concat rest"
proof (induction n segs arbitrary: b rest rule: recv_exact.induct)
  case (1 n segs)
  show ?case
  proof (cases "n = 0")
    case False
    obtain chunk segs1 where c: "sock_recv n segs = (chunk, segs1)" by fastforce
    obtain b' where r: "chunk \<noteq> []" "recv_exact (n - length chunk) segs1 = (Inr b', rest)" "b = chunk @ b'"
      using "1.prems" False c by (subst (asm) recv_exact.simps) (auto split: if_splits prod.splits sum.splits)
    have "length chunk \<le> n" "concat segs = chunk @ concat segs1"
      using c by (auto simp: sock_recv_def split: list.splits if_splits)
    then show ?thesis using "1.IH" [OF False c [symmetric] _ r(2)] r by auto
  qed (use "1.prems" in \<open>auto simp: recv_exact.simps\<close>)
qed

lemma bindS_recv:
  assumes "bindS (recv_exact n) f segs = (Inr y, rest)"
  obtains b segs1 where "recv_exact n segs = (Inr b, segs1)" "f b segs1 = (Inr y, rest)" "length b = n" "concat segs = b @ concat segs1"
  using assms recv_exact_ok [of n segs] by (auto simp: bindS_eq_Inr)

lemma recv_ws_frame_consumes:
  assumes "recv_ws_frame em segs = (Inr p, rest)"
  shows "length (concat rest) + 2 \<le> length (concat segs)"
  using assms unfolding recv_ws_frame_def
proof (rule bindS_recv)
  fix b s1
  assume b: "length b = 2" "concat segs = b @ concat s1" and r: "(let first = of_char (b ! 0) :: nat;
         second = of_char (b ! 1) :: nat; opcode = first AND 0x0F; masked = (second AND 0x80 \<noteq> 0)
     in if opcode = 0x8 then liftS (Inl (EOFError ''WebSocket close frame received''))
        else if opcode \<noteq> 0x2 then liftS (Inl (ValueError (''unsupported WebSocket opcode: '' @ nat_str opcode)))
        else if masked \<noteq> em then liftS (Inl (ValueError ''unexpected WebSocket mask state''))
        else
          bindS (extended_length (second AND 0x7F)) (\<lambda>len.
          bindS (if masked then recv_exact 4 else liftS (Inr [])) (\<lambda>masking_key.
          bindS (recv_exact len) (\<lambda>payload.
            liftS (Inr (if masked then xor_mask masking_key payload else payload)))))) s1 = (Inr p, rest)"
  have "length (concat rest) \<le> length (concat s1)"
    using r by (auto simp: Let_def liftS_def bindS_eq_Inr extended_length_def dest!: recv_exact_ok split: if_splits)
  with b show ?thesis by simp
qed

function pipe_ws_to_tcp :: "bool \<Rightarrow> segments \<Rightarrow> bytes \<times> py_error" where
  "pipe_ws_to_tcp expect_masked websocket =
     (case recv_ws_frame expect_masked websocket of
        (Inl e, _) \<Rightarrow> ([], e)
      | (Inr payload, rest) \<Rightarrow>
          (case pipe_ws_to_tcp expect_masked rest of (out, e) \<Rightarrow> (payload @ out, e)))"
  by pat_completeness auto
termination
  by (relation "measure (\<lambda>(_, s). length (concat s))") (auto dest: recv_ws_frame_consumes [OF sym])

declare pipe_ws_to_tcp.simps [simp del]

section \<open>Reading exactly n bytes\<close>

text \<open>The contract of a loop that reads exactly \<open>n\<close> bytes from a source with a known content: it returns the
  next \<open>n\<close> bytes, or raises its end-of-stream exception when fewer are left.\<close>

locale exact_reader =
  fixes content :: "'s \<Rightarrow> bytes" and healthy :: "'s \<Rightarrow> bool" and read_exact :: "nat \<Rightarrow> ('s, bytes) st" and closed :: py_error
  assumes read_enough: "healthy s \<Longrightarrow> n \<le> length (content s) \<Longrightarrow>
      \<exists>t. read_exact n s = (Inr (take n (content s)), t) \<and> content t = drop n (content s) \<and> healthy t"
    and read_short: "healthy s \<Longrightarrow> length (content s) < n \<Longrightarrow> \<exists>t. read_exact n s = (Inl closed, t)"
begin

text \<open>A parser reads a record with value \<open>x\<close> when, given the first \<open>k\<close> bytes of the record and of what follows
  it, it returns \<open>x\<close> and leaves what follows, or raises the exception if the record is cut.\<close>

definition parses :: "('s, 'a) st \<Rightarrow> bytes \<Rightarrow> 'a \<Rightarrow> bool" where
  "parses p b x \<longleftrightarrow> (\<forall>s k r. healthy s \<longrightarrow> content s = take k (b @ r) \<longrightarrow>
     (if length b \<le> k then \<exists>t. p s = (Inr x, t) \<and> healthy t \<and> content t = take (k - length b) r
      else \<exists>t. p s = (Inl closed, t)))"

lemma parsesD:
  assumes "parses p b x" "healthy s" "content s = take k (b @ r)"
  obtains (cut) t where "k < length b" "p s = (Inl closed, t)"
    | (whole) t where "length b \<le> k" "p s = (Inr x, t)" "healthy t" "content t = take (k - length b) r"
  using assms unfolding parses_def by (metis not_le)

lemma parses_read: "length b = n \<Longrightarrow> parses (read_exact n) b b"
  unfolding parses_def using read_enough [of _ n] read_short [of _ n] by (fastforce simp: min_def)

lemma parses_return: "parses (liftS (Inr x)) [] x"
  by (simp add: parses_def liftS_def)

lemma parses_bind:
  assumes "parses p b x" and "parses (f x) c y"
  shows "parses (bindS p f) (b @ c) y"
  unfolding parses_def
proof (intro allI impI)
  fix s k r
  assume h: "healthy s" and c: "content s = take k ((b @ c) @ r)"
  from c have "content s = take k (b @ c @ r)" by simp
  with assms(1) h show "if length (b @ c) \<le> k then \<exists>t. bindS p f s = (Inr y, t) \<and> healthy t \<and> content t = take (k - length (b @ c)) r
      else \<exists>t. bindS p f s = (Inl closed, t)"
  proof (cases rule: parsesD)
    case (whole t)
    from assms(2) whole(3,4) show ?thesis
      by (cases rule: parsesD) (use whole(1,2) in \<open>auto simp: bindS_def\<close>)
  qed (auto simp: bindS_def)
qed

lemma parses_cong: "parses p b x \<Longrightarrow> p = q \<Longrightarrow> b = c \<Longrightarrow> x = y \<Longrightarrow> parses q c y"
  by simp

end

definition arriving :: "segments \<Rightarrow> bool" where
  "arriving segs \<longleftrightarrow> [] \<notin> set segs"

lemma sock_recv_arriving:
  assumes "arriving segs" and "sock_recv n segs = (chunk, rest)"
  shows "concat segs = chunk @ concat rest" "arriving rest" "length chunk \<le> n"
    "0 < n \<Longrightarrow> chunk = [] \<longleftrightarrow> concat segs = []"
  using assms by (auto simp: sock_recv_def arriving_def split: list.splits if_splits)

lemma recv_exact_arriving:
  "arriving segs \<Longrightarrow>
   (if n \<le> length (concat segs)
    then \<exists>t. recv_exact n segs = (Inr (take n (concat segs)), t) \<and> concat t = drop n (concat segs) \<and> arriving t
    else \<exists>t. recv_exact n segs = (Inl (EOFError ''socket closed while reading''), t))"
proof (induction n segs rule: recv_exact.induct)
  case (1 n segs)
  show ?case
  proof (cases "n = 0")
    case False
    obtain chunk rest where c: "sock_recv n segs = (chunk, rest)" by fastforce
    note a = sock_recv_arriving [OF "1.prems" c]
    show ?thesis
    proof (cases "chunk = []")
      case True
      then have "length (concat segs) = 0" using a(4) False by simp
      moreover have "recv_exact n segs = (Inl (EOFError ''socket closed while reading''), rest)"
        using False True c by (subst recv_exact.simps) simp
      ultimately show ?thesis using False by (simp del: concat_eq_Nil_conv length_0_conv)
    next
      case chunk: False
      note IH = "1.IH" [OF False c [symmetric] chunk a(2)]
      have u: "recv_exact n segs = (case recv_exact (n - length chunk) rest of
          (Inl e, s) \<Rightarrow> (Inl e, s) | (Inr tail, s) \<Rightarrow> (Inr (chunk @ tail), s))"
        using False chunk c by (subst recv_exact.simps) simp
      show ?thesis using IH a(1,3) by (auto simp: u split: if_splits)
    qed
  qed (use "1.prems" in \<open>simp add: recv_exact.simps\<close>)
qed

interpretation ws: exact_reader concat arriving recv_exact "EOFError ''socket closed while reading''"
proof unfold_locales
  fix segs and n :: nat
  assume s: "arriving segs"
  show "\<exists>t. recv_exact n segs = (Inr (take n (concat segs)), t) \<and> concat t = drop n (concat segs) \<and> arriving t"
    if "n \<le> length (concat segs)"
    using recv_exact_arriving [OF s, of n] that by simp
  show "\<exists>t. recv_exact n segs = (Inl (EOFError ''socket closed while reading''), t)" if "length (concat segs) < n"
    using recv_exact_arriving [OF s, of n] that by simp
qed

section \<open>Frames survive any fragmentation\<close>

lemma low_bits: "l < (2 :: nat) ^ n \<Longrightarrow> bit l k \<Longrightarrow> k < n"
  by (metis bit_take_bit_iff take_bit_nat_eq_self)

lemma flag_bits:
  fixes l :: nat
  assumes "l < 2 ^ n"
  shows "(2 ^ n OR l) AND mask n = l" "bit ((2 ^ n OR l) AND 2 ^ n) n" "l AND mask n = l" "l AND 2 ^ n = 0"
    "take_bit (Suc n) (2 ^ n OR l) = 2 ^ n OR l"
  using low_bits [OF assms] low_bits [OF assms, of n]
  by (auto intro!: bit_eqI simp: bit_or_iff bit_and_iff bit_exp_iff bit_mask_iff bit_take_bit_iff less_Suc_eq)

lemma frame_bits:
  assumes "l < 128"
  shows "(0x80 OR l) AND 0x7F = (l :: nat)" "(0x80 OR l) AND 0x80 \<noteq> (0 :: nat)" "l AND 0x7F = l" "l AND 0x80 = 0" "0x80 OR l < 256"
proof -
  have eq: "(0x80 :: nat) = 2 ^ 7" "(0x7F :: nat) = mask 7" "(256 :: nat) = 2 ^ Suc 7" by (simp_all add: mask_eq_exp_minus_1)
  have l: "l < 2 ^ 7" using assms by simp
  show "(0x80 OR l) AND 0x7F = l" "l AND 0x7F = l" "l AND 0x80 = 0" unfolding eq by (rule flag_bits [OF l])+
  show "(0x80 OR l) AND 0x80 \<noteq> 0" unfolding eq using flag_bits(2) [OF l] by (metis bit_0_eq bot_apply bot_bool_def)
  show "0x80 OR l < 256" unfolding eq using flag_bits(5) [OF l] by (metis take_bit_nat_less_exp)
qed

lemma length_xor_mask [simp]: "length (xor_mask k p) = length p"
  by (simp add: xor_mask_def)

lemma xor_char: "char_of (((of_char a :: nat) XOR of_char b) mod 256 XOR of_char b) = a"
proof -
  have "take_bit 8 ((of_char a :: nat) XOR of_char b) = of_char a XOR of_char b"
    using of_char_mod_256 [of a] of_char_mod_256 [of b] by (simp add: take_bit_xor) (simp add: take_bit_eq_mod)
  then show ?thesis by (simp add: take_bit_eq_mod xor.assoc)
qed

lemma xor_mask_twice [simp]: "xor_mask k (xor_mask k p) = p"
  by (rule nth_equalityI) (simp_all add: xor_mask_def nth_enumerate_eq xor_char)

text \<open>The shape of a frame: two header bytes, the extended length, the masking key and the body.\<close>

definition frame_fields :: "bool \<Rightarrow> bytes \<Rightarrow> bytes \<Rightarrow> nat \<times> bytes \<times> bytes \<times> bytes" where
  "frame_fields msk key payload =
     (let n = length payload;
          (small, ext) = (if n < 126 then (n, []) else if n \<le> 0xFFFF then (126, be_bytes 2 n) else (127, be_bytes 8 n))
      in (small, ext, if msk then key else [], if msk then xor_mask key payload else payload))"

lemma send_frame_fields:
  assumes "send_ws_frame key payload msk = Inr frame" and "frame_fields msk key payload = (small, ext, k, body)"
  shows "frame = [byte 0x82, byte (if msk then 0x80 OR small else small)] @ ext @ k @ body" and "small < 128"
    "small = 126 \<Longrightarrow> length ext = 2 \<and> be_val ext = length payload" "small = 127 \<Longrightarrow> length ext = 8 \<and> be_val ext = length payload"
    "small < 126 \<Longrightarrow> ext = [] \<and> small = length payload"
  using assms
  by (auto simp: send_ws_frame_def frame_length_def frame_fields_def pack_be_def Let_def be_val_be_bytes split: if_splits)

lemma send_frame_total: "length payload < 2 ^ 64 \<Longrightarrow> \<exists>frame. send_ws_frame key payload msk = Inr frame"
  by (auto simp: send_ws_frame_def frame_length_def pack_be_def Let_def)

text \<open>The receiver reads every frame that was sent with the mask state it expects.\<close>

lemma recv_reads_frame:
  assumes f: "send_ws_frame key payload msk = Inr frame" "length key = 4"
  shows "ws.parses (recv_ws_frame msk) frame payload"
proof -
  obtain small ext mk body where fields: "frame_fields msk key payload = (small, ext, mk, body)" by (metis prod_cases4)
  note ff = send_frame_fields [OF f(1) fields]
  let ?second = "if msk then 0x80 OR small else small"
  have mk: "mk = (if msk then key else [])" "length body = length payload" "payload = (if msk then xor_mask key body else body)"
    using fields by (auto simp: frame_fields_def Let_def split: if_splits)
  have bits: "(of_char (byte 0x82) :: nat) AND 0x0F = 2" "of_char (byte ?second) = ?second" "?second AND 0x7F = small"
      "(?second AND 0x80 \<noteq> 0) = msk"
    using frame_bits [OF ff(2)] ff(2) by (auto simp: byte_def)
  have k: "ws.parses (if msk then recv_exact 4 else liftS (Inr [])) mk mk"
    using ws.parses_read [OF f(2)] ws.parses_return [of "[] :: bytes"] by (simp add: mk(1))
  have b: "ws.parses (bindS (recv_exact (length payload)) (\<lambda>p. liftS (Inr (if msk then xor_mask mk p else p)))) body payload"
    using ws.parses_bind [OF ws.parses_read [OF mk(2)] ws.parses_return, of "\<lambda>p. if msk then xor_mask mk p else p"] mk(1,3) by (cases msk) simp_all
  consider "small = 126" | "small = 127" | "small < 126" using ff(2) by linarith
  then have e: "ws.parses (extended_length small) ext (length payload)"
  proof cases
    case 1
    from ws.parses_bind [OF ws.parses_read [of ext 2] ws.parses_return, of be_val] 1 ff(3) show ?thesis by (simp add: extended_length_def)
  next
    case 2
    from ws.parses_bind [OF ws.parses_read [of ext 8] ws.parses_return, of be_val] 2 ff(4) show ?thesis by (simp add: extended_length_def)
  next
    case 3
    with ff(5) ws.parses_return show ?thesis by (simp add: extended_length_def)
  qed
  have h: "ws.parses (recv_exact 2) [byte 0x82, byte ?second] [byte 0x82, byte ?second]" by (rule ws.parses_read) simp
  let ?body = "\<lambda>mk len. bindS (recv_exact len) (\<lambda>p. liftS (Inr (if msk then xor_mask mk p else p)))"
  let ?tail = "\<lambda>len. bindS (if msk then recv_exact 4 else liftS (Inr [])) (\<lambda>mk. ?body mk len)"
  have tail: "ws.parses (bindS (extended_length small) ?tail) (ext @ mk @ body) payload"
    by (rule ws.parses_bind [where f = ?tail, OF e ws.parses_bind [where f = "\<lambda>mk. ?body mk (length payload)", OF k b]])
  show ?thesis
    unfolding recv_ws_frame_def
    by (rule ws.parses_cong [OF ws.parses_bind [OF h] refl _ refl])
      (use tail bits ff(1) in \<open>simp_all add: Let_def\<close>)
qed

section \<open>The proxy is transparent\<close>

lemma pipe_unfold:
  assumes "arriving source" and "concat source \<noteq> []"
  obtains chunk rest frame where "chunk \<noteq> []" "concat source = chunk @ concat rest" "arriving rest"
    "send_ws_frame (keys 0) chunk msk = Inr frame" "length (concat rest) < length (concat source)"
    "pipe_tcp_to_ws keys msk source = map_prod ((@) frame) id (pipe_tcp_to_ws (\<lambda>i. keys (Suc i)) msk rest)"
proof -
  obtain chunk rest where c: "sock_recv BUFFER_SIZE source = (chunk, rest)" by fastforce
  have ch: "chunk \<noteq> []" "concat source = chunk @ concat rest" "arriving rest" "length chunk \<le> BUFFER_SIZE"
    using sock_recv_arriving [OF assms(1) c] assms(2) by (auto simp: BUFFER_SIZE_def simp del: concat_eq_Nil_conv)
  obtain frame where f: "send_ws_frame (keys 0) chunk msk = Inr frame"
    using send_frame_total [of chunk] ch(4) by (auto simp: BUFFER_SIZE_def)
  have "pipe_tcp_to_ws keys msk source = map_prod ((@) frame) id (pipe_tcp_to_ws (\<lambda>i. keys (Suc i)) msk rest)"
    using c ch(1) f by (subst pipe_tcp_to_ws.simps) (simp add: map_prod_def split: prod.split)
  with ch f show thesis by (intro that) auto
qed

lemma pipe_idle: "concat source = [] \<Longrightarrow> arriving source \<Longrightarrow> pipe_tcp_to_ws keys msk source = ([], None)"
  by (cases source) (auto simp: pipe_tcp_to_ws.simps sock_recv_def arriving_def)

text \<open>What arrives when only the first \<open>k\<close> bytes of the WebSocket stream get through.\<close>

lemma pipes_cut:
  assumes "arriving source" and "\<And>i. length (keys i) = 4" and "arriving websocket"
    and "concat websocket = take k (fst (pipe_tcp_to_ws keys msk source))"
  shows "\<exists>out. pipe_ws_to_tcp msk websocket = (out, EOFError ''socket closed while reading'') \<and>
    (\<exists>lost. concat source = out @ lost \<and> (length (fst (pipe_tcp_to_ws keys msk source)) \<le> k \<longrightarrow> lost = []))"
  using assms
proof (induction "length (concat source)" arbitrary: source keys websocket k rule: less_induct)
  case less
  show ?case
  proof (cases "concat source = []")
    case True
    then have "length (concat websocket) = 0" using less.prems(4) pipe_idle [OF True less.prems(1)] by simp
    then have "length (concat websocket) < 2" by linarith
    from ws.read_short [OF less.prems(3) this] have "\<exists>t. recv_ws_frame msk websocket = (Inl (EOFError ''socket closed while reading''), t)"
      by (auto simp: recv_ws_frame_def bindS_def)
    then have "pipe_ws_to_tcp msk websocket = ([], EOFError ''socket closed while reading'')"
      by (subst pipe_ws_to_tcp.simps) auto
    then show ?thesis using True by simp
  next
    case False
    from pipe_unfold [OF less.prems(1) False, of keys msk] obtain chunk rest frame where
      c: "concat source = chunk @ concat rest" "arriving rest" "length (concat rest) < length (concat source)"
      and f: "send_ws_frame (keys 0) chunk msk = Inr frame"
      and p: "pipe_tcp_to_ws keys msk source = map_prod ((@) frame) id (pipe_tcp_to_ws (\<lambda>i. keys (Suc i)) msk rest)"
      by metis
    let ?out = "fst (pipe_tcp_to_ws (\<lambda>i. keys (Suc i)) msk rest)"
    have "concat websocket = take k (frame @ ?out)" using less.prems(4) p by simp
    with recv_reads_frame [OF f less.prems(2)] less.prems(3) show ?thesis
    proof (cases rule: ws.parsesD)
      case (cut t)
      then have "pipe_ws_to_tcp msk websocket = ([], EOFError ''socket closed while reading'')"
        by (subst pipe_ws_to_tcp.simps) simp
      with cut p show ?thesis by simp
    next
      case (whole t)
      from less.hyps [OF c(3) c(2) _ whole(3), of "\<lambda>i. keys (Suc i)" "k - length frame"] whole(4) less.prems(2)
      obtain out lost where o: "pipe_ws_to_tcp msk t = (out, EOFError ''socket closed while reading'')"
        "concat rest = out @ lost" "length ?out \<le> k - length frame \<longrightarrow> lost = []" by auto
      have "pipe_ws_to_tcp msk websocket = (chunk @ out, EOFError ''socket closed while reading'')"
        using whole(2) o(1) by (subst pipe_ws_to_tcp.simps) simp
      with o(2,3) c(1) p whole(1) show ?thesis by (intro exI [of _ "chunk @ out"]) auto
    qed
  qed
qed

lemma pipe_never_fails: "arriving source \<Longrightarrow> snd (pipe_tcp_to_ws keys msk source) = None"
proof (induction "length (concat source)" arbitrary: source keys rule: less_induct)
  case less
  show ?case
  proof (cases "concat source = []")
    case False
    from pipe_unfold [OF less.prems False, of keys msk] obtain rest frame where
      "arriving rest" "length (concat rest) < length (concat source)"
      "pipe_tcp_to_ws keys msk source = map_prod ((@) frame) id (pipe_tcp_to_ws (\<lambda>i. keys (Suc i)) msk rest)" by metis
    then show ?thesis using less.hyps by simp
  qed (simp add: pipe_idle less.prems del: concat_eq_Nil_conv)
qed

text \<open>C19: The proxy is transparent. Whatever the local stream carries and however it is cut into chunks, the far
  pipe, reading the WebSocket bytes in any fragmentation, writes exactly the same bytes and then ends with
  the end of the stream; and if the connection breaks after any number of bytes, what it has written is a
  beginning of the stream.\<close>

theorem proxy_transparent:
  assumes "arriving source" and "\<And>i. length (keys i) = 4" and "arriving websocket"
    and "concat websocket = take k (fst (pipe_tcp_to_ws keys msk source))"
  shows "snd (pipe_tcp_to_ws keys msk source) = None \<and>
    (\<exists>out lost. pipe_ws_to_tcp msk websocket = (out, EOFError ''socket closed while reading'') \<and> concat source = out @ lost \<and>
       (length (fst (pipe_tcp_to_ws keys msk source)) \<le> k \<longrightarrow> lost = []))"
  using pipe_never_fails [OF assms(1)] pipes_cut [OF assms] by blast

text \<open>A frame with the wrong mask state is refused: no byte of a peer that plays the same role is delivered.\<close>

theorem wrong_mask_refused:
  assumes "send_ws_frame key payload msk = Inr frame" and "arriving websocket" and "concat websocket = frame @ r"
  shows "pipe_ws_to_tcp (\<not> msk) websocket = ([], ValueError ''unexpected WebSocket mask state'')"
proof -
  obtain small ext mk body where fields: "frame_fields msk key payload = (small, ext, mk, body)" by (metis prod_cases4)
  note ff = send_frame_fields [OF assms(1) fields]
  let ?second = "if msk then 0x80 OR small else small"
  have bits: "(of_char (byte 0x82) :: nat) AND 0x0F = 2" "of_char (byte ?second) = ?second" "(?second AND 0x80 \<noteq> 0) = msk"
    using frame_bits [OF ff(2)] ff(2) by (auto simp: byte_def)
  have "2 \<le> length (concat websocket)" "take 2 (concat websocket) = [byte 0x82, byte ?second]" using assms(3) ff(1) by simp_all
  then obtain t where "recv_exact 2 websocket = (Inr [byte 0x82, byte ?second], t)"
    using ws.read_enough [OF assms(2)] by metis
  then have "recv_ws_frame (\<not> msk) websocket = (Inl (ValueError ''unexpected WebSocket mask state''), t)"
    using bits by (simp add: recv_ws_frame_def bindS_def Let_def liftS_def)
  then show ?thesis by (subst pipe_ws_to_tcp.simps) simp
qed

theorem proxy_transparent_witness:
  "\<exists>out lost. pipe_ws_to_tcp True (map (\<lambda>c. [c]) (fst (pipe_tcp_to_ws (\<lambda>i. ''key0'') True [''hello'', ''world'']))) = (out, EOFError ''socket closed while reading'') \<and>
     ''helloworld'' = out @ lost \<and> lost = []"
proof -
  let ?o = "fst (pipe_tcp_to_ws (\<lambda>i. ''key0'') True [''hello'', ''world''])"
  have c: "concat (map (\<lambda>c. [c]) ?o) = take (length ?o) ?o" by simp
  have "arriving [''hello'', ''world'']" "arriving (map (\<lambda>c. [c]) ?o)" by (auto simp: arriving_def)
  from proxy_transparent [OF this(1) _ this(2) c] show ?thesis by auto
qed

theorem wrong_mask_refused_witness:
  "\<exists>frame. send_ws_frame ''key0'' ''hello'' True = Inr frame \<and>
     pipe_ws_to_tcp (\<not> True) [frame] = ([], ValueError ''unexpected WebSocket mask state'')"
proof -
  obtain frame where f: "send_ws_frame ''key0'' ''hello'' True = Inr frame" using send_frame_total [of "''hello''"] by auto
  then have "frame \<noteq> []" by (auto simp: send_ws_frame_def bindR_eq_Inr)
  then show ?thesis using wrong_mask_refused [OF f, of "[frame]" "[]"] f by (simp add: arriving_def)
qed

end
