(* ===== verification/SdkClient.thy ===== *)
theory SdkClient
  imports WsTransport SpanMetadata PyText
begin

unbundle bit_operations_syntax

text \<open>
  The Python SDK: \<^verbatim>\<open>sdk/python/permeantos/memory_graph.py\<close> (the token history of an agent and the metadata
  header made from it) and \<^verbatim>\<open>sdk/python/permeantos/client.py\<close> (length-prefixed JSON frames and the migration
  dialogue with the daemon). The connection is the segments still to be received and the bytes sent so far;
  the clock is an argument. Messages the client prints are not represented, the expressions they evaluate
  are.
\<close>

section \<open>The token history\<close>

record agent_memory_graph =
  template_name :: string
  graph_tokens :: "json list"
  turn_boundaries :: "nat list"
  turn_roles :: "json list"

definition new_memory_graph :: "string \<Rightarrow> agent_memory_graph" where
  "new_memory_graph name = \<lparr>template_name = name, graph_tokens = [], turn_boundaries = [0], turn_roles = []\<rparr>"

definition attach_agent_memory :: "json \<Rightarrow> json \<Rightarrow> (agent_memory_graph, unit) st" where
  "attach_agent_memory turn_tokens role g =
     (case turn_tokens of
        JList ts \<Rightarrow>
          if \<not> list_ex (py_eq role) (map JStr [''system'', ''user'', ''assistant'', ''tool''])
          then (Inl (ValueError (''Invalid agent role: '' @ py_str role)), g)
          else (Inr (), g\<lparr>graph_tokens := graph_tokens g @ ts,
                  turn_boundaries := turn_boundaries g @ [length (graph_tokens g @ ts)],
                  turn_roles := turn_roles g @ [role]\<rparr>)
      | _ \<Rightarrow> (Inl (TypeError ''turn_tokens must be a list of integer token IDs''), g))"

definition get_template_hash :: "agent_memory_graph \<Rightarrow> string" where
  "get_template_hash g = ''sha256:'' @ hasher_hexdigest (hasher_update hasher_new (utf8_encode (template_name g)))"

definition to_usxf_chat_state :: "agent_memory_graph \<Rightarrow> json" where
  "to_usxf_chat_state g =
     JObj [(''template_name'', JStr (template_name g)), (''template_hash'', JStr (get_template_hash g)),
       (''turn_boundaries'', JList (map (\<lambda>n. JInt (int n)) (turn_boundaries g))), (''roles'', JList (turn_roles g))]"

definition block_hash :: "json list \<Rightarrow> string res" where
  "block_hash block_tokens =
     bindR (foldR (\<lambda>token h.
         bindR (int_of token) (\<lambda>i. bindR (to_bytes 4 i) (\<lambda>b. Inr (hasher_update h b)))) block_tokens hasher_new)
       (\<lambda>h. Inr (''sha256:'' @ hasher_hexdigest h))"

definition header_blocks :: "nat \<Rightarrow> nat \<Rightarrow> nat" where
  "header_blocks total_tokens bsize = (total_tokens + bsize - 1) div bsize"

definition header_block_hashes :: "nat \<Rightarrow> json list \<Rightarrow> string list res" where
  "header_block_hashes bsize tokens =
     mapR (\<lambda>i. block_hash (take bsize (drop (i * bsize) tokens))) [0..<header_blocks (length tokens) bsize]"

definition serialize_metadata_header :: "string \<Rightarrow> string \<Rightarrow> string \<Rightarrow> agent_memory_graph \<Rightarrow> obj res" where
  "serialize_metadata_header created_at model_arch config_hash g =
     bindR (header_block_hashes 256 (graph_tokens g)) (\<lambda>block_hashes.
     Inr
      [(''usxf_version'', JStr ''1.1''),
       (''model_architecture'', JStr model_arch),
       (''model_identity'', JObj
         [(''config_hash'', JStr (''sha256:'' @ config_hash)),
          (''weights_revision'', JStr (''hf:meta-llama/'' @ model_arch @ ''@main''))]),
       (''attention_type'', JStr ''gqa''),
       (''model_cache_spec'', JObj
         [(''n_layers'', JInt 32), (''n_q_heads'', JInt 32), (''n_kv_heads'', JInt 8), (''head_dim'', JInt 128),
          (''hidden_size'', JInt 4096), (''max_position_embeddings'', JInt 131072),
          (''rope_theta'', JFloat (Fin 500000)), (''sliding_window'', JNull)]),
       (''chat_state'', to_usxf_chat_state g),
       (''token_ids'', JList (graph_tokens g)),
       (''seq_len'', JInt (int (length (graph_tokens g)))),
       (''batch_size'', JInt 1),
       (''dtype'', JStr ''bfloat16''),
       (''block_size'', JInt 256),
       (''block_hashes'', JList (map JStr block_hashes)),
       (''created_at'', JStr created_at),
       (''extractor_id'', JStr ''permeant-os-python-sdk-v0.1.0''),
       (''checksum'', JStr (''sha256:'' @ replicate 64 (CHR ''0''))),
       (''signature'', JStr [])])"

section \<open>Frames\<close>

definition send_frame :: "json \<Rightarrow> bytes res" where
  "send_frame msg =
     (let serialized = utf8_encode (dumps_default msg)
      in bindR (pack_be 4 (length serialized)) (\<lambda>prefix_bytes. Inr (prefix_bytes @ serialized)))"

function recv_content :: "nat \<Rightarrow> bytes \<Rightarrow> (segments, bytes) st" where
  "recv_content len data segs =
     (if length data < len then
        (case sock_recv (len - length data) segs of (packet, rest) \<Rightarrow>
           if packet = [] then (Inl (ConnectionError ''Socket closed while reading content payload''), rest)
           else recv_content len (data @ packet) rest)
      else (Inr data, segs))"
  by pat_completeness auto
termination
  by (relation "measure (\<lambda>(len, data, _). len - length data)")
    (auto simp: length_greater_0_conv [symmetric] simp del: length_greater_0_conv)

declare recv_content.simps [simp del]

definition recv_frame :: "(segments, json) st" where
  "recv_frame segs =
     (case sock_recv 4 segs of (len_bytes, rest) \<Rightarrow>
        if len_bytes = [] \<or> length len_bytes < 4
        then (Inl (ConnectionError ''Socket closed while reading length prefix''), rest)
        else bindS (recv_content (be_val len_bytes) [])
               (\<lambda>data. liftS (bindR (utf8_decode data) json_loads)) rest)"

section \<open>The migration dialogue\<close>

text \<open>\<open>binascii.crc32\<close>: the reflected polynomial, one bit at a time.\<close>

definition crc_bit :: "32 word \<Rightarrow> 32 word" where
  "crc_bit c = (if bit c 0 then drop_bit 1 c XOR 0xEDB88320 else drop_bit 1 c)"

definition crc_byte :: "32 word \<Rightarrow> nat \<Rightarrow> 32 word" where
  "crc_byte c b = (crc_bit ^^ 8) (c XOR of_nat b)"

definition crc32 :: "nat list \<Rightarrow> nat" where
  "crc32 bs = unat (NOT (foldl crc_byte (NOT 0) bs))"

record sdk_conn =
  inbound :: segments
  sent :: bytes

definition conn_send :: "json \<Rightarrow> (sdk_conn, unit) st" where
  "conn_send msg c = (case send_frame msg of Inl e \<Rightarrow> (Inl e, c) | Inr b \<Rightarrow> (Inr (), c\<lparr>sent := sent c @ b\<rparr>))"

definition conn_recv :: "(sdk_conn, json) st" where
  "conn_recv c = (case recv_frame (inbound c) of (r, segs) \<Rightarrow> (r, c\<lparr>inbound := segs\<rparr>))"

text \<open>\<open>key in value\<close> for a decoded message.\<close>

definition substring :: "string \<Rightarrow> string \<Rightarrow> bool" where
  "substring p s \<longleftrightarrow> list_ex (\<lambda>i. take (length p) (drop i s) = p) [0..<Suc (length s)]"

definition py_contains :: "json \<Rightarrow> string \<Rightarrow> bool res" where
  "py_contains v k =
     (case v of
        JObj d \<Rightarrow> Inr (map_of d k \<noteq> None)
      | JList xs \<Rightarrow> Inr (list_ex (py_eq (JStr k)) xs)
      | JStr s \<Rightarrow> Inr (substring k s)
      | _ \<Rightarrow> Inl (TypeError (''argument of type '' @ repr_str (type_name v) @ '' is not iterable'')))"

definition capability_request :: "string \<Rightarrow> nat \<Rightarrow> json" where
  "capability_request model_arch seq_len =
     JObj [(''CapabilityRequest'', JObj
       [(''model_architecture'', JStr model_arch), (''attention_type'', JStr ''gqa''), (''seq_len'', JInt (int seq_len))])]"

definition capability_accepted :: "json \<Rightarrow> bool res" where
  "capability_accepted cap_resp =
     bindR (py_contains cap_resp ''CapabilityResponse'') (\<lambda>present.
     if \<not> present then Inr False
     else
       bindR (py_item cap_resp ''CapabilityResponse'') (\<lambda>resp_info.
       bindR (py_item resp_info ''accepted'') (\<lambda>accepted.
       if \<not> truthy accepted then bindR (py_get resp_info ''error_message'') (\<lambda>_. Inr False)
       else bindR (py_item resp_info ''target_device'') (\<lambda>_. Inr True))))"

definition bytes_json :: "nat list \<Rightarrow> json" where
  "bytes_json bs = JList (map (\<lambda>b. JInt (int b)) bs)"

definition header_envelope :: "obj \<Rightarrow> json" where
  "header_envelope header =
     JObj [(''HeaderEnvelope'', JObj
       [(''ciphertext'', bytes_json (map of_char (utf8_encode (dumps_default (JObj header))))),
        (''nonce'', bytes_json (replicate 12 0)),
        (''signature'', bytes_json (replicate 64 0xFF)),
        (''public_key'', bytes_json (replicate 32 0xAA))])]"

definition quantized_header :: "bool \<Rightarrow> obj \<Rightarrow> obj" where
  "quantized_header quantize header =
     (if quantize
      then dict_set ''transfer_quantization'' (JObj [(''scheme'', JStr ''fp8''), (''group_size'', JNull), (''scales'', JNull)]) header
      else header)"

definition header_acked :: "json \<Rightarrow> bool res" where
  "header_acked header_ack =
     bindR (py_contains header_ack ''HeaderAck'') (\<lambda>present.
     if \<not> present then Inr False
     else bindR (py_item header_ack ''HeaderAck'') (\<lambda>info. bindR (py_item info ''accepted'') (\<lambda>a. Inr (truthy a))))"

text \<open>The demo payload: every element is 1.0, as one byte of FP8 or four big-endian bytes of binary32.\<close>

definition byte_payload :: "bool \<Rightarrow> nat \<Rightarrow> nat list" where
  "byte_payload quantize total_elements =
     (if quantize then replicate total_elements 0x38
      else concat (replicate total_elements [0x3F, 0x80, 0, 0]))"

definition payload_chunk :: "nat list \<Rightarrow> nat \<Rightarrow> nat \<Rightarrow> string \<Rightarrow> json" where
  "payload_chunk payload layer block part =
     JObj [(''PayloadChunk'', JObj
       [(''chunk_index'', JInt (int block)), (''layer_index'', JInt (int layer)),
        (''tensor_name'', JStr (''layer.'' @ nat_str layer @ ''.'' @ part)),
        (''data'', bytes_json payload), (''crc32'', JInt (int (crc32 payload)))])]"

definition send_chunk :: "nat list \<Rightarrow> nat \<Rightarrow> nat \<Rightarrow> string \<Rightarrow> (sdk_conn, unit) st" where
  "send_chunk payload layer block part =
     bindS (conn_send (payload_chunk payload layer block part)) (\<lambda>_. bindS conn_recv (\<lambda>_. liftS (Inr ())))"

definition stream_blocks :: "nat list \<Rightarrow> nat \<Rightarrow> nat \<Rightarrow> (sdk_conn, unit) st" where
  "stream_blocks payload n_layers num_blocks =
     forS [0..<n_layers] (\<lambda>layer.
     forS [0..<num_blocks] (\<lambda>block.
       bindS (send_chunk payload layer block ''key'') (\<lambda>_. send_chunk payload layer block ''value'')))"

definition commit_succeeded :: "json \<Rightarrow> bool res" where
  "commit_succeeded commit_resp =
     bindR (bindR (py_contains commit_resp ''CommitResponse'') (\<lambda>present.
       if \<not> present then Inr False
       else bindR (py_item commit_resp ''CommitResponse'') (\<lambda>info. bindR (py_item info ''success'') (\<lambda>s. Inr (truthy s))))) (\<lambda>ok.
     if \<not> ok
     then bindR (py_get_or commit_resp ''CommitResponse'' (JObj [])) (\<lambda>info. bindR (py_get info ''error_message'') (\<lambda>_. Inr False))
     else Inr True)"

definition migrate_agent :: "string \<Rightarrow> string \<Rightarrow> string \<Rightarrow> agent_memory_graph \<Rightarrow> bool \<Rightarrow> (sdk_conn, bool) st" where
  "migrate_agent created_at model_arch config_hash g quantize =
     bindS (conn_send (capability_request model_arch (length (graph_tokens g)))) (\<lambda>_.
     bindS conn_recv (\<lambda>cap_resp.
     bindS (liftS (capability_accepted cap_resp)) (\<lambda>accepted.
     if \<not> accepted then liftS (Inr False)
     else
       bindS (liftS (serialize_metadata_header created_at model_arch config_hash g)) (\<lambda>header.
       bindS (conn_send (header_envelope (quantized_header quantize header))) (\<lambda>_.
       bindS conn_recv (\<lambda>header_ack.
       bindS (liftS (header_acked header_ack)) (\<lambda>acked.
       if \<not> acked then liftS (Inr False)
       else
         bindS (stream_blocks (byte_payload quantize (256 * 8 * 128)) 32 (header_blocks (length (graph_tokens g)) 256)) (\<lambda>_.
         bindS (conn_send (JObj [(''CommitRequest'', JNull)])) (\<lambda>_.
         bindS conn_recv (\<lambda>commit_resp.
           liftS (commit_succeeded commit_resp)))))))))))"

section \<open>Frames survive fragmentation behind their prefix\<close>

lemma recv_content_arriving:
  assumes "arriving segs" and "length data \<le> len"
  shows "if len \<le> length data + length (concat segs)
    then \<exists>t. recv_content len data segs = (Inr (data @ take (len - length data) (concat segs)), t) \<and>
        concat t = drop (len - length data) (concat segs) \<and> arriving t
    else \<exists>t. recv_content len data segs = (Inl (ConnectionError ''Socket closed while reading content payload''), t)"
  using assms
proof (induction len data segs rule: recv_content.induct)
  case (1 len data segs)
  show ?case
  proof (cases "length data < len")
    case True
    obtain packet rest where c: "sock_recv (len - length data) segs = (packet, rest)" by fastforce
    note a = sock_recv_arriving [OF "1.prems"(1) c]
    show ?thesis
    proof (cases "packet = []")
      case none: True
      then have "length (concat segs) = 0" using a(4) True by simp
      moreover have "recv_content len data segs = (Inl (ConnectionError ''Socket closed while reading content payload''), rest)"
        using True none c by (subst recv_content.simps) simp
      ultimately show ?thesis using True by (simp del: concat_eq_Nil_conv length_0_conv)
    next
      case some: False
      have u: "recv_content len data segs = recv_content len (data @ packet) rest"
        using True some c by (subst recv_content.simps) simp
      have "length (data @ packet) \<le> len" using a(3) True by simp
      from "1.IH" [OF True c [symmetric] some a(2) this] show ?thesis
        using a(1,3) True by (auto simp: u min_def split: if_splits)
    qed
  qed (use "1.prems" in \<open>simp add: recv_content.simps\<close>)
qed

interpretation sdk: exact_reader concat arriving "\<lambda>n. recv_content n []" "ConnectionError ''Socket closed while reading content payload''"
proof unfold_locales
  fix segs and n :: nat
  assume s: "arriving segs"
  show "\<exists>t. recv_content n [] segs = (Inr (take n (concat segs)), t) \<and> concat t = drop n (concat segs) \<and> arriving t"
    if "n \<le> length (concat segs)"
    using recv_content_arriving [OF s, of "[]" n] that by simp
  show "\<exists>t. recv_content n [] segs = (Inl (ConnectionError ''Socket closed while reading content payload''), t)" if "length (concat segs) < n"
    using recv_content_arriving [OF s, of "[]" n] that by simp
qed

lemma sock_recv_prefix:
  assumes "arriving segs" and "concat segs = p @ r" and "length p = 4" and "4 \<le> length (hd segs)" 
  obtains rest where "sock_recv 4 segs = (p, rest)" "concat rest = r" "arriving rest"
proof -
  have "concat segs \<noteq> []" using assms(2,3) by (auto simp del: concat_eq_Nil_conv)
  then obtain seg rest where s: "segs = seg # rest" by (cases segs) auto
  obtain chunk rest' where c: "sock_recv 4 segs = (chunk, rest')" by fastforce
  then have "chunk = take 4 seg" by (simp add: sock_recv_def s)
  moreover have "take 4 seg = p" using arg_cong [OF assms(2), of "take 4"] assms(3,4) s by simp
  ultimately show thesis using that [of rest'] sock_recv_arriving [OF assms(1) c] assms(2) c by simp
qed

lemma recv_sent_frame:
  assumes "send_frame msg = Inr frame" and "wf_json msg"
    and "arriving segs" and "concat segs = frame @ r" and "4 \<le> length (hd segs)"
  shows "\<exists>t. recv_frame segs = (Inr msg, t) \<and> arriving t \<and> concat t = r"
proof -
  let ?body = "utf8_encode (dumps_default msg)"
  have len: "length ?body < 256 ^ 4" "frame = be_bytes 4 (length ?body) @ ?body"
    using assms(1) by (auto simp: send_frame_def Let_def pack_be_def split: if_splits)
  then have "concat segs = be_bytes 4 (length ?body) @ ?body @ r" using assms(4) by simp
  from sock_recv_prefix [OF assms(3) this length_be_bytes assms(5)] obtain rest where
    p: "sock_recv 4 segs = (be_bytes 4 (length ?body), rest)" and c: "concat rest = ?body @ r" "arriving rest" .
  have "length ?body \<le> length (concat rest)" using c(1) by simp
  from sdk.read_enough [OF c(2) this] obtain t where
    t: "recv_content (length ?body) [] rest = (Inr ?body, t)" "concat t = r" "arriving t" using c(1) by auto
  have "be_bytes 4 n \<noteq> []" for n by (metis length_be_bytes list.size(3) zero_neq_numeral)
  then have "recv_frame segs = (Inr msg, t)"
    using p t(1) len(1) loads_default [OF assms(2)] by (simp add: recv_frame_def bindS_def liftS_def be_val_be_bytes)
  with t show ?thesis by blast
qed

text \<open>Frames round-trip. A message sent by the client's framing is read back by it, in any fragmentation of
  the stream that keeps the four bytes of the length prefix together, and what follows the frame is left
  for the next one.\<close>

theorem frame_roundtrip:
  assumes "send_frame msg = Inr frame" and "wf_json msg"
    and "arriving segs" and "concat segs = frame @ r" and "4 \<le> length (hd segs)"
  shows "\<exists>t. recv_frame segs = (Inr msg, t) \<and> arriving t \<and> concat t = r"
  using assms by (rule recv_sent_frame)

text \<open>The proviso is needed: when the network delivers fewer than four bytes of the prefix first, the client
  reports a closed socket, whatever is still to come.\<close>

theorem split_prefix_fails:
  assumes "0 < length seg" and "length seg < 4"
  shows "recv_frame (seg # rest) = (Inl (ConnectionError ''Socket closed while reading length prefix''), rest)"
  using assms by (simp add: recv_frame_def sock_recv_def)

section \<open>The token history\<close>

text \<open>The graphs that a client can build.\<close>

inductive attach_step :: "agent_memory_graph \<Rightarrow> agent_memory_graph \<Rightarrow> bool" where
  attach: "attach_agent_memory tokens role g = (r, g') \<Longrightarrow> attach_step g g'"

inductive_cases attach_stepE: "attach_step g g'"

definition turns_ok :: "agent_memory_graph \<Rightarrow> bool" where
  "turns_ok g \<longleftrightarrow> turn_boundaries g \<noteq> [] \<and> hd (turn_boundaries g) = 0 \<and> sorted (turn_boundaries g) \<and>
     last (turn_boundaries g) = length (graph_tokens g) \<and> length (turn_boundaries g) = Suc (length (turn_roles g)) \<and>
     set (turn_roles g) \<subseteq> JStr ` {''system'', ''user'', ''assistant'', ''tool''}"

lemma py_eq_JStr_left: "py_eq r (JStr s) \<longleftrightarrow> r = JStr s"
  by (cases r) auto

lemma sorted_le_last: "sorted xs \<Longrightarrow> x \<in> set xs \<Longrightarrow> x \<le> last xs"
  by (cases xs rule: rev_cases) (auto simp: sorted_append)

lemma attach_turns_ok:
  assumes "turns_ok g" and "attach_agent_memory tokens role g = (r, g')"
  shows "turns_ok g'"
proof (cases "\<exists>ts. tokens = JList ts \<and> role \<in> JStr ` {''system'', ''user'', ''assistant'', ''tool''}")
  case True
  then obtain ts where ts: "tokens = JList ts" "role \<in> JStr ` {''system'', ''user'', ''assistant'', ''tool''}" by blast
  then have g': "g' = g\<lparr>graph_tokens := graph_tokens g @ ts,
                  turn_boundaries := turn_boundaries g @ [length (graph_tokens g @ ts)], turn_roles := turn_roles g @ [role]\<rparr>"
    using assms(2) by (auto simp: attach_agent_memory_def split: if_splits)
  have "\<forall>b\<in>set (turn_boundaries g). b \<le> length (graph_tokens g)"
    using assms(1) by (metis turns_ok_def sorted_le_last)
  then show ?thesis using assms(1) ts(2) unfolding turns_ok_def g' by (auto simp: sorted_append)
next
  case False
  then have "g' = g" using assms(2) by (auto simp: attach_agent_memory_def py_eq_JStr_left split: json.splits if_splits)
  with assms(1) show ?thesis by simp
qed

text \<open>The turn history stays consistent. In every graph built by attaching turns, refused attachments included,
  the boundaries start at zero, never decrease, end at the number of tokens and are one more than the roles,
  and every role is one of the four allowed ones.\<close>

theorem history_consistent:
  assumes "attach_step\<^sup>*\<^sup>* (new_memory_graph name) g"
  shows "turns_ok g"
  using assms
proof induction
  case base
  show ?case by (simp add: turns_ok_def new_memory_graph_def)
next
  case (step g g')
  from step.hyps(2) step.IH show ?case by (elim attach_stepE) (rule attach_turns_ok)
qed

lemma block_fold:
  "foldR (\<lambda>token h. bindR (int_of token) (\<lambda>i. bindR (to_bytes 4 i) (\<lambda>b. Inr (hasher_update h b)))) ts h = Inr h' \<longleftrightarrow>
   (\<exists>ids. mapR int_of ts = Inr ids \<and> tokens_in_range 4 ids \<and> h' = h @ token_bytes 4 ids)"
proof (induction ts arbitrary: h)
  case (Cons t ts)
  have b: "to_bytes 4 i = Inr b \<longleftrightarrow> (0 \<le> i \<and> i < 256 ^ 4) \<and> b = be_bytes 4 (nat i)" for i b
    by (auto simp: to_bytes_def)
  show ?case
    by (simp add: bindR_eq_Inr b Cons.IH del: power_numeral)
      (auto simp: hasher_update_def tokens_in_range_def token_bytes_def)
qed (auto simp: tokens_in_range_def token_bytes_def)

lemma block_hash_eq_Inr:
  "block_hash ts = Inr h \<longleftrightarrow> (\<exists>ids. mapR int_of ts = Inr ids \<and> tokens_in_range 4 ids \<and> h = sha256_bytes (token_bytes 4 ids))"
  by (auto simp: block_hash_def bindR_eq_Inr block_fold hasher_new_def hasher_hexdigest_def sha256_bytes_def)

lemma block_hash_binds:
  assumes "block_hash xs = Inr h" and "block_hash ys = Inr h"
  shows "mapR int_of xs = mapR int_of ys \<or>
    (\<exists>a b. mapR int_of xs = Inr a \<and> mapR int_of ys = Inr b \<and> sha_collision (token_bytes 4 a) (token_bytes 4 b))"
  using assms span_digest.digest_binds unfolding block_hash_eq_Inr by metis

lemma take_blocks: "concat (map (\<lambda>i. take n (drop (i * n) xs)) [0..<k]) = take (k * n) xs"
proof (induction k)
  case (Suc k)
  have "take (Suc k * n) xs = take (k * n) xs @ take n (drop (k * n) xs)" by (simp only: mult_Suc add.commute [of n] take_add)
  with Suc.IH show ?case by simp
qed simp

lemma all_blocks:
  assumes "0 < n"
  shows "concat (map (\<lambda>i. take n (drop (i * n) xs)) [0..<header_blocks (length xs) n]) = xs"
proof -
  let ?m = "length xs + n - 1"
  have "?m div n * n + ?m mod n = ?m" "?m mod n < n" using assms by simp_all
  then have "length xs \<le> ?m div n * n" by linarith
  then show ?thesis by (simp add: take_blocks header_blocks_def)
qed

lemma mapR_map_cong: "(\<And>i. i < k \<Longrightarrow> f (g i) = f (h i)) \<Longrightarrow> mapR f (map g [0..<k]) = mapR f (map h [0..<k])"
  by (induction k) (simp_all add: mapR_append)

lemma mapR_concat: "mapR f (concat xss) = bindR (mapR (mapR f) xss) (\<lambda>yss. Inr (concat yss))"
  by (induction xss) (auto simp: mapR_append bindR_def split: sum.split)

lemma block_hashes_bind:
  assumes "0 < n" and "header_block_hashes n xs = Inr hs" and "header_block_hashes n ys = Inr hs"
  shows "mapR int_of xs = mapR int_of ys \<or>
    (\<exists>i a b. mapR int_of (take n (drop (i * n) xs)) = Inr a \<and> mapR int_of (take n (drop (i * n) ys)) = Inr b \<and>
       sha_collision (token_bytes 4 a) (token_bytes 4 b))"
proof -
  let ?b = "\<lambda>xs i. take n (drop (i * n) xs)"
  have len: "length hs = header_blocks (length xs) n" "length hs = header_blocks (length ys) n"
    using assms(2,3) by (auto simp: header_block_hashes_def dest: mapR_length)
  have h: "block_hash (?b xs i) = Inr (hs ! i)" "block_hash (?b ys i) = Inr (hs ! i)" if "i < length hs" for i
    using assms(2,3) that len by (auto simp: header_block_hashes_def mapR_eq_Inr list_all2_conv_all_nth)
  show ?thesis
  proof (cases "\<exists>i a b. mapR int_of (?b xs i) = Inr a \<and> mapR int_of (?b ys i) = Inr b \<and> sha_collision (token_bytes 4 a) (token_bytes 4 b)")
    case False
    then have "mapR int_of (?b xs i) = mapR int_of (?b ys i)" if "i < length hs" for i
      using block_hash_binds [OF h(1,2) [OF that]] by blast
    then have "mapR (mapR int_of) (map (?b xs) [0..<length hs]) = mapR (mapR int_of) (map (?b ys) [0..<length hs])"
      by (rule mapR_map_cong)
    then have "mapR int_of (concat (map (?b xs) [0..<length hs])) = mapR int_of (concat (map (?b ys) [0..<length hs]))"
      by (simp add: mapR_concat)
    then show ?thesis using all_blocks [OF assms(1), of xs] all_blocks [OF assms(1), of ys] len by simp
  qed simp
qed

text \<open>C25: The header binds the token history: two histories whose headers carry the same block hashes have the same
  token values in the same order, unless two blocks at the same position are different token strings with one SHA-256 digest.\<close>

theorem header_binds_history:
  assumes "serialize_metadata_header at1 m1 c1 g1 = Inr h1" and "serialize_metadata_header at2 m2 c2 g2 = Inr h2"
    and "map_of h1 ''block_hashes'' = map_of h2 ''block_hashes''"
  shows "mapR int_of (graph_tokens g1) = mapR int_of (graph_tokens g2) \<or>
    (\<exists>i a b. mapR int_of (take 256 (drop (i * 256) (graph_tokens g1))) = Inr a \<and>
       mapR int_of (take 256 (drop (i * 256) (graph_tokens g2))) = Inr b \<and>
       sha_collision (token_bytes 4 a) (token_bytes 4 b))"
proof -
  have "map JStr xs = map JStr ys \<Longrightarrow> xs = ys" for xs ys by (simp add: inj_map_eq_map inj_def)
  then obtain hs where "header_block_hashes 256 (graph_tokens g1) = Inr hs" "header_block_hashes 256 (graph_tokens g2) = Inr hs"
    using assms by (auto simp: serialize_metadata_header_def bindR_eq_Inr)
  then show ?thesis by (intro block_hashes_bind [of 256]) simp_all
qed

section \<open>The migration dialogue\<close>

text \<open>What a step sends when it returns.\<close>

definition sends :: "(sdk_conn, 'a) st \<Rightarrow> json list \<Rightarrow> bool" where
  "sends m msgs \<longleftrightarrow> (\<forall>c x c'. m c = (Inr x, c') \<longrightarrow> (\<exists>fs. mapR send_frame msgs = Inr fs \<and> sent c' = sent c @ concat fs))"

lemma sendsD: "sends m msgs \<Longrightarrow> m c = (Inr x, c') \<Longrightarrow> \<exists>fs. mapR send_frame msgs = Inr fs \<and> sent c' = sent c @ concat fs"
  by (simp add: sends_def)

lemma sends_send: "sends (conn_send msg) [msg]"
  by (auto simp: sends_def conn_send_def split: sum.splits)

lemma sends_recv: "sends conn_recv []"
  by (auto simp: sends_def conn_recv_def split: prod.splits)

lemma sends_lift: "sends (liftS r) []"
  by (auto simp: sends_def liftS_def)

lemma sends_bind:
  assumes "sends m a" and "\<And>x. sends (f x) b"
  shows "sends (bindS m f) (a @ b)"
  using assms by (fastforce simp: sends_def bindS_eq_Inr mapR_append)

lemma sends_for: "(\<And>x. sends (f x) (g x)) \<Longrightarrow> sends (forS xs f) (concat (map g xs))"
proof (induction xs)
  case (Cons x xs)
  have "sends (bindS (f x) (\<lambda>_. forS xs f)) (g x @ concat (map g xs))"
    using Cons by (intro sends_bind) auto
  then show ?case by (simp add: sends_def)
qed (auto simp: sends_def)

definition chunk_messages :: "nat list \<Rightarrow> nat \<Rightarrow> nat \<Rightarrow> json list" where
  "chunk_messages payload n_layers num_blocks =
     concat (map (\<lambda>layer. concat (map (\<lambda>block.
       [payload_chunk payload layer block ''key'', payload_chunk payload layer block ''value'']) [0..<num_blocks])) [0..<n_layers])"

lemma sends_chunk: "sends (send_chunk payload layer block part) [payload_chunk payload layer block part]"
  using sends_bind [OF sends_send sends_bind [OF sends_recv sends_lift]] by (simp add: send_chunk_def)

lemma sends_stream: "sends (stream_blocks payload n_layers num_blocks) (chunk_messages payload n_layers num_blocks)"
  unfolding stream_blocks_def chunk_messages_def
  by (intro sends_for) (use sends_bind [OF sends_chunk sends_chunk] in simp)

text \<open>The messages of a complete migration, in order.\<close>

definition migration_messages :: "string \<Rightarrow> agent_memory_graph \<Rightarrow> bool \<Rightarrow> obj \<Rightarrow> json list" where
  "migration_messages model_arch g quantize header =
     [capability_request model_arch (length (graph_tokens g)), header_envelope (quantized_header quantize header)] @
     chunk_messages (byte_payload quantize (256 * 8 * 128)) 32 (header_blocks (length (graph_tokens g)) 256) @
     [JObj [(''CommitRequest'', JNull)]]"

text \<open>A migration that is reported successful has sent exactly the frames of the capability request, the header
  of the whole history, a key and a value chunk for every block of every layer, and the commit request, in this order.\<close>

theorem migration_transcript:
  assumes "migrate_agent now model_arch config_hash g quantize c = (Inr True, c')"
  shows "\<exists>header frames. serialize_metadata_header now model_arch config_hash g = Inr header \<and>
    mapR send_frame (migration_messages model_arch g quantize header) = Inr frames \<and>
    sent c' = sent c @ concat frames"
proof -
  let ?n = "header_blocks (length (graph_tokens g)) 256" and ?p = "byte_payload quantize (256 * 8 * 128)"
  obtain u1 c1 r1 c2 where 1: "conn_send (capability_request model_arch (length (graph_tokens g))) c = (Inr u1, c1)"
      "conn_recv c1 = (Inr r1, c2)" "capability_accepted r1 = Inr True"
    and rest: "bindS (liftS (serialize_metadata_header now model_arch config_hash g)) (\<lambda>header.
       bindS (conn_send (header_envelope (quantized_header quantize header))) (\<lambda>_.
       bindS conn_recv (\<lambda>header_ack.
       bindS (liftS (header_acked header_ack)) (\<lambda>acked.
       if \<not> acked then liftS (Inr False)
       else bindS (stream_blocks ?p 32 ?n) (\<lambda>_. bindS (conn_send (JObj [(''CommitRequest'', JNull)])) (\<lambda>_.
         bindS conn_recv (\<lambda>commit_resp. liftS (commit_succeeded commit_resp)))))))) c2 = (Inr True, c')"
    using assms unfolding migrate_agent_def by (auto simp: bindS_eq_Inr liftS_def split: if_splits)
  then obtain header u2 c3 r2 c4 where h: "serialize_metadata_header now model_arch config_hash g = Inr header"
    and 2: "conn_send (header_envelope (quantized_header quantize header)) c2 = (Inr u2, c3)" "conn_recv c3 = (Inr r2, c4)"
    and tail: "bindS (stream_blocks ?p 32 ?n) (\<lambda>_. bindS (conn_send (JObj [(''CommitRequest'', JNull)])) (\<lambda>_.
         bindS conn_recv (\<lambda>commit_resp. liftS (commit_succeeded commit_resp)))) c4 = (Inr True, c')"
    by (auto simp: bindS_eq_Inr liftS_def split: if_splits)
  have "sends (bindS (stream_blocks ?p 32 ?n) (\<lambda>_. bindS (conn_send (JObj [(''CommitRequest'', JNull)])) (\<lambda>_.
         bindS conn_recv (\<lambda>commit_resp. liftS (commit_succeeded commit_resp)))))
      (chunk_messages ?p 32 ?n @ [JObj [(''CommitRequest'', JNull)]] @ [] @ [])"
    by (intro sends_bind sends_stream sends_send sends_recv sends_lift)
  from sendsD [OF this tail] obtain fs where
    fs: "mapR send_frame (chunk_messages ?p 32 ?n @ [JObj [(''CommitRequest'', JNull)]]) = Inr fs" "sent c' = sent c4 @ concat fs" by auto
  obtain f1 f2 where "send_frame (capability_request model_arch (length (graph_tokens g))) = Inr f1" "sent c2 = sent c @ f1"
    "send_frame (header_envelope (quantized_header quantize header)) = Inr f2" "sent c4 = sent c2 @ f2"
    using 1(1,2) 2 by (auto simp: conn_send_def conn_recv_def split: sum.splits prod.splits)
  with h fs show ?thesis by (simp add: migration_messages_def)
qed

text \<open>C23: Nothing but the capability request leaves the client, whatever happens, unless the target answered it with
  an acceptance.\<close>

theorem no_state_before_acceptance:
  assumes "migrate_agent now model_arch config_hash g quantize c = (r, c')"
  shows "sent c' = sent c \<or> (\<exists>f. send_frame (capability_request model_arch (length (graph_tokens g))) = Inr f \<and> sent c' = sent c @ f) \<or>
    (\<exists>resp segs. recv_frame (inbound c) = (Inr resp, segs) \<and> capability_accepted resp = Inr True)"
proof (cases "send_frame (capability_request model_arch (length (graph_tokens g)))")
  case (Inl e)
  then have "c' = c" using assms by (simp add: migrate_agent_def bindS_def conn_send_def)
  then show ?thesis by simp
next
  case (Inr f)
  obtain q segs where q: "recv_frame (inbound c) = (q, segs)" by fastforce
  show ?thesis
  proof (cases "\<exists>resp. q = Inr resp \<and> capability_accepted resp = Inr True")
    case False
    then have "sent c' = sent c @ f"
      using assms Inr q
      by (cases q) (auto simp: migrate_agent_def bindS_def conn_send_def conn_recv_def liftS_def split: sum.splits if_splits)
    with Inr show ?thesis by simp
  qed (use q in auto)
qed

section \<open>A small dialogue\<close>

definition commit_request :: json where
  "commit_request = JObj [(''CommitRequest'', JNull)]"

definition refusal :: json where
  "refusal = JObj [(''CapabilityResponse'', JObj [(''accepted'', JBool False), (''error_message'', JStr ''busy'')])]"

definition small_history :: agent_memory_graph where
  "small_history = snd (attach_agent_memory (JList [JInt 1, JInt 2]) (JStr ''user'') (new_memory_graph ''llama-3.1-instruct''))"

lemma small_history_tokens: "graph_tokens small_history = [JInt 1, JInt 2]"
  by (simp add: small_history_def attach_agent_memory_def new_memory_graph_def)

text \<open>The same tokens, attached in two turns.\<close>

definition turnwise_history :: agent_memory_graph where
  "turnwise_history = snd (attach_agent_memory (JList [JInt 2]) (JStr ''assistant'')
     (snd (attach_agent_memory (JList [JInt 1]) (JStr ''user'') (new_memory_graph ''llama-3.1-instruct''))))"

lemma turnwise_history_tokens: "graph_tokens turnwise_history = [JInt 1, JInt 2]"
  by (simp add: turnwise_history_def attach_agent_memory_def new_memory_graph_def)

lemma send_frame_ok:
  assumes "length (utf8_encode (dumps_default msg)) < 4294967296"
  shows "\<exists>f. send_frame msg = Inr f \<and> 4 \<le> length f"
  using assms by (simp add: send_frame_def pack_be_def Let_def)

lemma send_small: "\<exists>f. send_frame commit_request = Inr f \<and> 4 \<le> length f" "\<exists>f. send_frame refusal = Inr f \<and> 4 \<le> length f"
  "\<exists>f. send_frame (capability_request ''m'' 2) = Inr f \<and> 4 \<le> length f"
proof -
  have "length (utf8_encode (dumps_default commit_request)) = 23" "length (utf8_encode (dumps_default refusal)) = 68"
    "length (utf8_encode (dumps_default (capability_request ''m'' 2))) = 89"
    by code_simp+
  then show "\<exists>f. send_frame commit_request = Inr f \<and> 4 \<le> length f" "\<exists>f. send_frame refusal = Inr f \<and> 4 \<le> length f"
    "\<exists>f. send_frame (capability_request ''m'' 2) = Inr f \<and> 4 \<le> length f"
    by (auto intro!: send_frame_ok)
qed

lemma one_segment: "4 \<le> length f \<Longrightarrow> arriving [f] \<and> concat [f] = f @ [] \<and> 4 \<le> length (hd [f])"
  by (auto simp: arriving_def)

theorem frame_roundtrip_witness:
  "\<exists>f t. send_frame commit_request = Inr f \<and> recv_frame [f] = (Inr commit_request, t) \<and> concat t = []"
proof -
  obtain f where f: "send_frame commit_request = Inr f" "4 \<le> length f" using send_small by blast
  have "wf_json commit_request" by (simp add: commit_request_def dict_keys_ok_def)
  from frame_roundtrip [OF f(1) this, of "[f]" "[]"] f one_segment [OF f(2)] show ?thesis by blast
qed

theorem split_prefix_fails_witness:
  "recv_frame [''ab'', ''cd''] = (Inl (ConnectionError ''Socket closed while reading length prefix''), [''cd''])"
  by (rule split_prefix_fails) simp_all

theorem history_consistent_witness: "turns_ok small_history"
proof (rule history_consistent)
  have "attach_step (new_memory_graph ''llama-3.1-instruct'') small_history"
    unfolding small_history_def by (rule attach_step.attach) (rule prod.collapse [symmetric])
  then show "attach_step\<^sup>*\<^sup>* (new_memory_graph ''llama-3.1-instruct'') small_history" by blast
qed

theorem header_binds_history_witness:
  "\<exists>h h'. serialize_metadata_header ''2026'' ''m'' ''c'' small_history = Inr h \<and>
     serialize_metadata_header ''2027'' ''n'' ''c'' turnwise_history = Inr h' \<and> h \<noteq> h' \<and>
     mapR int_of (graph_tokens small_history) = mapR int_of (graph_tokens turnwise_history)"
proof -
  have "block_hash [JInt 1, JInt 2] = Inr (sha256_bytes (token_bytes 4 [1, 2]))"
    by (simp add: block_hash_eq_Inr tokens_in_range_def)
  then obtain h h' where h: "serialize_metadata_header ''2026'' ''m'' ''c'' small_history = Inr h"
      "serialize_metadata_header ''2027'' ''n'' ''c'' turnwise_history = Inr h'"
      "map_of h ''block_hashes'' = map_of h' ''block_hashes''" "h \<noteq> h'"
    by (simp add: serialize_metadata_header_def header_block_hashes_def header_blocks_def small_history_tokens turnwise_history_tokens)
  have "Inr a = Inr b \<Longrightarrow> \<not> sha_collision (token_bytes 4 a) (token_bytes 4 b)" for a b by (simp add: sha_collision_def)
  with header_binds_history [OF h(1-3)] h(1,2,4) show ?thesis by (auto simp: small_history_tokens turnwise_history_tokens)
qed

theorem no_state_before_acceptance_witness:
  "\<exists>f r c'. send_frame refusal = Inr f \<and> migrate_agent ''2026'' ''m'' ''c'' small_history False \<lparr>inbound = [f], sent = []\<rparr> = (r, c') \<and>
     (\<exists>g. send_frame (capability_request ''m'' (length (graph_tokens small_history))) = Inr g \<and> (sent c' = [] \<or> sent c' = g))"
proof -
  obtain f where f: "send_frame refusal = Inr f" "4 \<le> length f" using send_small by blast
  have wf: "wf_json refusal" by (simp add: refusal_def dict_keys_ok_def)
  obtain t where r: "recv_frame [f] = (Inr refusal, t)" using recv_sent_frame [OF f(1) wf, of "[f]" "[]"] one_segment [OF f(2)] by blast
  obtain q c' where m: "migrate_agent ''2026'' ''m'' ''c'' small_history False \<lparr>inbound = [f], sent = []\<rparr> = (q, c')" by fastforce
  have no: "capability_accepted refusal \<noteq> Inr True"
    by (simp add: capability_accepted_def refusal_def py_contains_def)
  obtain g where "send_frame (capability_request ''m'' (length (graph_tokens small_history))) = Inr g"
    using send_small(3) by (auto simp: small_history_tokens numeral_2_eq_2)
  with no_state_before_acceptance [OF m] f m r no show ?thesis by auto
qed

end
