(* ===== verification/StateFiles.thy ===== *)
theory StateFiles
  imports GraphCore
begin

text \<open>
  The JSON state and probe files that \<^verbatim>\<open>adapters/pytorch_runtime_bridge.py\<close> and
  \<^verbatim>\<open>adapters/llamacpp_runtime_bridge.py\<close> keep with the same helpers: a dictionary read leniently, written with
  sorted keys, its \<open>blocks\<close> merged with those of the running process, and a log of events. The interface
  the two runtimes rely on is a store of documents: reading gives the last document written, a failed
  write changes none.
\<close>

section \<open>Reading and writing\<close>

definition read_dict :: "pypath \<Rightarrow> obj io" where
  "read_dict p f =
     (if \<not> path_exists f p then (Inr [], f)
      else
        (case read_json p f of
           (Inl (JSONDecodeError _), g) \<Rightarrow> (Inr [], g)
         | (Inl e, g) \<Rightarrow> (Inl e, g)
         | (Inr (JObj d), g) \<Rightarrow> (Inr d, g)
         | (Inr _, g) \<Rightarrow> (Inr [], g)))"

definition write_dict :: "pypath \<Rightarrow> obj \<Rightarrow> unit io" where
  "write_dict p d = write_with_parents p (utf8_encode (dumps_pretty (JObj d)))"

definition append_probe_event :: "pypath option \<Rightarrow> json \<Rightarrow> obj \<Rightarrow> unit io" where
  "append_probe_event probe_file now payload =
     (case probe_file of
        None \<Rightarrow> returnIO ()
      | Some p \<Rightarrow>
          bindIO (read_dict p) (\<lambda>existing.
          let events = (case field_or existing ''events'' JNull of JList es \<Rightarrow> es | _ \<Rightarrow> []);
              event = JObj (dict_update [(''epoch_s'', now)] payload)
          in write_dict p (dict_set ''events'' (JList (events @ [event])) existing)))"

definition blocks_field :: "obj \<Rightarrow> obj" where
  "blocks_field d = (case field_or d ''blocks'' JNull of JObj b \<Rightarrow> b | _ \<Rightarrow> [])"

definition load_persisted_blocks :: "pypath option \<Rightarrow> obj io" where
  "load_persisted_blocks state_file =
     (case state_file of
        None \<Rightarrow> returnIO []
      | Some p \<Rightarrow> bindIO (read_dict p) (\<lambda>payload. returnIO (blocks_field payload)))"

definition load_persisted_hashes :: "pypath option \<Rightarrow> string list io" where
  "load_persisted_hashes state_file = bindIO (load_persisted_blocks state_file) (\<lambda>blocks. returnIO (map fst blocks))"

section \<open>The store of documents\<close>

text \<open>Block names survive sorting.\<close>

lemma blocks_field_sorted: "wf_json (JObj d) \<Longrightarrow> fst ` set (blocks_field (sorted_obj d)) = fst ` set (blocks_field d)"
proof -
  assume wf: "wf_json (JObj d)"
  have "field_or (sorted_obj d) ''blocks'' JNull = sort_keys (field_or d ''blocks'' JNull)"
    using field_or_sorted_obj [OF wf, of "''blocks''" JNull] by simp
  then show ?thesis by (cases "field_or d ''blocks'' JNull") (simp_all add: blocks_field_def set_sorted_obj image_image case_prod_beta)
qed

locale document_store =
  fixes doc :: "'s \<Rightarrow> 'p \<Rightarrow> obj" and put :: "'p \<Rightarrow> obj \<Rightarrow> 's \<Rightarrow> unit res \<times> 's"
  assumes put_ok: "put p d s = (Inr u, t) \<Longrightarrow> wf_json (JObj d) \<Longrightarrow> doc t q = (if q = p then sorted_obj d else doc s q)"
    and put_failed: "put p d s = (Inl e, t) \<Longrightarrow> doc t q = doc s q"
    and doc_wf: "wf_json (JObj (doc s p))"
begin

text \<open>The names of the blocks a document lists.\<close>

definition listed :: "'s \<Rightarrow> 'p \<Rightarrow> string set" where
  "listed s p = fst ` set (blocks_field (doc s p))"

lemma put_lists:
  assumes "put p d s = (Inr u, t)" and "wf_json (JObj d)"
  shows "listed t p = fst ` set (blocks_field d)"
  using put_ok [OF assms, of p] blocks_field_sorted [OF assms(2)] by (simp add: listed_def)

lemma put_keeps:
  assumes "put q d s = (r, t)" and "wf_json (JObj d)" and "q = p \<Longrightarrow> listed s p \<subseteq> fst ` set (blocks_field d)"
  shows "listed s p \<subseteq> listed t p"
proof (cases r)
  case (Inl e)
  then show ?thesis using put_failed [of q d s e t p] assms(1) by (simp add: listed_def)
next
  case (Inr u)
  show ?thesis
  proof (cases "q = p")
    case True
    then show ?thesis using put_lists [of p d s u t] assms Inr by simp
  next
    case False
    then show ?thesis using put_ok [of q d s u t p] assms Inr by (simp add: listed_def)
  qed
qed

end

definition fs_doc :: "fs \<Rightarrow> pypath \<Rightarrow> obj" where
  "fs_doc f p = (case files f p of
     Some b \<Rightarrow> (case bindR (utf8_decode b) json_loads of Inr (JObj d) \<Rightarrow> d | _ \<Rightarrow> [])
   | None \<Rightarrow> [])"

lemma fs_doc_wf: "wf_json (JObj (fs_doc f p))"
proof -
  have nil: "wf_json (JObj [])" by (simp add: dict_keys_ok_def)
  then show ?thesis
    by (auto simp: fs_doc_def bindR_eq_Inr simp del: wf_json.simps split: option.split sum.split json.split dest: loads_wf)
qed

lemma wf_blocks_field: "wf_json (JObj d) \<Longrightarrow> wf_json (JObj (blocks_field d))"
  using wf_field_or [of d JNull "''blocks''"] by (auto simp: blocks_field_def dict_keys_ok_def split: json.splits)

lemma read_dict_doc: "read_dict p f = (Inr d, g) \<Longrightarrow> d = fs_doc f p \<and> g = f"
  by (auto simp: read_dict_def read_json_def bindIO_def read_file_def read_bytes_def fs_doc_def files_def path_exists_def
      split: if_splits option.splits fnode.splits sum.splits json.splits py_error.splits prod.splits)

lemma read_dict_pure: "read_dict p f = (r, g) \<Longrightarrow> g = f"
  by (auto simp: read_dict_def read_json_def bindIO_def read_file_def
      split: if_splits sum.splits json.splits py_error.splits prod.splits)

interpretation disk: document_store fs_doc write_dict
proof unfold_locales
  fix p d s u t q
  assume w: "write_dict p d s = (Inr u, t)" and wf: "wf_json (JObj d)"
  have "files t = (files s)(p \<mapsto> utf8_encode (dumps_pretty (JObj d)))"
    using files_write_with_parents [OF w [unfolded write_dict_def]] by simp
  moreover have "json_loads (dumps_pretty (JObj d)) = Inr (JObj (sorted_obj d))"
    using loads_render [of pretty_style "sort_keys (JObj d)" "[]"] wf by (simp add: dumps_pretty_def del: wf_json.simps)
  ultimately show "fs_doc t q = (if q = p then sorted_obj d else fs_doc s q)" by (simp add: fs_doc_def)
next
  fix p d s e t q
  assume "write_dict p d s = (Inl e, t)"
  then show "fs_doc t q = fs_doc s q"
    using files_write_with_parents by (fastforce simp: write_dict_def fs_doc_def)
qed (rule fs_doc_wf)

text \<open>Logging an event is at most one write of the log, and keeps every other field of it.\<close>

lemma append_probe_event_write:
  assumes "append_probe_event probe now payload f = (r, g)" and "wf_json now" and "wf_json (JObj payload)"
  obtains "g = f" "probe = None \<or> (\<exists>e. r = Inl e)"
    | q d where "probe = Some q" "write_dict q d f = (r, g)" "wf_json (JObj d)" "\<And>k. k \<noteq> ''events'' \<Longrightarrow> map_of d k = map_of (fs_doc f q) k"
proof (cases probe)
  case (Some q)
  obtain x f' where x: "read_dict q f = (x, f')" by fastforce
  show ?thesis
  proof (cases x)
    case (Inr existing)
    define events where "events = (case field_or existing ''events'' JNull of JList es \<Rightarrow> es | _ \<Rightarrow> [])"
    define event where "event = JObj (dict_update [(''epoch_s'', now)] payload)"
    have e: "existing = fs_doc f q" "f' = f" using read_dict_doc x Inr by auto
    have w: "write_dict q (dict_set ''events'' (JList (events @ [event])) existing) f = (r, g)"
      using assms(1) Some x Inr e by (simp add: append_probe_event_def bindIO_def Let_def events_def event_def)
    have ev: "wf_json event" unfolding event_def using assms(2,3) by (intro wf_dict_update) (auto simp: dict_keys_ok_def)
    have "wf_json (field_or existing ''events'' JNull)" using wf_field_or [OF fs_doc_wf, of JNull] e by simp
    then have "list_all wf_json events" by (auto simp: events_def split: json.splits)
    with ev have "wf_json (JObj (dict_set ''events'' (JList (events @ [event])) existing))"
      using fs_doc_wf e by (intro wf_dict_set) auto
    then show thesis by (rule that(2) [OF Some w]) (simp add: e)
  qed (use assms(1) Some x read_dict_pure [OF x] that(1) in \<open>auto simp: append_probe_event_def bindIO_def\<close>)
qed (use assms(1) that(1) in \<open>simp add: append_probe_event_def\<close>)

lemma append_probe_event_keeps:
  assumes "append_probe_event probe now payload f = (r, g)" and "wf_json now" and "wf_json (JObj payload)"
  shows "disk.listed f p \<subseteq> disk.listed g p"
proof (rule append_probe_event_write [OF assms])
  fix q d
  assume w: "write_dict q d f = (r, g)" "wf_json (JObj d)" and k: "\<And>k. k \<noteq> ''events'' \<Longrightarrow> map_of d k = map_of (fs_doc f q) k"
  have "blocks_field d = blocks_field (fs_doc f q)" using k [of "''blocks''"] by (simp add: blocks_field_def field_or_def)
  then show ?thesis by (intro disk.put_keeps [OF w]) (simp add: disk.listed_def)
qed simp

lemma load_persisted_blocks_ok:
  "load_persisted_blocks sf f = (Inr b, g) \<Longrightarrow> g = f \<and> b = (case sf of None \<Rightarrow> [] | Some p \<Rightarrow> blocks_field (fs_doc f p))"
  by (auto simp: load_persisted_blocks_def bindIO_eq_Inr dest: read_dict_doc split: option.splits)

lemma load_persisted_pure:
  "load_persisted_blocks sf f = (r, g) \<Longrightarrow> g = f"
  "load_persisted_hashes sf f = (r', g') \<Longrightarrow> g' = f"
  by (auto simp: load_persisted_hashes_def load_persisted_blocks_def bindIO_def dest: read_dict_pure split: option.splits prod.splits sum.splits)

lemma load_persisted_hashes_ok:
  "load_persisted_hashes sf f = (Inr hs, g) \<Longrightarrow> set hs = (case sf of None \<Rightarrow> {} | Some p \<Rightarrow> disk.listed f p)"
  by (auto simp: load_persisted_hashes_def bindIO_eq_Inr disk.listed_def image_iff dest!: load_persisted_blocks_ok split: option.splits) force+

section \<open>A log that was written stays writable\<close>

definition read_ok :: "fs \<Rightarrow> pypath \<Rightarrow> bool" where
  "read_ok f p \<longleftrightarrow> (\<exists>d. read_dict p f = (Inr d, f))"

definition log_ready :: "fs \<Rightarrow> pypath \<Rightarrow> bool" where
  "log_ready f p \<longleftrightarrow> (\<forall>q \<in> insert (path_parent p) (set (path_prefixes (path_parent p))). node_at f q = Some FDir) \<and>
     (\<exists>b. node_at f p = Some (FFile b)) \<and> read_ok f p"

lemma read_ok_same: "node_at g p = node_at f p \<Longrightarrow> read_ok f p \<Longrightarrow> read_ok g p"
  by (auto simp: read_ok_def read_dict_def path_exists_def read_json_def bindIO_def read_file_def read_bytes_def
      split: if_splits option.splits fnode.splits sum.splits json.splits py_error.splits)

lemma make_dirs_keeps_dir: "make_dirs ps f = (r, g) \<Longrightarrow> node_at f q = Some FDir \<Longrightarrow> node_at g q = Some FDir"
proof (induction ps arbitrary: f)
  case (Cons p ps)
  from Cons.prems(1) show ?case
  proof (cases rule: make_dirs_Cons)
    case (step t)
    then show ?thesis using Cons.IH [of t] Cons.prems(2) by simp
  qed (use Cons.prems in simp)
qed simp

lemma make_dirs_present:
  "(\<And>q. q \<in> set ps \<Longrightarrow> node_at f q = Some FDir) \<Longrightarrow> \<exists>g. make_dirs ps f = (Inr (), g) \<and> (\<forall>q. node_at g q = node_at f q)"
proof (induction ps arbitrary: f)
  case (Cons p ps)
  have n: "node_at (f(p \<mapsto> FDir)) q = node_at f q" for q using Cons.prems [of p] by (simp add: node_at_dir_update)
  have "\<exists>g. make_dirs ps (f(p \<mapsto> FDir)) = (Inr (), g) \<and> (\<forall>q. node_at g q = node_at (f(p \<mapsto> FDir)) q)"
    by (rule Cons.IH) (simp add: n Cons.prems del: fun_upd_apply)
  then show ?case using Cons.prems [of p] n by simp
qed simp

lemma write_keeps_dir:
  assumes "write_with_parents p b f = (r, g)" and "node_at f q = Some FDir"
  shows "node_at g q = Some FDir"
proof -
  obtain x t where t: "mkdir_parents (path_parent p) f = (x, t)" by fastforce
  have d: "node_at t q = Some FDir" using make_dirs_keeps_dir [OF t [unfolded mkdir_parents_def] assms(2)] .
  show ?thesis
    using assms(1) t d
    by (cases x) (auto simp: write_with_parents_def bindIO_def write_bytes_def node_at_def split: option.splits fnode.splits if_splits)
qed

lemma write_makes_dirs:
  assumes "write_with_parents p b f = (Inr u, g)" and "q \<in> insert (path_parent p) (set (path_prefixes (path_parent p)))"
  shows "node_at g q = Some FDir"
proof -
  obtain t where t: "make_dirs (path_prefixes (path_parent p)) f = (Inr (), t)" "write_bytes p b t = (Inr u, g)"
    using assms(1) by (auto simp: write_with_parents_def mkdir_parents_def bindIO_eq_Inr)
  have "node_at t q = Some FDir"
    using assms(2) make_dirs_node [OF t(1), of q] t(2) by (auto simp: write_bytes_def split: option.splits fnode.splits)
  then show ?thesis using t(2) by (auto simp: write_bytes_def node_at_def split: option.splits fnode.splits if_splits)
qed

lemma written_ready:
  assumes "write_dict p d f = (Inr u, g)" and "wf_json (JObj d)"
  shows "log_ready g p"
proof -
  have n: "node_at g p = Some (FFile (utf8_encode (dumps_pretty (JObj d))))"
    using write_with_parents_ok(1) assms(1) unfolding write_dict_def .
  have "json_loads (dumps_pretty (JObj d)) = Inr (JObj (sorted_obj d))"
    using loads_render [of pretty_style "sort_keys (JObj d)" "[]"] assms(2) by (simp add: dumps_pretty_def del: wf_json.simps)
  then have "read_ok g p"
    using n by (simp add: read_ok_def read_dict_def path_exists_def read_json_def bindIO_def read_file_def read_bytes_def)
  with n show ?thesis using write_makes_dirs [OF assms(1) [unfolded write_dict_def]] by (simp add: log_ready_def)
qed

lemma write_keeps_ready:
  assumes "write_dict q d f = (r, g)" and "wf_json (JObj d)" and "log_ready f p"
  shows "log_ready g p"
proof (cases "q = p \<and> r = Inr ()")
  case False
  obtain b where b: "node_at f p = Some (FFile b)" using assms(3) by (auto simp: log_ready_def)
  then have "files g p = Some b"
    using files_write_with_parents [OF assms(1) [unfolded write_dict_def]] False by (auto simp: files_def split: sum.splits)
  then have "node_at g p = node_at f p" using b by (simp add: files_eq_Some read_bytes_iff)
  then have "read_ok g p" using read_ok_same assms(3) by (auto simp: log_ready_def)
  with \<open>node_at g p = node_at f p\<close> show ?thesis
    using assms(3) b write_keeps_dir [OF assms(1) [unfolded write_dict_def]] by (auto simp: log_ready_def)
qed (use assms written_ready in blast)

lemma ready_writes: "log_ready f p \<Longrightarrow> \<exists>g. write_dict p d f = (Inr (), g)"
proof -
  assume r: "log_ready f p"
  then obtain g where g: "make_dirs (path_prefixes (path_parent p)) f = (Inr (), g)" "\<And>q. node_at g q = node_at f q"
    using make_dirs_present [of "path_prefixes (path_parent p)" f] by (auto simp: log_ready_def)
  then show ?thesis
    using r by (auto simp: log_ready_def write_dict_def write_with_parents_def bindIO_def mkdir_parents_def write_bytes_def)
qed

text \<open>Logging keeps the log writable, makes it so when it succeeds, and succeeds when it is.\<close>

definition logs :: "pypath option \<Rightarrow> fs \<Rightarrow> bool" where
  "logs probe f \<longleftrightarrow> (\<forall>p. probe = Some p \<longrightarrow> log_ready f p)"

lemma append_probe_event_logs:
  assumes "append_probe_event probe now payload f = (r, g)" and "wf_json now" and "wf_json (JObj payload)" and "logs pf f"
  shows "logs pf g"
  by (rule append_probe_event_write [OF assms(1-3)]) (use assms(4) write_keeps_ready in \<open>auto simp: logs_def\<close>)

lemma append_probe_event_logged:
  assumes "append_probe_event probe now payload f = (Inr u, g)" and "wf_json now" and "wf_json (JObj payload)"
  shows "logs probe g"
  by (rule append_probe_event_write [OF assms]) (use written_ready in \<open>auto simp: logs_def\<close>)

lemma append_probe_event_possible: "logs probe f \<Longrightarrow> \<exists>g. append_probe_event probe now payload f = (Inr (), g)"
proof (cases probe)
  case (Some p)
  assume "logs probe f"
  then have r: "log_ready f p" using Some by (simp add: logs_def)
  then obtain d where "read_dict p f = (Inr d, f)" by (auto simp: log_ready_def read_ok_def)
  then show ?thesis using ready_writes [OF r] Some by (simp add: append_probe_event_def bindIO_def Let_def)
qed (simp add: append_probe_event_def)
end
