(* ===== verification/PytorchRuntime.thy ===== *)
theory PytorchRuntime
  imports VllmBridge StateFiles SpanMetadata
begin

text \<open>
  The reference target runtime of \<^verbatim>\<open>adapters/pytorch_runtime_bridge.py\<close>: it checks canonical tensors, keeps them
  as nested lists, or as what the tensor library makes of them, remembers block hashes in the process and
  in a state file, answers continuation checks and exports its state. The environment variables, the
  expansion of home directories and the tensor library are fields of an environment record; the clock is
  an argument. Inspecting the signature of a replacement hook is not represented: the hook is an argument
  that takes the request.
\<close>

section \<open>Requests\<close>

definition pt_request_kind :: "obj \<Rightarrow> string res" where
  "pt_request_kind request =
     (case (map_of request ''kind'', map_of request ''action'') of
        (Some (JStr k), _) \<Rightarrow> Inr k
      | (_, Some (JStr a)) \<Rightarrow> Inr a
      | _ \<Rightarrow>
          if map_of request ''inject_block'' \<noteq> None then Inr ''inject_block''
          else if map_of request ''verify_continuation'' \<noteq> None then Inr ''verify_continuation''
          else if map_of request ''tensors'' \<noteq> None \<and> (map_of request ''hash'' \<noteq> None \<or> map_of request ''block_hash'' \<noteq> None)
          then Inr ''inject_block''
          else if map_of request ''block_hashes'' \<noteq> None \<or> map_of request ''expected_hashes'' \<noteq> None
          then Inr ''verify_continuation''
          else adapter_error ''unable to determine PyTorch injector request kind'')"

section \<open>Tensors\<close>

text \<open>\<open>struct.pack("<f", x)\<close>: the nearest binary32 value, ties to even, as four little-endian bytes. The bits
  of \<open>m * 2 ^ e\<close> with \<open>m < 2 ^ 24\<close> and \<open>e\<close> the exponent of the last place are \<open>(e + 149) * 2 ^ 23 + m\<close>.\<close>

definition f32_bits :: "pyfloat \<Rightarrow> nat res" where
  "f32_bits f =
     (case f of
        Fin r \<Rightarrow>
          if r = 0 then Inr 0
          else
            (let e = max (flog2 \<bar>r\<bar> - 23) (- 149);
                 b = nat ((e + 149) * 2 ^ 23 + round_half_even (\<bar>r\<bar> / pow2 e))
             in if 0x7F800000 \<le> b then Inl (OverflowError ''float too large to pack with f format'')
                else Inr (if r < 0 then b + 2 ^ 31 else b))
      | NegZero \<Rightarrow> Inr (2 ^ 31)
      | PosInf \<Rightarrow> Inr 0x7F800000
      | NegInf \<Rightarrow> Inr 0xFF800000
      | NaN \<Rightarrow> Inr 0x7FC00000)"

definition pack_f32 :: "pyfloat \<Rightarrow> bytes res" where
  "pack_f32 f = bindR (f32_bits f) (\<lambda>b. Inr (rev (be_bytes 4 b)))"

definition f32_sha256 :: "pyfloat list \<Rightarrow> string res" where
  "f32_sha256 values =
     bindR (foldR (\<lambda>v h. bindR (pack_f32 v) (\<lambda>b. Inr (hasher_update h b))) values hasher_new)
       (\<lambda>h. Inr (''sha256:'' @ hasher_hexdigest h))"

fun nested_from_flat :: "pyfloat list \<Rightarrow> int list \<Rightarrow> json res" where
  "nested_from_flat values [] =
     (if length values \<noteq> 1 then adapter_error ''scalar tensor shape cannot contain multiple values''
      else Inr (JFloat (hd values)))"
| "nested_from_flat values (d # ds) =
     (if d < 0 \<or> (\<exists>x\<in>set ds. x < 0) then adapter_error ''tensor shape cannot contain negative dimensions''
      else if int (length values) \<noteq> d * prod_list ds
      then adapter_error (''flat tensor data length '' @ nat_str (length values) @ '' does not match shape '' @ py_str (ints_json (d # ds)))
      else if prod_list ds = 0 then Inl (ValueError ''range() arg 3 must not be zero'')
      else bindR (mapR (\<lambda>part. nested_from_flat part ds) (slices (nat d) (nat (prod_list ds)) values)) (\<lambda>xs. Inr (JList xs)))"

definition squeeze :: "json list \<Rightarrow> json list" where
  "squeeze shape = (if length shape = 4 \<and> py_eq (hd shape) (JInt 1) then tl shape else shape)"

definition pt_canonical_tensor_data :: "json \<Rightarrow> (json list \<times> pyfloat list \<times> json) res" where
  "pt_canonical_tensor_data tensor =
     bindR (py_get tensor ''name'') (\<lambda>name.
     bindR (py_get tensor ''shape'') (\<lambda>shape0.
     bindR (py_get tensor ''data'') (\<lambda>data.
     if \<not> nonempty_str name then adapter_error ''injector tensor is missing a valid name''
     else
       (case shape0 of
          JList dims0 \<Rightarrow>
            if \<not> list_all is_int dims0 then adapter_error (''tensor '' @ py_str name @ '' is missing a valid integer shape'')
            else
              (let dims = squeeze dims0; shape = map (\<lambda>v. the (int_val v)) dims in
               if length dims \<noteq> 3
               then adapter_error (''tensor '' @ py_str name @ '' must be canonical [seq, kv_heads, head_dim], got '' @ py_str (JList dims))
               else
                 bindR (flatten_numeric data) (\<lambda>values.
                 if int (length values) \<noteq> prod_list shape
                 then adapter_error (''tensor '' @ py_str name @ '' contains '' @ nat_str (length values) @ '' values, expected '' @
                        int_str (prod_list shape) @ '' for shape '' @ py_str (JList dims))
                 else bindR (nested_from_flat values shape) (\<lambda>nested. Inr (dims, values, nested))))
        | _ \<Rightarrow> adapter_error (''tensor '' @ py_str name @ '' is missing a valid integer shape'')))))"

definition parse_layer_index :: "string \<Rightarrow> string \<Rightarrow> int res" where
  "parse_layer_index name i =
     (case int_of_text i of
        Inl (ValueError _) \<Rightarrow> adapter_error (''invalid layer index in tensor name '' @ [CHR 0x27] @ name @ [CHR 0x27])
      | r \<Rightarrow> r)"

definition pt_group_tensor :: "json \<Rightarrow> layer_group \<Rightarrow> layer_group res" where
  "pt_group_tensor tensor g =
     bindR (py_get tensor ''name'') (\<lambda>name.
     case name of
       JStr s \<Rightarrow>
         (case split_on (CHR ''.'') s of
            [a, i, part] \<Rightarrow>
              if a \<noteq> ''layer'' \<or> part \<notin> {''key'', ''value''}
              then adapter_error (''unexpected tensor name '' @ [CHR 0x27] @ s @ [CHR 0x27])
              else bindR (parse_layer_index s i) (\<lambda>layer_index. Inr (put_tensor layer_index part tensor g))
          | _ \<Rightarrow> adapter_error (''unexpected tensor name '' @ [CHR 0x27] @ s @ [CHR 0x27]))
     | _ \<Rightarrow> adapter_error ''injector tensor name must be a string'')"

definition pt_group_layer_tensors :: "json list \<Rightarrow> layer_group res" where
  "pt_group_layer_tensors tensors = foldR pt_group_tensor tensors []"

section \<open>The runtime\<close>

record pt_env =
  pt_state_var :: "string option"
  pt_probe_var :: "string option"
  expanduser :: "pypath \<Rightarrow> pypath"
  torch_tensor :: "(string \<Rightarrow> string \<Rightarrow> json \<Rightarrow> json res) option"
  pt_device :: string
  pt_dtype :: string

record pt_runtime =
  kv_cache :: "(int \<times> json \<times> json) list"
  registered_hashes :: "string list"
  block_summaries :: obj
  last_verify_result :: json
  last_continuation_proof :: json
  pt_fs :: fs

definition pt_new_runtime :: "fs \<Rightarrow> pt_runtime" where
  "pt_new_runtime f =
     \<lparr>kv_cache = [], registered_hashes = [], block_summaries = [], last_verify_result = JNull,
      last_continuation_proof = JNull, pt_fs = f\<rparr>"

definition pt_on_fs :: "'a io \<Rightarrow> (pt_runtime, 'a) st" where
  "pt_on_fs m s = (case m (pt_fs s) of (r, f) \<Rightarrow> (r, s\<lparr>pt_fs := f\<rparr>))"

definition env_path :: "(pypath \<Rightarrow> pypath) \<Rightarrow> string option \<Rightarrow> pypath option" where
  "env_path expand var = (case var of Some (c # cs) \<Rightarrow> Some (expand (Path (c # cs))) | _ \<Rightarrow> None)"

definition pt_state_file :: "pt_env \<Rightarrow> pypath option" where
  "pt_state_file env = env_path (expanduser env) (pt_state_var env)"

definition pt_probe_file :: "pt_env \<Rightarrow> pypath option" where
  "pt_probe_file env = env_path (expanduser env) (pt_probe_var env)"

definition tensor_backend :: "pt_env \<Rightarrow> string" where
  "tensor_backend env = (if torch_tensor env = None then ''python-list'' else ''torch'')"

text \<open>\<open>torch.tensor\<close> is a parameter, given the names of the type and the device; it may raise.\<close>

definition materialize_tensor :: "pt_env \<Rightarrow> json \<Rightarrow> json res" where
  "materialize_tensor env nested =
     (case torch_tensor env of None \<Rightarrow> Inr nested | Some t \<Rightarrow> t (pt_dtype env) (pt_device env) nested)"

definition layer_summary :: "int \<Rightarrow> json list \<Rightarrow> pyfloat list \<Rightarrow> pyfloat list \<Rightarrow> json res" where
  "layer_summary layer_index key_shape key_values value_values =
     bindR (f32_sha256 key_values) (\<lambda>kh.
     bindR (f32_sha256 value_values) (\<lambda>vh.
       Inr (JObj [(''layer_index'', JInt layer_index), (''shape'', JList key_shape), (''key_sha256'', JStr kh),
         (''value_sha256'', JStr vh), (''value_count'', JInt (int (length key_values)))])))"

definition differing_shapes :: "int \<Rightarrow> json list \<Rightarrow> json list \<Rightarrow> 'a res" where
  "differing_shapes layer_index ks vs =
     adapter_error (''layer '' @ int_str layer_index @ '' key/value shapes differ: '' @ py_str (JList ks) @ '' != '' @ py_str (JList vs))"

definition pt_register_layer :: "pt_env \<Rightarrow> int \<times> obj \<Rightarrow> (pt_runtime, json) st" where
  "pt_register_layer env = (\<lambda>(layer_index, layer).
     case (map_of layer ''key'', map_of layer ''value'') of
       (Some k, Some v) \<Rightarrow>
         bindS (liftS (pt_canonical_tensor_data k)) (\<lambda>(key_shape, key_values, key_nested).
         bindS (liftS (pt_canonical_tensor_data v)) (\<lambda>(value_shape, value_values, value_nested).
         if \<not> py_eq (JList key_shape) (JList value_shape) then liftS (differing_shapes layer_index key_shape value_shape)
         else
           bindS (liftS (materialize_tensor env key_nested)) (\<lambda>key.
           bindS (liftS (materialize_tensor env value_nested)) (\<lambda>value.
             (\<lambda>s. liftS (layer_summary layer_index key_shape key_values value_values)
                (s\<lparr>kv_cache := AList.update layer_index (key, value) (kv_cache s)\<rparr>))))))
     | _ \<Rightarrow> liftS (adapter_error (''layer '' @ int_str layer_index @ '' is missing key/value tensors'')))"

fun pt_register_layers :: "pt_env \<Rightarrow> layer_group \<Rightarrow> (pt_runtime, json list) st" where
  "pt_register_layers env [] s = (Inr [], s)"
| "pt_register_layers env (l # ls) s =
     bindS (pt_register_layer env l) (\<lambda>summary.
     bindS (pt_register_layers env ls) (\<lambda>summaries. liftS (Inr (summary # summaries)))) s"

definition pt_persist_runtime_summary :: "pt_env \<Rightarrow> (pt_runtime, unit) st" where
  "pt_persist_runtime_summary env s =
     (case pt_state_file env of
        None \<Rightarrow> (Inr (), s)
      | Some p \<Rightarrow>
          pt_on_fs (bindIO (load_persisted_blocks (Some p)) (\<lambda>existing.
            let blocks = dict_update existing (block_summaries s) in
            write_dict p
              [(''target_runtime'', JStr ''pytorch-reference''), (''tensor_backend'', JStr (tensor_backend env)),
               (''device'', JStr (pt_device env)), (''dtype'', JStr (pt_dtype env)),
               (''registered_hashes'', JList (map JStr (sort (map fst blocks)))), (''blocks'', JObj blocks)])) s)"

definition pt_probe :: "pt_env \<Rightarrow> json \<Rightarrow> obj \<Rightarrow> (pt_runtime, unit) st" where
  "pt_probe env now payload = pt_on_fs (append_probe_event (pt_probe_file env) now payload)"

definition block_summary :: "pt_env \<Rightarrow> string \<Rightarrow> json list \<Rightarrow> obj" where
  "block_summary env block_hash layer_summaries =
     [(''hash'', JStr block_hash), (''target_runtime'', JStr ''pytorch-reference''),
      (''tensor_backend'', JStr (tensor_backend env)), (''device'', JStr (pt_device env)), (''dtype'', JStr (pt_dtype env)),
      (''layer_count'', JInt (int (length layer_summaries))), (''layers'', JList layer_summaries)]"

definition note_block :: "string \<Rightarrow> obj \<Rightarrow> pt_runtime \<Rightarrow> pt_runtime" where
  "note_block block_hash summary s =
     s\<lparr>registered_hashes := set_add block_hash (registered_hashes s),
       block_summaries := dict_set block_hash (JObj summary) (block_summaries s)\<rparr>"

definition pt_register_permeant_block :: "pt_env \<Rightarrow> json \<Rightarrow> obj \<Rightarrow> (pt_runtime, json) st" where
  "pt_register_permeant_block env now payload =
     (case first_truthy payload ''hash'' ''block_hash'' of
        JStr (c # cs) \<Rightarrow>
          (case field_or payload ''tensors'' JNull of
             JList (t # ts) \<Rightarrow>
               bindS (liftS (pt_group_layer_tensors (t # ts))) (\<lambda>grouped.
               bindS (pt_register_layers env (sort_key fst grouped)) (\<lambda>layer_summaries.
               let summary = block_summary env (c # cs) layer_summaries in
               bindS (\<lambda>s. (Inr (), note_block (c # cs) summary s)) (\<lambda>_.
               bindS (pt_persist_runtime_summary env) (\<lambda>_.
               bindS (pt_probe env now (dict_update [(''event'', JStr ''register_permeant_block'')] summary)) (\<lambda>_.
                 liftS (Inr (JObj [(''success'', JBool True), (''accepted_state'', JObj summary)])))))))
           | _ \<Rightarrow> liftS (adapter_error ''inject_block request must include a non-empty tensors list''))
      | _ \<Rightarrow> liftS (adapter_error ''inject_block request must include a non-empty hash''))"

definition available_hashes :: "pt_env \<Rightarrow> (pt_runtime, string list) st" where
  "available_hashes env s =
     bindS (pt_on_fs (load_persisted_hashes (pt_state_file env))) (\<lambda>persisted. liftS (Inr (remdups (registered_hashes s @ persisted)))) s"

definition pt_build_continuation_proof :: "pt_env \<Rightarrow> string \<Rightarrow> json \<Rightarrow> (pt_runtime, json) st" where
  "pt_build_continuation_proof env prompt hashes =
     bindS (available_hashes env) (\<lambda>known s.
       let payload =
             [(''target_runtime'', JStr ''pytorch-reference''), (''prompt'', JStr prompt), (''verified_hashes'', hashes),
              (''registered_hashes'', JList (map JStr (sort known))), (''layer_count'', JInt (int (length (kv_cache s))))];
           proof_obj = JObj (payload @ [(''proof_hash'', JStr (sha256_json (JObj payload))),
             (''note'', JStr ''Reference PyTorch target accepted migrated KV tensors; no language decode is claimed.'')])
       in (Inr proof_obj, s\<lparr>last_continuation_proof := proof_obj\<rparr>))"

definition string_list :: "json \<Rightarrow> json list option" where
  "string_list v = (case v of JList hs \<Rightarrow> if list_all is_str hs then Some hs else None | _ \<Rightarrow> None)"

definition pt_verdict :: "pt_env \<Rightarrow> obj \<Rightarrow> json list \<Rightarrow> string list \<Rightarrow> (pt_runtime, obj) st" where
  "pt_verdict env payload hashes available =
     (let missing = filter (\<lambda>h. h \<notin> set (map JStr available)) hashes in
      if missing \<noteq> [] then liftS (Inr [(''success'', JBool False), (''missing_hashes'', JList missing)])
      else
        (let result = [(''success'', JBool True), (''verified_hashes'', JList hashes)] in
         case first_truthy payload ''prompt'' ''continuation_prompt'' of
           JStr (c # cs) \<Rightarrow>
             bindS (pt_build_continuation_proof env (c # cs) (JList hashes)) (\<lambda>proof_obj.
               liftS (Inr (dict_set ''continuation_proof'' proof_obj result)))
         | _ \<Rightarrow> liftS (Inr result)))"

definition pt_verify_permeant_hashes :: "pt_env \<Rightarrow> json \<Rightarrow> obj \<Rightarrow> (pt_runtime, json) st" where
  "pt_verify_permeant_hashes env now payload =
     (case string_list (first_truthy payload ''block_hashes'' ''expected_hashes'') of
        None \<Rightarrow> liftS (adapter_error ''verify_continuation requires a string list of block hashes'')
      | Some hashes \<Rightarrow>
          bindS (available_hashes env) (\<lambda>available.
          bindS (pt_verdict env payload hashes available) (\<lambda>result.
          bindS (\<lambda>s. (Inr (), s\<lparr>last_verify_result := JObj result\<rparr>)) (\<lambda>_.
          bindS (pt_probe env now (dict_update [(''event'', JStr ''verify_permeant_hashes'')] result)) (\<lambda>_.
            liftS (Inr (JObj result)))))))"

definition pt_export_state :: "pt_env \<Rightarrow> string list \<Rightarrow> obj \<Rightarrow> pt_runtime \<Rightarrow> obj" where
  "pt_export_state env known blocks s =
     (let state =
        [(''schema_version'', JStr ''permeantos-pytorch-reference-reverse-runtime-state-v0''),
         (''status'', JStr ''target_runtime_state_exported''), (''target_runtime'', JStr ''pytorch-reference''),
         (''tensor_backend'', JStr (tensor_backend env)), (''device'', JStr (pt_device env)), (''dtype'', JStr (pt_dtype env)),
         (''registered_hashes'', JList (map JStr (sort known))), (''blocks'', JObj blocks),
         (''last_verify_result'', last_verify_result s), (''last_continuation_proof'', last_continuation_proof s)]
      in state @ [(''proof_hash'', JStr (sha256_json (JObj state)))])"

definition pt_export_reverse_runtime_state :: "pt_env \<Rightarrow> json \<Rightarrow> (pt_runtime, json) st" where
  "pt_export_reverse_runtime_state env now =
     bindS (available_hashes env) (\<lambda>known.
     bindS (pt_on_fs (load_persisted_blocks (pt_state_file env))) (\<lambda>persisted s.
     let state = pt_export_state env known (if persisted \<noteq> [] then persisted else block_summaries s) s in
     bindS (pt_probe env now
         [(''event'', JStr ''reverse_runtime_state_export_api''), (''proof_hash'', field_or state ''proof_hash'' JNull),
          (''registered_hash_count'', JInt (int (length known)))]) (\<lambda>_.
       liftS (Inr (JObj (dict_update [(''success'', JBool True), (''reverse_runtime_state'', JObj state)] state)))) s))"

definition pt_runtime_hook :: "pt_env \<Rightarrow> json \<Rightarrow> obj \<Rightarrow> (pt_runtime, json) st" where
  "pt_runtime_hook env now payload =
     bindS (liftS (pt_request_kind payload)) (\<lambda>kind.
     if kind = ''inject_block'' then pt_register_permeant_block env now (payload_for_kind payload ''inject_block'')
     else if kind = ''verify_continuation'' then pt_verify_permeant_hashes env now (payload_for_kind payload ''verify_continuation'')
     else if kind = ''export_reverse_runtime_state'' then pt_export_reverse_runtime_state env now
     else liftS (adapter_error (''unsupported PyTorch runtime request kind '' @ [CHR 0x27] @ kind @ [CHR 0x27])))"

definition pt_normalize_response :: "json \<Rightarrow> json res" where
  "pt_normalize_response payload =
     (case payload of
        JNull \<Rightarrow> Inr (JObj [(''success'', JBool True)])
      | JBool b \<Rightarrow> Inr (JObj [(''success'', JBool b)])
      | JObj d \<Rightarrow>
          (case field_or d ''success'' (JBool True) of
             JBool b \<Rightarrow> Inr (JObj (dict_set ''success'' (JBool b) d))
           | _ \<Rightarrow> adapter_error (''PyTorch runtime response field '' @ repr_str ''success'' @ '' must be a boolean''))
      | _ \<Rightarrow> adapter_error ''PyTorch runtime hook must return a JSON object, bool, or None'')"

definition pt_injector_hook :: "pt_env \<Rightarrow> json \<Rightarrow> (obj \<Rightarrow> (pt_runtime, json) st) option \<Rightarrow> obj \<Rightarrow> (pt_runtime, json) st" where
  "pt_injector_hook env now override request =
     bindS ((case override of Some hook \<Rightarrow> hook | None \<Rightarrow> pt_runtime_hook env now) request)
       (\<lambda>response. liftS (pt_normalize_response response))"

section \<open>Nested tensors keep every value\<close>

lemma concat_slices: "length xs = n * d \<Longrightarrow> concat (slices n d xs) = xs \<and> (\<forall>p\<in>set (slices n d xs). length p = d)"
proof (induction n arbitrary: xs)
  case (Suc n)
  then have "length (drop d xs) = n * d" "length (take d xs) = d" by simp_all
  moreover from Suc.IH [OF this(1)] have "concat (slices n d (drop d xs)) = drop d xs" "\<forall>p\<in>set (slices n d (drop d xs)). length p = d" by blast+
  ultimately show ?case by (auto simp only: slices.simps concat.simps append_take_drop_id list.set insert_iff)
qed simp

lemma nested_from_flat_ok:
  "nested_from_flat vs sh = Inr v \<Longrightarrow> flatten_numeric v = Inr vs \<and> (0 \<notin> set sh \<longrightarrow> has_shape v sh)"
proof (induction sh arbitrary: vs v)
  case Nil
  then show ?case by (cases vs) (auto split: if_splits)
next
  case (Cons d ds)
  then have d: "0 \<le> d" "int (length vs) = d * prod_list ds" "prod_list ds \<noteq> 0" "\<forall>x\<in>set ds. 0 \<le> x"
    by (auto split: if_splits)
  obtain xs where xs: "mapR (\<lambda>part. nested_from_flat part ds) (slices (nat d) (nat (prod_list ds)) vs) = Inr xs" "v = JList xs"
    using Cons.prems by (auto simp: bindR_eq_Inr split: if_splits)
  have "0 \<le> prod_list ds" using d(4) by (induction ds) auto
  then have len: "length vs = nat d * nat (prod_list ds)" using d(1,2) by (metis nat_int nat_mult_distrib)
  have 2: "list_all2 (\<lambda>part x. nested_from_flat part ds = Inr x) (slices (nat d) (nat (prod_list ds)) vs) xs"
    using xs(1) by (simp add: mapR_eq_Inr)
  have "list_all2 (\<lambda>x part. flatten_numeric x = Inr part) xs (slices (nat d) (nat (prod_list ds)) vs)"
    using 2 Cons.IH by (auto simp: list_all2_conv_all_nth)
  then have "flatten_numeric v = Inr vs" using concat_slices [OF len] by (simp add: xs(2) mapR_eq_Inr [symmetric])
  moreover have "has_shape v (d # ds)" if "0 \<notin> set (d # ds)"
  proof -
    have l: "int (length xs) = d" using list_all2_lengthD [OF 2] d(1) by (simp add: length_slices)
    have "\<forall>x\<in>set xs. has_shape x ds" using mapR_source [OF xs(1)] Cons.IH that by fastforce
    then show ?thesis using l that by (auto simp: xs(2) list_all_iff)
  qed
  ultimately show ?case by blast
qed

text \<open>A shape whose inner dimensions multiply to zero passes every check and then ends in the interpreter's own
  exception: the stride of the range is zero.\<close>

theorem zero_stride_raises:
  assumes "0 \<le> s" "0 \<le> h" "0 \<le> d" "h * d = 0"
  shows "pt_canonical_tensor_data (JObj [(''name'', JStr ''layer.0.key''), (''shape'', JList [JInt s, JInt h, JInt d]), (''data'', JList [])]) =
    Inl (ValueError ''range() arg 3 must not be zero'')"
  using assms by (auto simp: pt_canonical_tensor_data_def squeeze_def nonempty_str_def Let_def)

section \<open>The cache holds what was sent\<close>

text \<open>A nested value that holds the numbers of a tensor, in order.\<close>

definition holds_tensor :: "json \<Rightarrow> json \<Rightarrow> bool" where
  "holds_tensor v tensor \<longleftrightarrow> (\<exists>data vs. py_get tensor ''data'' = Inr data \<and> flatten_numeric data = Inr vs \<and> flatten_numeric v = Inr vs)"

lemma canonical_holds: "pt_canonical_tensor_data tensor = Inr (dims, vs, nested) \<Longrightarrow> holds_tensor nested tensor"
  by (auto simp: pt_canonical_tensor_data_def bindR_eq_Inr holds_tensor_def Let_def split: if_splits json.splits
      dest!: nested_from_flat_ok simp del: nested_from_flat.simps py_get_or_JObj)

text \<open>The cache holds for a layer what the backend makes of such values; without torch, the values themselves.\<close>

definition layer_cached :: "pt_env \<Rightarrow> pt_runtime \<Rightarrow> int \<Rightarrow> obj \<Rightarrow> bool" where
  "layer_cached env s i layer \<longleftrightarrow> (\<exists>kn vn k v kt vt. map_of layer ''key'' = Some kt \<and> map_of layer ''value'' = Some vt \<and>
     holds_tensor kn kt \<and> holds_tensor vn vt \<and> materialize_tensor env kn = Inr k \<and> materialize_tensor env vn = Inr v \<and>
     map_of (kv_cache s) i = Some (k, v))"

lemma register_layer_ok:
  assumes "pt_register_layer env (i, layer) s = (Inr r, t)"
  shows "layer_cached env t i layer" and "\<And>j. j \<noteq> i \<Longrightarrow> map_of (kv_cache t) j = map_of (kv_cache s) j"
    and "pt_fs t = pt_fs s" "registered_hashes t = registered_hashes s" "block_summaries t = block_summaries s"
proof -
  obtain kt vt where kv: "map_of layer ''key'' = Some kt" "map_of layer ''value'' = Some vt"
    using assms(1) by (auto simp: pt_register_layer_def liftS_def split: option.splits)
  obtain ks kvs kn where k: "pt_canonical_tensor_data kt = Inr (ks, kvs, kn)"
    using assms(1) kv by (auto simp: pt_register_layer_def bindS_liftS split: sum.splits)
  obtain vs vvs vn where v: "pt_canonical_tensor_data vt = Inr (vs, vvs, vn)"
    using assms(1) kv k by (auto simp: pt_register_layer_def bindS_liftS split: sum.splits)
  obtain km vm where m: "materialize_tensor env kn = Inr km" "materialize_tensor env vn = Inr vm"
    and t: "t = s\<lparr>kv_cache := AList.update i (km, vm) (kv_cache s)\<rparr>"
    using assms kv k v by (auto simp: pt_register_layer_def bindS_liftS liftS_def differing_shapes_def split: if_splits sum.splits)
  show "layer_cached env t i layer"
    using canonical_holds [OF k] canonical_holds [OF v] kv m by (auto simp: t layer_cached_def update_conv)
  show "map_of (kv_cache t) j = map_of (kv_cache s) j" if "j \<noteq> i" for j using that by (simp add: t update_conv)
  show "pt_fs t = pt_fs s" "registered_hashes t = registered_hashes s" "block_summaries t = block_summaries s" by (simp_all add: t)
qed

lemma register_layers_ok:
  assumes "pt_register_layers env ls s = (Inr r, t)" and "distinct (map fst ls)"
  shows "\<forall>(i, layer)\<in>set ls. layer_cached env t i layer" and "\<And>j. j \<notin> fst ` set ls \<Longrightarrow> map_of (kv_cache t) j = map_of (kv_cache s) j"
proof -
  have "(\<forall>(i, layer)\<in>set ls. layer_cached env t i layer) \<and> (\<forall>j. j \<notin> fst ` set ls \<longrightarrow> map_of (kv_cache t) j = map_of (kv_cache s) j)"
    using assms
  proof (induction ls arbitrary: s r)
    case (Cons l ls)
    obtain i layer where l: "l = (i, layer)" by fastforce
    obtain x u y where u: "pt_register_layer env (i, layer) s = (Inr x, u)" "pt_register_layers env ls u = (Inr y, t)"
      using Cons.prems(1) by (auto simp: bindS_eq_Inr liftS_def l)
    have IH: "\<forall>(i, layer)\<in>set ls. layer_cached env t i layer" "\<And>j. j \<notin> fst ` set ls \<Longrightarrow> map_of (kv_cache t) j = map_of (kv_cache u) j"
      using Cons.IH [OF u(2)] Cons.prems(2) by auto
    have "i \<notin> fst ` set ls" using Cons.prems(2) l by simp
    then have "layer_cached env t i layer" using IH(2) register_layer_ok(1) [OF u(1)] by (simp add: layer_cached_def)
    then show ?case using IH register_layer_ok(2) [OF u(1)] l by auto
  qed simp
  then show "\<forall>(i, layer)\<in>set ls. layer_cached env t i layer" "\<And>j. j \<notin> fst ` set ls \<Longrightarrow> map_of (kv_cache t) j = map_of (kv_cache s) j" by blast+
qed

lemma parse_layer_index_eq_Inr: "parse_layer_index name i = Inr n \<longleftrightarrow> int_of_text i = Inr n"
  by (auto simp: parse_layer_index_def adapter_error_def split: sum.split py_error.split)

text \<open>The grouping differs from the vLLM bridge's in its error messages only.\<close>

lemma pt_group_tensor_eq_Inr: "pt_group_tensor t g = Inr g' \<longleftrightarrow> group_tensor t g = Inr g'"
proof -
  have "(case name of JStr s \<Rightarrow> (case split_on (CHR ''.'') s of
            [a, i, part] \<Rightarrow> if a \<noteq> ''layer'' \<or> part \<notin> {''key'', ''value''} then adapter_error (e s)
              else bindR (parse_layer_index s i) (\<lambda>layer_index. Inr (put_tensor layer_index part t g)) | _ \<Rightarrow> adapter_error (e s)) | _ \<Rightarrow> adapter_error e') = Inr g' \<longleftrightarrow>
        (case name of JStr s \<Rightarrow> (case split_on (CHR ''.'') s of
            [a, i, part] \<Rightarrow> if a \<noteq> ''layer'' \<or> part \<notin> {''key'', ''value''} then adapter_error (e s)
              else bindR (int_of_text i) (\<lambda>layer_index. Inr (put_tensor layer_index part t g)) | _ \<Rightarrow> adapter_error (e s)) | _ \<Rightarrow> adapter_error e') = Inr g'" for name e e'
    by (cases name) (simp_all split: list.split, auto simp: bindR_eq_Inr parse_layer_index_eq_Inr)
  then show ?thesis unfolding pt_group_tensor_def group_tensor_def bindR_eq_Inr by simp
qed

lemma pt_group_eq_Inr: "foldR pt_group_tensor ts g = Inr g' \<longleftrightarrow> foldR group_tensor ts g = Inr g'"
  by (induction ts arbitrary: g) (auto simp: bindR_eq_Inr pt_group_tensor_eq_Inr)

lemma pt_group_distinct: "pt_group_layer_tensors ts = Inr g \<Longrightarrow> distinct (map fst (sort_key fst g)) \<and> set (sort_key fst g) = set g"
  using group_layers_keys [of ts "[]" g] by (simp add: pt_group_layer_tensors_def pt_group_eq_Inr distinct_map)

text \<open>What a successful registration has done.\<close>

lemma pt_register_parts:
  assumes "pt_register_permeant_block env now payload s = (Inr r, t)"
  obtains h ts g ls u v w where "first_truthy payload ''hash'' ''block_hash'' = JStr h" "h \<noteq> []"
    "map_of payload ''tensors'' = Some (JList ts)" "pt_group_layer_tensors ts = Inr g"
    "pt_register_layers env (sort_key fst g) s = (Inr ls, u)"
    "pt_persist_runtime_summary env (note_block h (block_summary env h ls) u) = (Inr (), v)"
    "pt_probe env now (dict_update [(''event'', JStr ''register_permeant_block'')] (block_summary env h ls)) v = (Inr (), t)"
proof -
  obtain c cs where h: "first_truthy payload ''hash'' ''block_hash'' = JStr (c # cs)"
    using assms by (auto simp: pt_register_permeant_block_def liftS_def split: json.splits list.splits)
  obtain x xs where ts: "map_of payload ''tensors'' = Some (JList (x # xs))"
    using assms unfolding pt_register_permeant_block_def h
    by (auto simp: liftS_def field_or_def split: json.splits list.splits option.splits)
  from assms that [OF h _ ts] show thesis
    unfolding pt_register_permeant_block_def h field_or_def ts
    by (auto simp: bindS_eq_Inr liftS_def Let_def)
qed

lemma cached_cong: "kv_cache s = kv_cache t \<Longrightarrow> layer_cached env s i layer = layer_cached env t i layer"
  by (simp add: layer_cached_def)

lemma pt_on_fs_cache: "pt_on_fs m s = (r, t) \<Longrightarrow> t = s\<lparr>pt_fs := pt_fs t\<rparr>"
  by (auto simp: pt_on_fs_def split: prod.splits)

lemma pt_persist_cache: "pt_persist_runtime_summary env s = (r, t) \<Longrightarrow> t = s\<lparr>pt_fs := pt_fs t\<rparr>"
  by (auto simp: pt_persist_runtime_summary_def split: option.splits dest: pt_on_fs_cache)

lemma registered_layers_cached:
  assumes "pt_register_permeant_block env now payload s = (Inr r, t)"
  shows "\<exists>ts g. map_of payload ''tensors'' = Some (JList ts) \<and> pt_group_layer_tensors ts = Inr g \<and>
    (\<forall>(i, layer)\<in>set g. layer_cached env t i layer)"
proof (rule pt_register_parts [OF assms])
  fix h ts g ls u v
  assume ts: "map_of payload ''tensors'' = Some (JList ts)" "pt_group_layer_tensors ts = Inr g"
    and l: "pt_register_layers env (sort_key fst g) s = (Inr ls, u)"
    and p: "pt_persist_runtime_summary env (note_block h (block_summary env h ls) u) = (Inr (), v)"
    and e: "pt_probe env now (dict_update [(''event'', JStr ''register_permeant_block'')] (block_summary env h ls)) v = (Inr (), t)"
  have "kv_cache t = kv_cache v" using pt_on_fs_cache [OF e [unfolded pt_probe_def]] by (metis pt_runtime.select_convs(1) pt_runtime.surjective pt_runtime.update_convs(6))
  also have "\<dots> = kv_cache u" using pt_persist_cache [OF p] by (metis note_block_def pt_runtime.select_convs(1) pt_runtime.surjective pt_runtime.update_convs(6) pt_runtime.update_convs(2) pt_runtime.update_convs(3))
  finally have "layer_cached env t i layer = layer_cached env u i layer" for i layer by (rule cached_cong)
  then show ?thesis
    using register_layers_ok(1) [OF l] pt_group_distinct [OF ts(2)] ts by auto
qed

text \<open>The runtime keeps what it accepts. After a successful registration every layer that the tensors of the request name is in
  the cache, as what the backend makes of exactly the numbers of its key and value tensors in their order.\<close>

theorem registered_tensors_cached:
  assumes "pt_register_permeant_block env now payload s = (Inr r, t)"
  shows "\<exists>ts g. map_of payload ''tensors'' = Some (JList ts) \<and> pt_group_layer_tensors ts = Inr g \<and>
    (\<forall>(i, layer)\<in>set g. layer_cached env t i layer)"
  using assms by (rule registered_layers_cached)

section \<open>Hashes on disk survive calls and restarts\<close>

definition pt_knows :: "pt_env \<Rightarrow> pt_runtime \<Rightarrow> string set" where
  "pt_knows env s = (case pt_state_file env of Some p \<Rightarrow> disk.listed (pt_fs s) p | None \<Rightarrow> {})"

definition pt_steady :: "pt_runtime \<Rightarrow> bool" where
  "pt_steady s \<longleftrightarrow> wf_json (JObj (block_summaries s))"

text \<open>A step keeps what the disk lists and the log writable, whatever its outcome, and a value it returns has the
  property \<open>P\<close>.\<close>

definition pt_logs :: "pt_env \<Rightarrow> pt_runtime \<Rightarrow> bool" where
  "pt_logs env s \<longleftrightarrow> logs (pt_probe_file env) (pt_fs s)"

definition pt_keeps :: "pt_env \<Rightarrow> (pt_runtime, 'a) st \<Rightarrow> ('a \<Rightarrow> bool) \<Rightarrow> bool" where
  "pt_keeps env m P \<longleftrightarrow> (\<forall>s r t. pt_steady s \<longrightarrow> m s = (r, t) \<longrightarrow>
     pt_knows env s \<subseteq> pt_knows env t \<and> pt_steady t \<and> (pt_logs env s \<longrightarrow> pt_logs env t) \<and> (\<forall>x. r = Inr x \<longrightarrow> P x))"

lemma pt_keepsD:
  "pt_keeps env m P \<Longrightarrow> pt_steady s \<Longrightarrow> m s = (r, t) \<Longrightarrow>
     pt_knows env s \<subseteq> pt_knows env t \<and> pt_steady t \<and> (pt_logs env s \<longrightarrow> pt_logs env t) \<and> (\<forall>x. r = Inr x \<longrightarrow> P x)"
  by (simp add: pt_keeps_def)

lemma pt_keeps_bind:
  assumes "pt_keeps env m P" and "\<And>x. P x \<Longrightarrow> pt_keeps env (f x) Q"
  shows "pt_keeps env (bindS m f) Q"
  unfolding pt_keeps_def
proof (intro allI impI)
  fix s r t
  assume s: "pt_steady s" and b: "bindS m f s = (r, t)"
  obtain x u where m: "m s = (x, u)" by fastforce
  note 1 = pt_keepsD [OF assms(1) s m]
  show "pt_knows env s \<subseteq> pt_knows env t \<and> pt_steady t \<and> (pt_logs env s \<longrightarrow> pt_logs env t) \<and> (\<forall>x. r = Inr x \<longrightarrow> Q x)"
  proof (cases x)
    case (Inr y)
    then have "f y u = (r, t)" using b m by (simp add: bindS_def)
    with pt_keepsD [OF assms(2) [of y]] 1 Inr show ?thesis by blast
  qed (use b m 1 in \<open>auto simp: bindS_def\<close>)
qed

lemma pt_keeps_lift: "(\<And>x. r = Inr x \<Longrightarrow> P x) \<Longrightarrow> pt_keeps env (liftS r) P"
  by (simp add: pt_keeps_def liftS_def)

lemma pt_keeps_same:
  "(\<And>s r t. m s = (r, t) \<Longrightarrow> pt_fs t = pt_fs s \<and> block_summaries t = block_summaries s \<and> (\<forall>x. r = Inr x \<longrightarrow> P x)) \<Longrightarrow> pt_keeps env m P"
  by (simp add: pt_keeps_def pt_knows_def pt_steady_def pt_logs_def split: option.splits)

lemma pt_keeps_weaken: "pt_keeps env m P \<Longrightarrow> (\<And>x. P x \<Longrightarrow> Q x) \<Longrightarrow> pt_keeps env m Q"
  unfolding pt_keeps_def by blast

lemma pt_keeps_load:
  "pt_keeps env (pt_on_fs (load_persisted_hashes sf)) (\<lambda>_. True)" "pt_keeps env (pt_on_fs (load_persisted_blocks sf)) (\<lambda>_. True)"
  by (rule pt_keeps_same; auto simp: pt_on_fs_def split: prod.splits dest: load_persisted_pure)+

lemma pt_keeps_probe:
  assumes "wf_json now" and "wf_json (JObj payload)"
  shows "pt_keeps env (pt_probe env now payload) (\<lambda>_. True)"
  using append_probe_event_keeps [OF _ assms] append_probe_event_logs [OF _ assms]
  by (fastforce simp: pt_keeps_def pt_probe_def pt_on_fs_def pt_knows_def pt_steady_def pt_logs_def split: prod.splits option.splits)

lemma keys_dict_update: "fst ` set (dict_update d new) = fst ` set d \<union> fst ` set new"
  unfolding dict_update_def by (induction new arbitrary: d) (simp_all add: case_prod_beta fst_set_dict_set)

lemma pt_persist_listed:
  assumes "pt_persist_runtime_summary env s = (r, t)" and "pt_steady s"
  shows "pt_knows env s \<subseteq> pt_knows env t" and "r = Inr () \<Longrightarrow> pt_state_file env = Some p \<Longrightarrow> fst ` set (block_summaries s) \<subseteq> pt_knows env t"
    and "block_summaries t = block_summaries s" and "pt_logs env s \<Longrightarrow> pt_logs env t"
proof -
  have "pt_knows env s \<subseteq> pt_knows env t \<and> (pt_logs env s \<longrightarrow> pt_logs env t) \<and> (r = Inr () \<longrightarrow> pt_state_file env = Some p \<longrightarrow> fst ` set (block_summaries s) \<subseteq> pt_knows env t)"
  proof (cases "pt_state_file env")
    case (Some q)
    obtain x f where x: "load_persisted_blocks (Some q) (pt_fs s) = (x, f)" by fastforce
    show ?thesis
    proof (cases x)
      case (Inr existing)
      let ?b = "dict_update existing (block_summaries s)"
      define d where "d = [(''target_runtime'', JStr ''pytorch-reference''), (''tensor_backend'', JStr (tensor_backend env)),
               (''device'', JStr (pt_device env)), (''dtype'', JStr (pt_dtype env)),
               (''registered_hashes'', JList (map JStr (sort (map fst ?b)))), (''blocks'', JObj ?b)]"
      have e: "existing = blocks_field (fs_doc (pt_fs s) q)" "f = pt_fs s" using load_persisted_blocks_ok x Inr by force+
      have w: "write_dict q d (pt_fs s) = (r, pt_fs t)"
        using assms(1) Some x Inr e(2) by (auto simp: pt_persist_runtime_summary_def pt_on_fs_def bindIO_def Let_def d_def split: prod.splits)
      have "wf_json (JObj existing)" using wf_blocks_field [OF fs_doc_wf] by (simp add: e(1))
      then have wb: "wf_json (JObj ?b)" using assms(2) by (intro wf_dict_update) (auto simp: pt_steady_def)
      then have wf: "wf_json (JObj d)" unfolding d_def by (simp add: dict_keys_ok_def list_all_iff)
      have bd: "blocks_field d = ?b" by (simp add: d_def blocks_field_def field_or_def)
      have keep: "disk.listed (pt_fs s) q \<subseteq> disk.listed (pt_fs t) q"
        by (rule disk.put_keeps [OF w wf]) (simp add: bd keys_dict_update disk.listed_def e(1))
      moreover have "fst ` set (block_summaries s) \<subseteq> disk.listed (pt_fs t) q" if "r = Inr ()"
        using disk.put_lists [OF w [unfolded that] wf] by (simp add: bd keys_dict_update)
      moreover have "pt_logs env s \<longrightarrow> pt_logs env t" using write_keeps_ready [OF w wf] by (auto simp: pt_logs_def logs_def)
      ultimately show ?thesis using Some by (auto simp: pt_knows_def)
    qed (use assms(1) Some x load_persisted_pure(1) [OF x] in \<open>auto simp: pt_persist_runtime_summary_def pt_on_fs_def bindIO_def pt_knows_def pt_logs_def\<close>)
  qed (use assms(1) in \<open>simp add: pt_persist_runtime_summary_def pt_knows_def\<close>)
  then show "pt_knows env s \<subseteq> pt_knows env t" "pt_logs env s \<Longrightarrow> pt_logs env t" "r = Inr () \<Longrightarrow> pt_state_file env = Some p \<Longrightarrow> fst ` set (block_summaries s) \<subseteq> pt_knows env t" by blast+
  show "block_summaries t = block_summaries s"
    using assms(1) by (auto simp: pt_persist_runtime_summary_def pt_on_fs_def split: option.splits prod.splits)
qed

lemma squeeze_ints: "list_all is_int dims \<Longrightarrow> list_all is_int (squeeze dims)"
  by (cases dims) (auto simp: squeeze_def)

lemma canonical_dims: "pt_canonical_tensor_data tensor = Inr (dims, vs, nested) \<Longrightarrow> list_all is_int dims"
  by (auto simp: pt_canonical_tensor_data_def squeeze_ints bindR_eq_Inr Let_def split: if_splits json.splits
      simp del: nested_from_flat.simps py_get_or_JObj)

lemma int_wf: "is_int v \<Longrightarrow> wf_json v"
  by (cases v) auto

lemma pt_keeps_layer: "pt_keeps env (pt_register_layer env l) wf_json"
proof (rule pt_keeps_same)
  fix s r t
  assume a: "pt_register_layer env l s = (r, t)"
  obtain i layer where l: "l = (i, layer)" by fastforce
  show "pt_fs t = pt_fs s \<and> block_summaries t = block_summaries s \<and> (\<forall>x. r = Inr x \<longrightarrow> wf_json x)"
  proof (cases "map_of layer ''key''")
    case (Some kt)
    show ?thesis
    proof (cases "map_of layer ''value''")
      case v: (Some vt)
      show ?thesis
      proof (cases "pt_canonical_tensor_data kt")
        case k: (Inr kr)
        obtain ks kvs kn where kr: "kr = (ks, kvs, kn)" by (metis prod_cases3)
        have d: "list_all wf_json ks" using canonical_dims k kr by (auto simp: list_all_iff int_wf)
        then show ?thesis
          using a Some v k kr
          by (auto simp: l pt_register_layer_def bindS_liftS liftS_def differing_shapes_def adapter_error_def layer_summary_def
              bindR_eq_Inr dict_keys_ok_def split: sum.splits if_splits)
      qed (use a Some v in \<open>auto simp: l pt_register_layer_def bindS_liftS\<close>)
    qed (use a Some in \<open>auto simp: l pt_register_layer_def liftS_def adapter_error_def\<close>)
  qed (use a in \<open>auto simp: l pt_register_layer_def liftS_def adapter_error_def\<close>)
qed

lemma pt_keeps_layers: "pt_keeps env (pt_register_layers env ls) (list_all wf_json)"
proof (induction ls)
  case (Cons l ls)
  have "pt_keeps env (bindS (pt_register_layer env l) (\<lambda>x. bindS (pt_register_layers env ls) (\<lambda>xs. liftS (Inr (x # xs))))) (list_all wf_json)"
    by (rule pt_keeps_bind [OF pt_keeps_layer]; rule pt_keeps_bind [OF Cons.IH]; rule pt_keeps_lift) auto
  then show ?case by (simp add: pt_keeps_def)
qed (simp add: pt_keeps_def)

lemma pt_keeps_persist: "pt_keeps env (pt_persist_runtime_summary env) (\<lambda>_. True)"
  unfolding pt_keeps_def using pt_persist_listed by (metis pt_steady_def)

lemma block_summary_wf: "list_all wf_json ls \<Longrightarrow> wf_json (JObj (block_summary env h ls))"
  by (simp add: block_summary_def dict_keys_ok_def)

lemma event_wf: "wf_json (JObj d) \<Longrightarrow> wf_json (JObj (dict_update [(''event'', JStr e)] d))"
  by (rule wf_dict_update) (simp_all add: dict_keys_ok_def)

lemma pt_keeps_note:
  "wf_json (JObj summary) \<Longrightarrow> pt_keeps env (\<lambda>s. (Inr (), note_block h summary s)) (\<lambda>_. True)"
  by (auto simp: pt_keeps_def pt_knows_def pt_steady_def pt_logs_def note_block_def wf_dict_set simp del: wf_json.simps split: option.splits)

lemma pt_keeps_register:
  assumes "wf_json now"
  shows "pt_keeps env (pt_register_permeant_block env now payload) (\<lambda>_. True)"
proof -
  have "pt_keeps env (bindS (liftS (pt_group_layer_tensors ts)) (\<lambda>grouped.
      bindS (pt_register_layers env (sort_key fst grouped)) (\<lambda>ls.
      let summary = block_summary env h ls in
      bindS (\<lambda>s. (Inr (), note_block h summary s)) (\<lambda>_.
      bindS (pt_persist_runtime_summary env) (\<lambda>_.
      bindS (pt_probe env now (dict_update [(''event'', JStr ''register_permeant_block'')] summary)) (\<lambda>_.
        liftS (Inr (JObj [(''success'', JBool True), (''accepted_state'', JObj summary)])))))))) (\<lambda>_. True)" for ts h
    unfolding Let_def
    by (rule pt_keeps_bind [OF pt_keeps_lift [where P = "\<lambda>_. True"]], simp, rule pt_keeps_bind [OF pt_keeps_layers],
      rule pt_keeps_bind [OF pt_keeps_note [OF block_summary_wf]], assumption, rule pt_keeps_bind [OF pt_keeps_persist],
      rule pt_keeps_bind [OF pt_keeps_probe [OF assms event_wf [OF block_summary_wf]]], assumption, rule pt_keeps_lift, simp)
  then show ?thesis
    unfolding pt_register_permeant_block_def by (auto split: json.split list.split intro!: pt_keeps_lift)
qed

lemma pt_keeps_available: "pt_keeps env (available_hashes env) (\<lambda>_. True)"
  by (rule pt_keeps_same)
    (auto simp: available_hashes_def bindS_def pt_on_fs_def liftS_def split: prod.splits sum.splits dest: load_persisted_pure)

lemma continuation_proof_wf: "wf_json hashes \<Longrightarrow> pt_keeps env (pt_build_continuation_proof env prompt hashes) wf_json"
  unfolding pt_build_continuation_proof_def
  by (rule pt_keeps_bind [OF pt_keeps_available]) (rule pt_keeps_same, auto simp: Let_def dict_keys_ok_def list_all_iff)

lemma strs_wf: "list_all is_str hs \<Longrightarrow> list_all wf_json hs"
  by (auto simp: list_all_iff elim!: is_str.elims)

lemma pt_keeps_verdict:
  assumes "list_all is_str hashes"
  shows "pt_keeps env (pt_verdict env payload hashes available) (\<lambda>d. wf_json (JObj d))"
proof -
  have h: "list_all wf_json hashes" using strs_wf [OF assms] .
  have "pt_keeps env (bindS (pt_build_continuation_proof env p (JList hashes)) (\<lambda>x.
      liftS (Inr (dict_set ''continuation_proof'' x [(''success'', JBool True), (''verified_hashes'', JList hashes)])))) (\<lambda>d. wf_json (JObj d))" for p
    by (rule pt_keeps_bind [OF continuation_proof_wf]) (use h in \<open>auto intro!: pt_keeps_lift simp: dict_keys_ok_def\<close>)
  then show ?thesis
    using h unfolding pt_verdict_def Let_def
    by (auto split: json.split list.split intro!: pt_keeps_lift simp: dict_keys_ok_def list_all_iff)
qed

lemma string_list_strs: "string_list v = Some hs \<Longrightarrow> list_all is_str hs \<and> v = JList hs"
  by (auto simp: string_list_def split: json.splits if_splits)

lemma pt_keeps_verify:
  assumes "wf_json now"
  shows "pt_keeps env (pt_verify_permeant_hashes env now payload) (\<lambda>_. True)"
proof -
  have "pt_keeps env (bindS (available_hashes env) (\<lambda>available.
          bindS (pt_verdict env payload hashes available) (\<lambda>result.
          bindS (\<lambda>s. (Inr (), s\<lparr>last_verify_result := JObj result\<rparr>)) (\<lambda>_.
          bindS (pt_probe env now (dict_update [(''event'', JStr ''verify_permeant_hashes'')] result)) (\<lambda>_.
            liftS (Inr (JObj result))))))) (\<lambda>_. True)" if "list_all is_str hashes" for hashes
    by (rule pt_keeps_bind [OF pt_keeps_available], rule pt_keeps_bind [OF pt_keeps_verdict [OF that]],
      rule pt_keeps_bind [OF pt_keeps_same [where P = "\<lambda>_. True"]], force,
      rule pt_keeps_bind [OF pt_keeps_probe [OF assms event_wf]], assumption, rule pt_keeps_lift, simp)
  then show ?thesis
    unfolding pt_verify_permeant_hashes_def by (auto split: option.split intro!: pt_keeps_lift dest: string_list_strs)
qed

lemma pt_keeps_export:
  assumes "wf_json now"
  shows "pt_keeps env (pt_export_reverse_runtime_state env now) (\<lambda>_. True)"
proof -
  have "field_or (pt_export_state env known blocks s) ''proof_hash'' JNull =
      JStr (sha256_json (JObj (butlast (pt_export_state env known blocks s))))" for known blocks s
    by (simp add: pt_export_state_def field_or_def)
  then have ev: "wf_json (JObj [(''event'', JStr e), (''proof_hash'', field_or (pt_export_state env known blocks s) ''proof_hash'' JNull),
      (''registered_hash_count'', JInt n)])" for e known blocks s n
    by (simp add: dict_keys_ok_def)
  have "pt_keeps env (bindS (pt_probe env now
         [(''event'', JStr ''reverse_runtime_state_export_api''), (''proof_hash'', field_or (pt_export_state env known blocks s) ''proof_hash'' JNull),
          (''registered_hash_count'', JInt n)]) (\<lambda>_. liftS (Inr v))) (\<lambda>_. True)" for known blocks s n and v :: json
    by (rule pt_keeps_bind [OF pt_keeps_probe [OF assms ev]]) (simp add: pt_keeps_lift)
  note probe = pt_keepsD [OF this]
  show ?thesis
    unfolding pt_export_reverse_runtime_state_def Let_def
    by (rule pt_keeps_bind [OF pt_keeps_available], rule pt_keeps_bind [OF pt_keeps_load(2)], unfold pt_keeps_def, intro allI impI)
      (rule probe; assumption)
qed

lemma pt_keeps_hook:
  assumes "wf_json now"
  shows "pt_keeps env (pt_runtime_hook env now payload) (\<lambda>_. True)"
  unfolding pt_runtime_hook_def
proof (rule pt_keeps_bind [OF pt_keeps_lift [where P = "\<lambda>_. True"]])
  fix kind
  have "pt_keeps env (liftS r) (\<lambda>_. True)" for r :: "json res" by (rule pt_keeps_lift) simp
  then show "pt_keeps env
     (if kind = ''inject_block'' then pt_register_permeant_block env now (payload_for_kind payload ''inject_block'')
      else if kind = ''verify_continuation'' then pt_verify_permeant_hashes env now (payload_for_kind payload ''verify_continuation'')
      else if kind = ''export_reverse_runtime_state'' then pt_export_reverse_runtime_state env now
      else liftS (adapter_error (''unsupported PyTorch runtime request kind '' @ [CHR 0x27] @ kind @ [CHR 0x27]))) (\<lambda>_. True)"
    using pt_keeps_register [OF assms] pt_keeps_verify [OF assms] pt_keeps_export [OF assms] by presburger
qed simp

text \<open>The life of the target: calls of the hook, whatever they are asked and however they end, and restarts of the
  process, which lose everything but the disk.\<close>

inductive pt_step :: "pt_env \<Rightarrow> pt_runtime \<Rightarrow> pt_runtime \<Rightarrow> bool" for env where
  call: "wf_json now \<Longrightarrow> pt_runtime_hook env now payload s = (r, t) \<Longrightarrow> pt_step env s t"
| restart: "pt_step env s (pt_new_runtime (pt_fs s))"

inductive_cases pt_stepE: "pt_step env s t"

lemma pt_step_keeps: "pt_step env s t \<Longrightarrow> pt_steady s \<Longrightarrow>
  pt_knows env s \<subseteq> pt_knows env t \<and> pt_steady t \<and> (pt_logs env s \<longrightarrow> pt_logs env t)"
proof (erule pt_stepE)
  assume "t = pt_new_runtime (pt_fs s)"
  then show ?thesis by (simp add: pt_new_runtime_def pt_knows_def pt_steady_def pt_logs_def dict_keys_ok_def split: option.split)
qed (use pt_keepsD [OF pt_keeps_hook] in blast)

interpretation pt_knowledge: growing_knowledge "pt_knows env" "pt_step env" "\<lambda>s. pt_steady s \<and> pt_logs env s"
  by unfold_locales (use pt_step_keeps in blast)+

lemma listed_readable:
  assumes "h \<in> disk.listed f p"
  shows "load_persisted_hashes (Some p) f = (Inr (map fst (blocks_field (fs_doc f p))), f)"
proof -
  have "fs_doc f p \<noteq> []" using assms by (auto simp: disk.listed_def blocks_field_def field_or_def)
  then obtain b d where b: "files f p = Some b" "bindR (utf8_decode b) json_loads = Inr (JObj d)" "fs_doc f p = d"
    by (auto simp: fs_doc_def split: option.splits sum.splits json.splits)
  then have r: "read_bytes f p = Inr b" by (simp add: files_eq_Some)
  then have "path_exists f p" by (simp add: path_exists_def read_bytes_iff)
  with b r have "read_dict p f = (Inr (fs_doc f p), f)"
    by (simp add: read_dict_def read_json_def bindIO_def read_file_def)
  then show ?thesis by (simp add: load_persisted_hashes_def load_persisted_blocks_def bindIO_def)
qed

lemma pt_registered_known:
  assumes reg: "pt_register_permeant_block env now payload s = (Inr r, t)" and now: "wf_json now" and s: "pt_steady s"
    and h: "first_truthy payload ''hash'' ''block_hash'' = JStr h" and p: "pt_state_file env = Some p"
  shows "h \<in> pt_knows env t" and "pt_steady t" and "pt_logs env t"
proof -
  show "pt_steady t" using pt_keepsD [OF pt_keeps_register [OF now] s reg] by blast
  have "h \<in> pt_knows env t \<and> pt_logs env t"
  proof (rule pt_register_parts [OF reg])
    fix h' ts g ls u v
    assume h': "first_truthy payload ''hash'' ''block_hash'' = JStr h'"
      and l: "pt_register_layers env (sort_key fst g) s = (Inr ls, u)"
      and pe: "pt_persist_runtime_summary env (note_block h' (block_summary env h' ls) u) = (Inr (), v)"
      and e: "pt_probe env now (dict_update [(''event'', JStr ''register_permeant_block'')] (block_summary env h' ls)) v = (Inr (), t)"
    let ?n = "note_block h' (block_summary env h' ls)"
    have hh: "h' = h" using h h' by simp
    have 1: "pt_steady u" "list_all wf_json ls" using pt_keepsD [OF pt_keeps_layers s l] by auto
    have wf: "wf_json (JObj (block_summary env h' ls))" using block_summary_wf [OF 1(2)] .
    have 2: "pt_steady (?n u)" using pt_keepsD [OF pt_keeps_note [OF wf] 1(1) refl] by blast
    have "h \<in> fst ` set (block_summaries (?n u))" by (simp add: note_block_def fst_set_dict_set hh)
    then have "h \<in> pt_knows env v" using pt_persist_listed(2) [OF pe 2 refl p] by blast
    moreover have "pt_steady v" using pt_keepsD [OF pt_keeps_persist 2 pe] by blast
    ultimately have "h \<in> pt_knows env t" using pt_keepsD [OF pt_keeps_probe [OF now event_wf [OF wf]] _ e] by blast
    moreover have "pt_logs env t"
      using e append_probe_event_logged [OF _ now event_wf [OF wf]] by (fastforce simp: pt_probe_def pt_on_fs_def pt_logs_def split: prod.splits)
    ultimately show ?thesis ..
  qed
  then show "h \<in> pt_knows env t" "pt_logs env t" by blast+
qed

lemma pt_verify_known:
  assumes "h \<in> pt_knows env s" and "pt_logs env s"
  shows "\<exists>t. pt_verify_permeant_hashes env now [(''block_hashes'', JList [JStr h])] s =
    (Inr (JObj [(''success'', JBool True), (''verified_hashes'', JList [JStr h])]), t)"
proof -
  obtain p where p: "pt_state_file env = Some p" "h \<in> disk.listed (pt_fs s) p" using assms(1) by (auto simp: pt_knows_def split: option.splits)
  define known where "known = remdups (registered_hashes s @ map fst (blocks_field (fs_doc (pt_fs s) p)))"
  have a: "available_hashes env s = (Inr known, s)"
    using listed_readable [OF p(2)] p(1) by (simp add: available_hashes_def bindS_def pt_on_fs_def liftS_def known_def)
  have "h \<in> set known" using p(2) by (simp add: known_def disk.listed_def)
  then have v: "pt_verdict env [(''block_hashes'', JList [JStr h])] [JStr h] known s =
      (Inr [(''success'', JBool True), (''verified_hashes'', JList [JStr h])], s)"
    by (simp add: pt_verdict_def first_truthy_def field_or_def liftS_def)
  let ?r = "[(''success'', JBool True), (''verified_hashes'', JList [JStr h])]"
  have sl: "string_list (first_truthy [(''block_hashes'', JList [JStr h])] ''block_hashes'' ''expected_hashes'') = Some [JStr h]"
    by (simp add: string_list_def first_truthy_def field_or_def)
  have pr: "\<exists>g. append_probe_event (pt_probe_file env) now payload (pt_fs s) = (Inr (), g)" for payload
    using append_probe_event_possible assms(2) by (simp add: pt_logs_def)
  have "\<exists>t. pt_probe env now payload (s\<lparr>last_verify_result := x\<rparr>) = (Inr (), t)" for payload x
    using pr [of payload] by (auto simp: pt_probe_def pt_on_fs_def)
  then obtain t where "pt_probe env now (dict_update [(''event'', JStr ''verify_permeant_hashes'')] ?r) (s\<lparr>last_verify_result := JObj ?r\<rparr>) = (Inr (), t)"
    by blast
  with sl show ?thesis using a v by (simp add: pt_verify_permeant_hashes_def bindS_def liftS_def)
qed

text \<open>C21: A registered block outlives the process. With a state file configured, a block whose registration succeeded
  passes the continuation check after any further calls, failed ones included, and any number of restarts, with a probe
  file or without one: the check's own event can always be logged, since the registration's could.\<close>

theorem registered_block_survives:
  assumes "pt_register_permeant_block env now payload s = (Inr r, s1)" and "wf_json now" and "pt_steady s"
    and "first_truthy payload ''hash'' ''block_hash'' = JStr h" and "pt_state_file env = Some p"
    and "(pt_step env)\<^sup>*\<^sup>* s1 s2"
  shows "\<exists>t. pt_verify_permeant_hashes env now' [(''block_hashes'', JList [JStr h])] s2 =
    (Inr (JObj [(''success'', JBool True), (''verified_hashes'', JList [JStr h])]), t)"
proof -
  note k = pt_registered_known [OF assms(1-5)]
  have "h \<in> pt_knows env s2 \<and> pt_logs env s2" using pt_knowledge.steps_keep [OF assms(6)] k by blast
  then show ?thesis by (intro pt_verify_known) blast+
qed

section \<open>A small block\<close>

definition pt_sample_env :: pt_env where
  "pt_sample_env = \<lparr>pt_state_var = Some ''/state.json'', pt_probe_var = Some ''/probe.json'', expanduser = (\<lambda>p. p), torch_tensor = None,
     pt_device = ''cpu'', pt_dtype = ''float32''\<rparr>"

definition pt_sample_tensor :: "string \<Rightarrow> json" where
  "pt_sample_tensor part = JObj [(''name'', JStr (''layer.0.'' @ part)), (''shape'', JList [JInt 1, JInt 1, JInt 1]), (''data'', JList [JFloat (Fin 0)])]"

definition pt_sample_block :: obj where
  "pt_sample_block = [(''hash'', JStr ''abc''), (''tensors'', JList [pt_sample_tensor ''key'', pt_sample_tensor ''value''])]"

lemma pt_sample_files [simp]: "pt_state_file pt_sample_env = Some (Path ''/state.json'')" "pt_probe_file pt_sample_env = Some (Path ''/probe.json'')"
  by (simp_all add: pt_state_file_def pt_probe_file_def env_path_def pt_sample_env_def)

lemma state_json_free:
  "write_dict (Path ''/state.json'') d Map.empty = (Inr (), [Path ''/state.json'' \<mapsto> FFile (utf8_encode (dumps_pretty (JObj d)))])"
  "read_dict (Path ''/state.json'') Map.empty = (Inr [], Map.empty)"
  by (simp_all add: write_dict_def write_with_parents_def mkdir_parents_def write_bytes_def bindIO_def node_at_def
      read_dict_def path_exists_def Path_def path_root_def path_parent_def path_prefixes_def)

lemma pt_sample_persist:
  assumes "pt_fs u = Map.empty"
  shows "\<exists>t b. pt_persist_runtime_summary pt_sample_env u = (Inr (), t) \<and> pt_fs t = [Path ''/state.json'' \<mapsto> FFile b]"
proof -
  let ?d = "[(''target_runtime'', JStr ''pytorch-reference''), (''tensor_backend'', JStr (tensor_backend pt_sample_env)),
    (''device'', JStr (pt_device pt_sample_env)), (''dtype'', JStr (pt_dtype pt_sample_env)),
    (''registered_hashes'', JList (map JStr (sort (map fst (dict_update [] (block_summaries u)))))),
    (''blocks'', JObj (dict_update [] (block_summaries u)))]"
  show ?thesis
    using assms state_json_free(1) [of ?d] state_json_free(2)
    by (intro exI [of _ "u\<lparr>pt_fs := [Path ''/state.json'' \<mapsto> FFile (utf8_encode (dumps_pretty (JObj ?d)))]\<rparr>"] exI)
      (simp add: pt_persist_runtime_summary_def pt_on_fs_def load_persisted_blocks_def bindIO_def blocks_field_def field_or_def Let_def)
qed

lemma pt_sample_probe:
  assumes "pt_fs u = [Path ''/state.json'' \<mapsto> FFile b]"
  shows "\<exists>t. pt_probe pt_sample_env now payload u = (Inr (), t)"
proof -
  have "read_dict (Path ''/probe.json'') (pt_fs u) = (Inr [], pt_fs u)"
    by (simp add: assms read_dict_def path_exists_def node_at_def Path_def path_root_def)
  moreover have "\<exists>f. write_dict (Path ''/probe.json'') d (pt_fs u) = (Inr (), f)" for d
    by (simp add: assms write_dict_def write_with_parents_def mkdir_parents_def write_bytes_def bindIO_def node_at_def
        Path_def path_root_def path_parent_def path_prefixes_def)
  then have "\<exists>f. append_probe_event (Some (Path ''/probe.json'')) now payload (pt_fs u) = (Inr (), f)"
    using calculation by (simp add: append_probe_event_def bindIO_def Let_def)
  then show ?thesis by (auto simp: pt_probe_def pt_on_fs_def)
qed

lemma pt_sample_registers:
  "\<exists>r t. pt_register_permeant_block pt_sample_env (JInt 0) pt_sample_block (pt_new_runtime Map.empty) = (Inr r, t)"
proof -
  have t: "pt_canonical_tensor_data (pt_sample_tensor part) = Inr ([JInt 1, JInt 1, JInt 1], [Fin 0], JList [JList [JList [JFloat (Fin 0)]]])" for part
    by (simp add: pt_canonical_tensor_data_def pt_sample_tensor_def nonempty_str_def squeeze_def Let_def)
  have g: "pt_group_layer_tensors [pt_sample_tensor ''key'', pt_sample_tensor ''value''] =
      Inr [(0, [(''key'', pt_sample_tensor ''key''), (''value'', pt_sample_tensor ''value'')])]"
    by code_simp
  obtain h where h: "f32_sha256 [Fin 0] = Inr h" by (simp add: f32_sha256_def pack_f32_def f32_bits_def)
  let ?k = "JList [JList [JList [JFloat (Fin 0)]]]"
  let ?s = "(pt_new_runtime Map.empty)\<lparr>kv_cache := AList.update 0 (?k, ?k) []\<rparr>"
  obtain ls where l: "pt_register_layers pt_sample_env [(0, [(''key'', pt_sample_tensor ''key''), (''value'', pt_sample_tensor ''value'')])]
      (pt_new_runtime Map.empty) = (Inr ls, ?s)"
    by (simp add: bindS_def pt_register_layer_def t liftS_def layer_summary_def h materialize_tensor_def pt_sample_env_def pt_new_runtime_def)
  have "pt_fs (note_block ''abc'' x ?s) = Map.empty" for x by (simp add: note_block_def pt_new_runtime_def)
  then obtain t b where p: "pt_persist_runtime_summary pt_sample_env (note_block ''abc'' (block_summary pt_sample_env ''abc'' ls) ?s) = (Inr (), t)"
    and fs: "pt_fs t = [Path ''/state.json'' \<mapsto> FFile b]"
    using pt_sample_persist by blast
  obtain t' where e: "pt_probe pt_sample_env (JInt 0) (dict_update [(''event'', JStr ''register_permeant_block'')]
      (block_summary pt_sample_env ''abc'' ls)) t = (Inr (), t')"
    using pt_sample_probe [OF fs] by blast
  have "first_truthy pt_sample_block ''hash'' ''block_hash'' = JStr ''abc''"
    "field_or pt_sample_block ''tensors'' JNull = JList [pt_sample_tensor ''key'', pt_sample_tensor ''value'']"
    by (simp_all add: first_truthy_def field_or_def pt_sample_block_def)
  then show ?thesis
    using g l p e by (simp add: pt_register_permeant_block_def bindS_def liftS_def Let_def del: pt_register_layers.simps)
qed

theorem registered_tensors_cached_witness:
  "\<exists>r t. pt_register_permeant_block pt_sample_env (JInt 0) pt_sample_block (pt_new_runtime Map.empty) = (Inr r, t) \<and>
    layer_cached pt_sample_env t 0 [(''key'', pt_sample_tensor ''key''), (''value'', pt_sample_tensor ''value'')]"
proof -
  obtain r t where r: "pt_register_permeant_block pt_sample_env (JInt 0) pt_sample_block (pt_new_runtime Map.empty) = (Inr r, t)"
    using pt_sample_registers by blast
  moreover have g: "pt_group_layer_tensors [pt_sample_tensor ''key'', pt_sample_tensor ''value''] =
      Inr [(0, [(''key'', pt_sample_tensor ''key''), (''value'', pt_sample_tensor ''value'')])]"
    by code_simp
  ultimately show ?thesis
    using registered_tensors_cached [OF r] by (auto simp: pt_sample_block_def pt_sample_env_def)
qed

theorem registered_block_survives_witness:
  "\<exists>r s t. pt_register_permeant_block pt_sample_env (JInt 0) pt_sample_block (pt_new_runtime Map.empty) = (Inr r, s) \<and>
    pt_verify_permeant_hashes pt_sample_env (JInt 1) [(''block_hashes'', JList [JStr ''abc''])] (pt_new_runtime (pt_fs s)) =
      (Inr (JObj [(''success'', JBool True), (''verified_hashes'', JList [JStr ''abc''])]), t)"
proof -
  obtain r s where r: "pt_register_permeant_block pt_sample_env (JInt 0) pt_sample_block (pt_new_runtime Map.empty) = (Inr r, s)"
    using pt_sample_registers by blast
  have h: "first_truthy pt_sample_block ''hash'' ''block_hash'' = JStr ''abc''" by (simp add: first_truthy_def field_or_def pt_sample_block_def)
  have "pt_steady (pt_new_runtime Map.empty)" by (simp add: pt_steady_def pt_new_runtime_def dict_keys_ok_def)
  moreover have "(pt_step pt_sample_env)\<^sup>*\<^sup>* s (pt_new_runtime (pt_fs s))" by (rule r_into_rtranclp, rule pt_step.restart)
  ultimately show ?thesis
    using registered_block_survives [OF r _ _ h pt_sample_files(1), of "pt_new_runtime (pt_fs s)" "JInt 1"] r by fastforce
qed

theorem zero_stride_raises_witness:
  "pt_canonical_tensor_data (JObj [(''name'', JStr ''layer.0.key''), (''shape'', JList [JInt 2, JInt 0, JInt 4]), (''data'', JList [])]) =
    Inl (ValueError ''range() arg 3 must not be zero'')"
  by (rule zero_stride_raises) simp_all

end
