(* ===== verification/LlamaRuntime.thy ===== *)
theory LlamaRuntime
  imports PytorchRuntime
begin

text \<open>
  The target runtime of \<^verbatim>\<open>adapters/llamacpp_runtime_bridge.py\<close>: it accepts canonical tensors by their digests, hands
  them to a live binding hook when one is configured, checks the evidence the hook returns, answers
  continuation checks and exports its state with a claim about what has been decoded. The environment
  variables, the search path and the runs of the installed tools are fields of an environment record. The
  live hook is an argument of each call: the kinds of its parameters and what it returns on a list of
  arguments, or raises; it gets its arguments by value. Loading it may itself fail.
\<close>

section \<open>Requests and responses\<close>

definition lc_request_kind :: "obj \<Rightarrow> string res" where
  "lc_request_kind request =
     (case (map_of request ''kind'', map_of request ''action'') of
        (Some (JStr k), _) \<Rightarrow> Inr k
      | (_, Some (JStr a)) \<Rightarrow> Inr a
      | _ \<Rightarrow>
          if map_of request ''inject_block'' \<noteq> None then Inr ''inject_block''
          else if map_of request ''verify_continuation'' \<noteq> None then Inr ''verify_continuation''
          else if map_of request ''tensors'' \<noteq> None \<and> (map_of request ''hash'' \<noteq> None \<or> map_of request ''block_hash'' \<noteq> None)
          then Inr ''inject_block''
          else if map_of request ''block_hashes'' \<noteq> None \<or> map_of request ''expected_hashes'' \<noteq> None
          then Inr ''verify_continuation''
          else adapter_error ''unable to determine llama.cpp request kind'')"

datatype param_kind = POSITIONAL_ONLY | POSITIONAL_OR_KEYWORD | VAR_POSITIONAL | KEYWORD_ONLY | VAR_KEYWORD

record live_hook =
  hook_parameters :: "param_kind list"
  hook_body :: "json list \<Rightarrow> json res"

definition supported_args :: "param_kind list \<Rightarrow> nat option" where
  "supported_args ps =
     (if VAR_POSITIONAL \<in> set ps then None
      else Some (length (filter (\<lambda>p. p \<in> {POSITIONAL_ONLY, POSITIONAL_OR_KEYWORD}) ps)))"

definition invoke :: "live_hook \<Rightarrow> json list \<Rightarrow> json res" where
  "invoke hook args =
     (case supported_args (hook_parameters hook) of
        None \<Rightarrow> hook_body hook args
      | Some n \<Rightarrow> hook_body hook (take n args))"

definition lc_normalize_response :: "json \<Rightarrow> obj res" where
  "lc_normalize_response payload =
     (case payload of
        JNull \<Rightarrow> Inr [(''success'', JBool True)]
      | JBool b \<Rightarrow> Inr [(''success'', JBool b)]
      | JObj d \<Rightarrow>
          (case field_or d ''success'' (JBool True) of
             JBool b \<Rightarrow> Inr (dict_set ''success'' (JBool b) d)
           | _ \<Rightarrow> adapter_error (''llama.cpp runtime response field '' @ repr_str ''success'' @ '' must be a boolean''))
      | _ \<Rightarrow> adapter_error ''llama.cpp runtime hook must return a JSON object, bool, or None'')"

section \<open>Binding evidence\<close>

definition binding_contract_version :: string where
  "binding_contract_version = ''permeantos-llamacpp-live-kv-binding-v0''"

definition lc_string_list :: "json \<Rightarrow> string \<Rightarrow> json list res" where
  "lc_string_list v field_name =
     (case v of
        JList xs \<Rightarrow>
          if list_all nonempty_str xs then Inr xs
          else adapter_error (''llama.cpp live binding field '' @ [CHR 0x27] @ field_name @ [CHR 0x27] @ '' must be a non-empty string list'')
      | _ \<Rightarrow> adapter_error (''llama.cpp live binding field '' @ [CHR 0x27] @ field_name @ [CHR 0x27] @ '' must be a non-empty string list''))"

definition binding_proof_hash :: "obj \<Rightarrow> string" where
  "binding_proof_hash evidence =
     (case field_or evidence ''proof_hash'' JNull of
        JStr h \<Rightarrow> if starts_with ''sha256:'' h then h else sha256_json (JObj evidence)
      | _ \<Rightarrow> sha256_json (JObj evidence))"

definition normalize_bound_hashes :: "obj \<Rightarrow> json list res" where
  "normalize_bound_hashes evidence =
     (let bound_hashes = field_or evidence ''bound_hashes'' JNull; bound_hash = field_or evidence ''bound_hash'' JNull in
      lc_string_list (if bound_hashes = JNull \<and> nonempty_str bound_hash then JList [bound_hash] else bound_hashes)
        ''binding_proof.bound_hashes'')"

definition normalized_proof :: "obj \<Rightarrow> json list \<Rightarrow> obj" where
  "normalized_proof evidence bound_hashes =
     dict_set ''proof_hash'' (JStr (binding_proof_hash evidence)) (dict_set ''bound_hashes'' (JList bound_hashes) evidence)"

definition validate_binding_result :: "obj \<Rightarrow> string \<Rightarrow> obj res" where
  "validate_binding_result result block_hash =
     (if \<not> truthy (field_or result ''success'' JNull) then adapter_error ''llama.cpp live binding hook reported failure''
      else if field_or result ''runtime_state_bound'' JNull \<noteq> JBool True
      then adapter_error ''llama.cpp live binding hook must set runtime_state_bound=true''
      else
        (case field_or result ''binding_proof'' JNull of
           JObj evidence \<Rightarrow>
             bindR (normalize_bound_hashes evidence) (\<lambda>bound_hashes.
             if JStr block_hash \<notin> set bound_hashes
             then adapter_error (''llama.cpp binding proof does not include migrated block hash '' @ block_hash)
             else if \<not> nonempty_str (field_or evidence ''context_id'' JNull)
             then adapter_error ''llama.cpp binding proof must include a non-empty context_id''
             else
               (case int_val (field_or evidence ''kv_token_count'' JNull) of
                  Some n \<Rightarrow>
                    if n < 0 then adapter_error ''llama.cpp binding proof must include non-negative integer kv_token_count''
                    else Inr (dict_set ''runtime_state_bound'' (JBool True)
                           (dict_set ''binding_proof'' (JObj (normalized_proof evidence bound_hashes))
                             (dict_set ''binding_contract_version'' (JStr binding_contract_version) result)))
                | None \<Rightarrow> adapter_error ''llama.cpp binding proof must include non-negative integer kv_token_count''))
         | _ \<Rightarrow> adapter_error ''llama.cpp live binding hook must return a binding_proof object''))"

definition continuation_hash :: "json list \<Rightarrow> string \<Rightarrow> json list \<Rightarrow> string" where
  "continuation_hash expected_hashes evidence_hash token_ids =
     sha256_json (JObj [(''contract'', JStr binding_contract_version), (''expected_hashes'', JList expected_hashes),
       (''binding_proof_hash'', JStr evidence_hash), (''token_ids'', JList token_ids)])"

definition validate_continuation_result :: "obj \<Rightarrow> json list \<Rightarrow> obj res" where
  "validate_continuation_result result expected_hashes =
     (if \<not> truthy (field_or result ''success'' JNull) then adapter_error ''llama.cpp live binding hook reported continuation failure''
      else
        (case field_or result ''continuation'' JNull of
           JObj continuation \<Rightarrow>
             (case field_or continuation ''token_ids'' JNull of
                JList token_ids \<Rightarrow>
                  if \<not> list_all is_int token_ids then adapter_error ''llama.cpp continuation evidence must include integer token_ids''
                  else if field_or continuation ''used_migrated_kv'' JNull \<noteq> JBool True
                  then adapter_error ''llama.cpp continuation evidence must set used_migrated_kv=true''
                  else
                    (case (if truthy (field_or result ''binding_proof'' JNull) then field_or result ''binding_proof'' JNull
                           else field_or continuation ''binding_proof'' JNull) of
                       JObj evidence \<Rightarrow>
                         bindR (normalize_bound_hashes evidence) (\<lambda>bound_hashes.
                         let missing = filter (\<lambda>h. h \<notin> set bound_hashes) expected_hashes in
                         if missing \<noteq> []
                         then adapter_error (''llama.cpp continuation binding proof is missing expected hashes: '' @ py_str (JList missing))
                         else Inr (dict_set ''continuation_proof_hash'' (JStr (continuation_hash expected_hashes (binding_proof_hash evidence) token_ids))
                                (dict_set ''continuation'' (JObj (dict_set ''used_migrated_kv'' (JBool True) continuation))
                                  (dict_set ''binding_proof'' (JObj (normalized_proof evidence bound_hashes))
                                    (dict_set ''binding_contract_version'' (JStr binding_contract_version) result)))))
                     | _ \<Rightarrow> adapter_error ''llama.cpp continuation evidence must include binding_proof'')
              | _ \<Rightarrow> adapter_error ''llama.cpp continuation evidence must include integer token_ids'')
         | _ \<Rightarrow> adapter_error ''llama.cpp live binding hook must return continuation evidence''))"

section \<open>Tensors\<close>

definition lc_canonical_tensor :: "json \<Rightarrow> (json list \<times> pyfloat list) res" where
  "lc_canonical_tensor tensor =
     bindR (py_get tensor ''name'') (\<lambda>name.
     bindR (py_get tensor ''shape'') (\<lambda>shape0.
     if \<not> nonempty_str name then adapter_error ''injector tensor is missing a valid name''
     else
       (case shape0 of
          JList dims0 \<Rightarrow>
            if \<not> list_all is_int dims0 then adapter_error (''tensor '' @ py_str name @ '' is missing a valid integer shape'')
            else
              (let dims = squeeze dims0; expected = prod_list (map (\<lambda>v. the (int_val v)) dims) in
               if length dims \<noteq> 3
               then adapter_error (''tensor '' @ py_str name @ '' must be canonical [seq, kv_heads, head_dim], got '' @ py_str (JList dims))
               else
                 bindR (py_get tensor ''data'') (\<lambda>data.
                 bindR (flatten_numeric data) (\<lambda>values.
                 if int (length values) \<noteq> expected
                 then adapter_error (''tensor '' @ py_str name @ '' contains '' @ nat_str (length values) @ '' values, expected '' @
                        int_str expected @ '' for shape '' @ py_str (JList dims))
                 else Inr (dims, values))))
        | _ \<Rightarrow> adapter_error (''tensor '' @ py_str name @ '' is missing a valid integer shape''))))"

definition lc_layer_summary :: "int \<times> obj \<Rightarrow> json res" where
  "lc_layer_summary = (\<lambda>(layer_index, layer).
     case (map_of layer ''key'', map_of layer ''value'') of
       (Some k, Some v) \<Rightarrow>
         bindR (lc_canonical_tensor k) (\<lambda>(key_shape, key_values).
         bindR (lc_canonical_tensor v) (\<lambda>(value_shape, value_values).
         if \<not> py_eq (JList key_shape) (JList value_shape) then differing_shapes layer_index key_shape value_shape
         else layer_summary layer_index key_shape key_values value_values))
     | _ \<Rightarrow> adapter_error (''layer '' @ int_str layer_index @ '' is missing key/value tensors''))"

definition lc_layer_summaries :: "json list \<Rightarrow> json list res" where
  "lc_layer_summaries tensors =
     (if tensors = [] then Inr []
      else bindR (pt_group_layer_tensors tensors) (\<lambda>grouped. mapR lc_layer_summary (sort_key fst grouped)))"

section \<open>Tools\<close>

record lc_env =
  lc_state_var :: "string option"
  lc_probe_var :: "string option"
  lc_expanduser :: "pypath \<Rightarrow> pypath"
  tool_var :: "string \<Rightarrow> string option"
  tool_var_at_import :: "string \<Rightarrow> string option"
  which :: "string \<Rightarrow> string option"
  path_is_executable :: "string \<Rightarrow> bool"
  version_run :: "string \<Rightarrow> string + int \<times> string"

definition nonempty_opt :: "string option \<Rightarrow> bool" where
  "nonempty_opt v \<longleftrightarrow> v \<noteq> None \<and> v \<noteq> Some []"

definition tool_path :: "lc_env \<Rightarrow> string \<Rightarrow> string \<Rightarrow> string option \<times> bool" where
  "tool_path env env_name default_name =
     (let configured = (if nonempty_opt (tool_var env env_name) then tool_var env env_name else tool_var_at_import env env_name) in
      if nonempty_opt configured then (configured, True) else (which env default_name, False))"

definition tool_version :: "lc_env \<Rightarrow> string option \<times> bool \<Rightarrow> json" where
  "tool_version env = (\<lambda>(path, configured).
     case path of
       Some (c # cs) \<Rightarrow>
         (let p = c # cs in
          case version_run env p of
            Inl exc \<Rightarrow> JObj [(''available'', JBool (configured \<and> path_is_executable env p)), (''path'', JStr p),
                (''configured'', JBool configured), (''error'', JStr exc)]
          | Inr (returncode, output) \<Rightarrow>
              JObj [(''available'', JBool (returncode = 0 \<or> configured \<and> path_is_executable env p)), (''path'', JStr p),
                (''configured'', JBool configured), (''returncode'', JInt returncode), (''version_output'', JStr (py_strip output))])
     | _ \<Rightarrow> JObj [(''available'', JBool False)])"

definition probe_llama_cpp_tools :: "lc_env \<Rightarrow> json" where
  "probe_llama_cpp_tools env =
     JObj [(''runtime'', JStr ''llama.cpp''),
       (''cli'', tool_version env (tool_path env ''PERMEANT_LLAMA_CPP_CLI'' ''llama-cli'')),
       (''server'', tool_version env (tool_path env ''PERMEANT_LLAMA_CPP_SERVER'' ''llama-server'')),
       (''kv_import_supported_by_default_adapter'', JBool False),
       (''kv_import_requirement'', JStr ''Set PERMEANT_LLAMA_CPP_RUNTIME_HOOK to a hook that can bind migrated KV state into a live llama.cpp context.'')]"

section \<open>The runtime\<close>

record lc_runtime =
  capabilities :: json
  lc_registered_hashes :: "string list"
  lc_block_summaries :: obj
  lc_last_verify_result :: json
  lc_last_live_result :: json
  lc_fs :: fs

definition lc_new_runtime :: "lc_env \<Rightarrow> fs \<Rightarrow> lc_runtime" where
  "lc_new_runtime env f =
     \<lparr>capabilities = probe_llama_cpp_tools env, lc_registered_hashes = [], lc_block_summaries = [],
      lc_last_verify_result = JNull, lc_last_live_result = JNull, lc_fs = f\<rparr>"

definition lc_on_fs :: "'a io \<Rightarrow> (lc_runtime, 'a) st" where
  "lc_on_fs m s = (case m (lc_fs s) of (r, f) \<Rightarrow> (r, s\<lparr>lc_fs := f\<rparr>))"

definition lc_state_file :: "lc_env \<Rightarrow> pypath option" where
  "lc_state_file env = env_path (lc_expanduser env) (lc_state_var env)"

definition lc_probe_file :: "lc_env \<Rightarrow> pypath option" where
  "lc_probe_file env = env_path (lc_expanduser env) (lc_probe_var env)"

definition lc_probe :: "lc_env \<Rightarrow> json \<Rightarrow> obj \<Rightarrow> (lc_runtime, unit) st" where
  "lc_probe env now payload = lc_on_fs (append_probe_event (lc_probe_file env) now payload)"

text \<open>\<open>sorted({layer["shape"][i] for layer in layers})\<close>: of equal elements the set keeps the first.\<close>

fun distinct_ints :: "json list \<Rightarrow> json list" where
  "distinct_ints [] = []"
| "distinct_ints (v # vs) = v # filter (\<lambda>w. int_val w \<noteq> int_val v) (distinct_ints vs)"

definition layer_dims :: "nat \<Rightarrow> json list \<Rightarrow> json" where
  "layer_dims i layers =
     JList (sort_key (\<lambda>v. the (int_val v)) (distinct_ints (concat (map (\<lambda>layer.
       case layer of JObj d \<Rightarrow> (case field_or d ''shape'' JNull of JList dims \<Rightarrow> take 1 (drop i dims) | _ \<Rightarrow> []) | _ \<Rightarrow> []) layers))))"

definition binding_requirements :: "string \<Rightarrow> json list \<Rightarrow> obj" where
  "binding_requirements block_hash layer_summaries =
     [(''contract_version'', JStr binding_contract_version), (''required_action'', JStr ''bind_kv_state''),
      (''block_hash'', JStr block_hash),
      (''required_binding_proof_fields'', JList (map JStr [''bound_hashes'', ''context_id'', ''kv_token_count'', ''proof_hash''])),
      (''required_continuation_fields'', JList (map JStr [''token_ids'', ''used_migrated_kv'', ''binding_proof''])),
      (''layer_count'', JInt (int (length layer_summaries))), (''seq_lens'', layer_dims 0 layer_summaries),
      (''kv_heads'', layer_dims 1 layer_summaries), (''head_dims'', layer_dims 2 layer_summaries),
      (''canonical_tensor_layout'', JStr ''[seq, kv_heads, head_dim]'')]"

definition accepted_state :: "json \<Rightarrow> string \<Rightarrow> json list \<Rightarrow> json \<Rightarrow> obj" where
  "accepted_state caps block_hash layer_summaries runtime_state =
     (let accepted =
        [(''hash'', JStr block_hash), (''target_runtime'', JStr ''llama.cpp''), (''adapter_mode'', JStr ''accepted-state''),
         (''binding_contract_version'', JStr binding_contract_version),
         (''layer_count'', JInt (int (length layer_summaries))), (''layers'', JList layer_summaries), (''capabilities'', caps),
         (''binding_requirements'', JObj (binding_requirements block_hash layer_summaries)),
         (''decode_claim'', JStr ''none-without-live-kv-import-hook'')]
      in case runtime_state of JObj d \<Rightarrow> dict_set ''runtime_state'' (JObj d) accepted | _ \<Rightarrow> accepted)"

definition bind_request :: "obj \<Rightarrow> obj \<Rightarrow> json \<Rightarrow> json" where
  "bind_request accepted payload request =
     JObj [(''schema_version'', JStr binding_contract_version), (''action'', JStr ''bind_kv_state''),
       (''accepted_state'', JObj accepted), (''block'', JObj payload), (''request'', request),
       (''binding_requirements'', field_or accepted ''binding_requirements'' JNull)]"

definition ask_binding :: "live_hook \<Rightarrow> obj \<Rightarrow> obj \<Rightarrow> json \<Rightarrow> string \<Rightarrow> obj res" where
  "ask_binding hook accepted payload request block_hash =
     bindR (invoke hook [bind_request accepted payload request, JObj accepted, JObj payload, request]) (\<lambda>response.
     bindR (lc_normalize_response response) (\<lambda>result. validate_binding_result result block_hash))"

definition bound_state :: "obj \<Rightarrow> obj \<Rightarrow> obj" where
  "bound_state accepted live_result =
     dict_set ''decode_claim'' (JStr ''live-kv-bound-continuation-not-yet-verified'')
       (dict_set ''adapter_mode'' (JStr ''live-kv-binding-hook'') (dict_set ''live_hook_result'' (JObj live_result) accepted))"

definition bind_live :: "live_hook option res \<Rightarrow> obj \<Rightarrow> json \<Rightarrow> string \<Rightarrow> obj \<Rightarrow> (lc_runtime, obj) st" where
  "bind_live live payload request block_hash accepted =
     bindS (liftS live) (\<lambda>hook.
     case hook of
       None \<Rightarrow> liftS (Inr accepted)
     | Some h \<Rightarrow>
         bindS (liftS (ask_binding h accepted payload request block_hash)) (\<lambda>live_result s.
           (Inr (bound_state accepted live_result), s\<lparr>lc_last_live_result := JObj live_result\<rparr>)))"

definition lc_note_block :: "string \<Rightarrow> obj \<Rightarrow> lc_runtime \<Rightarrow> lc_runtime" where
  "lc_note_block block_hash accepted s =
     s\<lparr>lc_registered_hashes := set_add block_hash (lc_registered_hashes s),
       lc_block_summaries := dict_set block_hash (JObj accepted) (lc_block_summaries s)\<rparr>"

definition persist_runtime_result :: "lc_env \<Rightarrow> json \<Rightarrow> json \<Rightarrow> (lc_runtime, unit) st" where
  "persist_runtime_result env last_live last_verify =
     (case lc_state_file env of
        None \<Rightarrow> liftS (Inr ())
      | Some p \<Rightarrow>
          lc_on_fs (bindIO (read_dict p) (\<lambda>existing.
            let with_live = (if last_live \<noteq> JNull then dict_set ''last_live_result'' last_live existing else existing) in
            write_dict p (if last_verify \<noteq> JNull then dict_set ''last_verify_result'' last_verify with_live else with_live))))"

definition lc_persist :: "lc_env \<Rightarrow> (lc_runtime, unit) st" where
  "lc_persist env s =
     (case lc_state_file env of
        None \<Rightarrow> (Inr (), s)
      | Some p \<Rightarrow>
          lc_on_fs (bindIO (read_dict p) (\<lambda>existing.
            let blocks = dict_update (blocks_field existing) (lc_block_summaries s) in
            write_dict p
              [(''target_runtime'', JStr ''llama.cpp''), (''registered_hashes'', JList (map JStr (sort (map fst blocks)))),
               (''capabilities'', capabilities s), (''blocks'', JObj blocks)])) s)"

definition record_block :: "lc_env \<Rightarrow> json \<Rightarrow> string \<Rightarrow> obj \<Rightarrow> (lc_runtime, json) st" where
  "record_block env now block_hash accepted =
     bindS (\<lambda>s. (Inr (), lc_note_block block_hash accepted s)) (\<lambda>_.
     bindS (lc_persist env) (\<lambda>_.
     bindS (\<lambda>s. persist_runtime_result env (lc_last_live_result s) JNull s) (\<lambda>_.
     bindS (lc_probe env now (dict_update [(''event'', JStr ''register_permeant_block'')] accepted)) (\<lambda>_.
       liftS (Inr (JObj [(''success'', JBool True), (''accepted_state'', JObj accepted)]))))))"

definition lc_register_permeant_block ::
  "lc_env \<Rightarrow> live_hook option res \<Rightarrow> json \<Rightarrow> obj \<Rightarrow> json \<Rightarrow> (lc_runtime, json) st" where
  "lc_register_permeant_block env live now payload request =
     (case first_truthy payload ''hash'' ''block_hash'' of
        JStr (c # cs) \<Rightarrow>
          (let tensors = (case field_or payload ''tensors'' JNull of JList ts \<Rightarrow> ts | _ \<Rightarrow> []);
               runtime_state = field_or payload ''runtime_state'' JNull
           in
             if tensors = [] \<and> \<not> is_dict runtime_state
             then liftS (adapter_error ''inject_block request must include tensors or runtime_state'')
             else
               bindS (liftS (lc_layer_summaries tensors)) (\<lambda>layer_summaries.
               bindS (\<lambda>s. bind_live live payload request (c # cs)
                        (accepted_state (capabilities s) (c # cs) layer_summaries runtime_state) s) (\<lambda>accepted.
               record_block env now (c # cs) accepted)))
      | _ \<Rightarrow> liftS (adapter_error ''inject_block request must include a non-empty hash''))"

definition lc_available_hashes :: "lc_env \<Rightarrow> (lc_runtime, string list) st" where
  "lc_available_hashes env s =
     bindS (lc_on_fs (load_persisted_hashes (lc_state_file env))) (\<lambda>persisted. liftS (Inr (remdups (lc_registered_hashes s @ persisted)))) s"

definition verify_request :: "obj \<Rightarrow> json list \<Rightarrow> obj \<Rightarrow> json list" where
  "verify_request payload hashes summaries =
     [JObj [(''schema_version'', JStr binding_contract_version), (''action'', JStr ''verify_bound_continuation''),
        (''verify'', JObj payload), (''accepted_hashes'', JList hashes),
        (''blocks'', JObj (dict_update [] (concat (map (\<lambda>h. case h of JStr k \<Rightarrow> [(k, field_or summaries k JNull)] | _ \<Rightarrow> []) hashes))))],
      JObj [(''verify'', JObj payload), (''accepted_hashes'', JList hashes)]]"

definition ask_continuation :: "live_hook \<Rightarrow> obj \<Rightarrow> json list \<Rightarrow> obj \<Rightarrow> obj res" where
  "ask_continuation hook payload hashes summaries =
     bindR (invoke hook (verify_request payload hashes summaries)) (\<lambda>response.
     bindR (lc_normalize_response response) (\<lambda>result. validate_continuation_result result hashes))"

definition proven_result :: "obj \<Rightarrow> obj \<Rightarrow> obj" where
  "proven_result result live_result =
     dict_set ''continuation_proof_hash'' (field_or live_result ''continuation_proof_hash'' JNull)
       (dict_set ''decode_status'' (JStr ''live_kv_binding_continuation_proven'')
         (dict_set ''live_hook_result'' (JObj live_result) result))"

definition lc_verdict :: "live_hook option res \<Rightarrow> obj \<Rightarrow> json list \<Rightarrow> string list \<Rightarrow> obj \<Rightarrow> obj res" where
  "lc_verdict live payload hashes available summaries =
     (let missing = filter (\<lambda>h. h \<notin> set (map JStr available)) hashes in
      if missing \<noteq> [] then Inr [(''success'', JBool False), (''missing_hashes'', JList missing)]
      else
        (let result = [(''success'', JBool True), (''verified_hashes'', JList hashes),
               (''decode_status'', JStr ''not_attempted_without_live_kv_import_hook'')] in
         bindR live (\<lambda>hook.
         case hook of
           None \<Rightarrow> Inr result
         | Some h \<Rightarrow> bindR (ask_continuation h payload hashes summaries) (\<lambda>live_result. Inr (proven_result result live_result)))))"

definition lc_verify_permeant_hashes :: "lc_env \<Rightarrow> live_hook option res \<Rightarrow> json \<Rightarrow> obj \<Rightarrow> (lc_runtime, json) st" where
  "lc_verify_permeant_hashes env live now payload =
     (case string_list (first_truthy payload ''block_hashes'' ''expected_hashes'') of
        None \<Rightarrow> liftS (adapter_error ''verify_continuation requires a string list of block hashes'')
      | Some hashes \<Rightarrow>
          bindS (lc_available_hashes env) (\<lambda>available.
          bindS (\<lambda>s. liftS (lc_verdict live payload hashes available (lc_block_summaries s)) s) (\<lambda>result.
          bindS (\<lambda>s. (Inr (), s\<lparr>lc_last_verify_result := JObj result\<rparr>)) (\<lambda>_.
          bindS (persist_runtime_result env JNull (JObj result)) (\<lambda>_.
          bindS (lc_probe env now (dict_update [(''event'', JStr ''verify_permeant_hashes'')] result)) (\<lambda>_.
            liftS (Inr (JObj result))))))))"

definition verdict_proven :: "json \<Rightarrow> bool" where
  "verdict_proven v = (case v of JObj d \<Rightarrow> field_or d ''decode_status'' JNull = JStr ''live_kv_binding_continuation_proven'' | _ \<Rightarrow> False)"

definition decode_claim :: "obj \<Rightarrow> json \<Rightarrow> json \<Rightarrow> string" where
  "decode_claim blocks last_verify own_verify =
     (if verdict_proven (if truthy last_verify then last_verify else own_verify)
      then ''live-kv-binding-continuation-proven''
      else if (\<exists>block\<in>snd ` set blocks. case block of JObj d \<Rightarrow> field_or d ''adapter_mode'' JNull = JStr ''live-kv-binding-hook'' | _ \<Rightarrow> False)
      then ''live-kv-bound-continuation-not-yet-verified''
      else ''none-without-live-kv-import-hook'')"

definition lc_export_state :: "lc_runtime \<Rightarrow> string list \<Rightarrow> obj \<Rightarrow> obj \<Rightarrow> obj" where
  "lc_export_state s known existing persisted =
     (let blocks = (if persisted \<noteq> [] then persisted else lc_block_summaries s);
          last_verify = (if truthy (lc_last_verify_result s) then lc_last_verify_result s else field_or existing ''last_verify_result'' JNull);
          last_live = (if truthy (lc_last_live_result s) then lc_last_live_result s else field_or existing ''last_live_result'' JNull);
          state =
            [(''schema_version'', JStr ''permeantos-llamacpp-reference-reverse-runtime-state-v0''),
             (''status'', JStr ''target_runtime_state_exported''), (''target_runtime'', JStr ''llama.cpp''),
             (''registered_hashes'', JList (map JStr (sort known))), (''blocks'', JObj blocks), (''capabilities'', capabilities s),
             (''last_verify_result'', last_verify), (''last_live_result'', last_live),
             (''decode_claim'', JStr (decode_claim blocks last_verify (lc_last_verify_result s)))]
      in state @ [(''proof_hash'', JStr (sha256_json (JObj state)))])"

definition lc_export_reverse_runtime_state :: "lc_env \<Rightarrow> json \<Rightarrow> (lc_runtime, json) st" where
  "lc_export_reverse_runtime_state env now =
     bindS (case lc_state_file env of None \<Rightarrow> liftS (Inr []) | Some p \<Rightarrow> lc_on_fs (read_dict p)) (\<lambda>existing.
     bindS (lc_on_fs (load_persisted_blocks (lc_state_file env))) (\<lambda>persisted.
     bindS (lc_available_hashes env) (\<lambda>known s.
     let state = lc_export_state s known existing persisted in
     bindS (lc_probe env now
         [(''event'', JStr ''reverse_runtime_state_export_api''), (''proof_hash'', field_or state ''proof_hash'' JNull),
          (''registered_hash_count'', JInt (int (length known)))]) (\<lambda>_.
       liftS (Inr (JObj (dict_update [(''success'', JBool True), (''reverse_runtime_state'', JObj state)] state)))) s)))"

definition lc_runtime_hook :: "lc_env \<Rightarrow> live_hook option res \<Rightarrow> json \<Rightarrow> obj \<Rightarrow> json \<Rightarrow> (lc_runtime, json) st" where
  "lc_runtime_hook env live now payload request =
     bindS (liftS (lc_request_kind payload)) (\<lambda>kind.
     if kind = ''inject_block'' then lc_register_permeant_block env live now (payload_for_kind payload ''inject_block'') request
     else if kind = ''verify_continuation'' then lc_verify_permeant_hashes env live now (payload_for_kind payload ''verify_continuation'')
     else if kind = ''export_reverse_runtime_state'' then lc_export_reverse_runtime_state env now
     else if kind = ''probe_capabilities'' then (\<lambda>s. (Inr (JObj [(''success'', JBool True), (''capabilities'', capabilities s)]), s))
     else liftS (adapter_error (''unsupported llama.cpp runtime request kind '' @ [CHR 0x27] @ kind @ [CHR 0x27])))"

definition lc_injector_hook :: "lc_env \<Rightarrow> live_hook option res \<Rightarrow> json \<Rightarrow> obj \<Rightarrow> (lc_runtime, json) st" where
  "lc_injector_hook env live now request =
     bindS (lc_runtime_hook env live now request (JObj request)) (\<lambda>response.
       liftS (bindR (lc_normalize_response response) (\<lambda>d. Inr (JObj d))))"

section \<open>What the gates let through\<close>

text \<open>The evidence the binding contract asks for, on the normalised result.\<close>

definition binding_evidence :: "obj \<Rightarrow> string \<Rightarrow> bool" where
  "binding_evidence result block_hash \<longleftrightarrow>
     map_of result ''success'' = Some (JBool True) \<and> map_of result ''runtime_state_bound'' = Some (JBool True) \<and>
     (\<exists>evidence hashes n. map_of result ''binding_proof'' = Some (JObj evidence) \<and>
        map_of evidence ''bound_hashes'' = Some (JList hashes) \<and> list_all nonempty_str hashes \<and> JStr block_hash \<in> set hashes \<and>
        nonempty_str (field_or evidence ''context_id'' JNull) \<and>
        int_val (field_or evidence ''kv_token_count'' JNull) = Some n \<and> 0 \<le> n \<and>
        (\<exists>h. map_of evidence ''proof_hash'' = Some (JStr h) \<and> starts_with ''sha256:'' h))"

definition continuation_evidence :: "obj \<Rightarrow> json list \<Rightarrow> bool" where
  "continuation_evidence result expected_hashes \<longleftrightarrow>
     map_of result ''success'' = Some (JBool True) \<and>
     (\<exists>continuation token_ids evidence hashes h.
        map_of result ''continuation'' = Some (JObj continuation) \<and> map_of continuation ''used_migrated_kv'' = Some (JBool True) \<and>
        map_of continuation ''token_ids'' = Some (JList token_ids) \<and> list_all is_int token_ids \<and>
        map_of result ''binding_proof'' = Some (JObj evidence) \<and> map_of evidence ''bound_hashes'' = Some (JList hashes) \<and>
        set expected_hashes \<subseteq> set hashes \<and> map_of evidence ''proof_hash'' = Some (JStr h) \<and>
        map_of result ''continuation_proof_hash'' = Some (JStr (continuation_hash expected_hashes h token_ids)))"

lemma normalized_success:
  assumes "lc_normalize_response v = Inr d" and "truthy (field_or d ''success'' JNull)"
  shows "map_of d ''success'' = Some (JBool True)"
  using assms by (auto simp: lc_normalize_response_def field_or_def adapter_error_def split: json.splits option.splits)

lemma lc_string_list_ok: "lc_string_list v n = Inr xs \<Longrightarrow> v = JList xs \<and> list_all nonempty_str xs"
  by (auto simp: lc_string_list_def adapter_error_def split: json.splits if_splits)

lemma bound_hashes_strings: "normalize_bound_hashes e = Inr hs \<Longrightarrow> list_all nonempty_str hs"
  by (auto simp: normalize_bound_hashes_def Let_def dest: lc_string_list_ok)

lemma sha256_json_tagged: "starts_with ''sha256:'' (sha256_json v)"
  by (simp add: sha256_json_def sha256_bytes_def)

lemma binding_proof_hash_tagged: "starts_with ''sha256:'' (binding_proof_hash e)"
  using sha256_json_tagged [of "JObj e"] by (auto simp: binding_proof_hash_def simp del: starts_with.simps split: json.split)

lemma normalized_proof_fields:
  "map_of (normalized_proof e hs) ''bound_hashes'' = Some (JList hs)"
  "map_of (normalized_proof e hs) ''proof_hash'' = Some (JStr (binding_proof_hash e))"
  "field_or (normalized_proof e hs) ''context_id'' JNull = field_or e ''context_id'' JNull"
  "field_or (normalized_proof e hs) ''kv_token_count'' JNull = field_or e ''kv_token_count'' JNull"
  by (simp_all add: normalized_proof_def field_or_def)

lemma validate_binding_evidence:
  assumes "lc_normalize_response v = Inr d" and "validate_binding_result d h = Inr result"
  shows "binding_evidence result h"
proof -
  from assms(2) have s: "truthy (field_or d ''success'' JNull)" by (auto simp: validate_binding_result_def adapter_error_def split: if_splits)
  from assms(2) obtain e hs n where e: "field_or d ''binding_proof'' JNull = JObj e" "normalize_bound_hashes e = Inr hs"
    "JStr h \<in> set hs" "nonempty_str (field_or e ''context_id'' JNull)" "int_val (field_or e ''kv_token_count'' JNull) = Some n" "0 \<le> n"
    "result = dict_set ''runtime_state_bound'' (JBool True) (dict_set ''binding_proof'' (JObj (normalized_proof e hs))
       (dict_set ''binding_contract_version'' (JStr binding_contract_version) d))"
    by (auto simp: validate_binding_result_def adapter_error_def bindR_eq_Inr split: if_splits json.splits option.splits)
  then show ?thesis
    using normalized_success [OF assms(1) s] bound_hashes_strings [OF e(2)] binding_proof_hash_tagged
    by (simp add: binding_evidence_def normalized_proof_fields del: starts_with.simps)
qed

lemma validate_continuation_evidence:
  assumes "lc_normalize_response v = Inr d" and "validate_continuation_result d hashes = Inr result"
  shows "continuation_evidence result hashes"
proof -
  from assms(2) have s: "truthy (field_or d ''success'' JNull)" by (auto simp: validate_continuation_result_def adapter_error_def split: if_splits)
  from assms(2) obtain c ids e hs where e: "field_or c ''token_ids'' JNull = JList ids" "list_all is_int ids"
    "filter (\<lambda>h. h \<notin> set hs) hashes = []"
    "result = dict_set ''continuation_proof_hash'' (JStr (continuation_hash hashes (binding_proof_hash e) ids))
       (dict_set ''continuation'' (JObj (dict_set ''used_migrated_kv'' (JBool True) c))
         (dict_set ''binding_proof'' (JObj (normalized_proof e hs))
           (dict_set ''binding_contract_version'' (JStr binding_contract_version) d)))"
    by (auto simp: validate_continuation_result_def adapter_error_def bindR_eq_Inr Let_def split: if_splits json.splits)
  moreover have "set hashes \<subseteq> set hs" using e(3) by (auto simp: filter_empty_conv)
  moreover have "map_of c ''token_ids'' = Some (JList ids)" using e(1) by (simp add: field_or_def split: option.splits)
  ultimately show ?thesis
    using normalized_success [OF assms(1) s] by (simp add: continuation_evidence_def normalized_proof_fields)
qed

lemma ask_binding_evidence: "ask_binding hook a p q h = Inr result \<Longrightarrow> binding_evidence result h"
  by (auto simp: ask_binding_def bindR_eq_Inr intro: validate_binding_evidence)

lemma ask_continuation_evidence: "ask_continuation hook p hs b = Inr result \<Longrightarrow> continuation_evidence result hs"
  by (auto simp: ask_continuation_def bindR_eq_Inr intro: validate_continuation_evidence)

lemma lc_on_fs_rest: "lc_on_fs m s = (r, t) \<Longrightarrow> \<exists>f. t = s\<lparr>lc_fs := f\<rparr>"
  by (auto simp: lc_on_fs_def split: prod.splits)

lemma disk_steps_rest:
  "lc_probe env now payload s = (r, t) \<Longrightarrow> \<exists>f. t = s\<lparr>lc_fs := f\<rparr>"
  "lc_persist env s = (r, t) \<Longrightarrow> \<exists>f. t = s\<lparr>lc_fs := f\<rparr>"
  "persist_runtime_result env l v s = (r, t) \<Longrightarrow> \<exists>f. t = s\<lparr>lc_fs := f\<rparr>"
proof -
  have "\<exists>f. s = s\<lparr>lc_fs := f\<rparr>" by (metis lc_runtime.surjective lc_runtime.update_convs(6))
  then show
    "lc_probe env now payload s = (r, t) \<Longrightarrow> \<exists>f. t = s\<lparr>lc_fs := f\<rparr>"
    "lc_persist env s = (r, t) \<Longrightarrow> \<exists>f. t = s\<lparr>lc_fs := f\<rparr>"
    "persist_runtime_result env l v s = (r, t) \<Longrightarrow> \<exists>f. t = s\<lparr>lc_fs := f\<rparr>"
    by (auto simp: lc_probe_def lc_persist_def persist_runtime_result_def liftS_def split: option.splits dest: lc_on_fs_rest)
qed

lemma record_block_ok:
  assumes "record_block env now h acc s = (Inr r, t)"
  shows "\<exists>f. t = (lc_note_block h acc s)\<lparr>lc_fs := f\<rparr>"
  using assms by (auto simp: record_block_def bindS_eq_Inr liftS_def dest!: disk_steps_rest)

lemma lc_register_parts:
  assumes "lc_register_permeant_block env live now payload request s = (Inr r, t)"
  obtains c cs ls acc u where "first_truthy payload ''hash'' ''block_hash'' = JStr (c # cs)"
    and "bind_live live payload request (c # cs) (accepted_state (capabilities s) (c # cs) ls (field_or payload ''runtime_state'' JNull)) s = (Inr acc, u)"
    and "record_block env now (c # cs) acc u = (Inr r, t)"
    and "lc_layer_summaries (case field_or payload ''tensors'' JNull of JList ts \<Rightarrow> ts | _ \<Rightarrow> []) = Inr ls"
  using assms that
  by (auto simp: lc_register_permeant_block_def bindS_eq_Inr liftS_def adapter_error_def Let_def split: json.splits list.splits if_splits)

text \<open>A block registered through a live hook carries the evidence the binding contract asks for.\<close>

theorem live_registration_bound:
  assumes "lc_register_permeant_block env (Inr (Some hook)) now payload request s = (Inr r, t)"
    and "first_truthy payload ''hash'' ''block_hash'' = JStr h"
  shows "\<exists>acc result. map_of (lc_block_summaries t) h = Some (JObj acc) \<and> h \<in> set (lc_registered_hashes t) \<and>
    map_of acc ''live_hook_result'' = Some (JObj result) \<and> binding_evidence result h \<and> lc_last_live_result t = JObj result"
proof (rule lc_register_parts [OF assms(1)])
  fix c cs ls acc u
  assume h: "first_truthy payload ''hash'' ''block_hash'' = JStr (c # cs)"
    and b: "bind_live (Inr (Some hook)) payload request (c # cs)
      (accepted_state (capabilities s) (c # cs) ls (field_or payload ''runtime_state'' JNull)) s = (Inr acc, u)"
    and r: "record_block env now (c # cs) acc u = (Inr r, t)"
  have hh: "h = c # cs" using h assms(2) by simp
  from b obtain base result where "ask_binding hook base payload request (c # cs) = Inr result"
    "acc = bound_state base result" "u = s\<lparr>lc_last_live_result := JObj result\<rparr>"
    by (auto simp: bind_live_def bindS_eq_Inr liftS_def)
  then show ?thesis
    using record_block_ok [OF r] ask_binding_evidence by (auto simp: hh lc_note_block_def bound_state_def set_add_def)
qed

text \<open>A block whose evidence is not accepted leaves no trace in the runtime or on disk.\<close>

theorem refused_binding_keeps_state:
  assumes "\<And>acc. \<exists>e. ask_binding hook acc payload request h = Inl e" and "first_truthy payload ''hash'' ''block_hash'' = JStr h"
  shows "\<exists>e. lc_register_permeant_block env (Inr (Some hook)) now payload request s = (Inl e, s)"
proof -
  have "\<exists>e. bind_live (Inr (Some hook)) payload request h acc s = (Inl e, s)" for acc
    using assms(1) [of acc] by (auto simp: bind_live_def bindS_def liftS_def)
  then have "\<exists>e. bindS (\<lambda>s. bind_live (Inr (Some hook)) payload request h (acc s) s) k s = (Inl e, s)" for acc and k :: "obj \<Rightarrow> (lc_runtime, json) st"
    by (metis (no_types, lifting) bindS_def old.prod.case sum.case(1))
  then show ?thesis
    by (cases h) (auto simp: lc_register_permeant_block_def assms(2) Let_def adapter_error_def bindS_liftS liftS_def split: sum.split)
qed

text \<open>With a live hook a continuation check succeeds only on evidence for every hash it was asked about.\<close>

theorem live_verification_evidence:
  assumes "lc_verify_permeant_hashes env (Inr (Some hook)) now payload s = (Inr (JObj d), t)" and "map_of d ''success'' = Some (JBool True)"
  shows "\<exists>hashes result. string_list (first_truthy payload ''block_hashes'' ''expected_hashes'') = Some hashes \<and>
    map_of d ''live_hook_result'' = Some (JObj result) \<and> continuation_evidence result hashes \<and>
    map_of d ''continuation_proof_hash'' = map_of result ''continuation_proof_hash''"
proof -
  from assms(1) obtain hashes available summaries where
    h: "string_list (first_truthy payload ''block_hashes'' ''expected_hashes'') = Some hashes"
    "lc_verdict (Inr (Some hook)) payload hashes available summaries = Inr d"
    by (auto simp: lc_verify_permeant_hashes_def bindS_eq_Inr liftS_def adapter_error_def split: option.splits)
  from h(2) assms(2) obtain result base where r: "ask_continuation hook payload hashes summaries = Inr result" "d = proven_result base result"
    by (auto simp: lc_verdict_def Let_def bindR_eq_Inr split: if_splits)
  note e = ask_continuation_evidence [OF r(1)]
  then have "map_of result ''continuation_proof_hash'' \<noteq> None" by (auto simp: continuation_evidence_def)
  then show ?thesis using h(1) r(2) e by (auto simp: proven_result_def field_or_def)
qed

section \<open>Claims need evidence\<close>

text \<open>A computation keeps an invariant, however it ends, and returns only values with a property.\<close>

definition preserves :: "('s \<Rightarrow> bool) \<Rightarrow> ('s, 'a) st \<Rightarrow> ('a \<Rightarrow> bool) \<Rightarrow> bool" where
  "preserves I m P \<longleftrightarrow> (\<forall>s r t. I s \<longrightarrow> m s = (r, t) \<longrightarrow> I t \<and> (\<forall>x. r = Inr x \<longrightarrow> P x))"

lemma preservesD: "preserves I m P \<Longrightarrow> I s \<Longrightarrow> m s = (r, t) \<Longrightarrow> I t \<and> (\<forall>x. r = Inr x \<longrightarrow> P x)"
  unfolding preserves_def by blast

lemma preserves_bind:
  assumes "preserves I m P" and "\<And>x. P x \<Longrightarrow> preserves I (f x) Q"
  shows "preserves I (bindS m f) Q"
  unfolding preserves_def
proof (intro allI impI)
  fix s r t
  assume s: "I s" and b: "bindS m f s = (r, t)"
  obtain x u where m: "m s = (x, u)" by fastforce
  note 1 = preservesD [OF assms(1) s m]
  show "I t \<and> (\<forall>y. r = Inr y \<longrightarrow> Q y)"
  proof (cases x)
    case (Inl e)
    then show ?thesis using 1 b m by (auto simp: bindS_def)
  next
    case (Inr y)
    then have "f y u = (r, t)" "P y" "I u" using 1 b m by (simp_all add: bindS_def)
    then show ?thesis using preservesD [OF assms(2)] by blast
  qed
qed

lemma preserves_lift: "(\<And>x. r = Inr x \<Longrightarrow> P x) \<Longrightarrow> preserves I (liftS r) P"
  by (simp add: preserves_def liftS_def)

lemma preserves_pure: "(\<And>s r t. I s \<Longrightarrow> m s = (r, t) \<Longrightarrow> t = s \<and> (\<forall>x. r = Inr x \<longrightarrow> P x)) \<Longrightarrow> preserves I m P"
  unfolding preserves_def by blast

lemma preserves_weaken: "preserves I m P \<Longrightarrow> (\<And>x. P x \<Longrightarrow> Q x) \<Longrightarrow> preserves I m Q"
  unfolding preserves_def by blast

definition no_verdict :: "pypath option \<Rightarrow> fs \<Rightarrow> bool" where
  "no_verdict sf f = (case sf of None \<Rightarrow> True | Some p \<Rightarrow> \<not> verdict_proven (field_or (fs_doc f p) ''last_verify_result'' JNull))"

definition unproven :: "lc_env \<Rightarrow> lc_runtime \<Rightarrow> bool" where
  "unproven env s \<longleftrightarrow> no_verdict (lc_state_file env) (lc_fs s) \<and> \<not> verdict_proven (lc_last_verify_result s) \<and>
     wf_json (JObj (lc_block_summaries s)) \<and> wf_json (capabilities s) \<and> wf_json (lc_last_live_result s)"

lemma verdict_sort_keys: "wf_json v \<Longrightarrow> verdict_proven (sort_keys v) = verdict_proven v"
  by (cases v) (simp_all add: verdict_proven_def field_or_def split: option.split del: wf_json.simps)

lemma write_keeps_unproven:
  assumes "write_dict q d f = (r, g)" and "wf_json (JObj d)" and "no_verdict sf f"
    and "sf = Some q \<Longrightarrow> \<not> verdict_proven (field_or d ''last_verify_result'' JNull)"
  shows "no_verdict sf g"
proof (cases sf)
  case (Some p)
  have v: "verdict_proven (field_or (sorted_obj d) ''last_verify_result'' JNull) = verdict_proven (field_or d ''last_verify_result'' JNull)"
    using field_or_sorted_obj [OF assms(2), of "''last_verify_result''" JNull] wf_field_or [OF assms(2), of JNull]
    by (simp add: verdict_sort_keys)
  show ?thesis
  proof (cases r)
    case (Inl e)
    then show ?thesis using disk.put_failed [of q d f e g p] assms Some by (simp add: no_verdict_def)
  next
    case (Inr u)
    then show ?thesis using disk.put_ok [of q d f u g p] assms Some v by (auto simp: no_verdict_def)
  qed
qed (simp add: no_verdict_def)

lemma preserves_on_fs:
  assumes "\<And>f r g. no_verdict (lc_state_file env) f \<Longrightarrow> m f = (r, g) \<Longrightarrow> no_verdict (lc_state_file env) g"
  shows "preserves (unproven env) (lc_on_fs m) (\<lambda>_. True)"
  using assms by (auto simp: preserves_def lc_on_fs_def unproven_def split: prod.splits)

lemma unproven_read: "(\<And>f r g. m f = (r, g) \<Longrightarrow> g = f) \<Longrightarrow> preserves (unproven env) (lc_on_fs m) (\<lambda>_. True)"
  by (rule preserves_on_fs) blast

lemma unproven_probe:
  assumes "wf_json now" and "wf_json (JObj payload)"
  shows "preserves (unproven env) (lc_probe env now payload) (\<lambda>_. True)"
  unfolding lc_probe_def
proof (rule preserves_on_fs)
  fix f r g
  assume n: "no_verdict (lc_state_file env) f" and a: "append_probe_event (lc_probe_file env) now payload f = (r, g)"
  show "no_verdict (lc_state_file env) g"
  proof (rule append_probe_event_write [OF a assms])
    fix q d
    assume w: "write_dict q d f = (r, g)" "wf_json (JObj d)" and k: "\<And>k. k \<noteq> ''events'' \<Longrightarrow> map_of d k = map_of (fs_doc f q) k"
    show ?thesis
      using n k [of "''last_verify_result''"] by (intro write_keeps_unproven [OF w n]) (simp add: no_verdict_def field_or_def)
  qed (use n in simp)
qed

text \<open>Reading the state file, changing the document and writing it back.\<close>

lemma unproven_update:
  assumes "lc_state_file env = Some p"
    and doc: "\<And>d. wf_json (JObj d) \<Longrightarrow> \<not> verdict_proven (field_or d ''last_verify_result'' JNull) \<Longrightarrow>
      wf_json (JObj (doc d)) \<and> \<not> verdict_proven (field_or (doc d) ''last_verify_result'' JNull)"
  shows "preserves (unproven env) (lc_on_fs (bindIO (read_dict p) (\<lambda>d. write_dict p (doc d)))) (\<lambda>_. True)"
proof (rule preserves_on_fs)
  fix f r g
  assume n: "no_verdict (lc_state_file env) f" and m: "bindIO (read_dict p) (\<lambda>d. write_dict p (doc d)) f = (r, g)"
  obtain x f' where x: "read_dict p f = (x, f')" by fastforce
  show "no_verdict (lc_state_file env) g"
  proof (cases x)
    case (Inr d)
    then have d: "d = fs_doc f p" "f' = f" using x read_dict_doc by auto
    have w: "write_dict p (doc d) f = (r, g)" using m x Inr d by (simp add: bindIO_def)
    have "wf_json (JObj (doc d)) \<and> \<not> verdict_proven (field_or (doc d) ''last_verify_result'' JNull)"
      using n assms(1) d by (intro doc) (simp_all add: no_verdict_def fs_doc_wf del: wf_json.simps)
    then show ?thesis using write_keeps_unproven [OF w _ n] by blast
  qed (use m x n read_dict_pure [OF x] in \<open>simp add: bindIO_def\<close>)
qed

lemma unproven_result:
  assumes "\<not> verdict_proven v" and "wf_json v" and "wf_json l"
  shows "preserves (unproven env) (persist_runtime_result env l v) (\<lambda>_. True)"
proof (cases "lc_state_file env")
  case (Some p)
  show ?thesis
    unfolding persist_runtime_result_def Some option.case Let_def
    by (rule unproven_update [OF Some]) (use assms in \<open>simp add: wf_dict_set field_or_def del: wf_json.simps\<close>)
qed (simp add: persist_runtime_result_def preserves_lift)

lemma unproven_persist: "preserves (unproven env) (lc_persist env) (\<lambda>_. True)"
  unfolding preserves_def
proof (intro allI impI)
  fix s r t
  assume s: "unproven env s" and p: "lc_persist env s = (r, t)"
  show "unproven env t \<and> (\<forall>x. r = Inr x \<longrightarrow> True)"
  proof (cases "lc_state_file env")
    case (Some q)
    let ?b = "\<lambda>d. dict_update (blocks_field d) (lc_block_summaries s)"
    have b: "wf_json (JObj (?b d))" if "wf_json (JObj d)" for d
      using s wf_blocks_field [OF that] by (intro wf_dict_update) (simp_all add: unproven_def)
    have "preserves (unproven env) (lc_on_fs (bindIO (read_dict q) (\<lambda>d. write_dict q
        [(''target_runtime'', JStr ''llama.cpp''), (''registered_hashes'', JList (map JStr (sort (map fst (?b d))))),
         (''capabilities'', capabilities s), (''blocks'', JObj (?b d))]))) (\<lambda>_. True)"
    proof (rule unproven_update [OF Some])
      fix d
      assume "wf_json (JObj d)"
      from b [OF this] s show "wf_json (JObj [(''target_runtime'', JStr ''llama.cpp''),
          (''registered_hashes'', JList (map JStr (sort (map fst (?b d))))), (''capabilities'', capabilities s), (''blocks'', JObj (?b d))]) \<and>
        \<not> verdict_proven (field_or [(''target_runtime'', JStr ''llama.cpp''),
          (''registered_hashes'', JList (map JStr (sort (map fst (?b d))))), (''capabilities'', capabilities s), (''blocks'', JObj (?b d))]
          ''last_verify_result'' JNull)"
        by (simp add: unproven_def dict_keys_ok_def list_all_iff field_or_def verdict_proven_def)
    qed
    from preservesD [OF this s] show ?thesis using p by (simp add: lc_persist_def Some Let_def)
  qed (use p s in \<open>simp add: lc_persist_def\<close>)
qed

lemma lc_canonical_dims: "lc_canonical_tensor tensor = Inr (dims, vs) \<Longrightarrow> list_all wf_json dims"
proof -
  assume "lc_canonical_tensor tensor = Inr (dims, vs)"
  then have "list_all is_int dims"
    by (auto simp: lc_canonical_tensor_def squeeze_ints bindR_eq_Inr adapter_error_def Let_def split: if_splits json.splits simp del: py_get_or_JObj)
  then show ?thesis by (auto simp: list_all_iff int_wf)
qed

lemma lc_layer_summary_wf: "lc_layer_summary l = Inr v \<Longrightarrow> wf_json v"
  by (cases l) (auto simp: lc_layer_summary_def layer_summary_def differing_shapes_def adapter_error_def bindR_eq_Inr dict_keys_ok_def
      split: option.splits if_splits dest!: lc_canonical_dims)

lemma lc_layer_summaries_wf: "lc_layer_summaries ts = Inr ls \<Longrightarrow> list_all wf_json ls"
  by (auto simp: lc_layer_summaries_def bindR_eq_Inr list_all_iff split: if_splits dest!: mapR_source dest: lc_layer_summary_wf)

lemma set_distinct_ints: "set (distinct_ints vs) \<subseteq> set vs"
  by (induction vs) auto

lemma layer_dims_wf:
  assumes "list_all wf_json ls"
  shows "wf_json (layer_dims i ls)"
proof -
  let ?vs = "\<lambda>layer. case layer of JObj d \<Rightarrow> (case field_or d ''shape'' JNull of JList dims \<Rightarrow> take 1 (drop i dims) | _ \<Rightarrow> []) | _ \<Rightarrow> []"
  have "list_all wf_json (?vs layer)" if "layer \<in> set ls" for layer
  proof (cases layer)
    case (JObj d)
    then have "wf_json (JObj d)" using assms that by (auto simp: list_all_iff simp del: wf_json.simps)
    then have "wf_json (field_or d ''shape'' JNull)" by (rule wf_field_or) simp
    then show ?thesis
      by (cases "field_or d ''shape'' JNull") (auto simp: JObj list_all_iff dest!: in_set_takeD in_set_dropD)
  qed simp_all
  then have "list_all wf_json (concat (map ?vs ls))" by (auto simp: list_all_iff)
  then show ?thesis using set_distinct_ints by (fastforce simp: layer_dims_def list_all_iff)
qed

lemma accepted_state_wf:
  assumes "wf_json caps" "list_all wf_json ls" "wf_json rs"
  shows "wf_json (JObj (accepted_state caps h ls rs))"
proof -
  have "wf_json (JObj (binding_requirements h ls))"
    using layer_dims_wf [OF assms(2)] by (simp add: binding_requirements_def dict_keys_ok_def)
  then have "wf_json (JObj (accepted_state caps h ls JNull))"
    using assms(1,2) by (simp add: accepted_state_def dict_keys_ok_def)
  then show ?thesis
    using assms(3) wf_dict_set by (cases rs) (simp_all only: accepted_state_def Let_def json.case)
qed

lemma normalize_response_wf: "lc_normalize_response v = Inr d \<Longrightarrow> wf_json v \<Longrightarrow> wf_json (JObj d)"
proof (cases v)
  case (JObj e)
  assume n: "lc_normalize_response v = Inr d" and wf: "wf_json v"
  from n obtain b where "d = dict_set ''success'' (JBool b) e"
    by (auto simp: JObj lc_normalize_response_def adapter_error_def split: json.splits)
  then show ?thesis using wf_dict_set [of e "JBool b" "''success''"] wf by (simp add: JObj)
qed (auto simp: lc_normalize_response_def adapter_error_def dict_keys_ok_def)

lemma validate_binding_wf:
  assumes "validate_binding_result d h = Inr result" and "wf_json (JObj d)"
  shows "wf_json (JObj result)"
proof -
  from assms(1) obtain e hs where e: "field_or d ''binding_proof'' JNull = JObj e" "normalize_bound_hashes e = Inr hs"
    "result = dict_set ''runtime_state_bound'' (JBool True) (dict_set ''binding_proof'' (JObj (normalized_proof e hs))
       (dict_set ''binding_contract_version'' (JStr binding_contract_version) d))"
    by (auto simp: validate_binding_result_def adapter_error_def bindR_eq_Inr split: if_splits json.splits option.splits)
  have "wf_json (JObj e)" using wf_field_or [OF assms(2), of JNull "''binding_proof''"] e(1) by simp
  moreover have "nonempty_str x \<Longrightarrow> wf_json x" for x by (cases x) (simp_all add: nonempty_str_def)
  ultimately have "wf_json (JObj (normalized_proof e hs))"
    unfolding normalized_proof_def using bound_hashes_strings [OF e(2)] by (intro wf_dict_set) (auto simp: list_all_iff)
  then show ?thesis using assms(2) by (simp add: e(3) wf_dict_set del: wf_json.simps(2))
qed

section \<open>The life of the runtime\<close>

text \<open>A hook that returns JSON values, or no hook.\<close>

definition hook_values :: "live_hook option res \<Rightarrow> bool" where
  "hook_values live = (case live of Inr (Some hook) \<Rightarrow> (\<forall>args v. hook_body hook args = Inr v \<longrightarrow> wf_json v) | _ \<Rightarrow> True)"

text \<open>A hook that returns JSON values but never continuation evidence that passes the check, or no hook.\<close>

definition no_evidence :: "live_hook option res \<Rightarrow> bool" where
  "no_evidence live = (case live of
     Inr (Some hook) \<Rightarrow> (\<forall>args v. hook_body hook args = Inr v \<longrightarrow> wf_json v) \<and> (\<forall>p hs b. \<exists>e. ask_continuation hook p hs b = Inl e)
   | _ \<Rightarrow> True)"

lemma no_evidence_values: "no_evidence live \<Longrightarrow> hook_values live"
  by (auto simp: no_evidence_def hook_values_def split: sum.splits option.splits)

lemma ask_binding_wf:
  assumes "ask_binding hook a p q h = Inr result" and "hook_values (Inr (Some hook))"
  shows "wf_json (JObj result)"
proof -
  from assms(1) obtain v d where v: "invoke hook [bind_request a p q, JObj a, JObj p, q] = Inr v" "lc_normalize_response v = Inr d"
    "validate_binding_result d h = Inr result"
    by (auto simp: ask_binding_def bindR_eq_Inr)
  have "wf_json v" using assms(2) v(1) by (auto simp: hook_values_def invoke_def split: option.splits)
  then show ?thesis using validate_binding_wf [OF v(3)] normalize_response_wf [OF v(2)] by blast
qed

lemma unproven_bind_live:
  assumes "no_evidence live" and "wf_json (JObj acc)"
  shows "preserves (unproven env) (bind_live live payload request h acc) (\<lambda>acc. wf_json (JObj acc))"
proof -
  have "wf_json (JObj (bound_state acc result))" if "wf_json (JObj result)" for result
    using assms(2) that by (simp add: bound_state_def wf_dict_set del: wf_json.simps(2))
  then show ?thesis
    using assms(2) no_evidence_values [OF assms(1)] ask_binding_wf
    unfolding preserves_def bind_live_def
    by (auto simp: bindS_liftS liftS_def unproven_def simp del: wf_json.simps split: sum.splits option.splits)
qed

lemma unproven_record:
  assumes "wf_json now" and "wf_json (JObj acc)"
  shows "preserves (unproven env) (record_block env now h acc) (\<lambda>_. True)"
proof -
  have note_ok: "preserves (unproven env) (\<lambda>s. (Inr (), lc_note_block h acc s)) (\<lambda>_. True)"
    using assms(2) by (auto simp: preserves_def unproven_def lc_note_block_def wf_dict_set simp del: wf_json.simps)
  have "preserves (unproven env) (\<lambda>s. persist_runtime_result env (lc_last_live_result s) JNull s) (\<lambda>_. True)"
    unfolding preserves_def
  proof (intro allI impI)
    fix s r t
    assume s: "unproven env s" and p: "persist_runtime_result env (lc_last_live_result s) JNull s = (r, t)"
    have "preserves (unproven env) (persist_runtime_result env (lc_last_live_result s) JNull) (\<lambda>_. True)"
      using s by (intro unproven_result) (simp_all add: verdict_proven_def unproven_def)
    from preservesD [OF this s p] show "unproven env t \<and> (\<forall>x. r = Inr x \<longrightarrow> True)" .
  qed
  note steps = note_ok unproven_persist this unproven_probe [OF assms(1) event_wf [OF assms(2)]]
  show ?thesis
    unfolding record_block_def by (rule preserves_bind, rule steps)+ (rule preserves_lift, simp)
qed

lemma preserves_view: "(\<And>s. I s \<Longrightarrow> preserves I (m s) P) \<Longrightarrow> preserves I (\<lambda>s. m s s) P"
  unfolding preserves_def by blast

lemma unproven_register:
  assumes "wf_json now" and "no_evidence live" and "wf_json (JObj payload)"
  shows "preserves (unproven env) (lc_register_permeant_block env live now payload request) (\<lambda>_. True)"
proof -
  have rs: "wf_json (field_or payload ''runtime_state'' JNull)" using wf_field_or [OF assms(3)] by simp
  have "preserves (unproven env) (\<lambda>s. bind_live live payload request h
      (accepted_state (capabilities s) h ls (field_or payload ''runtime_state'' JNull)) s) (\<lambda>acc. wf_json (JObj acc))"
    if "list_all wf_json ls" for h ls
    by (rule preserves_view, rule unproven_bind_live [OF assms(2)], rule accepted_state_wf [OF _ that rs]) (simp add: unproven_def)
  then have "preserves (unproven env) (bindS (liftS (lc_layer_summaries ts)) (\<lambda>ls.
      bindS (\<lambda>s. bind_live live payload request h (accepted_state (capabilities s) h ls (field_or payload ''runtime_state'' JNull)) s)
        (record_block env now h))) (\<lambda>_. True)" for h ts
    by (intro preserves_bind [OF preserves_lift [where P = "list_all wf_json"]] preserves_bind [OF _ unproven_record [OF assms(1)]])
      (auto intro: lc_layer_summaries_wf)
  then show ?thesis
    by (auto simp: lc_register_permeant_block_def Let_def adapter_error_def intro: preserves_lift split: json.split list.split)
qed

lemma lc_available_pure: "lc_available_hashes env s = (r, t) \<Longrightarrow> t = s"
  by (auto simp: lc_available_hashes_def bindS_def lc_on_fs_def liftS_def split: prod.splits sum.splits dest: load_persisted_pure)

lemma unproven_available: "preserves (unproven env) (lc_available_hashes env) (\<lambda>_. True)"
  by (rule preserves_pure) (blast dest: lc_available_pure)

lemma verdict_unproven:
  assumes "no_evidence live" and "list_all is_str hashes" and "lc_verdict live payload hashes av b = Inr result"
  shows "\<not> verdict_proven (JObj result) \<and> wf_json (JObj result)"
proof -
  have "is_str x \<Longrightarrow> wf_json x" for x by (cases x) simp_all
  then have "list_all wf_json hashes" using assms(2) by (simp add: list_all_iff)
  then show ?thesis
    using assms(1,3)
    by (auto simp: lc_verdict_def Let_def bindR_eq_Inr verdict_proven_def field_or_def dict_keys_ok_def no_evidence_def list_all_iff
        split: if_splits option.splits) (metis Inl_Inr_False)+
qed

lemma unproven_verify:
  assumes "wf_json now" and "no_evidence live"
  shows "preserves (unproven env) (lc_verify_permeant_hashes env live now payload) (\<lambda>_. True)"
proof -
  have "preserves (unproven env)
      (bindS (\<lambda>s. liftS (lc_verdict live payload hashes available (lc_block_summaries s)) s) (\<lambda>result.
       bindS (\<lambda>s. (Inr (), s\<lparr>lc_last_verify_result := JObj result\<rparr>)) (\<lambda>_.
       bindS (persist_runtime_result env JNull (JObj result)) (\<lambda>_.
       bindS (lc_probe env now (dict_update [(''event'', JStr ''verify_permeant_hashes'')] result)) (\<lambda>_.
         liftS (Inr (JObj result))))))) (\<lambda>_. True)" if h: "list_all is_str hashes" for hashes available
  proof (rule preserves_bind [where P = "\<lambda>result. \<not> verdict_proven (JObj result) \<and> wf_json (JObj result)"])
    show "preserves (unproven env) (\<lambda>s. liftS (lc_verdict live payload hashes available (lc_block_summaries s)) s)
        (\<lambda>result. \<not> verdict_proven (JObj result) \<and> wf_json (JObj result))"
      by (rule preserves_pure) (use verdict_unproven [OF assms(2) h] in \<open>auto simp: liftS_def simp del: wf_json.simps\<close>)
    fix result
    assume r: "\<not> verdict_proven (JObj result) \<and> wf_json (JObj result)"
    have "preserves (unproven env) (\<lambda>s. (Inr (), s\<lparr>lc_last_verify_result := JObj result\<rparr>)) (\<lambda>_. True)"
      using r by (simp add: preserves_def unproven_def)
    note steps = this unproven_result [of "JObj result" JNull] unproven_probe [OF assms(1) event_wf [of result]]
    show "preserves (unproven env)
      (bindS (\<lambda>s. (Inr (), s\<lparr>lc_last_verify_result := JObj result\<rparr>)) (\<lambda>_.
       bindS (persist_runtime_result env JNull (JObj result)) (\<lambda>_.
       bindS (lc_probe env now (dict_update [(''event'', JStr ''verify_permeant_hashes'')] result)) (\<lambda>_.
         liftS (Inr (JObj result)))))) (\<lambda>_. True)"
      using r by (intro preserves_bind [OF steps(1)] preserves_bind [OF steps(2)] preserves_bind [OF steps(3)] preserves_lift) (simp_all del: wf_json.simps(2) add: wf_json.simps(1))
  qed
  then show ?thesis
    unfolding lc_verify_permeant_hashes_def
    by (auto split: option.split intro!: preserves_lift preserves_bind [OF unproven_available] dest: string_list_strs)
qed

lemma exported_claim:
  assumes "unproven env s" and "\<not> verdict_proven (field_or existing ''last_verify_result'' JNull)"
  shows "map_of (dict_update [(''success'', JBool True), (''reverse_runtime_state'', JObj (lc_export_state s known existing persisted))]
      (lc_export_state s known existing persisted)) ''decode_claim'' \<noteq> Some (JStr ''live-kv-binding-continuation-proven'')"
proof -
  have "decode_claim blocks (if truthy (lc_last_verify_result s) then lc_last_verify_result s else field_or existing ''last_verify_result'' JNull)
      (lc_last_verify_result s) \<noteq> ''live-kv-binding-continuation-proven''" for blocks
    using assms by (simp add: decode_claim_def unproven_def)
  then show ?thesis by (simp add: lc_export_state_def Let_def dict_update_def)
qed

lemma unproven_export:
  assumes "wf_json now"
  shows "preserves (unproven env) (lc_export_reverse_runtime_state env now)
    (\<lambda>v. \<exists>d. v = JObj d \<and> map_of d ''decode_claim'' \<noteq> Some (JStr ''live-kv-binding-continuation-proven''))"
  unfolding lc_export_reverse_runtime_state_def Let_def
proof (rule preserves_bind [where P = "\<lambda>ex. \<not> verdict_proven (field_or ex ''last_verify_result'' JNull)"])
  show "preserves (unproven env) (case lc_state_file env of None \<Rightarrow> liftS (Inr []) | Some p \<Rightarrow> lc_on_fs (read_dict p))
      (\<lambda>ex. \<not> verdict_proven (field_or ex ''last_verify_result'' JNull))"
    by (rule preserves_pure)
      (auto simp: unproven_def no_verdict_def liftS_def lc_on_fs_def field_or_def verdict_proven_def
        split: option.splits prod.splits dest: read_dict_pure read_dict_doc)
  fix existing
  assume ex: "\<not> verdict_proven (field_or existing ''last_verify_result'' JNull)"
  have load: "preserves (unproven env) (lc_on_fs (load_persisted_blocks (lc_state_file env))) (\<lambda>_. True)"
    by (rule unproven_read) (rule load_persisted_pure)
  have "wf_json (JObj [(''event'', JStr e), (''proof_hash'', field_or (lc_export_state s known existing persisted) ''proof_hash'' JNull),
      (''registered_hash_count'', JInt n)])" for e s known persisted n
    by (simp add: dict_keys_ok_def lc_export_state_def Let_def field_or_def)
  note probe = unproven_probe [OF assms this]
  show "preserves (unproven env) (bindS (lc_on_fs (load_persisted_blocks (lc_state_file env))) (\<lambda>persisted.
      bindS (lc_available_hashes env) (\<lambda>known s.
        bindS (lc_probe env now
          [(''event'', JStr ''reverse_runtime_state_export_api''),
           (''proof_hash'', field_or (lc_export_state s known existing persisted) ''proof_hash'' JNull),
           (''registered_hash_count'', JInt (int (length known)))]) (\<lambda>_.
        liftS (Inr (JObj (dict_update [(''success'', JBool True), (''reverse_runtime_state'', JObj (lc_export_state s known existing persisted))]
          (lc_export_state s known existing persisted))))) s)))
      (\<lambda>v. \<exists>d. v = JObj d \<and> map_of d ''decode_claim'' \<noteq> Some (JStr ''live-kv-binding-continuation-proven''))"
    by (rule preserves_bind [OF load], rule preserves_bind [OF unproven_available], rule preserves_view, rule preserves_bind [OF probe],
      rule preserves_lift) (use exported_claim [OF _ ex] in auto)
qed

lemma unproven_hook:
  assumes "wf_json now" and "no_evidence live" and "wf_json (JObj payload)"
  shows "preserves (unproven env) (lc_runtime_hook env live now payload request) (\<lambda>_. True)"
proof -
  have p: "wf_json (JObj (payload_for_kind payload k))" for k
    using assms(3) wf_field_or [OF assms(3), of JNull k] by (auto simp: payload_for_kind_def split: json.split)
  have "preserves (unproven env) (\<lambda>s. (Inr (JObj [(''success'', JBool True), (''capabilities'', capabilities s)]), s)) (\<lambda>_. True)"
    by (simp add: preserves_def)
  then show ?thesis
    unfolding lc_runtime_hook_def
    using unproven_register [OF assms(1,2) p] unproven_verify [OF assms(1,2)] preserves_weaken [OF unproven_export [OF assms(1)]]
    by (intro preserves_bind [OF preserves_lift [where P = "\<lambda>_. True"]]) (simp_all add: preserves_lift)
qed

inductive lc_step :: "lc_env \<Rightarrow> lc_runtime \<Rightarrow> lc_runtime \<Rightarrow> bool" for env where
  call: "wf_json now \<Longrightarrow> wf_json (JObj payload) \<Longrightarrow> no_evidence live \<Longrightarrow>
    lc_runtime_hook env live now payload request s = (r, t) \<Longrightarrow> lc_step env s t"
| restart: "lc_step env s (lc_new_runtime env (lc_fs s))"

inductive_cases lc_stepE: "lc_step env s t"

lemma capabilities_wf: "wf_json (probe_llama_cpp_tools env)"
  by (auto simp: probe_llama_cpp_tools_def tool_version_def dict_keys_ok_def Let_def split: prod.split option.split list.split sum.split)

lemma unproven_new: "no_verdict (lc_state_file env) f \<Longrightarrow> unproven env (lc_new_runtime env f)"
  by (simp add: unproven_def lc_new_runtime_def capabilities_wf verdict_proven_def dict_keys_ok_def)

lemma unproven_steps: "(lc_step env)\<^sup>*\<^sup>* s t \<Longrightarrow> unproven env s \<Longrightarrow> unproven env t"
proof (induction rule: rtranclp_induct)
  case (step t u)
  then have t: "unproven env t" by simp
  from step.hyps(2) show ?case
  proof (cases rule: lc_step.cases)
    case (call now payload live request r)
    then show ?thesis using preservesD [OF unproven_hook t] by blast
  next
    case restart
    then show ?thesis using t unproven_new by (simp add: unproven_def)
  qed
qed

text \<open>C12: The export claims a proven continuation only on evidence: a runtime that starts over a state file without such
  a verdict, and whose hooks never return evidence that passes the check, never makes the claim, after any
  calls and restarts.\<close>

theorem no_claim_without_evidence:
  assumes "(lc_step env)\<^sup>*\<^sup>* (lc_new_runtime env f) s" and "no_verdict (lc_state_file env) f" and "wf_json now"
    and "lc_export_reverse_runtime_state env now s = (Inr v, t)"
  shows "\<exists>d. v = JObj d \<and> map_of d ''decode_claim'' \<noteq> Some (JStr ''live-kv-binding-continuation-proven'')"
  using preservesD [OF unproven_export [OF assms(3)] unproven_steps [OF assms(1) unproven_new [OF assms(2)]] assms(4)] by blast

section \<open>Registration erases the verdict on disk\<close>

lemma read_write_dict:
  assumes "lc_on_fs (bindIO (read_dict p) (\<lambda>d. write_dict p (doc d))) s = (Inr u, t)"
  shows "write_dict p (doc (fs_doc (lc_fs s) p)) (lc_fs s) = (Inr u, lc_fs t)"
  using assms by (auto simp: lc_on_fs_def bindIO_eq_Inr split: prod.splits dest!: read_dict_doc)

lemma persist_erases:
  assumes "lc_persist env s = (Inr u, t)" and "wf_json (JObj (lc_block_summaries s))" and "wf_json (capabilities s)"
  shows "no_verdict (lc_state_file env) (lc_fs t)"
proof (cases "lc_state_file env")
  case (Some p)
  let ?b = "dict_update (blocks_field (fs_doc (lc_fs s) p)) (lc_block_summaries s)"
  let ?d = "[(''target_runtime'', JStr ''llama.cpp''), (''registered_hashes'', JList (map JStr (sort (map fst ?b)))),
    (''capabilities'', capabilities s), (''blocks'', JObj ?b)]"
  have w: "write_dict p ?d (lc_fs s) = (Inr u, lc_fs t)"
    using assms(1) by (intro read_write_dict [where doc = "\<lambda>d. let blocks = dict_update (blocks_field d) (lc_block_summaries s) in
      [(''target_runtime'', JStr ''llama.cpp''), (''registered_hashes'', JList (map JStr (sort (map fst blocks)))),
       (''capabilities'', capabilities s), (''blocks'', JObj blocks)]", unfolded Let_def]) (simp add: lc_persist_def Some Let_def)
  have "wf_json (JObj ?b)" using wf_blocks_field [OF fs_doc_wf] assms(2) by (intro wf_dict_update) simp_all
  then have "wf_json (JObj ?d)" using assms(3) by (simp add: dict_keys_ok_def list_all_iff)
  from disk.put_ok [OF w this, of p] \<open>wf_json (JObj ?d)\<close> show ?thesis
    by (simp add: Some no_verdict_def field_or_def verdict_proven_def del: wf_json.simps)
qed (simp add: no_verdict_def)

definition holds_values :: "lc_runtime \<Rightarrow> bool" where
  "holds_values s \<longleftrightarrow> wf_json (JObj (lc_block_summaries s)) \<and> wf_json (capabilities s) \<and> wf_json (lc_last_live_result s)"

lemma record_erases:
  assumes "record_block env now h acc s = (Inr r, t)" and "wf_json now" and "wf_json (JObj acc)" and "holds_values s"
  shows "no_verdict (lc_state_file env) (lc_fs t)"
proof -
  from assms(1) obtain u v where u: "lc_persist env (lc_note_block h acc s) = (Inr (), u)"
    and v: "persist_runtime_result env (lc_last_live_result u) JNull u = (Inr (), v)"
    and t: "lc_probe env now (dict_update [(''event'', JStr ''register_permeant_block'')] acc) v = (Inr (), t)"
    by (auto simp: record_block_def bindS_eq_Inr liftS_def)
  have n: "holds_values (lc_note_block h acc s)"
    using assms(3,4) by (simp add: holds_values_def lc_note_block_def wf_dict_set del: wf_json.simps)
  have "no_verdict (lc_state_file env) (lc_fs u)" using persist_erases [OF u] n by (simp add: holds_values_def)
  moreover obtain f where "u = (lc_note_block h acc s)\<lparr>lc_fs := f\<rparr>" using disk_steps_rest(2) [OF u] by blast
  ultimately have un: "unproven env (u\<lparr>lc_last_verify_result := JNull\<rparr>)"
    using n by (simp add: unproven_def holds_values_def verdict_proven_def)
  have v': "persist_runtime_result env (lc_last_live_result u) JNull (u\<lparr>lc_last_verify_result := JNull\<rparr>) = (Inr (), v\<lparr>lc_last_verify_result := JNull\<rparr>)"
    using v by (auto simp: persist_runtime_result_def lc_on_fs_def liftS_def split: option.splits prod.splits)
  have t': "lc_probe env now (dict_update [(''event'', JStr ''register_permeant_block'')] acc) (v\<lparr>lc_last_verify_result := JNull\<rparr>) =
      (Inr (), t\<lparr>lc_last_verify_result := JNull\<rparr>)"
    using t by (auto simp: lc_probe_def lc_on_fs_def split: prod.splits)
  have "preserves (unproven env) (persist_runtime_result env (lc_last_live_result u) JNull) (\<lambda>_. True)"
    using un by (intro unproven_result) (simp_all add: verdict_proven_def unproven_def)
  from preservesD [OF this un v'] have "unproven env (v\<lparr>lc_last_verify_result := JNull\<rparr>)" by simp
  from preservesD [OF unproven_probe [OF assms(2) event_wf [OF assms(3)]] this t'] show ?thesis by (simp add: unproven_def)
qed

lemma export_parts:
  assumes "lc_export_reverse_runtime_state env now s = (Inr v, t)"
  obtains known existing persisted where "v = JObj (dict_update [(''success'', JBool True),
    (''reverse_runtime_state'', JObj (lc_export_state s known existing persisted))] (lc_export_state s known existing persisted))"
proof -
  from assms obtain existing persisted known u w x where
    "(case lc_state_file env of None \<Rightarrow> liftS (Inr []) | Some p \<Rightarrow> lc_on_fs (read_dict p)) s = (Inr existing, u)"
    "lc_on_fs (load_persisted_blocks (lc_state_file env)) u = (Inr persisted, w)"
    "lc_available_hashes env w = (Inr known, x)"
    and v: "v = JObj (dict_update [(''success'', JBool True),
      (''reverse_runtime_state'', JObj (lc_export_state x known existing persisted))] (lc_export_state x known existing persisted))"
    by (auto simp: lc_export_reverse_runtime_state_def bindS_eq_Inr liftS_def Let_def)
  then have "u = s" "w = u" "x = w"
    using lc_available_pure by (auto simp: lc_on_fs_def liftS_def split: option.splits prod.splits dest: read_dict_pure load_persisted_pure)
  then show thesis using that v by blast
qed

lemma bind_live_values:
  assumes "bind_live live payload request h acc s = (Inr acc', t)" and "hook_values live" and "wf_json (JObj acc)" and "holds_values s"
  shows "wf_json (JObj acc')" and "holds_values t" and "lc_last_verify_result t = lc_last_verify_result s"
proof -
  have "wf_json (JObj acc') \<and> holds_values t \<and> lc_last_verify_result t = lc_last_verify_result s"
  proof (cases "live = Inr None")
    case True
    then show ?thesis using assms by (auto simp: bind_live_def bindS_liftS liftS_def simp del: wf_json.simps)
  next
    case False
    then obtain hook result where live: "live = Inr (Some hook)" and r: "ask_binding hook acc payload request h = Inr result"
      and e: "acc' = bound_state acc result" "t = s\<lparr>lc_last_live_result := JObj result\<rparr>"
      using assms(1) by (auto simp: bind_live_def bindS_liftS liftS_def split: sum.splits option.splits)
    have "wf_json (JObj result)" using ask_binding_wf [OF r] assms(2) by (simp add: live)
    then show ?thesis using assms(3,4) by (simp add: e bound_state_def wf_dict_set holds_values_def del: wf_json.simps(2))
  qed
  then show "wf_json (JObj acc')" "holds_values t" "lc_last_verify_result t = lc_last_verify_result s" by blast+
qed

text \<open>C37: The claim depends on a restart. After a continuation was proven, registering one more block, through a live hook or without
  one, leaves the running process exporting the proven claim, although no continuation of the new block was ever checked, while the
  state file has lost the verdict: the same export after a restart does not make the claim.\<close>

theorem claim_depends_on_restart:
  assumes "lc_register_permeant_block env live now payload request s = (Inr r, t)" and "verdict_proven (lc_last_verify_result s)"
    and "wf_json now" and "wf_json (JObj payload)" and "hook_values live" and "holds_values s"
    and "lc_export_reverse_runtime_state env now t = (Inr v, t1)"
    and "lc_export_reverse_runtime_state env now (lc_new_runtime env (lc_fs t)) = (Inr v', t2)"
  shows "\<exists>d d'. v = JObj d \<and> map_of d ''decode_claim'' = Some (JStr ''live-kv-binding-continuation-proven'') \<and>
    v' = JObj d' \<and> map_of d' ''decode_claim'' \<noteq> Some (JStr ''live-kv-binding-continuation-proven'')"
proof (rule lc_register_parts [OF assms(1)])
  fix c cs ls acc u
  let ?a = "accepted_state (capabilities s) (c # cs) ls (field_or payload ''runtime_state'' JNull)"
  assume b: "bind_live live payload request (c # cs) ?a s = (Inr acc, u)" and rec: "record_block env now (c # cs) acc u = (Inr r, t)"
    and ls: "lc_layer_summaries (case field_or payload ''tensors'' JNull of JList ts \<Rightarrow> ts | _ \<Rightarrow> []) = Inr ls"
  have "wf_json (JObj ?a)"
    using assms(6) wf_field_or [OF assms(4)] by (intro accepted_state_wf [OF _ lc_layer_summaries_wf [OF ls]]) (simp_all add: holds_values_def)
  note u = bind_live_values [OF b assms(5) this assms(6)]
  from preservesD [OF unproven_export [OF assms(3)] unproven_new [OF record_erases [OF rec assms(3) u(1,2)]] assms(8)]
  obtain d' where d': "v' = JObj d'" "map_of d' ''decode_claim'' \<noteq> Some (JStr ''live-kv-binding-continuation-proven'')" by blast
  from record_block_ok [OF rec] have p: "verdict_proven (lc_last_verify_result t)" using assms(2) u(3) by (auto simp: lc_note_block_def)
  then have tr: "truthy (lc_last_verify_result t)"
    by (cases "lc_last_verify_result t") (auto simp: verdict_proven_def field_or_def)
  from assms(7) obtain d where "v = JObj d" "map_of d ''decode_claim'' = Some (JStr ''live-kv-binding-continuation-proven'')"
    by (rule export_parts) (use p tr in \<open>auto simp: lc_export_state_def dict_update_def Let_def decode_claim_def\<close>)
  with d' show ?thesis by blast
qed

section \<open>The two reference targets agree\<close>

lemma lc_canonical_pt: "pt_canonical_tensor_data tensor = Inr (dims, values, nested) \<Longrightarrow> lc_canonical_tensor tensor = Inr (dims, values)"
  by (auto simp: pt_canonical_tensor_data_def lc_canonical_tensor_def bindR_eq_Inr adapter_error_def Let_def split: if_splits json.splits
      simp del: nested_from_flat.simps py_get_or_JObj)

lemma lc_layer_summary_pt: "pt_register_layer env l s = (Inr summary, t) \<Longrightarrow> lc_layer_summary l = Inr summary"
  by (cases l)
    (auto simp: pt_register_layer_def lc_layer_summary_def bindS_eq_Inr liftS_def differing_shapes_def adapter_error_def
      split: option.splits if_splits dest!: lc_canonical_pt)

lemma lc_layer_summaries_pt: "pt_register_layers env ls s = (Inr summaries, t) \<Longrightarrow> mapR lc_layer_summary ls = Inr summaries"
  by (induction ls arbitrary: s summaries t) (auto simp: bindS_eq_Inr liftS_def dest: lc_layer_summary_pt)

lemma accepted_layers: "map_of (accepted_state caps h ls rs) ''layers'' = Some (JList ls)"
  by (cases rs) (simp_all add: accepted_state_def Let_def)

lemma bind_live_layers:
  "bind_live live payload request h acc s = (Inr acc', t) \<Longrightarrow> map_of acc' ''layers'' = map_of acc ''layers''"
  by (auto simp: bind_live_def bindS_eq_Inr liftS_def bound_state_def split: option.splits)

section \<open>A small block\<close>

definition lc_sample_env :: "string option \<Rightarrow> lc_env" where
  "lc_sample_env var = \<lparr>lc_state_var = var, lc_probe_var = None, lc_expanduser = (\<lambda>p. p), tool_var = (\<lambda>_. None),
     tool_var_at_import = (\<lambda>_. None), which = (\<lambda>_. None), path_is_executable = (\<lambda>_. False), version_run = (\<lambda>_. Inl [])\<rparr>"

definition lc_sample_block :: obj where
  "lc_sample_block = [(''hash'', JStr ''abc''), (''runtime_state'', JObj [])]"

definition lc_sample_hook :: live_hook where
  "lc_sample_hook = \<lparr>hook_parameters = [POSITIONAL_OR_KEYWORD], hook_body = (\<lambda>_. Inr (JObj
     [(''success'', JBool True), (''runtime_state_bound'', JBool True),
      (''binding_proof'', JObj [(''bound_hashes'', JList [JStr ''abc'', JStr ''def'']), (''context_id'', JStr ''ctx''), (''kv_token_count'', JInt 4)]),
      (''continuation'', JObj [(''token_ids'', JList [JInt 7]), (''used_migrated_kv'', JBool True)])]))\<rparr>"

text \<open>A hook that reports success and nothing else.\<close>

definition lc_silent_hook :: live_hook where
  "lc_silent_hook = \<lparr>hook_parameters = [VAR_POSITIONAL], hook_body = (\<lambda>_. Inr JNull)\<rparr>"

lemma lc_sample_files [simp]:
  "lc_state_file (lc_sample_env None) = None" "lc_probe_file (lc_sample_env var) = None"
  "lc_state_file (lc_sample_env (Some (c # cs))) = Some (Path (c # cs))"
  by (simp_all add: lc_state_file_def lc_probe_file_def env_path_def lc_sample_env_def)

lemma lc_sample_fields [simp]:
  "first_truthy lc_sample_block ''hash'' ''block_hash'' = JStr ''abc''"
  "field_or lc_sample_block ''tensors'' JNull = JNull" "field_or lc_sample_block ''runtime_state'' JNull = JObj []"
  by (simp_all add: first_truthy_def field_or_def lc_sample_block_def)

lemma sample_binding: "h \<in> {''abc'', ''def''} \<Longrightarrow> \<exists>result. ask_binding lc_sample_hook acc payload request h = Inr result"
  by (auto simp: ask_binding_def invoke_def supported_args_def lc_sample_hook_def lc_normalize_response_def field_or_def
      validate_binding_result_def normalize_bound_hashes_def lc_string_list_def nonempty_str_def)

lemma sample_record: "\<exists>r t. record_block (lc_sample_env None) now h acc s = (Inr r, t)"
  by (simp add: record_block_def bindS_def lc_persist_def persist_runtime_result_def liftS_def lc_probe_def lc_on_fs_def append_probe_event_def)

theorem live_registration_bound_witness:
  "\<exists>r t acc result. lc_register_permeant_block (lc_sample_env None) (Inr (Some lc_sample_hook)) (JInt 0) lc_sample_block JNull
      (lc_new_runtime (lc_sample_env None) Map.empty) = (Inr r, t) \<and>
    map_of (lc_block_summaries t) ''abc'' = Some (JObj acc) \<and> map_of acc ''live_hook_result'' = Some (JObj result) \<and> binding_evidence result ''abc''"
proof -
  let ?s = "lc_new_runtime (lc_sample_env None) Map.empty"
  let ?a = "accepted_state (capabilities ?s) ''abc'' [] (JObj [])"
  obtain result where b: "ask_binding lc_sample_hook ?a lc_sample_block JNull ''abc'' = Inr result" using sample_binding by blast
  obtain r t where "record_block (lc_sample_env None) (JInt 0) ''abc'' (bound_state ?a result) (?s\<lparr>lc_last_live_result := JObj result\<rparr>) = (Inr r, t)"
    using sample_record by blast
  with b have r: "lc_register_permeant_block (lc_sample_env None) (Inr (Some lc_sample_hook)) (JInt 0) lc_sample_block JNull ?s = (Inr r, t)"
    by (simp add: lc_register_permeant_block_def bindS_def liftS_def bind_live_def lc_layer_summaries_def Let_def)
  from live_registration_bound [OF this lc_sample_fields(1)] r show ?thesis by blast
qed

theorem refused_binding_keeps_state_witness:
  "\<exists>e. lc_register_permeant_block (lc_sample_env None) (Inr (Some lc_silent_hook)) (JInt 0) lc_sample_block JNull
      (lc_new_runtime (lc_sample_env None) Map.empty) = (Inl e, lc_new_runtime (lc_sample_env None) Map.empty)"
  by (rule refused_binding_keeps_state [OF _ lc_sample_fields(1)])
    (simp add: ask_binding_def invoke_def supported_args_def lc_silent_hook_def lc_normalize_response_def field_or_def
      validate_binding_result_def adapter_error_def)

definition lc_sample_runtime :: lc_runtime where
  "lc_sample_runtime = (lc_new_runtime (lc_sample_env None) Map.empty)\<lparr>lc_registered_hashes := [''abc'']\<rparr>"

theorem live_verification_evidence_witness:
  "\<exists>d t result. lc_verify_permeant_hashes (lc_sample_env None) (Inr (Some lc_sample_hook)) (JInt 0) [(''block_hashes'', JList [JStr ''abc''])]
      lc_sample_runtime = (Inr (JObj d), t) \<and>
    map_of d ''live_hook_result'' = Some (JObj result) \<and> continuation_evidence result [JStr ''abc'']"
proof -
  have a: "\<exists>result. ask_continuation lc_sample_hook payload [JStr ''abc''] b = Inr result" for payload b
    by (simp add: ask_continuation_def invoke_def supported_args_def lc_sample_hook_def lc_normalize_response_def field_or_def Let_def
        validate_continuation_result_def normalize_bound_hashes_def lc_string_list_def nonempty_str_def)
  have h: "string_list (first_truthy [(''block_hashes'', JList [JStr ''abc''])] ''block_hashes'' ''expected_hashes'') = Some [JStr ''abc'']"
    by (simp add: string_list_def first_truthy_def field_or_def)
  obtain d t where d: "lc_verify_permeant_hashes (lc_sample_env None) (Inr (Some lc_sample_hook)) (JInt 0) [(''block_hashes'', JList [JStr ''abc''])]
      lc_sample_runtime = (Inr (JObj d), t)" "map_of d ''success'' = Some (JBool True)"
    using a [of "[(''block_hashes'', JList [JStr ''abc''])]" "[]"]
    by (auto simp: lc_verify_permeant_hashes_def h bindS_def lc_available_hashes_def load_persisted_hashes_def load_persisted_blocks_def
        lc_on_fs_def bindIO_def returnIO_def liftS_def lc_sample_runtime_def lc_new_runtime_def lc_verdict_def proven_result_def
        persist_runtime_result_def lc_probe_def append_probe_event_def)
  from live_verification_evidence [OF this] d(1) h show ?thesis by auto
qed

text \<open>A state file on an otherwise empty disk: absent, or holding a document.\<close>

definition state_ready :: "fs \<Rightarrow> bool" where
  "state_ready f \<longleftrightarrow> f = Map.empty \<or>
     (\<exists>d. wf_json (JObj d) \<and> f = [Path ''/state.json'' \<mapsto> FFile (utf8_encode (dumps_pretty (JObj d)))])"

lemma state_ready_write:
  assumes "state_ready f" and "wf_json (JObj d)"
  shows "\<exists>g. write_dict (Path ''/state.json'') d f = (Inr (), g) \<and> state_ready g"
proof -
  have "write_dict (Path ''/state.json'') d f = (Inr (), f(Path ''/state.json'' \<mapsto> FFile (utf8_encode (dumps_pretty (JObj d)))))"
    using assms(1)
    by (auto simp: state_ready_def write_dict_def write_with_parents_def mkdir_parents_def write_bytes_def bindIO_def node_at_def
        Path_def path_root_def path_parent_def path_prefixes_def simp del: wf_json.simps)
  then show ?thesis using assms by (auto simp: state_ready_def simp del: wf_json.simps)
qed

lemma state_ready_read:
  assumes "state_ready f"
  shows "\<exists>d. read_dict (Path ''/state.json'') f = (Inr d, f) \<and> wf_json (JObj d)"
proof (cases "f = Map.empty")
  case True
  then show ?thesis using state_json_free(2) by (simp add: dict_keys_ok_def)
next
  case False
  then obtain d where d: "wf_json (JObj d)" "f = [Path ''/state.json'' \<mapsto> FFile (utf8_encode (dumps_pretty (JObj d)))]"
    using assms by (auto simp: state_ready_def simp del: wf_json.simps)
  have "json_loads (dumps_pretty (JObj d)) = Inr (JObj (sorted_obj d))"
    using loads_render [of pretty_style "sort_keys (JObj d)" "[]"] d(1) by (simp add: dumps_pretty_def del: wf_json.simps)
  moreover have "parts (Path ''/state.json'') \<noteq> []" by (simp add: Path_def)
  ultimately have "read_dict (Path ''/state.json'') f = (Inr (sorted_obj d), f)"
    by (simp add: read_dict_def read_json_def bindIO_def read_file_def read_bytes_def path_exists_def node_at_def d(2))
  then show ?thesis using wf_sorted_obj [OF d(1)] by blast
qed

lemma state_ready_update:
  assumes "state_ready (lc_fs s)" and "\<And>d. wf_json (JObj d) \<Longrightarrow> wf_json (JObj (doc d))"
  shows "\<exists>g. lc_on_fs (bindIO (read_dict (Path ''/state.json'')) (\<lambda>d. write_dict (Path ''/state.json'') (doc d))) s = (Inr (), s\<lparr>lc_fs := g\<rparr>) \<and> state_ready g"
proof -
  obtain d where d: "read_dict (Path ''/state.json'') (lc_fs s) = (Inr d, lc_fs s)" "wf_json (JObj d)" using state_ready_read [OF assms(1)] by blast
  obtain g where "write_dict (Path ''/state.json'') (doc d) (lc_fs s) = (Inr (), g)" "state_ready g"
    using state_ready_write [OF assms(1) assms(2) [OF d(2)]] by blast
  then show ?thesis using d(1) by (intro exI [of _ g]) (simp add: lc_on_fs_def bindIO_def)
qed

lemma lc_sample_persists:
  assumes "state_ready (lc_fs s)" and "holds_values s"
  shows "\<exists>g. lc_persist (lc_sample_env (Some ''/state.json'')) s = (Inr (), s\<lparr>lc_fs := g\<rparr>) \<and> state_ready g"
    and "\<exists>g. persist_runtime_result (lc_sample_env (Some ''/state.json'')) (lc_last_live_result s) JNull s = (Inr (), s\<lparr>lc_fs := g\<rparr>) \<and> state_ready g"
proof -
  define blocks where "blocks = (\<lambda>d. dict_update (blocks_field d) (lc_block_summaries s))"
  have "wf_json (JObj (blocks d))" if "wf_json (JObj d)" for d
    unfolding blocks_def using assms(2) wf_blocks_field [OF that] by (intro wf_dict_update) (simp_all add: holds_values_def)
  then have "wf_json (JObj [(''target_runtime'', JStr ''llama.cpp''), (''registered_hashes'', JList (map JStr (sort (map fst (blocks d))))),
      (''capabilities'', capabilities s), (''blocks'', JObj (blocks d))])" if "wf_json (JObj d)" for d
    using that assms(2) by (simp add: holds_values_def dict_keys_ok_def list_all_iff)
  from state_ready_update [OF assms(1) this]
  show "\<exists>g. lc_persist (lc_sample_env (Some ''/state.json'')) s = (Inr (), s\<lparr>lc_fs := g\<rparr>) \<and> state_ready g"
    by (simp add: lc_persist_def Let_def blocks_def)
  show "\<exists>g. persist_runtime_result (lc_sample_env (Some ''/state.json'')) (lc_last_live_result s) JNull s = (Inr (), s\<lparr>lc_fs := g\<rparr>) \<and> state_ready g"
    unfolding persist_runtime_result_def lc_sample_files option.case Let_def
    by (rule state_ready_update [OF assms(1)]) (use assms(2) in \<open>simp add: wf_dict_set holds_values_def del: wf_json.simps\<close>)
qed

lemma sample_export:
  assumes "state_ready (lc_fs s)"
  shows "\<exists>v t. lc_export_reverse_runtime_state (lc_sample_env (Some ''/state.json'')) now s = (Inr v, t)"
proof -
  obtain d where d: "read_dict (Path ''/state.json'') (lc_fs s) = (Inr d, lc_fs s)" using state_ready_read [OF assms] by blast
  then have "lc_available_hashes (lc_sample_env (Some ''/state.json'')) s = (Inr (remdups (lc_registered_hashes s @ map fst (blocks_field d))), s)"
    by (simp add: lc_available_hashes_def bindS_def lc_on_fs_def load_persisted_hashes_def load_persisted_blocks_def bindIO_def returnIO_def liftS_def)
  with d show ?thesis
    by (simp add: lc_export_reverse_runtime_state_def bindS_def lc_on_fs_def load_persisted_blocks_def bindIO_def returnIO_def liftS_def Let_def
        lc_probe_def append_probe_event_def)
qed

lemma sample_records:
  assumes "state_ready (lc_fs s)" and "holds_values s" and "wf_json (JObj acc)"
  shows "\<exists>g. record_block (lc_sample_env (Some ''/state.json'')) now h acc s =
      (Inr (JObj [(''success'', JBool True), (''accepted_state'', JObj acc)]), (lc_note_block h acc s)\<lparr>lc_fs := g\<rparr>) \<and>
    state_ready g \<and> holds_values ((lc_note_block h acc s)\<lparr>lc_fs := g\<rparr>)"
proof -
  have n: "holds_values (lc_note_block h acc s)"
    using assms(2,3) by (simp add: holds_values_def lc_note_block_def wf_dict_set del: wf_json.simps)
  have f: "state_ready (lc_fs (lc_note_block h acc s))" using assms(1) by (simp add: lc_note_block_def)
  obtain g where g: "lc_persist (lc_sample_env (Some ''/state.json'')) (lc_note_block h acc s) = (Inr (), (lc_note_block h acc s)\<lparr>lc_fs := g\<rparr>)"
    "state_ready g" using lc_sample_persists(1) [OF f n] by blast
  let ?u = "(lc_note_block h acc s)\<lparr>lc_fs := g\<rparr>"
  have u: "holds_values ?u" "state_ready (lc_fs ?u)" using n g(2) by (simp_all add: holds_values_def)
  obtain k where k: "persist_runtime_result (lc_sample_env (Some ''/state.json'')) (lc_last_live_result ?u) JNull ?u = (Inr (), ?u\<lparr>lc_fs := k\<rparr>)"
    "state_ready k" using lc_sample_persists(2) [OF u(2,1)] by blast
  have "record_block (lc_sample_env (Some ''/state.json'')) now h acc s =
      (Inr (JObj [(''success'', JBool True), (''accepted_state'', JObj acc)]), ?u\<lparr>lc_fs := k\<rparr>)"
    using g(1) k(1) by (simp add: record_block_def bindS_def liftS_def lc_probe_def lc_on_fs_def append_probe_event_def returnIO_def)
  then show ?thesis using k(2) n by (intro exI [of _ k]) (simp add: holds_values_def)
qed

lemma sample_hook_values: "hook_values (Inr (Some lc_sample_hook))"
  by (simp add: hook_values_def lc_sample_hook_def dict_keys_ok_def)

lemma sample_register:
  assumes "state_ready (lc_fs s)" and "holds_values s" and "live \<in> {Inr None, Inr (Some lc_sample_hook)}" and "h \<in> {''abc'', ''def''}"
  shows "\<exists>r t. lc_register_permeant_block (lc_sample_env (Some ''/state.json'')) live now [(''hash'', JStr h), (''runtime_state'', JObj [])] JNull s = (Inr r, t) \<and>
    state_ready (lc_fs t) \<and> holds_values t \<and> h \<in> set (lc_registered_hashes t) \<and> lc_last_verify_result t = lc_last_verify_result s"
proof -
  let ?b = "[(''hash'', JStr h), (''runtime_state'', JObj [])]"
  let ?a = "accepted_state (capabilities s) h [] (JObj [])"
  have a: "wf_json (JObj ?a)" using assms(2) by (intro accepted_state_wf) (simp_all add: holds_values_def dict_keys_ok_def)
  obtain result where "ask_binding lc_sample_hook ?a ?b JNull h = Inr result" using sample_binding [OF assms(4)] by blast
  then obtain acc u where b: "bind_live live ?b JNull h ?a s = (Inr acc, u)" and fs: "lc_fs u = lc_fs s"
    using assms(3) by (auto simp: bind_live_def bindS_def liftS_def)
  have "hook_values live" using assms(3) sample_hook_values by (auto simp: hook_values_def [of "Inr None"])
  note u = bind_live_values [OF b this a assms(2)]
  obtain g where g: "record_block (lc_sample_env (Some ''/state.json'')) now h acc u =
      (Inr (JObj [(''success'', JBool True), (''accepted_state'', JObj acc)]), (lc_note_block h acc u)\<lparr>lc_fs := g\<rparr>)"
      "state_ready g" "holds_values ((lc_note_block h acc u)\<lparr>lc_fs := g\<rparr>)"
    using sample_records [OF _ u(2,1)] assms(1) fs by fastforce
  have h: "first_truthy ?b ''hash'' ''block_hash'' = JStr h" "field_or ?b ''tensors'' JNull = JNull" "field_or ?b ''runtime_state'' JNull = JObj []"
    using assms(4) by (auto simp: first_truthy_def field_or_def)
  have "lc_register_permeant_block (lc_sample_env (Some ''/state.json'')) live now ?b JNull s =
      (Inr (JObj [(''success'', JBool True), (''accepted_state'', JObj acc)]), (lc_note_block h acc u)\<lparr>lc_fs := g\<rparr>)"
    using b g(1) assms(4) unfolding lc_register_permeant_block_def h by (auto simp: Let_def bindS_def liftS_def lc_layer_summaries_def)
  then show ?thesis using g(2,3) u(3) by (simp add: lc_note_block_def set_add_def)
qed

text \<open>A continuation that the sample hook proves.\<close>

lemma sample_continuation:
  "\<exists>result. ask_continuation lc_sample_hook payload [JStr ''abc''] b = Inr result \<and> wf_json (JObj result)"
  by (simp add: ask_continuation_def invoke_def supported_args_def lc_sample_hook_def lc_normalize_response_def field_or_def Let_def
      validate_continuation_result_def normalize_bound_hashes_def lc_string_list_def nonempty_str_def dict_keys_ok_def normalized_proof_def)

lemma sample_verify:
  assumes "state_ready (lc_fs s)" and "holds_values s" and "''abc'' \<in> set (lc_registered_hashes s)"
  shows "\<exists>v t. lc_verify_permeant_hashes (lc_sample_env (Some ''/state.json'')) (Inr (Some lc_sample_hook)) now
      [(''block_hashes'', JList [JStr ''abc''])] s = (Inr v, t) \<and>
    state_ready (lc_fs t) \<and> holds_values t \<and> verdict_proven (lc_last_verify_result t)"
proof -
  let ?env = "lc_sample_env (Some ''/state.json'')" and ?p = "[(''block_hashes'', JList [JStr ''abc''])]"
  obtain d where "read_dict (Path ''/state.json'') (lc_fs s) = (Inr d, lc_fs s)" using state_ready_read [OF assms(1)] by blast
  then have a: "lc_available_hashes ?env s = (Inr (remdups (lc_registered_hashes s @ map fst (blocks_field d))), s)"
    by (simp add: lc_available_hashes_def bindS_def lc_on_fs_def load_persisted_hashes_def load_persisted_blocks_def bindIO_def returnIO_def liftS_def)
  obtain result where r: "ask_continuation lc_sample_hook ?p [JStr ''abc''] (lc_block_summaries s) = Inr result" "wf_json (JObj result)"
    using sample_continuation by blast
  define v where "v = proven_result [(''success'', JBool True), (''verified_hashes'', JList [JStr ''abc'']),
    (''decode_status'', JStr ''not_attempted_without_live_kv_import_hook'')] result"
  have vd: "lc_verdict (Inr (Some lc_sample_hook)) ?p [JStr ''abc''] (remdups (lc_registered_hashes s @ map fst (blocks_field d))) (lc_block_summaries s) = Inr v"
    using assms(3) r(1) by (simp add: lc_verdict_def v_def)
  have wv: "wf_json (JObj v)"
    unfolding v_def proven_result_def using r(2) wf_field_or [OF r(2), of JNull] by (intro wf_dict_set) (simp_all add: dict_keys_ok_def)
  let ?s = "s\<lparr>lc_last_verify_result := JObj v\<rparr>"
  have "state_ready (lc_fs ?s)" using assms(1) by simp
  then obtain g where g: "persist_runtime_result ?env JNull (JObj v) ?s = (Inr (), ?s\<lparr>lc_fs := g\<rparr>)" "state_ready g"
    using state_ready_update [of ?s "\<lambda>d. dict_set ''last_verify_result'' (JObj v) d"] wf_dict_set [OF _ wv]
    by (auto simp: persist_runtime_result_def Let_def simp del: wf_json.simps)
  have "string_list (first_truthy ?p ''block_hashes'' ''expected_hashes'') = Some [JStr ''abc'']"
    by (simp add: string_list_def first_truthy_def field_or_def)
  then have "lc_verify_permeant_hashes ?env (Inr (Some lc_sample_hook)) now ?p s = (Inr (JObj v), ?s\<lparr>lc_fs := g\<rparr>)"
    using a vd g(1) by (simp add: lc_verify_permeant_hashes_def bindS_def liftS_def lc_probe_def lc_on_fs_def append_probe_event_def)
  moreover have "verdict_proven (JObj v)" by (simp add: v_def proven_result_def verdict_proven_def field_or_def)
  ultimately show ?thesis using g(2) assms(2) by (simp add: holds_values_def)
qed

text \<open>A block is registered and its continuation proven through the live hook, and then a second block is registered through it.\<close>

theorem claim_depends_on_restart_witness:
  "\<exists>r0 s0 w s r t d t1 d' t2. lc_register_permeant_block (lc_sample_env (Some ''/state.json'')) (Inr (Some lc_sample_hook)) (JInt 0) lc_sample_block JNull
      (lc_new_runtime (lc_sample_env (Some ''/state.json'')) Map.empty) = (Inr r0, s0) \<and>
    lc_verify_permeant_hashes (lc_sample_env (Some ''/state.json'')) (Inr (Some lc_sample_hook)) (JInt 0) [(''block_hashes'', JList [JStr ''abc''])] s0 = (Inr w, s) \<and>
    lc_register_permeant_block (lc_sample_env (Some ''/state.json'')) (Inr (Some lc_sample_hook)) (JInt 0) [(''hash'', JStr ''def''), (''runtime_state'', JObj [])] JNull s = (Inr r, t) \<and>
    lc_export_reverse_runtime_state (lc_sample_env (Some ''/state.json'')) (JInt 0) t = (Inr (JObj d), t1) \<and>
    lc_export_reverse_runtime_state (lc_sample_env (Some ''/state.json'')) (JInt 0)
      (lc_new_runtime (lc_sample_env (Some ''/state.json'')) (lc_fs t)) = (Inr (JObj d'), t2) \<and>
    map_of d ''decode_claim'' = Some (JStr ''live-kv-binding-continuation-proven'') \<and>
    map_of d' ''decode_claim'' \<noteq> Some (JStr ''live-kv-binding-continuation-proven'')"
proof -
  let ?env = "lc_sample_env (Some ''/state.json'')" and ?live = "Inr (Some lc_sample_hook)"
  let ?second = "[(''hash'', JStr ''def''), (''runtime_state'', JObj [])]"
  have "state_ready (lc_fs (lc_new_runtime ?env Map.empty))" "holds_values (lc_new_runtime ?env Map.empty)"
    by (simp_all add: lc_new_runtime_def state_ready_def holds_values_def capabilities_wf dict_keys_ok_def)
  then obtain r0 s0 where s0: "lc_register_permeant_block ?env ?live (JInt 0) lc_sample_block JNull (lc_new_runtime ?env Map.empty) = (Inr r0, s0)"
      "state_ready (lc_fs s0)" "holds_values s0" "''abc'' \<in> set (lc_registered_hashes s0)"
    using sample_register [of "lc_new_runtime ?env Map.empty" ?live "''abc''" "JInt 0", folded lc_sample_block_def] by blast
  obtain w s where s: "lc_verify_permeant_hashes ?env ?live (JInt 0) [(''block_hashes'', JList [JStr ''abc''])] s0 = (Inr w, s)"
      "state_ready (lc_fs s)" "holds_values s" "verdict_proven (lc_last_verify_result s)"
    using sample_verify [OF s0(2-4)] by blast
  obtain r t where r: "lc_register_permeant_block ?env ?live (JInt 0) ?second JNull s = (Inr r, t)" "state_ready (lc_fs t)"
    using sample_register [OF s(2,3), of ?live "''def''"] by blast
  obtain v t1 where v: "lc_export_reverse_runtime_state ?env (JInt 0) t = (Inr v, t1)" using sample_export [OF r(2)] by blast
  have "state_ready (lc_fs (lc_new_runtime ?env (lc_fs t)))" using r(2) by (simp add: lc_new_runtime_def)
  then obtain v' t2 where v': "lc_export_reverse_runtime_state ?env (JInt 0) (lc_new_runtime ?env (lc_fs t)) = (Inr v', t2)"
    using sample_export by blast
  have "wf_json (JObj ?second)" by (simp add: dict_keys_ok_def)
  then obtain d d' where "v = JObj d" "map_of d ''decode_claim'' = Some (JStr ''live-kv-binding-continuation-proven'')"
      "v' = JObj d'" "map_of d' ''decode_claim'' \<noteq> Some (JStr ''live-kv-binding-continuation-proven'')"
    using claim_depends_on_restart [OF r(1) s(4) _ _ sample_hook_values s(3) v v'] by auto
  with s0(1) s(1) r(1) v v' show ?thesis by blast
qed

theorem no_claim_without_evidence_witness:
  "\<exists>r s d t. lc_runtime_hook (lc_sample_env (Some ''/state.json'')) (Inr None) (JInt 0) (dict_set ''kind'' (JStr ''inject_block'') lc_sample_block) JNull
      (lc_new_runtime (lc_sample_env (Some ''/state.json'')) Map.empty) = (Inr r, s) \<and>
    lc_export_reverse_runtime_state (lc_sample_env (Some ''/state.json'')) (JInt 0) s = (Inr (JObj d), t) \<and>
    map_of d ''decode_claim'' \<noteq> Some (JStr ''live-kv-binding-continuation-proven'')"
proof -
  let ?env = "lc_sample_env (Some ''/state.json'')" and ?p = "dict_set ''kind'' (JStr ''inject_block'') lc_sample_block"
  let ?s = "lc_new_runtime ?env Map.empty"
  have h: "lc_runtime_hook ?env (Inr None) (JInt 0) ?p JNull ?s = lc_register_permeant_block ?env (Inr None) (JInt 0) lc_sample_block JNull ?s"
    by (simp add: lc_runtime_hook_def lc_request_kind_def payload_for_kind_def lc_register_permeant_block_def first_truthy_def field_or_def
        lc_sample_block_def bind_live_def liftS_def bindS_def)
  have "state_ready (lc_fs ?s)" "holds_values ?s"
    by (simp_all add: lc_new_runtime_def state_ready_def holds_values_def capabilities_wf dict_keys_ok_def)
  then obtain r s where r: "lc_runtime_hook ?env (Inr None) (JInt 0) ?p JNull ?s = (Inr r, s)" "state_ready (lc_fs s)"
    using sample_register [of ?s "Inr None" "''abc''" "JInt 0", folded lc_sample_block_def] unfolding h by blast
  obtain v t where v: "lc_export_reverse_runtime_state ?env (JInt 0) s = (Inr v, t)" using sample_export [OF r(2)] by blast
  have "lc_step ?env ?s s"
    by (rule lc_step.call [OF _ _ _ r(1)]) (simp_all add: lc_sample_block_def dict_keys_ok_def no_evidence_def)
  then have steps: "(lc_step ?env)\<^sup>*\<^sup>* ?s s" by (rule r_into_rtranclp)
  have "no_verdict (lc_state_file ?env) Map.empty"
    by (simp add: no_verdict_def fs_doc_def files_def node_at_def Path_def field_or_def verdict_proven_def)
  from no_claim_without_evidence [OF steps this _ v] r(1) v show ?thesis by auto
qed

end
