(* ===== verification/Handshake.thy ===== *)
theory Handshake
  imports WsTransport "HOL-Library.Sublist"
begin

unbundle bit_operations_syntax

text \<open>
  The opening handshake of \<^verbatim>\<open>adapters/production_transport_proxy.py\<close>: reading HTTP headers from a socket, the header
  lookup, the server's answer with its SHA-1 digest in Base64, and the client's request and check. A decoded
  header is the list of its code points; \<open>errors="replace"\<close> follows the Unicode rule for ill-formed sequences.
  Lower case and white space are modelled up to U+00FF; a header with a larger code point other than the
  replacement character is outside the model of the lookup. The client's random bytes are an argument.
\<close>

section \<open>Text\<close>

type_synonym utext = "nat list"

definition code_points :: "string \<Rightarrow> utext" where
  "code_points s = map of_char s"

definition cont_byte :: "nat \<Rightarrow> bool" where
  "cont_byte b \<longleftrightarrow> 128 \<le> b \<and> b < 192"

definition second_byte :: "nat \<Rightarrow> nat \<Rightarrow> bool" where
  "second_byte b c \<longleftrightarrow>
     (if b = 224 then 160 else if b = 240 then 144 else 128) \<le> c \<and>
     c \<le> (if b = 237 then 159 else if b = 244 then 143 else 191)"

text \<open>One code point, or U+FFFD for the longest beginning of a well-formed sequence, and the bytes left.\<close>

definition utf8_step :: "nat \<Rightarrow> nat list \<Rightarrow> nat \<times> nat list" where
  "utf8_step b bs =
     (if b < 128 then (b, bs)
      else if 194 \<le> b \<and> b \<le> 223 then
        (case bs of
           c # cs \<Rightarrow> if cont_byte c then ((b - 192) * 64 + (c - 128), cs) else (0xFFFD, bs)
         | [] \<Rightarrow> (0xFFFD, []))
      else if 224 \<le> b \<and> b \<le> 239 then
        (case bs of
           c # cs \<Rightarrow>
             if second_byte b c then
               (case cs of
                  d # ds \<Rightarrow> if cont_byte d then ((b - 224) * 4096 + (c - 128) * 64 + (d - 128), ds) else (0xFFFD, cs)
                | [] \<Rightarrow> (0xFFFD, []))
             else (0xFFFD, bs)
         | [] \<Rightarrow> (0xFFFD, []))
      else if 240 \<le> b \<and> b \<le> 244 then
        (case bs of
           c # cs \<Rightarrow>
             if second_byte b c then
               (case cs of
                  d # ds \<Rightarrow>
                    if cont_byte d then
                      (case ds of
                         e # es \<Rightarrow>
                           if cont_byte e then ((b - 240) * 262144 + (c - 128) * 4096 + (d - 128) * 64 + (e - 128), es)
                           else (0xFFFD, ds)
                       | [] \<Rightarrow> (0xFFFD, []))
                    else (0xFFFD, cs)
                | [] \<Rightarrow> (0xFFFD, []))
             else (0xFFFD, bs)
         | [] \<Rightarrow> (0xFFFD, []))
      else (0xFFFD, bs))"

lemma utf8_step_consumes: "utf8_step b bs = (cp, rest) \<Longrightarrow> length rest \<le> length bs"
  by (auto simp: utf8_step_def split: if_splits list.splits)

function decode_replace :: "nat list \<Rightarrow> utext" where
  "decode_replace [] = []"
| "decode_replace (b # bs) = (case utf8_step b bs of (cp, rest) \<Rightarrow> cp # decode_replace rest)"
  by pat_completeness auto
termination
  by (relation "measure length") (auto dest: utf8_step_consumes [OF sym])

fun split_crlf :: "utext \<Rightarrow> utext list" where
  "split_crlf [] = [[]]"
| "split_crlf [c] = [[c]]"
| "split_crlf (c # d # cs) =
     (if c = 13 \<and> d = 10 then [] # split_crlf cs
      else case split_crlf (d # cs) of w # ws \<Rightarrow> (c # w) # ws | [] \<Rightarrow> [[c]])"

definition lower_point :: "nat \<Rightarrow> nat" where
  "lower_point c = (if 65 \<le> c \<and> c \<le> 90 \<or> 192 \<le> c \<and> c \<le> 222 \<and> c \<noteq> 215 then c + 32 else c)"

definition space_point :: "nat \<Rightarrow> bool" where
  "space_point c \<longleftrightarrow> 9 \<le> c \<and> c \<le> 13 \<or> 28 \<le> c \<and> c \<le> 32 \<or> c = 133 \<or> c = 160"

definition strip_points :: "utext \<Rightarrow> utext" where
  "strip_points t = rev (dropWhile space_point (rev (dropWhile space_point t)))"

text \<open>The first of \<open>str.splitlines()\<close>.\<close>

definition first_of_splitlines :: "utext \<Rightarrow> utext" where
  "first_of_splitlines t = takeWhile (\<lambda>c. c \<notin> {10, 11, 12, 13, 28, 29, 30, 133, 0x2028, 0x2029}) t"

text \<open>\<open>str.encode("ascii")\<close>.\<close>

definition encode_ascii :: "utext \<Rightarrow> bytes res" where
  "encode_ascii t = (if list_all (\<lambda>c. c < 128) t then Inr (map char_of t) else Inl UnicodeEncodeError)"

text \<open>A message, by its UTF-8 bytes; code points above U+00FF are shown as the replacement character.\<close>

definition shown :: "utext \<Rightarrow> string" where
  "shown t = concat (map (\<lambda>c. if c < 256 then utf8_char (char_of c) else [CHR 0xEF, CHR 0xBF, CHR 0xBD]) t)"

section \<open>Digest and Base64\<close>

definition rotl :: "nat \<Rightarrow> u32 \<Rightarrow> u32" where
  "rotl n x = push_bit n x OR drop_bit (32 - n) x"

fun sha1_extend :: "nat \<Rightarrow> u32 list \<Rightarrow> u32 list" where
  "sha1_extend 0 w = w"
| "sha1_extend (Suc k) w =
     (let t = length w in sha1_extend k (w @ [rotl 1 (w ! (t - 3) XOR w ! (t - 8) XOR w ! (t - 14) XOR w ! (t - 16))]))"

type_synonym sha1_state = "u32 \<times> u32 \<times> u32 \<times> u32 \<times> u32"

definition sha1_round :: "nat \<times> u32 \<Rightarrow> sha1_state \<Rightarrow> sha1_state" where
  "sha1_round = (\<lambda>(t, w) (a, b, c, d, e).
     let (f, k) =
       (if t < 20 then ((b AND c) OR (NOT b AND d), 0x5A827999)
        else if t < 40 then (b XOR c XOR d, 0x6ED9EBA1)
        else if t < 60 then ((b AND c) OR (b AND d) OR (c AND d), 0x8F1BBCDC)
        else (b XOR c XOR d, 0xCA62C1D6))
     in (rotl 5 a + f + e + k + w, a, rotl 30 b, c, d))"

definition sha1_block :: "bytes \<Rightarrow> sha1_state \<Rightarrow> sha1_state" where
  "sha1_block block = (\<lambda>(a, b, c, d, e).
     case fold sha1_round (enumerate 0 (sha1_extend 64 (map be_word (chunks 4 block)))) (a, b, c, d, e) of
       (a', b', c', d', e') \<Rightarrow> (a + a', b + b', c + c', d + d', e + e'))"

definition sha1 :: "bytes \<Rightarrow> bytes" where
  "sha1 m =
     (case fold sha1_block (chunks 64 (sha_pad m)) (0x67452301, 0xEFCDAB89, 0x98BADCFE, 0x10325476, 0xC3D2E1F0) of
        (a, b, c, d, e) \<Rightarrow> concat (map (\<lambda>x. be_bytes 4 (unat x)) [a, b, c, d, e]))"

definition b64_digit :: "nat \<Rightarrow> char" where
  "b64_digit n = ''ABCDEFGHIJKLMNOPQRSTUVWXYZabcdefghijklmnopqrstuvwxyz0123456789+/'' ! (n mod 64)"

definition b64_group :: "nat \<Rightarrow> nat \<Rightarrow> nat \<Rightarrow> string" where
  "b64_group a b c =
     [b64_digit (a div 4), b64_digit (a mod 4 * 16 + b div 16), b64_digit (b mod 16 * 4 + c div 64), b64_digit (c mod 64)]"

fun b64encode :: "bytes \<Rightarrow> bytes" where
  "b64encode [] = []"
| "b64encode [a] = take 2 (b64_group (of_char a) 0 0) @ ''==''"
| "b64encode [a, b] = take 3 (b64_group (of_char a) (of_char b) 0) @ ''=''"
| "b64encode (a # b # c # bs) = b64_group (of_char a) (of_char b) (of_char c) @ b64encode bs"

section \<open>The handshake\<close>

definition GUID :: string where
  "GUID = ''258EAFA5-E914-47DA-95CA-C5AB0DC85B11''"

definition crlf :: bytes where
  "crlf = [CHR 0x0D, CHR 0x0A]"

function read_http_headers :: "bytes \<Rightarrow> (segments, utext) st" where
  "read_http_headers data segs =
     (if sublist (crlf @ crlf) data then (Inr (decode_replace (map of_char data)), segs)
      else
        (case sock_recv 4096 segs of (chunk, rest) \<Rightarrow>
          if chunk = [] then (Inl (EOFError ''socket closed before HTTP headers completed''), rest)
          else if 64 * 1024 < length (data @ chunk) then (Inl (ValueError ''WebSocket handshake headers too large''), rest)
          else read_http_headers (data @ chunk) rest))"
  by pat_completeness auto
termination
  by (relation "measure (\<lambda>(data, segs). 64 * 1024 - length data)") (auto simp: sock_recv_def min_def length_greater_0_conv [symmetric] split: list.splits if_splits simp del: length_greater_0_conv)

declare read_http_headers.simps [simp del]

fun header_value :: "utext \<Rightarrow> utext list \<Rightarrow> utext option" where
  "header_value p [] = None"
| "header_value p (line # lines) =
     (if take (length p) (map lower_point line) = p then Some (strip_points (tl (dropWhile (\<lambda>c. c \<noteq> 58) line)))
      else header_value p lines)"

definition parse_header_value :: "utext \<Rightarrow> string \<Rightarrow> utext option res" where
  "parse_header_value headers name =
     (if list_ex (\<lambda>c. 256 \<le> c \<and> c \<noteq> 0xFFFD) headers then Inl (OutsideModel ''code point above U+00FF in a header'')
      else Inr (header_value (map lower_point (code_points name) @ [58]) (split_crlf headers)))"

definition accept_key :: "bytes \<Rightarrow> bytes" where
  "accept_key key = b64encode (sha1 (key @ GUID))"

definition upgrade_response :: "bytes \<Rightarrow> bytes" where
  "upgrade_response accept =
     ''HTTP/1.1 101 Switching Protocols'' @ crlf @ ''Upgrade: websocket'' @ crlf @ ''Connection: Upgrade'' @ crlf @
     ''Sec-WebSocket-Accept: '' @ accept @ crlf @ crlf"

text \<open>What the server sends.\<close>

definition server_handshake :: "(segments, bytes) st" where
  "server_handshake =
     bindS (read_http_headers []) (\<lambda>headers.
     bindS (liftS (parse_header_value headers ''Sec-WebSocket-Key'')) (\<lambda>key.
     case key of
       Some (c # cs) \<Rightarrow>
         bindS (liftS (encode_ascii ((c # cs) @ code_points GUID))) (\<lambda>b. liftS (Inr (upgrade_response (b64encode (sha1 b)))))
     | _ \<Rightarrow> liftS (Inl (ValueError ''missing Sec-WebSocket-Key''))))"

definition upgrade_request :: "bytes \<Rightarrow> string \<Rightarrow> string" where
  "upgrade_request key host =
     ''GET /permeant-transport HTTP/1.1'' @ crlf @ ''Host: '' @ host @ crlf @ ''Upgrade: websocket'' @ crlf @
     ''Connection: Upgrade'' @ crlf @ ''Sec-WebSocket-Key: '' @ key @ crlf @ ''Sec-WebSocket-Version: 13'' @ crlf @ crlf"

definition check_upgrade :: "(segments, unit) st" where
  "check_upgrade =
     bindS (read_http_headers []) (\<lambda>response.
     if sublist (code_points '' 101 '') (hd (split_crlf response)) then liftS (Inr ())
     else liftS (Inl (ValueError (''WebSocket upgrade failed: '' @
            (if response \<noteq> [] then shown (first_of_splitlines response) else ''empty response'')))))"

text \<open>What the client sends, how it ends, and the stream it leaves.\<close>

definition client_handshake :: "bytes \<Rightarrow> string \<Rightarrow> segments \<Rightarrow> bytes \<times> unit res \<times> segments" where
  "client_handshake random host segs =
     (case encode_ascii (code_points (upgrade_request (b64encode random) host)) of
        Inl e \<Rightarrow> ([], Inl e, segs)
      | Inr request \<Rightarrow> (request, check_upgrade segs))"

section \<open>Reading a header block\<close>

definition header_block :: "bytes list \<Rightarrow> bytes" where
  "header_block lines = concat (map (\<lambda>l. l @ crlf) lines) @ crlf"

definition header_line :: "bytes \<Rightarrow> bool" where
  "header_line l \<longleftrightarrow> l \<noteq> [] \<and> CHR 0x0D \<notin> set l \<and> list_all (\<lambda>c. (of_char c :: nat) < 128) l"

lemma header_block_simps: "header_block [] = crlf" "header_block (l # ls) = l @ crlf @ header_block ls"
  by (simp_all add: header_block_def)

text \<open>An empty line occurs only at the end of a header block.\<close>

lemma empty_line_last:
  assumes "\<forall>l\<in>set ls. header_line l" and "header_block ls = a @ crlf @ crlf @ c"
  shows "c = []"
  using assms
proof (induction ls arbitrary: a)
  case Nil
  then have "length (a @ crlf @ crlf @ c) = 2" by (metis crlf_def header_block_simps(1) length_Cons list.size(3) One_nat_def Suc_1)
  then show ?case by (simp add: crlf_def)
next
  case (Cons l ls)
  have l: "l \<noteq> []" "CHR 0x0D \<notin> set l" using Cons.prems(1) by (simp_all add: header_line_def)
  have eq: "l @ CHR 0x0D # CHR 0x0A # header_block ls = a @ CHR 0x0D # CHR 0x0A # crlf @ c"
    using Cons.prems(2) by (simp add: header_block_simps crlf_def)
  consider "a = l" | b where "a = l @ CHR 0x0D # CHR 0x0A # b" "header_block ls = b @ crlf @ crlf @ c"
  proof -
    from eq obtain us where "l = a @ us \<and> us @ CHR 0x0D # CHR 0x0A # header_block ls = CHR 0x0D # CHR 0x0A # crlf @ c \<or>
        l @ us = a \<and> CHR 0x0D # CHR 0x0A # header_block ls = us @ CHR 0x0D # CHR 0x0A # crlf @ c"
      unfolding append_eq_append_conv2 by blast
    then show thesis
    proof
      assume u: "l = a @ us \<and> us @ CHR 0x0D # CHR 0x0A # header_block ls = CHR 0x0D # CHR 0x0A # crlf @ c"
      then have "us = []" using l(2) by (cases us) auto
      then show thesis using u that(1) by simp
    next
      assume u: "l @ us = a \<and> CHR 0x0D # CHR 0x0A # header_block ls = us @ CHR 0x0D # CHR 0x0A # crlf @ c"
      show thesis
      proof (cases us)
        case Nil
        then show thesis using u that(1) by simp
      next
        case (Cons x xs)
        then show thesis using u that(2) by (cases xs) (auto simp: crlf_def)
      qed
    qed
  qed
  then show ?case
  proof cases
    case 1
    then have h: "header_block ls = crlf @ c" using eq by simp
    show ?thesis
    proof (cases ls)
      case Nil
      then show ?thesis using h by (simp add: header_block_simps)
    next
      case (Cons m ms)
      then have "m \<noteq> []" "CHR 0x0D \<notin> set m" using Cons.prems(1) by (simp_all add: header_line_def)
      then show ?thesis using h Cons by (cases m) (auto simp: header_block_simps crlf_def)
    qed
  next
    case 2
    then show ?thesis using Cons.IH Cons.prems(1) by simp
  qed
qed

lemma block_contains: "sublist (crlf @ crlf) (header_block (l # ls))"
proof -
  have "\<exists>a. header_block (l # ls) = a @ crlf @ crlf"
    by (induction ls arbitrary: l) (simp_all add: header_block_simps, metis append.assoc)
  then obtain a where "header_block (l # ls) = a @ (crlf @ crlf) @ []" by auto
  then show ?thesis unfolding sublist_def by blast
qed

text \<open>However the network cuts it, a header block is read in full, and nothing after it.\<close>

lemma read_header_block:
  assumes "\<forall>m\<in>set (l # ls). header_line m" and "arriving segs" and "data @ concat segs = header_block (l # ls)"
    and "length (header_block (l # ls)) \<le> 64 * 1024"
  shows "read_http_headers data segs = (Inr (decode_replace (map of_char (header_block (l # ls)))), [])"
  using assms(2,3)
proof (induction data segs rule: read_http_headers.induct)
  case (1 data segs)
  show ?case
  proof (cases "sublist (crlf @ crlf) data")
    case True
    then obtain a b where "data = a @ crlf @ crlf @ b" by (auto simp: sublist_def)
    then have "header_block (l # ls) = a @ crlf @ crlf @ (b @ concat segs)" using "1.prems"(2) by simp
    from empty_line_last [OF assms(1) this] have "concat segs = []" by simp
    then have "segs = []" using "1.prems"(1) by (cases segs) (auto simp: arriving_def)
    then show ?thesis using True "1.prems"(2) by (simp add: read_http_headers.simps)
  next
    case False
    obtain chunk rest where c: "sock_recv 4096 segs = (chunk, rest)" by fastforce
    note a = sock_recv_arriving [OF "1.prems"(1) c]
    have "concat segs \<noteq> []"
    proof
      assume "concat segs = []"
      then have "data = header_block (l # ls)" using "1.prems"(2) by (metis append_Nil2)
      then show False using False block_contains [of l ls] by blast
    qed
    then have ne: "chunk \<noteq> []" using a(4) by simp
    have "(data @ chunk) @ concat rest = header_block (l # ls)" using a(1) "1.prems"(2) by simp
    moreover from this have "length (data @ chunk) \<le> 64 * 1024" using assms(4) by (metis length_append le_add1 le_trans)
    ultimately show ?thesis
      using "1.IH" [OF False c [symmetric] ne] a(2) False c ne by (subst read_http_headers.simps) simp
  qed
qed

lemma decode_ascii: "list_all (\<lambda>b. b < 128) p \<Longrightarrow> decode_replace (p @ q) = p @ decode_replace q"
  by (induction p) (simp_all add: utf8_step_def)

lemma split_crlf_line: "13 \<notin> set l \<Longrightarrow> split_crlf (l @ 13 # 10 # t) = l # split_crlf t"
proof (induction l)
  case (Cons c l)
  then have "split_crlf (l @ 13 # 10 # t) = l # split_crlf t" "c \<noteq> 13" by simp_all
  then show ?case by (cases l) simp_all
qed simp

lemma split_header_block:
  assumes "\<forall>l\<in>set ls. header_line l"
  shows "split_crlf (map of_char (header_block ls) @ t) = map (map of_char) ls @ [] # split_crlf t"
  using assms
proof (induction ls)
  case Nil
  then show ?case by (simp add: header_block_simps crlf_def)
next
  case (Cons l ls)
  have "(13 :: nat) \<notin> of_char ` set l"
  proof
    assume "(13 :: nat) \<in> of_char ` set l"
    then obtain c where c: "c \<in> set l" "(of_char c :: nat) = of_char (CHR 0x0D)" by auto
    from c(2) have "c = CHR 0x0D" by (simp only: of_char_eq_iff)
    then show False using Cons.prems c(1) by (simp add: header_line_def)
  qed
  then show ?case
    using Cons split_crlf_line [of "map of_char l"] by (simp add: header_block_simps crlf_def)
qed

section \<open>The two ends agree\<close>

definition b64_alphabet :: string where
  "b64_alphabet = ''ABCDEFGHIJKLMNOPQRSTUVWXYZabcdefghijklmnopqrstuvwxyz0123456789+/=''"

lemma b64_digit_alphabet: "b64_digit n \<in> set b64_alphabet"
proof -
  have "b64_alphabet = ''ABCDEFGHIJKLMNOPQRSTUVWXYZabcdefghijklmnopqrstuvwxyz0123456789+/'' @ ''=''" by (simp add: b64_alphabet_def)
  moreover have "''ABCDEFGHIJKLMNOPQRSTUVWXYZabcdefghijklmnopqrstuvwxyz0123456789+/'' ! (n mod 64) \<in>
      set ''ABCDEFGHIJKLMNOPQRSTUVWXYZabcdefghijklmnopqrstuvwxyz0123456789+/''"
    by (rule nth_mem) simp
  ultimately show ?thesis unfolding b64_digit_def by (metis UnI1 set_append)
qed

lemma b64_alphabet_plain: "c \<in> set b64_alphabet \<Longrightarrow> (of_char c :: nat) < 128 \<and> \<not> space_point (of_char c) \<and> c \<noteq> CHR 0x0D"
  by (auto simp: b64_alphabet_def space_point_def)

lemma set_b64encode: "set (b64encode bs) \<subseteq> set b64_alphabet"
proof (induction bs rule: b64encode.induct)
  case (2 a)
  show ?case using b64_digit_alphabet by (auto simp: b64_group_def) (simp_all add: b64_alphabet_def)
next
  case (3 a b)
  show ?case using b64_digit_alphabet by (auto simp: b64_group_def) (simp_all add: b64_alphabet_def)
next
  case (4 a b c bs)
  then show ?case using b64_digit_alphabet by (auto simp: b64_group_def)
qed simp

lemma b64encode_plain: "c \<in> set (b64encode bs) \<Longrightarrow> (of_char c :: nat) < 128 \<and> \<not> space_point (of_char c) \<and> c \<noteq> CHR 0x0D"
  using set_b64encode b64_alphabet_plain by blast

lemma b64encode_Nil: "b64encode bs = [] \<longleftrightarrow> bs = []"
  by (cases bs rule: b64encode.cases) (simp_all add: b64_group_def)

lemma length_b64encode: "length (b64encode bs) = 4 * ((length bs + 2) div 3)"
proof (induction bs rule: b64encode.induct)
  case (4 a b c bs)
  have "(5 + length bs) div 3 = Suc ((length bs + 2) div 3)" by linarith
  with 4 show ?case by (simp add: b64_group_def)
qed (simp_all add: b64_group_def)

lemma length_accept_key: "length (accept_key key) = 28"
  by (simp add: accept_key_def length_b64encode sha1_def split: prod.split)

text \<open>The two messages are header blocks.\<close>

definition request_lines :: "bytes \<Rightarrow> string \<Rightarrow> bytes list" where
  "request_lines key host =
     [''GET /permeant-transport HTTP/1.1'', ''Host: '' @ host, ''Upgrade: websocket'', ''Connection: Upgrade'',
      ''Sec-WebSocket-Key: '' @ key, ''Sec-WebSocket-Version: 13'']"

definition response_lines :: "bytes \<Rightarrow> bytes list" where
  "response_lines accept =
     [''HTTP/1.1 101 Switching Protocols'', ''Upgrade: websocket'', ''Connection: Upgrade'', ''Sec-WebSocket-Accept: '' @ accept]"

lemma request_block: "upgrade_request key host = header_block (request_lines key host)"
  by (simp add: upgrade_request_def request_lines_def header_block_simps)

lemma response_block: "upgrade_response accept = header_block (response_lines accept)"
  by (simp add: upgrade_response_def response_lines_def header_block_simps)

lemma request_lines_ok:
  assumes "list_all (\<lambda>c. (of_char c :: nat) < 128) host" and "CHR 0x0D \<notin> set host"
  shows "\<forall>l\<in>set (request_lines (b64encode random) host). header_line l"
  using assms b64encode_plain by (fastforce simp: request_lines_def header_line_def list_all_iff)

lemma response_lines_ok: "\<forall>l\<in>set (response_lines (accept_key key)). header_line l"
  using b64encode_plain by (fastforce simp: response_lines_def header_line_def accept_key_def list_all_iff)

lemma block_ascii: "\<forall>l\<in>set ls. header_line l \<Longrightarrow> list_all (\<lambda>b. b < (128 :: nat)) (map of_char (header_block ls))"
  by (induction ls) (auto simp: header_block_simps crlf_def header_line_def list_all_iff)

lemma decode_block: "\<forall>l\<in>set ls. header_line l \<Longrightarrow>
    decode_replace (map of_char (header_block ls) @ q) = map of_char (header_block ls) @ decode_replace q"
  by (intro decode_ascii block_ascii)

lemma check_decoded_response:
  "hd (split_crlf (map of_char (upgrade_response (accept_key key)) @ t)) = code_points ''HTTP/1.1 101 Switching Protocols''"
  using split_header_block [OF response_lines_ok [of key], of t] unfolding response_block by (simp add: response_lines_def code_points_def)

lemma status_101: "sublist (code_points '' 101 '') (code_points ''HTTP/1.1 101 Switching Protocols'')"
  by code_simp

lemma encode_code_points: "list_all (\<lambda>c. (of_char c :: nat) < 128) s \<Longrightarrow> encode_ascii (code_points s) = Inr s"
  by (simp add: encode_ascii_def code_points_def list_all_iff comp_def)

lemma sent_request:
  assumes "list_all (\<lambda>c. (of_char c :: nat) < 128) host"
  shows "encode_ascii (code_points (upgrade_request (b64encode random) host)) = Inr (upgrade_request (b64encode random) host)"
proof -
  have "list_all (\<lambda>c. (of_char c :: nat) < 128) (upgrade_request (b64encode random) host)"
    using assms b64encode_plain by (auto simp: upgrade_request_def crlf_def list_all_iff)
  then show ?thesis by (rule encode_code_points)
qed

lemma strip_key: "(\<forall>c\<in>set k. \<not> space_point c) \<Longrightarrow> strip_points (32 # k) = k"
proof -
  assume k: "\<forall>c\<in>set k. \<not> space_point c"
  then have "dropWhile space_point k = k" "dropWhile space_point (rev k) = rev k"
    using hd_in_set [of "rev k"] by (auto simp: dropWhile_eq_self_iff)
  then show ?thesis by (simp add: strip_points_def space_point_def)
qed

lemma parsed_key:
  assumes "list_all (\<lambda>c. (of_char c :: nat) < 128) host" and "CHR 0x0D \<notin> set host"
  shows "parse_header_value (map of_char (upgrade_request (b64encode random) host)) ''Sec-WebSocket-Key'' = Inr (Some (code_points (b64encode random)))"
proof -
  note ok = request_lines_ok [OF assms, of random]
  have "\<not> list_ex (\<lambda>c. 256 \<le> (c :: nat) \<and> c \<noteq> 0xFFFD) (map of_char (upgrade_request (b64encode random) host))"
    using block_ascii [OF ok] by (auto simp: request_block list_all_iff list_ex_iff)
  moreover have "split_crlf (map of_char (upgrade_request (b64encode random) host)) = map (map of_char) (request_lines (b64encode random) host) @ [[], []]"
    using split_header_block [OF ok, of "[]"] by (simp add: request_block)
  moreover have "strip_points (32 # code_points (b64encode random)) = code_points (b64encode random)"
    using b64encode_plain by (intro strip_key) (auto simp: code_points_def)
  ultimately show ?thesis
    by (simp add: parse_header_value_def request_lines_def code_points_def lower_point_def)
qed

text \<open>C24: The handshake of the two ends succeeds. For a host name of at most 1000 ASCII characters without a carriage return,
  whatever the client's random bytes (at most 1000 of them) and however the network cuts the two messages, the server answers the client's request with the digest of its key, the client accepts the answer,
  and neither leaves or misses a byte.\<close>

theorem handshake_agrees:
  assumes "random \<noteq> []" and "length random \<le> 1000" and "length host \<le> 1000"
    and "list_all (\<lambda>c. (of_char c :: nat) < 128) host" and "CHR 0x0D \<notin> set host"
    and "arriving segs" and "concat segs = upgrade_request (b64encode random) host"
    and "arriving answer" and "concat answer = upgrade_response (accept_key (b64encode random))"
  shows "server_handshake segs = (Inr (concat answer), []) \<and> client_handshake random host answer = (concat segs, Inr (), [])"
proof
  let ?key = "b64encode random"
  have k: "length ?key \<le> 1400" using assms(2) by (simp add: length_b64encode)
  note rl = request_lines_ok [OF assms(4,5), of random]
  have "read_http_headers [] segs = (Inr (decode_replace (map of_char (upgrade_request ?key host))), [])"
    using rl assms(6,7) k assms(3) unfolding request_block request_lines_def
    by (intro read_header_block) (simp_all add: header_block_simps crlf_def)
  then have r: "read_http_headers [] segs = (Inr (map of_char (upgrade_request ?key host)), [])"
    using decode_block [OF rl, of "[]"] by (simp add: request_block)
  have "list_all (\<lambda>c. (of_char c :: nat) < 128) (?key @ GUID)" using b64encode_plain by (auto simp: list_all_iff GUID_def)
  from encode_code_points [OF this] have "encode_ascii (code_points ?key @ code_points GUID) = Inr (?key @ GUID)"
    by (simp add: code_points_def)
  moreover obtain c cs where "code_points ?key = c # cs" using assms(1) by (cases "code_points ?key") (auto simp: code_points_def b64encode_Nil)
  ultimately show "server_handshake segs = (Inr (concat answer), [])"
    using r parsed_key [OF assms(4,5), of random] assms(9)
    by (simp add: server_handshake_def bindS_def liftS_def accept_key_def)
  have "read_http_headers [] answer = (Inr (decode_replace (map of_char (upgrade_response (accept_key ?key)))), [])"
    using response_lines_ok [of ?key] assms(8,9) length_accept_key [of ?key] unfolding response_block response_lines_def
    by (intro read_header_block) (simp_all add: header_block_simps crlf_def)
  then have "check_upgrade answer = (Inr (), [])"
    using decode_block [OF response_lines_ok [of ?key], of "[]"] check_decoded_response [of ?key "[]"] status_101
    by (simp add: check_upgrade_def bindS_def liftS_def response_block)
  then show "client_handshake random host answer = (concat segs, Inr (), [])"
    using sent_request [OF assms(4)] assms(7) by (simp add: client_handshake_def)
qed

lemma sublist_right: "sublist xs ys \<Longrightarrow> sublist xs (ys @ zs)"
  unfolding sublist_def by (metis append.assoc)

text \<open>C39: Bytes that arrive in one segment with the end of the server's answer are lost: the client takes them for part of
  the headers and reports success, and the frames in them never reach the pipe.\<close>

theorem early_frame_lost:
  assumes "list_all (\<lambda>c. (of_char c :: nat) < 128) host"
    and "length (upgrade_response (accept_key key) @ early) \<le> 4096"
  shows "client_handshake random host ((upgrade_response (accept_key key) @ early) # rest) =
    (upgrade_request (b64encode random) host, Inr (), rest)"
proof -
  let ?d = "upgrade_response (accept_key key) @ early"
  have c: "sublist (crlf @ crlf) ?d" unfolding response_block response_lines_def by (rule sublist_right [OF block_contains])
  have ne: "\<not> sublist (crlf @ crlf) []" "upgrade_response (accept_key key) \<noteq> []" by (simp_all add: crlf_def upgrade_response_def)
  have "read_http_headers [] (?d # rest) = read_http_headers ?d rest"
    using ne assms(2) by (subst read_http_headers.simps) (simp add: sock_recv_def)
  also have "\<dots> = (Inr (decode_replace (map of_char ?d)), rest)" using c by (simp add: read_http_headers.simps)
  finally have "check_upgrade (?d # rest) = (Inr (), rest)"
    using decode_block [OF response_lines_ok [of key], of "map of_char early"] check_decoded_response [of key] status_101
    by (simp add: check_upgrade_def bindS_def liftS_def response_block)
  then show ?thesis using sent_request [OF assms(1)] by (simp add: client_handshake_def)
qed

theorem handshake_agrees_witness:
  "server_handshake (map (\<lambda>c. [c]) (upgrade_request (b64encode ''0123456789abcdef'') ''permeant-target'')) =
      (Inr (upgrade_response (accept_key (b64encode ''0123456789abcdef''))), []) \<and>
    client_handshake ''0123456789abcdef'' ''permeant-target'' [upgrade_response (accept_key (b64encode ''0123456789abcdef''))] =
      (upgrade_request (b64encode ''0123456789abcdef'') ''permeant-target'', Inr (), [])"
proof -
  let ?r = "upgrade_request (b64encode ''0123456789abcdef'') ''permeant-target''"
    and ?a = "upgrade_response (accept_key (b64encode ''0123456789abcdef''))"
  have "arriving (map (\<lambda>c. [c]) ?r)" "arriving [?a]" by (auto simp: arriving_def upgrade_response_def)
  then show ?thesis
    using handshake_agrees [of "''0123456789abcdef''" "''permeant-target''" "map (\<lambda>c. [c]) ?r" "[?a]"] by simp
qed

theorem early_frame_lost_witness:
  "\<exists>frame. send_ws_frame ''key0'' ''hello'' False = Inr frame \<and>
    client_handshake ''0123456789abcdef'' ''permeant-target'' [upgrade_response (accept_key ''k'') @ frame] =
      (upgrade_request (b64encode ''0123456789abcdef'') ''permeant-target'', Inr (), [])"
proof -
  obtain frame where f: "send_ws_frame ''key0'' ''hello'' False = Inr frame" "length frame = 7"
    by (simp add: send_ws_frame_def frame_length_def)
  have "length (upgrade_response (accept_key ''k'') @ frame) \<le> 4096"
    by (simp add: upgrade_response_def crlf_def length_accept_key f(2))
  then show ?thesis using f(1) early_frame_lost [of "''permeant-target''" "''k''" frame "''0123456789abcdef''" "[]"] by simp
qed

end
