(* ===== verification/MlxBridge.thy ===== *)
theory MlxBridge
  imports KvWrite PyText
begin

text \<open>
  The source side, \<^verbatim>\<open>adapters/mlx_runtime_bridge.py\<close>: a live cache object becomes the tensors of an extractor response.
  A cache is a JSON value: arrays are nested lists (what \<open>tolist\<close> gives), so \<open>_to_builtin\<close> is the identity, and
  objects other than dictionaries, lists and scalars are not represented. A dictionary has the attributes
  \<open>keys\<close> and \<open>values\<close>, which are methods. Loading and calling the provider are not represented: the cache is
  an argument.
\<close>

section \<open>Tensors\<close>

definition transpose_0_1 :: "json \<Rightarrow> json res" where
  "transpose_0_1 tensor =
     (case tensor of
        JList rows \<Rightarrow>
          (let second = (case rows of JList r # _ \<Rightarrow> length r | _ \<Rightarrow> 0) in
           bindR (mapR (\<lambda>j. bindR (mapR (\<lambda>i. nested_get tensor [int i, int j]) [0..<length rows]) (\<lambda>xs. Inr (JList xs))) [0..<second])
             (\<lambda>yss. Inr (JList yss)))
      | _ \<Rightarrow> Inl (TypeError (''object of type '' @ repr_str (type_name tensor) @ '' has no len()'')))"

text \<open>\<open>tensor[:seq_len]\<close>.\<close>

definition trim_seq_len :: "json \<Rightarrow> int option \<Rightarrow> json" where
  "trim_seq_len tensor seq_len =
     (case (tensor, seq_len) of
        (JList xs, Some n) \<Rightarrow> JList (take (if 0 \<le> n then nat n else length xs - nat (- n)) xs)
      | _ \<Rightarrow> tensor)"

definition heads_first :: "int list \<Rightarrow> int option \<Rightarrow> bool" where
  "heads_first shape seq_len =
     (case (shape, seq_len) of
        ([a, b, _], Some n) \<Rightarrow> a \<noteq> n \<and> (b = n \<or> a < b \<and> n \<le> b)
      | _ \<Rightarrow> False)"

definition not_3d :: "string \<Rightarrow> int list \<Rightarrow> 'a res" where
  "not_3d name shape =
     adapter_error (name @ '' must normalize to a 3D tensor [seq, kv_heads, head_dim]; got shape '' @ py_str (ints_json shape))"

definition canonicalize_tensor :: "string \<Rightarrow> json \<Rightarrow> int option \<Rightarrow> json res" where
  "canonicalize_tensor name tensor seq_len =
     bindR (shape_of_storage tensor) (\<lambda>shape0.
     bindR (if length shape0 = 4 \<and> hd shape0 = 1
            then bindR (py_index tensor 0) (\<lambda>data. bindR (shape_of_storage data) (\<lambda>shape. Inr (data, shape)))
            else Inr (tensor, shape0)) (\<lambda>(data1, shape1).
     if length shape1 \<noteq> 3 then not_3d name shape1
     else
       bindR (if heads_first shape1 seq_len
              then bindR (transpose_0_1 data1) (\<lambda>data. bindR (shape_of_storage data) (\<lambda>shape. Inr (data, shape)))
              else Inr (data1, shape1)) (\<lambda>(data2, shape2).
       case seq_len of
         Some n \<Rightarrow>
           if hd shape2 < n
           then adapter_error (name @ '' only contains '' @ int_str (hd shape2) @ '' positions but seq_len='' @ int_str n)
           else Inr (trim_seq_len data2 seq_len)
       | None \<Rightarrow> Inr (trim_seq_len data2 seq_len))))"

section \<open>Layers\<close>

datatype found = Found json | Method | Absent

definition KEY_FIELDS :: "string list" where
  "KEY_FIELDS = [''key'', ''keys'', ''k'', ''k_cache'']"

definition VALUE_FIELDS :: "string list" where
  "VALUE_FIELDS = [''value'', ''values'', ''v'', ''v_cache'']"

definition lookup_named_field :: "json \<Rightarrow> string list \<Rightarrow> found" where
  "lookup_named_field container candidates =
     (case container of
        JObj d \<Rightarrow>
          (case find (\<lambda>name. map_of d name \<noteq> None) candidates of
             Some name \<Rightarrow> Found (field_or d name JNull)
           | None \<Rightarrow> if ''keys'' \<in> set candidates \<or> ''values'' \<in> set candidates then Method else Absent)
      | _ \<Rightarrow> Absent)"

definition layer_pair :: "nat \<times> json \<Rightarrow> (found \<times> found) res" where
  "layer_pair = (\<lambda>(index, layer).
     case layer of
       JList [k, v] \<Rightarrow> Inr (Found k, Found v)
     | _ \<Rightarrow>
         (let key = lookup_named_field layer KEY_FIELDS; value = lookup_named_field layer VALUE_FIELDS in
          if key \<in> {Absent, Found JNull} \<or> value \<in> {Absent, Found JNull}
          then adapter_error (''layer '' @ nat_str index @ '' does not expose a recognizable key/value pair; '' @
                 ''expected dict/object fields like '' @ repr_str ''key'' @ '' and '' @ repr_str ''value'')
          else Inr (key, value)))"

definition extract_cache_layers :: "json \<Rightarrow> (found \<times> found) list res" where
  "extract_cache_layers cache =
     (let candidate =
        (case cache of
           JObj d \<Rightarrow>
             (case find (\<lambda>key. map_of d key \<noteq> None) [''layers'', ''kv_cache'', ''cache'', ''entries''] of
                Some key \<Rightarrow> field_or d key JNull
              | None \<Rightarrow> cache)
         | _ \<Rightarrow> cache)
      in case candidate of
           JList layers \<Rightarrow> mapR layer_pair (enum_from 0 layers)
         | _ \<Rightarrow> adapter_error ''MLX cache provider must return a layer list/tuple or a dict containing one'')"

text \<open>A method is no list: its shape is empty.\<close>

definition canonicalize_found :: "string \<Rightarrow> found \<Rightarrow> int option \<Rightarrow> json res" where
  "canonicalize_found name f seq_len =
     (case f of
        Found tensor \<Rightarrow> canonicalize_tensor name tensor seq_len
      | _ \<Rightarrow> not_3d name [])"

definition extracted_tensor :: "nat \<Rightarrow> string \<Rightarrow> found \<Rightarrow> int option \<Rightarrow> json res" where
  "extracted_tensor layer_index part f seq_len =
     bindR (canonicalize_found part f seq_len) (\<lambda>data.
     bindR (shape_of_storage data) (\<lambda>shape.
       Inr (JObj [(''name'', JStr (''layer.'' @ nat_str layer_index @ ''.'' @ part)), (''shape'', JList (map JInt shape)), (''data'', data)])))"

definition layer_tensors :: "int option \<Rightarrow> nat \<times> found \<times> found \<Rightarrow> json list res" where
  "layer_tensors seq_len = (\<lambda>(layer_index, key_tensor, value_tensor).
     bindR (extracted_tensor layer_index ''key'' key_tensor seq_len) (\<lambda>k.
     bindR (extracted_tensor layer_index ''value'' value_tensor seq_len) (\<lambda>v. Inr [k, v])))"

definition tensor_name :: "json \<Rightarrow> json" where
  "tensor_name tensor = (case tensor of JObj d \<Rightarrow> field_or d ''name'' JNull | _ \<Rightarrow> JNull)"

definition select_tensors :: "json list \<Rightarrow> string list \<Rightarrow> json list res" where
  "select_tensors tensors required_tensor_names =
     (let tensor_map = map (\<lambda>t. (tensor_name t, t)) (rev tensors);
          missing = filter (\<lambda>name. map_of tensor_map (JStr name) = None) required_tensor_names
      in if missing \<noteq> []
         then adapter_error (''MLX cache provider did not yield required tensors: '' @ py_str (JList (map JStr missing)))
         else Inr (map (\<lambda>name. the (map_of tensor_map (JStr name))) required_tensor_names))"

text \<open>The normal form of a payload without metadata has the one field \<open>tensors\<close>.\<close>

definition build_extractor_response_from_cache :: "json \<Rightarrow> int option \<Rightarrow> string list \<Rightarrow> json res" where
  "build_extractor_response_from_cache cache seq_len required_tensor_names =
     bindR (extract_cache_layers cache) (\<lambda>layers.
     bindR (mapR (layer_tensors seq_len) (enum_from 0 layers)) (\<lambda>tensors.
     bindR (normalize_extractor_payload (JObj [(''tensors'', JList (concat tensors))])) (\<lambda>normalized.
     if required_tensor_names = [] then Inr normalized
     else
       (case normalized of
          JObj [(_, JList ts)] \<Rightarrow> bindR (select_tensors ts required_tensor_names) (\<lambda>sel. Inr (JObj [(''tensors'', JList sel)]))
        | _ \<Rightarrow> Inr normalized))))"

section \<open>Layouts\<close>

lemma shape_of_regular: "has_shape v sh \<Longrightarrow> \<forall>n\<in>set sh. 0 < n \<Longrightarrow> shape_of_storage v = Inr sh"
proof (induction sh arbitrary: v)
  case Nil
  then show ?case by (cases v) auto
next
  case (Cons n ns)
  from Cons.prems obtain xs where v: "v = JList xs" "int (length xs) = n" by (cases v) auto
  with Cons.prems obtain x ys where xs: "xs = x # ys" by (cases xs) auto
  with Cons.prems v have "has_shape x ns" by simp
  with Cons.IH Cons.prems v xs show ?case by simp
qed

lemma rows_of_shape:
  assumes "has_shape v [a, b, d]" and "0 < a" "0 < b" "0 < d"
  obtains rows where "v = JList (map JList rows)" "int (length rows) = a"
    "\<forall>r\<in>set rows. int (length r) = b \<and> (\<forall>x\<in>set r. has_shape x [d])"
proof -
  from assms obtain xs where v: "v = JList xs" "int (length xs) = a" "\<forall>x\<in>set xs. has_shape x [b, d]"
    by (cases v) (auto simp: list_all_iff)
  define rows where "rows = map (\<lambda>x. case x of JList r \<Rightarrow> r | _ \<Rightarrow> []) xs"
  have row: "\<exists>r. x = JList r \<and> int (length r) = b \<and> (\<forall>y\<in>set r. has_shape y [d])" if "x \<in> set xs" for x
    using bspec [OF v(3) that] assms(3) by (cases x) (auto simp: list_all_iff)
  then have "map JList rows = xs" unfolding rows_def by (fastforce simp: comp_def intro!: map_idI)
  moreover have "int (length r) = b \<and> (\<forall>x\<in>set r. has_shape x [d])" if "r \<in> set rows" for r
    using that row unfolding rows_def by fastforce
  ultimately show thesis using that [of rows] v(1,2) by (simp add: rows_def)
qed

lemma py_index_nth: "i < length xs \<Longrightarrow> py_index (JList xs) (int i) = Inr (xs ! i)"
  by (simp add: py_index_def seq_pos_def)

lemma nested_get_rows: "i < length rows \<Longrightarrow> j < length (rows ! i) \<Longrightarrow> nested_get (JList (map JList rows)) [int i, int j] = Inr (rows ! i ! j)"
  by (simp add: py_index_nth)

lemma mapR_total: "(\<And>x. x \<in> set xs \<Longrightarrow> f x = Inr (g x)) \<Longrightarrow> mapR f xs = Inr (map g xs)"
  by (induction xs) simp_all

lemma transpose_rows:
  assumes "\<And>r. r \<in> set rows \<Longrightarrow> length r = b" and "rows \<noteq> []"
  shows "transpose_0_1 (JList (map JList rows)) = Inr (JList (map JList (map (\<lambda>j. map (\<lambda>i. rows ! i ! j) [0..<length rows]) [0..<b])))"
proof -
  obtain r rs where rows: "rows = r # rs" using assms(2) by (cases rows) auto
  have sec: "(case map JList rows of JList r # _ \<Rightarrow> length r | _ \<Rightarrow> 0) = b" using assms(1) by (simp add: rows)
  have "mapR (\<lambda>i. nested_get (JList (map JList rows)) [int i, int j]) [0..<length rows] = Inr (map (\<lambda>i. rows ! i ! j) [0..<length rows])"
    if "j < b" for j
    using that assms(1) by (intro mapR_total nested_get_rows) auto
  then have "mapR (\<lambda>j. bindR (mapR (\<lambda>i. nested_get (JList (map JList rows)) [int i, int j]) [0..<length rows]) (\<lambda>xs. Inr (JList xs))) [0..<b] =
      Inr (map (\<lambda>j. JList (map (\<lambda>i. rows ! i ! j) [0..<length rows])) [0..<b])"
    by (intro mapR_total) simp
  then show ?thesis unfolding transpose_0_1_def json.case Let_def sec by (simp add: comp_def)
qed

lemma shape_of_rows:
  assumes "int (length rows) = a" and "\<And>r. r \<in> set rows \<Longrightarrow> int (length r) = b \<and> (\<forall>x\<in>set r. has_shape x [d])" and "0 < a" "0 < b"
  shows "has_shape (JList (map JList rows)) [a, b, d]"
proof -
  have "has_shape (JList r) [b, d]" if "r \<in> set rows" for r
    using assms(2) [OF that] assms(4) by (auto simp: list_all_iff)
  then show ?thesis using assms(1,3) by (auto simp: list_all_iff)
qed

lemma trim_rows:
  assumes "int (length rows) = a" and "0 < n" "n \<le> a" and "\<And>r. r \<in> set rows \<Longrightarrow> int (length r) = b \<and> (\<forall>x\<in>set r. has_shape x [d])" and "0 < b"
  shows "has_shape (trim_seq_len (JList (map JList rows)) (Some n)) [n, b, d]"
    and "\<And>t h. 0 \<le> t \<Longrightarrow> t < n \<Longrightarrow> 0 \<le> h \<Longrightarrow> h < b \<Longrightarrow>
      nested_get (trim_seq_len (JList (map JList rows)) (Some n)) [t, h] = Inr (rows ! nat t ! nat h)"
proof -
  have tr: "trim_seq_len (JList (map JList rows)) (Some n) = JList (map JList (take (nat n) rows))"
    using assms(2) by (simp add: trim_seq_len_def take_map)
  have sub: "r \<in> set (take (nat n) rows) \<Longrightarrow> int (length r) = b \<and> (\<forall>x\<in>set r. has_shape x [d])" for r
    using assms(4) by (meson in_set_takeD)
  show "has_shape (trim_seq_len (JList (map JList rows)) (Some n)) [n, b, d]"
    unfolding tr using assms(1-3,5) sub by (intro shape_of_rows) auto
  fix t h assume th: "0 \<le> t" "t < n" "0 \<le> h" "h < b"
  have l: "nat t < length (take (nat n) rows)" using th assms(1-3) by auto
  then have "length (take (nat n) rows ! nat t) = nat b" using sub [OF nth_mem [OF l]] by auto
  then have "nested_get (JList (map JList (take (nat n) rows))) [int (nat t), int (nat h)] = Inr (take (nat n) rows ! nat t ! nat h)"
    using l th by (intro nested_get_rows) auto
  then show "nested_get (trim_seq_len (JList (map JList rows)) (Some n)) [t, h] = Inr (rows ! nat t ! nat h)"
    unfolding tr using th l by simp
qed

text \<open>What the layout guess does with a regular tensor, in both cases: without the leading batch dimension, with
  tokens first or heads first.\<close>

lemma canonicalize_regular:
  assumes "has_shape v [a, b, d]" and "0 < a" "0 < b" "0 < d" and "0 < n" and "n \<le> (if heads_first [a, b, d] (Some n) then b else a)"
  shows "\<exists>out. canonicalize_tensor name v (Some n) = Inr out \<and>
    (if heads_first [a, b, d] (Some n)
     then has_shape out [n, a, d] \<and> (\<forall>t h. 0 \<le> t \<and> t < n \<and> 0 \<le> h \<and> h < a \<longrightarrow> nested_get out [t, h] = nested_get v [h, t])
     else has_shape out [n, b, d] \<and> (\<forall>t h. 0 \<le> t \<and> t < n \<and> 0 \<le> h \<and> h < b \<longrightarrow> nested_get out [t, h] = nested_get v [t, h]))"
proof -
  obtain rows where v: "v = JList (map JList rows)" "int (length rows) = a"
    "\<forall>r\<in>set rows. int (length r) = b \<and> (\<forall>x\<in>set r. has_shape x [d])"
    using rows_of_shape [OF assms(1-4)] .
  note rows = v(1,2) bspec [OF v(3)]
  have sh: "shape_of_storage v = Inr [a, b, d]" using shape_of_regular [OF assms(1)] assms(2-4) by simp
  have get: "nested_get v [h, t] = Inr (rows ! nat h ! nat t)" if "0 \<le> h" "h < a" "0 \<le> t" "t < b" for h t
  proof -
    have l: "nat h < length rows" using that rows(2) by linarith
    then have "length (rows ! nat h) = nat b" using rows(3) [OF nth_mem [OF l]] by auto
    then show ?thesis using nested_get_rows [OF l, of "nat t"] that rows(1) by simp
  qed
  show ?thesis
  proof (cases "heads_first [a, b, d] (Some n)")
    case True
    define cols where "cols = map (\<lambda>j. map (\<lambda>i. rows ! i ! j) [0..<length rows]) [0..<nat b]"
    have len: "\<And>r. r \<in> set rows \<Longrightarrow> length r = nat b" using rows(3) by fastforce
    have ne: "rows \<noteq> []" using rows(2) assms(2) by auto
    have t: "transpose_0_1 v = Inr (JList (map JList cols))" using transpose_rows [OF len ne] by (simp add: rows(1) cols_def)
    have cl: "int (length cols) = b" "\<And>r. r \<in> set cols \<Longrightarrow> int (length r) = a \<and> (\<forall>x\<in>set r. has_shape x [d])"
      using assms(3) rows(2,3) len by (auto simp: cols_def) (metis nth_mem)
    have shc: "shape_of_storage (JList (map JList cols)) = Inr [b, a, d]"
      using shape_of_rows [OF cl assms(3,2)] assms(2-4) by (intro shape_of_regular) auto
    have n: "n \<le> b" using assms(6) True by simp
    have "canonicalize_tensor name v (Some n) = Inr (trim_seq_len (JList (map JList cols)) (Some n))"
      using True n by (simp add: canonicalize_tensor_def sh t shc)
    moreover have "cols ! nat t ! nat h = rows ! nat h ! nat t" if "0 \<le> t" "t < b" "0 \<le> h" "h < a" for t h
      using that rows(2) by (simp add: cols_def nat_less_iff)
    ultimately show ?thesis
      using trim_rows [OF cl(1) assms(5) n cl(2) assms(2)] get n True by simp
  next
    case False
    have n: "n \<le> a" using assms(6) False by simp
    have "canonicalize_tensor name v (Some n) = Inr (trim_seq_len (JList (map JList rows)) (Some n))"
      using False n by (simp add: canonicalize_tensor_def sh) (simp add: rows(1))
    then show ?thesis
      using trim_rows [OF rows(2) assms(5) n rows(3) assms(3)] get n False by simp
  qed
qed

text \<open>The source reads both layouts. From a regular tensor, which the layout test takes for tokens first or for heads
  first, an extractor response takes the first \<open>n\<close> tokens with all their heads, in canonical order and under the
  shape it announces; nothing is lost, repeated or moved.\<close>

theorem source_layout_recognised:
  assumes "has_shape v [a, b, d]" and "0 < a" "0 < b" "0 < d" and "0 < n" and "n \<le> (if heads_first [a, b, d] (Some n) then b else a)"
  shows "\<exists>out heads. heads = (if heads_first [a, b, d] (Some n) then a else b) \<and>
    extracted_tensor i part (Found v) (Some n) =
      Inr (JObj [(''name'', JStr (''layer.'' @ nat_str i @ ''.'' @ part)), (''shape'', JList [JInt n, JInt heads, JInt d]), (''data'', out)]) \<and>
    has_shape out [n, heads, d] \<and>
    (\<forall>t h. 0 \<le> t \<and> t < n \<and> 0 \<le> h \<and> h < heads \<longrightarrow>
       nested_get out [t, h] = nested_get v (if heads_first [a, b, d] (Some n) then [h, t] else [t, h]))"
proof -
  define heads where "heads = (if heads_first [a, b, d] (Some n) then a else b)"
  obtain out where o: "canonicalize_tensor part v (Some n) = Inr out" "has_shape out [n, heads, d]"
    "\<forall>t h. 0 \<le> t \<and> t < n \<and> 0 \<le> h \<and> h < heads \<longrightarrow>
       nested_get out [t, h] = nested_get v (if heads_first [a, b, d] (Some n) then [h, t] else [t, h])"
    using canonicalize_regular [OF assms, of part] unfolding heads_def by (auto split: if_splits)
  have "0 < heads" using assms(2,3) by (simp add: heads_def)
  then have "shape_of_storage out = Inr [n, heads, d]" using assms(4,5) by (intro shape_of_regular [OF o(2)]) auto
  then have "extracted_tensor i part (Found v) (Some n) =
      Inr (JObj [(''name'', JStr (''layer.'' @ nat_str i @ ''.'' @ part)), (''shape'', JList [JInt n, JInt heads, JInt d]), (''data'', out)])"
    using o(1) by (simp add: extracted_tensor_def canonicalize_found_def)
  then show ?thesis using o(2,3) heads_def by blast
qed

text \<open>The guess goes wrong on a cache with tokens first that holds more tokens than are asked for when the number asked
  for is the number of heads: the tensor is transposed, and what is announced as token \<open>t\<close> of head \<open>h\<close> is token \<open>h\<close>
  of head \<open>t\<close>.\<close>

theorem prefix_misread:
  assumes "has_shape v [s, n, d]" and "0 < d" and "0 < n" and "n < s"
  shows "\<exists>out. canonicalize_tensor name v (Some n) = Inr out \<and> has_shape out [n, s, d] \<and>
    (\<forall>t h. 0 \<le> t \<and> t < n \<and> 0 \<le> h \<and> h < s \<longrightarrow> nested_get out [t, h] = nested_get v [h, t])"
proof -
  have "heads_first [s, n, d] (Some n)" using assms(4) by (simp add: heads_first_def)
  then show ?thesis using canonicalize_regular [OF assms(1) _ assms(3,2,3), of name] assms(3,4) by simp
qed

definition small_cache :: json where
  "small_cache = JList (map (\<lambda>t. JList (map (\<lambda>h. JList [JInt (10 * t + h)]) [0, 1])) [0, 1, 2])"

theorem source_layout_recognised_witness:
  "\<exists>out. extracted_tensor 0 ''key'' (Found small_cache) (Some 3) =
      Inr (JObj [(''name'', JStr ''layer.0.key''), (''shape'', JList [JInt 3, JInt 2, JInt 1]), (''data'', out)]) \<and>
    nested_get out [2, 1] = Inr (JList [JInt 21])"
proof -
  have h: "has_shape small_cache [3, 2, 1]" "\<not> heads_first [3, 2, 1] (Some 3)" "nested_get small_cache [2, 1] = Inr (JList [JInt 21])"
    by (simp_all add: small_cache_def heads_first_def py_index_def seq_pos_def)
  have "nat_str 0 = ''0''" by code_simp
  then show ?thesis using source_layout_recognised [OF h(1), of 3 0 "''key''"] h(2,3) by fastforce
qed

theorem prefix_misread_witness:
  "\<exists>out. canonicalize_tensor ''key'' small_cache (Some 2) = Inr out \<and> nested_get out [1, 2] = Inr (JList [JInt 21]) \<and>
    nested_get small_cache [2, 1] = Inr (JList [JInt 21])"
proof -
  have h: "has_shape small_cache [3, 2, 1]" "nested_get small_cache [2, 1] = Inr (JList [JInt 21])"
    by (simp_all add: small_cache_def py_index_def seq_pos_def)
  then show ?thesis using prefix_misread [OF h(1), of "''key''"] by fastforce
qed

end
