(* ===== verification/Migration.thy ===== *)
theory Migration
  imports MlxBridge PytorchRuntime
begin

text \<open>
  From the source runtime to the target: the tensors an MLX cache is exported as
  (\<^verbatim>\<open>adapters/mlx_runtime_bridge.py\<close>, normalised by \<^verbatim>\<open>adapters/runtime_adapter_utils.py\<close>) and registered with the
  reference target (\<^verbatim>\<open>adapters/pytorch_runtime_bridge.py\<close>). The names the source gives to its tensors are the ones
  the target takes apart; the numbers survive the normal form and the nesting of the target.
\<close>

section \<open>Tensor names\<close>

lemma digit_plain: "is_digit c \<Longrightarrow> c \<noteq> CHR ''.'' \<and> c \<noteq> CHR ''-'' \<and> c \<noteq> CHR ''+'' \<and> \<not> py_space c"
  by (auto simp: is_digit_def py_space_def)

lemma int_of_nat_str: "int_of_text (nat_str i) = Inr n \<Longrightarrow> n = int i"
proof -
  assume r: "int_of_text (nat_str i) = Inr n"
  obtain c cs where c: "nat_str i = c # cs" "is_digit c" by (rule nat_str_Cons)
  have d: "\<forall>x\<in>set (nat_str i). is_digit x" using nat_str_digits by blast
  then have "dropWhile py_space (nat_str i) = nat_str i" "dropWhile py_space (rev (nat_str i)) = rev (nat_str i)"
    using digit_plain hd_in_set [of "rev (nat_str i)"] hd_in_set [of "nat_str i"] by (fastforce simp: dropWhile_eq_self_iff)+
  then have s: "py_strip (nat_str i) = nat_str i" by (simp add: py_strip_def)
  moreover have "\<not> starts_with ''-'' (nat_str i)" "\<not> starts_with ''+'' (nat_str i)" using c digit_plain by auto
  moreover have "literal_digits False (nat_str i) = Some (nat_str i)"
    by (rule literal_digits_all [OF nat_str_all_digits]) (simp add: c(1))
  ultimately show ?thesis using r by (simp add: int_of_text_def Let_def split: if_splits)
qed

lemma split_tensor_name:
  assumes "part \<in> {''key'', ''value''}"
  shows "split_on (CHR ''.'') (''layer.'' @ nat_str i @ ''.'' @ part) = [''layer'', nat_str i, part]"
proof -
  have "CHR ''.'' \<notin> set (nat_str i)" using nat_str_digits digit_plain by blast
  moreover have "split_on (CHR ''.'') part = [part]" using assms by (intro split_on_plain) auto
  ultimately have "split_on (CHR ''.'') (nat_str i @ CHR ''.'' # part) = [nat_str i, part]" by (simp add: split_on_append)
  then show ?thesis using split_on_append [of "CHR ''.''" "''layer''" "nat_str i @ CHR ''.'' # part"] by simp
qed

text \<open>A normalised tensor of the source.\<close>

definition sent_tensor :: "nat \<Rightarrow> string \<Rightarrow> int list \<Rightarrow> pyfloat list \<Rightarrow> json" where
  "sent_tensor i part shape fs =
     JObj [(''name'', JStr (''layer.'' @ nat_str i @ ''.'' @ part)), (''shape'', JList (map JInt shape)), (''data'', JList (map JFloat fs))]"

lemma group_sent_tensor:
  assumes "group_tensor (sent_tensor i part shape fs) g = Inr g'" and "part \<in> {''key'', ''value''}"
  shows "g' = put_tensor (int i) part (sent_tensor i part shape fs) g"
proof -
  define name where "name = ''layer.'' @ nat_str i @ ''.'' @ part"
  have s: "split_on (CHR ''.'') name = [''layer'', nat_str i, part]" using split_tensor_name [OF assms(2)] by (simp only: name_def)
  have n: "py_get (sent_tensor i part shape fs) ''name'' = Inr (JStr name)" by (simp add: sent_tensor_def name_def)
  show ?thesis
    using assms(1) assms(2) int_of_nat_str [of i] unfolding group_tensor_def n bindR_simps json.case s list.case
    by (auto simp: bindR_eq_Inr split: if_splits)
qed

lemma normalized_sent:
  assumes "extracted_tensor i part f n = Inr t" and "normalize_tensor (j, t) = Inr u"
  shows "\<exists>data shape fs. canonicalize_found part f n = Inr data \<and> flatten_numeric data = Inr fs \<and> u = sent_tensor i part shape fs"
  using assms by (auto simp: extracted_tensor_def normalize_tensor_def sent_tensor_def bindR_eq_Inr split: if_splits)

section \<open>Layers\<close>

text \<open>A tensor that the source sends for one part of one of its layers.\<close>

definition layer_part :: "string \<Rightarrow> found \<times> found \<Rightarrow> found" where
  "layer_part part layer = (if part = ''key'' then fst layer else snd layer)"

definition sent_for :: "int option \<Rightarrow> (found \<times> found) list \<Rightarrow> nat \<Rightarrow> string \<Rightarrow> json \<Rightarrow> bool" where
  "sent_for n layers i part u \<longleftrightarrow> part \<in> {''key'', ''value''} \<and> i < length layers \<and>
     (\<exists>data shape fs. canonicalize_found part (layer_part part (layers ! i)) n = Inr data \<and> flatten_numeric data = Inr fs \<and>
        u = sent_tensor i part shape fs)"

lemma enum_from_mem: "p \<in> set (enum_from k xs) \<longleftrightarrow> (\<exists>i<length xs. p = (k + i, xs ! i))"
proof (induction xs arbitrary: k)
  case (Cons x xs)
  have "(\<exists>i<Suc (length xs). p = (k + i, (x # xs) ! i)) \<longleftrightarrow> p = (k, x) \<or> (\<exists>i<length xs. p = (Suc k + i, xs ! i))"
    by (auto simp: less_Suc_eq_0_disj)
  then show ?case using Cons.IH by simp
qed simp

text \<open>Every tensor of the export is sent for some part of some layer, and every layer has a tensor.\<close>

lemma export_sent:
  assumes "mapR (layer_tensors n) (enum_from 0 layers) = Inr tss" and "mapR normalize_tensor (enum_from 0 (concat tss)) = Inr us"
  shows "u \<in> set us \<Longrightarrow> \<exists>i part. sent_for n layers i part u"
    and "i < length layers \<Longrightarrow> \<exists>u\<in>set us. \<exists>part. sent_for n layers i part u"
proof -
  have sent: "sent_for n layers i part u"
    if "extracted_tensor i part (layer_part part (layers ! i)) n = Inr t" "normalize_tensor (j, t) = Inr u"
      "i < length layers" "part \<in> {''key'', ''value''}" for i part t j u
    using normalized_sent [OF that(1,2)] that(3,4) by (auto simp: sent_for_def)
  show "\<exists>i part. sent_for n layers i part u" if u: "u \<in> set us"
  proof -
    obtain j where j: "j < length (concat tss)" "normalize_tensor (j, concat tss ! j) = Inr u"
      using mapR_source [OF assms(2) u] by (auto simp: enum_from_mem)
    define t where "t = concat tss ! j"
    have t: "t \<in> set (concat tss)" "normalize_tensor (j, t) = Inr u" using nth_mem [OF j(1)] j(2) by (simp_all only: t_def)
    then obtain ts where "ts \<in> set tss" "t \<in> set ts" by auto
    then obtain i where i: "i < length layers" "layer_tensors n (i, layers ! i) = Inr ts"
      using mapR_source [OF assms(1)] by (fastforce simp: enum_from_mem)
    with \<open>t \<in> set ts\<close> have "extracted_tensor i ''key'' (layer_part ''key'' (layers ! i)) n = Inr t \<or>
        extracted_tensor i ''value'' (layer_part ''value'' (layers ! i)) n = Inr t"
      by (auto simp: layer_tensors_def layer_part_def case_prod_beta bindR_eq_Inr)
    then show ?thesis using sent t(2) i(1) by blast
  qed
  show "\<exists>u\<in>set us. \<exists>part. sent_for n layers i part u" if i: "i < length layers"
  proof -
    have "(0 + i, layers ! i) \<in> set (enum_from 0 layers)" using i by (auto simp: enum_from_mem)
    then obtain ts where ts: "layer_tensors n (i, layers ! i) = Inr ts" "ts \<in> set tss" using mapR_all [OF assms(1)] by fastforce
    then obtain k where k': "extracted_tensor i ''key'' (layer_part ''key'' (layers ! i)) n = Inr k" "k \<in> set ts"
      by (auto simp: layer_tensors_def layer_part_def case_prod_beta bindR_eq_Inr)
    note k = k'(1)
    have "k \<in> set (concat tss)" using k'(2) ts(2) by auto
    then obtain j where "j < length (concat tss)" "concat tss ! j = k" by (meson in_set_conv_nth)
    then have "(j, k) \<in> set (enum_from 0 (concat tss))" unfolding enum_from_mem by auto
    then obtain u where "normalize_tensor (j, k) = Inr u" "u \<in> set us" using mapR_all [OF assms(2)] by blast
    then show ?thesis using sent [OF k] i by blast
  qed
qed

text \<open>The group files a tensor under its layer and part, and nowhere else.\<close>

definition slot :: "layer_group \<Rightarrow> int \<Rightarrow> string \<Rightarrow> json option" where
  "slot g i part = (case map_of g i of Some d \<Rightarrow> map_of d part | None \<Rightarrow> None)"

lemma slot_put: "slot (put_tensor j p t g) i q = (if i = j \<and> q = p then Some t else slot g i q)"
  by (simp add: slot_def put_tensor_def update_conv split: option.split)

lemma group_sent:
  assumes "foldR group_tensor us g = Inr g'" and "\<And>u. u \<in> set us \<Longrightarrow> \<exists>i part. sent_for n layers i part u"
    and "\<And>i part u. slot g (int i) part = Some u \<Longrightarrow> sent_for n layers i part u"
  shows "slot g' (int i) part = Some u \<Longrightarrow> sent_for n layers i part u"
  using assms
proof (induction us arbitrary: g)
  case (Cons t us)
  obtain g1 where g1: "group_tensor t g = Inr g1" "foldR group_tensor us g1 = Inr g'" using Cons.prems(2) by (auto simp: bindR_eq_Inr)
  obtain j p where t: "sent_for n layers j p t" using Cons.prems(3) by fastforce
  then have "g1 = put_tensor (int j) p t g" using group_sent_tensor g1(1) by (auto simp: sent_for_def)
  then have "slot g1 (int i) part = Some u \<Longrightarrow> sent_for n layers i part u" for i part u
    using t Cons.prems(4) by (auto simp: slot_put split: if_splits)
  then show ?case using Cons.IH [OF Cons.prems(1) g1(2)] Cons.prems(3) by auto
qed auto

text \<open>A layer that a request names is in the group.\<close>

lemma named_layer:
  assumes "tensor_name u = JStr (''layer.'' @ nat_str i @ ''.'' @ part)" and "part \<in> {''key'', ''value''}"
    and "tensor_layer u = Some m"
  shows "m = int i"
proof -
  define name where "name = ''layer.'' @ nat_str i @ ''.'' @ part"
  have s: "split_on (CHR ''.'') name = [''layer'', nat_str i, part]" using split_tensor_name [OF assms(2)] by (simp only: name_def)
  have n: "tensor_name u = JStr name" using assms(1) by (simp only: name_def)
  then obtain d where d: "u = JObj d" "field_or d ''name'' JNull = JStr name" by (cases u) (auto simp: tensor_name_def)
  have "int_of_text (nat_str i) = Inr m" using assms(3) d s by (auto simp: tensor_layer_def split: sum.splits)
  then show ?thesis by (rule int_of_nat_str)
qed

lemma group_has_layer:
  assumes "foldR group_tensor us [] = Inr g" and "u \<in> set us"
    and "tensor_name u = JStr (''layer.'' @ nat_str i @ ''.'' @ part)" and "part \<in> {''key'', ''value''}"
  shows "int i \<in> fst ` set g"
proof -
  have "\<exists>m. tensor_layer u = Some m" using assms(1,2)
  proof (induction us arbitrary: g rule: rev_induct)
    case (snoc x xs)
    then show ?case by (fastforce simp: foldR_append bindR_eq_Inr elim: group_tensor_keys)
  qed simp
  then obtain m where m: "tensor_layer u = Some m" ..
  then show ?thesis using group_layers_keys [OF assms(1)] named_layer [OF assms(3,4) m] m assms(2) by fastforce
qed

lemma select_tensors_ok:
  assumes "select_tensors us names = Inr sel"
  shows "set sel \<subseteq> set us" and "name \<in> set names \<Longrightarrow> \<exists>u\<in>set sel. tensor_name u = JStr name"
proof -
  let ?m = "map (\<lambda>t. (tensor_name t, t)) (rev us)"
  have found: "\<exists>u\<in>set us. map_of ?m (JStr x) = Some u \<and> tensor_name u = JStr x" if "x \<in> set names" for x
  proof -
    have "map_of ?m (JStr x) \<noteq> None" using assms that by (auto simp: select_tensors_def filter_empty_conv Let_def adapter_error_def split: if_splits)
    then obtain u where u: "map_of ?m (JStr x) = Some u" by blast
    then show ?thesis using map_of_SomeD [OF u] by auto
  qed
  have sel: "sel = map (\<lambda>name. the (map_of ?m (JStr name))) names" using assms by (auto simp: select_tensors_def Let_def adapter_error_def split: if_splits)
  show "set sel \<subseteq> set us" using found by (fastforce simp: sel)
  show "\<exists>u\<in>set sel. tensor_name u = JStr name" if "name \<in> set names" using found [OF that] that by (force simp: sel)
qed

section \<open>The migration of a cache\<close>

lemma sent_name: "sent_for n layers i part u \<Longrightarrow> tensor_name u = JStr (''layer.'' @ nat_str i @ ''.'' @ part) \<and> part \<in> {''key'', ''value''}"
  by (auto simp: sent_for_def sent_tensor_def tensor_name_def field_or_def)

lemma export_selected:
  assumes "build_extractor_response_from_cache cache seq_len names = Inr (JObj response)" and "extract_cache_layers cache = Inr layers"
    and "i < length layers" and "names = [] \<or> ''layer.'' @ nat_str i @ ''.key'' \<in> set names \<or> ''layer.'' @ nat_str i @ ''.value'' \<in> set names"
  obtains sel where "response = [(''tensors'', JList sel)]" "\<And>u. u \<in> set sel \<Longrightarrow> \<exists>i part. sent_for seq_len layers i part u"
    "\<exists>u\<in>set sel. \<exists>part\<in>{''key'', ''value''}. tensor_name u = JStr (''layer.'' @ nat_str i @ ''.'' @ part)"
proof -
  from assms(1,2) obtain tss us where ts: "mapR (layer_tensors seq_len) (enum_from 0 layers) = Inr tss"
    and us: "mapR normalize_tensor (enum_from 0 (concat tss)) = Inr us"
    and "(if names = [] then Inr (JObj [(''tensors'', JList us)])
      else bindR (select_tensors us names) (\<lambda>sel. Inr (JObj [(''tensors'', JList sel)]))) = Inr (JObj response)"
    by (auto simp: build_extractor_response_from_cache_def normalize_extractor_payload_def bindR_eq_Inr cong: if_cong)
  then have resp: "names = [] \<Longrightarrow> response = [(''tensors'', JList us)]"
    "names \<noteq> [] \<Longrightarrow> \<exists>sel. select_tensors us names = Inr sel \<and> response = [(''tensors'', JList sel)]"
    by (auto simp: bindR_eq_Inr)
  note sent = export_sent [OF ts us]
  show thesis
  proof (cases "names = []")
    case True
    then show thesis using resp that [of us] sent(1) sent(2) [OF assms(3)] sent_name by (metis (full_types))
  next
    case False
    then obtain sel where sel: "select_tensors us names = Inr sel" "response = [(''tensors'', JList sel)]" using resp by auto
    note ok = select_tensors_ok [OF sel(1)]
    have "\<exists>part\<in>{''key'', ''value''}. ''layer.'' @ nat_str i @ ''.'' @ part \<in> set names" using assms(4) False by auto
    then show thesis using that [OF sel(2)] ok sent(1) by blast
  qed
qed

text \<open>C11: The source's cache reaches the target. When the tensors exported from a cache, all of them or those that a request
  names, are registered with the target and both succeed, the target's cache holds for every layer of the source that was
  asked for what its tensor backend makes of exactly the numbers of the canonical key and value tensors, in the same order;
  without torch the backend keeps the numbers themselves.\<close>

theorem source_cache_reaches_target:
  assumes "build_extractor_response_from_cache cache seq_len names = Inr (JObj response)" and "extract_cache_layers cache = Inr layers"
    and "pt_register_permeant_block env now (dict_set ''hash'' (JStr h) response) s = (Inr r, t)"
    and "i < length layers" and "names = [] \<or> ''layer.'' @ nat_str i @ ''.key'' \<in> set names \<or> ''layer.'' @ nat_str i @ ''.value'' \<in> set names"
  shows "\<exists>key value kn vn k v. canonicalize_found ''key'' (fst (layers ! i)) seq_len = Inr key \<and>
    canonicalize_found ''value'' (snd (layers ! i)) seq_len = Inr value \<and>
    flatten_numeric kn = flatten_numeric key \<and> flatten_numeric vn = flatten_numeric value \<and>
    materialize_tensor env kn = Inr k \<and> materialize_tensor env vn = Inr v \<and>
    map_of (kv_cache t) (int i) = Some (k, v) \<and> (torch_tensor env = None \<longrightarrow> k = kn \<and> v = vn)"
proof -
  obtain sel where resp: "response = [(''tensors'', JList sel)]" and sent: "\<And>u. u \<in> set sel \<Longrightarrow> \<exists>i part. sent_for seq_len layers i part u"
    and asked: "\<exists>u\<in>set sel. \<exists>part\<in>{''key'', ''value''}. tensor_name u = JStr (''layer.'' @ nat_str i @ ''.'' @ part)"
    using export_selected [OF assms(1,2,4,5)] by metis
  obtain g where g: "pt_group_layer_tensors sel = Inr g" "\<forall>(i, layer)\<in>set g. layer_cached env t i layer"
    using registered_layers_cached [OF assms(3)] by (auto simp: resp)
  have f: "foldR group_tensor sel [] = Inr g" using g(1) by (simp add: pt_group_layer_tensors_def pt_group_eq_Inr)
  have "int i \<in> fst ` set g" using asked group_has_layer [OF f] by blast
  then obtain d where d: "(int i, d) \<in> set g" by force
  have m: "map_of g (int i) = Some d" using d group_layers_keys [OF f] by simp
  have slots: "slot g (int i) part = Some u \<Longrightarrow> sent_for seq_len layers i part u" for part u
    by (rule group_sent [OF f sent]) (auto simp: slot_def)
  have "layer_cached env t (int i) d" using g(2) d by blast
  then obtain kn vn k v kt vt where c: "map_of d ''key'' = Some kt" "map_of d ''value'' = Some vt" "holds_tensor kn kt" "holds_tensor vn vt"
      "materialize_tensor env kn = Inr k" "materialize_tensor env vn = Inr v" "map_of (kv_cache t) (int i) = Some (k, v)"
    by (auto simp: layer_cached_def)
  have holds: "holds_tensor x (sent_tensor i part sh fs) \<longleftrightarrow> flatten_numeric x = Inr fs" for x part sh fs
    by (auto simp: holds_tensor_def sent_tensor_def concat_map_singleton)
  have "sent_for seq_len layers i ''key'' kt" "sent_for seq_len layers i ''value'' vt" using slots c(1,2) m by (simp_all add: slot_def)
  then obtain key val where "canonicalize_found ''key'' (fst (layers ! i)) seq_len = Inr key" "flatten_numeric kn = flatten_numeric key"
    "canonicalize_found ''value'' (snd (layers ! i)) seq_len = Inr val" "flatten_numeric vn = flatten_numeric val"
    using c(3,4) by (auto simp: sent_for_def layer_part_def holds)
  moreover have "torch_tensor env = None \<longrightarrow> k = kn \<and> v = vn" using c(5,6) by (auto simp: materialize_tensor_def)
  ultimately show ?thesis
    using c(5-7) by (intro exI [of _ key] exI [of _ val] exI [of _ kn] exI [of _ vn] exI [of _ k] exI [of _ v]) simp
qed

theorem source_cache_reaches_target_witness:
  "\<exists>response r t k v. build_extractor_response_from_cache (JList [JList [JList [JList [JList [JFloat (Fin 0)]]], JList [JList [JList [JFloat (Fin 0)]]]]]) None [] =
      Inr (JObj response) \<and>
    pt_register_permeant_block pt_sample_env (JInt 0) (dict_set ''hash'' (JStr ''abc'') response) (pt_new_runtime Map.empty) = (Inr r, t) \<and>
    map_of (kv_cache t) 0 = Some (k, v) \<and> flatten_numeric k = Inr [Fin 0] \<and> flatten_numeric v = Inr [Fin 0]"
proof -
  let ?c = "JList [JList [JList [JFloat (Fin 0)]]]" and ?ts = "[pt_sample_tensor ''key'', pt_sample_tensor ''value'']"
  have z: "nat_str 0 = ''0''" by code_simp
  have l: "extract_cache_layers (JList [JList [?c, ?c]]) = Inr [(Found ?c, Found ?c)]" by (simp add: extract_cache_layers_def layer_pair_def)
  have c: "canonicalize_found part (Found ?c) None = Inr ?c" for part
    by (simp add: canonicalize_found_def canonicalize_tensor_def heads_first_def trim_seq_len_def)
  have b: "build_extractor_response_from_cache (JList [JList [?c, ?c]]) None [] = Inr (JObj [(''tensors'', JList ?ts)])"
    by (simp add: build_extractor_response_from_cache_def l layer_tensors_def extracted_tensor_def c z normalize_extractor_payload_def
        normalize_tensor_def pt_sample_tensor_def)
  have "pt_register_permeant_block pt_sample_env (JInt 0) (dict_set ''hash'' (JStr ''abc'') [(''tensors'', JList ?ts)]) (pt_new_runtime Map.empty) =
      pt_register_permeant_block pt_sample_env (JInt 0) pt_sample_block (pt_new_runtime Map.empty)"
    by (simp add: pt_register_permeant_block_def first_truthy_def field_or_def pt_sample_block_def)
  then obtain r t where r: "pt_register_permeant_block pt_sample_env (JInt 0) (dict_set ''hash'' (JStr ''abc'') [(''tensors'', JList ?ts)])
      (pt_new_runtime Map.empty) = (Inr r, t)"
    using pt_sample_registers by auto
  from source_cache_reaches_target [OF b l r, of 0] b r show ?thesis by (auto simp: c pt_sample_env_def)
qed

end
