(* ===== verification/Fidelity.thy ===== *)
theory Fidelity
  imports SpanMetadata
begin

text \<open>
  The fidelity report of a migration, \<^verbatim>\<open>adapters/analyze_real_runtime_fidelity.py\<close>: the checks of the KV spans of a
  graph, the alignment of prompt, graph and KV state, and the summary of a run from its manifest and the events
  of the target's probe file. Manifest and probe are JSON objects; events may be any JSON values. Reading the
  two files and printing are not represented.
\<close>

section \<open>Events and comparisons\<close>

text \<open>\<open>a or b\<close>.\<close>

definition or_value :: "json \<Rightarrow> json \<Rightarrow> json" where
  "or_value a b = (if truthy a then a else b)"

fun find_event :: "json list \<Rightarrow> string \<Rightarrow> json res" where
  "find_event [] name = Inr JNull"
| "find_event (event # events) name =
     bindR (py_get event ''event'') (\<lambda>e. if py_eq e (JStr name) then Inr event else find_event events name)"

definition find_events :: "json list \<Rightarrow> string \<Rightarrow> json list res" where
  "find_events events name = filterR (\<lambda>event. bindR (py_get event ''event'') (\<lambda>e. Inr (py_eq e (JStr name)))) events"

definition dict_of :: "json \<Rightarrow> obj" where
  "dict_of v = (case v of JObj d \<Rightarrow> d | _ \<Rightarrow> [])"

definition verification :: "obj \<Rightarrow> obj" where
  "verification manifest = dict_of (field_or manifest ''verification'' JNull)"

definition verification_from_probe :: "json list \<Rightarrow> obj res" where
  "verification_from_probe events = bindR (find_event events ''verify_permeant_hashes'') (\<lambda>payload. Inr (dict_of payload))"

definition comparison_field :: "json \<Rightarrow> string \<Rightarrow> json" where
  "comparison_field comparison name = (case comparison of JObj d \<Rightarrow> field_or d name JNull | _ \<Rightarrow> JNull)"

definition first_mismatch :: "json \<Rightarrow> json" where
  "first_mismatch comparison = comparison_field comparison ''first_token_mismatch_index''"

definition status :: "json \<Rightarrow> bool \<Rightarrow> string" where
  "status success available =
     (if \<not> available then ''unavailable''
      else if success = JBool True then ''aligned''
      else if success = JBool False then ''diverged''
      else ''unknown'')"

section \<open>Spans\<close>

definition artifact_hashes :: "obj \<Rightarrow> obj" where
  "artifact_hashes agent_graph =
     (case field_or agent_graph ''artifacts'' JNull of
        JList artifacts \<Rightarrow>
          fold (\<lambda>artifact hashes.
            case artifact of
              JObj a \<Rightarrow>
                (case (field_or a ''path'' JNull, field_or a ''sha256'' JNull) of
                   (JStr path, JStr digest) \<Rightarrow> dict_set path (JStr digest) hashes
                 | _ \<Rightarrow> hashes)
            | _ \<Rightarrow> hashes) artifacts []
      | _ \<Rightarrow> [])"

text \<open>\<open>re.compile(r"^sha256:[0-9a-fA-F]{64}$").match\<close>.\<close>

definition any_case_sha256 :: "string \<Rightarrow> bool" where
  "any_case_sha256 s \<longleftrightarrow>
     starts_with ''sha256:'' s \<and>
     (let h = drop 7 s
      in 64 \<le> length h \<and> list_all (\<lambda>c. is_hex c \<or> 65 \<le> (of_char c :: nat) \<and> (of_char c :: nat) \<le> 70) (take 64 h) \<and>
         (drop 64 h = [] \<or> drop 64 h = [CHR 0x0A]))"

definition hash_string :: "json \<Rightarrow> bool" where
  "hash_string v = (case v of JStr s \<Rightarrow> any_case_sha256 s | _ \<Rightarrow> False)"

record span_tally =
  invalid :: nat
  coverage :: int
  cache_refs :: "string list"

definition span_range :: "obj \<Rightarrow> int option" where
  "span_range sp =
     (case (int_val (field_or sp ''token_start'' JNull), int_val (field_or sp ''token_end'' JNull)) of
        (Some a, Some b) \<Rightarrow> if b \<le> a then None else Some (b - a)
      | _ \<Rightarrow> None)"

definition span_valid :: "obj \<Rightarrow> bool" where
  "span_valid sp \<longleftrightarrow>
     nonempty_str (field_or sp ''node_id'' JNull) \<and> nonempty_str (field_or sp ''cache_ref'' JNull) \<and> span_range sp \<noteq> None \<and>
     (field_or sp ''tokenizer_hash'' JNull = JNull \<or> hash_string (field_or sp ''tokenizer_hash'' JNull)) \<and>
     (case field_or sp ''block_hashes'' (JList []) of JList hs \<Rightarrow> list_all hash_string hs | _ \<Rightarrow> False)"

definition check_span :: "json \<Rightarrow> span_tally \<Rightarrow> span_tally" where
  "check_span sp tally =
     (case sp of
        JObj d \<Rightarrow>
          (let refs = (case field_or d ''cache_ref'' JNull of JStr (c # cs) \<Rightarrow> cache_refs tally @ [c # cs] | _ \<Rightarrow> cache_refs tally);
               cov = (case span_range d of Some n \<Rightarrow> coverage tally + n | None \<Rightarrow> coverage tally)
           in tally\<lparr>invalid := (if span_valid d then invalid tally else Suc (invalid tally)), coverage := cov, cache_refs := refs\<rparr>)
      | _ \<Rightarrow> tally\<lparr>invalid := Suc (invalid tally)\<rparr>)"

definition span_report :: "bool \<Rightarrow> nat \<Rightarrow> nat \<Rightarrow> json \<Rightarrow> string list \<Rightarrow> string list \<Rightarrow> obj" where
  "span_report available n bad cov refs classes =
     [(''available'', JBool available), (''span_count'', JInt (int n)), (''invalid_span_count'', JInt (int bad)),
      (''token_coverage'', cov), (''cache_refs'', JList (map JStr refs)), (''failure_classes'', JList (map JStr classes))]"

definition kv_span_checks :: "obj \<Rightarrow> obj" where
  "kv_span_checks agent_graph =
     (case field_or agent_graph ''kv_spans'' JNull of
        JList spans \<Rightarrow>
          if spans = [] then span_report True 0 0 (JInt 0) [] [''missing_kv_spans'']
          else
            (let tally = fold check_span spans \<lparr>invalid = 0, coverage = 0, cache_refs = []\<rparr> in
             span_report True (length spans) (invalid tally) (JInt (coverage tally)) (sort (remdups (cache_refs tally)))
               (if invalid tally = 0 then [] else [''invalid_kv_span'']))
      | _ \<Rightarrow> span_report False 0 0 JNull [] [''missing_kv_spans''])"

section \<open>Alignment\<close>

definition graph_status :: "bool \<Rightarrow> obj \<Rightarrow> string" where
  "graph_status graph_available checks =
     (if \<not> graph_available then ''unavailable''
      else if field_or checks ''invalid_span_count'' JNull \<noteq> JInt 0 then ''diverged''
      else if field_or checks ''available'' JNull \<noteq> JBool True \<or> field_or checks ''span_count'' JNull = JInt 0 then ''partial''
      else ''aligned'')"

definition overall_status :: "string list \<Rightarrow> string" where
  "overall_status statuses =
     (if ''diverged'' \<in> set statuses then ''diverged''
      else if list_all (\<lambda>s. s = ''aligned'') statuses then ''aligned''
      else if list_ex (\<lambda>s. s = ''aligned'' \<or> s = ''partial'') statuses then ''partial''
      else ''unknown'')"

definition span_checks_of :: "obj \<Rightarrow> obj" where
  "span_checks_of agent_graph =
     (if agent_graph \<noteq> [] then kv_span_checks agent_graph else span_report False 0 0 JNull [] [''missing_graph_package''])"

definition bool_or_none :: "json \<Rightarrow> json" where
  "bool_or_none v = (case v of JBool b \<Rightarrow> JBool b | _ \<Rightarrow> JNull)"

definition prompt_section :: "obj \<Rightarrow> json \<Rightarrow> json \<Rightarrow> obj" where
  "prompt_section agent_graph source_comparison prompt_tokenization =
     [(''status'', JStr (status (comparison_field source_comparison ''prompt_matches'') (is_dict source_comparison))),
      (''source_prompt_matches_target'', comparison_field source_comparison ''prompt_matches''),
      (''source_shared_prefix_token_count'', comparison_field source_comparison ''shared_prefix_token_count''),
      (''source_expected_token_count'', comparison_field source_comparison ''expected_token_count''),
      (''source_actual_token_count'', comparison_field source_comparison ''actual_token_count''),
      (''target_prompt_token_count'', comparison_field prompt_tokenization ''token_count''),
      (''graph_prompt_byte_hash'', field_or agent_graph ''prompt_byte_hash'' JNull),
      (''graph_prompt_token_hash'', field_or agent_graph ''prompt_token_hash'' JNull),
      (''tokenizer_hash'', field_or agent_graph ''tokenizer_hash'' JNull)]"

definition graph_section :: "obj \<Rightarrow> obj" where
  "graph_section agent_graph =
     (let checks = span_checks_of agent_graph in
      [(''status'', JStr (graph_status (agent_graph \<noteq> []) checks)), (''graph_hash'', field_or agent_graph ''graph_hash'' JNull),
       (''graph_path'', field_or agent_graph ''graph_path'' JNull), (''manifest_path'', field_or agent_graph ''manifest_path'' JNull),
       (''artifact_hashes'', JObj (artifact_hashes agent_graph)), (''kv_spans_available'', field_or checks ''available'' JNull),
       (''kv_span_count'', field_or checks ''span_count'' JNull), (''invalid_kv_span_count'', field_or checks ''invalid_span_count'' JNull),
       (''kv_span_token_coverage'', field_or checks ''token_coverage'' JNull), (''kv_span_cache_refs'', field_or checks ''cache_refs'' JNull),
       (''failure_classes'', field_or checks ''failure_classes'' JNull)])"

definition kv_section :: "obj \<Rightarrow> obj \<Rightarrow> obj \<Rightarrow> json \<Rightarrow> obj" where
  "kv_section agent_graph verify register_event prefix_cache_seed =
     (let checks = span_checks_of agent_graph; success = field_or verify ''success'' JNull in
      [(''status'', JStr (status (bool_or_none success) (verify \<noteq> []))), (''hash_validation_success'', success),
       (''graph_kv_hash'', field_or agent_graph ''kv_hash'' JNull), (''graph_kv_span_count'', field_or checks ''span_count'' JNull),
       (''graph_kv_span_token_coverage'', field_or checks ''token_coverage'' JNull),
       (''written_layer_count'', JInt (case field_or register_event ''written_layers'' (JList []) of JList xs \<Rightarrow> int (length xs) | _ \<Rightarrow> 0)),
       (''vllm_prefix_cache_seed_success'', comparison_field prefix_cache_seed ''success''),
       (''vllm_prefix_cache_seeded_block_count'', comparison_field prefix_cache_seed ''seeded_block_count'')])"

definition section_status :: "obj \<Rightarrow> string" where
  "section_status s = (case field_or s ''status'' JNull of JStr t \<Rightarrow> t | _ \<Rightarrow> [])"

definition alignment_summary :: "obj \<Rightarrow> obj \<Rightarrow> json \<Rightarrow> json \<Rightarrow> obj \<Rightarrow> json \<Rightarrow> obj" where
  "alignment_summary manifest verify source_comparison prompt_tokenization register_event prefix_cache_seed =
     (let agent_graph = dict_of (field_or manifest ''agent_graph'' JNull);
          prompt = prompt_section agent_graph source_comparison prompt_tokenization;
          graph = graph_section agent_graph;
          kv = kv_section agent_graph verify register_event prefix_cache_seed
      in [(''overall_status'', JStr (overall_status [section_status prompt, section_status graph, section_status kv])),
          (''prompt'', JObj prompt), (''graph'', JObj graph), (''kv'', JObj kv)])"

section \<open>The summary of a run\<close>

definition stage_of :: "json \<Rightarrow> string res" where
  "stage_of event = bindR (py_get_or event ''stage'' (JStr [])) (\<lambda>v. Inr (py_str v))"

text \<open>The last snapshot after a generation, or an empty dictionary.\<close>

definition post_decode :: "json list \<Rightarrow> obj res" where
  "post_decode decode_snapshots =
     bindR (filterR (\<lambda>event. bindR (stage_of event) (\<lambda>s. Inr (starts_with ''generate_continuation:'' s))) decode_snapshots) (\<lambda>snapshots.
     bindR (filterR (\<lambda>event. bindR (stage_of event) (\<lambda>s. Inr (starts_with (rev '':after_generate'') (rev s)))) (rev snapshots)) (\<lambda>after.
       Inr (case after of event # _ \<Rightarrow> dict_of event | [] \<Rightarrow> [])))"

definition request_id_of :: "json \<Rightarrow> json res" where
  "request_id_of outputs =
     (case outputs of
        JObj d \<Rightarrow> bindR (py_index (or_value (field_or d ''items'' JNull) (JList [JObj []])) 0) (\<lambda>item. py_get item ''request_id'')
      | _ \<Rightarrow> Inr JNull)"

text \<open>\<open>(v or {}).get(k)\<close>.\<close>

definition get_or_empty :: "json \<Rightarrow> string \<Rightarrow> json res" where
  "get_or_empty v k = py_get (or_value v (JObj [])) k"

definition output_texts :: "obj \<Rightarrow> json \<Rightarrow> obj \<Rightarrow> (json \<times> json) res" where
  "output_texts verify source_comparison generated_event =
     bindR (get_or_empty (field_or verify ''source_continuation'' JNull) ''text'') (\<lambda>a.
     bindR (if truthy a then Inr a else get_or_empty source_comparison ''expected_text'') (\<lambda>source_text.
     bindR (get_or_empty (field_or verify ''continuation'' JNull) ''text'') (\<lambda>b.
     bindR (if truthy b then Inr b
            else if truthy (field_or generated_event ''text'' JNull) then Inr (field_or generated_event ''text'' JNull)
            else get_or_empty source_comparison ''actual_text'') (\<lambda>actual_text.
       Inr (source_text, actual_text)))))"

definition summarize_run :: "obj \<Rightarrow> obj \<Rightarrow> obj \<Rightarrow> obj \<Rightarrow> obj \<Rightarrow> json list \<Rightarrow> json list \<Rightarrow> obj \<Rightarrow> obj res" where
  "summarize_run manifest verify register_event baseline_event generated_event decode_snapshots attachment_attempts post_decode_after =
     (let source_comparison = field_or verify ''source_comparison'' JNull;
          baseline_comparison = field_or verify ''baseline_comparison'' JNull;
          prompt_tokenization = field_or post_decode_after ''prompt_tokenization'' JNull;
          outputs = field_or post_decode_after ''outputs'' JNull
      in
        bindR (if attachment_attempts = [] then Inr (JObj []) else py_get_or (last attachment_attempts) ''attempt'' (JObj [])) (\<lambda>attempt.
        let block_table = (case attempt of JObj d \<Rightarrow> field_or d ''migration_block_table_candidate'' (JObj []) | _ \<Rightarrow> JObj []);
            seed = (case attempt of JObj d \<Rightarrow> field_or d ''prefix_cache_seed'' (JObj []) | _ \<Rightarrow> JObj [])
        in
          bindR (py_len (field_or register_event ''written_layers'' (JList []))) (\<lambda>written_layers.
          bindR (output_texts verify source_comparison generated_event) (\<lambda>(source_text, actual_text).
          bindR (py_len (field_or generated_event ''token_ids'' (JList []))) (\<lambda>generated_count.
          bindR (py_len (field_or baseline_event ''token_ids'' (JList []))) (\<lambda>baseline_count.
          bindR (request_id_of outputs) (\<lambda>request_id.
          bindR (py_len (field_or post_decode_after ''candidate_runtime_objects'' (JList []))) (\<lambda>runtime_objects.
          bindR (if truthy attempt then py_get attempt ''supported'' else Inr (JBool False)) (\<lambda>supported.
          bindR (if truthy attempt then py_get attempt ''reason'' else Inr JNull) (\<lambda>reason.
            Inr
              [(''migration_id'', or_value (field_or manifest ''migration_id'' JNull) (field_or manifest ''run_id'' JNull)),
               (''success'', field_or manifest ''success'' JNull), (''hash_validation_success'', field_or verify ''success'' JNull),
               (''written_layers'', JInt written_layers), (''source_first_mismatch_index'', first_mismatch source_comparison),
               (''source_shared_prefix_token_count'', comparison_field source_comparison ''shared_prefix_token_count''),
               (''source_expected_token_count'', comparison_field source_comparison ''expected_token_count''),
               (''source_actual_token_count'', comparison_field source_comparison ''actual_token_count''),
               (''source_actual_ended_before_reference'', JBool (truthy (comparison_field source_comparison ''actual_ended_before_reference''))),
               (''baseline_first_mismatch_index'', first_mismatch baseline_comparison),
               (''baseline_shared_prefix_token_count'', comparison_field baseline_comparison ''shared_prefix_token_count''),
               (''matches_source_exactly'', JBool (truthy (comparison_field source_comparison ''matches''))),
               (''matches_target_baseline_exactly'', JBool (truthy (comparison_field baseline_comparison ''matches''))),
               (''source_output_text'', source_text), (''post_migration_output_text'', actual_text),
               (''baseline_output_text'', field_or baseline_event ''text'' JNull),
               (''post_migration_token_count'', JInt generated_count), (''baseline_token_count'', JInt baseline_count),
               (''decode_attachment_snapshot_count'', JInt (int (length decode_snapshots))),
               (''post_migration_decode_snapshot_available'', JBool (post_decode_after \<noteq> [])),
               (''post_migration_prompt_token_count'', comparison_field prompt_tokenization ''token_count''),
               (''post_migration_output_request_id'', request_id), (''post_migration_runtime_object_count'', JInt runtime_objects),
               (''migrated_decode_attachment_attempt_count'', JInt (int (length attachment_attempts))),
               (''migrated_decode_attachment_supported'', JBool (truthy supported)), (''migrated_decode_attachment_reason'', reason),
               (''migration_target_block_count'', comparison_field block_table ''target_block_count''),
               (''migration_target_block_size'', comparison_field block_table ''target_block_size''),
               (''vllm_prefix_cache_seed_success'', JBool (truthy (comparison_field seed ''success''))),
               (''vllm_prefix_cache_seeded_block_count'', comparison_field seed ''seeded_block_count''),
               (''alignment'', JObj (alignment_summary manifest verify source_comparison prompt_tokenization register_event seed))]))))))))))"

definition summarize :: "obj \<Rightarrow> obj \<Rightarrow> obj res" where
  "summarize manifest probe =
     (let events = (case field_or probe ''events'' JNull of JList es \<Rightarrow> es | _ \<Rightarrow> []) in
      bindR (if verification manifest \<noteq> [] then Inr (verification manifest) else verification_from_probe events) (\<lambda>verify.
      bindR (find_event events ''register_permeant_block'') (\<lambda>register_event.
      bindR (find_event events ''baseline_continuation'') (\<lambda>baseline_event.
      bindR (find_event events ''generate_continuation'') (\<lambda>generated_event.
      bindR (find_events events ''decode_attachment_snapshot'') (\<lambda>decode_snapshots.
      bindR (find_events events ''migrated_decode_attachment_attempt'') (\<lambda>attachment_attempts.
      bindR (post_decode decode_snapshots) (\<lambda>post_decode_after.
        summarize_run manifest verify (dict_of register_event) (dict_of baseline_event) (dict_of generated_event)
          decode_snapshots attachment_attempts post_decode_after))))))))"

section \<open>What the report says\<close>

lemma section_status_simps:
  "section_status (prompt_section g c p) = status (comparison_field c ''prompt_matches'') (is_dict c)"
  "section_status (graph_section g) = graph_status (g \<noteq> []) (span_checks_of g)"
  "section_status (kv_section g v r s) = status (bool_or_none (field_or v ''success'' JNull)) (v \<noteq> [])"
  by (simp_all add: section_status_def prompt_section_def graph_section_def kv_section_def field_or_def Let_def)

text \<open>A span that counts as valid.\<close>

definition good_span :: "json \<Rightarrow> bool" where
  "good_span sp \<longleftrightarrow> (\<exists>d. sp = JObj d \<and> span_valid d)"

lemma tally_invalid: "invalid (fold check_span spans tally) = invalid tally + length (filter (\<lambda>sp. \<not> good_span sp) spans)"
  by (induction spans arbitrary: tally) (auto simp: check_span_def good_span_def Let_def split: json.split)

lemma tally_coverage:
  "coverage (fold check_span spans tally) =
     coverage tally + (\<Sum>sp\<leftarrow>spans. case sp of JObj d \<Rightarrow> (case span_range d of Some n \<Rightarrow> n | None \<Rightarrow> 0) | _ \<Rightarrow> 0)"
  by (induction spans arbitrary: tally) (auto simp: check_span_def Let_def split: json.split option.split)

lemma graph_aligned_iff:
  "graph_status (g \<noteq> []) (span_checks_of g) = ''aligned'' \<longleftrightarrow>
     (\<exists>spans. map_of g ''kv_spans'' = Some (JList spans) \<and> spans \<noteq> [] \<and> list_all good_span spans)"
proof -
  have *: "filter (\<lambda>sp. \<not> good_span sp) spans = [] \<longleftrightarrow> list_all good_span spans" for spans
    by (simp add: filter_empty_conv list_all_iff)
  show ?thesis
    by (cases "map_of g ''kv_spans''")
      (auto simp: graph_status_def span_checks_of_def kv_span_checks_def span_report_def field_or_def tally_invalid Let_def * split: json.splits)
qed

lemma status_aligned: "status v a = ''aligned'' \<longleftrightarrow> a \<and> v = JBool True"
  by (simp add: status_def)

text \<open>C31: A run is reported as aligned exactly when the source comparison found the prompts equal, the graph of the
  manifest has KV spans and every one of them is well formed, and the continuation check succeeded.\<close>

theorem overall_aligned_exact:
  "map_of (alignment_summary manifest verify source_comparison tokenization register seed) ''overall_status'' = Some (JStr ''aligned'') \<longleftrightarrow>
     comparison_field source_comparison ''prompt_matches'' = JBool True \<and>
     (\<exists>g spans. map_of manifest ''agent_graph'' = Some (JObj g) \<and> map_of g ''kv_spans'' = Some (JList spans) \<and> spans \<noteq> [] \<and>
        list_all good_span spans) \<and>
     map_of verify ''success'' = Some (JBool True)"
proof -
  let ?g = "dict_of (field_or manifest ''agent_graph'' JNull)"
  have o: "overall_status [a, b, c] = ''aligned'' \<longleftrightarrow> a = ''aligned'' \<and> b = ''aligned'' \<and> c = ''aligned''" for a b c
    by (auto simp: overall_status_def)
  have g: "(\<exists>spans. map_of ?g ''kv_spans'' = Some (JList spans) \<and> spans \<noteq> [] \<and> list_all good_span spans) \<longleftrightarrow>
      (\<exists>g spans. map_of manifest ''agent_graph'' = Some (JObj g) \<and> map_of g ''kv_spans'' = Some (JList spans) \<and> spans \<noteq> [] \<and>
        list_all good_span spans)"
    by (auto simp: dict_of_def field_or_def split: json.splits option.splits)
  have p: "is_dict source_comparison \<and> comparison_field source_comparison ''prompt_matches'' = JBool True \<longleftrightarrow>
      comparison_field source_comparison ''prompt_matches'' = JBool True"
    by (cases source_comparison) (simp_all add: comparison_field_def)
  have k: "verify \<noteq> [] \<and> bool_or_none (field_or verify ''success'' JNull) = JBool True \<longleftrightarrow> map_of verify ''success'' = Some (JBool True)"
    by (cases "map_of verify ''success''") (auto simp: bool_or_none_def field_or_def split: json.splits)
  show ?thesis
    by (simp add: alignment_summary_def Let_def section_status_simps o graph_aligned_iff status_aligned g p k)
qed

end
