(* ===== verification/VllmTarget.thy ===== *)
theory VllmTarget
  imports VllmRegistry PyText
begin

text \<open>
  The runtime object of the vLLM target, \<^verbatim>\<open>adapters/vllm_real_runtime_target.py\<close>: registration into the discovered
  caches, verification with a continuation and its comparison, the export of the reverse runtime state, seeding of
  the prefix cache and the probe log. The inference engine is an argument: its tokenizers, what \<open>generate\<close> returns,
  its block pool, and what a walk over its objects finds.
\<close>

section \<open>Comparing continuations\<close>

text \<open>The loop over the shared indices: the first index where the token ids differ.\<close>

fun mismatch_at :: "nat \<Rightarrow> json list \<Rightarrow> json list \<Rightarrow> nat option" where
  "mismatch_at i (x # xs) (y # ys) = (if \<not> py_eq x y then Some i else mismatch_at (Suc i) xs ys)"
| "mismatch_at i _ _ = None"

definition list_len :: "json \<Rightarrow> json" where
  "list_len v = (case v of JList xs \<Rightarrow> JInt (int (length xs)) | _ \<Rightarrow> JNull)"

text \<open>The shared prefix, the first mismatch, and which of the two ended first.\<close>

definition token_divergence :: "json \<Rightarrow> json \<Rightarrow> json \<times> json \<times> bool \<times> bool" where
  "token_divergence expected actual =
     (case (expected, actual) of
        (JList es, JList as) \<Rightarrow>
          (let max_len = min (length es) (length as) in
           case mismatch_at 0 es as of
             Some i \<Rightarrow> (JInt (int i), JInt (int i), False, False)
           | None \<Rightarrow>
               if length es \<noteq> length as
               then (JInt (int max_len), JInt (int max_len), length as < length es, length es < length as)
               else (JInt (int max_len), JNull, False, False))
      | _ \<Rightarrow> (JNull, JNull, False, False))"

definition compare_continuations :: "obj \<Rightarrow> obj \<Rightarrow> obj" where
  "compare_continuations reference actual =
     (let expected_text = field_or reference ''text'' JNull;
          expected_token_ids = field_or reference ''token_ids'' JNull;
          actual_text = field_or actual ''text'' JNull;
          actual_token_ids = field_or actual ''token_ids'' JNull;
          text_matches = (is_str expected_text \<and> py_eq expected_text actual_text);
          token_ids_match = (is_list expected_token_ids \<and> py_eq expected_token_ids actual_token_ids);
          (shared, first_mismatch, actual_ended, reference_ended) = token_divergence expected_token_ids actual_token_ids
      in [(''reference_available'', JBool True),
          (''prompt_matches'', JBool (py_eq (field_or reference ''prompt'' JNull) (field_or actual ''prompt'' JNull))),
          (''text_matches'', JBool text_matches), (''token_ids_match'', JBool token_ids_match),
          (''shared_prefix_token_count'', shared), (''expected_token_count'', list_len expected_token_ids),
          (''actual_token_count'', list_len actual_token_ids), (''actual_ended_before_reference'', JBool actual_ended),
          (''reference_ended_before_actual'', JBool reference_ended), (''matches'', JBool (text_matches \<and> token_ids_match)),
          (''expected_text'', expected_text), (''actual_text'', actual_text), (''expected_token_ids'', expected_token_ids),
          (''actual_token_ids'', actual_token_ids), (''first_token_mismatch_index'', first_mismatch)])"

section \<open>The engine and the runtime\<close>

text \<open>What \<open>LLM.generate\<close> returned: the text and token ids of the first candidate, if there is one (\<open>JNull\<close> for an
  absent attribute or one that is no JSON value), and the summary of the outputs.\<close>

record engine_output =
  first_candidate :: "(json \<times> json) option"
  output_summary :: json

text \<open>The engine: \<open>SamplingParams(max_tokens)\<close>, the tokenizer candidates other than \<open>None\<close> with their type name and
  their \<open>encode\<close> method if it is callable, \<open>generate\<close>, the block size of the cache configuration, and the parts of
  the prefix cache: importing the request class, the block size of the scheduler, the number of block hashes of a
  request, looking a block up, and caching full blocks. What the walks over its objects find is JSON.\<close>

record vllm_engine =
  sampling_params :: "int \<Rightarrow> unit res"
  tokenizers :: "(string \<times> (json \<Rightarrow> json res) option) list"
  generate :: "json \<Rightarrow> int \<Rightarrow> engine_output res"
  cache_block_size :: json
  import_request :: "unit res"
  scheduler_block_size :: "int res"
  request_block_hashes :: "int list \<Rightarrow> nat res"
  pool_block :: "int \<Rightarrow> unit res"
  cache_full_blocks :: "int list \<Rightarrow> int list \<Rightarrow> int \<Rightarrow> unit res"
  attachment_surface :: json
  runtime_objects :: "string \<Rightarrow> json"
  exc_repr :: "py_error \<Rightarrow> string"

record target_env =
  hook :: hook_env
  engine :: vllm_engine
  probe_var :: "string option"
  source_var :: "string option"
  prompt_var :: "string option"
  from_source_var :: "string option"
  max_tokens_var :: "string option"
  baseline_var :: "string option"
  reverse_var :: "string option"
  model_var :: "string option"
  expand :: "pypath \<Rightarrow> pypath"

text \<open>The attributes of \<open>RealVllmRuntime\<close>, the file system, and the calls of \<open>cache_full_blocks\<close> so far: the prompt's
  token ids and the ids of the blocks that were bound to them.\<close>

record real_runtime =
  vt_base :: runtime
  metadata :: obj
  last_register_payload :: json
  vt_verify_result :: json
  last_continuation :: json
  baseline_continuation :: json
  last_snapshot :: json
  last_attempt :: json
  vt_fs :: fs
  seeded :: "(int list \<times> int list) list"

definition vt_on_fs :: "'a io \<Rightarrow> (real_runtime, 'a) st" where
  "vt_on_fs m s = (case m (vt_fs s) of (r, f) \<Rightarrow> (r, s\<lparr>vt_fs := f\<rparr>))"

definition modifyS :: "('s \<Rightarrow> 's) \<Rightarrow> ('s, unit) st" where
  "modifyS f s = (Inr (), f s)"

definition opt_str :: "string option \<Rightarrow> json" where
  "opt_str v = (case v of None \<Rightarrow> JNull | Some s \<Rightarrow> JStr s)"

text \<open>\<open>except Exception\<close> catches every exception; the two markers of the model are none.\<close>

definition caught :: "py_error \<Rightarrow> bool" where
  "caught e = (case e of Diverges \<Rightarrow> False | OutsideModel _ \<Rightarrow> False | _ \<Rightarrow> True)"

definition or_else :: "'a res \<Rightarrow> 'a \<Rightarrow> 'a res" where
  "or_else m d = (case m of Inl e \<Rightarrow> if caught e then Inr d else Inl e | Inr x \<Rightarrow> Inr x)"

definition var_path :: "target_env \<Rightarrow> string option \<Rightarrow> pypath option" where
  "var_path env var = (case var of Some (c # cs) \<Rightarrow> Some (expand env (Path (c # cs))) | _ \<Rightarrow> None)"

definition vt_hashes :: "real_runtime \<Rightarrow> string list" where
  "vt_hashes s = (case rt_hashes (vt_base s) of HashSet hs \<Rightarrow> hs | _ \<Rightarrow> [])"

definition registered_payload :: "real_runtime \<Rightarrow> obj" where
  "registered_payload s = (case last_register_payload s of JObj d \<Rightarrow> d | _ \<Rightarrow> [])"

section \<open>The probe log\<close>

text \<open>\<open>json.dumps(v, indent=2)\<close>.\<close>

definition dumps_indented :: "json \<Rightarrow> string" where
  "dumps_indented v = render pretty_style 0 v"

definition write_probe :: "target_env \<Rightarrow> obj \<Rightarrow> unit io" where
  "write_probe env payload =
     (case var_path env (probe_var env) of
        None \<Rightarrow> returnIO ()
      | Some p \<Rightarrow> write_with_parents p (utf8_encode (dumps_indented (JObj payload))))"

text \<open>Any exception of reading and parsing gives an empty log; a document that is no object has no \<open>get\<close>.\<close>

definition read_probe :: "pypath \<Rightarrow> json io" where
  "read_probe p f =
     (if \<not> path_exists f p then (Inr (JObj []), f)
      else case read_json p f of (r, g) \<Rightarrow> (or_else r (JObj []), g))"

definition vt_append_probe_event :: "target_env \<Rightarrow> obj \<Rightarrow> unit io" where
  "vt_append_probe_event env payload =
     (case var_path env (probe_var env) of
        None \<Rightarrow> returnIO ()
      | Some p \<Rightarrow>
          bindIO (read_probe p) (\<lambda>existing.
          bindIO (liftR (py_get existing ''events'')) (\<lambda>found.
          let events = (case found of JList es \<Rightarrow> es | _ \<Rightarrow> []);
              log = (case existing of JObj d \<Rightarrow> dict_set ''events'' (JList (events @ [JObj payload])) d | _ \<Rightarrow> [])
          in write_with_parents p (utf8_encode (dumps_indented (JObj log))))))"

definition vt_probe :: "target_env \<Rightarrow> obj \<Rightarrow> (real_runtime, unit) st" where
  "vt_probe env payload = vt_on_fs (vt_append_probe_event env payload)"

definition source_continuation_reference :: "target_env \<Rightarrow> obj option io" where
  "source_continuation_reference env f =
     (case var_path env (source_var env) of
        None \<Rightarrow> (Inr None, f)
      | Some p \<Rightarrow>
          if \<not> path_exists f p then (Inr None, f)
          else case read_json p f of
                 (r, g) \<Rightarrow> (bindR (or_else r JNull) (\<lambda>v. Inr (case v of JObj d \<Rightarrow> Some d | _ \<Rightarrow> None)), g))"

section \<open>Registration\<close>

definition layer_shape :: "obj \<Rightarrow> json" where
  "layer_shape summary =
     (let source = (case field_or summary ''source'' JNull of JObj d \<Rightarrow> d | _ \<Rightarrow> []) in
      JObj [(''layer_index'', field_or summary ''layer_index'' JNull), (''key_shape'', field_or source ''key_shape'' JNull),
        (''value_shape'', field_or source ''value_shape'' JNull), (''block_count'', field_or source ''block_count'' JNull),
        (''block_size'', field_or source ''block_size'' JNull)])"

definition layer_shapes :: "json list \<Rightarrow> json list" where
  "layer_shapes summaries = concat (map (\<lambda>v. case v of JObj d \<Rightarrow> [layer_shape d] | _ \<Rightarrow> []) summaries)"

definition vt_on_base :: "(runtime, 'a) st \<Rightarrow> (real_runtime, 'a) st" where
  "vt_on_base m s = (case m (vt_base s) of (r, b) \<Rightarrow> (r, s\<lparr>vt_base := b\<rparr>))"

definition or_empty :: "json \<Rightarrow> json" where
  "or_empty request = (if truthy request then request else JObj [])"

definition vt_register_permeant_block :: "target_env \<Rightarrow> obj \<Rightarrow> json \<Rightarrow> (real_runtime, json) st" where
  "vt_register_permeant_block env payload request =
     bindS (vt_on_base (direct_register_into_kv_caches (hook env) payload)) (\<lambda>answer.
     let result = (case answer of JObj d \<Rightarrow> d | _ \<Rightarrow> []) in
     bindS (liftS (py_iter (field_or result ''written_layer_summaries'' (JList [])))) (\<lambda>summaries.
     bindS (liftS (py_len (field_or payload ''layers'' (JList [])))) (\<lambda>layer_count.
     bindS (modifyS (last_register_payload_update (\<lambda>_.
       JObj [(''hash'', field_or payload ''hash'' JNull), (''block_size'', field_or payload ''block_size'' JNull),
         (''layer_count'', JInt layer_count), (''layer_shapes'', JList (layer_shapes summaries)),
         (''target_block_allocation'', field_or result ''target_block_allocation'' (JObj [])),
         (''written_layers'', field_or result ''written_layers'' (JList [])),
         (''written_layer_summaries'', field_or result ''written_layer_summaries'' (JList [])), (''request'', or_empty request)]))) (\<lambda>_.
     bindS (vt_probe env
       [(''event'', JStr ''register_permeant_block''), (''hash'', field_or payload ''hash'' JNull), (''layer_count'', JInt layer_count),
        (''written_layers'', field_or result ''written_layers'' (JList [])),
        (''written_layer_summaries'', field_or result ''written_layer_summaries'' (JList []))]) (\<lambda>_.
     liftS (Inr (JObj result)))))))"

section \<open>Seeding the prefix cache\<close>

fun vt_tokenize_prompt :: "(string \<times> (json \<Rightarrow> json res) option) list \<Rightarrow> json \<Rightarrow> obj res" where
  "vt_tokenize_prompt [] prompt = Inr [(''available'', JBool False)]"
| "vt_tokenize_prompt ((type, None) # candidates) prompt = vt_tokenize_prompt candidates prompt"
| "vt_tokenize_prompt ((type, Some encode) # candidates) prompt =
     bindR (or_else (bindR (encode prompt) (\<lambda>token_ids.
        case token_ids of
          JList ts \<Rightarrow>
            bindR (mapR int_of ts) (\<lambda>ids.
              Inr (Some [(''available'', JBool True), (''token_count'', JInt (int (length ts))), (''token_ids'', JList (map JInt ids)),
                (''tokenizer_type'', JStr type)]))
        | _ \<Rightarrow> Inr None)) None) (\<lambda>found.
       case found of Some t \<Rightarrow> Inr t | None \<Rightarrow> vt_tokenize_prompt candidates prompt)"

definition first_shape :: "json \<Rightarrow> obj" where
  "first_shape shapes = (case shapes of JList (JObj d # _) \<Rightarrow> d | _ \<Rightarrow> [])"

definition source_block_count :: "obj \<Rightarrow> json" where
  "source_block_count shape =
     (if field_or shape ''block_count'' JNull \<noteq> JNull then field_or shape ''block_count'' JNull
      else case field_or shape ''key_shape'' JNull of JList (n # _) \<Rightarrow> n | _ \<Rightarrow> JNull)"

definition blocks_per_source_block :: "json \<Rightarrow> json \<Rightarrow> int option" where
  "blocks_per_source_block source_bs target_bs =
     (case (int_val source_bs, int_val target_bs) of
        (Some a, Some b) \<Rightarrow> if 0 < b then Some ((a + b - 1) div b) else None
      | _ \<Rightarrow> None)"

definition opt_int :: "int option \<Rightarrow> json" where
  "opt_int v = (case v of None \<Rightarrow> JNull | Some i \<Rightarrow> JInt i)"

definition allocation_of :: "obj \<Rightarrow> obj" where
  "allocation_of payload = (case field_or payload ''target_block_allocation'' JNull of JObj d \<Rightarrow> d | _ \<Rightarrow> [])"

definition allocated_ids :: "obj \<Rightarrow> json list" where
  "allocated_ids payload = (case field_or (allocation_of payload) ''target_block_ids'' JNull of JList ids \<Rightarrow> ids | _ \<Rightarrow> [])"

definition ATTACHMENT_REQUIREMENT :: string where
  "ATTACHMENT_REQUIREMENT = ''The generated vLLM request must bind this migrated KV span through a request block table or equivalent prefix-cache entry before decode.''"

definition migration_block_table_candidate :: "target_env \<Rightarrow> obj \<Rightarrow> obj res" where
  "migration_block_table_candidate env payload =
     (let size = field_or payload ''block_size'' JNull;
          count = source_block_count (first_shape (field_or payload ''layer_shapes'' JNull));
          to_size = cache_block_size (engine env);
          per = blocks_per_source_block size to_size;
          total = (case (per, int_val count) of (Some k, Some n) \<Rightarrow> JInt (n * k) | _ \<Rightarrow> JNull)
      in bindR (mapR int_of (take 16 (allocated_ids payload))) (\<lambda>sample.
           Inr [(''hash'', field_or payload ''hash'' JNull), (''layer_count'', field_or payload ''layer_count'' JNull),
             (''source_block_size'', size), (''source_block_count'', count), (''target_block_size'', to_size),
             (''target_blocks_per_source_block'', opt_int per),
             (''target_block_count'', if truthy total then total else field_or (allocation_of payload) ''target_block_count'' JNull),
             (''allocated_target_block_count'', JInt (int (length (allocated_ids payload)))),
             (''allocated_target_block_ids_sample'', JList (map JInt sample)),
             (''target_block_allocation_mode'', field_or (allocation_of payload) ''mode'' JNull),
             (''attachment_requirement'', JStr ATTACHMENT_REQUIREMENT)]))"

definition seed_failed :: "string \<Rightarrow> obj \<Rightarrow> obj" where
  "seed_failed reason details = [(''success'', JBool False), (''reason'', JStr reason)] @ details"

text \<open>The blocks are bound before the sample of their ids is built.\<close>

definition bind_blocks :: "vllm_engine \<Rightarrow> int list \<Rightarrow> json list \<Rightarrow> int \<Rightarrow> nat \<Rightarrow> (real_runtime, obj) st" where
  "bind_blocks eng prompt_token_ids target_block_ids to_size full_prompt_block_count =
     (let seed_block_count = min full_prompt_block_count (length target_block_ids) in
      bindS (liftS (mapR (\<lambda>v. bindR (int_of v) (\<lambda>i. bindR (pool_block eng i) (\<lambda>_. Inr i))) (take seed_block_count target_block_ids))) (\<lambda>blocks.
      bindS (liftS (cache_full_blocks eng prompt_token_ids blocks to_size)) (\<lambda>_.
      bindS (modifyS (seeded_update (\<lambda>calls. calls @ [(prompt_token_ids, blocks)]))) (\<lambda>_.
      bindS (liftS (mapR int_of (take 16 target_block_ids))) (\<lambda>sample.
        liftS (Inr [(''success'', JBool True), (''method'', JStr ''block_pool.cache_full_blocks''),
          (''prompt_token_count'', JInt (int (length prompt_token_ids))), (''target_block_size'', JInt to_size),
          (''request_block_hash_count'', JInt (int full_prompt_block_count)), (''seeded_block_count'', JInt (int seed_block_count)),
          (''seeded_block_ids_sample'', JList (map JInt sample))]))))))"

definition NO_BLOCK_SIZE :: string where
  "NO_BLOCK_SIZE = ''Could not determine vLLM target block size for prefix-cache seeding.''"

definition NO_FULL_BLOCKS :: string where
  "NO_FULL_BLOCKS = ''Continuation prompt has no full vLLM hash blocks; use the source prefill prompt or another prompt at least one target block long.''"

text \<open>The body of the second \<open>try\<close>.\<close>

definition seed_blocks :: "vllm_engine \<Rightarrow> int list \<Rightarrow> json list \<Rightarrow> (real_runtime, obj) st" where
  "seed_blocks eng prompt_token_ids target_block_ids =
     bindS (liftS (scheduler_block_size eng)) (\<lambda>to_size.
     if to_size \<le> 0 then liftS (Inr (seed_failed NO_BLOCK_SIZE []))
     else
       bindS (liftS (request_block_hashes eng prompt_token_ids)) (\<lambda>full_prompt_block_count.
       if min full_prompt_block_count (length target_block_ids) \<le> 0
       then liftS (Inr (seed_failed NO_FULL_BLOCKS
              [(''prompt_token_count'', JInt (int (length prompt_token_ids))), (''target_block_size'', JInt to_size),
               (''request_block_hash_count'', JInt (int full_prompt_block_count))]))
       else bind_blocks eng prompt_token_ids target_block_ids to_size full_prompt_block_count))"

text \<open>\<open>try: m except Exception as exc: return handler(exc)\<close>.\<close>

definition tryS :: "('s, 'a) st \<Rightarrow> (py_error \<Rightarrow> 'a) \<Rightarrow> ('s, 'a) st" where
  "tryS m handler s = (case m s of (Inl e, t) \<Rightarrow> if caught e then (Inr (handler e), t) else (Inl e, t) | (Inr x, t) \<Rightarrow> (Inr x, t))"

definition token_ids_of :: "obj \<Rightarrow> int list option" where
  "token_ids_of tokenization =
     (case field_or tokenization ''token_ids'' JNull of
        JList ts \<Rightarrow> Some (map (\<lambda>t. case t of JInt i \<Rightarrow> i | _ \<Rightarrow> 0) ts)
      | _ \<Rightarrow> None)"

definition seed_vllm_prefix_cache :: "target_env \<Rightarrow> json \<Rightarrow> (real_runtime, obj) st" where
  "seed_vllm_prefix_cache env prompt s =
     (let target_block_ids = allocated_ids (registered_payload s); eng = engine env in
      if target_block_ids = []
      then (Inr (seed_failed ''No allocated vLLM target block IDs were recorded for the migrated KV payload.'' []), s)
      else
        bindS (liftS (vt_tokenize_prompt (tokenizers eng) prompt)) (\<lambda>tokenization.
        case token_ids_of tokenization of
          None \<Rightarrow> liftS (Inr (seed_failed ''Continuation prompt could not be tokenized by the target vLLM runtime.'' []))
        | Some prompt_token_ids \<Rightarrow>
            (case import_request eng of
               Inl e \<Rightarrow> liftS (Inr (seed_failed (''Could not import vLLM Request/SamplingParams for prefix-cache seeding: '' @ exc_repr eng e) []))
             | Inr _ \<Rightarrow>
                 tryS (seed_blocks eng prompt_token_ids target_block_ids)
                   (\<lambda>e. seed_failed (''Failed to seed vLLM prefix cache with migrated blocks: '' @ exc_repr eng e)
                          [(''prompt_token_count'', JInt (int (length prompt_token_ids)))]))) s)"

section \<open>Continuations\<close>

definition SEEDED_REASON :: string where
  "SEEDED_REASON = ''Migrated blocks were seeded into vLLM prefix cache for the continuation prompt.''"

definition NO_ATTACHMENT_API :: string where
  "NO_ATTACHMENT_API = ''No safe public vLLM request/block-table attachment API has been identified for binding migrated KV slots to LLM.generate().''"

definition migrated_decode_attachment_attempt :: "target_env \<Rightarrow> json \<Rightarrow> (real_runtime, obj) st" where
  "migrated_decode_attachment_attempt env prompt s =
     bindS (liftS (migration_block_table_candidate env (registered_payload s))) (\<lambda>candidate.
     bindS (seed_vllm_prefix_cache env prompt) (\<lambda>seed_result.
     let supported = truthy (field_or seed_result ''success'' JNull);
         reason = (if supported then JStr SEEDED_REASON
                   else if truthy (field_or seed_result ''reason'' JNull) then field_or seed_result ''reason'' JNull
                   else JStr NO_ATTACHMENT_API);
         attempt = [(''attempted'', JBool True), (''supported'', JBool supported), (''reason'', reason),
           (''migration_block_table_candidate'', JObj candidate), (''prefix_cache_seed'', JObj seed_result),
           (''runtime_attachment_surface'', attachment_surface (engine env))]
     in bindS (modifyS (last_attempt_update (\<lambda>_. JObj attempt))) (\<lambda>_.
        bindS (vt_probe env [(''event'', JStr ''migrated_decode_attachment_attempt''), (''attempt'', JObj attempt)]) (\<lambda>_.
          liftS (Inr attempt))))) s"

definition sorted_strs :: "string list \<Rightarrow> json" where
  "sorted_strs hs = JList (map JStr (sort hs))"

definition decode_attachment_snapshot :: "target_env \<Rightarrow> json \<Rightarrow> string \<Rightarrow> json option \<Rightarrow> (real_runtime, obj) st" where
  "decode_attachment_snapshot env prompt stage outputs s =
     bindS (liftS (vt_tokenize_prompt (tokenizers (engine env)) prompt)) (\<lambda>tokenization.
     let caches = (case rt_kv_caches (vt_base s) of Some c \<Rightarrow> c | None \<Rightarrow> []);
         snapshot = [(''stage'', JStr stage), (''prompt'', prompt), (''prompt_tokenization'', JObj tokenization),
           (''registered_hashes'', sorted_strs (vt_hashes s)),
           (''last_registered_hash'', field_or (registered_payload s) ''hash'' JNull),
           (''last_registered_layer_count'', field_or (registered_payload s) ''layer_count'' JNull),
           (''kv_cache_key_count'', JInt (int (length caches))),
           (''layer_map_count'', JInt (int (length (permeant_layer_map (vt_base s))))), (''runtime_metadata'', JObj (metadata s)),
           (''candidate_runtime_objects'', runtime_objects (engine env) stage),
           (''migrated_decode_attachment_attempt'', last_attempt s)] @
           (case outputs of None \<Rightarrow> [] | Some summary \<Rightarrow> [(''outputs'', summary)])
     in bindS (vt_probe env ((''event'', JStr ''decode_attachment_snapshot'') # snapshot)) (\<lambda>_. liftS (Inr snapshot))) s"

text \<open>The text and the token ids of the first candidate.\<close>

definition candidate_output :: "engine_output \<Rightarrow> (json \<times> int list) res" where
  "candidate_output out =
     (case first_candidate out of
        None \<Rightarrow> Inr (JStr [], [])
      | Some (text, ids) \<Rightarrow>
          (let t = (if truthy text then text else JStr []) in
           case ids of JList vs \<Rightarrow> bindR (mapR int_of vs) (\<lambda>is. Inr (t, is)) | _ \<Rightarrow> Inr (t, [])))"

definition sample_continuation :: "target_env \<Rightarrow> json \<Rightarrow> int \<Rightarrow> string \<Rightarrow> (real_runtime, obj) st" where
  "sample_continuation env prompt max_tokens event_name =
     bindS (liftS (sampling_params (engine env) max_tokens)) (\<lambda>_.
     bindS (if event_name = ''generate_continuation''
            then bindS (migrated_decode_attachment_attempt env prompt) (\<lambda>a. liftS (Inr (JObj a)))
            else liftS (Inr JNull)) (\<lambda>attempt.
     bindS (decode_attachment_snapshot env prompt (event_name @ '':before_generate'') None) (\<lambda>before.
     bindS (liftS (generate (engine env) prompt max_tokens)) (\<lambda>outputs.
     bindS (decode_attachment_snapshot env prompt (event_name @ '':after_generate'') (Some (output_summary outputs))) (\<lambda>after.
     bindS (liftS (candidate_output outputs)) (\<lambda>(text, token_ids).
     let continuation = [(''prompt'', prompt), (''max_tokens'', JInt max_tokens), (''text'', text),
           (''token_ids'', JList (map JInt token_ids)),
           (''decode_attachment'', JObj [(''attachment_attempt'', attempt), (''before'', JObj before), (''after'', JObj after)])]
     in bindS (modifyS (last_snapshot_update (\<lambda>_. JObj after))) (\<lambda>_.
        bindS (vt_probe env ((''event'', JStr event_name) # continuation)) (\<lambda>_.
          liftS (Inr continuation)))))))))"

definition generate_continuation :: "target_env \<Rightarrow> json \<Rightarrow> int \<Rightarrow> (real_runtime, obj) st" where
  "generate_continuation env prompt max_tokens = sample_continuation env prompt max_tokens ''generate_continuation''"

section \<open>The reverse runtime state\<close>

definition build_reverse_runtime_state :: "target_env \<Rightarrow> real_runtime \<Rightarrow> obj \<Rightarrow> obj \<Rightarrow> obj res" where
  "build_reverse_runtime_state env s continuation verify_result =
     (case (field_or continuation ''prompt'' JNull, field_or continuation ''text'' JNull) of
        (JStr prompt, JStr generated_text) \<Rightarrow>
          (let generated = (case field_or continuation ''token_ids'' JNull of JList ts \<Rightarrow> ts | _ \<Rightarrow> []) in
           bindR (vt_tokenize_prompt (tokenizers (engine env)) (JStr prompt)) (\<lambda>tokenization.
           bindR (mapR int_of generated) (\<lambda>ids.
           let version = JStr ''permeantos-vllm-reverse-runtime-state-v0'';
               prompt_ids = field_or tokenization ''token_ids'' JNull;
               generated_ids = JList (map JInt ids);
               last_hash = field_or (registered_payload s) ''hash'' JNull;
               hashes = sorted_strs (vt_hashes s)
           in Inr [(''schema_version'', version), (''status'', JStr ''target_runtime_state_exported''), (''target_runtime'', JStr ''vllm''),
                (''model_id'', opt_str (model_var env)), (''prompt'', JStr prompt), (''prompt_token_ids'', prompt_ids),
                (''prompt_token_count'', field_or tokenization ''token_count'' JNull), (''generated_text'', JStr generated_text),
                (''generated_token_ids'', generated_ids), (''generated_token_count'', JInt (int (length generated))),
                (''advanced_prompt'', JStr (prompt @ generated_text)), (''max_tokens'', field_or continuation ''max_tokens'' JNull),
                (''registered_hashes'', hashes), (''last_registered_hash'', last_hash),
                (''source_comparison'', field_or verify_result ''source_comparison'' JNull),
                (''baseline_comparison'', field_or verify_result ''baseline_comparison'' JNull),
                (''decode_attachment'', field_or continuation ''decode_attachment'' JNull),
                (''proof_hash'', JStr (sha256_json (JObj [(''schema_version'', version), (''prompt_token_ids'', prompt_ids),
                   (''generated_token_ids'', generated_ids), (''last_registered_hash'', last_hash), (''registered_hashes'', hashes)])))])))
      | _ \<Rightarrow> Inl (RuntimeError ''target continuation is missing prompt or generated text''))"

definition maybe_write_reverse_runtime_export :: "target_env \<Rightarrow> obj \<Rightarrow> (real_runtime, unit) st" where
  "maybe_write_reverse_runtime_export env verify_result s =
     (case (var_path env (reverse_var env), field_or verify_result ''continuation'' JNull) of
        (Some path, JObj continuation) \<Rightarrow>
          bindS (liftS (build_reverse_runtime_state env s continuation verify_result)) (\<lambda>payload.
          bindS (vt_on_fs (write_json path (JObj payload))) (\<lambda>_.
            vt_probe env [(''event'', JStr ''reverse_runtime_state_exported''), (''path'', JStr (as_posix path)),
              (''proof_hash'', field_or payload ''proof_hash'' JNull),
              (''generated_token_count'', field_or payload ''generated_token_count'' JNull)])) s
      | _ \<Rightarrow> (Inr (), s))"

definition export_reverse_runtime_state :: "target_env \<Rightarrow> (real_runtime, obj) st" where
  "export_reverse_runtime_state env s =
     (case last_continuation s of
        JObj continuation \<Rightarrow>
          (let verify_result = (case vt_verify_result s of JObj d \<Rightarrow> d | _ \<Rightarrow> []) in
           bindS (liftS (build_reverse_runtime_state env s continuation verify_result)) (\<lambda>state.
           bindS (vt_probe env [(''event'', JStr ''reverse_runtime_state_export_api''), (''proof_hash'', field_or state ''proof_hash'' JNull),
             (''generated_token_count'', field_or state ''generated_token_count'' JNull)]) (\<lambda>_.
             liftS (Inr (dict_update [(''success'', JBool True), (''reverse_runtime_state'', JObj state)] state)))) s)
      | _ \<Rightarrow> (Inr [(''success'', JBool False), (''error'', JStr ''no target continuation is available to export'')], s))"

section \<open>Verification\<close>

definition continuation_max_tokens :: "string option \<Rightarrow> int res" where
  "continuation_max_tokens var = int_of_text (case var of Some t \<Rightarrow> t | None \<Rightarrow> ''16'')"

text \<open>The prompt of the continuation: from the environment, or from the source's file.\<close>

definition continuation_prompt :: "target_env \<Rightarrow> obj option \<Rightarrow> json" where
  "continuation_prompt env reference =
     (let fallback = opt_str (prompt_var env);
          given = field_or (case reference of Some d \<Rightarrow> d | None \<Rightarrow> []) ''prompt'' JNull
      in if from_source_var env = Some ''1'' then (if truthy given then given else fallback) else fallback)"

definition comparisons :: "obj option \<Rightarrow> json \<Rightarrow> obj \<Rightarrow> obj" where
  "comparisons reference baseline continuation =
     (case reference of Some d \<Rightarrow> [(''source_comparison'', JObj (compare_continuations d continuation))] | None \<Rightarrow> []) @
     (case baseline of JObj b \<Rightarrow> [(''baseline_comparison'', JObj (compare_continuations b continuation))] | _ \<Rightarrow> [])"

definition continued_result :: "target_env \<Rightarrow> obj option \<Rightarrow> obj \<Rightarrow> (real_runtime, obj) st" where
  "continued_result env reference result s =
     (let prompt = continuation_prompt env reference in
      if \<not> truthy prompt then (Inr result, s)
      else
        bindS (liftS (continuation_max_tokens (max_tokens_var env))) (\<lambda>max_tokens.
        bindS (generate_continuation env prompt max_tokens) (\<lambda>continuation.
        bindS (modifyS (last_continuation_update (\<lambda>_. JObj continuation))) (\<lambda>_ t.
          let full = result @ (''continuation'', JObj continuation) # comparisons reference (baseline_continuation t) continuation
          in bindS (maybe_write_reverse_runtime_export env full) (\<lambda>_. liftS (Inr full)) t))) s)"

definition in_result :: "string \<Rightarrow> obj \<Rightarrow> json" where
  "in_result k result = JBool (map_of result k \<noteq> None)"

definition vt_verify_permeant_hashes :: "target_env \<Rightarrow> obj \<Rightarrow> json \<Rightarrow> (real_runtime, obj) st" where
  "vt_verify_permeant_hashes env payload request s =
     bindS (liftS (py_iter (field_or payload ''block_hashes'' (JList [])))) (\<lambda>block_hashes.
     bindS (liftS (filterR (not_in_set (vt_hashes s)) block_hashes)) (\<lambda>missing.
     if missing \<noteq> [] then
       (let result = [(''success'', JBool False), (''missing_hashes'', JList missing)] in
        bindS (modifyS (vt_verify_result_update (\<lambda>_. JObj result))) (\<lambda>_.
        bindS (vt_probe env ((''event'', JStr ''verify_permeant_hashes'') # result)) (\<lambda>_. liftS (Inr result))))
     else
       bindS (vt_on_fs (source_continuation_reference env)) (\<lambda>reference.
       bindS (continued_result env reference [(''success'', JBool True), (''verified_hashes'', JList block_hashes)]) (\<lambda>result.
       bindS (modifyS (vt_verify_result_update (\<lambda>_. JObj result))) (\<lambda>_.
       bindS (vt_probe env (dict_update [(''event'', JStr ''verify_permeant_hashes''), (''request'', or_empty request),
           (''continuation_generated'', in_result ''continuation'' result),
           (''source_comparison_available'', in_result ''source_comparison'' result),
           (''baseline_comparison_available'', in_result ''baseline_comparison'' result)] (dict_pop ''continuation'' result))) (\<lambda>_.
         liftS (Inr result))))))) s"

section \<open>Discovery and start\<close>

text \<open>\<open>s.split(needle, 1)[1]\<close>, if \<open>needle in s\<close>.\<close>

fun after_first :: "string \<Rightarrow> string \<Rightarrow> string option" where
  "after_first needle [] = (if needle = [] then Some [] else None)"
| "after_first needle (c # cs) =
     (if starts_with needle (c # cs) then Some (drop (length needle) (c # cs)) else after_first needle cs)"

definition path_layer :: "string \<Rightarrow> int option" where
  "path_layer path =
     (case after_first ''.layers.'' path of
        None \<Rightarrow> None
      | Some after \<Rightarrow> (case int_of_text (hd (split_on (CHR ''.'') after)) of Inr i \<Rightarrow> Some i | Inl _ \<Rightarrow> None))"

definition preferred_paths :: "string list \<Rightarrow> string list" where
  "preferred_paths paths =
     filter (\<lambda>p. after_first ''.layers.'' p \<noteq> None \<and> after_first ''.kv_cache'' p \<noteq> None) (sort paths)"

definition set_default :: "int \<Rightarrow> string \<Rightarrow> (int \<times> string) list \<Rightarrow> (int \<times> string) list" where
  "set_default i p m = (if map_of m i = None then m @ [(i, p)] else m)"

definition live_layer_map :: "string list \<Rightarrow> (int \<times> string) list" where
  "live_layer_map paths =
     fold (\<lambda>p m. case path_layer p of None \<Rightarrow> m | Some i \<Rightarrow> set_default i p m) (preferred_paths paths @ sort paths) []"

text \<open>The end of \<open>_find_kv_caches\<close>, for the caches that the walk over the engine collected.\<close>

definition discovered_layers :: "obj \<Rightarrow> (int \<times> string) list res" where
  "discovered_layers kv_caches =
     (let layer_map = live_layer_map (map fst kv_caches) in
      if kv_caches = [] then Inl (RuntimeError ''could not discover live kv_cache tensors in the vLLM runtime object'')
      else if layer_map = [] then Inl (RuntimeError ''could not infer a layer map from the live vLLM runtime object'')
      else Inr layer_map)"

definition runtime_metadata :: "target_env \<Rightarrow> obj \<Rightarrow> (int \<times> string) list \<Rightarrow> obj" where
  "runtime_metadata env kv_caches layer_map =
     (let paths = map fst kv_caches; preferred = preferred_paths paths in
      [(''model'', opt_str (model_var env)), (''layer_count'', JInt (int (length layer_map))),
       (''kv_cache_keys'', JList (map JStr (take 16 (if preferred = [] then sort paths else preferred))))])"

definition new_real_runtime :: "obj \<Rightarrow> (int \<times> string) list \<Rightarrow> obj \<Rightarrow> fs \<Rightarrow> real_runtime" where
  "new_real_runtime kv_caches layer_map meta f =
     \<lparr>vt_base = \<lparr>rt_kv_caches = Some kv_caches, rt_get_kv_caches = None,
        permeant_layer_map = map (\<lambda>(i, p). (JInt i, JStr p)) layer_map, rt_hashes = HashSet []\<rparr>,
      metadata = meta, last_register_payload = JNull, vt_verify_result = JNull, last_continuation = JNull,
      baseline_continuation = JNull, last_snapshot = JNull, last_attempt = JNull, vt_fs = f, seeded = []\<rparr>"

text \<open>The baseline of a new runtime; without the variable it is taken.\<close>

definition capture_baseline :: "target_env \<Rightarrow> (real_runtime, unit) st" where
  "capture_baseline env =
     bindS (if from_source_var env = Some ''1'' then vt_on_fs (source_continuation_reference env) else liftS (Inr None)) (\<lambda>reference.
     let prompt = continuation_prompt env reference in
     if truthy prompt \<and> baseline_var env \<noteq> Some ''0''
     then
       bindS (liftS (continuation_max_tokens (max_tokens_var env))) (\<lambda>max_tokens.
       bindS (sample_continuation env prompt max_tokens ''baseline_continuation'') (\<lambda>continuation.
         modifyS (baseline_continuation_update (\<lambda>_. JObj continuation))))
     else liftS (Inr ()))"

text \<open>The module keeps the runtime in \<open>_RUNTIME_SINGLETON\<close> before the probe is written and the baseline taken. The
  state is that variable and the file system; \<open>created\<close> is what loading the engine and walking over it gives.\<close>

definition get_runtime :: "target_env \<Rightarrow> obj res \<Rightarrow> (real_runtime option \<times> fs, unit) st" where
  "get_runtime env created = (\<lambda>(singleton, f).
     case singleton of
       Some s \<Rightarrow> (Inr (), singleton, f)
     | None \<Rightarrow>
         (case bindR created (\<lambda>kv_caches. bindR (discovered_layers kv_caches) (\<lambda>layer_map. Inr (kv_caches, layer_map))) of
            Inl e \<Rightarrow> (Inl e, None, f)
          | Inr (kv_caches, layer_map) \<Rightarrow>
              (let meta = runtime_metadata env kv_caches layer_map in
               case bindS (vt_on_fs (write_probe env ((''event'', JStr ''runtime_initialized'') # meta))) (\<lambda>_. capture_baseline env)
                      (new_real_runtime kv_caches layer_map meta f) of
                 (r, s) \<Rightarrow> (r, Some s, vt_fs s))))"

section \<open>The comparison finds the first difference\<close>

lemma mismatch_at_Some:
  "mismatch_at i xs ys = Some j \<Longrightarrow>
     \<exists>k. j = i + k \<and> k < length xs \<and> k < length ys \<and> (\<forall>m<k. py_eq (xs ! m) (ys ! m)) \<and> \<not> py_eq (xs ! k) (ys ! k)"
proof (induction i xs ys rule: mismatch_at.induct)
  case (1 i x xs y ys)
  show ?case
  proof (cases "py_eq x y")
    case True
    with 1 obtain k where "j = Suc i + k \<and> k < length xs \<and> k < length ys \<and> (\<forall>m<k. py_eq (xs ! m) (ys ! m)) \<and> \<not> py_eq (xs ! k) (ys ! k)"
      by auto
    with True show ?thesis by (intro exI [of _ "Suc k"]) (auto simp: less_Suc_eq_0_disj)
  qed (use 1 in auto)
qed simp_all

lemma mismatch_at_None:
  "mismatch_at i xs ys = None \<Longrightarrow> k < length xs \<Longrightarrow> k < length ys \<Longrightarrow> py_eq (xs ! k) (ys ! k)"
  by (induction i xs ys arbitrary: k rule: mismatch_at.induct) (auto simp: less_Suc_eq_0_disj split: if_splits)

lemma py_eq_list_iff: "py_eq_list xs ys \<longleftrightarrow> length xs = length ys \<and> (\<forall>k<length xs. py_eq (xs ! k) (ys ! k))"
proof (induction xs arbitrary: ys)
  case (Cons x xs)
  then show ?case by (cases ys) (auto simp: less_Suc_eq_0_disj)
qed simp

text \<open>The length of the longest common prefix.\<close>

definition common_prefix_length :: "json list \<Rightarrow> json list \<Rightarrow> nat \<Rightarrow> bool" where
  "common_prefix_length xs ys k \<longleftrightarrow>
     k \<le> length xs \<and> k \<le> length ys \<and> list_all2 py_eq (take k xs) (take k ys) \<and>
     (k = length xs \<or> k = length ys \<or> \<not> py_eq (xs ! k) (ys ! k))"

lemma list_all2_take:
  "k \<le> length xs \<Longrightarrow> k \<le> length ys \<Longrightarrow> list_all2 p (take k xs) (take k ys) \<longleftrightarrow> (\<forall>m<k. p (xs ! m) (ys ! m))"
  by (auto simp: list_all2_conv_all_nth)

lemma token_divergence_exact:
  obtains k where "common_prefix_length es as k"
    and "token_divergence (JList es) (JList as) =
      (JInt (int k), if k = length es \<and> k = length as then JNull else JInt (int k),
       k = length as \<and> k < length es, k = length es \<and> k < length as)"
proof (cases "mismatch_at 0 es as")
  case None
  let ?k = "min (length es) (length as)"
  have "common_prefix_length es as ?k"
    using mismatch_at_None [OF None] by (auto simp: common_prefix_length_def list_all2_take)
  then show ?thesis by (rule that) (use None in \<open>auto simp: token_divergence_def Let_def min_def\<close>)
next
  case (Some i)
  from mismatch_at_Some [OF this] have "common_prefix_length es as i" "i < length es" "i < length as"
    by (auto simp: common_prefix_length_def list_all2_take)
  with Some show ?thesis by (intro that [of i]) (auto simp: token_divergence_def)
qed

lemma common_prefix_whole:
  "common_prefix_length es as k \<Longrightarrow> py_eq_list es as \<longleftrightarrow> k = length es \<and> k = length as"
  by (auto simp: common_prefix_length_def py_eq_list_iff list_all2_conv_all_nth)

lemma compare_fields:
  assumes "field_or reference ''token_ids'' JNull = JList es" and "field_or actual ''token_ids'' JNull = JList as"
    and "token_divergence (JList es) (JList as) = (sh, fm, ae, re)"
  shows "map_of (compare_continuations reference actual) ''shared_prefix_token_count'' = Some sh"
    and "map_of (compare_continuations reference actual) ''first_token_mismatch_index'' = Some fm"
    and "map_of (compare_continuations reference actual) ''actual_ended_before_reference'' = Some (JBool ae)"
    and "map_of (compare_continuations reference actual) ''reference_ended_before_actual'' = Some (JBool re)"
    and "map_of (compare_continuations reference actual) ''token_ids_match'' = Some (JBool (py_eq_list es as))"
  using assms by (simp_all add: compare_continuations_def Let_def)

text \<open>C16: The comparison of two continuations is exact. Of two lists of token ids it reports the length of their longest
  common prefix, the first index where they differ (none when they are equal), which of them ended first, and
  that they match exactly when the prefix is all of both.\<close>

theorem comparison_exact:
  assumes "field_or reference ''token_ids'' JNull = JList es" and "field_or actual ''token_ids'' JNull = JList as"
  shows "\<exists>k. common_prefix_length es as k \<and>
    map_of (compare_continuations reference actual) ''shared_prefix_token_count'' = Some (JInt (int k)) \<and>
    map_of (compare_continuations reference actual) ''first_token_mismatch_index'' =
      Some (if k = length es \<and> k = length as then JNull else JInt (int k)) \<and>
    map_of (compare_continuations reference actual) ''actual_ended_before_reference'' = Some (JBool (k = length as \<and> k < length es)) \<and>
    map_of (compare_continuations reference actual) ''reference_ended_before_actual'' = Some (JBool (k = length es \<and> k < length as)) \<and>
    map_of (compare_continuations reference actual) ''token_ids_match'' = Some (JBool (k = length es \<and> k = length as))"
proof -
  obtain k where k: "common_prefix_length es as k" and d: "token_divergence (JList es) (JList as) =
      (JInt (int k), if k = length es \<and> k = length as then JNull else JInt (int k),
       k = length as \<and> k < length es, k = length es \<and> k < length as)"
    by (rule token_divergence_exact)
  show ?thesis using k compare_fields [OF assms d] by (auto simp: common_prefix_whole [OF k])
qed

theorem comparison_exact_witness:
  "map_of (compare_continuations [(''token_ids'', JList [JInt 1, JInt 2, JInt 3])] [(''token_ids'', JList [JInt 1, JInt 2])])
     ''first_token_mismatch_index'' = Some (JInt 2)"
  using comparison_exact [of "[(''token_ids'', JList [JInt 1, JInt 2, JInt 3])]" "[JInt 1, JInt 2, JInt 3]"
      "[(''token_ids'', JList [JInt 1, JInt 2])]" "[JInt 1, JInt 2]"]
  by (auto simp: field_or_def common_prefix_length_def list_all2_conv_all_nth le_Suc_eq)

section \<open>What seeding binds\<close>

lemma step_eq_Inr:
  "liftS x s = (Inr y, t) \<longleftrightarrow> x = Inr y \<and> t = s" "modifyS f s = (Inr u, t) \<longleftrightarrow> t = f s"
  by (auto simp: liftS_def modifyS_def)

lemma bindS_steps [simp]:
  "bindS (liftS (Inr x)) f s = f x s" "bindS (liftS (Inl e)) f s = (Inl e, s)" "bindS (modifyS g) k s = k () (g s)"
  by (simp_all add: bindS_def liftS_def modifyS_def)

lemma seed_failed_success: "map_of (seed_failed reason details) ''success'' = Some (JBool False)"
  by (simp add: seed_failed_def)

lemma mapR_pool:
  "mapR (\<lambda>v. bindR (int_of v) (\<lambda>i. bindR (pool_block eng i) (\<lambda>_. Inr i))) xs = Inr ys \<Longrightarrow> mapR int_of xs = Inr ys \<and> length ys = length xs"
  by (induction xs arbitrary: ys) (auto simp: bindR_eq_Inr)

lemma bind_blocks_success:
  assumes "bind_blocks eng ids targets bs full s = (Inr r, t)"
  obtains blocks sample where "mapR int_of (take (min full (length targets)) targets) = Inr blocks"
    "t = s\<lparr>seeded := seeded s @ [(ids, blocks)]\<rparr>" "mapR int_of (take 16 targets) = Inr sample"
    "map_of r ''seeded_block_count'' = Some (JInt (int (length blocks)))"
    "map_of r ''seeded_block_ids_sample'' = Some (JList (map JInt sample))"
proof -
  let ?n = "min full (length targets)"
  from assms obtain blocks sample where b:
    "mapR (\<lambda>v. bindR (int_of v) (\<lambda>i. bindR (pool_block eng i) (\<lambda>_. Inr i))) (take ?n targets) = Inr blocks"
    "mapR int_of (take 16 targets) = Inr sample" "t = seeded_update (\<lambda>calls. calls @ [(ids, blocks)]) s"
    "r = [(''success'', JBool True), (''method'', JStr ''block_pool.cache_full_blocks''),
       (''prompt_token_count'', JInt (int (length ids))), (''target_block_size'', JInt bs),
       (''request_block_hash_count'', JInt (int full)), (''seeded_block_count'', JInt (int ?n)),
       (''seeded_block_ids_sample'', JList (map JInt sample))]"
    unfolding bind_blocks_def Let_def by (auto simp only: bindS_eq_Inr step_eq_Inr sum.inject)
  have "t = s\<lparr>seeded := seeded s @ [(ids, blocks)]\<rparr>" using b(3) by (cases s) simp
  then show thesis using that [OF _ _ b(2)] mapR_pool [OF b(1)] by (simp add: b(4))
qed

lemma seed_blocks_success:
  assumes "seed_blocks eng ids targets s = (Inr r, t)" and "map_of r ''success'' = Some (JBool True)"
  obtains bs full where "request_block_hashes eng ids = Inr full" "0 < min full (length targets)"
    "bind_blocks eng ids targets bs full s = (Inr r, t)"
proof -
  from assms(1) obtain bs where bs: "scheduler_block_size eng = Inr bs" by (auto simp: seed_blocks_def bindS_eq_Inr step_eq_Inr)
  with assms have p: "\<not> bs \<le> 0" by (auto simp: seed_blocks_def step_eq_Inr seed_failed_success)
  with assms(1) bs obtain full where f: "request_block_hashes eng ids = Inr full" by (auto simp: seed_blocks_def bindS_eq_Inr step_eq_Inr)
  show thesis
  proof (cases "min full (length targets) \<le> 0")
    case True
    with assms bs p f show thesis by (auto simp: seed_blocks_def step_eq_Inr seed_failed_success)
  next
    case False
    with assms(1) bs p f have "bind_blocks eng ids targets bs full s = (Inr r, t)" unfolding seed_blocks_def by simp
    with f False show thesis by (intro that [of full bs]) auto
  qed
qed

text \<open>C17: Seeding binds the migrated blocks in order. When it reports success, it has bound to the prompt's token ids the
  first of the allocated blocks, as many as the prompt has full blocks and the allocation has blocks, at least
  one, and reports their number. The sample of ids it reports is a prefix of the allocation, bound or not.\<close>

theorem seeded_prefix_exact:
  assumes "seed_vllm_prefix_cache env prompt s = (Inr r, t)" and "map_of r ''success'' = Some (JBool True)"
  shows "\<exists>tok ids full blocks sample.
    vt_tokenize_prompt (tokenizers (engine env)) prompt = Inr tok \<and> token_ids_of tok = Some ids \<and>
    request_block_hashes (engine env) ids = Inr full \<and> 0 < min full (length (allocated_ids (registered_payload s))) \<and>
    mapR int_of (take (min full (length (allocated_ids (registered_payload s)))) (allocated_ids (registered_payload s))) = Inr blocks \<and>
    t = s\<lparr>seeded := seeded s @ [(ids, blocks)]\<rparr> \<and> map_of r ''seeded_block_count'' = Some (JInt (int (length blocks))) \<and>
    mapR int_of (take 16 (allocated_ids (registered_payload s))) = Inr sample \<and>
    map_of r ''seeded_block_ids_sample'' = Some (JList (map JInt sample))"
proof -
  let ?a = "allocated_ids (registered_payload s)"
  from assms have a: "?a \<noteq> []" by (auto simp: seed_vllm_prefix_cache_def seed_failed_success)
  with assms(1) obtain tok where tok: "vt_tokenize_prompt (tokenizers (engine env)) prompt = Inr tok"
    by (auto simp: seed_vllm_prefix_cache_def Let_def bindS_eq_Inr step_eq_Inr)
  with a assms obtain ids where i: "token_ids_of tok = Some ids"
    by (cases "token_ids_of tok") (auto simp: seed_vllm_prefix_cache_def Let_def step_eq_Inr seed_failed_success)
  with a tok assms obtain u where u: "import_request (engine env) = Inr u"
    by (cases "import_request (engine env)") (auto simp: seed_vllm_prefix_cache_def Let_def step_eq_Inr seed_failed_success)
  with a tok i assms have b: "seed_blocks (engine env) ids ?a s = (Inr r, t)"
    by (auto simp: seed_vllm_prefix_cache_def Let_def tryS_def seed_failed_success split: prod.splits sum.splits if_splits)
  from seed_blocks_success [OF b assms(2)] obtain bs full where f: "request_block_hashes (engine env) ids = Inr full" "0 < min full (length ?a)"
    and bb: "bind_blocks (engine env) ids ?a bs full s = (Inr r, t)" .
  from bind_blocks_success [OF bb] show ?thesis using tok i f by metis
qed

definition sample_vllm :: vllm_engine where
  "sample_vllm = \<lparr>sampling_params = (\<lambda>_. Inr ()), tokenizers = [(''Tokenizer'', Some (\<lambda>_. Inr (JList [JInt 7, JInt 8])))],
     generate = (\<lambda>_ _. Inr \<lparr>first_candidate = Some (JStr '' ok'', JList [JInt 9]), output_summary = JNull\<rparr>),
     cache_block_size = JInt 2, import_request = Inr (), scheduler_block_size = Inr 2, request_block_hashes = (\<lambda>_. Inr 1),
     pool_block = (\<lambda>_. Inr ()), cache_full_blocks = (\<lambda>_ _ _. Inr ()), attachment_surface = JNull, runtime_objects = (\<lambda>_. JList []),
     exc_repr = (\<lambda>_. [])\<rparr>"

definition sample_target_env :: target_env where
  "sample_target_env = \<lparr>hook = sample_env, engine = sample_vllm, probe_var = None, source_var = None, prompt_var = Some ''hi'',
     from_source_var = None, max_tokens_var = None, baseline_var = None, reverse_var = None, model_var = None, expand = (\<lambda>p. p)\<rparr>"

definition sample_real_runtime :: real_runtime where
  "sample_real_runtime = (new_real_runtime [] [] [] Map.empty)\<lparr>last_register_payload :=
     JObj [(''hash'', JStr ''abc''), (''target_block_allocation'', JObj [(''target_block_ids'', JList [JInt 4, JInt 5])])]\<rparr>"

lemma sample_tokens:
  "vt_tokenize_prompt (tokenizers sample_vllm) prompt =
     Inr [(''available'', JBool True), (''token_count'', JInt 2), (''token_ids'', JList [JInt 7, JInt 8]), (''tokenizer_type'', JStr ''Tokenizer'')]"
  by (simp add: sample_vllm_def or_else_def)

lemma sample_allocated: "allocated_ids (registered_payload sample_real_runtime) = [JInt 4, JInt 5]"
  by (simp add: sample_real_runtime_def registered_payload_def allocated_ids_def allocation_of_def field_or_def)

theorem seeded_prefix_exact_witness:
  "\<exists>r t. seed_vllm_prefix_cache sample_target_env (JStr ''hi'') sample_real_runtime = (Inr r, t) \<and>
     seeded t = seeded sample_real_runtime @ [([7, 8], [4])] \<and>
     map_of r ''seeded_block_ids_sample'' = Some (JList [JInt 4, JInt 5])"
proof -
  let ?tok = "[(''available'', JBool True), (''token_count'', JInt 2), (''token_ids'', JList [JInt 7, JInt 8]), (''tokenizer_type'', JStr ''Tokenizer'')]"
  have i: "token_ids_of ?tok = Some [7, 8]" by (simp add: token_ids_of_def field_or_def)
  have e: "engine sample_target_env = sample_vllm" by (simp add: sample_target_env_def)
  have p: "import_request sample_vllm = Inr ()" by (simp add: sample_vllm_def)
  have "\<exists>r t. seed_blocks sample_vllm [7, 8] [JInt 4, JInt 5] sample_real_runtime = (Inr r, t) \<and> map_of r ''success'' = Some (JBool True)"
    by (simp add: sample_vllm_def seed_blocks_def bind_blocks_def) (simp add: liftS_def)
  then have "\<exists>r t. seed_vllm_prefix_cache sample_target_env (JStr ''hi'') sample_real_runtime = (Inr r, t) \<and> map_of r ''success'' = Some (JBool True)"
    by (auto simp: seed_vllm_prefix_cache_def Let_def sample_allocated e sample_tokens i p tryS_def)
  then obtain r t where r: "seed_vllm_prefix_cache sample_target_env (JStr ''hi'') sample_real_runtime = (Inr r, t)"
    "map_of r ''success'' = Some (JBool True)" by blast
  then show ?thesis
    using seeded_prefix_exact [OF r] by (auto simp: e sample_tokens i sample_allocated) (auto simp: sample_vllm_def)
qed

section \<open>No continuation on unverified blocks\<close>

lemma not_in_set_Inr: "not_in_set hs v = Inr b \<Longrightarrow> b \<longleftrightarrow> (\<forall>x\<in>set hs. v \<noteq> JStr x)"
  by (auto simp: not_in_set_def py_in_strs_def py_in_set_def list_ex_iff bindR_eq_Inr split: if_splits)

lemma filterR_mem: "filterR p xs = Inr ys \<Longrightarrow> x \<in> set xs \<Longrightarrow> p x = Inr True \<Longrightarrow> x \<in> set ys"
  by (induction xs arbitrary: ys) (auto simp: bindR_eq_Inr)

lemma filterR_defined: "filterR p xs = Inr ys \<Longrightarrow> x \<in> set xs \<Longrightarrow> \<exists>b. p x = Inr b"
  by (induction xs arbitrary: ys) (auto simp: bindR_eq_Inr)

lemma vt_probe_keeps: "vt_probe env e s = (r, t) \<Longrightarrow> t = s\<lparr>vt_fs := vt_fs t\<rparr>"
  by (auto simp: vt_probe_def vt_on_fs_def split: prod.splits)

text \<open>C15: No continuation on unverified blocks. When one of the hashes to verify is not registered, the call seeds no block
  into the prefix cache, generates nothing and leaves caches and hashes alone, and if it returns, it reports a
  failure that lists the hash.\<close>

theorem unverified_never_decodes:
  assumes "vt_verify_permeant_hashes env payload request s = (r, t)" and "field_or payload ''block_hashes'' (JList []) = JList hs"
    and "h \<in> set hs" and "\<forall>x\<in>set (vt_hashes s). h \<noteq> JStr x"
  shows "seeded t = seeded s \<and> last_continuation t = last_continuation s \<and> vt_base t = vt_base s \<and>
    (case r of Inl _ \<Rightarrow> True
     | Inr result \<Rightarrow> \<exists>missing. result = [(''success'', JBool False), (''missing_hashes'', JList missing)] \<and> h \<in> set missing)"
proof (cases "filterR (not_in_set (vt_hashes s)) hs")
  case (Inl e)
  then show ?thesis using assms(1,2) by (auto simp: vt_verify_permeant_hashes_def py_iter_def)
next
  case (Inr missing)
  obtain b where "not_in_set (vt_hashes s) h = Inr b" using filterR_defined [OF Inr assms(3)] by blast
  with not_in_set_Inr [OF this] assms(4) have h: "h \<in> set missing" using filterR_mem [OF Inr assms(3)] by auto
  then have "missing \<noteq> []" by auto
  let ?r = "[(''success'', JBool False), (''missing_hashes'', JList missing)]"
  obtain q u where q: "vt_probe env ((''event'', JStr ''verify_permeant_hashes'') # ?r) (s\<lparr>vt_verify_result := JObj ?r\<rparr>) = (q, u)" by fastforce
  with assms(1,2) Inr \<open>missing \<noteq> []\<close> have "t = u" "r = bindR q (\<lambda>_. Inr ?r)"
    by (auto simp: vt_verify_permeant_hashes_def py_iter_def Let_def bindS_def [of "vt_probe _ _"] liftS_def split: sum.splits)
  with h vt_probe_keeps [OF q] show ?thesis by (cases q) (auto dest: arg_cong [of _ _ seeded] arg_cong [of _ _ last_continuation] arg_cong [of _ _ vt_base])
qed

theorem unverified_never_decodes_witness:
  "\<exists>t. vt_verify_permeant_hashes sample_target_env [(''block_hashes'', JList [JStr ''abc''])] JNull sample_real_runtime =
      (Inr [(''success'', JBool False), (''missing_hashes'', JList [JStr ''abc''])], t) \<and> seeded t = []"
proof -
  have h: "vt_hashes sample_real_runtime = []" "seeded sample_real_runtime = []"
    by (simp_all add: sample_real_runtime_def new_real_runtime_def vt_hashes_def)
  have "probe_var sample_target_env = None" by (simp add: sample_target_env_def)
  then obtain t where t: "vt_verify_permeant_hashes sample_target_env [(''block_hashes'', JList [JStr ''abc''])] JNull sample_real_runtime =
      (Inr [(''success'', JBool False), (''missing_hashes'', JList [JStr ''abc''])], t)"
    by (simp add: vt_verify_permeant_hashes_def field_or_def py_iter_def h not_in_set_def py_in_strs_def py_in_set_def hashable_def
        vt_probe_def vt_append_probe_event_def var_path_def Let_def) (simp add: vt_on_fs_def bindS_def liftS_def)
  from unverified_never_decodes [OF t, of "[JStr ''abc'']" "JStr ''abc''"] t show ?thesis by (simp add: field_or_def h)
qed

end
