(* ===== verification/MlxLive.thy ===== *)
theory MlxLive
  imports MlxBridge SpanMetadata VllmTarget
begin

text \<open>
  The live source runtime, \<^verbatim>\<open>adapters/mlx_live_runtime.py\<close>: building a prompt of a given length, the runtime that the
  module keeps, the file with the source's continuation, the provider that exports the cache, and the import of the
  state that a target sends back. The model and its tokenizer are arguments: \<open>encode\<close>, \<open>decode\<close> and
  \<open>batch_generate\<close>, whose response has the attributes the code looks for.
\<close>

section \<open>The engine\<close>

text \<open>An element of a response: a JSON value or an object with attributes. An attribute of a response is a list of
  such elements or another value; \<open>JNull\<close> also stands for an absent attribute.\<close>

datatype out_item = Plain json | Obj_attrs obj

datatype out_group = Group "out_item list" | Single json

record mlx_response =
  out_attrs :: "(string \<times> out_group) list"
  out_caches :: "json list"

text \<open>\<open>load\<close> gives the model and the tokenizer; \<open>list(tokenizer.encode(text))\<close>, \<open>decode\<close> if it is callable, and
  \<open>batch_generate\<close> for one prompt, a number of tokens and whether caches are wanted.\<close>

record mlx_engine =
  load_model :: "string \<Rightarrow> unit res"
  encode :: "string \<Rightarrow> int list res"
  decode :: "(int list \<Rightarrow> json res) option"
  batch_generate :: "int list \<Rightarrow> int \<Rightarrow> bool \<Rightarrow> mlx_response res"

record mlx_env =
  mlx :: mlx_engine
  continuation_file_var :: "string option"
  use_prefill_var :: "string option"
  source_prompt_var :: "string option"
  target_prompt_var :: "string option"
  source_tokens_var :: "string option"
  target_tokens_var :: "string option"
  seq_len_var :: "string option"
  base_prompt_var :: "string option"
  model_id_var :: "string option"
  tokenizer_hash_var :: "string option"
  cache_ref_var :: "string option"
  report_var :: "string option"
  mlx_expand :: "pypath \<Rightarrow> pypath"

definition DEFAULT_PROMPT :: string where
  "DEFAULT_PROMPT = ''PermeantOS migration source runtime. '' @
     ''This prompt is intentionally repeated to build a substantial live KV cache. ''"

definition var_or :: "string option \<Rightarrow> string \<Rightarrow> string" where
  "var_or v d = (case v of Some s \<Rightarrow> s | None \<Rightarrow> d)"

text \<open>\<open>os.getenv(a) or os.getenv(b)\<close>.\<close>

definition either_var :: "string option \<Rightarrow> string option \<Rightarrow> string option" where
  "either_var a b = (case a of Some (c # cs) \<Rightarrow> a | _ \<Rightarrow> b)"

definition target_seq_len :: "mlx_env \<Rightarrow> int res" where
  "target_seq_len env = int_of_text (var_or (seq_len_var env) ''2048'')"

definition base_prompt :: "mlx_env \<Rightarrow> string" where
  "base_prompt env = var_or (base_prompt_var env) DEFAULT_PROMPT"

definition mlx_model_id :: "mlx_env \<Rightarrow> string" where
  "mlx_model_id env = var_or (model_id_var env) ''gpt2''"

definition mlx_tokenizer_hash :: "mlx_env \<Rightarrow> string" where
  "mlx_tokenizer_hash env =
     (case tokenizer_hash_var env of
        Some (c # cs) \<Rightarrow> c # cs
      | _ \<Rightarrow> sha256_bytes (utf8_encode (''mlx-tokenizer:'' @ mlx_model_id env)))"

definition source_continuation_prompt :: "mlx_env \<Rightarrow> string option" where
  "source_continuation_prompt env = either_var (source_prompt_var env) (target_prompt_var env)"

definition source_max_tokens :: "mlx_env \<Rightarrow> int res" where
  "source_max_tokens env =
     int_of_text (case either_var (source_tokens_var env) (target_tokens_var env) of Some (c # cs) \<Rightarrow> c # cs | _ \<Rightarrow> ''16'')"

section \<open>Prompts\<close>

definition decode_prompt_tokens :: "mlx_engine \<Rightarrow> int list \<Rightarrow> string option res" where
  "decode_prompt_tokens eng tokens =
     (case decode eng of
        None \<Rightarrow> Inr None
      | Some d \<Rightarrow> bindR (d tokens) (\<lambda>v. Inr (case v of JStr s \<Rightarrow> Some s | _ \<Rightarrow> None)))"

text \<open>The loop that appends the seed until there are enough tokens; \<open>None\<close> when it never ends.\<close>

partial_function (option) grow_prompt ::
    "(string \<Rightarrow> int list res) \<Rightarrow> string \<Rightarrow> int \<Rightarrow> string \<Rightarrow> int list \<Rightarrow> (string \<times> int list) res option" where
  "grow_prompt enc seed minimum text tokens =
     (if int (length tokens) < minimum
      then
        (case enc (text @ [CHR 0x0A] @ seed) of
           Inl e \<Rightarrow> Some (Inl e)
         | Inr longer \<Rightarrow> grow_prompt enc seed minimum (text @ [CHR 0x0A] @ seed) longer)
      else Some (Inr (text, tokens)))"

text \<open>\<open>tokens[:n]\<close>.\<close>

definition py_take :: "int \<Rightarrow> 'a list \<Rightarrow> 'a list" where
  "py_take n xs = take (if 0 \<le> n then nat n else length xs - nat (- n)) xs"

definition build_prompt_text :: "mlx_env \<Rightarrow> int \<Rightarrow> (string \<times> int list) res" where
  "build_prompt_text env minimum =
     (let seed = py_strip (base_prompt env); enc = encode (mlx env) in
      bindR (enc seed) (\<lambda>first.
      bindR (case grow_prompt enc seed minimum seed first of None \<Rightarrow> Inl Diverges | Some r \<Rightarrow> r) (\<lambda>(text, tokens).
      bindR (decode_prompt_tokens (mlx env) (py_take minimum tokens)) (\<lambda>prefill_text.
        Inr (case prefill_text of Some (c # cs) \<Rightarrow> c # cs | _ \<Rightarrow> text, py_take minimum tokens)))))"

definition prefill_prompt :: "mlx_env \<Rightarrow> int list \<Rightarrow> json res" where
  "prefill_prompt env tokens =
     bindR (batch_generate (mlx env) tokens 1 True) (\<lambda>response.
       case out_caches response of c # _ \<Rightarrow> Inr c | [] \<Rightarrow> Inl (IndexError ''list index out of range''))"

section \<open>Reading a response\<close>

definition groups :: "string list \<Rightarrow> mlx_response \<Rightarrow> out_group list" where
  "groups names response =
     concat (map (\<lambda>n. case map_of (out_attrs response) n of None \<Rightarrow> [] | Some (Single JNull) \<Rightarrow> [] | Some g \<Rightarrow> [g]) names)"

definition group_items :: "out_group \<Rightarrow> out_item list" where
  "group_items g = (case g of Group xs \<Rightarrow> xs | Single (JList xs) \<Rightarrow> map Plain xs | Single _ \<Rightarrow> [])"

fun first_some :: "('a \<Rightarrow> 'b option) \<Rightarrow> 'a list \<Rightarrow> 'b option" where
  "first_some f [] = None"
| "first_some f (x # xs) = (case f x of Some y \<Rightarrow> Some y | None \<Rightarrow> first_some f xs)"

definition item_text :: "out_item \<Rightarrow> string option" where
  "item_text item =
     (case item of
        Plain (JStr s) \<Rightarrow> Some s
      | Plain _ \<Rightarrow> None
      | Obj_attrs d \<Rightarrow> first_some (\<lambda>a. case field_or d a JNull of JStr s \<Rightarrow> Some s | _ \<Rightarrow> None) [''text'', ''output_text'', ''generated_text''])"

definition group_text :: "out_group \<Rightarrow> string option" where
  "group_text g =
     (case g of
        Single (JStr s) \<Rightarrow> Some s
      | _ \<Rightarrow> (case group_items g of item # _ \<Rightarrow> item_text item | [] \<Rightarrow> None))"

definition extract_first_output_text :: "mlx_response \<Rightarrow> string \<Rightarrow> string" where
  "extract_first_output_text response prompt =
     (case first_some group_text (groups [''text'', ''texts'', ''outputs'', ''generations'', ''responses''] response) of
        Some text \<Rightarrow> removeprefix prompt text
      | None \<Rightarrow> [])"

definition int_list :: "json \<Rightarrow> int list option" where
  "int_list v = (case v of JList xs \<Rightarrow> if list_all is_int xs then Some (map (the \<circ> int_val) xs) else None | _ \<Rightarrow> None)"

definition item_tokens :: "out_item \<Rightarrow> int list option" where
  "item_tokens item =
     (case item of
        Plain v \<Rightarrow> int_list v
      | Obj_attrs d \<Rightarrow> first_some (\<lambda>a. int_list (field_or d a JNull)) [''token_ids'', ''output_ids'', ''generated_ids''])"

definition group_tokens :: "out_group \<Rightarrow> int list option" where
  "group_tokens g = (case group_items g of item # _ \<Rightarrow> item_tokens item | [] \<Rightarrow> None)"

definition extract_first_output_token_ids :: "mlx_env \<Rightarrow> mlx_response \<Rightarrow> string \<Rightarrow> int list res" where
  "extract_first_output_token_ids env response generated_text =
     (case first_some group_tokens (groups [''token_ids'', ''output_ids'', ''generated_ids'', ''outputs'', ''generations'', ''responses''] response) of
        Some ids \<Rightarrow> Inr ids
      | None \<Rightarrow> if generated_text = [] then Inr [] else encode (mlx env) generated_text)"

section \<open>The runtime of the module\<close>

record live_runtime =
  prompt_text :: string
  prompt_tokens :: "int list"
  caches :: json
  last_reverse_import :: json

record mlx_state =
  live_rt :: "live_runtime option"
  mlx_fs :: fs

definition mlx_on_fs :: "'a io \<Rightarrow> (mlx_state, 'a) st" where
  "mlx_on_fs m s = (case m (mlx_fs s) of (r, f) \<Rightarrow> (r, s\<lparr>mlx_fs := f\<rparr>))"

definition source_payload :: "string \<Rightarrow> int list \<Rightarrow> string \<Rightarrow> int list \<Rightarrow> string \<Rightarrow> int \<Rightarrow> obj" where
  "source_payload prompt prompt_ids text ids model max_tokens =
     [(''prompt'', JStr prompt), (''prompt_token_ids'', ints_json prompt_ids), (''prompt_token_count'', JInt (int (length prompt_ids))),
      (''text'', JStr text), (''token_ids'', ints_json ids), (''token_count'', JInt (int (length ids))),
      (''model_id'', JStr model), (''max_tokens'', JInt max_tokens)]"

definition source_continuation :: "mlx_env \<Rightarrow> string \<Rightarrow> obj res" where
  "source_continuation env prompt =
     bindR (encode (mlx env) prompt) (\<lambda>asked.
     bindR (source_max_tokens env) (\<lambda>max_tokens.
     bindR (batch_generate (mlx env) asked max_tokens False) (\<lambda>response.
     let text = extract_first_output_text response prompt in
     bindR (extract_first_output_token_ids env response text) (\<lambda>ids.
     bindR (encode (mlx env) prompt) (\<lambda>prompt_ids.
       Inr (source_payload prompt prompt_ids text ids (mlx_model_id env) max_tokens))))))"

text \<open>Neither the parent directories are made nor \<open>~\<close> expanded for this file.\<close>

definition maybe_write_source_continuation :: "mlx_env \<Rightarrow> live_runtime \<Rightarrow> (mlx_state, unit) st" where
  "maybe_write_source_continuation env rt =
     (case (continuation_file_var env,
            if use_prefill_var env = Some ''1'' then Some (prompt_text rt) else source_continuation_prompt env) of
        (Some (c # cs), Some (p # ps)) \<Rightarrow>
          bindS (liftS (source_continuation env (p # ps))) (\<lambda>payload.
            mlx_on_fs (write_bytes (Path (c # cs)) (utf8_encode (dumps_indented (JObj payload)))))
      | _ \<Rightarrow> liftS (Inr ()))"

definition set_live :: "live_runtime \<Rightarrow> mlx_state \<Rightarrow> mlx_state" where
  "set_live rt s = s\<lparr>live_rt := Some rt\<rparr>"

definition new_live :: "string \<Rightarrow> int list \<Rightarrow> json \<Rightarrow> live_runtime" where
  "new_live text tokens cache = \<lparr>prompt_text = text, prompt_tokens = tokens, caches = cache, last_reverse_import = JNull\<rparr>"

definition build_live :: "mlx_env \<Rightarrow> int \<Rightarrow> (mlx_state, live_runtime) st" where
  "build_live env minimum =
     bindS (liftS (build_prompt_text env minimum)) (\<lambda>(text, tokens).
     bindS (liftS (prefill_prompt env tokens)) (\<lambda>cache.
     let rt = new_live text tokens cache in
     bindS (modifyS (set_live rt)) (\<lambda>_.
     bindS (maybe_write_source_continuation env rt) (\<lambda>_. liftS (Inr rt)))))"

definition ensure_runtime :: "mlx_env \<Rightarrow> int \<Rightarrow> (mlx_state, live_runtime) st" where
  "ensure_runtime env minimum s =
     (case live_rt s of
        None \<Rightarrow> bindS (liftS (load_model (mlx env) (mlx_model_id env))) (\<lambda>_. build_live env minimum) s
      | Some rt \<Rightarrow> if int (length (prompt_tokens rt)) < minimum then build_live env minimum s else (Inr rt, s))"

definition get_live_runtime :: "mlx_env \<Rightarrow> (mlx_state, live_runtime) st" where
  "get_live_runtime env = bindS (liftS (target_seq_len env)) (ensure_runtime env)"

section \<open>The state that comes back\<close>

definition advanced_prompt_of :: "obj \<Rightarrow> (string \<times> string) res" where
  "advanced_prompt_of state =
     (case field_or state ''generated_text'' JNull of
        JStr (c # cs) \<Rightarrow>
          (case field_or state ''advanced_prompt'' JNull of
             JStr (a # as) \<Rightarrow> Inr (c # cs, a # as)
           | _ \<Rightarrow>
               (case field_or state ''prompt'' JNull of
                  JStr (p # ps) \<Rightarrow> Inr (c # cs, (p # ps) @ c # cs)
                | _ \<Rightarrow> adapter_error ''reverse runtime state is missing prompt/advanced_prompt''))
      | _ \<Rightarrow> adapter_error ''reverse runtime state is missing target generated_text'')"

definition import_report :: "mlx_env \<Rightarrow> obj \<Rightarrow> string \<Rightarrow> string \<Rightarrow> int list \<Rightarrow> string \<Rightarrow> int list \<Rightarrow> int \<Rightarrow> obj" where
  "import_report env state target_text advanced_prompt advanced_tokens origin_text origin_ids max_tokens =
     (let version = JStr ''permeantos-reverse-runtime-import-v0'';
          prompt_hash = JStr (sha256_bytes (utf8_encode advanced_prompt));
          target_proof = field_or state ''proof_hash'' JNull
      in [(''schema_version'', version), (''status'', JStr ''reverse_runtime_imported''), (''reverse_runtime_imported'', JBool True),
          (''model_id'', JStr (mlx_model_id env)), (''source_runtime'', JStr ''mlx-live-runtime''),
          (''target_runtime'', field_or state ''target_runtime'' JNull), (''target_model_id'', field_or state ''model_id'' JNull),
          (''target_proof_hash'', target_proof), (''target_prompt_token_count'', field_or state ''prompt_token_count'' JNull),
          (''target_generated_token_count'', list_len (field_or state ''generated_token_ids'' JNull)),
          (''origin_advanced_prompt_token_count'', JInt (int (length advanced_tokens))),
          (''origin_continuation'', JObj [(''prompt'', JStr advanced_prompt), (''text'', JStr origin_text), (''token_ids'', ints_json origin_ids),
             (''token_count'', JInt (int (length origin_ids))), (''max_tokens'', JInt max_tokens)]),
          (''import_boundary'', JObj [(''target_generated_text'', JStr target_text), (''advanced_prompt_sha256'', prompt_hash)]),
          (''proof_hash'', JStr (sha256_json (JObj [(''schema_version'', version), (''target_proof_hash'', target_proof),
             (''advanced_prompt_sha256'', prompt_hash), (''origin_continuation_token_ids'', ints_json origin_ids)])))])"

definition write_report :: "mlx_env \<Rightarrow> obj \<Rightarrow> obj \<Rightarrow> (mlx_state, unit) st" where
  "write_report env request report =
     (let given = field_or request ''output_path'' JNull;
          path = (if truthy given then Some (py_str given) else report_var env)
      in case path of
           Some (c # cs) \<Rightarrow> mlx_on_fs (write_json (mlx_expand env (Path (c # cs))) (JObj report))
         | _ \<Rightarrow> liftS (Inr ()))"

definition materialize_reverse_runtime_state :: "mlx_env \<Rightarrow> obj \<Rightarrow> (mlx_state, obj) st" where
  "materialize_reverse_runtime_state env request =
     bindS (get_live_runtime env) (\<lambda>_.
     case field_or request ''reverse_runtime_state'' (JObj request) of
       JObj state \<Rightarrow>
         bindS (liftS (advanced_prompt_of state)) (\<lambda>(target_text, advanced_prompt).
         bindS (liftS (encode (mlx env) advanced_prompt)) (\<lambda>advanced_tokens.
         bindS (liftS (prefill_prompt env advanced_tokens)) (\<lambda>cache.
         let rt = new_live advanced_prompt advanced_tokens cache in
         bindS (modifyS (set_live rt)) (\<lambda>_.
         bindS (liftS (source_max_tokens env)) (\<lambda>max_tokens.
         bindS (liftS (batch_generate (mlx env) advanced_tokens max_tokens False)) (\<lambda>response.
         let origin_text = extract_first_output_text response advanced_prompt in
         bindS (liftS (extract_first_output_token_ids env response origin_text)) (\<lambda>origin_ids.
         let report = import_report env state target_text advanced_prompt advanced_tokens origin_text origin_ids max_tokens in
         bindS (modifyS (set_live (rt\<lparr>last_reverse_import := JObj report\<rparr>))) (\<lambda>_.
         bindS (write_report env request report) (\<lambda>_. liftS (Inr report))))))))))
     | _ \<Rightarrow> liftS (adapter_error ''reverse runtime import request must contain a JSON object''))"

section \<open>The provider\<close>

definition required_names :: "json \<Rightarrow> string list res" where
  "required_names v =
     (if \<not> truthy v then Inr []
      else case v of
        JList xs \<Rightarrow> if list_all is_str xs then Inr (map py_str xs) else Inl (OutsideModel ''tensor names that are not strings'')
      | _ \<Rightarrow> Inl (OutsideModel ''tensor names that are no list''))"

definition provider :: "mlx_env \<Rightarrow> obj \<Rightarrow> (mlx_state, obj) st" where
  "provider env request =
     (if field_or request ''action'' JNull = JStr ''import_reverse_runtime_state''
      then materialize_reverse_runtime_state env request
      else
        bindS (liftS (let n = field_or request ''seq_len'' JNull in if truthy n then int_of n else target_seq_len env)) (\<lambda>minimum.
        bindS (ensure_runtime env minimum) (\<lambda>rt.
        bindS (maybe_write_source_continuation env rt) (\<lambda>_.
        bindS (liftS (required_names (field_or request ''tensor_names'' JNull))) (\<lambda>names.
        bindS (liftS (build_extractor_response_from_cache (caches rt) (Some minimum) names)) (\<lambda>response.
        bindS (liftS (build_prompt_span_metadata (JStr (prompt_text rt)) (py_take minimum (prompt_tokens rt))
            (JStr (mlx_tokenizer_hash env)) (JStr (mlx_model_id env)) (JStr ''mlx-live-runtime'')
            (JStr (var_or (cache_ref_var env) ''kv:mlx-live:prefill'')) (JStr ''checkpoint:prompt'') None)) (\<lambda>metadata.
          liftS (Inr (dict_set ''agent_graph_span_metadata'' metadata (case response of JObj d \<Rightarrow> d | _ \<Rightarrow> []))))))))))"

section \<open>The prompt loop\<close>

text \<open>A start followed by the seed on \<open>k\<close> further lines.\<close>

definition with_lines :: "string \<Rightarrow> string \<Rightarrow> nat \<Rightarrow> string" where
  "with_lines seed start k = start @ concat (replicate k (CHR 0x0A # seed))"

lemma with_lines_simps [simp]: "with_lines seed start 0 = start" "with_lines seed (start @ CHR 0x0A # seed) k = with_lines seed start (Suc k)"
  by (simp_all add: with_lines_def)

lemma grow_prompt_ends:
  assumes "\<And>t. enc t = Inr (tok t)" and "minimum \<le> int (length (tok (with_lines seed start k)))"
  shows "\<exists>j. grow_prompt enc seed minimum start (tok start) = Some (Inr (with_lines seed start j, tok (with_lines seed start j))) \<and>
    minimum \<le> int (length (tok (with_lines seed start j)))"
  using assms(2)
proof (induction k arbitrary: start)
  case 0
  then show ?case by (intro exI [of _ 0]) (simp add: grow_prompt.simps)
next
  case (Suc k)
  show ?case
  proof (cases "int (length (tok start)) < minimum")
    case True
    from Suc.IH [of "start @ CHR 0x0A # seed"] Suc.prems obtain j where
      "grow_prompt enc seed minimum (start @ CHR 0x0A # seed) (tok (start @ CHR 0x0A # seed)) =
         Some (Inr (with_lines seed start (Suc j), tok (with_lines seed start (Suc j)))) \<and>
       minimum \<le> int (length (tok (with_lines seed start (Suc j))))" by auto
    with True show ?thesis by (intro exI [of _ "Suc j"]) (simp add: grow_prompt.simps [of _ _ _ start] assms(1) [of "start @ CHR 0x0A # seed"])
  next
    case False
    then show ?thesis by (intro exI [of _ 0]) (simp add: grow_prompt.simps)
  qed
qed

lemma grow_prompt_enough:
  assumes "grow_prompt enc seed minimum start tokens = Some r"
  shows "(\<forall>t. enc t = Inr (tok t)) \<longrightarrow> tokens = tok start \<longrightarrow> (\<exists>k. minimum \<le> int (length (tok (with_lines seed start k))))"
  using assms
proof (rule grow_prompt.raw_induct [rotated], goal_cases)
  case (1 grow enc seed minimum start tokens r)
  have "\<exists>k. minimum \<le> int (length (tok (with_lines seed start k)))" if e: "\<forall>t. enc t = Inr (tok t)" and t: "tokens = tok start"
  proof (cases "int (length tokens) < minimum")
    case False
    with t have "minimum \<le> int (length (tok (with_lines seed start 0)))" by simp
    then show ?thesis by blast
  next
    case True
    with e 1(2) have "grow enc seed minimum (start @ CHR 0x0A # seed) (tok (start @ CHR 0x0A # seed)) = Some r" by simp
    from 1(1) [OF this] e show ?thesis by (metis with_lines_simps(2))
  qed
  then show ?case by blast
qed

text \<open>C18: The prompt loop. With a tokenizer that encodes every text and decodes every list of tokens, building a prompt never
  returns exactly when no number of repetitions of the base prompt has enough tokens; otherwise, for a minimum that is not
  negative, it returns a prompt with exactly the wanted number of tokens.\<close>

theorem prompt_loop_termination:
  assumes enc: "\<forall>t. encode (mlx env) t = Inr (tok t)" and dec: "\<forall>ids. \<exists>d. decode_prompt_tokens (mlx env) ids = Inr d"
  shows "(build_prompt_text env minimum = Inl Diverges \<longleftrightarrow>
      (\<forall>k. int (length (tok (with_lines (py_strip (base_prompt env)) (py_strip (base_prompt env)) k))) < minimum)) \<and>
    (build_prompt_text env minimum \<noteq> Inl Diverges \<longrightarrow> 0 \<le> minimum \<longrightarrow>
       (\<exists>t ids. build_prompt_text env minimum = Inr (t, ids) \<and> int (length ids) = minimum))"
proof -
  let ?seed = "py_strip (base_prompt env)"
  show ?thesis
  proof (cases "\<exists>k. minimum \<le> int (length (tok (with_lines ?seed ?seed k)))")
    case True
    then obtain k where "minimum \<le> int (length (tok (with_lines ?seed ?seed k)))" by blast
    from grow_prompt_ends [where enc = "encode (mlx env)" and tok = tok and seed = ?seed and start = ?seed, OF _ this] enc
    obtain t where t: "grow_prompt (encode (mlx env)) ?seed minimum ?seed (tok ?seed) = Some (Inr (t, tok t))" "minimum \<le> int (length (tok t))" by auto
    moreover obtain d where "decode_prompt_tokens (mlx env) (py_take minimum (tok t)) = Inr d" using dec by blast
    ultimately have "\<exists>t'. build_prompt_text env minimum = Inr (t', py_take minimum (tok t))"
      using enc by (simp add: build_prompt_text_def Let_def)
    moreover have "\<not> (\<forall>k. int (length (tok (with_lines ?seed ?seed k))) < minimum)" using True by (meson not_le)
    ultimately show ?thesis using t(2) by (auto simp: py_take_def)
  next
    case False
    with grow_prompt_enough [of "encode (mlx env)" ?seed minimum ?seed "tok ?seed" _ tok] enc
    have "grow_prompt (encode (mlx env)) ?seed minimum ?seed (tok ?seed) = None" by (cases "grow_prompt (encode (mlx env)) ?seed minimum ?seed (tok ?seed)") auto
    then have "build_prompt_text env minimum = Inl Diverges" using enc by (simp add: build_prompt_text_def Let_def)
    with False show ?thesis by (auto simp: not_le)
  qed
qed

definition sample_mlx :: mlx_engine where
  "sample_mlx = \<lparr>load_model = (\<lambda>_. Inr ()), encode = (\<lambda>t. Inr (map (\<lambda>c. int (of_char c :: nat)) t)), decode = None,
     batch_generate = (\<lambda>_ _ _. Inr \<lparr>out_attrs = [(''texts'', Group [Plain (JStr ''!'')])], out_caches = [JList []]\<rparr>)\<rparr>"

definition sample_mlx_env :: "string \<Rightarrow> mlx_env" where
  "sample_mlx_env prompt = \<lparr>mlx = sample_mlx, continuation_file_var = Some ''source.json'', use_prefill_var = None,
     source_prompt_var = Some ''hi'', target_prompt_var = None, source_tokens_var = None, target_tokens_var = None,
     seq_len_var = Some ''4'', base_prompt_var = Some prompt, model_id_var = None, tokenizer_hash_var = None,
     cache_ref_var = None, report_var = None, mlx_expand = (\<lambda>p. p)\<rparr>"

theorem prompt_loop_termination_witness:
  "\<exists>t ids. build_prompt_text (sample_mlx_env ''a'') 4 = Inr (t, ids) \<and> length ids = 4"
proof -
  let ?tok = "map (\<lambda>c. int (of_char c :: nat))"
  have e: "\<forall>t. encode (mlx (sample_mlx_env ''a'')) t = Inr (?tok t)" "\<forall>ids. \<exists>d. decode_prompt_tokens (mlx (sample_mlx_env ''a'')) ids = Inr d"
    by (simp_all add: sample_mlx_env_def sample_mlx_def decode_prompt_tokens_def)
  have "\<not> int (length (?tok (with_lines ''a'' ''a'' 2))) < 4" by (simp add: with_lines_def numeral_2_eq_2)
  moreover have "py_strip (base_prompt (sample_mlx_env ''a'')) = ''a''"
    by (simp add: sample_mlx_env_def base_prompt_def var_or_def py_strip_def py_space_def Let_def)
  ultimately show ?thesis using prompt_loop_termination [OF e, of 4] by fastforce
qed

end
