(* ===== verification/ReturnTrip.thy ===== *)
theory ReturnTrip
  imports MlxLive Fidelity
begin

text \<open>
  The two ends of a migration with a live model: the continuation that the source (\<open>MlxLive\<close>) writes for the target to
  compare with (\<open>VllmTarget\<close>), and the state that the target exports and the source imports again.
\<close>

section \<open>The source's continuation\<close>

lemma wf_ints_json [simp]: "wf_json (ints_json is)"
  by (simp add: ints_json_def list_all_iff)

lemma source_payload_wf: "wf_json (JObj (source_payload p pids t ids model n))"
  by (simp add: source_payload_def dict_keys_ok_def)

lemma source_continuation_payload:
  assumes "source_continuation env p = Inr payload"
  obtains pids out ids n where "payload = source_payload p pids out ids (mlx_model_id env) n"
  using assms by (auto simp: source_continuation_def bindR_eq_Inr Let_def)

lemma read_indented:
  assumes "write_bytes p (utf8_encode (dumps_indented v)) f = (Inr u, g)" and "wf_json v"
  shows "path_exists g p" and "read_json p g = (Inr v, g)"
proof -
  have "read_bytes g p = Inr (utf8_encode (dumps_indented v))"
    using write_bytes_ok [OF assms(1)] by (simp add: read_bytes_iff node_at_update)
  then show "path_exists g p" "read_json p g = (Inr v, g)"
    using assms(2) loads_render [of pretty_style v "[]"]
    by (simp add: path_exists_def read_bytes_iff, simp add: read_json_def read_file_def bindIO_def dumps_indented_def)
qed


text \<open>The prompt whose continuation the source writes.\<close>

definition asked_prompt :: "mlx_env \<Rightarrow> live_runtime \<Rightarrow> string option" where
  "asked_prompt env rt = (if use_prefill_var env = Some ''1'' then Some (prompt_text rt) else source_continuation_prompt env)"

lemma written_reference:
  assumes "maybe_write_source_continuation menv rt m = (Inr (), m')" and "continuation_file_var menv = Some fname" and "fname \<noteq> []"
    and "asked_prompt menv rt = Some p" and "p \<noteq> []" and "source_var env = Some fname" and "expand env (Path fname) = Path fname"
  obtains payload where "source_continuation menv p = Inr payload"
    and "source_continuation_reference env (mlx_fs m') = (Inr (Some payload), mlx_fs m')"
proof -
  obtain c cs where f: "fname = c # cs" using assms(3) by (cases fname) auto
  obtain d ds where d: "p = d # ds" using assms(5) by (cases p) auto
  from assms(1,2,4) obtain payload where payload: "source_continuation menv p = Inr payload"
    and w: "mlx_on_fs (write_bytes (Path fname) (utf8_encode (dumps_indented (JObj payload)))) m = (Inr (), m')"
    by (auto simp: maybe_write_source_continuation_def asked_prompt_def [symmetric] f d bindS_eq_Inr step_eq_Inr)
  then obtain u where "write_bytes (Path fname) (utf8_encode (dumps_indented (JObj payload))) (mlx_fs m) = (Inr u, mlx_fs m')"
    by (auto simp: mlx_on_fs_def split: prod.splits)
  moreover have "wf_json (JObj payload)" using source_continuation_payload [OF payload] source_payload_wf by metis
  ultimately have "path_exists (mlx_fs m') (Path fname)" "read_json (Path fname) (mlx_fs m') = (Inr (JObj payload), mlx_fs m')"
    using read_indented by blast+
  then show thesis using that payload assms(6,7) by (simp add: source_continuation_reference_def var_path_def f or_else_def)
qed

lemma ints_json_eq: "py_eq (ints_json is) (ints_json js) \<longleftrightarrow> is = js"
proof -
  have "py_eq_list (map JInt is) (map JInt js) \<longleftrightarrow> is = js"
    by (auto simp: py_eq_list_iff list_eq_iff_nth_eq)
  then show ?thesis by (simp add: ints_json_def)
qed

lemma is_list_ints: "is_list (ints_json is)"
  by (simp add: ints_json_def)

lemma source_payload_fields:
  "field_or (source_payload p pids out ids model n) ''prompt'' JNull = JStr p"
  "field_or (source_payload p pids out ids model n) ''text'' JNull = JStr out"
  "field_or (source_payload p pids out ids model n) ''token_ids'' JNull = ints_json ids"
  by (simp_all add: source_payload_def field_or_def)

text \<open>C14: The source's continuation reaches the comparison. After the source wrote its continuation, a target that reads the
  same file compares its own with exactly the prompt, text and token ids that the source generated: it reports
  equal prompts exactly when they are, and a match exactly when text and token ids are the same.\<close>

theorem source_continuation_compared:
  assumes "maybe_write_source_continuation menv rt m = (Inr (), m')" and "continuation_file_var menv = Some fname" and "fname \<noteq> []"
    and "asked_prompt menv rt = Some p" and "p \<noteq> []" and "source_var env = Some fname" and "expand env (Path fname) = Path fname"
    and "field_or actual ''prompt'' JNull = JStr q" and "field_or actual ''text'' JNull = JStr out'"
    and "field_or actual ''token_ids'' JNull = ints_json ids'"
  shows "\<exists>reference out ids. source_continuation menv p = Inr reference \<and>
    map_of reference ''text'' = Some (JStr out) \<and> map_of reference ''token_ids'' = Some (ints_json ids) \<and>
    source_continuation_reference env (mlx_fs m') = (Inr (Some reference), mlx_fs m') \<and>
    map_of (compare_continuations reference actual) ''prompt_matches'' = Some (JBool (p = q)) \<and>
    map_of (compare_continuations reference actual) ''matches'' = Some (JBool (out = out' \<and> ids = ids'))"
proof -
  obtain reference where r: "source_continuation menv p = Inr reference"
    "source_continuation_reference env (mlx_fs m') = (Inr (Some reference), mlx_fs m')"
    using written_reference [OF assms(1-7)] .
  obtain pids out ids n where pl: "reference = source_payload p pids out ids (mlx_model_id menv) n"
    using source_continuation_payload [OF r(1)] .
  have "map_of reference ''text'' = Some (JStr out)" "map_of reference ''token_ids'' = Some (ints_json ids)"
    by (simp_all add: pl source_payload_def)
  moreover have "map_of (compare_continuations reference actual) ''prompt_matches'' = Some (JBool (p = q))"
    "map_of (compare_continuations reference actual) ''matches'' = Some (JBool (out = out' \<and> ids = ids'))"
    using assms(8-10)
    by (cases "token_divergence (ints_json ids) (ints_json ids')";
        simp add: pl compare_continuations_def Let_def source_payload_fields ints_json_eq is_list_ints)+
  ultimately show ?thesis using r by blast
qed

definition sample_origin :: mlx_state where
  "sample_origin = \<lparr>live_rt = Some (new_live ''abcd'' [97, 98, 99, 100] (JList [])), mlx_fs = Map.empty\<rparr>"

theorem source_continuation_compared_witness:
  "\<exists>m reference. maybe_write_source_continuation (sample_mlx_env ''a'') (new_live [] [] JNull) sample_origin = (Inr (), m) \<and>
     source_continuation_reference (sample_target_env\<lparr>source_var := Some ''source.json''\<rparr>) (mlx_fs m) = (Inr (Some reference), mlx_fs m) \<and>
     map_of (compare_continuations reference [(''prompt'', JStr ''hi''), (''text'', JStr ''!''), (''token_ids'', ints_json [33])]) ''matches'' = Some (JBool True)"
proof -
  let ?a = "[(''prompt'', JStr ''hi''), (''text'', JStr ''!''), (''token_ids'', ints_json [33])]"
  have n: "int_of_text ''16'' = Inr 16" by code_simp
  have c: "source_continuation (sample_mlx_env ''a'') ''hi'' = Inr (source_payload ''hi'' [104, 105] ''!'' [33] ''gpt2'' 16)"
    by (simp add: source_continuation_def sample_mlx_env_def sample_mlx_def source_max_tokens_def either_var_def n Let_def
        extract_first_output_token_ids_def groups_def group_tokens_def group_items_def item_tokens_def int_list_def
        extract_first_output_text_def group_text_def item_text_def removeprefix_def mlx_model_id_def var_or_def)
  have p: "Path ''source.json'' = \<lparr>anchor = [], parts = [''source.json'']\<rparr>" by code_simp
  obtain m where w: "maybe_write_source_continuation (sample_mlx_env ''a'') (new_live [] [] JNull) sample_origin = (Inr (), m)"
    using c by (simp add: maybe_write_source_continuation_def sample_mlx_env_def source_continuation_prompt_def either_var_def)
      (simp add: mlx_on_fs_def write_bytes_def sample_origin_def p path_parent_def node_at_def)
  have f: "field_or ?a ''prompt'' JNull = JStr ''hi''" "field_or ?a ''text'' JNull = JStr ''!''" "field_or ?a ''token_ids'' JNull = ints_json [33]"
    by (simp_all add: field_or_def)
  from source_continuation_compared [OF w, of "''source.json''" "''hi''" "sample_target_env\<lparr>source_var := Some ''source.json''\<rparr>", OF _ _ _ _ _ _ f]
  show ?thesis using w c
    by (auto simp: sample_mlx_env_def sample_target_env_def asked_prompt_def source_continuation_prompt_def either_var_def source_payload_def ints_json_def)
qed

section \<open>The return trip\<close>

lemma reverse_state_fields:
  assumes "build_reverse_runtime_state env s c v = Inr state"
  obtains p out ids where "field_or c ''prompt'' JNull = JStr p" "field_or c ''text'' JNull = JStr out"
    "field_or state ''generated_text'' JNull = JStr out" "field_or state ''advanced_prompt'' JNull = JStr (p @ out)"
    "field_or state ''generated_token_ids'' JNull = ints_json ids" "dict_keys_ok state"
    "map_of state ''success'' = None" "map_of state ''reverse_runtime_state'' = None"
proof -
  obtain p where p: "field_or c ''prompt'' JNull = JStr p"
    using assms by (cases "field_or c ''prompt'' JNull") (auto simp: build_reverse_runtime_state_def)
  obtain out where out: "field_or c ''text'' JNull = JStr out"
    using assms by (cases "field_or c ''text'' JNull") (auto simp: build_reverse_runtime_state_def p)
  show thesis
    using assms unfolding build_reverse_runtime_state_def p out
    by (clarsimp simp: Let_def bindR_eq_Inr) (rule that [OF p out]; simp add: field_or_def ints_json_def dict_keys_ok_def)
qed

lemma exported_state:
  assumes "export_reverse_runtime_state env s = (Inr answer, t)" and "map_of answer ''reverse_runtime_state'' = Some (JObj state)"
  obtains c v where "last_continuation s = JObj c" "build_reverse_runtime_state env s c v = Inr state"
    "map_of answer ''success'' = Some (JBool True)"
proof -
  from assms obtain c where c: "last_continuation s = JObj c"
    by (cases "last_continuation s") (auto simp: export_reverse_runtime_state_def)
  from assms(1) obtain v st where v: "build_reverse_runtime_state env s c v = Inr st"
    and a: "answer = dict_update [(''success'', JBool True), (''reverse_runtime_state'', JObj st)] st"
    by (auto simp: export_reverse_runtime_state_def c Let_def bindS_eq_Inr step_eq_Inr)
  have "dict_keys_ok st" "map_of st ''reverse_runtime_state'' = None" "map_of st ''success'' = None" using reverse_state_fields [OF v] by metis+
  then have "map_of answer ''reverse_runtime_state'' = Some (JObj st)" "map_of answer ''success'' = Some (JBool True)"
    by (simp_all add: a map_of_dict_update map_add_def)
  with assms(2) v c show thesis using that by auto
qed


lemma write_report_live: "write_report env request report m = (r, m') \<Longrightarrow> live_rt m' = live_rt m"
  by (auto simp: write_report_def mlx_on_fs_def liftS_def Let_def split: list.splits option.splits prod.splits if_splits)

lemma materialized:
  assumes "materialize_reverse_runtime_state env request m = (Inr report, m')" and "field_or request ''reverse_runtime_state'' (JObj request) = JObj state"
  obtains target_text advanced_prompt tokens cache origin_text origin_ids n where
    "advanced_prompt_of state = Inr (target_text, advanced_prompt)" "encode (mlx env) advanced_prompt = Inr tokens"
    "report = import_report env state target_text advanced_prompt tokens origin_text origin_ids n"
    "live_rt m' = Some ((new_live advanced_prompt tokens cache)\<lparr>last_reverse_import := JObj report\<rparr>)"
proof -
  from assms obtain u target_text advanced_prompt where a: "advanced_prompt_of state = Inr (target_text, advanced_prompt)"
    by (auto simp: materialize_reverse_runtime_state_def bindS_eq_Inr step_eq_Inr)
  from assms show thesis
    unfolding materialize_reverse_runtime_state_def assms(2)
    by (clarsimp simp: a bindS_eq_Inr step_eq_Inr Let_def set_live_def)
      (drule write_report_live, rule that [OF a]; simp)
qed

definition import_request_of :: "obj \<Rightarrow> obj" where
  "import_request_of state = [(''action'', JStr ''import_reverse_runtime_state''), (''reverse_runtime_state'', JObj state)]"

lemma provider_import:
  "provider env (import_request_of state) = materialize_reverse_runtime_state env (import_request_of state)"
  "field_or (import_request_of state) ''reverse_runtime_state'' d = JObj state"
  by (simp_all add: provider_def import_request_of_def field_or_def)

definition sample_after :: "string \<Rightarrow> real_runtime" where
  "sample_after out = sample_real_runtime\<lparr>last_continuation :=
     JObj [(''prompt'', JStr ''hi''), (''text'', JStr out), (''token_ids'', JList [JInt 9])]\<rparr>"

lemma sample_exports:
  "\<exists>answer state. export_reverse_runtime_state sample_target_env (sample_after out) = (Inr answer, sample_after out) \<and>
     map_of answer ''reverse_runtime_state'' = Some (JObj state)"
proof -
  let ?c = "[(''prompt'', JStr ''hi''), (''text'', JStr out), (''token_ids'', JList [JInt 9])]"
  have e: "engine sample_target_env = sample_vllm" "probe_var sample_target_env = None" by (simp_all add: sample_target_env_def)
  obtain st where st: "build_reverse_runtime_state sample_target_env (sample_after out) ?c [] = Inr st"
    by (simp add: build_reverse_runtime_state_def field_or_def e sample_tokens Let_def)
  have "vt_verify_result (sample_after out) = JNull"
    by (simp add: sample_after_def sample_real_runtime_def new_real_runtime_def)
  then have x: "export_reverse_runtime_state sample_target_env (sample_after out) =
      (Inr (dict_update [(''success'', JBool True), (''reverse_runtime_state'', JObj st)] st), sample_after out)"
    using st by (simp add: export_reverse_runtime_state_def Let_def)
      (simp add: sample_after_def Let_def vt_probe_def vt_on_fs_def vt_append_probe_event_def var_path_def e liftS_def bindS_def)
  have "dict_keys_ok st" "map_of st ''reverse_runtime_state'' = None" using reverse_state_fields [OF st] by metis+
  with x show ?thesis by (simp add: map_of_dict_update map_add_def)
qed

lemma sample_live: "get_live_runtime (sample_mlx_env p) sample_origin = (Inr (new_live ''abcd'' [97, 98, 99, 100] (JList [])), sample_origin)"
proof -
  have "int_of_text ''4'' = Inr 4" by code_simp
  then show ?thesis
    by (simp add: get_live_runtime_def target_seq_len_def sample_mlx_env_def var_or_def ensure_runtime_def sample_origin_def new_live_def)
qed

text \<open>C13: The return trip. When a target exports its state and the source imports it, the source's runtime afterwards holds
  exactly the target's prompt followed by the text the target generated, with its own tokens for it, and its report
  names the target's proof.\<close>

theorem return_trip:
  assumes "export_reverse_runtime_state env s = (Inr answer, t)" and "map_of answer ''reverse_runtime_state'' = Some (JObj state)"
    and "provider menv (import_request_of state) m = (Inr report, m')"
  shows "\<exists>c p out rt tokens. last_continuation s = JObj c \<and> map_of c ''prompt'' = Some (JStr p) \<and> map_of c ''text'' = Some (JStr out) \<and>
    encode (mlx menv) (p @ out) = Inr tokens \<and> live_rt m' = Some rt \<and> prompt_text rt = p @ out \<and> prompt_tokens rt = tokens \<and>
    last_reverse_import rt = JObj report \<and> map_of report ''target_proof_hash'' = map_of state ''proof_hash''"
proof -
  obtain c v where c: "last_continuation s = JObj c" "build_reverse_runtime_state env s c v = Inr state"
    using exported_state [OF assms(1,2)] by metis
  obtain p out where f: "field_or c ''prompt'' JNull = JStr p" "field_or c ''text'' JNull = JStr out"
    "field_or state ''generated_text'' JNull = JStr out" "field_or state ''advanced_prompt'' JNull = JStr (p @ out)"
    using reverse_state_fields [OF c(2)] by metis
  obtain target_text advanced_prompt tokens cache origin_text origin_ids n where
    a: "advanced_prompt_of state = Inr (target_text, advanced_prompt)" "encode (mlx menv) advanced_prompt = Inr tokens"
    "report = import_report menv state target_text advanced_prompt tokens origin_text origin_ids n"
    "live_rt m' = Some ((new_live advanced_prompt tokens cache)\<lparr>last_reverse_import := JObj report\<rparr>)"
    using materialized [OF assms(3) [unfolded provider_import] provider_import(2)] .
  have "advanced_prompt = p @ out" using a(1) f(3,4) by (cases out; cases p) (auto simp: advanced_prompt_of_def adapter_error_def)
  moreover have "map_of report ''target_proof_hash'' = map_of state ''proof_hash''"
  proof -
    have "map_of state ''proof_hash'' \<noteq> None"
      using c(2) unfolding build_reverse_runtime_state_def f(1,2) by (auto simp: Let_def bindR_eq_Inr)
    then show ?thesis by (auto simp: a(3) import_report_def Let_def field_or_def)
  qed
  ultimately show ?thesis using a c(1) f(1,2) by (simp add: new_live_def field_or_JStr)
qed

theorem return_trip_witness:
  "\<exists>answer state report m rt. export_reverse_runtime_state sample_target_env (sample_after '' ok'') = (Inr answer, sample_after '' ok'') \<and>
     map_of answer ''reverse_runtime_state'' = Some (JObj state) \<and>
     provider (sample_mlx_env ''a'') (import_request_of state) sample_origin = (Inr report, m) \<and>
     live_rt m = Some rt \<and> prompt_text rt = ''hi ok''"
proof -
  obtain answer state where x: "export_reverse_runtime_state sample_target_env (sample_after '' ok'') = (Inr answer, sample_after '' ok'')"
    "map_of answer ''reverse_runtime_state'' = Some (JObj state)" using sample_exports by blast
  obtain c v where c: "last_continuation (sample_after '' ok'') = JObj c"
    "build_reverse_runtime_state sample_target_env (sample_after '' ok'') c v = Inr state" using exported_state [OF x] by metis
  then have cc: "c = [(''prompt'', JStr ''hi''), (''text'', JStr '' ok''), (''token_ids'', JList [JInt 9])]" by (simp add: sample_after_def)
  obtain p out where f: "field_or c ''prompt'' JNull = JStr p" "field_or c ''text'' JNull = JStr out"
    "field_or state ''generated_text'' JNull = JStr out" "field_or state ''advanced_prompt'' JNull = JStr (p @ out)"
    using reverse_state_fields [OF c(2)] by metis
  have "p = ''hi''" "out = '' ok''" using f(1,2) by (simp_all add: cc field_or_def)
  then have "advanced_prompt_of state = Inr ('' ok'', ''hi ok'')" using f(3,4) by (simp add: advanced_prompt_of_def)
  moreover have "int_of_text ''16'' = Inr 16" by code_simp
  ultimately obtain report m where "provider (sample_mlx_env ''a'') (import_request_of state) sample_origin = (Inr report, m)"
    by (simp add: provider_import materialize_reverse_runtime_state_def bindS_def [of "get_live_runtime _"] sample_live)
      (simp add: sample_mlx_env_def sample_mlx_def prefill_prompt_def source_max_tokens_def either_var_def Let_def
        extract_first_output_token_ids_def groups_def group_tokens_def group_items_def item_tokens_def int_list_def
        extract_first_output_text_def group_text_def item_text_def removeprefix_def write_report_def import_request_of_def field_or_def liftS_def)
  with x return_trip [OF x this] show ?thesis by (auto simp: sample_after_def)
qed

text \<open>C38: An empty continuation does not come back. When the target generated no text, it still exports its state as a
  success, and the source, once its runtime is up, refuses to import it.\<close>

theorem empty_continuation_refused:
  assumes "export_reverse_runtime_state env s = (Inr answer, t)" and "map_of answer ''reverse_runtime_state'' = Some (JObj state)"
    and "last_continuation s = JObj c" and "map_of c ''text'' = Some (JStr [])" and "get_live_runtime menv m = (Inr rt, m')"
  shows "map_of answer ''success'' = Some (JBool True) \<and>
    provider menv (import_request_of state) m = (Inl (AdapterError ''reverse runtime state is missing target generated_text''), m')"
proof -
  obtain v where v: "build_reverse_runtime_state env s c v = Inr state" and succ: "map_of answer ''success'' = Some (JBool True)"
    using exported_state [OF assms(1,2)] assms(3) by auto
  obtain p out where f: "field_or c ''text'' JNull = JStr out" "field_or state ''generated_text'' JNull = JStr out"
    using reverse_state_fields [OF v] by metis
  then have "field_or state ''generated_text'' JNull = JStr []" using assms(4) by (simp add: field_or_def)
  with succ show ?thesis
    using assms(5)
    by (simp add: provider_import materialize_reverse_runtime_state_def bindS_def advanced_prompt_of_def adapter_error_def liftS_def)
qed

theorem empty_continuation_refused_witness:
  "\<exists>answer state. export_reverse_runtime_state sample_target_env (sample_after []) = (Inr answer, sample_after []) \<and>
     map_of answer ''success'' = Some (JBool True) \<and>
     provider (sample_mlx_env ''a'') (import_request_of state) sample_origin =
       (Inl (AdapterError ''reverse runtime state is missing target generated_text''), sample_origin)"
proof -
  obtain answer state where x: "export_reverse_runtime_state sample_target_env (sample_after []) = (Inr answer, sample_after [])"
    "map_of answer ''reverse_runtime_state'' = Some (JObj state)" using sample_exports by blast
  have "last_continuation (sample_after []) = JObj [(''prompt'', JStr ''hi''), (''text'', JStr []), (''token_ids'', JList [JInt 9])]"
    by (simp add: sample_after_def)
  from empty_continuation_refused [OF x this _ sample_live] x(1) show ?thesis by auto
qed

end
