(* ===== verification/Spec2Isabelle.thy ===== *)
theory Spec2Isabelle
  imports ReferencePackage VllmSpool SdkClient LlamaRuntime Handshake Migration Fidelity ReturnTrip
begin

text \<open>
  A verification of the Python side of PermeantOS, which moves a running agent between machines: its
  memory graph, artifacts and tool calls as a package of files, its KV cache as blocks of tensors handed to a
  target runtime, and the transport and SDK that carry both. Paths below are relative to \<^verbatim>\<open>src/\<close>.

  \<^bold>\<open>The program and its model\<close>

  A Python value that can be written as JSON is a \<open>json\<close>; a dictionary is an association list in insertion
  order (\<open>obj\<close>). A function that may raise returns \<open>py_error + 'a\<close>, one constructor of \<open>py_error\<close> per exception
  class. A file system is a map from paths to files and directories (\<open>fs\<close>), and code that reads and writes is a
  function from \<open>fs\<close> to a result and the \<open>fs\<close> it leaves (\<open>'a io\<close>), also when it raises; code with an object of
  its own is the same over a record of its attributes (\<open>('s, 'a) st\<close>). A socket is the list of the byte strings
  its reads will find. Clocks, random bytes, environment variables, hooks and tensor libraries are arguments.

  \<^item> Foundations. \<open>Prelude\<close> has the exceptions, the sequencing of fallible and stateful steps and their rules;
    \<open>PyFloat\<close> binary64 numbers with round-to-even and their shortest decimal form; \<open>PyJson\<close> values, dictionaries and
    Python's equality; \<open>JsonText\<close> \<open>json.dumps\<close> in its three styles and \<open>json.loads\<close>; \<open>Sha256\<close> the digest;
    \<open>PyPath\<close> paths and the file system; \<open>PyText\<close> \<open>split\<close> and \<open>int\<close>; \<open>StateFiles\<close> the JSON state files of the runtimes.
  \<^item> The agent harness, \<^verbatim>\<open>examples/agent-memory-graph/local_agent.py\<close>. \<open>GraphCore\<close>: hashing, streaming, canonical
    graph hash, nodes, artifact records, embeddings. \<open>ToolReplay\<close>: \<open>audit_tool_replay_safety\<close> and the import gate.
    \<open>VectorMemory\<close>: snapshots and \<open>validate_vector_memory\<close>. \<open>Security\<close>: attestation and \<open>validate_security_policy\<close>.
    \<open>GraphBuild\<close>, \<open>ComplexAgent\<close>: the exported graphs and \<open>export_session\<close>. \<open>ImportSession\<close>: \<open>import_session\<close>. \<open>Resume\<close>:
    \<open>resume_imported_agent\<close> and \<open>return_home_agent\<close>.
  \<^item> \<open>FrameworkAdapters\<close>: \<^verbatim>\<open>examples/agent-memory-graph/framework_adapters.py\<close>.
  \<^item> The runtime adapters, \<^verbatim>\<open>adapters/\<close>. \<open>SpanMetadata\<close>: \<^verbatim>\<open>agent_graph_span_metadata.py\<close>. \<open>AdapterUtils\<close>:
    \<^verbatim>\<open>runtime_adapter_utils.py\<close>. \<open>KvLayout\<close>, \<open>KvWrite\<close>, \<open>VllmRegistry\<close>: \<^verbatim>\<open>vllm_live_runtime_registry.py\<close>, with nested
    lists for tensors. \<open>VllmBridge\<close>: \<^verbatim>\<open>vllm_runtime_bridge.py\<close>. \<open>VllmSpool\<close>: \<^verbatim>\<open>vllm_runtime_receiver.py\<close>,
    \<^verbatim>\<open>vllm_directory_consumer.py\<close> and \<^verbatim>\<open>vllm_import_worker.py\<close>. \<open>PytorchRuntime\<close>: \<^verbatim>\<open>pytorch_runtime_bridge.py\<close>.
    \<open>LlamaRuntime\<close>: \<^verbatim>\<open>llamacpp_runtime_bridge.py\<close>. \<open>MlxBridge\<close>, \<open>MlxLive\<close>: \<^verbatim>\<open>mlx_runtime_bridge.py\<close> and
    \<^verbatim>\<open>mlx_live_runtime.py\<close>, the source side. \<open>VllmTarget\<close>: the runtime object of \<^verbatim>\<open>vllm_real_runtime_target.py\<close>. \<open>Migration\<close>
    composes the MLX source with the PyTorch target, \<open>ReturnTrip\<close> the live source with the vLLM target. \<open>Fidelity\<close>:
    \<^verbatim>\<open>analyze_real_runtime_fidelity.py\<close>, the comparison of the continuations.
  \<^item> Transport and SDK. \<open>WsTransport\<close>, \<open>Handshake\<close>: \<^verbatim>\<open>adapters/production_transport_proxy.py\<close>. \<open>SdkClient\<close>:
    \<^verbatim>\<open>sdk/python/permeantos/client.py\<close> and \<^verbatim>\<open>memory_graph.py\<close>.

  Definitions keep the names of the functions they model, with a prefix where two files have the same name
  (\<open>pt_\<close> for PyTorch, \<open>lc_\<close> for llama.cpp, \<open>vt_\<close> for the vLLM target, \<open>fa_\<close> for the framework adapters).

  \<^bold>\<open>What is shown\<close>

  \<^item> Packages. Whatever \<open>export_session\<close> writes, \<open>import_session\<close> accepts, with the same graph hash and the exact
    bytes of every artifact (\<open>KeyOrder\<close>, \<open>RoundTrip\<close>, \<open>ExportedPackages\<close>, \<open>PackageRoundTrip\<close>; \<open>ReferencePackage\<close>
    instantiates the theorems on the package of the example agent). An import writes nothing before every check has
    passed and nothing outside its workspace. The replay gate refines an abstract replay policy; the security gate
    and the conformance check accept exactly what a declarative policy allows.
  \<^item> Binding. Prompt span metadata and SDK headers bind what they were computed from, and a report changed after it was
    sealed fails its proof, unless SHA-256 collides on the two byte strings at hand: the statement names them (the two
    prompts, the two token strings, the two blocks at one position, the two serialisations of the report), so it is not
    satisfied by the mere existence of collisions, and nothing is assumed of the digest.
  \<^item> Caches. The writers of the combined and the separate KV caches put every token where the layout says and change
    nothing else; the path from canonical tensors through blocks to cache cells is composed from the two files.
  \<^item> Hand-over. A block that was accepted reaches the worker hook unchanged, stays acknowledged, and still verifies
    after any further calls, failed ones included, and after restarts, whether or not events are logged to a probe
    file. A llama.cpp target claims a proven
    continuation only on evidence that passed its checks. The numbers the PyTorch target's tensor backend is given are
    exactly those of the cache that the MLX source exports, all of it or the tensors a request names, and the state a vLLM target exports is what the source continues from. A target compares its
    continuation with exactly the one the source generated, and decodes nothing on unverified blocks. The
    fidelity report calls a run aligned exactly when prompt, graph spans and continuation each check.
  \<^item> Transport. Frames and pipes carry every byte stream unchanged for every fragmentation; the handshake of the two
    ends succeeds; the client sends no state before the target accepted.
  \<^item> Properties of several components are at the end of this theory: the two reference targets record the same
    layers for a block both accept, and an SDK frame crosses the proxy.

  \<^bold>\<open>Interfaces\<close>

  Each interface is a locale, interpreted on the model's own definitions in the theory of the provider:
  \<open>byte_store\<close> (reading gives what the last write stored; \<open>PyPath\<close>), \<open>document_store\<close> (the same for JSON documents
  under sorted keys; \<open>StateFiles\<close>), \<open>digest_binding\<close> (equal digests of injective encodings mean equal values;
  \<open>GraphCore\<close>, \<open>SpanMetadata\<close>), \<open>self_certifying\<close> (a document that carries its own hash; \<open>GraphCore\<close>), \<open>indexed_store\<close>
  (assignment at an index path; \<open>KvWrite\<close>), \<open>growing_knowledge\<close> (no step of a state machine forgets; interpreted for
  the registry, the bridge, the receiver and the PyTorch runtime), \<open>exact_reader\<close> (a loop that reads exactly \<open>n\<close> bytes;
  the proxy and the SDK).

  \<^bold>\<open>Bounds\<close>

  The JSON scanner takes a fuel of twice the length of the text and one; more fuel gives the same result on every text
  (\<open>scan_fuel_step\<close>), so the bound never decides an outcome. The shape loop of the registry and its copies and the
  prompt loop of the live source can run forever; the model returns \<open>Diverges\<close> exactly then, and
  \<open>shape_loop_termination\<close> and \<open>prompt_loop_termination\<close> say when. All other loops are total functions. Machine words are 32-bit in the digests and CRC; Python integers are unbounded.

  \<^bold>\<open>Limits of the model\<close>

  Strings hold code points up to U+00FF; values outside the model (larger code points, \<open>float\<close> of text, truncation of
  floats) are the error \<open>OutsideModel\<close>, so no theorem covers them silently. Hooks get their arguments by value. Files
  have no permissions and no other process writes to them; a path names one file (no symbolic links). A write of a
  file is one step that happens or fails, so a file torn half-way through a write does not occur.

  \<^item> \<open>sum\<close> of floats adds from the left, as Python up to 3.11 does (the version the repository's workflows run); from
    3.12 on it compensates for the rounding, which can change the last bit of an embedding. No theorem depends on it.
  \<^item> The shape of a storage is read off nested lists; tensor objects with a \<open>shape\<close> of their own are not values of the
    model. \<open>torch.tensor\<close> is a parameter that may raise and whose result is an opaque value.
  \<^item> A call of the engine's \<open>cache_full_blocks\<close> that raises has bound nothing, and \<open>generate\<close> is a function of its
    arguments, so a generation whose result is thrown away leaves no trace.
  \<^item> Sending on a socket is one step that succeeds. The pipes of the proxy end with the bytes they have passed on; the
    shutdown of the sockets in their \<open>finally\<close> clauses is not represented.

  \<^bold>\<open>Not modelled\<close>

  \<^item> The command lines, printing and process management of every file, and the remote runner of the harness.
  \<^item> The inference engines: models, tokenizers, block pools and the walks over engine objects are arguments of
    \<open>VllmTarget\<close> and \<open>MlxLive\<close>; \<^verbatim>\<open>vllm_real_runtime_consumer.py\<close>, the MLX exporter and the hook that drives llama.cpp
    session files are left out, since what they do is the behaviour of the engines they call.
  \<^item> The loading of hooks by name, the listeners, TLS contexts and threads of the proxy, and the HTTP client and server
    loops around the modelled handlers.
  \<^item> Hook templates, fixtures, the fidelity horizon script, and the release, planning and evidence scripts.
  \<^item> The daemon in \<^verbatim>\<open>crates/\<close>, which is written in Rust.
\<close>

section \<open>Properties that span components\<close>

text \<open>C22: The two reference targets agree. When the PyTorch and the llama.cpp runtime both accept the same block, with or
  without a live hook, whatever they did before, they record the same layers for it: the same indices, shapes,
  value counts and digests of keys and values.\<close>

theorem targets_agree:
  assumes "pt_register_permeant_block env now payload s = (Inr r, t)"
    and "lc_register_permeant_block env' live now' payload request s' = (Inr r', t')"
    and "first_truthy payload ''hash'' ''block_hash'' = JStr h"
  shows "\<exists>a b ls. map_of (block_summaries t) h = Some (JObj a) \<and> map_of (lc_block_summaries t') h = Some (JObj b) \<and>
    map_of a ''layers'' = Some (JList ls) \<and> map_of b ''layers'' = Some (JList ls)"
proof (rule pt_register_parts [OF assms(1)], rule lc_register_parts [OF assms(2)])
  fix h1 ts g ls u v c cs ks acc w
  assume h1: "first_truthy payload ''hash'' ''block_hash'' = JStr h1" and ts: "map_of payload ''tensors'' = Some (JList ts)"
    and g: "pt_group_layer_tensors ts = Inr g" and l: "pt_register_layers env (sort_key fst g) s = (Inr ls, u)"
    and p: "pt_persist_runtime_summary env (note_block h1 (block_summary env h1 ls) u) = (Inr (), v)"
    and e: "pt_probe env now (dict_update [(''event'', JStr ''register_permeant_block'')] (block_summary env h1 ls)) v = (Inr (), t)"
    and h2: "first_truthy payload ''hash'' ''block_hash'' = JStr (c # cs)"
    and b: "bind_live live payload request (c # cs) (accepted_state (capabilities s') (c # cs) ks (field_or payload ''runtime_state'' JNull)) s' = (Inr acc, w)"
    and r: "record_block env' now' (c # cs) acc w = (Inr r', t')"
    and k: "lc_layer_summaries (case field_or payload ''tensors'' JNull of JList ts \<Rightarrow> ts | _ \<Rightarrow> []) = Inr ks"
  have hs: "h1 = h" "c # cs = h" using h1 h2 assms(3) by simp_all
  have "ls = ks" using k lc_layer_summaries_pt [OF l] g ts by (auto simp: lc_layer_summaries_def field_or_def pt_group_layer_tensors_def split: if_splits)
  moreover have "map_of (block_summaries t) h = Some (JObj (block_summary env h ls))"
  proof -
    obtain f where "t = v\<lparr>pt_fs := f\<rparr>" using pt_on_fs_cache [OF e [unfolded pt_probe_def]] by blast
    moreover obtain f' where "v = (note_block h1 (block_summary env h1 ls) u)\<lparr>pt_fs := f'\<rparr>" using pt_persist_cache [OF p] by blast
    ultimately show ?thesis by (simp add: note_block_def hs)
  qed
  moreover have "map_of (lc_block_summaries t') h = Some (JObj acc)" using record_block_ok [OF r] by (auto simp: hs lc_note_block_def)
  moreover have "map_of acc ''layers'' = Some (JList ks)" using bind_live_layers [OF b] by (simp add: accepted_layers)
  moreover have "map_of (block_summary env h ls) ''layers'' = Some (JList ls)" by (simp add: block_summary_def)
  ultimately show ?thesis by simp
qed

theorem targets_agree_witness:
  "\<exists>r t r' t' a b ls. pt_register_permeant_block pt_sample_env (JInt 0) pt_sample_block (pt_new_runtime Map.empty) = (Inr r, t) \<and>
    lc_register_permeant_block (lc_sample_env None) (Inr None) (JInt 0) pt_sample_block JNull (lc_new_runtime (lc_sample_env None) Map.empty) = (Inr r', t') \<and>
    map_of (block_summaries t) ''abc'' = Some (JObj a) \<and> map_of (lc_block_summaries t') ''abc'' = Some (JObj b) \<and>
    map_of a ''layers'' = Some (JList ls) \<and> map_of b ''layers'' = Some (JList ls)"
proof -
  let ?s = "lc_new_runtime (lc_sample_env None) Map.empty" and ?ts = "[pt_sample_tensor ''key'', pt_sample_tensor ''value'']"
  obtain r t where r: "pt_register_permeant_block pt_sample_env (JInt 0) pt_sample_block (pt_new_runtime Map.empty) = (Inr r, t)"
    using pt_sample_registers by blast
  have f: "first_truthy pt_sample_block ''hash'' ''block_hash'' = JStr ''abc''" "map_of pt_sample_block ''tensors'' = Some (JList ?ts)"
    "field_or pt_sample_block ''tensors'' JNull = JList ?ts"
    by (simp_all add: first_truthy_def field_or_def pt_sample_block_def)
  obtain ls where ls: "lc_layer_summaries ?ts = Inr ls"
    by (rule pt_register_parts [OF r]) (use f(2) in \<open>auto simp: lc_layer_summaries_def dest: lc_layer_summaries_pt\<close>)
  obtain r' t' where "record_block (lc_sample_env None) (JInt 0) ''abc''
      (accepted_state (capabilities ?s) ''abc'' ls (field_or pt_sample_block ''runtime_state'' JNull)) ?s = (Inr r', t')"
    using sample_record by blast
  with ls have r': "lc_register_permeant_block (lc_sample_env None) (Inr None) (JInt 0) pt_sample_block JNull ?s = (Inr r', t')"
    by (simp add: lc_register_permeant_block_def f(1,3) bindS_def liftS_def bind_live_def Let_def)
  from targets_agree [OF r r' f(1)] r r' show ?thesis by blast
qed

text \<open>C20: Frames cross the proxy. A message that the SDK client frames and sends into one end of the proxy is what it reads
  at the other end: whatever the masking keys and however the three streams, local, WebSocket and remote, are
  fragmented, as long as the length prefix arrives in one piece.\<close>

theorem frame_through_proxy:
  assumes "send_frame msg = Inr frame" and "wf_json msg"
    and "arriving source" and "concat source = frame" and "\<And>i. length (keys i) = 4"
    and "arriving websocket" and "concat websocket = fst (pipe_tcp_to_ws keys msk source)"
    and "arriving segs" and "concat segs = fst (pipe_ws_to_tcp msk websocket)" and "4 \<le> length (hd segs)"
  shows "recv_frame segs = (Inr msg, [])"
proof -
  let ?w = "fst (pipe_tcp_to_ws keys msk source)"
  have "concat websocket = take (length ?w) ?w" using assms(7) by simp
  from pipes_cut [OF assms(3,5,6) this] have "concat segs = frame @ []" using assms(4,9) by auto
  from recv_sent_frame [OF assms(1,2,8) this assms(10)] obtain t where "recv_frame segs = (Inr msg, t)" "arriving t" "concat t = []" by blast
  then show ?thesis by (cases t) (auto simp: arriving_def)
qed

theorem frame_through_proxy_witness:
  "\<exists>frame segs. send_frame commit_request = Inr frame \<and>
    concat segs = fst (pipe_ws_to_tcp True (map (\<lambda>c. [c]) (fst (pipe_tcp_to_ws (\<lambda>i. ''key0'') True [frame])))) \<and>
    recv_frame segs = (Inr commit_request, [])"
proof -
  obtain frame where f: "send_frame commit_request = Inr frame" "4 \<le> length frame"
    using send_small by blast
  then have a: "arriving [frame]" by (auto simp: arriving_def)
  let ?w = "fst (pipe_tcp_to_ws (\<lambda>i. ''key0'') True [frame])"
  have w: "arriving (map (\<lambda>c. [c]) ?w)" "concat (map (\<lambda>c. [c]) ?w) = take (length ?w) ?w" by (auto simp: arriving_def)
  have o: "fst (pipe_ws_to_tcp True (map (\<lambda>c. [c]) ?w)) = frame" using pipes_cut [OF a _ w] by auto
  have "wf_json commit_request" by (simp add: commit_request_def dict_keys_ok_def)
  then have "recv_frame [frame] = (Inr commit_request, [])"
    by (rule frame_through_proxy [OF f(1) _ a _ _ w(1), where keys = "\<lambda>i. ''key0''" and msk = True]) (use a o f(2) in simp_all)
  then show ?thesis using f(1) o by (intro exI [of _ frame] exI [of _ "[frame]"]) simp
qed

end
